(* ===== verification/Prelude.thy ===== *)
theory Prelude
  imports Main "HOL-Library.AList" "HOL-Library.Char_ord" "HOL-Library.List_Lexorder"
begin

text \<open>
  Shared vocabulary of the development: the exceptions the modelled Python code raises, the
  result type of fallible code, Python dictionaries as insertion-ordered association lists, and
  the generic facts the component theories use through the collections declared here.
\<close>

named_theorems a4p_defs \<open>definitions unfolded to expose the branches of an operation\<close>
named_theorems dict_simps \<open>equations of dictionary reads and writes\<close>

section \<open>Exceptions and results\<close>

text \<open>
  The exception classes of \<open>errors.py\<close>, \<open>mandate_security.py\<close>, \<open>usage_store.py\<close>,
  \<open>credential_store.py\<close> and the registry's \<open>cluster/transport.py\<close> together with the built-in classes the code raises. The first
  constructor is a plain \<open>ValueError\<close>; \<open>is_value_error\<close> says which classes derive from it.
\<close>

datatype exc =
    ValueError string
  | TypeError string
  | AttributeError string
  | KeyError string
  | RuntimeError string
  | OverflowError string
  | SignatureMethodNotEnabled "string option" string
  | CredentialKeyConflict
  | UserCredentialNotRegistered string string
  | MandateSecurityError string string
  | CredentialStoreFormatError string
  | UsageStoreError string
  | FileExistsError string
  | TransportError string

fun is_value_error :: "exc \<Rightarrow> bool" where
  "is_value_error (ValueError _) = True"
| "is_value_error (TypeError _) = False"
| "is_value_error (AttributeError _) = False"
| "is_value_error (KeyError _) = False"
| "is_value_error (RuntimeError _) = False"
| "is_value_error (OverflowError _) = False"
| "is_value_error (SignatureMethodNotEnabled _ _) = True"
| "is_value_error CredentialKeyConflict = True"
| "is_value_error (UserCredentialNotRegistered _ _) = True"
| "is_value_error (MandateSecurityError _ _) = True"
| "is_value_error (CredentialStoreFormatError _) = True"
| "is_value_error (UsageStoreError _) = False"
| "is_value_error (FileExistsError _) = False"
| "is_value_error (TransportError _) = False"

type_synonym 'a res = "exc + 'a"

text \<open>\<open>except_value_error r h\<close> is \<open>try: r  except ValueError as exc: h(exc)\<close>.\<close>

definition except_value_error :: "'a res \<Rightarrow> (exc \<Rightarrow> 'a res) \<Rightarrow> 'a res" where
  "except_value_error r h =
     (case r of Inr x \<Rightarrow> Inr x | Inl e \<Rightarrow> if is_value_error e then h e else Inl e)"

definition rbind :: "'e + 'a \<Rightarrow> ('a \<Rightarrow> 'e + 'b) \<Rightarrow> 'e + 'b" where
  "rbind r f = (case r of Inl e \<Rightarrow> Inl e | Inr x \<Rightarrow> f x)"

lemma rbind_simps [simp]:
  "rbind (Inl e) f = Inl e"
  "rbind (Inr x) f = f x"
  by (simp_all add: rbind_def)

lemma rbind_Inr_iff: "rbind r f = Inr y \<longleftrightarrow> (\<exists>x. r = Inr x \<and> f x = Inr y)"
  by (cases r) auto

lemma rbind_Inl_iff: "rbind r f = Inl e \<longleftrightarrow> r = Inl e \<or> (\<exists>x. r = Inr x \<and> f x = Inl e)"
  by (cases r) auto

lemma rbind_cong [fundef_cong]:
  "r = r' \<Longrightarrow> (\<And>x. r' = Inr x \<Longrightarrow> f x = g x) \<Longrightarrow> rbind r f = rbind r' g"
  by (cases r') auto

text \<open>\<open>[f(x) for x in xs]\<close> where \<open>f\<close> may raise: the first exception wins.\<close>

fun traverse :: "('a \<Rightarrow> 'e + 'b) \<Rightarrow> 'a list \<Rightarrow> 'e + 'b list" where
  "traverse f [] = Inr []"
| "traverse f (x # xs) = rbind (f x) (\<lambda>y. rbind (traverse f xs) (\<lambda>ys. Inr (y # ys)))"

lemma traverse_Inr_iff:
  "traverse f xs = Inr ys \<longleftrightarrow> list_all2 (\<lambda>x y. f x = Inr y) xs ys"
  by (induction xs arbitrary: ys) (auto simp: rbind_Inr_iff list_all2_Cons1)

lemma traverse_cong [fundef_cong]:
  "xs = ys \<Longrightarrow> (\<And>x. x \<in> set ys \<Longrightarrow> f x = g x) \<Longrightarrow> traverse f xs = traverse g ys"
  by (induction ys arbitrary: xs) auto

section \<open>Dictionaries\<close>

text \<open>
  A Python \<open>dict\<close> is an association list in insertion order. Assignment is
  \<^const>\<open>AList.update\<close>: it keeps the position of a key that is present and appends a new one,
  as CPython does. \<open>d.pop(k, None)\<close> is \<^const>\<open>AList.delete\<close>.
\<close>

abbreviation keys_distinct :: "('k \<times> 'v) list \<Rightarrow> bool" where
  "keys_distinct d \<equiv> distinct (map fst d)"

lemma map_of_update [simp, dict_simps]: "map_of (AList.update k v d) = (map_of d)(k \<mapsto> v)"
  by (rule update_conv')

lemma map_of_delete [simp, dict_simps]: "map_of (AList.delete k d) = (map_of d)(k := None)"
  by (rule delete_conv')

lemma keys_distinct_update [simp]: "keys_distinct d \<Longrightarrow> keys_distinct (AList.update k v d)"
  by (rule distinct_update)

lemma keys_distinct_delete [simp]: "keys_distinct d \<Longrightarrow> keys_distinct (AList.delete k d)"
  by (rule distinct_delete)

lemma keys_distinct_filter [simp]: "keys_distinct d \<Longrightarrow> keys_distinct (filter P d)"
  by (rule distinct_map_filter)

lemma map_of_filter_distinct:
  "keys_distinct d \<Longrightarrow>
   map_of (filter P d) k = (case map_of d k of None \<Rightarrow> None | Some v \<Rightarrow> if P (k, v) then Some v else None)"
proof (induction d)
  case Nil
  then show ?case by simp
next
  case (Cons p d)
  obtain k' v' where p: "p = (k', v')" by (cases p)
  have no: "map_of d k' = None" if "k' \<notin> fst ` set d"
    using that by (auto simp: map_of_eq_None_iff)
  show ?case using Cons p no by (auto split: option.splits)
qed

lemma map_of_filter_key: "map_of (filter (\<lambda>(k, _). P k) d) k = (if P k then map_of d k else None)"
  by (induction d) auto

end
