(* ===== verification/PyValue.thy ===== *)
theory PyValue
  imports Prelude
begin

text \<open>
  The Python values that cross the A4P interfaces: JSON values as \<open>json.loads\<close> builds them
  (numbers are integers), and the built-in operations the sources apply to them. A Python
  \<open>str\<close> is a list of characters, one per code point below 256 (Latin-1), so that
  \<open>strip\<close>, \<open>lower\<close>, \<open>repr\<close> and globbing are exact on that range. Since \<open>copy.deepcopy\<close> yields
  an equal value, it is the identity here.
\<close>

datatype pyval =
    PNone
  | PBool bool
  | PInt int
  | PStr string
  | PList "pyval list"
  | PDict "(string \<times> pyval) list"

type_synonym pdict = "(string \<times> pyval) list"

section \<open>Truth value, isinstance, get\<close>

fun truthy :: "pyval \<Rightarrow> bool" where
  "truthy PNone = False"
| "truthy (PBool b) = b"
| "truthy (PInt i) = (i \<noteq> 0)"
| "truthy (PStr s) = (s \<noteq> [])"
| "truthy (PList xs) = (xs \<noteq> [])"
| "truthy (PDict d) = (d \<noteq> [])"

definition py_or :: "pyval \<Rightarrow> pyval \<Rightarrow> pyval" where
  "py_or v w = (if truthy v then v else w)"

fun is_dict :: "pyval \<Rightarrow> bool" where
  "is_dict (PDict _) = True"
| "is_dict _ = False"

fun is_str :: "pyval \<Rightarrow> bool" where
  "is_str (PStr _) = True"
| "is_str _ = False"

fun hashable :: "pyval \<Rightarrow> bool" where
  "hashable (PList _) = False"
| "hashable (PDict _) = False"
| "hashable _ = True"

text \<open>\<open>d.get(k, default)\<close>, \<open>d.get(k)\<close> and \<open>v if isinstance(v, dict) else {}\<close>.\<close>

definition dget_or :: "pdict \<Rightarrow> string \<Rightarrow> pyval \<Rightarrow> pyval" where
  "dget_or d k dflt = (case map_of d k of None \<Rightarrow> dflt | Some v \<Rightarrow> v)"

abbreviation dget :: "pdict \<Rightarrow> string \<Rightarrow> pyval" where
  "dget d k \<equiv> dget_or d k PNone"

fun as_dict :: "pyval \<Rightarrow> pdict" where
  "as_dict (PDict d) = d"
| "as_dict _ = []"

lemma dget_or_update [simp, dict_simps]:
  "dget_or (AList.update k v d) k' dflt = (if k = k' then v else dget_or d k' dflt)"
  by (simp add: dget_or_def)

lemma dget_or_Cons [simp, dict_simps]:
  "dget_or ((k, v) # d) k' dflt = (if k = k' then v else dget_or d k' dflt)"
  by (simp add: dget_or_def)

lemma dget_or_Nil [simp, dict_simps]: "dget_or [] k dflt = dflt"
  by (simp add: dget_or_def)

section \<open>Equality\<close>

text \<open>
  Python's \<open>==\<close>: \<open>True == 1\<close>, \<open>False == 0\<close>, and dictionaries compare without regard to the
  order of their keys.
\<close>

fun py_eq :: "pyval \<Rightarrow> pyval \<Rightarrow> bool"
  and py_eqs :: "pyval list \<Rightarrow> pyval list \<Rightarrow> bool"
  and py_sub :: "pdict \<Rightarrow> pdict \<Rightarrow> bool"
where
  "py_eq PNone w = (w = PNone)"
| "py_eq (PBool a) w = (case w of PBool b \<Rightarrow> a = b | PInt j \<Rightarrow> of_bool a = j | _ \<Rightarrow> False)"
| "py_eq (PInt i) w = (case w of PBool b \<Rightarrow> i = of_bool b | PInt j \<Rightarrow> i = j | _ \<Rightarrow> False)"
| "py_eq (PStr s) w = (w = PStr s)"
| "py_eq (PList xs) w = (case w of PList ys \<Rightarrow> py_eqs xs ys | _ \<Rightarrow> False)"
| "py_eq (PDict d) w =
     (case w of PDict e \<Rightarrow> length d = length e \<and> py_sub d e | _ \<Rightarrow> False)"
| "py_eqs [] ys = (ys = [])"
| "py_eqs (x # xs) ys = (case ys of [] \<Rightarrow> False | y # ys' \<Rightarrow> py_eq x y \<and> py_eqs xs ys')"
| "py_sub [] e = True"
| "py_sub ((k, v) # d) e =
     ((case map_of e k of None \<Rightarrow> False | Some w \<Rightarrow> py_eq v w) \<and> py_sub d e)"

fun wf_val :: "pyval \<Rightarrow> bool"
  and wf_vals :: "pyval list \<Rightarrow> bool"
  and wf_items :: "pdict \<Rightarrow> bool"
where
  "wf_val PNone = True"
| "wf_val (PBool _) = True"
| "wf_val (PInt _) = True"
| "wf_val (PStr _) = True"
| "wf_val (PList xs) = wf_vals xs"
| "wf_val (PDict d) = (keys_distinct d \<and> wf_items d)"
| "wf_vals [] = True"
| "wf_vals (x # xs) = (wf_val x \<and> wf_vals xs)"
| "wf_items [] = True"
| "wf_items ((k, v) # d) = (wf_val v \<and> wf_items d)"

lemma py_eq_str [simp]: "py_eq v (PStr s) \<longleftrightarrow> v = PStr s"
  by (cases v) auto

lemma wf_items_iff: "wf_items d \<longleftrightarrow> (\<forall>(k, v) \<in> set d. wf_val v)"
  by (induction d) auto

lemma wf_vals_iff: "wf_vals xs \<longleftrightarrow> (\<forall>x \<in> set xs. wf_val x)"
  by (induction xs) auto

lemma py_sub_iff:
  "py_sub d e \<longleftrightarrow> (\<forall>(k, v) \<in> set d. \<exists>w. map_of e k = Some w \<and> py_eq v w)"
  by (induction d) (auto split: option.splits)

lemma py_eqs_iff: "py_eqs xs ys \<longleftrightarrow> list_all2 py_eq xs ys"
  by (induction xs arbitrary: ys) (auto simp: list_all2_Cons1 split: list.splits)

lemma py_eq_refl: "wf_val v \<Longrightarrow> py_eq v v"
proof (induction v)
  case (PList xs)
  then show ?case by (auto simp: py_eqs_iff wf_vals_iff list.rel_refl_strong)
next
  case (PDict d)
  then show ?case
    by (fastforce simp: py_sub_iff wf_items_iff map_of_eq_Some_iff snds.simps)
qed auto

section \<open>Strings\<close>

text \<open>\<open>str.isspace\<close> on Latin-1, \<open>str.strip\<close>, \<open>str.lower\<close> and \<open>sub in text\<close>.\<close>

definition is_space :: "char \<Rightarrow> bool" where
  "is_space c = (let n = (of_char c :: nat) in
     9 \<le> n \<and> n \<le> 13 \<or> 28 \<le> n \<and> n \<le> 32 \<or> n = 133 \<or> n = 160)"

definition strip :: "string \<Rightarrow> string" where
  "strip s = rev (dropWhile is_space (rev (dropWhile is_space s)))"

definition lower_char :: "char \<Rightarrow> char" where
  "lower_char c = (let n = (of_char c :: nat) in
     if 65 \<le> n \<and> n \<le> 90 \<or> 192 \<le> n \<and> n \<le> 222 \<and> n \<noteq> 215 then char_of (n + 32) else c)"

definition lower :: "string \<Rightarrow> string" where
  "lower s = map lower_char s"

fun starts_with :: "string \<Rightarrow> string \<Rightarrow> bool" where
  "starts_with [] s = True"
| "starts_with (c # p) [] = False"
| "starts_with (c # p) (d # s) = (c = d \<and> starts_with p s)"

fun contains :: "string \<Rightarrow> string \<Rightarrow> bool" where
  "contains p [] = (p = [])"
| "contains p (c # s) = (starts_with p (c # s) \<or> contains p s)"

lemma strip_Nil [simp]: "strip [] = []"
  by (simp add: strip_def)

lemma strip_id:
  assumes "s \<noteq> []" "\<not> is_space (hd s)" "\<not> is_space (last s)"
  shows "strip s = s"
proof -
  have "dropWhile is_space s = s"
    using assms by (cases s) auto
  moreover have "dropWhile is_space (rev s) = rev s"
    using assms by (cases s rule: rev_cases) auto
  ultimately show ?thesis by (simp add: strip_def)
qed

lemma strip_no_space: "list_all (\<lambda>c. \<not> is_space c) s \<Longrightarrow> strip s = s"
  by (cases "s = []") (auto simp: list_all_iff intro: strip_id)

lemma strip_edges:
  assumes "strip s \<noteq> []"
  shows "\<not> is_space (hd (strip s)) \<and> \<not> is_space (last (strip s))"
proof -
  define t where "t = dropWhile is_space s"
  define u where "u = dropWhile is_space (rev t)"
  have st: "strip s = rev u" by (simp add: strip_def t_def u_def)
  with assms have u: "u \<noteq> []" by simp
  have lastc: "\<not> is_space (last (rev u))"
    using u hd_dropWhile [of is_space "rev t"] by (simp add: u_def last_rev)
  have "t \<noteq> []" using u by (auto simp: u_def)
  then have ht: "\<not> is_space (hd t)"
    using hd_dropWhile [of is_space s] by (simp add: t_def)
  obtain v where "rev t = v @ u"
    using takeWhile_dropWhile_id [of is_space "rev t"] u_def by metis
  then have "t = rev u @ rev v" by (metis rev_append rev_rev_ident)
  then have "hd t = hd (rev u)" using u by simp
  with ht lastc st show ?thesis by simp
qed

lemma strip_strip [simp]: "strip (strip s) = strip s"
  using strip_id strip_edges by (cases "strip s = []") auto

lemma starts_with_iff: "starts_with p s \<longleftrightarrow> (\<exists>t. s = p @ t)"
  by (induction p s rule: starts_with.induct) auto

lemma contains_iff: "contains p s \<longleftrightarrow> (\<exists>a b. s = a @ p @ b)"
proof (induction s)
  case Nil
  then show ?case by auto
next
  case (Cons c s)
  show ?case (is "?l \<longleftrightarrow> ?r")
  proof
    assume ?l
    then show ?r
      using Cons starts_with_iff by (metis append.left_neutral append_Cons contains.simps(2))
  next
    assume ?r
    then obtain a b where ab: "c # s = a @ p @ b" by blast
    then show ?l
    proof (cases a)
      case Nil
      with ab have "starts_with p (c # s)" by (auto simp only: starts_with_iff append_Nil)
      then show ?thesis by simp
    next
      case (Cons x a')
      with ab have "s = a' @ p @ b" by simp
      with Cons.IH show ?thesis by auto
    qed
  qed
qed

text \<open>A text between single quotes, as the messages write identifiers.\<close>

definition quoted :: "string \<Rightarrow> string" where
  "quoted s = CHR 39 # s @ [CHR 39]"

section \<open>Decimal digits, repr and str\<close>

definition digit_char :: "nat \<Rightarrow> char" where
  "digit_char n = char_of (48 + n)"

fun nat_str :: "nat \<Rightarrow> string" where
  "nat_str n = (if n < 10 then [digit_char n] else nat_str (n div 10) @ [digit_char (n mod 10)])"

declare nat_str.simps [simp del]

definition int_str :: "int \<Rightarrow> string" where
  "int_str i = (if i < 0 then CHR ''-'' # nat_str (nat (- i)) else nat_str (nat i))"

definition hex_char :: "nat \<Rightarrow> char" where
  "hex_char n = (if n < 10 then char_of (48 + n) else char_of (87 + n))"

definition hex2 :: "char \<Rightarrow> string" where
  "hex2 c = (let n = (of_char c :: nat) in [hex_char (n div 16), hex_char (n mod 16)])"

definition is_printable :: "char \<Rightarrow> bool" where
  "is_printable c = (let n = (of_char c :: nat) in
     32 \<le> n \<and> n \<le> 126 \<or> 161 \<le> n \<and> n \<noteq> 173)"

definition repr_char :: "char \<Rightarrow> char \<Rightarrow> string" where
  "repr_char q c =
     (if c = q \<or> c = CHR 92 then [CHR 92, c]
      else if c = CHR 9 then [CHR 92, CHR ''t'']
      else if c = CHR 10 then [CHR 92, CHR ''n'']
      else if c = CHR 13 then [CHR 92, CHR ''r'']
      else if is_printable c then [c]
      else [CHR 92, CHR ''x''] @ hex2 c)"

definition repr_str :: "string \<Rightarrow> string" where
  "repr_str s =
     (let q = (if CHR 39 \<in> set s \<and> CHR 34 \<notin> set s then CHR 34 else CHR 39)
      in [q] @ concat (map (repr_char q) s) @ [q])"

fun join :: "string \<Rightarrow> string list \<Rightarrow> string" where
  "join sep [] = []"
| "join sep [x] = x"
| "join sep (x # y # ys) = x @ sep @ join sep (y # ys)"

fun py_repr :: "pyval \<Rightarrow> string"
  and py_reprs :: "pyval list \<Rightarrow> string list"
  and py_repr_items :: "pdict \<Rightarrow> string list"
where
  "py_repr PNone = ''None''"
| "py_repr (PBool b) = (if b then ''True'' else ''False'')"
| "py_repr (PInt i) = int_str i"
| "py_repr (PStr s) = repr_str s"
| "py_repr (PList xs) = ''['' @ join '', '' (py_reprs xs) @ '']''"
| "py_repr (PDict d) = ''{'' @ join '', '' (py_repr_items d) @ ''}''"
| "py_reprs [] = []"
| "py_reprs (x # xs) = py_repr x # py_reprs xs"
| "py_repr_items [] = []"
| "py_repr_items ((k, v) # d) = (repr_str k @ '': '' @ py_repr v) # py_repr_items d"

definition py_str :: "pyval \<Rightarrow> string" where
  "py_str v = (case v of PStr s \<Rightarrow> s | _ \<Rightarrow> py_repr v)"

text \<open>\<open>str(v or "")\<close> and \<open>str(v or "").strip()\<close>, the coercions the services apply to fields.\<close>

definition str_or :: "pyval \<Rightarrow> string \<Rightarrow> string" where
  "str_or v dflt = py_str (py_or v (PStr dflt))"

definition text_of :: "pyval \<Rightarrow> string" where
  "text_of v = strip (str_or v [])"

lemma str_or_simps [simp]:
  "str_or PNone dflt = dflt"
  "str_or (PStr s) dflt = (if s = [] then dflt else s)"
  by (simp_all add: str_or_def py_or_def py_str_def)

lemma text_of_simps [simp]:
  "text_of PNone = []"
  "text_of (PStr s) = strip s"
  by (simp_all add: text_of_def)

text \<open>
  \<open>dict(v)\<close>: a copy of a dictionary, the dictionary of a list of two-element lists with string
  keys; any other list is refused with \<open>TypeError\<close>, a string with \<open>ValueError\<close> (its elements
  have length one), a number, a boolean or \<open>None\<close> with \<open>TypeError\<close>.
\<close>

fun pair_items :: "pyval list \<Rightarrow> pdict res" where
  "pair_items [] = Inr []"
| "pair_items (PList [PStr k, v] # xs) = rbind (pair_items xs) (\<lambda>d. Inr ((k, v) # d))"
| "pair_items (_ # xs) = Inl (TypeError ''cannot convert dictionary update sequence'')"

definition dict_of_pairs :: "pdict \<Rightarrow> pdict" where
  "dict_of_pairs ps = foldl (\<lambda>d (k, v). AList.update k v d) [] ps"

fun dict_ctor :: "pyval \<Rightarrow> pdict res" where
  "dict_ctor (PDict d) = Inr d"
| "dict_ctor (PList xs) = rbind (pair_items xs) (\<lambda>ps. Inr (dict_of_pairs ps))"
| "dict_ctor (PStr s) = (if s = [] then Inr []
     else Inl (ValueError ''dictionary update sequence element #0 has length 1; 2 is required''))"
| "dict_ctor PNone = Inl (TypeError ''object is not iterable'')"
| "dict_ctor (PBool _) = Inl (TypeError ''object is not iterable'')"
| "dict_ctor (PInt _) = Inl (TypeError ''object is not iterable'')"

section \<open>Exception texts\<close>

text \<open>\<open>str(exc)\<close> for the exceptions of the model, from their constructors in \<open>errors.py\<close>.\<close>

fun exc_msg :: "exc \<Rightarrow> string" where
  "exc_msg (ValueError m) = m"
| "exc_msg (TypeError m) = m"
| "exc_msg (AttributeError m) = m"
| "exc_msg (KeyError m) = m"
| "exc_msg (RuntimeError m) = m"
| "exc_msg (OverflowError m) = m"
| "exc_msg (SignatureMethodNotEnabled expected requested) =
     ''Signature method '' @ quoted requested @ '' is not enabled; configured method is '' @
     (case expected of None \<Rightarrow> ''None'' | Some m \<Rightarrow> repr_str m)"
| "exc_msg CredentialKeyConflict = ''The public key is already registered to another user''"
| "exc_msg (UserCredentialNotRegistered user method) =
     ''No '' @ quoted method @ '' credential is registered for user: '' @ user"
| "exc_msg (MandateSecurityError code m) = m"
| "exc_msg (CredentialStoreFormatError m) = m"
| "exc_msg (UsageStoreError m) = m"

text \<open>The stable codes and HTTP statuses of \<open>A4PProtocolError\<close>; other classes have none.\<close>

fun protocol_error :: "exc \<Rightarrow> (string \<times> nat) option" where
  "protocol_error (SignatureMethodNotEnabled _ _) = Some (''SIGNATURE_METHOD_NOT_ENABLED'', 409)"
| "protocol_error CredentialKeyConflict = Some (''CREDENTIAL_KEY_CONFLICT'', 409)"
| "protocol_error (UserCredentialNotRegistered _ _) = Some (''USER_CREDENTIAL_NOT_REGISTERED'', 400)"
| "protocol_error _ = None"

section \<open>Equal dictionaries agree key by key\<close>

lemma py_eq_dict_lookup:
  assumes "keys_distinct d" "py_eq (PDict d) (PDict e)"
  shows "rel_option py_eq (map_of d k) (map_of e k)"
proof -
  have sub: "\<forall>(k, v) \<in> set d. \<exists>w. map_of e k = Some w \<and> py_eq v w" and len: "length d = length e"
    using assms(2) by (simp_all add: py_sub_iff)
  have s: "fst ` set d \<subseteq> fst ` set e" using sub by (force dest: map_of_SomeD)
  have "card (fst ` set d) = length d" using assms(1) by (metis distinct_card length_map list.set_map)
  moreover have "card (fst ` set e) \<le> length e" using card_length [of "map fst e"] by simp
  ultimately have eq: "fst ` set d = fst ` set e"
    using s len by (metis List.finite_set card_seteq finite_imageI)
  show ?thesis
  proof (cases "map_of d k")
    case None
    then have "map_of e k = None" using eq by (simp add: map_of_eq_None_iff)
    with None show ?thesis by simp
  next
    case (Some v)
    then have "(k, v) \<in> set d" by (rule map_of_SomeD)
    with sub Some show ?thesis by auto
  qed
qed

lemma py_eq_dget:
  assumes "keys_distinct d" "py_eq (PDict d) (PDict e)" "py_eq v v"
  shows "py_eq (dget_or d k v) (dget_or e k v)"
  using py_eq_dict_lookup [OF assms(1,2), of k] assms(3)
  by (cases "map_of d k"; cases "map_of e k") (auto simp: dget_or_def)

lemma wf_dget: "wf_val (PDict d) \<Longrightarrow> wf_val v \<Longrightarrow> wf_val (dget_or d k v)"
  by (auto simp: dget_or_def wf_items_iff dest: map_of_SomeD split: option.splits)

lemma wf_as_dict: "wf_val v \<Longrightarrow> wf_val (PDict (as_dict v))"
  by (cases v) auto

lemma wf_items_map_of: "keys_distinct d \<Longrightarrow> wf_items d \<longleftrightarrow> (\<forall>k v. map_of d k = Some v \<longrightarrow> wf_val v)"
  by (auto simp: wf_items_iff)

lemma wf_update: "wf_val (PDict d) \<Longrightarrow> wf_val v \<Longrightarrow> wf_val (PDict (AList.update k v d))"
  by (simp add: wf_items_map_of) (auto simp: wf_items_iff)

end
