(* ===== verification/Glob.thy ===== *)
theory Glob
  imports PyValue
begin

text \<open>
  \<open>fnmatch.fnmatchcase\<close>, the shell-style matching that intent scopes apply to string parameters.
  The pattern is compiled the way \<open>fnmatch.translate\<close> does, including its treatment of
  character ranges; matching a compiled pattern is the meaning of the regular expression it builds.
\<close>

datatype glob_tok = GStar | GAny | GNever | GLit char | GSet bool "string list"

text \<open>
  The text between the brackets: an optional \<open>!\<close>, an optional \<open>]\<close>, then everything up to the next
  \<open>]\<close>; without one the bracket stands for itself.
\<close>

definition lead :: "char \<Rightarrow> string \<Rightarrow> string \<times> string" where
  "lead c s = (case s of x # r \<Rightarrow> if x = c then ([x], r) else ([], s) | [] \<Rightarrow> ([], s))"

definition bracket_split :: "string \<Rightarrow> (string \<times> string) option" where
  "bracket_split s =
     (let (p, s1) = lead CHR ''!'' s;
          (q, s2) = lead CHR '']'' s1;
          body = takeWhile (\<lambda>c. c \<noteq> CHR '']'') s2
      in case dropWhile (\<lambda>c. c \<noteq> CHR '']'') s2 of [] \<Rightarrow> None | _ # r \<Rightarrow> Some (p @ q @ body, r))"

lemma lead_length: "lead c s = (p, r) \<Longrightarrow> length r \<le> length s"
  by (auto simp: lead_def split: list.splits if_splits)

lemma bracket_split_length:
  assumes "bracket_split s = Some (stuff, r)"
  shows "length r < length s"
proof -
  obtain p s1 q s2 where l: "lead CHR ''!'' s = (p, s1)" "lead CHR '']'' s1 = (q, s2)"
    by (metis surj_pair)
  with assms obtain x where "dropWhile (\<lambda>c. c \<noteq> CHR '']'') s2 = x # r"
    by (auto simp: bracket_split_def split: list.splits)
  then have "length r < length s2"
    using length_dropWhile_le [of "\<lambda>c. c \<noteq> CHR '']''" s2] by simp
  with lead_length [OF l(1)] lead_length [OF l(2)] show ?thesis by simp
qed

text \<open>
  The chunks a hyphen separates: the first character (the first two after \<open>!\<close>) and the two after a
  separator are never separators; a hyphen at the very end belongs to the last chunk.
\<close>

fun chunk_scan :: "nat \<Rightarrow> string \<Rightarrow> string \<Rightarrow> string list" where
  "chunk_scan skip acc [] = [rev acc]"
| "chunk_scan (Suc skip) acc (c # cs) = chunk_scan skip (c # acc) cs"
| "chunk_scan 0 acc (c # cs) =
     (if c = CHR ''-'' then rev acc # chunk_scan 2 [] cs else chunk_scan 0 (c # acc) cs)"

definition close_chunks :: "string list \<Rightarrow> string list" where
  "close_chunks cs =
     (if length cs > 1 \<and> last cs = [] then butlast (butlast cs) @ [last (butlast cs) @ ''-''] else cs)"

text \<open>Empty ranges are removed from the right.\<close>

fun merge_chunks :: "string list \<Rightarrow> string list" where
  "merge_chunks [] = []"
| "merge_chunks (x # xs) =
     (case merge_chunks xs of
        [] \<Rightarrow> [x]
      | y # ys \<Rightarrow>
          if x \<noteq> [] \<and> y \<noteq> [] \<and> hd y < last x then (butlast x @ tl y) # ys else x # y # ys)"

definition bracket_tok :: "string \<Rightarrow> glob_tok" where
  "bracket_tok stuff =
     (let chunks = (if CHR ''-'' \<in> set stuff
            then merge_chunks (close_chunks (chunk_scan (if hd stuff = CHR ''!'' then 2 else 1) [] stuff))
            else [stuff])
      in if chunks = [[]] then GNever
         else if chunks = [''!''] then GAny
         else (case chunks of
             (CHR ''!'' # c) # cs \<Rightarrow> GSet False (c # cs)
           | _ \<Rightarrow> GSet True chunks))"

function glob_compile :: "string \<Rightarrow> glob_tok list" where
  "glob_compile [] = []"
| "glob_compile (c # s) =
     (if c = CHR ''*'' then GStar # glob_compile s
      else if c = CHR ''?'' then GAny # glob_compile s
      else if c = CHR ''['' then
        (case bracket_split s of
           None \<Rightarrow> GLit c # glob_compile s
         | Some (stuff, r) \<Rightarrow> bracket_tok stuff # glob_compile r)
      else GLit c # glob_compile s)"
  by pat_completeness auto
termination
  by (relation "measure length") (auto dest: bracket_split_length)

text \<open>Membership in a set of chunks: listed characters and the ranges across chunk borders.\<close>

fun in_ranges :: "string list \<Rightarrow> char \<Rightarrow> bool" where
  "in_ranges (x # y # ys) c =
     (x \<noteq> [] \<and> y \<noteq> [] \<and> last x \<le> c \<and> c \<le> hd y \<or> in_ranges (y # ys) c)"
| "in_ranges _ c = False"

definition in_chunks :: "string list \<Rightarrow> char \<Rightarrow> bool" where
  "in_chunks cs c = (c \<in> set (concat cs) \<or> in_ranges cs c)"

fun tok_char :: "glob_tok \<Rightarrow> char \<Rightarrow> bool" where
  "tok_char GAny c = True"
| "tok_char (GLit d) c = (c = d)"
| "tok_char (GSet pos cs) c = (in_chunks cs c = pos)"
| "tok_char _ c = False"

fun glob_match :: "glob_tok list \<Rightarrow> string \<Rightarrow> bool" where
  "glob_match [] s = (s = [])"
| "glob_match (GStar # ts) [] = glob_match ts []"
| "glob_match (GStar # ts) (c # s) = (glob_match ts (c # s) \<or> glob_match (GStar # ts) s)"
| "glob_match (t # ts) [] = False"
| "glob_match (t # ts) (c # s) = (tok_char t c \<and> glob_match ts s)"

definition fnmatchcase :: "string \<Rightarrow> string \<Rightarrow> bool" where
  "fnmatchcase name pat = glob_match (glob_compile pat) name"

section \<open>What patterns accept\<close>

lemma glob_match_star: "glob_match (GStar # ts) s \<longleftrightarrow> (\<exists>a b. s = a @ b \<and> glob_match ts b)"
proof (induction s)
  case Nil
  then show ?case by simp
next
  case (Cons c s)
  have "(\<exists>a b. c # s = a @ b \<and> glob_match ts b)
      \<longleftrightarrow> glob_match ts (c # s) \<or> (\<exists>a b. s = a @ b \<and> glob_match ts b)"
    by (metis append_Cons append_Nil list.exhaust list.sel(3) append_eq_Cons_conv)
  with Cons show ?case by simp
qed

definition plain_pattern :: "string \<Rightarrow> bool" where
  "plain_pattern p = list_all (\<lambda>c. c \<notin> {CHR ''*'', CHR ''?'', CHR ''[''}) p"

lemma glob_compile_plain: "plain_pattern p \<Longrightarrow> glob_compile (p @ q) = map GLit p @ glob_compile q"
  by (induction p) (auto simp: plain_pattern_def)

lemma glob_match_lits: "glob_match (map GLit p @ ts) s \<longleftrightarrow> (\<exists>r. s = p @ r \<and> glob_match ts r)"
proof (induction p arbitrary: s)
  case Nil
  then show ?case by simp
next
  case (Cons c p)
  then show ?case by (cases s) auto
qed

text \<open>A pattern without metacharacters accepts exactly itself; with a final star, its extensions.\<close>

lemma fnmatchcase_plain: "plain_pattern p \<Longrightarrow> fnmatchcase s p \<longleftrightarrow> s = p"
  using glob_match_lits [of p "[]" s] glob_compile_plain [of p "[]"] by (simp add: fnmatchcase_def)

lemma fnmatchcase_prefix: "plain_pattern p \<Longrightarrow> fnmatchcase s (p @ ''*'') \<longleftrightarrow> starts_with p s"
  by (auto simp: fnmatchcase_def glob_compile_plain glob_match_lits glob_match_star starts_with_iff)

lemma fnmatchcase_star: "fnmatchcase s ''*''"
  by (simp add: fnmatchcase_def glob_match_star)

end
