(* ===== verification/IntentScope.thy ===== *)
theory IntentScope
  imports Glob
begin

text \<open>
  \<open>intent/scope.py\<close>: the normal form of an intent scope (actions, parameter constraints, execution
  policy) and the decision whether a call is inside a scope. The reference for the decision is
  \<open>scope_allows\<close>, the declarative reading of the constraint table in the SDK design.
\<close>

section \<open>Normal forms\<close>

definition normalize_params_constraint :: "pyval \<Rightarrow> pyval res" where
  "normalize_params_constraint v =
     (if py_eq v (PStr ''*'') then Inr (PStr ''*'')
      else case v of
        PNone \<Rightarrow> Inr (PDict [])
      | PDict d \<Rightarrow> Inr (PDict d)
      | _ \<Rightarrow> Inl (ValueError (''Action params must be an object or '' @ quoted ''*'')))"

definition normalize_action_spec :: "pyval \<Rightarrow> pdict res" where
  "normalize_action_spec v =
     (case v of
        PDict d \<Rightarrow>
          (let name = text_of (dget d ''name''); extra = dget_or d ''allowExtraParams'' (PBool False)
           in if name = [] then Inl (ValueError ''Intent action name missing'')
              else case extra of
                PBool b \<Rightarrow>
                  rbind (normalize_params_constraint (dget d ''params'')) (\<lambda>params.
                    Inr [(''name'', PStr name), (''params'', params), (''allowExtraParams'', PBool b)])
              | _ \<Rightarrow> Inl (ValueError ''Intent action allowExtraParams must be a boolean''))
      | _ \<Rightarrow> Inl (ValueError ''Intent actions must be objects with name and params''))"

definition normalize_action_specs :: "pyval \<Rightarrow> pdict list res" where
  "normalize_action_specs v =
     (case v of
        PList xs \<Rightarrow>
          rbind (traverse normalize_action_spec xs) (\<lambda>ns.
            if ns = [] then Inl (ValueError ''Intent actions must not be empty'') else Inr ns)
      | _ \<Rightarrow> Inl (ValueError ''Intent actions must be a list''))"

definition positive_int :: "string \<Rightarrow> pyval \<Rightarrow> int res" where
  "positive_int field v =
     (case v of
        PInt i \<Rightarrow> if i \<le> 0 then Inl (ValueError (field @ '' must be a positive integer'')) else Inr i
      | _ \<Rightarrow> Inl (ValueError (field @ '' must be a positive integer'')))"

definition normalize_execution_policy :: "pyval \<Rightarrow> pdict option res" where
  "normalize_execution_policy v =
     (case v of
        PNone \<Rightarrow> Inr None
      | PDict d \<Rightarrow>
          (if dget d ''maxExecutions'' = PNone
           then Inl (ValueError ''executionPolicy must include maxExecutions'')
           else rbind (positive_int ''executionPolicy.maxExecutions'' (dget d ''maxExecutions'')) (\<lambda>n.
             Inr (Some [(''maxExecutions'', PInt n)])))
      | _ \<Rightarrow> Inl (ValueError ''Intent executionPolicy must be an object''))"

definition action_list :: "pdict list \<Rightarrow> pyval" where
  "action_list ns = PList (map PDict ns)"

definition normalize_intent_scope :: "pyval \<Rightarrow> pdict res" where
  "normalize_intent_scope v =
     (let raw = as_dict v in
      rbind (normalize_action_specs (dget raw ''actions'')) (\<lambda>ns.
        if map_of raw ''executionPolicy'' = None then Inr [(''actions'', action_list ns)]
        else rbind (normalize_execution_policy (dget raw ''executionPolicy'')) (\<lambda>p.
          case p of
            None \<Rightarrow> Inl (ValueError ''executionPolicy must include maxExecutions'')
          | Some pol \<Rightarrow> Inr [(''actions'', action_list ns), (''executionPolicy'', PDict pol)])))"

section \<open>Matching a call against a scope\<close>

definition param_value_matches :: "pyval \<Rightarrow> pyval \<Rightarrow> bool" where
  "param_value_matches actual expected =
     (if py_eq expected (PStr ''*'') then True
      else case (expected, actual) of
        (PStr p, PStr s) \<Rightarrow> fnmatchcase s p
      | _ \<Rightarrow> py_eq actual expected)"

definition extra_params :: "pdict \<Rightarrow> pdict \<Rightarrow> string list" where
  "extra_params actual constr = sort (filter (\<lambda>k. k \<notin> set (map fst constr)) (map fst actual))"

text \<open>The loop over the declared parameters: the first that is missing or differs.\<close>

fun param_mismatch :: "string \<Rightarrow> pdict \<Rightarrow> pdict \<Rightarrow> string option" where
  "param_mismatch action actual [] = None"
| "param_mismatch action actual ((k, expected) # cs) =
     (case map_of actual k of
        None \<Rightarrow> Some (''Required param '' @ quoted k @ '' missing for action '' @ quoted action)
      | Some v \<Rightarrow>
          if param_value_matches v expected then param_mismatch action actual cs
          else Some (''Param '' @ quoted k @ '' mismatch for action '' @ quoted action))"

text \<open>
  One allowed action with the expected name: \<open>None\<close> when the call is inside, otherwise the reason.
  Both the constraint and the flag come from a normalized specification.
\<close>

definition action_mismatch :: "string \<Rightarrow> pdict \<Rightarrow> pdict \<Rightarrow> string option" where
  "action_mismatch action actual allowed =
     (let constr = dget allowed ''params'' in
      if py_eq constr (PStr ''*'') then None
      else case constr of
        PDict cs \<Rightarrow>
          (let extra = extra_params actual cs
           in if \<not> truthy (dget_or allowed ''allowExtraParams'' (PBool False)) \<and> extra \<noteq> []
              then Some (''Unexpected params for action '' @ quoted action @ '': '' @
                         py_repr (PList (map PStr extra)))
              else param_mismatch action actual cs)
      | _ \<Rightarrow> Some ''Intent params constraint invalid'')"

text \<open>The loop over the allowed actions, with the reason of the first one that did not fit.\<close>

fun match_actions :: "string \<Rightarrow> pdict \<Rightarrow> pdict list \<Rightarrow> string option \<Rightarrow> bool \<times> string option" where
  "match_actions action actual [] first = (False, first)"
| "match_actions action actual (allowed # rest) first =
     (if \<not> py_eq (dget allowed ''name'') (PStr action) then match_actions action actual rest first
      else case action_mismatch action actual allowed of
        None \<Rightarrow> (True, None)
      | Some why \<Rightarrow> match_actions action actual rest (case first of None \<Rightarrow> Some why | Some f \<Rightarrow> Some f))"

definition params_match_intent_scope :: "pdict \<Rightarrow> string \<Rightarrow> pdict \<Rightarrow> bool \<times> string" where
  "params_match_intent_scope intent action params =
     (let expected = strip action in
      if expected = [] then (False, ''Expected action missing'')
      else case normalize_action_specs (dget intent ''actions'') of
        Inl e \<Rightarrow> (False, exc_msg e)
      | Inr actions \<Rightarrow>
          (case match_actions expected params actions None of
             (True, _) \<Rightarrow> (True, [])
           | (False, Some why) \<Rightarrow> (False, why)
           | (False, None) \<Rightarrow> (False, ''Action '' @ quoted expected @ '' not in token actions: '' @
               py_repr (PList (map (\<lambda>a. dget a ''name'') actions)))))"

section \<open>Normalization is idempotent\<close>

lemma normalize_params_constraint_shape:
  "normalize_params_constraint v = Inr w \<Longrightarrow> w = PStr ''*'' \<or> (\<exists>d. w = PDict d)"
  by (auto simp: normalize_params_constraint_def split: if_splits pyval.splits)

text \<open>The shape of a normalized action: three fields, the name stripped and non-empty.\<close>

definition normal_action :: "pdict \<Rightarrow> bool" where
  "normal_action n \<longleftrightarrow> (\<exists>name params b. n = [(''name'', PStr name), (''params'', params),
       (''allowExtraParams'', PBool b)] \<and> name \<noteq> [] \<and> strip name = name
     \<and> (params = PStr ''*'' \<or> (\<exists>d. params = PDict d)))"

lemma normalize_action_spec_normal: "normalize_action_spec v = Inr n \<Longrightarrow> normal_action n"
  by (auto simp: normalize_action_spec_def normal_action_def Let_def rbind_Inr_iff text_of_def
      dest!: normalize_params_constraint_shape split: pyval.splits if_splits)

lemma normalize_action_spec_fixed: "normal_action n \<Longrightarrow> normalize_action_spec (PDict n) = Inr n"
  by (auto simp: normal_action_def normalize_action_spec_def normalize_params_constraint_def)

lemma traverse_normal: "traverse normalize_action_spec xs = Inr ns \<Longrightarrow> list_all normal_action ns"
  by (induction xs arbitrary: ns) (auto simp: rbind_Inr_iff dest: normalize_action_spec_normal)

lemma normalize_action_specs_normal:
  "normalize_action_specs v = Inr ns \<Longrightarrow> ns \<noteq> [] \<and> list_all normal_action ns"
  by (auto simp: normalize_action_specs_def rbind_Inr_iff dest: traverse_normal
      split: pyval.splits if_splits)

lemma traverse_fixed:
  "list_all normal_action ns \<Longrightarrow> traverse normalize_action_spec (map PDict ns) = Inr ns"
  by (induction ns) (auto simp: normalize_action_spec_fixed)

lemma normalize_action_specs_fixed:
  "ns \<noteq> [] \<Longrightarrow> list_all normal_action ns \<Longrightarrow> normalize_action_specs (action_list ns) = Inr ns"
  by (simp add: normalize_action_specs_def action_list_def traverse_fixed)

lemma normalize_execution_policy_Some:
  "normalize_execution_policy v = Inr (Some p) \<Longrightarrow> \<exists>n > 0. p = [(''maxExecutions'', PInt n)]"
  by (auto simp: normalize_execution_policy_def positive_int_def rbind_Inr_iff
      split: pyval.splits if_splits)

lemma normalize_intent_scope_shape:
  assumes "normalize_intent_scope v = Inr s"
  obtains ns where "ns \<noteq> []" "list_all normal_action ns" "s = [(''actions'', action_list ns)]"
  | ns n where "ns \<noteq> []" "list_all normal_action ns" "0 < n"
      "s = [(''actions'', action_list ns), (''executionPolicy'', PDict [(''maxExecutions'', PInt n)])]"
  using assms
  by (auto simp: normalize_intent_scope_def Let_def rbind_Inr_iff
      dest!: normalize_action_specs_normal normalize_execution_policy_Some split: if_splits option.splits)

lemma normalize_intent_scope_idem:
  assumes "normalize_intent_scope v = Inr s"
  shows "normalize_intent_scope (PDict s) = Inr s"
  using assms
  by (cases rule: normalize_intent_scope_shape)
    (auto simp: normalize_intent_scope_def normalize_action_specs_fixed normalize_execution_policy_def
      positive_int_def)

section \<open>The decision against its declarative reading\<close>

text \<open>
  A call is inside an action's constraint when the constraint is \<open>*\<close>, or every declared parameter is
  present with a matching value and, unless extra parameters are allowed, no other one is present.
\<close>

definition constraint_allows :: "pyval \<Rightarrow> bool \<Rightarrow> pdict \<Rightarrow> bool" where
  "constraint_allows constr extra actual \<longleftrightarrow>
     constr = PStr ''*'' \<or>
     (\<exists>cs. constr = PDict cs
        \<and> (extra \<or> fst ` set actual \<subseteq> fst ` set cs)
        \<and> (\<forall>(k, expected) \<in> set cs. \<exists>v. map_of actual k = Some v \<and> param_value_matches v expected))"

definition scope_allows :: "pdict list \<Rightarrow> string \<Rightarrow> pdict \<Rightarrow> bool" where
  "scope_allows actions action params \<longleftrightarrow>
     (\<exists>a \<in> set actions. dget a ''name'' = PStr action
        \<and> constraint_allows (dget a ''params'') (truthy (dget_or a ''allowExtraParams'' (PBool False))) params)"

lemma param_mismatch_None:
  "param_mismatch action actual cs = None \<longleftrightarrow>
   (\<forall>(k, expected) \<in> set cs. \<exists>v. map_of actual k = Some v \<and> param_value_matches v expected)"
  by (induction cs) (auto split: option.splits if_splits)

lemma extra_params_Nil: "extra_params actual cs = [] \<longleftrightarrow> fst ` set actual \<subseteq> fst ` set cs"
proof -
  have "extra_params actual cs = [] \<longleftrightarrow> set (extra_params actual cs) = {}" by simp
  also have "\<dots> \<longleftrightarrow> fst ` set actual \<subseteq> fst ` set cs"
    by (auto simp: extra_params_def simp del: set_empty)
  finally show ?thesis .
qed

lemma action_mismatch_None:
  "action_mismatch action actual allowed = None \<longleftrightarrow>
   constraint_allows (dget allowed ''params'') (truthy (dget_or allowed ''allowExtraParams'' (PBool False))) actual"
  by (cases "dget allowed ''params''")
    (simp_all add: action_mismatch_def constraint_allows_def Let_def extra_params_Nil param_mismatch_None)

lemma match_actions_iff:
  "fst (match_actions action actual as first) \<longleftrightarrow> scope_allows as action actual"
proof (induction as arbitrary: first)
  case Nil
  then show ?case by (simp add: scope_allows_def)
next
  case (Cons a as)
  then show ?case
    using action_mismatch_None [of action actual a]
    by (auto simp: scope_allows_def split: option.splits)
qed

lemma params_match_iff:
  "fst (params_match_intent_scope intent action params) \<longleftrightarrow>
   strip action \<noteq> [] \<and> (\<exists>as. normalize_action_specs (dget intent ''actions'') = Inr as
     \<and> scope_allows as (strip action) params)"
proof (cases "normalize_action_specs (dget intent ''actions'')")
  case (Inl e)
  then show ?thesis by (simp add: params_match_intent_scope_def Let_def)
next
  case (Inr as)
  have "fst (match_actions (strip action) params as None) \<longleftrightarrow> scope_allows as (strip action) params"
    by (rule match_actions_iff)
  with Inr show ?thesis
    by (auto simp: params_match_intent_scope_def Let_def split: prod.splits option.splits bool.splits)
qed

end
