(* ===== verification/CanonicalJson.thy ===== *)
theory CanonicalJson
  imports PyValue
begin

text \<open>
  \<open>canonical_json\<close> of \<open>mandate_security.py\<close>: \<open>json.dumps\<close> with sorted keys, compact separators
  and \<open>ensure_ascii=False\<close>. The text it yields is what every A4P signature covers, so the central
  fact is that the text determines the value up to the order of object keys.
\<close>

section \<open>The serializer\<close>

definition json_escapes :: "(char \<times> char) list" where
  "json_escapes = [(CHR 34, CHR 34), (CHR 92, CHR 92), (CHR 8, CHR ''b''), (CHR 9, CHR ''t''),
     (CHR 10, CHR ''n''), (CHR 12, CHR ''f''), (CHR 13, CHR ''r'')]"

definition json_char :: "char \<Rightarrow> string" where
  "json_char c =
     (case map_of json_escapes c of
        Some e \<Rightarrow> [CHR 92, e]
      | None \<Rightarrow> if (of_char c :: nat) < 32 then [CHR 92, CHR ''u'', CHR ''0'', CHR ''0''] @ hex2 c
                else [c])"

definition json_str :: "string \<Rightarrow> string" where
  "json_str s = CHR 34 # concat (map json_char s) @ [CHR 34]"

text \<open>\<open>sort_keys=True\<close>: the items of every object, at every depth, ordered by key.\<close>

fun sort_keys :: "pyval \<Rightarrow> pyval"
  and sort_keys_list :: "pyval list \<Rightarrow> pyval list"
  and sort_keys_items :: "pdict \<Rightarrow> pdict"
where
  "sort_keys (PList xs) = PList (sort_keys_list xs)"
| "sort_keys (PDict d) = PDict (sort_key fst (sort_keys_items d))"
| "sort_keys PNone = PNone"
| "sort_keys (PBool b) = PBool b"
| "sort_keys (PInt i) = PInt i"
| "sort_keys (PStr s) = PStr s"
| "sort_keys_list [] = []"
| "sort_keys_list (x # xs) = sort_keys x # sort_keys_list xs"
| "sort_keys_items [] = []"
| "sort_keys_items ((k, v) # d) = (k, sort_keys v) # sort_keys_items d"

fun json_text :: "pyval \<Rightarrow> string"
  and json_elems :: "pyval list \<Rightarrow> string"
  and json_members :: "pdict \<Rightarrow> string"
where
  "json_text PNone = ''null''"
| "json_text (PBool b) = (if b then ''true'' else ''false'')"
| "json_text (PInt i) = int_str i"
| "json_text (PStr s) = json_str s"
| "json_text (PList xs) = CHR ''['' # (case xs of [] \<Rightarrow> '']'' | x # ys \<Rightarrow> json_text x @ json_elems ys)"
| "json_text (PDict d) = CHR ''{'' #
     (case d of [] \<Rightarrow> ''}'' | (k, v) # e \<Rightarrow> json_str k @ CHR '':'' # json_text v @ json_members e)"
| "json_elems [] = '']''"
| "json_elems (x # xs) = CHR '','' # json_text x @ json_elems xs"
| "json_members [] = ''}''"
| "json_members ((k, v) # d) = CHR '','' # json_str k @ CHR '':'' # json_text v @ json_members d"

definition canonical_json :: "pyval \<Rightarrow> string" where
  "canonical_json v = json_text (sort_keys v)"

section \<open>Unique readability\<close>

text \<open>Digits determine the number.\<close>

fun digits_val :: "string \<Rightarrow> nat \<Rightarrow> nat" where
  "digits_val [] acc = acc"
| "digits_val (c # cs) acc = digits_val cs (acc * 10 + (of_char c - 48))"

lemma digits_val_append: "digits_val (xs @ ys) acc = digits_val ys (digits_val xs acc)"
  by (induction xs arbitrary: acc) auto

lemma of_char_digit: "n < 10 \<Longrightarrow> of_char (digit_char n) = 48 + n"
  by (simp add: digit_char_def)

lemma digits_val_nat_str: "digits_val (nat_str n) 0 = n"
proof (induction n rule: nat_str.induct)
  case (1 n)
  show ?case
  proof (cases "n < 10")
    case True
    then show ?thesis by (simp add: nat_str.simps [of n] of_char_digit)
  next
    case False
    with 1 show ?thesis
      by (simp add: nat_str.simps [of n] digits_val_append of_char_digit)
  qed
qed

definition is_digit :: "char \<Rightarrow> bool" where
  "is_digit c = (let n = (of_char c :: nat) in 48 \<le> n \<and> n \<le> 57)"

lemma is_digit_digit_char: "n < 10 \<Longrightarrow> is_digit (digit_char n)"
  by (simp add: is_digit_def of_char_digit)

lemma nat_str_digits: "list_all is_digit (nat_str n)"
proof (induction n rule: nat_str.induct)
  case (1 n)
  then show ?case
    by (cases "n < 10") (simp_all add: nat_str.simps [of n] is_digit_digit_char)
qed

lemma nat_str_nonempty: "nat_str n \<noteq> []"
  by (simp add: nat_str.simps [of n])

lemma not_digit [simp]:
  "\<not> is_digit CHR ''-''" "\<not> is_digit CHR 34" "\<not> is_digit CHR ''n''" "\<not> is_digit CHR ''t''"
  "\<not> is_digit CHR ''f''" "\<not> is_digit CHR ''[''" "\<not> is_digit CHR ''{''" "\<not> is_digit CHR '',''"
  "\<not> is_digit CHR '']''" "\<not> is_digit CHR ''}''"
  by (simp_all add: is_digit_def)

text \<open>What may follow a complete JSON value inside a text.\<close>

definition ends_value :: "string \<Rightarrow> bool" where
  "ends_value r = (r = [] \<or> hd r \<in> {CHR '','', CHR '']'', CHR ''}''})"

lemma ends_value_simps [simp]:
  "ends_value []" "ends_value (CHR '','' # r)" "ends_value (CHR '']'' # r)" "ends_value (CHR ''}'' # r)"
  by (simp_all add: ends_value_def)

lemma digits_then_end:
  assumes "list_all is_digit a" "list_all is_digit b" "ends_value r" "ends_value r'"
    and "a @ r = b @ r'"
  shows "a = b \<and> r = r'"
proof -
  have end_tw: "takeWhile is_digit (x @ t) = x" if "list_all is_digit x" "ends_value t" for x t
  proof -
    have "takeWhile is_digit t = []"
      using that(2) by (cases t) (auto simp: ends_value_def)
    with that(1) show ?thesis by (simp add: takeWhile_append2 list_all_iff)
  qed
  from end_tw [of a r] end_tw [of b r'] assms have "a = b" by simp
  with assms(5) show ?thesis by simp
qed

lemma nat_str_inj_end:
  assumes "ends_value r" "ends_value r'" "nat_str m @ r = nat_str n @ r'"
  shows "m = n \<and> r = r'"
  using digits_then_end [OF nat_str_digits nat_str_digits assms] digits_val_nat_str by metis

lemma nat_str_hd: "is_digit (hd (nat_str n))"
  using nat_str_digits [of n] nat_str_nonempty [of n] by (cases "nat_str n") auto

lemma int_str_inj_end:
  assumes r: "ends_value r" "ends_value r'" and eq: "int_str i @ r = int_str j @ r'"
  shows "i = j \<and> r = r'"
proof -
  have hd_nonneg: "is_digit (hd (nat_str n @ t))" for n t
    using nat_str_hd [of n] nat_str_nonempty [of n] by simp
  have sign: "(i < 0) = (j < 0)"
  proof (rule ccontr)
    assume "(i < 0) \<noteq> (j < 0)"
    then have "hd (int_str i @ r) = CHR ''-'' \<and> is_digit (hd (int_str j @ r'))
      \<or> hd (int_str j @ r') = CHR ''-'' \<and> is_digit (hd (int_str i @ r))"
      using hd_nonneg by (auto simp: int_str_def)
    with eq show False by (metis not_digit(1))
  qed
  show ?thesis
  proof (cases "i < 0")
    case True
    with sign eq have "nat_str (nat (- i)) @ r = nat_str (nat (- j)) @ r'"
      by (simp add: int_str_def)
    then have "nat (- i) = nat (- j) \<and> r = r'" by (rule nat_str_inj_end [OF r])
    with True sign show ?thesis by auto
  next
    case False
    with sign eq have "nat_str (nat i) @ r = nat_str (nat j) @ r'"
      by (simp add: int_str_def)
    then have "nat i = nat j \<and> r = r'" by (rule nat_str_inj_end [OF r])
    with False sign show ?thesis by auto
  qed
qed

text \<open>A character's escape can be read back from the front of any text.\<close>

definition hex_val :: "char \<Rightarrow> nat" where
  "hex_val c = (let n = (of_char c :: nat) in if n < 58 then n - 48 else n - 87)"

lemma hex_val_hex_char: "n < 16 \<Longrightarrow> hex_val (hex_char n) = n"
  by (simp add: hex_val_def hex_char_def)

definition json_unescapes :: "(char \<times> char) list" where
  "json_unescapes = map prod.swap json_escapes"

fun json_unchar :: "string \<Rightarrow> (char \<times> string) option" where
  "json_unchar (c # x) =
     (if c \<noteq> CHR 92 then Some (c, x)
      else (case x of
         d # x' \<Rightarrow>
           (case map_of json_unescapes d of
              Some e \<Rightarrow> Some (e, x')
            | None \<Rightarrow>
                (case x' of _ # _ # h # l # y \<Rightarrow> Some (char_of (16 * hex_val h + hex_val l), y)
                 | _ \<Rightarrow> None))
       | [] \<Rightarrow> None))"
| "json_unchar [] = None"

lemma json_escapes_inverse:
  "map_of json_escapes c = Some e \<Longrightarrow> map_of json_unescapes e = Some c"
  by (drule map_of_SomeD) (simp add: json_escapes_def json_unescapes_def, elim disjE, simp_all)

lemma json_unescapes_u: "map_of json_unescapes CHR ''u'' = None"
  by (simp add: json_escapes_def json_unescapes_def)

lemma json_escapes_backslash: "map_of json_escapes c = None \<Longrightarrow> c \<noteq> CHR 92 \<and> c \<noteq> CHR 34"
  by (auto simp: json_escapes_def)

lemma json_unchar_json_char: "json_unchar (json_char c @ x) = Some (c, x)"
proof (cases "map_of json_escapes c")
  case (Some e)
  then show ?thesis by (simp add: json_char_def json_escapes_inverse)
next
  case None
  show ?thesis
  proof (cases "(of_char c :: nat) < 32")
    case True
    have "hex_val (hex_char (of_char c div 16)) = of_char c div 16"
      and "hex_val (hex_char (of_char c mod 16)) = of_char c mod 16"
      using True by (auto intro: hex_val_hex_char)
    then have "char_of (16 * hex_val (hex_char (of_char c div 16)) + hex_val (hex_char (of_char c mod 16))) = c"
      by simp
    with None True show ?thesis by (simp add: json_char_def hex2_def Let_def json_unescapes_u)
  next
    case False
    with None show ?thesis by (simp add: json_char_def json_escapes_backslash)
  qed
qed

lemma json_char_inj:
  assumes "json_char c @ x = json_char d @ y"
  shows "c = d \<and> x = y"
  using json_unchar_json_char [of c x] json_unchar_json_char [of d y] assms
  by (metis option.inject prod.inject)

lemma json_char_hd: "\<exists>e t. json_char c = e # t \<and> e \<noteq> CHR 34"
  by (simp add: json_char_def json_escapes_backslash split: option.splits)

lemma json_body_inj:
  assumes "concat (map json_char s) @ CHR 34 # r = concat (map json_char t) @ CHR 34 # r'"
  shows "s = t \<and> r = r'"
  using assms
proof (induction s arbitrary: t)
  case Nil
  then show ?case
  proof (cases t)
    case (Cons d t')
    with Nil json_char_hd [of d] show ?thesis by auto
  qed simp
next
  case (Cons c s)
  show ?case
  proof (cases t)
    case Nil
    with Cons.prems json_char_hd [of c] show ?thesis by auto
  next
    case (Cons d t')
    with Cons.prems have "json_char c @ (concat (map json_char s) @ CHR 34 # r)
        = json_char d @ (concat (map json_char t') @ CHR 34 # r')"
      by simp
    then have "c = d \<and> concat (map json_char s) @ CHR 34 # r = concat (map json_char t') @ CHR 34 # r'"
      by (rule json_char_inj)
    with Cons.IH [of t'] Cons show ?thesis by simp
  qed
qed

lemma json_str_inj: "json_str s @ r = json_str t @ r' \<Longrightarrow> s = t \<and> r = r'"
  by (rule json_body_inj) (simp add: json_str_def)

text \<open>The first character tells the kind of value apart.\<close>

fun kind_char :: "pyval \<Rightarrow> char \<Rightarrow> bool" where
  "kind_char PNone c = (c = CHR ''n'')"
| "kind_char (PBool b) c = (c = (if b then CHR ''t'' else CHR ''f''))"
| "kind_char (PInt i) c = (c = CHR ''-'' \<or> is_digit c)"
| "kind_char (PStr s) c = (c = CHR 34)"
| "kind_char (PList xs) c = (c = CHR ''['')"
| "kind_char (PDict d) c = (c = CHR ''{'')"

lemma json_text_hd: "\<exists>c t. json_text v = c # t \<and> kind_char v c"
proof (cases v)
  case (PInt i)
  obtain c t where "nat_str (nat (if i < 0 then - i else i)) = c # t" "is_digit c"
    using nat_str_hd nat_str_nonempty by (metis list.collapse)
  with PInt show ?thesis by (auto simp: int_str_def split: if_splits)
qed (auto simp: json_str_def)

lemma kind_char_unique:
  assumes "kind_char v c" "kind_char w c"
  shows "(v = PNone \<and> w = PNone) \<or> (\<exists>b. v = PBool b \<and> w = PBool b)
    \<or> (\<exists>i j. v = PInt i \<and> w = PInt j) \<or> (\<exists>s t. v = PStr s \<and> w = PStr t)
    \<or> (\<exists>xs ys. v = PList xs \<and> w = PList ys) \<or> (\<exists>d e. v = PDict d \<and> w = PDict e)"
  using assms by (cases v; cases w) (auto split: if_splits)

lemma kind_char_not_close: "\<not> kind_char v CHR '']''"
  by (cases v) auto

lemma ends_value_elems: "ends_value (json_elems xs @ r)"
  by (cases xs) auto

lemma ends_value_members: "ends_value (json_members d @ r)"
  by (cases d) auto

lemma json_text_kind:
  assumes "json_text v @ r = json_text w @ r'"
  shows "(v = PNone \<and> w = PNone) \<or> (\<exists>b. v = PBool b \<and> w = PBool b)
    \<or> (\<exists>i j. v = PInt i \<and> w = PInt j) \<or> (\<exists>s t. v = PStr s \<and> w = PStr t)
    \<or> (\<exists>xs ys. v = PList xs \<and> w = PList ys) \<or> (\<exists>d e. v = PDict d \<and> w = PDict e)"
proof -
  obtain c t c' t' where "json_text v = c # t" "kind_char v c" "json_text w = c' # t'" "kind_char w c'"
    using json_text_hd by blast
  with assms show ?thesis by (intro kind_char_unique [of v c w]) auto
qed

lemma json_text_inj_end:
  "json_text v @ r = json_text w @ r' \<Longrightarrow> ends_value r \<Longrightarrow> ends_value r' \<Longrightarrow> v = w \<and> r = r'"
  "json_elems xs @ r = json_elems ys @ r' \<Longrightarrow> xs = ys \<and> r = r'"
  "json_members d @ r = json_members e @ r' \<Longrightarrow> d = e \<and> r = r'"
proof (induction v and xs and d arbitrary: w r r' and ys r r' and e r r'
    rule: json_text_json_elems_json_members.induct)
  case (5 xs)
  from json_text_kind [OF 5(3)] obtain ys where w: "w = PList ys"
    by auto
  show ?case
  proof (cases xs)
    case Nil
    show ?thesis
    proof (cases ys)
      case (Cons y ys')
      with Nil 5(3) w json_text_hd [of y] show ?thesis
        by (auto simp: kind_char_not_close)
    qed (use Nil 5(3) w in simp)
  next
    case (Cons x xs')
    note xs = Cons
    show ?thesis
    proof (cases ys)
      case Nil
      with xs 5(3) w json_text_hd [of x] show ?thesis
        by (auto simp: kind_char_not_close)
    next
      case (Cons y ys')
      with xs 5(3) w have "json_text x @ (json_elems xs' @ r) = json_text y @ (json_elems ys' @ r')"
        by simp
      from 5(1) [OF xs this ends_value_elems ends_value_elems]
      have "x = y" "json_elems xs' @ r = json_elems ys' @ r'" by auto
      with 5(2) [OF xs] Cons xs w show ?thesis by auto
    qed
  qed
next
  case (6 d)
  from json_text_kind [OF 6(3)] obtain e where w: "w = PDict e"
    by auto
  show ?case
  proof (cases d)
    case Nil
    with 6(3) w show ?thesis by (cases e) (auto simp: json_str_def)
  next
    case (Cons kv d')
    obtain k v where kv: "kv = (k, v)" by (cases kv)
    show ?thesis
    proof (cases e)
      case Nil
      with Cons kv 6(3) w show ?thesis by (auto simp: json_str_def)
    next
      case (Cons kv2 e')
      obtain k2 v2 where kv2: "kv2 = (k2, v2)" by (cases kv2)
      from \<open>d = kv # d'\<close> Cons kv kv2 6(3) w
      have "json_str k @ (CHR '':'' # json_text v @ json_members d' @ r)
          = json_str k2 @ (CHR '':'' # json_text v2 @ json_members e' @ r')"
        by simp
      from json_str_inj [OF this] have k: "k = k2"
        and eq: "json_text v @ (json_members d' @ r) = json_text v2 @ (json_members e' @ r')"
        by auto
      from 6(1) [OF \<open>d = kv # d'\<close> kv [symmetric] eq ends_value_members ends_value_members]
      have "v = v2" "json_members d' @ r = json_members e' @ r'" by auto
      with 6(2) [OF \<open>d = kv # d'\<close> kv [symmetric]] k Cons kv kv2 w \<open>d = kv # d'\<close> show ?thesis by auto
    qed
  qed
next
  case (8 x xs)
  show ?case
  proof (cases ys)
    case Nil
    with 8(3) show ?thesis by simp
  next
    case (Cons y ys')
    with 8(3) have "json_text x @ (json_elems xs @ r) = json_text y @ (json_elems ys' @ r')" by simp
    from 8(1) [OF this ends_value_elems ends_value_elems] 8(2) Cons show ?thesis by auto
  qed
next
  case (10 k v d)
  show ?case
  proof (cases e)
    case Nil
    with 10(3) show ?thesis by simp
  next
    case (Cons kv2 e')
    obtain k2 v2 where kv2: "kv2 = (k2, v2)" by (cases kv2)
    from Cons kv2 10(3)
    have "json_str k @ (CHR '':'' # json_text v @ json_members d @ r)
        = json_str k2 @ (CHR '':'' # json_text v2 @ json_members e' @ r')"
      by simp
    from json_str_inj [OF this] have k: "k = k2"
      and eq: "json_text v @ (json_members d @ r) = json_text v2 @ (json_members e' @ r')"
      by auto
    from 10(1) [OF eq ends_value_members ends_value_members] 10(2) k Cons kv2 show ?thesis by auto
  qed
next
  case 1
  then show ?case using json_text_kind [OF 1(1)] by auto
next
  case (2 b)
  then show ?case using json_text_kind [OF 2(1)] by auto
next
  case (3 i)
  then obtain j where w: "w = PInt j" using json_text_kind [OF 3(1)] by auto
  with 3 int_str_inj_end [of r r' i j] show ?case by simp
next
  case (4 s)
  then obtain t where w: "w = PStr t" using json_text_kind [OF 4(1)] by auto
  with 4(1) json_str_inj [of s r t r'] show ?case by simp
next
  case 7
  then show ?case by (cases ys) auto
next
  case 9
  then show ?case by (cases e) auto
qed

lemma json_text_inj: "json_text v = json_text w \<Longrightarrow> v = w"
  using json_text_inj_end(1) [of v "[]" w "[]"] by simp

section \<open>The serialization determines the value\<close>

text \<open>
  Sorting the keys of two dictionaries that hold the same items in different orders gives the
  same list, so values that differ only in key order share one canonical text.
\<close>

lemma sort_keys_items_map: "sort_keys_items d = map (\<lambda>(k, v). (k, sort_keys v)) d"
  by (induction d) auto

lemma sort_keys_list_map: "sort_keys_list xs = map sort_keys xs"
  by (induction xs) auto

lemma canonical_json_iff: "canonical_json v = canonical_json w \<longleftrightarrow> sort_keys v = sort_keys w"
  by (auto simp: canonical_json_def dest: json_text_inj)

lemma map_of_sort_key:
  assumes "keys_distinct d"
  shows "map_of (sort_key fst d) = map_of d"
proof (rule map_of_eqI)
  show "set (map fst (sort_key fst d)) = set (map fst d)" by simp
  have dist: "keys_distinct (sort_key fst d)"
    using assms by (simp add: distinct_map)
  show "\<forall>k\<in>set (map fst (sort_key fst d)). map_of (sort_key fst d) k = map_of d k"
    using assms dist map_of_eq_Some_iff [OF assms] map_of_eq_Some_iff [OF dist]
    by (metis (no_types, lifting) ext not_Some_eq set_sort)
qed

text \<open>The value of a key can be read off the canonical text.\<close>

lemma sort_keys_dict_lookup:
  assumes "sort_keys (PDict d) = sort_keys (PDict e)" "keys_distinct d" "keys_distinct e"
  shows "map_option sort_keys (map_of d k) = map_option sort_keys (map_of e k)"
proof -
  have kd: "keys_distinct (sort_keys_items x)" if "keys_distinct x" for x
    using that by (simp add: sort_keys_items_map comp_def case_prod_unfold)
  have "map_of (sort_keys_items d) = map_of (sort_keys_items e)"
    using assms(1) map_of_sort_key [OF kd [OF assms(2)]] map_of_sort_key [OF kd [OF assms(3)]]
    by simp
  then have "map_of (sort_keys_items d) k = map_of (sort_keys_items e) k" by simp
  then show ?thesis by (simp add: sort_keys_items_map map_of_map)
qed

text \<open>Values with the same canonical text are equal for Python.\<close>

lemma sort_keys_eq_py_eq:
  "wf_val v \<Longrightarrow> wf_val w \<Longrightarrow> sort_keys v = sort_keys w \<Longrightarrow> py_eq v w"
proof (induction v arbitrary: w)
  case (PList xs)
  then obtain ys where w: "w = PList ys" and m: "map sort_keys xs = map sort_keys ys"
    by (cases w) (auto simp: sort_keys_list_map)
  have "list_all2 py_eq xs ys"
  proof (rule list_all2_all_nthI)
    show "length xs = length ys" using m by (metis length_map)
    fix i assume i: "i < length xs"
    with m have "sort_keys (xs ! i) = sort_keys (ys ! i)" by (metis length_map nth_map)
    with i PList w m show "py_eq (xs ! i) (ys ! i)"
      by (metis length_map nth_mem wf_val.simps(5) wf_vals_iff)
  qed
  with w show ?case by (simp add: py_eqs_iff)
next
  case (PDict d)
  then obtain e where w: "w = PDict e" by (cases w) auto
  with PDict.prems have kd: "keys_distinct d" "keys_distinct e" and wf: "wf_items d" "wf_items e" by auto
  have "length (sort_keys_items d) = length (sort_keys_items e)"
    using PDict.prems(3) w by (metis length_sort pyval.inject(5) sort_keys.simps(2))
  then have len: "length d = length e" by (simp add: sort_keys_items_map)
  have "\<exists>y. map_of e k = Some y \<and> py_eq x y" if kx: "(k, x) \<in> set d" for k x
  proof -
    have "map_of d k = Some x" using kx kd(1) by simp
    with sort_keys_dict_lookup [OF _ kd, of k] PDict.prems(3) w
    obtain y where y: "map_of e k = Some y" "sort_keys x = sort_keys y" by (cases "map_of e k") auto
    have "wf_val x" "wf_val y"
      using wf kx y(1) by (auto simp: wf_items_iff dest: map_of_SomeD)
    then have "py_eq x y" using PDict.IH [OF kx, of x y] y(2) by (simp add: snds.intros)
    with y show ?thesis by blast
  qed
  with len w show ?case by (auto simp: py_sub_iff)
qed (case_tac w, auto)+

lemma map_insort_key: "map g (insort_key (\<lambda>x. f (g x)) x xs) = insort_key f (g x) (map g xs)"
  by (induction xs) auto

lemma map_sort_key: "map g (sort_key (\<lambda>x. f (g x)) xs) = sort_key f (map g xs)"
  by (induction xs) (simp_all add: map_insort_key)

lemma sort_keys_idem [simp]: "sort_keys (sort_keys v) = sort_keys v"
proof (induction v)
  case (PList xs)
  then show ?case by (simp add: sort_keys_list_map)
next
  case (PDict d)
  let ?g = "\<lambda>(k, v). (k, sort_keys v)"
  have fst_g: "(\<lambda>x. fst (?g x)) = fst" by auto
  have "map ?g (sort_key fst (map ?g d)) = sort_key fst (map ?g (map ?g d))"
    using map_sort_key [of ?g fst "map ?g d"] by (simp only: fst_g)
  also have "map ?g (map ?g d) = map ?g d"
    using PDict.IH by (auto simp: snds.simps)
  finally show ?case by (simp add: sort_keys_items_map sort_key_id_if_sorted)
qed simp_all

lemma sort_items_idem [simp]:
  "sort_key fst (sort_keys_items (sort_key fst (sort_keys_items d))) = sort_key fst (sort_keys_items d)"
  using sort_keys_idem [of "PDict d"] by simp

end
