(* ===== verification/PyTime.thy ===== *)
theory PyTime
  imports CanonicalJson Complex_Main
begin

text \<open>
  The timestamps of mandates and tokens: \<open>time.strftime("%Y-%m-%dT%H:%M:%SZ", time.gmtime(t))\<close> and
  \<open>calendar.timegm(time.strptime(s, "%Y-%m-%dT%H:%M:%SZ"))\<close>. The reader follows the regular
  expressions \<open>_strptime\<close> builds for the format, alternatives in their order; the writer is the
  proleptic Gregorian calendar from 1970 on.
\<close>

section \<open>The calendar\<close>

definition is_leap :: "nat \<Rightarrow> bool" where
  "is_leap y = (4 dvd y \<and> (\<not> 100 dvd y \<or> 400 dvd y))"

definition year_days :: "nat \<Rightarrow> nat" where
  "year_days y = (if is_leap y then 366 else 365)"

definition month_days :: "nat \<Rightarrow> nat \<Rightarrow> nat" where
  "month_days y m =
     (if m = 2 then (if is_leap y then 29 else 28)
      else if m \<in> {4, 6, 9, 11} then 30 else 31)"

text \<open>Days before 1 January of year \<open>y\<close>, and before month \<open>m\<close> inside the year.\<close>

definition days_before_year :: "nat \<Rightarrow> nat" where
  "days_before_year y = (let n = y - 1 in 365 * n + n div 4 + n div 400 - n div 100)"

fun days_before_month :: "nat \<Rightarrow> nat \<Rightarrow> nat" where
  "days_before_month y 0 = 0"
| "days_before_month y (Suc m) = (if m = 0 then 0 else days_before_month y m + month_days y m)"

definition timegm :: "nat \<Rightarrow> nat \<Rightarrow> nat \<Rightarrow> nat \<Rightarrow> nat \<Rightarrow> nat \<Rightarrow> int" where
  "timegm y mo d h mi s =
     ((int (days_before_year y + days_before_month y mo) - 719162 + int d - 1) * 24 + int h) * 3600
     + int mi * 60 + int s"

text \<open>\<open>gmtime\<close>: whole years from 1970, then whole months.\<close>

function civil_year :: "nat \<Rightarrow> nat \<Rightarrow> nat \<times> nat" where
  "civil_year y n = (if n < year_days y then (y, n) else civil_year (Suc y) (n - year_days y))"
  by pat_completeness auto
termination
  by (relation "measure snd") (auto simp: year_days_def)

function civil_month :: "nat \<Rightarrow> nat \<Rightarrow> nat \<Rightarrow> nat \<times> nat" where
  "civil_month y m n =
     (if n < month_days y m \<or> 12 \<le> m then (m, n) else civil_month y (Suc m) (n - month_days y m))"
  by pat_completeness auto
termination
  by (relation "measure (\<lambda>(y, m, n). 12 - m)") auto

declare civil_year.simps [simp del] civil_month.simps [simp del]

definition gmtime_days :: "nat \<Rightarrow> nat \<times> nat \<times> nat" where
  "gmtime_days n = (let (y, k) = civil_year 1970 n; (m, d) = civil_month y 1 k in (y, m, Suc d))"

lemma days_before_year_Suc:
  assumes "1 \<le> y"
  shows "days_before_year (Suc y) = days_before_year y + year_days y"
proof -
  obtain n where y: "y = Suc n" using assms by (cases y) auto
  have le: "k div 100 \<le> k div 4" for k :: nat by (rule div_le_mono2) auto
  have dvd: "is_leap (Suc n) \<longleftrightarrow> 4 dvd Suc n \<and> (\<not> 100 dvd Suc n \<or> 400 dvd Suc n)"
    by (simp add: is_leap_def)
  have i: "400 dvd Suc n \<Longrightarrow> 100 dvd Suc n" "100 dvd Suc n \<Longrightarrow> 4 dvd Suc n"
    by (auto elim: dvd_trans [rotated])
  show ?thesis
    using le [of n] le [of "Suc n"] dvd i
    by (auto simp: y days_before_year_def year_days_def div_Suc mod_eq_0_iff_dvd)
      (simp_all add: ac_simps)
qed

lemma civil_year_correct:
  "1 \<le> y \<Longrightarrow> civil_year y n = (y', k) \<Longrightarrow>
   days_before_year y' + k = days_before_year y + n \<and> k < year_days y' \<and> y \<le> y'"
proof (induction y n rule: civil_year.induct)
  case (1 y n)
  show ?case
  proof (cases "n < year_days y")
    case True
    with 1 show ?thesis by (simp add: civil_year.simps [of y n])
  next
    case False
    with 1 have "days_before_year y' + k = days_before_year (Suc y) + (n - year_days y)
        \<and> k < year_days y' \<and> Suc y \<le> y'"
      by (simp add: civil_year.simps [of y n])
    with False days_before_year_Suc [OF 1(2)] show ?thesis by auto
  qed
qed

lemma civil_month_correct:
  "1 \<le> m \<Longrightarrow> m \<le> 12 \<Longrightarrow> days_before_month y m + n < year_days y \<Longrightarrow> civil_month y m n = (m', d) \<Longrightarrow>
   days_before_month y m' + d = days_before_month y m + n \<and> d < month_days y m' \<and> 1 \<le> m' \<and> m' \<le> 12"
proof (induction y m n rule: civil_month.induct)
  case (1 y m n)
  have dec: "days_before_month y 12 + month_days y 12 = year_days y"
    by (simp add: numeral_eq_Suc month_days_def year_days_def)
  show ?case
  proof (cases "n < month_days y m \<or> 12 \<le> m")
    case True
    with 1 dec show ?thesis by (auto simp: civil_month.simps [of y m n])
  next
    case False
    then have "m < 12" by simp
    with False 1 show ?thesis by (auto simp: civil_month.simps [of y m n])
  qed
qed

lemma timegm_gmtime:
  assumes "gmtime_days n = (y, m, d)"
  shows "timegm y m d h mi s = int n * 86400 + int h * 3600 + int mi * 60 + int s"
    and "1970 \<le> y" "1 \<le> m" "m \<le> 12" "1 \<le> d" "d \<le> month_days y m"
proof -
  obtain k d' where y: "civil_year 1970 n = (y, k)" and m: "civil_month y 1 k = (m, d')" and d: "d = Suc d'"
    using assms by (auto simp: gmtime_days_def split: prod.splits)
  note cy = civil_year_correct [OF _ y]
  note cm = civil_month_correct [OF _ _ _ m]
  have e1: "days_before_year y + k = 719162 + n" and k: "k < year_days y" and "1970 \<le> y"
    using cy by (simp_all add: days_before_year_def)
  have e2: "days_before_month y m + d' = k" and "d' < month_days y m" "1 \<le> m" "m \<le> 12"
    using cm k by simp_all
  then show "1970 \<le> y" "1 \<le> m" "m \<le> 12" "1 \<le> d" "d \<le> month_days y m"
    using \<open>1970 \<le> y\<close> d by simp_all
  have "int (days_before_year y + days_before_month y m) - 719162 + int d - 1 = int n"
    using e1 e2 d by simp
  then show "timegm y m d h mi s = int n * 86400 + int h * 3600 + int mi * 60 + int s"
    by (simp add: timegm_def)
qed

section \<open>Writing and reading the timestamp format\<close>

definition two_digits :: "nat \<Rightarrow> string" where
  "two_digits n = [digit_char (n div 10), digit_char (n mod 10)]"

definition iso_text :: "nat \<Rightarrow> string" where
  "iso_text t = (let (y, m, d) = gmtime_days (t div 86400); s = t mod 86400 in
     nat_str y @ ''-'' @ two_digits m @ ''-'' @ two_digits d @ ''T'' @
     two_digits (s div 3600) @ '':'' @ two_digits (s mod 3600 div 60) @ '':'' @
     two_digits (s mod 60) @ ''Z'')"

text \<open>
  \<open>time.strftime(fmt, time.gmtime(t))\<close> for a clock value \<open>t\<close> after the epoch: fractions of a
  second are cut off, and a year that does not fit the platform's \<open>int\<close> is an error that is not a
  \<open>ValueError\<close>.
\<close>

definition gmtime_max :: int where
  "gmtime_max = 67768036191676799"

definition utc_text :: "rat \<Rightarrow> string res" where
  "utc_text t = (if \<lfloor>t\<rfloor> > gmtime_max
     then Inl (OverflowError ''timestamp out of range for platform time_t'')
     else Inr (iso_text (nat \<lfloor>t\<rfloor>)))"

definition digit_val :: "char \<Rightarrow> nat" where
  "digit_val c = of_char c - 48"

text \<open>Readers return every way to read a prefix, in the order the alternatives are tried.\<close>

definition read_lit :: "char \<Rightarrow> string \<Rightarrow> (unit \<times> string) list" where
  "read_lit c s = (case s of [] \<Rightarrow> [] | x # r \<Rightarrow> if lower_char x = lower_char c then [((), r)] else [])"

definition read_two :: "nat \<Rightarrow> nat \<Rightarrow> string \<Rightarrow> (nat \<times> string) list" where
  "read_two lo hi s = (case s of
     c # d # r \<Rightarrow> if is_digit c \<and> is_digit d \<and> lo \<le> 10 * digit_val c + digit_val d
                     \<and> 10 * digit_val c + digit_val d \<le> hi
                   then [(10 * digit_val c + digit_val d, r)] else []
   | _ \<Rightarrow> [])"

definition read_one :: "nat \<Rightarrow> string \<Rightarrow> (nat \<times> string) list" where
  "read_one lo s = (case s of c # r \<Rightarrow> if is_digit c \<and> lo \<le> digit_val c then [(digit_val c, r)] else []
     | [] \<Rightarrow> [])"

definition read_num :: "nat \<Rightarrow> nat \<Rightarrow> string \<Rightarrow> (nat \<times> string) list" where
  "read_num lo hi s = read_two lo hi s @ read_one lo s"

definition read_day :: "string \<Rightarrow> (nat \<times> string) list" where
  "read_day s = read_num 1 31 s @
     (case s of c # r \<Rightarrow> if c = CHR '' '' then read_one 1 r else [] | [] \<Rightarrow> [])"

definition read_year :: "string \<Rightarrow> (nat \<times> string) list" where
  "read_year s = (case s of
     a # b # c # d # r \<Rightarrow> if list_all is_digit [a, b, c, d]
       then [(1000 * digit_val a + 100 * digit_val b + 10 * digit_val c + digit_val d, r)] else []
   | _ \<Rightarrow> [])"

definition read_bind ::
  "('a \<times> string) list \<Rightarrow> ('a \<Rightarrow> string \<Rightarrow> ('b \<times> string) list) \<Rightarrow> ('b \<times> string) list" where
  "read_bind ps f = concat (map (\<lambda>(x, r). f x r) ps)"

definition read_iso :: "string \<Rightarrow> ((nat \<times> nat \<times> nat \<times> nat \<times> nat \<times> nat) \<times> string) list" where
  "read_iso s =
     read_bind (read_year s) (\<lambda>y s. read_bind (read_lit CHR ''-'' s) (\<lambda>_ s.
     read_bind (read_num 1 12 s) (\<lambda>mo s. read_bind (read_lit CHR ''-'' s) (\<lambda>_ s.
     read_bind (read_day s) (\<lambda>d s. read_bind (read_lit CHR ''T'' s) (\<lambda>_ s.
     read_bind (read_num 0 23 s) (\<lambda>h s. read_bind (read_lit CHR '':'' s) (\<lambda>_ s.
     read_bind (read_num 0 59 s) (\<lambda>mi s. read_bind (read_lit CHR '':'' s) (\<lambda>_ s.
     read_bind (read_num 0 61 s) (\<lambda>sec s. read_bind (read_lit CHR ''Z'' s) (\<lambda>_ s.
     [((y, mo, d, h, mi, sec), s)]))))))))))))"

text \<open>
  \<open>calendar.timegm(time.strptime(s, fmt))\<close>; \<open>None\<close> is the \<open>ValueError\<close> of \<open>strptime\<close>: no match,
  unconverted data after the match, or a date that does not exist.
\<close>

definition parse_utc :: "string \<Rightarrow> int option" where
  "parse_utc s = (case read_iso s of
     [] \<Rightarrow> None
   | ((y, mo, d, h, mi, sec), rest) # _ \<Rightarrow>
       if rest = [] \<and> 1 \<le> y \<and> d \<le> month_days y mo then Some (timegm y mo d h mi sec) else None)"

lemma digit_val_char [simp]: "n < 10 \<Longrightarrow> digit_val (digit_char n) = n"
  by (simp add: digit_val_def of_char_digit)

lemma read_bind_first:
  "\<exists>zs. ps = (x, r) # zs \<Longrightarrow> \<exists>zs. f x r = y # zs \<Longrightarrow> \<exists>zs. read_bind ps f = y # zs"
  by (auto simp: read_bind_def)

lemma read_num_two_digits:
  "n < 100 \<Longrightarrow> lo \<le> n \<Longrightarrow> n \<le> hi \<Longrightarrow> \<exists>zs. read_num lo hi (two_digits n @ r) = (n, r) # zs"
  by (simp add: read_num_def read_two_def two_digits_def is_digit_digit_char)

lemma read_day_two_digits:
  "1 \<le> n \<Longrightarrow> n \<le> 31 \<Longrightarrow> \<exists>zs. read_day (two_digits n @ r) = (n, r) # zs"
  using read_num_two_digits [of n 1 31 r] by (auto simp: read_day_def)

lemma read_lit_same: "\<exists>zs. read_lit c (c # r) = ((), r) # zs"
  by (simp add: read_lit_def)

lemma single_first: "\<exists>zs. [x] = x # zs"
  by simp

lemma nat_str_four:
  assumes "1000 \<le> y" "y < 10000"
  shows "nat_str y = [digit_char (y div 1000), digit_char (y div 100 mod 10),
    digit_char (y div 10 mod 10), digit_char (y mod 10)]"
proof -
  have "y div 10 div 10 = y div 100" "y div 10 div 10 div 10 = y div 1000"
    by (simp_all add: div_mult2_eq [symmetric])
  moreover have "\<not> y < 10" "\<not> y div 10 < 10" "\<not> y div 100 < 10" "y div 1000 < 10"
    using assms by (simp_all add: div_less_iff_less_mult)
  ultimately show ?thesis
    by (simp add: nat_str.simps [of y] nat_str.simps [of "y div 10"]
      nat_str.simps [of "y div 100"] nat_str.simps [of "y div 1000"])
qed

lemma mixed_radix:
  "10 * a + r0 = y \<Longrightarrow> 10 * b + r1 = a \<Longrightarrow> 10 * c + r2 = b \<Longrightarrow>
   1000 * c + 100 * r2 + 10 * r1 + r0 = (y :: nat)"
  by simp

lemma seconds_int:
  "86400 * a + 3600 * b + 60 * c + d = (t :: nat) \<Longrightarrow>
   int a * 86400 + int b * 3600 + int c * 60 + int d = int t"
  by auto

lemma read_year_nat_str:
  assumes "1000 \<le> y" "y < 10000"
  shows "\<exists>zs. read_year (nat_str y @ r) = (y, r) # zs"
proof -
  have dd: "y div 10 div 10 = y div 100" "y div 100 div 10 = y div 1000"
    by (simp_all add: div_mult2_eq [symmetric])
  have "1000 * (y div 1000) + 100 * (y div 100 mod 10) + 10 * (y div 10 mod 10) + y mod 10 = y"
    using mult_div_mod_eq [of 10 y] mult_div_mod_eq [of 10 "y div 10"] mult_div_mod_eq [of 10 "y div 100"]
    unfolding dd by (rule mixed_radix)
  then show ?thesis
    using assms by (simp add: nat_str_four read_year_def is_digit_digit_char)
qed

lemma month_days_le: "month_days y m \<le> 31"
  by (simp add: month_days_def)

definition utc_limit :: nat where
  "utc_limit = 253402300800"

lemma days_before_year_mono:
  "1 \<le> y \<Longrightarrow> y \<le> z \<Longrightarrow> days_before_year y \<le> days_before_year z"
  by (rotate_tac, induction z rule: dec_induct) (simp_all add: days_before_year_Suc)

lemma gmtime_year_bound:
  assumes "gmtime_days n = (y, m, d)" "n < 2932897"
  shows "y < 10000"
proof (rule ccontr)
  assume "\<not> y < 10000"
  then have ge: "days_before_year 10000 \<le> days_before_year y" by (intro days_before_year_mono) auto
  obtain k where "civil_year 1970 n = (y, k)"
    using assms(1) by (auto simp: gmtime_days_def split: prod.splits)
  from civil_year_correct [OF _ this] have "days_before_year y \<le> 719162 + n"
    by (simp add: days_before_year_def)
  with ge assms(2) show False by (simp add: days_before_year_def)
qed

lemma read_iso_first:
  assumes "1000 \<le> y" "y < 10000" "1 \<le> m" "m \<le> 12" "1 \<le> d" "d \<le> 31" "h < 24" "mi < 60" "sec < 60"
  shows "\<exists>zs. read_iso (nat_str y @ CHR ''-'' # two_digits m @ CHR ''-'' # two_digits d @ CHR ''T'' #
     two_digits h @ CHR '':'' # two_digits mi @ CHR '':'' # two_digits sec @ CHR ''Z'' # [])
     = ((y, m, d, h, mi, sec), []) # zs"
  unfolding read_iso_def
  using assms
  by (intro read_bind_first [OF read_year_nat_str] read_bind_first [OF read_num_two_digits]
      read_bind_first [OF read_day_two_digits] read_bind_first [OF read_lit_same] single_first) simp_all

text \<open>Reading back a written timestamp gives the same second, up to the end of year 9999.\<close>

lemma parse_iso_text:
  assumes "t < utc_limit"
  shows "parse_utc (iso_text t) = Some (int t)"
proof -
  obtain y m d where g: "gmtime_days (t div 86400) = (y, m, d)" by (cases "gmtime_days (t div 86400)")
  have yb: "y < 10000"
    using assms by (intro gmtime_year_bound [OF g]) (simp add: utc_limit_def div_less_iff_less_mult)
  note gm = timegm_gmtime [OF g]
  have d31: "d \<le> 31" using gm(6) month_days_le [of y m] by simp
  define s where "s = t mod 86400"
  have s: "s < 86400" by (simp add: s_def)
  have "s div 3600 < 24" using s by (simp add: div_less_iff_less_mult)
  then obtain zs where r: "read_iso (iso_text t)
      = ((y, m, d, s div 3600, s mod 3600 div 60, s mod 60), []) # zs"
    using read_iso_first [of y m d "s div 3600" "s mod 3600 div 60" "s mod 60"] gm yb d31
    by (auto simp: iso_text_def g s_def Let_def div_less_iff_less_mult)
  have "s mod 3600 mod 60 = s mod 60" by (rule mod_mod_cancel) simp
  then have "86400 * (t div 86400) + 3600 * (s div 3600) + 60 * (s mod 3600 div 60) + s mod 60 = t"
    using mult_div_mod_eq [of 60 "s mod 3600"] mult_div_mod_eq [of 3600 s] mult_div_mod_eq [of 86400 t]
    unfolding s_def [symmetric] by (metis add.assoc)
  then have "int (t div 86400) * 86400 + int (s div 3600) * 3600 + int (s mod 3600 div 60) * 60 + int (s mod 60)
      = int t"
    by (rule seconds_int)
  with r gm show ?thesis by (simp add: parse_utc_def)
qed

end
