(* ===== verification/Security.thy ===== *)
theory Security
  imports PyValue "HOL-Library.Word"
begin

text \<open>
  \<open>security.py\<close>: base64url texts, Ed25519 signatures over texts, public keys in their canonical
  encoding and the private key taken from the environment. The primitives of the \<open>cryptography\<close>
  package and SHA-256 are the parameters collected in the record \<open>crypto\<close>.
\<close>

type_synonym byte = "8 word"

definition byte_of :: "nat \<Rightarrow> byte" where
  "byte_of n = of_nat n"

section \<open>Text and bytes\<close>

definition utf8_char :: "char \<Rightarrow> byte list" where
  "utf8_char c = (let n = (of_char c :: nat) in
     if n < 128 then [byte_of n] else [byte_of (192 + n div 64), byte_of (128 + n mod 64)])"

definition utf8 :: "string \<Rightarrow> byte list" where
  "utf8 s = concat (map utf8_char s)"

definition is_ascii :: "string \<Rightarrow> bool" where
  "is_ascii s = list_all (\<lambda>c. (of_char c :: nat) < 128) s"

section \<open>base64\<close>

definition b64_char :: "nat \<Rightarrow> char" where
  "b64_char n = (if n < 26 then char_of (65 + n) else if n < 52 then char_of (71 + n)
     else if n < 62 then char_of (n - 4) else if n = 62 then CHR ''-'' else CHR ''_'')"

text \<open>\<open>base64.urlsafe_b64encode(data).decode("ascii").rstrip("=")\<close>\<close>

fun b64url_encode :: "byte list \<Rightarrow> string" where
  "b64url_encode [] = []"
| "b64url_encode [a] = [b64_char (unat a div 4), b64_char (unat a mod 4 * 16)]"
| "b64url_encode [a, b] =
     [b64_char (unat a div 4), b64_char (unat a mod 4 * 16 + unat b div 16), b64_char (unat b mod 16 * 4)]"
| "b64url_encode (a # b # c # r) =
     b64_char (unat a div 4) # b64_char (unat a mod 4 * 16 + unat b div 16) #
     b64_char (unat b mod 16 * 4 + unat c div 64) # b64_char (unat c mod 64) # b64url_encode r"

text \<open>The value of a character of the standard alphabet, and of the URL-safe one after translation.\<close>

definition b64_val :: "char \<Rightarrow> nat option" where
  "b64_val c = (let n = (of_char c :: nat) in
     if 65 \<le> n \<and> n \<le> 90 then Some (n - 65) else if 97 \<le> n \<and> n \<le> 122 then Some (n - 71)
     else if 48 \<le> n \<and> n \<le> 57 then Some (n + 4) else if c = CHR ''+'' then Some 62
     else if c = CHR ''/'' then Some 63 else None)"

definition b64url_val :: "char \<Rightarrow> nat option" where
  "b64url_val c = (if c = CHR ''-'' then Some 62 else if c = CHR ''_'' then Some 63 else b64_val c)"

text \<open>
  \<open>binascii.a2b_base64\<close> in its lenient mode: characters outside the alphabet are skipped, enough
  padding ends the input, and an incomplete quantum is an error (\<open>None\<close>).
\<close>

fun a2b_base64 :: "(char \<Rightarrow> nat option) \<Rightarrow> nat \<Rightarrow> nat \<Rightarrow> nat \<Rightarrow> string \<Rightarrow> byte list option" where
  "a2b_base64 val quad left pads [] = (if quad = 0 then Some [] else None)"
| "a2b_base64 val quad left pads (c # cs) =
     (if c = CHR ''='' then
        (if 2 \<le> quad \<and> 4 \<le> quad + Suc pads then Some []
         else a2b_base64 val quad left (if 2 \<le> quad then Suc pads else pads) cs)
      else case val c of
        None \<Rightarrow> a2b_base64 val quad left pads cs
      | Some v \<Rightarrow>
          (if quad = 0 then a2b_base64 val 1 v 0 cs
           else if quad = 1 then
             map_option ((#) (byte_of (left * 4 + v div 16))) (a2b_base64 val 2 (v mod 16) 0 cs)
           else if quad = 2 then
             map_option ((#) (byte_of (left * 16 + v div 4))) (a2b_base64 val 3 (v mod 4) 0 cs)
           else map_option ((#) (byte_of (left * 64 + v))) (a2b_base64 val 0 0 0 cs)))"

definition b64_padding :: "string \<Rightarrow> string" where
  "b64_padding s = replicate ((4 - length s mod 4) mod 4) CHR ''=''"

definition b64url_decode :: "string \<Rightarrow> byte list option" where
  "b64url_decode s =
     (if is_ascii s then a2b_base64 b64url_val 0 0 0 (s @ b64_padding s) else None)"

definition b64_decode :: "string \<Rightarrow> byte list option" where
  "b64_decode s = (if is_ascii s then a2b_base64 b64_val 0 0 0 s else None)"

lemma b64_char_code:
  "n < 64 \<Longrightarrow> of_char (b64_char n) = (if n < 26 then 65 + n else if n < 52 then 71 + n
     else if n < 62 then n - 4 else if n = 62 then 45 else 95)"
  by (auto simp: b64_char_def)

lemma b64url_val_char [simp]: "n < 64 \<Longrightarrow> b64url_val (b64_char n) = Some n"
proof -
  assume n: "n < 64"
  have "b64_char n = CHR ''-'' \<longleftrightarrow> n = 62" "b64_char n = CHR ''_'' \<longleftrightarrow> n = 63"
    using n by (auto simp: b64_char_code dest!: arg_cong [of _ _ "of_char :: char \<Rightarrow> nat"] split: if_splits)
      (auto simp: b64_char_def)
  with n show ?thesis
    by (auto simp: b64url_val_def b64_val_def b64_char_code Let_def)
qed

lemma b64_char_facts:
  assumes "n < 64"
  shows "b64_char n \<noteq> CHR ''=''" "(of_char (b64_char n) :: nat) < 128" "\<not> is_space (b64_char n)"
  using b64_char_code [OF assms] assms
  by (auto simp: is_space_def Let_def split: if_splits dest!: arg_cong [of _ _ "of_char :: char \<Rightarrow> nat"])

lemma unat_byte: "unat (a :: byte) < 256"
  using unsigned_less [of a] by simp

lemma byte_of_unat [simp]: "byte_of (unat a) = a"
  by (simp add: byte_of_def)

lemma byte_quot:
  fixes b :: byte
  shows "unat b div 4 < 64" "unat b div 16 < 16" "unat b div 64 < 4"
  using unat_byte [of b] by (simp_all add: div_less_iff_less_mult)

lemma byte_parts [simp]:
  fixes a b c :: byte
  shows "unat a div 4 < 64" "unat a mod 4 * 16 < 64" "unat a mod 4 * 16 + unat b div 16 < 64"
    "unat b mod 16 * 4 < 64" "unat b mod 16 * 4 + unat c div 64 < 64" "unat c mod 64 < 64"
proof -
  have "unat a mod 4 \<le> 3" "unat b mod 16 \<le> 15" by simp_all
  with byte_quot [of a] byte_quot [of b] byte_quot [of c]
  show "unat a div 4 < 64" "unat a mod 4 * 16 < 64" "unat a mod 4 * 16 + unat b div 16 < 64"
    "unat b mod 16 * 4 < 64" "unat b mod 16 * 4 + unat c div 64 < 64" "unat c mod 64 < 64"
    by simp_all
qed

lemma byte_digits [simp]:
  fixes b c :: byte
  shows "unat b div 16 div 16 = 0" "unat b div 16 mod 16 = unat b div 16"
    "unat c div 64 div 4 = 0" "unat c div 64 mod 4 = unat c div 64"
  using byte_quot [of b] byte_quot [of c] by simp_all

lemma b64url_encode_chars:
  "list_all (\<lambda>c. (of_char c :: nat) < 128 \<and> \<not> is_space c) (b64url_encode bs)"
  by (induction bs rule: b64url_encode.induct) (simp_all add: b64_char_facts)

lemma b64url_encode_strip [simp]: "strip (b64url_encode bs) = b64url_encode bs"
  by (rule strip_no_space) (use b64url_encode_chars [of bs] in \<open>auto simp: list_all_iff\<close>)

lemma b64url_encode_Nil [simp]: "b64url_encode bs = [] \<longleftrightarrow> bs = []"
  by (cases bs rule: b64url_encode.cases) simp_all

lemma replicate_two: "replicate 2 x = [x, x]"
  by (simp add: numeral_2_eq_2)

lemma a2b_encode:
  "a2b_base64 b64url_val 0 0 0 (b64url_encode bs @ b64_padding (b64url_encode bs)) = Some bs"
  by (induction bs rule: b64url_encode.induct)
    (simp_all add: b64_padding_def b64_char_facts replicate_two)

lemma b64url_roundtrip: "b64url_decode (b64url_encode bs) = Some bs"
  using b64url_encode_chars [of bs] a2b_encode [of bs]
  by (auto simp: b64url_decode_def is_ascii_def list_all_iff)

section \<open>Ed25519 over texts\<close>

text \<open>
  What the code takes from \<open>cryptography\<close> and \<open>hashlib\<close>. \<open>cr_verify\<close> is false where the package
  raises \<open>InvalidSignature\<close>; \<open>cr_load_pem\<close> distinguishes an unreadable PEM text, a key of another kind
  and an Ed25519 key.
\<close>

datatype 'sk pem = PemInvalid | PemOther | PemKey 'sk

record ('sk, 'pk) crypto =
  cr_sign :: "'sk \<Rightarrow> byte list \<Rightarrow> byte list"
  cr_verify :: "'pk \<Rightarrow> byte list \<Rightarrow> byte list \<Rightarrow> bool"
  cr_public :: "'sk \<Rightarrow> 'pk"
  cr_private_of :: "byte list \<Rightarrow> 'sk"
  cr_public_of :: "byte list \<Rightarrow> 'pk"
  cr_public_bytes :: "'pk \<Rightarrow> byte list"
  cr_load_pem :: "string \<Rightarrow> 'sk pem"
  cr_sha256 :: "byte list \<Rightarrow> byte list"

text \<open>
  The documented behaviour of Ed25519 the completeness results rely on: a signature made with a key
  verifies under its public key, signatures are not empty, and public keys are 32 bytes that
  determine the key.
\<close>

definition ed25519_laws :: "('sk, 'pk) crypto \<Rightarrow> bool" where
  "ed25519_laws C \<longleftrightarrow>
     (\<forall>k m. cr_verify C (cr_public C k) (cr_sign C k m) m) \<and>
     (\<forall>k m. cr_sign C k m \<noteq> []) \<and>
     (\<forall>p. length (cr_public_bytes C p) = 32 \<and> cr_public_of C (cr_public_bytes C p) = p)"

definition ed25519_sign_text :: "('sk, 'pk) crypto \<Rightarrow> string \<Rightarrow> 'sk \<Rightarrow> string" where
  "ed25519_sign_text C text key = b64url_encode (cr_sign C key (utf8 text))"

definition ed25519_verify_text :: "('sk, 'pk) crypto \<Rightarrow> string \<Rightarrow> string \<Rightarrow> 'pk \<Rightarrow> bool" where
  "ed25519_verify_text C text signature key =
     (case b64url_decode signature of None \<Rightarrow> False | Some sig \<Rightarrow> cr_verify C key sig (utf8 text))"

definition is_b64url_char :: "char \<Rightarrow> bool" where
  "is_b64url_char c = (let n = (of_char c :: nat) in
     65 \<le> n \<and> n \<le> 90 \<or> 97 \<le> n \<and> n \<le> 122 \<or> 48 \<le> n \<and> n \<le> 57 \<or> n = 95 \<or> n = 45)"

definition ed25519_public_key_from_base64url :: "('sk, 'pk) crypto \<Rightarrow> string \<Rightarrow> 'pk res" where
  "ed25519_public_key_from_base64url C v =
     (if v = [] \<or> \<not> list_all is_b64url_char v
      then Inl (ValueError ''Ed25519 public key must be valid base64url'')
      else case b64url_decode v of
        None \<Rightarrow> Inl (ValueError ''Ed25519 public key must be valid base64url'')
      | Some raw \<Rightarrow>
          if length raw \<noteq> 32 then Inl (ValueError ''Ed25519 public key must decode to 32 bytes'')
          else if v \<noteq> b64url_encode raw
            then Inl (ValueError ''Ed25519 public key must use unpadded canonical base64url'')
          else Inr (cr_public_of C raw))"

definition ed25519_public_key_to_base64url :: "('sk, 'pk) crypto \<Rightarrow> 'pk \<Rightarrow> string" where
  "ed25519_public_key_to_base64url C key = b64url_encode (cr_public_bytes C key)"

section \<open>The signing key from the environment\<close>

type_synonym environ = "string \<Rightarrow> string option"

definition is_production_environment :: "environ \<Rightarrow> bool" where
  "is_production_environment env =
     list_ex (\<lambda>name. lower (strip (case env name of None \<Rightarrow> [] | Some v \<Rightarrow> v))
        \<in> set [''prod'', ''production'']) [''A4P_ENV'', ''APP_ENV'', ''ENV'', ''PYTHON_ENV'']"

definition hex_digit :: "char \<Rightarrow> nat option" where
  "hex_digit c = (let n = (of_char c :: nat) in
     if 48 \<le> n \<and> n \<le> 57 then Some (n - 48) else if 97 \<le> n \<and> n \<le> 102 then Some (n - 87)
     else if 65 \<le> n \<and> n \<le> 70 then Some (n - 55) else None)"

text \<open>\<open>bytes.fromhex\<close>: pairs of digits, with ASCII whitespace allowed between pairs.\<close>

fun bytes_fromhex :: "string \<Rightarrow> byte list option" where
  "bytes_fromhex [] = Some []"
| "bytes_fromhex (c # cs) =
     (if is_space c \<and> (of_char c :: nat) < 128 \<and> \<not> (28 \<le> (of_char c :: nat) \<and> (of_char c :: nat) \<le> 31)
      then bytes_fromhex cs
      else case cs of
        [] \<Rightarrow> None
      | d # ds \<Rightarrow>
          (case (hex_digit c, hex_digit d) of
             (Some h, Some l) \<Rightarrow> map_option ((#) (byte_of (16 * h + l))) (bytes_fromhex ds)
           | _ \<Rightarrow> None))"

definition invalid_private_key :: "string \<Rightarrow> exc" where
  "invalid_private_key env_name = RuntimeError (env_name @
     '' must be an Ed25519 PEM key or a 32-byte seed encoded as base64url, base64:, or hex:'')"

definition decode_seed :: "string \<Rightarrow> string \<Rightarrow> byte list res" where
  "decode_seed env_name v =
     (case (if starts_with ''hex:'' v then bytes_fromhex (drop 4 v)
            else if starts_with ''base64:'' v then b64_decode (drop 7 v)
            else if starts_with ''base64url:'' v then b64url_decode (drop 10 v)
            else b64url_decode v) of
        None \<Rightarrow> Inl (invalid_private_key env_name)
      | Some bs \<Rightarrow> Inr bs)"

definition load_ed25519_private_key :: "('sk, 'pk) crypto \<Rightarrow> string \<Rightarrow> string \<Rightarrow> 'sk res" where
  "load_ed25519_private_key C env_name v =
     (if starts_with ''-----BEGIN'' v then
        (case cr_load_pem C v of
           PemInvalid \<Rightarrow> Inl (invalid_private_key env_name)
         | PemOther \<Rightarrow> Inl (RuntimeError (env_name @ '' must contain an Ed25519 private key''))
         | PemKey k \<Rightarrow> Inr k)
      else rbind (decode_seed env_name v) (\<lambda>seed.
        if length seed \<noteq> 32
        then Inl (RuntimeError (env_name @ '' must decode to a 32-byte Ed25519 private key seed''))
        else Inr (cr_private_of C seed)))"

definition ed25519_private_key_from_env ::
  "('sk, 'pk) crypto \<Rightarrow> environ \<Rightarrow> string \<Rightarrow> string \<Rightarrow> string \<Rightarrow> 'sk res" where
  "ed25519_private_key_from_env C env env_name label purpose =
     (let v = strip (case env env_name of None \<Rightarrow> [] | Some raw \<Rightarrow> raw) in
      if v \<noteq> [] then
        (if v = label \<and> is_production_environment env
         then Inl (RuntimeError (purpose @
                '' is configured with the built-in development Ed25519 signing key via '' @ env_name @
                ''; set '' @ env_name @ '' to a non-default secret.''))
         else load_ed25519_private_key C env_name v)
      else if is_production_environment env
        then Inl (RuntimeError (purpose @ '' requires '' @ env_name @ '' in production mode; '' @
               ''refusing to use the built-in development Ed25519 signing key.''))
      else Inr (cr_private_of C (cr_sha256 C (utf8 label))))"

section \<open>Facts about signatures and keys\<close>

lemma verify_sign_text:
  "ed25519_laws C \<Longrightarrow> ed25519_verify_text C text (ed25519_sign_text C text k) (cr_public C k)"
  by (simp add: ed25519_laws_def ed25519_verify_text_def ed25519_sign_text_def b64url_roundtrip)

lemma sign_text_facts [simp]:
  "strip (ed25519_sign_text C text k) = ed25519_sign_text C text k"
  "ed25519_laws C \<Longrightarrow> ed25519_sign_text C text k \<noteq> []"
  by (simp_all add: ed25519_sign_text_def ed25519_laws_def)

lemma public_key_bytes_nonempty: "ed25519_laws C \<Longrightarrow> cr_public_bytes C p \<noteq> []"
  by (auto simp: ed25519_laws_def) (metis list.size(3) zero_neq_numeral)

lemma b64_char_is_b64url: "n < 64 \<Longrightarrow> is_b64url_char (b64_char n)"
  by (auto simp: is_b64url_char_def b64_char_code Let_def)

lemma b64url_encode_is_b64url: "list_all is_b64url_char (b64url_encode bs)"
  by (induction bs rule: b64url_encode.induct) (simp_all add: b64_char_is_b64url)

text \<open>The accepted public keys are exactly the encodings of 32 bytes.\<close>

lemma public_key_accepted_iff:
  "ed25519_public_key_from_base64url C v = Inr k \<longleftrightarrow>
   (\<exists>raw. length raw = 32 \<and> v = b64url_encode raw \<and> k = cr_public_of C raw)"
  (is "?l \<longleftrightarrow> ?r")
proof
  assume ?l
  then show ?r
    by (auto simp: ed25519_public_key_from_base64url_def split: if_splits option.splits)
next
  assume ?r
  then show ?l
    by (auto simp: ed25519_public_key_from_base64url_def b64url_roundtrip b64url_encode_is_b64url)
qed

lemma private_key_in_production:
  assumes "is_production_environment env"
    and "ed25519_private_key_from_env C env name label purpose = Inr k"
  shows "\<exists>raw. env name = Some raw \<and> strip raw \<noteq> [] \<and> strip raw \<noteq> label
    \<and> load_ed25519_private_key C name (strip raw) = Inr k"
  using assms by (auto simp: ed25519_private_key_from_env_def Let_def split: if_splits option.splits)

end
