(* ===== verification/Mandate.thy ===== *)
theory Mandate
  imports IntentScope PyTime Security
begin

text \<open>
  Mandates as JSON objects: the normal forms of \<open>intent/mandate.py\<close> and \<open>operation/mandate.py\<close>, the
  signed core of either kind, the identifier, the proof input of user signatures, and the local
  verification against configured server keys (\<open>mandate_security.py\<close>).
\<close>

abbreviation intent_type :: string where
  "intent_type \<equiv> ''a4p/v1/intent-mandate''"

abbreviation operation_type :: string where
  "operation_type \<equiv> ''a4p/v1/operation-mandate''"

section \<open>Normal forms\<close>

text \<open>\<open>{"server": dict(s.get("server") or {}), "user": dict(s.get("user") or {})}\<close>\<close>

definition normalize_signatures :: "pyval \<Rightarrow> pyval res" where
  "normalize_signatures v =
     (let s = as_dict v in
      rbind (dict_ctor (py_or (dget s ''server'') (PDict []))) (\<lambda>sv.
      rbind (dict_ctor (py_or (dget s ''user'') (PDict []))) (\<lambda>us.
        Inr (PDict [(''server'', PDict sv), (''user'', PDict us)]))))"

definition normalize_intent_mandate :: "pdict \<Rightarrow> pdict res" where
  "normalize_intent_mandate m =
     (let m1 = AList.update ''type'' (PStr intent_type) m in
      rbind (normalize_intent_scope (dget m1 ''intent'')) (\<lambda>scope.
      rbind (normalize_signatures (dget m ''signatures'')) (\<lambda>sigs.
        Inr (AList.update ''userAuthorization'' (PDict (as_dict (dget m ''userAuthorization'')))
            (AList.update ''signatures'' sigs
            (AList.update ''intent'' (PDict scope) m1))))))"

definition normalize_operation :: "pdict \<Rightarrow> pdict res" where
  "normalize_operation op =
     (let action = text_of (dget op ''action'') in
      if action = [] then Inl (ValueError ''Operation action missing'')
      else case dget op ''params'' of
        PNone \<Rightarrow> Inr [(''action'', PStr action), (''params'', PDict [])]
      | PDict ps \<Rightarrow> Inr [(''action'', PStr action), (''params'', PDict ps)]
      | _ \<Rightarrow> Inl (ValueError ''Operation params must be an object''))"

definition normalize_operation_mandate :: "pdict \<Rightarrow> pdict res" where
  "normalize_operation_mandate m =
     rbind (normalize_operation (as_dict (dget m ''operation''))) (\<lambda>op.
     rbind (normalize_signatures (dget m ''signatures'')) (\<lambda>sigs.
       Inr (AList.update ''type'' (PStr operation_type)
           (AList.update ''userAuthorization'' (PDict (as_dict (dget m ''userAuthorization'')))
           (AList.update ''signatures'' sigs
           (AList.update ''operation'' (PDict op) m))))))"

section \<open>The signed core\<close>

definition intent_core_of :: "pdict \<Rightarrow> pdict" where
  "intent_core_of n =
     [(''type'', dget_or n ''type'' (PStr [])), (''mandateId'', dget_or n ''mandateId'' (PStr [])),
      (''server'', dget_or n ''server'' (PStr [])), (''subject'', dget_or n ''subject'' (PDict [])),
      (''intent'', dget_or n ''intent'' (PDict [])), (''validTime'', dget_or n ''validTime'' (PDict [])),
      (''userAuthorization'', dget_or n ''userAuthorization'' (PDict [])),
      (''displayText'', dget_or n ''displayText'' (PStr []))]"

definition intent_mandate_core_payload :: "pdict \<Rightarrow> pdict res" where
  "intent_mandate_core_payload m = rbind (normalize_intent_mandate m) (\<lambda>n. Inr (intent_core_of n))"

definition operation_core_of :: "pdict \<Rightarrow> pdict" where
  "operation_core_of n =
     [(''type'', dget_or n ''type'' (PStr [])), (''operationId'', dget_or n ''operationId'' (PStr [])),
      (''server'', dget_or n ''server'' (PStr [])), (''subject'', dget_or n ''subject'' (PDict [])),
      (''operation'', dget_or n ''operation'' (PDict [])), (''validTime'', dget_or n ''validTime'' (PDict [])),
      (''userAuthorization'', dget_or n ''userAuthorization'' (PDict [])),
      (''displayText'', dget_or n ''displayText'' (PStr []))]"

definition operation_mandate_core_payload :: "pdict \<Rightarrow> pdict res" where
  "operation_mandate_core_payload m = rbind (normalize_operation_mandate m) (\<lambda>n. Inr (operation_core_of n))"

definition mandate_core_payload :: "pdict \<Rightarrow> pdict res" where
  "mandate_core_payload m =
     (if py_eq (dget m ''type'') (PStr intent_type) then intent_mandate_core_payload m
      else if py_eq (dget m ''type'') (PStr operation_type) then operation_mandate_core_payload m
      else Inl (MandateSecurityError ''SERVER_SIGNATURE_INVALID''
             (''Unsupported A4P mandate type: '' @ py_repr (dget m ''type''))))"

text \<open>
  The membership test \<open>mandate_type not in {...}\<close> hashes the value, so a list or an object as type
  raises \<open>TypeError\<close>.
\<close>

definition mandate_identifier :: "pdict \<Rightarrow> string res" where
  "mandate_identifier m =
     (let t = dget m ''type'';
          field = (if py_eq t (PStr intent_type) then ''mandateId'' else ''operationId'');
          ident = text_of (dget m field)
      in if \<not> hashable t then Inl (TypeError ''unhashable type'')
         else if \<not> (py_eq t (PStr intent_type) \<or> py_eq t (PStr operation_type))
           then Inl (ValueError (''Unsupported A4P mandate type: '' @ py_repr t))
         else if ident = [] then Inl (ValueError (field @ '' missing''))
         else Inr ident)"

definition server_signed_mandate_without_user_signature :: "pdict \<Rightarrow> pdict res" where
  "server_signed_mandate_without_user_signature m =
     rbind (mandate_core_payload m) (\<lambda>core.
       case dget (as_dict (dget m ''signatures'')) ''server'' of
         PDict sv \<Rightarrow> Inr (core @ [(''signatures'', PDict [(''server'', PDict sv)])])
       | _ \<Rightarrow> Inl (ValueError ''Server signature missing''))"

text \<open>The texts that are signed: by the server over the core, by the user over the signed mandate.\<close>

definition server_payload :: "pdict \<Rightarrow> string" where
  "server_payload core = canonical_json (PDict [(''scope'', PStr ''server''), (''mandate'', PDict core)])"

definition user_payload :: "pdict \<Rightarrow> string" where
  "user_payload m = canonical_json
     (PDict [(''scope'', PStr ''a4p/v1/user-authorization''), (''mandate'', PDict m)])"

definition canonical_user_authorization_payload :: "pdict \<Rightarrow> string res" where
  "canonical_user_authorization_payload m =
     rbind (server_signed_mandate_without_user_signature m) (\<lambda>s. Inr (user_payload s))"

definition derive_user_authorization_challenge :: "('sk, 'pk) crypto \<Rightarrow> pdict \<Rightarrow> byte list res" where
  "derive_user_authorization_challenge C m =
     rbind (canonical_user_authorization_payload m) (\<lambda>t. Inr (cr_sha256 C (utf8 t)))"

definition user_authorization_challenge_base64url :: "('sk, 'pk) crypto \<Rightarrow> pdict \<Rightarrow> string res" where
  "user_authorization_challenge_base64url C m =
     rbind (derive_user_authorization_challenge C m) (\<lambda>b. Inr (b64url_encode b))"

section \<open>Normalization is idempotent\<close>

lemma update_same: "map_of d k = Some v \<Longrightarrow> AList.update k v d = d"
  by (induction d) (auto split: if_splits)

lemma normalize_signatures_shape:
  "normalize_signatures v = Inr s \<Longrightarrow> \<exists>sv us. s = PDict [(''server'', PDict sv), (''user'', PDict us)]"
  by (auto simp: normalize_signatures_def Let_def rbind_Inr_iff)

lemma normalize_signatures_fixed:
  "normalize_signatures (PDict [(''server'', PDict sv), (''user'', PDict us)])
   = Inr (PDict [(''server'', PDict sv), (''user'', PDict us)])"
  by (simp add: normalize_signatures_def py_or_def Let_def)

lemma normalize_intent_mandate_fields:
  assumes "normalize_intent_mandate m = Inr n"
  obtains scope sv us where
    "normalize_intent_scope (dget m ''intent'') = Inr scope"
    "normalize_signatures (dget m ''signatures'') = Inr (PDict [(''server'', PDict sv), (''user'', PDict us)])"
    "map_of n = (map_of m)(''type'' \<mapsto> PStr intent_type, ''intent'' \<mapsto> PDict scope,
       ''signatures'' \<mapsto> PDict [(''server'', PDict sv), (''user'', PDict us)],
       ''userAuthorization'' \<mapsto> PDict (as_dict (dget m ''userAuthorization'')))"
proof -
  obtain scope sigs where s: "normalize_intent_scope (dget m ''intent'') = Inr scope"
    "normalize_signatures (dget m ''signatures'') = Inr sigs"
    and n: "n = AList.update ''userAuthorization'' (PDict (as_dict (dget m ''userAuthorization'')))
            (AList.update ''signatures'' sigs
            (AList.update ''intent'' (PDict scope) (AList.update ''type'' (PStr intent_type) m)))"
    using assms by (auto simp: normalize_intent_mandate_def Let_def rbind_Inr_iff)
  from normalize_signatures_shape [OF s(2)] obtain sv us
    where "sigs = PDict [(''server'', PDict sv), (''user'', PDict us)]" by blast
  with s n that show ?thesis by simp
qed

lemma normalize_intent_mandate_fixed:
  assumes "map_of n ''type'' = Some (PStr intent_type)" "map_of n ''intent'' = Some (PDict scope)"
    "normalize_intent_scope (PDict scope) = Inr scope"
    "map_of n ''signatures'' = Some (PDict [(''server'', PDict sv), (''user'', PDict us)])"
    "map_of n ''userAuthorization'' = Some (PDict ua)"
  shows "normalize_intent_mandate n = Inr n"
  using assms
  by (simp add: normalize_intent_mandate_def dget_or_def update_same normalize_signatures_fixed)

lemma normalize_intent_mandate_idem:
  assumes "normalize_intent_mandate m = Inr n"
  shows "normalize_intent_mandate n = Inr n"
proof (cases rule: normalize_intent_mandate_fields [OF assms])
  case (1 scope sv us)
  have "normalize_intent_scope (PDict scope) = Inr scope" by (rule normalize_intent_scope_idem [OF 1(1)])
  then show ?thesis
    by (intro normalize_intent_mandate_fixed [of n scope sv us]) (simp_all only: 1(3), simp_all)
qed

lemma normalize_operation_shape:
  "normalize_operation op = Inr n \<Longrightarrow> \<exists>a ps. n = [(''action'', PStr a), (''params'', PDict ps)] \<and> a \<noteq> [] \<and> strip a = a"
  by (auto simp: normalize_operation_def Let_def text_of_def split: if_splits pyval.splits)

lemma normalize_operation_idem: "normalize_operation op = Inr n \<Longrightarrow> normalize_operation n = Inr n"
  by (drule normalize_operation_shape) (auto simp: normalize_operation_def)

lemma normalize_operation_mandate_fields:
  assumes "normalize_operation_mandate m = Inr n"
  obtains op sv us where
    "normalize_operation (as_dict (dget m ''operation'')) = Inr op"
    "normalize_signatures (dget m ''signatures'') = Inr (PDict [(''server'', PDict sv), (''user'', PDict us)])"
    "map_of n = (map_of m)(''type'' \<mapsto> PStr operation_type, ''operation'' \<mapsto> PDict op,
       ''signatures'' \<mapsto> PDict [(''server'', PDict sv), (''user'', PDict us)],
       ''userAuthorization'' \<mapsto> PDict (as_dict (dget m ''userAuthorization'')))"
proof -
  obtain op sigs where s: "normalize_operation (as_dict (dget m ''operation'')) = Inr op"
    "normalize_signatures (dget m ''signatures'') = Inr sigs"
    and n: "n = AList.update ''type'' (PStr operation_type)
           (AList.update ''userAuthorization'' (PDict (as_dict (dget m ''userAuthorization'')))
           (AList.update ''signatures'' sigs (AList.update ''operation'' (PDict op) m)))"
    using assms by (auto simp: normalize_operation_mandate_def rbind_Inr_iff)
  from normalize_signatures_shape [OF s(2)] obtain sv us
    where "sigs = PDict [(''server'', PDict sv), (''user'', PDict us)]" by blast
  with s n that show ?thesis by (simp add: fun_upd_twist)
qed

lemma normalize_operation_mandate_fixed:
  assumes "map_of n ''type'' = Some (PStr operation_type)" "map_of n ''operation'' = Some (PDict op)"
    "normalize_operation op = Inr op"
    "map_of n ''signatures'' = Some (PDict [(''server'', PDict sv), (''user'', PDict us)])"
    "map_of n ''userAuthorization'' = Some (PDict ua)"
  shows "normalize_operation_mandate n = Inr n"
  using assms
  by (simp add: normalize_operation_mandate_def dget_or_def update_same normalize_signatures_fixed)

lemma normalize_operation_mandate_idem:
  assumes "normalize_operation_mandate m = Inr n"
  shows "normalize_operation_mandate n = Inr n"
proof (cases rule: normalize_operation_mandate_fields [OF assms])
  case (1 op sv us)
  have "normalize_operation op = Inr op" by (rule normalize_operation_idem [OF 1(1)])
  then show ?thesis
    by (intro normalize_operation_mandate_fixed [of n op sv us]) (simp_all only: 1(3), simp_all)
qed

end
