(* ===== verification/UserSignature.thy ===== *)
theory UserSignature
  imports Mandate
begin

text \<open>
  \<open>user_signature/contracts.py\<close>: what a user signature is bound to, the envelope of a signed mandate,
  and the dispatch to the one signature method a server is configured with. A method
  (\<open>A4PUserSignatureMethod\<close>) is the record \<open>sig_method\<close>; the contract the authorization services rely
  on is the locale \<open>signature_method\<close>.
\<close>

section \<open>Context, signers and methods\<close>

record sig_context =
  sc_type :: string
  sc_mandate :: pdict
  sc_method :: string
  sc_user :: "string option"

text \<open>A signer of the user authorizer (\<open>A4PUserSigner\<close>).\<close>

record signer =
  us_method :: string
  us_sign :: "sig_context \<Rightarrow> pdict option \<Rightarrow> pdict res"

text \<open>
  A server-side method with private state \<open>'m\<close> (its credential store). The state is returned on every
  path, also where the call raises.
\<close>

record 'm sig_method =
  sm_name :: string
  sm_policy :: pdict
  sm_options :: "'m \<Rightarrow> string \<Rightarrow> pdict \<Rightarrow> pdict res \<times> 'm"
  sm_verify :: "'m \<Rightarrow> sig_context \<Rightarrow> pdict \<Rightarrow> (bool \<times> string) res \<times> 'm"

definition attach_user_signature :: "pdict \<Rightarrow> pdict \<Rightarrow> pdict" where
  "attach_user_signature m sig =
     AList.update ''signatures''
       (PDict (AList.update ''user'' (PDict sig) (as_dict (dget m ''signatures'')))) m"

definition sign_user_signature :: "sig_context \<Rightarrow> signer \<Rightarrow> pdict option \<Rightarrow> pdict res" where
  "sign_user_signature ctx s input =
     (if us_method s \<noteq> sc_method ctx
      then Inl (ValueError (''User signer method mismatch: mandate requires '' @ quoted (sc_method ctx) @
             '', got '' @ quoted (us_method s)))
      else rbind (us_sign s ctx input) (\<lambda>sig.
        if \<not> py_eq (dget sig ''signatureMethod'') (PStr (sc_method ctx))
        then Inl (ValueError ''User signer returned a mismatched signatureMethod'')
        else Inr sig))"

definition verify_user_signature ::
  "'m sig_method option \<Rightarrow> bool \<Rightarrow> 'm \<Rightarrow> sig_context \<Rightarrow> pdict \<Rightarrow> (bool \<times> string) res \<times> 'm" where
  "verify_user_signature method required st ctx sig =
     (if \<not> required
      then (Inr (if sig = [] then (True, []) else (False, ''User signature must be empty'')), st)
      else case method of
        None \<Rightarrow> (Inr (False, ''User signature method missing''), st)
      | Some M \<Rightarrow>
          (let name = text_of (dget sig ''signatureMethod'') in
           if name = [] then (Inr (False, ''User signature missing''), st)
           else if name \<noteq> sc_method ctx
             then (Inr (False, ''User signature method mismatch: mandate requires '' @
                     quoted (sc_method ctx) @ '', got '' @ quoted name), st)
           else if sm_name M \<noteq> sc_method ctx
             then (Inr (False, ''Configured user signature method mismatch: mandate requires '' @
                     quoted (sc_method ctx) @ '', configured method is '' @ quoted (sm_name M)), st)
           else sm_verify M st ctx sig))"

section \<open>The contract of a method\<close>

text \<open>
  \<open>endorsed st u m sig\<close>: in state \<open>st\<close> the envelope \<open>sig\<close> proves that a credential of user \<open>u\<close> signed the
  server-signed mandate \<open>m\<close>. \<open>enrolled st u\<close>: user \<open>u\<close> has a credential.
\<close>

locale signature_method =
  fixes M :: "'m sig_method"
    and invar :: "'m \<Rightarrow> bool"
    and enrolled :: "'m \<Rightarrow> string \<Rightarrow> bool"
    and endorsed :: "'m \<Rightarrow> string \<Rightarrow> pdict \<Rightarrow> pdict \<Rightarrow> bool"
  assumes options_invar: "invar st \<Longrightarrow> invar (snd (sm_options M st u m))"
    and verify_invar: "invar st \<Longrightarrow> invar (snd (sm_verify M st ctx sig))"
    and options_enrolled: "invar st \<Longrightarrow> fst (sm_options M st u m) = Inr opts \<Longrightarrow> enrolled st u"
    and verify_endorsed: "invar st \<Longrightarrow> sc_user ctx = Some u \<Longrightarrow>
      fst (sm_verify M st ctx sig) = Inr (True, why) \<Longrightarrow> endorsed st u (sc_mandate ctx) sig"
begin

lemma verify_user_signature_invar:
  "invar st \<Longrightarrow> invar (snd (verify_user_signature (Some M) req st ctx sig))"
  by (simp add: verify_user_signature_def Let_def verify_invar)

lemma verify_user_signature_endorsed:
  assumes "invar st" "sc_user ctx = Some u"
    and "fst (verify_user_signature (Some M) True st ctx sig) = Inr (True, why)"
  shows "endorsed st u (sc_mandate ctx) sig \<and> text_of (dget sig ''signatureMethod'') = sc_method ctx
    \<and> sm_name M = sc_method ctx"
  using assms verify_endorsed [OF assms(1,2)]
  by (auto simp: verify_user_signature_def Let_def split: if_splits)

end

lemma verify_user_signature_not_required:
  "verify_user_signature method False st ctx sig = (Inr (True, why), st') \<longleftrightarrow> sig = [] \<and> why = [] \<and> st' = st"
  by (auto simp: verify_user_signature_def)

section \<open>The user signature is outside what it signs\<close>

lemma normalize_signatures_attach:
  assumes "normalize_signatures (dget m ''signatures'') = Inr (PDict [(''server'', PDict sv), (''user'', PDict us)])"
  shows "normalize_signatures (dget (attach_user_signature m sig) ''signatures'')
    = Inr (PDict [(''server'', PDict sv), (''user'', PDict sig)])"
  using assms
  by (auto simp: attach_user_signature_def normalize_signatures_def Let_def rbind_Inr_iff py_or_def)

lemma attach_other [simp]:
  "k \<noteq> ''signatures'' \<Longrightarrow> dget_or (attach_user_signature m sig) k d = dget_or m k d"
  by (simp add: attach_user_signature_def)

lemma attach_signatures [simp]:
  "dget_or (attach_user_signature m sig) ''signatures'' d
   = PDict (AList.update ''user'' (PDict sig) (as_dict (dget m ''signatures'')))"
  by (simp add: attach_user_signature_def)

end
