(* ===== verification/CredentialStore.thy ===== *)
theory CredentialStore
  imports CanonicalJson
begin

text \<open>
  \<open>credential_store.py\<close>: user credentials by credential id, in memory and in a JSON file. The
  interface \<open>A4PCredentialStore\<close> is the locale \<open>credential_store\<close>; both classes interpret it, so
  whatever a signature method proves from the interface holds for either.
\<close>

section \<open>Records and the in-memory store\<close>

record user_credential =
  uc_user :: string
  uc_credential :: string
  uc_method :: string
  uc_public_key :: pdict
  uc_details :: pdict
  uc_metadata :: pdict
  uc_created_at :: string

type_synonym cred_map = "(string \<times> user_credential) list"

definition mem_save :: "user_credential \<Rightarrow> cred_map \<Rightarrow> cred_map" where
  "mem_save r m = AList.update (uc_credential r) r m"

definition mem_get :: "cred_map \<Rightarrow> string \<Rightarrow> user_credential option" where
  "mem_get m cid = map_of m cid"

definition mem_list_all :: "cred_map \<Rightarrow> user_credential list" where
  "mem_list_all m = map snd m"

definition mem_list_for_user :: "cred_map \<Rightarrow> string \<Rightarrow> user_credential list" where
  "mem_list_for_user m user = filter (\<lambda>r. uc_user r = user) (mem_list_all m)"

definition mem_init :: "user_credential list \<Rightarrow> cred_map" where
  "mem_init rs = foldl (\<lambda>m r. mem_save r m) [] rs"

definition mem_inv :: "cred_map \<Rightarrow> bool" where
  "mem_inv m \<longleftrightarrow> keys_distinct m \<and> (\<forall>(k, r) \<in> set m. uc_credential r = k)"

section \<open>The JSON file store\<close>

text \<open>\<open>asdict(record)\<close> and \<open>UserCredentialRecord(**item)\<close>; a missing or unknown field is a \<open>TypeError\<close>.\<close>

definition cred_to_json :: "user_credential \<Rightarrow> pyval" where
  "cred_to_json r = PDict
     [(''userId'', PStr (uc_user r)), (''credentialId'', PStr (uc_credential r)),
      (''signatureMethod'', PStr (uc_method r)), (''publicKey'', PDict (uc_public_key r)),
      (''details'', PDict (uc_details r)), (''metadata'', PDict (uc_metadata r)),
      (''createdAt'', PStr (uc_created_at r))]"

definition cred_fields :: "string list" where
  "cred_fields = [''userId'', ''credentialId'', ''signatureMethod'', ''publicKey'', ''details'',
     ''metadata'', ''createdAt'']"

fun str_field :: "pyval \<Rightarrow> string option" where
  "str_field (PStr s) = Some s"
| "str_field _ = None"

fun dict_field :: "pyval \<Rightarrow> pdict option" where
  "dict_field (PDict d) = Some d"
| "dict_field _ = None"

text \<open>
  The dataclass does not check field types at run time; the model's record is typed, so a file whose
  fields have other JSON types is outside it and reported as \<open>TypeError\<close>.
\<close>

definition cred_of_json :: "pyval \<Rightarrow> user_credential res" where
  "cred_of_json v =
     (case v of
        PDict d \<Rightarrow>
          (if \<not> set (map fst d) \<subseteq> set cred_fields
           then Inl (TypeError ''unexpected keyword argument'')
           else if \<not> {''userId'', ''credentialId'', ''signatureMethod'', ''publicKey''} \<subseteq> set (map fst d)
           then Inl (TypeError ''missing required positional argument'')
           else case (str_field (dget d ''userId''), str_field (dget d ''credentialId''),
                  str_field (dget d ''signatureMethod''), dict_field (dget d ''publicKey''),
                  dict_field (dget_or d ''details'' (PDict [])), dict_field (dget_or d ''metadata'' (PDict [])),
                  str_field (dget_or d ''createdAt'' (PStr []))) of
               (Some u, Some c, Some m, Some k, Some ds, Some md, Some t) \<Rightarrow>
                 Inr \<lparr>uc_user = u, uc_credential = c, uc_method = m, uc_public_key = k,
                   uc_details = ds, uc_metadata = md, uc_created_at = t\<rparr>
             | _ \<Rightarrow> Inl (TypeError ''field type''))
      | _ \<Rightarrow> Inl (CredentialStoreFormatError ''Credential store records must be objects''))"

text \<open>
  A file is absent or holds one JSON value (\<open>json.loads\<close> of what \<open>json.dumps\<close> wrote with sorted keys
  is that value with its keys sorted).
\<close>

type_synonym json_file = "pyval option"

definition load_records :: "json_file \<Rightarrow> user_credential list res" where
  "load_records file =
     (case file of
        None \<Rightarrow> Inr []
      | Some raw \<Rightarrow>
          (if \<not> (is_dict raw \<and> py_eq (dget (as_dict raw) ''schemaVersion'') (PInt 2))
           then Inl (CredentialStoreFormatError (''Unsupported credential store format; delete the '' @
                  ''old credential file and register credentials again''))
           else case dget (as_dict raw) ''credentials'' of
             PList items \<Rightarrow> traverse cred_of_json items
           | _ \<Rightarrow> Inl (CredentialStoreFormatError (''Credential store '' @ quoted ''credentials'' @ '' must be a list''))))"

record file_store =
  fs_records :: cred_map
  fs_file :: json_file

definition file_flush :: "file_store \<Rightarrow> file_store" where
  "file_flush st = st\<lparr>fs_file := Some (sort_keys (PDict
     [(''schemaVersion'', PInt 2), (''credentials'', PList (map cred_to_json (mem_list_all (fs_records st))))]))\<rparr>"

definition file_refresh :: "file_store \<Rightarrow> file_store res" where
  "file_refresh st = rbind (load_records (fs_file st)) (\<lambda>rs. Inr (st\<lparr>fs_records := mem_init rs\<rparr>))"

definition file_save :: "user_credential \<Rightarrow> file_store \<Rightarrow> file_store" where
  "file_save r st = file_flush (st\<lparr>fs_records := mem_save r (fs_records st)\<rparr>)"

definition file_get :: "file_store \<Rightarrow> string \<Rightarrow> (user_credential option \<times> file_store) res" where
  "file_get st cid = rbind (file_refresh st) (\<lambda>st'. Inr (mem_get (fs_records st') cid, st'))"

definition file_list_all :: "file_store \<Rightarrow> (user_credential list \<times> file_store) res" where
  "file_list_all st = rbind (file_refresh st) (\<lambda>st'. Inr (mem_list_all (fs_records st'), st'))"

definition file_list_for_user :: "file_store \<Rightarrow> string \<Rightarrow> (user_credential list \<times> file_store) res" where
  "file_list_for_user st user =
     rbind (file_refresh st) (\<lambda>st'. Inr (mem_list_for_user (fs_records st') user, st'))"

definition file_init :: "json_file \<Rightarrow> file_store res" where
  "file_init file = rbind (load_records file) (\<lambda>rs.
     Inr (foldl (\<lambda>st r. file_save r st) \<lparr>fs_records = [], fs_file = file\<rparr> rs))"

section \<open>The store interface\<close>

text \<open>The operations of \<open>A4PCredentialStore\<close> as a signature method calls them.\<close>

record 'st cred_store =
  cs_save :: "user_credential \<Rightarrow> 'st \<Rightarrow> 'st"
  cs_get :: "'st \<Rightarrow> string \<Rightarrow> (user_credential option \<times> 'st) res"
  cs_list_for_user :: "'st \<Rightarrow> string \<Rightarrow> (user_credential list \<times> 'st) res"
  cs_list_all :: "'st \<Rightarrow> (user_credential list \<times> 'st) res"

definition memory_store :: "cred_map cred_store" where
  "memory_store = \<lparr>cs_save = mem_save,
     cs_get = (\<lambda>st cid. Inr (mem_get st cid, st)),
     cs_list_for_user = (\<lambda>st u. Inr (mem_list_for_user st u, st)),
     cs_list_all = (\<lambda>st. Inr (mem_list_all st, st))\<rparr>"

definition json_file_store :: "file_store cred_store" where
  "json_file_store = \<lparr>cs_save = file_save, cs_get = file_get,
     cs_list_for_user = file_list_for_user, cs_list_all = file_list_all\<rparr>"

text \<open>
  Going through the file orders the keys of the nested objects; \<open>norm_cred\<close> forgets that order, and
  the laws are stated on the contents up to it.
\<close>

definition sort_dict :: "pdict \<Rightarrow> pdict" where
  "sort_dict d = as_dict (sort_keys (PDict d))"

lemma PDict_sort_dict [simp]: "PDict (sort_dict d) = sort_keys (PDict d)"
  by (simp add: sort_dict_def)

lemma sort_dict_idem [simp]: "sort_dict (sort_dict d) = sort_dict d"
  by (metis PDict_sort_dict pyval.inject(5) sort_keys_idem)

definition norm_cred :: "user_credential \<Rightarrow> user_credential" where
  "norm_cred r = r\<lparr>uc_public_key := sort_dict (uc_public_key r), uc_details := sort_dict (uc_details r),
     uc_metadata := sort_dict (uc_metadata r)\<rparr>"

lemma norm_cred_simps [simp]:
  "uc_user (norm_cred r) = uc_user r" "uc_credential (norm_cred r) = uc_credential r"
  "uc_method (norm_cred r) = uc_method r" "uc_created_at (norm_cred r) = uc_created_at r"
  "uc_public_key (norm_cred r) = sort_dict (uc_public_key r)"
  "norm_cred (norm_cred r) = norm_cred r"
  by (simp_all add: norm_cred_def)

locale credential_store =
  fixes S :: "'st cred_store"
    and contents :: "'st \<Rightarrow> string \<rightharpoonup> user_credential"
    and invar :: "'st \<Rightarrow> bool"
  assumes save_invar: "invar st \<Longrightarrow> invar (cs_save S r st)"
    and save_contents: "invar st \<Longrightarrow> contents (cs_save S r st) = (contents st)(uc_credential r \<mapsto> norm_cred r)"
    and key_of_record: "invar st \<Longrightarrow> contents st cid = Some r \<Longrightarrow> uc_credential r = cid"
    and get_law: "invar st \<Longrightarrow> \<exists>r st'. cs_get S st cid = Inr (r, st') \<and> map_option norm_cred r = contents st cid
      \<and> invar st' \<and> contents st' = contents st"
    and list_all_law: "invar st \<Longrightarrow> \<exists>rs st'. cs_list_all S st = Inr (rs, st') \<and> norm_cred ` set rs = ran (contents st)
      \<and> invar st' \<and> contents st' = contents st"
    and list_for_user_law: "invar st \<Longrightarrow> \<exists>rs st'. cs_list_for_user S st u = Inr (rs, st')
      \<and> norm_cred ` set rs = {r \<in> ran (contents st). uc_user r = u} \<and> invar st' \<and> contents st' = contents st"
begin

text \<open>A saved credential is found again, under its own id only, and listed for its user.\<close>

lemma get_after_save:
  assumes "invar st"
  shows "\<exists>r' st'. cs_get S (cs_save S r st) (uc_credential r) = Inr (Some r', st') \<and> norm_cred r' = norm_cred r"
  using get_law [OF save_invar [OF assms], of r "uc_credential r"] save_contents [OF assms, of r] by auto

lemma get_other_after_save:
  assumes "invar st" "cid \<noteq> uc_credential r"
  shows "\<exists>a b st1 st2. cs_get S (cs_save S r st) cid = Inr (a, st1) \<and> cs_get S st cid = Inr (b, st2)
    \<and> map_option norm_cred a = map_option norm_cred b"
  using get_law [OF save_invar [OF assms(1)], of r cid] get_law [OF assms(1), of cid]
    save_contents [OF assms(1), of r] assms(2) by force

end

section \<open>Both stores satisfy the interface\<close>

definition mem_contents :: "cred_map \<Rightarrow> string \<rightharpoonup> user_credential" where
  "mem_contents m = (\<lambda>cid. map_option norm_cred (map_of m cid))"

lemma mem_inv_keys: "mem_inv m \<Longrightarrow> map_of m k = Some r \<Longrightarrow> uc_credential r = k"
  by (auto simp: mem_inv_def dest: map_of_SomeD)

lemma mem_inv_save:
  assumes "mem_inv m"
  shows "mem_inv (mem_save r m)"
proof -
  have kd: "keys_distinct (mem_save r m)" using assms by (simp add: mem_inv_def mem_save_def)
  have "uc_credential x = k" if "(k, x) \<in> set (mem_save r m)" for k x
  proof -
    from that kd have "map_of (mem_save r m) k = Some x" by simp
    then show ?thesis
      using mem_inv_keys [OF assms, of k x] by (simp add: mem_save_def split: if_splits)
  qed
  with kd show ?thesis by (auto simp: mem_inv_def)
qed

lemma set_mem_list_all: "mem_inv m \<Longrightarrow> set (mem_list_all m) = ran (map_of m)"
  by (force simp: mem_list_all_def mem_inv_def ran_def)

lemma ran_mem_contents: "mem_inv m \<Longrightarrow> norm_cred ` set (mem_list_all m) = ran (mem_contents m)"
  by (auto simp: set_mem_list_all ran_def mem_contents_def)

lemma list_for_user_contents:
  "mem_inv m \<Longrightarrow> norm_cred ` set (mem_list_for_user m u) = {r \<in> ran (mem_contents m). uc_user r = u}"
  unfolding mem_list_for_user_def
  by (subst ran_mem_contents [symmetric]) auto

interpretation mem: credential_store memory_store mem_contents mem_inv
proof
  fix st :: cred_map and r cid u
  assume inv: "mem_inv st"
  show "mem_inv (cs_save memory_store r st)"
    using inv by (simp add: memory_store_def mem_inv_save)
  show "mem_contents (cs_save memory_store r st) = (mem_contents st)(uc_credential r \<mapsto> norm_cred r)"
    by (auto simp: memory_store_def mem_contents_def mem_save_def)
  show "mem_contents st cid = Some r \<Longrightarrow> uc_credential r = cid"
    using inv by (auto simp: mem_contents_def dest: mem_inv_keys)
  show "\<exists>r st'. cs_get memory_store st cid = Inr (r, st') \<and> map_option norm_cred r = mem_contents st cid
      \<and> mem_inv st' \<and> mem_contents st' = mem_contents st"
    using inv by (simp add: memory_store_def mem_get_def mem_contents_def)
  show "\<exists>rs st'. cs_list_all memory_store st = Inr (rs, st') \<and> norm_cred ` set rs = ran (mem_contents st)
      \<and> mem_inv st' \<and> mem_contents st' = mem_contents st"
    using inv ran_mem_contents by (simp add: memory_store_def)
  show "\<exists>rs st'. cs_list_for_user memory_store st u = Inr (rs, st')
      \<and> norm_cred ` set rs = {r \<in> ran (mem_contents st). uc_user r = u} \<and> mem_inv st'
      \<and> mem_contents st' = mem_contents st"
    using inv list_for_user_contents by (simp add: memory_store_def)
qed

text \<open>Reading a file does not depend on the order of the keys of its objects.\<close>

lemma dget_or_sort_key [simp]: "keys_distinct d \<Longrightarrow> dget_or (sort_key fst d) k v = dget_or d k v"
  by (simp add: dget_or_def map_of_sort_key)

lemma cred_of_json_sorted: "keys_distinct d \<Longrightarrow> cred_of_json (PDict (sort_key fst d)) = cred_of_json (PDict d)"
  by (simp add: cred_of_json_def)

lemma cred_roundtrip: "cred_of_json (sort_keys (cred_to_json r)) = Inr (norm_cred r)"
proof -
  let ?items = "sort_keys_items (as_dict (cred_to_json r))"
  have kd: "keys_distinct ?items" by (simp add: cred_to_json_def)
  have "cred_of_json (sort_keys (cred_to_json r)) = cred_of_json (PDict ?items)"
    using cred_of_json_sorted [OF kd] by (simp add: cred_to_json_def)
  also have "\<dots> = Inr (norm_cred r)"
    by (simp add: cred_to_json_def cred_of_json_def cred_fields_def norm_cred_def sort_dict_def)
  finally show ?thesis .
qed

definition file_image :: "cred_map \<Rightarrow> pyval" where
  "file_image m = sort_keys (PDict
     [(''schemaVersion'', PInt 2), (''credentials'', PList (map cred_to_json (mem_list_all m)))])"

lemma traverse_roundtrip:
  "traverse cred_of_json (map (sort_keys \<circ> cred_to_json) rs) = Inr (map norm_cred rs)"
  by (induction rs) (simp_all add: cred_roundtrip)

lemma load_file_image: "load_records (Some (file_image m)) = Inr (map norm_cred (mem_list_all m))"
proof -
  let ?items = "sort_keys_items
    [(''schemaVersion'', PInt 2), (''credentials'', PList (map cred_to_json (mem_list_all m)))]"
  have kd: "keys_distinct ?items" by simp
  show ?thesis
    using dget_or_sort_key [OF kd] traverse_roundtrip [of "mem_list_all m"]
    by (simp add: load_records_def file_image_def sort_keys_list_map)
qed

lemma file_flush_image: "fs_file (file_flush st) = Some (file_image (fs_records st))"
  by (simp add: file_flush_def file_image_def)

text \<open>Building the in-memory map from the listed records gives the same contents back.\<close>

lemma mem_init_snoc: "mem_init (rs @ [r]) = mem_save r (mem_init rs)"
  by (simp add: mem_init_def)

lemma mem_inv_init: "mem_inv (mem_init rs)"
proof (induction rs rule: rev_induct)
  case Nil
  then show ?case by (simp add: mem_init_def mem_inv_def)
next
  case (snoc r rs)
  then show ?case by (simp add: mem_init_snoc mem_inv_save)
qed

lemma update_new: "k \<notin> fst ` set m \<Longrightarrow> AList.update k v m = m @ [(k, v)]"
  by (induction m) auto

lemma mem_init_norm:
  "mem_inv m \<Longrightarrow> mem_init (map norm_cred (mem_list_all m)) = map (\<lambda>(k, r). (k, norm_cred r)) m"
proof (induction m rule: rev_induct)
  case Nil
  then show ?case by (simp add: mem_init_def mem_list_all_def)
next
  case (snoc p m)
  obtain k r where p: "p = (k, r)" by (cases p)
  with snoc.prems have inv: "mem_inv m" and k: "uc_credential r = k" "k \<notin> fst ` set m"
    by (auto simp: mem_inv_def)
  have "k \<notin> fst ` set (map (\<lambda>(k, r). (k, norm_cred r)) m)" using k(2) by force
  from update_new [OF this] have "mem_save (norm_cred r) (map (\<lambda>(k, r). (k, norm_cred r)) m)
      = map (\<lambda>(k, r). (k, norm_cred r)) m @ [(k, norm_cred r)]"
    by (simp add: mem_save_def k)
  with snoc.IH [OF inv] show ?case by (simp add: p mem_list_all_def mem_init_snoc)
qed

definition file_inv :: "file_store \<Rightarrow> bool" where
  "file_inv st \<longleftrightarrow> mem_inv (fs_records st) \<and>
     (fs_file st = Some (file_image (fs_records st)) \<or> fs_file st = None \<and> fs_records st = [])"

definition file_contents :: "file_store \<Rightarrow> string \<rightharpoonup> user_credential" where
  "file_contents st = mem_contents (fs_records st)"

lemma cred_to_json_norm: "sort_keys (cred_to_json (norm_cred r)) = sort_keys (cred_to_json r)"
  by (simp add: cred_to_json_def norm_cred_def)

lemma file_image_norm: "file_image (map (\<lambda>(k, r). (k, norm_cred r)) m) = file_image m"
  by (simp add: file_image_def mem_list_all_def sort_keys_list_map comp_def case_prod_unfold cred_to_json_norm)

text \<open>In a consistent store a refresh succeeds and keeps the contents.\<close>

lemma file_refresh_law:
  assumes "file_inv st"
  shows "\<exists>st'. file_refresh st = Inr st' \<and> file_inv st' \<and> file_contents st' = file_contents st"
proof (cases "fs_file st")
  case None
  with assms have "fs_records st = []" by (simp add: file_inv_def)
  with None show ?thesis
    by (simp add: file_refresh_def load_records_def file_inv_def mem_init_def mem_inv_def file_contents_def)
next
  case (Some f)
  with assms have inv: "mem_inv (fs_records st)" and f: "f = file_image (fs_records st)"
    by (auto simp: file_inv_def)
  let ?m = "map (\<lambda>(k, r). (k, norm_cred r)) (fs_records st)"
  have r: "file_refresh st = Inr (st\<lparr>fs_records := ?m\<rparr>)"
    using Some f by (simp add: file_refresh_def load_file_image mem_init_norm [OF inv])
  have "mem_inv ?m"
    using mem_inv_init [of "map norm_cred (mem_list_all (fs_records st))"] mem_init_norm [OF inv] by simp
  then have "file_inv (st\<lparr>fs_records := ?m\<rparr>)"
    using Some f by (simp add: file_inv_def file_image_norm)
  moreover have "file_contents (st\<lparr>fs_records := ?m\<rparr>) = file_contents st"
    by (rule ext) (simp add: file_contents_def mem_contents_def map_of_map option.map_comp comp_def)
  ultimately show ?thesis using r by blast
qed

interpretation json: credential_store json_file_store file_contents file_inv
proof
  fix st :: file_store and r cid u
  assume inv: "file_inv st"
  then have minv: "mem_inv (fs_records st)" by (simp add: file_inv_def)
  show "file_inv (cs_save json_file_store r st)"
    using mem_inv_save [OF minv]
    by (simp add: json_file_store_def file_save_def file_inv_def file_flush_def file_image_def)
  show "file_contents (cs_save json_file_store r st) = (file_contents st)(uc_credential r \<mapsto> norm_cred r)"
    by (auto simp: json_file_store_def file_save_def file_flush_def file_contents_def mem_contents_def mem_save_def)
  show "file_contents st cid = Some r \<Longrightarrow> uc_credential r = cid"
    using minv by (auto simp: file_contents_def mem_contents_def dest: mem_inv_keys)
  obtain st' where st': "file_refresh st = Inr st'" "file_inv st'" "file_contents st' = file_contents st"
    using file_refresh_law [OF inv] by blast
  then have minv': "mem_inv (fs_records st')" by (simp add: file_inv_def)
  show "\<exists>r st'. cs_get json_file_store st cid = Inr (r, st') \<and> map_option norm_cred r = file_contents st cid
      \<and> file_inv st' \<and> file_contents st' = file_contents st"
    using st' by (simp add: json_file_store_def file_get_def mem_get_def)
      (simp add: file_contents_def mem_contents_def fun_eq_iff)
  show "\<exists>rs st'. cs_list_all json_file_store st = Inr (rs, st') \<and> norm_cred ` set rs = ran (file_contents st)
      \<and> file_inv st' \<and> file_contents st' = file_contents st"
    using st' ran_mem_contents [OF minv'] by (simp add: json_file_store_def file_list_all_def)
      (simp add: file_contents_def)
  show "\<exists>rs st'. cs_list_for_user json_file_store st u = Inr (rs, st')
      \<and> norm_cred ` set rs = {r \<in> ran (file_contents st). uc_user r = u} \<and> file_inv st'
      \<and> file_contents st' = file_contents st"
    using st' list_for_user_contents [OF minv', of u]
    by (simp add: json_file_store_def file_list_for_user_def) (simp add: file_contents_def)
qed

end
