(* ===== verification/Ed25519Method.thy ===== *)
theory Ed25519Method
  imports UserSignature CredentialStore
begin

text \<open>
  \<open>user_signature/ed25519.py\<close>: registration of user-owned Ed25519 keys, verification of a user
  signature against the registered key, and the signer of the user authorizer. Everything is stated
  over the credential-store interface, so it holds with the in-memory and with the file store.
\<close>

abbreviation ed25519_name :: string where
  "ed25519_name \<equiv> ''ed25519''"

section \<open>Registration\<close>

text \<open>The JWK both functions of the module build; \<open>x\<close> is the encoded public key.\<close>

definition okp_jwk :: "string \<Rightarrow> pdict" where
  "okp_jwk x = [(''kty'', PStr ''OKP''), (''crv'', PStr ''Ed25519''), (''x'', PStr x), (''alg'', PStr ''EdDSA'')]"

definition ed25519_public_jwk :: "('sk, 'pk) crypto \<Rightarrow> 'sk \<Rightarrow> pdict" where
  "ed25519_public_jwk C k = okp_jwk (ed25519_public_key_to_base64url C (cr_public C k))"

definition normalize_public_jwk :: "('sk, 'pk) crypto \<Rightarrow> pyval \<Rightarrow> pdict res" where
  "normalize_public_jwk C v =
     (case v of
        PDict d \<Rightarrow>
          (if map_of d ''d'' \<noteq> None then Inl (ValueError ''publicKey must not contain private key material'')
           else if \<not> py_eq (dget d ''kty'') (PStr ''OKP'')
             then Inl (ValueError (''publicKey.kty must be '' @ quoted ''OKP''))
           else if \<not> py_eq (dget d ''crv'') (PStr ''Ed25519'')
             then Inl (ValueError (''publicKey.crv must be '' @ quoted ''Ed25519''))
           else if map_of d ''alg'' \<noteq> None \<and> \<not> py_eq (dget d ''alg'') (PStr ''EdDSA'')
             then Inl (ValueError (''publicKey.alg must be '' @ quoted ''EdDSA''))
           else let x = text_of (dget d ''x'') in
             rbind (ed25519_public_key_from_base64url C x) (\<lambda>_. Inr (okp_jwk x)))
      | _ \<Rightarrow> Inl (ValueError ''publicKey must be an OKP JWK object''))"

definition register_response :: "bool \<Rightarrow> user_credential \<Rightarrow> pdict" where
  "register_response created r =
     [(''registered'', PBool True), (''created'', PBool created), (''credential'', cred_to_json r)]"

text \<open>The validated part of a request: the user, the key and the metadata.\<close>

definition register_fields :: "('sk, 'pk) crypto \<Rightarrow> pdict \<Rightarrow> (string \<times> pdict \<times> pdict) res" where
  "register_fields C request =
     (let user = text_of (dget request ''userId'') in
      if user = [] then Inl (ValueError ''userId missing'')
      else rbind (normalize_public_jwk C (dget request ''publicKey'')) (\<lambda>key.
        case dget request ''metadata'' of
          PNone \<Rightarrow> Inr (user, key, [])
        | PDict md \<Rightarrow> Inr (user, key, md)
        | _ \<Rightarrow> Inl (ValueError ''metadata must be an object'')))"

text \<open>
  \<open>RegisteredEd25519Method.register\<close>; \<open>token\<close> is \<open>secrets.token_urlsafe(32)\<close> and \<open>now\<close> the clock.
\<close>

definition ed25519_register ::
  "('sk, 'pk) crypto \<Rightarrow> 'st cred_store \<Rightarrow> string \<Rightarrow> rat \<Rightarrow> 'st \<Rightarrow> pdict \<Rightarrow> pdict res \<times> 'st" where
  "ed25519_register C S token now st request =
     (case register_fields C request of
        Inl e \<Rightarrow> (Inl e, st)
      | Inr (user, key, md) \<Rightarrow>
          (case cs_list_all S st of
             Inl e \<Rightarrow> (Inl e, st)
           | Inr (rs, st1) \<Rightarrow>
               (case List.find (\<lambda>r. uc_method r = ed25519_name \<and> py_eq (PDict (uc_public_key r)) (PDict key)) rs of
                  Some r \<Rightarrow>
                    (if uc_user r \<noteq> user then (Inl CredentialKeyConflict, st1)
                     else (Inr (register_response False r), st1))
                | None \<Rightarrow>
                    (case utc_text now of
                       Inl e \<Rightarrow> (Inl e, st1)
                     | Inr created_at \<Rightarrow>
                         let r = \<lparr>uc_user = user, uc_credential = ''cred_'' @ token, uc_method = ed25519_name,
                                  uc_public_key = key, uc_details = [], uc_metadata = md,
                                  uc_created_at = created_at\<rparr>
                         in (Inr (register_response True r), cs_save S r st1)))))"

text \<open>A sequence of registrations: each with its request, token and clock reading.\<close>

fun ed25519_register_all ::
  "('sk, 'pk) crypto \<Rightarrow> 'st cred_store \<Rightarrow> 'st \<Rightarrow> (pdict \<times> string \<times> rat) list \<Rightarrow> 'st" where
  "ed25519_register_all C S st [] = st"
| "ed25519_register_all C S st ((req, token, now) # reqs) =
     ed25519_register_all C S (snd (ed25519_register C S token now st req)) reqs"

section \<open>Signing options, verification and the signer\<close>

definition ed25519_signing_options ::
  "'st cred_store \<Rightarrow> 'st \<Rightarrow> string \<Rightarrow> pdict \<Rightarrow> pdict res \<times> 'st" where
  "ed25519_signing_options S st user mandate =
     (case cs_list_for_user S st user of
        Inl e \<Rightarrow> (Inl e, st)
      | Inr (rs, st1) \<Rightarrow>
          (let ids = map uc_credential (filter (\<lambda>r. uc_method r = ed25519_name) rs) in
           if ids = [] then (Inl (UserCredentialNotRegistered user ed25519_name), st1)
           else (Inr [(''signatureMethod'', PStr ed25519_name),
                  (''methodOptions'', PDict [(''allowedCredentialIds'', PList (map PStr ids))])], st1)))"

text \<open>The checks of \<open>verify\<close> once the credential record has been read.\<close>

definition ed25519_check_proof ::
  "('sk, 'pk) crypto \<Rightarrow> user_credential \<Rightarrow> sig_context \<Rightarrow> pdict \<Rightarrow> (bool \<times> string) res" where
  "ed25519_check_proof C r ctx sig =
     (if uc_method r \<noteq> ed25519_name then Inr (False, ''User credential signature method mismatch'')
      else if (case sc_user ctx of None \<Rightarrow> False | Some u \<Rightarrow> uc_user r \<noteq> u)
        then Inr (False, ''User credential user mismatch: expected '' @ quoted (the (sc_user ctx)) @
               '', got '' @ quoted (uc_user r))
      else case dget sig ''proof'' of
        PDict proof \<Rightarrow>
          (if \<not> py_eq (dget proof ''alg'') (PStr ''EdDSA'')
           then Inr (False, ''User signature proof alg must be '' @ quoted ''EdDSA'')
           else let encoded = text_of (dget proof ''signature'') in
             if encoded = [] then Inr (False, ''User signature missing'')
             else case ed25519_public_key_from_base64url C (str_or (dget (uc_public_key r) ''x'') []) of
               Inl e \<Rightarrow> Inr (False, ''Registered Ed25519 public key invalid: '' @ exc_msg e)
             | Inr pk \<Rightarrow>
                 rbind (canonical_user_authorization_payload (sc_mandate ctx)) (\<lambda>text.
                   Inr (if ed25519_verify_text C text encoded pk then (True, [])
                        else (False, ''User signature invalid''))))
      | _ \<Rightarrow> Inr (False, ''User signature proof missing''))"

definition ed25519_verify ::
  "('sk, 'pk) crypto \<Rightarrow> 'st cred_store \<Rightarrow> 'st \<Rightarrow> sig_context \<Rightarrow> pdict \<Rightarrow> (bool \<times> string) res \<times> 'st" where
  "ed25519_verify C S st ctx sig =
     (let cid = text_of (dget sig ''credentialId'') in
      if cid = [] then (Inr (False, ''User credentialId missing''), st)
      else case cs_get S st cid of
        Inl e \<Rightarrow> (Inl e, st)
      | Inr (None, st1) \<Rightarrow> (Inr (False, ''User credential not registered: '' @ cid), st1)
      | Inr (Some r, st1) \<Rightarrow> (ed25519_check_proof C r ctx sig, st1))"

definition ed25519_method :: "('sk, 'pk) crypto \<Rightarrow> 'st cred_store \<Rightarrow> 'st sig_method" where
  "ed25519_method C S = \<lparr>sm_name = ed25519_name, sm_policy = [],
     sm_options = ed25519_signing_options S, sm_verify = ed25519_verify C S\<rparr>"

definition ed25519_user_signer :: "('sk, 'pk) crypto \<Rightarrow> string \<Rightarrow> 'sk \<Rightarrow> signer res" where
  "ed25519_user_signer C credential_id k =
     (let cid = strip credential_id in
      if cid = [] then Inl (ValueError ''credential_id missing'')
      else Inr \<lparr>us_method = ed25519_name,
        us_sign = (\<lambda>ctx input. rbind (canonical_user_authorization_payload (sc_mandate ctx)) (\<lambda>text.
          Inr [(''signatureMethod'', PStr ed25519_name), (''credentialId'', PStr cid),
               (''proof'', PDict [(''alg'', PStr ''EdDSA''),
                  (''signature'', PStr (ed25519_sign_text C text k))])]))\<rparr>)"

section \<open>Every registered key belongs to one user\<close>

lemma keys_distinct_sorted [simp]: "keys_distinct (sort_key fst d) = keys_distinct d"
  using distinct_map [of fst "sort_key fst d"] distinct_map [of fst d] by simp

lemma wf_val_sort_keys [simp]: "wf_val (sort_keys v) = wf_val v"
proof (induction v)
  case (PList xs)
  then show ?case by (auto simp: sort_keys_list_map wf_vals_iff)
next
  case (PDict d)
  have "wf_val (sort_keys w) = wf_val w" if "(k, w) \<in> set d" for k w
    using PDict [of "(k, w)" w] that by (auto simp: snds.simps)
  then have "(\<forall>(k, w) \<in> set d. wf_val (sort_keys w)) = (\<forall>(k, w) \<in> set d. wf_val w)" by blast
  then show ?case
    by (simp add: sort_keys_items_map wf_items_iff case_prod_unfold comp_def)
qed simp_all

lemma wf_okp_jwk: "wf_val (PDict (okp_jwk x))"
  by (simp add: okp_jwk_def)

lemma jwk_image:
  assumes "sort_dict d = sort_dict (okp_jwk x)"
  shows "sort_keys (PDict d) = sort_keys (PDict (okp_jwk x))" "wf_val (PDict d)" "map_of d ''x'' = Some (PStr x)"
proof -
  show eq: "sort_keys (PDict d) = sort_keys (PDict (okp_jwk x))"
    using assms by (metis PDict_sort_dict)
  then show wf: "wf_val (PDict d)" by (metis wf_val_sort_keys wf_okp_jwk)
  have "map_option sort_keys (map_of d ''x'') = map_option sort_keys (map_of (okp_jwk x) ''x'')"
    using sort_keys_dict_lookup [OF eq] wf wf_okp_jwk [of x] by simp
  then obtain v where "map_of d ''x'' = Some v" "sort_keys v = PStr x" by (auto simp: okp_jwk_def)
  then show "map_of d ''x'' = Some (PStr x)" by (cases v) simp_all
qed

lemma jwk_py_eq: "sort_dict d = sort_dict (okp_jwk x) \<Longrightarrow> py_eq (PDict d) (PDict (okp_jwk x))"
  by (intro sort_keys_eq_py_eq wf_okp_jwk jwk_image)

lemma jwk_py_eq_x:
  assumes "sort_dict d = sort_dict (okp_jwk x)" "py_eq (PDict d) (PDict (okp_jwk y))"
  shows "x = y"
proof -
  have "(''x'', PStr x) \<in> set d" using jwk_image(3) [OF assms(1)] by (rule map_of_SomeD)
  with assms(2) obtain w where "map_of (okp_jwk y) ''x'' = Some w" "py_eq (PStr x) w"
    by (force simp: py_sub_iff)
  then show ?thesis by (simp add: okp_jwk_def)
qed

lemma sort_jwk_inj: "sort_dict (okp_jwk x) = sort_dict (okp_jwk y) \<Longrightarrow> x = y"
  using jwk_image(3) [of "okp_jwk x" y] by (simp add: okp_jwk_def)

text \<open>
  The invariant of the credentials: an Ed25519 credential holds the encoding of a 32-byte key, and no
  two of them hold the same key.
\<close>

definition ed25519_key :: "user_credential \<Rightarrow> byte list \<Rightarrow> bool" where
  "ed25519_key r raw \<longleftrightarrow> uc_method r = ed25519_name \<and> length raw = 32
     \<and> sort_dict (uc_public_key r) = sort_dict (okp_jwk (b64url_encode raw))"

definition ed25519_keys_inv :: "(string \<rightharpoonup> user_credential) \<Rightarrow> bool" where
  "ed25519_keys_inv creds \<longleftrightarrow>
     (\<forall>c r. creds c = Some r \<longrightarrow> uc_method r = ed25519_name \<longrightarrow> (\<exists>raw. ed25519_key r raw)) \<and>
     (\<forall>c1 c2 r1 r2 raw. creds c1 = Some r1 \<longrightarrow> creds c2 = Some r2 \<longrightarrow>
        ed25519_key r1 raw \<longrightarrow> ed25519_key r2 raw \<longrightarrow> c1 = c2)"

lemma ed25519_keys_invD:
  assumes "ed25519_keys_inv creds" "creds c1 = Some r1"
  shows "uc_method r1 = ed25519_name \<Longrightarrow> \<exists>raw. ed25519_key r1 raw"
    and "creds c2 = Some r2 \<Longrightarrow> ed25519_key r1 raw \<Longrightarrow> ed25519_key r2 raw \<Longrightarrow> c1 = c2"
  using assms unfolding ed25519_keys_inv_def by blast+

lemma ed25519_key_norm [simp]: "ed25519_key (norm_cred r) raw = ed25519_key r raw"
  by (simp add: ed25519_key_def)

lemma ed25519_key_unique: "ed25519_key r raw \<Longrightarrow> ed25519_key r raw' \<Longrightarrow> raw = raw'"
  using b64url_roundtrip by (metis ed25519_key_def option.inject sort_jwk_inj)

lemma ed25519_key_matches:
  assumes "ed25519_key (norm_cred r) raw"
  shows "uc_method r = ed25519_name \<and> py_eq (PDict (uc_public_key r)) (PDict (okp_jwk (b64url_encode raw)))"
proof -
  have "ed25519_key r raw" using assms by simp
  then have "uc_method r = ed25519_name" and d: "sort_dict (uc_public_key r) = sort_dict (okp_jwk (b64url_encode raw))"
    by (simp_all only: ed25519_key_def)
  with jwk_py_eq [OF d] show ?thesis by blast
qed

lemma ed25519_key_of_match:
  assumes "ed25519_key r raw'" "py_eq (PDict (uc_public_key r)) (PDict (okp_jwk (b64url_encode raw)))"
  shows "ed25519_key r raw"
proof -
  have "b64url_encode raw' = b64url_encode raw"
    using jwk_py_eq_x [OF _ assms(2)] assms(1) by (simp only: ed25519_key_def)
  then have "raw' = raw" by (metis b64url_roundtrip option.inject)
  with assms(1) show ?thesis by simp
qed

lemma ed25519_keys_inv_save:
  assumes "ed25519_keys_inv creds" "ed25519_key r raw"
    and new: "\<And>c r'. creds c = Some r' \<Longrightarrow> \<not> ed25519_key r' raw"
  shows "ed25519_keys_inv (creds(c \<mapsto> r))"
proof -
  have raw: "raw' = raw" if "ed25519_key r raw'" for raw'
    using that assms(2) by (rule ed25519_key_unique)
  have "\<exists>raw. ed25519_key r1 raw" if "(creds(c \<mapsto> r)) c1 = Some r1" "uc_method r1 = ed25519_name" for c1 r1
    using that assms(1,2) by (auto simp: ed25519_keys_inv_def split: if_splits)
  moreover have "c1 = c2"
    if "(creds(c \<mapsto> r)) c1 = Some r1" "(creds(c \<mapsto> r)) c2 = Some r2" "ed25519_key r1 raw'" "ed25519_key r2 raw'"
    for c1 c2 r1 r2 raw'
  proof (cases "c1 = c \<or> c2 = c")
    case True
    with that raw new show ?thesis by (auto split: if_splits)
  next
    case False
    with that have "creds c1 = Some r1" "creds c2 = Some r2" by simp_all
    with assms(1) that(3,4) show ?thesis unfolding ed25519_keys_inv_def by blast
  qed
  ultimately show ?thesis unfolding ed25519_keys_inv_def by blast
qed

lemma normalize_public_jwk_raw:
  assumes "normalize_public_jwk C v = Inr key"
  obtains raw where "length raw = 32" "text_of (dget (as_dict v) ''x'') = b64url_encode raw"
    "key = okp_jwk (b64url_encode raw)"
  using assms
  by (auto simp: normalize_public_jwk_def Let_def rbind_Inr_iff public_key_accepted_iff
      split: pyval.splits if_splits)

lemma register_fields_raw:
  assumes "register_fields C req = Inr (user, key, md)"
  obtains raw where "length raw = 32" "text_of (dget (as_dict (dget req ''publicKey'')) ''x'') = b64url_encode raw"
    "key = okp_jwk (b64url_encode raw)" "user = text_of (dget req ''userId'')" "user \<noteq> []"
proof -
  have "normalize_public_jwk C (dget req ''publicKey'') = Inr key \<and> user = text_of (dget req ''userId'') \<and> user \<noteq> []"
    using assms
    by (cases "dget req ''metadata''") (auto simp: register_fields_def Let_def rbind_Inr_iff split: if_splits)
  then show ?thesis using that by (blast elim: normalize_public_jwk_raw)
qed


section \<open>The method over any credential store\<close>

definition ed25519_enrolled :: "(string \<rightharpoonup> user_credential) \<Rightarrow> string \<Rightarrow> bool" where
  "ed25519_enrolled creds u \<longleftrightarrow> (\<exists>c r. creds c = Some r \<and> uc_method r = ed25519_name \<and> uc_user r = u)"

definition ed25519_endorsed ::
  "('sk, 'pk) crypto \<Rightarrow> (string \<rightharpoonup> user_credential) \<Rightarrow> string \<Rightarrow> pdict \<Rightarrow> pdict \<Rightarrow> bool" where
  "ed25519_endorsed C creds u m sig \<longleftrightarrow>
     (\<exists>r pk text. creds (text_of (dget sig ''credentialId'')) = Some (norm_cred r)
        \<and> uc_method r = ed25519_name \<and> uc_user r = u
        \<and> ed25519_public_key_from_base64url C (str_or (dget (uc_public_key r) ''x'') []) = Inr pk
        \<and> canonical_user_authorization_payload m = Inr text
        \<and> ed25519_verify_text C text (text_of (dget (as_dict (dget sig ''proof'')) ''signature'')) pk)"

lemma ed25519_check_proof_True:
  assumes "ed25519_check_proof C r ctx sig = Inr (True, why)"
  obtains pk msg where "uc_method r = ed25519_name" "\<forall>u. sc_user ctx = Some u \<longrightarrow> uc_user r = u"
    "ed25519_public_key_from_base64url C (str_or (dget (uc_public_key r) ''x'') []) = Inr pk"
    "canonical_user_authorization_payload (sc_mandate ctx) = Inr msg"
    "ed25519_verify_text C msg (text_of (dget (as_dict (dget sig ''proof'')) ''signature'')) pk"
proof (cases "dget sig ''proof''")
  case (PDict p)
  have "uc_method r = ed25519_name \<and> (\<forall>u. sc_user ctx = Some u \<longrightarrow> uc_user r = u)"
    using assms by (auto simp: ed25519_check_proof_def split: if_splits option.splits)
  with PDict assms that show ?thesis
    by (auto simp: ed25519_check_proof_def Let_def rbind_Inr_iff split: if_splits sum.splits)
next
qed (use assms in \<open>auto simp: ed25519_check_proof_def split: if_splits option.splits\<close>)

locale ed25519_registration = credential_store S contents invar
  for S :: "'st cred_store" and contents :: "'st \<Rightarrow> string \<rightharpoonup> user_credential" and invar :: "'st \<Rightarrow> bool" +
  fixes C :: "('sk, 'pk) crypto"
begin

lemma verify_frame:
  assumes "invar st"
  shows "invar (snd (ed25519_verify C S st ctx sig))
    \<and> contents (snd (ed25519_verify C S st ctx sig)) = contents st"
  using get_law [OF assms, of "text_of (dget sig ''credentialId'')"] assms
  by (auto simp: ed25519_verify_def Let_def split: option.splits)

lemma options_frame:
  assumes "invar st"
  shows "invar (snd (ed25519_signing_options S st u m))
    \<and> contents (snd (ed25519_signing_options S st u m)) = contents st"
  using list_for_user_law [OF assms, of u] assms
  by (auto simp: ed25519_signing_options_def Let_def)

lemma options_iff:
  assumes "invar st"
  shows "(\<exists>opts. fst (ed25519_signing_options S st u m) = Inr opts) \<longleftrightarrow> ed25519_enrolled (contents st) u"
proof -
  obtain rs st' where rs: "cs_list_for_user S st u = Inr (rs, st')"
    "norm_cred ` set rs = {r \<in> ran (contents st). uc_user r = u}"
    using list_for_user_law [OF assms, of u] by blast
  have "(\<exists>r \<in> set rs. uc_method r = ed25519_name) \<longleftrightarrow> (\<exists>r \<in> norm_cred ` set rs. uc_method r = ed25519_name)"
    by auto
  also have "\<dots> \<longleftrightarrow> ed25519_enrolled (contents st) u"
    by (auto simp: rs(2) ed25519_enrolled_def ran_def)
  finally show ?thesis
    using rs(1) by (auto simp: ed25519_signing_options_def Let_def filter_empty_conv)
qed

lemma verify_endorsed:
  assumes "invar st" "sc_user ctx = Some u" "fst (ed25519_verify C S st ctx sig) = Inr (True, why)"
  shows "ed25519_endorsed C (contents st) u (sc_mandate ctx) sig"
proof -
  let ?cid = "text_of (dget sig ''credentialId'')"
  obtain ro st' where g: "cs_get S st ?cid = Inr (ro, st')" "map_option norm_cred ro = contents st ?cid"
    using get_law [OF assms(1), of ?cid] by blast
  with assms(3) obtain r where r: "ro = Some r" "ed25519_check_proof C r ctx sig = Inr (True, why)"
    by (auto simp: ed25519_verify_def Let_def split: if_splits option.splits)
  show ?thesis
  proof (rule ed25519_check_proof_True [OF r(2)])
  qed (use g(2) r(1) assms(2) in \<open>auto simp: ed25519_endorsed_def intro!: exI [of _ r]\<close>)
qed

text \<open>The record of a request that is accepted, and what registration does with it.\<close>

lemma register_cases:
  assumes inv: "invar st"
  obtains (refused) e st' where "ed25519_register C S token now st req = (Inl e, st')"
      "invar st'" "contents st' = contents st"
  | (known) r st' raw where "ed25519_register C S token now st req = (Inr (register_response False r), st')"
      "invar st'" "contents st' = contents st" "contents st (uc_credential r) = Some (norm_cred r)"
      "uc_method r = ed25519_name" "uc_user r = text_of (dget req ''userId'')"
      "py_eq (PDict (uc_public_key r)) (PDict (okp_jwk (b64url_encode raw)))"
      "text_of (dget (as_dict (dget req ''publicKey'')) ''x'') = b64url_encode raw" "length raw = 32"
  | (created) r st' raw where "ed25519_register C S token now st req = (Inr (register_response True r), st')"
      "invar st'" "contents st' = (contents st)(uc_credential r \<mapsto> norm_cred r)"
      "uc_credential r = ''cred_'' @ token" "uc_user r = text_of (dget req ''userId'')" "ed25519_key r raw"
      "text_of (dget (as_dict (dget req ''publicKey'')) ''x'') = b64url_encode raw"
      "\<And>c r'. contents st c = Some r' \<Longrightarrow> \<not> ed25519_key r' raw"
proof (cases "register_fields C req")
  case (Inl e)
  with refused inv show ?thesis by (simp add: ed25519_register_def)
next
  case (Inr f)
  obtain user key md where f: "f = (user, key, md)" by (cases f)
  obtain raw where raw: "length raw = 32" "key = okp_jwk (b64url_encode raw)" "user = text_of (dget req ''userId'')"
    "text_of (dget (as_dict (dget req ''publicKey'')) ''x'') = b64url_encode raw"
    using register_fields_raw [OF Inr [unfolded f]] by blast
  obtain rs st1 where l: "cs_list_all S st = Inr (rs, st1)" "norm_cred ` set rs = ran (contents st)"
    "invar st1" "contents st1 = contents st"
    using list_all_law [OF inv] by blast
  let ?P = "\<lambda>r. uc_method r = ed25519_name \<and> py_eq (PDict (uc_public_key r)) (PDict key)"
  show ?thesis
  proof (cases "List.find ?P rs")
    case (Some r)
    then have r: "r \<in> set rs" "?P r" by (auto simp: find_Some_iff)
    then have "norm_cred r \<in> ran (contents st)" using l(2) by blast
    then have "contents st (uc_credential r) = Some (norm_cred r)"
      using key_of_record [OF inv] by (fastforce simp: ran_def)
    with Some Inr f l r raw refused known inv show ?thesis
      by (cases "uc_user r = user") (auto simp: ed25519_register_def)
  next
    case None
    have new: "\<not> ed25519_key r' raw" if "contents st c = Some r'" for c r'
    proof
      assume k: "ed25519_key r' raw"
      from that l(2) obtain r where r: "r \<in> set rs" "r' = norm_cred r" by (auto simp: ran_def) 
      with k have "?P r" using ed25519_key_matches raw(2) by blast
      with None r(1) show False by (auto simp: find_None_iff)
    qed
    show ?thesis
    proof (cases "utc_text now")
      case (Inl e)
      with Inr f l None refused inv show ?thesis by (simp add: ed25519_register_def)
    next
      case (Inr t)
      let ?r = "\<lparr>uc_user = user, uc_credential = ''cred_'' @ token, uc_method = ed25519_name,
        uc_public_key = key, uc_details = [], uc_metadata = md, uc_created_at = t\<rparr>"
      show ?thesis
        by (rule created [of ?r "cs_save S ?r st1" raw])
          (use Inr \<open>register_fields C req = Inr f\<close> f l None raw new save_invar [OF l(3)] save_contents [OF l(3)]
            in \<open>simp_all add: ed25519_register_def ed25519_key_def Let_def\<close>)
    qed
  qed
qed

lemma register_keys_inv:
  assumes "invar st" "ed25519_keys_inv (contents st)"
  shows "invar (snd (ed25519_register C S token now st req))
    \<and> ed25519_keys_inv (contents (snd (ed25519_register C S token now st req)))"
  using assms(1)
proof (cases rule: register_cases [of st token now req])
  case (created r st' raw)
  then show ?thesis using ed25519_keys_inv_save [OF assms(2), of "norm_cred r" raw] by simp
qed (use assms in simp_all)

text \<open>A key that is already registered to somebody else is refused.\<close>

lemma register_conflict:
  assumes "invar st" "ed25519_keys_inv (contents st)"
    and "register_fields C req = Inr (user, okp_jwk (b64url_encode raw), md)"
    and "contents st c = Some r" "ed25519_key r raw" "uc_user r \<noteq> user"
  shows "fst (ed25519_register C S token now st req) = Inl CredentialKeyConflict"
proof -
  let ?P = "\<lambda>r. uc_method r = ed25519_name \<and> py_eq (PDict (uc_public_key r)) (PDict (okp_jwk (b64url_encode raw)))"
  obtain rs st1 where l: "cs_list_all S st = Inr (rs, st1)" "norm_cred ` set rs = ran (contents st)"
    using list_all_law [OF assms(1)] by blast
  obtain r0 where r0: "r0 \<in> set rs" "r = norm_cred r0" using l(2) assms(4) by (auto simp: ran_def)
  have "?P r0" using assms(5) r0(2) ed25519_key_matches by blast
  with r0(1) obtain r1 where r1: "List.find ?P rs = Some r1"
    by (cases "List.find ?P rs") (auto simp: find_None_iff)
  then have p: "r1 \<in> set rs" "?P r1" by (auto simp: find_Some_iff)
  obtain c1 where c1: "contents st c1 = Some (norm_cred r1)"
    using p(1) l(2) by (force simp: ran_def)
  have "uc_method (norm_cred r1) = ed25519_name" using p(2) by simp
  from ed25519_keys_invD(1) [OF assms(2) c1 this] obtain raw1 where "ed25519_key r1 raw1" by auto
  with p(2) have "ed25519_key r1 raw" using ed25519_key_of_match by blast
  then have "c1 = c" using ed25519_keys_invD(2) [OF assms(2) c1 assms(4)] assms(5) by simp
  with c1 assms(4,6) have "uc_user r1 \<noteq> user" by auto
  with assms(3) l(1) r1 show ?thesis by (simp add: ed25519_register_def)
qed

text \<open>Whatever registrations are attempted, in whatever order, the invariant stays.\<close>

lemma register_all_inv:
  assumes "invar st" "ed25519_keys_inv (contents st)"
  shows "invar (ed25519_register_all C S st reqs) \<and> ed25519_keys_inv (contents (ed25519_register_all C S st reqs))"
  using assms
  by (induction reqs arbitrary: st) (auto simp: register_keys_inv)

text \<open>What the signer makes with the private key of a registered credential verifies.\<close>

lemma signed_verifies:
  assumes laws: "ed25519_laws C" and inv: "invar st"
    and cred: "contents st cid = Some r" "uc_method r = ed25519_name" "uc_user r = u"
      "sort_dict (uc_public_key r) = sort_dict (ed25519_public_jwk C k)" "strip cid = cid" "cid \<noteq> []"
    and ctx: "sc_user ctx = Some u" "canonical_user_authorization_payload (sc_mandate ctx) = Inr msg"
      "sc_mandate ctx0 = sc_mandate ctx"
  shows "\<exists>s sig. ed25519_user_signer C cid k = Inr s \<and> us_method s = ed25519_name
    \<and> us_sign s ctx0 input = Inr sig \<and> dget sig ''signatureMethod'' = PStr ed25519_name
    \<and> fst (ed25519_verify C S st ctx sig) = Inr (True, [])"
proof -
  let ?x = "ed25519_public_key_to_base64url C (cr_public C k)"
  let ?sig = "[(''signatureMethod'', PStr ed25519_name), (''credentialId'', PStr cid),
    (''proof'', PDict [(''alg'', PStr ''EdDSA''), (''signature'', PStr (ed25519_sign_text C msg k))])]"
  obtain ro st1 where g: "cs_get S st cid = Inr (ro, st1)" "map_option norm_cred ro = Some r"
    using get_law [OF inv, of cid] cred(1) by auto
  then obtain r0 where r0: "ro = Some r0" "norm_cred r0 = r" by auto
  then have "sort_dict (uc_public_key r0) = sort_dict (okp_jwk ?x)"
    using cred(4) by (metis ed25519_public_jwk_def norm_cred_simps(5) sort_dict_idem)
  from jwk_image(3) [OF this] have x: "dget (uc_public_key r0) ''x'' = PStr ?x" by (simp add: dget_or_def)
  have key: "ed25519_public_key_from_base64url C ?x = Inr (cr_public C k)" "?x \<noteq> []"
    using laws public_key_bytes_nonempty [OF laws]
    by (auto simp: public_key_accepted_iff ed25519_public_key_to_base64url_def ed25519_laws_def)
  have "uc_method r0 = ed25519_name" "uc_user r0 = u" using cred(2,3) r0(2) by auto
  then have "ed25519_check_proof C r0 ctx ?sig = Inr (True, [])"
    using x key ctx laws by (simp add: ed25519_check_proof_def verify_sign_text)
  then have "fst (ed25519_verify C S st ctx ?sig) = Inr (True, [])"
    using g(1) r0(1) cred(5,6) by (simp add: ed25519_verify_def)
  with cred(5,6) ctx(2,3) show ?thesis by (simp add: ed25519_user_signer_def)
qed

end

sublocale ed25519_registration \<subseteq> sig: signature_method "ed25519_method C S" invar
  "\<lambda>st. ed25519_enrolled (contents st)" "\<lambda>st. ed25519_endorsed C (contents st)"
  by unfold_locales
    (simp_all add: ed25519_method_def verify_frame options_frame verify_endorsed, use options_iff in blast)

interpretation mem_ed25519: ed25519_registration memory_store mem_contents mem_inv C for C
  by unfold_locales

interpretation json_ed25519: ed25519_registration json_file_store file_contents file_inv C for C
  by unfold_locales

end
