(* ===== verification/UsageStore.thy ===== *)
theory UsageStore
  imports PyValue
begin

text \<open>
  \<open>intent/usage_store.py\<close>: the table of executions per intent token. Every \<open>consume\<close> is one
  \<open>BEGIN IMMEDIATE\<close> transaction, so concurrent processes execute some sequence of complete calls;
  a call either commits the table it computed or leaves the table as it was. The interface the
  intent service relies on (\<open>A4PIntentTokenUsageStore\<close>) is the locale \<open>token_usage\<close>; the bound on the
  number of executions is proved from its laws.
\<close>

section \<open>The table and one transaction\<close>

record usage_row =
  executions_used :: int
  executions_limit :: int
  expire_at_epoch :: int

type_synonym usage_table = "(string \<times> usage_row) list"

text \<open>\<open>DELETE FROM intent_token_usage WHERE expire_at_epoch <= ?\<close>\<close>

definition purge :: "int \<Rightarrow> usage_table \<Rightarrow> usage_table" where
  "purge now tab = filter (\<lambda>(t, r). \<not> expire_at_epoch r \<le> now) tab"

fun is_positive_int :: "pyval \<Rightarrow> bool" where
  "is_positive_int (PInt i) = (0 < i)"
| "is_positive_int _ = False"

definition int_of :: "pyval \<Rightarrow> int" where
  "int_of v = (case v of PInt i \<Rightarrow> i | PBool b \<Rightarrow> of_bool b | _ \<Rightarrow> 0)"

text \<open>
  \<open>SQLiteIntentTokenUsageStore.consume\<close> at clock second \<open>now\<close>. \<open>available\<close> says whether the
  operating system and SQLite carry the transaction out; if not, it is rolled back.
\<close>

definition sqlite_consume ::
  "bool \<Rightarrow> int \<Rightarrow> usage_table \<Rightarrow> string \<Rightarrow> pyval \<Rightarrow> pyval \<Rightarrow> (bool \<times> int) res \<times> usage_table" where
  "sqlite_consume available now tab token_id max_executions expire =
     (let tid = strip token_id in
      if tid = [] then (Inl (ValueError ''token_id must not be empty''), tab)
      else if \<not> is_positive_int max_executions
        then (Inl (ValueError ''max_executions must be a positive integer''), tab)
      else if \<not> is_positive_int expire
        then (Inl (ValueError ''expire_at_epoch must be a positive integer''), tab)
      else if \<not> available then (Inl (UsageStoreError ''Intent token usage store unavailable''), tab)
      else
        (let lim = int_of max_executions; ex = int_of expire; live = purge now tab in
         case map_of live tid of
           None \<Rightarrow>
             (Inr (True, 1),
              AList.update tid \<lparr>executions_used = 1, executions_limit = lim, expire_at_epoch = ex\<rparr> live)
         | Some row \<Rightarrow>
             if executions_limit row \<noteq> lim \<or> expire_at_epoch row \<noteq> ex
             then (Inl (UsageStoreError
                     ''Stored intent token usage policy does not match the signed token''), tab)
             else if executions_used row \<ge> lim then (Inr (False, executions_used row), live)
             else (Inr (True, executions_used row + 1),
                   AList.update tid (row\<lparr>executions_used := executions_used row + 1\<rparr>) live)))"

definition usage_inv :: "usage_table \<Rightarrow> bool" where
  "usage_inv tab \<longleftrightarrow> keys_distinct tab \<and>
     (\<forall>t r. map_of tab t = Some r \<longrightarrow>
        1 \<le> executions_used r \<and> executions_used r \<le> executions_limit r \<and> 0 < expire_at_epoch r)"

text \<open>Executions recorded for a token with a given expiry.\<close>

definition executions_of :: "usage_table \<Rightarrow> string \<Rightarrow> int \<Rightarrow> int" where
  "executions_of tab token_id ex =
     (case map_of tab (strip token_id) of
        Some r \<Rightarrow> if expire_at_epoch r = ex then executions_used r else 0
      | None \<Rightarrow> 0)"

lemma usage_inv_purge: "usage_inv tab \<Longrightarrow> usage_inv (purge now tab)"
  by (auto simp: usage_inv_def purge_def map_of_filter_distinct split: option.splits if_splits)

lemma usage_inv_row:
  "usage_inv tab \<Longrightarrow> map_of tab t = Some r \<Longrightarrow>
   1 \<le> executions_used r \<and> executions_used r \<le> executions_limit r \<and> 0 < expire_at_epoch r"
  by (simp add: usage_inv_def)

lemma usage_inv_update:
  "usage_inv tab \<Longrightarrow> 1 \<le> executions_used r \<Longrightarrow> executions_used r \<le> executions_limit r \<Longrightarrow>
   0 < expire_at_epoch r \<Longrightarrow> usage_inv (AList.update t r tab)"
  by (simp add: usage_inv_def)

lemma map_of_purge:
  "usage_inv tab \<Longrightarrow> map_of (purge now tab) t =
     (case map_of tab t of None \<Rightarrow> None | Some r \<Rightarrow> if expire_at_epoch r \<le> now then None else Some r)"
  by (auto simp: usage_inv_def purge_def map_of_filter_distinct split: option.splits)

lemma executions_of_purge:
  "usage_inv tab \<Longrightarrow> now < ex \<Longrightarrow> executions_of (purge now tab) t ex = executions_of tab t ex"
  by (auto simp: executions_of_def map_of_purge split: option.splits)

lemma executions_of_nonneg: "usage_inv tab \<Longrightarrow> 0 \<le> executions_of tab t ex"
  by (auto simp: executions_of_def dest!: usage_inv_row split: option.splits)

lemma is_positive_int_iff: "is_positive_int v \<longleftrightarrow> (\<exists>i > 0. v = PInt i)"
  by (cases v) auto

text \<open>The ways a transaction can end.\<close>

lemma sqlite_consume_cases:
  obtains (error) e where "sqlite_consume av now tab t mx ex = (Inl e, tab)"
  | (fresh) lim x where "mx = PInt lim" "0 < lim" "ex = PInt x" "0 < x" "strip t \<noteq> []"
      "map_of (purge now tab) (strip t) = None"
      "sqlite_consume av now tab t mx ex = (Inr (True, 1),
         AList.update (strip t) \<lparr>executions_used = 1, executions_limit = lim, expire_at_epoch = x\<rparr> (purge now tab))"
  | (full) lim x row where "mx = PInt lim" "0 < lim" "ex = PInt x" "0 < x" "strip t \<noteq> []"
      "map_of (purge now tab) (strip t) = Some row" "executions_limit row = lim" "expire_at_epoch row = x"
      "lim \<le> executions_used row"
      "sqlite_consume av now tab t mx ex = (Inr (False, executions_used row), purge now tab)"
  | (again) lim x row where "mx = PInt lim" "0 < lim" "ex = PInt x" "0 < x" "strip t \<noteq> []"
      "map_of (purge now tab) (strip t) = Some row" "executions_limit row = lim" "expire_at_epoch row = x"
      "executions_used row < lim"
      "sqlite_consume av now tab t mx ex = (Inr (True, executions_used row + 1),
         AList.update (strip t) (row\<lparr>executions_used := executions_used row + 1\<rparr>) (purge now tab))"
proof (cases "strip t = [] \<or> \<not> is_positive_int mx \<or> \<not> is_positive_int ex \<or> \<not> av")
  case True
  then have "\<exists>e. sqlite_consume av now tab t mx ex = (Inl e, tab)" by (auto simp: sqlite_consume_def Let_def)
  with error show ?thesis by blast
next
  case False
  then obtain lim x where p: "mx = PInt lim" "0 < lim" "ex = PInt x" "0 < x" and t: "strip t \<noteq> []" and av
    by (auto simp: is_positive_int_iff)
  show ?thesis
  proof (cases "map_of (purge now tab) (strip t)")
    case None
    show ?thesis
      by (rule fresh [OF p t None]) (use p t None \<open>av\<close> in \<open>simp add: sqlite_consume_def int_of_def\<close>)
  next
    case (Some row)
    show ?thesis
    proof (cases "executions_limit row = lim \<and> expire_at_epoch row = x")
      case False
      with Some p t \<open>av\<close> have "\<exists>e. sqlite_consume av now tab t mx ex = (Inl e, tab)"
        by (simp add: sqlite_consume_def int_of_def)
      with error show ?thesis by blast
    next
      case True
      then have r: "executions_limit row = lim" "expire_at_epoch row = x" by auto
      show ?thesis
      proof (cases "lim \<le> executions_used row")
        case True
        show ?thesis
          by (rule full [OF p t Some r True])
            (use p t Some r True \<open>av\<close> in \<open>simp add: sqlite_consume_def int_of_def\<close>)
      next
        case False
        then have lt: "executions_used row < lim" by simp
        show ?thesis
          by (rule again [OF p t Some r lt])
            (use p t Some r lt \<open>av\<close> in \<open>simp add: sqlite_consume_def int_of_def\<close>)
      qed
    qed
  qed
qed

lemma usage_inv_consume:
  assumes "usage_inv tab"
  shows "usage_inv (snd (sqlite_consume av now tab t mx ex))"
proof (cases rule: sqlite_consume_cases [of av now tab t mx ex])
  case (again lim x row)
  then show ?thesis
    using usage_inv_row [OF usage_inv_purge [OF assms], of now "strip t" row] usage_inv_purge [OF assms]
    by (auto intro!: usage_inv_update)
qed (use assms in \<open>auto intro!: usage_inv_update usage_inv_purge\<close>)

section \<open>The interface of a usage store\<close>

text \<open>One call of the store, and the granted calls of a run.\<close>

record usage_call =
  uc_available :: bool
  uc_now :: int
  uc_token :: string
  uc_max :: pyval
  uc_expire :: pyval

fun usage_run ::
  "(bool \<Rightarrow> int \<Rightarrow> 'st \<Rightarrow> string \<Rightarrow> pyval \<Rightarrow> pyval \<Rightarrow> (bool \<times> int) res \<times> 'st) \<Rightarrow>
   'st \<Rightarrow> usage_call list \<Rightarrow> (usage_call \<times> (bool \<times> int) res) list \<times> 'st" where
  "usage_run consume st [] = ([], st)"
| "usage_run consume st (c # cs) =
     (let (r, st') = consume (uc_available c) (uc_now c) st (uc_token c) (uc_max c) (uc_expire c);
          (rs, st'') = usage_run consume st' cs
      in ((c, r) # rs, st''))"

definition grants_of :: "string \<Rightarrow> int \<Rightarrow> int \<Rightarrow> (usage_call \<times> (bool \<times> int) res) list \<Rightarrow> nat" where
  "grants_of token lim ex rs = length (filter (\<lambda>(c, r).
     strip (uc_token c) = strip token \<and> uc_max c = PInt lim \<and> uc_expire c = PInt ex
     \<and> (\<exists>k. r = Inr (True, k))) rs)"

locale token_usage =
  fixes consume :: "bool \<Rightarrow> int \<Rightarrow> 'st \<Rightarrow> string \<Rightarrow> pyval \<Rightarrow> pyval \<Rightarrow> (bool \<times> int) res \<times> 'st"
    and recorded :: "'st \<Rightarrow> string \<Rightarrow> int \<Rightarrow> int"
    and invar :: "'st \<Rightarrow> bool"
  assumes invar_consume: "invar st \<Longrightarrow> invar (snd (consume av now st t mx ex))"
    and recorded_strip: "strip t = strip t' \<Longrightarrow> recorded st t x = recorded st t' x"
    and recorded_nonneg: "invar st \<Longrightarrow> 0 \<le> recorded st t x"
    and recorded_mono: "invar st \<Longrightarrow> now < x \<Longrightarrow>
      recorded st t x \<le> recorded (snd (consume av now st t' mx ex)) t x"
    and grant_counts: "invar st \<Longrightarrow> now < x \<Longrightarrow>
      consume av now st t (PInt lim) (PInt x) = (Inr (True, k), st') \<Longrightarrow>
      recorded st' t x = recorded st t x + 1 \<and> k = recorded st' t x \<and> k \<le> lim"
    and error_frame: "consume av now st t mx ex = (Inl e, st') \<Longrightarrow> st' = st"
begin

lemma run_invar: "invar st \<Longrightarrow> invar (snd (usage_run consume st cs))"
proof (induction cs arbitrary: st)
  case (Cons c cs)
  then show ?case
    using invar_consume [OF Cons.prems, of "uc_available c" "uc_now c" "uc_token c" "uc_max c" "uc_expire c"]
      Cons.IH
    by (auto split: prod.splits) (metis snd_conv)
qed simp

lemma run_grants:
  assumes "invar st" and "list_all (\<lambda>c. uc_now c < x) cs"
  shows "int (grants_of t lim x (fst (usage_run consume st cs))) \<le> max 0 (lim - recorded st t x)"
  using assms
proof (induction cs arbitrary: st)
  case Nil
  then show ?case by (simp add: grants_of_def)
next
  case (Cons c cs)
  obtain r st1 where s: "consume (uc_available c) (uc_now c) st (uc_token c) (uc_max c) (uc_expire c) = (r, st1)"
    by fastforce
  obtain rs st2 where rs: "usage_run consume st1 cs = (rs, st2)" by fastforce
  have inv1: "invar st1" using invar_consume [OF Cons.prems(1)] s by (metis snd_conv)
  have now: "uc_now c < x" and rest: "list_all (\<lambda>c. uc_now c < x) cs" using Cons.prems(2) by auto
  have mono: "recorded st t x \<le> recorded st1 t x"
    using recorded_mono [OF Cons.prems(1) now] s by (metis snd_conv)
  show ?case
  proof (cases "strip (uc_token c) = strip t \<and> uc_max c = PInt lim \<and> uc_expire c = PInt x \<and> (\<exists>k. r = Inr (True, k))")
    case True
    then obtain k where "consume (uc_available c) (uc_now c) st (uc_token c) (PInt lim) (PInt x) = (Inr (True, k), st1)"
      using s by auto
    from grant_counts [OF Cons.prems(1) now this] True recorded_strip
    have "recorded st1 t x = recorded st t x + 1" "recorded st1 t x \<le> lim" by metis+
    with Cons.IH [OF inv1 rest] rs s True show ?thesis by (simp add: grants_of_def)
  next
    case False
    have "int (grants_of t lim x rs) \<le> max 0 (lim - recorded st t x)"
      using Cons.IH [OF inv1 rest] rs mono by simp
    with False rs s show ?thesis by (auto simp: grants_of_def)
  qed
qed

end

section \<open>The SQLite store is a usage store\<close>

lemma executions_of_update [simp]:
  "executions_of (AList.update k r tab) t x =
     (if k = strip t then (if expire_at_epoch r = x then executions_used r else 0)
      else executions_of tab t x)"
  by (simp add: executions_of_def)

lemma executions_of_row:
  "map_of tab (strip t) = Some r \<Longrightarrow> expire_at_epoch r = x \<Longrightarrow> executions_of tab t x = executions_used r"
  by (simp add: executions_of_def)

lemma executions_of_no_row: "map_of tab (strip t) = None \<Longrightarrow> executions_of tab t x = 0"
  by (simp add: executions_of_def)

lemma sqlite_recorded_mono:
  assumes "usage_inv tab" "now < x"
  shows "executions_of tab t x \<le> executions_of (snd (sqlite_consume av now tab t' mx ex)) t x"
proof (cases rule: sqlite_consume_cases [of av now tab t' mx ex])
  case (error e)
  then show ?thesis by simp
next
  case (fresh lim x')
  then show ?thesis
    using executions_of_purge [OF assms, of t] executions_of_no_row [of "purge now tab" t x]
    by (cases "strip t' = strip t") simp_all
next
  case (full lim x' row)
  then show ?thesis using executions_of_purge [OF assms, of t] by simp
next
  case (again lim x' row)
  show ?thesis
  proof (cases "strip t' = strip t")
    case True
    with again have "executions_of (purge now tab) t x = (if x' = x then executions_used row else 0)"
      by (simp add: executions_of_def)
    with True again show ?thesis using executions_of_purge [OF assms, of t] by simp
  next
    case False
    with again show ?thesis using executions_of_purge [OF assms, of t] by simp
  qed
qed

lemma sqlite_grant_counts:
  assumes "usage_inv tab" "now < x"
    and "sqlite_consume av now tab t (PInt lim) (PInt x) = (Inr (True, k), tab')"
  shows "executions_of tab' t x = executions_of tab t x + 1 \<and> k = executions_of tab' t x \<and> k \<le> lim"
proof (cases rule: sqlite_consume_cases [of av now tab t "PInt lim" "PInt x"])
  case fresh
  with assms(3) show ?thesis
    using executions_of_purge [OF assms(1,2), of t] executions_of_no_row [of "purge now tab" t x] by auto
next
  case (again lim' x' row)
  with assms(3) show ?thesis
    using executions_of_purge [OF assms(1,2), of t] executions_of_row [of "purge now tab" t row x] by auto
qed (use assms(3) in auto)

interpretation sqlite: token_usage sqlite_consume executions_of usage_inv
proof
  fix av now t mx ex and tab :: usage_table
  show "usage_inv tab \<Longrightarrow> usage_inv (snd (sqlite_consume av now tab t mx ex))"
    by (rule usage_inv_consume)
next
  fix t t' :: string and tab x
  show "strip t = strip t' \<Longrightarrow> executions_of tab t x = executions_of tab t' x"
    by (simp add: executions_of_def)
next
  fix tab t x
  show "usage_inv tab \<Longrightarrow> 0 \<le> executions_of tab t x"
    by (rule executions_of_nonneg)
next
  fix tab now x t av t' mx ex
  show "usage_inv tab \<Longrightarrow> now < x \<Longrightarrow>
    executions_of tab t x \<le> executions_of (snd (sqlite_consume av now tab t' mx ex)) t x"
    by (rule sqlite_recorded_mono)
next
  fix tab now x av t lim k tab'
  show "usage_inv tab \<Longrightarrow> now < x \<Longrightarrow>
    sqlite_consume av now tab t (PInt lim) (PInt x) = (Inr (True, k), tab') \<Longrightarrow>
    executions_of tab' t x = executions_of tab t x + 1 \<and> k = executions_of tab' t x \<and> k \<le> lim"
    by (rule sqlite_grant_counts)
next
  fix av now tab t mx ex e tab'
  assume "sqlite_consume av now tab t mx ex = (Inl e, tab')"
  then show "tab' = tab"
    by (cases rule: sqlite_consume_cases [of av now tab t mx ex]) auto
qed

text \<open>
  The result of an available transaction when the stored policy, if there is one, is the token's:
  granted exactly while the recorded executions are below the limit.
\<close>

definition same_policy :: "usage_table \<Rightarrow> string \<Rightarrow> int \<Rightarrow> int \<Rightarrow> bool" where
  "same_policy tab t lim x =
     (case map_of tab (strip t) of None \<Rightarrow> True
      | Some r \<Rightarrow> executions_limit r = lim \<and> expire_at_epoch r = x)"

lemma sqlite_consume_result:
  assumes "usage_inv tab" "now < x" "strip t \<noteq> []" "0 < lim" "0 < x" "same_policy tab t lim x"
  shows "fst (sqlite_consume True now tab t (PInt lim) (PInt x)) =
    Inr (if executions_of tab t x < lim then (True, executions_of tab t x + 1)
         else (False, executions_of tab t x))"
proof -
  have p: "map_of (purge now tab) (strip t) = map_of tab (strip t)"
    using assms by (auto simp: map_of_purge same_policy_def split: option.splits)
  show ?thesis
  proof (cases "map_of tab (strip t)")
    case None
    with p assms(3-5) show ?thesis by (simp add: sqlite_consume_def int_of_def executions_of_def)
  next
    case (Some r)
    with assms(6) have "executions_limit r = lim" "expire_at_epoch r = x" by (simp_all add: same_policy_def)
    with Some p assms(3-5) show ?thesis by (simp add: sqlite_consume_def int_of_def executions_of_def)
  qed
qed

text \<open>
  A call that reads the clock at or after the expiry purges the token's own row and starts to count
  again: the service's expiry check compares with \<open>>\<close> on an earlier reading.
\<close>

lemma sqlite_regrant_at_expiry:
  assumes "usage_inv tab" "strip t \<noteq> []" "0 < n" "0 < x" "x \<le> now" "same_policy tab t n x"
  shows "fst (sqlite_consume True now tab t (PInt n) (PInt x)) = Inr (True, 1)"
proof -
  have "map_of (purge now tab) (strip t) = None"
    using assms by (auto simp: map_of_purge same_policy_def split: option.splits)
  with assms(2-4) show ?thesis by (simp add: sqlite_consume_def int_of_def)
qed

end
