(* ===== verification/AuthCommon.thy ===== *)
theory AuthCommon
  imports UserSignature UsageStore
begin

text \<open>
  What the intent and the operation side share: \<open>authorization_common.py\<close>, the result types of
  \<open>types.py\<close>, the configuration and the state of an \<open>A4PServer\<close>, and the pieces of the two mandate
  modules that are the same code (server signature, user-signature context, timestamps).
\<close>

section \<open>Results\<close>

record verification_result =
  vr_valid :: bool
  vr_reason :: "string option"
  vr_code :: "string option"
  vr_scope :: "pdict option"

definition vr_ok :: "pdict option \<Rightarrow> verification_result" where
  "vr_ok scope = \<lparr>vr_valid = True, vr_reason = None, vr_code = None, vr_scope = scope\<rparr>"

definition vr_fail :: "string \<Rightarrow> string \<Rightarrow> verification_result" where
  "vr_fail reason code = \<lparr>vr_valid = False, vr_reason = Some reason, vr_code = Some code, vr_scope = None\<rparr>"

record intent_response =
  ir_mandate :: "pdict option"
  ir_options :: pdict
  ir_token :: "pdict option"
  ir_result :: "verification_result option"
  ir_approved :: bool
  ir_reason :: "string option"

record token_response =
  tr_valid :: bool
  tr_reason :: "string option"
  tr_code :: "string option"
  tr_scope :: "pdict option"

record operation_challenge =
  oc_mandate :: "pdict option"
  oc_options :: pdict
  oc_result :: "verification_result option"
  oc_reason :: "string option"

record operation_result =
  or_operation :: "string option"
  or_approved :: bool
  or_result :: "verification_result option"
  or_reason :: "string option"

text \<open>\<open>to_payload\<close> drops the fields of objects that are \<open>None\<close>; requests that are dictionaries pass as they are.\<close>

fun to_payload :: "pyval \<Rightarrow> pyval"
  and to_payload_list :: "pyval list \<Rightarrow> pyval list"
  and to_payload_items :: "pdict \<Rightarrow> pdict"
where
  "to_payload (PDict d) = PDict (to_payload_items d)"
| "to_payload (PList xs) = PList (to_payload_list xs)"
| "to_payload v = v"
| "to_payload_list [] = []"
| "to_payload_list (x # xs) = to_payload x # to_payload_list xs"
| "to_payload_items [] = []"
| "to_payload_items ((k, v) # d) =
     (if v = PNone then to_payload_items d else (k, to_payload v) # to_payload_items d)"

definition payload :: "pyval \<Rightarrow> pdict" where
  "payload v = as_dict v"

definition error_code :: "string \<Rightarrow> string \<Rightarrow> string" where
  "error_code reason prefix =
     (let l = lower reason in
      if contains ''expired'' l then prefix @ ''_EXPIRED''
      else if contains ''usage'' l \<or> contains ''execution'' l \<or> contains ''limit'' l
        then prefix @ ''_USAGE_EXCEEDED''
      else if contains ''signature'' l then prefix @ ''_SIGNATURE_INVALID''
      else if contains ''mismatch'' l \<or> contains ''scope'' l \<or> contains ''actions'' l \<or> contains ''param'' l
        then prefix @ ''_SCOPE_MISMATCH''
      else prefix @ ''_INVALID'')"

text \<open>\<open>signed["signatures"]["user"] = {}\<close> on a normalized mandate.\<close>

definition clear_user_signature :: "pdict \<Rightarrow> pdict" where
  "clear_user_signature n = AList.update ''signatures''
     (PDict (AList.update ''user'' (PDict []) (as_dict (dget n ''signatures'')))) n"

definition mandate_matches_pending :: "(pdict \<Rightarrow> pdict res) \<Rightarrow> pdict \<Rightarrow> pdict \<Rightarrow> bool res" where
  "mandate_matches_pending nf sm pending =
     (case rbind (nf sm) (\<lambda>s. rbind (nf pending) (\<lambda>p. Inr (s, p))) of
        Inl (TypeError _) \<Rightarrow> Inr False
      | Inl e \<Rightarrow> if is_value_error e then Inr False else Inl e
      | Inr (s, p) \<Rightarrow> Inr (py_eq (PDict (clear_user_signature s)) (PDict (clear_user_signature p))))"

section \<open>Configuration and state of a server\<close>

text \<open>
  \<open>cfg_env\<close> is the process environment; \<open>cfg_intent_display\<close>, \<open>cfg_operation_display\<close> and \<open>cfg_beijing\<close> are
  the built-in display texts, whose wording is outside the model; \<open>cfg_consume\<close> is the usage store.
\<close>

record ('sk, 'pk, 'm, 'u) a4p_config =
  cfg_crypto :: "('sk, 'pk) crypto"
  cfg_env :: environ
  cfg_server_id :: string
  cfg_require :: bool
  cfg_method :: "'m sig_method option"
  cfg_intent_renderer :: "(pdict \<Rightarrow> pyval res) option"
  cfg_operation_renderer :: "(pdict \<Rightarrow> pyval res) option"
  cfg_intent_display :: "string \<Rightarrow> pdict list \<Rightarrow> string \<Rightarrow> string \<Rightarrow> pdict option \<Rightarrow> string"
  cfg_operation_display :: "pdict \<Rightarrow> string \<Rightarrow> string"
  cfg_beijing :: "string \<Rightarrow> string res"
  cfg_consume :: "bool \<Rightarrow> int \<Rightarrow> 'u \<Rightarrow> string \<Rightarrow> pyval \<Rightarrow> pyval \<Rightarrow> (bool \<times> int) res \<times> 'u"

record pending_intent =
  pi_request :: pdict
  pi_mandate :: pdict

record pending_operation =
  po_request :: pdict
  po_operation :: pdict
  po_mandate :: pdict
  po_expire :: int

record ('m, 'u) a4p_state =
  st_intents :: "(string \<times> pending_intent) list"
  st_operations :: "(string \<times> pending_operation) list"
  st_method :: 'm
  st_usage :: 'u

section \<open>Code common to both kinds of mandate\<close>

text \<open>\<open>calendar.timegm(time.strptime(v, ...))\<close>; a value that is not a string is a \<open>TypeError\<close>.\<close>

fun strptime_utc :: "pyval \<Rightarrow> int res" where
  "strptime_utc (PStr s) =
     (case parse_utc s of
        None \<Rightarrow> Inl (ValueError (''time data '' @ repr_str s @ '' does not match format''))
      | Some t \<Rightarrow> Inr t)"
| "strptime_utc _ = Inl (TypeError ''strptime() argument 0 must be str'')"

text \<open>\<open>except ValueError as exc: return False, str(exc)\<close>\<close>

definition invalid_reason :: "exc \<Rightarrow> (bool \<times> string) res" where
  "invalid_reason e = (if is_value_error e then Inr (False, exc_msg e) else Inl e)"

definition server_signature :: "string \<Rightarrow> string \<Rightarrow> pdict" where
  "server_signature key_id sig = [(''alg'', PStr ''EdDSA''), (''keyId'', PStr key_id), (''signature'', PStr sig)]"

definition set_server_signature :: "pdict \<Rightarrow> pdict \<Rightarrow> pdict" where
  "set_server_signature n sv = AList.update ''signatures''
     (PDict (AList.update ''server'' (PDict sv) (as_dict (dget n ''signatures'')))) n"

text \<open>The check of the server's own signature: \<open>None\<close>, or the reason of the refusal.\<close>

definition check_server_signature ::
  "('sk, 'pk) crypto \<Rightarrow> 'sk res \<Rightarrow> pdict res \<Rightarrow> pdict \<Rightarrow> string option res" where
  "check_server_signature C key core sv =
     (let alg = text_of (dget sv ''alg'') in
      if alg \<noteq> ''EdDSA''
      then Inr (Some (''Server signature alg mismatch: expected '' @ quoted ''EdDSA'' @ '', got '' @ quoted alg))
      else case py_or (dget sv ''signature'') (PStr []) of
        PStr s \<Rightarrow>
          (if strip s = [] then Inr (Some ''Server signature missing'')
           else rbind core (\<lambda>c. rbind key (\<lambda>k.
             Inr (if ed25519_verify_text C (server_payload c) (strip s) (cr_public C k) then None
                  else Some ''Server signature invalid''))))
      | _ \<Rightarrow> Inl (AttributeError ''object has no attribute strip''))"

definition signature_of :: "pdict \<Rightarrow> string \<Rightarrow> pdict" where
  "signature_of n who = as_dict (dget (as_dict (dget n ''signatures'')) who)"

definition user_signature_context :: "string \<Rightarrow> pdict \<Rightarrow> string option \<Rightarrow> sig_context res" where
  "user_signature_context type n expected_user =
     (let ua = as_dict (dget n ''userAuthorization''); method = text_of (dget ua ''signatureMethod'') in
      case dget ua ''required'' of
        PBool required \<Rightarrow>
          (if required \<and> method = [] then Inl (ValueError ''userAuthorization.signatureMethod missing'')
           else rbind (server_signed_mandate_without_user_signature n) (\<lambda>s.
             Inr \<lparr>sc_type = type, sc_mandate = s, sc_method = method, sc_user = expected_user\<rparr>))
      | _ \<Rightarrow> Inl (ValueError ''userAuthorization.required missing''))"

text \<open>The user-authorization policy of a new mandate, and the optional custom display text.\<close>

definition method_name :: "'m sig_method option \<Rightarrow> string" where
  "method_name M = (case M of None \<Rightarrow> [] | Some m \<Rightarrow> strip (sm_name m))"

definition method_policy :: "'m sig_method option \<Rightarrow> pdict" where
  "method_policy M = (case M of None \<Rightarrow> [] | Some m \<Rightarrow> sm_policy m)"

definition user_authorization :: "bool \<Rightarrow> 'm sig_method option \<Rightarrow> pdict" where
  "user_authorization required M =
     (if required
      then [(''required'', PBool True), (''signatureMethod'', PStr (method_name M)),
            (''methodPolicy'', PDict (method_policy M))]
      else [(''required'', PBool False)])"

definition render_display :: "string \<Rightarrow> (pdict \<Rightarrow> pyval res) option \<Rightarrow> pdict \<Rightarrow> pdict res" where
  "render_display what renderer m =
     (case renderer of
        None \<Rightarrow> Inr m
      | Some f \<Rightarrow> rbind (f m) (\<lambda>v.
          case v of
            PStr s \<Rightarrow> Inr (AList.update ''displayText'' (PStr s) m)
          | _ \<Rightarrow> Inl (ValueError (what @ '' display text renderer must return a string''))))"

text \<open>\<open>validitySeconds\<close> of a request; \<open>bool\<close> is a subclass of \<open>int\<close> and refused.\<close>

definition validity_seconds :: "int \<Rightarrow> pyval \<Rightarrow> int res" where
  "validity_seconds dflt v =
     (case v of
        PNone \<Rightarrow> Inr dflt
      | PInt i \<Rightarrow> if i \<le> 0 then Inl (ValueError ''validitySeconds must be a positive integer'') else Inr i
      | _ \<Rightarrow> Inl (ValueError ''validitySeconds must be a positive integer''))"

definition required_text :: "pdict \<Rightarrow> string \<Rightarrow> string res" where
  "required_text d field =
     (let t = text_of (dget d field) in
      if t = [] then Inl (ValueError (field @ '' missing'')) else Inr t)"

fun dict_option :: "pyval \<Rightarrow> pdict option" where
  "dict_option (PDict d) = Some d"
| "dict_option _ = None"

definition signing_options ::
  "bool \<Rightarrow> 'm sig_method option \<Rightarrow> 'm \<Rightarrow> string \<Rightarrow> pdict \<Rightarrow> pdict res \<times> 'm" where
  "signing_options required M st user m =
     (case M of
        Some meth \<Rightarrow> if required then sm_options meth st user m else (Inr [], st)
      | None \<Rightarrow> (Inr [], st))"

section \<open>Facts both sides use\<close>

lemma render_display_Inr:
  assumes "render_display what f m = Inr m'"
  shows "m' = m \<or> (\<exists>t. m' = AList.update ''displayText'' (PStr t) m)"
proof (cases f)
  case (Some g)
  with assms obtain v where "g m = Inr v" by (auto simp: render_display_def rbind_Inr_iff)
  with Some assms show ?thesis by (cases v) (auto simp: render_display_def)
qed (use assms in \<open>simp add: render_display_def\<close>)

lemma check_server_signature_ok:
  assumes "check_server_signature C key core sv = Inr None"
  obtains s c k where "text_of (dget sv ''alg'') = ''EdDSA''" "dget sv ''signature'' = PStr s" "strip s \<noteq> []"
    "core = Inr c" "key = Inr k" "ed25519_verify_text C (server_payload c) (strip s) (cr_public C k)"
  using assms
  by (cases "dget sv ''signature''")
    (auto simp: check_server_signature_def Let_def py_or_def rbind_Inr_iff split: if_splits)

lemma strip_EdDSA [simp]: "strip ''EdDSA'' = ''EdDSA''"
  by (rule strip_no_space) (simp add: is_space_def)

lemma check_server_signature_own:
  assumes "ed25519_laws C"
  shows "check_server_signature C (Inr k) (Inr core)
    (server_signature key_id (ed25519_sign_text C (server_payload core) k)) = Inr None"
  using assms by (simp add: check_server_signature_def server_signature_def py_or_def verify_sign_text Let_def)

lemma user_authorization_fields [simp]:
  "dget (user_authorization required M) ''required'' = PBool required"
  "required \<Longrightarrow> dget (user_authorization required M) ''signatureMethod'' = PStr (method_name M)"
  by (auto simp: user_authorization_def)

lemma strip_method_name [simp]: "strip (method_name M) = method_name M"
  by (simp add: method_name_def split: option.splits)

text \<open>The verdict of \<open>verify_user_signature\<close> is the method's when a signature is required and it applies.\<close>

lemma verify_user_signature_method:
  assumes "text_of (dget sig ''signatureMethod'') = sm_name M" "sc_method ctx = sm_name M" "sm_name M \<noteq> []"
  shows "verify_user_signature (Some M) True st ctx sig = sm_verify M st ctx sig"
  using assms by (simp add: verify_user_signature_def)

text \<open>Clearing the user signature forgets it: what matches the pending mandate agrees with it elsewhere.\<close>

lemma clear_user_signature_other:
  "k \<noteq> ''signatures'' \<Longrightarrow> map_of (clear_user_signature n) k = map_of n k"
  by (simp add: clear_user_signature_def)

lemma parse_utc_Nil: "parse_utc [] = None"
proof -
  have "read_iso [] = []" unfolding read_iso_def by (subst read_bind_def) (simp add: read_year_def)
  then show ?thesis by (simp add: parse_utc_def)
qed


lemma py_eq_PDict: "py_eq v (PDict e) \<Longrightarrow> \<exists>d. v = PDict d"
  by (cases v) auto

lemma matches_pending_True:
  assumes "mandate_matches_pending nf sm p = Inr True"
  obtains n q where "nf sm = Inr n" "nf p = Inr q"
    "py_eq (PDict (clear_user_signature n)) (PDict (clear_user_signature q))"
proof -
  from assms obtain n where n: "nf sm = Inr n"
    by (cases "nf sm") (auto simp: mandate_matches_pending_def split: exc.splits if_splits)
  with assms obtain q where q: "nf p = Inr q"
    by (cases "nf p") (auto simp: mandate_matches_pending_def split: exc.splits if_splits)
  from assms n q that show ?thesis by (simp add: mandate_matches_pending_def)
qed

lemma user_signature_context_user: "user_signature_context t n u = Inr ctx \<Longrightarrow> sc_user ctx = u"
  by (cases "dget (as_dict (dget n ''userAuthorization'')) ''required''")
    (auto simp: user_signature_context_def Let_def rbind_Inr_iff split: if_splits)

end
