(* ===== verification/IntentMandate.thy ===== *)
theory IntentMandate
  imports AuthCommon
begin

text \<open>
  \<open>intent/mandate.py\<close> and \<open>intent/signing.py\<close>: creation, server signature and verification of intent
  mandates.
\<close>

section \<open>Server key and user-signature context\<close>

abbreviation intent_key_id :: string where
  "intent_key_id \<equiv> ''server#intent-mandate-k1''"

definition intent_server_signing_key :: "('sk, 'pk) crypto \<Rightarrow> environ \<Rightarrow> 'sk res" where
  "intent_server_signing_key C env = ed25519_private_key_from_env C env
     ''INTENT_SERVER_ED25519_PRIVATE_KEY'' ''a4p-intent-server-ed25519-dev-v1''
     ''intent mandate server Ed25519 signing key''"

definition intent_server_trusted_key :: "('sk, 'pk) crypto \<Rightarrow> environ \<Rightarrow> pdict res" where
  "intent_server_trusted_key C env = rbind (intent_server_signing_key C env) (\<lambda>k.
     Inr [(''alg'', PStr ''EdDSA''), (''keyId'', PStr intent_key_id),
          (''publicKey'', PStr (ed25519_public_key_to_base64url C (cr_public C k)))])"

definition intent_user_signature_context :: "pdict \<Rightarrow> string option \<Rightarrow> sig_context res" where
  "intent_user_signature_context m expected_user =
     rbind (normalize_intent_mandate m) (\<lambda>n. user_signature_context intent_type n expected_user)"

section \<open>Creation\<close>

definition sign_intent_mandate :: "('sk, 'pk) crypto \<Rightarrow> environ \<Rightarrow> pdict \<Rightarrow> pdict res" where
  "sign_intent_mandate C env m =
     rbind (normalize_intent_mandate m) (\<lambda>n.
     rbind (intent_mandate_core_payload n) (\<lambda>core.
     rbind (intent_server_signing_key C env) (\<lambda>k.
       Inr (set_server_signature n
         (server_signature intent_key_id (ed25519_sign_text C (server_payload core) k))))))"

definition intent_subject :: "string \<Rightarrow> string \<Rightarrow> pdict option \<Rightarrow> pdict" where
  "intent_subject stype agent_id key =
     [(''type'', PStr stype), (''id'', PStr (stype @ '':'' @ agent_id))] @
     (case key of None \<Rightarrow> [] | Some k \<Rightarrow> [(''agentKey'', PDict k)])"

definition intent_scope_of :: "pdict list \<Rightarrow> pdict option \<Rightarrow> pdict" where
  "intent_scope_of acts pol =
     (''actions'', action_list acts) #
     (case pol of None \<Rightarrow> [] | Some p \<Rightarrow> [(''executionPolicy'', PDict p)])"

text \<open>The mandate object with its fields in the order the code writes them.\<close>

definition intent_mandate_of ::
  "string \<Rightarrow> string \<Rightarrow> pdict \<Rightarrow> pdict \<Rightarrow> string \<Rightarrow> string \<Rightarrow> pdict \<Rightarrow> string \<Rightarrow> pdict \<Rightarrow> pdict \<Rightarrow> pdict" where
  "intent_mandate_of mid server subject scope start until ua display sv us =
     [(''type'', PStr intent_type), (''mandateId'', PStr mid), (''server'', PStr server),
      (''subject'', PDict subject), (''intent'', PDict scope),
      (''validTime'', PDict [(''start'', PStr start), (''end'', PStr until)]),
      (''userAuthorization'', PDict ua), (''displayText'', PStr display),
      (''signatures'', PDict [(''server'', PDict sv), (''user'', PDict us)])]"

definition create_intent_mandate ::
  "('sk, 'pk, 'm, 'u) a4p_config \<Rightarrow> rat \<Rightarrow> string \<Rightarrow> string \<Rightarrow> string \<Rightarrow> pyval \<Rightarrow> pyval \<Rightarrow> int \<Rightarrow> string \<Rightarrow>
   pdict option \<Rightarrow> pdict res" where
  "create_intent_mandate cfg now token server agent_id actions policy validity stype agent_key =
     (if cfg_require cfg \<and> method_name (cfg_method cfg) = []
      then Inl (ValueError ''userSignatureMethod missing'')
      else rbind (utc_text now) (\<lambda>start.
        rbind (utc_text (now + of_int validity)) (\<lambda>until.
        rbind (normalize_action_specs actions) (\<lambda>acts.
        rbind (normalize_execution_policy policy) (\<lambda>pol.
        rbind (render_display ''Intent'' (cfg_intent_renderer cfg)
          (intent_mandate_of (''mdt_'' @ token) server (intent_subject stype agent_id agent_key)
            (intent_scope_of acts pol) start until (user_authorization (cfg_require cfg) (cfg_method cfg))
            (cfg_intent_display cfg agent_id acts start until pol) (server_signature intent_key_id []) []))
          (sign_intent_mandate (cfg_crypto cfg) (cfg_env cfg)))))))"

section \<open>Verification\<close>

text \<open>The last part of \<open>verify_intent_mandate\<close>: validity period and expected server.\<close>

definition check_intent_time :: "rat \<Rightarrow> pdict \<Rightarrow> string option \<Rightarrow> (bool \<times> string) res" where
  "check_intent_time now n expected_server =
     (case dget_or n ''validTime'' (PDict []) of
        PDict vt \<Rightarrow>
          (let s = dget_or vt ''start'' (PStr []); e = dget_or vt ''end'' (PStr []) in
           if \<not> truthy s \<or> \<not> truthy e then Inr (False, ''Mandate has no validTime'')
           else case rbind (strptime_utc s) (\<lambda>start. rbind (strptime_utc e) (\<lambda>until. Inr (start, until))) of
             Inl exc \<Rightarrow> if is_value_error exc then Inr (False, ''Mandate validTime format invalid'') else Inl exc
           | Inr (start, until) \<Rightarrow>
               if now < of_int start then Inr (False, ''Mandate not yet valid'')
               else if now > of_int until then Inr (False, ''Mandate has expired'')
               else case expected_server of
                 None \<Rightarrow> Inr (True, [])
               | Some srv \<Rightarrow>
                   (let actual = text_of (dget n ''server'') in
                    if actual \<noteq> strip srv
                    then Inr (False, ''Mandate server mismatch: expected '' @ quoted (strip srv) @
                           '', got '' @ quoted actual)
                    else Inr (True, [])))
      | _ \<Rightarrow> Inl (AttributeError ''object has no attribute get''))"

definition verify_intent_mandate ::
  "('sk, 'pk) crypto \<Rightarrow> environ \<Rightarrow> 'm sig_method option \<Rightarrow> bool \<Rightarrow> rat \<Rightarrow> 'm \<Rightarrow> pdict \<Rightarrow>
   string option \<Rightarrow> string option \<Rightarrow> (bool \<times> string) res \<times> 'm" where
  "verify_intent_mandate C env M required now st m expected_server expected_user =
     (if \<not> py_eq (dget m ''type'') (PStr intent_type) then (Inr (False, ''Invalid mandate type''), st)
      else case normalize_intent_mandate m of
        Inl e \<Rightarrow> (invalid_reason e, st)
      | Inr n \<Rightarrow>
          (case check_server_signature C (intent_server_signing_key C env) (intent_mandate_core_payload n)
                  (signature_of n ''server'') of
             Inl e \<Rightarrow> (Inl e, st)
           | Inr (Some why) \<Rightarrow> (Inr (False, why), st)
           | Inr None \<Rightarrow>
               (case intent_user_signature_context n expected_user of
                  Inl e \<Rightarrow> (invalid_reason e, st)
                | Inr ctx \<Rightarrow>
                    (case verify_user_signature M required st ctx (signature_of n ''user'') of
                       (Inr (True, _), st1) \<Rightarrow> (check_intent_time now n expected_server, st1)
                     | (r, st1) \<Rightarrow> (r, st1)))))"

section \<open>Shape of created mandates\<close>

lemma intent_mandate_of_fields [simp]:
  "dget_or (intent_mandate_of mid srv subj sc s e ua dt sv us) ''type'' d = PStr intent_type"
  "dget_or (intent_mandate_of mid srv subj sc s e ua dt sv us) ''mandateId'' d = PStr mid"
  "dget_or (intent_mandate_of mid srv subj sc s e ua dt sv us) ''server'' d = PStr srv"
  "dget_or (intent_mandate_of mid srv subj sc s e ua dt sv us) ''subject'' d = PDict subj"
  "dget_or (intent_mandate_of mid srv subj sc s e ua dt sv us) ''intent'' d = PDict sc"
  "dget_or (intent_mandate_of mid srv subj sc s e ua dt sv us) ''validTime'' d
     = PDict [(''start'', PStr s), (''end'', PStr e)]"
  "dget_or (intent_mandate_of mid srv subj sc s e ua dt sv us) ''userAuthorization'' d = PDict ua"
  "dget_or (intent_mandate_of mid srv subj sc s e ua dt sv us) ''displayText'' d = PStr dt"
  "dget_or (intent_mandate_of mid srv subj sc s e ua dt sv us) ''signatures'' d
     = PDict [(''server'', PDict sv), (''user'', PDict us)]"
  by (simp_all add: intent_mandate_of_def)

lemma intent_mandate_of_ops [simp]:
  "attach_user_signature (intent_mandate_of mid srv subj sc s e ua dt sv us) sig
   = intent_mandate_of mid srv subj sc s e ua dt sv sig"
  "clear_user_signature (intent_mandate_of mid srv subj sc s e ua dt sv us)
   = intent_mandate_of mid srv subj sc s e ua dt sv []"
  "set_server_signature (intent_mandate_of mid srv subj sc s e ua dt sv us) sv'
   = intent_mandate_of mid srv subj sc s e ua dt sv' us"
  "signature_of (intent_mandate_of mid srv subj sc s e ua dt sv us) ''server'' = sv"
  "signature_of (intent_mandate_of mid srv subj sc s e ua dt sv us) ''user'' = us"
  "AList.update ''displayText'' (PStr t) (intent_mandate_of mid srv subj sc s e ua dt sv us)
   = intent_mandate_of mid srv subj sc s e ua t sv us"
  by (simp_all add: intent_mandate_of_def attach_user_signature_def clear_user_signature_def
      set_server_signature_def signature_of_def)

lemma normalize_intent_mandate_of [simp]:
  "normalize_intent_scope (PDict sc) = Inr sc \<Longrightarrow>
   normalize_intent_mandate (intent_mandate_of mid srv subj sc s e ua dt sv us)
   = Inr (intent_mandate_of mid srv subj sc s e ua dt sv us)"
  by (rule normalize_intent_mandate_fixed [of _ sc sv us ua]) (simp_all add: intent_mandate_of_def)

text \<open>The core of such a mandate.\<close>

definition intent_core_list ::
  "string \<Rightarrow> string \<Rightarrow> pdict \<Rightarrow> pdict \<Rightarrow> string \<Rightarrow> string \<Rightarrow> pdict \<Rightarrow> string \<Rightarrow> pdict" where
  "intent_core_list mid server subject scope start until ua display =
     [(''type'', PStr intent_type), (''mandateId'', PStr mid), (''server'', PStr server),
      (''subject'', PDict subject), (''intent'', PDict scope),
      (''validTime'', PDict [(''start'', PStr start), (''end'', PStr until)]),
      (''userAuthorization'', PDict ua), (''displayText'', PStr display)]"

lemma intent_core_of_mandate [simp]:
  "intent_core_of (intent_mandate_of mid srv subj sc s e ua dt sv us) = intent_core_list mid srv subj sc s e ua dt"
  by (simp add: intent_core_of_def intent_core_list_def)

lemma intent_core_payload_of [simp]:
  "normalize_intent_scope (PDict sc) = Inr sc \<Longrightarrow>
   intent_mandate_core_payload (intent_mandate_of mid srv subj sc s e ua dt sv us)
   = Inr (intent_core_list mid srv subj sc s e ua dt)"
  by (simp add: intent_mandate_core_payload_def)

lemma intent_scope_of_fixed:
  assumes "normalize_action_specs v = Inr acts" "normalize_execution_policy w = Inr pol"
  shows "normalize_intent_scope (PDict (intent_scope_of acts pol)) = Inr (intent_scope_of acts pol)"
proof -
  have a: "normalize_action_specs (action_list acts) = Inr acts"
    using normalize_action_specs_normal [OF assms(1)] normalize_action_specs_fixed by blast
  show ?thesis
  proof (cases pol)
    case None
    with a show ?thesis by (simp add: normalize_intent_scope_def intent_scope_of_def)
  next
    case (Some p)
    with assms(2) obtain k where "0 < k" "p = [(''maxExecutions'', PInt k)]"
      using normalize_execution_policy_Some by blast
    with a Some show ?thesis
      by (simp add: normalize_intent_scope_def intent_scope_of_def normalize_execution_policy_def positive_int_def)
  qed
qed

text \<open>Everything known about a mandate that was created.\<close>

lemma render_display_intent:
  assumes "render_display what f (intent_mandate_of mid srv subj sc s e ua dt sv us) = Inr m"
  obtains dt' where "m = intent_mandate_of mid srv subj sc s e ua dt' sv us"
  using render_display_Inr [OF assms] by auto

lemma create_intent_mandate_shape:
  assumes "create_intent_mandate cfg now token server agent_id actions policy validity stype key = Inr m"
  obtains start until acts pol dt k where
    "utc_text now = Inr start" "utc_text (now + of_int validity) = Inr until"
    "normalize_action_specs actions = Inr acts" "normalize_execution_policy policy = Inr pol"
    "intent_server_signing_key (cfg_crypto cfg) (cfg_env cfg) = Inr k"
    "cfg_require cfg \<Longrightarrow> method_name (cfg_method cfg) \<noteq> []"
    "m = intent_mandate_of (''mdt_'' @ token) server (intent_subject stype agent_id key) (intent_scope_of acts pol)
       start until (user_authorization (cfg_require cfg) (cfg_method cfg)) dt
       (server_signature intent_key_id (ed25519_sign_text (cfg_crypto cfg)
         (server_payload (intent_core_list (''mdt_'' @ token) server (intent_subject stype agent_id key)
           (intent_scope_of acts pol) start until (user_authorization (cfg_require cfg) (cfg_method cfg)) dt)) k)) []"
proof -
  from assms obtain start until acts pol m0 where c:
    "utc_text now = Inr start" "utc_text (now + of_int validity) = Inr until"
    "normalize_action_specs actions = Inr acts" "normalize_execution_policy policy = Inr pol"
    "cfg_require cfg \<Longrightarrow> method_name (cfg_method cfg) \<noteq> []"
    and r: "render_display ''Intent'' (cfg_intent_renderer cfg)
          (intent_mandate_of (''mdt_'' @ token) server (intent_subject stype agent_id key)
            (intent_scope_of acts pol) start until (user_authorization (cfg_require cfg) (cfg_method cfg))
            (cfg_intent_display cfg agent_id acts start until pol) (server_signature intent_key_id []) []) = Inr m0"
    and sg: "sign_intent_mandate (cfg_crypto cfg) (cfg_env cfg) m0 = Inr m"
    by (auto simp: create_intent_mandate_def rbind_Inr_iff split: if_splits)
  obtain dt where m0: "m0 = intent_mandate_of (''mdt_'' @ token) server (intent_subject stype agent_id key)
            (intent_scope_of acts pol) start until (user_authorization (cfg_require cfg) (cfg_method cfg))
            dt (server_signature intent_key_id []) []"
    using render_display_intent [OF r] by blast
  from sg m0 intent_scope_of_fixed [OF c(3,4)] c that show ?thesis
    by (auto simp: sign_intent_mandate_def rbind_Inr_iff)
qed

section \<open>Verification: soundness and completeness\<close>

lemma check_intent_time_True:
  assumes "check_intent_time now n expected_server = Inr (True, why)"
  obtains vt s e start until where "dget n ''validTime'' = PDict vt" "dget vt ''start'' = PStr s"
    "dget vt ''end'' = PStr e" "parse_utc s = Some start" "parse_utc e = Some until"
    "of_int start \<le> now" "now \<le> of_int until"
    "\<And>srv. expected_server = Some srv \<Longrightarrow> text_of (dget n ''server'') = strip srv"
proof -
  from assms obtain vt where vt: "dget_or n ''validTime'' (PDict []) = PDict vt"
    by (cases "dget_or n ''validTime'' (PDict [])") (auto simp: check_intent_time_def)
  let ?s = "dget_or vt ''start'' (PStr [])" and ?e = "dget_or vt ''end'' (PStr [])"
  from assms vt obtain start until where t: "truthy ?s" "truthy ?e" "strptime_utc ?s = Inr start" "strptime_utc ?e = Inr until"
    by (auto simp: check_intent_time_def Let_def rbind_Inr_iff split: if_splits sum.splits)
  then obtain s e where se: "?s = PStr s" "?e = PStr e" "parse_utc s = Some start" "parse_utc e = Some until"
    by (cases ?s; cases ?e) (auto split: option.splits)
  have "dget vt ''start'' = PStr s" "dget vt ''end'' = PStr e"
    using se(1,2) t(1,2) by (auto simp: dget_or_def split: option.splits)
  moreover have "dget n ''validTime'' = PDict vt"
    using vt t(1) by (auto simp: dget_or_def split: option.splits)
  ultimately show ?thesis
    using that se assms vt t by (auto simp: check_intent_time_def Let_def split: if_splits option.splits)
qed

lemma verify_intent_mandate_True:
  assumes "verify_intent_mandate C env M required now st m expected_server expected_user = (Inr (True, why), st')"
  obtains n core k s ctx why' where "dget m ''type'' = PStr intent_type" "normalize_intent_mandate m = Inr n"
    "intent_mandate_core_payload n = Inr core" "intent_server_signing_key C env = Inr k"
    "dget (signature_of n ''server'') ''signature'' = PStr s"
    "ed25519_verify_text C (server_payload core) (strip s) (cr_public C k)"
    "intent_user_signature_context n expected_user = Inr ctx"
    "verify_user_signature M required st ctx (signature_of n ''user'') = (Inr (True, why'), st')"
    "check_intent_time now n expected_server = Inr (True, why)"
proof -
  from assms have type: "dget m ''type'' = PStr intent_type"
    by (auto simp: verify_intent_mandate_def split: if_splits)
  from assms type obtain n where n: "normalize_intent_mandate m = Inr n"
    by (cases "normalize_intent_mandate m") (auto simp: verify_intent_mandate_def invalid_reason_def split: if_splits)
  let ?chk = "check_server_signature C (intent_server_signing_key C env) (intent_mandate_core_payload n)
    (signature_of n ''server'')"
  from assms type n have chk: "?chk = Inr None"
    by (cases ?chk) (auto simp: verify_intent_mandate_def split: option.splits)
  from assms type n chk obtain ctx where ctx: "intent_user_signature_context n expected_user = Inr ctx"
    by (cases "intent_user_signature_context n expected_user")
      (auto simp: verify_intent_mandate_def invalid_reason_def split: if_splits)
  from assms type n chk ctx obtain why' where
    "verify_user_signature M required st ctx (signature_of n ''user'') = (Inr (True, why'), st')"
    "check_intent_time now n expected_server = Inr (True, why)"
    by (auto simp: verify_intent_mandate_def split: prod.splits sum.splits bool.splits)
  with type n ctx check_server_signature_ok [OF chk] that show ?thesis by metis
qed

text \<open>The context of a created mandate does not depend on its user signature.\<close>

definition intent_signed_list :: "pdict \<Rightarrow> pdict \<Rightarrow> pdict" where
  "intent_signed_list core sv = core @ [(''signatures'', PDict [(''server'', PDict sv)])]"

lemma intent_context_of:
  assumes "normalize_intent_scope (PDict sc) = Inr sc" "dget ua ''required'' = PBool req"
    and "req \<Longrightarrow> text_of (dget ua ''signatureMethod'') \<noteq> []"
  shows "intent_user_signature_context (intent_mandate_of mid srv subj sc s e ua dt sv us) u
    = Inr \<lparr>sc_type = intent_type, sc_mandate = intent_signed_list (intent_core_list mid srv subj sc s e ua dt) sv,
        sc_method = text_of (dget ua ''signatureMethod''), sc_user = u\<rparr>"
  using assms
  by (simp add: intent_user_signature_context_def user_signature_context_def Let_def mandate_core_payload_def
      server_signed_mandate_without_user_signature_def intent_signed_list_def)

lemma intent_payload_of:
  assumes "normalize_intent_scope (PDict sc) = Inr sc"
  shows "canonical_user_authorization_payload (intent_signed_list (intent_core_list mid srv subj sc s e ua dt) sv)
    = Inr (user_payload (intent_signed_list (intent_core_list mid srv subj sc s e ua dt) sv))"
proof -
  let ?m = "intent_signed_list (intent_core_list mid srv subj sc s e ua dt) sv"
  have "normalize_intent_mandate ?m = Inr (intent_mandate_of mid srv subj sc s e ua dt sv [])"
    using assms
    by (simp add: normalize_intent_mandate_def intent_signed_list_def intent_core_list_def normalize_signatures_def
        py_or_def intent_mandate_of_def)
  moreover have "dget ?m ''type'' = PStr intent_type" "dget (as_dict (dget ?m ''signatures'')) ''server'' = PDict sv"
    by (simp_all add: intent_signed_list_def intent_core_list_def)
  ultimately show ?thesis
    by (simp add: canonical_user_authorization_payload_def server_signed_mandate_without_user_signature_def
        mandate_core_payload_def intent_mandate_core_payload_def) (simp add: intent_signed_list_def)
qed

lemma check_intent_time_of:
  assumes "parse_utc s = Some a" "parse_utc e = Some b" "of_int a \<le> now" "now \<le> of_int b" "strip srv = strip srv'"
  shows "check_intent_time now (intent_mandate_of mid srv subj sc s e ua dt sv us) (Some srv') = Inr (True, [])"
proof -
  have "s \<noteq> []" "e \<noteq> []" using assms(1,2) parse_utc_Nil by auto
  with assms show ?thesis by (simp add: check_intent_time_def Let_def)
qed

lemma verify_intent_mandate_of:
  assumes "ed25519_laws C" "normalize_intent_scope (PDict sc) = Inr sc" "intent_server_signing_key C env = Inr k"
    and "sv = server_signature kid (ed25519_sign_text C (server_payload (intent_core_list mid srv subj sc s e ua dt)) k)"
    and "intent_user_signature_context (intent_mandate_of mid srv subj sc s e ua dt sv us) u = Inr ctx"
    and "verify_user_signature M req st ctx us = (Inr (True, why), st')"
    and "parse_utc s = Some a" "parse_utc e = Some b" "of_int a \<le> now" "now \<le> of_int b" "strip srv = strip srv'"
  shows "verify_intent_mandate C env M req now st (intent_mandate_of mid srv subj sc s e ua dt sv us) (Some srv') u
    = (Inr (True, []), st')"
  using assms check_intent_time_of [OF assms(7-11)]
  by (simp add: verify_intent_mandate_def check_server_signature_own)


end
