(* ===== verification/IntentToken.thy ===== *)
theory IntentToken
  imports IntentMandate
begin

text \<open>\<open>intent/token.py\<close>: issuing a token from a mandate and verifying a token for one call.\<close>

section \<open>Issuing\<close>

abbreviation token_type :: string where
  "token_type \<equiv> ''a4p/v1/intent-token''"

definition intent_token_key_id :: "string \<Rightarrow> string" where
  "intent_token_key_id mandate_id =
     (let m = strip mandate_id in
      if m = [] then ''server#intent-token-v1'' else ''server#intent-token-v1:'' @ m)"

definition intent_token_core_payload :: "pdict \<Rightarrow> pdict res" where
  "intent_token_core_payload t =
     rbind (normalize_intent_scope (dget t ''intent'')) (\<lambda>scope.
       Inr [(''type'', dget_or t ''type'' (PStr [])), (''tokenId'', dget_or t ''tokenId'' (PStr [])),
            (''mandateId'', dget_or t ''mandateId'' (PStr [])), (''subject'', dget_or t ''subject'' (PDict [])),
            (''user'', dget_or t ''user'' (PDict [])), (''intent'', PDict scope),
            (''issuedAt'', dget_or t ''issuedAt'' (PStr [])), (''expireAt'', dget_or t ''expireAt'' (PStr [])),
            (''nonce'', dget_or t ''nonce'' (PStr []))])"

definition token_payload :: "pdict \<Rightarrow> string" where
  "token_payload core = canonical_json (PDict [(''scope'', PStr ''server.intent_token''), (''token'', PDict core)])"

text \<open>The token object with its fields in the order the code writes them.\<close>

definition intent_token_of ::
  "string \<Rightarrow> string \<Rightarrow> pdict \<Rightarrow> string \<Rightarrow> pdict \<Rightarrow> string \<Rightarrow> string \<Rightarrow> string \<Rightarrow> string \<Rightarrow> string \<Rightarrow> pdict" where
  "intent_token_of tid mid subject user scope issued expire nonce sig key_id =
     [(''type'', PStr token_type), (''tokenId'', PStr tid), (''mandateId'', PStr mid),
      (''subject'', PDict subject), (''user'', PDict [(''id'', PStr user)]), (''intent'', PDict scope),
      (''issuedAt'', PStr issued), (''expireAt'', PStr expire), (''nonce'', PStr nonce),
      (''signature'', PStr sig), (''alg'', PStr ''EdDSA''), (''keyId'', PStr key_id)]"

definition token_subject :: "pdict \<Rightarrow> pdict" where
  "token_subject subject =
     (let t = strip (str_or (dget subject ''type'') ''agent'') in
      [(''type'', PStr (if t = [] then ''agent'' else t)), (''id'', PStr (text_of (dget subject ''id'')))] @
      (case dict_option (dget subject ''agentKey'') of None \<Rightarrow> [] | Some k \<Rightarrow> [(''agentKey'', PDict k)]))"

text \<open>The part of \<open>issue_intent_token\<close> after the mandate is known to be valid; \<open>tid\<close> and \<open>nonce\<close> are random.\<close>

definition issue_token ::
  "('sk, 'pk) crypto \<Rightarrow> environ \<Rightarrow> rat \<Rightarrow> string \<Rightarrow> string \<Rightarrow> pdict \<Rightarrow> string \<Rightarrow> pdict res" where
  "issue_token C env now tid nonce m user_id =
     rbind (normalize_intent_mandate m) (\<lambda>n.
       let mid = text_of (dget n ''mandateId''); expire = text_of (dget (as_dict (dget n ''validTime'')) ''end'');
           user = strip user_id
       in if mid = [] then Inl (ValueError ''mandateId missing'')
          else rbind (utc_text now) (\<lambda>issued.
            if expire = [] then Inl (ValueError ''mandate validTime.end missing'')
            else rbind (normalize_intent_scope (dget n ''intent'')) (\<lambda>scope.
              let token = intent_token_of tid mid (token_subject (as_dict (dget n ''subject'')))
                    (if user = [] then ''user:unknown'' else user) scope issued expire nonce [] (intent_token_key_id mid)
              in rbind (intent_token_core_payload token) (\<lambda>core.
                 rbind (intent_server_signing_key C env) (\<lambda>k.
                   Inr (AList.update ''signature'' (PStr (ed25519_sign_text C (token_payload core) k)) token))))))"

definition issue_intent_token ::
  "('sk, 'pk) crypto \<Rightarrow> environ \<Rightarrow> 'm sig_method option \<Rightarrow> bool \<Rightarrow> bool \<Rightarrow> rat \<Rightarrow> rat \<Rightarrow> string \<Rightarrow> string \<Rightarrow>
   'm \<Rightarrow> pdict \<Rightarrow> string \<Rightarrow> pdict res \<times> 'm" where
  "issue_intent_token C env M required verified now1 now2 tid nonce st m user_id =
     (case (if verified then (Inr (True, []), st)
            else verify_intent_mandate C env M required now1 st m None None) of
        (Inl e, st1) \<Rightarrow> (Inl e, st1)
      | (Inr (False, err), st1) \<Rightarrow> (Inl (ValueError (''invalid intent mandate: '' @ err)), st1)
      | (Inr (True, _), st1) \<Rightarrow> (issue_token C env now2 tid nonce m user_id, st1))"

section \<open>Verification for one call\<close>

definition params_match_intent_token :: "pdict \<Rightarrow> string \<Rightarrow> pdict \<Rightarrow> bool \<times> string" where
  "params_match_intent_token token action params =
     params_match_intent_scope (as_dict (dget token ''intent'')) action params"

text \<open>\<open>if expected: ... if actual != expected: return False, ...\<close>: an absent or empty expectation passes.\<close>

definition expectation_fails :: "string option \<Rightarrow> string \<Rightarrow> bool" where
  "expectation_fails expected actual = (case expected of None \<Rightarrow> False | Some e \<Rightarrow> e \<noteq> [] \<and> actual \<noteq> e)"

definition mismatch_reason :: "string \<Rightarrow> string option \<Rightarrow> string \<Rightarrow> string" where
  "mismatch_reason what expected actual =
     ''Token '' @ what @ '' mismatch: expected '' @ quoted (the expected) @ '', got '' @ quoted actual"

text \<open>Subject, agent key, user and scope: the checks after signature and expiry.\<close>

definition check_token_binding ::
  "pdict \<Rightarrow> string \<Rightarrow> pdict \<Rightarrow> string option \<Rightarrow> string option \<Rightarrow> string option \<Rightarrow> bool \<times> string" where
  "check_token_binding token action params agent user agent_key =
     (let subject = as_dict (dget token ''subject''); usr = as_dict (dget token ''user'');
          actual_agent = text_of (dget subject ''id'');
          key = as_dict (dget subject ''agentKey'');
          actual_key = text_of (py_or (dget key ''kid'') (dget key ''keyId''));
          actual_user = text_of (dget usr ''id'')
      in if expectation_fails agent actual_agent then (False, mismatch_reason ''subject'' agent actual_agent)
         else if expectation_fails agent_key actual_key
           then (False, mismatch_reason ''agent key'' agent_key actual_key)
         else if expectation_fails user actual_user then (False, mismatch_reason ''user'' user actual_user)
         else params_match_intent_token token action params)"

definition verify_intent_token ::
  "('sk, 'pk) crypto \<Rightarrow> environ \<Rightarrow> rat \<Rightarrow> pdict \<Rightarrow> string \<Rightarrow> pdict \<Rightarrow> string option \<Rightarrow> string option \<Rightarrow>
   string option \<Rightarrow> (bool \<times> string) res" where
  "verify_intent_token C env now token action params agent user agent_key =
     (let alg = text_of (dget token ''alg''); sig = text_of (dget token ''signature'');
          mid = text_of (dget token ''mandateId''); key_id = text_of (dget token ''keyId'');
          expire = text_of (dget token ''expireAt'')
      in if \<not> py_eq (dget token ''type'') (PStr token_type) then Inr (False, ''Invalid token type'')
         else if alg \<noteq> ''EdDSA''
           then Inr (False, ''Token alg mismatch: expected '' @ quoted ''EdDSA'' @ '', got '' @ quoted alg)
         else if sig = [] then Inr (False, ''Token signature missing'')
         else if mid = [] then Inr (False, ''Token mandateId missing'')
         else if key_id \<noteq> intent_token_key_id mid
           then Inr (False, ''Token keyId mismatch: expected '' @ quoted (intent_token_key_id mid) @
                  '', got '' @ quoted key_id)
         else case intent_token_core_payload token of
           Inl e \<Rightarrow> invalid_reason e
         | Inr core \<Rightarrow> rbind (intent_server_signing_key C env) (\<lambda>k.
             if \<not> ed25519_verify_text C (token_payload core) sig (cr_public C k)
             then Inr (False, ''Token signature invalid'')
             else if expire = [] then Inr (False, ''Token expireAt missing'')
             else case parse_utc expire of
               None \<Rightarrow> Inr (False, ''Token expireAt format invalid'')
             | Some expire_ts \<Rightarrow>
                 if now > of_int expire_ts then Inr (False, ''Token expired'')
                 else Inr (check_token_binding token action params agent user agent_key)))"

section \<open>Facts\<close>

lemma verify_intent_token_True:
  assumes "verify_intent_token C env now token action params agent user agent_key = Inr (True, why)"
  obtains core k expire_ts where "dget token ''type'' = PStr token_type"
    "intent_token_core_payload token = Inr core" "intent_server_signing_key C env = Inr k"
    "ed25519_verify_text C (token_payload core) (text_of (dget token ''signature'')) (cr_public C k)"
    "parse_utc (text_of (dget token ''expireAt'')) = Some expire_ts" "now \<le> of_int expire_ts"
    "check_token_binding token action params agent user agent_key = (True, why)"
proof -
  from assms obtain core where core: "intent_token_core_payload token = Inr core"
    by (cases "intent_token_core_payload token")
      (auto simp: verify_intent_token_def Let_def invalid_reason_def split: if_splits)
  with assms obtain k where k: "intent_server_signing_key C env = Inr k"
    by (cases "intent_server_signing_key C env") (auto simp: verify_intent_token_def Let_def split: if_splits)
  show ?thesis
    using assms core k that
    by (auto simp: verify_intent_token_def Let_def split: if_splits option.splits)
qed

lemma check_token_binding_True:
  assumes "check_token_binding token action params agent user agent_key = (True, why)"
  shows "\<not> expectation_fails agent (text_of (dget (as_dict (dget token ''subject'')) ''id''))"
    and "\<not> expectation_fails user (text_of (dget (as_dict (dget token ''user'')) ''id''))"
    and "fst (params_match_intent_scope (as_dict (dget token ''intent'')) action params)"
  using assms
  by (auto simp: check_token_binding_def Let_def params_match_intent_token_def split: if_splits)

end
