(* ===== verification/IntentService.thy ===== *)
theory IntentService
  imports IntentToken
begin

text \<open>
  \<open>intent/service.py\<close>: the three handlers of intent authorization. Handlers are coroutines without
  suspension points, so each is one step on the server state; time readings and random tokens are
  arguments.
\<close>

section \<open>Prepare\<close>

definition intent_rejected :: "pdict option \<Rightarrow> string \<Rightarrow> verification_result \<Rightarrow> intent_response" where
  "intent_rejected m reason result = \<lparr>ir_mandate = m, ir_options = [], ir_token = None,
     ir_result = Some result, ir_approved = False, ir_reason = Some reason\<rparr>"

text \<open>The handlers for \<open>UserCredentialNotRegisteredError\<close> and, after it, \<open>ValueError\<close>.\<close>

definition intent_prepare_error :: "exc \<Rightarrow> intent_response res" where
  "intent_prepare_error e =
     (case e of
        UserCredentialNotRegistered _ _ \<Rightarrow>
          Inr (intent_rejected None (exc_msg e) (vr_fail (exc_msg e) ''USER_CREDENTIAL_NOT_REGISTERED''))
      | _ \<Rightarrow>
          if is_value_error e then Inr (intent_rejected None (exc_msg e) (vr_fail (exc_msg e) ''MANDATE_INVALID''))
          else Inl e)"

text \<open>The \<open>try\<close> block up to the new mandate and its identifier.\<close>

definition intent_new_mandate ::
  "('sk, 'pk, 'm, 'u) a4p_config \<Rightarrow> rat \<Rightarrow> string \<Rightarrow> pdict \<Rightarrow> (string \<times> string \<times> pdict) res" where
  "intent_new_mandate cfg now token req =
     (let intent = as_dict (dget req ''intent'') in
      rbind (required_text req ''agentId'') (\<lambda>agent_id.
      rbind (required_text req ''userId'') (\<lambda>user_id.
      rbind (validity_seconds 3600 (dget req ''validitySeconds'')) (\<lambda>validity.
        if map_of intent ''executionPolicy'' = Some PNone
        then Inl (ValueError ''executionPolicy must include maxExecutions'')
        else rbind (create_intent_mandate cfg now token (str_or (dget req ''server'') (cfg_server_id cfg)) agent_id
               (dget intent ''actions'') (dget intent ''executionPolicy'') validity ''agent''
               (dict_option (dget req ''agentPublicKey''))) (\<lambda>m.
             rbind (mandate_identifier m) (\<lambda>mid. Inr (user_id, mid, m)))))))"

definition intent_prepare ::
  "('sk, 'pk, 'm, 'u) a4p_config \<Rightarrow> rat \<Rightarrow> string \<Rightarrow> ('m, 'u) a4p_state \<Rightarrow> pyval \<Rightarrow>
   intent_response res \<times> ('m, 'u) a4p_state" where
  "intent_prepare cfg now token st request =
     (let req = payload request in
      case intent_new_mandate cfg now token req of
        Inl e \<Rightarrow> (intent_prepare_error e, st)
      | Inr (user_id, mid, m) \<Rightarrow>
          (case signing_options (cfg_require cfg) (cfg_method cfg) (st_method st) user_id m of
             (Inl e, ms) \<Rightarrow> (intent_prepare_error e, st\<lparr>st_method := ms\<rparr>)
           | (Inr opts, ms) \<Rightarrow>
               (Inr \<lparr>ir_mandate = Some m, ir_options = opts, ir_token = None, ir_result = None,
                     ir_approved = False, ir_reason = None\<rparr>,
                st\<lparr>st_method := ms,
                   st_intents := AList.update mid \<lparr>pi_request = req, pi_mandate = m\<rparr> (st_intents st)\<rparr>)))"

section \<open>Complete\<close>

text \<open>
  \<open>now1\<close> is the reading of \<open>verify_intent_mandate\<close>, \<open>now2\<close> that of \<open>issue_intent_token\<close>. The pending entry is
  removed before the token is issued.
\<close>

definition intent_complete ::
  "('sk, 'pk, 'm, 'u) a4p_config \<Rightarrow> rat \<Rightarrow> rat \<Rightarrow> string \<Rightarrow> string \<Rightarrow> ('m, 'u) a4p_state \<Rightarrow> pdict \<Rightarrow>
   intent_response res \<times> ('m, 'u) a4p_state" where
  "intent_complete cfg now1 now2 tid nonce st request =
     (case dict_option (dget request ''signedMandate'') of
        None \<Rightarrow> (Inr (intent_rejected None ''signedMandate missing''
                   (vr_fail ''signedMandate missing'' ''MANDATE_INVALID'')), st)
      | Some sm \<Rightarrow>
     (case mandate_identifier sm of
        Inl e \<Rightarrow> (if is_value_error e
                  then Inr (intent_rejected None (exc_msg e) (vr_fail (exc_msg e) ''MANDATE_INVALID''))
                  else Inl e, st)
      | Inr mid \<Rightarrow>
     (case map_of (st_intents st) mid of
        None \<Rightarrow> (Inr (intent_rejected None (''No pending intent authorization: '' @ mid)
                   (vr_fail ''No pending intent authorization'' ''AUTHORIZATION_NOT_PENDING'')), st)
      | Some pend \<Rightarrow>
     (case mandate_matches_pending normalize_intent_mandate sm (pi_mandate pend) of
        Inl e \<Rightarrow> (Inl e, st)
      | Inr False \<Rightarrow>
          (let reason = ''Signed mandate does not match pending intent authorization''
           in (Inr (intent_rejected (Some (pi_mandate pend)) reason (vr_fail reason ''MANDATE_PENDING_MISMATCH'')), st))
      | Inr True \<Rightarrow>
     (case verify_intent_mandate (cfg_crypto cfg) (cfg_env cfg) (cfg_method cfg) (cfg_require cfg) now1
             (st_method st) sm (Some (str_or (dget (pi_request pend) ''server'') (cfg_server_id cfg)))
             (Some (str_or (dget (pi_request pend) ''userId'') [])) of
        (Inl e, ms) \<Rightarrow> (Inl e, st\<lparr>st_method := ms\<rparr>)
      | (Inr (False, reason), ms) \<Rightarrow>
          (Inr (intent_rejected (Some (pi_mandate pend)) reason (vr_fail reason (error_code reason ''MANDATE''))),
           st\<lparr>st_method := ms\<rparr>)
      | (Inr (True, _), ms) \<Rightarrow>
          (case issue_intent_token (cfg_crypto cfg) (cfg_env cfg) None True True now1 now2 tid nonce ms sm
                  (str_or (dget (pi_request pend) ''userId'') ''user:unknown'') of
             (Inl e, ms1) \<Rightarrow> (Inl e, st\<lparr>st_method := ms1, st_intents := AList.delete mid (st_intents st)\<rparr>)
           | (Inr token, ms1) \<Rightarrow>
               (Inr \<lparr>ir_mandate = Some sm, ir_options = [], ir_token = Some token, ir_result = Some (vr_ok None),
                     ir_approved = True, ir_reason = None\<rparr>,
                st\<lparr>st_method := ms1, st_intents := AList.delete mid (st_intents st)\<rparr>)))))))"

section \<open>Token verification\<close>

definition token_rejected :: "string \<Rightarrow> string \<Rightarrow> token_response" where
  "token_rejected reason code = \<lparr>tr_valid = False, tr_reason = Some reason, tr_code = Some code, tr_scope = None\<rparr>"

text \<open>
  \<open>_consume_token_usage\<close>: \<open>Inl\<close> the reason of a refusal, \<open>Inr\<close> the usage to report. \<open>available\<close> and \<open>now\<close>
  are what the usage store meets: whether the database works, and its own reading of the clock.
\<close>

definition consume_token_usage ::
  "('sk, 'pk, 'm, 'u) a4p_config \<Rightarrow> bool \<Rightarrow> int \<Rightarrow> 'u \<Rightarrow> pdict \<Rightarrow> (string + pdict) res \<times> 'u" where
  "consume_token_usage cfg available now us token =
     (let tid = text_of (dget token ''tokenId'') in
      if tid = [] then (Inr (Inl ''Token tokenId missing''), us)
      else case normalize_intent_scope (dget token ''intent'') of
        Inl e \<Rightarrow> (if is_value_error e then Inr (Inl (exc_msg e)) else Inl e, us)
      | Inr scope \<Rightarrow>
          (case dict_option (dget scope ''executionPolicy'') of
             None \<Rightarrow> (Inr (Inr []), us)
           | Some policy \<Rightarrow>
               (let lim = int_of (dget policy ''maxExecutions'') in
                case parse_utc (text_of (dget token ''expireAt'')) of
                  None \<Rightarrow> (Inl (UsageStoreError ''Intent token expiration is invalid''), us)
                | Some expire \<Rightarrow>
                    (case cfg_consume cfg available now us tid (PInt lim) (PInt expire) of
                       (Inl e, us1) \<Rightarrow> (Inl e, us1)
                     | (Inr (False, _), us1) \<Rightarrow> (Inr (Inl ''Token execution usage exceeded''), us1)
                     | (Inr (True, used), us1) \<Rightarrow>
                         (Inr (Inr [(''usage'', PDict [(''executionsUsed'', PInt used),
                            (''executionsLimit'', PInt lim)])]), us1)))))"

definition str_option :: "pyval \<Rightarrow> string option" where
  "str_option v = (if v = PNone then None else Some (py_str v))"

definition intent_verify_token ::
  "('sk, 'pk, 'm, 'u) a4p_config \<Rightarrow> rat \<Rightarrow> bool \<Rightarrow> int \<Rightarrow> ('m, 'u) a4p_state \<Rightarrow> pyval \<Rightarrow>
   token_response res \<times> ('m, 'u) a4p_state" where
  "intent_verify_token cfg now available store_now st request =
     (let req = payload request; token = as_dict (dget req ''token''); expected = as_dict (dget req ''expected'');
          params = as_dict (dget expected ''params'')
      in case verify_intent_token (cfg_crypto cfg) (cfg_env cfg) now token (str_or (dget expected ''action'') [])
                params (str_option (dget expected ''agentId'')) (str_option (dget expected ''userId''))
                (str_option (dget expected ''agentKeyId'')) of
           Inl e \<Rightarrow> (Inl e, st)
         | Inr (False, reason) \<Rightarrow> (Inr (token_rejected reason (error_code reason ''TOKEN'')), st)
         | Inr (True, _) \<Rightarrow>
             (case consume_token_usage cfg available store_now (st_usage st) token of
                (Inl (UsageStoreError _), us) \<Rightarrow>
                  (Inr (token_rejected ''Intent token usage store unavailable'' ''TOKEN_USAGE_STORE_ERROR''),
                   st\<lparr>st_usage := us\<rparr>)
              | (Inl e, us) \<Rightarrow> (Inl e, st\<lparr>st_usage := us\<rparr>)
              | (Inr (Inl reason), us) \<Rightarrow> (Inr (token_rejected reason ''TOKEN_USAGE_EXCEEDED''), st\<lparr>st_usage := us\<rparr>)
              | (Inr (Inr usage), us) \<Rightarrow>
                  (Inr \<lparr>tr_valid = True, tr_reason = None, tr_code = None,
                        tr_scope = Some ([(''action'', dget expected ''action''), (''params'', PDict params)] @ usage)\<rparr>,
                   st\<lparr>st_usage := us\<rparr>)))"

section \<open>Pending authorizations\<close>

text \<open>Every pending entry is a mandate this server created for the stored request.\<close>

definition intent_pending_inv :: "('sk, 'pk, 'm, 'u) a4p_config \<Rightarrow> ('m, 'u) a4p_state \<Rightarrow> bool" where
  "intent_pending_inv cfg st \<longleftrightarrow> keys_distinct (st_intents st) \<and>
     (\<forall>mid pend. map_of (st_intents st) mid = Some pend \<longrightarrow>
        (\<exists>now token user. intent_new_mandate cfg now token (pi_request pend) = Inr (user, mid, pi_mandate pend)))"

lemma intent_pending_inv_update:
  "intent_pending_inv cfg st \<Longrightarrow> intent_new_mandate cfg now token req = Inr (user, mid, m) \<Longrightarrow>
   intent_pending_inv cfg (st\<lparr>st_method := ms, st_intents := AList.update mid \<lparr>pi_request = req, pi_mandate = m\<rparr> (st_intents st)\<rparr>)"
  by (auto simp: intent_pending_inv_def)

lemma intent_pending_inv_delete:
  "intent_pending_inv cfg st \<Longrightarrow>
   intent_pending_inv cfg (st\<lparr>st_method := ms, st_intents := AList.delete mid (st_intents st)\<rparr>)"
  by (auto simp: intent_pending_inv_def)

lemma intent_pending_inv_frame [simp]:
  "intent_pending_inv cfg (st\<lparr>st_method := ms\<rparr>) = intent_pending_inv cfg st"
  "intent_pending_inv cfg (st\<lparr>st_usage := us\<rparr>) = intent_pending_inv cfg st"
  by (simp_all add: intent_pending_inv_def)

text \<open>How \<open>prepare\<close> ends: an answer that leaves the pending entries alone, or a new entry.\<close>

lemma intent_prepare_cases:
  obtains (failed) r ms where "intent_prepare cfg now token st request = (r, st\<lparr>st_method := ms\<rparr>)"
      "\<And>resp. r = Inr resp \<Longrightarrow> \<not> ir_approved resp \<and> ir_mandate resp = None"
  | (prepared) user mid m opts ms where "intent_new_mandate cfg now token (payload request) = Inr (user, mid, m)"
      "signing_options (cfg_require cfg) (cfg_method cfg) (st_method st) user m = (Inr opts, ms)"
      "intent_prepare cfg now token st request =
         (Inr \<lparr>ir_mandate = Some m, ir_options = opts, ir_token = None, ir_result = None,
               ir_approved = False, ir_reason = None\<rparr>,
          st\<lparr>st_method := ms, st_intents := AList.update mid \<lparr>pi_request = payload request, pi_mandate = m\<rparr> (st_intents st)\<rparr>)"
proof -
  have err: "\<not> ir_approved resp \<and> ir_mandate resp = None" if "intent_prepare_error e = Inr resp" for e resp
    using that by (auto simp: intent_prepare_error_def intent_rejected_def split: exc.splits if_splits)
  show ?thesis
  proof (cases "intent_new_mandate cfg now token (payload request)")
    case (Inl e)
    then have "intent_prepare cfg now token st request = (intent_prepare_error e, st\<lparr>st_method := st_method st\<rparr>)"
      by (simp add: intent_prepare_def)
    then show ?thesis by (rule failed) (rule err)
  next
    case (Inr p)
    obtain user mid m where p: "p = (user, mid, m)" by (cases p)
    obtain o' ms where o: "signing_options (cfg_require cfg) (cfg_method cfg) (st_method st) user m = (o', ms)"
      by fastforce
    show ?thesis
    proof (cases o')
      case (Inl e)
      with Inr p o have "intent_prepare cfg now token st request = (intent_prepare_error e, st\<lparr>st_method := ms\<rparr>)"
        by (simp add: intent_prepare_def)
      then show ?thesis by (rule failed) (rule err)
    next
      case opts: (Inr opts)
      show ?thesis
        by (rule prepared [OF Inr [unfolded p] o [unfolded opts]])
          (use Inr p o opts in \<open>simp add: intent_prepare_def\<close>)
    qed
  qed
qed

text \<open>How \<open>complete\<close> ends: without approval the entries stay, apart from a token that cannot be issued.\<close>

lemma intent_complete_cases:
  obtains (refused) r ms where "intent_complete cfg now1 now2 tid nonce st request = (r, st\<lparr>st_method := ms\<rparr>)"
      "\<And>resp. r = Inr resp \<Longrightarrow> \<not> ir_approved resp \<and> ir_token resp = None"
  | (consumed) sm mid pend why ms where "dget request ''signedMandate'' = PDict sm" "mandate_identifier sm = Inr mid"
      "map_of (st_intents st) mid = Some pend"
      "mandate_matches_pending normalize_intent_mandate sm (pi_mandate pend) = Inr True"
      "verify_intent_mandate (cfg_crypto cfg) (cfg_env cfg) (cfg_method cfg) (cfg_require cfg) now1
             (st_method st) sm (Some (str_or (dget (pi_request pend) ''server'') (cfg_server_id cfg)))
             (Some (str_or (dget (pi_request pend) ''userId'') [])) = (Inr (True, why), ms)"
      "intent_complete cfg now1 now2 tid nonce st request =
         (rbind (issue_token (cfg_crypto cfg) (cfg_env cfg) now2 tid nonce sm
             (str_or (dget (pi_request pend) ''userId'') ''user:unknown'')) (\<lambda>token.
            Inr \<lparr>ir_mandate = Some sm, ir_options = [], ir_token = Some token, ir_result = Some (vr_ok None),
                 ir_approved = True, ir_reason = None\<rparr>),
          st\<lparr>st_method := ms, st_intents := AList.delete mid (st_intents st)\<rparr>)"
proof -
  let ?c = "intent_complete cfg now1 now2 tid nonce st request"
  have stay: thesis if "?c = (r, st)" "\<And>resp. r = Inr resp \<Longrightarrow> \<not> ir_approved resp \<and> ir_token resp = None" for r
    by (rule refused [of r "st_method st"]) (use that in auto)
  show ?thesis
  proof (cases "dict_option (dget request ''signedMandate'')")
    case None
    then show ?thesis by (intro stay) (auto simp: intent_complete_def intent_rejected_def)
  next
    case (Some sm)
    note s1 = Some
    show ?thesis
    proof (cases "mandate_identifier sm")
      case (Inl e)
      with s1 show ?thesis by (intro stay) (auto simp: intent_complete_def intent_rejected_def split: if_splits)
    next
      case (Inr mid)
      note s2 = s1 Inr
      show ?thesis
      proof (cases "map_of (st_intents st) mid")
        case None
        with s2 show ?thesis by (intro stay) (auto simp: intent_complete_def intent_rejected_def)
      next
        case (Some pend)
        note s3 = s2 Some
        show ?thesis
        proof (cases "mandate_matches_pending normalize_intent_mandate sm (pi_mandate pend) = Inr True")
          case False
          with s3 have "\<exists>r. ?c = (r, st) \<and> (\<forall>resp. r = Inr resp \<longrightarrow> \<not> ir_approved resp \<and> ir_token resp = None)"
            by (cases "mandate_matches_pending normalize_intent_mandate sm (pi_mandate pend)")
              (auto simp: intent_complete_def intent_rejected_def Let_def)
          then show ?thesis using stay by blast
        next
          case True
          note s4 = s3 True
          let ?v = "verify_intent_mandate (cfg_crypto cfg) (cfg_env cfg) (cfg_method cfg) (cfg_require cfg) now1
             (st_method st) sm (Some (str_or (dget (pi_request pend) ''server'') (cfg_server_id cfg)))
             (Some (str_or (dget (pi_request pend) ''userId'') []))"
          obtain r ms where v: "?v = (r, ms)" by fastforce
          show ?thesis
          proof (cases "\<exists>why. r = Inr (True, why)")
            case True
            then obtain why where "r = Inr (True, why)" by blast
            moreover have "dget request ''signedMandate'' = PDict sm"
              using s1 by (cases "dget request ''signedMandate''") auto
            ultimately show ?thesis
              using s4 v
              by (intro consumed [of sm mid pend why ms])
                (auto simp: intent_complete_def issue_intent_token_def rbind_def split: sum.splits)
          next
            case False
            with s4 v have "\<exists>r'. ?c = (r', st\<lparr>st_method := ms\<rparr>) \<and>
                (\<forall>resp. r' = Inr resp \<longrightarrow> \<not> ir_approved resp \<and> ir_token resp = None)"
              by (cases r) (auto simp: intent_complete_def intent_rejected_def split: bool.splits)
            then show ?thesis using refused by blast
          qed
        qed
      qed
    qed
  qed
qed

text \<open>The handlers keep the invariant.\<close>

lemma intent_prepare_inv: "intent_pending_inv cfg st \<Longrightarrow> intent_pending_inv cfg (snd (intent_prepare cfg now token st request))"
  by (cases rule: intent_prepare_cases [of cfg now token st request])
    (simp_all add: intent_pending_inv_update)

lemma intent_complete_inv:
  "intent_pending_inv cfg st \<Longrightarrow> intent_pending_inv cfg (snd (intent_complete cfg now1 now2 tid nonce st request))"
  by (cases rule: intent_complete_cases [of cfg now1 now2 tid nonce st request])
    (simp_all add: intent_pending_inv_delete)

text \<open>How token verification ends.\<close>

lemma intent_verify_token_cases:
  obtains (rejected) r where "intent_verify_token cfg now av snow st request = (r, st)"
      "\<And>resp. r = Inr resp \<Longrightarrow> \<not> tr_valid resp"
  | (checked) why u us r where
      "verify_intent_token (cfg_crypto cfg) (cfg_env cfg) now (as_dict (dget (payload request) ''token''))
         (str_or (dget (as_dict (dget (payload request) ''expected'')) ''action'') [])
         (as_dict (dget (as_dict (dget (payload request) ''expected'')) ''params''))
         (str_option (dget (as_dict (dget (payload request) ''expected'')) ''agentId''))
         (str_option (dget (as_dict (dget (payload request) ''expected'')) ''userId''))
         (str_option (dget (as_dict (dget (payload request) ''expected'')) ''agentKeyId'')) = Inr (True, why)"
      "consume_token_usage cfg av snow (st_usage st) (as_dict (dget (payload request) ''token'')) = (u, us)"
      "intent_verify_token cfg now av snow st request = (r, st\<lparr>st_usage := us\<rparr>)"
      "\<And>resp. r = Inr resp \<Longrightarrow> tr_valid resp \<longleftrightarrow> (\<exists>usage. u = Inr (Inr usage))"
      "\<And>usage. u = Inr (Inr usage) \<Longrightarrow> \<exists>resp. r = Inr resp"
proof -
  let ?t = "as_dict (dget (payload request) ''token'')" and ?e = "as_dict (dget (payload request) ''expected'')"
  let ?v = "verify_intent_token (cfg_crypto cfg) (cfg_env cfg) now ?t (str_or (dget ?e ''action'') [])
    (as_dict (dget ?e ''params'')) (str_option (dget ?e ''agentId'')) (str_option (dget ?e ''userId''))
    (str_option (dget ?e ''agentKeyId''))"
  let ?g = "intent_verify_token cfg now av snow st request"
  show ?thesis
  proof (cases "\<exists>why. ?v = Inr (True, why)")
    case False
    then have "\<exists>r. ?g = (r, st) \<and> (\<forall>resp. r = Inr resp \<longrightarrow> \<not> tr_valid resp)"
      by (cases ?v) (auto simp: intent_verify_token_def Let_def token_rejected_def split: bool.splits)
    then show ?thesis using rejected by blast
  next
    case True
    then obtain why where v: "?v = Inr (True, why)" by blast
    obtain u us where c: "consume_token_usage cfg av snow (st_usage st) ?t = (u, us)" by fastforce
    have r: "?g = (fst ?g, st\<lparr>st_usage := us\<rparr>) \<and>
        (\<forall>resp. fst ?g = Inr resp \<longrightarrow> tr_valid resp = (\<exists>usage. u = Inr (Inr usage))) \<and>
        (\<forall>usage. u = Inr (Inr usage) \<longrightarrow> (\<exists>resp. fst ?g = Inr resp))"
    proof (cases u)
      case (Inl e)
      with v c show ?thesis by (cases e) (auto simp: intent_verify_token_def Let_def token_rejected_def)
    next
      case (Inr x)
      with v c show ?thesis by (cases x) (auto simp: intent_verify_token_def Let_def token_rejected_def)
    qed
    show ?thesis by (rule checked [OF v c r [THEN conjunct1]]) (use r in simp_all)
  qed
qed

section \<open>What an approval means\<close>

lemma normalize_intent_mandate_keys:
  "normalize_intent_mandate m = Inr n \<Longrightarrow> keys_distinct m \<Longrightarrow> keys_distinct n"
  by (auto simp: normalize_intent_mandate_def Let_def rbind_Inr_iff)

text \<open>A mandate that matches a pending one has its identifier, server, period and scope.\<close>

lemma matches_intent_mandate_of:
  assumes "mandate_matches_pending normalize_intent_mandate sm (intent_mandate_of mid srv subj sc s e ua dt sv us) = Inr True"
    and "normalize_intent_scope (PDict sc) = Inr sc" "wf_val (PDict sm)"
  obtains n sc' vt subj' where "normalize_intent_mandate sm = Inr n" "dget n ''mandateId'' = PStr mid"
    "dget n ''server'' = PStr srv" "dget n ''intent'' = PDict sc'" "py_eq (PDict sc') (PDict sc)"
    "dget n ''validTime'' = PDict vt" "dget vt ''start'' = PStr s" "dget vt ''end'' = PStr e"
    "dget n ''subject'' = PDict subj'" "py_eq (PDict subj') (PDict subj)"
proof -
  let ?p = "intent_mandate_of mid srv subj sc s e ua dt sv []"
  obtain n q where n: "normalize_intent_mandate sm = Inr n"
    and q: "normalize_intent_mandate (intent_mandate_of mid srv subj sc s e ua dt sv us) = Inr q"
    and eq0: "py_eq (PDict (clear_user_signature n)) (PDict (clear_user_signature q))"
    by (rule matches_pending_True [OF assms(1)])
  have "clear_user_signature q = ?p" using q assms(2) by auto
  with eq0 have eq: "py_eq (PDict (clear_user_signature n)) (PDict ?p)" by (simp only:)
  have kd: "keys_distinct (clear_user_signature n)"
    using normalize_intent_mandate_keys [OF n] assms(3) by (simp add: clear_user_signature_def)
  have field: "py_eq (dget n k) (dget ?p k)" if "k \<noteq> ''signatures''" for k
    using py_eq_dget [OF kd eq, of PNone k] clear_user_signature_other [OF that, of n] by (simp add: dget_or_def)
  obtain vt sc' subj' where d: "dget n ''validTime'' = PDict vt" "dget n ''intent'' = PDict sc'" "dget n ''subject'' = PDict subj'"
    using field [of "''validTime''"] field [of "''intent''"] field [of "''subject''"] py_eq_PDict by fastforce
  have "dget sm ''validTime'' = dget n ''validTime''"
    by (rule normalize_intent_mandate_fields [OF n]) (simp add: dget_or_def)
  then have "wf_val (PDict vt)" using d(1) wf_dget [OF assms(3), of PNone "''validTime''"] by simp
  then have kv: "keys_distinct vt" by simp
  have vt: "py_eq (PDict vt) (PDict [(''start'', PStr s), (''end'', PStr e)])"
    using field [of "''validTime''"] d(1) by (simp del: py_eq.simps)
  have "dget vt ''start'' = PStr s" "dget vt ''end'' = PStr e"
    using py_eq_dget [OF kv vt, of PNone "''start''"] py_eq_dget [OF kv vt, of PNone "''end''"] by simp_all
  with n d field [of "''mandateId''"] field [of "''server''"] field [of "''intent''"] field [of "''subject''"]
  show ?thesis by (intro that) (simp_all del: py_eq.simps add: py_eq_str)
qed

lemma intent_context_user: "intent_user_signature_context m u = Inr ctx \<Longrightarrow> sc_user ctx = u"
  by (auto simp: intent_user_signature_context_def rbind_Inr_iff dest: user_signature_context_user)

text \<open>Everything known about a mandate \<open>prepare\<close> creates.\<close>

lemma intent_new_mandate_shape:
  assumes "intent_new_mandate cfg now token req = Inr (user, mid, m)"
  obtains validity start until acts pol dt k sv subj where
    "validity_seconds 3600 (dget req ''validitySeconds'') = Inr validity"
    "utc_text now = Inr start" "utc_text (now + of_int validity) = Inr until"
    "normalize_action_specs (dget (as_dict (dget req ''intent'')) ''actions'') = Inr acts"
    "normalize_execution_policy (dget (as_dict (dget req ''intent'')) ''executionPolicy'') = Inr pol"
    "intent_server_signing_key (cfg_crypto cfg) (cfg_env cfg) = Inr k"
    "cfg_require cfg \<Longrightarrow> method_name (cfg_method cfg) \<noteq> []"
    "user = text_of (dget req ''userId'')" "user \<noteq> []" "mid = strip (''mdt_'' @ token)" "mid \<noteq> []"
    "subj = intent_subject ''agent'' (text_of (dget req ''agentId'')) (dict_option (dget req ''agentPublicKey''))"
    "sv = server_signature intent_key_id (ed25519_sign_text (cfg_crypto cfg)
       (server_payload (intent_core_list (''mdt_'' @ token) (str_or (dget req ''server'') (cfg_server_id cfg)) subj
         (intent_scope_of acts pol) start until (user_authorization (cfg_require cfg) (cfg_method cfg)) dt)) k)"
    "m = intent_mandate_of (''mdt_'' @ token) (str_or (dget req ''server'') (cfg_server_id cfg)) subj
       (intent_scope_of acts pol) start until (user_authorization (cfg_require cfg) (cfg_method cfg)) dt sv []"
proof -
  from assms obtain agent validity where a: "required_text req ''agentId'' = Inr agent" "required_text req ''userId'' = Inr user"
    "validity_seconds 3600 (dget req ''validitySeconds'') = Inr validity"
    and c: "create_intent_mandate cfg now token (str_or (dget req ''server'') (cfg_server_id cfg)) agent
      (dget (as_dict (dget req ''intent'')) ''actions'') (dget (as_dict (dget req ''intent'')) ''executionPolicy'')
      validity ''agent'' (dict_option (dget req ''agentPublicKey'')) = Inr m" and mid: "mandate_identifier m = Inr mid"
    by (auto simp: intent_new_mandate_def Let_def rbind_Inr_iff split: if_splits)
  have u: "agent = text_of (dget req ''agentId'')" "user = text_of (dget req ''userId'')" "user \<noteq> []"
    using a by (auto simp: required_text_def Let_def split: if_splits)
  show ?thesis
    by (rule create_intent_mandate_shape [OF c], rule that)
      (use a u mid in \<open>auto simp: mandate_identifier_def Let_def split: if_splits\<close>)
qed

lemma issue_token_shape:
  assumes "issue_token C env now tid nonce sm user_id = Inr token" "normalize_intent_mandate sm = Inr n"
    and "dget n ''mandateId'' = PStr mid" "dget n ''intent'' = PDict sc" "dget n ''subject'' = PDict subj"
    and "dget n ''validTime'' = PDict vt"
  obtains issued sig where "utc_text now = Inr issued"
    "token = intent_token_of tid (strip mid) (token_subject subj)
       (if strip user_id = [] then ''user:unknown'' else strip user_id) sc issued
       (text_of (dget vt ''end'')) nonce sig (intent_token_key_id (strip mid))"
proof -
  have "normalize_intent_scope (PDict sc) = Inr sc"
    by (rule normalize_intent_mandate_fields [OF assms(2)], rule normalize_intent_scope_idem)
      (use assms(4) in \<open>simp add: dget_or_def\<close>)
  with assms that show ?thesis
    by (auto simp: issue_token_def Let_def rbind_Inr_iff intent_token_of_def split: if_splits)
qed

text \<open>The token of an approval grants what was prepared: same mandate, user, expiry and scope.\<close>

lemma intent_complete_grants:
  assumes inv: "intent_pending_inv cfg st" and wf: "wf_val (PDict request)"
    and ok: "intent_complete cfg now1 now2 tid nonce st request = (Inr resp, st')" "ir_approved resp"
  obtains pend now0 tok user mid m token sc where "map_of (st_intents st) mid = Some pend"
    "intent_new_mandate cfg now0 tok (pi_request pend) = Inr (user, mid, m)"
    "pi_mandate pend = m" "ir_token resp = Some token" "dget token ''mandateId'' = PStr mid"
    "dget token ''user'' = PDict [(''id'', PStr user)]"
    "dget token ''expireAt'' = PStr (text_of (dget (as_dict (dget m ''validTime'')) ''end''))"
    "dget token ''intent'' = PDict sc" "py_eq (PDict sc) (dget m ''intent'')"
    "map_of (st_intents st') mid = None"
proof (cases rule: intent_complete_cases [of cfg now1 now2 tid nonce st request])
  case (refused r ms)
  with ok show ?thesis by simp
next
  case (consumed sm mid pend why ms)
  obtain now0 tok user where new: "intent_new_mandate cfg now0 tok (pi_request pend) = Inr (user, mid, pi_mandate pend)"
    using inv consumed(3) unfolding intent_pending_inv_def by blast
  show ?thesis
  proof (rule intent_new_mandate_shape [OF new])
    fix validity start until acts pol dt k sv subj
    assume s: "normalize_action_specs (dget (as_dict (dget (pi_request pend) ''intent'')) ''actions'') = Inr acts"
      "normalize_execution_policy (dget (as_dict (dget (pi_request pend) ''intent'')) ''executionPolicy'') = Inr pol"
      and u: "user = text_of (dget (pi_request pend) ''userId'')" "user \<noteq> []" and mid: "mid = strip (''mdt_'' @ tok)"
      and m: "pi_mandate pend = intent_mandate_of (''mdt_'' @ tok) (str_or (dget (pi_request pend) ''server'') (cfg_server_id cfg)) subj
       (intent_scope_of acts pol) start until (user_authorization (cfg_require cfg) (cfg_method cfg)) dt sv []"
    have sm: "wf_val (PDict sm)" using wf_dget [OF wf, of PNone "''signedMandate''"] consumed(1) by simp
    have user: "strip (str_or (dget (pi_request pend) ''userId'') ''user:unknown'') = user"
      using u by (cases "truthy (dget (pi_request pend) ''userId'')") (simp_all add: text_of_def str_or_def py_or_def py_str_def)
    obtain token where tok: "issue_token (cfg_crypto cfg) (cfg_env cfg) now2 tid nonce sm
        (str_or (dget (pi_request pend) ''userId'') ''user:unknown'') = Inr token" "ir_token resp = Some token"
      and st': "st' = st\<lparr>st_method := ms, st_intents := AList.delete mid (st_intents st)\<rparr>"
      using ok(1) consumed(6) by (auto simp: rbind_Inr_iff)
    obtain n sc vt subj' where n: "normalize_intent_mandate sm = Inr n" "dget n ''mandateId'' = PStr (''mdt_'' @ tok)"
      "dget n ''intent'' = PDict sc" "dget n ''subject'' = PDict subj'" "dget n ''validTime'' = PDict vt"
      and sc: "py_eq (PDict sc) (PDict (intent_scope_of acts pol))" and e: "dget vt ''end'' = PStr until"
      by (rule matches_intent_mandate_of [OF consumed(4) [unfolded m] intent_scope_of_fixed [OF s] sm])
    obtain issued sig where "token = intent_token_of tid mid (token_subject subj') user sc issued (strip until) nonce sig
        (intent_token_key_id mid)"
      by (rule issue_token_shape [OF tok(1) n]) (use user u(2) e mid in simp)
    then have t: "dget token ''mandateId'' = PStr mid" "dget token ''user'' = PDict [(''id'', PStr user)]"
      "dget token ''expireAt'' = PStr (strip until)" "dget token ''intent'' = PDict sc"
      by (simp_all add: intent_token_of_def)
    show ?thesis
      by (rule that [OF consumed(3) new refl tok(2) t(1,2) _ t(4)])
        (simp_all add: m t(3) sc st' del: py_eq.simps)
  qed
qed

context signature_method
begin

text \<open>
  An approval with a required user signature: the mandate is the pending one, carries the server's
  signature and the endorsement of the user of the request, and is within its period.
\<close>

lemma intent_complete_sound:
  assumes cfg: "cfg_method cfg = Some M" "cfg_require cfg" and inv: "invar (st_method st)"
    and ok: "intent_complete cfg now1 now2 tid nonce st request = (Inr resp, st')" "ir_approved resp"
  obtains sm mid pend n core k s ctx vt a b start until where
    "dget request ''signedMandate'' = PDict sm" "mandate_identifier sm = Inr mid"
    "map_of (st_intents st) mid = Some pend" "normalize_intent_mandate sm = Inr n"
    "mandate_matches_pending normalize_intent_mandate sm (pi_mandate pend) = Inr True"
    "intent_mandate_core_payload n = Inr core" "intent_server_signing_key (cfg_crypto cfg) (cfg_env cfg) = Inr k"
    "dget (signature_of n ''server'') ''signature'' = PStr s"
    "ed25519_verify_text (cfg_crypto cfg) (server_payload core) (strip s) (cr_public (cfg_crypto cfg) k)"
    "intent_user_signature_context n (Some (str_or (dget (pi_request pend) ''userId'') [])) = Inr ctx"
    "endorsed (st_method st) (str_or (dget (pi_request pend) ''userId'') []) (sc_mandate ctx) (signature_of n ''user'')"
    "dget n ''validTime'' = PDict vt"
    "dget vt ''start'' = PStr a" "dget vt ''end'' = PStr b" "parse_utc a = Some start" "parse_utc b = Some until"
    "of_int start \<le> now1" "now1 \<le> of_int until"
    "st_intents st' = AList.delete mid (st_intents st)"
proof (cases rule: intent_complete_cases [of cfg now1 now2 tid nonce st request])
  case (refused r ms)
  with ok show ?thesis by simp
next
  case (consumed sm mid pend why ms)
  let ?u = "str_or (dget (pi_request pend) ''userId'') []"
  show ?thesis
  proof (rule verify_intent_mandate_True [OF consumed(5)])
    fix n core k s ctx why'
    assume v: "normalize_intent_mandate sm = Inr n" "intent_mandate_core_payload n = Inr core"
      "intent_server_signing_key (cfg_crypto cfg) (cfg_env cfg) = Inr k"
      "dget (signature_of n ''server'') ''signature'' = PStr s"
      "ed25519_verify_text (cfg_crypto cfg) (server_payload core) (strip s) (cr_public (cfg_crypto cfg) k)"
      "intent_user_signature_context n (Some ?u) = Inr ctx"
      and sig: "verify_user_signature (cfg_method cfg) (cfg_require cfg) (st_method st) ctx (signature_of n ''user'')
        = (Inr (True, why'), ms)"
      and t: "check_intent_time now1 n (Some (str_or (dget (pi_request pend) ''server'') (cfg_server_id cfg))) = Inr (True, why)"
    have "sc_user ctx = Some ?u" using v(6) intent_context_user by blast
    then have e: "endorsed (st_method st) ?u (sc_mandate ctx) (signature_of n ''user'')"
      using verify_user_signature_endorsed [OF inv, of ctx ?u "signature_of n ''user''" why'] sig cfg by simp
    have st': "st_intents st' = AList.delete mid (st_intents st)" using ok consumed(6) by auto
    show ?thesis
      by (rule check_intent_time_True [OF t]) (rule that [OF consumed(1-3) v(1) consumed(4) v(2-6) e _ _ _ _ _ _ _ st'])
  qed
qed

end

end
