(* ===== verification/OperationMandate.thy ===== *)
theory OperationMandate
  imports AuthCommon
begin

text \<open>
  \<open>operation/mandate.py\<close> and \<open>operation/signing.py\<close>: creation, server signature and verification of
  one-time operation mandates.
\<close>

section \<open>Server key and user-signature context\<close>

abbreviation operation_key_id :: string where
  "operation_key_id \<equiv> ''server#operation-mandate-k1''"

definition operation_server_signing_key :: "('sk, 'pk) crypto \<Rightarrow> environ \<Rightarrow> 'sk res" where
  "operation_server_signing_key C env = ed25519_private_key_from_env C env
     ''OPERATION_SERVER_ED25519_PRIVATE_KEY'' ''a4p-operation-server-ed25519-dev-v1''
     ''operation mandate server Ed25519 signing key''"

definition operation_server_trusted_key :: "('sk, 'pk) crypto \<Rightarrow> environ \<Rightarrow> pdict res" where
  "operation_server_trusted_key C env = rbind (operation_server_signing_key C env) (\<lambda>k.
     Inr [(''alg'', PStr ''EdDSA''), (''keyId'', PStr operation_key_id),
          (''publicKey'', PStr (ed25519_public_key_to_base64url C (cr_public C k)))])"

definition operation_user_signature_context :: "pdict \<Rightarrow> string option \<Rightarrow> sig_context res" where
  "operation_user_signature_context m expected_user =
     rbind (normalize_operation_mandate m) (\<lambda>n. user_signature_context operation_type n expected_user)"

section \<open>Creation\<close>

definition sign_operation_mandate :: "('sk, 'pk) crypto \<Rightarrow> environ \<Rightarrow> pdict \<Rightarrow> pdict res" where
  "sign_operation_mandate C env m =
     rbind (normalize_operation_mandate m) (\<lambda>n.
     rbind (operation_mandate_core_payload n) (\<lambda>core.
     rbind (operation_server_signing_key C env) (\<lambda>k.
       Inr (set_server_signature n
         (server_signature operation_key_id (ed25519_sign_text C (server_payload core) k))))))"

definition operation_subject :: "string \<Rightarrow> pdict option \<Rightarrow> pdict" where
  "operation_subject agent_id key =
     [(''type'', PStr ''agent''), (''id'', PStr (''agent:'' @ agent_id))] @
     (case key of None \<Rightarrow> [] | Some k \<Rightarrow> [(''agentKey'', PDict k)])"

text \<open>The mandate object with its fields in the order the code writes them.\<close>

definition operation_valid_time :: "string \<Rightarrow> string \<Rightarrow> pdict" where
  "operation_valid_time until display =
     [(''until'', PStr until), (''displayUntil'', PStr display), (''timezone'', PStr ''Asia/Shanghai'')]"

definition operation_mandate_of ::
  "string \<Rightarrow> string \<Rightarrow> pdict \<Rightarrow> pdict \<Rightarrow> pdict \<Rightarrow> pdict \<Rightarrow> string \<Rightarrow> pdict \<Rightarrow> pdict \<Rightarrow> pdict" where
  "operation_mandate_of oid server subject op vt ua display sv us =
     [(''type'', PStr operation_type), (''operationId'', PStr oid), (''server'', PStr server),
      (''subject'', PDict subject), (''operation'', PDict op), (''validTime'', PDict vt),
      (''userAuthorization'', PDict ua), (''displayText'', PStr display),
      (''signatures'', PDict [(''server'', PDict sv), (''user'', PDict us)])]"

definition create_operation_mandate ::
  "('sk, 'pk, 'm, 'u) a4p_config \<Rightarrow> rat \<Rightarrow> string \<Rightarrow> pdict \<Rightarrow> string \<Rightarrow> string \<Rightarrow> int \<Rightarrow> pdict option \<Rightarrow> pdict res" where
  "create_operation_mandate cfg now token operation server agent_id validity agent_key =
     (if cfg_require cfg \<and> method_name (cfg_method cfg) = []
      then Inl (ValueError ''userSignatureMethod missing'')
      else rbind (utc_text (now + of_int validity)) (\<lambda>until.
        rbind (normalize_operation operation) (\<lambda>op.
        rbind (cfg_beijing cfg until) (\<lambda>local.
        rbind (render_display ''Operation'' (cfg_operation_renderer cfg)
          (operation_mandate_of (''op_'' @ token) server (operation_subject agent_id agent_key) op
            (operation_valid_time until local) (user_authorization (cfg_require cfg) (cfg_method cfg))
            (cfg_operation_display cfg op until) (server_signature operation_key_id []) []))
          (sign_operation_mandate (cfg_crypto cfg) (cfg_env cfg))))))"

section \<open>Verification\<close>

definition check_operation_time :: "rat \<Rightarrow> pdict \<Rightarrow> (bool \<times> string) res" where
  "check_operation_time now n =
     (case dget_or n ''validTime'' (PDict []) of
        PDict vt \<Rightarrow>
          (let u = dget vt ''until'' in
           if \<not> truthy u then Inr (False, ''Mandate has no validTime'')
           else case strptime_utc u of
             Inl exc \<Rightarrow> if is_value_error exc then Inr (False, ''Mandate validTime format invalid'') else Inl exc
           | Inr until \<Rightarrow>
               if now > of_int until
               then Inr (False, ''Mandate has expired (expired at '' @ py_str u @ '')'')
               else Inr (True, []))
      | _ \<Rightarrow> Inl (AttributeError ''object has no attribute get''))"

definition verify_operation_mandate_for_completion ::
  "('sk, 'pk) crypto \<Rightarrow> environ \<Rightarrow> 'm sig_method option \<Rightarrow> bool \<Rightarrow> rat \<Rightarrow> 'm \<Rightarrow> pdict \<Rightarrow> pdict \<Rightarrow>
   string option \<Rightarrow> (bool \<times> string) res \<times> 'm" where
  "verify_operation_mandate_for_completion C env M required now st m expected expected_user =
     (if \<not> py_eq (dget m ''type'') (PStr operation_type) then (Inr (False, ''Invalid mandate type''), st)
      else case normalize_operation_mandate m of
        Inl e \<Rightarrow> (invalid_reason e, st)
      | Inr n \<Rightarrow>
      (case normalize_operation expected of
        Inl e \<Rightarrow> (invalid_reason e, st)
      | Inr ex \<Rightarrow>
          (let op = as_dict (dget n ''operation'') in
           if \<not> py_eq (dget op ''action'') (dget ex ''action'') then (Inr (False, ''Operation action mismatch''), st)
           else if \<not> py_eq (dget op ''params'') (dget ex ''params'') then (Inr (False, ''Operation params mismatch''), st)
           else case check_server_signature C (operation_server_signing_key C env) (operation_mandate_core_payload n)
                  (signature_of n ''server'') of
             Inl e \<Rightarrow> (Inl e, st)
           | Inr (Some why) \<Rightarrow> (Inr (False, why), st)
           | Inr None \<Rightarrow>
               (case operation_user_signature_context n expected_user of
                  Inl e \<Rightarrow> (invalid_reason e, st)
                | Inr ctx \<Rightarrow>
                    (case verify_user_signature M required st ctx (signature_of n ''user'') of
                       (Inr (True, _), st1) \<Rightarrow> (check_operation_time now n, st1)
                     | (r, st1) \<Rightarrow> (r, st1))))))"

section \<open>Shape of created mandates\<close>

lemma operation_mandate_of_fields [simp]:
  "dget_or (operation_mandate_of oid srv subj op vt ua dt sv us) ''type'' d = PStr operation_type"
  "dget_or (operation_mandate_of oid srv subj op vt ua dt sv us) ''operationId'' d = PStr oid"
  "dget_or (operation_mandate_of oid srv subj op vt ua dt sv us) ''server'' d = PStr srv"
  "dget_or (operation_mandate_of oid srv subj op vt ua dt sv us) ''subject'' d = PDict subj"
  "dget_or (operation_mandate_of oid srv subj op vt ua dt sv us) ''operation'' d = PDict op"
  "dget_or (operation_mandate_of oid srv subj op vt ua dt sv us) ''validTime'' d = PDict vt"
  "dget_or (operation_mandate_of oid srv subj op vt ua dt sv us) ''userAuthorization'' d = PDict ua"
  "dget_or (operation_mandate_of oid srv subj op vt ua dt sv us) ''displayText'' d = PStr dt"
  "dget_or (operation_mandate_of oid srv subj op vt ua dt sv us) ''signatures'' d
     = PDict [(''server'', PDict sv), (''user'', PDict us)]"
  by (simp_all add: operation_mandate_of_def)

lemma operation_mandate_of_ops [simp]:
  "attach_user_signature (operation_mandate_of oid srv subj op vt ua dt sv us) sig
   = operation_mandate_of oid srv subj op vt ua dt sv sig"
  "clear_user_signature (operation_mandate_of oid srv subj op vt ua dt sv us)
   = operation_mandate_of oid srv subj op vt ua dt sv []"
  "set_server_signature (operation_mandate_of oid srv subj op vt ua dt sv us) sv'
   = operation_mandate_of oid srv subj op vt ua dt sv' us"
  "signature_of (operation_mandate_of oid srv subj op vt ua dt sv us) ''server'' = sv"
  "signature_of (operation_mandate_of oid srv subj op vt ua dt sv us) ''user'' = us"
  "AList.update ''displayText'' (PStr t) (operation_mandate_of oid srv subj op vt ua dt sv us)
   = operation_mandate_of oid srv subj op vt ua t sv us"
  by (simp_all add: operation_mandate_of_def attach_user_signature_def clear_user_signature_def
      set_server_signature_def signature_of_def)

lemma normalize_operation_mandate_of [simp]:
  "normalize_operation op = Inr op \<Longrightarrow>
   normalize_operation_mandate (operation_mandate_of oid srv subj op vt ua dt sv us)
   = Inr (operation_mandate_of oid srv subj op vt ua dt sv us)"
  by (rule normalize_operation_mandate_fixed [of _ op sv us ua]) (simp_all add: operation_mandate_of_def)

definition operation_core_list ::
  "string \<Rightarrow> string \<Rightarrow> pdict \<Rightarrow> pdict \<Rightarrow> pdict \<Rightarrow> pdict \<Rightarrow> string \<Rightarrow> pdict" where
  "operation_core_list oid server subject op vt ua display =
     [(''type'', PStr operation_type), (''operationId'', PStr oid), (''server'', PStr server),
      (''subject'', PDict subject), (''operation'', PDict op), (''validTime'', PDict vt),
      (''userAuthorization'', PDict ua), (''displayText'', PStr display)]"

lemma operation_core_payload_of [simp]:
  "normalize_operation op = Inr op \<Longrightarrow>
   operation_mandate_core_payload (operation_mandate_of oid srv subj op vt ua dt sv us)
   = Inr (operation_core_list oid srv subj op vt ua dt)"
  by (simp add: operation_mandate_core_payload_def operation_core_of_def operation_core_list_def)

lemma create_operation_mandate_shape:
  assumes "create_operation_mandate cfg now token operation server agent_id validity key = Inr m"
  obtains until op local dt k where
    "utc_text (now + of_int validity) = Inr until" "normalize_operation operation = Inr op"
    "cfg_beijing cfg until = Inr local"
    "operation_server_signing_key (cfg_crypto cfg) (cfg_env cfg) = Inr k"
    "cfg_require cfg \<Longrightarrow> method_name (cfg_method cfg) \<noteq> []"
    "m = operation_mandate_of (''op_'' @ token) server (operation_subject agent_id key) op
       (operation_valid_time until local) (user_authorization (cfg_require cfg) (cfg_method cfg)) dt
       (server_signature operation_key_id (ed25519_sign_text (cfg_crypto cfg)
         (server_payload (operation_core_list (''op_'' @ token) server (operation_subject agent_id key) op
           (operation_valid_time until local) (user_authorization (cfg_require cfg) (cfg_method cfg)) dt)) k)) []"
proof -
  let ?m = "\<lambda>op until local d. operation_mandate_of (''op_'' @ token) server (operation_subject agent_id key) op
    (operation_valid_time until local) (user_authorization (cfg_require cfg) (cfg_method cfg)) d
    (server_signature operation_key_id []) []"
  from assms obtain until op local m0 where c:
    "utc_text (now + of_int validity) = Inr until" "normalize_operation operation = Inr op"
    "cfg_beijing cfg until = Inr local" "cfg_require cfg \<Longrightarrow> method_name (cfg_method cfg) \<noteq> []"
    and r: "render_display ''Operation'' (cfg_operation_renderer cfg)
          (?m op until local (cfg_operation_display cfg op until)) = Inr m0"
    and sg: "sign_operation_mandate (cfg_crypto cfg) (cfg_env cfg) m0 = Inr m"
    by (auto simp: create_operation_mandate_def rbind_Inr_iff split: if_splits)
  obtain dt where m0: "m0 = ?m op until local dt"
    using render_display_Inr [OF r] by auto
  from sg m0 normalize_operation_idem [OF c(2)] c that show ?thesis
    by (auto simp: sign_operation_mandate_def rbind_Inr_iff)
qed

section \<open>Verification: soundness and completeness\<close>

lemma check_operation_time_True:
  assumes "check_operation_time now n = Inr (True, why)"
  obtains vt u until where "dget n ''validTime'' = PDict vt" "dget vt ''until'' = PStr u"
    "parse_utc u = Some until" "now \<le> of_int until"
proof -
  from assms obtain vt where vt: "dget_or n ''validTime'' (PDict []) = PDict vt"
    by (cases "dget_or n ''validTime'' (PDict [])") (auto simp: check_operation_time_def)
  with assms have t: "truthy (dget vt ''until'')"
    by (auto simp: check_operation_time_def Let_def split: if_splits)
  then have "dget n ''validTime'' = PDict vt"
    using vt by (auto simp: dget_or_def split: option.splits)
  with assms vt t that show ?thesis
    by (cases "dget vt ''until''")
      (auto simp: check_operation_time_def Let_def split: if_splits option.splits)
qed

lemma verify_operation_mandate_True:
  assumes "verify_operation_mandate_for_completion C env M required now st m expected expected_user
    = (Inr (True, why), st')"
  obtains n ex core k s ctx why' where "dget m ''type'' = PStr operation_type" "normalize_operation_mandate m = Inr n"
    "normalize_operation expected = Inr ex"
    "py_eq (dget (as_dict (dget n ''operation'')) ''action'') (dget ex ''action'')"
    "py_eq (dget (as_dict (dget n ''operation'')) ''params'') (dget ex ''params'')"
    "operation_mandate_core_payload n = Inr core" "operation_server_signing_key C env = Inr k"
    "dget (signature_of n ''server'') ''signature'' = PStr s"
    "ed25519_verify_text C (server_payload core) (strip s) (cr_public C k)"
    "operation_user_signature_context n expected_user = Inr ctx"
    "verify_user_signature M required st ctx (signature_of n ''user'') = (Inr (True, why'), st')"
    "check_operation_time now n = Inr (True, why)"
proof -
  note d = verify_operation_mandate_for_completion_def
  from assms have type: "dget m ''type'' = PStr operation_type" by (auto simp: d split: if_splits)
  from assms type obtain n where n: "normalize_operation_mandate m = Inr n"
    by (cases "normalize_operation_mandate m") (auto simp: d invalid_reason_def split: if_splits)
  from assms type n obtain ex where ex: "normalize_operation expected = Inr ex"
    by (cases "normalize_operation expected") (auto simp: d invalid_reason_def split: if_splits)
  from assms type n ex have op: "py_eq (dget (as_dict (dget n ''operation'')) ''action'') (dget ex ''action'')"
    "py_eq (dget (as_dict (dget n ''operation'')) ''params'') (dget ex ''params'')"
    by (auto simp: d Let_def split: if_splits)
  let ?chk = "check_server_signature C (operation_server_signing_key C env) (operation_mandate_core_payload n)
    (signature_of n ''server'')"
  from assms type n ex op have chk: "?chk = Inr None"
    by (cases ?chk) (auto simp: d Let_def split: option.splits)
  from assms type n ex op chk obtain ctx where ctx: "operation_user_signature_context n expected_user = Inr ctx"
    by (cases "operation_user_signature_context n expected_user")
      (auto simp: d Let_def invalid_reason_def split: if_splits)
  from assms type n ex op chk ctx obtain why' where
    "verify_user_signature M required st ctx (signature_of n ''user'') = (Inr (True, why'), st')"
    "check_operation_time now n = Inr (True, why)"
    by (auto simp: d Let_def split: prod.splits sum.splits bool.splits)
  with type n ex op ctx that check_server_signature_ok [OF chk] show ?thesis by metis
qed

text \<open>The context of a created mandate does not depend on its user signature.\<close>

definition operation_signed_list :: "pdict \<Rightarrow> pdict \<Rightarrow> pdict" where
  "operation_signed_list core sv = core @ [(''signatures'', PDict [(''server'', PDict sv)])]"

lemma operation_context_of:
  assumes "normalize_operation op = Inr op" "dget ua ''required'' = PBool req"
    and "req \<Longrightarrow> text_of (dget ua ''signatureMethod'') \<noteq> []"
  shows "operation_user_signature_context (operation_mandate_of oid srv subj op vt ua dt sv us) u
    = Inr \<lparr>sc_type = operation_type, sc_mandate = operation_signed_list (operation_core_list oid srv subj op vt ua dt) sv,
        sc_method = text_of (dget ua ''signatureMethod''), sc_user = u\<rparr>"
  using assms
  by (simp add: operation_user_signature_context_def user_signature_context_def Let_def mandate_core_payload_def
      server_signed_mandate_without_user_signature_def operation_signed_list_def)

lemma operation_payload_of:
  assumes "normalize_operation op = Inr op"
  shows "canonical_user_authorization_payload (operation_signed_list (operation_core_list oid srv subj op vt ua dt) sv)
    = Inr (user_payload (operation_signed_list (operation_core_list oid srv subj op vt ua dt) sv))"
proof -
  let ?m = "operation_signed_list (operation_core_list oid srv subj op vt ua dt) sv"
  have "normalize_operation_mandate ?m = Inr (operation_mandate_of oid srv subj op vt ua dt sv [])"
    using assms
    by (simp add: normalize_operation_mandate_def operation_signed_list_def operation_core_list_def
        normalize_signatures_def py_or_def operation_mandate_of_def)
  moreover have "dget ?m ''type'' = PStr operation_type" "dget (as_dict (dget ?m ''signatures'')) ''server'' = PDict sv"
    by (simp_all add: operation_signed_list_def operation_core_list_def)
  ultimately show ?thesis
    by (simp add: canonical_user_authorization_payload_def server_signed_mandate_without_user_signature_def
        mandate_core_payload_def operation_mandate_core_payload_def operation_core_of_def)
      (simp add: operation_signed_list_def operation_core_list_def)
qed

lemma verify_operation_mandate_of:
  assumes "ed25519_laws C" "normalize_operation op = Inr op" "wf_val (PDict op)" "operation_server_signing_key C env = Inr k"
    and "sv = server_signature kid (ed25519_sign_text C (server_payload (operation_core_list oid srv subj op vt ua dt)) k)"
    and "operation_user_signature_context (operation_mandate_of oid srv subj op vt ua dt sv us) u = Inr ctx"
    and "verify_user_signature M req st ctx us = (Inr (True, why), st')"
    and "dget vt ''until'' = PStr e" "parse_utc e = Some b" "now \<le> of_int b"
  shows "verify_operation_mandate_for_completion C env M req now st
    (operation_mandate_of oid srv subj op vt ua dt sv us) op u = (Inr (True, []), st')"
proof -
  have "e \<noteq> []" using assms(9) parse_utc_Nil by auto
  then have t: "check_operation_time now (operation_mandate_of oid srv subj op vt ua dt sv us) = Inr (True, [])"
    using assms by (simp add: check_operation_time_def)
  have "py_eq (dget op k') (dget op k')" for k'
    using wf_dget [OF assms(3), of PNone k'] by (intro py_eq_refl) simp
  with t show ?thesis
    using assms by (simp add: verify_operation_mandate_for_completion_def check_server_signature_own)
qed


end
