(* ===== verification/OperationService.thy ===== *)
theory OperationService
  imports OperationMandate
begin

text \<open>
  \<open>operation/service.py\<close>: one-time operation authorization. Every handler first drops the pending
  entries whose period has ended.
\<close>

section \<open>Expiry of pending entries\<close>

definition prune_expired :: "rat \<Rightarrow> ('m, 'u) a4p_state \<Rightarrow> ('m, 'u) a4p_state" where
  "prune_expired now st = st\<lparr>st_operations := filter (\<lambda>(oid, p). \<not> po_expire p \<le> \<lfloor>now\<rfloor>) (st_operations st)\<rparr>"

definition service_normalize_operation :: "pyval \<Rightarrow> pdict res" where
  "service_normalize_operation v =
     (case v of PDict d \<Rightarrow> normalize_operation d | _ \<Rightarrow> Inl (ValueError ''Operation must be an object''))"

section \<open>Prepare\<close>

definition challenge_rejected :: "exc \<Rightarrow> string \<Rightarrow> operation_challenge" where
  "challenge_rejected e code = \<lparr>oc_mandate = None, oc_options = [],
     oc_result = Some (vr_fail (exc_msg e) code), oc_reason = Some (exc_msg e)\<rparr>"

definition operation_prepare_error :: "exc \<Rightarrow> operation_challenge res" where
  "operation_prepare_error e =
     (case e of
        UserCredentialNotRegistered _ _ \<Rightarrow> Inr (challenge_rejected e ''USER_CREDENTIAL_NOT_REGISTERED'')
      | _ \<Rightarrow> if is_value_error e then Inr (challenge_rejected e ''MANDATE_INVALID'') else Inl e)"

text \<open>The \<open>try\<close> block up to the new mandate: the user, the operation, the identifier and the mandate.\<close>

definition operation_new_mandate ::
  "('sk, 'pk, 'm, 'u) a4p_config \<Rightarrow> rat \<Rightarrow> string \<Rightarrow> pdict \<Rightarrow> (string \<times> pdict \<times> string \<times> pdict) res" where
  "operation_new_mandate cfg now token req =
     rbind (required_text req ''agentId'') (\<lambda>agent_id.
     rbind (required_text req ''userId'') (\<lambda>user_id.
     rbind (validity_seconds 300 (dget req ''validitySeconds'')) (\<lambda>validity.
     rbind (service_normalize_operation (dget req ''operation'')) (\<lambda>op.
     rbind (create_operation_mandate cfg now token op (str_or (dget req ''server'') (cfg_server_id cfg)) agent_id
              validity (dict_option (dget req ''agentPublicKey''))) (\<lambda>m.
     rbind (mandate_identifier m) (\<lambda>oid. Inr (user_id, op, oid, m)))))))"

definition mandate_until :: "pdict \<Rightarrow> pyval" where
  "mandate_until m = dget (as_dict (dget m ''validTime'')) ''until''"

text \<open>
  \<open>now0\<close> is the reading of \<open>_prune_expired\<close>, \<open>now1\<close> that of the creation. The expiry of the new entry is
  computed after the \<open>try\<close> block.
\<close>

definition operation_prepare ::
  "('sk, 'pk, 'm, 'u) a4p_config \<Rightarrow> rat \<Rightarrow> rat \<Rightarrow> string \<Rightarrow> ('m, 'u) a4p_state \<Rightarrow> pyval \<Rightarrow>
   operation_challenge res \<times> ('m, 'u) a4p_state" where
  "operation_prepare cfg now0 now1 token st0 request =
     (let req = payload request; st = prune_expired now0 st0 in
      case operation_new_mandate cfg now1 token req of
        Inl e \<Rightarrow> (operation_prepare_error e, st)
      | Inr (user_id, op, oid, m) \<Rightarrow>
          (case signing_options (cfg_require cfg) (cfg_method cfg) (st_method st) user_id m of
             (Inl e, ms) \<Rightarrow> (operation_prepare_error e, st\<lparr>st_method := ms\<rparr>)
           | (Inr opts, ms) \<Rightarrow>
               (case strptime_utc (mandate_until m) of
                  Inl e \<Rightarrow> (Inl e, st\<lparr>st_method := ms\<rparr>)
                | Inr expire \<Rightarrow>
                    (Inr \<lparr>oc_mandate = Some m, oc_options = opts, oc_result = None, oc_reason = None\<rparr>,
                     st\<lparr>st_method := ms,
                        st_operations := AList.update oid
                          \<lparr>po_request = req, po_operation = op, po_mandate = m, po_expire = expire\<rparr>
                          (st_operations st)\<rparr>))))"

section \<open>Complete\<close>

definition operation_rejected :: "string \<Rightarrow> string \<Rightarrow> operation_result" where
  "operation_rejected reason code = \<lparr>or_operation = None, or_approved = False,
     or_result = Some (vr_fail reason code), or_reason = Some reason\<rparr>"

definition operation_error :: "exc \<Rightarrow> string \<Rightarrow> operation_result res" where
  "operation_error e code = (if is_value_error e then Inr (operation_rejected (exc_msg e) code) else Inl e)"

text \<open>The part of \<open>complete\<close> after the pending entry \<open>pend\<close> of \<open>oid\<close> has been found.\<close>

definition complete_pending ::
  "('sk, 'pk, 'm, 'u) a4p_config \<Rightarrow> rat \<Rightarrow> ('m, 'u) a4p_state \<Rightarrow> pdict \<Rightarrow> pdict \<Rightarrow> string \<Rightarrow> pending_operation \<Rightarrow>
   operation_result res \<times> ('m, 'u) a4p_state" where
  "complete_pending cfg now st req sm oid pend =
     (case service_normalize_operation (dget req ''operation'') of
        Inl e \<Rightarrow> (operation_error e ''OPERATION_INVALID'', st)
      | Inr current \<Rightarrow>
          if \<not> py_eq (PDict current) (PDict (po_operation pend))
          then (Inr (operation_rejected ''Current operation does not match pending operation authorization''
                  ''OPERATION_PENDING_MISMATCH''), st)
          else
     (case mandate_matches_pending normalize_operation_mandate sm (po_mandate pend) of
        Inl e \<Rightarrow> (Inl e, st)
      | Inr False \<Rightarrow> (Inr (operation_rejected ''Signed mandate does not match pending operation authorization''
                         ''MANDATE_PENDING_MISMATCH''), st)
      | Inr True \<Rightarrow>
     (case service_normalize_operation (dget sm ''operation'') of
        Inl e \<Rightarrow> (operation_error e ''MANDATE_INVALID'', st)
      | Inr signed_op \<Rightarrow>
          if \<not> py_eq (PDict signed_op) (PDict current)
          then (Inr (operation_rejected ''Signed mandate operation does not match current operation''
                  ''OPERATION_MANDATE_MISMATCH''), st)
          else
     (case verify_operation_mandate_for_completion (cfg_crypto cfg) (cfg_env cfg) (cfg_method cfg) (cfg_require cfg)
             now (st_method st) sm current (Some (str_or (dget (po_request pend) ''userId'') [])) of
        (Inl e, ms) \<Rightarrow> (Inl e, st\<lparr>st_method := ms\<rparr>)
      | (Inr (False, reason), ms) \<Rightarrow>
          (Inr (operation_rejected reason (error_code reason ''MANDATE'')), st\<lparr>st_method := ms\<rparr>)
      | (Inr (True, _), ms) \<Rightarrow>
          (Inr \<lparr>or_operation = Some oid, or_approved = True, or_result = Some (vr_ok None), or_reason = None\<rparr>,
           st\<lparr>st_method := ms, st_operations := AList.delete oid (st_operations st)\<rparr>)))))"

definition operation_complete ::
  "('sk, 'pk, 'm, 'u) a4p_config \<Rightarrow> rat \<Rightarrow> rat \<Rightarrow> ('m, 'u) a4p_state \<Rightarrow> pyval \<Rightarrow>
   operation_result res \<times> ('m, 'u) a4p_state" where
  "operation_complete cfg now0 now1 st0 request =
     (let st = prune_expired now0 st0; req = payload request in
      case dict_option (dget req ''signedMandate'') of
        None \<Rightarrow> (Inr (operation_rejected ''signedMandate missing'' ''MANDATE_INVALID''), st)
      | Some sm \<Rightarrow>
     (case mandate_identifier sm of
        Inl e \<Rightarrow> (operation_error e ''MANDATE_INVALID'', st)
      | Inr oid \<Rightarrow>
     (case map_of (st_operations st) oid of
        None \<Rightarrow> (Inr \<lparr>or_operation = None, or_approved = False,
                   or_result = Some (vr_fail ''No pending operation authorization'' ''AUTHORIZATION_NOT_PENDING''),
                   or_reason = Some (''No pending operation authorization: '' @ oid)\<rparr>, st)
      | Some pend \<Rightarrow> complete_pending cfg now1 st req sm oid pend)))"

section \<open>Pending operations\<close>

definition operation_pending_inv :: "('sk, 'pk, 'm, 'u) a4p_config \<Rightarrow> ('m, 'u) a4p_state \<Rightarrow> bool" where
  "operation_pending_inv cfg st \<longleftrightarrow> keys_distinct (st_operations st) \<and>
     (\<forall>oid p. map_of (st_operations st) oid = Some p \<longrightarrow>
        (\<exists>now token user. operation_new_mandate cfg now token (po_request p) = Inr (user, po_operation p, oid, po_mandate p)
           \<and> strptime_utc (mandate_until (po_mandate p)) = Inr (po_expire p)))"

lemma map_of_prune:
  "keys_distinct (st_operations st) \<Longrightarrow> map_of (st_operations (prune_expired now st)) oid =
     (case map_of (st_operations st) oid of
        None \<Rightarrow> None | Some p \<Rightarrow> if po_expire p \<le> \<lfloor>now\<rfloor> then None else Some p)"
  by (auto simp: prune_expired_def map_of_filter_distinct split: option.splits)

lemma prune_frame [simp]:
  "st_method (prune_expired now st) = st_method st" "st_usage (prune_expired now st) = st_usage st"
  "st_intents (prune_expired now st) = st_intents st"
  by (simp_all add: prune_expired_def)

lemma operation_pending_invD:
  assumes "operation_pending_inv cfg st" "map_of (st_operations st) oid = Some p"
  shows "\<exists>now token user. operation_new_mandate cfg now token (po_request p) = Inr (user, po_operation p, oid, po_mandate p)
    \<and> strptime_utc (mandate_until (po_mandate p)) = Inr (po_expire p)"
  using assms unfolding operation_pending_inv_def by blast

lemma operation_pending_inv_prune:
  assumes "operation_pending_inv cfg st"
  shows "operation_pending_inv cfg (prune_expired now st)"
proof -
  have kd: "keys_distinct (st_operations st)" using assms by (simp add: operation_pending_inv_def)
  have "map_of (st_operations st) oid = Some p" if "map_of (st_operations (prune_expired now st)) oid = Some p" for oid p
    using that map_of_prune [OF kd] by (auto split: option.splits if_splits)
  moreover have "keys_distinct (st_operations (prune_expired now st))" using kd by (simp add: prune_expired_def)
  ultimately show ?thesis using operation_pending_invD [OF assms] unfolding operation_pending_inv_def by blast
qed

lemma operation_pending_inv_update:
  "operation_pending_inv cfg st \<Longrightarrow> operation_new_mandate cfg now token req = Inr (user, op, oid, m) \<Longrightarrow>
   strptime_utc (mandate_until m) = Inr ex \<Longrightarrow>
   operation_pending_inv cfg (st\<lparr>st_method := ms, st_operations := AList.update oid
     \<lparr>po_request = req, po_operation = op, po_mandate = m, po_expire = ex\<rparr> (st_operations st)\<rparr>)"
  by (auto simp: operation_pending_inv_def)

lemma operation_pending_inv_delete:
  "operation_pending_inv cfg st \<Longrightarrow>
   operation_pending_inv cfg (st\<lparr>st_method := ms, st_operations := AList.delete oid (st_operations st)\<rparr>)"
  by (auto simp: operation_pending_inv_def)

lemma operation_pending_inv_frame [simp]:
  "operation_pending_inv cfg (st\<lparr>st_method := ms\<rparr>) = operation_pending_inv cfg st"
  "operation_pending_inv cfg (st\<lparr>st_usage := us\<rparr>) = operation_pending_inv cfg st"
  by (simp_all add: operation_pending_inv_def)

lemma operation_prepare_cases:
  obtains (failed) r ms where
      "operation_prepare cfg now0 now1 token st request = (r, (prune_expired now0 st)\<lparr>st_method := ms\<rparr>)"
      "\<And>ch. r = Inr ch \<Longrightarrow> oc_mandate ch = None"
  | (prepared) user op oid m opts ms ex where
      "operation_new_mandate cfg now1 token (payload request) = Inr (user, op, oid, m)"
      "signing_options (cfg_require cfg) (cfg_method cfg) (st_method st) user m = (Inr opts, ms)"
      "strptime_utc (mandate_until m) = Inr ex"
      "operation_prepare cfg now0 now1 token st request =
         (Inr \<lparr>oc_mandate = Some m, oc_options = opts, oc_result = None, oc_reason = None\<rparr>,
          (prune_expired now0 st)\<lparr>st_method := ms, st_operations := AList.update oid
             \<lparr>po_request = payload request, po_operation = op, po_mandate = m, po_expire = ex\<rparr>
             (st_operations (prune_expired now0 st))\<rparr>)"
proof -
  let ?g = "operation_prepare cfg now0 now1 token st request" and ?st = "prune_expired now0 st"
  have err: "oc_mandate ch = None" if "operation_prepare_error e = Inr ch" for e ch
    using that by (auto simp: operation_prepare_error_def challenge_rejected_def split: exc.splits if_splits)
  show ?thesis
  proof (cases "operation_new_mandate cfg now1 token (payload request)")
    case (Inl e)
    then have "?g = (operation_prepare_error e, ?st\<lparr>st_method := st_method ?st\<rparr>)"
      by (simp add: operation_prepare_def Let_def)
    then show ?thesis by (rule failed) (rule err)
  next
    case (Inr q)
    obtain user op oid m where q: "q = (user, op, oid, m)" by (cases q)
    obtain o' ms where o: "signing_options (cfg_require cfg) (cfg_method cfg) (st_method st) user m = (o', ms)"
      by fastforce
    show ?thesis
    proof (cases o')
      case (Inl e)
      with Inr q o have "?g = (operation_prepare_error e, ?st\<lparr>st_method := ms\<rparr>)"
        by (simp add: operation_prepare_def Let_def)
      then show ?thesis by (rule failed) (rule err)
    next
      case opts: (Inr opts)
      show ?thesis
      proof (cases "strptime_utc (mandate_until m)")
        case (Inl e)
        with Inr q o opts have "?g = (Inl e, ?st\<lparr>st_method := ms\<rparr>)"
          by (simp add: operation_prepare_def Let_def)
        then show ?thesis by (rule failed) simp
      next
        case ex: (Inr ex)
        show ?thesis
          by (rule prepared [OF Inr [unfolded q] o [unfolded opts] ex])
            (use Inr q o opts ex in \<open>simp add: operation_prepare_def Let_def\<close>)
      qed
    qed
  qed
qed

text \<open>How \<open>complete\<close> ends: the entry is consumed exactly when the operation is approved.\<close>

lemma complete_pending_cases:
  obtains (refused) r ms where "complete_pending cfg now st req sm oid p = (r, st\<lparr>st_method := ms\<rparr>)"
      "\<And>res. r = Inr res \<Longrightarrow> \<not> or_approved res"
  | (consumed) current sop why ms where
      "service_normalize_operation (dget req ''operation'') = Inr current"
      "py_eq (PDict current) (PDict (po_operation p))"
      "mandate_matches_pending normalize_operation_mandate sm (po_mandate p) = Inr True"
      "service_normalize_operation (dget sm ''operation'') = Inr sop" "py_eq (PDict sop) (PDict current)"
      "verify_operation_mandate_for_completion (cfg_crypto cfg) (cfg_env cfg) (cfg_method cfg) (cfg_require cfg)
         now (st_method st) sm current (Some (str_or (dget (po_request p) ''userId'') [])) = (Inr (True, why), ms)"
      "complete_pending cfg now st req sm oid p =
         (Inr \<lparr>or_operation = Some oid, or_approved = True, or_result = Some (vr_ok None), or_reason = None\<rparr>,
          st\<lparr>st_method := ms, st_operations := AList.delete oid (st_operations st)\<rparr>)"
proof -
  let ?g = "complete_pending cfg now st req sm oid p"
  let ?m = "mandate_matches_pending normalize_operation_mandate sm (po_mandate p)"
  note d = complete_pending_def operation_error_def operation_rejected_def
  have stay: thesis if "\<exists>r ms. ?g = (r, st\<lparr>st_method := ms\<rparr>) \<and> (\<forall>res. r = Inr res \<longrightarrow> \<not> or_approved res)"
    using that refused by blast
  have stay0: thesis if "\<exists>r. ?g = (r, st) \<and> (\<forall>res. r = Inr res \<longrightarrow> \<not> or_approved res)"
    using that refused [of _ "st_method st"] by auto
  show ?thesis
  proof (cases "service_normalize_operation (dget req ''operation'')")
    case (Inl e)
    then show ?thesis by (intro stay0) (auto simp: d)
  next
    case (Inr current)
    note s1 = Inr
    show ?thesis
    proof (cases "py_eq (PDict current) (PDict (po_operation p)) \<and> ?m = Inr True")
      case False
      with s1 show ?thesis
        by (intro stay0, cases ?m) (auto simp: d simp del: py_eq.simps split: bool.splits)
    next
      case True
      note s2 = s1 True [THEN conjunct1] True [THEN conjunct2]
      show ?thesis
      proof (cases "\<exists>sop. service_normalize_operation (dget sm ''operation'') = Inr sop \<and> py_eq (PDict sop) (PDict current)")
        case False
        with s2 show ?thesis
          by (intro stay0, cases "service_normalize_operation (dget sm ''operation'')")
            (auto simp: d simp del: py_eq.simps)
      next
        case True
        then obtain sop where sop: "service_normalize_operation (dget sm ''operation'') = Inr sop" "py_eq (PDict sop) (PDict current)"
          by blast
        obtain r ms where v: "verify_operation_mandate_for_completion (cfg_crypto cfg) (cfg_env cfg) (cfg_method cfg)
            (cfg_require cfg) now (st_method st) sm current (Some (str_or (dget (po_request p) ''userId'') [])) = (r, ms)"
          by fastforce
        show ?thesis
        proof (cases "\<exists>why. r = Inr (True, why)")
          case True
          then obtain why where "r = Inr (True, why)" by blast
          with s2 sop v show ?thesis
            by (intro consumed [of current sop why ms]) (simp_all add: d del: py_eq.simps)
        next
          case False
          with s2 sop v show ?thesis
            by (intro stay, cases r) (auto simp: d simp del: py_eq.simps split: bool.splits)
        qed
      qed
    qed
  qed
qed

lemma operation_complete_cases:
  obtains (refused) r ms where
      "operation_complete cfg now0 now1 st request = (r, (prune_expired now0 st)\<lparr>st_method := ms\<rparr>)"
      "\<And>res. r = Inr res \<Longrightarrow> \<not> or_approved res"
  | (found) sm oid p where
      "dget (payload request) ''signedMandate'' = PDict sm" "mandate_identifier sm = Inr oid"
      "map_of (st_operations (prune_expired now0 st)) oid = Some p"
      "operation_complete cfg now0 now1 st request
       = complete_pending cfg now1 (prune_expired now0 st) (payload request) sm oid p"
proof -
  let ?g = "operation_complete cfg now0 now1 st request" and ?st = "prune_expired now0 st" and ?req = "payload request"
  note d = operation_complete_def Let_def operation_rejected_def operation_error_def
  have stay: thesis if "\<exists>r. ?g = (r, ?st) \<and> (\<forall>res. r = Inr res \<longrightarrow> \<not> or_approved res)"
    using that refused [of _ "st_method ?st"] by auto
  show ?thesis
  proof (cases "dget ?req ''signedMandate''")
    case (PDict sm)
    note s1 = PDict
    show ?thesis
    proof (cases "mandate_identifier sm")
      case (Inl e)
      with s1 show ?thesis by (intro stay) (auto simp: d)
    next
      case (Inr oid)
      with s1 stay found [OF s1 Inr] show ?thesis
        by (cases "map_of (st_operations ?st) oid") (simp_all add: d)
    qed
  qed (intro stay, simp add: d)+
qed

text \<open>The handlers keep the invariant.\<close>

lemma operation_prepare_inv:
  "operation_pending_inv cfg st \<Longrightarrow> operation_pending_inv cfg (snd (operation_prepare cfg now0 now1 token st request))"
  by (cases rule: operation_prepare_cases [of cfg now0 now1 token st request])
    (simp_all add: operation_pending_inv_prune operation_pending_inv_update)

lemma complete_pending_inv:
  "operation_pending_inv cfg st \<Longrightarrow> operation_pending_inv cfg (snd (complete_pending cfg now st req sm oid p))"
  by (cases rule: complete_pending_cases [of cfg now st req sm oid p])
    (simp_all add: operation_pending_inv_delete)

lemma operation_complete_inv:
  "operation_pending_inv cfg st \<Longrightarrow> operation_pending_inv cfg (snd (operation_complete cfg now0 now1 st request))"
  by (cases rule: operation_complete_cases [of cfg now0 now1 st request])
    (simp_all add: operation_pending_inv_prune complete_pending_inv)

section \<open>What an approval means\<close>

lemma operation_context_user: "operation_user_signature_context m u = Inr ctx \<Longrightarrow> sc_user ctx = u"
  by (auto simp: operation_user_signature_context_def rbind_Inr_iff dest: user_signature_context_user)

context signature_method
begin

lemma complete_pending_sound:
  assumes cfg: "cfg_method cfg = Some M" "cfg_require cfg" and inv: "invar (st_method st)"
    and ok: "complete_pending cfg now st req sm oid p = (Inr res, st')" "or_approved res"
  obtains current n core k s ctx vt u until where
    "or_operation res = Some oid" "st_operations st' = AList.delete oid (st_operations st)"
    "service_normalize_operation (dget req ''operation'') = Inr current"
    "py_eq (PDict current) (PDict (po_operation p))"
    "mandate_matches_pending normalize_operation_mandate sm (po_mandate p) = Inr True"
    "normalize_operation_mandate sm = Inr n" "operation_mandate_core_payload n = Inr core"
    "operation_server_signing_key (cfg_crypto cfg) (cfg_env cfg) = Inr k"
    "dget (signature_of n ''server'') ''signature'' = PStr s"
    "ed25519_verify_text (cfg_crypto cfg) (server_payload core) (strip s) (cr_public (cfg_crypto cfg) k)"
    "operation_user_signature_context n (Some (str_or (dget (po_request p) ''userId'') [])) = Inr ctx"
    "endorsed (st_method st) (str_or (dget (po_request p) ''userId'') []) (sc_mandate ctx) (signature_of n ''user'')"
    "dget n ''validTime'' = PDict vt" "dget vt ''until'' = PStr u" "parse_utc u = Some until" "now \<le> of_int until"
proof (cases rule: complete_pending_cases [of cfg now st req sm oid p])
  case (refused r ms)
  with ok show ?thesis by simp
next
  case (consumed current sop why ms)
  let ?u = "str_or (dget (po_request p) ''userId'') []"
  have st': "or_operation res = Some oid" "st_operations st' = AList.delete oid (st_operations st)"
    using ok consumed(7) by auto
  show ?thesis
  proof (rule verify_operation_mandate_True [OF consumed(6)])
    fix n ex core k s ctx why'
    assume v: "normalize_operation_mandate sm = Inr n" "operation_mandate_core_payload n = Inr core"
      "operation_server_signing_key (cfg_crypto cfg) (cfg_env cfg) = Inr k"
      "dget (signature_of n ''server'') ''signature'' = PStr s"
      "ed25519_verify_text (cfg_crypto cfg) (server_payload core) (strip s) (cr_public (cfg_crypto cfg) k)"
      "operation_user_signature_context n (Some ?u) = Inr ctx"
      and sig: "verify_user_signature (cfg_method cfg) (cfg_require cfg) (st_method st) ctx (signature_of n ''user'')
        = (Inr (True, why'), ms)"
      and t: "check_operation_time now n = Inr (True, why)"
    have "sc_user ctx = Some ?u" using v(6) operation_context_user by blast
    then have e: "endorsed (st_method st) ?u (sc_mandate ctx) (signature_of n ''user'')"
      using verify_user_signature_endorsed [OF inv, of ctx ?u "signature_of n ''user''" why'] sig cfg by simp
    show ?thesis
      by (rule check_operation_time_True [OF t]) (rule that [OF st' consumed(1-3) v e])
  qed
qed

lemma operation_complete_sound:
  assumes cfg: "cfg_method cfg = Some M" "cfg_require cfg" and inv: "invar (st_method st)"
    and kd: "keys_distinct (st_operations st)"
    and ok: "operation_complete cfg now0 now1 st request = (Inr res, st')" "or_approved res"
  obtains sm oid p current n core k s ctx vt u until where
    "dget (payload request) ''signedMandate'' = PDict sm" "mandate_identifier sm = Inr oid"
    "map_of (st_operations st) oid = Some p" "\<lfloor>now0\<rfloor> < po_expire p"
    "or_operation res = Some oid" "map_of (st_operations st') oid = None"
    "service_normalize_operation (dget (payload request) ''operation'') = Inr current"
    "py_eq (PDict current) (PDict (po_operation p))"
    "mandate_matches_pending normalize_operation_mandate sm (po_mandate p) = Inr True"
    "normalize_operation_mandate sm = Inr n" "operation_mandate_core_payload n = Inr core"
    "operation_server_signing_key (cfg_crypto cfg) (cfg_env cfg) = Inr k"
    "dget (signature_of n ''server'') ''signature'' = PStr s"
    "ed25519_verify_text (cfg_crypto cfg) (server_payload core) (strip s) (cr_public (cfg_crypto cfg) k)"
    "operation_user_signature_context n (Some (str_or (dget (po_request p) ''userId'') [])) = Inr ctx"
    "endorsed (st_method st) (str_or (dget (po_request p) ''userId'') []) (sc_mandate ctx) (signature_of n ''user'')"
    "dget n ''validTime'' = PDict vt" "dget vt ''until'' = PStr u" "parse_utc u = Some until" "now1 \<le> of_int until"
proof (cases rule: operation_complete_cases [of cfg now0 now1 st request])
  case (refused r ms)
  with ok show ?thesis by simp
next
  case (found sm oid p)
  have p: "map_of (st_operations st) oid = Some p" "\<lfloor>now0\<rfloor> < po_expire p"
    using found(3) map_of_prune [OF kd] by (auto split: option.splits if_splits)
  have inv': "invar (st_method (prune_expired now0 st))" using inv by simp
  have ok': "complete_pending cfg now1 (prune_expired now0 st) (payload request) sm oid p = (Inr res, st')"
    using ok(1) found(4) by simp
  have del: "map_of (st_operations st') oid = None" if "st_operations st' = AList.delete oid (st_operations (prune_expired now0 st))"
    using that by simp
  show ?thesis
    by (rule complete_pending_sound [OF cfg inv' ok' ok(2)], rule that [OF found(1,2) p _ del])
      (simp_all del: py_eq.simps)
qed

end

text \<open>Everything known about a mandate \<open>prepare\<close> creates.\<close>

lemma service_normalize_operation_Inr:
  "service_normalize_operation v = Inr op \<Longrightarrow> normalize_operation op = Inr op"
  by (cases v) (auto simp: service_normalize_operation_def dest: normalize_operation_idem)

lemma operation_new_mandate_shape:
  assumes "operation_new_mandate cfg now token req = Inr (user, op, oid, m)"
  obtains validity until local dt k sv subj where
    "validity_seconds 300 (dget req ''validitySeconds'') = Inr validity"
    "utc_text (now + of_int validity) = Inr until" "cfg_beijing cfg until = Inr local"
    "service_normalize_operation (dget req ''operation'') = Inr op" "normalize_operation op = Inr op"
    "operation_server_signing_key (cfg_crypto cfg) (cfg_env cfg) = Inr k"
    "cfg_require cfg \<Longrightarrow> method_name (cfg_method cfg) \<noteq> []"
    "user = text_of (dget req ''userId'')" "user \<noteq> []" "oid = strip (''op_'' @ token)"
    "mandate_identifier m = Inr oid"
    "subj = operation_subject (text_of (dget req ''agentId'')) (dict_option (dget req ''agentPublicKey''))"
    "sv = server_signature operation_key_id (ed25519_sign_text (cfg_crypto cfg)
       (server_payload (operation_core_list (''op_'' @ token) (str_or (dget req ''server'') (cfg_server_id cfg)) subj op
         (operation_valid_time until local) (user_authorization (cfg_require cfg) (cfg_method cfg)) dt)) k)"
    "m = operation_mandate_of (''op_'' @ token) (str_or (dget req ''server'') (cfg_server_id cfg)) subj op
       (operation_valid_time until local) (user_authorization (cfg_require cfg) (cfg_method cfg)) dt sv []"
proof -
  from assms obtain agent validity where a: "required_text req ''agentId'' = Inr agent" "required_text req ''userId'' = Inr user"
    "validity_seconds 300 (dget req ''validitySeconds'') = Inr validity"
    "service_normalize_operation (dget req ''operation'') = Inr op"
    and c: "create_operation_mandate cfg now token op (str_or (dget req ''server'') (cfg_server_id cfg)) agent
      validity (dict_option (dget req ''agentPublicKey'')) = Inr m" and oid: "mandate_identifier m = Inr oid"
    by (auto simp: operation_new_mandate_def rbind_Inr_iff)
  have u: "agent = text_of (dget req ''agentId'')" "user = text_of (dget req ''userId'')" "user \<noteq> []"
    using a by (auto simp: required_text_def Let_def split: if_splits)
  note op = service_normalize_operation_Inr [OF a(4)]
  show ?thesis
    by (rule create_operation_mandate_shape [OF c], rule that)
      (use a u oid op in \<open>auto simp: mandate_identifier_def Let_def split: if_splits\<close>)
qed


end
