(* ===== verification/MandateSecurity.thy ===== *)
theory MandateSecurity
  imports Mandate
begin

text \<open>
  The user's side of \<open>mandate_security.py\<close>: \<open>StaticA4PServerTrustStore\<close>, the verification of a
  mandate against locally configured server keys, and the local check of its validity period.
\<close>

section \<open>Trusted server keys\<close>

type_synonym 'pk trust_store = "((string \<times> string) \<times> (string \<times> 'pk)) list"

definition add_trusted_key ::
  "('sk, 'pk) crypto \<Rightarrow> string \<Rightarrow> string \<Rightarrow> pyval \<Rightarrow> 'pk trust_store \<Rightarrow> 'pk trust_store res" where
  "add_trusted_key C server_id key_id v ts =
     (if strip key_id = [] then Inl (ValueError ''Trusted A4P keyId must be a non-empty string'')
      else case v of
        PDict kv \<Rightarrow>
          (if text_of (dget kv ''alg'') \<noteq> ''EdDSA''
           then Inl (ValueError (''Trusted A4P key '' @ quoted key_id @ '' must use '' @ quoted ''EdDSA''))
           else rbind (ed25519_public_key_from_base64url C (text_of (dget kv ''publicKey''))) (\<lambda>pk.
             Inr (AList.update (strip server_id, strip key_id) (text_of (dget kv ''alg''), pk) ts)))
      | _ \<Rightarrow> Inl (ValueError (''Trusted A4P key '' @ quoted key_id @ '' must be an object'')))"

fun add_trusted_keys ::
  "('sk, 'pk) crypto \<Rightarrow> string \<Rightarrow> pdict \<Rightarrow> 'pk trust_store \<Rightarrow> 'pk trust_store res" where
  "add_trusted_keys C server_id [] ts = Inr ts"
| "add_trusted_keys C server_id ((key_id, v) # kvs) ts =
     rbind (add_trusted_key C server_id key_id v ts) (add_trusted_keys C server_id kvs)"

fun add_trusted_servers ::
  "('sk, 'pk) crypto \<Rightarrow> pdict \<Rightarrow> 'pk trust_store \<Rightarrow> 'pk trust_store res" where
  "add_trusted_servers C [] ts = Inr ts"
| "add_trusted_servers C ((server_id, v) # rest) ts =
     (if strip server_id = [] then Inl (ValueError ''Trusted A4P serverId must be a non-empty string'')
      else case v of
        PDict kvs \<Rightarrow>
          (if kvs = []
           then Inl (ValueError (''Trusted A4P server '' @ quoted server_id @ '' must contain keys''))
           else rbind (add_trusted_keys C server_id kvs ts) (add_trusted_servers C rest))
      | _ \<Rightarrow> Inl (ValueError (''Trusted A4P server '' @ quoted server_id @ '' must contain keys'')))"

definition trust_store_init :: "('sk, 'pk) crypto \<Rightarrow> pdict \<Rightarrow> 'pk trust_store res" where
  "trust_store_init C config =
     rbind (add_trusted_servers C config []) (\<lambda>ts.
       if ts = [] then Inl (ValueError ''Trusted A4P server key configuration must not be empty'')
       else Inr ts)"

definition trust_resolve :: "'pk trust_store \<Rightarrow> string \<Rightarrow> string \<Rightarrow> string \<Rightarrow> 'pk res" where
  "trust_resolve ts server_id key_id alg =
     (case map_of ts (server_id, key_id) of
        None \<Rightarrow> Inl (MandateSecurityError ''SERVER_KEY_UNTRUSTED''
                 (''A4P Server key is not trusted: server='' @ quoted server_id @ '', keyId='' @ quoted key_id))
      | Some (trusted_alg, pk) \<Rightarrow>
          if alg \<noteq> trusted_alg
          then Inl (MandateSecurityError ''SERVER_KEY_UNTRUSTED''
                 (''A4P Server signature algorithm is not trusted: '' @ quoted alg))
          else Inr pk)"

section \<open>Verification of a received mandate\<close>

definition verify_trusted_server_mandate ::
  "('sk, 'pk) crypto \<Rightarrow> 'pk trust_store \<Rightarrow> pdict \<Rightarrow> pdict res" where
  "verify_trusted_server_mandate C ts m =
     rbind (mandate_core_payload m) (\<lambda>core.
       let server_id = text_of (dget core ''server'') in
       case dget (as_dict (dget m ''signatures'')) ''server'' of
         PDict sv \<Rightarrow>
           (let alg = text_of (dget sv ''alg''); key_id = text_of (dget sv ''keyId'');
                sig = text_of (dget sv ''signature'')
            in if server_id = [] \<or> alg = [] \<or> key_id = [] \<or> sig = []
               then Inl (MandateSecurityError ''SERVER_SIGNATURE_INVALID'' ''Server signature metadata missing'')
               else rbind (trust_resolve ts server_id key_id alg) (\<lambda>pk.
                 if \<not> ed25519_verify_text C (server_payload core) sig pk
                 then Inl (MandateSecurityError ''SERVER_SIGNATURE_INVALID'' ''Server signature invalid'')
                 else Inr core))
       | _ \<Rightarrow> Inl (MandateSecurityError ''SERVER_SIGNATURE_INVALID'' ''Server signature missing''))"

definition challenge_error :: "string \<Rightarrow> 'a res" where
  "challenge_error msg = Inl (MandateSecurityError ''CHALLENGE_BINDING_INVALID'' msg)"

definition verify_mandate_valid_time :: "rat \<Rightarrow> pdict \<Rightarrow> unit res" where
  "verify_mandate_valid_time now core =
     (case dget core ''validTime'' of
        PDict vt \<Rightarrow>
          (let intent = py_eq (dget core ''type'') (PStr intent_type);
               values = (if intent then [dget vt ''start'', dget vt ''end''] else [dget vt ''until'']);
               stamps = map (\<lambda>v. parse_utc (py_str v)) (filter truthy values)
           in if list_ex Option.is_none stamps then challenge_error ''Mandate validTime format invalid''
              else if length stamps \<noteq> length values then challenge_error ''Mandate validTime missing''
              else if intent \<and> now < of_int (the (hd stamps)) then challenge_error ''Mandate not yet valid''
              else if now > of_int (the (last stamps)) then challenge_error ''Mandate has expired''
              else Inr ())
      | _ \<Rightarrow> challenge_error ''Mandate validTime missing'')"

section \<open>Soundness\<close>

text \<open>Every key of a constructed trust store is an accepted public key with algorithm EdDSA.\<close>

definition trust_inv :: "('sk, 'pk) crypto \<Rightarrow> 'pk trust_store \<Rightarrow> bool" where
  "trust_inv C ts \<longleftrightarrow> (\<forall>sid kid alg pk. map_of ts (sid, kid) = Some (alg, pk) \<longrightarrow>
     sid \<noteq> [] \<and> kid \<noteq> [] \<and> alg = ''EdDSA''
     \<and> (\<exists>v. ed25519_public_key_from_base64url C v = Inr pk))"

lemma add_trusted_key_inv:
  "trust_inv C ts \<Longrightarrow> strip sid \<noteq> [] \<Longrightarrow> add_trusted_key C sid kid v ts = Inr ts' \<Longrightarrow> trust_inv C ts'"
  by (auto simp: add_trusted_key_def trust_inv_def rbind_Inr_iff split: if_splits pyval.splits) blast+

lemma add_trusted_keys_inv:
  "trust_inv C ts \<Longrightarrow> strip sid \<noteq> [] \<Longrightarrow> add_trusted_keys C sid kvs ts = Inr ts' \<Longrightarrow> trust_inv C ts'"
  by (induction kvs arbitrary: ts) (auto simp: rbind_Inr_iff, blast intro: add_trusted_key_inv)

lemma add_trusted_servers_inv:
  "trust_inv C ts \<Longrightarrow> add_trusted_servers C cfg ts = Inr ts' \<Longrightarrow> trust_inv C ts'"
  by (induction cfg arbitrary: ts)
    (auto simp: rbind_Inr_iff split: if_splits pyval.splits, blast intro: add_trusted_keys_inv)

lemma trust_store_init_inv: "trust_store_init C cfg = Inr ts \<Longrightarrow> trust_inv C ts"
  using add_trusted_servers_inv [of C "[]" cfg ts]
  by (auto simp: trust_store_init_def rbind_Inr_iff split: if_splits) (simp add: trust_inv_def)

text \<open>
  A mandate that passes the local check carries a signature that verifies, over exactly the core the
  user is shown, under a key configured for the server the core names.
\<close>

lemma trust_resolve_sound:
  "trust_resolve ts sid kid alg = Inr pk \<Longrightarrow> map_of ts (sid, kid) = Some (alg, pk)"
  by (auto simp: trust_resolve_def split: option.splits if_splits)

lemma verify_trusted_server_mandate_sound:
  assumes "verify_trusted_server_mandate C ts m = Inr core"
  shows "mandate_core_payload m = Inr core \<and>
    (\<exists>sv pk. dget (as_dict (dget m ''signatures'')) ''server'' = PDict sv
      \<and> map_of ts (text_of (dget core ''server''), text_of (dget sv ''keyId'')) = Some (text_of (dget sv ''alg''), pk)
      \<and> ed25519_verify_text C (server_payload core) (text_of (dget sv ''signature'')) pk)"
proof -
  from assms obtain core' where c: "mandate_core_payload m = Inr core'"
    by (auto simp: verify_trusted_server_mandate_def rbind_Inr_iff)
  with assms show ?thesis
    by (cases "dget (as_dict (dget m ''signatures'')) ''server''")
      (auto simp: verify_trusted_server_mandate_def Let_def rbind_Inr_iff split: if_splits
        dest!: trust_resolve_sound)
qed

lemma valid_time_intent_iff:
  assumes "dget core ''type'' = PStr intent_type" "dget core ''validTime'' = PDict vt"
  shows "verify_mandate_valid_time now core = Inr () \<longleftrightarrow>
    (\<exists>s e. truthy (dget vt ''start'') \<and> truthy (dget vt ''end'')
      \<and> parse_utc (py_str (dget vt ''start'')) = Some s \<and> parse_utc (py_str (dget vt ''end'')) = Some e
      \<and> of_int s \<le> now \<and> now \<le> of_int e)"
  using assms
  by (cases "truthy (dget vt ''start'')"; cases "truthy (dget vt ''end'')")
    (auto simp: verify_mandate_valid_time_def Let_def challenge_error_def Option.is_none_def split: if_splits)

lemma valid_time_operation_iff:
  assumes "dget core ''type'' = PStr operation_type" "dget core ''validTime'' = PDict vt"
  shows "verify_mandate_valid_time now core = Inr () \<longleftrightarrow>
    (\<exists>u. truthy (dget vt ''until'') \<and> parse_utc (py_str (dget vt ''until'')) = Some u \<and> now \<le> of_int u)"
  using assms
  by (cases "truthy (dget vt ''until'')")
    (auto simp: verify_mandate_valid_time_def Let_def challenge_error_def Option.is_none_def split: if_splits)

end
