(* ===== verification/UserAuthorizer.thy ===== *)
theory UserAuthorizer
  imports MandateSecurity IntentMandate OperationMandate
begin

text \<open>
  \<open>user_authorizer.py\<close>: what runs on the user's side between the server's challenge and the signed
  mandate. The request comes through the agent, which is not trusted: only what the configured
  server keys vouch for, and options derived from it, reach the signer.
\<close>

record user_authorization_request =
  ua_mandate :: pdict
  ua_options :: pdict

record user_authorization_response =
  ur_approved :: bool
  ur_mandate :: "pdict option"
  ur_reason :: "string option"
  ur_code :: "string option"

definition options_error :: "string \<Rightarrow> 'a res" where
  "options_error msg = Inl (MandateSecurityError ''SIGNING_OPTIONS_MISMATCH'' msg)"

text \<open>The options handed to the local signer; a WebAuthn challenge is always computed locally.\<close>

definition harden_options ::
  "('sk, 'pk) crypto \<Rightarrow> pdict \<Rightarrow> string \<Rightarrow> pdict \<Rightarrow> pdict res" where
  "harden_options C m method opts =
     (if \<not> py_eq (dget opts ''signatureMethod'') (PStr method)
      then options_error ''signingOptions.signatureMethod does not match the Server-signed mandate''
      else case dget opts ''methodOptions'' of
        PDict mo \<Rightarrow>
          (if method = ''webauthn''
           then rbind (user_authorization_challenge_base64url C m) (\<lambda>challenge.
             Inr (AList.update ''methodOptions'' (PDict
               (AList.update ''userVerification'' (PStr ''required'')
               (AList.update ''challenge'' (PStr challenge) mo))) opts))
           else Inr opts)
      | _ \<Rightarrow> options_error ''signingOptions.methodOptions missing'')"

definition verify_local_user_authorization_request ::
  "('sk, 'pk) crypto \<Rightarrow> 'pk trust_store \<Rightarrow> string option \<Rightarrow> rat \<Rightarrow> user_authorization_request \<Rightarrow> pdict res" where
  "verify_local_user_authorization_request C ts expected_method now req =
     rbind (verify_trusted_server_mandate C ts (ua_mandate req)) (\<lambda>core.
     rbind (verify_mandate_valid_time now core) (\<lambda>_.
       case dget core ''userAuthorization'' of
         PDict ua \<Rightarrow>
           (case dget ua ''required'' of
              PBool required \<Rightarrow>
                (let method = text_of (dget ua ''signatureMethod'') in
                 if \<not> required then Inr []
                 else if method = [] then challenge_error ''userAuthorization.signatureMethod missing''
                 else if (case expected_method of None \<Rightarrow> False | Some e \<Rightarrow> method \<noteq> e)
                   then options_error (''User signer method mismatch: mandate requires '' @ quoted method @
                          '', local signer is '' @ quoted (the expected_method))
                 else harden_options C (ua_mandate req) method (ua_options req))
            | _ \<Rightarrow> challenge_error ''userAuthorization.required missing'')
       | _ \<Rightarrow> challenge_error ''userAuthorization missing''))"

definition sign_user_mandate_with_signer :: "pdict \<Rightarrow> signer \<Rightarrow> pdict option \<Rightarrow> pdict res" where
  "sign_user_mandate_with_signer m s input =
     (if map_of m ''type'' = None then Inl (KeyError ''type'')
      else if py_eq (dget m ''type'') (PStr intent_type) then
        rbind (normalize_intent_mandate m) (\<lambda>n. rbind (intent_user_signature_context n None) (\<lambda>ctx.
          rbind (sign_user_signature ctx s input) (\<lambda>sig. Inr (attach_user_signature n sig))))
      else if py_eq (dget m ''type'') (PStr operation_type) then
        rbind (normalize_operation_mandate m) (\<lambda>n. rbind (operation_user_signature_context n None) (\<lambda>ctx.
          rbind (sign_user_signature ctx s input) (\<lambda>sig. Inr (attach_user_signature n sig))))
      else Inl (ValueError (''Unsupported A4P mandate type: '' @ py_repr (dget m ''type''))))"

definition approve_user_mandate :: "pdict \<Rightarrow> pdict res" where
  "approve_user_mandate m =
     (case dget_or m ''signatures'' (PDict []) of
        PDict sigs \<Rightarrow> Inr (AList.update ''signatures'' (PDict (AList.update ''user'' (PDict []) sigs)) m)
      | _ \<Rightarrow> Inl (TypeError ''object does not support item assignment''))"

definition rejecting_authorize :: "user_authorization_request \<Rightarrow> user_authorization_response" where
  "rejecting_authorize req = \<lparr>ur_approved = False, ur_mandate = None,
     ur_reason = Some ''A4P user authorizer is not configured'', ur_code = None\<rparr>"

definition approving_authorize :: "signer \<Rightarrow> user_authorization_request \<Rightarrow> user_authorization_response res" where
  "approving_authorize s req = rbind (sign_user_mandate_with_signer (ua_mandate req) s None) (\<lambda>m.
     Inr \<lparr>ur_approved = True, ur_mandate = Some m, ur_reason = None, ur_code = None\<rparr>)"

section \<open>What reaches the signer\<close>

text \<open>The hardened WebAuthn options carry the challenge of the mandate, whatever the agent supplied.\<close>

lemma harden_options_webauthn:
  assumes "harden_options C m ''webauthn'' opts = Inr opts'"
  obtains mo challenge where "dget opts' ''methodOptions'' = PDict mo"
    "user_authorization_challenge_base64url C m = Inr challenge" "dget mo ''challenge'' = PStr challenge"
    "dget mo ''userVerification'' = PStr ''required''" "dget opts' ''signatureMethod'' = PStr ''webauthn''"
  using assms
  by (cases "dget opts ''methodOptions''") (auto simp: harden_options_def options_error_def rbind_Inr_iff split: if_splits)

lemma verify_local_sound:
  assumes "verify_local_user_authorization_request C ts expected now req = Inr opts"
  obtains core ua required where "verify_trusted_server_mandate C ts (ua_mandate req) = Inr core"
    "verify_mandate_valid_time now core = Inr ()" "dget core ''userAuthorization'' = PDict ua"
    "dget ua ''required'' = PBool required"
    "required \<Longrightarrow> harden_options C (ua_mandate req) (text_of (dget ua ''signatureMethod'')) (ua_options req) = Inr opts"
    "required \<Longrightarrow> \<forall>e. expected = Some e \<longrightarrow> text_of (dget ua ''signatureMethod'') = e"
    "\<not> required \<Longrightarrow> opts = []"
proof -
  from assms obtain core where c: "verify_trusted_server_mandate C ts (ua_mandate req) = Inr core"
    "verify_mandate_valid_time now core = Inr ()"
    by (auto simp: verify_local_user_authorization_request_def rbind_Inr_iff)
  from assms c obtain ua where ua: "dget core ''userAuthorization'' = PDict ua"
    by (cases "dget core ''userAuthorization''")
      (auto simp: verify_local_user_authorization_request_def challenge_error_def)
  from assms c ua obtain required where r: "dget ua ''required'' = PBool required"
    by (cases "dget ua ''required''") (auto simp: verify_local_user_authorization_request_def challenge_error_def)
  show ?thesis
    by (rule that [OF c ua r])
      (use assms c ua r in \<open>auto simp: verify_local_user_authorization_request_def challenge_error_def
        options_error_def Let_def split: if_splits option.splits\<close>)
qed

end
