(* ===== verification/AuthorizationFlow.thy ===== *)
theory AuthorizationFlow
  imports Ed25519Method IntentService OperationService UserAuthorizer
begin

text \<open>
  Completeness of the protocol: a request that is prepared, signed with a registered key and
  completed in time is approved, and the token it yields verifies for the calls inside its scope.
\<close>

section \<open>Timestamps and well-formed values\<close>

lemma digit_char_no_space: "n < 10 \<Longrightarrow> \<not> is_space (digit_char n)"
  by (simp add: is_space_def of_char_digit Let_def)

lemma nat_str_no_space: "list_all (\<lambda>c. \<not> is_space c) (nat_str n)"
  by (induction n rule: nat_str.induct) (subst nat_str.simps, simp add: digit_char_no_space)

lemma nat_str_hd_solid: "nat_str n \<noteq> [] \<and> \<not> is_space (hd (nat_str n))"
proof -
  have ne: "nat_str n \<noteq> []" by (subst nat_str.simps) simp
  then show ?thesis using nat_str_no_space [of n] by (cases "nat_str n") simp_all
qed

lemma strip_iso_text [simp]: "strip (iso_text t) = iso_text t"
proof (rule strip_id)
  obtain y m d where g: "gmtime_days (t div 86400) = (y, m, d)" by (cases "gmtime_days (t div 86400)")
  show "iso_text t \<noteq> []" "\<not> is_space (hd (iso_text t))"
    using nat_str_hd_solid [of y] by (auto simp: iso_text_def g Let_def)
  have "last (iso_text t) = CHR ''Z''" by (simp add: iso_text_def g Let_def)
  then show "\<not> is_space (last (iso_text t))" by (simp add: is_space_def)
qed

lemma utc_text_parse:
  assumes "utc_text t = Inr s" "0 \<le> t" "t < of_nat utc_limit"
  shows "parse_utc s = Some \<lfloor>t\<rfloor>" "strip s = s" "s \<noteq> []"
proof -
  have s: "s = iso_text (nat \<lfloor>t\<rfloor>)" using assms(1) by (auto simp: utc_text_def split: if_splits)
  have "\<lfloor>t\<rfloor> < int utc_limit" using assms(3) by (simp add: floor_less_iff)
  then have "nat \<lfloor>t\<rfloor> < utc_limit" using assms(2) by linarith
  from parse_iso_text [OF this] show p: "parse_utc s = Some \<lfloor>t\<rfloor>" using s assms(2) by simp
  show "strip s = s" by (simp add: s)
  show "s \<noteq> []" using p parse_utc_Nil by auto
qed

text \<open>Mandates created from well-formed requests are well-formed values.\<close>

lemma wf_action_spec:
  assumes "wf_val v" "normalize_action_spec v = Inr n"
  shows "wf_val (PDict n)"
proof -
  from assms(2) obtain d where v: "v = PDict d" by (cases v) (auto simp: normalize_action_spec_def)
  have "wf_val (dget d ''params'')" using wf_dget assms(1) v by simp
  then have c: "wf_val w" if "normalize_params_constraint (dget d ''params'') = Inr w" for w
    using that
    by (cases "dget d ''params'' = PStr ''*''"; cases "dget d ''params''")
      (auto simp: normalize_params_constraint_def split: if_splits)
  from assms(2) v show ?thesis
    by (cases "dget_or d ''allowExtraParams'' (PBool False)")
      (auto simp: normalize_action_spec_def Let_def rbind_Inr_iff c split: if_splits)
qed

lemma wf_action_specs:
  assumes "wf_val v" "normalize_action_specs v = Inr acts"
  shows "wf_val (action_list acts)"
proof -
  from assms(2) obtain xs where xs: "v = PList xs" "traverse normalize_action_spec xs = Inr acts"
    by (cases v) (auto simp: normalize_action_specs_def rbind_Inr_iff split: if_splits)
  have "list_all (\<lambda>n. wf_val (PDict n)) acts" if "wf_vals xs"
    using that xs(2)
  proof (induction xs arbitrary: acts)
    case (Cons x xs)
    then show ?case by (auto simp: rbind_Inr_iff simp del: wf_val.simps dest: wf_action_spec)
  qed simp
  with assms(1) xs(1) show ?thesis by (auto simp: action_list_def wf_vals_iff list_all_iff)
qed

lemma wf_intent_scope_of:
  assumes "wf_val v" "normalize_action_specs v = Inr acts" "normalize_execution_policy w = Inr pol"
  shows "wf_val (PDict (intent_scope_of acts pol))"
proof (cases pol)
  case (Some p)
  with assms(3) have "normalize_execution_policy w = Inr (Some p)" by simp
  from normalize_execution_policy_Some [OF this] obtain k where "p = [(''maxExecutions'', PInt k)]" by blast
  with Some wf_action_specs [OF assms(1,2)] show ?thesis by (simp add: intent_scope_of_def)
qed (use wf_action_specs [OF assms(1,2)] in \<open>simp add: intent_scope_of_def\<close>)

lemma wf_user_authorization: "wf_val (PDict (method_policy M)) \<Longrightarrow> wf_val (PDict (user_authorization req M))"
  by (simp add: user_authorization_def)

lemma wf_option_key: "wf_val v \<Longrightarrow> dict_option v = Some k \<Longrightarrow> wf_val (PDict k)"
  by (cases v) auto

lemma wf_intent_subject: "wf_val v \<Longrightarrow> wf_val (PDict (intent_subject st a (dict_option v)))"
  using wf_option_key [of v] by (cases "dict_option v") (auto simp: intent_subject_def)

lemma wf_operation_subject: "wf_val v \<Longrightarrow> wf_val (PDict (operation_subject a (dict_option v)))"
  using wf_option_key [of v] by (cases "dict_option v") (auto simp: operation_subject_def)

lemma wf_intent_mandate_of:
  "wf_val (PDict subj) \<Longrightarrow> wf_val (PDict sc) \<Longrightarrow> wf_val (PDict ua) \<Longrightarrow> wf_val (PDict sv) \<Longrightarrow>
   wf_val (PDict (intent_mandate_of mid srv subj sc s e ua dt sv []))"
  by (simp add: intent_mandate_of_def)

lemma wf_operation_mandate_of:
  "wf_val (PDict subj) \<Longrightarrow> wf_val (PDict op) \<Longrightarrow> wf_val (PDict ua) \<Longrightarrow> wf_val (PDict sv) \<Longrightarrow> wf_val (PDict vt) \<Longrightarrow>
   wf_val (PDict (operation_mandate_of oid srv subj op vt ua dt sv []))"
  by (simp add: operation_mandate_of_def)


lemma strip_str_or: "text_of v \<noteq> [] \<Longrightarrow> strip (str_or v d) = text_of v"
  by (cases "truthy v") (simp_all add: text_of_def str_or_def py_or_def py_str_def)

section \<open>Intents\<close>

lemma intent_matches_own:
  assumes "normalize_intent_scope (PDict sc) = Inr sc" "wf_val (PDict (intent_mandate_of mid srv subj sc s e ua dt sv []))"
  shows "mandate_matches_pending normalize_intent_mandate (intent_mandate_of mid srv subj sc s e ua dt sv us)
    (intent_mandate_of mid srv subj sc s e ua dt sv []) = Inr True"
  using assms(1) py_eq_refl [OF assms(2)] by (simp add: mandate_matches_pending_def del: py_eq.simps)

definition intent_token_core ::
  "string \<Rightarrow> string \<Rightarrow> pdict \<Rightarrow> string \<Rightarrow> pdict \<Rightarrow> string \<Rightarrow> string \<Rightarrow> string \<Rightarrow> pdict" where
  "intent_token_core tid mid subject user scope issued expire nonce =
     [(''type'', PStr token_type), (''tokenId'', PStr tid), (''mandateId'', PStr mid),
      (''subject'', PDict subject), (''user'', PDict [(''id'', PStr user)]), (''intent'', PDict scope),
      (''issuedAt'', PStr issued), (''expireAt'', PStr expire), (''nonce'', PStr nonce)]"

lemma intent_token_core_payload_of:
  "normalize_intent_scope (PDict sc) = Inr sc \<Longrightarrow>
   intent_token_core_payload (intent_token_of tid mid subj user sc issued expire nonce sig kid)
   = Inr (intent_token_core tid mid subj user sc issued expire nonce)"
  by (simp add: intent_token_core_payload_def intent_token_of_def intent_token_core_def)

text \<open>The token issued from a created mandate.\<close>

definition issued_token ::
  "('sk, 'pk) crypto \<Rightarrow> 'sk \<Rightarrow> string \<Rightarrow> string \<Rightarrow> pdict \<Rightarrow> string \<Rightarrow> pdict \<Rightarrow> string \<Rightarrow> string \<Rightarrow> string \<Rightarrow> pdict" where
  "issued_token C k tid mid subject user scope issued expire nonce =
     intent_token_of tid mid subject user scope issued expire nonce
       (ed25519_sign_text C (token_payload (intent_token_core tid mid subject user scope issued expire nonce)) k)
       (intent_token_key_id mid)"

lemma issue_token_of:
  assumes "normalize_intent_scope (PDict sc) = Inr sc" "strip mid \<noteq> []" "utc_text now = Inr issued"
    "strip e \<noteq> []" "intent_server_signing_key C env = Inr k" "strip u \<noteq> []"
  shows "issue_token C env now tid nonce (intent_mandate_of mid srv subj sc s e ua dt sv us) u
    = Inr (issued_token C k tid (strip mid) (token_subject subj) (strip u) sc issued (strip e) nonce)"
  using assms intent_token_core_payload_of [OF assms(1)]
  by (simp add: issue_token_def Let_def issued_token_def) (simp add: intent_token_of_def)

lemma strip_token_key_id: "strip (intent_token_key_id (strip mid)) = intent_token_key_id (strip mid)"
proof (cases "strip mid = []")
  case True
  then have "intent_token_key_id (strip mid) = ''server#intent-token-v1''" by (simp add: intent_token_key_id_def)
  then show ?thesis by (simp add: strip_no_space is_space_def)
next
  case False
  then have k: "intent_token_key_id (strip mid) = ''server#intent-token-v1:'' @ strip mid"
    by (simp add: intent_token_key_id_def Let_def)
  have "strip (''server#intent-token-v1:'' @ strip mid) = ''server#intent-token-v1:'' @ strip mid"
    by (rule strip_id) (use False strip_edges [OF False] in \<open>simp_all add: is_space_def [of "CHR ''s''"]\<close>)
  with k show ?thesis by (simp only:)
qed

lemma verify_issued_token:
  assumes "ed25519_laws C" "normalize_intent_scope (PDict sc) = Inr sc" "intent_server_signing_key C env = Inr k"
    and "strip mid \<noteq> []" "parse_utc e = Some t" "strip e = e" "now \<le> of_int t"
  shows "verify_intent_token C env now (issued_token C k tid (strip mid) subj user sc issued e nonce) action params agent usr key
    = Inr (check_token_binding (issued_token C k tid (strip mid) subj user sc issued e nonce) action params agent usr key)"
proof -
  let ?core = "intent_token_core tid (strip mid) subj user sc issued e nonce"
  let ?tok = "issued_token C k tid (strip mid) subj user sc issued e nonce"
  have "e \<noteq> []" using assms(5) parse_utc_Nil by auto
  moreover have "intent_token_core_payload ?tok = Inr ?core"
    using intent_token_core_payload_of [OF assms(2)] by (simp add: issued_token_def)
  moreover have "dget ?tok ''type'' = PStr token_type" "text_of (dget ?tok ''alg'') = ''EdDSA''"
    "text_of (dget ?tok ''signature'') = ed25519_sign_text C (token_payload ?core) k"
    "text_of (dget ?tok ''mandateId'') = strip mid" "text_of (dget ?tok ''keyId'') = intent_token_key_id (strip mid)"
    "text_of (dget ?tok ''expireAt'') = e"
    using strip_token_key_id [of mid] assms(6) by (simp_all add: issued_token_def intent_token_of_def)
  ultimately show ?thesis
    using assms by (simp add: verify_intent_token_def Let_def verify_sign_text)
qed

lemma check_issued_token:
  "check_token_binding (issued_token C k tid mid subj user sc issued e nonce) action params None None None
   = params_match_intent_scope sc action params"
  by (simp add: check_token_binding_def expectation_fails_def params_match_intent_token_def issued_token_def
      intent_token_of_def)

lemma mandate_identifier_attach:
  "mandate_identifier (attach_user_signature m sig) = mandate_identifier m"
  by (simp add: mandate_identifier_def Let_def)

text \<open>A pending mandate whose user signature verifies is approved while its period lasts.\<close>

lemma intent_complete_created:
  assumes laws: "ed25519_laws (cfg_crypto cfg)"
    and new: "intent_new_mandate cfg now0 tok req = Inr (user, mid, m)"
    and pend: "map_of (st_intents st) mid = Some \<lparr>pi_request = req, pi_mandate = m\<rparr>"
    and wf: "wf_val (PDict req)" "wf_val (PDict (method_policy (cfg_method cfg)))"
    and ctx: "intent_user_signature_context m (Some (str_or (dget req ''userId'') [])) = Inr ctx"
    and sig: "verify_user_signature (cfg_method cfg) (cfg_require cfg) (st_method st) ctx sig = (Inr (True, why), ms)"
    and time: "validity_seconds 3600 (dget req ''validitySeconds'') = Inr validity" "0 \<le> now0"
      "now0 + of_int validity < of_nat utc_limit" "of_int \<lfloor>now0\<rfloor> \<le> now1" "now1 \<le> of_int \<lfloor>now0 + of_int validity\<rfloor>"
      "utc_text now2 = Inr issued"
    and request: "dget request ''signedMandate'' = PDict (attach_user_signature m sig)"
  obtains k subj scope e where
    "intent_server_signing_key (cfg_crypto cfg) (cfg_env cfg) = Inr k"
    "normalize_intent_scope (PDict scope) = Inr scope" "dget m ''intent'' = PDict scope"
    "parse_utc e = Some \<lfloor>now0 + of_int validity\<rfloor>" "strip e = e"
    "intent_complete cfg now1 now2 tid nonce st request =
      (Inr \<lparr>ir_mandate = Some (attach_user_signature m sig), ir_options = [],
            ir_token = Some (issued_token (cfg_crypto cfg) k tid mid subj user scope issued e nonce),
            ir_result = Some (vr_ok None), ir_approved = True, ir_reason = None\<rparr>,
       st\<lparr>st_method := ms, st_intents := AList.delete mid (st_intents st)\<rparr>)"
proof (rule intent_new_mandate_shape [OF new])
  fix validity' start until acts pol dt k sv subj
  assume v: "validity_seconds 3600 (dget req ''validitySeconds'') = Inr validity'"
    and t: "utc_text now0 = Inr start" "utc_text (now0 + of_int validity') = Inr until"
    and a: "normalize_action_specs (dget (as_dict (dget req ''intent'')) ''actions'') = Inr acts"
    "normalize_execution_policy (dget (as_dict (dget req ''intent'')) ''executionPolicy'') = Inr pol"
    and k: "intent_server_signing_key (cfg_crypto cfg) (cfg_env cfg) = Inr k"
    and req: "cfg_require cfg \<Longrightarrow> method_name (cfg_method cfg) \<noteq> []"
    and u: "user = text_of (dget req ''userId'')" "user \<noteq> []" and mid: "mid = strip (''mdt_'' @ tok)" "mid \<noteq> []"
    and subj: "subj = intent_subject ''agent'' (text_of (dget req ''agentId'')) (dict_option (dget req ''agentPublicKey''))"
    and sv: "sv = server_signature intent_key_id (ed25519_sign_text (cfg_crypto cfg)
       (server_payload (intent_core_list (''mdt_'' @ tok) (str_or (dget req ''server'') (cfg_server_id cfg)) subj
         (intent_scope_of acts pol) start until (user_authorization (cfg_require cfg) (cfg_method cfg)) dt)) k)"
    and m: "m = intent_mandate_of (''mdt_'' @ tok) (str_or (dget req ''server'') (cfg_server_id cfg)) subj
       (intent_scope_of acts pol) start until (user_authorization (cfg_require cfg) (cfg_method cfg)) dt sv []"
  have v': "validity' = validity" using v time(1) by simp
  have "0 < validity" using time(1) by (auto simp: validity_seconds_def split: pyval.splits if_splits)
  then have lt: "now0 < of_nat utc_limit" "0 \<le> now0 + of_int validity"
    using time(2,3) by (simp_all add: add.commute less_le_trans le_less_trans)
  note start = utc_text_parse [OF t(1) time(2) lt(1)]
    and until = utc_text_parse [OF t(2) [unfolded v'] lt(2) time(3)]
  note sc = intent_scope_of_fixed [OF a]
  have fields: "wf_val (dget (as_dict (dget req ''intent'')) ''actions'')" "wf_val (dget req ''agentPublicKey'')"
    using wf_dget [OF wf(1)] wf_dget [OF wf_as_dict] by simp_all
  have wfm: "wf_val (PDict (intent_mandate_of (''mdt_'' @ tok) (str_or (dget req ''server'') (cfg_server_id cfg)) subj
       (intent_scope_of acts pol) start until (user_authorization (cfg_require cfg) (cfg_method cfg)) dt sv []))"
    by (rule wf_intent_mandate_of)
      (use wf_intent_subject [OF fields(2)] wf_intent_scope_of [OF fields(1) a] wf_user_authorization [OF wf(2)]
        in \<open>simp_all only: subj, simp add: sv server_signature_def\<close>)
  have ctx': "intent_user_signature_context (attach_user_signature m sig) (Some (str_or (dget req ''userId'') [])) = Inr ctx"
    using ctx intent_context_of [OF sc, of "user_authorization (cfg_require cfg) (cfg_method cfg)" "cfg_require cfg"] req
    by (simp add: m)
  have user: "strip (str_or (dget req ''userId'') ''user:unknown'') = user"
    using u strip_str_or by simp
  have mid': "mandate_identifier (attach_user_signature m sig) = Inr mid"
    using new by (auto simp: mandate_identifier_attach intent_new_mandate_def Let_def rbind_Inr_iff split: if_splits)
  have v1: "verify_intent_mandate (cfg_crypto cfg) (cfg_env cfg) (cfg_method cfg) (cfg_require cfg) now1
      (st_method st) (attach_user_signature m sig) (Some (str_or (dget req ''server'') (cfg_server_id cfg)))
      (Some (str_or (dget req ''userId'') [])) = (Inr (True, []), ms)"
    unfolding m intent_mandate_of_ops
    by (rule verify_intent_mandate_of [OF laws sc k sv ctx' [unfolded m intent_mandate_of_ops] sig
          start(1) until(1) time(4,5) refl])
  have i: "issue_token (cfg_crypto cfg) (cfg_env cfg) now2 tid nonce (attach_user_signature m sig)
      (str_or (dget req ''userId'') ''user:unknown'')
      = Inr (issued_token (cfg_crypto cfg) k tid mid (token_subject subj) user (intent_scope_of acts pol) issued until nonce)"
    unfolding m intent_mandate_of_ops
    using issue_token_of [OF sc mid(2) [unfolded mid(1)] time(6) _ k, of until "str_or (dget req ''userId'') ''user:unknown''"]
      until user u(2) mid by simp
  have "intent_complete cfg now1 now2 tid nonce st request =
      (Inr \<lparr>ir_mandate = Some (attach_user_signature m sig), ir_options = [],
            ir_token = Some (issued_token (cfg_crypto cfg) k tid mid (token_subject subj) user (intent_scope_of acts pol)
              issued until nonce),
            ir_result = Some (vr_ok None), ir_approved = True, ir_reason = None\<rparr>,
       st\<lparr>st_method := ms, st_intents := AList.delete mid (st_intents st)\<rparr>)"
    using request mid' pend v1 i intent_matches_own [OF sc wfm, of sig]
    by (simp add: intent_complete_def issue_intent_token_def m)
  then show ?thesis
    by (intro that [OF k sc _ until(1,2)]) (simp_all add: m)
qed

section \<open>Operations\<close>

lemma operation_matches_own:
  assumes "normalize_operation op = Inr op" "wf_val (PDict (operation_mandate_of oid srv subj op vt ua dt sv []))"
  shows "mandate_matches_pending normalize_operation_mandate (operation_mandate_of oid srv subj op vt ua dt sv us)
    (operation_mandate_of oid srv subj op vt ua dt sv []) = Inr True"
  using assms(1) py_eq_refl [OF assms(2)] by (simp add: mandate_matches_pending_def del: py_eq.simps)

lemma wf_service_operation:
  assumes "wf_val v" "service_normalize_operation v = Inr op"
  shows "wf_val (PDict op)"
proof -
  from assms(2) obtain d where d: "v = PDict d" by (cases v) (auto simp: service_normalize_operation_def)
  have "wf_val (dget d ''params'')" using wf_dget assms(1) d by simp
  with assms(2) d show ?thesis
    by (cases "dget d ''params''") (auto simp: service_normalize_operation_def normalize_operation_def Let_def split: if_splits)
qed

lemma operation_complete_created:
  assumes laws: "ed25519_laws (cfg_crypto cfg)"
    and new: "operation_new_mandate cfg now0 tok req = Inr (user, op, oid, m)"
    and pend: "map_of (st_operations (prune_expired now1 st)) oid
      = Some \<lparr>po_request = req, po_operation = op, po_mandate = m, po_expire = ex\<rparr>"
    and wf: "wf_val (PDict req)" "wf_val (PDict (method_policy (cfg_method cfg)))"
    and ctx: "operation_user_signature_context m (Some (str_or (dget req ''userId'') [])) = Inr ctx"
    and sig: "verify_user_signature (cfg_method cfg) (cfg_require cfg) (st_method st) ctx sig = (Inr (True, why), ms)"
    and time: "validity_seconds 300 (dget req ''validitySeconds'') = Inr validity" "0 \<le> now0 + of_int validity"
      "now0 + of_int validity < of_nat utc_limit" "now2 \<le> of_int \<lfloor>now0 + of_int validity\<rfloor>"
    and request: "dget (payload request) ''signedMandate'' = PDict (attach_user_signature m sig)"
      "dget (payload request) ''operation'' = dget req ''operation''"
  shows "operation_complete cfg now1 now2 st request =
      (Inr \<lparr>or_operation = Some oid, or_approved = True, or_result = Some (vr_ok None), or_reason = None\<rparr>,
       (prune_expired now1 st)\<lparr>st_method := ms, st_operations := AList.delete oid (st_operations (prune_expired now1 st))\<rparr>)"
proof (rule operation_new_mandate_shape [OF new])
  fix validity' until local dt k sv subj
  assume v: "validity_seconds 300 (dget req ''validitySeconds'') = Inr validity'"
    and t: "utc_text (now0 + of_int validity') = Inr until"
    and op: "service_normalize_operation (dget req ''operation'') = Inr op" "normalize_operation op = Inr op"
    and k: "operation_server_signing_key (cfg_crypto cfg) (cfg_env cfg) = Inr k"
    and req: "cfg_require cfg \<Longrightarrow> method_name (cfg_method cfg) \<noteq> []"
    and oid: "mandate_identifier m = Inr oid"
    and subj: "subj = operation_subject (text_of (dget req ''agentId'')) (dict_option (dget req ''agentPublicKey''))"
    and sv: "sv = server_signature operation_key_id (ed25519_sign_text (cfg_crypto cfg)
       (server_payload (operation_core_list (''op_'' @ tok) (str_or (dget req ''server'') (cfg_server_id cfg)) subj op
         (operation_valid_time until local) (user_authorization (cfg_require cfg) (cfg_method cfg)) dt)) k)"
    and m: "m = operation_mandate_of (''op_'' @ tok) (str_or (dget req ''server'') (cfg_server_id cfg)) subj op
       (operation_valid_time until local) (user_authorization (cfg_require cfg) (cfg_method cfg)) dt sv []"
  have v': "validity' = validity" using v time(1) by simp
  note until = utc_text_parse [OF t [unfolded v'] time(2,3)]
  have wfop: "wf_val (PDict op)" using wf_service_operation [OF _ op(1)] wf_dget [OF wf(1)] by simp
  have wfm: "wf_val (PDict (operation_mandate_of (''op_'' @ tok) (str_or (dget req ''server'') (cfg_server_id cfg)) subj op
       (operation_valid_time until local) (user_authorization (cfg_require cfg) (cfg_method cfg)) dt sv []))"
    by (rule wf_operation_mandate_of)
      (use wf_operation_subject [OF wf_dget [OF wf(1)]] wfop wf_user_authorization [OF wf(2)]
        in \<open>simp_all add: subj sv server_signature_def operation_valid_time_def\<close>)
  have ctx': "operation_user_signature_context (attach_user_signature m sig) (Some (str_or (dget req ''userId'') [])) = Inr ctx"
    using ctx operation_context_of [OF op(2), of "user_authorization (cfg_require cfg) (cfg_method cfg)" "cfg_require cfg"] req
    by (simp add: m)
  have u: "dget (operation_valid_time until local) ''until'' = PStr until" by (simp add: operation_valid_time_def)
  have v1: "verify_operation_mandate_for_completion (cfg_crypto cfg) (cfg_env cfg) (cfg_method cfg) (cfg_require cfg) now2
      (st_method st) (attach_user_signature m sig) op (Some (str_or (dget req ''userId'') [])) = (Inr (True, []), ms)"
    unfolding m operation_mandate_of_ops
    by (rule verify_operation_mandate_of [OF laws op(2) wfop k sv ctx' [unfolded m operation_mandate_of_ops] sig u until(1) time(4)])
  have sop: "service_normalize_operation (PDict op) = Inr op" using op(2) by (simp add: service_normalize_operation_def)
  show ?thesis
    using request oid pend v1 op(1) sop operation_matches_own [OF op(2) wfm, of sig] py_eq_refl [OF wfop]
    by (simp add: operation_complete_def Let_def mandate_identifier_attach complete_pending_def del: py_eq.simps)
      (simp add: m del: py_eq.simps)
qed

lemma operation_expiry:
  assumes "operation_new_mandate cfg now tok req = Inr (user, op, oid, m)"
    and "validity_seconds 300 (dget req ''validitySeconds'') = Inr validity" "0 \<le> now + of_int validity"
      "now + of_int validity < of_nat utc_limit"
  shows "strptime_utc (mandate_until m) = Inr \<lfloor>now + of_int validity\<rfloor>"
  by (rule operation_new_mandate_shape [OF assms(1)])
    (use assms(2-4) utc_text_parse(1) in \<open>auto simp: mandate_until_def operation_valid_time_def\<close>)

section \<open>The whole exchange with registered Ed25519 keys\<close>

lemma strip_ed25519 [simp]: "strip ed25519_name = ed25519_name"
  by (rule strip_no_space) (simp add: is_space_def)

lemma ed25519_method_name [simp]: "method_name (Some (ed25519_method C S)) = ed25519_name"
  by (simp add: method_name_def ed25519_method_def)

lemma ed25519_method_policy [simp]: "method_policy (Some (ed25519_method C S)) = []"
  by (simp add: method_policy_def ed25519_method_def)

context ed25519_registration
begin

text \<open>Signing with a registered key: the signature the signer attaches passes the server's check.\<close>

lemma sign_and_verify:
  assumes "ed25519_laws C" "invar st" "contents st cid = Some r" "uc_method r = ed25519_name" "uc_user r = u"
      "sort_dict (uc_public_key r) = sort_dict (ed25519_public_jwk C k)" "strip cid = cid" "cid \<noteq> []"
    and ctx: "sc_user ctx = Some u" "canonical_user_authorization_payload (sc_mandate ctx) = Inr msg"
      "sc_mandate ctx0 = sc_mandate ctx" "sc_method ctx = ed25519_name" "sc_method ctx0 = ed25519_name"
  obtains s sig ms where "ed25519_user_signer C cid k = Inr s" "sign_user_signature ctx0 s input = Inr sig"
    "verify_user_signature (Some (ed25519_method C S)) True st ctx sig = (Inr (True, []), ms)"
proof -
  from signed_verifies [OF assms(1-8) ctx(1-3), of input] obtain s sig
    where s: "ed25519_user_signer C cid k = Inr s" "us_method s = ed25519_name" "us_sign s ctx0 input = Inr sig"
      "dget sig ''signatureMethod'' = PStr ed25519_name" and v: "fst (ed25519_verify C S st ctx sig) = Inr (True, [])"
    by blast
  have "sign_user_signature ctx0 s input = Inr sig" using s ctx(5) by (simp add: sign_user_signature_def)
  moreover have "verify_user_signature (Some (ed25519_method C S)) True st ctx sig = ed25519_verify C S st ctx sig"
    using s(4) ctx(4) verify_user_signature_method [of sig "ed25519_method C S" ctx st] by (simp add: ed25519_method_def)
  ultimately show ?thesis using that s(1) v by (metis prod.collapse)
qed

lemma sign_created_intent:
  assumes laws: "ed25519_laws C"
    and cfg: "cfg_crypto cfg = C" "cfg_method cfg = Some (ed25519_method C S)" "cfg_require cfg"
    and new: "intent_new_mandate cfg now0 tok req = Inr (user, mid, m)"
    and cred: "invar st" "contents st cid = Some r" "uc_method r = ed25519_name" "uc_user r = u"
      "sort_dict (uc_public_key r) = sort_dict (ed25519_public_jwk C k)" "strip cid = cid" "cid \<noteq> []"
  obtains s sig ctx ms where "ed25519_user_signer C cid k = Inr s"
    "sign_user_mandate_with_signer m s None = Inr (attach_user_signature m sig)"
    "intent_user_signature_context m (Some u) = Inr ctx"
    "verify_user_signature (cfg_method cfg) (cfg_require cfg) st ctx sig = (Inr (True, []), ms)"
proof (rule intent_new_mandate_shape [OF new])
  fix validity start until acts pol dt k' sv subj
  assume a: "normalize_action_specs (dget (as_dict (dget req ''intent'')) ''actions'') = Inr acts"
    "normalize_execution_policy (dget (as_dict (dget req ''intent'')) ''executionPolicy'') = Inr pol"
    and m: "m = intent_mandate_of (''mdt_'' @ tok) (str_or (dget req ''server'') (cfg_server_id cfg)) subj
     (intent_scope_of acts pol) start until (user_authorization (cfg_require cfg) (cfg_method cfg)) dt sv []"
  note sc = intent_scope_of_fixed [OF a]
  obtain ctx where ctx: "intent_user_signature_context m (Some u) = Inr ctx" and c: "sc_user ctx = Some u" "sc_method ctx = ed25519_name"
    and msg: "canonical_user_authorization_payload (sc_mandate ctx) = Inr (user_payload (sc_mandate ctx))"
    and ctx0: "intent_user_signature_context m None = Inr (ctx\<lparr>sc_user := None\<rparr>)"
    using intent_context_of [OF sc, of "user_authorization True (cfg_method cfg)" True] intent_payload_of [OF sc] cfg
    by (simp add: m)
  obtain s sig ms where s: "ed25519_user_signer C cid k = Inr s" "sign_user_signature (ctx\<lparr>sc_user := None\<rparr>) s None = Inr sig"
    "verify_user_signature (Some (ed25519_method C S)) True st ctx sig = (Inr (True, []), ms)"
    by (rule sign_and_verify [OF laws cred c(1) msg, of "ctx\<lparr>sc_user := None\<rparr>" None]) (use c in simp_all)
  have "normalize_intent_mandate m = Inr m" using sc by (simp add: m)
  moreover have "map_of m ''type'' = Some (PStr intent_type)" by (simp add: m intent_mandate_of_def)
  ultimately have "sign_user_mandate_with_signer m s None = Inr (attach_user_signature m sig)"
    using ctx0 s(2) by (simp add: sign_user_mandate_with_signer_def dget_or_def)
  with s ctx cfg that show ?thesis by simp
qed

lemma intent_flow:
  assumes laws: "ed25519_laws C"
    and cfg: "cfg_crypto cfg = C" "cfg_method cfg = Some (ed25519_method C S)" "cfg_require cfg"
    and inv: "invar (st_method st)" and wf: "wf_val request"
    and prep: "intent_prepare cfg now0 tok st request = (Inr resp, st1)" "ir_mandate resp = Some m"
    and cred: "contents (st_method st) cid = Some r" "uc_method r = ed25519_name"
      "uc_user r = str_or (dget (payload request) ''userId'') []"
      "sort_dict (uc_public_key r) = sort_dict (ed25519_public_jwk C k)" "strip cid = cid" "cid \<noteq> []"
    and time: "validity_seconds 3600 (dget (payload request) ''validitySeconds'') = Inr validity" "0 \<le> now0"
      "now0 + of_int validity < of_nat utc_limit" "of_int \<lfloor>now0\<rfloor> \<le> now1" "now1 \<le> of_int \<lfloor>now0 + of_int validity\<rfloor>"
      "utc_text now2 = Inr issued"
  obtains s sm resp' st2 token where "ed25519_user_signer C cid k = Inr s"
    "sign_user_mandate_with_signer m s None = Inr sm"
    "intent_complete cfg now1 now2 tid nonce st1 [(''signedMandate'', PDict sm)] = (Inr resp', st2)"
    "ir_approved resp'" "ir_token resp' = Some token"
    "\<And>now action params. now \<le> of_int \<lfloor>now0 + of_int validity\<rfloor> \<Longrightarrow>
       verify_intent_token C (cfg_env cfg) now token action params None None None
       = Inr (params_match_intent_scope (as_dict (dget m ''intent'')) action params)"
proof (cases rule: intent_prepare_cases [of cfg now0 tok st request])
  case (failed r ms)
  with prep show ?thesis by simp
next
  case (prepared user mid m' opts ms)
  let ?req = "payload request"
  have m': "m' = m" and st1: "st1 = st\<lparr>st_method := ms, st_intents := AList.update mid \<lparr>pi_request = ?req, pi_mandate = m\<rparr> (st_intents st)\<rparr>"
    using prep prepared(3) by auto
  have ms: "invar ms" "contents ms = contents (st_method st)"
    using prepared(2) cfg options_frame [OF inv, of user m'] by (simp_all add: signing_options_def ed25519_method_def)
  have wfr: "wf_val (PDict ?req)" using wf_as_dict [OF wf] by (simp add: payload_def)
  have cred': "contents ms cid = Some r" using cred(1) ms(2) by simp
  obtain s sig ctx ms' where s: "ed25519_user_signer C cid k = Inr s"
    and sm: "sign_user_mandate_with_signer m s None = Inr (attach_user_signature m sig)"
    and ctx: "intent_user_signature_context m (Some (str_or (dget ?req ''userId'') [])) = Inr ctx"
    and sig0: "verify_user_signature (cfg_method cfg) (cfg_require cfg) ms ctx sig = (Inr (True, []), ms')"
    by (rule sign_created_intent [OF laws cfg prepared(1) [unfolded m'] ms(1) cred' cred(2-6)])
  have pend: "map_of (st_intents st1) mid = Some \<lparr>pi_request = ?req, pi_mandate = m\<rparr>" by (simp add: st1)
  have sig: "verify_user_signature (cfg_method cfg) (cfg_require cfg) (st_method st1) ctx sig = (Inr (True, []), ms')"
    using sig0 st1 by simp
  have pol: "wf_val (PDict (method_policy (cfg_method cfg)))" using cfg by simp
  have rq: "dget [(''signedMandate'', PDict (attach_user_signature m sig))] ''signedMandate'' = PDict (attach_user_signature m sig)"
    by simp
  have mid: "strip mid = mid" "mid \<noteq> []"
    by (rule intent_new_mandate_shape [OF prepared(1)], simp)+
  show ?thesis
  proof (rule intent_complete_created [OF laws [folded cfg(1)] prepared(1) [unfolded m'] pend wfr pol ctx sig time rq])
    fix k2 subj scope e
    assume tk: "intent_server_signing_key (cfg_crypto cfg) (cfg_env cfg) = Inr k2"
      "normalize_intent_scope (PDict scope) = Inr scope" "dget m ''intent'' = PDict scope"
      "parse_utc e = Some \<lfloor>now0 + of_int validity\<rfloor>" "strip e = e"
      and fin: "intent_complete cfg now1 now2 tid nonce st1 [(''signedMandate'', PDict (attach_user_signature m sig))] =
      (Inr \<lparr>ir_mandate = Some (attach_user_signature m sig), ir_options = [],
          ir_token = Some (issued_token (cfg_crypto cfg) k2 tid mid subj user scope issued e nonce),
          ir_result = Some (vr_ok None), ir_approved = True, ir_reason = None\<rparr>,
       st1\<lparr>st_method := ms', st_intents := AList.delete mid (st_intents st1)\<rparr>)"
    have tok: "verify_intent_token C (cfg_env cfg) now (issued_token C k2 tid mid subj user scope issued e nonce) action params None None None
        = Inr (params_match_intent_scope (as_dict (dget m ''intent'')) action params)"
      if "now \<le> of_int \<lfloor>now0 + of_int validity\<rfloor>" for now action params
      using verify_issued_token [OF laws tk(2) _ _ tk(4,5) that, of "cfg_env cfg" k2 mid] tk(1,3) cfg(1) mid
      by (simp add: check_issued_token)
    show ?thesis
      by (rule that [OF s sm fin]) (use tok cfg(1) in simp_all)
  qed
qed

lemma sign_created_operation:
  assumes laws: "ed25519_laws C"
    and cfg: "cfg_crypto cfg = C" "cfg_method cfg = Some (ed25519_method C S)" "cfg_require cfg"
    and new: "operation_new_mandate cfg now0 tok req = Inr (user, op, oid, m)"
    and cred: "invar st" "contents st cid = Some r" "uc_method r = ed25519_name" "uc_user r = u"
      "sort_dict (uc_public_key r) = sort_dict (ed25519_public_jwk C k)" "strip cid = cid" "cid \<noteq> []"
  obtains s sig ctx ms where "ed25519_user_signer C cid k = Inr s"
    "sign_user_mandate_with_signer m s None = Inr (attach_user_signature m sig)"
    "operation_user_signature_context m (Some u) = Inr ctx"
    "verify_user_signature (cfg_method cfg) (cfg_require cfg) st ctx sig = (Inr (True, []), ms)"
proof (rule operation_new_mandate_shape [OF new])
  fix validity until local dt k' sv subj
  assume op: "normalize_operation op = Inr op"
    and m: "m = operation_mandate_of (''op_'' @ tok) (str_or (dget req ''server'') (cfg_server_id cfg)) subj op
       (operation_valid_time until local) (user_authorization (cfg_require cfg) (cfg_method cfg)) dt sv []"
  obtain ctx where ctx: "operation_user_signature_context m (Some u) = Inr ctx" and c: "sc_user ctx = Some u" "sc_method ctx = ed25519_name"
    and msg: "canonical_user_authorization_payload (sc_mandate ctx) = Inr (user_payload (sc_mandate ctx))"
    and ctx0: "operation_user_signature_context m None = Inr (ctx\<lparr>sc_user := None\<rparr>)"
    using operation_context_of [OF op, of "user_authorization True (cfg_method cfg)" True] operation_payload_of [OF op] cfg
    by (simp add: m)
  obtain s sig ms where s: "ed25519_user_signer C cid k = Inr s" "sign_user_signature (ctx\<lparr>sc_user := None\<rparr>) s None = Inr sig"
    "verify_user_signature (Some (ed25519_method C S)) True st ctx sig = (Inr (True, []), ms)"
    by (rule sign_and_verify [OF laws cred c(1) msg, of "ctx\<lparr>sc_user := None\<rparr>" None]) (use c in simp_all)
  have "normalize_operation_mandate m = Inr m" using op by (simp add: m)
  moreover have "map_of m ''type'' = Some (PStr operation_type)" by (simp add: m operation_mandate_of_def)
  ultimately have "sign_user_mandate_with_signer m s None = Inr (attach_user_signature m sig)"
    using ctx0 s(2) by (simp add: sign_user_mandate_with_signer_def dget_or_def)
  with s ctx cfg that show ?thesis by simp
qed

lemma operation_flow:
  assumes laws: "ed25519_laws C"
    and cfg: "cfg_crypto cfg = C" "cfg_method cfg = Some (ed25519_method C S)" "cfg_require cfg"
    and inv: "invar (st_method st)" and wf: "wf_val request"
    and prep: "operation_prepare cfg t0 now0 tok st request = (Inr ch, st1)" "oc_mandate ch = Some m"
    and kd: "keys_distinct (st_operations st)"
    and cred: "contents (st_method st) cid = Some r" "uc_method r = ed25519_name"
      "uc_user r = str_or (dget (payload request) ''userId'') []"
      "sort_dict (uc_public_key r) = sort_dict (ed25519_public_jwk C k)" "strip cid = cid" "cid \<noteq> []"
    and time: "validity_seconds 300 (dget (payload request) ''validitySeconds'') = Inr validity" "0 \<le> now0"
      "now0 + of_int validity < of_nat utc_limit" "now1 < of_int \<lfloor>now0 + of_int validity\<rfloor>"
      "now2 \<le> of_int \<lfloor>now0 + of_int validity\<rfloor>"
  obtains s sm res st2 oid where "ed25519_user_signer C cid k = Inr s"
    "sign_user_mandate_with_signer m s None = Inr sm"
    "operation_complete cfg now1 now2 st1
       (PDict [(''signedMandate'', PDict sm), (''operation'', dget (payload request) ''operation'')]) = (Inr res, st2)"
    "or_approved res" "or_operation res = Some oid" "mandate_identifier m = Inr oid" "map_of (st_operations st2) oid = None"
proof (cases rule: operation_prepare_cases [of cfg t0 now0 tok st request])
  case (failed r ms)
  with prep show ?thesis by simp
next
  case (prepared user op oid m' opts ms ex)
  let ?req = "payload request"
  let ?p = "\<lparr>po_request = ?req, po_operation = op, po_mandate = m, po_expire = ex\<rparr>"
  have m': "m' = m" and st1: "st1 = (prune_expired t0 st)\<lparr>st_method := ms,
      st_operations := AList.update oid ?p (st_operations (prune_expired t0 st))\<rparr>"
    using prep prepared(4) by auto
  have ms: "invar ms" "contents ms = contents (st_method st)"
    using prepared(2) cfg options_frame [OF inv, of user m'] by (simp_all add: signing_options_def ed25519_method_def)
  have wfr: "wf_val (PDict ?req)" using wf_as_dict [OF wf] by (simp add: payload_def)
  have cred': "contents ms cid = Some r" using cred(1) ms(2) by simp
  obtain s sig ctx ms' where s: "ed25519_user_signer C cid k = Inr s"
    and sm: "sign_user_mandate_with_signer m s None = Inr (attach_user_signature m sig)"
    and ctx: "operation_user_signature_context m (Some (str_or (dget ?req ''userId'') [])) = Inr ctx"
    and sig0: "verify_user_signature (cfg_method cfg) (cfg_require cfg) ms ctx sig = (Inr (True, []), ms')"
    by (rule sign_created_operation [OF laws cfg prepared(1) [unfolded m'] ms(1) cred' cred(2-6)])
  have "0 < validity" using time(1) by (auto simp: validity_seconds_def split: pyval.splits if_splits)
  then have nn: "0 \<le> now0 + of_int validity" using time(2) by simp
  have oid: "mandate_identifier m = Inr oid"
    using prepared(1) m' by (auto simp: operation_new_mandate_def rbind_Inr_iff)
  have ex: "ex = \<lfloor>now0 + of_int validity\<rfloor>"
    using operation_expiry [OF prepared(1) time(1) nn time(3)] prepared(3) by simp
  have live: "\<not> ex \<le> \<lfloor>now1\<rfloor>" using time(4) ex by (simp only: not_le floor_less_iff)
  have "keys_distinct (st_operations st1)" using kd by (simp add: st1 prune_expired_def)
  from map_of_prune [OF this, of now1 oid] have pend: "map_of (st_operations (prune_expired now1 st1)) oid = Some ?p"
    using live by (simp add: st1)
  have sig: "verify_user_signature (cfg_method cfg) (cfg_require cfg) (st_method st1) ctx sig = (Inr (True, []), ms')"
    using sig0 st1 by simp
  have pol: "wf_val (PDict (method_policy (cfg_method cfg)))" using cfg by simp
  let ?rq = "PDict [(''signedMandate'', PDict (attach_user_signature m sig)), (''operation'', dget ?req ''operation'')]"
  have rq: "dget (payload ?rq) ''signedMandate'' = PDict (attach_user_signature m sig)"
    "dget (payload ?rq) ''operation'' = dget ?req ''operation''"
    by (simp_all add: payload_def)
  note fin = operation_complete_created [OF laws [folded cfg(1)] prepared(1) [unfolded m'] pend wfr pol ctx sig
    time(1) nn time(3,5) rq]
  show ?thesis
    by (rule that [OF s sm fin _ _ oid]) simp_all
qed

end

end
