(* ===== verification/Server.thy ===== *)
theory Server
  imports AuthorizationFlow
begin

text \<open>
  \<open>server.py\<close>: the facade \<open>A4PServer\<close> and the server as a state machine. A call is one handler
  invocation together with the clock readings, random tokens and storage conditions it meets; a run
  is any sequence of calls, so the results cover every interleaving of requests.
\<close>

section \<open>Construction and facade operations\<close>

definition server_init :: "('sk, 'pk, 'm, 'u) a4p_config \<Rightarrow> 'm \<Rightarrow> 'u \<Rightarrow> ('m, 'u) a4p_state res" where
  "server_init cfg ms us =
     (if cfg_require cfg \<and> cfg_method cfg = None
      then Inl (ValueError ''user_signature_method is required when user signatures are enabled'')
      else if (case cfg_method cfg of None \<Rightarrow> False
               | Some M \<Rightarrow> sm_name M = [] \<or> sm_name M \<noteq> lower (strip (sm_name M)))
        then Inl (ValueError (''user_signature_method.signature_method must be a non-empty '' @ ''lowercase identifier''))
      else Inr \<lparr>st_intents = [], st_operations = [], st_method = ms, st_usage = us\<rparr>)"

definition require_signature_method :: "('sk, 'pk, 'm, 'u) a4p_config \<Rightarrow> string \<Rightarrow> unit res" where
  "require_signature_method cfg requested =
     (if map_option sm_name (cfg_method cfg) \<noteq> Some requested
      then Inl (SignatureMethodNotEnabled (map_option sm_name (cfg_method cfg)) requested) else Inr ())"

text \<open>\<open>store\<close> is the credential store when the configured method is a \<open>RegisteredEd25519Method\<close>.\<close>

definition register_ed25519_credential ::
  "('sk, 'pk, 'm, 'u) a4p_config \<Rightarrow> 'm cred_store option \<Rightarrow> string \<Rightarrow> rat \<Rightarrow> ('m, 'u) a4p_state \<Rightarrow> pdict \<Rightarrow>
   pdict res \<times> ('m, 'u) a4p_state" where
  "register_ed25519_credential cfg store token now st request =
     (case require_signature_method cfg ed25519_name of
        Inl e \<Rightarrow> (Inl e, st)
      | Inr _ \<Rightarrow>
          (case store of
             None \<Rightarrow> (Inl (ValueError ''Configured ed25519 method does not support registration''), st)
           | Some S \<Rightarrow>
               (let (r, ms) = ed25519_register (cfg_crypto cfg) S token now (st_method st) request
                in (r, st\<lparr>st_method := ms\<rparr>))))"

definition server_trust_config :: "('sk, 'pk, 'm, 'u) a4p_config \<Rightarrow> pdict res" where
  "server_trust_config cfg =
     rbind (intent_server_trusted_key (cfg_crypto cfg) (cfg_env cfg)) (\<lambda>ik.
     rbind (operation_server_trusted_key (cfg_crypto cfg) (cfg_env cfg)) (\<lambda>ok.
       Inr [(cfg_server_id cfg, PDict (AList.update (py_str (dget ok ''keyId''))
              (PDict [(''alg'', dget ok ''alg''), (''publicKey'', dget ok ''publicKey'')])
            [(py_str (dget ik ''keyId''),
              PDict [(''alg'', dget ik ''alg''), (''publicKey'', dget ik ''publicKey'')])]))]))"

section \<open>The server as a state machine\<close>

datatype server_call =
    PrepareIntent rat string pyval
  | CompleteIntent rat rat string string pdict
  | VerifyToken rat bool int pyval
  | PrepareOperation rat rat string pyval
  | CompleteOperation rat rat pyval
  | RegisterCredential string rat pdict

datatype server_answer =
    IntentAnswer "intent_response res"
  | TokenAnswer "token_response res"
  | ChallengeAnswer "operation_challenge res"
  | OperationAnswer "operation_result res"
  | RegisterAnswer "pdict res"

fun server_step ::
  "('sk, 'pk, 'm, 'u) a4p_config \<Rightarrow> 'm cred_store option \<Rightarrow> ('m, 'u) a4p_state \<Rightarrow> server_call \<Rightarrow>
   server_answer \<times> ('m, 'u) a4p_state" where
  "server_step cfg store st (PrepareIntent now tok req) = map_prod IntentAnswer id (intent_prepare cfg now tok st req)"
| "server_step cfg store st (CompleteIntent now1 now2 tid nonce req) =
     map_prod IntentAnswer id (intent_complete cfg now1 now2 tid nonce st req)"
| "server_step cfg store st (VerifyToken now av snow req) =
     map_prod TokenAnswer id (intent_verify_token cfg now av snow st req)"
| "server_step cfg store st (PrepareOperation now0 now1 tok req) =
     map_prod ChallengeAnswer id (operation_prepare cfg now0 now1 tok st req)"
| "server_step cfg store st (CompleteOperation now0 now1 req) =
     map_prod OperationAnswer id (operation_complete cfg now0 now1 st req)"
| "server_step cfg store st (RegisterCredential tok now req) =
     map_prod RegisterAnswer id (register_ed25519_credential cfg store tok now st req)"

fun server_run ::
  "('sk, 'pk, 'm, 'u) a4p_config \<Rightarrow> 'm cred_store option \<Rightarrow> ('m, 'u) a4p_state \<Rightarrow> server_call list \<Rightarrow>
   server_answer list \<times> ('m, 'u) a4p_state" where
  "server_run cfg store st [] = ([], st)"
| "server_run cfg store st (c # cs) =
     (let (a, st1) = server_step cfg store st c; (as, st2) = server_run cfg store st1 cs in (a # as, st2))"

section \<open>Approvals are used up\<close>

text \<open>Answers that put an authorization \<open>i\<close> up for completion, and answers that approve it.\<close>

fun prepares :: "string \<Rightarrow> server_answer \<Rightarrow> bool" where
  "prepares i (IntentAnswer (Inr r)) = (ir_result r = None \<and> (\<exists>m. ir_mandate r = Some m \<and> mandate_identifier m = Inr i))"
| "prepares i (ChallengeAnswer (Inr ch)) = (\<exists>m. oc_mandate ch = Some m \<and> mandate_identifier m = Inr i)"
| "prepares i _ = False"

fun approves :: "string \<Rightarrow> server_answer \<Rightarrow> bool" where
  "approves i (IntentAnswer (Inr r)) = (ir_approved r \<and> (\<exists>m. ir_mandate r = Some m \<and> mandate_identifier m = Inr i))"
| "approves i (OperationAnswer (Inr r)) = (or_approved r \<and> or_operation r = Some i)"
| "approves i _ = False"

definition pending_count :: "('m, 'u) a4p_state \<Rightarrow> string \<Rightarrow> nat" where
  "pending_count st i = of_bool (i \<in> dom (map_of (st_intents st))) + of_bool (i \<in> dom (map_of (st_operations st)))"

definition server_inv :: "('sk, 'pk, 'm, 'u) a4p_config \<Rightarrow> ('m, 'u) a4p_state \<Rightarrow> bool" where
  "server_inv cfg st \<longleftrightarrow> intent_pending_inv cfg st \<and> operation_pending_inv cfg st"

lemma server_inv_init: "server_init cfg ms us = Inr st \<Longrightarrow> server_inv cfg st"
  by (auto simp: server_init_def server_inv_def intent_pending_inv_def operation_pending_inv_def split: if_splits)

text \<open>Each handler leaves the part of the state that is not its own.\<close>

lemma intent_inv_frame [simp]:
  "intent_pending_inv cfg (st\<lparr>st_operations := x\<rparr>) = intent_pending_inv cfg st"
  "intent_pending_inv cfg (prune_expired now st) = intent_pending_inv cfg st"
  by (simp_all add: intent_pending_inv_def prune_expired_def)

lemma operation_inv_frame [simp]: "operation_pending_inv cfg (st\<lparr>st_intents := x\<rparr>) = operation_pending_inv cfg st"
  by (simp add: operation_pending_inv_def)

lemma register_frame: "\<exists>ms. snd (register_ed25519_credential cfg store tok now st req) = st\<lparr>st_method := ms\<rparr>"
  by (auto simp: register_ed25519_credential_def split: sum.splits option.splits prod.splits intro: exI [of _ "st_method st"])

lemma operations_frame_of_intents:
  "operation_pending_inv cfg st \<Longrightarrow> operation_pending_inv cfg (snd (intent_prepare cfg now tok st req))"
  "operation_pending_inv cfg st \<Longrightarrow> operation_pending_inv cfg (snd (intent_complete cfg now1 now2 tid nonce st rq))"
  by (cases rule: intent_prepare_cases [of cfg now tok st req]; simp)
    (cases rule: intent_complete_cases [of cfg now1 now2 tid nonce st rq]; simp)

lemma intents_frame_of_operations:
  "intent_pending_inv cfg st \<Longrightarrow> intent_pending_inv cfg (snd (operation_prepare cfg now0 now1 tok st req))"
  "intent_pending_inv cfg st \<Longrightarrow> intent_pending_inv cfg (snd (complete_pending cfg now st rq sm oid p))"
  by (cases rule: operation_prepare_cases [of cfg now0 now1 tok st req]; simp)
    (cases rule: complete_pending_cases [of cfg now st rq sm oid p]; simp)

lemma server_step_inv:
  assumes "server_inv cfg st"
  shows "server_inv cfg (snd (server_step cfg store st c))"
proof (cases c)
  case (PrepareIntent now tok req)
  then show ?thesis using assms by (simp add: server_inv_def intent_prepare_inv operations_frame_of_intents)
next
  case (CompleteIntent now1 now2 tid nonce req)
  then show ?thesis using assms by (simp add: server_inv_def intent_complete_inv operations_frame_of_intents)
next
  case (VerifyToken now av snow req)
  then show ?thesis
    using assms by (cases rule: intent_verify_token_cases [of cfg now av snow st req]) (simp_all add: server_inv_def)
next
  case (PrepareOperation now0 now1 tok req)
  then show ?thesis using assms by (simp add: server_inv_def operation_prepare_inv intents_frame_of_operations)
next
  case (CompleteOperation now0 now1 req)
  have "intent_pending_inv cfg (snd (operation_complete cfg now0 now1 st req))"
    using assms
    by (cases rule: operation_complete_cases [of cfg now0 now1 st req]) (simp_all add: server_inv_def intents_frame_of_operations)
  then show ?thesis using CompleteOperation assms by (simp add: server_inv_def operation_complete_inv)
next
  case (RegisterCredential tok now req)
  then show ?thesis using assms register_frame [of cfg store tok now st req] by (auto simp: server_inv_def)
qed

lemma server_run_inv: "server_inv cfg st \<Longrightarrow> server_inv cfg (snd (server_run cfg store st cs))"
proof (induction cs arbitrary: st)
  case (Cons c cs)
  then show ?case using server_step_inv [OF Cons.prems, of store c] by (auto split: prod.splits) (metis snd_conv)
qed simp

lemma new_mandate_identifiers:
  "intent_new_mandate cfg now tok req = Inr (user, mid, m) \<Longrightarrow> mandate_identifier m = Inr mid"
  "operation_new_mandate cfg now tok req = Inr (user, op, oid, m) \<Longrightarrow> mandate_identifier m = Inr oid"
  by (auto simp: intent_new_mandate_def operation_new_mandate_def Let_def rbind_Inr_iff split: if_splits)

lemma dom_prune: "dom (map_of (st_operations (prune_expired now st))) \<subseteq> dom (map_of (st_operations st))"
  by (auto simp: prune_expired_def dom_map_of_conv_image_fst)

lemma pending_count_prune: "pending_count (prune_expired now st) i \<le> pending_count st i"
  using dom_prune [of now st] by (auto simp: pending_count_def)

lemma pending_count_frame [simp]:
  "pending_count (st\<lparr>st_method := ms\<rparr>) i = pending_count st i"
  "pending_count (st\<lparr>st_usage := us\<rparr>) i = pending_count st i"
  by (simp_all add: pending_count_def)

text \<open>A step that approves \<open>i\<close> uses up a pending entry for \<open>i\<close>; only a prepare step makes one.\<close>

lemma intent_step_count:
  "pending_count (snd (intent_prepare cfg now tok st req)) i
     \<le> pending_count st i + of_bool (prepares i (IntentAnswer (fst (intent_prepare cfg now tok st req))))"
  "\<not> approves i (IntentAnswer (fst (intent_prepare cfg now tok st req)))"
  "pending_count (snd (intent_complete cfg now1 now2 tid nonce st rq)) i
     + of_bool (approves i (IntentAnswer (fst (intent_complete cfg now1 now2 tid nonce st rq)))) \<le> pending_count st i"
proof -
  show "pending_count (snd (intent_prepare cfg now tok st req)) i
     \<le> pending_count st i + of_bool (prepares i (IntentAnswer (fst (intent_prepare cfg now tok st req))))"
  proof (cases rule: intent_prepare_cases [of cfg now tok st req])
    case (prepared user mid m opts ms)
    then show ?thesis
      using new_mandate_identifiers(1) [OF prepared(1)] by (cases "i = mid") (simp_all add: pending_count_def dom_def)
  qed simp
  show "\<not> approves i (IntentAnswer (fst (intent_prepare cfg now tok st req)))"
    by (cases rule: intent_prepare_cases [of cfg now tok st req]; cases "fst (intent_prepare cfg now tok st req)") auto
  show "pending_count (snd (intent_complete cfg now1 now2 tid nonce st rq)) i
     + of_bool (approves i (IntentAnswer (fst (intent_complete cfg now1 now2 tid nonce st rq)))) \<le> pending_count st i"
  proof (cases rule: intent_complete_cases [of cfg now1 now2 tid nonce st rq])
    case (refused r ms)
    then show ?thesis by (cases r) auto
  next
    case (consumed sm mid pend why ms)
    let ?r = "fst (intent_complete cfg now1 now2 tid nonce st rq)"
    have "approves i (IntentAnswer ?r) \<Longrightarrow> i = mid"
      using consumed(2,6) by (cases ?r) (auto simp: rbind_Inr_iff)
    moreover have "snd (intent_complete cfg now1 now2 tid nonce st rq)
        = st\<lparr>st_method := ms, st_intents := AList.delete mid (st_intents st)\<rparr>"
      using consumed(6) by simp
    ultimately show ?thesis
      using consumed(3) by (cases "approves i (IntentAnswer ?r)") (simp_all add: pending_count_def dom_def)
  qed
qed

lemma operation_step_count:
  "pending_count (snd (operation_prepare cfg now0 now1 tok st req)) i
     \<le> pending_count st i + of_bool (prepares i (ChallengeAnswer (fst (operation_prepare cfg now0 now1 tok st req))))"
  "pending_count (snd (operation_complete cfg now0 now1 st rq)) i
     + of_bool (approves i (OperationAnswer (fst (operation_complete cfg now0 now1 st rq)))) \<le> pending_count st i"
proof -
  show "pending_count (snd (operation_prepare cfg now0 now1 tok st req)) i
     \<le> pending_count st i + of_bool (prepares i (ChallengeAnswer (fst (operation_prepare cfg now0 now1 tok st req))))"
  proof (cases rule: operation_prepare_cases [of cfg now0 now1 tok st req])
    case (prepared user op oid m opts ms ex)
    then show ?thesis
      using new_mandate_identifiers(2) [OF prepared(1)] pending_count_prune [of now0 st i]
      by (cases "i = oid") (simp_all add: pending_count_def dom_def)
  qed (use pending_count_prune [of now0 st i] in simp)
  have rest: "pending_count (snd (complete_pending cfg now1 st' q sm oid p)) i
     + of_bool (approves i (OperationAnswer (fst (complete_pending cfg now1 st' q sm oid p)))) \<le> pending_count st' i"
    if "map_of (st_operations st') oid = Some p" for st' q sm oid p
  proof (cases rule: complete_pending_cases [of cfg now1 st' q sm oid p])
    case (refused r ms)
    then show ?thesis by (cases r) auto
  next
    case consumed
    with that show ?thesis by (cases "i = oid") (simp_all add: pending_count_def dom_def)
  qed
  show "pending_count (snd (operation_complete cfg now0 now1 st rq)) i
     + of_bool (approves i (OperationAnswer (fst (operation_complete cfg now0 now1 st rq)))) \<le> pending_count st i"
  proof (cases rule: operation_complete_cases [of cfg now0 now1 st rq])
    case (refused r ms)
    then show ?thesis using pending_count_prune [of now0 st i] by (cases r) auto
  next
    case (found sm oid p)
    then show ?thesis using rest [OF found(3), of "payload rq" sm] pending_count_prune [of now0 st i] by simp
  qed
qed

lemma server_step_count:
  "pending_count (snd (server_step cfg store st c)) i + of_bool (approves i (fst (server_step cfg store st c)))
   \<le> pending_count st i + of_bool (prepares i (fst (server_step cfg store st c)))"
proof (cases c)
  case (VerifyToken now av snow req)
  then show ?thesis by (cases rule: intent_verify_token_cases [of cfg now av snow st req]) simp_all
next
  case (RegisterCredential tok now req)
  then show ?thesis using register_frame [of cfg store tok now st req] by auto
next
  case (PrepareIntent now tok req)
  then show ?thesis using intent_step_count(1,2) [where cfg = cfg and now = now and tok = tok and st = st and req = req and i = i] by simp
next
  case (CompleteIntent now1 now2 tid nonce req)
  then show ?thesis using intent_step_count(3) [of cfg now1 now2 tid nonce st req i] by simp
next
  case (PrepareOperation now0 now1 tok req)
  then show ?thesis using operation_step_count(1) [of cfg now0 now1 tok st req i] by simp
next
  case (CompleteOperation now0 now1 req)
  then show ?thesis using operation_step_count(2) [of cfg now0 now1 st req i] by simp
qed

lemma server_run_count:
  "pending_count (snd (server_run cfg store st cs)) i + length (filter (approves i) (fst (server_run cfg store st cs)))
   \<le> pending_count st i + length (filter (prepares i) (fst (server_run cfg store st cs)))"
proof (induction cs arbitrary: st)
  case (Cons c cs)
  obtain a st1 where s: "server_step cfg store st c = (a, st1)" by fastforce
  obtain as st2 where r: "server_run cfg store st1 cs = (as, st2)" by fastforce
  show ?case
    using server_step_count [of cfg store st c i] Cons.IH [of st1] s r
    by (cases "approves i a"; cases "prepares i a") simp_all
qed simp

section \<open>The user's side accepts what the server creates\<close>

lemma strip_key_ids [simp]: "strip intent_key_id = intent_key_id" "strip operation_key_id = operation_key_id"
  by (rule strip_no_space, simp add: is_space_def)+

lemma own_public_key:
  assumes "ed25519_laws C"
  shows "ed25519_public_key_from_base64url C (ed25519_public_key_to_base64url C p) = Inr p"
    "strip (ed25519_public_key_to_base64url C p) = ed25519_public_key_to_base64url C p"
  using assms by (auto simp: public_key_accepted_iff ed25519_public_key_to_base64url_def ed25519_laws_def)

lemma server_trust_config_keys:
  assumes "ed25519_laws (cfg_crypto cfg)" "strip (cfg_server_id cfg) = cfg_server_id cfg" "cfg_server_id cfg \<noteq> []"
    and "intent_server_signing_key (cfg_crypto cfg) (cfg_env cfg) = Inr ki"
    and "operation_server_signing_key (cfg_crypto cfg) (cfg_env cfg) = Inr ko"
  obtains d ts where "server_trust_config cfg = Inr d" "trust_store_init (cfg_crypto cfg) d = Inr ts"
    "map_of ts (cfg_server_id cfg, intent_key_id) = Some (''EdDSA'', cr_public (cfg_crypto cfg) ki)"
    "map_of ts (cfg_server_id cfg, operation_key_id) = Some (''EdDSA'', cr_public (cfg_crypto cfg) ko)"
proof -
  let ?C = "cfg_crypto cfg"
  let ?key = "\<lambda>k. PDict [(''alg'', PStr ''EdDSA''), (''publicKey'', PStr (ed25519_public_key_to_base64url ?C (cr_public ?C k)))]"
  have add: "add_trusted_key ?C sid kid (?key k) ts = Inr (AList.update (strip sid, strip kid) (''EdDSA'', cr_public ?C k) ts)"
    if "strip kid \<noteq> []" for sid kid k ts
    using that own_public_key [OF assms(1)] by (simp add: add_trusted_key_def)
  have d: "server_trust_config cfg = Inr [(cfg_server_id cfg, PDict [(intent_key_id, ?key ki), (operation_key_id, ?key ko)])]"
    using assms(4,5)
    by (simp add: server_trust_config_def intent_server_trusted_key_def operation_server_trusted_key_def py_str_def)
  let ?sid = "cfg_server_id cfg"
  let ?ts = "AList.update (?sid, operation_key_id) (''EdDSA'', cr_public ?C ko)
    (AList.update (?sid, intent_key_id) (''EdDSA'', cr_public ?C ki) [])"
  show ?thesis
    by (rule that [OF d, of ?ts]) (use assms(2,3) add in \<open>simp_all add: trust_store_init_def\<close>)
qed

text \<open>With that configuration the user's local check accepts the server's mandates and returns their core.\<close>

lemma trusted_intent:
  assumes "ed25519_laws C" "normalize_intent_scope (PDict sc) = Inr sc" "strip srv = srv" "srv \<noteq> []"
    and "map_of ts (srv, intent_key_id) = Some (''EdDSA'', cr_public C k)"
    and "sv = server_signature intent_key_id (ed25519_sign_text C (server_payload (intent_core_list mid srv subj sc s e ua dt)) k)"
  shows "verify_trusted_server_mandate C ts (intent_mandate_of mid srv subj sc s e ua dt sv us)
    = Inr (intent_core_list mid srv subj sc s e ua dt)"
proof -
  let ?core = "intent_core_list mid srv subj sc s e ua dt"
  have "mandate_core_payload (intent_mandate_of mid srv subj sc s e ua dt sv us) = Inr ?core"
    using assms(2) by (simp add: mandate_core_payload_def)
  moreover have "dget ?core ''server'' = PStr srv" by (simp add: intent_core_list_def)
  ultimately show ?thesis
    using assms by (simp add: verify_trusted_server_mandate_def server_signature_def trust_resolve_def verify_sign_text Let_def)
qed

lemma trusted_operation:
  assumes "ed25519_laws C" "normalize_operation op = Inr op" "strip srv = srv" "srv \<noteq> []"
    and "map_of ts (srv, operation_key_id) = Some (''EdDSA'', cr_public C k)"
    and "sv = server_signature operation_key_id (ed25519_sign_text C (server_payload (operation_core_list oid srv subj op vt ua dt)) k)"
  shows "verify_trusted_server_mandate C ts (operation_mandate_of oid srv subj op vt ua dt sv us)
    = Inr (operation_core_list oid srv subj op vt ua dt)"
proof -
  let ?core = "operation_core_list oid srv subj op vt ua dt"
  have "mandate_core_payload (operation_mandate_of oid srv subj op vt ua dt sv us) = Inr ?core"
    using assms(2) by (simp add: mandate_core_payload_def)
  moreover have "dget ?core ''server'' = PStr srv" by (simp add: operation_core_list_def)
  ultimately show ?thesis
    using assms by (simp add: verify_trusted_server_mandate_def server_signature_def trust_resolve_def verify_sign_text Let_def)
qed

lemma server_mandates_trusted:
  assumes laws: "ed25519_laws (cfg_crypto cfg)" and srv: "strip (cfg_server_id cfg) = cfg_server_id cfg" "cfg_server_id cfg \<noteq> []"
    and cfgd: "server_trust_config cfg = Inr d" "trust_store_init (cfg_crypto cfg) d = Inr ts"
  shows "intent_new_mandate cfg now tok req = Inr (user, mid, m) \<Longrightarrow> \<not> truthy (dget req ''server'') \<Longrightarrow>
      \<exists>core. verify_trusted_server_mandate (cfg_crypto cfg) ts m = Inr core \<and> intent_mandate_core_payload m = Inr core"
    and "operation_new_mandate cfg now tok req = Inr (user, op, oid, m) \<Longrightarrow> \<not> truthy (dget req ''server'') \<Longrightarrow>
      \<exists>core. verify_trusted_server_mandate (cfg_crypto cfg) ts m = Inr core \<and> operation_mandate_core_payload m = Inr core"
proof -
  obtain ki ko where k: "intent_server_signing_key (cfg_crypto cfg) (cfg_env cfg) = Inr ki"
    "operation_server_signing_key (cfg_crypto cfg) (cfg_env cfg) = Inr ko"
    using cfgd(1) by (auto simp: server_trust_config_def intent_server_trusted_key_def operation_server_trusted_key_def rbind_Inr_iff)
  have keys: "map_of ts (cfg_server_id cfg, intent_key_id) = Some (''EdDSA'', cr_public (cfg_crypto cfg) ki)"
    "map_of ts (cfg_server_id cfg, operation_key_id) = Some (''EdDSA'', cr_public (cfg_crypto cfg) ko)"
    by (rule server_trust_config_keys [OF laws srv k]; use cfgd in simp)+
  have sid: "str_or (dget req ''server'') (cfg_server_id cfg) = cfg_server_id cfg" if "\<not> truthy (dget req ''server'')"
    using that by (simp add: str_or_def py_or_def py_str_def)
  {
    assume n: "intent_new_mandate cfg now tok req = Inr (user, mid, m)" "\<not> truthy (dget req ''server'')"
    show "\<exists>core. verify_trusted_server_mandate (cfg_crypto cfg) ts m = Inr core \<and> intent_mandate_core_payload m = Inr core"
      by (rule intent_new_mandate_shape [OF n(1)])
        (use k(1) sid [OF n(2)] trusted_intent [OF laws _ srv keys(1)] intent_scope_of_fixed in simp)
  next
    assume n: "operation_new_mandate cfg now tok req = Inr (user, op, oid, m)" "\<not> truthy (dget req ''server'')"
    show "\<exists>core. verify_trusted_server_mandate (cfg_crypto cfg) ts m = Inr core \<and> operation_mandate_core_payload m = Inr core"
      by (rule operation_new_mandate_shape [OF n(1)])
        (use k(2) sid [OF n(2)] trusted_operation [OF laws _ srv keys(2)] in simp)
  }
qed

section \<open>Boundary cases\<close>

text \<open>A value whose \<open>type\<close> is a list or an object makes the identifier raise \<open>TypeError\<close>, which no handler catches.\<close>

lemma intent_complete_unhashable:
  "dget request ''signedMandate'' = PDict sm \<Longrightarrow> \<not> hashable (dget sm ''type'') \<Longrightarrow>
   intent_complete cfg now1 now2 tid nonce st request = (Inl (TypeError ''unhashable type''), st)"
  by (simp add: intent_complete_def mandate_identifier_def)

lemma operation_complete_unhashable:
  "dget (payload request) ''signedMandate'' = PDict sm \<Longrightarrow> \<not> hashable (dget sm ''type'') \<Longrightarrow>
   operation_complete cfg now0 now1 st request = (Inl (TypeError ''unhashable type''), prune_expired now0 st)"
  by (simp add: operation_complete_def mandate_identifier_def operation_error_def Let_def)

text \<open>A period whose end the platform cannot represent raises \<open>OverflowError\<close> out of \<open>prepare\<close>.\<close>

lemma intent_prepare_overflow:
  assumes "text_of (dget req ''agentId'') \<noteq> []" "text_of (dget req ''userId'') \<noteq> []"
    and "dget req ''validitySeconds'' = PInt v" "gmtime_max < \<lfloor>now + of_int v\<rfloor>" "0 < v" "\<lfloor>now\<rfloor> \<le> gmtime_max"
    and "map_of (as_dict (dget req ''intent'')) ''executionPolicy'' \<noteq> Some PNone"
    and "cfg_require cfg \<Longrightarrow> method_name (cfg_method cfg) \<noteq> []"
  shows "intent_prepare cfg now tok st (PDict req)
    = (Inl (OverflowError ''timestamp out of range for platform time_t''), st)"
proof -
  have "create_intent_mandate cfg now tok server agent acts pol v stype key
      = Inl (OverflowError ''timestamp out of range for platform time_t'')" for server agent acts pol stype key
    using assms(4,6,8) by (auto simp: create_intent_mandate_def utc_text_def)
  with assms show ?thesis
    by (simp add: intent_prepare_def payload_def intent_new_mandate_def required_text_def validity_seconds_def Let_def
        intent_prepare_error_def)
qed

text \<open>An approved authorization is gone: completing it again is refused.\<close>

lemma operation_replay:
  assumes "operation_complete cfg now0 now1 st request = (Inr res, st1)" "or_approved res"
    and "keys_distinct (st_operations st)"
  shows "\<exists>oid. or_operation res = Some oid \<and>
    fst (operation_complete cfg now2 now3 st1 request) = Inr \<lparr>or_operation = None, or_approved = False,
      or_result = Some (vr_fail ''No pending operation authorization'' ''AUTHORIZATION_NOT_PENDING''),
      or_reason = Some (''No pending operation authorization: '' @ oid)\<rparr>"
proof (cases rule: operation_complete_cases [of cfg now0 now1 st request])
  case (refused r ms)
  with assms show ?thesis by simp
next
  case (found sm oid p)
  show ?thesis
  proof (cases rule: complete_pending_cases [of cfg now1 "prune_expired now0 st" "payload request" sm oid p])
    case (refused r ms)
    with found assms show ?thesis by simp
  next
    case (consumed current sop why ms)
    have st1: "st1 = (prune_expired now0 st)\<lparr>st_method := ms, st_operations := AList.delete oid (st_operations (prune_expired now0 st))\<rparr>"
      and res: "or_operation res = Some oid"
      using found(4) consumed(7) assms(1) by auto
    have "keys_distinct (st_operations st1)" using assms(3) by (simp add: st1 prune_expired_def)
    from map_of_prune [OF this, of now2 oid] have "map_of (st_operations (prune_expired now2 st1)) oid = None"
      by (simp add: st1)
    with found(1,2) res show ?thesis by (simp add: operation_complete_def Let_def)
  qed
qed

lemma intent_replay:
  assumes "intent_complete cfg now1 now2 tid nonce st request = (Inr resp, st1)" "ir_approved resp"
  shows "\<exists>mid. intent_complete cfg now3 now4 tid' nonce' st1 request =
    (Inr (intent_rejected None (''No pending intent authorization: '' @ mid)
       (vr_fail ''No pending intent authorization'' ''AUTHORIZATION_NOT_PENDING'')), st1)"
proof (cases rule: intent_complete_cases [of cfg now1 now2 tid nonce st request])
  case (refused r ms)
  with assms show ?thesis by simp
next
  case (consumed sm mid pend why ms)
  have "st_intents st1 = AList.delete mid (st_intents st)" using consumed(6) assms(1) by auto
  with consumed(1,2) show ?thesis by (intro exI [of _ mid]) (simp add: intent_complete_def)
qed

text \<open>
  The expected user of \<open>complete\<close> is the identifier as it was sent, while credentials carry the stripped
  one: with blanks around the user identifier a prepared authorization can never be completed.
\<close>

context ed25519_registration
begin

lemmas intent_sound = sig.intent_complete_sound

lemmas operation_sound = sig.operation_complete_sound

lemma padded_user_refused:
  assumes cfg: "cfg_crypto cfg = C" "cfg_method cfg = Some (ed25519_method C S)" "cfg_require cfg"
    and inv: "invar (st_method st)"
    and users: "\<And>c r. contents (st_method st) c = Some r \<Longrightarrow> strip (uc_user r) = uc_user r"
    and ok: "intent_complete cfg now1 now2 tid nonce st request = (Inr resp, st')"
      "mandate_identifier (as_dict (dget request ''signedMandate'')) = Inr mid"
      "map_of (st_intents st) mid = Some pend"
      "strip (str_or (dget (pi_request pend) ''userId'') []) \<noteq> str_or (dget (pi_request pend) ''userId'') []"
  shows "\<not> ir_approved resp"
proof
  assume app: "ir_approved resp"
  show False
  proof (rule sig.intent_complete_sound [OF cfg(2,3) inv ok(1) app])
    fix sm mid' pend' n ctx
    assume s: "dget request ''signedMandate'' = PDict sm" "mandate_identifier sm = Inr mid'"
      "map_of (st_intents st) mid' = Some pend'"
      "ed25519_endorsed C (contents (st_method st)) (str_or (dget (pi_request pend') ''userId'') []) (sc_mandate ctx)
        (signature_of n ''user'')"
    have "pend' = pend" using s(1-3) ok(2,3) by simp
    then obtain c r where r: "contents (st_method st) c = Some (norm_cred r)"
      "uc_user r = str_or (dget (pi_request pend) ''userId'') []"
      using s(4) by (auto simp: ed25519_endorsed_def)
    from users [OF r(1)] r(2) ok(4) show False by simp
  qed
qed

end

text \<open>
  Responses leave the server through \<open>to_payload\<close>, which drops every \<open>None\<close> below the response object,
  also inside the signed mandate: an operation with a null parameter does not match itself any more.
\<close>

lemma to_payload_items_length: "length (to_payload_items d) \<le> length d"
  by (induction d) auto

lemma to_payload_items_null: "(k, PNone) \<in> set d \<Longrightarrow> length (to_payload_items d) < length d"
  by (induction d) (auto simp: less_Suc_eq_le to_payload_items_length)

lemma to_payload_operation_mandate:
  "to_payload_items (operation_mandate_of oid srv subj op vt ua dt sv []) =
   operation_mandate_of oid srv (to_payload_items subj) (to_payload_items op) (to_payload_items vt)
     (to_payload_items ua) dt (to_payload_items sv) []"
  by (simp add: operation_mandate_of_def)

lemma operation_mandate_params_differ:
  assumes "length ps \<noteq> length qs"
  shows "\<not> py_eq (PDict (operation_mandate_of oid srv subj [(''action'', PStr a), (''params'', PDict ps)] vt ua dt sv us))
    (PDict (operation_mandate_of oid srv' subj' [(''action'', PStr a), (''params'', PDict qs)] vt' ua' dt' sv' us'))"
  (is "\<not> py_eq (PDict ?m) (PDict ?n)")
proof
  assume eq: "py_eq (PDict ?m) (PDict ?n)"
  have "keys_distinct ?m" by (simp add: operation_mandate_of_def)
  from py_eq_dict_lookup [OF this eq, of "''operation''"] assms show False by (simp add: operation_mandate_of_def)
qed

lemma null_param_mismatch:
  assumes "operation_new_mandate cfg now tok req = Inr (user, op, oid, m)"
    and "dget op ''params'' = PDict ps" "(k, PNone) \<in> set ps"
  shows "mandate_matches_pending normalize_operation_mandate
    (attach_user_signature (as_dict (to_payload (PDict m))) sig) m = Inr False"
proof (rule operation_new_mandate_shape [OF assms(1)])
  fix validity until local dt k' sv subj
  assume op: "normalize_operation op = Inr op"
    and m: "m = operation_mandate_of (''op_'' @ tok) (str_or (dget req ''server'') (cfg_server_id cfg)) subj op
       (operation_valid_time until local) (user_authorization (cfg_require cfg) (cfg_method cfg)) dt sv []"
  obtain a where a: "op = [(''action'', PStr a), (''params'', PDict ps)]" "a \<noteq> []" "strip a = a"
    using normalize_operation_shape [OF op] assms(2) by auto
  have tp: "to_payload_items op = [(''action'', PStr a), (''params'', PDict (to_payload_items ps))]" by (simp add: a)
  have n1: "normalize_operation (to_payload_items op) = Inr (to_payload_items op)"
    using a by (simp add: tp normalize_operation_def)
  have "length (to_payload_items ps) \<noteq> length ps" using to_payload_items_null [OF assms(3)] by simp
  from operation_mandate_params_differ [OF this] show ?thesis
    using n1 op by (simp add: m to_payload_operation_mandate mandate_matches_pending_def del: py_eq.simps) (simp add: tp a del: py_eq.simps)
qed

section \<open>Executions of a token\<close>

text \<open>The token has identifier \<open>tid\<close>, at most \<open>n\<close> executions and expiry \<open>x\<close>.\<close>

definition limited_token :: "pdict \<Rightarrow> string \<Rightarrow> int \<Rightarrow> int \<Rightarrow> bool" where
  "limited_token token tid n x \<longleftrightarrow> text_of (dget token ''tokenId'') = tid
     \<and> (case normalize_intent_scope (dget token ''intent'') of Inl _ \<Rightarrow> False
        | Inr scope \<Rightarrow> (case dict_option (dget scope ''executionPolicy'') of None \<Rightarrow> False
            | Some p \<Rightarrow> int_of (dget p ''maxExecutions'') = n))
     \<and> parse_utc (text_of (dget token ''expireAt'')) = Some x"

text \<open>A call and its answer that spend one execution of the token, and the store's clock of a call.\<close>

fun spends :: "string \<Rightarrow> int \<Rightarrow> int \<Rightarrow> server_call \<times> server_answer \<Rightarrow> bool" where
  "spends tid n x (VerifyToken now av snow req, TokenAnswer (Inr r)) =
     (tr_valid r \<and> limited_token (as_dict (dget (payload req) ''token'')) tid n x)"
| "spends tid n x _ = False"

fun store_before :: "int \<Rightarrow> server_call \<Rightarrow> bool" where
  "store_before x (VerifyToken now av snow req) = (snow < x)"
| "store_before x _ = True"

text \<open>Only the verification of a token touches the usage store.\<close>

lemma server_step_usage:
  "\<nexists>now av snow req. c = VerifyToken now av snow req \<Longrightarrow> st_usage (snd (server_step cfg store st c)) = st_usage st"
proof (cases c)
  case (PrepareIntent now tok req)
  then show ?thesis by (cases rule: intent_prepare_cases [of cfg now tok st req]) simp_all
next
  case (CompleteIntent now1 now2 tid nonce req)
  then show ?thesis by (cases rule: intent_complete_cases [of cfg now1 now2 tid nonce st req]) simp_all
next
  case (PrepareOperation now0 now1 tok req)
  then show ?thesis
    by (cases rule: operation_prepare_cases [of cfg now0 now1 tok st req]) (simp_all add: prune_expired_def)
next
  case (CompleteOperation now0 now1 req)
  then show ?thesis
  proof (cases rule: operation_complete_cases [of cfg now0 now1 st req])
    case (found sm oid p)
    then show ?thesis using CompleteOperation
      by (cases rule: complete_pending_cases [of cfg now1 "prune_expired now0 st" "payload req" sm oid p])
        (simp_all add: prune_expired_def)
  qed (simp add: prune_expired_def)
next
  case (RegisterCredential tok now req)
  then show ?thesis using register_frame [of cfg store tok now st req] by auto
qed simp

text \<open>The usage is checked by one call of the store, or none.\<close>

lemma consume_token_usage_store:
  "snd (consume_token_usage cfg av now us token) = us \<or>
   (\<exists>t mx ex. snd (consume_token_usage cfg av now us token) = snd (cfg_consume cfg av now us t mx ex))"
proof (rule ccontr)
  assume no: "\<not> ?thesis"
  then have n1: "snd (consume_token_usage cfg av now us token) \<noteq> us"
    and n2: "snd (consume_token_usage cfg av now us token) \<noteq> snd (cfg_consume cfg av now us t mx ex)" for t mx ex
    by auto
  from n1 obtain lim expire tid where
    "consume_token_usage cfg av now us token = (case cfg_consume cfg av now us tid (PInt lim) (PInt expire) of
                       (Inl e, us1) \<Rightarrow> (Inl e, us1)
                     | (Inr (False, _), us1) \<Rightarrow> (Inr (Inl ''Token execution usage exceeded''), us1)
                     | (Inr (True, used), us1) \<Rightarrow>
                         (Inr (Inr [(''usage'', PDict [(''executionsUsed'', PInt used),
                            (''executionsLimit'', PInt lim)])]), us1))"
    by (auto simp: consume_token_usage_def Let_def split: if_splits sum.splits option.splits)
  then show False using n2 [of tid "PInt lim" "PInt expire"]
    by (auto split: prod.splits sum.splits bool.splits)
qed

context token_usage
begin

lemma consume_usage_mono:
  assumes "cfg_consume cfg = consume" "invar us" "snow < x"
  shows "invar (snd (consume_token_usage cfg av snow us token))
    \<and> recorded us t x \<le> recorded (snd (consume_token_usage cfg av snow us token)) t x"
  using consume_token_usage_store [of cfg av snow us token] invar_consume [OF assms(2)]
    recorded_mono [OF assms(2,3)] assms(1,2) by auto

lemma consume_usage_counts:
  assumes "cfg_consume cfg = consume" "invar us" "snow < x" "limited_token token tid n x"
    and "consume_token_usage cfg av snow us token = (Inr (Inr usage), us')"
  shows "recorded us' tid x = recorded us tid x + 1 \<and> recorded us' tid x \<le> n"
proof -
  obtain scope p where t: "text_of (dget token ''tokenId'') = tid" "normalize_intent_scope (dget token ''intent'') = Inr scope"
    "dict_option (dget scope ''executionPolicy'') = Some p" "int_of (dget p ''maxExecutions'') = n"
    "parse_utc (text_of (dget token ''expireAt'')) = Some x"
    using assms(4) by (auto simp: limited_token_def split: sum.splits option.splits)
  obtain r us1 where c: "consume av snow us tid (PInt n) (PInt x) = (r, us1)" by fastforce
  have "\<exists>used. r = Inr (True, used) \<and> us1 = us'"
    using assms(1,5) t c by (auto simp: consume_token_usage_def Let_def split: if_splits sum.splits bool.splits)
  with c grant_counts [OF assms(2,3), of av tid n] show ?thesis by auto
qed

text \<open>Over any run, the spent executions and the recorded ones stay below the limit.\<close>

lemma server_step_spends:
  assumes cfg: "cfg_consume cfg = consume" and inv: "invar (st_usage st)" and now: "store_before x c"
    and step: "server_step cfg store st c = (a, st1)"
  shows "invar (st_usage st1) \<and> recorded (st_usage st) tid x + of_bool (spends tid n x (c, a)) \<le> recorded (st_usage st1) tid x
    \<and> (spends tid n x (c, a) \<longrightarrow> recorded (st_usage st1) tid x \<le> n)"
proof (cases "\<exists>now av snow req. c = VerifyToken now av snow req")
  case False
  then have "st_usage st1 = st_usage st \<and> \<not> spends tid n x (c, a)"
    using step server_step_usage [OF False, of cfg store st] by (cases c) auto
  with inv show ?thesis by simp
next
  case True
  then obtain now' av snow req where c: "c = VerifyToken now' av snow req" by blast
  then have s: "snow < x" using now by simp
  show ?thesis
  proof (cases rule: intent_verify_token_cases [of cfg now' av snow st req])
    case (rejected r)
    then show ?thesis using step c inv by (cases r) auto
  next
    case (checked why u us r)
    let ?t = "as_dict (dget (payload req) ''token'')"
    have st1: "st_usage st1 = us" "a = TokenAnswer r" using checked(3) step c by auto
    have m: "invar us" "recorded (st_usage st) tid x \<le> recorded us tid x"
      using consume_usage_mono [OF cfg inv s, of av ?t tid] checked(2) by auto
    show ?thesis
    proof (cases "spends tid n x (c, a)")
      case True
      then obtain resp where r: "r = Inr resp" "tr_valid resp" "limited_token ?t tid n x"
        using st1 c by (cases r) auto
      then obtain usage where "u = Inr (Inr usage)" using checked(4) by blast
      with checked(2) have "recorded us tid x = recorded (st_usage st) tid x + 1 \<and> recorded us tid x \<le> n"
        by (intro consume_usage_counts [OF cfg inv s r(3)]) simp
      then show ?thesis using m(1) st1 True by simp
    next
      case False
      then show ?thesis using m st1 by simp
    qed
  qed
qed

lemma server_run_spends:
  assumes cfg: "cfg_consume cfg = consume" and inv: "invar (st_usage st)" and now: "list_all (store_before x) cs"
  shows "int (length (filter (spends tid n x) (zip cs (fst (server_run cfg store st cs)))))
    \<le> max 0 (n - recorded (st_usage st) tid x)"
  using inv now
proof (induction cs arbitrary: st)
  case (Cons c cs)
  obtain a st1 where s: "server_step cfg store st c = (a, st1)" by fastforce
  obtain as st2 where r: "server_run cfg store st1 cs = (as, st2)" by fastforce
  from Cons.prems(2) have "store_before x c" "list_all (store_before x) cs" by auto
  with server_step_spends [OF cfg Cons.prems(1) _ s, of x tid n] Cons.IH [of st1] s r
  show ?case by (cases "spends tid n x (c, a)") auto
qed simp

end

end
