(* ===== verification/Demo.thy ===== *)
theory Demo
  imports Server
begin

text \<open>
  A concrete server on which the theorems are applied: an instance of the cryptographic interface
  that satisfies the Ed25519 laws (a signature is the message behind a marker byte), a configuration
  with the in-memory credential store, and one registered user.
\<close>

definition demo_crypto :: "(unit, unit) crypto" where
  "demo_crypto = \<lparr>cr_sign = (\<lambda>k m. 1 # m), cr_verify = (\<lambda>p s m. s = 1 # m), cr_public = (\<lambda>_. ()),
     cr_private_of = (\<lambda>_. ()), cr_public_of = (\<lambda>_. ()), cr_public_bytes = (\<lambda>_. replicate 32 0),
     cr_load_pem = (\<lambda>_. PemInvalid), cr_sha256 = (\<lambda>m. take 32 (m @ replicate 32 0))\<rparr>"

lemma demo_crypto_laws: "ed25519_laws demo_crypto"
  by (simp add: ed25519_laws_def demo_crypto_def)

definition demo_config :: "'m cred_store \<Rightarrow> (unit, unit, 'm, usage_table) a4p_config" where
  "demo_config S = \<lparr>cfg_crypto = demo_crypto, cfg_env = (\<lambda>_. None), cfg_server_id = ''local://a4p'',
     cfg_require = True, cfg_method = Some (ed25519_method demo_crypto S),
     cfg_intent_renderer = None, cfg_operation_renderer = None,
     cfg_intent_display = (\<lambda>_ _ _ _ _. ''intent''), cfg_operation_display = (\<lambda>_ _. ''operation''),
     cfg_beijing = Inr, cfg_consume = sqlite_consume\<rparr>"

definition demo_credential :: user_credential where
  "demo_credential = \<lparr>uc_user = ''alice'', uc_credential = ''cred_1'', uc_method = ed25519_name,
     uc_public_key = ed25519_public_jwk demo_crypto (), uc_details = [], uc_metadata = [],
     uc_created_at = ''1970-01-01T00:00:00Z''\<rparr>"

definition demo_state :: "'m \<Rightarrow> ('m, usage_table) a4p_state" where
  "demo_state ms = \<lparr>st_intents = [], st_operations = [], st_method = ms, st_usage = []\<rparr>"

definition demo_intent_request :: pyval where
  "demo_intent_request = PDict [(''agentId'', PStr ''bot''), (''userId'', PStr ''alice''),
     (''intent'', PDict [(''actions'', PList [PDict [(''name'', PStr ''pay''), (''params'', PStr ''*'')]])])]"

definition demo_operation_request :: pyval where
  "demo_operation_request = PDict [(''agentId'', PStr ''bot''), (''userId'', PStr ''alice''),
     (''operation'', PDict [(''action'', PStr ''pay''), (''params'', PDict [(''amount'', PInt 5)])])]"

lemma demo_strip [simp]:
  "strip ''bot'' = ''bot''" "strip ''alice'' = ''alice''" "strip ''pay'' = ''pay''" "strip ''cred_1'' = ''cred_1''"
  "strip ''local://a4p'' = ''local://a4p''" "strip ''mdt_t'' = ''mdt_t''" "strip ''op_t'' = ''op_t''"
  by (simp_all add: strip_no_space is_space_def)

lemma demo_keys [simp]:
  "intent_server_signing_key demo_crypto (\<lambda>_. None) = Inr ()"
  "operation_server_signing_key demo_crypto (\<lambda>_. None) = Inr ()"
  by (simp_all add: intent_server_signing_key_def operation_server_signing_key_def ed25519_private_key_from_env_def
      is_production_environment_def lower_def)

text \<open>The requests are accepted.\<close>

lemma demo_scope [simp]:
  "normalize_intent_scope (PDict (intent_scope_of
     [[(''name'', PStr ''pay''), (''params'', PStr ''*''), (''allowExtraParams'', PBool False)]] None))
   = Inr (intent_scope_of [[(''name'', PStr ''pay''), (''params'', PStr ''*''), (''allowExtraParams'', PBool False)]] None)"
  by (simp add: normalize_intent_scope_def intent_scope_of_def action_list_def normalize_action_specs_def
      normalize_action_spec_def normalize_params_constraint_def)

lemma demo_intent_new:
  "\<exists>sv. intent_new_mandate (demo_config S) 1000 ''t'' (payload demo_intent_request) = Inr (''alice'', ''mdt_t'',
     intent_mandate_of ''mdt_t'' ''local://a4p'' (intent_subject ''agent'' ''bot'' None)
       (intent_scope_of [[(''name'', PStr ''pay''), (''params'', PStr ''*''), (''allowExtraParams'', PBool False)]] None)
       (iso_text 1000) (iso_text 4600) (user_authorization True (Some (ed25519_method demo_crypto S))) ''intent''
       (server_signature intent_key_id sv) [])"
  by (simp add: demo_intent_request_def payload_def intent_new_mandate_def required_text_def validity_seconds_def
      create_intent_mandate_def demo_config_def utc_text_def gmtime_max_def normalize_action_specs_def
      normalize_action_spec_def normalize_params_constraint_def normalize_execution_policy_def render_display_def
      sign_intent_mandate_def mandate_identifier_def Let_def) blast

lemma demo_operation_new:
  "\<exists>op m. operation_new_mandate (demo_config S) 1000 ''t'' (payload demo_operation_request) = Inr (''alice'', op, ''op_t'', m)"
  by (simp add: demo_operation_request_def payload_def operation_new_mandate_def required_text_def validity_seconds_def
      create_operation_mandate_def demo_config_def utc_text_def gmtime_max_def service_normalize_operation_def
      normalize_operation_def render_display_def sign_operation_mandate_def mandate_identifier_def Let_def)

definition demo_store :: cred_map where
  "demo_store = [(''cred_1'', demo_credential)]"

lemma demo_store_facts:
  "mem_inv demo_store" "mem_contents demo_store ''cred_1'' = Some (norm_cred demo_credential)"
  "uc_method (norm_cred demo_credential) = ed25519_name" "uc_user (norm_cred demo_credential) = ''alice''"
  "sort_dict (uc_public_key (norm_cred demo_credential)) = sort_dict (ed25519_public_jwk demo_crypto ())"
  by (simp_all add: mem_inv_def demo_store_def mem_contents_def demo_credential_def del: PDict_sort_dict)

lemma demo_options:
  "signing_options True (cfg_method (demo_config memory_store)) demo_store ''alice'' m
   = (Inr [(''signatureMethod'', PStr ed25519_name),
        (''methodOptions'', PDict [(''allowedCredentialIds'', PList [PStr ''cred_1''])])], demo_store)"
  by (simp add: signing_options_def demo_config_def ed25519_method_def ed25519_signing_options_def memory_store_def
      mem_list_for_user_def mem_list_all_def demo_store_def demo_credential_def)

lemma demo_intent_prepared:
  obtains resp st m where
    "intent_prepare (demo_config memory_store) 1000 ''t'' (demo_state demo_store) demo_intent_request = (Inr resp, st)"
    "ir_mandate resp = Some m" "normalize_intent_mandate m = Inr m" "map_of m ''type'' = Some (PStr intent_type)"
    "wf_val (PDict m)"
proof -
  obtain m where m: "intent_new_mandate (demo_config memory_store) 1000 ''t'' (payload demo_intent_request)
      = Inr (''alice'', ''mdt_t'', m)" "normalize_intent_mandate m = Inr m" "map_of m ''type'' = Some (PStr intent_type)"
      "wf_val (PDict m)"
  proof -
    obtain sv where sv: "intent_new_mandate (demo_config memory_store) 1000 ''t'' (payload demo_intent_request)
      = Inr (''alice'', ''mdt_t'', intent_mandate_of ''mdt_t'' ''local://a4p'' (intent_subject ''agent'' ''bot'' None)
       (intent_scope_of [[(''name'', PStr ''pay''), (''params'', PStr ''*''), (''allowExtraParams'', PBool False)]] None)
       (iso_text 1000) (iso_text 4600) (user_authorization True (Some (ed25519_method demo_crypto memory_store))) ''intent''
       (server_signature intent_key_id sv) [])"
      using demo_intent_new by blast
    show ?thesis
      by (rule that [OF sv])
        (simp, simp add: intent_mandate_of_def, simp add: intent_mandate_of_def intent_subject_def
          intent_scope_of_def action_list_def user_authorization_def server_signature_def)
  qed
  have c: "cfg_require (demo_config memory_store)" "st_method (demo_state demo_store) = demo_store"
    by (simp_all add: demo_config_def demo_state_def)
  show ?thesis
    by (rule that [OF _ _ m(2-4)]) (use m(1) c demo_options [of m] in \<open>simp add: intent_prepare_def\<close>, simp)
qed

lemma demo_operation_prepared:
  obtains ch st m where
    "operation_prepare (demo_config memory_store) 1000 1000 ''t'' (demo_state demo_store) demo_operation_request = (Inr ch, st)"
    "oc_mandate ch = Some m"
proof -
  obtain op m where m: "operation_new_mandate (demo_config memory_store) 1000 ''t'' (payload demo_operation_request)
      = Inr (''alice'', op, ''op_t'', m)"
    using demo_operation_new by blast
  have c: "cfg_require (demo_config memory_store)" "st_method (prune_expired 1000 (demo_state demo_store)) = demo_store"
    by (simp_all add: demo_config_def demo_state_def)
  have v: "validity_seconds 300 (dget (payload demo_operation_request) ''validitySeconds'') = Inr 300"
    by (simp add: demo_operation_request_def payload_def validity_seconds_def)
  have t: "strptime_utc (mandate_until m) = Inr \<lfloor>1000 + of_int 300 :: rat\<rfloor>"
    by (rule operation_expiry [OF m v]) (simp_all add: utc_limit_def)
  show ?thesis
    by (rule that [of _ _ m]) (use m c t demo_options [of m] in \<open>simp add: operation_prepare_def Let_def\<close>, simp)
qed

text \<open>What the flows ask of the configuration, the state, the requests and the clock.\<close>

lemma demo_facts:
  "cfg_crypto (demo_config S) = demo_crypto" "cfg_method (demo_config S) = Some (ed25519_method demo_crypto S)"
  "cfg_require (demo_config S)" "cfg_consume (demo_config S) = sqlite_consume"
  "mem_inv (st_method (demo_state demo_store))" "usage_inv (st_usage (demo_state ms))"
  "mem_contents (st_method (demo_state demo_store)) ''cred_1'' = Some (norm_cred demo_credential)"
  "keys_distinct (st_operations (demo_state ms))" "wf_val demo_intent_request" "wf_val demo_operation_request"
  using demo_store_facts
  by (simp_all add: demo_config_def demo_state_def demo_intent_request_def demo_operation_request_def usage_inv_def)

lemma demo_users:
  "uc_user (norm_cred demo_credential) = str_or (dget (payload demo_intent_request) ''userId'') []"
  "uc_user (norm_cred demo_credential) = str_or (dget (payload demo_operation_request) ''userId'') []"
  using demo_store_facts(4) by (simp_all add: demo_intent_request_def demo_operation_request_def payload_def)

lemma demo_times:
  "validity_seconds 3600 (dget (payload demo_intent_request) ''validitySeconds'') = Inr 3600"
  "validity_seconds 300 (dget (payload demo_operation_request) ''validitySeconds'') = Inr 300"
  "utc_text 1000 = Inr (iso_text 1000)" "(0::rat) \<le> 1000" "1000 + of_int 3600 < (of_nat utc_limit :: rat)"
  "1000 + of_int 300 < (of_nat utc_limit :: rat)" "of_int \<lfloor>1000 :: rat\<rfloor> \<le> (1000 :: rat)"
  "(1000 :: rat) \<le> of_int \<lfloor>1000 + of_int 3600 :: rat\<rfloor>" "(1000 :: rat) < of_int \<lfloor>1000 + of_int 300 :: rat\<rfloor>"
  "(1000 :: rat) \<le> of_int \<lfloor>1000 + of_int 300 :: rat\<rfloor>"
  by (simp_all add: demo_intent_request_def demo_operation_request_def payload_def validity_seconds_def utc_text_def
      gmtime_max_def utc_limit_def)

text \<open>Signed with the key of the credential, the prepared requests are approved.\<close>

lemma signer_signature_wf:
  assumes "ed25519_user_signer C cid k = Inr s" "sign_user_signature ctx s i = Inr sig"
  shows "wf_val (PDict sig)"
  using assms
  by (auto simp: ed25519_user_signer_def sign_user_signature_def Let_def rbind_Inr_iff split: if_splits)

lemma attach_wf: "wf_val (PDict m) \<Longrightarrow> wf_val (PDict sig) \<Longrightarrow> wf_val (PDict (attach_user_signature m sig))"
  unfolding attach_user_signature_def
  by (intro wf_update wf_as_dict wf_dget) simp_all

lemma demo_intent_approved:
  obtains st request resp st' where
    "intent_pending_inv (demo_config memory_store) st" "mem_inv (st_method st)" "wf_val (PDict request)"
    "intent_complete (demo_config memory_store) 1000 1000 ''tid'' ''n'' st request = (Inr resp, st')" "ir_approved resp"
proof (rule demo_intent_prepared)
  fix resp st m
  assume prep: "intent_prepare (demo_config memory_store) 1000 ''t'' (demo_state demo_store) demo_intent_request = (Inr resp, st)"
    "ir_mandate resp = Some m" and nm: "normalize_intent_mandate m = Inr m" "map_of m ''type'' = Some (PStr intent_type)"
    "wf_val (PDict m)"
  let ?cfg = "demo_config memory_store" and ?req = "payload demo_intent_request"
  have i0: "intent_pending_inv ?cfg (demo_state demo_store)"
    by (simp add: intent_pending_inv_def demo_state_def)
  then have inv: "intent_pending_inv ?cfg st" using intent_prepare_inv [OF i0, of 1000 "''t''" demo_intent_request] prep by simp
  have minv: "mem_inv (st_method st)" using prep demo_store_facts(1)
    by (cases rule: intent_prepare_cases [of ?cfg 1000 "''t''" "demo_state demo_store" demo_intent_request])
      (auto simp: demo_options [simplified] demo_state_def demo_config_def signing_options_def ed25519_method_def
        ed25519_signing_options_def memory_store_def Let_def split: if_splits)
  have cid: "strip ''cred_1'' = ''cred_1''" "''cred_1'' \<noteq> []" by simp_all
  obtain s sm resp' st2 where f: "ed25519_user_signer demo_crypto ''cred_1'' () = Inr s" "sign_user_mandate_with_signer m s None = Inr sm"
      "intent_complete ?cfg 1000 1000 ''tid'' ''n'' st [(''signedMandate'', PDict sm)] = (Inr resp', st2)" "ir_approved resp'"
    by (rule mem_ed25519.intent_flow [OF demo_crypto_laws demo_facts(1,2,3,5,9) prep demo_facts(7) demo_store_facts(3)
      demo_users(1) demo_store_facts(5) cid demo_times(1,4,5,7,8,3), of "''tid''" "''n''"])
  have "wf_val (PDict sm)"
    using f(1,2) nm by (auto simp: sign_user_mandate_with_signer_def dget_or_def rbind_Inr_iff simp del: wf_val.simps
        intro!: attach_wf dest: signer_signature_wf)
  then have "wf_val (PDict [(''signedMandate'', PDict sm)])" by simp
  then show thesis by (rule that [OF inv minv _ f(3,4)])
qed

lemma demo_operation_approved:
  obtains st request res st' where
    "operation_pending_inv (demo_config memory_store) st" "mem_inv (st_method st)"
    "operation_complete (demo_config memory_store) 1000 1000 st request = (Inr res, st')" "or_approved res"
proof (rule demo_operation_prepared)
  fix ch st m
  assume prep: "operation_prepare (demo_config memory_store) 1000 1000 ''t'' (demo_state demo_store) demo_operation_request = (Inr ch, st)"
    "oc_mandate ch = Some m"
  let ?cfg = "demo_config memory_store" and ?req = "payload demo_operation_request"
  have i0: "operation_pending_inv ?cfg (demo_state demo_store)"
    by (simp add: operation_pending_inv_def demo_state_def)
  then have inv: "operation_pending_inv ?cfg st"
    using operation_prepare_inv [OF i0, of 1000 1000 "''t''" demo_operation_request] prep by simp
  have minv: "mem_inv (st_method st)" using prep demo_store_facts(1)
    by (cases rule: operation_prepare_cases [of ?cfg 1000 1000 "''t''" "demo_state demo_store" demo_operation_request])
      (auto simp: demo_options [simplified] demo_state_def demo_config_def signing_options_def ed25519_method_def
        ed25519_signing_options_def memory_store_def Let_def split: if_splits)
  have cid: "strip ''cred_1'' = ''cred_1''" "''cred_1'' \<noteq> []" by simp_all
  show thesis
    by (rule mem_ed25519.operation_flow [OF demo_crypto_laws demo_facts(1,2,3,5,10) prep demo_facts(8,7) demo_store_facts(3)
      demo_users(2) demo_store_facts(5) cid demo_times(2,4,6,9,10)]) (rule that [OF inv minv])
qed

text \<open>A token for two executions, and a request to spend one of them.\<close>

definition demo_token_scope :: pdict where
  "demo_token_scope = intent_scope_of [[(''name'', PStr ''pay''), (''params'', PStr ''*''), (''allowExtraParams'', PBool False)]]
     (Some [(''maxExecutions'', PInt 2)])"

definition demo_token :: pdict where
  "demo_token = (let t = (\<lambda>sig. intent_token_of ''tok_1'' ''mdt_t'' (intent_subject ''agent'' ''bot'' None) ''alice''
       demo_token_scope (iso_text 1000) (iso_text 4600) ''n'' sig (intent_token_key_id ''mdt_t''))
     in case intent_token_core_payload (t []) of
          Inl e \<Rightarrow> [] | Inr core \<Rightarrow> t (ed25519_sign_text demo_crypto (token_payload core) ()))"

definition demo_token_request :: pyval where
  "demo_token_request = PDict [(''token'', PDict demo_token),
     (''expected'', PDict [(''action'', PStr ''pay''), (''agentId'', PStr ''agent:bot''), (''params'', PDict [(''amount'', PInt 5)])])]"

lemma demo_token_scope [simp]: "normalize_intent_scope (PDict demo_token_scope) = Inr demo_token_scope"
  by (simp add: normalize_intent_scope_def demo_token_scope_def intent_scope_of_def action_list_def normalize_action_specs_def
      normalize_action_spec_def normalize_params_constraint_def normalize_execution_policy_def positive_int_def)

lemma demo_token_facts:
  "\<exists>core. demo_token = intent_token_of ''tok_1'' ''mdt_t'' (intent_subject ''agent'' ''bot'' None) ''alice''
       demo_token_scope (iso_text 1000) (iso_text 4600) ''n'' (ed25519_sign_text demo_crypto (token_payload core) ())
       (intent_token_key_id ''mdt_t'') \<and> intent_token_core_payload demo_token = Inr core"
  by (simp add: demo_token_def intent_token_core_payload_def intent_token_of_def)

lemma demo_iso [simp]: "parse_utc (iso_text 4600) = Some 4600" "iso_text 4600 \<noteq> []"
  using parse_iso_text [of 4600] by (auto simp: utc_limit_def iso_text_def Let_def split: prod.splits)

lemma demo_scope_match:
  "params_match_intent_scope demo_token_scope ''pay'' [(''amount'', PInt 5)] = (True, [])"
  by (simp add: params_match_intent_scope_def demo_token_scope_def intent_scope_of_def action_list_def
      normalize_action_specs_def normalize_action_spec_def normalize_params_constraint_def action_mismatch_def)

lemma demo_token_verified:
  "verify_intent_token demo_crypto (\<lambda>_. None) 1000 demo_token ''pay'' [(''amount'', PInt 5)] (Some ''agent:bot'') None None
   = Inr (True, [])"
proof -
  obtain core where t: "demo_token = intent_token_of ''tok_1'' ''mdt_t'' (intent_subject ''agent'' ''bot'' None) ''alice''
       demo_token_scope (iso_text 1000) (iso_text 4600) ''n'' (ed25519_sign_text demo_crypto (token_payload core) ())
       (intent_token_key_id ''mdt_t'')" and c: "intent_token_core_payload demo_token = Inr core"
    using demo_token_facts by blast
  have k: "text_of (PStr (intent_token_key_id ''mdt_t'')) = intent_token_key_id ''mdt_t''"
    by (simp add: intent_token_key_id_def Let_def strip_no_space is_space_def)
  have b: "check_token_binding demo_token ''pay'' [(''amount'', PInt 5)] (Some ''agent:bot'') None None = (True, [])"
    using demo_scope_match
    by (simp add: t intent_token_of_def check_token_binding_def expectation_fails_def params_match_intent_token_def
        intent_subject_def strip_no_space is_space_def Let_def)
  have d: "dget demo_token ''type'' = PStr token_type" "dget demo_token ''alg'' = PStr ''EdDSA''"
    "dget demo_token ''signature'' = PStr (ed25519_sign_text demo_crypto (token_payload core) ())"
    "dget demo_token ''mandateId'' = PStr ''mdt_t''" "dget demo_token ''keyId'' = PStr (intent_token_key_id ''mdt_t'')"
    "dget demo_token ''expireAt'' = PStr (iso_text 4600)"
    by (simp_all add: t intent_token_of_def)
  show ?thesis
    using verify_sign_text [OF demo_crypto_laws, of "token_payload core" "()"] k
      sign_text_facts(2) [OF demo_crypto_laws]
    by (simp add: verify_intent_token_def d c b strip_no_space is_space_def Let_def)
qed

lemma demo_token_accepted:
  "\<exists>resp st'. intent_verify_token (demo_config S) 1000 True 1000 (demo_state ms) demo_token_request = (Inr resp, st')
     \<and> tr_valid resp"
proof -
  obtain core where t: "demo_token = intent_token_of ''tok_1'' ''mdt_t'' (intent_subject ''agent'' ''bot'' None) ''alice''
       demo_token_scope (iso_text 1000) (iso_text 4600) ''n'' (ed25519_sign_text demo_crypto (token_payload core) ())
       (intent_token_key_id ''mdt_t'')"
    using demo_token_facts by blast
  have e: "dget demo_token_scope ''executionPolicy'' = PDict [(''maxExecutions'', PInt 2)]"
    by (simp add: demo_token_scope_def intent_scope_of_def)
  have d: "dget demo_token ''tokenId'' = PStr ''tok_1''" "dget demo_token ''intent'' = PDict demo_token_scope"
    "dget demo_token ''expireAt'' = PStr (iso_text 4600)"
    by (simp_all add: t intent_token_of_def)
  show ?thesis
    using demo_token_verified
    by (simp add: intent_verify_token_def demo_token_request_def payload_def demo_config_def demo_state_def str_option_def
      py_str_def consume_token_usage_def d e strip_no_space is_space_def sqlite_consume_def purge_def Let_def int_of_def)
qed

text \<open>A production environment with a key, and a credential file with the credential of one user.\<close>

definition demo_production_env :: environ where
  "demo_production_env = [''A4P_ENV'' \<mapsto> ''production'', ''A4P_KEY'' \<mapsto> b64url_encode (replicate 32 0)]"

lemma demo_production: "is_production_environment demo_production_env"
  by (simp add: is_production_environment_def demo_production_env_def strip_no_space is_space_def lower_def lower_char_def)

lemma demo_key_text: "b64url_encode (replicate 32 (0 :: byte)) = CHR ''A'' # replicate 42 CHR ''A''"
  by code_simp

lemma demo_production_key:
  "ed25519_private_key_from_env demo_crypto demo_production_env ''A4P_KEY'' ''label'' ''Test'' = Inr ()"
proof -
  have "decode_seed ''A4P_KEY'' (b64url_encode (replicate 32 0)) = Inr (replicate 32 0)"
    using b64url_roundtrip [of "replicate 32 0"]
    by (simp add: decode_seed_def demo_key_text)
  then show ?thesis
    by (simp add: ed25519_private_key_from_env_def demo_production_env_def Let_def load_ed25519_private_key_def)
       (simp add: demo_key_text)
qed

definition demo_file :: file_store where
  "demo_file = \<lparr>fs_records = demo_store, fs_file = Some (file_image demo_store)\<rparr>"

lemma demo_file_facts:
  "file_inv demo_file" "ed25519_keys_inv (file_contents demo_file)"
  "file_contents demo_file ''cred_1'' = Some (norm_cred demo_credential)"
  "ed25519_key (norm_cred demo_credential) (replicate 32 0)"
proof -
  show "file_inv demo_file" by (simp add: file_inv_def demo_file_def demo_store_facts)
  show c: "file_contents demo_file ''cred_1'' = Some (norm_cred demo_credential)"
    by (simp add: file_contents_def demo_file_def demo_store_facts)
  show k: "ed25519_key (norm_cred demo_credential) (replicate 32 0)"
    by (simp add: ed25519_key_def demo_credential_def ed25519_public_jwk_def ed25519_public_key_to_base64url_def
        demo_crypto_def)
  have "file_contents demo_file c = Some r \<Longrightarrow> c = ''cred_1'' \<and> r = norm_cred demo_credential" for c r
    by (auto simp: file_contents_def demo_file_def mem_contents_def demo_store_def split: if_splits)
  with k show "ed25519_keys_inv (file_contents demo_file)" unfolding ed25519_keys_inv_def by metis
qed

lemma demo_bob_fields:
  "register_fields demo_crypto [(''userId'', PStr ''bob''), (''publicKey'', PDict (okp_jwk (b64url_encode (replicate 32 0))))]
   = Inr (''bob'', okp_jwk (b64url_encode (replicate 32 0)), [])"
proof -
  have "ed25519_public_key_from_base64url demo_crypto (b64url_encode (replicate 32 0)) = Inr ()"
    by (auto simp: public_key_accepted_iff intro: exI [of _ "replicate 32 0"])
  then show ?thesis
    by (simp add: register_fields_def normalize_public_jwk_def okp_jwk_def strip_no_space is_space_def Let_def)
qed

text \<open>A device that trusts the server's key, and a mandate that asks for a WebAuthn signature.\<close>

definition demo_trust :: "unit trust_store" where
  "demo_trust = [((''local://a4p'', intent_key_id), (''EdDSA'', ()))]"

definition demo_device_core :: pdict where
  "demo_device_core = intent_core_list ''mdt_t'' ''local://a4p'' (intent_subject ''agent'' ''bot'' None) demo_token_scope
     (iso_text 1000) (iso_text 4600) [(''required'', PBool True), (''signatureMethod'', PStr ''webauthn'')] ''intent''"

definition demo_device_mandate :: pdict where
  "demo_device_mandate = intent_mandate_of ''mdt_t'' ''local://a4p'' (intent_subject ''agent'' ''bot'' None) demo_token_scope
     (iso_text 1000) (iso_text 4600) [(''required'', PBool True), (''signatureMethod'', PStr ''webauthn'')] ''intent''
     (server_signature intent_key_id (ed25519_sign_text demo_crypto (server_payload demo_device_core) ())) []"

definition demo_device_request :: user_authorization_request where
  "demo_device_request = \<lparr>ua_mandate = demo_device_mandate,
     ua_options = [(''signatureMethod'', PStr ''webauthn''), (''methodOptions'', PDict [(''challenge'', PStr ''from the agent'')])]\<rparr>"

lemma demo_device_facts:
  "verify_trusted_server_mandate demo_crypto demo_trust demo_device_mandate = Inr demo_device_core"
  "mandate_core_payload demo_device_mandate = Inr demo_device_core"
  "dget (as_dict (dget demo_device_core ''userAuthorization'')) ''required'' = PBool True"
proof -
  show v: "verify_trusted_server_mandate demo_crypto demo_trust demo_device_mandate = Inr demo_device_core"
    unfolding demo_device_mandate_def demo_device_core_def
    by (rule trusted_intent [OF demo_crypto_laws demo_token_scope demo_strip(5) _ _ refl, where k = "()"])
      (simp_all add: demo_trust_def)
  show "mandate_core_payload demo_device_mandate = Inr demo_device_core"
    using verify_trusted_server_mandate_sound [OF v] by blast
  show "dget (as_dict (dget demo_device_core ''userAuthorization'')) ''required'' = PBool True"
    by (simp add: demo_device_core_def intent_core_list_def)
qed

lemma demo_start [simp]: "parse_utc (iso_text 1000) = Some 1000" "iso_text 1000 \<noteq> []"
  using parse_iso_text [of 1000] by (auto simp: utc_limit_def iso_text_def Let_def split: prod.splits)

lemma demo_local_check:
  "\<exists>opts. verify_local_user_authorization_request demo_crypto demo_trust (Some ''webauthn'') 1000 demo_device_request = Inr opts"
proof -
  have t: "verify_mandate_valid_time 1000 demo_device_core = Inr ()"
    by (subst valid_time_intent_iff [where vt = "[(''start'', PStr (iso_text 1000)), (''end'', PStr (iso_text 4600))]"])
      (simp_all add: demo_device_core_def intent_core_list_def py_str_def)
  have u: "dget demo_device_core ''userAuthorization'' = PDict [(''required'', PBool True), (''signatureMethod'', PStr ''webauthn'')]"
    by (simp add: demo_device_core_def intent_core_list_def)
  have "\<exists>c. user_authorization_challenge_base64url demo_crypto demo_device_mandate = Inr c"
    using demo_device_facts(2)
    by (simp add: user_authorization_challenge_base64url_def derive_user_authorization_challenge_def
        canonical_user_authorization_payload_def server_signed_mandate_without_user_signature_def
        demo_device_mandate_def intent_mandate_of_def server_signature_def Let_def)
  then show ?thesis
    using demo_device_facts(1) t u
    by (auto simp: verify_local_user_authorization_request_def demo_device_request_def harden_options_def strip_no_space
        is_space_def Let_def)
qed

text \<open>An operation with an explicit null parameter.\<close>

definition demo_null_request :: pyval where
  "demo_null_request = PDict [(''agentId'', PStr ''bot''), (''userId'', PStr ''alice''),
     (''operation'', PDict [(''action'', PStr ''pay''), (''params'', PDict [(''memo'', PNone)])])]"

lemma demo_null_new:
  "\<exists>m. operation_new_mandate (demo_config S) 1000 ''t'' (payload demo_null_request)
     = Inr (''alice'', [(''action'', PStr ''pay''), (''params'', PDict [(''memo'', PNone)])], ''op_t'', m)"
  by (simp add: demo_null_request_def payload_def operation_new_mandate_def required_text_def validity_seconds_def
      create_operation_mandate_def demo_config_def utc_text_def gmtime_max_def service_normalize_operation_def
      normalize_operation_def render_display_def sign_operation_mandate_def mandate_identifier_def Let_def)

end
