(* ===== verification/PyInt.thy ===== *)
theory PyInt
  imports PyValue
begin

text \<open>Python's \<open>int()\<close> and \<open>isinstance(v, int)\<close>, as the registry uses them on configuration and peer data.\<close>

text \<open>\<open>int(v)\<close>: for a text, an optional sign and decimal digits, single underscores between digits.\<close>

fun int_digits :: "string \<Rightarrow> int \<Rightarrow> int option" where
  "int_digits [] acc = Some acc"
| "int_digits (c # r) acc =
     (if CHR ''0'' \<le> c \<and> c \<le> CHR ''9'' then int_digits r (10 * acc + (of_char c - 48))
      else if c = CHR ''_'' \<and> r \<noteq> [] \<and> hd r \<noteq> CHR ''_'' then int_digits r acc else None)"

definition int_text :: "string \<Rightarrow> int option" where
  "int_text s =
     (case strip s of
        [] \<Rightarrow> None
      | c # r \<Rightarrow>
          (let (neg, ds) = (if c = CHR ''-'' then (True, r) else if c = CHR ''+'' then (False, r) else (False, c # r))
           in if ds = [] \<or> hd ds = CHR ''_'' then None
              else map_option (\<lambda>i. if neg then - i else i) (int_digits ds 0)))"

fun py_int :: "pyval \<Rightarrow> int res" where
  "py_int (PInt i) = Inr i"
| "py_int (PBool b) = Inr (of_bool b)"
| "py_int (PStr s) = (case int_text s of
     None \<Rightarrow> Inl (ValueError (''invalid literal for int() with base 10: '' @ repr_str s)) | Some i \<Rightarrow> Inr i)"
| "py_int _ = Inl (TypeError ''int() argument must be a string, a bytes-like object or a real number'')"

fun is_int :: "pyval \<Rightarrow> bool" where
  "is_int (PInt i) = True"
| "is_int (PBool b) = True"
| "is_int _ = False"

end
