(* ===== verification/Lease.thy ===== *)
theory Lease
  imports Complex_Main Prelude
begin

text \<open>
  \<open>AgentRegistry/a2x_registry/common/lease.py\<close>: the lease table shared by the heartbeat and the cluster
  modules. The table is the dictionary of the class, as an association list in insertion order; the lock
  makes every method one step. Times are readings of the monotonic clock.
\<close>

section \<open>The table\<close>

datatype lease_state = HEALTHY | UNHEALTHY

record lease =
  ttl_seconds :: int
  grace_period_seconds :: int
  expires_at :: rat
  grace_deadline :: rat
  last_renew_at :: rat
  state_of :: lease_state

type_synonym 'k lease_table = "('k \<times> lease) list"

definition lease_of :: "int \<Rightarrow> int \<Rightarrow> bool \<Rightarrow> rat \<Rightarrow> lease" where
  "lease_of ttl grace expired now =
     (if expired
      then \<lparr>ttl_seconds = ttl, grace_period_seconds = grace, expires_at = now,
            grace_deadline = now + of_int grace, last_renew_at = now, state_of = UNHEALTHY\<rparr>
      else \<lparr>ttl_seconds = ttl, grace_period_seconds = grace, expires_at = now + of_int ttl,
            grace_deadline = now + of_int ttl + of_int grace, last_renew_at = now, state_of = HEALTHY\<rparr>)"

definition lease_install :: "'k \<Rightarrow> int \<Rightarrow> int \<Rightarrow> bool \<Rightarrow> rat \<Rightarrow> 'k lease_table \<Rightarrow> lease \<times> 'k lease_table" where
  "lease_install key ttl grace expired now tab =
     (let l = lease_of ttl grace expired now in (l, AList.update key l tab))"

definition renewed :: "rat \<Rightarrow> lease \<Rightarrow> lease" where
  "renewed now l = l\<lparr>last_renew_at := now, expires_at := now + of_int (ttl_seconds l),
     grace_deadline := now + of_int (ttl_seconds l) + of_int (grace_period_seconds l), state_of := HEALTHY\<rparr>"

text \<open>\<open>None\<close> is the \<open>KeyError\<close> of a missing key.\<close>

definition lease_renew :: "'k \<Rightarrow> rat \<Rightarrow> 'k lease_table \<Rightarrow> lease option \<times> 'k lease_table" where
  "lease_renew key now tab =
     (case map_of tab key of
        None \<Rightarrow> (None, tab)
      | Some l \<Rightarrow> (Some (renewed now l), AList.update key (renewed now l) tab))"

definition revoked :: "rat \<Rightarrow> lease \<Rightarrow> lease" where
  "revoked now l = l\<lparr>state_of := UNHEALTHY, expires_at := now,
     grace_deadline := now + of_int (grace_period_seconds l)\<rparr>"

definition lease_revoke :: "'k \<Rightarrow> bool \<Rightarrow> rat \<Rightarrow> 'k lease_table \<Rightarrow> bool \<times> 'k lease_table" where
  "lease_revoke key permanent now tab =
     (case map_of tab key of
        None \<Rightarrow> (False, tab)
      | Some l \<Rightarrow> (True, if permanent then AList.delete key tab else AList.update key (revoked now l) tab))"

definition lease_drop :: "'k \<Rightarrow> 'k lease_table \<Rightarrow> 'k lease_table" where
  "lease_drop key tab = AList.delete key tab"

definition lease_get :: "'k lease_table \<Rightarrow> 'k \<Rightarrow> lease option" where
  "lease_get tab key = map_of tab key"

definition lease_is_unhealthy :: "'k lease_table \<Rightarrow> 'k \<Rightarrow> bool" where
  "lease_is_unhealthy tab key = (case map_of tab key of None \<Rightarrow> False | Some l \<Rightarrow> state_of l = UNHEALTHY)"

text \<open>One iteration of the loop of \<open>sweep_tick\<close>, the loop, and the deletions after it.\<close>

definition sweep_lease :: "rat \<Rightarrow> lease \<Rightarrow> lease" where
  "sweep_lease now l = (if state_of l = HEALTHY \<and> now \<ge> expires_at l then l\<lparr>state_of := UNHEALTHY\<rparr> else l)"

fun sweep_loop :: "rat \<Rightarrow> 'k lease_table \<Rightarrow> 'k list \<times> 'k list \<times> 'k lease_table" where
  "sweep_loop now [] = ([], [], [])"
| "sweep_loop now ((key, l) # rest) =
     (let (newly, dels, tab) = sweep_loop now rest; l' = sweep_lease now l in
      (if state_of l = HEALTHY \<and> now \<ge> expires_at l then key # newly else newly,
       if state_of l' = UNHEALTHY \<and> now \<ge> grace_deadline l' then key # dels else dels,
       (key, l') # tab))"

definition lease_sweep_tick :: "rat \<Rightarrow> 'k lease_table \<Rightarrow> ('k list \<times> 'k list) \<times> 'k lease_table" where
  "lease_sweep_tick now tab =
     (let (newly, dels, swept) = sweep_loop now tab in ((newly, dels), fold AList.delete dels swept))"

section \<open>Invariant\<close>

text \<open>
  Every lease has a grace window that starts no earlier than its expiry, ends no earlier than the grace
  period after the last renewal, and, while the lease is healthy, both are counted from the last renewal.
\<close>

definition lease_ok :: "lease \<Rightarrow> bool" where
  "lease_ok l \<longleftrightarrow> 0 \<le> ttl_seconds l \<and> 0 \<le> grace_period_seconds l
     \<and> last_renew_at l \<le> expires_at l
     \<and> grace_deadline l = expires_at l + of_int (grace_period_seconds l)
     \<and> (state_of l = HEALTHY \<longrightarrow> expires_at l = last_renew_at l + of_int (ttl_seconds l))"

definition lease_inv :: "rat \<Rightarrow> 'k lease_table \<Rightarrow> bool" where
  "lease_inv now tab \<longleftrightarrow> keys_distinct tab \<and> (\<forall>k l. map_of tab k = Some l \<longrightarrow> lease_ok l \<and> last_renew_at l \<le> now
     \<and> (state_of l = UNHEALTHY \<longrightarrow> expires_at l \<le> now))"

lemma lease_ok_new: "0 \<le> ttl \<Longrightarrow> 0 \<le> grace \<Longrightarrow> lease_ok (lease_of ttl grace expired now)"
  by (simp add: lease_ok_def lease_of_def)

lemma lease_ok_renewed: "lease_ok l \<Longrightarrow> lease_ok (renewed now l)"
  by (simp add: lease_ok_def renewed_def)

lemma lease_ok_revoked: "lease_ok l \<Longrightarrow> last_renew_at l \<le> now \<Longrightarrow> lease_ok (revoked now l)"
  by (simp add: lease_ok_def revoked_def)

lemma lease_ok_sweep: "lease_ok l \<Longrightarrow> lease_ok (sweep_lease now l)"
  by (simp add: lease_ok_def sweep_lease_def)

lemma lease_ok_grace: "lease_ok l \<Longrightarrow> expires_at l \<le> grace_deadline l"
  by (simp add: lease_ok_def)

lemma sweep_lease_simps [simp]:
  "expires_at (sweep_lease now l) = expires_at l" "grace_deadline (sweep_lease now l) = grace_deadline l"
  "last_renew_at (sweep_lease now l) = last_renew_at l" "ttl_seconds (sweep_lease now l) = ttl_seconds l"
  "grace_period_seconds (sweep_lease now l) = grace_period_seconds l"
  by (simp_all add: sweep_lease_def)

text \<open>What the loop computes, entry by entry.\<close>

lemma sweep_loop_table: "snd (snd (sweep_loop now tab)) = map (\<lambda>(k, l). (k, sweep_lease now l)) tab"
  by (induction tab) (auto simp: Let_def split: prod.splits if_splits)

lemma sweep_loop_newly: "set (fst (sweep_loop now tab))
    = {k. \<exists>l. (k, l) \<in> set tab \<and> state_of l = HEALTHY \<and> expires_at l \<le> now}"
  by (induction tab) (auto simp: Let_def split: prod.splits if_splits; blast)+

lemma sweep_loop_deleted: "set (fst (snd (sweep_loop now tab)))
    = {k. \<exists>l. (k, l) \<in> set tab \<and> state_of (sweep_lease now l) = UNHEALTHY \<and> grace_deadline l \<le> now}"
  by (induction tab) (auto simp: Let_def split: prod.splits if_splits; blast)+

lemma map_of_fold_delete: "map_of (fold AList.delete ks tab) k = (if k \<in> set ks then None else map_of tab k)"
  by (induction ks arbitrary: tab) auto

lemma keys_distinct_fold_delete: "keys_distinct tab \<Longrightarrow> keys_distinct (fold AList.delete ks tab)"
  by (induction ks arbitrary: tab) auto

lemma map_of_map_snd: "map_of (map (\<lambda>(k, v). (k, f v)) tab) k = map_option f (map_of tab k)"
  by (induction tab) auto

text \<open>A lease whose deadline has passed is unhealthy after the sweep, so that the deadline alone decides.\<close>

lemma sweep_deletes: "lease_ok l \<Longrightarrow> grace_deadline l \<le> now \<Longrightarrow> state_of (sweep_lease now l) = UNHEALTHY"
  using lease_ok_grace [of l] by (cases "state_of l") (auto simp: sweep_lease_def)

lemma lease_sweep_spec:
  assumes "lease_inv now0 tab" "lease_sweep_tick now tab = ((newly, dels), tab')"
  shows "set dels = {k. \<exists>l. map_of tab k = Some l \<and> grace_deadline l \<le> now}"
    and "set newly = {k. \<exists>l. map_of tab k = Some l \<and> state_of l = HEALTHY \<and> expires_at l \<le> now}"
    and "map_of tab' k = (case map_of tab k of None \<Rightarrow> None
      | Some l \<Rightarrow> if grace_deadline l \<le> now then None else Some (sweep_lease now l))"
    and "keys_distinct tab'"
proof -
  have kd: "keys_distinct tab" and ok: "\<And>k l. map_of tab k = Some l \<Longrightarrow> lease_ok l"
    using assms(1) by (auto simp: lease_inv_def)
  have mem: "(k, l) \<in> set tab \<longleftrightarrow> map_of tab k = Some l" for k l using kd by (simp add: eq_commute)
  obtain sw where loop: "sweep_loop now tab = (newly, dels, sw)" "tab' = fold AList.delete dels sw"
    using assms(2) by (auto simp: lease_sweep_tick_def split: prod.splits)
  have sw: "sw = map (\<lambda>(k, l). (k, sweep_lease now l)) tab" using sweep_loop_table [of now tab] loop by simp
  show d: "set dels = {k. \<exists>l. map_of tab k = Some l \<and> grace_deadline l \<le> now}"
    using sweep_loop_deleted [of now tab] loop(1) ok sweep_deletes by (auto simp: mem)
  show "set newly = {k. \<exists>l. map_of tab k = Some l \<and> state_of l = HEALTHY \<and> expires_at l \<le> now}"
    using sweep_loop_newly [of now tab] loop(1) by (simp add: mem)
  show "map_of tab' k = (case map_of tab k of None \<Rightarrow> None
      | Some l \<Rightarrow> if grace_deadline l \<le> now then None else Some (sweep_lease now l))"
    unfolding loop(2) map_of_fold_delete d sw map_of_map_snd by (auto split: option.splits)
  have "map fst sw = map fst tab" by (simp add: sw case_prod_beta' comp_def)
  then show "keys_distinct tab'"
    unfolding loop(2) by (intro keys_distinct_fold_delete) (use kd in simp)
qed

section \<open>Histories\<close>

text \<open>The methods as events of a history; an event happens at a clock reading that never goes back.\<close>

datatype 'k lease_op = Install 'k int int bool | Renew 'k | Revoke 'k bool | Drop 'k | Sweep

inductive lease_step :: "rat \<times> 'k lease_table \<Rightarrow> 'k lease_op \<Rightarrow> rat \<times> 'k lease_table \<Rightarrow> bool" where
  install: "t \<le> now \<Longrightarrow> 0 \<le> ttl \<Longrightarrow> 0 \<le> grace \<Longrightarrow>
    lease_step (t, tab) (Install k ttl grace expired) (now, snd (lease_install k ttl grace expired now tab))"
| renew: "t \<le> now \<Longrightarrow> lease_step (t, tab) (Renew k) (now, snd (lease_renew k now tab))"
| revoke: "t \<le> now \<Longrightarrow> lease_step (t, tab) (Revoke k permanent) (now, snd (lease_revoke k permanent now tab))"
| drop: "t \<le> now \<Longrightarrow> lease_step (t, tab) (Drop k) (now, lease_drop k tab)"
| sweep: "t \<le> now \<Longrightarrow> lease_step (t, tab) Sweep (now, snd (lease_sweep_tick now tab))"

inductive_cases lease_stepE: "lease_step s op s'"

inductive lease_history :: "rat \<times> 'k lease_table \<Rightarrow> 'k lease_op list \<Rightarrow> rat \<times> 'k lease_table \<Rightarrow> bool" where
  start: "lease_history s [] s"
| event: "lease_history s ops s' \<Longrightarrow> lease_step s' op s'' \<Longrightarrow> lease_history s (ops @ [op]) s''"

lemma lease_invD: "lease_inv now tab \<Longrightarrow> map_of tab k = Some l \<Longrightarrow>
    lease_ok l \<and> last_renew_at l \<le> now \<and> (state_of l = UNHEALTHY \<longrightarrow> expires_at l \<le> now)"
  by (auto simp: lease_inv_def)

lemma lease_inv_later: "lease_inv t tab \<Longrightarrow> t \<le> now \<Longrightarrow> lease_inv now tab"
  by (force simp: lease_inv_def)

lemma lease_inv_update:
  "lease_inv now tab \<Longrightarrow> lease_ok l \<Longrightarrow> last_renew_at l \<le> now \<Longrightarrow> (state_of l = UNHEALTHY \<Longrightarrow> expires_at l \<le> now) \<Longrightarrow>
   lease_inv now (AList.update k l tab)"
  by (auto simp: lease_inv_def)

lemma lease_inv_delete: "lease_inv now tab \<Longrightarrow> lease_inv now (AList.delete k tab)"
  by (auto simp: lease_inv_def)

lemma sweep_unhealthy: "state_of (sweep_lease now l) = UNHEALTHY \<Longrightarrow> state_of l = UNHEALTHY \<or> expires_at l \<le> now"
  by (auto simp: sweep_lease_def split: if_splits)

lemma lease_inv_sweep:
  assumes "lease_inv now tab"
  shows "lease_inv now (snd (lease_sweep_tick now tab))"
proof -
  obtain newly dels tab' where s: "lease_sweep_tick now tab = ((newly, dels), tab')" by (metis prod.collapse)
  show ?thesis
    using lease_sweep_spec(3,4) [OF assms s] lease_invD [OF assms]
    by (auto simp: lease_inv_def s lease_ok_sweep split: option.splits if_splits dest: sweep_unhealthy)
qed

lemma lease_step_inv: "lease_step s op s' \<Longrightarrow> lease_inv (fst s) (snd s) \<Longrightarrow> lease_inv (fst s') (snd s')"
proof (induction rule: lease_step.induct)
  case (install t now ttl grace tab k expired)
  then show ?case
    by (auto simp: lease_install_def Let_def intro!: lease_inv_update lease_ok_new dest: lease_inv_later)
      (auto simp: lease_of_def split: if_splits)
next
  case (renew t now tab k)
  then show ?case
    using lease_invD [OF renew(2)]
    by (auto simp: lease_renew_def split: option.splits intro!: lease_inv_update lease_ok_renewed dest: lease_inv_later)
      (auto simp: renewed_def)
next
  case (revoke t now tab k permanent)
  then show ?case
    using lease_invD [OF revoke(2), of k]
    by (auto simp: lease_revoke_def split: option.splits intro!: lease_inv_update lease_inv_delete lease_ok_revoked
        dest: lease_inv_later) (auto simp: revoked_def)
next
  case (drop t now tab k)
  then show ?case by (auto simp: lease_drop_def intro!: lease_inv_delete dest: lease_inv_later)
next
  case (sweep t now tab)
  then show ?case by (auto intro!: lease_inv_sweep dest: lease_inv_later)
qed

lemma lease_history_inv: "lease_history s ops s' \<Longrightarrow> lease_inv (fst s) (snd s) \<Longrightarrow> lease_inv (fst s') (snd s')"
  by (induction rule: lease_history.induct) (auto dest: lease_step_inv)

lemma lease_history_time: "lease_history s ops s' \<Longrightarrow> fst s \<le> fst s'"
  by (induction rule: lease_history.induct) (auto elim!: lease_stepE)

text \<open>
  A holder that renewed at \<open>t\<close> with period \<open>ttl\<close> and grace \<open>g\<close>, and that nobody revokes, drops or replaces,
  keeps its lease before \<open>t + ttl + g\<close>, whatever else happens and however often the table is swept.
\<close>

definition held_since :: "'k \<Rightarrow> rat \<Rightarrow> int \<Rightarrow> int \<Rightarrow> 'k lease_table \<Rightarrow> bool" where
  "held_since k t ttl g tab \<longleftrightarrow> (\<exists>l. map_of tab k = Some l \<and> ttl_seconds l = ttl \<and> grace_period_seconds l = g
     \<and> t \<le> last_renew_at l \<and> expires_at l = last_renew_at l + of_int ttl)"

fun disturbs :: "'k \<Rightarrow> 'k lease_op \<Rightarrow> bool" where
  "disturbs k (Install k' ttl grace expired) = (k = k')"
| "disturbs k (Renew k') = False"
| "disturbs k (Revoke k' permanent) = (k = k')"
| "disturbs k (Drop k') = (k = k')"
| "disturbs k Sweep = False"

lemma held_since_step:
  assumes "lease_step s op s'" "lease_inv (fst s) (snd s)" "held_since k t ttl g (snd s)" "\<not> disturbs k op"
    and "fst s' < t + of_int ttl + of_int g" "t \<le> fst s"
  shows "held_since k t ttl g (snd s')"
  using assms
proof (induction rule: lease_step.induct)
  case (sweep t0 now tab)
  obtain newly dels tab' where s: "lease_sweep_tick now tab = ((newly, dels), tab')" by (metis prod.collapse)
  obtain l where l: "map_of tab k = Some l" "ttl_seconds l = ttl" "grace_period_seconds l = g" "t \<le> last_renew_at l"
      "expires_at l = last_renew_at l + of_int ttl"
    using sweep.prems(2) by (auto simp: held_since_def)
  have "grace_deadline l = expires_at l + of_int g"
    using lease_invD [OF sweep.prems(1)] l by (auto simp: lease_ok_def)
  then have "\<not> grace_deadline l \<le> now" using l sweep.prems(4) by simp
  then have "map_of tab' k = Some (sweep_lease now l)"
    using lease_sweep_spec(3) [OF sweep.prems(1) [simplified] s, of k] l by simp
  with l show ?case by (simp add: held_since_def s)
qed (auto simp: held_since_def lease_install_def lease_renew_def lease_revoke_def lease_drop_def Let_def renewed_def
    split: option.splits)

lemma lease_kept:
  assumes "lease_history s ops s'" "lease_inv (fst s) (snd s)" "held_since k t ttl g (snd s)" "t \<le> fst s"
    and "list_all (\<lambda>op. \<not> disturbs k op) ops" "fst s' < t + of_int ttl + of_int g"
  shows "held_since k t ttl g (snd s')"
  using assms
proof (induction rule: lease_history.induct)
  case (event s ops s' op s'')
  have le: "fst s' \<le> fst s''" using event.hyps(2) by (auto elim!: lease_stepE)
  then have h: "held_since k t ttl g (snd s')" using event.IH event.prems by auto
  have inv: "lease_inv (fst s') (snd s')" using lease_history_inv [OF event.hyps(1) event.prems(1)] .
  have "t \<le> fst s'" using lease_history_time [OF event.hyps(1)] event.prems(3) by simp
  from held_since_step [OF event.hyps(2) inv h _ event.prems(5) this] event.prems(4) show ?case by simp
qed simp

text \<open>A holder that is silent loses its lease by the first sweep after its window.\<close>

lemma lease_deadline_bound:
  "lease_inv t tab \<Longrightarrow> map_of tab k = Some l \<Longrightarrow> grace_deadline l \<le> t + of_int (ttl_seconds l) + of_int (grace_period_seconds l)"
  using lease_invD [of t tab k l] by (cases "state_of l") (auto simp: lease_ok_def)

fun revives :: "'k \<Rightarrow> 'k lease_op \<Rightarrow> bool" where
  "revives k (Renew k') = (k = k')"
| "revives k op = disturbs k op"

lemma silent_step:
  assumes "lease_step s op s'" "lease_inv (fst s) (snd s)" "\<not> revives k op" "map_of (snd s') k = Some l'"
  shows "\<exists>l. map_of (snd s) k = Some l \<and> grace_deadline l' = grace_deadline l"
  using assms
proof (induction rule: lease_step.induct)
  case (sweep t0 now tab)
  obtain newly dels tab' where s: "lease_sweep_tick now tab = ((newly, dels), tab')" by (metis prod.collapse)
  show ?case
    using lease_sweep_spec(3) [OF sweep.prems(1) [simplified] s, of k] sweep.prems(3) s
    by (auto split: option.splits if_splits)
qed (auto simp: lease_install_def lease_renew_def lease_revoke_def lease_drop_def Let_def split: option.splits if_splits)

lemma silent_history:
  assumes "lease_history s ops s'" "lease_inv (fst s) (snd s)" "list_all (\<lambda>op. \<not> revives k op) ops" "map_of (snd s') k = Some l'"
  shows "\<exists>l. map_of (snd s) k = Some l \<and> grace_deadline l' = grace_deadline l"
  using assms
proof (induction arbitrary: l' rule: lease_history.induct)
  case (event s ops s' op s'')
  have "\<exists>l. map_of (snd s') k = Some l \<and> grace_deadline l' = grace_deadline l"
    using silent_step [OF event.hyps(2) lease_history_inv [OF event.hyps(1) event.prems(1)]] event.prems(2,3) by simp
  then obtain l1 where "map_of (snd s') k = Some l1" "grace_deadline l' = grace_deadline l1" by blast
  then show ?case using event.IH [of l1] event.prems(1,2) by auto
qed simp

lemma lease_expires:
  assumes "lease_inv t tab" "map_of tab k = Some l" "lease_history (t, tab) ops (t', tab')"
    and "list_all (\<lambda>op. \<not> revives k op) ops" "t' \<le> now"
    and "t + of_int (ttl_seconds l) + of_int (grace_period_seconds l) \<le> now"
  shows "map_of (snd (lease_sweep_tick now tab')) k = None"
proof (rule ccontr)
  assume "map_of (snd (lease_sweep_tick now tab')) k \<noteq> None"
  obtain newly dels tab2 where s: "lease_sweep_tick now tab' = ((newly, dels), tab2)" by (metis prod.collapse)
  have inv: "lease_inv t' tab'" using lease_history_inv [OF assms(3)] assms(1) by simp
  obtain l' where l': "map_of tab' k = Some l'" "\<not> grace_deadline l' \<le> now"
    using \<open>map_of (snd (lease_sweep_tick now tab')) k \<noteq> None\<close> lease_sweep_spec(3) [OF inv s, of k] s
    by (auto split: option.splits if_splits)
  then have "grace_deadline l' = grace_deadline l"
    using silent_history [OF assms(3) _ assms(4), of l'] assms(1,2) by auto
  then show False using lease_deadline_bound [OF assms(1,2)] l'(2) assms(6) by simp
qed

lemma sweep_loop_distinct: "keys_distinct tab \<Longrightarrow> distinct (fst (snd (sweep_loop now tab)))"
proof (induction tab)
  case (Cons p tab)
  obtain k l where p: "p = (k, l)" by fastforce
  obtain newly dels tab' where r: "sweep_loop now tab = (newly, dels, tab')" by (metis prod.collapse)
  have "k \<notin> set dels" using sweep_loop_deleted [of now tab] r Cons.prems p by (force simp: image_iff)
  then show ?case using Cons r p by (simp add: Let_def)
qed simp

lemma sweep_dels_distinct: "lease_inv t tab \<Longrightarrow> lease_sweep_tick now tab = ((newly, dels), tab') \<Longrightarrow> distinct dels"
  using sweep_loop_distinct [of tab now] by (auto simp: lease_inv_def lease_sweep_tick_def split: prod.splits)

end
