(* ===== verification/Heartbeat.thy ===== *)
theory Heartbeat
  imports PyInt Lease
begin

text \<open>
  \<open>AgentRegistry/a2x_registry/heartbeat\<close>: the store of service leases (\<open>store.py\<close>) over the lease table, and
  one pass of the sweeper (\<open>sweeper.py\<close>). The callback that yields the lease configuration of a namespace and
  the \<open>deregister\<close> of the registry service are constructor arguments of the classes and parameters here.
\<close>

section \<open>Errors\<close>

datatype hb_error =
    HeartbeatNotSupportedError string
  | TTLRequiredError string int int
  | TTLOutOfRangeError string int int
  | ConfigError exc

section \<open>The store\<close>

type_synonym lease_config = "string \<Rightarrow> pdict"

type_synonym hb_table = "(string \<times> string) lease_table"

definition ttl_range :: "int \<Rightarrow> int \<Rightarrow> string" where
  "ttl_range lo hi = ''['' @ int_str lo @ '', '' @ int_str hi @ '']''"

definition hb_validate :: "lease_config \<Rightarrow> string \<Rightarrow> pyval \<Rightarrow> hb_error + int option" where
  "hb_validate provider dataset client_ttl =
     (let cfg = provider dataset; enabled = truthy (dget_or cfg ''enabled'' (PBool False)) in
      if \<not> enabled \<and> client_ttl = PNone then Inr None
      else if \<not> enabled
        then Inl (HeartbeatNotSupportedError (''Namespace '' @ repr_str dataset @
               '' does not enable heartbeat leases. Remove '' @ quoted ''lease_ttl'' @
               '' from the request or ask admin to enable it.''))
      else case py_int (dget_or cfg ''min_ttl'' (PInt 10)) of
        Inl e \<Rightarrow> Inl (ConfigError e)
      | Inr lo \<Rightarrow>
     (case py_int (dget_or cfg ''max_ttl'' (PInt 3600)) of
        Inl e \<Rightarrow> Inl (ConfigError e)
      | Inr hi \<Rightarrow>
          if client_ttl = PNone
          then Inl (TTLRequiredError (''Namespace '' @ repr_str dataset @ '' requires '' @ quoted ''lease_ttl'' @
                 '' on registration; allowed range '' @ ttl_range lo hi @ ''.'') lo hi)
          else (case (if is_int client_ttl then py_int client_ttl else Inl (TypeError [])) of
                  Inl _ \<Rightarrow> Inl (TTLOutOfRangeError (''lease_ttl='' @ py_str client_ttl @ '' out of range '' @ ttl_range lo hi @
                           '' for namespace '' @ repr_str dataset @ ''.'') lo hi)
                | Inr ttl \<Rightarrow>
                    if ttl < lo \<or> ttl > hi
                    then Inl (TTLOutOfRangeError (''lease_ttl='' @ py_str client_ttl @ '' out of range '' @ ttl_range lo hi @
                           '' for namespace '' @ repr_str dataset @ ''.'') lo hi)
                    else Inr (Some ttl))))"

definition hb_grace :: "lease_config \<Rightarrow> string \<Rightarrow> int res" where
  "hb_grace provider dataset = py_int (dget_or (provider dataset) ''grace_period'' (PInt 300))"

definition hb_install :: "lease_config \<Rightarrow> rat \<Rightarrow> string \<Rightarrow> string \<Rightarrow> int \<Rightarrow> hb_table \<Rightarrow> lease res \<times> hb_table" where
  "hb_install provider now dataset sid ttl tab =
     (case hb_grace provider dataset of
        Inl e \<Rightarrow> (Inl e, tab)
      | Inr g \<Rightarrow> (let (l, tab') = lease_install (dataset, sid) ttl g False now tab in (Inr l, tab')))"

definition hb_grant ::
  "lease_config \<Rightarrow> rat \<Rightarrow> string \<Rightarrow> string \<Rightarrow> pyval \<Rightarrow> hb_table \<Rightarrow> (hb_error + lease option) \<times> hb_table" where
  "hb_grant provider now dataset sid client_ttl tab =
     (case hb_validate provider dataset client_ttl of
        Inl e \<Rightarrow> (Inl e, tab)
      | Inr None \<Rightarrow> (Inr None, tab)
      | Inr (Some ttl) \<Rightarrow>
          (case hb_install provider now dataset sid ttl tab of
             (Inl e, tab') \<Rightarrow> (Inl (ConfigError e), tab')
           | (Inr l, tab') \<Rightarrow> (Inr (Some l), tab')))"

definition hb_heartbeat :: "rat \<Rightarrow> string \<Rightarrow> string \<Rightarrow> hb_table \<Rightarrow> lease res \<times> hb_table" where
  "hb_heartbeat now dataset sid tab =
     (case lease_renew (dataset, sid) now tab of
        (None, tab') \<Rightarrow> (Inl (KeyError (''No heartbeat lease for service '' @ repr_str sid @ '' in dataset '' @
           repr_str dataset @ '' - was it registered with lease_ttl?'')), tab')
      | (Some l, tab') \<Rightarrow> (Inr l, tab'))"

definition hb_revoke :: "rat \<Rightarrow> string \<Rightarrow> string \<Rightarrow> bool \<Rightarrow> hb_table \<Rightarrow> bool \<times> hb_table" where
  "hb_revoke now dataset sid permanent tab = lease_revoke (dataset, sid) permanent now tab"

definition hb_drop :: "string \<Rightarrow> string \<Rightarrow> hb_table \<Rightarrow> hb_table" where
  "hb_drop dataset sid tab = lease_drop (dataset, sid) tab"

definition hb_is_unhealthy :: "hb_table \<Rightarrow> string \<Rightarrow> string \<Rightarrow> bool" where
  "hb_is_unhealthy tab dataset sid = lease_is_unhealthy tab (dataset, sid)"

definition hb_get_lease :: "hb_table \<Rightarrow> string \<Rightarrow> string \<Rightarrow> lease option" where
  "hb_get_lease tab dataset sid = lease_get tab (dataset, sid)"

definition hb_list_leases :: "hb_table \<Rightarrow> (string \<times> string \<times> lease) list" where
  "hb_list_leases tab = map (\<lambda>((ds, sid), l). (ds, sid, l)) tab"

text \<open>The loop of \<open>recover_from_persisted\<close>; a malformed configuration stops it with what was installed before.\<close>

fun hb_recover :: "lease_config \<Rightarrow> rat \<Rightarrow> (string \<times> string \<times> int) list \<Rightarrow> hb_table \<Rightarrow> unit res \<times> hb_table" where
  "hb_recover provider now [] tab = (Inr (), tab)"
| "hb_recover provider now ((ds, sid, ttl) # entries) tab =
     (case hb_grace provider ds of
        Inl e \<Rightarrow> (Inl e, tab)
      | Inr g \<Rightarrow> hb_recover provider now entries (snd (lease_install (ds, sid) ttl g True now tab)))"

section \<open>The sweeper\<close>

text \<open>
  \<open>_hard_delete\<close> survives any error of \<open>deregister\<close>: the outcome is logged and dropped. \<open>deregister\<close> takes the
  registry to its next state, also when it raises.
\<close>

definition hard_delete :: "(string \<Rightarrow> string \<Rightarrow> 'r \<Rightarrow> unit res \<times> 'r) \<Rightarrow> string \<times> string \<Rightarrow> 'r \<Rightarrow> 'r" where
  "hard_delete deregister key reg = snd (deregister (fst key) (snd key) reg)"

definition sweep_once ::
  "(string \<Rightarrow> string \<Rightarrow> 'r \<Rightarrow> unit res \<times> 'r) \<Rightarrow> rat \<Rightarrow> hb_table \<times> 'r \<Rightarrow> hb_table \<times> 'r" where
  "sweep_once deregister now s =
     (let ((newly, dels), tab') = lease_sweep_tick now (fst s) in (tab', fold (hard_delete deregister) dels (snd s)))"

section \<open>Facts\<close>

text \<open>The four corners of the validation.\<close>

lemma hb_validate_permanent:
  "hb_validate p ds v = Inr None \<longleftrightarrow> \<not> truthy (dget_or (p ds) ''enabled'' (PBool False)) \<and> v = PNone"
  by (auto simp: hb_validate_def Let_def split: if_splits sum.splits)

lemma hb_validate_ttl:
  "hb_validate p ds v = Inr (Some ttl) \<longleftrightarrow> truthy (dget_or (p ds) ''enabled'' (PBool False)) \<and> is_int v \<and> py_int v = Inr ttl
     \<and> (\<exists>lo hi. py_int (dget_or (p ds) ''min_ttl'' (PInt 10)) = Inr lo \<and> py_int (dget_or (p ds) ''max_ttl'' (PInt 3600)) = Inr hi
          \<and> lo \<le> ttl \<and> ttl \<le> hi)"
  by (cases v) (auto simp: hb_validate_def Let_def split: if_splits sum.splits)

text \<open>With a sane configuration every operation of the store is an event of the lease table.\<close>

definition sane_config :: "lease_config \<Rightarrow> bool" where
  "sane_config p \<longleftrightarrow> (\<forall>ds. (\<exists>g \<ge> 0. hb_grace p ds = Inr g)
     \<and> (\<exists>lo \<ge> 0. py_int (dget_or (p ds) ''min_ttl'' (PInt 10)) = Inr lo))"

lemma hb_grant_step:
  assumes "sane_config p" "hb_grant p now ds sid v tab = (Inr (Some l), tab')" "t \<le> now"
  shows "\<exists>ttl g. lease_step (t, tab) (Install (ds, sid) ttl g False) (now, tab') \<and> hb_validate p ds v = Inr (Some ttl)
    \<and> l = lease_of ttl g False now \<and> held_since (ds, sid) now ttl g tab'"
proof -
  obtain ttl where v: "hb_validate p ds v = Inr (Some ttl)"
    using assms(2) by (auto simp: hb_grant_def split: sum.splits option.splits)
  obtain g where g: "hb_grace p ds = Inr g" "0 \<le> g" using assms(1) by (auto simp: sane_config_def)
  obtain lo where "0 \<le> lo" "py_int (dget_or (p ds) ''min_ttl'' (PInt 10)) = Inr lo"
    using assms(1) by (auto simp: sane_config_def)
  then have "0 \<le> ttl" using v by (auto simp: hb_validate_ttl)
  moreover have "tab' = snd (lease_install (ds, sid) ttl g False now tab)" "l = lease_of ttl g False now"
    using assms(2) v g by (auto simp: hb_grant_def hb_install_def lease_install_def Let_def)
  ultimately show ?thesis
    using v g lease_step.install [OF assms(3), of ttl g tab "(ds, sid)" False]
    by (auto simp: held_since_def lease_install_def lease_of_def Let_def)
qed

lemma hb_heartbeat_step:
  "t \<le> now \<Longrightarrow> lease_step (t, tab) (Renew (ds, sid)) (now, snd (hb_heartbeat now ds sid tab))"
  using lease_step.renew [of t now tab "(ds, sid)"]
  by (cases "lease_renew (ds, sid) now tab") (auto simp: hb_heartbeat_def split: option.splits)

lemma hb_heartbeat_holds:
  assumes "lease_inv t tab" "hb_heartbeat now ds sid tab = (Inr l, tab')"
  shows "held_since (ds, sid) now (ttl_seconds l) (grace_period_seconds l) tab' \<and> \<not> hb_is_unhealthy tab' ds sid"
  using assms
  by (auto simp: hb_heartbeat_def lease_renew_def held_since_def renewed_def hb_is_unhealthy_def lease_is_unhealthy_def
      split: option.splits)

lemma sweep_once_spec:
  assumes "lease_inv t tab" "sweep_once dereg now (tab, reg) = (tab', reg')"
  shows "\<exists>dels. distinct dels \<and> set dels = {k. \<exists>l. map_of tab k = Some l \<and> grace_deadline l \<le> now}
    \<and> reg' = fold (hard_delete dereg) dels reg
    \<and> (\<forall>k. map_of tab' k = (case map_of tab k of None \<Rightarrow> None
         | Some l \<Rightarrow> if grace_deadline l \<le> now then None else Some (sweep_lease now l)))"
proof -
  obtain newly dels tab2 where s: "lease_sweep_tick now tab = ((newly, dels), tab2)" by (metis prod.collapse)
  then have "tab' = tab2" "reg' = fold (hard_delete dereg) dels reg"
    using assms(2) by (auto simp: sweep_once_def)
  with lease_sweep_spec [OF assms(1) s] sweep_dels_distinct [OF assms(1) s] show ?thesis by blast
qed

text \<open>After a restart every persisted service has one grace window and is reported unhealthy.\<close>

lemma hb_recover_leases:
  assumes "hb_recover p now entries tab = (Inr (), tab')"
  shows "map_of tab' (ds, sid) = (case map_of (rev (map (\<lambda>(d, s, ttl). ((d, s), ttl)) entries)) (ds, sid) of
      None \<Rightarrow> map_of tab (ds, sid)
    | Some ttl \<Rightarrow> Some (lease_of ttl (projr (hb_grace p ds)) True now))"
  using assms
proof (induction entries arbitrary: tab)
  case (Cons e entries)
  obtain d s ttl where e: "e = (d, s, ttl)" by (cases e)
  obtain g where g: "hb_grace p d = Inr g" using Cons.prems e by (auto split: sum.splits)
  show ?case
    using Cons.IH [of "snd (lease_install (d, s) ttl g True now tab)"] Cons.prems e g
    by (auto simp: lease_install_def Let_def map_add_def split: option.splits)
qed simp

end
