(* ===== verification/Replication.thy ===== *)
theory Replication
  imports PyValue
begin

text \<open>
  \<open>AgentRegistry/a2x_registry/cluster/envelope.py\<close>: versions and envelopes, and the contract of a
  last-writer-wins replica. Both overlays of the cluster module, the foreign service records and the roster,
  are replicas in this sense; what holds for any of them is proved in the locale.
\<close>

section \<open>Versions and envelopes\<close>

text \<open>\<open>(updated_at_ms, node_id)\<close>, compared as Python compares tuples.\<close>

type_synonym version = "int \<times> string"

definition ver_less :: "version \<Rightarrow> version \<Rightarrow> bool" where
  "ver_less a b \<longleftrightarrow> fst a < fst b \<or> fst a = fst b \<and> snd a < snd b"

definition version_newer :: "version \<Rightarrow> version option \<Rightarrow> bool" where
  "version_newer a b = (case b of None \<Rightarrow> True | Some v \<Rightarrow> ver_less v a)"

type_synonym record_key = "string \<times> string \<times> string"

record sync_envelope =
  env_dataset :: string
  env_service :: string
  env_origin :: string
  env_version :: version
  env_tombstone :: bool
  env_payload :: "pdict option"

definition env_key :: "sync_envelope \<Rightarrow> record_key" where
  "env_key e = (env_dataset e, env_origin e, env_service e)"

lemma ver_less_irrefl [simp]: "\<not> ver_less v v"
  by (simp add: ver_less_def)

lemma ver_less_trans [trans]: "ver_less a b \<Longrightarrow> ver_less b c \<Longrightarrow> ver_less a c"
  by (auto simp: ver_less_def)

lemma ver_less_linear: "ver_less a b \<or> a = b \<or> ver_less b a"
  by (cases a; cases b) (auto simp: ver_less_def)

lemma ver_less_asym: "ver_less a b \<Longrightarrow> \<not> ver_less b a"
  by (auto simp: ver_less_def)

lemma ver_not_less_trans: "\<not> ver_less a b \<Longrightarrow> \<not> ver_less b c \<Longrightarrow> \<not> ver_less a c"
  using ver_less_linear [of a b] ver_less_linear [of b c] ver_less_trans by blast

lemma ver_less_next: "ver_less (i, n) (i + 1, m)" "i < j \<Longrightarrow> ver_less (i, n) (j, m)"
  by (simp_all add: ver_less_def)

lemma version_newer_simps [simp]: "version_newer a None" "version_newer a (Some v) \<longleftrightarrow> ver_less v a"
  by (simp_all add: version_newer_def)

section \<open>Last-writer-wins replicas\<close>

text \<open>
  \<open>look\<close> reads a replica, \<open>put\<close> delivers an update; \<open>admits\<close> is the part of the acceptance that does not
  depend on versions (own records, suppressed origins).
\<close>

locale lww_replica =
  fixes look :: "'s \<Rightarrow> 'k \<Rightarrow> 'e option"
    and put :: "'e \<Rightarrow> 's \<Rightarrow> 's"
    and key :: "'e \<Rightarrow> 'k"
    and ver :: "'e \<Rightarrow> version"
    and admits :: "'s \<Rightarrow> 'e \<Rightarrow> bool"
    and invar :: "'s \<Rightarrow> bool"
  assumes invar_put: "invar s \<Longrightarrow> invar (put e s)"
    and admits_put: "invar s \<Longrightarrow> admits (put e s) = admits s"
    and look_put: "invar s \<Longrightarrow> look (put e s) =
      (if admits s e \<and> version_newer (ver e) (map_option ver (look s (key e))) then (look s)(key e \<mapsto> e) else look s)"
begin

lemma invar_fold: "invar s \<Longrightarrow> invar (fold put es s)"
  by (induction es arbitrary: s) (auto simp: invar_put)

lemma admits_fold: "invar s \<Longrightarrow> admits (fold put es s) = admits s"
  by (induction es arbitrary: s) (auto simp: invar_put admits_put)

lemma put_mono:
  assumes "invar s" "look s k = Some e"
  shows "\<exists>e'. look (put d s) k = Some e' \<and> \<not> ver_less (ver e') (ver e)"
  using assms by (auto simp: look_put dest: ver_less_asym)

text \<open>A delivery never takes a record back to an older version.\<close>

lemma fold_mono:
  "invar s \<Longrightarrow> look s k = Some e \<Longrightarrow> \<exists>e'. look (fold put es s) k = Some e' \<and> \<not> ver_less (ver e') (ver e)"
proof (induction es arbitrary: s e)
  case (Cons d es)
  obtain e1 where e1: "look (put d s) k = Some e1" "\<not> ver_less (ver e1) (ver e)"
    using put_mono [OF Cons.prems] by blast
  obtain e2 where "look (fold put es (put d s)) k = Some e2" "\<not> ver_less (ver e2) (ver e1)"
    using Cons.IH [OF invar_put [OF Cons.prems(1)] e1(1)] by blast
  then show ?case using e1(2) ver_not_less_trans by auto
qed simp

lemma put_delivers:
  assumes "invar s" "admits s e"
  shows "\<exists>e'. look (put e s) (key e) = Some e' \<and> \<not> ver_less (ver e') (ver e)"
  using assms by (cases "look s (key e)") (auto simp: look_put)

lemma fold_delivers:
  assumes "invar s" "e \<in> set es" "admits s e"
  shows "\<exists>e'. look (fold put es s) (key e) = Some e' \<and> \<not> ver_less (ver e') (ver e)"
  using assms
proof (induction es arbitrary: s)
  case (Cons d es)
  show ?case
  proof (cases "d = e")
    case True
    obtain e1 where e1: "look (put e s) (key e) = Some e1" "\<not> ver_less (ver e1) (ver e)"
      using put_delivers [OF Cons.prems(1,3)] by blast
    then show ?thesis
      using fold_mono [OF invar_put [OF Cons.prems(1)] e1(1), of es] True ver_not_less_trans by fastforce
  next
    case False
    then show ?thesis
      using Cons.IH [of "put d s"] Cons.prems by (simp add: invar_put admits_put)
  qed
qed simp

text \<open>Nothing is invented: a record comes from the state or from an admitted delivery.\<close>

lemma fold_source:
  "invar s \<Longrightarrow> look (fold put es s) k = Some e \<Longrightarrow> look s k = Some e \<or> e \<in> set es \<and> key e = k \<and> admits s e"
proof (induction es arbitrary: s)
  case (Cons d es)
  then have "look (put d s) k = Some e \<or> e \<in> set es \<and> key e = k \<and> admits s e"
    using Cons.IH [of "put d s"] by (simp add: invar_put admits_put)
  then show ?case using Cons.prems(1) by (auto simp: look_put split: if_splits)
qed simp

lemma fold_le:
  assumes "invar s" "look (fold put es s) k = Some e"
    and "\<And>d. d \<in> set es \<Longrightarrow> admits s d \<Longrightarrow> d \<in> set es'"
    and "look (fold put es' s) k = Some e'"
  shows "\<not> ver_less (ver e') (ver e)"
  using fold_source [OF assms(1,2)]
proof
  assume "look s k = Some e"
  with fold_mono [OF assms(1) this, of es'] assms(4) show ?thesis by simp
next
  assume e: "e \<in> set es \<and> key e = k \<and> admits s e"
  with fold_delivers [OF assms(1) assms(3) [of e]] assms(4) show ?thesis by auto
qed

text \<open>
  Strong eventual consistency: replicas in the same state that received the same admitted updates, in any
  order and with any repetitions, agree, provided a version of a record identifies its content.
\<close>

lemma convergence:
  assumes "invar s"
    and same: "\<And>d. admits s d \<Longrightarrow> d \<in> set es \<longleftrightarrow> d \<in> set es'"
    and unique: "\<And>d d'. d \<in> set es \<or> look s (key d) = Some d \<Longrightarrow> d' \<in> set es' \<or> look s (key d') = Some d' \<Longrightarrow>
      key d = key d' \<Longrightarrow> ver d = ver d' \<Longrightarrow> d = d'"
    and keys: "\<And>k e. look s k = Some e \<Longrightarrow> key e = k"
  shows "look (fold put es s) = look (fold put es' s)"
proof
  fix k
  have src: "key e = k \<and> (e \<in> set fs \<or> look s (key e) = Some e)" if "look (fold put fs s) k = Some e" for e fs
    using fold_source [OF assms(1) that] keys by auto
  have le: "\<exists>e'. look (fold put gs s) k = Some e' \<and> \<not> ver_less (ver e') (ver e)"
    if l: "look (fold put fs s) k = Some e" and sub: "\<And>d. d \<in> set fs \<Longrightarrow> admits s d \<Longrightarrow> d \<in> set gs" for e fs gs
  proof -
    have "look (fold put gs s) k \<noteq> None"
      using fold_source [OF assms(1) l] fold_mono [OF assms(1), of k e gs] fold_delivers [OF assms(1), of e gs] sub by auto
    then obtain e' where e': "look (fold put gs s) k = Some e'" by blast
    from fold_le [OF assms(1) l sub e'] e' show ?thesis by blast
  qed
  show "look (fold put es s) k = look (fold put es' s) k"
  proof (cases "look (fold put es s) k")
    case None
    then show ?thesis using le [of es' _ es] same by (cases "look (fold put es' s) k") auto
  next
    case (Some e)
    obtain e' where e': "look (fold put es' s) k = Some e'" "\<not> ver_less (ver e') (ver e)"
      using le [OF Some, of es'] same by blast
    have "\<not> ver_less (ver e) (ver e')" using le [OF e'(1), of es] same Some by auto
    with e'(2) have "ver e = ver e'" using ver_less_linear by blast
    with unique src [OF Some] src [OF e'(1)] have "e = e'" by metis
    with Some e' show ?thesis by simp
  qed
qed

text \<open>A batch with one update per record is decided record by record.\<close>

lemma fold_other: "invar s \<Longrightarrow> k \<notin> key ` set es \<Longrightarrow> look (fold put es s) k = look s k"
  by (induction es arbitrary: s) (auto simp: invar_put look_put)

lemma fold_distinct:
  assumes "invar s" "distinct (map key es)" "e \<in> set es"
  shows "look (fold put es s) (key e) =
    (if admits s e \<and> version_newer (ver e) (map_option ver (look s (key e))) then Some e else look s (key e))"
  using assms
proof (induction es arbitrary: s)
  case (Cons d es)
  show ?case
  proof (cases "d = e")
    case True
    with Cons.prems have "key e \<notin> key ` set es" by auto
    with True show ?thesis using Cons.prems by (simp add: fold_other invar_put look_put)
  next
    case False
    then have e: "e \<in> set es" using Cons.prems by simp
    then have ne: "key e \<noteq> key d" using Cons.prems(2) e by (metis distinct.simps(2) image_eqI list.set_map list.simps(9))
    then have l: "look (put d s) (key e) = look s (key e)" using Cons.prems(1) by (simp add: look_put)
    have "distinct (map key es)" using Cons.prems by simp
    from Cons.IH [OF invar_put [OF Cons.prems(1)] this e, of d] Cons.prems(1) l show ?thesis
      by (simp add: admits_put)
  qed
qed simp

end

end
