(* ===== verification/Merkle.thy ===== *)
theory Merkle
  imports PyInt Replication Security CanonicalJson "HOL-Library.Product_Lexorder"
begin

text \<open>
  \<open>AgentRegistry/a2x_registry/cluster/merkle.py\<close>: the bucket hashes two nodes compare before they exchange
  rows. The hash function is an argument; what the comparison proves rests on it not colliding on the texts
  at hand.
\<close>

section \<open>Hashing\<close>

type_synonym hash = "byte list \<Rightarrow> byte list"

type_synonym version_index = "(record_key \<times> version) list"

abbreviation unit_sep :: char where
  "unit_sep \<equiv> CHR 31"

definition key_str :: "record_key \<Rightarrow> string" where
  "key_str k = (case k of (d, o', s) \<Rightarrow> d @ unit_sep # o' @ unit_sep # s)"

definition bytes_big :: "byte list \<Rightarrow> nat" where
  "bytes_big bs = foldl (\<lambda>a b. a * 256 + unat b) 0 bs"

definition bucket_of :: "hash \<Rightarrow> nat \<Rightarrow> record_key \<Rightarrow> nat" where
  "bucket_of sha n k = bytes_big (take 4 (sha (utf8 (key_str k)))) mod n"

definition entry_text :: "record_key \<Rightarrow> version \<Rightarrow> string" where
  "entry_text k v = key_str k @ unit_sep # int_str (fst v) @ unit_sep # snd v"

definition entry_digest :: "hash \<Rightarrow> record_key \<times> version \<Rightarrow> byte list" where
  "entry_digest sha e = sha (utf8 (entry_text (fst e) (snd e)))"

definition hexdigest :: "byte list \<Rightarrow> string" where
  "hexdigest bs = concat (map (\<lambda>b. [hex_char (unat b div 16), hex_char (unat b mod 16)]) bs)"

text \<open>The sorted entries of a bucket, the bytes that are hashed for it, and the hashes of the non-empty buckets.\<close>

definition bucket_entries :: "hash \<Rightarrow> nat \<Rightarrow> version_index \<Rightarrow> nat \<Rightarrow> version_index" where
  "bucket_entries sha n idx b = sort (filter (\<lambda>e. bucket_of sha n (fst e) = b) idx)"

definition bucket_bytes :: "hash \<Rightarrow> nat \<Rightarrow> version_index \<Rightarrow> nat \<Rightarrow> byte list" where
  "bucket_bytes sha n idx b = concat (map (entry_digest sha) (bucket_entries sha n idx b))"

definition index_buckets :: "hash \<Rightarrow> nat \<Rightarrow> version_index \<Rightarrow> nat list" where
  "index_buckets sha n idx = rev (remdups (rev (map (\<lambda>e. bucket_of sha n (fst e)) idx)))"

definition bucket_hashes :: "hash \<Rightarrow> nat \<Rightarrow> version_index \<Rightarrow> (string \<times> string) list" where
  "bucket_hashes sha n idx =
     map (\<lambda>b. (nat_str b, hexdigest (sha (bucket_bytes sha n idx b)))) (index_buckets sha n idx)"

text \<open>The keys of \<open>remote\<close> come from the peer: \<open>int\<close> raises on a text that is no number.\<close>

definition differing_buckets :: "(string \<times> string) list \<Rightarrow> (string \<times> string) list \<Rightarrow> int list res" where
  "differing_buckets local remote =
     traverse (\<lambda>b. py_int (PStr b))
       (filter (\<lambda>b. map_of local b \<noteq> map_of remote b) (remdups (map fst local @ map fst remote)))"

definition keys_in_buckets :: "hash \<Rightarrow> nat \<Rightarrow> record_key list \<Rightarrow> int list \<Rightarrow> record_key list" where
  "keys_in_buckets sha n ks bs = filter (\<lambda>k. int (bucket_of sha n k) \<in> set bs) ks"

section \<open>What equal hashes say\<close>

text \<open>Encodings are injective.\<close>

lemma sep_split:
  "a @ x # b = c @ x # d \<Longrightarrow> x \<notin> set a \<Longrightarrow> x \<notin> set c \<Longrightarrow> a = c \<and> b = d"
proof (induction a arbitrary: c)
  case Nil
  then show ?case by (cases c) auto
next
  case (Cons y a)
  then show ?case by (cases c) auto
qed

definition id_ok :: "record_key \<Rightarrow> bool" where
  "id_ok k \<longleftrightarrow> (case k of (d, o', s) \<Rightarrow> unit_sep \<notin> set d \<and> unit_sep \<notin> set o' \<and> unit_sep \<notin> set s)"

lemma sep_not_in_digits: "unit_sep \<notin> set (int_str i)"
proof -
  have "unit_sep \<notin> set (nat_str n)" for n
    using nat_str_digits [of n] by (auto simp: list_all_iff is_digit_def)
  then show ?thesis by (auto simp: int_str_def)
qed

lemma int_str_inj: "int_str i = int_str j \<Longrightarrow> i = j"
  using int_str_inj_end [of "[]" "[]" i j] by simp

lemma entry_text_inj:
  assumes "id_ok k" "id_ok k'" "entry_text k v = entry_text k' v'"
  shows "k = k' \<and> v = v'"
proof -
  obtain d a s d' a' s' where k: "k = (d, a, s)" "k' = (d', a', s')" by (metis prod_cases3)
  have n: "unit_sep \<notin> set d" "unit_sep \<notin> set a" "unit_sep \<notin> set s" "unit_sep \<notin> set d'" "unit_sep \<notin> set a'" "unit_sep \<notin> set s'"
    using assms(1,2) k by (auto simp: id_ok_def)
  have "d @ unit_sep # (a @ unit_sep # s @ unit_sep # int_str (fst v) @ unit_sep # snd v)
      = d' @ unit_sep # (a' @ unit_sep # s' @ unit_sep # int_str (fst v') @ unit_sep # snd v')"
    using assms(3) k by (simp add: entry_text_def key_str_def)
  from sep_split [OF this n(1,4)] have d: "d = d'"
    and 1: "a @ unit_sep # (s @ unit_sep # int_str (fst v) @ unit_sep # snd v)
      = a' @ unit_sep # (s' @ unit_sep # int_str (fst v') @ unit_sep # snd v')" by auto
  from sep_split [OF 1 n(2,5)] have a: "a = a'"
    and 2: "s @ unit_sep # (int_str (fst v) @ unit_sep # snd v) = s' @ unit_sep # (int_str (fst v') @ unit_sep # snd v')" by auto
  from sep_split [OF 2 n(3,6)] have s: "s = s'"
    and 3: "int_str (fst v) @ unit_sep # snd v = int_str (fst v') @ unit_sep # snd v'" by auto
  from sep_split [OF 3 sep_not_in_digits sep_not_in_digits] int_str_inj have "v = v'" by (auto simp: prod_eq_iff)
  with d a s k show ?thesis by simp
qed

lemma unat_byte_of: "n < 256 \<Longrightarrow> unat (byte_of n) = n"
  by (simp add: byte_of_def unsigned_of_nat take_bit_nat_eq_self_iff)

lemma byte_of_eq: "m < 256 \<Longrightarrow> n < 256 \<Longrightarrow> byte_of m = byte_of n \<longleftrightarrow> m = n"
  using unat_byte_of by metis

lemma utf8_char_cons:
  assumes "utf8_char c @ r = utf8_char d @ r'"
  shows "c = d \<and> r = r'"
proof -
  have b: "(of_char c :: nat) < 256" "(of_char d :: nat) < 256" by simp_all
  have q: "n div 64 < 4" "n mod 64 < 64" if "n < 256" for n :: nat using that by auto
  have "(of_char c :: nat) = of_char d \<and> r = r'"
  proof (cases "(of_char c :: nat) < 128")
    case True
    then show ?thesis using assms b q [OF b(2)] by (auto simp: utf8_char_def Let_def byte_of_eq split: if_splits)
  next
    case False
    have "(of_char c :: nat) div 64 = of_char d div 64 \<and> (of_char c :: nat) mod 64 = of_char d mod 64 \<and> r = r'"
      using assms b False q [OF b(1)] q [OF b(2)]
      by (auto simp: utf8_char_def Let_def byte_of_eq split: if_splits)
    then show ?thesis by (metis mult_div_mod_eq)
  qed
  then show ?thesis by simp
qed

lemma utf8_char_nonempty [simp]: "utf8_char c \<noteq> []"
  by (simp add: utf8_char_def Let_def)

lemma utf8_inj: "utf8 s = utf8 t \<Longrightarrow> s = t"
proof (induction s arbitrary: t)
  case Nil
  then show ?case by (cases t) (auto simp: utf8_def)
next
  case (Cons c s)
  then obtain d u where t: "t = d # u" by (cases t) (auto simp: utf8_def)
  with Cons.prems have "utf8_char c @ utf8 s = utf8_char d @ utf8 u" by (simp add: utf8_def)
  with Cons.IH t utf8_char_cons show ?case by auto
qed

lemma hex_char_inj: "m < 16 \<Longrightarrow> n < 16 \<Longrightarrow> hex_char m = hex_char n \<longleftrightarrow> m = n"
  using hex_val_hex_char by metis

lemma hexdigest_inj: "hexdigest bs = hexdigest cs \<Longrightarrow> bs = cs"
proof (induction bs arbitrary: cs)
  case Nil
  then show ?case by (cases cs) (auto simp: hexdigest_def)
next
  case (Cons b bs)
  then obtain c ds where cs: "cs = c # ds" by (cases cs) (auto simp: hexdigest_def)
  have lt: "unat x div 16 < 16" "unat x mod 16 < 16" for x :: byte using unat_byte [of x] by auto
  have "unat b div 16 = unat c div 16 \<and> unat b mod 16 = unat c mod 16" and rest: "hexdigest bs = hexdigest ds"
    using Cons.prems cs by (auto simp: hexdigest_def hex_char_inj lt)
  then have "unat b = unat c" by (metis mult_div_mod_eq)
  then have "b = c" by (metis byte_of_unat)
  then show ?case using Cons.IH [OF rest] cs by simp
qed

lemma nat_str_inj: "nat_str m = nat_str n \<Longrightarrow> m = n"
  using digits_val_nat_str by metis

lemma concat_blocks:
  assumes "concat (map f xs) = concat (map g ys)" "\<And>x. length (f x) = n" "\<And>y. length (g y) = n" "0 < n"
  shows "map f xs = map g ys"
  using assms(1)
proof (induction xs arbitrary: ys)
  case Nil
  then show ?case using assms(3,4) by (cases ys) (auto, metis length_0_conv less_irrefl)
next
  case (Cons x xs)
  then obtain y zs where ys: "ys = y # zs"
    using assms(2,4) by (cases ys) (auto, metis length_0_conv less_irrefl)
  have "f x @ concat (map f xs) = g y @ concat (map g zs)" using Cons.prems ys by simp
  moreover have "length (f x) = length (g y)" using assms(2,3) by simp
  ultimately show ?case using Cons.IH [of zs] ys by simp
qed

text \<open>The texts and the byte strings that are hashed for an index.\<close>

definition entry_inputs :: "version_index \<Rightarrow> byte list set" where
  "entry_inputs idx = (\<lambda>(k, v). utf8 (entry_text k v)) ` set idx"

definition bucket_inputs :: "hash \<Rightarrow> nat \<Rightarrow> version_index \<Rightarrow> byte list set" where
  "bucket_inputs sha n idx = bucket_bytes sha n idx ` (\<lambda>e. bucket_of sha n (fst e)) ` set idx"

definition no_collision :: "hash \<Rightarrow> nat \<Rightarrow> version_index \<Rightarrow> version_index \<Rightarrow> bool" where
  "no_collision sha n idx idx' \<longleftrightarrow> (\<forall>x. length (sha x) = 32) \<and> inj_on sha (entry_inputs idx \<union> entry_inputs idx')
     \<and> inj_on sha (bucket_inputs sha n idx \<union> bucket_inputs sha n idx')"

lemma map_of_bucket_hashes:
  "map_of (bucket_hashes sha n idx) (nat_str b) =
     (if b \<in> (\<lambda>e. bucket_of sha n (fst e)) ` set idx then Some (hexdigest (sha (bucket_bytes sha n idx b))) else None)"
proof -
  have "map_of (map (\<lambda>b. (nat_str b, f b)) bs) (nat_str b) = (if b \<in> set bs then Some (f b) else None)" for bs and f :: "nat \<Rightarrow> string"
    using nat_str_inj by (induction bs) auto
  then show ?thesis by (simp add: bucket_hashes_def index_buckets_def)
qed

lemma set_bucket_entries: "set (bucket_entries sha n idx b) = {e \<in> set idx. bucket_of sha n (fst e) = b}"
  by (auto simp: bucket_entries_def)

lemma bucket_agree:
  assumes nc: "no_collision sha n idx idx'" and ids: "\<forall>e \<in> set idx \<union> set idx'. id_ok (fst e)"
    and eq: "map_of (bucket_hashes sha n idx) (nat_str b) = map_of (bucket_hashes sha n idx') (nat_str b)"
  shows "{e \<in> set idx. bucket_of sha n (fst e) = b} = {e \<in> set idx'. bucket_of sha n (fst e) = b}"
proof (cases "b \<in> (\<lambda>e. bucket_of sha n (fst e)) ` set idx")
  case False
  then have "b \<notin> (\<lambda>e. bucket_of sha n (fst e)) ` set idx'" using eq by (auto simp: map_of_bucket_hashes split: if_splits)
  with False show ?thesis by auto
next
  case True
  then have b': "b \<in> (\<lambda>e. bucket_of sha n (fst e)) ` set idx'"
    and h: "hexdigest (sha (bucket_bytes sha n idx b)) = hexdigest (sha (bucket_bytes sha n idx' b))"
    using eq by (auto simp: map_of_bucket_hashes split: if_splits)
  have "bucket_bytes sha n idx b = bucket_bytes sha n idx' b"
    using hexdigest_inj [OF h] nc True b' unfolding no_collision_def bucket_inputs_def
    by (elim conjE) (erule (1) inj_onD, auto)
  then have m: "map (entry_digest sha) (bucket_entries sha n idx b) = map (entry_digest sha) (bucket_entries sha n idx' b)"
    using nc by (intro concat_blocks [where n = 32]) (auto simp: bucket_bytes_def no_collision_def entry_digest_def)
  have "inj_on (entry_digest sha) (set idx \<union> set idx')"
  proof (rule inj_onI)
    fix e e' assume e: "e \<in> set idx \<union> set idx'" "e' \<in> set idx \<union> set idx'" "entry_digest sha e = entry_digest sha e'"
    have inj: "inj_on sha (entry_inputs idx \<union> entry_inputs idx')" using nc by (simp add: no_collision_def)
    have "utf8 (entry_text (fst x) (snd x)) \<in> entry_inputs idx \<union> entry_inputs idx'" if "x \<in> set idx \<union> set idx'" for x
      using that by (force simp: entry_inputs_def)
    then have "utf8 (entry_text (fst e) (snd e)) = utf8 (entry_text (fst e') (snd e'))"
      using inj_onD [OF inj] e by (simp add: entry_digest_def)
    from entry_text_inj [OF _ _ utf8_inj [OF this]] e(1,2) ids show "e = e'" by (auto simp: prod_eq_iff)
  qed
  then have "inj_on (entry_digest sha) (set (bucket_entries sha n idx b) \<union> set (bucket_entries sha n idx' b))"
    by (rule inj_on_subset) (auto simp: set_bucket_entries)
  from map_inj_on [OF m this] have "bucket_entries sha n idx b = bucket_entries sha n idx' b" .
  then show ?thesis using set_bucket_entries by metis
qed

text \<open>The buckets whose hashes differ, and what the remaining buckets have in common.\<close>

lemma int_digits_digits: "list_all is_digit ds \<Longrightarrow> int_digits ds (int a) = Some (int (digits_val ds a))"
proof (induction ds arbitrary: a)
  case (Cons c ds)
  then have c: "CHR ''0'' \<le> c \<and> c \<le> CHR ''9''" "48 \<le> (of_char c :: nat)"
    by (auto simp: is_digit_def less_eq_char_def Let_def)
  have e: "(of_char c :: int) = int (of_char c)" by (simp only: of_nat_of_char)
  have "10 * int a + (of_char c - 48) = int (a * 10 + (of_char c - 48))"
    using c(2) by (simp add: e of_nat_diff)
  then show ?case using Cons.IH [of "a * 10 + (of_char c - 48)"] Cons.prems c(1) by (simp add: mult.commute)
qed simp

lemma py_int_nat_str: "py_int (PStr (nat_str b)) = Inr (int b)"
proof -
  have d: "is_digit c \<Longrightarrow> \<not> is_space c \<and> c \<noteq> CHR ''-'' \<and> c \<noteq> CHR ''+'' \<and> c \<noteq> CHR ''_''" for c
    by (auto simp: is_digit_def is_space_def Let_def)
  obtain c r where n: "nat_str b = c # r" using nat_str_nonempty [of b] by (cases "nat_str b") auto
  have "strip (nat_str b) = nat_str b"
    using nat_str_digits [of b] d by (intro strip_no_space) (auto simp: list_all_iff)
  then have "int_text (nat_str b) = int_digits (nat_str b) 0"
    using n nat_str_hd [of b] d [of c] by (simp add: int_text_def option.map_ident)
  then show ?thesis using int_digits_digits [OF nat_str_digits, of b 0] by (simp add: digits_val_nat_str)
qed

lemma fst_bucket_hashes: "fst ` set (bucket_hashes sha n idx) = nat_str ` (\<lambda>e. bucket_of sha n (fst e)) ` set idx"
  by (simp add: bucket_hashes_def index_buckets_def image_image)

lemma traverse_nat_strs: "set bs \<subseteq> range nat_str \<Longrightarrow> \<exists>is. traverse (\<lambda>b. py_int (PStr b)) bs = Inr is \<and> set is = {int b |b. nat_str b \<in> set bs}"
proof (induction bs)
  case (Cons s bs)
  then obtain b "is" where "s = nat_str b" "traverse (\<lambda>b. py_int (PStr b)) bs = Inr is" "set is = {int b |b. nat_str b \<in> set bs}"
    by auto
  then show ?case using nat_str_inj by (auto simp: py_int_nat_str simp del: py_int.simps)
qed simp

lemma differing_buckets_agree:
  assumes "no_collision sha n idx idx'" "\<forall>e \<in> set idx \<union> set idx'. id_ok (fst e)"
  shows "\<exists>diff. differing_buckets (bucket_hashes sha n idx) (bucket_hashes sha n idx') = Inr diff
    \<and> (\<forall>e. int (bucket_of sha n (fst e)) \<notin> set diff \<longrightarrow> (e \<in> set idx \<longleftrightarrow> e \<in> set idx'))
    \<and> (idx = idx' \<longrightarrow> diff = [])"
proof -
  let ?l = "bucket_hashes sha n idx" and ?r = "bucket_hashes sha n idx'"
  let ?bs = "filter (\<lambda>b. map_of ?l b \<noteq> map_of ?r b) (remdups (map fst ?l @ map fst ?r))"
  have names: "set (map fst ?l @ map fst ?r) = nat_str ` (\<lambda>e. bucket_of sha n (fst e)) ` (set idx \<union> set idx')"
    by (simp add: fst_bucket_hashes image_Un)
  then have "set ?bs \<subseteq> range nat_str" by auto
  from traverse_nat_strs [OF this] obtain diff where d: "differing_buckets ?l ?r = Inr diff"
      "set diff = {int b |b. nat_str b \<in> set ?bs}"
    unfolding differing_buckets_def by blast
  have "e \<in> set idx \<longleftrightarrow> e \<in> set idx'" if "int (bucket_of sha n (fst e)) \<notin> set diff" for e
  proof (cases "e \<in> set idx \<union> set idx'")
    case True
    then have "nat_str (bucket_of sha n (fst e)) \<in> set (map fst ?l @ map fst ?r)" unfolding names by auto
    then have "map_of ?l (nat_str (bucket_of sha n (fst e))) = map_of ?r (nat_str (bucket_of sha n (fst e)))"
      using that d(2) by auto
    from bucket_agree [OF assms this] show ?thesis by auto
  qed simp
  moreover have "idx = idx' \<longrightarrow> diff = []" using d(2) by auto
  ultimately show ?thesis using d(1) by blast
qed

end
