(* ===== verification/ClusterState.thy ===== *)
theory ClusterState
  imports Merkle Complex_Main
begin

text \<open>
  \<open>AgentRegistry/a2x_registry/cluster\<close>: the persisted state (\<open>state.py\<close>), peers (\<open>peer.py\<close>), the configuration
  values the data plane uses (\<open>config.py\<close>) and the namespace authorization of the handshake
  (\<open>auth_handshake.py\<close>). The registry service and the auth store are objects the cluster module is given; what
  it reads of them is \<open>registry_view\<close> and the authentication function.
\<close>

section \<open>Persisted state\<close>

abbreviation nul_sep :: char where
  "nul_sep \<equiv> CHR 0x00"

definition make_key :: "string \<Rightarrow> string \<Rightarrow> string" where
  "make_key dataset sid = dataset @ nul_sep # sid"

definition split_key :: "string \<Rightarrow> string \<times> string" where
  "split_key k = (takeWhile (\<lambda>c. c \<noteq> nul_sep) k, drop 1 (dropWhile (\<lambda>c. c \<noteq> nul_sep) k))"

record tombstone =
  tomb_version :: version
  tomb_deleted_at :: int

record cluster_state =
  node_id :: string
  version_clock :: int
  local_versions :: "(string \<times> version) list"
  tombstones :: "(string \<times> tombstone) list"
  cluster_id :: "string option"
  last_roster :: "pdict list"
  my_membership_version :: "version option"

definition version_json :: "version \<Rightarrow> pyval" where
  "version_json v = PList [PInt (fst v), PStr (snd v)]"

definition opt_str_json :: "string option \<Rightarrow> pyval" where
  "opt_str_json s = (case s of None \<Rightarrow> PNone | Some t \<Rightarrow> PStr t)"

definition state_to_dict :: "cluster_state \<Rightarrow> pdict" where
  "state_to_dict s =
     [(''node_id'', PStr (node_id s)), (''version_clock'', PInt (version_clock s)),
      (''local_versions'', PDict (map (\<lambda>(k, v). (k, version_json v)) (local_versions s))),
      (''tombstones'', PDict (map (\<lambda>(k, t). (k, PDict [(''version'', version_json (tomb_version t)),
         (''deleted_at_ms'', PInt (tomb_deleted_at t))])) (tombstones s))),
      (''cluster_id'', opt_str_json (cluster_id s)),
      (''last_roster'', PList (map PDict (last_roster s))),
      (''my_membership_version'', (case my_membership_version s of None \<Rightarrow> PNone | Some v \<Rightarrow> version_json v))]"

text \<open>
  The class keeps the JSON values of a version and of a roster entry as they are; the model's fields are typed,
  so a file with other JSON types is outside it and reported as \<open>TypeError\<close>.
\<close>

fun version_of_json :: "pyval \<Rightarrow> version res" where
  "version_of_json (PList [PInt i, PStr n]) = Inr (i, n)"
| "version_of_json _ = Inl (TypeError ''version'')"

fun tombstone_of_json :: "pyval \<Rightarrow> tombstone res" where
  "tombstone_of_json (PDict d) =
     (case map_of d ''version'' of
        None \<Rightarrow> Inl (KeyError ''version'')
      | Some v \<Rightarrow> rbind (version_of_json v) (\<lambda>ver.
          case map_of d ''deleted_at_ms'' of
            None \<Rightarrow> Inl (KeyError ''deleted_at_ms'')
          | Some t \<Rightarrow> rbind (py_int t) (\<lambda>ms. Inr \<lparr>tomb_version = ver, tomb_deleted_at = ms\<rparr>)))"
| "tombstone_of_json _ = Inl (TypeError ''tombstone'')"

definition items_or_empty :: "pyval \<Rightarrow> pdict res" where
  "items_or_empty v = (if \<not> truthy v then Inr [] else case v of PDict d \<Rightarrow> Inr d | _ \<Rightarrow> Inl (AttributeError ''items''))"

definition dict_list :: "pyval \<Rightarrow> pdict list res" where
  "dict_list v = (if \<not> truthy v then Inr [] else case v of
      PList xs \<Rightarrow> traverse (\<lambda>x. case x of PDict d \<Rightarrow> Inr d | _ \<Rightarrow> Inl (TypeError ''last_roster'')) xs
    | _ \<Rightarrow> Inl (TypeError ''last_roster''))"

definition opt_text_of_json :: "pyval \<Rightarrow> string option res" where
  "opt_text_of_json v = (case v of PNone \<Rightarrow> Inr None | PStr t \<Rightarrow> Inr (Some t) | _ \<Rightarrow> Inl (TypeError ''cluster_id''))"

definition traverse_items :: "(pyval \<Rightarrow> 'a res) \<Rightarrow> pdict \<Rightarrow> (string \<times> 'a) list res" where
  "traverse_items f d = traverse (\<lambda>(k, v). rbind (f v) (\<lambda>x. Inr (k, x))) d"

definition state_of_dict :: "pdict \<Rightarrow> cluster_state res" where
  "state_of_dict raw =
     rbind (items_or_empty (dget raw ''tombstones'')) (\<lambda>ts.
     rbind (traverse_items tombstone_of_json ts) (\<lambda>tombs.
     rbind (case map_of raw ''node_id'' of Some (PStr n) \<Rightarrow> Inr n | Some _ \<Rightarrow> Inl (TypeError ''node_id'')
            | None \<Rightarrow> Inl (KeyError ''node_id'')) (\<lambda>nid.
     rbind (py_int (dget_or raw ''version_clock'' (PInt 0))) (\<lambda>clock.
     rbind (items_or_empty (dget raw ''local_versions'')) (\<lambda>vs.
     rbind (traverse_items version_of_json vs) (\<lambda>locals.
     rbind (opt_text_of_json (dget raw ''cluster_id'')) (\<lambda>cid.
     rbind (dict_list (dget raw ''last_roster'')) (\<lambda>roster.
     rbind (if truthy (dget raw ''my_membership_version'')
            then rbind (version_of_json (dget raw ''my_membership_version'')) (\<lambda>v. Inr (Some v)) else Inr None) (\<lambda>mmv.
       Inr \<lparr>node_id = nid, version_clock = clock, local_versions = locals, tombstones = tombs,
            cluster_id = cid, last_roster = roster, my_membership_version = mmv\<rparr>)))))))))"

text \<open>\<open>load\<close> of a file that may be absent, and \<open>init\<close> of a fresh one.\<close>

definition state_load :: "pdict option \<Rightarrow> cluster_state option res" where
  "state_load file = (case file of None \<Rightarrow> Inr None | Some raw \<Rightarrow> rbind (state_of_dict raw) (\<lambda>s. Inr (Some s)))"

definition fresh_state :: "string \<Rightarrow> cluster_state" where
  "fresh_state nid = \<lparr>node_id = nid, version_clock = 0, local_versions = [], tombstones = [], cluster_id = None,
     last_roster = [], my_membership_version = None\<rparr>"

definition state_init :: "string option \<Rightarrow> string \<Rightarrow> pdict option \<Rightarrow> cluster_state res \<times> pdict option" where
  "state_init nid generated file =
     (case file of
        Some raw \<Rightarrow> (Inl (FileExistsError ''Cluster already initialized''), file)
      | None \<Rightarrow> (let s = fresh_state (case nid of None \<Rightarrow> generated | Some n \<Rightarrow> if n = [] then generated else n)
                 in (Inr s, Some (state_to_dict s))))"

section \<open>Peers, configuration, environment\<close>

record peer =
  peer_node :: string
  peer_address :: string
  peer_namespaces :: "string list"
  peer_last_seen :: rat
  peer_token :: "string option"

record cluster_config =
  keepalive_interval :: rat
  hold_timeout :: rat
  merkle_buckets :: nat

definition tombstone_retention :: "cluster_config \<Rightarrow> rat" where
  "tombstone_retention cfg = hold_timeout cfg + keepalive_interval cfg"

record registry_view =
  rg_datasets :: "string list"
  rg_entries :: "string \<Rightarrow> (string \<times> string) list"
  rg_services :: "string \<Rightarrow> (string \<times> pdict) list"
  rg_entry :: "string \<Rightarrow> string \<Rightarrow> pdict option"
  rg_auth_required :: "string \<Rightarrow> bool"

record auth_ctx =
  ctx_admin :: bool
  ctx_namespaces :: "string list option"

type_synonym auth_store = "string \<Rightarrow> auth_ctx option"

text \<open>The fields of \<open>AuthContext\<close> the handshake reads; an authentication that raises is \<open>None\<close>.\<close>

definition caller_context :: "auth_store option \<Rightarrow> string option \<Rightarrow> auth_ctx option" where
  "caller_context auth token =
     (case auth of None \<Rightarrow> None | Some a \<Rightarrow> (case token of None \<Rightarrow> None | Some t \<Rightarrow> if t = [] then None else a t))"

definition registry_datasets :: "registry_view option \<Rightarrow> string list" where
  "registry_datasets reg = (case reg of None \<Rightarrow> [] | Some r \<Rightarrow> rg_datasets r)"

definition namespace_accepted :: "registry_view option \<Rightarrow> auth_store option \<Rightarrow> auth_ctx option \<Rightarrow> string \<Rightarrow> bool" where
  "namespace_accepted reg auth ctx ns =
     (if ns \<in> set (registry_datasets reg)
      then auth = None \<or> (case reg of None \<Rightarrow> False | Some r \<Rightarrow> \<not> rg_auth_required r ns)
           \<or> (case ctx of None \<Rightarrow> False | Some c \<Rightarrow> ctx_admin c
                \<or> (case ctx_namespaces c of None \<Rightarrow> False | Some nss \<Rightarrow> ns \<in> set nss))
      else auth = None \<or> (case ctx of None \<Rightarrow> False | Some c \<Rightarrow> ctx_admin c))"

definition authorize_namespaces ::
  "registry_view option \<Rightarrow> auth_store option \<Rightarrow> string list \<Rightarrow> string option \<Rightarrow> string list \<times> string list" where
  "authorize_namespaces reg auth requested token =
     (let accepted = filter (namespace_accepted reg auth (caller_context auth token)) requested
      in (accepted, filter (\<lambda>ns. ns \<notin> set (registry_datasets reg)) accepted))"

section \<open>Round trips\<close>

lemma split_make_key: "nul_sep \<notin> set dataset \<Longrightarrow> split_key (make_key dataset sid) = (dataset, sid)"
  by (simp add: split_key_def make_key_def takeWhile_append dropWhile_append)

lemma traverse_items_map:
  assumes "\<And>v. f (g v) = Inr v"
  shows "traverse_items f (map (\<lambda>(k, v). (k, g v)) d) = Inr d"
  unfolding traverse_items_def by (induction d) (auto simp: assms)

lemma version_roundtrip [simp]: "version_of_json (version_json v) = Inr v"
  by (cases v) (simp add: version_json_def)

lemma tombstone_roundtrip [simp]:
  "tombstone_of_json (PDict [(''version'', version_json (tomb_version t)), (''deleted_at_ms'', PInt (tomb_deleted_at t))]) = Inr t"
  by (cases t) simp

lemma dict_list_map: "traverse (\<lambda>x. case x of PDict d \<Rightarrow> Inr d | _ \<Rightarrow> Inl (TypeError ''last_roster'')) (map PDict ds) = Inr ds"
  by (induction ds) simp_all

lemma state_roundtrip: "state_load (Some (state_to_dict s)) = Inr (Some s)"
proof -
  have v: "truthy (version_json w)" for w by (simp add: version_json_def)
  show ?thesis
    using traverse_items_map [of version_of_json version_json "local_versions s"]
      traverse_items_map [of tombstone_of_json "\<lambda>t. PDict [(''version'', version_json (tomb_version t)),
        (''deleted_at_ms'', PInt (tomb_deleted_at t))]" "tombstones s"] dict_list_map [of "last_roster s"]
    by (cases "cluster_id s"; cases "my_membership_version s"; cases s)
      (auto simp: state_load_def state_of_dict_def state_to_dict_def items_or_empty_def dict_list_def opt_text_of_json_def
        opt_str_json_def traverse_items_def v)
qed

end
