(* ===== verification/ClusterStore.thy ===== *)
theory ClusterStore
  imports ClusterState
begin

text \<open>
  \<open>AgentRegistry/a2x_registry/cluster/store.py\<close>: the state of a node and the operations that do not call a
  peer: versions, indexes, envelopes, the inbound apply and the handlers behind the peer-facing endpoints.
  \<open>clk i\<close> is the \<open>i\<close>-th reading of \<open>time.time_ns() // 1000000\<close> in a call and \<open>tick i\<close> the \<open>i\<close>-th reading of the
  monotonic clock. A Python set is a list whose order carries no meaning; an absent and an empty namespace
  list mean the same in every operation and are both \<open>[]\<close>. Request and response bodies are typed records.
\<close>

section \<open>State and environment\<close>

record membership_record =
  mr_node :: string
  mr_cluster :: "string option"
  mr_address :: string
  mr_version :: version
  mr_removed :: bool

record cluster_store =
  cs_state :: cluster_state
  cs_foreign :: "(record_key \<times> sync_envelope) list"
  cs_sessions :: "(string \<times> peer) list"
  cs_evicted :: "(string \<times> rat) list"
  cs_roster :: "(string \<times> membership_record) list"
  cs_disk :: "pdict option"

text \<open>
  What the constructor is given. \<open>ne_dump\<close> and \<open>ne_validate\<close> are pydantic's \<open>model_dump\<close> and
  \<open>model_validate\<close> of \<open>SyncEnvelope\<close>, \<open>ne_sha\<close> is SHA-256.
\<close>

record node_env =
  ne_config :: cluster_config
  ne_registry :: "registry_view option"
  ne_auth :: "auth_store option"
  ne_advertise :: string
  ne_sha :: hash
  ne_dump :: "sync_envelope \<Rightarrow> pdict"
  ne_validate :: "pdict \<Rightarrow> sync_envelope res"

abbreviation cs_node :: "cluster_store \<Rightarrow> string" where
  "cs_node s \<equiv> node_id (cs_state s)"

definition new_store :: "cluster_state \<Rightarrow> pdict option \<Rightarrow> cluster_store" where
  "new_store st file = \<lparr>cs_state = st, cs_foreign = [], cs_sessions = [], cs_evicted = [], cs_roster = [], cs_disk = file\<rparr>"

definition load_or_none :: "pdict option \<Rightarrow> cluster_store option" where
  "load_or_none file = (case state_load file of Inl e \<Rightarrow> None | Inr None \<Rightarrow> None | Inr (Some st) \<Rightarrow> Some (new_store st file))"

definition save_state :: "cluster_store \<Rightarrow> cluster_store" where
  "save_state s = s\<lparr>cs_disk := Some (state_to_dict (cs_state s))\<rparr>"

section \<open>Versions\<close>

definition next_ts :: "int \<Rightarrow> cluster_state \<Rightarrow> int \<times> cluster_state" where
  "next_ts now_ms st = (let ts = max now_ms (version_clock st + 1) in (ts, st\<lparr>version_clock := ts\<rparr>))"

definition next_version :: "int \<Rightarrow> cluster_store \<Rightarrow> version \<times> cluster_store" where
  "next_version now_ms s = (let (ts, st) = next_ts now_ms (cs_state s) in ((ts, cs_node s), s\<lparr>cs_state := st\<rparr>))"

definition next_version_after :: "int \<Rightarrow> int \<Rightarrow> cluster_store \<Rightarrow> version \<times> cluster_store" where
  "next_version_after now_ms floor_ms s =
     (let ts = max (max now_ms (version_clock (cs_state s) + 1)) (floor_ms + 1)
      in ((ts, cs_node s), s\<lparr>cs_state := (cs_state s)\<lparr>version_clock := ts\<rparr>\<rparr>))"

definition observe_version :: "int \<Rightarrow> cluster_store \<Rightarrow> cluster_store" where
  "observe_version ms s =
     (if version_clock (cs_state s) < ms then s\<lparr>cs_state := (cs_state s)\<lparr>version_clock := ms\<rparr>\<rparr> else s)"

text \<open>\<open>_ensure_local_versions\<close>: the non-ephemeral entries of all datasets, and the loop that stamps them.\<close>

definition dataset_records :: "registry_view \<Rightarrow> string \<Rightarrow> (string \<times> string) list" where
  "dataset_records r ds = map (\<lambda>(sid, _). (ds, sid)) (filter (\<lambda>(_, source). source \<noteq> ''ephemeral'') (rg_entries r ds))"

definition local_records :: "registry_view \<Rightarrow> (string \<times> string) list" where
  "local_records r = concat (map (dataset_records r) (rg_datasets r))"

fun ensure_loop :: "(nat \<Rightarrow> int) \<Rightarrow> (string \<times> string) list \<Rightarrow> nat \<Rightarrow> cluster_state \<Rightarrow> nat \<times> cluster_state" where
  "ensure_loop clk [] i st = (i, st)"
| "ensure_loop clk ((ds, sid) # rs) i st =
     (let k = make_key ds sid in
      if map_of (local_versions st) k = None \<and> map_of (tombstones st) k = None
      then (let (ts, st') = next_ts (clk i) st in
            ensure_loop clk rs (Suc i) (st'\<lparr>local_versions := AList.update k (ts, node_id st') (local_versions st')\<rparr>))
      else ensure_loop clk rs i st)"

definition ensure_local_versions :: "node_env \<Rightarrow> (nat \<Rightarrow> int) \<Rightarrow> cluster_store \<Rightarrow> cluster_store" where
  "ensure_local_versions env clk s =
     (case ne_registry env of
        None \<Rightarrow> s
      | Some r \<Rightarrow> (let (n, st) = ensure_loop clk (local_records r) 0 (cs_state s); s' = s\<lparr>cs_state := st\<rparr>
                   in if n \<noteq> 0 then save_state s' else s'))"

section \<open>Indexes and envelopes\<close>

text \<open>A dictionary built by successive assignments.\<close>

definition dict_add :: "('k \<times> 'v) list \<Rightarrow> ('k \<times> 'v) list \<Rightarrow> ('k \<times> 'v) list" where
  "dict_add ps d = fold (\<lambda>(k, v). AList.update k v) ps d"

definition in_scope :: "string list \<Rightarrow> string \<Rightarrow> bool" where
  "in_scope ns ds \<longleftrightarrow> ns = [] \<or> ds \<in> set ns"

definition live_rows :: "registry_view \<Rightarrow> cluster_state \<Rightarrow> string list \<Rightarrow> version_index" where
  "live_rows r st ns = List.map_filter (\<lambda>(ds, sid). map_option (\<lambda>v. ((ds, node_id st, sid), v)) (map_of (local_versions st) (make_key ds sid)))
     (concat (map (dataset_records r) (filter (in_scope ns) (remdups (rg_datasets r)))))"

definition tomb_rows :: "cluster_state \<Rightarrow> string list \<Rightarrow> version_index" where
  "tomb_rows st ns = List.map_filter (\<lambda>(k, t). let (ds, sid) = split_key k in
     if in_scope ns ds then Some ((ds, node_id st, sid), tomb_version t) else None) (tombstones st)"

definition local_index :: "node_env \<Rightarrow> (nat \<Rightarrow> int) \<Rightarrow> string list \<Rightarrow> cluster_store \<Rightarrow> version_index \<times> cluster_store" where
  "local_index env clk ns s =
     (let s' = ensure_local_versions env clk s in
      ((case ne_registry env of
          None \<Rightarrow> []
        | Some r \<Rightarrow> dict_add (tomb_rows (cs_state s') ns) (dict_add (live_rows r (cs_state s') ns) [])), s'))"

definition full_index :: "node_env \<Rightarrow> (nat \<Rightarrow> int) \<Rightarrow> string list \<Rightarrow> cluster_store \<Rightarrow> version_index \<times> cluster_store" where
  "full_index env clk ns s =
     (let (idx, s') = local_index env clk ns s in
      (dict_add (map (\<lambda>(k, e). (k, env_version e)) (filter (\<lambda>(k, _). in_scope ns (fst k)) (cs_foreign s'))) idx, s'))"

definition wrapped_map :: "node_env \<Rightarrow> string \<Rightarrow> (string \<times> pdict) list" where
  "wrapped_map env ds = (case ne_registry env of None \<Rightarrow> [] | Some r \<Rightarrow> dict_add (rg_services r ds) [])"

definition build_local_envelope :: "node_env \<Rightarrow> cluster_store \<Rightarrow> string \<Rightarrow> string \<Rightarrow> sync_envelope option" where
  "build_local_envelope env s ds sid =
     (case map_of (tombstones (cs_state s)) (make_key ds sid) of
        Some t \<Rightarrow> Some \<lparr>env_dataset = ds, env_service = sid, env_origin = cs_node s, env_version = tomb_version t,
                      env_tombstone = True, env_payload = None\<rparr>
      | None \<Rightarrow>
          (case (map_of (local_versions (cs_state s)) (make_key ds sid), ne_registry env) of
             (Some v, Some r) \<Rightarrow>
               (case rg_entry r ds sid of
                  None \<Rightarrow> None
                | Some entry \<Rightarrow> Some \<lparr>env_dataset = ds, env_service = sid, env_origin = cs_node s, env_version = v,
                    env_tombstone = False,
                    env_payload = Some [(''entry'', PDict entry),
                      (''wrapped'', case map_of (wrapped_map env ds) sid of None \<Rightarrow> PNone | Some w \<Rightarrow> PDict w)]\<rparr>)
           | _ \<Rightarrow> None))"

definition build_envelope_for_key :: "node_env \<Rightarrow> cluster_store \<Rightarrow> record_key \<Rightarrow> sync_envelope option" where
  "build_envelope_for_key env s key =
     (case key of (ds, origin, sid) \<Rightarrow>
        if origin = cs_node s then build_local_envelope env s ds sid else map_of (cs_foreign s) key)"

section \<open>Inbound apply\<close>

definition suppressed :: "rat \<Rightarrow> cluster_store \<Rightarrow> string \<Rightarrow> bool" where
  "suppressed now s origin = (case map_of (cs_evicted s) origin of None \<Rightarrow> False | Some until \<Rightarrow> now < until)"

definition apply_inbound :: "rat \<Rightarrow> sync_envelope \<Rightarrow> cluster_store \<Rightarrow> bool \<times> cluster_store" where
  "apply_inbound now e s =
     (if env_origin e = cs_node s then (False, s)
      else if suppressed now s (env_origin e) then (False, s)
      else if \<not> version_newer (env_version e) (map_option env_version (map_of (cs_foreign s) (env_key e))) then (False, s)
      else (True, s\<lparr>cs_foreign := AList.update (env_key e) e (cs_foreign s)\<rparr>))"

section \<open>Sessions\<close>

record open_request =
  rq_node :: string
  rq_address :: string
  rq_namespaces :: "string list"
  rq_token :: "string option"

record open_response =
  rs_node :: string
  rs_accepted :: "string list"
  rs_ephemeral :: "string list"
  rs_session :: "string option"

definition open_session :: "peer \<Rightarrow> cluster_store \<Rightarrow> cluster_store" where
  "open_session p s = s\<lparr>cs_sessions := AList.update (peer_node p) p (cs_sessions s),
     cs_evicted := AList.delete (peer_node p) (cs_evicted s)\<rparr>"

text \<open>\<open>secret\<close> is the result of \<open>secrets.token_hex(16)\<close>.\<close>

definition handle_open :: "node_env \<Rightarrow> rat \<Rightarrow> string \<Rightarrow> open_request \<Rightarrow> cluster_store \<Rightarrow> open_response \<times> cluster_store" where
  "handle_open env now secret body s =
     (let candidate = sort (remdups (rq_namespaces body @ registry_datasets (ne_registry env)));
          (accepted, ephemeral) = authorize_namespaces (ne_registry env) (ne_auth env) candidate (rq_token body);
          session_token = (if ne_auth env \<noteq> None then Some secret else None)
      in (\<lparr>rs_node = cs_node s, rs_accepted = accepted, rs_ephemeral = ephemeral, rs_session = session_token\<rparr>,
          open_session \<lparr>peer_node = rq_node body, peer_address = rq_address body, peer_namespaces = accepted,
            peer_last_seen = now, peer_token = session_token\<rparr> s))"

definition touch_peer :: "rat \<Rightarrow> string \<Rightarrow> cluster_store \<Rightarrow> cluster_store" where
  "touch_peer now nid s =
     (case map_of (cs_sessions s) nid of
        None \<Rightarrow> s
      | Some p \<Rightarrow> s\<lparr>cs_sessions := AList.update nid (p\<lparr>peer_last_seen := now\<rparr>) (cs_sessions s)\<rparr>)"

definition public_namespaces :: "node_env \<Rightarrow> string list" where
  "public_namespaces env =
     (case ne_registry env of
        None \<Rightarrow> []
      | Some r \<Rightarrow> filter (\<lambda>ds. ne_auth env = None \<or> \<not> rg_auth_required r ds) (rg_datasets r))"

definition authed :: "node_env \<Rightarrow> cluster_store \<Rightarrow> string \<Rightarrow> string option \<Rightarrow> bool" where
  "authed env s from_node token \<longleftrightarrow>
     ne_auth env = None
     \<or> (case map_of (cs_sessions s) from_node of None \<Rightarrow> False
        | Some p \<Rightarrow> peer_token p \<noteq> None \<and> token = peer_token p)"

definition allowed_for :: "node_env \<Rightarrow> cluster_store \<Rightarrow> string \<Rightarrow> string list \<Rightarrow> string option \<Rightarrow> string list" where
  "allowed_for env s from_node requested token =
     filter (in_scope requested)
       (case map_of (cs_sessions s) from_node of
          Some p \<Rightarrow> if authed env s from_node token then peer_namespaces p else public_namespaces env
        | None \<Rightarrow> public_namespaces env)"

section \<open>Handlers\<close>

definition allowed_index ::
  "node_env \<Rightarrow> (nat \<Rightarrow> int) \<Rightarrow> string list \<Rightarrow> cluster_store \<Rightarrow> version_index \<times> cluster_store" where
  "allowed_index env clk allowed s =
     (let (idx, s') = full_index env clk (sort (remdups allowed)) s in (filter (\<lambda>(k, _). fst k \<in> set allowed) idx, s'))"

definition serve_digest ::
  "node_env \<Rightarrow> (nat \<Rightarrow> int) \<Rightarrow> rat \<Rightarrow> string \<Rightarrow> string list \<Rightarrow> string option \<Rightarrow> int list option \<Rightarrow> cluster_store
    \<Rightarrow> version_index \<times> cluster_store" where
  "serve_digest env clk now from_node namespaces token buckets s =
     (let s1 = touch_peer now from_node s;
          (idx, s2) = allowed_index env clk (allowed_for env s1 from_node namespaces token) s1
      in (filter (\<lambda>(k, _). case buckets of None \<Rightarrow> True
            | Some bs \<Rightarrow> int (bucket_of (ne_sha env) (merkle_buckets (ne_config env)) k) \<in> set bs) idx, s2))"

definition serve_merkle ::
  "node_env \<Rightarrow> (nat \<Rightarrow> int) \<Rightarrow> rat \<Rightarrow> string \<Rightarrow> string list \<Rightarrow> string option \<Rightarrow> cluster_store
    \<Rightarrow> (string \<times> string) list \<times> cluster_store" where
  "serve_merkle env clk now from_node namespaces token s =
     (let s1 = touch_peer now from_node s;
          (idx, s2) = allowed_index env clk (allowed_for env s1 from_node namespaces token) s1
      in (bucket_hashes (ne_sha env) (merkle_buckets (ne_config env)) idx, s2))"

definition serve_pull ::
  "node_env \<Rightarrow> rat \<Rightarrow> string \<Rightarrow> record_key list \<Rightarrow> string option \<Rightarrow> cluster_store \<Rightarrow> pdict list \<times> cluster_store" where
  "serve_pull env now from_node keys token s =
     (let s1 = touch_peer now from_node s; allowed = allowed_for env s1 from_node [] token
      in (map (ne_dump env) (List.map_filter (build_envelope_for_key env s1) (filter (\<lambda>k. fst k \<in> set allowed) keys)), s1))"

definition may_accept :: "node_env \<Rightarrow> cluster_store \<Rightarrow> string \<Rightarrow> string \<Rightarrow> string option \<Rightarrow> bool" where
  "may_accept env s from_node ds token =
     (if ne_auth env = None then True
      else if authed env s from_node token
        \<and> (case map_of (cs_sessions s) from_node of None \<Rightarrow> False | Some p \<Rightarrow> ds \<in> set (peer_namespaces p)) then True
      else (case ne_registry env of None \<Rightarrow> False | Some r \<Rightarrow> ds \<in> set (rg_datasets r) \<and> \<not> rg_auth_required r ds))"

record updates_result =
  ur_accepted :: nat
  ur_received :: nat
  ur_rejected :: nat

text \<open>The loop of \<open>serve_updates\<close>: what was applied before a malformed envelope stays applied.\<close>

fun updates_loop ::
  "node_env \<Rightarrow> (nat \<Rightarrow> rat) \<Rightarrow> string \<Rightarrow> string option \<Rightarrow> pdict list \<Rightarrow> nat \<Rightarrow> nat \<times> nat \<Rightarrow> cluster_store
    \<Rightarrow> (nat \<times> nat) res \<times> cluster_store" where
  "updates_loop env tick from_node token [] i acc s = (Inr acc, s)"
| "updates_loop env tick from_node token (raw # raws) i (acc, rej) s =
     (case ne_validate env raw of
        Inl e \<Rightarrow> (Inl e, s)
      | Inr e \<Rightarrow>
          if \<not> may_accept env s from_node (env_dataset e) token
          then updates_loop env tick from_node token raws (Suc i) (acc, Suc rej) s
          else (let (ok, s') = apply_inbound (tick i) e s in
                updates_loop env tick from_node token raws (Suc i) (if ok then Suc acc else acc, rej) s'))"

definition serve_updates ::
  "node_env \<Rightarrow> (nat \<Rightarrow> rat) \<Rightarrow> string \<Rightarrow> pdict list \<Rightarrow> string option \<Rightarrow> cluster_store \<Rightarrow> updates_result res \<times> cluster_store" where
  "serve_updates env tick from_node envelopes token s =
     (let (r, s') = updates_loop env tick from_node token envelopes 1 (0, 0) (touch_peer (tick 0) from_node s) in
      (case r of Inl e \<Rightarrow> Inl e
       | Inr (acc, rej) \<Rightarrow> Inr \<lparr>ur_accepted = acc, ur_received = length envelopes, ur_rejected = rej\<rparr>, s'))"

definition handle_keepalive :: "node_env \<Rightarrow> rat \<Rightarrow> string \<Rightarrow> string option \<Rightarrow> cluster_store \<Rightarrow> bool \<times> cluster_store" where
  "handle_keepalive env now from_node token s =
     (if authed env s from_node token then (True, touch_peer now from_node s) else (False, s))"

section \<open>Eviction and garbage collection\<close>

definition disconnect_peer :: "node_env \<Rightarrow> rat \<Rightarrow> string \<Rightarrow> cluster_store \<Rightarrow> bool \<times> cluster_store" where
  "disconnect_peer env now nid s =
     (map_of (cs_sessions s) nid \<noteq> None,
      s\<lparr>cs_sessions := AList.delete nid (cs_sessions s),
        cs_foreign := filter (\<lambda>(k, _). fst (snd k) \<noteq> nid) (cs_foreign s),
        cs_evicted := AList.update nid (now + tombstone_retention (ne_config env)) (cs_evicted s)\<rparr>)"

fun disconnect_all :: "node_env \<Rightarrow> (nat \<Rightarrow> rat) \<Rightarrow> nat \<Rightarrow> string list \<Rightarrow> cluster_store \<Rightarrow> cluster_store" where
  "disconnect_all env tick i [] s = s"
| "disconnect_all env tick i (nid # nids) s = disconnect_all env tick (Suc i) nids (snd (disconnect_peer env (tick i) nid s))"

definition stale_sessions :: "node_env \<Rightarrow> rat \<Rightarrow> cluster_store \<Rightarrow> string list" where
  "stale_sessions env now s =
     map (peer_node \<circ> snd) (filter (\<lambda>(_, p). now - peer_last_seen p > hold_timeout (ne_config env)) (cs_sessions s))"

definition check_hold :: "node_env \<Rightarrow> rat \<Rightarrow> (nat \<Rightarrow> rat) \<Rightarrow> cluster_store \<Rightarrow> string list \<times> cluster_store" where
  "check_hold env now tick s = (stale_sessions env now s, disconnect_all env tick 0 (stale_sessions env now s) s)"

definition prune_suppression :: "rat \<Rightarrow> cluster_store \<Rightarrow> cluster_store" where
  "prune_suppression now s = s\<lparr>cs_evicted := filter (\<lambda>(_, t). \<not> t \<le> now) (cs_evicted s)\<rparr>"

text \<open>\<open>int(tombstone_retention * 1000)\<close> truncates towards zero.\<close>

definition retention_ms :: "cluster_config \<Rightarrow> int" where
  "retention_ms cfg = (let x = tombstone_retention cfg * 1000 in if 0 \<le> x then \<lfloor>x\<rfloor> else \<lceil>x\<rceil>)"

definition gc_tombstones :: "node_env \<Rightarrow> int \<Rightarrow> cluster_store \<Rightarrow> nat \<times> cluster_store" where
  "gc_tombstones env now_ms s =
     (let ret = retention_ms (ne_config env);
          old_t = (\<lambda>(k, t). now_ms - tomb_deleted_at t > ret);
          old_f = (\<lambda>(k, e). env_tombstone e \<and> now_ms - fst (env_version e) > ret);
          n = length (filter old_t (tombstones (cs_state s)));
          s1 = s\<lparr>cs_state := (cs_state s)\<lparr>tombstones := filter (\<lambda>p. \<not> old_t p) (tombstones (cs_state s))\<rparr>\<rparr>;
          s2 = (if n \<noteq> 0 then save_state s1 else s1)
      in (n + length (filter old_f (cs_foreign s)), s2\<lparr>cs_foreign := filter (\<lambda>p. \<not> old_f p) (cs_foreign s)\<rparr>))"

section \<open>Local mutations\<close>

text \<open>The part of \<open>on_local_mutation\<close> under the lock: a new version or tombstone, saved.\<close>

definition stamp_mutation :: "int \<Rightarrow> string \<Rightarrow> string \<Rightarrow> string \<Rightarrow> cluster_store \<Rightarrow> cluster_store" where
  "stamp_mutation now_ms ds sid operation s =
     (let (ts, st) = next_ts now_ms (cs_state s); k = make_key ds sid in
      save_state (s\<lparr>cs_state :=
        (if operation = ''deregister''
         then st\<lparr>tombstones := AList.update k \<lparr>tomb_version = (ts, node_id st), tomb_deleted_at = ts\<rparr> (tombstones st),
                 local_versions := AList.delete k (local_versions st)\<rparr>
         else st\<lparr>local_versions := AList.update k (ts, node_id st) (local_versions st),
                 tombstones := AList.delete k (tombstones st)\<rparr>)\<rparr>))"

section \<open>Reads\<close>

text \<open>\<open>dict(wrapped)\<close>; a non-empty sequence is reported as a \<open>TypeError\<close>.\<close>

fun to_row :: "pyval \<Rightarrow> pdict res" where
  "to_row (PDict d) = Inr d"
| "to_row (PList []) = Inr []"
| "to_row (PStr []) = Inr []"
| "to_row _ = Inl (TypeError ''object is not iterable'')"

definition display_row :: "string \<Rightarrow> string \<Rightarrow> pdict \<Rightarrow> pdict" where
  "display_row shown origin d = AList.update ''origin_id'' (PStr origin) (AList.update ''id'' (PStr shown) d)"

definition foreign_live :: "string \<Rightarrow> cluster_store \<Rightarrow> (record_key \<times> pdict) list" where
  "foreign_live ds s = List.map_filter (\<lambda>(k, e). if fst k \<noteq> ds \<or> env_tombstone e then None
     else case env_payload e of None \<Rightarrow> None | Some pl \<Rightarrow> if pl = [] then None else Some (k, pl)) (cs_foreign s)"

definition foreign_wrapped :: "string \<Rightarrow> cluster_store \<Rightarrow> pdict list res" where
  "foreign_wrapped ds s =
     traverse (\<lambda>((_, origin, sid), pl). rbind (to_row (dget pl ''wrapped'')) (\<lambda>d.
       Inr (display_row (origin @ '':'' @ sid) origin d)))
       (filter (\<lambda>(_, pl). truthy (dget pl ''wrapped'')) (foreign_live ds s))"

text \<open>\<open>valid_entry\<close> is pydantic's \<open>RegistryEntry.model_validate\<close>; a replica it refuses is skipped.\<close>

definition foreign_rows :: "(pyval \<Rightarrow> 'e res) \<Rightarrow> string \<Rightarrow> cluster_store \<Rightarrow> ('e \<times> pdict) list res" where
  "foreign_rows valid_entry ds s =
     traverse (\<lambda>(((_, origin, sid), pl), entry).
         case map_of pl ''wrapped'' of
           None \<Rightarrow> Inl (KeyError ''wrapped'')
         | Some w \<Rightarrow> rbind (to_row w) (\<lambda>d. Inr (entry, display_row (origin @ '':'' @ sid) origin d)))
       (List.map_filter (\<lambda>(k, pl). case map_of pl ''entry'' of
           None \<Rightarrow> None
         | Some v \<Rightarrow> (case valid_entry v of Inl _ \<Rightarrow> None | Inr entry \<Rightarrow> Some ((k, pl), entry))) (foreign_live ds s))"

definition foreign_entry :: "string \<Rightarrow> string \<Rightarrow> cluster_store \<Rightarrow> pdict option res" where
  "foreign_entry ds display_id s =
     (if CHR '':'' \<notin> set display_id then Inr None
      else (let origin = takeWhile (\<lambda>c. c \<noteq> CHR '':'') display_id; sid = drop 1 (dropWhile (\<lambda>c. c \<noteq> CHR '':'') display_id) in
        case map_of (cs_foreign s) (ds, origin, sid) of
          None \<Rightarrow> Inr None
        | Some e \<Rightarrow>
            if env_tombstone e \<or> env_payload e = None \<or> env_payload e = Some [] then Inr None
            else (case map_of (the (env_payload e)) ''wrapped'' of
                    None \<Rightarrow> Inl (KeyError ''wrapped'')
                  | Some w \<Rightarrow> rbind (to_row w) (\<lambda>d. Inr (Some (display_row display_id origin d))))))"

record store_summary =
  sum_node :: string
  sum_advertise :: string
  sum_peers :: "(string \<times> string \<times> string list) list"
  sum_foreign :: nat
  sum_by_namespace :: "(string \<times> nat) list"
  sum_local :: nat
  sum_tombstones :: nat

definition foreign_counts :: "cluster_store \<Rightarrow> (string \<times> nat) list" where
  "foreign_counts s = fold (\<lambda>(k, e) d. if env_tombstone e then d
     else AList.update (fst k) ((case map_of d (fst k) of None \<Rightarrow> 0 | Some n \<Rightarrow> n) + 1) d) (cs_foreign s) []"

definition peer_to_summary :: "peer \<Rightarrow> string \<times> string \<times> string list" where
  "peer_to_summary p = (peer_node p, peer_address p, sort (remdups (peer_namespaces p)))"

definition state_summary :: "node_env \<Rightarrow> cluster_store \<Rightarrow> store_summary" where
  "state_summary env s =
     \<lparr>sum_node = cs_node s, sum_advertise = ne_advertise env, sum_peers = map (peer_to_summary \<circ> snd) (cs_sessions s),
      sum_foreign = sum_list (map snd (foreign_counts s)), sum_by_namespace = foreign_counts s,
      sum_local = length (local_versions (cs_state s)), sum_tombstones = length (tombstones (cs_state s))\<rparr>"


section \<open>Dictionaries built by assignment\<close>

declare map_of_eq_Some_iff [simp del]

lemma dict_add_simps [simp]:
  "dict_add [] d = d"
  "dict_add ((k, v) # ps) d = dict_add ps (AList.update k v d)"
  by (simp_all add: dict_add_def)

lemma map_of_dict_add: "map_of (dict_add ps d) k = (case map_of (rev ps) k of None \<Rightarrow> map_of d k | Some v \<Rightarrow> Some v)"
proof (induction ps arbitrary: d)
  case (Cons p ps)
  then show ?case by (cases p) (auto simp: map_add_def split: option.splits)
qed simp

lemma keys_distinct_dict_add [simp]: "keys_distinct d \<Longrightarrow> keys_distinct (dict_add ps d)"
proof (induction ps arbitrary: d)
  case (Cons p ps)
  then show ?case by (cases p) (simp add: distinct_update)
qed simp

lemma fst_dict_add: "fst ` set (dict_add ps d) = fst ` set ps \<union> fst ` set d"
proof (induction ps arbitrary: d)
  case (Cons p ps)
  then show ?case by (cases p) (simp add: dom_update)
qed simp

text \<open>A list of rows whose value is a function of the key is a dictionary in any order.\<close>

lemma map_of_functional:
  assumes "\<And>k v. (k, v) \<in> set ps \<Longrightarrow> f k = Some v"
  shows "map_of ps k = (if k \<in> fst ` set ps then f k else None)"
  using assms
proof (induction ps)
  case (Cons p ps)
  have "map_of ps k = (if k \<in> fst ` set ps then f k else None)" using Cons.IH Cons.prems by simp
  moreover have "f (fst p) = Some (snd p)" using Cons.prems by simp
  ultimately show ?case by (cases p) auto
qed simp

section \<open>Versions only grow\<close>

lemma next_ts_spec:
  assumes "next_ts now st = (ts, st')"
  shows "version_clock st < ts" "st' = st\<lparr>version_clock := ts\<rparr>" "now \<le> ts"
  using assms by (auto simp: next_ts_def Let_def)

lemma next_version_spec:
  assumes "next_version now s = (v, s')"
  shows "version_clock (cs_state s) < fst v" "snd v = cs_node s" "s' = s\<lparr>cs_state := (cs_state s)\<lparr>version_clock := fst v\<rparr>\<rparr>"
  using assms by (auto simp: next_version_def next_ts_def Let_def)

lemma next_version_after_spec:
  assumes "next_version_after now fl s = (v, s')"
  shows "version_clock (cs_state s) < fst v" "fl < fst v" "snd v = cs_node s"
    "s' = s\<lparr>cs_state := (cs_state s)\<lparr>version_clock := fst v\<rparr>\<rparr>"
  using assms by (auto simp: next_version_after_def Let_def)

lemma ensure_loop_frame:
  assumes "ensure_loop clk rs i st = (j, st')"
  shows "node_id st' = node_id st \<and> tombstones st' = tombstones st \<and> version_clock st \<le> version_clock st' \<and> i \<le> j
    \<and> cluster_id st' = cluster_id st \<and> last_roster st' = last_roster st \<and> my_membership_version st' = my_membership_version st
    \<and> (j = i \<longrightarrow> st' = st)"
  using assms
proof (induction rs arbitrary: i st)
  case (Cons r rs)
  obtain ds sid where r: "r = (ds, sid)" by (cases r)
  show ?case
  proof (cases "map_of (local_versions st) (make_key ds sid) = None \<and> map_of (tombstones st) (make_key ds sid) = None")
    case True
    obtain ts st1 where n: "next_ts (clk i) st = (ts, st1)" by fastforce
    from next_ts_spec [OF n] Cons.IH [of "Suc i"] Cons.prems True r n show ?thesis by (fastforce simp: Let_def)
  next
    case False
    then show ?thesis using Cons.IH Cons.prems r by (auto simp: Let_def)
  qed
qed simp

text \<open>
  Records that have a version keep it; the others get one above every earlier clock value, so that afterwards
  every listed record has a version or a tombstone.
\<close>

lemma ensure_loop_versions:
  assumes "ensure_loop clk rs i st = (j, st')"
  shows "map_of (local_versions st) k = Some v \<Longrightarrow> map_of (local_versions st') k = Some v"
    and "map_of (local_versions st') k = Some v \<Longrightarrow> map_of (local_versions st) k = Some v
      \<or> map_of (tombstones st) k = None \<and> snd v = node_id st \<and> version_clock st < fst v \<and> fst v \<le> version_clock st'"
    and "(ds, sid) \<in> set rs \<Longrightarrow> map_of (tombstones st) (make_key ds sid) = None \<Longrightarrow>
      map_of (local_versions st') (make_key ds sid) \<noteq> None"
    and "keys_distinct (local_versions st) \<Longrightarrow> keys_distinct (local_versions st')"
proof -
  have main: "(\<forall>k v. map_of (local_versions st) k = Some v \<longrightarrow> map_of (local_versions st') k = Some v)
    \<and> (\<forall>k v. map_of (local_versions st') k = Some v \<longrightarrow> map_of (local_versions st) k = Some v
      \<or> map_of (tombstones st) k = None \<and> snd v = node_id st \<and> version_clock st < fst v \<and> fst v \<le> version_clock st')
    \<and> (\<forall>(ds, sid) \<in> set rs. map_of (tombstones st) (make_key ds sid) = None \<longrightarrow>
      map_of (local_versions st') (make_key ds sid) \<noteq> None)
    \<and> (keys_distinct (local_versions st) \<longrightarrow> keys_distinct (local_versions st'))"
    using assms
  proof (induction rs arbitrary: i st)
    case (Cons r rs)
    obtain ds sid where r: "r = (ds, sid)" by (cases r)
    let ?k = "make_key ds sid"
    show ?case
    proof (cases "map_of (local_versions st) ?k = None \<and> map_of (tombstones st) ?k = None")
      case True
      obtain ts st1 where n: "next_ts (clk i) st = (ts, st1)" by fastforce
      note st1 = next_ts_spec [OF n]
      let ?st2 = "st1\<lparr>local_versions := AList.update ?k (ts, node_id st1) (local_versions st1)\<rparr>"
      have e: "ensure_loop clk rs (Suc i) ?st2 = (j, st')" using Cons.prems True r n by (simp add: Let_def)
      have c: "version_clock ?st2 = ts" "tombstones ?st2 = tombstones st" "node_id ?st2 = node_id st" using st1 by simp_all
      have le: "ts \<le> version_clock st'" using ensure_loop_frame [OF e] c by simp
      note ih0 = Cons.IH [OF e, unfolded c]
      from ih0 have ih:
        "\<And>k v. map_of (local_versions ?st2) k = Some v \<Longrightarrow> map_of (local_versions st') k = Some v"
        "\<And>k v. map_of (local_versions st') k = Some v \<Longrightarrow> map_of (local_versions ?st2) k = Some v
          \<or> map_of (tombstones st) k = None \<and> snd v = node_id st \<and> ts < fst v \<and> fst v \<le> version_clock st'"
        "\<forall>(ds, sid) \<in> set rs. map_of (tombstones st) (make_key ds sid) = None \<longrightarrow>
          map_of (local_versions st') (make_key ds sid) \<noteq> None"
        "keys_distinct (local_versions ?st2) \<longrightarrow> keys_distinct (local_versions st')"
        by blast (use ih0 in blast, rule ih0 [THEN conjunct2, THEN conjunct2, THEN conjunct1],
          rule ih0 [THEN conjunct2, THEN conjunct2, THEN conjunct2])
      have 1: "map_of (local_versions st') k = Some v" if "map_of (local_versions st) k = Some v" for k v
        by (rule ih(1)) (use that True in \<open>auto simp: st1(2)\<close>)
      have 2: "map_of (local_versions st) k = Some v
        \<or> map_of (tombstones st) k = None \<and> snd v = node_id st \<and> version_clock st < fst v \<and> fst v \<le> version_clock st'"
        if "map_of (local_versions st') k = Some v" for k v
        using ih(2) [OF that] True le st1(1) by (auto simp: st1(2) split: if_splits)
      have 3: "map_of (local_versions st') ?k \<noteq> None" using ih(1) [of ?k] by (simp add: st1(2))
      show ?thesis using 1 2 3 ih(3,4) st1 r by (auto simp: distinct_update)
    next
      case False
      then have e: "ensure_loop clk rs i st = (j, st')" using Cons.prems r by (auto simp: Let_def)
      have "map_of (local_versions st') ?k \<noteq> None" if "map_of (tombstones st) ?k = None"
        using Cons.IH [OF e] False that by auto
      then show ?thesis using Cons.IH [OF e] r by simp
    qed
  qed simp
  then show "map_of (local_versions st) k = Some v \<Longrightarrow> map_of (local_versions st') k = Some v"
    and "map_of (local_versions st') k = Some v \<Longrightarrow> map_of (local_versions st) k = Some v
      \<or> map_of (tombstones st) k = None \<and> snd v = node_id st \<and> version_clock st < fst v \<and> fst v \<le> version_clock st'"
    by (blast, blast)
  show "(ds, sid) \<in> set rs \<Longrightarrow> map_of (tombstones st) (make_key ds sid) = None \<Longrightarrow>
      map_of (local_versions st') (make_key ds sid) \<noteq> None"
    using main [THEN conjunct2, THEN conjunct2, THEN conjunct1] by auto
  show "keys_distinct (local_versions st) \<Longrightarrow> keys_distinct (local_versions st')"
    using main [THEN conjunct2, THEN conjunct2, THEN conjunct2] by simp
qed

lemma ensure_loop_stable:
  assumes "\<And>ds sid. (ds, sid) \<in> set rs \<Longrightarrow>
    map_of (local_versions st) (make_key ds sid) \<noteq> None \<or> map_of (tombstones st) (make_key ds sid) \<noteq> None"
  shows "ensure_loop clk rs i st = (i, st)"
  using assms
proof (induction rs)
  case (Cons r rs)
  obtain ds sid where r: "r = (ds, sid)" by (cases r)
  have "ensure_loop clk rs i st = (i, st)" using Cons by simp
  then show ?case using Cons.prems [of ds sid] r by (auto simp: Let_def)
qed simp

definition versioned :: "node_env \<Rightarrow> cluster_store \<Rightarrow> bool" where
  "versioned env s \<longleftrightarrow> (\<forall>r. ne_registry env = Some r \<longrightarrow> (\<forall>(ds, sid) \<in> set (local_records r).
     map_of (local_versions (cs_state s)) (make_key ds sid) \<noteq> None \<or> map_of (tombstones (cs_state s)) (make_key ds sid) \<noteq> None))"

lemma ensure_versioned: "versioned env (ensure_local_versions env clk s)"
proof (cases "ne_registry env")
  case (Some r)
  obtain n st where e: "ensure_loop clk (local_records r) 0 (cs_state s) = (n, st)" by fastforce
  have "cs_state (ensure_local_versions env clk s) = st"
    using Some e by (simp add: ensure_local_versions_def save_state_def Let_def)
  then show ?thesis using ensure_loop_versions(3) [OF e] ensure_loop_frame [OF e] Some
    by (fastforce simp: versioned_def)
qed (simp add: versioned_def)

lemma ensure_stable: "versioned env s \<Longrightarrow> ensure_local_versions env clk s = s"
  by (cases "ne_registry env")
    (auto simp: ensure_local_versions_def versioned_def ensure_loop_stable split: prod.splits)

lemma ensure_frame [simp]:
  "cs_foreign (ensure_local_versions env clk s) = cs_foreign s" "cs_sessions (ensure_local_versions env clk s) = cs_sessions s"
  "cs_evicted (ensure_local_versions env clk s) = cs_evicted s" "cs_roster (ensure_local_versions env clk s) = cs_roster s"
  "cs_node (ensure_local_versions env clk s) = cs_node s"
  "tombstones (cs_state (ensure_local_versions env clk s)) = tombstones (cs_state s)"
  by (auto simp: ensure_local_versions_def save_state_def Let_def dest: ensure_loop_frame split: option.splits prod.splits)

section \<open>The state invariant\<close>

text \<open>
  What every node keeps: one entry per key; own versions and tombstones carry the node's id and do not exceed
  its clock; a record is live or deleted, not both; the overlay files every envelope under its own key and holds
  no record of the node itself; composite keys split.
\<close>

definition own_version :: "cluster_state \<Rightarrow> version \<Rightarrow> bool" where
  "own_version st v \<longleftrightarrow> snd v = node_id st \<and> fst v \<le> version_clock st"

definition state_ok :: "cluster_state \<Rightarrow> bool" where
  "state_ok st \<longleftrightarrow> keys_distinct (local_versions st) \<and> keys_distinct (tombstones st)
     \<and> (\<forall>k v. map_of (local_versions st) k = Some v \<longrightarrow> own_version st v \<and> map_of (tombstones st) k = None)
     \<and> (\<forall>k t. map_of (tombstones st) k = Some t \<longrightarrow> own_version st (tomb_version t) \<and> nul_sep \<in> set k)"

lemma state_okD:
  assumes "state_ok st"
  shows "keys_distinct (local_versions st)" "keys_distinct (tombstones st)"
    and "map_of (local_versions st) k = Some v \<Longrightarrow> own_version st v \<and> map_of (tombstones st) k = None"
    and "map_of (tombstones st) k = Some t \<Longrightarrow> own_version st (tomb_version t) \<and> nul_sep \<in> set k"
  using assms unfolding state_ok_def by blast+

lemma state_okI:
  assumes "keys_distinct (local_versions st)" "keys_distinct (tombstones st)"
    and "\<And>k v. map_of (local_versions st) k = Some v \<Longrightarrow> own_version st v \<and> map_of (tombstones st) k = None"
    and "\<And>k t. map_of (tombstones st) k = Some t \<Longrightarrow> own_version st (tomb_version t) \<and> nul_sep \<in> set k"
  shows "state_ok st"
  using assms unfolding state_ok_def by blast

definition overlay_ok :: "cluster_store \<Rightarrow> bool" where
  "overlay_ok s \<longleftrightarrow> keys_distinct (cs_foreign s)
     \<and> (\<forall>k e. map_of (cs_foreign s) k = Some e \<longrightarrow> env_key e = k \<and> env_origin e \<noteq> cs_node s)"

definition sessions_ok :: "cluster_store \<Rightarrow> bool" where
  "sessions_ok s \<longleftrightarrow> keys_distinct (cs_sessions s) \<and> keys_distinct (cs_evicted s)
     \<and> (\<forall>n p. map_of (cs_sessions s) n = Some p \<longrightarrow> peer_node p = n)"

definition store_inv :: "cluster_store \<Rightarrow> bool" where
  "store_inv s \<longleftrightarrow> state_ok (cs_state s) \<and> overlay_ok s \<and> sessions_ok s"

lemma make_split_key: "nul_sep \<in> set k \<Longrightarrow> split_key k = (ds, sid) \<Longrightarrow> make_key ds sid = k \<and> nul_sep \<notin> set ds"
proof -
  assume k: "nul_sep \<in> set k" and s: "split_key k = (ds, sid)"
  have d: "dropWhile (\<lambda>c. c \<noteq> nul_sep) k \<noteq> []" using k by (induction k) auto
  then have "dropWhile (\<lambda>c. c \<noteq> nul_sep) k = nul_sep # drop 1 (dropWhile (\<lambda>c. c \<noteq> nul_sep) k)"
    using hd_dropWhile [OF d] by (cases "dropWhile (\<lambda>c. c \<noteq> nul_sep) k") auto
  then have "ds @ nul_sep # sid = k" using s takeWhile_dropWhile_id [of "\<lambda>c. c \<noteq> nul_sep" k] by (auto simp: split_key_def)
  moreover have "nul_sep \<notin> set ds" using s by (auto simp: split_key_def dest: set_takeWhileD)
  ultimately show ?thesis by (simp add: make_key_def)
qed

lemma make_key_inj: "nul_sep \<notin> set ds \<Longrightarrow> nul_sep \<notin> set ds' \<Longrightarrow> make_key ds sid = make_key ds' sid' \<longleftrightarrow> ds = ds' \<and> sid = sid'"
  using split_make_key by (metis prod.inject)

lemma nul_in_make_key [simp]: "nul_sep \<in> set (make_key ds sid)"
  by (simp add: make_key_def)

lemma ensure_state_ok:
  assumes "state_ok (cs_state s)"
  shows "state_ok (cs_state (ensure_local_versions env clk s))"
proof (cases "ne_registry env")
  case (Some r)
  obtain n st where e: "ensure_loop clk (local_records r) 0 (cs_state s) = (n, st)" by fastforce
  have st: "cs_state (ensure_local_versions env clk s) = st"
    using Some e by (simp add: ensure_local_versions_def save_state_def Let_def)
  note f = ensure_loop_frame [OF e]
  have "own_version st v \<and> map_of (tombstones st) k = None" if "map_of (local_versions st) k = Some v" for k v
  proof (rule disjE [OF ensure_loop_versions(2) [OF e that]])
    assume "map_of (local_versions (cs_state s)) k = Some v"
    from state_okD(3) [OF assms this] show ?thesis using f by (auto simp: own_version_def)
  next
    assume "map_of (tombstones (cs_state s)) k = None \<and> snd v = cs_node s \<and> version_clock (cs_state s) < fst v
      \<and> fst v \<le> version_clock st"
    then show ?thesis using f by (simp add: own_version_def)
  qed
  moreover have "own_version st (tomb_version t) \<and> nul_sep \<in> set k" if "map_of (tombstones st) k = Some t" for k t
  proof -
    have "own_version (cs_state s) (tomb_version t) \<and> nul_sep \<in> set k" using that state_okD(4) [OF assms] f by simp
    then show ?thesis using f by (auto simp: own_version_def)
  qed
  ultimately show ?thesis using st state_okD(1,2) [OF assms] f ensure_loop_versions(4) [OF e]
    by (intro state_okI) simp_all
qed (use assms in \<open>simp add: ensure_local_versions_def\<close>)

lemma ensure_inv: "store_inv s \<Longrightarrow> store_inv (ensure_local_versions env clk s)"
  by (simp add: store_inv_def ensure_state_ok overlay_ok_def sessions_ok_def)

lemma apply_inbound_inv: "store_inv s \<Longrightarrow> store_inv (snd (apply_inbound now e s))"
  by (auto simp: store_inv_def apply_inbound_def overlay_ok_def sessions_ok_def distinct_update env_key_def)

section \<open>What an index lists\<close>

definition names_ok :: "registry_view \<Rightarrow> bool" where
  "names_ok r \<longleftrightarrow> (\<forall>ds \<in> set (rg_datasets r). nul_sep \<notin> set ds)
     \<and> (\<forall>(ds, sid) \<in> set (local_records r). rg_entry r ds sid \<noteq> None)"

text \<open>The version a node lists for a record: of its own records the tombstone's or the live version, of others the replica's.\<close>

definition listed_version :: "registry_view \<Rightarrow> cluster_store \<Rightarrow> record_key \<Rightarrow> version option" where
  "listed_version r s key = (case key of (ds, origin, sid) \<Rightarrow>
     if origin = cs_node s
     then (case map_of (tombstones (cs_state s)) (make_key ds sid) of
             Some t \<Rightarrow> Some (tomb_version t)
           | None \<Rightarrow> if (ds, sid) \<in> set (local_records r) then map_of (local_versions (cs_state s)) (make_key ds sid) else None)
     else map_option env_version (map_of (cs_foreign s) key))"

lemma set_map_filter: "y \<in> set (List.map_filter f xs) \<longleftrightarrow> (\<exists>x \<in> set xs. f x = Some y)"
  by (induction xs) (auto split: option.splits)

lemma local_records_ds: "(ds, sid) \<in> set (local_records r) \<longleftrightarrow> ds \<in> set (rg_datasets r) \<and> (ds, sid) \<in> set (dataset_records r ds)"
  by (auto simp: local_records_def dataset_records_def)

lemma live_rows_iff:
  "((ds, origin, sid), v) \<in> set (live_rows r st ns) \<longleftrightarrow>
     origin = node_id st \<and> in_scope ns ds \<and> (ds, sid) \<in> set (local_records r) \<and> map_of (local_versions st) (make_key ds sid) = Some v"
proof -
  have "set (concat (map (dataset_records r) (filter (in_scope ns) (remdups (rg_datasets r)))))
      = {x \<in> set (local_records r). in_scope ns (fst x)}"
    by (auto simp: local_records_def dataset_records_def)
  then show ?thesis unfolding live_rows_def set_map_filter by (cases v) (auto simp: Bex_def)
qed

lemma tomb_rows_iff:
  assumes "state_ok st"
  shows "((ds, origin, sid), v) \<in> set (tomb_rows st ns) \<longleftrightarrow>
    origin = node_id st \<and> in_scope ns ds \<and> nul_sep \<notin> set ds \<and> (\<exists>t. map_of (tombstones st) (make_key ds sid) = Some t \<and> tomb_version t = v)"
proof -
  have key: "split_key k = (ds, sid) \<longleftrightarrow> k = make_key ds sid \<and> nul_sep \<notin> set ds" if "map_of (tombstones st) k = Some t" for k t
    using state_okD(4) [OF assms that] make_split_key [of k ds sid] split_make_key [of ds sid] by auto
  have "((ds, origin, sid), v) \<in> set (tomb_rows st ns) \<longleftrightarrow> (\<exists>k t. map_of (tombstones st) k = Some t \<and> split_key k = (ds, sid)
      \<and> in_scope ns ds \<and> origin = node_id st \<and> tomb_version t = v)"
    using state_okD(2) [OF assms] unfolding tomb_rows_def set_map_filter
    by (auto simp: map_of_eq_Some_iff Bex_def Let_def case_prod_beta prod_eq_iff split: if_splits)
  then show ?thesis using key by metis
qed

lemma full_index_state: "full_index env clk ns s = (idx, s') \<Longrightarrow> s' = ensure_local_versions env clk s"
  by (auto simp: full_index_def local_index_def Let_def)

lemma foreign_row_at:
  assumes "keys_distinct fs"
  shows "map_of (rev (map (\<lambda>(k, e). (k, env_version e)) (filter (\<lambda>(k, _). in_scope ns (fst k)) fs))) k =
    (if in_scope ns (fst k) then map_option env_version (map_of fs k) else None)"
proof -
  have "map_of (rev (map (\<lambda>(k, e). (k, env_version e)) (filter (\<lambda>(k, _). in_scope ns (fst k)) fs))) k =
      (if k \<in> fst ` set (map (\<lambda>(k, e). (k, env_version e)) (filter (\<lambda>(k, _). in_scope ns (fst k)) fs))
       then map_option env_version (map_of fs k) else None)"
    using assms by (subst map_of_functional [where f = "\<lambda>k. map_option env_version (map_of fs k)"]) auto
  also have "\<dots> = (if in_scope ns (fst k) then map_option env_version (map_of fs k) else None)"
    by (auto simp: image_iff map_option_is_None map_of_eq_None_iff split: prod.splits) force
  finally show ?thesis .
qed

lemma live_row_at:
  "map_of (rev (live_rows r st ns)) (ds, origin, sid) =
     (if origin = node_id st \<and> in_scope ns ds \<and> (ds, sid) \<in> set (local_records r)
      then map_of (local_versions st) (make_key ds sid) else None)"
proof -
  have "map_of (rev (live_rows r st ns)) (ds, origin, sid) =
      (if (ds, origin, sid) \<in> fst ` set (live_rows r st ns) then map_of (local_versions st) (make_key ds sid) else None)"
    by (subst map_of_functional [where f = "\<lambda>(ds, _, sid). map_of (local_versions st) (make_key ds sid)"]) (auto simp: live_rows_iff)
  moreover have "(ds, origin, sid) \<in> fst ` set (live_rows r st ns) \<longleftrightarrow> (\<exists>v. ((ds, origin, sid), v) \<in> set (live_rows r st ns))"
    by force
  ultimately show ?thesis unfolding live_rows_iff by (cases "map_of (local_versions st) (make_key ds sid)") auto
qed

lemma tomb_row_at:
  assumes "state_ok st"
  shows "map_of (rev (tomb_rows st ns)) (ds, origin, sid) =
     (if origin = node_id st \<and> in_scope ns ds \<and> nul_sep \<notin> set ds
      then map_option tomb_version (map_of (tombstones st) (make_key ds sid)) else None)"
proof -
  have "map_of (rev (tomb_rows st ns)) (ds, origin, sid) =
      (if (ds, origin, sid) \<in> fst ` set (tomb_rows st ns) then map_option tomb_version (map_of (tombstones st) (make_key ds sid)) else None)"
    by (subst map_of_functional [where f = "\<lambda>(ds, _, sid). map_option tomb_version (map_of (tombstones st) (make_key ds sid))"])
      (auto simp: tomb_rows_iff [OF assms])
  moreover have "(ds, origin, sid) \<in> fst ` set (tomb_rows st ns) \<longleftrightarrow> (\<exists>v. ((ds, origin, sid), v) \<in> set (tomb_rows st ns))"
    by force
  ultimately show ?thesis unfolding tomb_rows_iff [OF assms] by (cases "map_of (tombstones st) (make_key ds sid)") auto
qed

lemma full_index_spec:
  assumes inv: "store_inv s" and reg: "ne_registry env = Some r" and ok: "names_ok r"
    and f: "full_index env clk ns s = (idx, s')"
  shows "keys_distinct idx"
    and "map_of idx k = (if in_scope ns (fst k) \<and> (nul_sep \<notin> set (fst k) \<or> fst (snd k) \<noteq> cs_node s') then listed_version r s' k else None)"
proof -
  have s': "s' = ensure_local_versions env clk s" using full_index_state [OF f] .
  then have inv': "state_ok (cs_state s')" "overlay_ok s'" using ensure_inv [OF inv] by (simp_all add: store_inv_def)
  let ?st = "cs_state s'"
  let ?fr = "map (\<lambda>(k, e). (k, env_version e)) (filter (\<lambda>(k, _). in_scope ns (fst k)) (cs_foreign s'))"
  have idx: "idx = dict_add ?fr (dict_add (tomb_rows ?st ns) (dict_add (live_rows r ?st ns) []))"
    using f reg s' by (auto simp: full_index_def local_index_def Let_def)
  then show "keys_distinct idx" by simp
  obtain ds origin sid where k: "k = (ds, origin, sid)" by (cases k)
  have none: "map_of (cs_foreign s') (ds, cs_node s', sid) = None"
    using inv'(2) by (cases "map_of (cs_foreign s') (ds, cs_node s', sid)") (auto simp: overlay_ok_def env_key_def)
  have fd: "keys_distinct (cs_foreign s')" using inv'(2) by (simp add: overlay_ok_def)
  have "nul_sep \<notin> set ds" if "(ds, sid) \<in> set (local_records r)"
    using ok that by (simp add: names_ok_def local_records_ds)
  then show "map_of idx k = (if in_scope ns (fst k) \<and> (nul_sep \<notin> set (fst k) \<or> fst (snd k) \<noteq> cs_node s') then listed_version r s' k else None)"
    unfolding idx map_of_dict_add k foreign_row_at [OF fd] live_row_at tomb_row_at [OF inv'(1)]
    using none by (auto simp: listed_version_def split: option.splits)
qed

text \<open>A record that is listed can be sent, with the listed version.\<close>

lemma listed_envelope:
  assumes "overlay_ok s" "ne_registry env = Some r" "names_ok r" "listed_version r s k = Some v"
  shows "\<exists>e. build_envelope_for_key env s k = Some e \<and> env_version e = v \<and> env_key e = k"
proof -
  obtain ds origin sid where k: "k = (ds, origin, sid)" by (cases k)
  show ?thesis
  proof (cases "origin = cs_node s")
    case True
    show ?thesis
    proof (cases "map_of (tombstones (cs_state s)) (make_key ds sid)")
      case None
      then have l: "(ds, sid) \<in> set (local_records r)" "map_of (local_versions (cs_state s)) (make_key ds sid) = Some v"
        using assms(4) True k by (auto simp: listed_version_def split: if_splits)
      then obtain entry where "rg_entry r ds sid = Some entry" using assms(3) by (fastforce simp: names_ok_def)
      then show ?thesis using None l True k assms(2)
        by (simp add: build_envelope_for_key_def build_local_envelope_def env_key_def)
    next
      case (Some t)
      then show ?thesis using assms(4) True k
        by (auto simp: listed_version_def build_envelope_for_key_def build_local_envelope_def env_key_def)
    qed
  next
    case False
    then show ?thesis using assms(1,4) k by (auto simp: listed_version_def build_envelope_for_key_def overlay_ok_def)
  qed
qed

section \<open>The overlay is a last-writer-wins replica\<close>

lemma apply_inbound_frame [simp]:
  "cs_state (snd (apply_inbound now e s)) = cs_state s" "cs_sessions (snd (apply_inbound now e s)) = cs_sessions s"
  "cs_evicted (snd (apply_inbound now e s)) = cs_evicted s" "cs_roster (snd (apply_inbound now e s)) = cs_roster s"
  "cs_disk (snd (apply_inbound now e s)) = cs_disk s"
  by (simp_all add: apply_inbound_def)

definition overlay :: "cluster_store \<Rightarrow> record_key \<Rightarrow> sync_envelope option" where
  "overlay s = map_of (cs_foreign s)"

definition deliver :: "rat \<Rightarrow> sync_envelope \<Rightarrow> cluster_store \<Rightarrow> cluster_store" where
  "deliver now e s = snd (apply_inbound now e s)"

definition admitted :: "rat \<Rightarrow> cluster_store \<Rightarrow> sync_envelope \<Rightarrow> bool" where
  "admitted now s e \<longleftrightarrow> env_origin e \<noteq> cs_node s \<and> \<not> suppressed now s (env_origin e)"

interpretation replica: lww_replica overlay "deliver now" env_key env_version "admitted now" "\<lambda>s. True"
  for now :: rat
proof unfold_locales
  show "admitted now (deliver now e s) = admitted now s" for e s
    by (simp add: fun_eq_iff admitted_def deliver_def suppressed_def)
  show "overlay (deliver now e s) = (if admitted now s e \<and> version_newer (env_version e) (map_option env_version (overlay s (env_key e)))
      then (overlay s)(env_key e \<mapsto> e) else overlay s)" for e s
    by (auto simp: overlay_def deliver_def admitted_def apply_inbound_def)
qed simp

text \<open>When no origin is suppressed, the clock readings of a batch do not matter.\<close>

definition unsuppressed :: "(nat \<Rightarrow> rat) \<Rightarrow> cluster_store \<Rightarrow> bool" where
  "unsuppressed tick s \<longleftrightarrow> (\<forall>i n. \<not> suppressed (tick i) s n)"

lemma deliver_frame [simp]:
  "cs_state (deliver now e s) = cs_state s" "cs_sessions (deliver now e s) = cs_sessions s"
  "cs_evicted (deliver now e s) = cs_evicted s" "cs_roster (deliver now e s) = cs_roster s" "cs_disk (deliver now e s) = cs_disk s"
  by (simp_all add: deliver_def)

lemma deliver_unsuppressed:
  assumes "unsuppressed tick s"
  shows "unsuppressed tick (deliver now e s)" "deliver (tick i) e s = deliver (tick j) e s"
  using assms by (auto simp: unsuppressed_def suppressed_def deliver_def apply_inbound_def)

lemma fold_deliver_frame [simp]:
  "cs_state (fold (deliver now) es s) = cs_state s" "cs_sessions (fold (deliver now) es s) = cs_sessions s"
  "cs_evicted (fold (deliver now) es s) = cs_evicted s" "cs_roster (fold (deliver now) es s) = cs_roster s"
  "cs_disk (fold (deliver now) es s) = cs_disk s"
  by (induction es arbitrary: s) simp_all

lemma fold_deliver_inv: "store_inv s \<Longrightarrow> store_inv (fold (deliver now) es s)"
  by (induction es arbitrary: s) (simp_all add: deliver_def apply_inbound_inv)

end
