(* ===== verification/ClusterNode.thy ===== *)
theory ClusterNode
  imports ClusterStore
begin

text \<open>
  The life of one node: every operation of \<open>store.py\<close> that changes its state, in any order and with any
  arguments and clock readings, and restarts from the state file. The invariant of \<open>ClusterStore\<close> holds
  throughout, the state file always holds the current versions and tombstones, and a version that was handed
  out once is never reached again.
\<close>

section \<open>What the state file holds\<close>

definition durable :: "cluster_store \<Rightarrow> bool" where
  "durable s \<longleftrightarrow> (\<exists>st. cs_disk s = Some (state_to_dict st) \<and> state_ok st \<and> node_id st = cs_node s
     \<and> local_versions st = local_versions (cs_state s) \<and> tombstones st = tombstones (cs_state s)
     \<and> version_clock st \<le> version_clock (cs_state s))"

definition node_ok :: "cluster_store \<Rightarrow> bool" where
  "node_ok s \<longleftrightarrow> store_inv s \<and> durable s"

text \<open>The clock a restart would start from.\<close>

definition disk_clock :: "cluster_store \<Rightarrow> int" where
  "disk_clock s = (case state_load (cs_disk s) of Inr (Some st) \<Rightarrow> version_clock st | _ \<Rightarrow> 0)"

section \<open>Steps\<close>

inductive node_step :: "node_env \<Rightarrow> cluster_store \<Rightarrow> cluster_store \<Rightarrow> bool" for env where
  stamp: "node_step env s (stamp_mutation now_ms ds sid operation s)"
| index: "node_step env s (snd (full_index env clk ns s))"
| inbound: "node_step env s (snd (apply_inbound now e s))"
| opened: "node_step env s (snd (handle_open env now secret body s))"
| connected: "node_step env s (open_session p s)"
| digest: "node_step env s (snd (serve_digest env clk now from_node ns token buckets s))"
| merkle: "node_step env s (snd (serve_merkle env clk now from_node ns token s))"
| pull: "node_step env s (snd (serve_pull env now from_node ks token s))"
| updates: "node_step env s (snd (serve_updates env tick from_node raws token s))"
| keepalive: "node_step env s (snd (handle_keepalive env now from_node token s))"
| hold: "node_step env s (snd (check_hold env now tick s))"
| prune: "node_step env s (prune_suppression now s)"
| gc: "node_step env s (snd (gc_tombstones env now_ms s))"
| disconnect: "node_step env s (snd (disconnect_peer env now nid s))"
| version: "node_step env s (snd (next_version now_ms s))"
| version_after: "node_step env s (snd (next_version_after now_ms fl s))"
| observe: "node_step env s (observe_version ms s)"
| restart: "load_or_none (cs_disk s) = Some s' \<Longrightarrow> node_step env s s'"

section \<open>Preservation\<close>

text \<open>Operations that leave the persisted part alone, and those that only advance the clock.\<close>

lemma node_ok_same_state:
  assumes "node_ok s" "cs_state s' = cs_state s" "cs_disk s' = cs_disk s" "overlay_ok s'" "sessions_ok s'"
  shows "node_ok s' \<and> cs_node s' = cs_node s \<and> disk_clock s' = disk_clock s"
  using assms by (auto simp: node_ok_def store_inv_def durable_def disk_clock_def)

lemma own_version_mono: "own_version st v \<Longrightarrow> node_id st' = node_id st \<Longrightarrow> version_clock st \<le> version_clock st' \<Longrightarrow> own_version st' v"
  by (auto simp: own_version_def)

lemma state_ok_clock:
  assumes "state_ok st" "version_clock st \<le> c"
  shows "state_ok (st\<lparr>version_clock := c\<rparr>)"
proof -
  note d = state_okD [OF assms(1)]
  show ?thesis using assms(2) d(1,2) by (intro state_okI) (auto simp: own_version_def dest!: d(3) d(4))
qed

lemma node_ok_clock:
  assumes "node_ok s" "version_clock (cs_state s) \<le> c"
  shows "node_ok (s\<lparr>cs_state := (cs_state s)\<lparr>version_clock := c\<rparr>\<rparr>)"
proof -
  obtain st where st: "cs_disk s = Some (state_to_dict st)" "state_ok st" "node_id st = cs_node s"
    "local_versions st = local_versions (cs_state s)" "tombstones st = tombstones (cs_state s)"
    "version_clock st \<le> version_clock (cs_state s)"
    using assms(1) by (auto simp: node_ok_def durable_def)
  have "durable (s\<lparr>cs_state := (cs_state s)\<lparr>version_clock := c\<rparr>\<rparr>)"
    unfolding durable_def using st assms(2) by (intro exI [of _ st]) simp
  then show ?thesis using assms by (simp add: node_ok_def store_inv_def state_ok_clock overlay_ok_def sessions_ok_def)
qed

lemma durable_saved: "state_ok (cs_state s) \<Longrightarrow> durable (save_state s)"
  unfolding durable_def save_state_def by (intro exI [of _ "cs_state s"]) simp

lemma disk_clock_saved [simp]: "disk_clock (save_state s) = version_clock (cs_state s)"
  by (simp add: disk_clock_def save_state_def state_roundtrip)

lemma save_state_frame [simp]:
  "cs_state (save_state s) = cs_state s" "cs_foreign (save_state s) = cs_foreign s" "cs_sessions (save_state s) = cs_sessions s"
  "cs_evicted (save_state s) = cs_evicted s" "cs_roster (save_state s) = cs_roster s"
  by (simp_all add: save_state_def)

lemma disk_clock_le: "durable s \<Longrightarrow> disk_clock s \<le> version_clock (cs_state s)"
  by (auto simp: durable_def disk_clock_def state_roundtrip)

lemma state_ok_delete_tombs:
  assumes "state_ok st"
  shows "state_ok (st\<lparr>tombstones := filter P (tombstones st)\<rparr>)"
proof (rule state_okI)
  note d = state_okD [OF assms]
  have m: "map_of (filter P (tombstones st)) k = Some t \<Longrightarrow> map_of (tombstones st) k = Some t" for k t
    using d(2) by (auto simp: map_of_filter_distinct split: option.splits if_splits)
  show "keys_distinct (tombstones (st\<lparr>tombstones := filter P (tombstones st)\<rparr>))" using d(2) by simp
  show "own_version (st\<lparr>tombstones := filter P (tombstones st)\<rparr>) v
      \<and> map_of (tombstones (st\<lparr>tombstones := filter P (tombstones st)\<rparr>)) k = None"
    if "map_of (local_versions (st\<lparr>tombstones := filter P (tombstones st)\<rparr>)) k = Some v" for k v
    using that d(3) [of k v] m [of k] by (cases "map_of (filter P (tombstones st)) k") (auto simp: own_version_def)
  show "own_version (st\<lparr>tombstones := filter P (tombstones st)\<rparr>) (tomb_version t) \<and> nul_sep \<in> set k"
    if "map_of (tombstones (st\<lparr>tombstones := filter P (tombstones st)\<rparr>)) k = Some t" for k t
    using that d(4) [OF m] by (auto simp: own_version_def)
qed (use state_okD [OF assms] in simp)

lemma stamp_state_ok:
  assumes "state_ok (cs_state s)"
  shows "state_ok (cs_state (stamp_mutation now ds sid op s)) \<and> version_clock (cs_state s) < version_clock (cs_state (stamp_mutation now ds sid op s))"
proof -
  obtain ts st where n: "next_ts now (cs_state s) = (ts, st)" by fastforce
  note sp = next_ts_spec [OF n]
  have "version_clock (cs_state s) \<le> version_clock st" using sp by simp
  then have ok: "state_ok st" using state_ok_clock [OF assms, of ts] sp by simp
  note d = state_okD [OF ok]
  have new: "own_version st (ts, node_id st)" using sp by (simp add: own_version_def)
  show ?thesis
  proof (cases "op = ''deregister''")
    case True
    let ?st = "st\<lparr>tombstones := AList.update (make_key ds sid) \<lparr>tomb_version = (ts, node_id st), tomb_deleted_at = ts\<rparr> (tombstones st),
      local_versions := AList.delete (make_key ds sid) (local_versions st)\<rparr>"
    have "state_ok ?st"
      using d(1,2) d(3) d(4) new by (intro state_okI) (auto simp: own_version_def split: if_splits)
    then show ?thesis using True n sp by (simp add: stamp_mutation_def Let_def)
  next
    case False
    let ?st = "st\<lparr>local_versions := AList.update (make_key ds sid) (ts, node_id st) (local_versions st),
      tombstones := AList.delete (make_key ds sid) (tombstones st)\<rparr>"
    have "state_ok ?st"
      using d(1,2) d(3) d(4) new by (intro state_okI) (auto simp: own_version_def split: if_splits)
    then show ?thesis using False n sp by (simp add: stamp_mutation_def Let_def)
  qed
qed

lemma stamp_frame [simp]:
  "cs_foreign (stamp_mutation now ds sid op s) = cs_foreign s" "cs_sessions (stamp_mutation now ds sid op s) = cs_sessions s"
  "cs_evicted (stamp_mutation now ds sid op s) = cs_evicted s" "cs_roster (stamp_mutation now ds sid op s) = cs_roster s"
  "cs_node (stamp_mutation now ds sid op s) = cs_node s"
  by (simp_all add: stamp_mutation_def next_ts_def Let_def)

lemma stamp_ok:
  assumes "node_ok s"
  shows "node_ok (stamp_mutation now ds sid op s) \<and> disk_clock s \<le> disk_clock (stamp_mutation now ds sid op s)"
proof -
  have st: "state_ok (cs_state s)" "overlay_ok s" "sessions_ok s" "durable s" using assms by (simp_all add: node_ok_def store_inv_def)
  note sp = stamp_state_ok [OF st(1), of now ds sid op]
  have sv: "\<exists>s0. stamp_mutation now ds sid op s = save_state s0"
    by (simp add: stamp_mutation_def case_prod_beta Let_def) blast
  then obtain s0 where s0: "stamp_mutation now ds sid op s = save_state s0" by blast
  have "durable (stamp_mutation now ds sid op s)" using durable_saved [of s0] sp s0 by simp
  moreover have "disk_clock (stamp_mutation now ds sid op s) = version_clock (cs_state (stamp_mutation now ds sid op s))"
    by (simp add: s0)
  ultimately show ?thesis using sp st disk_clock_le [OF st(4)]
    by (simp add: node_ok_def store_inv_def overlay_ok_def sessions_ok_def)
qed

lemma ensure_ok:
  assumes "node_ok s"
  shows "node_ok (ensure_local_versions env clk s) \<and> disk_clock s \<le> disk_clock (ensure_local_versions env clk s)"
proof (cases "ne_registry env")
  case (Some r)
  obtain n st where e: "ensure_loop clk (local_records r) 0 (cs_state s) = (n, st)" by fastforce
  have s': "ensure_local_versions env clk s = (if n \<noteq> 0 then save_state (s\<lparr>cs_state := st\<rparr>) else s)"
    using Some e ensure_loop_frame [OF e] by (auto simp: ensure_local_versions_def Let_def)
  have inv: "store_inv (ensure_local_versions env clk s)" using assms by (simp add: node_ok_def ensure_inv)
  show ?thesis
  proof (cases "n = 0")
    case True
    then show ?thesis using s' assms by simp
  next
    case False
    have "state_ok st" using inv s' False by (simp add: store_inv_def)
    then show ?thesis using False s' inv durable_saved [of "s\<lparr>cs_state := st\<rparr>"] assms disk_clock_le [of s] ensure_loop_frame [OF e]
      by (auto simp: node_ok_def)
  qed
qed (use assms in \<open>simp add: ensure_local_versions_def\<close>)

lemma session_update_ok:
  assumes "sessions_ok s" "peer_node p = n"
  shows "sessions_ok (s\<lparr>cs_sessions := AList.update n p (cs_sessions s)\<rparr>)"
  using assms by (auto simp: sessions_ok_def)

lemma touch_peer_frame [simp]:
  "cs_state (touch_peer now n s) = cs_state s" "cs_foreign (touch_peer now n s) = cs_foreign s"
  "cs_evicted (touch_peer now n s) = cs_evicted s" "cs_roster (touch_peer now n s) = cs_roster s" "cs_disk (touch_peer now n s) = cs_disk s"
  by (simp_all add: touch_peer_def split: option.splits)

lemma touch_sessions_ok: "sessions_ok s \<Longrightarrow> sessions_ok (touch_peer now n s)"
  by (cases "map_of (cs_sessions s) n") (auto simp: touch_peer_def sessions_ok_def)

lemma touch_ok:
  assumes "node_ok s"
  shows "node_ok (touch_peer now n s) \<and> cs_node (touch_peer now n s) = cs_node s \<and> disk_clock (touch_peer now n s) = disk_clock s"
  using assms by (intro node_ok_same_state) (auto simp: node_ok_def store_inv_def overlay_ok_def touch_sessions_ok)

lemma open_session_ok:
  assumes "node_ok s"
  shows "node_ok (open_session p s) \<and> cs_node (open_session p s) = cs_node s \<and> disk_clock (open_session p s) = disk_clock s"
  using assms by (intro node_ok_same_state) (auto simp: node_ok_def store_inv_def overlay_ok_def sessions_ok_def open_session_def)

lemma inbound_ok:
  assumes "node_ok s"
  shows "node_ok (snd (apply_inbound now e s)) \<and> cs_node (snd (apply_inbound now e s)) = cs_node s
    \<and> disk_clock (snd (apply_inbound now e s)) = disk_clock s"
  using assms apply_inbound_inv [of s now e] by (intro node_ok_same_state) (auto simp: node_ok_def store_inv_def)

lemma updates_loop_ok:
  "node_ok s \<Longrightarrow> node_ok (snd (updates_loop env tick from_node token raws i c s))
    \<and> cs_node (snd (updates_loop env tick from_node token raws i c s)) = cs_node s
    \<and> disk_clock (snd (updates_loop env tick from_node token raws i c s)) = disk_clock s"
proof (induction raws arbitrary: i c s)
  case Nil
  then show ?case by (cases c) simp
next
  case (Cons raw raws)
  obtain acc rej where c: "c = (acc, rej)" by (cases c)
  show ?case
  proof (cases "ne_validate env raw")
    case (Inr e)
    have ok: "node_ok (snd (apply_inbound (tick i) e s))" using inbound_ok [OF Cons.prems] by simp
    show ?thesis using inbound_ok [OF Cons.prems, of "tick i" e]
      by (simp add: c Inr Let_def case_prod_beta Cons.IH [OF Cons.prems] Cons.IH [OF ok])
  qed (use Cons.prems c in simp)
qed

lemma disconnect_ok:
  assumes "node_ok s"
  shows "node_ok (snd (disconnect_peer env now n s)) \<and> cs_node (snd (disconnect_peer env now n s)) = cs_node s
    \<and> disk_clock (snd (disconnect_peer env now n s)) = disk_clock s"
  using assms
  by (intro node_ok_same_state)
    (auto simp: node_ok_def store_inv_def overlay_ok_def sessions_ok_def disconnect_peer_def map_of_filter_distinct
      split: option.splits if_splits)

lemma disconnect_all_ok:
  "node_ok s \<Longrightarrow> node_ok (disconnect_all env tick i ns s) \<and> cs_node (disconnect_all env tick i ns s) = cs_node s
    \<and> disk_clock (disconnect_all env tick i ns s) = disk_clock s"
  by (induction ns arbitrary: i s) (simp_all add: disconnect_ok)

lemma gc_ok:
  assumes "node_ok s"
  shows "node_ok (snd (gc_tombstones env now s)) \<and> cs_node (snd (gc_tombstones env now s)) = cs_node s
    \<and> disk_clock s \<le> disk_clock (snd (gc_tombstones env now s))"
proof -
  let ?P = "\<lambda>(k :: string, t). now - tomb_deleted_at t > retention_ms (ne_config env)"
  let ?F = "\<lambda>(k :: record_key, e). env_tombstone e \<and> now - fst (env_version e) > retention_ms (ne_config env)"
  let ?s1 = "s\<lparr>cs_state := (cs_state s)\<lparr>tombstones := filter (\<lambda>p. \<not> ?P p) (tombstones (cs_state s))\<rparr>\<rparr>"
  let ?s2 = "if filter ?P (tombstones (cs_state s)) \<noteq> [] then save_state ?s1 else ?s1"
  have st: "state_ok (cs_state s)" "overlay_ok s" "sessions_ok s" "durable s" using assms by (simp_all add: node_ok_def store_inv_def)
  have ok1: "state_ok (cs_state ?s1)" using state_ok_delete_tombs [OF st(1)] by simp
  have d2: "durable ?s2 \<and> disk_clock s \<le> disk_clock ?s2"
  proof (cases "filter ?P (tombstones (cs_state s)) = []")
    case True
    then have "filter (\<lambda>p. \<not> ?P p) (tombstones (cs_state s)) = tombstones (cs_state s)"
      by (auto simp: filter_empty_conv intro!: filter_True)
    then show ?thesis using True st(4) by simp
  next
    case False
    then show ?thesis using durable_saved [OF ok1] disk_clock_le [OF st(4)] by simp
  qed
  have g: "snd (gc_tombstones env now s) = ?s2\<lparr>cs_foreign := filter (\<lambda>p. \<not> ?F p) (cs_foreign s)\<rparr>"
    by (simp add: gc_tombstones_def Let_def)
  have "durable (?s2\<lparr>cs_foreign := f\<rparr>) = durable ?s2" "disk_clock (?s2\<lparr>cs_foreign := f\<rparr>) = disk_clock ?s2" for f
    by (simp_all add: durable_def disk_clock_def)
  moreover have "overlay_ok (?s2\<lparr>cs_foreign := filter (\<lambda>p. \<not> ?F p) (cs_foreign s)\<rparr>)"
    using st(2) by (auto simp: overlay_ok_def map_of_filter_distinct split: option.splits if_splits)
  moreover have "sessions_ok (?s2\<lparr>cs_foreign := f\<rparr>)" "state_ok (cs_state (?s2\<lparr>cs_foreign := f\<rparr>))" for f
    using st(3) ok1 by (simp_all add: sessions_ok_def)
  ultimately show ?thesis using d2 g by (simp add: node_ok_def store_inv_def)
qed

lemma restart_ok:
  assumes "node_ok s" "load_or_none (cs_disk s) = Some s'"
  shows "node_ok s' \<and> cs_node s' = cs_node s \<and> disk_clock s' = disk_clock s"
proof -
  obtain st where st: "cs_disk s = Some (state_to_dict st)" "state_ok st" "node_id st = cs_node s"
    using assms(1) by (auto simp: node_ok_def durable_def)
  have s': "s' = new_store st (cs_disk s)" using assms(2) st(1) by (simp add: load_or_none_def state_roundtrip)
  have "durable s'" unfolding durable_def using st s' by (intro exI [of _ st]) (simp add: new_store_def)
  then show ?thesis using st s' by (simp add: node_ok_def store_inv_def overlay_ok_def sessions_ok_def new_store_def disk_clock_def)
qed

section \<open>Runs\<close>

lemma allowed_index_state: "snd (allowed_index env clk allowed s) = ensure_local_versions env clk s"
  by (simp add: allowed_index_def full_index_def local_index_def Let_def case_prod_beta)

lemma node_step_ok:
  assumes "node_step env s s'" "node_ok s"
  shows "node_ok s' \<and> cs_node s' = cs_node s \<and> disk_clock s \<le> disk_clock s'"
  using assms
proof (induction rule: node_step.cases)
  case (digest s0 clk now from_node ns token buckets)
  then show ?case using touch_ok [of s now from_node] ensure_ok [of "touch_peer now from_node s" env clk]
    by (auto simp: serve_digest_def Let_def case_prod_beta allowed_index_state)
next
  case (merkle s0 clk now from_node ns token)
  then show ?case using touch_ok [of s now from_node] ensure_ok [of "touch_peer now from_node s" env clk]
    by (auto simp: serve_merkle_def Let_def case_prod_beta allowed_index_state)
next
  case (updates s0 tick from_node raws token)
  then show ?case
    using touch_ok [of s "tick 0" from_node] updates_loop_ok [of "touch_peer (tick 0) from_node s" env tick from_node token raws 1 "(0, 0)"]
    by (auto simp: serve_updates_def Let_def case_prod_beta)
next
  case (version s0 now_ms)
  then show ?case using node_ok_clock [of s] by (auto simp: next_version_def next_ts_def Let_def disk_clock_def)
next
  case (version_after s0 now_ms fl)
  then show ?case using node_ok_clock [of s] by (auto simp: next_version_after_def Let_def disk_clock_def)
next
  case (observe s0 ms)
  then show ?case using node_ok_clock [of s ms] by (auto simp: observe_version_def disk_clock_def)
next
  case (prune s0 now)
  then have "node_ok s' \<and> cs_node s' = cs_node s \<and> disk_clock s' = disk_clock s"
    by (intro node_ok_same_state) (auto simp: node_ok_def store_inv_def overlay_ok_def sessions_ok_def prune_suppression_def)
  then show ?case by simp
next
  case (index s0 clk ns)
  then show ?case using ensure_ok [of s env clk] by (simp add: full_index_def local_index_def Let_def)
qed (auto simp: stamp_ok inbound_ok open_session_ok touch_ok disconnect_ok disconnect_all_ok gc_ok handle_open_def Let_def case_prod_beta
    serve_pull_def handle_keepalive_def check_hold_def dest: restart_ok)

abbreviation node_run :: "node_env \<Rightarrow> cluster_store \<Rightarrow> cluster_store \<Rightarrow> bool" where
  "node_run env \<equiv> (node_step env)\<^sup>*\<^sup>*"

lemma node_run_ok: "node_run env s s' \<Longrightarrow> node_ok s \<Longrightarrow> node_ok s' \<and> cs_node s' = cs_node s \<and> disk_clock s \<le> disk_clock s'"
  by (induction rule: rtranclp_induct) (auto dest: node_step_ok)

text \<open>A fresh cluster state starts such a run.\<close>

lemma fresh_node_ok: "node_ok (new_store (fresh_state n) (Some (state_to_dict (fresh_state n))))"
proof -
  have "state_ok (fresh_state n)" by (intro state_okI) (simp_all add: fresh_state_def)
  moreover from this have "durable (new_store (fresh_state n) (Some (state_to_dict (fresh_state n))))"
    unfolding durable_def by (intro exI [of _ "fresh_state n"]) (simp add: new_store_def)
  ultimately show ?thesis by (simp add: node_ok_def store_inv_def overlay_ok_def sessions_ok_def new_store_def)
qed

text \<open>The version under which a node last published one of its own records.\<close>

definition published :: "cluster_store \<Rightarrow> string \<Rightarrow> string \<Rightarrow> version option" where
  "published s ds sid =
     (case map_of (tombstones (cs_state s)) (make_key ds sid) of
        Some t \<Rightarrow> Some (tomb_version t)
      | None \<Rightarrow> map_of (local_versions (cs_state s)) (make_key ds sid))"

lemma published_bound: "node_ok s \<Longrightarrow> published s ds sid = Some v \<Longrightarrow> snd v = cs_node s \<and> fst v \<le> disk_clock s"
proof -
  assume ok: "node_ok s" and p: "published s ds sid = Some v"
  obtain st where st: "cs_disk s = Some (state_to_dict st)" "state_ok st" "node_id st = cs_node s"
    "local_versions st = local_versions (cs_state s)" "tombstones st = tombstones (cs_state s)"
    using ok by (auto simp: node_ok_def durable_def)
  have "own_version st v"
    using p st(4,5) state_okD(3,4) [OF st(2)] by (auto simp: published_def split: option.splits)
  then show ?thesis using st by (simp add: own_version_def disk_clock_def state_roundtrip)
qed

lemma stamp_published: "published (stamp_mutation now ds sid op s) ds sid = Some (fst (next_ts now (cs_state s)), cs_node s)"
  by (simp add: published_def stamp_mutation_def next_ts_def Let_def)

lemma run_version_fresh:
  assumes "node_run env s s'" "node_ok s" "published s ds sid = Some v"
  shows "ver_less v (fst (next_ts now (cs_state s')), cs_node s')"
proof -
  have ok: "node_ok s'" and le: "disk_clock s \<le> disk_clock s'" using node_run_ok [OF assms(1,2)] by simp_all
  have "disk_clock s' \<le> version_clock (cs_state s')" using ok disk_clock_le by (simp add: node_ok_def)
  then have "fst v < fst (next_ts now (cs_state s'))"
    using published_bound [OF assms(2,3)] le by (auto simp: next_ts_def Let_def)
  then show ?thesis by (simp add: ver_less_def)
qed

end
