(* ===== verification/Reconcile.thy ===== *)
theory Reconcile
  imports ClusterNode
begin

text \<open>
  The operations of \<open>AgentRegistry/a2x_registry/cluster/store.py\<close> that call peers: \<open>connect_peer\<close>,
  \<open>reconcile\<close>, the broadcast of a local mutation and the keepalives. The transport is the object the store is
  given: a record of functions, one per RPC of the interface in \<open>transport.py\<close>, over the calling store and the
  rest of the world (a peer may call back while it serves an RPC). Two nodes wired to each other's handlers are
  the instance for which convergence is shown.
\<close>

section \<open>Calls that may raise\<close>

type_synonym ('s, 'a) io = "'s \<Rightarrow> 'a res \<times> 's"

definition io_return :: "'a \<Rightarrow> ('s, 'a) io" where
  "io_return x = (\<lambda>s. (Inr x, s))"

definition io_lift :: "'a res \<Rightarrow> ('s, 'a) io" where
  "io_lift r = (\<lambda>s. (r, s))"

definition io_bind :: "('s, 'a) io \<Rightarrow> ('a \<Rightarrow> ('s, 'b) io) \<Rightarrow> ('s, 'b) io" where
  "io_bind m f = (\<lambda>s. case m s of (Inl e, s') \<Rightarrow> (Inl e, s') | (Inr x, s') \<Rightarrow> f x s')"

lemma io_simps [simp]:
  "io_return x s = (Inr x, s)"
  "io_lift r s = (r, s)"
  "m s = (Inl e, s') \<Longrightarrow> io_bind m f s = (Inl e, s')"
  "m s = (Inr x, s') \<Longrightarrow> io_bind m f s = f x s'"
  by (simp_all add: io_return_def io_lift_def io_bind_def)

section \<open>The transport\<close>

type_synonym 'w net = "cluster_store \<times> 'w"

record join_request =
  jn_cluster :: string
  jn_roster :: "pdict list"
  jn_token :: "string option"
  jn_from :: string
  jn_address :: string

record join_response =
  jr_accepted :: bool
  jr_error :: string
  jr_node :: string
  jr_version :: "version option"

record 'w transport =
  tr_open :: "string \<Rightarrow> open_request \<Rightarrow> ('w net, open_response) io"
  tr_merkle :: "string \<Rightarrow> string \<Rightarrow> string list \<Rightarrow> string option \<Rightarrow> ('w net, (string \<times> string) list) io"
  tr_digest :: "string \<Rightarrow> string \<Rightarrow> string list \<Rightarrow> string option \<Rightarrow> int list option \<Rightarrow> ('w net, version_index) io"
  tr_pull :: "string \<Rightarrow> string \<Rightarrow> record_key list \<Rightarrow> string option \<Rightarrow> ('w net, pdict list) io"
  tr_updates :: "string \<Rightarrow> string \<Rightarrow> pdict list \<Rightarrow> string option \<Rightarrow> ('w net, updates_result) io"
  tr_keepalive :: "string \<Rightarrow> string \<Rightarrow> string option \<Rightarrow> ('w net, bool) io"
  tr_join :: "string \<Rightarrow> join_request \<Rightarrow> ('w net, join_response) io"
  tr_evict :: "string \<Rightarrow> string \<Rightarrow> string option \<Rightarrow> string option \<Rightarrow> ('w net, bool) io"
  tr_evict_self :: "string \<Rightarrow> string \<Rightarrow> string option \<Rightarrow> ('w net, bool) io"
  tr_set_digest :: "string \<Rightarrow> string \<Rightarrow> string option \<Rightarrow> ('w net, (string \<times> version) list) io"
  tr_set_pull :: "string \<Rightarrow> string \<Rightarrow> string list \<Rightarrow> string option \<Rightarrow> ('w net, pdict list) io"
  tr_set_sync :: "string \<Rightarrow> string \<Rightarrow> pdict list \<Rightarrow> string option \<Rightarrow> ('w net, bool) io"

text \<open>
  \<open>fan_out\<close> runs the calls on a thread pool and waits for all of them; exceptions are swallowed. The calls
  are taken one after the other, in the order they are submitted.
\<close>

definition fan_out :: "('s, 'a) io list \<Rightarrow> 's \<Rightarrow> 's" where
  "fan_out thunks x = fold (\<lambda>t x. snd (t x)) thunks x"

definition broadcast :: "'w transport \<Rightarrow> node_env \<Rightarrow> sync_envelope \<Rightarrow> 'w net \<Rightarrow> 'w net" where
  "broadcast tr env e x =
     (let peers = filter (\<lambda>p. env_dataset e \<in> set (peer_namespaces p)) (map snd (cs_sessions (fst x)))
      in fan_out (map (\<lambda>p. tr_updates tr (peer_address p) (cs_node (fst x)) [ne_dump env e] (peer_token p)) peers) x)"

definition emit_keepalive :: "'w transport \<Rightarrow> 'w net \<Rightarrow> 'w net" where
  "emit_keepalive tr x =
     fan_out (map (\<lambda>p. tr_keepalive tr (peer_address p) (cs_node (fst x)) (peer_token p)) (map snd (cs_sessions (fst x)))) x"

definition on_local_mutation ::
  "'w transport \<Rightarrow> node_env \<Rightarrow> int \<Rightarrow> string \<Rightarrow> string \<Rightarrow> string \<Rightarrow> 'w net \<Rightarrow> 'w net" where
  "on_local_mutation tr env now_ms ds sid operation x =
     (let s = stamp_mutation now_ms ds sid operation (fst x) in
      case build_local_envelope env s ds sid of
        None \<Rightarrow> (s, snd x)
      | Some e \<Rightarrow> broadcast tr env e (s, snd x))"

section \<open>Anti-entropy\<close>

text \<open>The envelopes of a pull, applied one by one; \<open>n\<close> counts the accepted ones.\<close>

fun pull_loop :: "node_env \<Rightarrow> (nat \<Rightarrow> rat) \<Rightarrow> nat \<Rightarrow> nat \<Rightarrow> pdict list \<Rightarrow> ('w net, nat) io" where
  "pull_loop env tick i n [] x = (Inr n, x)"
| "pull_loop env tick i n (raw # raws) x =
     (case ne_validate env raw of
        Inl e \<Rightarrow> (Inl e, x)
      | Inr e \<Rightarrow> (let (ok, s) = apply_inbound (tick i) e (fst x) in
          pull_loop env tick (Suc i) (if ok then Suc n else n) raws (s, snd x)))"

definition push_newer ::
  "'w transport \<Rightarrow> node_env \<Rightarrow> peer \<Rightarrow> version_index \<Rightarrow> version_index \<Rightarrow> ('w net, nat) io" where
  "push_newer tr env p local_sub remote_index = (\<lambda>x.
     let envs = List.map_filter (build_envelope_for_key env (fst x))
           (map fst (filter (\<lambda>(k, lv). version_newer lv (map_of remote_index k)) local_sub))
     in if envs = [] then (Inr 0, x)
        else io_bind (tr_updates tr (peer_address p) (cs_node (fst x)) (map (ne_dump env) envs) (peer_token p))
               (\<lambda>res. io_return (ur_accepted res)) x)"

definition exchange ::
  "'w transport \<Rightarrow> node_env \<Rightarrow> (nat \<Rightarrow> rat) \<Rightarrow> peer \<Rightarrow> string \<Rightarrow> version_index \<Rightarrow> version_index \<Rightarrow> ('w net, nat \<times> nat) io" where
  "exchange tr env tick p self local_sub remote_rows =
     (let remote_index = dict_add remote_rows [];
          to_pull = map fst (filter (\<lambda>(k, rv). version_newer rv (map_of local_sub k)) remote_index) in
      io_bind (if to_pull = [] then io_return 0
               else io_bind (tr_pull tr (peer_address p) self to_pull (peer_token p)) (pull_loop env tick 0 0)) (\<lambda>pulled.
      io_bind (push_newer tr env p local_sub remote_index) (\<lambda>pushed.
      io_return (pulled, pushed))))"

definition reconcile ::
  "'w transport \<Rightarrow> node_env \<Rightarrow> (nat \<Rightarrow> int) \<Rightarrow> (nat \<Rightarrow> rat) \<Rightarrow> peer \<Rightarrow> ('w net, nat \<times> nat) io" where
  "reconcile tr env clk tick p = (\<lambda>(s, w).
     let ns = sort (remdups (peer_namespaces p));
         (local_ix, s') = full_index env clk ns s;
         n = merkle_buckets (ne_config env);
         self = cs_node s' in
     io_bind (tr_merkle tr (peer_address p) self ns (peer_token p)) (\<lambda>remote.
     io_bind (io_lift (differing_buckets (bucket_hashes (ne_sha env) n local_ix) remote)) (\<lambda>diff.
     if diff = [] then io_return (0, 0)
     else io_bind (tr_digest tr (peer_address p) self ns (peer_token p) (Some (sort diff)))
       (exchange tr env tick p self (filter (\<lambda>(k, _). int (bucket_of (ne_sha env) n k) \<in> set diff) local_ix)))) (s', w))"

text \<open>\<open>now\<close> is the clock reading for the session, \<open>tick\<close> those of the reconcile that follows.\<close>

definition connect_peer ::
  "'w transport \<Rightarrow> node_env \<Rightarrow> rat \<Rightarrow> (nat \<Rightarrow> int) \<Rightarrow> (nat \<Rightarrow> rat) \<Rightarrow> string \<Rightarrow> string list \<Rightarrow> string option
    \<Rightarrow> ('w net, peer) io" where
  "connect_peer tr env now clk tick address namespaces token = (\<lambda>x.
     let offered = (if namespaces \<noteq> [] then namespaces else registry_datasets (ne_registry env)) in
     io_bind (tr_open tr address \<lparr>rq_node = cs_node (fst x), rq_address = ne_advertise env, rq_namespaces = offered, rq_token = token\<rparr>)
       (\<lambda>resp. let p = \<lparr>peer_node = rs_node resp, peer_address = address, peer_namespaces = rs_accepted resp,
                        peer_last_seen = now, peer_token = rs_session resp\<rparr> in
         (\<lambda>(s, w). io_bind (reconcile tr env clk tick p) (\<lambda>_. io_return p) (open_session p s, w))) x)"

section \<open>Two nodes wired together\<close>

text \<open>
  The in-process transport: every address leads to the other node, whose handlers run with their own clock
  readings (\<open>bclk j\<close>, \<open>btick j\<close> for the \<open>j\<close>-th kind of call).
\<close>

definition peer_transport ::
  "node_env \<Rightarrow> (nat \<Rightarrow> nat \<Rightarrow> int) \<Rightarrow> (nat \<Rightarrow> nat \<Rightarrow> rat) \<Rightarrow> string \<Rightarrow> cluster_store transport" where
  "peer_transport benv bclk btick secret =
     \<lparr>tr_open = (\<lambda>addr body (s, b). let (r, b') = handle_open benv (btick 0 0) secret body b in (Inr r, (s, b'))),
      tr_merkle = (\<lambda>addr from_node ns token (s, b).
        let (r, b') = serve_merkle benv (bclk 1) (btick 1 0) from_node ns token b in (Inr r, (s, b'))),
      tr_digest = (\<lambda>addr from_node ns token buckets (s, b).
        let (r, b') = serve_digest benv (bclk 2) (btick 2 0) from_node ns token buckets b in (Inr r, (s, b'))),
      tr_pull = (\<lambda>addr from_node ks token (s, b).
        let (r, b') = serve_pull benv (btick 3 0) from_node ks token b in (Inr r, (s, b'))),
      tr_updates = (\<lambda>addr from_node raws token (s, b).
        let (r, b') = serve_updates benv (btick 4) from_node raws token b in (r, (s, b'))),
      tr_keepalive = (\<lambda>addr from_node token (s, b).
        let (r, b') = handle_keepalive benv (btick 5 0) from_node token b in (Inr r, (s, b'))),
      tr_join = (\<lambda>addr body x. (Inl (TransportError addr), x)),
      tr_evict = (\<lambda>addr from_node cid token x. (Inl (TransportError addr), x)),
      tr_evict_self = (\<lambda>addr from_node token x. (Inl (TransportError addr), x)),
      tr_set_digest = (\<lambda>addr from_node token x. (Inl (TransportError addr), x)),
      tr_set_pull = (\<lambda>addr from_node ns token x. (Inl (TransportError addr), x)),
      tr_set_sync = (\<lambda>addr from_node rs token x. (Inl (TransportError addr), x))\<rparr>"

section \<open>What the loops deliver\<close>

lemma pull_loop_delivers:
  assumes "unsuppressed tick s" "list_all2 (\<lambda>raw e. ne_validate env raw = Inr e) raws es"
  shows "\<exists>m. pull_loop env tick i n raws (s, w) = (Inr m, (fold (deliver (tick 0)) es s, w))"
  using assms(2,1)
proof (induction raws es arbitrary: i n s rule: list_all2_induct)
  case (Cons raw raws e es)
  obtain ok s' where a: "apply_inbound (tick i) e s = (ok, s')" by fastforce
  then have s': "s' = deliver (tick 0) e s" using deliver_unsuppressed(2) [OF Cons.prems, of i e 0] by (simp add: deliver_def)
  have "unsuppressed tick s'" using deliver_unsuppressed(1) [OF Cons.prems] s' by simp
  from Cons.IH [OF this, of "Suc i" "if ok then Suc n else n"] show ?case using Cons.hyps a s' by (simp add: Let_def)
qed simp

lemma session_cong:
  assumes "cs_sessions s' = cs_sessions s"
  shows "may_accept env s' = may_accept env s" "authed env s' = authed env s" "allowed_for env s' = allowed_for env s"
  unfolding fun_eq_iff may_accept_def allowed_for_def authed_def assms by (intro allI, rule refl)+

lemma updates_loop_delivers:
  assumes "unsuppressed tick s" "list_all2 (\<lambda>raw e. ne_validate env raw = Inr e) raws es"
    and "\<And>e. e \<in> set es \<Longrightarrow> may_accept env s from_node (env_dataset e) token"
  shows "\<exists>m. updates_loop env tick from_node token raws i c s = (Inr m, fold (deliver (tick 0)) es s)"
  using assms(2,1,3)
proof (induction raws es arbitrary: i c s rule: list_all2_induct)
  case Nil
  then show ?case by simp
next
  case (Cons raw raws e es)
  obtain acc rej where c: "c = (acc, rej)" by (cases c)
  obtain ok s' where a: "apply_inbound (tick i) e s = (ok, s')" by fastforce
  then have s': "s' = deliver (tick 0) e s" using deliver_unsuppressed(2) [OF Cons.prems(1), of i e 0] by (simp add: deliver_def)
  have u: "unsuppressed tick s'" using deliver_unsuppressed(1) [OF Cons.prems(1)] s' by simp
  have "may_accept env s' from_node (env_dataset d) token" if "d \<in> set es" for d
    using Cons.prems(2) [of d] that session_cong(1) [of s' s env] s' by simp
  from Cons.IH [OF u this, of "Suc i" "(if ok then Suc acc else acc, rej)"] show ?case
    using Cons.hyps Cons.prems(2) [of e] a s' c by (simp add: Let_def)
qed

lemma serve_updates_delivers:
  assumes "unsuppressed tick s" "list_all2 (\<lambda>raw e. ne_validate env raw = Inr e) raws es"
    and "\<And>e. e \<in> set es \<Longrightarrow> may_accept env (touch_peer (tick 0) from_node s) from_node (env_dataset e) token"
  shows "\<exists>m. serve_updates env tick from_node raws token s = (Inr m, fold (deliver (tick 0)) es (touch_peer (tick 0) from_node s))"
proof -
  have "unsuppressed tick (touch_peer (tick 0) from_node s)" using assms(1) by (simp add: unsuppressed_def suppressed_def)
  then obtain m where "updates_loop env tick from_node token raws 1 (0, 0) (touch_peer (tick 0) from_node s) =
      (Inr m, fold (deliver (tick 0)) es (touch_peer (tick 0) from_node s))"
    using updates_loop_delivers [where s = "touch_peer (tick 0) from_node s" and i = 1 and c = "(0, 0)", OF _ assms(2)] assms(3) by blast
  then show ?thesis by (cases m) (simp add: serve_updates_def Let_def)
qed

text \<open>Hearing from a peer changes only the time it was last seen.\<close>

lemma touched_session:
  "map_of (cs_sessions (touch_peer now n s)) m =
     map_option (\<lambda>p. if m = n then p\<lparr>peer_last_seen := now\<rparr> else p) (map_of (cs_sessions s) m)"
  by (cases "map_of (cs_sessions s) n"; cases "map_of (cs_sessions s) m") (auto simp: touch_peer_def)

lemma authed_touch [simp]: "authed env (touch_peer now n s) m token = authed env s m token"
  by (cases "map_of (cs_sessions s) m") (auto simp: authed_def touched_session)

lemma allowed_touch [simp]: "allowed_for env (touch_peer now n s) m ns token = allowed_for env s m ns token"
  by (cases "map_of (cs_sessions s) m") (auto simp: allowed_for_def touched_session)

lemma may_accept_touch [simp]: "may_accept env (touch_peer now n s) m ds token = may_accept env s m ds token"
  by (cases "map_of (cs_sessions s) m") (auto simp: may_accept_def touched_session)

section \<open>Records a node offers\<close>

definition offer :: "node_env \<Rightarrow> registry_view \<Rightarrow> cluster_store \<Rightarrow> record_key \<Rightarrow> sync_envelope option" where
  "offer env r s k = (if listed_version r s k = None then None else build_envelope_for_key env s k)"

definition newest :: "sync_envelope option \<Rightarrow> sync_envelope option \<Rightarrow> sync_envelope option" where
  "newest a b = (case b of None \<Rightarrow> a | Some e \<Rightarrow> if version_newer (env_version e) (map_option env_version a) then b else a)"

lemma offer_cong:
  assumes "cs_state s' = cs_state s" "cs_foreign s' = cs_foreign s"
  shows "offer env r s' = offer env r s" "listed_version r s' = listed_version r s"
    "build_envelope_for_key env s' = build_envelope_for_key env s"
  unfolding fun_eq_iff offer_def listed_version_def build_envelope_for_key_def build_local_envelope_def assms
  by (intro allI, rule refl)+

lemma offer_version:
  assumes "overlay_ok s" "ne_registry env = Some r" "names_ok r"
  shows "map_option env_version (offer env r s k) = listed_version r s k"
    and "offer env r s k = Some e \<Longrightarrow> env_key e = k"
proof -
  show "map_option env_version (offer env r s k) = listed_version r s k"
    using listed_envelope [OF assms, of k] by (cases "listed_version r s k") (auto simp: offer_def)
  show "env_key e = k" if "offer env r s k = Some e"
    using that listed_envelope [OF assms, of k] by (cases "listed_version r s k") (auto simp: offer_def)
qed

text \<open>One direction of an exchange: the receiver gets, key by key, what the sender has newer.\<close>

lemma one_way:
  assumes keys: "distinct ks" "\<And>k. k \<in> set ks \<Longrightarrow> \<exists>e. send k = Some e \<and> env_key e = k"
    and adm: "\<And>n. \<not> suppressed now s n" and k: "fst (snd k) \<noteq> cs_node s"
    and want: "k \<in> set ks \<longleftrightarrow> (\<exists>e. send k = Some e \<and> version_newer (env_version e) (map_option env_version (overlay s k)))"
  shows "overlay (fold (deliver now) (map (the \<circ> send) ks) s) k = newest (overlay s k) (send k)"
proof -
  have "env_key (the (send j)) = j" if "j \<in> set ks" for j using keys(2) [OF that] by auto
  then have ek: "map env_key (map (the \<circ> send) ks) = ks" by (simp add: map_idI)
  show ?thesis
  proof (cases "k \<in> set ks")
    case True
    obtain e where e: "send k = Some e" "env_key e = k" using keys(2) [OF True] by blast
    then have "env_origin e \<noteq> cs_node s" using k by (auto simp: env_key_def)
    then have "admitted now s e" using adm by (simp add: admitted_def)
    moreover have "version_newer (env_version e) (map_option env_version (overlay s k))" using want True e by auto
    moreover have "e \<in> set (map (the \<circ> send) ks)" using True e by force
    ultimately show ?thesis using replica.fold_distinct [where s = s and es = "map (the \<circ> send) ks" and e = e and now = now] keys(1) ek e
      by (simp add: newest_def)
  next
    case False
    then have "k \<notin> env_key ` set (map (the \<circ> send) ks)" using ek by (metis set_map)
    then show ?thesis using replica.fold_other [where s = s and k = k and es = "map (the \<circ> send) ks" and now = now] want False
      by (cases "send k") (auto simp: newest_def)
  qed
qed

lemma one_way_source:
  assumes "k \<notin> set ks" "\<And>k. k \<in> set ks \<Longrightarrow> \<exists>e. send k = Some e \<and> env_key e = k"
  shows "overlay (fold (deliver now) (map (the \<circ> send) ks) s) k = overlay s k"
proof -
  have "k \<notin> env_key ` set (map (the \<circ> send) ks)" using assms by fastforce
  then show ?thesis using replica.fold_other [where s = s and k = k and es = "map (the \<circ> send) ks" and now = now] by simp
qed

lemma map_filter_agree: "(\<And>k. k \<in> set ks \<Longrightarrow> f k = g k \<and> g k \<noteq> None) \<Longrightarrow> List.map_filter f ks = map (the \<circ> g) ks"
proof (induction ks)
  case (Cons k ks)
  have "List.map_filter f ks = map (the \<circ> g) ks" using Cons.IH Cons.prems by simp
  then show ?case using Cons.prems [of k] by auto
qed simp

section \<open>One exchange\<close>

text \<open>
  What two nodes have in common during an exchange: the namespaces \<open>N\<close> agreed on, and the caller's session at
  the peer \<open>b\<close> with an accepted token.
\<close>

definition session_with :: "node_env \<Rightarrow> cluster_store \<Rightarrow> string \<Rightarrow> string option \<Rightarrow> string set \<Rightarrow> bool" where
  "session_with benv b caller token N \<longleftrightarrow> authed benv b caller token
     \<and> (\<exists>q. map_of (cs_sessions b) caller = Some q \<and> set (peer_namespaces q) = N)"

definition codec_ok :: "node_env \<Rightarrow> node_env \<Rightarrow> bool" where
  "codec_ok env benv \<longleftrightarrow> (\<forall>e. ne_validate env (ne_dump benv e) = Inr e)"

text \<open>The part of a node's index that concerns a namespace set.\<close>

definition scoped :: "string set \<Rightarrow> registry_view \<Rightarrow> cluster_store \<Rightarrow> record_key \<Rightarrow> version option" where
  "scoped N r s k = (if fst k \<in> N \<and> (nul_sep \<notin> set (fst k) \<or> fst (snd k) \<noteq> cs_node s) then listed_version r s k else None)"

lemma session_allowed:
  assumes "session_with benv b caller token N"
  shows "set (allowed_for benv b caller ns token) = {n \<in> N. in_scope ns n}" "ds \<in> N \<Longrightarrow> may_accept benv b caller ds token"
  using assms by (auto simp: session_with_def allowed_for_def may_accept_def)

lemma session_touch: "session_with benv (touch_peer now n b) caller token N = session_with benv b caller token N"
  by (cases "map_of (cs_sessions b) caller") (auto simp: session_with_def touched_session)

lemma session_with_cong: "cs_sessions b' = cs_sessions b \<Longrightarrow> session_with benv b' caller token N = session_with benv b caller token N"
  using session_cong(2) [of b' b benv] by (simp add: session_with_def)

lemma map_of_dict_add_distinct: "keys_distinct ps \<Longrightarrow> map_of (dict_add ps []) = map_of ps"
proof
  fix k assume "keys_distinct ps"
  then have "map_of (rev ps) k = (if k \<in> fst ` set (rev ps) then map_of ps k else None)"
    by (intro map_of_functional) (simp add: map_of_eq_Some_iff)
  moreover have "map_of ps k = None" if "k \<notin> fst ` set ps" using that by (simp add: map_of_eq_None_iff)
  ultimately show "map_of (dict_add ps []) k = map_of ps k" by (auto simp: map_of_dict_add split: option.splits)
qed

lemma in_filter_index:
  assumes "keys_distinct idx"
  shows "k \<in> set (map fst (filter (\<lambda>(k, v). P k v) idx)) \<longleftrightarrow> (\<exists>v. map_of idx k = Some v \<and> P k v)"
    and "distinct (map fst (filter (\<lambda>(k, v). P k v) idx))"
  using assms by (force simp: map_of_eq_Some_iff, rule distinct_map_filter)

lemma build_same:
  assumes "cs_state s' = cs_state s" "overlay s' k = overlay s k"
  shows "build_envelope_for_key env s' k = build_envelope_for_key env s k"
  using assms by (cases k) (auto simp: build_envelope_for_key_def build_local_envelope_def overlay_def cong: option.case_cong)

lemma scoped_offer:
  assumes "overlay_ok s" "ne_registry env = Some r" "names_ok r" "scoped N r s k = Some v"
  shows "\<exists>e. offer env r s k = Some e \<and> build_envelope_for_key env s k = Some e \<and> env_key e = k \<and> env_version e = v \<and> fst k \<in> N"
proof -
  have l: "listed_version r s k = Some v" "fst k \<in> N" using assms(4) by (auto simp: scoped_def split: if_splits)
  obtain e where e: "offer env r s k = Some e" "env_version e = v"
    using offer_version(1) [OF assms(1-3), of k] l by auto
  then show ?thesis using offer_version(2) [OF assms(1-3) e(1)] l by (auto simp: offer_def)
qed

text \<open>The keys of a direction are exactly those the receiver lacks or has older.\<close>

lemma wanted_iff:
  assumes idx: "keys_distinct have_sub" "keys_distinct give_sub"
    and h: "\<And>k. map_of have_sub k = (if D k then scoped N r s k else None)"
    and g: "\<And>k. map_of give_sub k = (if D k then scoped N r' b k else None)"
    and same: "\<And>k. \<not> D k \<Longrightarrow> scoped N r s k = scoped N r' b k"
    and b: "overlay_ok b" "ne_registry benv = Some r'" "names_ok r'"
    and k: "fst k \<in> N" "nul_sep \<notin> set (fst k)" "fst (snd k) \<noteq> cs_node s"
  shows "k \<in> set (map fst (filter (\<lambda>(k, v). version_newer v (map_of have_sub k)) give_sub)) \<longleftrightarrow>
    (\<exists>e. offer benv r' b k = Some e \<and> version_newer (env_version e) (map_option env_version (overlay s k)))"
proof -
  have s: "scoped N r s k = map_option env_version (overlay s k)" using k
    by (cases k) (auto simp: scoped_def listed_version_def overlay_def)
  have o: "scoped N r' b k = map_option env_version (offer benv r' b k)"
    using k offer_version(1) [OF b, of k] by (simp add: scoped_def)
  have "k \<in> set (map fst (filter (\<lambda>(k, v). version_newer v (map_of have_sub k)) give_sub)) \<longleftrightarrow>
      (\<exists>v. map_of give_sub k = Some v \<and> version_newer v (map_of have_sub k))"
    by (rule in_filter_index(1) [OF idx(2)])
  also have "\<dots> \<longleftrightarrow> (\<exists>v. scoped N r' b k = Some v \<and> version_newer v (scoped N r s k))"
    using same [of k] by (cases "D k") (auto simp: h g)
  finally show ?thesis unfolding s o by (cases "offer benv r' b k") simp_all
qed

lemma list_all2_codec:
  assumes "codec_ok env benv"
  shows "list_all2 (\<lambda>raw e. ne_validate env raw = Inr e) (map (ne_dump benv) es) es"
  using assms by (induction es) (simp_all add: codec_ok_def)

lemma pull_phase:
  assumes b: "overlay_ok b" "ne_registry benv = Some r'" "names_ok r'" and sess: "session_with benv b caller token N"
    and codec: "codec_ok env benv" and sup: "unsuppressed tick s"
    and ks: "\<And>k. k \<in> set ks \<Longrightarrow> \<exists>v. scoped N r' b k = Some v"
  shows "\<exists>m b'. (if ks = [] then io_return 0
      else io_bind (tr_pull (peer_transport benv bclk btick secret) addr caller ks token) (pull_loop env tick 0 0)) (s, b) =
        (Inr m, (fold (deliver (tick 0)) (map (the \<circ> offer benv r' b) ks) s, b')) \<and> (b' = b \<or> (\<exists>now. b' = touch_peer now caller b))"
proof (cases "ks = []")
  case False
  let ?b = "touch_peer (btick 3 0) caller b"
  have all: "fst k \<in> N \<and> build_envelope_for_key benv b k = offer benv r' b k \<and> build_envelope_for_key benv b k \<noteq> None" if "k \<in> set ks" for k
    using ks [OF that] scoped_offer [OF b, of N k] by auto
  have o: "List.map_filter (build_envelope_for_key benv b) ks = map (the \<circ> offer benv r' b) ks"
    by (rule map_filter_agree) (metis all)
  have f: "filter (\<lambda>k. fst k \<in> set (allowed_for benv b caller [] token)) ks = ks"
    using all session_allowed(1) [OF sess, of "[]"] by (auto simp: in_scope_def intro!: filter_True)
  have "serve_pull benv (btick 3 0) caller ks token b = (map (ne_dump benv) (map (the \<circ> offer benv r' b) ks), ?b)"
    unfolding serve_pull_def Let_def allowed_touch f offer_cong(3) [of ?b b benv, simplified] o ..
  then have "tr_pull (peer_transport benv bclk btick secret) addr caller ks token (s, b) =
      (Inr (map (ne_dump benv) (map (the \<circ> offer benv r' b) ks)), (s, ?b))" by (simp add: peer_transport_def)
  moreover obtain m where "pull_loop env tick 0 0 (map (ne_dump benv) (map (the \<circ> offer benv r' b) ks)) (s, ?b) =
      (Inr m, (fold (deliver (tick 0)) (map (the \<circ> offer benv r' b) ks) s, ?b))"
    using pull_loop_delivers [OF sup list_all2_codec [OF codec], of 0 0 _ ?b] by blast
  ultimately show ?thesis using False by auto
qed auto

lemma push_phase:
  assumes s: "overlay_ok s" "ne_registry env = Some r" "names_ok r" and sess: "session_with benv b (cs_node s) (peer_token p) N"
    and codec: "codec_ok benv env" and sup: "unsuppressed (btick 4) b" and frame: "cs_state s' = cs_state s"
    and ks: "ks = map fst (filter (\<lambda>(k, lv). version_newer lv (map_of remote k)) sub)"
      "\<And>k. k \<in> set ks \<Longrightarrow> overlay s' k = overlay s k \<and> (\<exists>v. scoped N r s k = Some v)"
  shows "\<exists>m b0. push_newer (peer_transport benv bclk btick secret) env p sub remote (s', b) =
      (Inr m, (s', fold (deliver (btick 4 0)) (map (the \<circ> offer env r s) ks) b0))
    \<and> (b0 = b \<or> (\<exists>now. b0 = touch_peer now (cs_node s) b))"
proof -
  let ?es = "map (the \<circ> offer env r s) ks"
  have all: "build_envelope_for_key env s' k = offer env r s k \<and> offer env r s k \<noteq> None" "env_dataset (the (offer env r s k)) \<in> N"
    if k: "k \<in> set ks" for k
  proof -
    obtain v e where "overlay s' k = overlay s k" "offer env r s k = Some e" "build_envelope_for_key env s k = Some e"
        "env_key e = k" "fst k \<in> N"
      using ks(2) [OF k] scoped_offer [OF s, of N k] by blast
    then show "build_envelope_for_key env s' k = offer env r s k \<and> offer env r s k \<noteq> None" "env_dataset (the (offer env r s k)) \<in> N"
      using build_same [OF frame, of k env] by (auto simp: env_key_def)
  qed
  have envs: "List.map_filter (build_envelope_for_key env s') ks = ?es"
    by (rule map_filter_agree) (rule all(1))
  show ?thesis
  proof (cases "?es = []")
    case True
    then show ?thesis using envs ks(1) by (auto simp: push_newer_def Let_def)
  next
    case False
    let ?b = "touch_peer (btick 4 0) (cs_node s) b"
    have "may_accept benv ?b (cs_node s) (env_dataset e) (peer_token p)" if "e \<in> set ?es" for e
      using session_allowed(2) [OF sess] all(2) that by auto
    from serve_updates_delivers [OF sup list_all2_codec [OF codec] this]
    obtain m where m: "serve_updates benv (btick 4) (cs_node s) (map (ne_dump env) ?es) (peer_token p) b =
        (Inr m, fold (deliver (btick 4 0)) ?es ?b)" by blast
    have "push_newer (peer_transport benv bclk btick secret) env p sub remote (s', b) =
        (Inr (ur_accepted m), (s', fold (deliver (btick 4 0)) ?es ?b))"
      using False m frame unfolding push_newer_def Let_def fst_conv ks(1) [symmetric] envs by (simp add: peer_transport_def)
    then show ?thesis by blast
  qed
qed

text \<open>
  After an exchange each node holds, for every record of the agreed namespaces it does not own, the newer of
  its own replica and what the other node had to offer.
\<close>

definition converged ::
  "string set \<Rightarrow> (record_key \<Rightarrow> sync_envelope option) \<Rightarrow> cluster_store \<Rightarrow> cluster_store \<Rightarrow> bool" where
  "converged N send s s' \<longleftrightarrow> cs_state s' = cs_state s \<and> (\<forall>k. fst k \<in> N \<longrightarrow> nul_sep \<notin> set (fst k) \<longrightarrow> fst (snd k) \<noteq> cs_node s \<longrightarrow>
     overlay s' k = newest (overlay s k) (send k))"

lemma exchange_converges:
  assumes s: "overlay_ok s" "ne_registry env = Some r" "names_ok r"
    and b: "overlay_ok b" "ne_registry benv = Some r'" "names_ok r'"
    and sess: "session_with benv b (cs_node s) (peer_token p) N"
    and codec: "codec_ok env benv" "codec_ok benv env" and sup: "unsuppressed tick s" "unsuppressed (btick 4) b"
    and idx: "keys_distinct sub" "keys_distinct rows"
    and h: "\<And>k. map_of sub k = (if D k then scoped N r s k else None)"
    and g: "\<And>k. map_of rows k = (if D k then scoped N r' b k else None)"
    and same: "\<And>k. \<not> D k \<Longrightarrow> scoped N r s k = scoped N r' b k"
  shows "\<exists>m s' b'. exchange (peer_transport benv bclk btick secret) env tick p (cs_node s) sub rows (s, b) = (Inr m, (s', b'))
    \<and> converged N (offer benv r' b) s s' \<and> converged N (offer env r s) b b'"
proof -
  let ?tr = "peer_transport benv bclk btick secret"
  define rix where "rix = dict_add rows []"
  have rix: "keys_distinct rix" "\<And>k. map_of rix k = (if D k then scoped N r' b k else None)"
    using map_of_dict_add_distinct [OF idx(2)] g by (simp_all add: rix_def)
  define pulls where "pulls = map fst (filter (\<lambda>(k, rv). version_newer rv (map_of sub k)) rix)"
  define pushes where "pushes = map fst (filter (\<lambda>(k, lv). version_newer lv (map_of rix k)) sub)"
  have pl: "k \<in> set pulls \<longleftrightarrow> (\<exists>v. map_of rix k = Some v \<and> version_newer v (map_of sub k))" "distinct pulls" for k
    unfolding pulls_def by (rule in_filter_index(1) [OF rix(1)], rule in_filter_index(2) [OF rix(1)])
  have ps: "k \<in> set pushes \<longleftrightarrow> (\<exists>v. map_of sub k = Some v \<and> version_newer v (map_of rix k))" "distinct pushes" for k
    unfolding pushes_def by (rule in_filter_index(1) [OF idx(1)], rule in_filter_index(2) [OF idx(1)])
  have pulls_ok: "\<exists>v. scoped N r' b k = Some v" if "k \<in> set pulls" for k
    using pl(1) that rix(2) by (metis option.distinct(1))
  have pushes_ok: "\<exists>v. scoped N r s k = Some v" if "k \<in> set pushes" for k
    using ps(1) that h by (metis option.distinct(1))
  have disj: "k \<notin> set pulls" if "k \<in> set pushes" for k
    using that unfolding pl(1) ps(1) by (auto dest: ver_less_asym)
  let ?s2 = "fold (deliver (tick 0)) (map (the \<circ> offer benv r' b) pulls) s"
  have give: "\<exists>e. offer benv r' b k = Some e \<and> env_key e = k" if "k \<in> set pulls" for k
    using pulls_ok [OF that] scoped_offer [OF b, of N k] by blast
  have give': "\<exists>e. offer env r s k = Some e \<and> env_key e = k" if "k \<in> set pushes" for k
    using pushes_ok [OF that] scoped_offer [OF s, of N k] by blast
  obtain m1 b1 where p1: "(if pulls = [] then io_return 0
      else io_bind (tr_pull ?tr (peer_address p) (cs_node s) pulls (peer_token p)) (pull_loop env tick 0 0)) (s, b) = (Inr m1, (?s2, b1))"
      and b1: "b1 = b \<or> (\<exists>now. b1 = touch_peer now (cs_node s) b)"
    using pull_phase [where ks = pulls and addr = "peer_address p" and bclk = bclk and btick = btick and secret = secret,
      OF b sess codec(1) sup(1) pulls_ok] by blast
  have b1': "session_with benv b1 (cs_node s) (peer_token p) N" "unsuppressed (btick 4) b1"
    "cs_state b1 = cs_state b" "overlay b1 = overlay b"
    using b1 sess sup(2) by (auto simp: session_touch unsuppressed_def suppressed_def overlay_def)
  have keep: "overlay ?s2 k = overlay s k \<and> (\<exists>v. scoped N r s k = Some v)" if "k \<in> set pushes" for k
    using one_way_source [OF disj [OF that] give] pushes_ok [OF that] by blast
  obtain m2 b0 where p2: "push_newer ?tr env p sub rix (?s2, b1) =
        (Inr m2, (?s2, fold (deliver (btick 4 0)) (map (the \<circ> offer env r s) pushes) b0))"
      and b0: "b0 = b1 \<or> (\<exists>now. b0 = touch_peer now (cs_node s) b1)"
    using push_phase [where s' = ?s2 and sub = sub and remote = rix and bclk = bclk and btick = btick and secret = secret,
      OF s b1'(1) codec(2) b1'(2) _ pushes_def keep] by auto
  let ?b2 = "fold (deliver (btick 4 0)) (map (the \<circ> offer env r s) pushes) b0"
  have b0': "cs_state b0 = cs_state b" "overlay b0 = overlay b" "unsuppressed (btick 4) b0"
    using b0 b1' by (auto simp: overlay_def unsuppressed_def suppressed_def)
  have "exchange ?tr env tick p (cs_node s) sub rows (s, b) = (Inr (m1, m2), (?s2, ?b2))"
    unfolding exchange_def Let_def rix_def [symmetric] pulls_def [symmetric]
    by (subst io_bind_def, simp only: p1 prod.case sum.case, subst io_bind_def, simp only: p2 prod.case sum.case io_simps(1))
  moreover have "converged N (offer benv r' b) s ?s2" unfolding converged_def
  proof (intro conjI allI impI)
    fix k :: record_key assume k: "fst k \<in> N" "nul_sep \<notin> set (fst k)" "fst (snd k) \<noteq> cs_node s"
    show "overlay ?s2 k = newest (overlay s k) (offer benv r' b k)"
    proof (rule one_way [OF pl(2) give _ k(3)])
      show "\<not> suppressed (tick 0) s n" for n using sup(1) by (simp add: unsuppressed_def)
      show "k \<in> set pulls \<longleftrightarrow> (\<exists>e. offer benv r' b k = Some e \<and> version_newer (env_version e) (map_option env_version (overlay s k)))"
        unfolding pulls_def by (rule wanted_iff [OF idx(1) rix(1) h rix(2) same b k])
    qed
  qed simp
  moreover have "converged N (offer env r s) b ?b2" unfolding converged_def
  proof (intro conjI allI impI)
    fix k :: record_key assume k: "fst k \<in> N" "nul_sep \<notin> set (fst k)" "fst (snd k) \<noteq> cs_node b"
    have "overlay ?b2 k = newest (overlay b0 k) (offer env r s k)"
    proof (rule one_way [OF ps(2) give'])
      show "\<not> suppressed (btick 4 0) b0 n" for n using b0'(3) by (simp add: unsuppressed_def)
      show "fst (snd k) \<noteq> cs_node b0" using k(3) b0'(1) by simp
      show "k \<in> set pushes \<longleftrightarrow> (\<exists>e. offer env r s k = Some e \<and> version_newer (env_version e) (map_option env_version (overlay b0 k)))"
        unfolding pushes_def b0'(2) by (rule wanted_iff [OF rix(1) idx(1) rix(2) h same [symmetric] s k])
    qed
    then show "overlay ?b2 k = newest (overlay b k) (offer env r s k)" using b0'(2) by simp
  qed (simp add: b0'(1))
  ultimately show ?thesis by blast
qed

section \<open>Reconciliation\<close>

lemma allowed_index_spec:
  assumes "store_inv s" "ne_registry env = Some r" "names_ok r" "allowed_index env clk al s = (idx, s')"
  shows "keys_distinct idx" "map_of idx k = scoped (set al) r s' k" "s' = ensure_local_versions env clk s"
proof -
  obtain full where f: "full_index env clk (sort (remdups al)) s = (full, s')" and idx: "idx = filter (\<lambda>(k, _). fst k \<in> set al) full"
    using assms(4) by (auto simp: allowed_index_def Let_def split: prod.splits)
  note sp = full_index_spec [OF assms(1-3) f]
  show "keys_distinct idx" using sp(1) idx by simp
  show "map_of idx k = scoped (set al) r s' k"
    using sp idx by (auto simp: map_of_filter_distinct scoped_def in_scope_def split: option.splits)
  show "s' = ensure_local_versions env clk s" using full_index_state [OF f] .
qed

lemma index_bucket:
  assumes "keys_distinct idx"
  shows "map_of (filter (\<lambda>(k, _). P k) idx) k = (if P k then map_of idx k else None)"
  using assms by (auto simp: map_of_filter_distinct split: option.splits)

text \<open>The hypotheses under which two nodes reconcile.\<close>

definition peered :: "node_env \<Rightarrow> registry_view \<Rightarrow> cluster_store \<Rightarrow> peer \<Rightarrow> node_env \<Rightarrow> registry_view \<Rightarrow> cluster_store \<Rightarrow> bool" where
  "peered env r s p benv r' b \<longleftrightarrow>
     store_inv s \<and> ne_registry env = Some r \<and> names_ok r \<and> store_inv b \<and> ne_registry benv = Some r' \<and> names_ok r'
     \<and> ne_sha benv = ne_sha env \<and> merkle_buckets (ne_config benv) = merkle_buckets (ne_config env)
     \<and> peer_namespaces p \<noteq> [] \<and> session_with benv b (cs_node s) (peer_token p) (set (peer_namespaces p))
     \<and> codec_ok env benv \<and> codec_ok benv env"

lemma ensure_touch: "ensure_local_versions env clk (touch_peer now n s) = touch_peer now n (ensure_local_versions env clk s)"
  by (cases "ne_registry env"; cases "map_of (cs_sessions s) n")
    (auto simp: ensure_local_versions_def touch_peer_def save_state_def Let_def split: prod.splits)

lemma full_index_touch:
  "full_index env clk ns (touch_peer now n s) = (fst (full_index env clk ns s), touch_peer now n (snd (full_index env clk ns s)))"
  by (cases "ne_registry env") (simp_all add: full_index_def local_index_def Let_def ensure_touch)

lemma allowed_index_touch:
  "allowed_index env clk al (touch_peer now n s) = (fst (allowed_index env clk al s), touch_peer now n (snd (allowed_index env clk al s)))"
  by (simp add: allowed_index_def full_index_touch Let_def case_prod_beta)

lemma allowed_index_set: "set al = set al' \<Longrightarrow> allowed_index env clk al = allowed_index env clk al'"
  by (simp add: fun_eq_iff allowed_index_def sorted_list_of_set_sort_remdups [symmetric])

lemma allowed_index_again:
  assumes "allowed_index env clk al s = (idx, s')"
  shows "allowed_index env clk' al s' = (idx, s')"
proof -
  have s': "s' = ensure_local_versions env clk s" using allowed_index_state [of env clk al s] assms by simp
  have "ensure_local_versions env clk' s' = s'" using ensure_stable [OF ensure_versioned] s' by simp
  then show ?thesis using assms by (auto simp: allowed_index_def full_index_def local_index_def Let_def s')
qed

lemma newest_same: "map_option env_version a = map_option env_version c \<Longrightarrow> newest a c = a"
  by (cases c; cases a) (auto simp: newest_def)

lemma scoped_cong:
  assumes "cs_state s' = cs_state s" "cs_foreign s' = cs_foreign s"
  shows "scoped N r s' = scoped N r s"
  unfolding fun_eq_iff scoped_def offer_cong(2) [OF assms] assms by (intro allI, rule refl)

lemma converged_cong: "cs_state b0 = cs_state b \<Longrightarrow> overlay b0 = overlay b \<Longrightarrow> converged N send b0 b' = converged N send b b'"
  by (simp add: converged_def)

lemma converged_in_sync:
  assumes same: "\<And>k. scoped N r s k = scoped N r' b k" and b: "overlay_ok b" "ne_registry benv = Some r'" "names_ok r'"
    and "cs_state s' = cs_state s" "overlay s' = overlay s"
  shows "converged N (offer benv r' b) s s'"
proof -
  have "newest (overlay s k) (offer benv r' b k) = overlay s k"
    if k: "fst k \<in> N" "nul_sep \<notin> set (fst k)" "fst (snd k) \<noteq> cs_node s" for k
  proof (rule newest_same)
    have "map_option env_version (overlay s k) = scoped N r s k"
      using k by (cases k) (auto simp: scoped_def listed_version_def overlay_def)
    also have "\<dots> = map_option env_version (offer benv r' b k)"
      using same [of k] k offer_version(1) [OF b, of k] by (simp add: scoped_def)
    finally show "map_option env_version (overlay s k) = map_option env_version (offer benv r' b k)" .
  qed
  then show ?thesis using assms(5,6) by (auto simp: converged_def)
qed

lemma reconcile_converges:
  fixes env benv r r' s b p clk tick bclk btick secret
  defines "s1 \<equiv> ensure_local_versions env clk s" and "b1 \<equiv> ensure_local_versions benv (bclk 1) b"
    and "ns \<equiv> sort (remdups (peer_namespaces p))"
  defines "idx \<equiv> fst (full_index env clk ns s)" and "idx' \<equiv> fst (allowed_index benv (bclk 1) ns b)"
  assumes peered: "peered env r s p benv r' b"
    and sup: "unsuppressed tick s" "unsuppressed (btick 4) b"
    and nc: "no_collision (ne_sha env) (merkle_buckets (ne_config env)) idx idx'"
    and ids: "\<forall>e \<in> set idx \<union> set idx'. id_ok (fst e)"
  shows "\<exists>m s' b'. reconcile (peer_transport benv bclk btick secret) env clk tick p (s, b) = (Inr m, (s', b'))
    \<and> converged (set (peer_namespaces p)) (offer benv r' b1) s1 s' \<and> converged (set (peer_namespaces p)) (offer env r s1) b1 b'"
proof -
  let ?N = "set (peer_namespaces p)" and ?tr = "peer_transport benv bclk btick secret" and ?a = "cs_node s"
  let ?n = "merkle_buckets (ne_config env)"
  have A: "store_inv s" "ne_registry env = Some r" "names_ok r" and B: "store_inv b" "ne_registry benv = Some r'" "names_ok r'"
    and sh: "ne_sha benv = ne_sha env" "merkle_buckets (ne_config benv) = ?n"
    and sess: "session_with benv b ?a (peer_token p) ?N" and codec: "codec_ok env benv" "codec_ok benv env"
    and ne: "peer_namespaces p \<noteq> []"
    using peered by (auto simp: peered_def)
  have "set ns = ?N" by (simp add: ns_def)
  with ne have ns: "set ns = ?N" "ns \<noteq> []" by auto
  have fa: "full_index env clk ns s = (idx, s1)" using full_index_state [of env clk ns s] by (simp add: idx_def s1_def prod_eq_iff)
  have fb: "allowed_index benv (bclk 1) ns b = (idx', b1)" by (simp add: idx'_def b1_def prod_eq_iff allowed_index_state)
  have ia: "keys_distinct idx" "\<And>k. map_of idx k = scoped ?N r s1 k"
    using full_index_spec [OF A fa] ns by (auto simp: scoped_def in_scope_def)
  have ib: "keys_distinct idx'" "\<And>k. map_of idx' k = scoped ?N r' b1 k"
    using allowed_index_spec [OF B fb] ns by auto
  have s1: "overlay_ok s1" "cs_node s1 = ?a" "cs_evicted s1 = cs_evicted s"
    using ensure_inv [OF A(1)] by (simp_all add: s1_def store_inv_def)
  have b1: "overlay_ok b1" "cs_sessions b1 = cs_sessions b" "cs_evicted b1 = cs_evicted b" "versioned benv b1"
    using ensure_inv [OF B(1)] ensure_versioned by (simp_all add: b1_def store_inv_def)
  have al: "set (allowed_for benv b ?a ns (peer_token p)) = set ns"
    using session_allowed(1) [OF sess, of ns] ns by (auto simp: in_scope_def)
  let ?b2 = "touch_peer (btick 1 0) ?a b1"
  have merkle: "tr_merkle ?tr (peer_address p) ?a ns (peer_token p) (s1, b) = (Inr (bucket_hashes (ne_sha env) ?n idx'), (s1, ?b2))"
    by (simp add: peer_transport_def serve_merkle_def Let_def allowed_index_touch allowed_index_set [OF al] fb sh del: One_nat_def)
  obtain diff where diff: "differing_buckets (bucket_hashes (ne_sha env) ?n idx) (bucket_hashes (ne_sha env) ?n idx') = Inr diff"
      "\<And>e. int (bucket_of (ne_sha env) ?n (fst e)) \<notin> set diff \<Longrightarrow> e \<in> set idx \<longleftrightarrow> e \<in> set idx'"
    using differing_buckets_agree [OF nc ids] by blast
  have same: "scoped ?N r s1 k = scoped ?N r' b1 k" if "int (bucket_of (ne_sha env) ?n k) \<notin> set diff" for k
  proof -
    have "map_of idx k = Some v \<longleftrightarrow> map_of idx' k = Some v" for v
      using diff(2) [of "(k, v)"] that ia(1) ib(1) by (simp add: map_of_eq_Some_iff)
    then have "map_of idx k = map_of idx' k" by (metis option.exhaust)
    then show ?thesis by (simp only: ia(2) ib(2))
  qed
  show ?thesis
  proof (cases "diff = []")
    case True
    have "reconcile ?tr env clk tick p (s, b) = (Inr (0, 0), (s1, ?b2))"
      using fa merkle diff(1) True s1(2) by (simp add: reconcile_def Let_def ns_def [symmetric])
    moreover have "converged ?N (offer benv r' b1) s1 s1"
      by (rule converged_in_sync [OF same b1(1) B(2,3)]) (simp_all add: True)
    moreover have "converged ?N (offer env r s1) b1 ?b2"
      by (rule converged_in_sync [OF same [symmetric] s1(1) A(2,3)]) (simp_all add: True overlay_def)
    ultimately show ?thesis by blast
  next
    case False
    let ?D = "\<lambda>k. int (bucket_of (ne_sha env) ?n k) \<in> set diff"
    let ?b3 = "touch_peer (btick 2 0) ?a ?b2"
    have al2: "set (allowed_for benv b1 ?a ns (peer_token p)) = set ns" using al session_cong(3) [OF b1(2)] by simp
    have f2: "allowed_index benv (bclk 2) ns b1 = (idx', b1)" by (rule allowed_index_again [OF fb])
    have dig: "tr_digest ?tr (peer_address p) ?a ns (peer_token p) (Some (sort diff)) (s1, ?b2) =
        (Inr (filter (\<lambda>(k, _). ?D k) idx'), (s1, ?b3))"
      by (simp add: peer_transport_def serve_digest_def Let_def allowed_index_touch allowed_index_set [OF al2] f2 sh)
    have b3: "overlay_ok ?b3" "session_with benv ?b3 (cs_node s1) (peer_token p) ?N" "unsuppressed (btick 4) ?b3"
        "cs_state ?b3 = cs_state b1" "cs_foreign ?b3 = cs_foreign b1" "overlay ?b3 = overlay b1"
      using b1 sess sup(2) s1(2) session_with_cong [OF b1(2)]
      by (simp_all add: session_touch unsuppressed_def suppressed_def overlay_def overlay_ok_def)
    have sup1: "unsuppressed tick s1" using sup(1) s1(3) by (simp add: unsuppressed_def suppressed_def)
    have "\<exists>m s' b'. exchange ?tr env tick p (cs_node s1) (filter (\<lambda>(k, _). ?D k) idx) (filter (\<lambda>(k, _). ?D k) idx') (s1, ?b3) =
        (Inr m, (s', b')) \<and> converged ?N (offer benv r' ?b3) s1 s' \<and> converged ?N (offer env r s1) ?b3 b'"
    proof (rule exchange_converges [where btick = btick and D = ?D, OF s1(1) A(2,3) b3(1) B(2,3) b3(2) codec sup1 b3(3)])
      show "map_of (filter (\<lambda>(k, _). ?D k) idx) k = (if ?D k then scoped ?N r s1 k else None)" for k
        by (simp only: index_bucket [OF ia(1)] ia(2))
      show "map_of (filter (\<lambda>(k, _). ?D k) idx') k = (if ?D k then scoped ?N r' ?b3 k else None)" for k
        by (simp only: index_bucket [OF ib(1)] ib(2) scoped_cong [OF b3(4,5)])
      show "scoped ?N r s1 k = scoped ?N r' ?b3 k" if "\<not> ?D k" for k
        using same [OF that] by (simp only: scoped_cong [OF b3(4,5)])
    qed (use ia(1) ib(1) in simp_all)
    then obtain m s' b' where ex: "exchange ?tr env tick p ?a (filter (\<lambda>(k, _). ?D k) idx) (filter (\<lambda>(k, _). ?D k) idx') (s1, ?b3) =
        (Inr m, (s', b'))" "converged ?N (offer benv r' b1) s1 s'" "converged ?N (offer env r s1) b1 b'"
      using offer_cong(1) [OF b3(4,5)] converged_cong [OF b3(4,6)] s1(2) by auto
    have "reconcile ?tr env clk tick p (s, b) = (Inr m, (s', b'))"
      using fa merkle diff(1) False dig ex(1) s1(2) by (simp add: reconcile_def Let_def ns_def [symmetric])
    then show ?thesis using ex(2,3) by blast
  qed
qed

section \<open>A peer without agreed namespaces\<close>

text \<open>
  A peer that accepted no namespace answers with an empty digest, as \<open>serve_merkle\<close> and \<open>serve_digest\<close> do
  for a session whose namespace set is empty. The world keeps what it is sent.
\<close>

definition blind_peer :: "pdict list transport" where
  "blind_peer =
     \<lparr>tr_open = (\<lambda>addr body x. (Inl (TransportError addr), x)), tr_merkle = (\<lambda>addr from_node ns token x. (Inr [], x)),
      tr_digest = (\<lambda>addr from_node ns token buckets x. (Inr [], x)), tr_pull = (\<lambda>addr from_node ks token x. (Inr [], x)),
      tr_updates = (\<lambda>addr from_node raws token (s, sent).
        (Inr \<lparr>ur_accepted = 0, ur_received = length raws, ur_rejected = length raws\<rparr>, (s, sent @ raws))),
      tr_keepalive = (\<lambda>addr from_node token x. (Inl (TransportError addr), x)),
      tr_join = (\<lambda>addr body x. (Inl (TransportError addr), x)), tr_evict = (\<lambda>addr from_node cid token x. (Inl (TransportError addr), x)),
      tr_evict_self = (\<lambda>addr from_node token x. (Inl (TransportError addr), x)),
      tr_set_digest = (\<lambda>addr from_node token x. (Inl (TransportError addr), x)),
      tr_set_pull = (\<lambda>addr from_node ns token x. (Inl (TransportError addr), x)),
      tr_set_sync = (\<lambda>addr from_node rs token x. (Inl (TransportError addr), x))\<rparr>"

lemma no_session_namespaces_digest:
  assumes "session_with env b caller token {}"
  shows "fst (serve_merkle env clk now caller ns token b) = []" "fst (serve_digest env clk now caller ns token buckets b) = []"
proof -
  have "set (allowed_for env b caller ns token) = {}" using session_allowed(1) [OF assms, of ns] by simp
  then have "fst (allowed_index env clk (allowed_for env b caller ns token) x) = []" for x
    by (simp add: allowed_index_def Let_def case_prod_beta)
  then show "fst (serve_merkle env clk now caller ns token b) = []" "fst (serve_digest env clk now caller ns token buckets b) = []"
    by (simp_all add: serve_merkle_def serve_digest_def Let_def case_prod_beta bucket_hashes_def index_buckets_def)
qed

lemma differing_from_nothing:
  "\<exists>diff. differing_buckets (bucket_hashes sha n idx) [] = Inr diff \<and> (\<forall>e \<in> set idx. int (bucket_of sha n (fst e)) \<in> set diff)"
proof -
  let ?l = "bucket_hashes sha n idx"
  let ?bs = "filter (\<lambda>b. map_of ?l b \<noteq> map_of ([] :: (string \<times> string) list) b) (remdups (map fst ?l @ map fst ([] :: (string \<times> string) list)))"
  have "set ?bs \<subseteq> range nat_str" using fst_bucket_hashes [of sha n idx] by auto
  from traverse_nat_strs [OF this] obtain diff where d: "differing_buckets ?l [] = Inr diff" "set diff = {int b |b. nat_str b \<in> set ?bs}"
    unfolding differing_buckets_def by blast
  have "nat_str (bucket_of sha n (fst e)) \<in> set ?bs" if "e \<in> set idx" for e
  proof -
    have "nat_str (bucket_of sha n (fst e)) \<in> fst ` set ?l" using that by (simp add: fst_bucket_hashes)
    then show ?thesis by (simp add: map_of_bucket_hashes that)
  qed
  then show ?thesis using d by blast
qed

lemma unscoped_push:
  assumes inv: "store_inv s" "ne_registry env = Some r" "names_ok r" and p: "peer_namespaces p = []"
    and k: "listed_version r (ensure_local_versions env clk s) k = Some v" "nul_sep \<notin> set (fst k)"
  shows "\<exists>m s' sent e. reconcile blind_peer env clk tick p (s, []) = (Inr m, (s', sent))
    \<and> build_envelope_for_key env (ensure_local_versions env clk s) k = Some e \<and> env_key e = k \<and> ne_dump env e \<in> set sent"
proof -
  let ?n = "merkle_buckets (ne_config env)"
  obtain idx s1 where f: "full_index env clk [] s = (idx, s1)" by fastforce
  have s1: "s1 = ensure_local_versions env clk s" using full_index_state [OF f] .
  have ok: "overlay_ok s1" using ensure_inv [OF inv(1)] by (simp add: s1 store_inv_def)
  have kv: "map_of idx k = Some v" using full_index_spec(2) [OF inv f, of k] k s1 by (simp add: in_scope_def)
  obtain diff where d: "differing_buckets (bucket_hashes (ne_sha env) ?n idx) [] = Inr diff"
      "\<forall>e \<in> set idx. int (bucket_of (ne_sha env) ?n (fst e)) \<in> set diff"
    using differing_from_nothing by blast
  let ?D = "\<lambda>k. int (bucket_of (ne_sha env) ?n k) \<in> set diff"
  have sub: "filter (\<lambda>(k, _). ?D k) idx = idx" using d(2) by (auto intro!: filter_True)
  have ne: "diff \<noteq> []" using bspec [OF d(2) map_of_SomeD [OF kv]] by auto
  obtain e where e: "build_envelope_for_key env s1 k = Some e" "env_key e = k"
    using listed_envelope [OF ok inv(2,3), of k v] k(1) s1 by blast
  let ?envs = "List.map_filter (build_envelope_for_key env s1) (map fst idx)"
  have envs: "e \<in> set ?envs" using e(1) map_of_SomeD [OF kv] by (force simp: set_map_filter)
  have all: "filter (\<lambda>(k, lv). version_newer lv (map_of [] k)) idx = idx" by (rule filter_True) auto
  have "push_newer blind_peer env p idx [] (s1, []) = (Inr 0, (s1, map (ne_dump env) ?envs))"
    unfolding push_newer_def Let_def all fst_conv using envs by (auto simp: blind_peer_def io_bind_def)
  then have "exchange blind_peer env tick p (cs_node s1) idx [] (s1, []) = (Inr (0, 0), (s1, map (ne_dump env) ?envs))"
    by (simp add: exchange_def Let_def)
  then have "reconcile blind_peer env clk tick p (s, []) = (Inr (0, 0), (s1, map (ne_dump env) ?envs))"
    using f p d(1) ne sub by (simp add: reconcile_def Let_def io_bind_def blind_peer_def)
  then show ?thesis using e envs s1 by auto
qed

end
