(* ===== verification/Membership.thy ===== *)
theory Membership
  imports Reconcile
begin

text \<open>
  \<open>AgentRegistry/a2x_registry/cluster/membership.py\<close>: the roster of a cluster. \<open>MembershipStore\<close> shares the
  persisted state and the sessions of its store; its own overlay is the field \<open>cs_roster\<close>. Where a method reads
  clocks more than once the readings are functions: \<open>ms i\<close> for the \<open>i\<close>-th version it mints, and \<open>times\<close> for the
  connections it opens and closes.
\<close>

section \<open>Membership records\<close>

definition record_to_dict :: "membership_record \<Rightarrow> pdict" where
  "record_to_dict m =
     [(''node_id'', PStr (mr_node m)), (''cluster_id'', opt_str_json (mr_cluster m)), (''address'', PStr (mr_address m)),
      (''version'', version_json (mr_version m)), (''removed'', PBool (mr_removed m))]"

text \<open>A record whose fields have other JSON types than the class declares is malformed here.\<close>

definition record_of_dict :: "pdict \<Rightarrow> membership_record res" where
  "record_of_dict d =
     rbind (case map_of d ''node_id'' of Some (PStr n) \<Rightarrow> Inr n | Some _ \<Rightarrow> Inl (TypeError ''node_id'') | None \<Rightarrow> Inl (KeyError ''node_id'')) (\<lambda>nid.
     rbind (opt_text_of_json (dget d ''cluster_id'')) (\<lambda>cid.
     rbind (case dget_or d ''address'' (PStr []) of PStr a \<Rightarrow> Inr a | _ \<Rightarrow> Inl (TypeError ''address'')) (\<lambda>addr.
     rbind (case map_of d ''version'' of Some v \<Rightarrow> version_of_json v | None \<Rightarrow> Inl (KeyError ''version'')) (\<lambda>ver.
       Inr \<lparr>mr_node = nid, mr_cluster = cid, mr_address = addr, mr_version = ver,
            mr_removed = truthy (dget_or d ''removed'' (PBool False))\<rparr>))))"

section \<open>Identity and persistence\<close>

definition own_cluster :: "cluster_store \<Rightarrow> string option" where
  "own_cluster s = (case map_of (cs_roster s) (cs_node s) of None \<Rightarrow> None | Some own \<Rightarrow> mr_cluster own)"

definition set_record :: "membership_record \<Rightarrow> cluster_store \<Rightarrow> cluster_store" where
  "set_record m s = s\<lparr>cs_roster := AList.update (mr_node m) m (cs_roster s)\<rparr>"

definition my_record :: "node_env \<Rightarrow> int \<Rightarrow> cluster_store \<Rightarrow> membership_record \<times> cluster_store" where
  "my_record env now_ms s =
     (case map_of (cs_roster s) (cs_node s) of
        Some own \<Rightarrow> (own, s)
      | None \<Rightarrow>
          (let (ver, s') = next_version now_ms s;
               own = \<lparr>mr_node = cs_node s, mr_cluster = None, mr_address = ne_advertise env, mr_version = ver, mr_removed = False\<rparr>
           in (own, set_record own s')))"

definition persist :: "cluster_store \<Rightarrow> cluster_store" where
  "persist s =
     (let own = map_of (cs_roster s) (cs_node s);
          cid = (case own of None \<Rightarrow> None | Some m \<Rightarrow> mr_cluster m);
          records = map record_to_dict (filter (\<lambda>m. mr_node m \<noteq> cs_node s \<and> mr_cluster m = cid) (map snd (cs_roster s)))
      in save_state (s\<lparr>cs_state := (cs_state s)\<lparr>cluster_id := cid, last_roster := records,
           my_membership_version := map_option mr_version own\<rparr>\<rparr>))"

definition gc_membership :: "node_env \<Rightarrow> int \<Rightarrow> cluster_store \<Rightarrow> nat \<times> cluster_store" where
  "gc_membership env now_ms s =
     (let stale = (\<lambda>(n, m). mr_removed m \<and> now_ms - fst (mr_version m) > retention_ms (ne_config env))
      in (length (filter stale (cs_roster s)), s\<lparr>cs_roster := filter (\<lambda>p. \<not> stale p) (cs_roster s)\<rparr>))"

text \<open>
  One entry of \<open>last_roster\<close> in \<open>_init_from_state\<close>: a record, or the legacy hint of node id and address.
\<close>

definition seed_record :: "string \<Rightarrow> pdict \<Rightarrow> membership_record option" where
  "seed_record cid d =
     (if map_of d ''version'' \<noteq> None then (case record_of_dict d of Inl _ \<Rightarrow> None | Inr m \<Rightarrow> Some m)
      else (case (dget d ''node_id'', dget_or d ''address'' (PStr [])) of
              (PStr nid, PStr addr) \<Rightarrow> if nid = [] then None
                else Some \<lparr>mr_node = nid, mr_cluster = Some cid, mr_address = addr, mr_version = (0, nid), mr_removed = False\<rparr>
            | _ \<Rightarrow> None))"

definition seed_one :: "string \<Rightarrow> pdict \<Rightarrow> cluster_store \<Rightarrow> cluster_store" where
  "seed_one cid d s =
     (case seed_record cid d of
        None \<Rightarrow> s
      | Some m \<Rightarrow> if mr_node m \<noteq> cs_node s \<and> map_of (cs_roster s) (mr_node m) = None then set_record m s else s)"

definition init_from_state :: "node_env \<Rightarrow> int \<Rightarrow> int \<Rightarrow> cluster_store \<Rightarrow> cluster_store" where
  "init_from_state env mint_ms now_ms s =
     (case cluster_id (cs_state s) of
        None \<Rightarrow> s
      | Some cid \<Rightarrow>
          (let (ver, s1) = (case my_membership_version (cs_state s) of
                 Some mmv \<Rightarrow> (mmv, observe_version (fst mmv) s)
               | None \<Rightarrow> next_version mint_ms s);
               s2 = set_record \<lparr>mr_node = cs_node s, mr_cluster = Some cid, mr_address = ne_advertise env,
                                mr_version = ver, mr_removed = False\<rparr> s1
           in snd (gc_membership env now_ms (fold (seed_one cid) (last_roster (cs_state s2)) s2))))"

section \<open>Inbound merge\<close>

definition become_standalone :: "node_env \<Rightarrow> (nat \<Rightarrow> rat) \<Rightarrow> cluster_store \<Rightarrow> cluster_store" where
  "become_standalone env tick s =
     (let members = filter (\<lambda>n. n \<noteq> cs_node s) (map (mr_node \<circ> snd) (cs_roster s))
      in persist (disconnect_all env tick 0 members (s\<lparr>cs_roster := []\<rparr>)))"

text \<open>The effect of one record on the overlay.\<close>

definition merge_one :: "membership_record \<Rightarrow> cluster_store \<Rightarrow> cluster_store" where
  "merge_one m s =
     (if version_newer (mr_version m) (map_option mr_version (map_of (cs_roster s) (mr_node m))) \<and> mr_node m \<noteq> cs_node s
      then set_record m s else s)"

fun merge_loop :: "pdict list \<Rightarrow> bool \<times> bool \<Rightarrow> cluster_store \<Rightarrow> (bool \<times> bool) \<times> cluster_store" where
  "merge_loop [] flags s = (flags, s)"
| "merge_loop (d # ds) (changed, evicted_self) s =
     (case record_of_dict d of
        Inl _ \<Rightarrow> merge_loop ds (changed, evicted_self) s
      | Inr m \<Rightarrow>
          if \<not> version_newer (mr_version m) (map_option mr_version (map_of (cs_roster s) (mr_node m)))
          then merge_loop ds (changed, evicted_self) s
          else if mr_node m = cs_node s then merge_loop ds (changed, evicted_self \<or> mr_removed m) s
          else merge_loop ds (True, evicted_self) (set_record m s))"

definition merge_records :: "node_env \<Rightarrow> (nat \<Rightarrow> rat) \<Rightarrow> pdict list \<Rightarrow> cluster_store \<Rightarrow> bool \<times> cluster_store" where
  "merge_records env tick records s =
     (case merge_loop records (False, False) s of
        ((changed, evicted_self), s') \<Rightarrow>
          if evicted_self then (True, become_standalone env tick s')
          else if changed then (True, persist s') else (False, s'))"

section \<open>Delta anti-entropy\<close>

definition version_map :: "cluster_store \<Rightarrow> (string \<times> version) list" where
  "version_map s = map (\<lambda>(n, m). (n, mr_version m)) (cs_roster s)"

definition records_for :: "string list \<Rightarrow> cluster_store \<Rightarrow> pdict list" where
  "records_for ns s = List.map_filter (\<lambda>n. map_option record_to_dict (map_of (cs_roster s) n)) ns"

definition serve_set_digest :: "node_env \<Rightarrow> string \<Rightarrow> string option \<Rightarrow> cluster_store \<Rightarrow> (string \<times> version) list" where
  "serve_set_digest env from_node token s = (if authed env s from_node token then version_map s else [])"

definition serve_set_pull :: "node_env \<Rightarrow> string \<Rightarrow> string list \<Rightarrow> string option \<Rightarrow> cluster_store \<Rightarrow> pdict list" where
  "serve_set_pull env from_node ns token s = (if authed env s from_node token then records_for ns s else [])"

definition serve_set_sync ::
  "node_env \<Rightarrow> (nat \<Rightarrow> rat) \<Rightarrow> string \<Rightarrow> pdict list \<Rightarrow> string option \<Rightarrow> cluster_store \<Rightarrow> bool \<times> cluster_store" where
  "serve_set_sync env tick from_node records token s =
     (if authed env s from_node token then (True, snd (merge_records env tick records s)) else (False, s))"

text \<open>\<open>try: m  except TransportError as exc: h(exc)\<close>, continuing with the result.\<close>

definition on_transport_error :: "('s, 'a) io \<Rightarrow> (string \<Rightarrow> ('s, 'b) io) \<Rightarrow> ('a \<Rightarrow> ('s, 'b) io) \<Rightarrow> ('s, 'b) io" where
  "on_transport_error m h f = (\<lambda>x. case m x of
     (Inr v, x') \<Rightarrow> f v x'
   | (Inl e, x') \<Rightarrow> (case e of TransportError msg \<Rightarrow> h msg x' | _ \<Rightarrow> (Inl e, x')))"

definition reconcile_with :: "'w transport \<Rightarrow> node_env \<Rightarrow> (nat \<Rightarrow> rat) \<Rightarrow> peer \<Rightarrow> ('w net, unit) io" where
  "reconcile_with tr env tick p = (\<lambda>x.
     if own_cluster (fst x) = None then (Inr (), x)
     else on_transport_error (tr_set_digest tr (peer_address p) (cs_node (fst x)) (peer_token p)) (\<lambda>_. io_return ()) (\<lambda>remote (s, w).
       let want = map fst (filter (\<lambda>(n, rv). version_newer rv (map_of (version_map s) n)) remote)
       in if want = [] then (Inr (), (s, w))
          else on_transport_error (tr_set_pull tr (peer_address p) (cs_node s) want (peer_token p)) (\<lambda>_. io_return ())
            (\<lambda>recs (s, w). (Inr (), (snd (merge_records env tick recs s), w))) (s, w)) x)"

section \<open>Pushes\<close>

definition session_token :: "cluster_store \<Rightarrow> string \<Rightarrow> string option" where
  "session_token s nid = (case find (\<lambda>p. peer_node p = nid) (map snd (cs_sessions s)) of None \<Rightarrow> None | Some p \<Rightarrow> peer_token p)"

definition push_targets :: "cluster_store \<Rightarrow> (string \<times> string) list" where
  "push_targets s = map (\<lambda>m. (mr_node m, mr_address m)) (filter (\<lambda>m. mr_node m \<noteq> cs_node s \<and> \<not> mr_removed m
     \<and> mr_cluster m = own_cluster s \<and> mr_address m \<noteq> []) (map snd (cs_roster s)))"

definition push_to_roster :: "'w transport \<Rightarrow> pdict list \<Rightarrow> 'w net \<Rightarrow> 'w net" where
  "push_to_roster tr records x =
     fan_out (map (\<lambda>(nid, addr) (s, w). tr_set_sync tr addr (cs_node s) records (session_token s nid) (s, w)) (push_targets (fst x))) x"

definition push_own :: "'w transport \<Rightarrow> node_env \<Rightarrow> int \<Rightarrow> 'w net \<Rightarrow> 'w net" where
  "push_own tr env now_ms x =
     (let (own, s) = my_record env now_ms (fst x) in push_to_roster tr [record_to_dict own] (s, snd x))"

section \<open>Connections\<close>

definition desired_peers :: "cluster_store \<Rightarrow> (string \<times> string) list" where
  "desired_peers s =
     (case own_cluster s of
        None \<Rightarrow> []
      | Some cid \<Rightarrow> dict_add (map (\<lambda>m. (mr_node m, mr_address m)) (filter (\<lambda>m. mr_node m \<noteq> cs_node s \<and> mr_cluster m = Some cid
          \<and> \<not> mr_removed m \<and> mr_address m \<noteq> []) (map snd (cs_roster s)))) [])"

definition is_removed_or_absent :: "cluster_store \<Rightarrow> string \<Rightarrow> bool" where
  "is_removed_or_absent s nid =
     (case map_of (cs_roster s) nid of None \<Rightarrow> True | Some m \<Rightarrow> mr_removed m \<or> mr_cluster m \<noteq> own_cluster s)"

text \<open>The clock readings of the \<open>i\<close>-th connection attempt and of the \<open>i\<close>-th disconnection.\<close>

record times =
  tm_now :: "nat \<Rightarrow> rat"
  tm_clk :: "nat \<Rightarrow> nat \<Rightarrow> int"
  tm_tick :: "nat \<Rightarrow> nat \<Rightarrow> rat"
  tm_drop :: "nat \<Rightarrow> rat"

fun connect_missing :: "'w transport \<Rightarrow> node_env \<Rightarrow> times \<Rightarrow> string list \<Rightarrow> nat \<Rightarrow> (string \<times> string) list \<Rightarrow> 'w net \<Rightarrow> 'w net" where
  "connect_missing tr env tm actual i [] x = x"
| "connect_missing tr env tm actual i ((nid, addr) # ds) x =
     (if nid \<in> set actual then connect_missing tr env tm actual i ds x
      else connect_missing tr env tm actual (Suc i) ds
        (snd (connect_peer tr env (tm_now tm i) (tm_clk tm i) (tm_tick tm i) addr [] None x)))"

fun drop_removed :: "node_env \<Rightarrow> times \<Rightarrow> nat \<Rightarrow> string list \<Rightarrow> cluster_store \<Rightarrow> cluster_store" where
  "drop_removed env tm i [] s = s"
| "drop_removed env tm i (nid # nids) s =
     (if is_removed_or_absent s nid then drop_removed env tm (Suc i) nids (snd (disconnect_peer env (tm_drop tm i) nid s))
      else drop_removed env tm i nids s)"

definition reconcile_connections :: "'w transport \<Rightarrow> node_env \<Rightarrow> times \<Rightarrow> 'w net \<Rightarrow> 'w net" where
  "reconcile_connections tr env tm x =
     (if own_cluster (fst x) = None then x
      else (let desired = desired_peers (fst x);
                actual = map (peer_node \<circ> snd) (cs_sessions (fst x));
                (s, w) = connect_missing tr env tm actual 0 desired x
            in (drop_removed env tm 0 (filter (\<lambda>n. n \<notin> fst ` set desired) actual) s, w)))"

section \<open>Control plane\<close>

datatype set_result =
    SetOk string
  | SetError "string option" string

text \<open>\<open>members\<close> are the \<open>address\<close> values of the request; \<open>gen\<close> is a fresh cluster id.\<close>

fun add_loop ::
  "'w transport \<Rightarrow> node_env \<Rightarrow> (nat \<Rightarrow> int) \<Rightarrow> string \<Rightarrow> pdict list \<Rightarrow> string option \<Rightarrow> nat \<Rightarrow> string option list \<Rightarrow> ('w net, set_result list) io" where
  "add_loop tr env ms cid snapshot token i [] x = (Inr [], x)"
| "add_loop tr env ms cid snapshot token i (addr # addrs) x =
     (let continue = (\<lambda>res x. io_bind (add_loop tr env ms cid snapshot token (Suc i) addrs) (\<lambda>rs. io_return (res # rs)) x) in
      case addr of None \<Rightarrow> continue (SetError addr ''address required'') x | Some a \<Rightarrow>
      if a = [] then continue (SetError addr ''address required'') x
      else on_transport_error
        (tr_join tr a \<lparr>jn_cluster = cid, jn_roster = snapshot, jn_token = token, jn_from = cs_node (fst x), jn_address = ne_advertise env\<rparr>)
        (\<lambda>msg. continue (SetError addr (''unreachable: '' @ msg)))
        (\<lambda>resp (s, w).
           if \<not> jr_accepted resp then continue (SetError addr (jr_error resp)) (s, w)
           else (let (ver, s') = (case jr_version resp of Some v \<Rightarrow> (v, s) | None \<Rightarrow> next_version (ms i) s)
                 in continue (SetOk (jr_node resp)) (set_record \<lparr>mr_node = jr_node resp, mr_cluster = Some cid, mr_address = a,
                      mr_version = ver, mr_removed = False\<rparr> s', w))) x)"

definition form_cluster :: "node_env \<Rightarrow> int \<Rightarrow> string \<Rightarrow> cluster_store \<Rightarrow> cluster_store" where
  "form_cluster env now_ms gen s =
     (if own_cluster s \<noteq> None then s
      else (let (ver, s') = next_version now_ms s
            in set_record \<lparr>mr_node = cs_node s, mr_cluster = Some gen, mr_address = ne_advertise env, mr_version = ver, mr_removed = False\<rparr> s'))"

definition set_add ::
  "'w transport \<Rightarrow> node_env \<Rightarrow> int \<Rightarrow> (nat \<Rightarrow> int) \<Rightarrow> times \<Rightarrow> string \<Rightarrow> string option list \<Rightarrow> string option
    \<Rightarrow> ('w net, string option \<times> set_result list) io" where
  "set_add tr env now_ms ms tm gen members token = (\<lambda>(s, w).
     let s1 = form_cluster env now_ms gen s;
         cid = the (own_cluster s1);
         snapshot = map record_to_dict (filter (\<lambda>m. \<not> mr_removed m) (map snd (cs_roster s1))) in
     io_bind (add_loop tr env ms cid snapshot token 0 members) (\<lambda>results (s, w).
       let (s2, w2) = reconcile_connections tr env tm (persist s, w);
           x3 = push_to_roster tr (map (record_to_dict \<circ> snd) (cs_roster s2)) (s2, w2)
       in (Inr (own_cluster (fst x3), results), x3)) (s1, w))"

definition removal :: "string \<Rightarrow> string option \<Rightarrow> string \<Rightarrow> version \<Rightarrow> membership_record" where
  "removal nid cid addr ver = \<lparr>mr_node = nid, mr_cluster = cid, mr_address = addr, mr_version = ver, mr_removed = True\<rparr>"

text \<open>\<open>members\<close> are the pairs \<open>node_id\<close>, \<open>address\<close> of the request, empty when absent.\<close>

fun remove_loop ::
  "'w transport \<Rightarrow> node_env \<Rightarrow> (nat \<Rightarrow> int) \<Rightarrow> (nat \<Rightarrow> rat) \<Rightarrow> nat \<Rightarrow> (string \<times> string) list
    \<Rightarrow> ('w net, set_result list \<times> pdict list) io" where
  "remove_loop tr env ms tick i [] x = (Inr ([], []), x)"
| "remove_loop tr env ms tick i ((nid, given) # ns) (s, w) =
     (if nid = [] then io_bind (remove_loop tr env ms tick (Suc i) ns) (\<lambda>(rs, ts). io_return (SetError None ''node_id required'' # rs, ts)) (s, w)
      else (let cur = map_of (cs_roster s) nid;
                addr = (case cur of Some m \<Rightarrow> mr_address m | None \<Rightarrow> given);
                (ver, s1) = next_version_after (ms i) (case cur of Some m \<Rightarrow> fst (mr_version m) | None \<Rightarrow> 0) s;
                tomb = removal nid (own_cluster s1) addr ver;
                s2 = set_record tomb s1;
                continue = (\<lambda>(s, w). io_bind (remove_loop tr env ms tick (Suc i) ns)
                  (\<lambda>(rs, ts). io_return (SetOk nid # rs, record_to_dict tomb # ts)) (snd (disconnect_peer env (tick i) nid s), w))
            in on_transport_error (tr_evict tr addr (cs_node s2) (own_cluster s2) (session_token s2 nid)) (\<lambda>_. continue) (\<lambda>_. continue) (s2, w)))"

definition set_remove ::
  "'w transport \<Rightarrow> node_env \<Rightarrow> (nat \<Rightarrow> int) \<Rightarrow> (nat \<Rightarrow> rat) \<Rightarrow> (string \<times> string) list \<Rightarrow> ('w net, set_result list) io" where
  "set_remove tr env ms tick members =
     io_bind (remove_loop tr env ms tick 0 members) (\<lambda>(results, tombs) (s, w).
       (Inr results, if tombs = [] then (persist s, w) else push_to_roster tr tombs (persist s, w)))"

definition show_cluster :: "cluster_store \<Rightarrow> string option \<times> string \<times> (string \<times> string \<times> bool) list" where
  "show_cluster s =
     (let live = map (peer_node \<circ> snd) (cs_sessions s) in
      (own_cluster s, cs_node s, map (\<lambda>m. (mr_node m, mr_address m, mr_node m \<in> set live \<or> mr_node m = cs_node s))
        (filter (\<lambda>m. \<not> mr_removed m) (map snd (cs_roster s)))))"

section \<open>Adoption and leaving\<close>

text \<open>\<open>leave_old\<close> tells each old member; an exception other than \<open>TransportError\<close> ends it.\<close>

fun notify_leave :: "'w transport \<Rightarrow> (string \<times> string) list \<Rightarrow> ('w net, unit) io" where
  "notify_leave tr [] x = (Inr (), x)"
| "notify_leave tr ((nid, addr) # ms) x =
     on_transport_error (tr_evict_self tr addr (cs_node (fst x)) (session_token (fst x) nid)) (\<lambda>_. notify_leave tr ms) (\<lambda>_. notify_leave tr ms) x"

definition leave_old :: "'w transport \<Rightarrow> node_env \<Rightarrow> (nat \<Rightarrow> rat) \<Rightarrow> string \<Rightarrow> ('w net, unit) io" where
  "leave_old tr env tick old = (\<lambda>(s, w).
     let members = map (\<lambda>m. (mr_node m, mr_address m))
           (filter (\<lambda>m. mr_node m \<noteq> cs_node s \<and> mr_cluster m = Some old \<and> \<not> mr_removed m) (map snd (cs_roster s)))
     in io_bind (notify_leave tr members) (\<lambda>_ (s, w).
          let s1 = disconnect_all env tick 0 (map fst members) s
          in (Inr (), (s1\<lparr>cs_roster := filter (\<lambda>(n, m). n = cs_node s1 \<or> mr_cluster m \<noteq> Some old) (cs_roster s1)\<rparr>, w))) (s, w))"

definition adopt ::
  "'w transport \<Rightarrow> node_env \<Rightarrow> int \<Rightarrow> int \<Rightarrow> (nat \<Rightarrow> rat) \<Rightarrow> (nat \<Rightarrow> rat) \<Rightarrow> times \<Rightarrow> string \<Rightarrow> pdict list \<Rightarrow> ('w net, join_response) io" where
  "adopt tr env now_ms push_ms leave_tick merge_tick tm cid roster = (\<lambda>x.
     io_bind (case own_cluster (fst x) of None \<Rightarrow> io_return () | Some old \<Rightarrow> if old \<noteq> cid then leave_old tr env leave_tick old else io_return ())
       (\<lambda>_ (s, w).
          let (ver, s1) = next_version now_ms s;
              s2 = set_record \<lparr>mr_node = cs_node s, mr_cluster = Some cid, mr_address = ne_advertise env, mr_version = ver, mr_removed = False\<rparr> s1;
              s3 = persist (snd (merge_records env merge_tick roster s2));
              x4 = push_own tr env push_ms (reconcile_connections tr env tm (s3, w))
          in (Inr \<lparr>jr_accepted = True, jr_error = [], jr_node = cs_node (fst x4), jr_version = Some ver\<rparr>, x4)) x)"

definition join_authorized :: "node_env \<Rightarrow> string option \<Rightarrow> bool" where
  "join_authorized env token =
     (case ne_auth env of None \<Rightarrow> True
      | Some auth \<Rightarrow> (case token of None \<Rightarrow> False
          | Some t \<Rightarrow> t \<noteq> [] \<and> (case auth t of None \<Rightarrow> False | Some ctx \<Rightarrow> ctx_admin ctx)))"

definition join_refused :: "string \<Rightarrow> join_response" where
  "join_refused msg = \<lparr>jr_accepted = False, jr_error = msg, jr_node = [], jr_version = None\<rparr>"

definition handle_join ::
  "'w transport \<Rightarrow> node_env \<Rightarrow> int \<Rightarrow> int \<Rightarrow> (nat \<Rightarrow> rat) \<Rightarrow> (nat \<Rightarrow> rat) \<Rightarrow> times \<Rightarrow> join_request \<Rightarrow> ('w net, join_response) io" where
  "handle_join tr env now_ms push_ms leave_tick merge_tick tm body =
     (if \<not> join_authorized env (jn_token body) then io_return (join_refused ''unauthorized'')
      else if jn_cluster body = [] then io_return (join_refused ''cluster_id required'')
      else adopt tr env now_ms push_ms leave_tick merge_tick tm (jn_cluster body) (jn_roster body))"

definition handle_evict_self ::
  "'w transport \<Rightarrow> node_env \<Rightarrow> int \<Rightarrow> rat \<Rightarrow> string \<Rightarrow> string option \<Rightarrow> 'w net \<Rightarrow> bool \<times> 'w net" where
  "handle_evict_self tr env now_ms now nid token x =
     (if nid = [] \<or> \<not> authed env (fst x) nid token then (False, x)
      else (let s = fst x;
                cur = map_of (cs_roster s) nid;
                (ver, s1) = next_version_after now_ms (case cur of Some m \<Rightarrow> fst (mr_version m) | None \<Rightarrow> 0) s;
                tomb = (case cur of Some m \<Rightarrow> removal nid (mr_cluster m) (mr_address m) ver
                                  | None \<Rightarrow> removal nid (own_cluster s1) [] ver);
                s2 = persist (snd (disconnect_peer env now nid (set_record tomb s1)))
            in (True, push_to_roster tr [record_to_dict tomb] (s2, snd x))))"

definition handle_evicted :: "node_env \<Rightarrow> (nat \<Rightarrow> rat) \<Rightarrow> string \<Rightarrow> string option \<Rightarrow> cluster_store \<Rightarrow> bool \<times> cluster_store" where
  "handle_evicted env tick from_node token s =
     (if \<not> authed env s from_node token then (False, s) else (True, become_standalone env tick s))"

section \<open>The roster is a last-writer-wins replica\<close>

lemma record_roundtrip [simp]: "record_of_dict (record_to_dict m) = Inr m"
  by (cases m; cases "mr_cluster m") (auto simp: record_of_dict_def record_to_dict_def opt_text_of_json_def opt_str_json_def)

lemma set_record_frame [simp]:
  "cs_state (set_record m s) = cs_state s" "cs_foreign (set_record m s) = cs_foreign s" "cs_sessions (set_record m s) = cs_sessions s"
  "cs_evicted (set_record m s) = cs_evicted s" "cs_disk (set_record m s) = cs_disk s"
  "map_of (cs_roster (set_record m s)) = (map_of (cs_roster s))(mr_node m \<mapsto> m)"
  by (simp_all add: set_record_def)

lemma merge_one_frame [simp]:
  "cs_state (merge_one m s) = cs_state s" "cs_foreign (merge_one m s) = cs_foreign s" "cs_sessions (merge_one m s) = cs_sessions s"
  "cs_evicted (merge_one m s) = cs_evicted s" "cs_disk (merge_one m s) = cs_disk s"
  by (simp_all add: merge_one_def)

lemma fold_merge_frame [simp]:
  "cs_state (fold merge_one ms s) = cs_state s" "cs_foreign (fold merge_one ms s) = cs_foreign s"
  "cs_sessions (fold merge_one ms s) = cs_sessions s" "cs_evicted (fold merge_one ms s) = cs_evicted s"
  by (induction ms arbitrary: s) simp_all

definition members :: "cluster_store \<Rightarrow> string \<Rightarrow> membership_record option" where
  "members s = map_of (cs_roster s)"

definition foreign_member :: "cluster_store \<Rightarrow> membership_record \<Rightarrow> bool" where
  "foreign_member s m \<longleftrightarrow> mr_node m \<noteq> cs_node s"

interpretation roster: lww_replica members merge_one mr_node mr_version foreign_member "\<lambda>s. True"
proof unfold_locales
  show "foreign_member (merge_one m s) = foreign_member s" for m s
    by (simp add: fun_eq_iff foreign_member_def)
  show "members (merge_one m s) = (if foreign_member s m \<and> version_newer (mr_version m) (map_option mr_version (members s (mr_node m)))
      then (members s)(mr_node m \<mapsto> m) else members s)" for m s
    by (auto simp: members_def foreign_member_def merge_one_def)
qed simp

text \<open>The loop of \<open>merge\<close> is the fold of the single updates; the own record stays, and an eviction is noticed.\<close>

definition evicts :: "cluster_store \<Rightarrow> membership_record \<Rightarrow> bool" where
  "evicts s m \<longleftrightarrow> mr_node m = cs_node s \<and> mr_removed m \<and> version_newer (mr_version m) (map_option mr_version (members s (cs_node s)))"

lemma merge_one_own [simp]: "members (merge_one m s) (cs_node s) = members s (cs_node s)"
  by (simp add: members_def merge_one_def)

lemma fold_merge_own [simp]: "members (fold merge_one ms s) (cs_node s) = members s (cs_node s)"
proof (induction ms arbitrary: s)
  case (Cons m ms)
  show ?case using Cons [of "merge_one m s"] by simp
qed simp

lemma merge_loop_spec:
  "\<exists>c'. merge_loop (map record_to_dict ms) (c, e) s = ((c', e \<or> (\<exists>m \<in> set ms. evicts s m)), fold merge_one ms s)
     \<and> (c \<longrightarrow> c') \<and> (c' \<or> fold merge_one ms s = s)"
proof (induction ms arbitrary: c e s)
  case (Cons m ms)
  have ev: "evicts (merge_one m s) = evicts s" by (simp add: fun_eq_iff evicts_def)
  consider "\<not> version_newer (mr_version m) (map_option mr_version (map_of (cs_roster s) (mr_node m)))"
    | "version_newer (mr_version m) (map_option mr_version (map_of (cs_roster s) (mr_node m)))" "mr_node m = cs_node s"
    | "version_newer (mr_version m) (map_option mr_version (map_of (cs_roster s) (mr_node m)))" "mr_node m \<noteq> cs_node s" by blast
  then show ?case
  proof cases
    case 1
    then have "merge_one m s = s" "\<not> evicts s m" by (auto simp: merge_one_def evicts_def members_def)
    then show ?thesis using 1 Cons [of c e s] by simp
  next
    case 2
    then have "merge_one m s = s" "evicts s m \<longleftrightarrow> mr_removed m" by (auto simp: merge_one_def evicts_def members_def)
    then show ?thesis using 2 Cons [of c "e \<or> mr_removed m" s] by (simp add: disj_assoc)
  next
    case 3
    then have "merge_one m s = set_record m s" "\<not> evicts s m" by (auto simp: merge_one_def evicts_def)
    then show ?thesis using 3 Cons [of True e "set_record m s"] ev by auto
  qed
qed auto

lemma persist_frame [simp]:
  "cs_roster (persist s) = cs_roster s" "cs_foreign (persist s) = cs_foreign s" "cs_sessions (persist s) = cs_sessions s"
  "cs_evicted (persist s) = cs_evicted s" "cs_node (persist s) = cs_node s"
  "local_versions (cs_state (persist s)) = local_versions (cs_state s)" "tombstones (cs_state (persist s)) = tombstones (cs_state s)"
  "version_clock (cs_state (persist s)) = version_clock (cs_state s)"
  by (simp_all add: persist_def Let_def)

lemma members_persist [simp]: "members (persist s) = members s"
  by (simp add: members_def)

lemma merge_records_spec:
  "snd (merge_records env tick (map record_to_dict ms) s) =
     (if \<exists>m \<in> set ms. evicts s m then become_standalone env tick (fold merge_one ms s)
      else if fst (merge_records env tick (map record_to_dict ms) s) then persist (fold merge_one ms s) else fold merge_one ms s)"
  using merge_loop_spec [of ms False False s] by (auto simp: merge_records_def)

lemma merge_records_members:
  "\<not> (\<exists>m \<in> set ms. evicts s m) \<Longrightarrow> members (snd (merge_records env tick (map record_to_dict ms) s)) = members (fold merge_one ms s)"
  using merge_records_spec [of env tick ms s] by simp

lemma own_cluster_members: "own_cluster s = (case members s (cs_node s) of None \<Rightarrow> None | Some m \<Rightarrow> mr_cluster m)"
  by (simp add: own_cluster_def members_def)

section \<open>Standing alone\<close>

lemma disconnect_frame [simp]:
  "cs_state (snd (disconnect_peer env now n s)) = cs_state s" "cs_roster (snd (disconnect_peer env now n s)) = cs_roster s"
  "cs_disk (snd (disconnect_peer env now n s)) = cs_disk s"
  by (simp_all add: disconnect_peer_def)

lemma disconnect_all_frame [simp]:
  "cs_state (disconnect_all env tick i ns s) = cs_state s" "cs_roster (disconnect_all env tick i ns s) = cs_roster s"
  "cs_disk (disconnect_all env tick i ns s) = cs_disk s"
  by (induction ns arbitrary: i s) simp_all

lemma disconnected:
  "n \<in> set ns \<or> map_of (cs_sessions s) n = None \<Longrightarrow> map_of (cs_sessions (disconnect_all env tick i ns s)) n = None"
  by (induction ns arbitrary: i s) (auto simp: disconnect_peer_def)

lemma disconnected_records:
  assumes "n \<in> set ns \<or> (\<forall>k \<in> fst ` set (cs_foreign s). fst (snd k) \<noteq> n)"
  shows "\<forall>k \<in> fst ` set (cs_foreign (disconnect_all env tick i ns s)). fst (snd k) \<noteq> n"
  using assms
proof (induction ns arbitrary: i s)
  case (Cons a ns)
  have "n \<in> set ns \<or> (\<forall>k \<in> fst ` set (cs_foreign (snd (disconnect_peer env (tick i) a s))). fst (snd k) \<noteq> n)"
    using Cons.prems by (auto simp: disconnect_peer_def)
  from Cons.IH [OF this] show ?case by simp
qed simp

definition roster_ok :: "cluster_store \<Rightarrow> bool" where
  "roster_ok s \<longleftrightarrow> keys_distinct (cs_roster s) \<and> (\<forall>n m. members s n = Some m \<longrightarrow> mr_node m = n)"

lemma fold_merge_roster_ok: "roster_ok s \<Longrightarrow> roster_ok (fold merge_one ms s)"
proof (induction ms arbitrary: s)
  case (Cons m ms)
  have "roster_ok (merge_one m s)" using Cons.prems by (auto simp: roster_ok_def members_def merge_one_def set_record_def)
  then show ?case using Cons.IH by simp
qed simp

lemma standalone_spec:
  assumes "roster_ok s"
  shows "cs_roster (become_standalone env tick s) = []" "own_cluster (become_standalone env tick s) = None"
    "cluster_id (cs_state (become_standalone env tick s)) = None" "last_roster (cs_state (become_standalone env tick s)) = []"
    and "members s n \<noteq> None \<Longrightarrow> n \<noteq> cs_node s \<Longrightarrow> map_of (cs_sessions (become_standalone env tick s)) n = None
      \<and> (\<forall>k \<in> fst ` set (cs_foreign (become_standalone env tick s)). fst (snd k) \<noteq> n)"
proof -
  let ?ns = "filter (\<lambda>n. n \<noteq> cs_node s) (map (mr_node \<circ> snd) (cs_roster s))"
  let ?d = "disconnect_all env tick 0 ?ns (s\<lparr>cs_roster := []\<rparr>)"
  have b: "become_standalone env tick s = persist ?d" by (simp add: become_standalone_def Let_def)
  show "cs_roster (become_standalone env tick s) = []" by (simp add: b)
  then show "own_cluster (become_standalone env tick s) = None" by (simp add: own_cluster_def)
  show "cluster_id (cs_state (become_standalone env tick s)) = None" "last_roster (cs_state (become_standalone env tick s)) = []"
    by (simp_all add: b persist_def Let_def)
  assume n: "members s n \<noteq> None" "n \<noteq> cs_node s"
  then obtain m where m: "members s n = Some m" by blast
  then have "(n, m) \<in> set (cs_roster s)" "mr_node m = n"
    using assms by (auto simp: roster_ok_def members_def dest: map_of_SomeD)
  then have "n \<in> set ?ns" using n(2) by force
  then show "map_of (cs_sessions (become_standalone env tick s)) n = None
      \<and> (\<forall>k \<in> fst ` set (cs_foreign (become_standalone env tick s)). fst (snd k) \<noteq> n)"
    using disconnected [of n ?ns] disconnected_records [of n ?ns] by (simp add: b)
qed

section \<open>Removals\<close>

lemma next_version_after_frame [simp]:
  "cs_roster (snd (next_version_after now fl s)) = cs_roster s" "cs_node (snd (next_version_after now fl s)) = cs_node s"
  "cs_sessions (snd (next_version_after now fl s)) = cs_sessions s" "cs_foreign (snd (next_version_after now fl s)) = cs_foreign s"
  by (simp_all add: next_version_after_def Let_def)

text \<open>A removal minted past the current record is accepted by every replica whose record is not newer than it.\<close>

lemma removal_accepted:
  assumes v: "next_version_after now (case members s n of Some m \<Rightarrow> fst (mr_version m) | None \<Rightarrow> 0) s = (ver, s')"
    and other: "n \<noteq> cs_node r" "members r n = members s n \<or> members r n = None"
  shows "members (merge_one (removal n cid addr ver) r) n = Some (removal n cid addr ver)"
    and "is_removed_or_absent (merge_one (removal n cid addr ver) r) n"
proof -
  have "version_newer ver (map_option mr_version (members s n))"
    using next_version_after_spec(2) [OF v] by (cases "members s n") (auto simp: ver_less_def)
  then have newer: "version_newer ver (map_option mr_version (members r n))" using other(2) by auto
  then show *: "members (merge_one (removal n cid addr ver) r) n = Some (removal n cid addr ver)"
    using other(1) by (simp add: members_def merge_one_def removal_def)
  show "is_removed_or_absent (merge_one (removal n cid addr ver) r) n"
    using * by (simp add: is_removed_or_absent_def members_def removal_def)
qed

lemma evict_self_state:
  assumes "n \<noteq> []" "authed env s n token"
    and v: "next_version_after now_ms (case members s n of Some m \<Rightarrow> fst (mr_version m) | None \<Rightarrow> 0) s = (ver, s1)"
  defines "tomb \<equiv> (case members s n of Some m \<Rightarrow> removal n (mr_cluster m) (mr_address m) ver | None \<Rightarrow> removal n (own_cluster s) [] ver)"
  shows "handle_evict_self tr env now_ms now n token (s, w) =
    (True, push_to_roster tr [record_to_dict tomb] (persist (snd (disconnect_peer env now n (set_record tomb s1))), w))"
proof -
  have "s1 = snd (next_version_after now_ms (case members s n of Some m \<Rightarrow> fst (mr_version m) | None \<Rightarrow> 0) s)" using v by simp
  then have "own_cluster s1 = own_cluster s" by (simp add: own_cluster_def)
  then show ?thesis using assms by (cases "members s n") (simp_all add: handle_evict_self_def Let_def members_def)
qed

section \<open>Restart\<close>

lemma seed_record_dict [simp]: "seed_record cid (record_to_dict m) = Some m"
  by (simp add: seed_record_def) (simp add: record_to_dict_def)

lemma seed_one_dict: "seed_one cid (record_to_dict m) s =
    (if mr_node m \<noteq> cs_node s \<and> members s (mr_node m) = None then set_record m s else s)"
  by (simp add: seed_one_def members_def)

lemma seed_fold:
  assumes "distinct (map mr_node ms)"
  shows "members (fold (seed_one cid) (map record_to_dict ms) s) n =
      (case members s n of Some m \<Rightarrow> Some m
       | None \<Rightarrow> if n = cs_node s then None else map_of (map (\<lambda>m. (mr_node m, m)) ms) n)"
    and "cs_state (fold (seed_one cid) (map record_to_dict ms) s) = cs_state s"
  using assms
proof (induction ms arbitrary: s)
  case (Cons m ms)
  {
    case 1
    have "map_of (map (\<lambda>m. (mr_node m, m)) ms) (mr_node m) = None"
      using 1 by (auto simp: map_of_eq_None_iff)
    then show ?case using 1 Cons.IH(1) [of "seed_one cid (record_to_dict m) s"]
      by (auto simp: seed_one_dict members_def split: option.splits)
  next
    case 2
    then show ?case using Cons.IH(2) [of "seed_one cid (record_to_dict m) s"] by (simp add: seed_one_dict)
  }
qed (simp_all split: option.splits)

lemma values_by_key:
  "\<forall>x \<in> set xs. mr_node (snd x) = fst x \<Longrightarrow> map (\<lambda>m. (mr_node m, m)) (filter P (map snd xs)) = filter (\<lambda>(k, m). P m) xs"
  by (induction xs) auto

lemma roster_values:
  assumes "roster_ok s"
  shows "map_of (map (\<lambda>m. (mr_node m, m)) (filter P (map snd (cs_roster s)))) n =
      (case members s n of Some m \<Rightarrow> if P m then Some m else None | None \<Rightarrow> None)"
    and "distinct (map mr_node (filter P (map snd (cs_roster s))))"
proof -
  have "mr_node (snd x) = fst x" if "x \<in> set (cs_roster s)" for x
    using assms that by (cases x) (auto simp: roster_ok_def members_def map_of_eq_Some_iff)
  then have f: "map (\<lambda>m. (mr_node m, m)) (filter P (map snd (cs_roster s))) = filter (\<lambda>(k, m). P m) (cs_roster s)"
    by (intro values_by_key) blast
  have d: "keys_distinct (cs_roster s)" using assms by (simp add: roster_ok_def)
  show "map_of (map (\<lambda>m. (mr_node m, m)) (filter P (map snd (cs_roster s)))) n =
      (case members s n of Some m \<Rightarrow> if P m then Some m else None | None \<Rightarrow> None)"
    unfolding f map_of_filter_distinct [OF d] members_def by (simp split: option.splits)
  have "map mr_node (filter P (map snd (cs_roster s))) = map fst (map (\<lambda>m. (mr_node m, m)) (filter P (map snd (cs_roster s))))"
    by (simp add: comp_def)
  then show "distinct (map mr_node (filter P (map snd (cs_roster s))))" unfolding f using d by simp
qed

text \<open>
  A node that persisted its roster and restarts rejoins its cluster with the records of that cluster, but for
  the removals that are past their retention.
\<close>

definition kept_after_restart :: "node_env \<Rightarrow> int \<Rightarrow> string option \<Rightarrow> membership_record \<Rightarrow> bool" where
  "kept_after_restart env now cid m \<longleftrightarrow> mr_cluster m = cid \<and> \<not> (mr_removed m \<and> now - fst (mr_version m) > retention_ms (ne_config env))"

lemma gc_membership_members:
  assumes "keys_distinct (cs_roster s)"
  shows "members (snd (gc_membership env now s)) n = (case members s n of None \<Rightarrow> None
    | Some m \<Rightarrow> if mr_removed m \<and> now - fst (mr_version m) > retention_ms (ne_config env) then None else Some m)"
  using assms by (auto simp: gc_membership_def Let_def members_def map_of_filter_distinct split: option.splits)

lemma seed_fold_distinct: "keys_distinct (cs_roster s) \<Longrightarrow> keys_distinct (cs_roster (fold (seed_one cid) ds s))"
proof (induction ds arbitrary: s)
  case (Cons d ds)
  have "keys_distinct (cs_roster (seed_one cid d s))"
    using Cons.prems by (auto simp: seed_one_def set_record_def split: option.splits)
  then show ?case using Cons.IH by simp
qed simp

lemma observe_frame [simp]:
  "cs_roster (observe_version ms s) = cs_roster s" "cs_node (observe_version ms s) = cs_node s"
  "last_roster (cs_state (observe_version ms s)) = last_roster (cs_state s)"
  by (simp_all add: observe_version_def)

lemma restart_roster:
  assumes ok: "roster_ok s" and own: "members s (cs_node s) = Some own" "mr_cluster own = Some cid"
    and load: "load_or_none (cs_disk (persist s)) = Some s'"
  shows "members (init_from_state env mint now s') n =
    (if n = cs_node s then Some (own\<lparr>mr_address := ne_advertise env, mr_removed := False\<rparr>)
     else case members s n of None \<Rightarrow> None | Some m \<Rightarrow> if kept_after_restart env now (Some cid) m then Some m else None)"
proof -
  let ?P = "\<lambda>m. mr_node m \<noteq> cs_node s \<and> mr_cluster m = Some cid"
  define st where "st = (cs_state s)\<lparr>cluster_id := Some cid, last_roster := map record_to_dict (filter ?P (map snd (cs_roster s))),
    my_membership_version := Some (mr_version own)\<rparr>"
  have o: "map_of (cs_roster s) (cs_node s) = Some own" using own(1) by (simp add: members_def)
  have "persist s = save_state (s\<lparr>cs_state := st\<rparr>)" by (simp add: persist_def Let_def o own(2) st_def)
  then have s': "s' = new_store st (Some (state_to_dict st))"
    using load by (simp add: load_or_none_def save_state_def state_roundtrip)
  define rec where "rec = \<lparr>mr_node = cs_node s, mr_cluster = Some cid, mr_address = ne_advertise env,
    mr_version = mr_version own, mr_removed = False\<rparr>"
  have own_node: "mr_node own = cs_node s" using ok own(1) by (auto simp: roster_ok_def)
  then have rec: "rec = own\<lparr>mr_address := ne_advertise env, mr_removed := False\<rparr>" using own(2) by (simp add: rec_def)
  define s2 where "s2 = set_record rec (observe_version (fst (mr_version own)) s')"
  have i: "init_from_state env mint now s' = snd (gc_membership env now (fold (seed_one cid) (last_roster (cs_state s2)) s2))"
    by (simp add: init_from_state_def s' new_store_def st_def s2_def rec_def Let_def)
  have lr: "last_roster (cs_state s2) = map record_to_dict (filter ?P (map snd (cs_roster s)))"
    by (simp add: s2_def s' new_store_def st_def)
  have m2: "members s2 = [cs_node s \<mapsto> rec]" "cs_node s2 = cs_node s" "keys_distinct (cs_roster s2)"
    by (simp_all add: s2_def members_def s' new_store_def st_def rec_def set_record_def)
  have "members (fold (seed_one cid) (last_roster (cs_state s2)) s2) n =
      (if n = cs_node s then Some rec else case members s n of Some m \<Rightarrow> if ?P m then Some m else None | None \<Rightarrow> None)"
    unfolding lr seed_fold(1) [OF roster_values(2) [OF ok]] roster_values(1) [OF ok] m2(1,2) by auto
  then show ?thesis unfolding i gc_membership_members [OF seed_fold_distinct [OF m2(3)]] rec [symmetric]
    using ok by (auto simp: rec_def kept_after_restart_def roster_ok_def split: option.splits)
qed

section \<open>Rejoining after a removal\<close>

text \<open>A network on which no peer can be reached.\<close>

definition down :: "'w transport" where
  "down =
     \<lparr>tr_open = (\<lambda>addr body x. (Inl (TransportError addr), x)), tr_merkle = (\<lambda>addr from_node ns token x. (Inl (TransportError addr), x)),
      tr_digest = (\<lambda>addr from_node ns token buckets x. (Inl (TransportError addr), x)),
      tr_pull = (\<lambda>addr from_node ks token x. (Inl (TransportError addr), x)),
      tr_updates = (\<lambda>addr from_node raws token x. (Inl (TransportError addr), x)),
      tr_keepalive = (\<lambda>addr from_node token x. (Inl (TransportError addr), x)),
      tr_join = (\<lambda>addr body x. (Inl (TransportError addr), x)), tr_evict = (\<lambda>addr from_node cid token x. (Inl (TransportError addr), x)),
      tr_evict_self = (\<lambda>addr from_node token x. (Inl (TransportError addr), x)),
      tr_set_digest = (\<lambda>addr from_node token x. (Inl (TransportError addr), x)),
      tr_set_pull = (\<lambda>addr from_node ns token x. (Inl (TransportError addr), x)),
      tr_set_sync = (\<lambda>addr from_node rs token x. (Inl (TransportError addr), x))\<rparr>"

lemma down_connect: "connect_missing down env tm actual i ds x = x"
proof (induction ds arbitrary: i)
  case (Cons d ds)
  have "snd (connect_peer down env now clk tick addr [] None x) = x" for now clk tick addr
    by (simp add: connect_peer_def down_def io_bind_def)
  then show ?case using Cons by (cases d) simp
qed simp

lemma down_push: "push_to_roster down rs x = x"
proof -
  have "fold (\<lambda>t x. snd (t x)) (map (\<lambda>(nid, addr) (s, w). tr_set_sync down addr (cs_node s) rs (session_token s nid) (s, w)) ts) x = x" for ts
    by (induction ts) (auto simp: down_def case_prod_beta)
  then show ?thesis by (simp add: push_to_roster_def fan_out_def)
qed

lemma drop_removed_frame [simp]:
  "cs_state (drop_removed env tm i ns s) = cs_state s" "cs_roster (drop_removed env tm i ns s) = cs_roster s"
  by (induction ns arbitrary: i s) simp_all

lemma down_reconcile:
  "\<exists>s'. reconcile_connections down env tm (s, w) = (s', w) \<and> cs_roster s' = cs_roster s \<and> cs_state s' = cs_state s"
  by (auto simp: reconcile_connections_def Let_def down_connect)

text \<open>Joining a cluster on such a network: the own record carries the version just minted.\<close>

lemma adopt_down:
  assumes "own_cluster s = None" "\<not> (\<exists>m \<in> set ms. mr_node m = cs_node s)"
  shows "\<exists>resp s'. adopt down env now push_ms lt mt tm cid (map record_to_dict ms) (s, w) = (Inr resp, (s', w)) \<and> jr_accepted resp
    \<and> cs_node s' = cs_node s \<and> own_cluster s' = Some cid
    \<and> map_option mr_version (members s' (cs_node s)) = Some (fst (next_version now s))"
proof -
  obtain ver s1 where v: "next_version now s = (ver, s1)" by fastforce
  define own where "own = \<lparr>mr_node = cs_node s, mr_cluster = Some cid, mr_address = ne_advertise env, mr_version = ver, mr_removed = False\<rparr>"
  define s2 where "s2 = set_record own s1"
  have n2: "cs_node s2 = cs_node s" using next_version_spec [OF v] by (simp add: s2_def)
  then have noev: "\<not> (\<exists>m \<in> set ms. evicts s2 m)" using assms(2) by (auto simp: evicts_def)
  define s3 where "s3 = persist (snd (merge_records env mt (map record_to_dict ms) s2))"
  have o2: "members s2 (cs_node s) = Some own" by (simp add: s2_def members_def own_def)
  have m3: "members s3 (cs_node s) = Some own" "cs_node s3 = cs_node s"
    using fold_merge_own [of ms s2] o2 n2 merge_records_spec [of env mt ms s2] noev
    by (auto simp: s3_def merge_records_members [OF noev])
  obtain s4 where s4: "reconcile_connections down env tm (s3, w) = (s4, w)" "cs_roster s4 = cs_roster s3" "cs_state s4 = cs_state s3"
    using down_reconcile [of env tm s3 w] by blast
  have m4: "map_of (cs_roster s4) (cs_node s4) = Some own" using m3 s4 by (simp add: members_def)
  have p: "push_own down env push_ms (s4, w) = (s4, w)" using m4 by (simp add: push_own_def my_record_def down_push)
  have "adopt down env now push_ms lt mt tm cid (map record_to_dict ms) (s, w) =
      (Inr \<lparr>jr_accepted = True, jr_error = [], jr_node = cs_node s4, jr_version = Some ver\<rparr>, (s4, w))"
    using assms(1) v s4(1) p by (simp add: adopt_def Let_def own_def [symmetric] s2_def [symmetric] s3_def [symmetric])
  moreover have "cs_node s4 = cs_node s" using s4(3) m3(2) by simp
  moreover have "own_cluster s4 = Some cid" using m4 by (simp add: own_cluster_def own_def)
  moreover have "members s4 (cs_node s) = Some own" using m4 s4(3) m3(2) by (simp add: members_def)
  ultimately show ?thesis using v by (simp add: own_def)
qed

section \<open>Background daemons\<close>

text \<open>
  \<open>sweepers.py\<close>: one pass of the anti-entropy sweeper and of the keepalive monitor. The sweeper swallows
  every exception of a peer's reconciliation.
\<close>

record sweep_times =
  sw_conn :: times
  sw_clk :: "nat \<Rightarrow> nat \<Rightarrow> int"
  sw_tick :: "nat \<Rightarrow> nat \<Rightarrow> rat"
  sw_merge :: "nat \<Rightarrow> nat \<Rightarrow> rat"
  sw_gc :: int
  sw_prune :: rat
  sw_gc_members :: int

fun sweep_peers :: "'w transport \<Rightarrow> node_env \<Rightarrow> sweep_times \<Rightarrow> nat \<Rightarrow> peer list \<Rightarrow> 'w net \<Rightarrow> 'w net" where
  "sweep_peers tr env sw i [] x = x"
| "sweep_peers tr env sw i (p # ps) x = sweep_peers tr env sw (Suc i) ps
     (snd (io_bind (reconcile tr env (sw_clk sw i) (sw_tick sw i) p) (\<lambda>_. reconcile_with tr env (sw_merge sw i) p) x))"

definition anti_entropy_tick :: "'w transport \<Rightarrow> node_env \<Rightarrow> sweep_times \<Rightarrow> 'w net \<Rightarrow> 'w net" where
  "anti_entropy_tick tr env sw x =
     (let x1 = reconcile_connections tr env (sw_conn sw) x;
          (s, w) = sweep_peers tr env sw 0 (map snd (cs_sessions (fst x1))) x1;
          s1 = snd (gc_tombstones env (sw_gc sw) s);
          s2 = prune_suppression (sw_prune sw) s1
      in (snd (gc_membership env (sw_gc_members sw) s2), w))"

definition keepalive_tick :: "'w transport \<Rightarrow> node_env \<Rightarrow> rat \<Rightarrow> (nat \<Rightarrow> rat) \<Rightarrow> 'w net \<Rightarrow> 'w net" where
  "keepalive_tick tr env now tick x =
     (let (s, w) = emit_keepalive tr x in (snd (check_hold env now tick s), w))"

end
