(* ===== verification/ClusterDemo.thy ===== *)
theory ClusterDemo
  imports Membership
begin

text \<open>
  Two concrete registry nodes, on which the hypotheses of the cluster properties hold: node \<open>A\<close> hosts one
  service in a protected dataset, node \<open>B\<close> hosts nothing and has a session with \<open>A\<close>. The codec is a reading
  and writing of the fields of an envelope.
\<close>

definition demo_dump :: "sync_envelope \<Rightarrow> pdict" where
  "demo_dump e = [(''dataset'', PStr (env_dataset e)), (''service_id'', PStr (env_service e)), (''origin_id'', PStr (env_origin e)),
     (''version'', version_json (env_version e)), (''tombstone'', PBool (env_tombstone e)),
     (''payload'', case env_payload e of None \<Rightarrow> PNone | Some d \<Rightarrow> PDict d)]"

definition demo_validate :: "pdict \<Rightarrow> sync_envelope res" where
  "demo_validate d =
     (case (dget d ''dataset'', dget d ''service_id'', dget d ''origin_id'', version_of_json (dget d ''version''), dget d ''tombstone'') of
        (PStr ds, PStr sid, PStr origin, Inr v, PBool t) \<Rightarrow>
          Inr \<lparr>env_dataset = ds, env_service = sid, env_origin = origin, env_version = v, env_tombstone = t,
               env_payload = (case dget d ''payload'' of PDict p \<Rightarrow> Some p | _ \<Rightarrow> None)\<rparr>
      | _ \<Rightarrow> Inl (ValueError ''validation error''))"

definition demo_view :: registry_view where
  "demo_view = \<lparr>rg_datasets = [''d''], rg_entries = (\<lambda>ds. if ds = ''d'' then [(''s'', ''api_config'')] else []), rg_services = (\<lambda>_. []),
     rg_entry = (\<lambda>ds sid. if ds = ''d'' \<and> sid = ''s'' then Some [(''name'', PStr ''svc'')] else None), rg_auth_required = (\<lambda>_. True)\<rparr>"

definition empty_view :: registry_view where
  "empty_view = \<lparr>rg_datasets = [], rg_entries = (\<lambda>_. []), rg_services = (\<lambda>_. []), rg_entry = (\<lambda>_ _. None), rg_auth_required = (\<lambda>_. False)\<rparr>"

definition demo_env :: "registry_view \<Rightarrow> node_env" where
  "demo_env r = \<lparr>ne_config = \<lparr>keepalive_interval = 10, hold_timeout = 30, merkle_buckets = 16\<rparr>, ne_registry = Some r, ne_auth = None,
     ne_advertise = ''http://a'', ne_sha = (\<lambda>_. replicate 32 0), ne_dump = demo_dump, ne_validate = demo_validate\<rparr>"

definition demo_peer :: "string \<Rightarrow> string list \<Rightarrow> peer" where
  "demo_peer n ns = \<lparr>peer_node = n, peer_address = ''http://'' @ n, peer_namespaces = ns, peer_last_seen = 0, peer_token = None\<rparr>"

definition demo_a :: cluster_store where
  "demo_a = new_store (fresh_state ''A'') (Some (state_to_dict (fresh_state ''A'')))"

definition demo_b :: cluster_store where
  "demo_b = open_session (demo_peer ''A'' [''d'']) (new_store (fresh_state ''B'') (Some (state_to_dict (fresh_state ''B''))))"

lemma demo_codec: "demo_validate (demo_dump e) = Inr e"
  by (cases e; cases "env_payload e") (auto simp: demo_validate_def demo_dump_def)

lemma demo_codec_ok: "codec_ok (demo_env r) (demo_env r')"
  by (simp add: codec_ok_def demo_env_def demo_codec)

lemma demo_names: "names_ok demo_view" "names_ok empty_view"
  by (auto simp: names_ok_def demo_view_def empty_view_def local_records_def dataset_records_def)

lemma demo_ok: "node_ok demo_a" "node_ok demo_b"
  using fresh_node_ok open_session_ok by (simp_all add: demo_a_def demo_b_def)

lemma demo_peered: "peered (demo_env demo_view) demo_view demo_a (demo_peer ''B'' [''d'']) (demo_env empty_view) empty_view demo_b"
  using demo_ok demo_names demo_codec_ok unfolding peered_def
  by (simp add: node_ok_def) (simp add: demo_env_def demo_peer_def session_with_def authed_def demo_a_def demo_b_def new_store_def
    open_session_def fresh_state_def)

lemma demo_indexes:
  "full_index (demo_env demo_view) (\<lambda>_. 5) [''d''] demo_a =
     ([((''d'', ''A'', ''s''), (5, ''A''))], ensure_local_versions (demo_env demo_view) (\<lambda>_. 5) demo_a)"
  "fst (allowed_index (demo_env empty_view) clk [''d''] demo_b) = []"
  by (simp_all add: full_index_def local_index_def allowed_index_def ensure_local_versions_def demo_env_def demo_view_def empty_view_def
    demo_a_def demo_b_def demo_peer_def new_store_def open_session_def fresh_state_def local_records_def dataset_records_def Let_def
    next_ts_def save_state_def live_rows_def tomb_rows_def in_scope_def List.map_filter_def make_key_def)

lemma demo_no_collision:
  "no_collision (ne_sha (demo_env demo_view)) (merkle_buckets (ne_config (demo_env demo_view))) [((''d'', ''A'', ''s''), (5, ''A''))] []"
  by (simp add: no_collision_def demo_env_def entry_inputs_def bucket_inputs_def)

lemma demo_unsuppressed: "unsuppressed tick demo_a" "unsuppressed tick demo_b"
  by (simp_all add: unsuppressed_def suppressed_def demo_a_def demo_b_def new_store_def open_session_def)

lemma demo_sort: "sort (remdups (peer_namespaces (demo_peer n [ds]))) = [ds]"
  by (simp add: demo_peer_def)

end
