(* ===== verification/RegistryProperties.thy ===== *)
theory RegistryProperties
  imports Heartbeat ClusterDemo
begin

text \<open>
  The properties of the registry's leases and of its cluster: what a heartbeat guarantees, what replication
  and membership converge to, and two behaviours of the code that go against its documentation.
\<close>

section \<open>Leases and heartbeats\<close>

text \<open>
  C18. A service whose heartbeat was accepted keeps its lease for its period and grace after it, whatever other
  services do and however often the table is swept, unless its own lease is replaced, revoked or dropped.
\<close>

theorem heartbeat_keeps_lease:
  assumes "lease_inv t tab" "t \<le> now" "hb_heartbeat now ds sid tab = (Inr l, tab1)"
    and "lease_history (now, tab1) ops (now', tab2)" "list_all (\<lambda>op. \<not> disturbs (ds, sid) op) ops"
    and "now' < now + of_int (ttl_seconds l) + of_int (grace_period_seconds l)"
  shows "\<exists>l'. hb_get_lease tab2 ds sid = Some l' \<and> now \<le> last_renew_at l' \<and> ttl_seconds l' = ttl_seconds l"
proof -
  have "lease_inv now tab1" using lease_step_inv [OF hb_heartbeat_step [OF assms(2), of tab ds sid]] assms(1,3) by simp
  then have "held_since (ds, sid) now (ttl_seconds l) (grace_period_seconds l) tab2"
    using lease_kept [OF assms(4)] hb_heartbeat_holds [OF assms(1,3)] assms(5,6) by simp
  then show ?thesis by (auto simp: held_since_def hb_get_lease_def lease_get_def)
qed

definition demo_leases :: hb_table where
  "demo_leases = [((''d'', ''s''), lease_of 10 5 False 0), ((''d'', ''q''), lease_of 10 5 False 0)]"

lemma demo_leases_inv: "lease_inv 0 demo_leases"
  by (auto simp: demo_leases_def lease_inv_def lease_ok_def lease_of_def)

theorem heartbeat_keeps_lease_witness:
  "\<exists>l'. hb_get_lease (snd (lease_sweep_tick 18 (snd (hb_heartbeat 8 ''d'' ''s'' demo_leases)))) ''d'' ''s'' = Some l'
     \<and> 8 \<le> last_renew_at l' \<and> ttl_seconds l' = 10"
proof -
  obtain l tab1 where h: "hb_heartbeat 8 ''d'' ''s'' demo_leases = (Inr l, tab1)" "ttl_seconds l = 10" "grace_period_seconds l = 5"
    by (simp add: hb_heartbeat_def lease_renew_def demo_leases_def renewed_def lease_of_def)
  have "lease_history (8 :: rat, tab1) ([] @ [Sweep]) (18, snd (lease_sweep_tick 18 tab1))"
    by (rule lease_history.event [OF lease_history.start lease_step.sweep]) simp
  then have hist: "lease_history (8 :: rat, tab1) [Sweep] (18, snd (lease_sweep_tick 18 tab1))" by simp
  from heartbeat_keeps_lease [OF demo_leases_inv _ h(1) hist] h show ?thesis by simp
qed

text \<open>
  C19. A service that is silent loses its lease at the first sweep once its window has passed, and that sweep
  deregisters it exactly if it still had the lease.
\<close>

theorem silent_service_deregistered:
  assumes "lease_inv t tab" "map_of tab (ds, sid) = Some l" "lease_history (t, tab) ops (t', tab1)"
    and "list_all (\<lambda>op. \<not> revives (ds, sid) op) ops" "t' \<le> now"
    and "t + of_int (ttl_seconds l) + of_int (grace_period_seconds l) \<le> now"
    and "sweep_once dereg now (tab1, reg) = (tab2, reg2)"
  shows "hb_get_lease tab2 ds sid = None
    \<and> (\<exists>dels. distinct dels \<and> reg2 = fold (hard_delete dereg) dels reg \<and> ((ds, sid) \<in> set dels \<longleftrightarrow> map_of tab1 (ds, sid) \<noteq> None))"
proof -
  have inv: "lease_inv t' tab1" using lease_history_inv [OF assms(3)] assms(1) by simp
  obtain dels where d: "distinct dels" "set dels = {k. \<exists>l. map_of tab1 k = Some l \<and> grace_deadline l \<le> now}"
      "reg2 = fold (hard_delete dereg) dels reg" "map_of tab2 (ds, sid) = (case map_of tab1 (ds, sid) of None \<Rightarrow> None
        | Some l \<Rightarrow> if grace_deadline l \<le> now then None else Some (sweep_lease now l))"
    using sweep_once_spec [OF inv assms(7)] by blast
  have "tab2 = snd (lease_sweep_tick now tab1)" using assms(7) by (simp add: sweep_once_def case_prod_beta)
  then have "map_of tab2 (ds, sid) = None" using lease_expires [OF assms(1-6)] by simp
  with d show ?thesis by (auto simp: hb_get_lease_def lease_get_def split: option.splits if_splits)
qed

theorem silent_service_deregistered_witness:
  "hb_get_lease (fst (sweep_once (\<lambda>ds sid r. (Inr (), r @ [(ds, sid)])) 15 (demo_leases, []))) ''d'' ''s'' = None"
  using silent_service_deregistered [where t = 0 and tab = demo_leases and ds = "''d''" and sid = "''s''" and ops = "[]" and t' = 0
      and now = 15 and l = "lease_of 10 5 False 0" and reg = "[]" and dereg = "\<lambda>ds sid r. (Inr (), r @ [(ds, sid)])",
      OF demo_leases_inv _ lease_history.start _ _ _ prod.collapse [symmetric]]
  by (simp add: demo_leases_def lease_of_def)

text \<open>
  A registration is accepted without a lease exactly when the namespace has leases off and the client asks
  for none, and with a lease exactly when they are on and the requested period is an integer within the range.
\<close>

theorem lease_request_accepted_exactly:
  "(hb_validate p ds v = Inr None \<longleftrightarrow> \<not> truthy (dget_or (p ds) ''enabled'' (PBool False)) \<and> v = PNone)
   \<and> (hb_validate p ds v = Inr (Some ttl) \<longleftrightarrow> truthy (dget_or (p ds) ''enabled'' (PBool False)) \<and> is_int v \<and> py_int v = Inr ttl
     \<and> (\<exists>lo hi. py_int (dget_or (p ds) ''min_ttl'' (PInt 10)) = Inr lo \<and> py_int (dget_or (p ds) ''max_ttl'' (PInt 3600)) = Inr hi
          \<and> lo \<le> ttl \<and> ttl \<le> hi))"
  using hb_validate_permanent hb_validate_ttl by blast

section \<open>Replication\<close>

text \<open>
  C20. Two batches with the same envelopes, in any order and with any repetitions, leave a node with the same
  replicas, provided a version of a record identifies its content.
\<close>

theorem updates_converge:
  assumes "overlay_ok s" "codec_ok env env" "unsuppressed tick s" "unsuppressed tick' s" "set es = set es'"
    and "\<forall>e \<in> set es. may_accept env s sender (env_dataset e) token \<and> may_accept env s sender' (env_dataset e) token'"
    and "\<forall>d \<in> set es \<union> ran (overlay s). \<forall>d' \<in> set es \<union> ran (overlay s).
      env_key d = env_key d' \<longrightarrow> env_version d = env_version d' \<longrightarrow> d = d'"
  shows "overlay (snd (serve_updates env tick sender (map (ne_dump env) es) token s))
    = overlay (snd (serve_updates env tick' sender' (map (ne_dump env) es') token' s))"
proof -
  have s: "snd (serve_updates env tk n (map (ne_dump env) fs) tok s) = fold (deliver (tk 0)) fs (touch_peer (tk 0) n s)"
    if "unsuppressed tk s" "\<And>e. e \<in> set fs \<Longrightarrow> may_accept env s n (env_dataset e) tok" for tk n fs tok
    using serve_updates_delivers [where s = s and from_node = n and token = tok and es = fs, OF that(1) list_all2_codec [OF assms(2)]] that(2)
    by auto
  have fold_eq: "overlay (fold (deliver now) fs s1) = overlay (fold (deliver now') fs s2)"
    if "overlay s1 = overlay s2" "cs_node s1 = cs_node s2" "\<And>n. \<not> suppressed now s1 n" "\<And>n. \<not> suppressed now' s2 n" for fs s1 s2 now now'
    using that
  proof (induction fs arbitrary: s1 s2)
    case (Cons f fs)
    have "overlay (deliver now f s1) = overlay (deliver now' f s2)"
      using Cons.prems by (simp add: overlay_def deliver_def apply_inbound_def)
    then show ?case using Cons.IH [of "deliver now f s1" "deliver now' f s2"] Cons.prems by (simp add: suppressed_def)
  qed simp
  have m: "may_accept env s sender (env_dataset e) token" "may_accept env s sender' (env_dataset e) token'" if "e \<in> set es" for e
    using assms(6) that by blast+
  have o: "overlay (touch_peer now n x) = overlay x" for now n x by (simp add: overlay_def)
  have keys: "env_key e = k" if "overlay s k = Some e" for k e
    using that assms(1) unfolding overlay_ok_def overlay_def by blast
  have "overlay (fold (deliver (tick 0)) es s) = overlay (fold (deliver (tick 0)) es' s)"
  proof (rule replica.convergence)
    show "d = d'" if "d \<in> set es \<or> overlay s (env_key d) = Some d" "d' \<in> set es' \<or> overlay s (env_key d') = Some d'"
        "env_key d = env_key d'" "env_version d = env_version d'" for d d'
      using that assms(5,7) by (auto intro: ranI)
  qed (use assms(5) keys in auto)
  moreover have "overlay (fold (deliver (tick 0)) es (touch_peer (tick 0) sender s)) = overlay (fold (deliver (tick 0)) es s)"
    using assms(3) by (intro fold_eq) (auto simp: o unsuppressed_def suppressed_def)
  moreover have "overlay (fold (deliver (tick' 0)) es' (touch_peer (tick' 0) sender' s)) = overlay (fold (deliver (tick 0)) es' s)"
    using assms(3,4) by (intro fold_eq) (auto simp: o unsuppressed_def suppressed_def)
  ultimately show ?thesis using s [OF assms(3), of es sender token] s [OF assms(4), of es' sender' token'] m assms(5) by simp
qed

definition demo_update :: "int \<Rightarrow> sync_envelope" where
  "demo_update i = \<lparr>env_dataset = ''d'', env_service = ''s'', env_origin = ''C'', env_version = (i, ''C''), env_tombstone = (i = 2), env_payload = None\<rparr>"

theorem updates_converge_witness:
  "overlay (snd (serve_updates (demo_env empty_view) (\<lambda>_. 0) ''C'' (map demo_dump [demo_update 1, demo_update 2]) None demo_b))
    = overlay (snd (serve_updates (demo_env empty_view) (\<lambda>_. 0) ''C'' (map demo_dump [demo_update 2, demo_update 1, demo_update 2]) None demo_b))"
proof -
  have d: "ne_dump (demo_env empty_view) = demo_dump" by (simp add: demo_env_def)
  have "overlay demo_b = Map.empty" by (simp add: overlay_def demo_b_def new_store_def open_session_def)
  then have e: "ran (overlay demo_b) = {}" by simp
  have ok: "overlay_ok demo_b" using demo_ok(2) by (simp add: node_ok_def store_inv_def)
  have "may_accept (demo_env empty_view) demo_b n ds tok" for n ds tok by (simp add: may_accept_def demo_env_def)
  then have m: "\<forall>e \<in> set [demo_update 1, demo_update 2]. may_accept (demo_env empty_view) demo_b ''C'' (env_dataset e) None
      \<and> may_accept (demo_env empty_view) demo_b ''C'' (env_dataset e) None" by blast
  have u: "\<forall>d \<in> set [demo_update 1, demo_update 2] \<union> ran (overlay demo_b). \<forall>d' \<in> set [demo_update 1, demo_update 2] \<union> ran (overlay demo_b).
      env_key d = env_key d' \<longrightarrow> env_version d = env_version d' \<longrightarrow> d = d'"
    unfolding e by (simp add: demo_update_def)
  have same: "set [demo_update 1, demo_update 2] = set [demo_update 2, demo_update 1, demo_update 2]" by auto
  show ?thesis
    using updates_converge [where env = "demo_env empty_view" and s = demo_b and es = "[demo_update 1, demo_update 2]"
        and es' = "[demo_update 2, demo_update 1, demo_update 2]" and tick = "\<lambda>_. 0" and tick' = "\<lambda>_. 0" and sender = "''C''"
        and sender' = "''C''" and token = None and token' = None, OF ok demo_codec_ok demo_unsuppressed(2) demo_unsuppressed(2) same m u]
    unfolding d .
qed

text \<open>
  C21. Whatever a node does from its first start on, including restarts, its state stays consistent, its identity
  stays, and its state file restores its current versions and tombstones.
\<close>

theorem nodes_stay_consistent:
  assumes "node_run env (new_store (fresh_state n) (Some (state_to_dict (fresh_state n)))) s"
  shows "store_inv s \<and> cs_node s = n
    \<and> (\<exists>s'. load_or_none (cs_disk s) = Some s' \<and> cs_node s' = n \<and> local_versions (cs_state s') = local_versions (cs_state s)
        \<and> tombstones (cs_state s') = tombstones (cs_state s))"
proof -
  have ok: "node_ok s" "cs_node s = n" using node_run_ok [OF assms fresh_node_ok] by (simp_all add: new_store_def fresh_state_def)
  then obtain st where "cs_disk s = Some (state_to_dict st)" "node_id st = n"
      "local_versions st = local_versions (cs_state s)" "tombstones st = tombstones (cs_state s)"
    by (auto simp: node_ok_def durable_def)
  then have "load_or_none (cs_disk s) = Some (new_store st (cs_disk s))" "node_id st = n"
      "local_versions st = local_versions (cs_state s)" "tombstones st = tombstones (cs_state s)"
    by (simp_all add: load_or_none_def state_roundtrip)
  then show ?thesis using ok by (auto simp: node_ok_def new_store_def)
qed

theorem nodes_stay_consistent_witness: "store_inv (stamp_mutation 7 ''d'' ''s'' ''register'' demo_a)"
  using nodes_stay_consistent [where n = "''A''" and env = "demo_env demo_view" and s = "stamp_mutation 7 ''d'' ''s'' ''register'' demo_a"]
    r_into_rtranclp [where r = "node_step (demo_env demo_view)", OF node_step.stamp [of _ demo_a 7 "''d''" "''s''" "''register''"]]
  by (simp add: demo_a_def)

text \<open>
  C22. A version a node publishes for one of its records is newer than every version it published for that record
  before, across garbage collection, restarts and a clock that steps back.
\<close>

theorem versions_never_reused:
  assumes "node_ok s" "published s ds sid = Some v" "node_run env s s'"
  shows "\<exists>v'. published (stamp_mutation now ds sid op s') ds sid = Some v' \<and> ver_less v v'"
  using run_version_fresh [OF assms(3,1,2), of now] by (simp add: stamp_published)

theorem versions_never_reused_witness:
  "\<exists>v'. published (stamp_mutation 3 ''d'' ''s'' ''deregister'' (stamp_mutation 7 ''d'' ''s'' ''register'' demo_a)) ''d'' ''s'' = Some v'
     \<and> ver_less (7, ''A'') v'"
proof -
  have p: "published (stamp_mutation 7 ''d'' ''s'' ''register'' demo_a) ''d'' ''s'' = Some (7, ''A'')"
    by (simp add: stamp_published demo_a_def new_store_def fresh_state_def next_ts_def)
  show ?thesis
    using versions_never_reused [OF stamp_ok [OF demo_ok(1), THEN conjunct1] p rtranclp.rtrancl_refl, of 3 "''deregister''"] by simp
qed

text \<open>
  C23. Reconciliation of two nodes that share a session succeeds, and afterwards each holds, for every record of the
  agreed namespaces that it does not own, the newer of its own replica and what the other had to offer. The Merkle
  comparison in front loses nothing as long as the hash does not collide on the entries at hand.
\<close>

theorem reconciliation_converges:
  assumes "peered env r s p benv r' b" "unsuppressed tick s" "unsuppressed (btick 4) b"
    and "no_collision (ne_sha env) (merkle_buckets (ne_config env)) (fst (full_index env clk (sort (remdups (peer_namespaces p))) s))
      (fst (allowed_index benv (bclk 1) (sort (remdups (peer_namespaces p))) b))"
    and "\<forall>e \<in> set (fst (full_index env clk (sort (remdups (peer_namespaces p))) s))
      \<union> set (fst (allowed_index benv (bclk 1) (sort (remdups (peer_namespaces p))) b)). id_ok (fst e)"
  shows "\<exists>m s' b'. reconcile (peer_transport benv bclk btick secret) env clk tick p (s, b) = (Inr m, (s', b'))
    \<and> converged (set (peer_namespaces p)) (offer benv r' (ensure_local_versions benv (bclk 1) b)) (ensure_local_versions env clk s) s'
    \<and> converged (set (peer_namespaces p)) (offer env r (ensure_local_versions env clk s)) (ensure_local_versions benv (bclk 1) b) b'"
  by (rule reconcile_converges [where bclk = bclk and btick = btick and clk = clk, OF assms])

theorem reconciliation_converges_witness:
  "\<exists>m s' b'. reconcile (peer_transport (demo_env empty_view) (\<lambda>_ _. 5) (\<lambda>_ _. 0) ''x'') (demo_env demo_view) (\<lambda>_. 5) (\<lambda>_. 0)
      (demo_peer ''B'' [''d'']) (demo_a, demo_b) = (Inr m, (s', b'))
    \<and> overlay b' (''d'', ''A'', ''s'') = offer (demo_env demo_view) demo_view (ensure_local_versions (demo_env demo_view) (\<lambda>_. 5) demo_a) (''d'', ''A'', ''s'')"
proof -
  let ?b = "ensure_local_versions (demo_env empty_view) (\<lambda>_. 5) demo_b"
  have o: "overlay ?b = Map.empty" "cs_node ?b = ''B''"
    by (simp_all add: overlay_def demo_b_def new_store_def open_session_def fresh_state_def)
  have ns: "set (peer_namespaces (demo_peer ''B'' [''d''])) = {''d''}" by (simp add: demo_peer_def)
  obtain m s' b' where r: "reconcile (peer_transport (demo_env empty_view) (\<lambda>_ _. 5) (\<lambda>_ _. 0) ''x'') (demo_env demo_view) (\<lambda>_. 5) (\<lambda>_. 0)
      (demo_peer ''B'' [''d'']) (demo_a, demo_b) = (Inr m, (s', b'))"
    and c: "converged {''d''} (offer (demo_env demo_view) demo_view (ensure_local_versions (demo_env demo_view) (\<lambda>_. 5) demo_a)) ?b b'"
    using reconciliation_converges [where btick = "\<lambda>_ _. 0" and bclk = "\<lambda>_ _. 5" and clk = "\<lambda>_. 5" and tick = "\<lambda>_. 0" and secret = "''x''"
      and env = "demo_env demo_view" and benv = "demo_env empty_view" and s = demo_a and b = demo_b and r = demo_view and r' = empty_view
      and p = "demo_peer ''B'' [''d'']", OF demo_peered demo_unsuppressed(1) demo_unsuppressed(2), unfolded demo_sort ns]
    by (auto simp: demo_indexes demo_no_collision id_ok_def)
  have "overlay b' (''d'', ''A'', ''s'') = newest None (offer (demo_env demo_view) demo_view
      (ensure_local_versions (demo_env demo_view) (\<lambda>_. 5) demo_a) (''d'', ''A'', ''s''))"
    using c o by (simp add: converged_def)
  then show ?thesis using r by (auto simp: newest_def split: option.splits)
qed

section \<open>Authorization\<close>

lemma build_local_cong:
  assumes "cs_state s' = cs_state s"
  shows "build_local_envelope env s' = build_local_envelope env s"
  unfolding fun_eq_iff build_local_envelope_def assms by (intro allI, rule refl)

lemma built_dataset:
  assumes "overlay_ok s" "build_envelope_for_key env s k = Some e"
  shows "env_key e = k"
proof -
  obtain ds origin sid where k: "k = (ds, origin, sid)" by (cases k)
  show ?thesis
  proof (cases "origin = cs_node s")
    case True
    then show ?thesis using assms(2) k
      by (auto simp: build_envelope_for_key_def build_local_envelope_def env_key_def split: option.splits)
  next
    case False
    then have "map_of (cs_foreign s) k = Some e" using assms(2) k by (simp add: build_envelope_for_key_def)
    then show ?thesis using assms(1) unfolding overlay_ok_def by blast
  qed
qed

text \<open>
  C24. On a node with authentication, a peer that opened a session and then pulls records receives only records of
  namespaces that are public there, or that the token of its handshake covers: an admin token any, another
  token only a namespace hosted there that it names.
\<close>

theorem pulled_records_authorized:
  assumes "overlay_ok s" "ne_auth env = Some auth" "ne_registry env = Some r"
    and "handle_open env now secret body s = (resp, s1)"
    and "serve_pull env now' (rq_node body) keys token s1 = (raws, s2)" "raw \<in> set raws"
  shows "\<exists>e. raw = ne_dump env e \<and> env_key e \<in> set keys \<and>
    (env_dataset e \<in> set (rg_datasets r) \<and> \<not> rg_auth_required r (env_dataset e)
     \<or> (\<exists>ctx. caller_context (Some auth) (rq_token body) = Some ctx \<and>
          (ctx_admin ctx \<or> env_dataset e \<in> set (rg_datasets r) \<and> (\<exists>nss. ctx_namespaces ctx = Some nss \<and> env_dataset e \<in> set nss))))"
proof -
  let ?s = "touch_peer now' (rq_node body) s1"
  let ?al = "allowed_for env s1 (rq_node body) [] token"
  obtain q where q: "map_of (cs_sessions s1) (rq_node body) = Some q"
      "peer_namespaces q = filter (namespace_accepted (Some r) (Some auth) (caller_context (Some auth) (rq_token body)))
        (sort (remdups (rq_namespaces body @ registry_datasets (Some r))))"
    and fr: "cs_foreign s1 = cs_foreign s" "cs_state s1 = cs_state s"
    using assms(2-4) by (auto simp: handle_open_def authorize_namespaces_def open_session_def Let_def)
  have ok: "overlay_ok ?s" using assms(1) fr by (simp add: overlay_ok_def)
  obtain k e where k: "k \<in> set keys" "fst k \<in> set ?al" "build_envelope_for_key env ?s k = Some e" "raw = ne_dump env e"
    using assms(5,6) by (auto simp: serve_pull_def Let_def set_map_filter)
  have key: "env_key e = k" by (rule built_dataset [OF ok k(3)])
  then have ds: "env_dataset e \<in> set ?al" using k(2) by (auto simp: env_key_def)
  show ?thesis
  proof (cases "authed env s1 (rq_node body) token")
    case True
    then have "namespace_accepted (Some r) (Some auth) (caller_context (Some auth) (rq_token body)) (env_dataset e)"
      using ds q by (simp add: allowed_for_def)
    then show ?thesis using k(1,4) key
      by (auto simp: namespace_accepted_def registry_datasets_def split: if_splits option.splits)
  next
    case False
    then show ?thesis using ds q(1) k(1,4) key assms(2,3) by (auto simp: allowed_for_def public_namespaces_def)
  qed
qed

definition demo_auth_env :: node_env where
  "demo_auth_env = (demo_env demo_view)\<lparr>ne_auth := Some (\<lambda>t. if t = ''k'' then Some \<lparr>ctx_admin = False, ctx_namespaces = Some [''d'']\<rparr> else None)\<rparr>"

definition demo_open :: open_request where
  "demo_open = \<lparr>rq_node = ''C'', rq_address = ''http://c'', rq_namespaces = [], rq_token = Some ''k''\<rparr>"

definition demo_stamped :: cluster_store where
  "demo_stamped = stamp_mutation 7 ''d'' ''s'' ''register'' demo_a"

theorem pulled_records_authorized_witness:
  "\<exists>raw e. raw \<in> set (fst (serve_pull demo_auth_env 0 ''C'' [(''d'', ''A'', ''s'')] (Some ''x'')
       (snd (handle_open demo_auth_env 0 ''x'' demo_open demo_stamped)))) \<and> raw = demo_dump e \<and> env_key e = (''d'', ''A'', ''s'')"
proof -
  let ?s = demo_stamped and ?k = "(''d'', ''A'', ''s'')"
  have ok: "overlay_ok ?s" using stamp_ok [OF demo_ok(1)] by (simp add: node_ok_def store_inv_def demo_stamped_def)
  obtain resp s1 where h: "handle_open demo_auth_env 0 ''x'' demo_open ?s = (resp, s1)" by fastforce
  have s1: "cs_state s1 = cs_state ?s" "map_of (cs_sessions s1) ''C'' = Some \<lparr>peer_node = ''C'', peer_address = ''http://c'',
      peer_namespaces = [''d''], peer_last_seen = 0, peer_token = Some ''x''\<rparr>"
    using h by (auto simp: handle_open_def demo_open_def demo_auth_env_def demo_env_def demo_view_def registry_datasets_def Let_def
      authorize_namespaces_def caller_context_def namespace_accepted_def open_session_def)
  have n: "cs_node ?s = ''A''" by (simp add: demo_stamped_def demo_a_def new_store_def fresh_state_def)
  have al: "allowed_for demo_auth_env s1 ''C'' [] (Some ''x'') = [''d'']"
    using s1(2) by (simp add: allowed_for_def authed_def in_scope_def demo_auth_env_def)
  obtain e where e: "build_local_envelope demo_auth_env ?s ''d'' ''s'' = Some e"
    by (simp add: build_local_envelope_def demo_stamped_def stamp_mutation_def demo_a_def new_store_def fresh_state_def next_ts_def
      Let_def save_state_def demo_auth_env_def demo_env_def demo_view_def)
  have b: "build_envelope_for_key demo_auth_env (touch_peer 0 ''C'' s1) ?k = Some e"
    using e s1(1) n build_local_cong [of "touch_peer 0 ''C'' s1" ?s demo_auth_env] by (simp add: build_envelope_for_key_def)
  have "fst (serve_pull demo_auth_env 0 ''C'' [?k] (Some ''x'') s1) = [demo_dump e]"
    using b al by (simp add: serve_pull_def Let_def List.map_filter_def demo_auth_env_def demo_env_def)
  then obtain s2 where p: "serve_pull demo_auth_env 0 ''C'' [?k] (Some ''x'') s1 = ([demo_dump e], s2)" by (metis prod.collapse)
  have d: "ne_dump demo_auth_env = demo_dump" by (simp add: demo_auth_env_def demo_env_def)
  have "\<exists>e'. demo_dump e = ne_dump demo_auth_env e' \<and> env_key e' \<in> set [?k]"
    using pulled_records_authorized [where env = demo_auth_env and body = demo_open and s = demo_stamped and raw = "demo_dump e"
      and keys = "[?k]" and token = "Some ''x''" and now' = 0 and r = demo_view, OF ok _ _ h] p
    by (fastforce simp: demo_auth_env_def demo_env_def demo_open_def)
  then show ?thesis using d h p by auto
qed

section \<open>Membership\<close>

text \<open>
  Two batches of membership records with the same content, in any order and with any repetitions, leave a node
  with the same roster, provided a version of a member identifies its record; unless one evicts the node itself.
\<close>

theorem rosters_converge:
  assumes "roster_ok s" "set ms = set ms'" "\<not> (\<exists>m \<in> set ms. evicts s m)"
    and "\<forall>m \<in> set ms \<union> ran (members s). \<forall>m' \<in> set ms \<union> ran (members s).
      mr_node m = mr_node m' \<longrightarrow> mr_version m = mr_version m' \<longrightarrow> m = m'"
  shows "members (snd (merge_records env tick (map record_to_dict ms) s)) = members (snd (merge_records env tick' (map record_to_dict ms') s))"
proof -
  have "members (fold merge_one ms s) = members (fold merge_one ms' s)"
  proof (rule roster.convergence)
    show "d = d'" if "d \<in> set ms \<or> members s (mr_node d) = Some d" "d' \<in> set ms' \<or> members s (mr_node d') = Some d'"
        "mr_node d = mr_node d'" "mr_version d = mr_version d'" for d d'
      using that assms(2,4) by (auto intro: ranI)
    show "mr_node m = n" if "members s n = Some m" for n m using that assms(1) by (simp add: roster_ok_def)
  qed (use assms(2) in auto)
  then show ?thesis using assms(2,3) by (simp add: merge_records_members)
qed

definition demo_member :: "string \<Rightarrow> int \<Rightarrow> bool \<Rightarrow> membership_record" where
  "demo_member n i gone = \<lparr>mr_node = n, mr_cluster = Some ''clu'', mr_address = ''http://'' @ n, mr_version = (i, n), mr_removed = gone\<rparr>"

definition demo_joined :: cluster_store where
  "demo_joined = demo_a\<lparr>cs_roster := [(''A'', demo_member ''A'' 1 False), (''B'', demo_member ''B'' 1 False)]\<rparr>"

lemma demo_joined_facts:
  "roster_ok demo_joined" "cs_node demo_joined = ''A''" "members demo_joined = [''A'' \<mapsto> demo_member ''A'' 1 False, ''B'' \<mapsto> demo_member ''B'' 1 False]"
  by (auto simp: roster_ok_def members_def demo_joined_def demo_a_def new_store_def fresh_state_def demo_member_def split: if_splits)

theorem rosters_converge_witness:
  "members (snd (merge_records (demo_env demo_view) (\<lambda>_. 0) (map record_to_dict [demo_member ''C'' 1 False, demo_member ''B'' 2 True]) demo_joined))
    = members (snd (merge_records (demo_env demo_view) (\<lambda>_. 0) (map record_to_dict [demo_member ''B'' 2 True, demo_member ''C'' 1 False]) demo_joined))"
  by (rule rosters_converge [OF demo_joined_facts(1)])
    (auto simp: evicts_def demo_joined_facts demo_member_def ran_def split: if_splits)

text \<open>
  A node's own membership record is never overwritten by what peers send. It leaves the cluster exactly when a
  peer presents a removal of it that is newer than its record, and then its roster, its sessions with the
  members, their replicated records and the persisted cluster are gone.
\<close>

theorem own_membership_authoritative:
  assumes "roster_ok s" "members s (cs_node s) = Some own" "mr_cluster own = Some cid"
  shows "let s' = snd (merge_records env tick (map record_to_dict ms) s) in
    if \<exists>m \<in> set ms. mr_node m = cs_node s \<and> mr_removed m \<and> ver_less (mr_version own) (mr_version m)
    then members s' = Map.empty \<and> cluster_id (cs_state s') = None \<and> last_roster (cs_state s') = []
      \<and> (\<forall>n. members s n \<noteq> None \<longrightarrow> n \<noteq> cs_node s \<longrightarrow> map_of (cs_sessions s') n = None
           \<and> (\<forall>k \<in> fst ` set (cs_foreign s'). fst (snd k) \<noteq> n))
    else members s' (cs_node s) = Some own"
proof (cases "\<exists>m \<in> set ms. evicts s m")
  case True
  let ?f = "fold merge_one ms s"
  have s': "snd (merge_records env tick (map record_to_dict ms) s) = become_standalone env tick ?f"
    using True merge_records_spec by simp
  note sp = standalone_spec [where env = env and tick = tick, OF fold_merge_roster_ok [OF assms(1), of ms]]
  have "members ?f n \<noteq> None" if "members s n \<noteq> None" for n
    using roster.fold_mono [of s n _ ms] that by fastforce
  then show ?thesis using True assms(2) sp s' by (auto simp: evicts_def members_def Let_def)
next
  case False
  then have "members (snd (merge_records env tick (map record_to_dict ms) s)) (cs_node s) = Some own"
    using assms(2) by (simp add: merge_records_members)
  then show ?thesis using False assms(2) by (auto simp: evicts_def Let_def)
qed

theorem own_membership_authoritative_witness:
  "members (snd (merge_records (demo_env demo_view) (\<lambda>_. 0) (map record_to_dict [demo_member ''A'' 2 True]) demo_joined)) = Map.empty"
  using own_membership_authoritative [where s = demo_joined and own = "demo_member ''A'' 1 False" and cid = "''clu''"
      and ms = "[demo_member ''A'' 2 True]" and env = "demo_env demo_view" and tick = "\<lambda>_. 0", OF demo_joined_facts(1)]
  by (simp add: demo_joined_facts demo_member_def Let_def ver_less_def)

text \<open>
  When a member leaves, the node drops its session and its records, and the removal it writes is newer than the
  member's record: every other node that holds the same record, or none, accepts the removal and no longer
  wants the member.
\<close>

theorem leaving_member_removed:
  assumes "n \<noteq> []" "authed env s n token"
  shows "\<exists>tomb s'. handle_evict_self tr env now_ms now n token (s, w) = (True, push_to_roster tr [record_to_dict tomb] (s', w))
    \<and> map_of (cs_sessions s') n = None \<and> (\<forall>k \<in> fst ` set (cs_foreign s'). fst (snd k) \<noteq> n)
    \<and> members s' n = Some tomb \<and> mr_removed tomb \<and> version_newer (mr_version tomb) (map_option mr_version (members s n))
    \<and> (\<forall>other. n \<noteq> cs_node other \<longrightarrow> members other n = members s n \<or> members other n = None \<longrightarrow>
         members (merge_one tomb other) n = Some tomb \<and> is_removed_or_absent (merge_one tomb other) n)"
proof -
  let ?fl = "case members s n of Some m \<Rightarrow> fst (mr_version m) | None \<Rightarrow> 0"
  obtain ver s1 where v: "next_version_after now_ms ?fl s = (ver, s1)" by fastforce
  define cid where "cid = (case members s n of Some m \<Rightarrow> mr_cluster m | None \<Rightarrow> own_cluster s)"
  define addr where "addr = (case members s n of Some m \<Rightarrow> mr_address m | None \<Rightarrow> [])"
  define tomb where "tomb = removal n cid addr ver"
  have t: "(case members s n of Some m \<Rightarrow> removal n (mr_cluster m) (mr_address m) ver | None \<Rightarrow> removal n (own_cluster s) [] ver) = tomb"
    by (cases "members s n") (simp_all add: tomb_def cid_def addr_def)
  let ?s = "persist (snd (disconnect_peer env now n (set_record tomb s1)))"
  have "handle_evict_self tr env now_ms now n token (s, w) = (True, push_to_roster tr [record_to_dict tomb] (?s, w))"
    using evict_self_state [OF assms v] by (simp only: t)
  moreover have "members ?s n = Some tomb" by (simp add: members_def tomb_def removal_def)
  moreover have "version_newer ver (map_option mr_version (members s n))"
    using next_version_after_spec(2) [OF v] by (cases "members s n") (auto simp: ver_less_def)
  moreover have "map_of (cs_sessions ?s) n = None" "\<forall>k \<in> fst ` set (cs_foreign ?s). fst (snd k) \<noteq> n"
    by (auto simp: disconnect_peer_def)
  ultimately show ?thesis using removal_accepted [OF v, where cid = cid and addr = addr]
    by (intro exI [of _ tomb] exI [of _ ?s]) (auto simp: tomb_def removal_def)
qed

theorem leaving_member_removed_witness:
  "map_of (cs_sessions (fst (snd (handle_evict_self down (demo_env demo_view) 5 0 ''B'' None (demo_joined, ()))))) ''B'' = None"
proof -
  have "authed (demo_env demo_view) demo_joined ''B'' None" by (simp add: authed_def demo_env_def)
  from leaving_member_removed [where n = "''B''", OF _ this, of down 5 0 "()"] show ?thesis by (auto simp: down_push)
qed

text \<open>
  A member that restarts from its state file is back in its cluster, under its own version, with exactly the
  records of that cluster it had, except for removals past their retention.
\<close>

theorem roster_survives_restart:
  assumes "roster_ok s" "members s (cs_node s) = Some own" "mr_cluster own = Some cid"
    and "load_or_none (cs_disk (persist s)) = Some s'"
  shows "members (init_from_state env mint now s') n =
    (if n = cs_node s then Some (own\<lparr>mr_address := ne_advertise env, mr_removed := False\<rparr>)
     else case members s n of None \<Rightarrow> None | Some m \<Rightarrow> if kept_after_restart env now (Some cid) m then Some m else None)"
  by (rule restart_roster [OF assms])

theorem roster_survives_restart_witness:
  "\<exists>s'. load_or_none (cs_disk (persist demo_joined)) = Some s'
     \<and> members (init_from_state (demo_env demo_view) 1 5 s') ''B'' = Some (demo_member ''B'' 1 False)"
proof -
  obtain s' where s': "load_or_none (cs_disk (persist demo_joined)) = Some s'"
    by (simp add: load_or_none_def persist_def save_state_def state_roundtrip Let_def)
  have own: "members demo_joined (cs_node demo_joined) = Some (demo_member ''A'' 1 False)" by (simp add: demo_joined_facts)
  show ?thesis
    using roster_survives_restart [OF demo_joined_facts(1) own _ s', of "''clu''" "demo_env demo_view" 1 5 "''B''"] s'
    by (simp add: demo_joined_facts demo_member_def kept_after_restart_def)
qed

section \<open>Behaviour against the documentation\<close>

text \<open>
  To a peer that accepted no namespace, reconciliation pushes every record the node lists, of every namespace,
  also those that require authentication: the empty namespace set is read as no restriction.
\<close>

theorem unnegotiated_records_pushed:
  assumes "store_inv s" "ne_registry env = Some r" "names_ok r" "peer_namespaces p = []"
    and "listed_version r (ensure_local_versions env clk s) k = Some v" "nul_sep \<notin> set (fst k)"
  shows "\<exists>m s' sent e. reconcile blind_peer env clk tick p (s, []) = (Inr m, (s', sent))
    \<and> build_envelope_for_key env (ensure_local_versions env clk s) k = Some e \<and> env_key e = k \<and> ne_dump env e \<in> set sent"
  by (rule unscoped_push [OF assms])

theorem unnegotiated_records_pushed_witness:
  "rg_auth_required demo_view ''d'' \<and> (\<exists>m s' sent e. reconcile blind_peer demo_auth_env (\<lambda>_. 5) (\<lambda>_. 0) (demo_peer ''B'' []) (demo_a, [])
     = (Inr m, (s', sent)) \<and> env_dataset e = ''d'' \<and> ne_dump demo_auth_env e \<in> set sent)"
proof -
  have "listed_version demo_view (ensure_local_versions demo_auth_env (\<lambda>_. 5) demo_a) (''d'', ''A'', ''s'') = Some (5, ''A'')"
    by (simp add: listed_version_def ensure_local_versions_def demo_auth_env_def demo_env_def demo_view_def demo_a_def new_store_def
      fresh_state_def local_records_def dataset_records_def Let_def next_ts_def save_state_def)
  moreover have "store_inv demo_a" "ne_registry demo_auth_env = Some demo_view" "peer_namespaces (demo_peer ''B'' []) = []"
      "nul_sep \<notin> set (fst (''d'', ''A'', ''s''))"
    using demo_ok(1) by (simp_all add: node_ok_def demo_auth_env_def demo_env_def demo_peer_def)
  ultimately obtain m s' sent e where "reconcile blind_peer demo_auth_env (\<lambda>_. 5) (\<lambda>_. 0) (demo_peer ''B'' []) (demo_a, []) = (Inr m, (s', sent))"
      "env_key e = (''d'', ''A'', ''s'')" "ne_dump demo_auth_env e \<in> set sent"
    using unnegotiated_records_pushed [where s = demo_a and env = demo_auth_env and r = demo_view and p = "demo_peer ''B'' []"
      and k = "(''d'', ''A'', ''s'')" and clk = "\<lambda>_. 5" and tick = "\<lambda>_. 0"] demo_names(1) by blast
  then show ?thesis by (auto simp: demo_view_def env_key_def)
qed

text \<open>
  A node that was removed and joins again takes its next version without regard to the removal: when its clock
  is behind the one that dated the removal, the next copy of that removal puts it out of the cluster again.
\<close>

theorem rejoin_undone:
  assumes "own_cluster s = None" "\<not> (\<exists>m \<in> set ms. mr_node m = cs_node s)"
    and "max now (version_clock (cs_state s) + 1) < i"
  shows "\<exists>resp s'. adopt down env now push_ms lt mt tm cid (map record_to_dict ms) (s, w) = (Inr resp, (s', w))
    \<and> jr_accepted resp \<and> own_cluster s' = Some cid
    \<and> own_cluster (snd (merge_records env tick [record_to_dict (removal (cs_node s) (Some cid) addr (i, remover))] s')) = None"
proof -
  obtain resp s' where a: "adopt down env now push_ms lt mt tm cid (map record_to_dict ms) (s, w) = (Inr resp, (s', w))" "jr_accepted resp"
      "cs_node s' = cs_node s" "own_cluster s' = Some cid" "map_option mr_version (members s' (cs_node s)) = Some (fst (next_version now s))"
    using adopt_down [OF assms(1,2), of env now push_ms lt mt tm cid w] by blast
  let ?m = "removal (cs_node s) (Some cid) addr (i, remover)"
  have "ver_less (fst (next_version now s)) (i, remover)"
    using assms(3) by (simp add: next_version_def next_ts_def Let_def ver_less_def)
  then have "evicts s' ?m" using a(3,5) by (auto simp: evicts_def removal_def)
  then have "snd (merge_records env tick (map record_to_dict [?m]) s') = become_standalone env tick (fold merge_one [?m] s')"
    using merge_records_spec [of env tick "[?m]" s'] by simp
  moreover have "own_cluster (become_standalone env tick x) = None" for x
    by (simp add: become_standalone_def own_cluster_def Let_def)
  ultimately show ?thesis using a by auto
qed

definition demo_times :: times where
  "demo_times = \<lparr>tm_now = (\<lambda>_. 0), tm_clk = (\<lambda>_ _. 0), tm_tick = (\<lambda>_ _. 0), tm_drop = (\<lambda>_. 0)\<rparr>"

theorem rejoin_undone_witness:
  "\<exists>resp s'. adopt down (demo_env demo_view) 10 10 (\<lambda>_. 0) (\<lambda>_. 0) demo_times ''clu'' (map record_to_dict [demo_member ''B'' 1 False]) (demo_a, ()) =
      (Inr resp, (s', ())) \<and> own_cluster s' = Some ''clu''
    \<and> own_cluster (snd (merge_records (demo_env demo_view) (\<lambda>_. 0) [record_to_dict (removal ''A'' (Some ''clu'') [] (50, ''B''))] s')) = None"
proof -
  have a: "own_cluster demo_a = None" "cs_node demo_a = ''A''" "version_clock (cs_state demo_a) = 0"
    by (simp_all add: demo_a_def new_store_def fresh_state_def own_cluster_def)
  then have "\<not> (\<exists>m \<in> set [demo_member ''B'' 1 False]. mr_node m = cs_node demo_a)" "max 10 (version_clock (cs_state demo_a) + 1) < (50 :: int)"
    by (simp_all add: demo_member_def)
  from rejoin_undone [OF a(1) this, of "demo_env demo_view" 10 "\<lambda>_. 0" "\<lambda>_. 0" demo_times "''clu''" "()" "\<lambda>_. 0" "[]" "''B''"] a(2)
  show ?thesis by auto
qed

end
