(* ===== verification/RouterErrors.thy ===== *)
theory RouterErrors
  imports Complex_Main PyValue
begin

text \<open>
  \<open>intelli_router/utils/exceptions.py\<close>: the exception classes of the model router, their base classes and the
  HTTP status of an exception. Of the classes of Python and of the HTTP client the ones the router
  distinguishes are included. An exception is a value; its text is a function of the value and is not modelled.
\<close>

section \<open>Classes\<close>

datatype exc_class =
    CBaseException | CCancelledError | CGeneratorExit | CException
  | CValueError | CJSONDecodeError | CTypeError | CAttributeError | CLookupError | CKeyError | CIndexError
  | CArithmeticError | COverflowError | CZeroDivisionError | CRuntimeError
  | CIntelliRouterError
  | CRouterError | CNoDeploymentAvailable | CAllDeploymentsFailed | CStrategyError
  | CDeploymentError | CDeploymentInCooldown | CDeploymentFailed | CDeploymentTimeoutError | CDeploymentAuthError
  | CDeploymentRateLimitError | CDeploymentServerError | CDeploymentNetworkError
  | CCacheError | CCacheKeyNotFound | CCacheExpired
  | CHealthCheckError | CHealthCheckFailed | CHealthCheckTimeout
  | CConfigError | CInvalidDeploymentConfig | CMissingRequiredField

fun class_base :: "exc_class \<Rightarrow> exc_class option" where
  "class_base CBaseException = None"
| "class_base CCancelledError = Some CBaseException"
| "class_base CGeneratorExit = Some CBaseException"
| "class_base CException = Some CBaseException"
| "class_base CJSONDecodeError = Some CValueError"
| "class_base CKeyError = Some CLookupError"
| "class_base CIndexError = Some CLookupError"
| "class_base COverflowError = Some CArithmeticError"
| "class_base CZeroDivisionError = Some CArithmeticError"
| "class_base CRouterError = Some CIntelliRouterError"
| "class_base CNoDeploymentAvailable = Some CRouterError"
| "class_base CAllDeploymentsFailed = Some CRouterError"
| "class_base CStrategyError = Some CRouterError"
| "class_base CDeploymentError = Some CIntelliRouterError"
| "class_base CDeploymentInCooldown = Some CDeploymentError"
| "class_base CDeploymentFailed = Some CDeploymentError"
| "class_base CDeploymentTimeoutError = Some CDeploymentError"
| "class_base CDeploymentAuthError = Some CDeploymentError"
| "class_base CDeploymentRateLimitError = Some CDeploymentError"
| "class_base CDeploymentServerError = Some CDeploymentError"
| "class_base CDeploymentNetworkError = Some CDeploymentError"
| "class_base CCacheError = Some CIntelliRouterError"
| "class_base CCacheKeyNotFound = Some CCacheError"
| "class_base CCacheExpired = Some CCacheError"
| "class_base CHealthCheckError = Some CIntelliRouterError"
| "class_base CHealthCheckFailed = Some CHealthCheckError"
| "class_base CHealthCheckTimeout = Some CHealthCheckError"
| "class_base CConfigError = Some CIntelliRouterError"
| "class_base CInvalidDeploymentConfig = Some CConfigError"
| "class_base CMissingRequiredField = Some CConfigError"
| "class_base _ = Some CException"

text \<open>The position in the hierarchy bounds the walk along the base classes.\<close>

fun class_level :: "exc_class \<Rightarrow> nat" where
  "class_level CBaseException = 0"
| "class_level CCancelledError = 1"
| "class_level CGeneratorExit = 1"
| "class_level CException = 1"
| "class_level CIntelliRouterError = 2"
| "class_level CValueError = 2"
| "class_level CTypeError = 2"
| "class_level CAttributeError = 2"
| "class_level CLookupError = 2"
| "class_level CArithmeticError = 2"
| "class_level CRuntimeError = 2"
| "class_level CRouterError = 3"
| "class_level CDeploymentError = 3"
| "class_level CCacheError = 3"
| "class_level CHealthCheckError = 3"
| "class_level CConfigError = 3"
| "class_level CJSONDecodeError = 3"
| "class_level CKeyError = 3"
| "class_level CIndexError = 3"
| "class_level COverflowError = 3"
| "class_level CZeroDivisionError = 3"
| "class_level _ = 4"

lemma class_base_level: "class_base c = Some b \<Longrightarrow> class_level b < class_level c"
  by (cases c) auto

function mro :: "exc_class \<Rightarrow> exc_class list" where
  "mro c = c # (case class_base c of None \<Rightarrow> [] | Some b \<Rightarrow> mro b)"
  by auto
termination by (relation "measure class_level") (auto dest: class_base_level)

declare mro.simps [simp del]

definition derives_from :: "exc_class \<Rightarrow> exc_class \<Rightarrow> bool" where
  "derives_from c d \<longleftrightarrow> d \<in> set (mro c)"

section \<open>Exceptions\<close>

text \<open>
  \<open>DeploymentError\<close> is raised directly with a status code or with the text of another HTTP error; every exception
  that is none of the router's own is \<open>Other\<close> with its class and text.
\<close>

datatype router_exc =
    NoDeploymentAvailable string string
  | AllDeploymentsFailed string "(string \<times> router_exc) list"
  | FallbackFailed "(string \<times> router_exc) list"
  | DeploymentTimeoutError string rat
  | DeploymentAuthError string int
  | DeploymentRateLimitError string "rat option"
  | DeploymentServerError string int string
  | DeploymentNetworkError string string
  | DeploymentStatusError string int string
  | DeploymentHttpError string string
  | Other exc_class string

fun class_of_exc :: "router_exc \<Rightarrow> exc_class" where
  "class_of_exc (NoDeploymentAvailable _ _) = CNoDeploymentAvailable"
| "class_of_exc (AllDeploymentsFailed _ _) = CAllDeploymentsFailed"
| "class_of_exc (FallbackFailed _) = CRouterError"
| "class_of_exc (DeploymentTimeoutError _ _) = CDeploymentTimeoutError"
| "class_of_exc (DeploymentAuthError _ _) = CDeploymentAuthError"
| "class_of_exc (DeploymentRateLimitError _ _) = CDeploymentRateLimitError"
| "class_of_exc (DeploymentServerError _ _ _) = CDeploymentServerError"
| "class_of_exc (DeploymentNetworkError _ _) = CDeploymentNetworkError"
| "class_of_exc (DeploymentStatusError _ _ _) = CDeploymentError"
| "class_of_exc (DeploymentHttpError _ _) = CDeploymentError"
| "class_of_exc (Other c _) = c"

definition isinst :: "router_exc \<Rightarrow> exc_class \<Rightarrow> bool" where
  "isinst e c = derives_from (class_of_exc e) c"

text \<open>\<open>error.details.get("status_code")\<close> of a \<open>DeploymentError\<close>.\<close>

fun details_status :: "router_exc \<Rightarrow> int option" where
  "details_status (DeploymentAuthError _ s) = Some s"
| "details_status (DeploymentServerError _ s _) = Some s"
| "details_status (DeploymentStatusError _ s _) = Some s"
| "details_status _ = None"

section \<open>Status codes\<close>

fun error_status_map :: "exc_class \<Rightarrow> nat option" where
  "error_status_map CNoDeploymentAvailable = Some 503"
| "error_status_map CAllDeploymentsFailed = Some 503"
| "error_status_map CDeploymentInCooldown = Some 503"
| "error_status_map CDeploymentFailed = Some 503"
| "error_status_map CDeploymentTimeoutError = Some 504"
| "error_status_map CDeploymentAuthError = Some 401"
| "error_status_map CDeploymentRateLimitError = Some 429"
| "error_status_map CDeploymentServerError = Some 502"
| "error_status_map CDeploymentNetworkError = Some 502"
| "error_status_map CCacheKeyNotFound = Some 404"
| "error_status_map CCacheExpired = Some 410"
| "error_status_map CHealthCheckFailed = Some 503"
| "error_status_map CHealthCheckTimeout = Some 504"
| "error_status_map CInvalidDeploymentConfig = Some 400"
| "error_status_map CMissingRequiredField = Some 400"
| "error_status_map CRouterError = Some 500"
| "error_status_map CDeploymentError = Some 500"
| "error_status_map CCacheError = Some 500"
| "error_status_map CHealthCheckError = Some 500"
| "error_status_map CConfigError = Some 400"
| "error_status_map CIntelliRouterError = Some 500"
| "error_status_map _ = None"

fun first_status :: "exc_class list \<Rightarrow> nat" where
  "first_status [] = 500"
| "first_status (c # cs) = (case error_status_map c of Some s \<Rightarrow> s | None \<Rightarrow> first_status cs)"

definition get_status_code :: "router_exc \<Rightarrow> nat" where
  "get_status_code e = first_status (mro (class_of_exc e))"

section \<open>Classification\<close>

lemma mro_simps [simp]:
  "mro CBaseException = [CBaseException]"
  "mro CCancelledError = [CCancelledError, CBaseException]"
  "mro CGeneratorExit = [CGeneratorExit, CBaseException]"
  "mro CException = [CException, CBaseException]"
  "mro CValueError = [CValueError, CException, CBaseException]"
  "mro CJSONDecodeError = [CJSONDecodeError, CValueError, CException, CBaseException]"
  "mro CTypeError = [CTypeError, CException, CBaseException]"
  "mro CAttributeError = [CAttributeError, CException, CBaseException]"
  "mro CIntelliRouterError = [CIntelliRouterError, CException, CBaseException]"
  "mro CRouterError = [CRouterError, CIntelliRouterError, CException, CBaseException]"
  "mro CDeploymentError = [CDeploymentError, CIntelliRouterError, CException, CBaseException]"
  by (simp_all add: mro.simps)

lemma class_base_chain: "mro c = [c] \<or> (\<exists>b. class_base c = Some b \<and> mro c = c # mro b)"
  by (subst (1 2) mro.simps) (auto split: option.splits)

text \<open>Every exception has a status of at least 400, and the router's own failures map to server-side codes.\<close>

lemma first_status_range: "400 \<le> first_status cs \<and> first_status cs < 600"
proof (induction cs)
  case (Cons c cs)
  have "error_status_map c = Some s \<Longrightarrow> 400 \<le> s \<and> s < 600" for s by (cases c) auto
  then show ?case using Cons by (auto split: option.splits)
qed simp

lemma router_failure_status [simp]:
  "get_status_code (NoDeploymentAvailable m r) = 503" "get_status_code (AllDeploymentsFailed m es) = 503"
  by (simp_all add: get_status_code_def mro.simps [of CNoDeploymentAvailable] mro.simps [of CAllDeploymentsFailed])

end
