(* ===== verification/RouterState.thy ===== *)
theory RouterState
  imports RouterErrors
begin

text \<open>
  \<open>intelli_router/core/deployment.py\<close>, \<open>core/context.py\<close> and \<open>core/state.py\<close>: the configuration of a deployment,
  the context of one request, and the run-time state that the router, the strategies and the health checker
  share. A dictionary of the state is an association list in insertion order; every method runs under the lock of
  the state and is one step. Times are exact; a reading of the clock is an argument.
\<close>

section \<open>Numbers with infinity\<close>

text \<open>The results that may be \<open>float('inf')\<close>.\<close>

datatype pyfloat = Fin rat | Inf

instantiation pyfloat :: linorder
begin

fun less_eq_pyfloat :: "pyfloat \<Rightarrow> pyfloat \<Rightarrow> bool" where
  "less_eq_pyfloat (Fin a) (Fin b) = (a \<le> b)"
| "less_eq_pyfloat (Fin a) Inf = True"
| "less_eq_pyfloat Inf (Fin b) = False"
| "less_eq_pyfloat Inf Inf = True"

definition less_pyfloat :: "pyfloat \<Rightarrow> pyfloat \<Rightarrow> bool" where
  "less_pyfloat a b \<longleftrightarrow> a \<le> b \<and> \<not> b \<le> a"

instance
proof
  fix x y z :: pyfloat
  show "x < y \<longleftrightarrow> x \<le> y \<and> \<not> y \<le> x" by (rule less_pyfloat_def)
  show "x \<le> x" by (cases x) auto
  show "x \<le> y \<Longrightarrow> y \<le> z \<Longrightarrow> x \<le> z" by (cases x; cases y; cases z) auto
  show "x \<le> y \<Longrightarrow> y \<le> x \<Longrightarrow> x = y" by (cases x; cases y) auto
  show "x \<le> y \<or> y \<le> x" by (cases x; cases y) auto
qed

end

lemma pyfloat_less [simp]: "Fin a < Fin b \<longleftrightarrow> a < b" "Fin a < Inf" "\<not> Inf < x"
  by (auto simp: less_pyfloat_def) (cases x; auto)

lemma pyfloat_le_Inf [simp]: "x \<le> Inf" "Inf \<le> x \<longleftrightarrow> x = Inf"
  by (cases x; auto)+

section \<open>Deployments\<close>

datatype deployment_status = Healthy | Cooldown

record deployment =
  d_model_name :: string
  d_api_key :: string
  d_api_base :: string
  d_id :: string
  d_model_id :: "string option"
  d_status :: deployment_status
  d_consecutive_failures :: int
  d_cooldown_until :: "rat option"
  d_tags :: "string list"
  d_tpm :: "int option"
  d_rpm :: "int option"
  d_timeout :: "rat option"
  d_provider :: string
  d_verify_ssl :: bool
  d_request_defaults :: pdict
  d_endpoint_profile :: "string option"
  d_custom_headers :: "(string \<times> string) list option"
  d_fallback_tag :: "string option"
  d_model_description :: "string option"

text \<open>
  The arguments that \<open>__post_init__\<close> checks may be any value; a number with a fraction is \<open>AFloat\<close>. The other
  fields are taken from a record of the declared types.
\<close>

datatype arg = AVal pyval | AFloat rat

record deployment_args =
  a_model_name :: arg
  a_api_key :: arg
  a_api_base :: arg
  a_provider :: arg
  a_tpm :: arg
  a_rpm :: arg
  a_consecutive_failures :: arg
  a_timeout :: arg

fun check_text :: "bool \<Rightarrow> arg \<Rightarrow> router_exc + string" where
  "check_text empty_allowed (AVal (PStr s)) =
     (if s = [] \<and> \<not> empty_allowed then Inl (Other CValueError ''must be a non-empty string'') else Inr s)"
| "check_text _ _ = Inl (Other CValueError ''must be a non-empty string'')"

fun check_quota :: "arg \<Rightarrow> router_exc + int option" where
  "check_quota (AVal PNone) = Inr None"
| "check_quota (AVal (PInt n)) =
     (if n \<le> 0 then Inl (Other CValueError ''must be a positive int'') else Inr (Some n))"
| "check_quota _ = Inl (Other CTypeError ''must be an int or None'')"

fun check_failures :: "arg \<Rightarrow> router_exc + int" where
  "check_failures (AVal (PInt n)) = (if n < 0 then Inl (Other CValueError ''must be >= 0'') else Inr n)"
| "check_failures _ = Inl (Other CTypeError ''must be an int'')"

definition check_positive :: "rat \<Rightarrow> router_exc + rat option" where
  "check_positive t = (if t \<le> 0 then Inl (Other CValueError ''must be a positive number'') else Inr (Some t))"

fun check_timeout :: "arg \<Rightarrow> router_exc + rat option" where
  "check_timeout (AVal PNone) = Inr None"
| "check_timeout (AVal (PInt n)) = check_positive (of_int n)"
| "check_timeout (AFloat t) = check_positive t"
| "check_timeout _ = Inl (Other CTypeError ''must be a number or None'')"

definition deployment_post_init :: "deployment_args \<Rightarrow> deployment \<Rightarrow> router_exc + deployment" where
  "deployment_post_init a d =
     rbind (check_text False (a_model_name a)) (\<lambda>model.
     rbind (check_text (a_provider a = AVal (PStr ''aws-bedrock'')) (a_api_key a)) (\<lambda>key.
     rbind (check_text False (a_api_base a)) (\<lambda>base.
     rbind (check_text False (a_provider a)) (\<lambda>provider.
     rbind (check_quota (a_tpm a)) (\<lambda>tpm.
     rbind (check_quota (a_rpm a)) (\<lambda>rpm.
     rbind (check_failures (a_consecutive_failures a)) (\<lambda>failures.
     rbind (check_timeout (a_timeout a)) (\<lambda>timeout.
       Inr (d\<lparr>d_model_name := model, d_api_key := key, d_api_base := base, d_provider := provider,
              d_tpm := tpm, d_rpm := rpm, d_consecutive_failures := failures, d_timeout := timeout\<rparr>)))))))))"

text \<open>A cooldown time of 0.0 is falsy, like a missing one.\<close>

definition deployment_is_available :: "deployment \<Rightarrow> rat \<Rightarrow> bool" where
  "deployment_is_available d now \<longleftrightarrow> \<not> (d_status d = Cooldown \<and>
     (case d_cooldown_until d of None \<Rightarrow> False | Some t \<Rightarrow> t \<noteq> 0 \<and> now < t))"

definition deployment_ok :: "deployment \<Rightarrow> bool" where
  "deployment_ok d \<longleftrightarrow> d_model_name d \<noteq> [] \<and> (d_api_key d \<noteq> [] \<or> d_provider d = ''aws-bedrock'') \<and> d_api_base d \<noteq> []
     \<and> d_provider d \<noteq> [] \<and> (\<forall>n. d_tpm d = Some n \<longrightarrow> 0 < n) \<and> (\<forall>n. d_rpm d = Some n \<longrightarrow> 0 < n)
     \<and> 0 \<le> d_consecutive_failures d \<and> (\<forall>t. d_timeout d = Some t \<longrightarrow> 0 < t)"

lemma check_text_Inr: "check_text e a = Inr s \<longleftrightarrow> a = AVal (PStr s) \<and> (s \<noteq> [] \<or> e)"
  by (cases "(e, a)" rule: check_text.cases) auto

lemma check_quota_Inr: "check_quota a = Inr q \<longleftrightarrow>
    (a = AVal PNone \<and> q = None) \<or> (\<exists>n. a = AVal (PInt n) \<and> 0 < n \<and> q = Some n)"
  by (cases a rule: check_quota.cases) auto

lemma check_failures_Inr: "check_failures a = Inr n \<longleftrightarrow> a = AVal (PInt n) \<and> 0 \<le> n"
  by (cases a rule: check_failures.cases) auto

lemma check_timeout_Inr: "check_timeout a = Inr q \<longleftrightarrow>
    (a = AVal PNone \<and> q = None) \<or> (\<exists>n. a = AVal (PInt n) \<and> 0 < n \<and> q = Some (of_int n))
    \<or> (\<exists>t. a = AFloat t \<and> 0 < t \<and> q = Some t)"
  by (cases a rule: check_timeout.cases) (auto simp: check_positive_def)

lemmas arg_checks = check_text_Inr check_quota_Inr check_failures_Inr check_timeout_Inr

lemma deployment_post_init_ok: "deployment_post_init a d = Inr d' \<Longrightarrow> deployment_ok d'"
  by (auto simp: deployment_post_init_def rbind_Inr_iff arg_checks deployment_ok_def)

section \<open>Context of a request\<close>

record routing_context =
  rc_model :: string
  rc_kwargs :: pdict
  rc_selected :: "deployment option"
  rc_attempted :: "string list"
  rc_start_time :: rat
  rc_end_time :: "rat option"
  rc_response :: "pyval option"
  rc_error :: "router_exc option"
  rc_request_tags :: "string list"

definition new_context :: "string \<Rightarrow> pdict \<Rightarrow> rat \<Rightarrow> routing_context" where
  "new_context model kwargs now = \<lparr>rc_model = model, rc_kwargs = kwargs, rc_selected = None, rc_attempted = [],
     rc_start_time = now, rc_end_time = None, rc_response = None, rc_error = None, rc_request_tags = []\<rparr>"

definition mark_attempt :: "deployment \<Rightarrow> routing_context \<Rightarrow> routing_context" where
  "mark_attempt d c = c\<lparr>rc_attempted := rc_attempted c @ [d_id d]\<rparr>"

definition set_success :: "deployment \<Rightarrow> pyval option \<Rightarrow> rat \<Rightarrow> routing_context \<Rightarrow> routing_context" where
  "set_success d r now c = c\<lparr>rc_selected := Some d, rc_response := r, rc_end_time := Some now\<rparr>"

definition set_failure :: "router_exc \<Rightarrow> rat \<Rightarrow> routing_context \<Rightarrow> routing_context" where
  "set_failure e now c = c\<lparr>rc_error := Some e, rc_end_time := Some now\<rparr>"

definition context_latency :: "routing_context \<Rightarrow> rat" where
  "context_latency c = (case rc_end_time c of None \<Rightarrow> 0 | Some t \<Rightarrow> t - rc_start_time c)"

section \<open>Run-time state\<close>

abbreviation max_latency_history :: nat where
  "max_latency_history \<equiv> 10"

record latency_record =
  lr_latency :: rat
  lr_tokens :: int
  lr_normalized :: rat
  lr_timestamp :: rat

record token_usage =
  tu_used :: int
  tu_limit :: int

definition tu_remaining :: "token_usage \<Rightarrow> int" where
  "tu_remaining u = max 0 (tu_limit u - tu_used u)"

definition tu_utilization_ratio :: "token_usage \<Rightarrow> rat" where
  "tu_utilization_ratio u = (if tu_limit u = 0 then 0 else of_int (tu_used u) / of_int (tu_limit u))"

record rpm_tracker =
  rt_limit :: int
  rt_requests :: "rat list"

text \<open>The time stamp of the new request and the time of the clean-up are two readings.\<close>

definition rt_add_request :: "rat \<Rightarrow> rat \<Rightarrow> rpm_tracker \<Rightarrow> rpm_tracker" where
  "rt_add_request stamp now t = t\<lparr>rt_requests := filter (\<lambda>r. now - r < 60) (rt_requests t @ [stamp])\<rparr>"

definition rt_current :: "rat \<Rightarrow> rpm_tracker \<Rightarrow> int" where
  "rt_current now t = int (length (filter (\<lambda>r. now - r < 60) (rt_requests t)))"

definition rt_remaining :: "rat \<Rightarrow> rpm_tracker \<Rightarrow> int" where
  "rt_remaining now t = max 0 (rt_limit t - rt_current now t)"

definition rt_utilization_ratio :: "rat \<Rightarrow> rpm_tracker \<Rightarrow> rat" where
  "rt_utilization_ratio now t = (if rt_limit t = 0 then 0 else of_int (rt_current now t) / of_int (rt_limit t))"

text \<open>A cooldown entry may be \<open>None\<close>. A session is named by the value the caller passes.\<close>

record router_state =
  rs_status :: "(string \<times> deployment_status) list"
  rs_failures :: "(string \<times> int) list"
  rs_cooldown :: "(string \<times> rat option) list"
  rs_latencies :: "(string \<times> latency_record list) list"
  rs_total_tokens :: "(string \<times> int) list"
  rs_total_requests :: "(string \<times> int) list"
  rs_health :: "(string \<times> bool) list"
  rs_token_usage :: "(string \<times> token_usage) list"
  rs_rpm :: "(string \<times> rpm_tracker) list"
  rs_sessions :: "(pyval \<times> string) list"
  rs_session_times :: "(pyval \<times> rat) list"

definition new_state :: router_state where
  "new_state = \<lparr>rs_status = [], rs_failures = [], rs_cooldown = [], rs_latencies = [], rs_total_tokens = [],
     rs_total_requests = [], rs_health = [], rs_token_usage = [], rs_rpm = [], rs_sessions = [], rs_session_times = []\<rparr>"

definition get_or :: "('k \<times> 'v) list \<Rightarrow> 'k \<Rightarrow> 'v \<Rightarrow> 'v" where
  "get_or d k v = (case map_of d k of None \<Rightarrow> v | Some w \<Rightarrow> w)"

definition reset_deployment :: "string \<Rightarrow> router_state \<Rightarrow> router_state" where
  "reset_deployment i st = st\<lparr>rs_status := AList.update i Healthy (rs_status st),
     rs_cooldown := AList.update i None (rs_cooldown st), rs_health := AList.update i True (rs_health st)\<rparr>"

definition update_health :: "string \<Rightarrow> bool \<Rightarrow> router_state \<Rightarrow> router_state" where
  "update_health i healthy st =
     (let st1 = st\<lparr>rs_health := AList.update i healthy (rs_health st)\<rparr> in
      if healthy then st1\<lparr>rs_status := AList.update i Healthy (rs_status st1),
                          rs_cooldown := AList.update i None (rs_cooldown st1)\<rparr>
      else st1)"

text \<open>
  \<open>on_success\<close>: the token count comes from the answer of the provider, whatever it is; \<open>max(tokens, 1)\<close>
  raises \<open>TypeError\<close> when it is no number, after the failure count has been reset. The readings of the clock are
  the time stamp of the latency record and the two of \<open>RPMTracker.add_request\<close>.
\<close>

fun token_int :: "pyval \<Rightarrow> int option" where
  "token_int (PInt n) = Some n"
| "token_int (PBool b) = Some (of_bool b)"
| "token_int _ = None"

definition recovered :: "string \<Rightarrow> router_state \<Rightarrow> router_state" where
  "recovered i st = st\<lparr>rs_failures := AList.update i 0 (rs_failures st),
     rs_status := AList.update i Healthy (rs_status st), rs_cooldown := AList.update i None (rs_cooldown st)\<rparr>"

definition add_record :: "latency_record \<Rightarrow> latency_record list \<Rightarrow> latency_record list" where
  "add_record r rs = (let rs' = rs @ [r] in if length rs' > max_latency_history then tl rs' else rs')"

definition count_success :: "string \<Rightarrow> rat \<Rightarrow> int \<Rightarrow> rat \<times> rat \<times> rat \<Rightarrow> router_state \<Rightarrow> router_state" where
  "count_success i latency n clock st =
     (case clock of (t_record, t_stamp, t_now) \<Rightarrow>
        st\<lparr>rs_latencies := AList.update i (add_record \<lparr>lr_latency = latency, lr_tokens = n,
             lr_normalized = latency / of_int (max n 1), lr_timestamp = t_record\<rparr> (get_or (rs_latencies st) i [])) (rs_latencies st),
           rs_total_tokens := AList.update i (get_or (rs_total_tokens st) i 0 + n) (rs_total_tokens st),
           rs_total_requests := AList.update i (get_or (rs_total_requests st) i 0 + 1) (rs_total_requests st),
           rs_health := AList.update i True (rs_health st),
           rs_token_usage := AList.map_entry i (\<lambda>u. u\<lparr>tu_used := tu_used u + n\<rparr>) (rs_token_usage st),
           rs_rpm := AList.map_entry i (rt_add_request t_stamp t_now) (rs_rpm st)\<rparr>)"

definition state_on_success ::
  "string \<Rightarrow> rat \<Rightarrow> pyval \<Rightarrow> rat \<times> rat \<times> rat \<Rightarrow> router_state \<Rightarrow> router_exc option \<times> router_state" where
  "state_on_success i latency tokens clock st =
     (case token_int tokens of
        None \<Rightarrow> (Some (Other CTypeError ''not supported between instances''), recovered i st)
      | Some n \<Rightarrow> (None, count_success i latency n clock (recovered i st)))"

definition state_on_failure :: "string \<Rightarrow> rat \<Rightarrow> rat \<Rightarrow> router_state \<Rightarrow> router_state" where
  "state_on_failure i cooldown_time now st =
     (let n = get_or (rs_failures st) i 0 + 1 in
      st\<lparr>rs_failures := AList.update i n (rs_failures st), rs_status := AList.update i Cooldown (rs_status st),
         rs_cooldown := AList.update i (Some (now + cooldown_time * of_int n)) (rs_cooldown st),
         rs_health := AList.update i False (rs_health st)\<rparr>)"

definition get_average_latency :: "router_state \<Rightarrow> string \<Rightarrow> pyfloat" where
  "get_average_latency st i =
     (let rs = filter (\<lambda>r. lr_tokens r > 0) (get_or (rs_latencies st) i []) in
      if rs = [] then Inf else Fin (sum_list (map lr_normalized rs) / of_nat (length rs)))"

definition get_average_latency_raw :: "router_state \<Rightarrow> string \<Rightarrow> rat option" where
  "get_average_latency_raw st i =
     (let rs = get_or (rs_latencies st) i [] in
      if rs = [] then None else Some (sum_list (map lr_latency rs) / of_nat (length rs)))"

text \<open>
  The comparison \<open>cooldown_until.get(id, 0) <= now\<close> is not defined for a \<open>None\<close> entry; the entry of a
  deployment in cooldown is a time (\<open>state_ok\<close> below).
\<close>

definition cooldown_time_of :: "router_state \<Rightarrow> string \<Rightarrow> rat" where
  "cooldown_time_of st i = (case map_of (rs_cooldown st) i of Some (Some t) \<Rightarrow> t | _ \<Rightarrow> 0)"

fun available_loop :: "rat \<Rightarrow> (string \<times> deployment_status) list \<Rightarrow> router_state \<Rightarrow> string list \<times> router_state" where
  "available_loop now [] st = ([], st)"
| "available_loop now ((i, s) # rest) st =
     (if s = Healthy then let (ids, st') = available_loop now rest st in (i # ids, st')
      else if cooldown_time_of st i \<le> now
           then let (ids, st') = available_loop now rest (reset_deployment i st) in (i # ids, st')
      else available_loop now rest st)"

definition get_available_deployments :: "rat \<Rightarrow> router_state \<Rightarrow> string list \<times> router_state" where
  "get_available_deployments now st = available_loop now (rs_status st) st"

definition get_token_remaining :: "router_state \<Rightarrow> string \<Rightarrow> pyfloat" where
  "get_token_remaining st i = (case map_of (rs_token_usage st) i of None \<Rightarrow> Inf | Some u \<Rightarrow> Fin (of_int (tu_remaining u)))"

definition get_rpm_remaining :: "rat \<Rightarrow> router_state \<Rightarrow> string \<Rightarrow> pyfloat" where
  "get_rpm_remaining now st i = (case map_of (rs_rpm st) i of None \<Rightarrow> Inf | Some t \<Rightarrow> Fin (of_int (rt_remaining now t)))"

definition get_token_utilization :: "router_state \<Rightarrow> string \<Rightarrow> rat" where
  "get_token_utilization st i = (case map_of (rs_token_usage st) i of None \<Rightarrow> 0 | Some u \<Rightarrow> tu_utilization_ratio u)"

definition get_rpm_utilization :: "rat \<Rightarrow> router_state \<Rightarrow> string \<Rightarrow> rat" where
  "get_rpm_utilization now st i = (case map_of (rs_rpm st) i of None \<Rightarrow> 0 | Some t \<Rightarrow> rt_utilization_ratio now t)"

definition drop_sessions :: "(string \<Rightarrow> bool) \<Rightarrow> router_state \<Rightarrow> router_state" where
  "drop_sessions gone st =
     (let sids = map fst (filter (\<lambda>(sid, i). gone i) (rs_sessions st)) in
      st\<lparr>rs_sessions := filter (\<lambda>(sid, i). \<not> gone i) (rs_sessions st),
         rs_session_times := filter (\<lambda>(sid, t). sid \<notin> set sids) (rs_session_times st)\<rparr>)"

definition keep_deployments :: "(string \<Rightarrow> bool) \<Rightarrow> router_state \<Rightarrow> router_state" where
  "keep_deployments kept st = st\<lparr>
     rs_status := filter (\<lambda>(i, _). kept i) (rs_status st), rs_failures := filter (\<lambda>(i, _). kept i) (rs_failures st),
     rs_cooldown := filter (\<lambda>(i, _). kept i) (rs_cooldown st), rs_latencies := filter (\<lambda>(i, _). kept i) (rs_latencies st),
     rs_total_tokens := filter (\<lambda>(i, _). kept i) (rs_total_tokens st),
     rs_total_requests := filter (\<lambda>(i, _). kept i) (rs_total_requests st), rs_health := filter (\<lambda>(i, _). kept i) (rs_health st),
     rs_token_usage := filter (\<lambda>(i, _). kept i) (rs_token_usage st), rs_rpm := filter (\<lambda>(i, _). kept i) (rs_rpm st)\<rparr>"

definition state_remove_deployment :: "string \<Rightarrow> router_state \<Rightarrow> bool \<times> router_state" where
  "state_remove_deployment i st =
     (map_of (rs_status st) i \<noteq> None \<or> map_of (rs_latencies st) i \<noteq> None,
      drop_sessions (\<lambda>j. j = i) (keep_deployments (\<lambda>j. j \<noteq> i) st))"

definition state_ids :: "router_state \<Rightarrow> string list" where
  "state_ids st = map fst (rs_status st) @ map fst (rs_failures st) @ map fst (rs_cooldown st) @ map fst (rs_latencies st)
     @ map fst (rs_total_tokens st) @ map fst (rs_total_requests st) @ map fst (rs_health st)
     @ map fst (rs_token_usage st) @ map fst (rs_rpm st)"

definition cleanup_deployments :: "string list \<Rightarrow> router_state \<Rightarrow> string list \<times> router_state" where
  "cleanup_deployments keep st =
     (rev (remdups (rev (filter (\<lambda>i. i \<notin> set keep) (state_ids st)))),
      drop_sessions (\<lambda>i. i \<notin> set keep) (keep_deployments (\<lambda>i. i \<in> set keep) st))"

section \<open>Invariant of the state\<close>

text \<open>
  The dictionaries have one entry per key, a deployment in cooldown has a time, at most ten latencies are kept,
  and the two session dictionaries have the same keys.
\<close>

definition cooldowns_timed :: "router_state \<Rightarrow> bool" where
  "cooldowns_timed st \<longleftrightarrow> (\<forall>i. map_of (rs_status st) i = Some Cooldown \<longrightarrow> (\<exists>t. map_of (rs_cooldown st) i = Some (Some t)))"

definition history_bounded :: "router_state \<Rightarrow> bool" where
  "history_bounded st \<longleftrightarrow> (\<forall>i rs. map_of (rs_latencies st) i = Some rs \<longrightarrow> rs \<noteq> [] \<and> length rs \<le> max_latency_history)"

definition sessions_paired :: "router_state \<Rightarrow> bool" where
  "sessions_paired st \<longleftrightarrow> dom (map_of (rs_sessions st)) = dom (map_of (rs_session_times st))"

definition dicts_distinct :: "router_state \<Rightarrow> bool" where
  "dicts_distinct st \<longleftrightarrow> keys_distinct (rs_status st) \<and> keys_distinct (rs_failures st) \<and> keys_distinct (rs_cooldown st)
     \<and> keys_distinct (rs_latencies st) \<and> keys_distinct (rs_total_tokens st) \<and> keys_distinct (rs_total_requests st)
     \<and> keys_distinct (rs_health st) \<and> keys_distinct (rs_token_usage st) \<and> keys_distinct (rs_rpm st)
     \<and> keys_distinct (rs_sessions st) \<and> keys_distinct (rs_session_times st)"

definition state_ok :: "router_state \<Rightarrow> bool" where
  "state_ok st \<longleftrightarrow> dicts_distinct st \<and> cooldowns_timed st \<and> history_bounded st \<and> sessions_paired st"

lemmas state_ok_defs = state_ok_def dicts_distinct_def cooldowns_timed_def history_bounded_def sessions_paired_def

lemma state_ok_new [simp]: "state_ok new_state"
  by (simp add: state_ok_defs new_state_def)

lemma keys_distinct_map_entry [simp]: "keys_distinct d \<Longrightarrow> keys_distinct (AList.map_entry k f d)"
  by (rule distinct_map_entry)

lemma state_ok_reset [simp]: "state_ok st \<Longrightarrow> state_ok (reset_deployment i st)"
  by (auto simp: state_ok_defs reset_deployment_def simp del: map_of_eq_Some_iff)

lemma state_ok_health [simp]: "state_ok st \<Longrightarrow> state_ok (update_health i b st)"
  by (auto simp: state_ok_defs update_health_def Let_def simp del: map_of_eq_Some_iff)

lemma state_ok_recovered: "state_ok st \<Longrightarrow> state_ok (recovered i st)"
  by (auto simp: state_ok_defs recovered_def simp del: map_of_eq_Some_iff)

lemma add_record_length: "length rs \<le> max_latency_history \<Longrightarrow>
    add_record r rs \<noteq> [] \<and> length (add_record r rs) \<le> max_latency_history"
  by (cases rs) (auto simp: add_record_def Let_def)

lemma state_ok_count: "state_ok st \<Longrightarrow> state_ok (count_success i l n clock st)"
proof -
  assume ok: "state_ok st"
  have "length (get_or (rs_latencies st) i []) \<le> max_latency_history"
    using ok by (auto simp: state_ok_defs get_or_def split: option.splits simp del: map_of_eq_Some_iff)
  then show ?thesis using ok by (auto simp: state_ok_defs count_success_def add_record_length
    split: prod.splits if_splits simp del: map_of_eq_Some_iff)
qed

lemma state_ok_success: "state_ok st \<Longrightarrow> state_ok (snd (state_on_success i l tokens clock st))"
  by (simp add: state_on_success_def state_ok_recovered state_ok_count split: option.split)

lemma state_ok_failure [simp]: "state_ok st \<Longrightarrow> state_ok (state_on_failure i c now st)"
  by (auto simp: state_ok_defs state_on_failure_def Let_def simp del: map_of_eq_Some_iff)

lemma state_ok_keep: "state_ok st \<Longrightarrow> state_ok (keep_deployments kept st)"
  by (auto simp: state_ok_defs keep_deployments_def map_of_filter_key split: if_splits simp del: map_of_eq_Some_iff)

lemma map_of_filter_snd: "keys_distinct d \<Longrightarrow>
    map_of (filter (\<lambda>(k, v). P v) d) k = (case map_of d k of None \<Rightarrow> None | Some v \<Rightarrow> if P v then Some v else None)"
  by (simp add: map_of_filter_distinct split: option.split)

lemma state_ok_drop_sessions: "state_ok st \<Longrightarrow> state_ok (drop_sessions gone st)"
proof -
  assume ok: "state_ok st"
  then have kd: "keys_distinct (rs_sessions st)" by (simp add: state_ok_defs)
  define sids where "sids = map fst (filter (\<lambda>(sid, i). gone i) (rs_sessions st))"
  have gone: "sid \<in> set sids \<longleftrightarrow> (\<exists>i. map_of (rs_sessions st) sid = Some i \<and> gone i)" for sid
    using kd unfolding sids_def by force
  have paired: "map_of (rs_sessions st) sid = None \<longleftrightarrow> map_of (rs_session_times st) sid = None" for sid
    using ok unfolding state_ok_def sessions_paired_def by (metis domIff)
  have "map_of (rs_sessions (drop_sessions gone st)) sid = None
      \<longleftrightarrow> map_of (rs_session_times (drop_sessions gone st)) sid = None" for sid
  proof -
    have "map_of (rs_sessions (drop_sessions gone st)) sid = None
        \<longleftrightarrow> \<not> (\<exists>i. map_of (rs_sessions st) sid = Some i \<and> \<not> gone i)"
      unfolding drop_sessions_def Let_def by (simp add: map_of_filter_snd [OF kd] split: option.split)
    moreover have "map_of (rs_session_times (drop_sessions gone st)) sid = None
        \<longleftrightarrow> (\<exists>i. map_of (rs_sessions st) sid = Some i \<and> gone i) \<or> map_of (rs_session_times st) sid = None"
      using map_of_filter_key [of "\<lambda>sid. sid \<notin> set sids" "rs_session_times st" sid] gone [of sid]
      unfolding drop_sessions_def Let_def sids_def [symmetric] by (auto simp del: map_of_eq_None_iff)
    ultimately show ?thesis using paired [of sid] by (cases "map_of (rs_sessions st) sid") auto
  qed
  then have "sessions_paired (drop_sessions gone st)"
    unfolding sessions_paired_def dom_def by (simp only: simp_thms)
  moreover have "dicts_distinct (drop_sessions gone st)" "cooldowns_timed (drop_sessions gone st)"
      "history_bounded (drop_sessions gone st)"
    using ok by (simp_all add: state_ok_defs drop_sessions_def Let_def del: map_of_eq_Some_iff)
  ultimately show ?thesis by (simp add: state_ok_def)
qed

lemma state_ok_remove: "state_ok st \<Longrightarrow> state_ok (snd (state_remove_deployment i st))"
  by (simp add: state_remove_deployment_def state_ok_drop_sessions state_ok_keep)

lemma state_ok_cleanup: "state_ok st \<Longrightarrow> state_ok (snd (cleanup_deployments keep st))"
  by (simp add: cleanup_deployments_def state_ok_drop_sessions state_ok_keep)

lemma state_ok_available: "state_ok st \<Longrightarrow> state_ok (snd (available_loop now ss st))"
  by (induction now ss st rule: available_loop.induct) (auto simp: Let_def split: prod.splits)

lemmas state_ok_intros = state_ok_reset state_ok_health state_ok_success state_ok_failure state_ok_remove
  state_ok_cleanup state_ok_available

section \<open>Availability\<close>

text \<open>What the state says of a deployment at a time, and how the operations change it.\<close>

definition usable :: "router_state \<Rightarrow> rat \<Rightarrow> string \<Rightarrow> bool" where
  "usable st now i \<longleftrightarrow> map_of (rs_status st) i \<noteq> Some Cooldown \<or> cooldown_time_of st i \<le> now"

lemma cooling_after_failure:
  "usable (state_on_failure i c t st) now i \<longleftrightarrow> t + c * of_int (get_or (rs_failures st) i 0 + 1) \<le> now"
  by (simp add: usable_def state_on_failure_def Let_def cooldown_time_of_def)

lemma usable_other [simp]:
  "j \<noteq> i \<Longrightarrow> usable (state_on_failure i c t st) now j \<longleftrightarrow> usable st now j"
  "j \<noteq> i \<Longrightarrow> usable (reset_deployment i st) now j \<longleftrightarrow> usable st now j"
  by (simp_all add: usable_def state_on_failure_def reset_deployment_def Let_def cooldown_time_of_def)

lemma usable_reset [simp]: "usable (reset_deployment i st) now i"
  by (simp add: usable_def reset_deployment_def)

lemma usable_recovered: "usable (recovered i st) now j \<longleftrightarrow> j = i \<or> usable st now j"
  by (simp add: usable_def recovered_def cooldown_time_of_def)

lemma usable_success: "usable (snd (state_on_success i l n clock st)) now j \<longleftrightarrow> j = i \<or> usable st now j"
proof -
  have "usable (count_success i l m clock s) now j \<longleftrightarrow> usable s now j" for m s
    by (simp add: usable_def count_success_def cooldown_time_of_def split: prod.split)
  then show ?thesis by (simp add: state_on_success_def usable_recovered split: option.split)
qed

text \<open>The listing returns the known deployments that are usable.\<close>

lemma available_loop_ids:
  assumes "distinct (map fst ss)"
  shows "set (fst (available_loop now ss st)) =
    {i. \<exists>s. (i, s) \<in> set ss \<and> (s = Healthy \<or> cooldown_time_of st i \<le> now)}"
  using assms
proof (induction now ss st rule: available_loop.induct)
  case (2 now i s rest st)
  have same: "cooldown_time_of (reset_deployment i st) j = cooldown_time_of st j" if "j \<in> fst ` set rest" for j
    using that 2(4) by (auto simp: cooldown_time_of_def reset_deployment_def)
  show ?case
  proof (cases "s = Healthy")
    case True
    then show ?thesis using 2(1) [OF True] 2(4) by (auto simp: Let_def split_beta)
  next
    case False
    show ?thesis
    proof (cases "cooldown_time_of st i \<le> now")
      case True
      have "set (fst (available_loop now rest (reset_deployment i st)))
          = {j. \<exists>s. (j, s) \<in> set rest \<and> (s = Healthy \<or> cooldown_time_of (reset_deployment i st) j \<le> now)}"
        using 2(2) [OF False True] 2(4) by simp
      also have "\<dots> = {j. \<exists>s. (j, s) \<in> set rest \<and> (s = Healthy \<or> cooldown_time_of st j \<le> now)}"
        using same by (force simp: image_iff)
      finally show ?thesis using False True by (auto simp: Let_def split_beta)
    next
      case cooling: False
      then show ?thesis using 2(3) [OF False cooling] 2(4) False by auto
    qed
  qed
qed simp

lemma get_available_exact:
  assumes "state_ok st"
  shows "set (fst (get_available_deployments now st)) = {i \<in> dom (map_of (rs_status st)). usable st now i}"
proof -
  have kd: "keys_distinct (rs_status st)" using assms by (simp add: state_ok_defs)
  then have mem: "(i, s) \<in> set (rs_status st) \<longleftrightarrow> map_of (rs_status st) i = Some s" for i s by (simp add: eq_commute)
  have st: "s = Healthy \<longleftrightarrow> s \<noteq> Cooldown" for s by (cases s) auto
  show ?thesis
    unfolding get_available_deployments_def available_loop_ids [OF kd] mem usable_def by (auto simp: st)
qed


end
