(* ===== verification/RouterMessages.thy ===== *)
theory RouterMessages
  imports RouterErrors
begin

text \<open>
  The typed responses of \<open>intelli_router/types.py\<close> and the conversions of \<open>router/reliable_router.py\<close> from the
  OpenAI-style dictionaries of a provider. A provider may answer with anything, so that every read of the answer
  is a fallible operation on a Python value.
\<close>

section \<open>Reading a value\<close>

text \<open>\<open>v.get(k, dflt)\<close>, \<open>v[0]\<close> and \<open>for x in v\<close>.\<close>

fun py_get :: "pyval \<Rightarrow> string \<Rightarrow> pyval \<Rightarrow> router_exc + pyval" where
  "py_get (PDict d) k dflt = Inr (dget_or d k dflt)"
| "py_get _ k dflt = Inl (Other CAttributeError ''object has no attribute get'')"

fun py_first :: "pyval \<Rightarrow> router_exc + pyval" where
  "py_first (PList (x # _)) = Inr x"
| "py_first (PStr (c # _)) = Inr (PStr [c])"
| "py_first (PList []) = Inl (Other CIndexError ''list index out of range'')"
| "py_first (PStr []) = Inl (Other CIndexError ''string index out of range'')"
| "py_first (PDict _) = Inl (Other CKeyError ''0'')"
| "py_first _ = Inl (Other CTypeError ''object is not subscriptable'')"

fun py_iter :: "pyval \<Rightarrow> router_exc + pyval list" where
  "py_iter (PList xs) = Inr xs"
| "py_iter (PStr s) = Inr (map (\<lambda>c. PStr [c]) s)"
| "py_iter (PDict d) = Inr (map (\<lambda>kv. PStr (fst kv)) d)"
| "py_iter _ = Inl (Other CTypeError ''object is not iterable'')"

text \<open>\<open>bool(a.get(k) or b.get(l) or ...)\<close>: the reads stop at the first truthy value.\<close>

fun any_field :: "(pyval \<times> string) list \<Rightarrow> router_exc + bool" where
  "any_field [] = Inr False"
| "any_field ((v, k) # rest) = rbind (py_get v k PNone) (\<lambda>x. if truthy x then Inr True else any_field rest)"

definition has_visible_stream_output :: "pyval \<Rightarrow> router_exc + bool" where
  "has_visible_stream_output chunk =
     rbind (py_get chunk ''choices'' PNone) (\<lambda>choices.
     if \<not> truthy choices then Inr False
     else rbind (py_first choices) (\<lambda>c0. let choice = py_or c0 (PDict []) in
       rbind (py_get choice ''delta'' PNone) (\<lambda>d0. let delta = py_or d0 (PDict []) in
       rbind (py_get choice ''message'' PNone) (\<lambda>m0. let message = py_or m0 (PDict []) in
         any_field [(delta, ''content''), (delta, ''reasoning_content''), (delta, ''tool_calls''),
                    (message, ''content''), (message, ''reasoning_content''), (message, ''tool_calls'')]))))"

text \<open>\<open>_usage_from_response\<close>.\<close>

definition usage_from_response :: "pyval \<Rightarrow> pdict" where
  "usage_from_response r = as_dict (dget (as_dict r) ''usage'')"

section \<open>Usage\<close>

record usage_metadata =
  um_model_name :: pyval
  um_input_tokens :: int
  um_output_tokens :: int
  um_total_tokens :: int
  um_cache_tokens :: int
  um_cache_read_tokens :: "int option"
  um_cache_miss_tokens :: "int option"
  um_cache_write_tokens :: "int option"
  um_cache_status :: "string option"
  um_cache_source :: "string option"
  um_cache_authoritative :: bool
  um_cache_creation_input_tokens :: "int option"
  um_reasoning_tokens :: int
  um_input_cost :: rat
  um_output_cost :: rat
  um_total_cost :: rat

definition usage_post_init :: "usage_metadata \<Rightarrow> usage_metadata" where
  "usage_post_init u =
     (if um_total_tokens u = 0 \<and> (um_input_tokens u \<noteq> 0 \<or> um_output_tokens u \<noteq> 0)
      then u\<lparr>um_total_tokens := um_input_tokens u + um_output_tokens u\<rparr> else u)"

text \<open>
  \<open>float(value)\<close> of a text is a parameter; a text that is no number raises \<open>ValueError\<close>, which the code catches. Counts are finite:
  \<open>int\<close> of an infinite float raises \<open>OverflowError\<close>, which the code does not catch, and so does \<open>float\<close> of an integer beyond its range.
\<close>

fun float_of :: "(string \<Rightarrow> rat option) \<Rightarrow> pyval \<Rightarrow> rat option" where
  "float_of txt (PInt i) = Some (of_int i)"
| "float_of txt (PStr s) = txt s"
| "float_of txt _ = None"

definition int_value :: "(string \<Rightarrow> rat option) \<Rightarrow> pyval \<Rightarrow> int" where
  "int_value txt v = (case float_of txt v of None \<Rightarrow> 0 | Some x \<Rightarrow> max \<lfloor>x\<rfloor> 0)"

definition optional_int :: "(string \<Rightarrow> rat option) \<Rightarrow> pyval \<Rightarrow> int option" where
  "optional_int txt v = map_option (\<lambda>x. max \<lfloor>x\<rfloor> 0) (float_of txt v)"

definition float_value :: "(string \<Rightarrow> rat option) \<Rightarrow> pyval \<Rightarrow> rat" where
  "float_value txt v = (case float_of txt v of None \<Rightarrow> 0 | Some x \<Rightarrow> x)"

fun str_value :: "pyval \<Rightarrow> string option" where
  "str_value (PStr s) = Some s"
| "str_value _ = None"

definition usage_to_metadata :: "(string \<Rightarrow> rat option) \<Rightarrow> pyval \<Rightarrow> pyval \<Rightarrow> router_exc + usage_metadata option" where
  "usage_to_metadata txt usage model =
     (if \<not> truthy usage then Inr None
      else rbind (py_get usage ''prompt_tokens_details'' PNone) (\<lambda>p0.
        let u = as_dict usage; prompt = py_or p0 (PDict []);
            completion = py_or (dget u ''completion_tokens_details'') (PDict []) in
        rbind (py_get prompt ''cached_tokens'' PNone) (\<lambda>cached.
        rbind (py_get completion ''reasoning_tokens'' PNone) (\<lambda>reasoning.
          Inr (Some (usage_post_init \<lparr>um_model_name = model,
            um_input_tokens = int_value txt (dget u ''prompt_tokens''),
            um_output_tokens = int_value txt (dget u ''completion_tokens''),
            um_total_tokens = int_value txt (dget u ''total_tokens''),
            um_cache_tokens = int_value txt (py_or cached (dget u ''cache_tokens'')),
            um_cache_read_tokens = optional_int txt (dget u ''cache_read_tokens''),
            um_cache_miss_tokens = optional_int txt (dget u ''cache_miss_tokens''),
            um_cache_write_tokens = optional_int txt (dget u ''cache_write_tokens''),
            um_cache_status = str_value (dget u ''cache_status''),
            um_cache_source = str_value (dget u ''cache_source''),
            um_cache_authoritative = (dget u ''cache_authoritative'' = PBool True),
            um_cache_creation_input_tokens = optional_int txt
              (py_or (dget u ''cache_creation_input_tokens'') (dget (as_dict prompt) ''cache_creation_input_tokens'')),
            um_reasoning_tokens = int_value txt (py_or reasoning (dget u ''reasoning_tokens'')),
            um_input_cost = float_value txt (dget u ''input_cost''),
            um_output_cost = float_value txt (dget u ''output_cost''),
            um_total_cost = float_value txt (dget u ''total_cost'')\<rparr>))))))"

section \<open>Messages\<close>

record raw_tool_call =
  rt_id :: pyval
  rt_type :: pyval
  rt_name :: pyval
  rt_arguments :: pyval
  rt_index :: pyval

definition metadata_keys :: "string list" where
  "metadata_keys = [''system_fingerprint'', ''service_tier'', ''status'', ''stop_reason'', ''stop_sequence'', ''incomplete_details'']"

definition provider_metadata_from_response :: "pdict \<Rightarrow> pdict" where
  "provider_metadata_from_response raw =
     List.map_filter (\<lambda>k. map_option (\<lambda>v. (k, v)) (map_of raw k)) metadata_keys"

definition dict_merge :: "('k \<times> 'v) list \<Rightarrow> ('k \<times> 'v) list \<Rightarrow> ('k \<times> 'v) list" where
  "dict_merge a b = fold (\<lambda>(k, v) d. AList.update k v d) b a"

definition tool_call_of :: "pyval \<Rightarrow> pyval \<Rightarrow> router_exc + raw_tool_call" where
  "tool_call_of default_index tc =
     rbind (py_get tc ''function'' (PDict [])) (\<lambda>func.
     rbind (py_get func ''name'' (PStr [])) (\<lambda>name.
       Inr \<lparr>rt_id = dget_or (as_dict tc) ''id'' (PStr []), rt_type = dget_or (as_dict tc) ''type'' (PStr ''function''),
            rt_name = name, rt_arguments = dget_or (as_dict func) ''arguments'' (PStr []),
            rt_index = dget_or (as_dict tc) ''index'' default_index\<rparr>))"

record parsed_message =
  pm_content :: pyval
  pm_tool_calls :: "raw_tool_call list option"
  pm_usage :: "usage_metadata option"
  pm_finish_reason :: pyval
  pm_reasoning :: pyval
  pm_logprobs :: pyval
  pm_response_id :: pyval
  pm_response_model :: pyval
  pm_provider_metadata :: pdict
  pm_provider_content :: pyval

definition empty_message :: parsed_message where
  "empty_message = \<lparr>pm_content = PStr [], pm_tool_calls = None, pm_usage = None, pm_finish_reason = PNone, pm_reasoning = PNone,
     pm_logprobs = PNone, pm_response_id = PNone, pm_response_model = PNone, pm_provider_metadata = [], pm_provider_content = PNone\<rparr>"

definition raw_tool_calls :: "(nat \<Rightarrow> pyval) \<Rightarrow> pyval \<Rightarrow> router_exc + raw_tool_call list option" where
  "raw_tool_calls index_of raw =
     (if \<not> truthy raw then Inr None
      else rbind (py_iter raw) (\<lambda>tcs.
           rbind (traverse (\<lambda>(i, tc). tool_call_of (index_of i) tc) (enumerate 0 tcs)) (\<lambda>cs. Inr (Some cs))))"

definition response_to_message :: "(string \<Rightarrow> rat option) \<Rightarrow> pyval \<Rightarrow> router_exc + parsed_message" where
  "response_to_message txt raw =
     rbind (py_get raw ''choices'' (PList [])) (\<lambda>choices.
     if \<not> truthy choices then Inr (empty_message\<lparr>pm_finish_reason := PStr ''stop''\<rparr>)
     else rbind (py_first choices) (\<lambda>choice.
       rbind (py_get choice ''message'' (PDict [])) (\<lambda>message.
       rbind (py_get message ''content'' PNone) (\<lambda>content.
       rbind (raw_tool_calls (\<lambda>i. PInt (int i)) (dget (as_dict message) ''tool_calls'')) (\<lambda>calls.
       rbind (usage_to_metadata txt (dget (as_dict raw) ''usage'') (dget (as_dict raw) ''model'')) (\<lambda>usage.
         Inr \<lparr>pm_content = py_or content (PStr []), pm_tool_calls = calls, pm_usage = usage,
              pm_finish_reason = py_or (dget (as_dict choice) ''finish_reason'') (PStr ''stop''),
              pm_reasoning = dget (as_dict message) ''reasoning_content'', pm_logprobs = dget (as_dict choice) ''logprobs'',
              pm_response_id = dget (as_dict raw) ''id'', pm_response_model = dget (as_dict raw) ''model'',
              pm_provider_metadata = dict_merge (provider_metadata_from_response (as_dict raw))
                                                (provider_metadata_from_response (as_dict choice)),
              pm_provider_content = dget_or (as_dict raw) ''provider_content'' raw\<rparr>))))))"

definition chunk_to_message_chunk :: "(string \<Rightarrow> rat option) \<Rightarrow> pyval \<Rightarrow> router_exc + parsed_message option" where
  "chunk_to_message_chunk txt chunk =
     rbind (py_get chunk ''choices'' PNone) (\<lambda>choices. let c = as_dict chunk in
     if \<not> truthy choices
     then rbind (usage_to_metadata txt (dget c ''usage'') (dget c ''model'')) (\<lambda>usage.
       case usage of
         None \<Rightarrow> Inr None
       | Some u \<Rightarrow> Inr (Some (empty_message\<lparr>pm_usage := Some u, pm_response_id := dget c ''id'', pm_response_model := dget c ''model'',
           pm_provider_metadata := provider_metadata_from_response c,
           pm_provider_content := dget_or c ''provider_content'' chunk\<rparr>)))
     else rbind (py_first choices) (\<lambda>choice.
       rbind (py_get choice ''delta'' (PDict [])) (\<lambda>delta.
       rbind (py_get delta ''content'' PNone) (\<lambda>content0. let content = py_or content0 (PStr []);
         finish = dget (as_dict choice) ''finish_reason''; reasoning = dget (as_dict delta) ''reasoning_content'';
         raw = dget (as_dict delta) ''tool_calls'' in
       rbind (usage_to_metadata txt (dget c ''usage'') (dget c ''model'')) (\<lambda>usage.
       if \<not> truthy content \<and> \<not> truthy finish \<and> \<not> truthy raw \<and> \<not> truthy reasoning \<and> usage = None then Inr None
       else rbind (raw_tool_calls (\<lambda>_. PNone) raw) (\<lambda>calls.
         Inr (Some \<lparr>pm_content = content, pm_tool_calls = calls, pm_usage = usage, pm_finish_reason = finish,
           pm_reasoning = reasoning, pm_logprobs = dget (as_dict choice) ''logprobs'', pm_response_id = dget c ''id'',
           pm_response_model = dget c ''model'',
           pm_provider_metadata = dict_merge (provider_metadata_from_response c) (provider_metadata_from_response (as_dict choice)),
           pm_provider_content = dget_or c ''provider_content'' chunk\<rparr>)))))))"

text \<open>\<open>parsed.content or parsed.reasoning_content or parsed.tool_calls\<close>.\<close>

definition message_visible :: "parsed_message \<Rightarrow> bool" where
  "message_visible m \<longleftrightarrow> truthy (pm_content m) \<or> truthy (pm_reasoning m) \<or> (case pm_tool_calls m of None \<Rightarrow> False | Some cs \<Rightarrow> cs \<noteq> [])"

end
