(* ===== verification/RouterProvider.thy ===== *)
theory RouterProvider
  imports RouterState RouterMessages
begin

text \<open>
  \<open>intelli_router/provider\<close>: the interface of a provider adapter, its default implementation, the adapters for
  the OpenAI-compatible services and the registry of adapters; and the HTTP exchange of
  \<open>router/base_router.py\<close> with the translation of its failures. The bytes of a request body are a function of
  its value, which is kept. What the HTTP client does is an input: a reply to the request on the wire, or the
  failure it raises. \<open>json.loads\<close> and \<open>float\<close> of a text are parameters.
\<close>

section \<open>Text\<close>

definition rstrip_slash :: "string \<Rightarrow> string" where
  "rstrip_slash s = rev (dropWhile (\<lambda>c. c = CHR ''/'') (rev s))"

definition ends_with :: "string \<Rightarrow> string \<Rightarrow> bool" where
  "ends_with suf s \<longleftrightarrow> starts_with (rev suf) (rev s)"

section \<open>The HTTP exchange\<close>

type_synonym headers = "(string \<times> string) list"

record wire_request =
  w_url :: string
  w_headers :: headers
  w_body :: pyval
  w_timeout :: rat

text \<open>
  What the client raises: a timeout, a failure to connect, a protocol error, another \<open>httpx.HTTPError\<close>, or any
  other exception (a cancellation among them). A response has a status, the \<open>retry-after\<close> header, a text and
  what \<open>response.json()\<close> gives; a streamed one has its lines and the failure that ends them.
\<close>

datatype http_fault = FTimeout | FConnect string | FProtocol string | FHttp string | FOther router_exc

datatype http_reply =
    Fault http_fault
  | Response int "string option" string "router_exc + pyval"

datatype stream_reply =
    StreamFault http_fault
  | StreamResponse int "string option" string "string list" "http_fault option"

type_synonym events = "pyval list \<times> http_fault option"

section \<open>Adapters\<close>

record adapter =
  ad_url :: "deployment \<Rightarrow> bool \<Rightarrow> router_exc + string"
  ad_headers :: "deployment \<Rightarrow> router_exc + headers"
  ad_validate :: "deployment \<Rightarrow> pdict \<Rightarrow> router_exc option"
  ad_transform_request :: "string \<Rightarrow> pyval \<Rightarrow> deployment \<Rightarrow> pdict \<Rightarrow> router_exc + pyval"
  ad_transform_response :: "pyval \<Rightarrow> string \<Rightarrow> deployment \<Rightarrow> router_exc + pyval"
  ad_transform_chunk :: "pyval \<Rightarrow> string \<Rightarrow> deployment \<Rightarrow> router_exc + pyval option"
  ad_sign :: "string \<Rightarrow> headers \<Rightarrow> pyval \<Rightarrow> deployment \<Rightarrow> router_exc + headers"
  ad_iter_events :: "string list \<Rightarrow> http_fault option \<Rightarrow> events"

definition base_transform_request :: "string \<Rightarrow> pyval \<Rightarrow> pdict \<Rightarrow> pdict" where
  "base_transform_request model messages kwargs =
     dict_merge [(''model'', PStr model), (''messages'', messages)] kwargs"

text \<open>\<open>_chunk_has_finish_signal\<close>.\<close>

definition list_has :: "pyval \<Rightarrow> string \<Rightarrow> bool" where
  "list_has v k = (case v of PList xs \<Rightarrow> list_ex (\<lambda>x. is_dict x \<and> truthy (dget (as_dict x) k)) xs | _ \<Rightarrow> False)"

definition chunk_has_finish_signal :: "pyval \<Rightarrow> bool" where
  "chunk_has_finish_signal chunk =
     (case chunk of
        PDict d \<Rightarrow> list_has (dget d ''choices'') ''finish_reason'' \<or> dget d ''type'' = PStr ''message_stop''
          \<or> truthy (dget (as_dict (dget d ''delta'')) ''stop_reason'') \<or> list_has (dget d ''candidates'') ''finishReason''
          \<or> truthy (dget d ''stopReason'')
      | _ \<Rightarrow> False)"

text \<open>The payload of a line of a server-sent event stream.\<close>

definition sse_data :: "string \<Rightarrow> string option" where
  "sse_data raw =
     (let line = strip raw in
      if raw = [] \<or> starts_with '':'' line then None
      else if starts_with ''data:'' line then Some (strip (drop 5 line))
      else if starts_with ''{'' line \<and> ends_with ''}'' line then Some line
      else None)"

definition truncated_stream :: router_exc where
  "truncated_stream = DeploymentNetworkError [] ''stream ended without [DONE] sentinel or finish signal''"

fun sse_loop :: "(string \<Rightarrow> pyval option) \<Rightarrow> bool \<Rightarrow> string list \<Rightarrow> http_fault option \<Rightarrow> events" where
  "sse_loop loads saw_finish [] fin =
     ([], case fin of Some f \<Rightarrow> Some f | None \<Rightarrow> if saw_finish then None else Some (FOther truncated_stream))"
| "sse_loop loads saw_finish (line # lines) fin =
     (case sse_data line of
        None \<Rightarrow> sse_loop loads saw_finish lines fin
      | Some data \<Rightarrow>
          if data = ''[DONE]'' then ([], None)
          else case loads data of
                 None \<Rightarrow> sse_loop loads saw_finish lines fin
               | Some chunk \<Rightarrow>
                   let (chunks, e) = sse_loop loads (saw_finish \<or> chunk_has_finish_signal chunk) lines fin in (chunk # chunks, e))"

definition iter_stream_events :: "(string \<Rightarrow> pyval option) \<Rightarrow> string list \<Rightarrow> http_fault option \<Rightarrow> events" where
  "iter_stream_events loads = sse_loop loads False"

definition chat_completions_url :: "string \<Rightarrow> string" where
  "chat_completions_url api_base =
     (let base = rstrip_slash (strip api_base) in
      (if ends_with ''/chat/completions'' base
       then rstrip_slash (take (length base - length ''/chat/completions'') base) else base) @ ''/chat/completions'')"

definition openai_headers :: "deployment \<Rightarrow> headers" where
  "openai_headers d =
     (let own = [(''Authorization'', ''Bearer '' @ d_api_key d), (''Content-Type'', ''application/json'')];
          custom = (case d_custom_headers d of None \<Rightarrow> [] | Some h \<Rightarrow> h) in
      if custom = [] then own
      else dict_merge (if ''authorization'' \<in> set (map (lower \<circ> fst) custom)
                       then filter (\<lambda>(k, v). lower k \<noteq> ''authorization'') own else own) custom)"

definition openai_adapter :: "(string \<Rightarrow> pyval option) \<Rightarrow> adapter" where
  "openai_adapter loads = \<lparr>
     ad_url = (\<lambda>d stream. Inr (chat_completions_url (d_api_base d))), ad_headers = (\<lambda>d. Inr (openai_headers d)),
     ad_validate = (\<lambda>d config. None),
     ad_transform_request = (\<lambda>model messages d kwargs. Inr (PDict (base_transform_request model messages kwargs))),
     ad_transform_response = (\<lambda>raw model d. Inr raw), ad_transform_chunk = (\<lambda>chunk model d. Inr (Some chunk)),
     ad_sign = (\<lambda>url hs body d. Inr hs), ad_iter_events = iter_stream_events loads\<rparr>"

text \<open>The messages of a body, one by one; \<open>f\<close> may raise.\<close>

definition map_messages :: "(pyval \<Rightarrow> router_exc + pyval) \<Rightarrow> pdict \<Rightarrow> router_exc + pdict" where
  "map_messages f body =
     rbind (py_iter (dget_or body ''messages'' (PList []))) (\<lambda>msgs.
     rbind (traverse f msgs) (\<lambda>new. Inr (AList.update ''messages'' (PList new) body)))"

definition with_reasoning :: "pyval \<Rightarrow> router_exc + pyval" where
  "with_reasoning msg =
     rbind (py_get msg ''role'' PNone) (\<lambda>role.
       Inr (if role = PStr ''assistant'' \<and> map_of (as_dict msg) ''reasoning_content'' = None
            then PDict (AList.update ''reasoning_content'' (PStr []) (as_dict msg)) else msg))"

definition deepseek_adapter :: "(string \<Rightarrow> pyval option) \<Rightarrow> adapter" where
  "deepseek_adapter loads = (openai_adapter loads)\<lparr>ad_transform_request := (\<lambda>model messages d kwargs.
     rbind (map_messages with_reasoning (base_transform_request model messages kwargs)) (\<lambda>body. Inr (PDict body)))\<rparr>"

text \<open>\<open>sanitize_tool_calls\<close>: only the standard fields of the calls of an assistant message are kept.\<close>

definition normalize_call :: "pdict \<Rightarrow> router_exc + pyval" where
  "normalize_call call =
     (let func = py_or (dget call ''function'') (PDict []) in
      rbind (py_get func ''name'' (PStr [])) (\<lambda>name.
      rbind (py_get func ''arguments'' (PStr [])) (\<lambda>arguments.
        Inr (PDict [(''id'', dget_or call ''id'' (PStr [])), (''type'', PStr ''function''),
                    (''function'', PDict [(''name'', name), (''arguments'', arguments)])]))))"

definition sanitize_message :: "pyval \<Rightarrow> router_exc + pyval" where
  "sanitize_message msg =
     rbind (py_get msg ''role'' PNone) (\<lambda>role.
       if role \<noteq> PStr ''assistant'' then Inr msg
       else case dget (as_dict msg) ''tool_calls'' of
              PList calls \<Rightarrow>
                rbind (traverse (\<lambda>c. normalize_call (as_dict c)) (filter is_dict calls)) (\<lambda>cs.
                  Inr (PDict (AList.update ''tool_calls'' (PList cs) (as_dict msg))))
            | _ \<Rightarrow> Inr msg)"

definition siliconflow_adapter :: "(string \<Rightarrow> pyval option) \<Rightarrow> adapter" where
  "siliconflow_adapter loads = (openai_adapter loads)\<lparr>ad_transform_request := (\<lambda>model messages d kwargs.
     rbind (map_messages sanitize_message (base_transform_request model messages kwargs)) (\<lambda>body. Inr (PDict body)))\<rparr>"

definition affinity_body :: "pyval \<Rightarrow> pyval \<Rightarrow> pyval \<Rightarrow> pdict \<Rightarrow> pdict" where
  "affinity_body session sharing token_ids body =
     (let body1 = (if truthy sharing \<and> truthy session
                   then AList.update ''cache_salt'' session (AList.update ''cache_sharing'' (PBool True) body) else body) in
      if token_ids \<noteq> PNone then AList.update ''return_token_ids'' token_ids body1 else body1)"

definition affinity_transform_request :: "string \<Rightarrow> pyval \<Rightarrow> pdict \<Rightarrow> router_exc + pyval" where
  "affinity_transform_request model messages kwargs =
     (let rest = AList.delete ''return_token_ids'' (AList.delete ''enable_cache_sharing'' (AList.delete ''session_id'' kwargs)) in
      rbind (map_messages sanitize_message (base_transform_request model messages rest)) (\<lambda>body.
        Inr (PDict (affinity_body (dget kwargs ''session_id'') (dget_or kwargs ''enable_cache_sharing'' (PBool False))
                     (dget kwargs ''return_token_ids'') body))))"

definition affinity_adapter :: "(string \<Rightarrow> pyval option) \<Rightarrow> adapter" where
  "affinity_adapter loads = (openai_adapter loads)\<lparr>ad_transform_request :=
     (\<lambda>model messages d kwargs. affinity_transform_request model messages kwargs)\<rparr>"

section \<open>Registry\<close>

type_synonym provider_registry = "(string \<times> adapter) list"

definition register_provider :: "string \<Rightarrow> adapter \<Rightarrow> provider_registry \<Rightarrow> provider_registry" where
  "register_provider name ad reg = AList.update name ad reg"

definition get_provider_adapter :: "provider_registry \<Rightarrow> string \<Rightarrow> router_exc + adapter" where
  "get_provider_adapter reg provider =
     (case map_of reg provider of None \<Rightarrow> Inl (Other CValueError ''Unknown provider'') | Some ad \<Rightarrow> Inr ad)"

text \<open>The built-in registrations of the adapters above.\<close>

definition openai_family :: "(string \<Rightarrow> pyval option) \<Rightarrow> provider_registry" where
  "openai_family loads = fold (\<lambda>(n, ad) reg. register_provider n ad reg)
     [(''openai'', openai_adapter loads), (''deepseek'', deepseek_adapter loads), (''siliconflow'', siliconflow_adapter loads),
      (''inference-affinity'', affinity_adapter loads), (''dashscope'', openai_adapter loads), (''zhipu'', openai_adapter loads)] []"

section \<open>Requests of the base router\<close>

text \<open>The registry, \<open>float\<close> of a text, and the default timeout of the router.\<close>

record platform =
  pf_registry :: provider_registry
  pf_float :: "string \<Rightarrow> rat option"
  pf_timeout :: rat

definition request_timeout :: "platform \<Rightarrow> deployment \<Rightarrow> rat" where
  "request_timeout pf d = (case d_timeout d of Some t \<Rightarrow> t | None \<Rightarrow> pf_timeout pf)"

definition fault_exception :: "platform \<Rightarrow> deployment \<Rightarrow> http_fault \<Rightarrow> router_exc" where
  "fault_exception pf d f =
     (case f of
        FTimeout \<Rightarrow> DeploymentTimeoutError (d_id d) (request_timeout pf d)
      | FConnect reason \<Rightarrow> DeploymentNetworkError (d_id d) reason
      | FProtocol reason \<Rightarrow> DeploymentNetworkError (d_id d) reason
      | FHttp reason \<Rightarrow> DeploymentHttpError (d_id d) reason
      | FOther e \<Rightarrow> e)"

definition status_exception :: "platform \<Rightarrow> deployment \<Rightarrow> int \<Rightarrow> string option \<Rightarrow> string \<Rightarrow> router_exc" where
  "status_exception pf d status retry_after body =
     (if status = 401 \<or> status = 403 then DeploymentAuthError (d_id d) status
      else if status = 429 then DeploymentRateLimitError (d_id d) (Option.bind retry_after (pf_float pf))
      else if 500 \<le> status \<and> status < 600 then DeploymentServerError (d_id d) status body
      else DeploymentStatusError (d_id d) status body)"

definition is_success_status :: "int \<Rightarrow> bool" where
  "is_success_status s \<longleftrightarrow> 200 \<le> s \<and> s < 300"

definition wire_of :: "platform \<Rightarrow> adapter \<Rightarrow> deployment \<Rightarrow> bool \<Rightarrow> pyval \<Rightarrow> router_exc + wire_request" where
  "wire_of pf ad d stream body =
     rbind (ad_url ad d stream) (\<lambda>url.
     rbind (ad_headers ad d) (\<lambda>hs.
     rbind (ad_sign ad url hs body d) (\<lambda>signed.
       Inr \<lparr>w_url = url, w_headers = signed, w_body = body, w_timeout = request_timeout pf d\<rparr>)))"

definition with_deployment_id :: "deployment \<Rightarrow> pyval \<Rightarrow> pyval" where
  "with_deployment_id d v =
     (case v of PDict r \<Rightarrow> PDict (if map_of r ''deployment_id'' = None then r @ [(''deployment_id'', PStr (d_id d))] else r)
      | _ \<Rightarrow> v)"

definition make_request :: "platform \<Rightarrow> deployment \<Rightarrow> pyval \<Rightarrow> (wire_request \<Rightarrow> http_reply) \<Rightarrow> router_exc + pyval" where
  "make_request pf d body http =
     rbind (get_provider_adapter (pf_registry pf) (d_provider d)) (\<lambda>ad.
     rbind (wire_of pf ad d False body) (\<lambda>w.
       case http w of
         Fault f \<Rightarrow> Inl (fault_exception pf d f)
       | Response status retry_after text json \<Rightarrow>
           if \<not> is_success_status status then Inl (status_exception pf d status retry_after text)
           else rbind json (\<lambda>raw.
                rbind (ad_transform_response ad raw (d_model_name d) d) (\<lambda>result.
                  Inr (with_deployment_id d result)))))"

definition prepared_body :: "platform \<Rightarrow> string \<Rightarrow> pyval \<Rightarrow> deployment \<Rightarrow> pdict \<Rightarrow> router_exc + pyval" where
  "prepared_body pf model messages d kwargs =
     rbind (get_provider_adapter (pf_registry pf) (d_provider d)) (\<lambda>ad.
       case ad_validate ad d kwargs of
         Some e \<Rightarrow> Inl e
       | None \<Rightarrow> ad_transform_request ad model messages d kwargs)"

text \<open>\<open>BaseRouter.completion\<close> on a given deployment.\<close>

definition completion_at ::
  "platform \<Rightarrow> string \<Rightarrow> pyval \<Rightarrow> deployment \<Rightarrow> pdict \<Rightarrow> (wire_request \<Rightarrow> http_reply) \<Rightarrow> router_exc + pyval" where
  "completion_at pf model messages d kwargs http =
     rbind (prepared_body pf model messages d kwargs) (\<lambda>body. make_request pf d body http)"

text \<open>\<open>acompletion_stream\<close> on a given deployment: the chunks it yields and the exception that ends them.\<close>

fun map_chunks :: "(pyval \<Rightarrow> router_exc + pyval option) \<Rightarrow> pyval list \<Rightarrow> router_exc option \<Rightarrow> pyval list \<times> router_exc option" where
  "map_chunks f [] fin = ([], fin)"
| "map_chunks f (c # cs) fin =
     (case f c of
        Inl e \<Rightarrow> ([], Some e)
      | Inr None \<Rightarrow> map_chunks f cs fin
      | Inr (Some m) \<Rightarrow> let (ms, e) = map_chunks f cs fin in (m # ms, e))"

definition stream_chunks ::
  "platform \<Rightarrow> string \<Rightarrow> deployment \<Rightarrow> adapter \<Rightarrow> stream_reply \<Rightarrow> pyval list \<times> router_exc option" where
  "stream_chunks pf model d ad reply =
     (case reply of
        StreamFault f \<Rightarrow> ([], Some (fault_exception pf d f))
      | StreamResponse status retry_after text lines fin \<Rightarrow>
          if \<not> is_success_status status
          then ([], Some (case fin of Some f \<Rightarrow> fault_exception pf d f | None \<Rightarrow> status_exception pf d status retry_after text))
          else let (cs, e) = ad_iter_events ad lines fin in
            map_chunks (\<lambda>c. ad_transform_chunk ad c model d) cs (map_option (fault_exception pf d) e))"

definition stream_at ::
  "platform \<Rightarrow> string \<Rightarrow> pyval \<Rightarrow> deployment \<Rightarrow> pdict \<Rightarrow> (wire_request \<Rightarrow> stream_reply) \<Rightarrow> pyval list \<times> router_exc option" where
  "stream_at pf model messages d kwargs http =
     (let opts = dict_merge [(''stream'', PBool True)] kwargs in
      case rbind (prepared_body pf model messages d opts) (\<lambda>body.
           rbind (get_provider_adapter (pf_registry pf) (d_provider d)) (\<lambda>ad.
           rbind (wire_of pf ad d True body) (\<lambda>w. Inr (ad, w)))) of
        Inl e \<Rightarrow> ([], Some e)
      | Inr (ad, w) \<Rightarrow> stream_chunks pf model d ad (http w))"

lemma url_examples:
  "chat_completions_url ''http://h/v1/'' = ''http://h/v1/chat/completions''"
  "chat_completions_url ''http://h/chat/completions'' = ''http://h/chat/completions''"
  by (simp_all add: chat_completions_url_def rstrip_slash_def ends_with_def strip_def is_space_def)

section \<open>Streams that end early\<close>

text \<open>
  A stream is read to its end without an exception exactly when a terminating mark was seen: the \<open>[DONE]\<close>
  line, or a chunk that carries a finish signal and the end of the lines.
\<close>

definition done_line :: "string \<Rightarrow> bool" where
  "done_line l \<longleftrightarrow> sse_data l = Some ''[DONE]''"

lemma sse_loop_complete:
  "snd (sse_loop loads fin lines e) = None \<longleftrightarrow>
     list_ex done_line lines \<or> (e = None \<and> (fin \<or> list_ex chunk_has_finish_signal (fst (sse_loop loads fin lines e))))"
proof (induction loads fin lines e rule: sse_loop.induct)
  case (2 loads fin line lines e)
  show ?case
  proof (cases "sse_data line")
    case None
    then show ?thesis using 2(1) by (simp add: done_line_def)
  next
    case (Some data)
    show ?thesis
    proof (cases "data = ''[DONE]''")
      case False
      show ?thesis
      proof (cases "loads data")
        case None
        then show ?thesis using 2(2) [OF Some False] Some False by (simp add: done_line_def)
      next
        case chunk: (Some c)
        then show ?thesis using 2(3) [OF Some False chunk] Some False
          by (auto simp: done_line_def Let_def split_beta)
      qed
    qed (use Some in \<open>simp add: done_line_def\<close>)
  qed
qed (auto split: option.splits)

text \<open>The exceptions of the exchange.\<close>

lemma status_exception_class:
  "class_of_exc (status_exception pf d s ra b) =
     (if s = 401 \<or> s = 403 then CDeploymentAuthError else if s = 429 then CDeploymentRateLimitError
      else if 500 \<le> s \<and> s < 600 then CDeploymentServerError else CDeploymentError)"
  "details_status (status_exception pf d s ra b) = (if s = 429 then None else Some s)"
  by (simp_all add: status_exception_def)

end
