(* ===== verification/RouterStrategy.thy ===== *)
theory RouterStrategy
  imports RouterState
begin

text \<open>
  \<open>intelli_router/strategy\<close>: the routing strategies and the contract the router relies on. A strategy chooses
  among the deployments the router has found usable; the inputs of a choice are the random number and index it
  draws and the readings of the clock. A strategy over the shared state may change it (the session affinity of the
  adaptive strategy), together with the time of its last session clean-up.
\<close>

section \<open>Inputs\<close>

record select_env =
  se_random :: rat
  se_index :: nat
  se_now :: rat
  se_clock :: "string \<Rightarrow> rat"

type_synonym strategy_state = "router_state \<times> rat"

type_synonym selection = "(router_exc + deployment option) \<times> strategy_state"

text \<open>\<open>random.choice\<close> of a list that is not empty.\<close>

definition choice :: "select_env \<Rightarrow> 'a list \<Rightarrow> 'a" where
  "choice env xs = xs ! (se_index env mod length xs)"

text \<open>\<open>xs.sort(key=f, reverse=True)\<close>, which keeps the order of equal elements.\<close>

definition sort_desc :: "('a \<Rightarrow> 'b::linorder) \<Rightarrow> 'a list \<Rightarrow> 'a list" where
  "sort_desc f xs = rev (sort_key f (rev xs))"

section \<open>Strategies without state\<close>

definition select_ordered :: "deployment list \<Rightarrow> deployment option" where
  "select_ordered deps = (case deps of [] \<Rightarrow> None | d # _ \<Rightarrow> Some d)"

fun shuffle_pick :: "rat \<Rightarrow> rat \<Rightarrow> (deployment \<times> rat) list \<Rightarrow> deployment option" where
  "shuffle_pick r cumsum [] = None"
| "shuffle_pick r cumsum ((d, p) # rest) = (if r \<le> cumsum + p then Some d else shuffle_pick r (cumsum + p) rest)"

definition select_shuffle :: "(string \<times> rat) list \<Rightarrow> rat \<Rightarrow> select_env \<Rightarrow> deployment list \<Rightarrow> deployment option" where
  "select_shuffle weights default_weight env deps =
     (if deps = [] then None
      else let ws = map (\<lambda>d. get_or weights (d_id d) default_weight) deps; total = sum_list ws in
        if total = 0 then Some (choice env deps)
        else case shuffle_pick (se_random env) 0 (zip deps (map (\<lambda>w. w / total) ws)) of
               Some d \<Rightarrow> Some d | None \<Rightarrow> Some (last deps))"

text \<open>\<open>set(tags)\<close> of the value the caller passed.\<close>

fun tag_set :: "pyval \<Rightarrow> router_exc + pyval list" where
  "tag_set (PStr s) = Inr (map (\<lambda>c. PStr [c]) s)"
| "tag_set (PList xs) = (if list_all hashable xs then Inr xs else Inl (Other CTypeError ''unhashable type''))"
| "tag_set (PDict d) = Inr (map (\<lambda>kv. PStr (fst kv)) d)"
| "tag_set _ = Inl (Other CTypeError ''object is not iterable'')"

definition get_request_tags :: "routing_context \<Rightarrow> router_exc + pyval list" where
  "get_request_tags ctx =
     (if rc_request_tags ctx \<noteq> [] then Inr (map PStr (rc_request_tags ctx))
      else let tags = dget_or (rc_kwargs ctx) ''tags'' (PList []) in
        if truthy tags then tag_set tags else Inr [PStr (rc_model ctx)])"

definition tag_matched :: "pyval list \<Rightarrow> deployment list \<Rightarrow> deployment list" where
  "tag_matched tags deps =
     (let matched = filter (\<lambda>d. \<exists>t \<in> set (d_tags d). PStr t \<in> set tags) deps in
      if matched = [] then deps else matched)"

definition fallback_filtered :: "string option \<Rightarrow> deployment list \<Rightarrow> deployment list" where
  "fallback_filtered tag deps =
     (case tag of Some t \<Rightarrow> if t \<noteq> [] then filter (\<lambda>d. d_fallback_tag d = Some t) deps else deps | None \<Rightarrow> deps)"

section \<open>Strategies over the state\<close>

fun lowest_loop :: "router_state \<Rightarrow> deployment option \<Rightarrow> pyfloat \<Rightarrow> deployment list \<Rightarrow> deployment option" where
  "lowest_loop st best best_latency [] = best"
| "lowest_loop st best best_latency (d # ds) =
     (let avg = get_average_latency st (d_id d) in
      if avg < best_latency then lowest_loop st (Some d) avg ds else lowest_loop st best best_latency ds)"

definition select_lowest_latency :: "rat \<Rightarrow> select_env \<Rightarrow> deployment list \<Rightarrow> router_state \<Rightarrow> deployment option" where
  "select_lowest_latency exploration env deps st =
     (if deps = [] then None
      else if se_random env < exploration then Some (choice env deps)
      else case lowest_loop st None Inf deps of Some d \<Rightarrow> Some d | None \<Rightarrow> Some (hd deps))"

text \<open>The common selection of the token and the rate strategy: the first that has enough, else the first.\<close>

definition select_remaining :: "int \<Rightarrow> (deployment \<times> pyfloat) list \<Rightarrow> deployment" where
  "select_remaining threshold scored =
     (let sorted = sort_desc snd scored in
      case find (\<lambda>(d, r). Fin (of_int threshold) \<le> r \<or> r = Inf) sorted of Some (d, _) \<Rightarrow> d | None \<Rightarrow> fst (hd sorted))"

definition select_token_aware :: "int \<Rightarrow> rat \<Rightarrow> select_env \<Rightarrow> deployment list \<Rightarrow> router_state \<Rightarrow> deployment option" where
  "select_token_aware threshold exploration env deps st =
     (if deps = [] then None
      else if se_random env < exploration then Some (choice env deps)
      else Some (select_remaining threshold (map (\<lambda>d. (d, get_token_remaining st (d_id d))) deps)))"

definition select_rate_aware :: "int \<Rightarrow> rat \<Rightarrow> select_env \<Rightarrow> deployment list \<Rightarrow> router_state \<Rightarrow> deployment option" where
  "select_rate_aware threshold exploration env deps st =
     (if deps = [] then None
      else if se_random env < exploration then Some (choice env deps)
      else Some (select_remaining threshold
             (map (\<lambda>d. (d, get_rpm_remaining (se_clock env (d_id d)) st (d_id d))) deps)))"

section \<open>The adaptive strategy\<close>

record adaptive_params =
  ap_token_threshold :: int
  ap_rpm_threshold :: int
  ap_exploration :: rat
  ap_cleanup_interval :: rat
  ap_w_health :: rat
  ap_w_token :: rat
  ap_w_rpm :: rat
  ap_w_latency :: rat

abbreviation session_ttl :: rat where
  "session_ttl \<equiv> 1800"

definition quota_score :: "pyfloat \<Rightarrow> int \<Rightarrow> router_exc + rat" where
  "quota_score remaining threshold =
     (case remaining of
        Inf \<Rightarrow> Inr 1
      | Fin r \<Rightarrow> if threshold = 0 then Inl (Other CZeroDivisionError ''division by zero'')
                 else Inr (min 1 (r / of_int threshold)))"

definition latency_score :: "pyfloat \<Rightarrow> rat" where
  "latency_score avg = (case avg of Inf \<Rightarrow> 0 | Fin l \<Rightarrow> max 0 (1 - l))"

definition calculate_score :: "adaptive_params \<Rightarrow> select_env \<Rightarrow> router_state \<Rightarrow> deployment \<Rightarrow> router_exc + rat" where
  "calculate_score p env st d =
     rbind (quota_score (get_token_remaining st (d_id d)) (ap_token_threshold p)) (\<lambda>token.
     rbind (quota_score (get_rpm_remaining (se_clock env (d_id d)) st (d_id d)) (ap_rpm_threshold p)) (\<lambda>rpm.
       Inr (ap_w_health p * (if get_or (rs_health st) (d_id d) True then 1 else 0) + ap_w_token p * token
            + ap_w_rpm p * rpm + ap_w_latency p * latency_score (get_average_latency st (d_id d)))))"

text \<open>\<open>True\<close> and \<open>1\<close> are the same dictionary key.\<close>

fun session_key :: "pyval \<Rightarrow> pyval" where
  "session_key (PBool b) = PInt (of_bool b)"
| "session_key v = v"

definition cleanup_expired_sessions :: "rat \<Rightarrow> router_state \<Rightarrow> router_state" where
  "cleanup_expired_sessions now st =
     (let expired = map fst (filter (\<lambda>(sid, t). now - t > session_ttl) (rs_session_times st)) in
      st\<lparr>rs_sessions := filter (\<lambda>(sid, _). sid \<notin> set expired) (rs_sessions st),
         rs_session_times := filter (\<lambda>(sid, _). sid \<notin> set expired) (rs_session_times st)\<rparr>)"

definition update_session_mapping :: "pyval \<Rightarrow> string \<Rightarrow> rat \<Rightarrow> router_state \<Rightarrow> router_state" where
  "update_session_mapping sid i now st =
     st\<lparr>rs_sessions := AList.update (session_key sid) i (rs_sessions st),
        rs_session_times := AList.update (session_key sid) now (rs_session_times st)\<rparr>"

definition session_affinity :: "adaptive_params \<Rightarrow> pyval \<Rightarrow> deployment list \<Rightarrow> rat \<Rightarrow> strategy_state \<Rightarrow> selection" where
  "session_affinity p sid deps now s =
     (let (st, last) = (if now - snd s \<ge> ap_cleanup_interval p
                        then (cleanup_expired_sessions now (fst s), now) else s) in
      if \<not> hashable sid then (Inl (Other CTypeError ''unhashable type''), (st, last))
      else case map_of (rs_sessions st) (session_key sid) of
             None \<Rightarrow> (Inr None, (st, last))
           | Some i \<Rightarrow>
               if i = [] then (Inr None, (st, last))
               else case find (\<lambda>d. d_id d = i) deps of
                      None \<Rightarrow> (Inr None, (st, last))
                    | Some d \<Rightarrow> (Inr (Some d), (st\<lparr>rs_session_times :=
                        AList.update (session_key sid) now (rs_session_times st)\<rparr>, last)))"

definition best_scored :: "(deployment \<times> rat) list \<Rightarrow> deployment" where
  "best_scored scored = fst (hd (sort_desc snd scored))"

definition adaptive_choice :: "adaptive_params \<Rightarrow> select_env \<Rightarrow> deployment list \<Rightarrow> pyval \<Rightarrow> strategy_state \<Rightarrow> selection" where
  "adaptive_choice p env deps sid s =
     (if se_random env < ap_exploration p then (Inr (Some (choice env deps)), s)
      else case traverse (\<lambda>d. rbind (calculate_score p env (fst s) d) (\<lambda>x. Inr (d, x))) deps of
             Inl e \<Rightarrow> (Inl e, s)
           | Inr scored \<Rightarrow>
               let d = best_scored scored in
               (Inr (Some d), if truthy sid
                              then (update_session_mapping sid (d_id d) (se_now env) (fst s), snd s) else s))"

definition select_adaptive :: "adaptive_params \<Rightarrow> select_env \<Rightarrow> deployment list \<Rightarrow> routing_context \<Rightarrow> strategy_state \<Rightarrow> selection" where
  "select_adaptive p env deps ctx s =
     (if deps = [] then (Inr None, s)
      else let sid = dget (rc_kwargs ctx) ''session_id'' in
        case (if truthy sid then session_affinity p sid deps (se_now env) s else (Inr None, s)) of
          (Inr None, s1) \<Rightarrow> adaptive_choice p env deps sid s1
        | (r, s1) \<Rightarrow> (r, s1))"

section \<open>All strategies\<close>

datatype strategy =
    SimpleShuffle "(string \<times> rat) list" rat
  | LowestLatency rat
  | TagBased strategy
  | OrderedFailover
  | TagFiltered "string option" strategy
  | TokenAware int rat
  | RateLimitAware int rat
  | Adaptive adaptive_params

fun select_deployment :: "strategy \<Rightarrow> select_env \<Rightarrow> deployment list \<Rightarrow> routing_context \<Rightarrow> strategy_state \<Rightarrow> selection" where
  "select_deployment (SimpleShuffle ws w) env deps ctx s = (Inr (select_shuffle ws w env deps), s)"
| "select_deployment (LowestLatency x) env deps ctx s = (Inr (select_lowest_latency x env deps (fst s)), s)"
| "select_deployment (TagBased inner) env deps ctx s =
     (if deps = [] then (Inr None, s)
      else case get_request_tags ctx of
             Inl e \<Rightarrow> (Inl e, s)
           | Inr tags \<Rightarrow> select_deployment inner env (tag_matched tags deps) ctx s)"
| "select_deployment OrderedFailover env deps ctx s = (Inr (select_ordered deps), s)"
| "select_deployment (TagFiltered tag inner) env deps ctx s =
     (if deps = [] then (Inr None, s)
      else let deps' = fallback_filtered tag deps in
        if deps' = [] then (Inr None, s) else select_deployment inner env deps' ctx s)"
| "select_deployment (TokenAware n x) env deps ctx s = (Inr (select_token_aware n x env deps (fst s)), s)"
| "select_deployment (RateLimitAware n x) env deps ctx s = (Inr (select_rate_aware n x env deps (fst s)), s)"
| "select_deployment (Adaptive p) env deps ctx s = select_adaptive p env deps ctx s"

fun strict_fallback_errors :: "strategy \<Rightarrow> bool" where
  "strict_fallback_errors OrderedFailover = True"
| "strict_fallback_errors (TagFiltered _ _) = True"
| "strict_fallback_errors _ = False"

fun first_on_empty_selection :: "strategy \<Rightarrow> bool" where
  "first_on_empty_selection (TagFiltered _ _) = False"
| "first_on_empty_selection _ = True"

text \<open>Which strategies carry the state, and \<open>create_strategy\<close> with the default arguments.\<close>

fun carries_state :: "strategy \<Rightarrow> bool" where
  "carries_state (LowestLatency _) = True"
| "carries_state (TokenAware _ _) = True"
| "carries_state (RateLimitAware _ _) = True"
| "carries_state (Adaptive _) = True"
| "carries_state _ = False"

definition default_adaptive :: adaptive_params where
  "default_adaptive = \<lparr>ap_token_threshold = 1000, ap_rpm_threshold = 10, ap_exploration = 1 / 10,
     ap_cleanup_interval = 60, ap_w_health = 1, ap_w_token = 1 / 2, ap_w_rpm = 3 / 10, ap_w_latency = 1 / 5\<rparr>"

definition create_strategy :: "string \<Rightarrow> router_state option \<Rightarrow> router_exc + strategy" where
  "create_strategy name st =
     (if name = ''simple-shuffle'' then Inr (SimpleShuffle [] 1)
      else if name = ''lowest-latency'' then
        (if st = None then Inl (Other CValueError ''lowest-latency strategy requires state'') else Inr (LowestLatency (1 / 10)))
      else if name = ''tag-based'' then Inr (TagBased (SimpleShuffle [] 1))
      else if name = ''ordered-failover'' then Inr OrderedFailover
      else if name = ''tag-filtered'' then Inr (TagFiltered None OrderedFailover)
      else if name = ''token-aware'' then
        (if st = None then Inl (Other CValueError ''token-aware strategy requires state'') else Inr (TokenAware 1000 (1 / 10)))
      else if name = ''rate-limit-aware'' then
        (if st = None then Inl (Other CValueError ''rate-limit-aware strategy requires state'') else Inr (RateLimitAware 10 (1 / 10)))
      else if name = ''adaptive'' then
        (if st = None then Inl (Other CValueError ''adaptive strategy requires state'') else Inr (Adaptive default_adaptive))
      else Inl (Other CValueError (''Unknown strategy: '' @ name)))"

section \<open>The contract\<close>

text \<open>
  What the router relies on: a strategy chooses one of the deployments it is given, keeps the invariant of the
  state, and changes neither the health data nor the history.
\<close>

definition same_health :: "router_state \<Rightarrow> router_state \<Rightarrow> bool" where
  "same_health st st' \<longleftrightarrow> st' = st\<lparr>rs_sessions := rs_sessions st', rs_session_times := rs_session_times st'\<rparr>"

lemma same_health_refl [simp]: "same_health st st"
  by (simp add: same_health_def)

lemma same_health_sessions [simp]: "same_health st (st\<lparr>rs_sessions := a, rs_session_times := b\<rparr>)"
  "same_health st (st\<lparr>rs_session_times := b\<rparr>)"
  by (simp_all add: same_health_def)

lemma same_health_fields:
  assumes "same_health st st'"
  shows "rs_status st' = rs_status st" "rs_failures st' = rs_failures st" "rs_cooldown st' = rs_cooldown st"
    "rs_latencies st' = rs_latencies st" "rs_total_tokens st' = rs_total_tokens st" "rs_total_requests st' = rs_total_requests st"
    "rs_health st' = rs_health st" "rs_token_usage st' = rs_token_usage st" "rs_rpm st' = rs_rpm st"
  using arg_cong [OF assms [unfolded same_health_def], of rs_status] arg_cong [OF assms [unfolded same_health_def], of rs_failures]
    arg_cong [OF assms [unfolded same_health_def], of rs_cooldown] arg_cong [OF assms [unfolded same_health_def], of rs_latencies]
    arg_cong [OF assms [unfolded same_health_def], of rs_total_tokens] arg_cong [OF assms [unfolded same_health_def], of rs_total_requests]
    arg_cong [OF assms [unfolded same_health_def], of rs_health] arg_cong [OF assms [unfolded same_health_def], of rs_token_usage]
    arg_cong [OF assms [unfolded same_health_def], of rs_rpm]
  by simp_all

lemma same_health_trans: "same_health a b \<Longrightarrow> same_health b c \<Longrightarrow> same_health a c"
  by (cases a; cases b; cases c) (simp add: same_health_def)

lemma same_health_usable: "same_health st st' \<Longrightarrow> usable st' now i = usable st now i"
  by (simp add: usable_def cooldown_time_of_def same_health_fields)

locale routing_strategy =
  fixes select :: "select_env \<Rightarrow> deployment list \<Rightarrow> routing_context \<Rightarrow> strategy_state \<Rightarrow> selection"
  assumes select_member: "select env deps ctx s = (Inr (Some d), s') \<Longrightarrow> d \<in> set deps"
    and select_health: "select env deps ctx s = (r, s') \<Longrightarrow> same_health (fst s) (fst s')"
    and select_ok: "select env deps ctx s = (r, s') \<Longrightarrow> state_ok (fst s) \<Longrightarrow> state_ok (fst s')"
begin

lemma select_usable: "select env deps ctx s = (r, s') \<Longrightarrow> usable (fst s') now i = usable (fst s) now i"
  by (rule same_health_usable [OF select_health])

lemma select_nil: "select env [] ctx s \<noteq> (Inr (Some d), s')"
  using select_member [of env "[]" ctx s d s'] by auto

end



lemma choice_member: "xs \<noteq> [] \<Longrightarrow> choice env xs \<in> set xs"
  by (simp add: choice_def)

lemma last_sorted_max: "sorted (map f ys) \<Longrightarrow> y \<in> set ys \<Longrightarrow> f y \<le> f (last ys)"
  by (induction ys) (auto split: if_splits)

lemma sort_desc_hd:
  assumes "xs \<noteq> []"
  shows "hd (sort_desc f xs) \<in> set xs" "x \<in> set xs \<Longrightarrow> f x \<le> f (hd (sort_desc f xs))"
proof -
  have ne: "sort_key f (rev xs) \<noteq> []" using assms by (metis length_0_conv length_rev length_sort)
  then show "hd (sort_desc f xs) \<in> set xs" unfolding sort_desc_def hd_rev by (metis last_in_set set_rev set_sort)
  show "x \<in> set xs \<Longrightarrow> f x \<le> f (hd (sort_desc f xs))"
    unfolding sort_desc_def hd_rev by (rule last_sorted_max) simp_all
qed

lemma set_sort_desc [simp]: "set (sort_desc f xs) = set xs"
  by (simp add: sort_desc_def)

lemma lowest_loop_member: "lowest_loop st best l deps = Some d \<Longrightarrow> d \<in> set deps \<or> best = Some d"
  by (induction st best l deps rule: lowest_loop.induct) (auto simp: Let_def split: if_splits)

lemma shuffle_pick_member: "shuffle_pick r c ps = Some d \<Longrightarrow> d \<in> fst ` set ps"
  by (induction r c ps rule: shuffle_pick.induct) (auto split: if_splits)

lemma find_SomeD: "find P xs = Some x \<Longrightarrow> x \<in> set xs \<and> P x"
  by (auto simp: find_Some_iff in_set_conv_nth)

lemma select_remaining_member: "scored \<noteq> [] \<Longrightarrow> select_remaining n scored \<in> fst ` set scored"
  using sort_desc_hd(1) [of scored snd]
  by (force simp: select_remaining_def Let_def split: option.splits dest!: find_SomeD)

lemma traverse_scores: "traverse (\<lambda>d. rbind (f d) (\<lambda>x. Inr (d, x))) deps = Inr scored \<Longrightarrow> map fst scored = deps"
  by (induction deps arbitrary: scored) (auto simp: rbind_Inr_iff)

lemma best_scored_member: "scored \<noteq> [] \<Longrightarrow> best_scored scored \<in> fst ` set scored"
  using sort_desc_hd(1) [of scored snd] by (simp add: best_scored_def)

lemma session_affinity_health: "session_affinity p sid deps now s = (r, s') \<Longrightarrow> same_health (fst s) (fst s')"
  by (auto simp: session_affinity_def cleanup_expired_sessions_def Let_def
      split: if_splits option.splits prod.splits intro: same_health_trans [rotated])

lemma session_affinity_member: "session_affinity p sid deps now s = (Inr (Some d), s') \<Longrightarrow> d \<in> set deps"
  by (auto simp: session_affinity_def Let_def split: if_splits option.splits prod.splits dest: find_SomeD)

lemma dom_filter_key: "dom (map_of (filter (\<lambda>(k, _). P k) d)) = {k \<in> dom (map_of d). P k}"
  unfolding dom_def map_of_filter_key by auto

lemma state_ok_cleanup_sessions: "state_ok st \<Longrightarrow> state_ok (cleanup_expired_sessions now st)"
  unfolding state_ok_defs cleanup_expired_sessions_def Let_def
  by (simp add: dom_filter_key del: map_of_eq_Some_iff)

lemma state_ok_touch: "state_ok st \<Longrightarrow> map_of (rs_sessions st) k = Some i \<Longrightarrow>
    state_ok (st\<lparr>rs_session_times := AList.update k now (rs_session_times st)\<rparr>)"
  by (auto simp: state_ok_defs insert_absorb domI simp del: map_of_eq_Some_iff)

lemma state_ok_mapping: "state_ok st \<Longrightarrow> state_ok (update_session_mapping sid i now st)"
  by (auto simp: state_ok_defs update_session_mapping_def simp del: map_of_eq_Some_iff)

lemma session_affinity_ok: "session_affinity p sid deps now s = (r, s') \<Longrightarrow> state_ok (fst s) \<Longrightarrow> state_ok (fst s')"
  by (auto simp: session_affinity_def Let_def state_ok_cleanup_sessions state_ok_touch
      split: if_splits option.splits prod.splits simp del: map_of_eq_Some_iff map_of_eq_None_iff)

lemma same_health_mapping [simp]: "same_health st (update_session_mapping sid i now st)"
  by (simp add: update_session_mapping_def)

lemma adaptive_choice_contract:
  assumes "adaptive_choice p env deps sid s = (r, s')" "deps \<noteq> []"
  shows "same_health (fst s) (fst s')" "state_ok (fst s) \<Longrightarrow> state_ok (fst s')" "r = Inr (Some d) \<Longrightarrow> d \<in> set deps"
proof -
  let ?scores = "traverse (\<lambda>d. rbind (calculate_score p env (fst s) d) (\<lambda>x. Inr (d, x))) deps"
  have best: "best_scored scored \<in> set deps" if "?scores = Inr scored" for scored
    using traverse_scores [OF that] best_scored_member [of scored] assms(2) by (cases scored) (auto simp del: set_map simp flip: list.set_map)
  show "same_health (fst s) (fst s')" "state_ok (fst s) \<Longrightarrow> state_ok (fst s')"
    using assms(1) by (auto simp: adaptive_choice_def Let_def state_ok_mapping split: if_splits sum.splits)
  show "r = Inr (Some d) \<Longrightarrow> d \<in> set deps"
    using assms best by (auto simp: adaptive_choice_def Let_def choice_member split: if_splits sum.splits)
qed

lemma select_adaptive_contract:
  assumes "select_adaptive p env deps ctx s = (r, s')"
  shows "same_health (fst s) (fst s')" "state_ok (fst s) \<Longrightarrow> state_ok (fst s')" "r = Inr (Some d) \<Longrightarrow> d \<in> set deps"
proof -
  let ?sid = "dget (rc_kwargs ctx) ''session_id''"
  obtain a s1 where aff: "(if truthy ?sid then session_affinity p ?sid deps (se_now env) s else (Inr None, s)) = (a, s1)"
    by (rule prod.exhaust)
  have h1: "same_health (fst s) (fst s1)" and o1: "state_ok (fst s) \<Longrightarrow> state_ok (fst s1)"
    and m1: "a = Inr (Some d) \<Longrightarrow> d \<in> set deps"
    using aff session_affinity_health [of p ?sid deps "se_now env" s a s1] session_affinity_ok [of p ?sid deps "se_now env" s a s1]
      session_affinity_member [of p ?sid deps "se_now env" s d s1] by (auto split: if_splits)
  have sel: "select_adaptive p env deps ctx s =
      (if deps = [] then (Inr None, s) else if a = Inr None then adaptive_choice p env deps ?sid s1 else (a, s1))"
    unfolding select_adaptive_def Let_def aff by (simp split: sum.split option.split)
  show "same_health (fst s) (fst s')"
    using assms h1 same_health_trans [OF h1 adaptive_choice_contract(1)] unfolding sel by (auto split: if_splits)
  show "state_ok (fst s) \<Longrightarrow> state_ok (fst s')"
    using assms o1 adaptive_choice_contract(2) [of p env deps ?sid s1 r s'] unfolding sel by (auto split: if_splits)
  show "r = Inr (Some d) \<Longrightarrow> d \<in> set deps"
    using assms m1 adaptive_choice_contract(3) [of p env deps ?sid s1 r s' d] unfolding sel by (auto split: if_splits)
qed

lemma select_deployment_contract:
  assumes "select_deployment strat env deps ctx s = (r, s')"
  shows "same_health (fst s) (fst s') \<and> (state_ok (fst s) \<longrightarrow> state_ok (fst s')) \<and> (\<forall>d. r = Inr (Some d) \<longrightarrow> d \<in> set deps)"
  using assms
proof (induction strat env deps ctx s arbitrary: r s' rule: select_deployment.induct)
  case (1 ws w env deps ctx s)
  have "select_shuffle ws w env deps = Some d \<Longrightarrow> d \<in> set deps" for d
    by (auto simp: select_shuffle_def Let_def choice_member split: if_splits option.splits
        dest!: shuffle_pick_member elim: in_set_zipE)
  then show ?case using 1 by auto
next
  case (2 x env deps ctx s)
  have "select_lowest_latency x env deps (fst s) = Some d \<Longrightarrow> d \<in> set deps" for d
    by (auto simp: select_lowest_latency_def choice_member split: if_splits option.splits dest: lowest_loop_member)
  then show ?case using 2 by auto
next
  case (3 inner env deps ctx s)
  have "set (tag_matched tags deps) \<subseteq> set deps" for tags by (auto simp: tag_matched_def Let_def)
  moreover have "deps = [] \<and> r = Inr None \<and> s' = s \<or> (\<exists>e. r = Inl e) \<and> s' = s
      \<or> (\<exists>tags. deps \<noteq> [] \<and> get_request_tags ctx = Inr tags \<and> select_deployment inner env (tag_matched tags deps) ctx s = (r, s'))"
    using 3(2) by (auto split: if_splits sum.splits)
  ultimately show ?case using 3(1) [of _ r s'] by auto
next
  case (4 env deps ctx s)
  then show ?case by (auto simp: select_ordered_def split: list.splits)
next
  case (5 tag inner env deps ctx s)
  have "set (fallback_filtered tag deps) \<subseteq> set deps" by (auto simp: fallback_filtered_def split: option.splits)
  moreover have "r = Inr None \<and> s' = s
      \<or> (deps \<noteq> [] \<and> fallback_filtered tag deps \<noteq> [] \<and> select_deployment inner env (fallback_filtered tag deps) ctx s = (r, s'))"
    using 5(2) by (auto simp: Let_def split: if_splits)
  ultimately show ?case using 5(1) [OF _ refl, of r s'] by auto
next
  case (6 n x env deps ctx s)
  have "select_token_aware n x env deps (fst s) = Some d \<Longrightarrow> d \<in> set deps" for d
    using select_remaining_member [of "map (\<lambda>d. (d, get_token_remaining (fst s) (d_id d))) deps" n]
    by (auto simp: select_token_aware_def choice_member split: if_splits)
  then show ?case using 6 by auto
next
  case (7 n x env deps ctx s)
  have "select_rate_aware n x env deps (fst s) = Some d \<Longrightarrow> d \<in> set deps" for d
    using select_remaining_member [of "map (\<lambda>d. (d, get_rpm_remaining (se_clock env (d_id d)) (fst s) (d_id d))) deps" n]
    by (auto simp: select_rate_aware_def choice_member split: if_splits)
  then show ?case using 7 by auto
next
  case (8 p env deps ctx s)
  then show ?case using select_adaptive_contract [of p env deps ctx s r s'] by auto
qed

interpretation builtin: routing_strategy "select_deployment strat" for strat
  by unfold_locales (use select_deployment_contract in blast)+

section \<open>Optimality\<close>

text \<open>
  The threshold of the quota strategies never changes the choice: the deployment with most left is chosen.
\<close>

lemma length_sort_desc [simp]: "length (sort_desc f xs) = length xs"
  by (simp add: sort_desc_def)

lemma find_hd: "xs \<noteq> [] \<Longrightarrow> P (hd xs) \<Longrightarrow> find P xs = Some (hd xs)"
  by (cases xs) auto

lemma select_remaining_hd: "scored \<noteq> [] \<Longrightarrow> select_remaining n scored = fst (hd (sort_desc snd scored))"
proof -
  assume ne: "scored \<noteq> []"
  let ?P = "\<lambda>(d, r). Fin (of_int n) \<le> r \<or> r = Inf"
  have sne: "sort_desc snd scored \<noteq> []" using ne length_sort_desc [of snd scored] by force
  show ?thesis
  proof (cases "?P (hd (sort_desc snd scored))")
    case True
    then show ?thesis using find_hd [OF sne, of ?P] by (simp add: select_remaining_def Let_def split: prod.splits)
  next
    case False
    have "\<not> ?P x" if "x \<in> set scored" for x
      using sort_desc_hd(2) [OF ne that, of snd] False by (auto simp: case_prod_beta')
    then have "find ?P (sort_desc snd scored) = None" by (auto simp: find_None_iff)
    then show ?thesis by (simp add: select_remaining_def Let_def)
  qed
qed

lemma select_remaining_max:
  assumes "deps \<noteq> []" "select_remaining n (map (\<lambda>d. (d, f d)) deps) = d" "x \<in> set deps"
  shows "f x \<le> f d"
proof -
  let ?s = "map (\<lambda>d. (d, f d)) deps"
  have ne: "?s \<noteq> []" using assms(1) by simp
  have "hd (sort_desc snd ?s) = (d, f d)"
    using sort_desc_hd(1) [OF ne, of snd] assms(2) select_remaining_hd [OF ne, of n] by auto
  then show ?thesis using sort_desc_hd(2) [OF ne, of "(x, f x)" snd] assms(3) by auto
qed

lemma lowest_loop_min:
  assumes "case best of None \<Rightarrow> l = Inf | Some b \<Rightarrow> l = get_average_latency st (d_id b)"
  shows "case lowest_loop st best l deps of
     None \<Rightarrow> best = None \<and> (\<forall>x \<in> set deps. get_average_latency st (d_id x) = Inf)
   | Some d \<Rightarrow> get_average_latency st (d_id d) \<le> l \<and> (\<forall>x \<in> set deps. get_average_latency st (d_id d) \<le> get_average_latency st (d_id x))"
  using assms
proof (induction st best l deps rule: lowest_loop.induct)
  case (1 st best l)
  then show ?case by (auto split: option.splits)
next
  case (2 st best l d ds)
  show ?case
  proof (cases "get_average_latency st (d_id d) < l")
    case True
    then show ?thesis using 2(1) [OF refl True] by (auto simp: Let_def split: option.splits)
  next
    case False
    then have "l \<le> get_average_latency st (d_id d)" by simp
    then show ?thesis using 2(2) [OF refl False] 2(3) False by (auto simp: Let_def split: option.splits intro: order_trans)
  qed
qed

lemma lowest_latency_min:
  assumes "select_lowest_latency x env deps st = Some d" "x \<le> se_random env" "y \<in> set deps"
  shows "get_average_latency st (d_id d) \<le> get_average_latency st (d_id y)"
  using assms lowest_loop_min [where best = None and l = Inf and st = st and deps = deps]
  by (auto simp: select_lowest_latency_def split: if_splits option.splits)

text \<open>A choice of the adaptive strategy that is neither bound to a session nor random has the best score.\<close>

lemma best_scored_max:
  assumes "scored \<noteq> []" "(x, r) \<in> set scored"
  obtains s where "(best_scored scored, s) \<in> set scored" "r \<le> s"
  using sort_desc_hd(1) [OF assms(1), of snd] sort_desc_hd(2) [OF assms, of snd] that [of "snd (hd (sort_desc snd scored))"]
  by (auto simp: best_scored_def)

lemma adaptive_best:
  assumes "adaptive_choice p env deps sid s = (Inr (Some d), s')" "ap_exploration p \<le> se_random env" "y \<in> set deps"
  obtains a b where "calculate_score p env (fst s) d = Inr a" "calculate_score p env (fst s) y = Inr b" "b \<le> a"
proof -
  obtain scored where sc: "traverse (\<lambda>d. rbind (calculate_score p env (fst s) d) (\<lambda>x. Inr (d, x))) deps = Inr scored"
    "d = best_scored scored"
    using assms(1,2) by (auto simp: adaptive_choice_def Let_def split: if_splits sum.splits)
  have all: "(e, x) \<in> set scored \<Longrightarrow> calculate_score p env (fst s) e = Inr x" for e x
    using sc(1) unfolding traverse_Inr_iff
    by (auto simp: list_all2_conv_all_nth in_set_conv_nth rbind_Inr_iff)
  obtain b where b: "(y, b) \<in> set scored"
    using traverse_scores [OF sc(1)] assms(3) by (metis (no_types, lifting) imageE list.set_map prod.collapse)
  then obtain a where "(d, a) \<in> set scored" "b \<le> a" using best_scored_max [of scored y b] sc(2) by (metis empty_iff empty_set)
  then show ?thesis using that all b by blast
qed


end
