(* ===== verification/RouterMetrics.thy ===== *)
theory RouterMetrics
  imports RouterErrors
begin

text \<open>
  \<open>intelli_router/observability\<close>: the routing events, the bus that hands them to the registered handlers, and
  the metrics collector. The optional export to Prometheus only mirrors the counters and is not modelled. A
  method of the collector runs under its lock and is one step.
\<close>

section \<open>Events\<close>

datatype event_type =
    RequestStarted | RequestSucceeded | RequestRetried | AllDeploymentsExhausted | RequestCancelled
  | StreamStarted | StreamRouteSelected | StreamSucceeded | StreamCancelled | DeploymentsUpdated

datatype extra_val = XStr string | XInt int | XFloat rat | XIds "string list" | XClass exc_class

type_synonym extra = "(string \<times> extra_val) list"

text \<open>The error message is the text of an exception or of the source, kept as the exception itself or the text.\<close>

record routing_event =
  ev_type :: event_type
  ev_request_id :: string
  ev_model :: "string option"
  ev_timestamp :: rat
  ev_deployment :: "string option"
  ev_provider :: "string option"
  ev_latency :: "rat option"
  ev_prompt_tokens :: "int option"
  ev_completion_tokens :: "int option"
  ev_total_tokens :: "int option"
  ev_attempt :: int
  ev_total_attempts :: int
  ev_error_type :: "exc_class option"
  ev_error_message :: "(router_exc + string) option"
  ev_chunk_count :: "nat option"
  ev_extra :: extra

definition event :: "event_type \<Rightarrow> string \<Rightarrow> string option \<Rightarrow> rat \<Rightarrow> routing_event" where
  "event ty rid model now = \<lparr>ev_type = ty, ev_request_id = rid, ev_model = model, ev_timestamp = now, ev_deployment = None,
     ev_provider = None, ev_latency = None, ev_prompt_tokens = None, ev_completion_tokens = None, ev_total_tokens = None,
     ev_attempt = 0, ev_total_attempts = 0, ev_error_type = None, ev_error_message = None, ev_chunk_count = None, ev_extra = []\<rparr>"

definition is_start :: "routing_event \<Rightarrow> bool" where
  "is_start e \<longleftrightarrow> ev_type e \<in> {RequestStarted, StreamStarted}"

definition is_success :: "routing_event \<Rightarrow> bool" where
  "is_success e \<longleftrightarrow> ev_type e \<in> {RequestSucceeded, StreamSucceeded}"

definition is_exhausted :: "routing_event \<Rightarrow> bool" where
  "is_exhausted e \<longleftrightarrow> ev_type e = AllDeploymentsExhausted"

definition is_cancelled :: "routing_event \<Rightarrow> bool" where
  "is_cancelled e \<longleftrightarrow> ev_type e \<in> {RequestCancelled, StreamCancelled}"

definition is_terminal :: "routing_event \<Rightarrow> bool" where
  "is_terminal e \<longleftrightarrow> is_success e \<or> is_exhausted e \<or> is_cancelled e"

lemmas event_kind_defs = is_start_def is_success_def is_exhausted_def is_cancelled_def is_terminal_def

section \<open>The bus\<close>

text \<open>
  A handler has a name, a state and a reaction that may raise. An exception of one handler is logged and the next
  is called; only a cancellation goes through.
\<close>

record 'h handler =
  h_name :: nat
  h_state :: 'h
  h_react :: "routing_event \<Rightarrow> 'h \<Rightarrow> router_exc option \<times> 'h"

definition bus_register :: "'h handler \<Rightarrow> 'h handler list \<Rightarrow> 'h handler list" where
  "bus_register h hs = hs @ [h]"

fun bus_unregister :: "nat \<Rightarrow> 'h handler list \<Rightarrow> router_exc + 'h handler list" where
  "bus_unregister n [] = Inl (Other CValueError ''list.remove(x): x not in list'')"
| "bus_unregister n (h # hs) = (if h_name h = n then Inr hs else rbind (bus_unregister n hs) (\<lambda>r. Inr (h # r)))"

definition react :: "routing_event \<Rightarrow> 'h handler \<Rightarrow> router_exc option \<times> 'h handler" where
  "react e h = (let (x, s) = h_react h e (h_state h) in (x, h\<lparr>h_state := s\<rparr>))"

fun bus_emit :: "routing_event \<Rightarrow> 'h handler list \<Rightarrow> router_exc option \<times> 'h handler list" where
  "bus_emit e [] = (None, [])"
| "bus_emit e (h # hs) =
     (let (x, h') = react e h in
      case x of
        Some exc \<Rightarrow> if isinst exc CException then map_prod id ((#) h') (bus_emit e hs) else (Some exc, h' # hs)
      | None \<Rightarrow> map_prod id ((#) h') (bus_emit e hs))"

text \<open>No handler is skipped because another one failed.\<close>

lemma bus_emit_all:
  "\<forall>h \<in> set hs. \<forall>x. fst (react e h) = Some x \<longrightarrow> isinst x CException \<Longrightarrow> bus_emit e hs = (None, map (snd \<circ> react e) hs)"
  by (induction hs) (auto simp: split_beta Let_def split: option.splits)

section \<open>Latency statistics\<close>

abbreviation sample_limit :: nat where
  "sample_limit \<equiv> 1000"

record latency_stats =
  ls_count :: int
  ls_total :: rat
  ls_min :: "rat option"
  ls_max :: rat
  ls_samples :: "rat list"

definition new_stats :: latency_stats where
  "new_stats = \<lparr>ls_count = 0, ls_total = 0, ls_min = None, ls_max = 0, ls_samples = []\<rparr>"

definition take_last :: "nat \<Rightarrow> 'a list \<Rightarrow> 'a list" where
  "take_last n xs = drop (length xs - n) xs"

text \<open>\<open>min_val\<close> starts as infinity, which is \<open>None\<close> here.\<close>

definition observe :: "rat \<Rightarrow> latency_stats \<Rightarrow> latency_stats" where
  "observe v s =
     (let samples = ls_samples s @ [v] in
      \<lparr>ls_count = ls_count s + 1, ls_total = ls_total s + v,
       ls_min = (case ls_min s of None \<Rightarrow> Some v | Some m \<Rightarrow> if v < m then Some v else Some m),
       ls_max = (if v > ls_max s then v else ls_max s),
       ls_samples = (if length samples > sample_limit then take_last sample_limit samples else samples)\<rparr>)"

definition percentile :: "nat \<Rightarrow> latency_stats \<Rightarrow> rat option" where
  "percentile p s =
     (if ls_samples s = [] then None
      else let sorted_s = sort (ls_samples s); idx = length sorted_s * p div 100 in
        Some (sorted_s ! min idx (length sorted_s - 1)))"

definition stats_avg :: "latency_stats \<Rightarrow> rat" where
  "stats_avg s = (if ls_count s > 0 then ls_total s / of_int (ls_count s) else 0)"

section \<open>The collector\<close>

record deployment_metrics =
  dm_requests :: "(string \<times> int) list"
  dm_successes :: "(string \<times> int) list"
  dm_failures :: "(string \<times> int) list"
  dm_latency :: "(string \<times> latency_stats) list"
  dm_tokens :: "(string \<times> int) list"
  dm_provider :: "(string \<times> string) list"

record model_metrics =
  mm_requests :: "(string option \<times> int) list"
  mm_successes :: "(string option \<times> int) list"
  mm_failures :: "(string option \<times> int) list"
  mm_latency :: "(string option \<times> latency_stats) list"
  mm_ttft :: "(string option \<times> latency_stats) list"

record metrics =
  mc_requests :: int
  mc_successes :: int
  mc_failures :: int
  mc_retries :: int
  mc_exhausted :: int
  mc_streams :: int
  mc_chunks :: int
  mc_cancelled :: int
  mc_prompt_tokens :: int
  mc_completion_tokens :: int
  mc_by_model :: model_metrics
  mc_by_deployment :: deployment_metrics
  mc_errors_by_type :: "(exc_class \<times> int) list"
  mc_latency :: latency_stats
  mc_ttft :: latency_stats
  mc_tokens_per_sec :: latency_stats
  mc_chunks_per_sec :: latency_stats
  mc_timestamps :: "rat list"
  mc_timeline :: "(string \<times> routing_event) list"

definition new_metrics :: metrics where
  "new_metrics = \<lparr>mc_requests = 0, mc_successes = 0, mc_failures = 0, mc_retries = 0, mc_exhausted = 0, mc_streams = 0,
     mc_chunks = 0, mc_cancelled = 0, mc_prompt_tokens = 0, mc_completion_tokens = 0,
     mc_by_model = \<lparr>mm_requests = [], mm_successes = [], mm_failures = [], mm_latency = [], mm_ttft = []\<rparr>,
     mc_by_deployment = \<lparr>dm_requests = [], dm_successes = [], dm_failures = [], dm_latency = [], dm_tokens = [], dm_provider = []\<rparr>,
     mc_errors_by_type = [], mc_latency = new_stats, mc_ttft = new_stats, mc_tokens_per_sec = new_stats,
     mc_chunks_per_sec = new_stats, mc_timestamps = [], mc_timeline = []\<rparr>"

text \<open>\<open>d[k] += n\<close> and \<open>d[k].observe(v)\<close> on a \<open>defaultdict\<close>; the \<open>deque\<close> of the time line holds 100 entries.\<close>

definition count_of :: "('k \<times> int) list \<Rightarrow> 'k \<Rightarrow> int" where
  "count_of d k = (case map_of d k of None \<Rightarrow> 0 | Some n \<Rightarrow> n)"

definition bump :: "'k \<Rightarrow> int \<Rightarrow> ('k \<times> int) list \<Rightarrow> ('k \<times> int) list" where
  "bump k n d = AList.update k (count_of d k + n) d"

definition observe_at :: "'k \<Rightarrow> rat \<Rightarrow> ('k \<times> latency_stats) list \<Rightarrow> ('k \<times> latency_stats) list" where
  "observe_at k v d = AList.update k (observe v (case map_of d k of None \<Rightarrow> new_stats | Some s \<Rightarrow> s)) d"

definition log_entry :: "string \<Rightarrow> routing_event \<Rightarrow> metrics \<Rightarrow> metrics" where
  "log_entry label e m = m\<lparr>mc_timeline := take_last 100 (mc_timeline m @ [(label, e)])\<rparr>"

definition or_zero :: "int option \<Rightarrow> int" where
  "or_zero n = (case n of None \<Rightarrow> 0 | Some k \<Rightarrow> k)"

definition opt_observe :: "rat option \<Rightarrow> latency_stats \<Rightarrow> latency_stats" where
  "opt_observe v s = (case v of None \<Rightarrow> s | Some x \<Rightarrow> observe x s)"

definition opt_observe_at :: "'k \<Rightarrow> rat option \<Rightarrow> ('k \<times> latency_stats) list \<Rightarrow> ('k \<times> latency_stats) list" where
  "opt_observe_at k v d = (case v of None \<Rightarrow> d | Some x \<Rightarrow> observe_at k x d)"

definition on_request_started :: "routing_event \<Rightarrow> metrics \<Rightarrow> metrics" where
  "on_request_started e m = m\<lparr>mc_requests := mc_requests m + 1,
     mc_by_model := (mc_by_model m)\<lparr>mm_requests := bump (ev_model e) 1 (mm_requests (mc_by_model m))\<rparr>,
     mc_timestamps := mc_timestamps m @ [ev_timestamp e]\<rparr>"

definition on_stream_started :: "routing_event \<Rightarrow> metrics \<Rightarrow> metrics" where
  "on_stream_started e m = (on_request_started e m)\<lparr>mc_streams := mc_streams m + 1\<rparr>"

text \<open>The part of a success that belongs to the deployment.\<close>

definition deployment_success :: "routing_event \<Rightarrow> deployment_metrics \<Rightarrow> deployment_metrics" where
  "deployment_success e dm =
     (case ev_deployment e of
        Some i \<Rightarrow>
          if i = [] then dm
          else dm\<lparr>dm_requests := bump i 1 (dm_requests dm), dm_successes := bump i 1 (dm_successes dm),
                  dm_provider := (case ev_provider e of Some p \<Rightarrow> if p \<noteq> [] then AList.update i p (dm_provider dm) else dm_provider dm
                                  | None \<Rightarrow> dm_provider dm),
                  dm_latency := opt_observe_at i (ev_latency e) (dm_latency dm),
                  dm_tokens := (let n = or_zero (ev_prompt_tokens e) + or_zero (ev_completion_tokens e) in
                                if n \<noteq> 0 then bump i n (dm_tokens dm) else dm_tokens dm)\<rparr>
      | None \<Rightarrow> dm)"

text \<open>\<open>count / latency\<close> when both are truthy and the latency is positive.\<close>

definition rate :: "int \<Rightarrow> rat option \<Rightarrow> rat option" where
  "rate n latency = (case latency of Some l \<Rightarrow> if n \<noteq> 0 \<and> l > 0 then Some (of_int n / l) else None | None \<Rightarrow> None)"

definition count_success_event :: "routing_event \<Rightarrow> metrics \<Rightarrow> metrics" where
  "count_success_event e m = m\<lparr>mc_successes := mc_successes m + 1,
     mc_by_model := (mc_by_model m)\<lparr>mm_successes := bump (ev_model e) 1 (mm_successes (mc_by_model m)),
       mm_latency := opt_observe_at (ev_model e) (ev_latency e) (mm_latency (mc_by_model m))\<rparr>,
     mc_by_deployment := deployment_success e (mc_by_deployment m),
     mc_latency := opt_observe (ev_latency e) (mc_latency m),
     mc_prompt_tokens := mc_prompt_tokens m + or_zero (ev_prompt_tokens e),
     mc_completion_tokens := mc_completion_tokens m + or_zero (ev_completion_tokens e),
     mc_tokens_per_sec := opt_observe (rate (or_zero (ev_completion_tokens e)) (ev_latency e)) (mc_tokens_per_sec m)\<rparr>"

definition on_request_succeeded :: "routing_event \<Rightarrow> metrics \<Rightarrow> metrics" where
  "on_request_succeeded e m = log_entry ''success'' e (count_success_event e m)"

fun extra_float :: "extra_val option \<Rightarrow> rat option" where
  "extra_float (Some (XFloat x)) = Some x"
| "extra_float (Some (XInt n)) = Some (of_int n)"
| "extra_float _ = None"

definition on_stream_succeeded :: "routing_event \<Rightarrow> metrics \<Rightarrow> metrics" where
  "on_stream_succeeded e m =
     (let m1 = count_success_event e m; chunks = (case ev_chunk_count e of None \<Rightarrow> 0 | Some n \<Rightarrow> int n);
          ttft = extra_float (map_of (ev_extra e) ''ttft'') in
      log_entry ''stream_success'' e (m1\<lparr>mc_chunks := mc_chunks m1 + chunks,
        mc_chunks_per_sec := opt_observe (rate chunks (ev_latency e)) (mc_chunks_per_sec m1),
        mc_ttft := opt_observe ttft (mc_ttft m1),
        mc_by_model := (mc_by_model m1)\<lparr>mm_ttft := opt_observe_at (ev_model e) ttft (mm_ttft (mc_by_model m1))\<rparr>\<rparr>))"

definition deployment_failure :: "string option \<Rightarrow> deployment_metrics \<Rightarrow> deployment_metrics" where
  "deployment_failure i dm =
     (case i of Some j \<Rightarrow> if j = [] then dm
                          else dm\<lparr>dm_requests := bump j 1 (dm_requests dm), dm_failures := bump j 1 (dm_failures dm)\<rparr>
      | None \<Rightarrow> dm)"

definition on_request_retried :: "routing_event \<Rightarrow> metrics \<Rightarrow> metrics" where
  "on_request_retried e m =
     log_entry ''retry'' e (m\<lparr>mc_retries := mc_retries m + 1,
       mc_by_deployment := deployment_failure (ev_deployment e) (mc_by_deployment m),
       mc_errors_by_type := (case ev_error_type e of None \<Rightarrow> mc_errors_by_type m | Some c \<Rightarrow> bump c 1 (mc_errors_by_type m))\<rparr>)"

fun route_id :: "extra_val option \<Rightarrow> string option" where
  "route_id (Some (XStr s)) = Some s"
| "route_id _ = None"

definition on_all_exhausted :: "routing_event \<Rightarrow> metrics \<Rightarrow> metrics" where
  "on_all_exhausted e m = m\<lparr>mc_exhausted := mc_exhausted m + 1, mc_failures := mc_failures m + 1,
     mc_by_model := (mc_by_model m)\<lparr>mm_failures := bump (ev_model e) 1 (mm_failures (mc_by_model m))\<rparr>,
     mc_by_deployment := deployment_failure (route_id (map_of (ev_extra e) ''route_id'')) (mc_by_deployment m)\<rparr>"

definition on_cancelled :: "string \<Rightarrow> routing_event \<Rightarrow> metrics \<Rightarrow> metrics" where
  "on_cancelled label e m = log_entry label e (m\<lparr>mc_cancelled := mc_cancelled m + 1\<rparr>)"

definition drop_deployment_keys :: "string list \<Rightarrow> metrics \<Rightarrow> metrics" where
  "drop_deployment_keys ids m = m\<lparr>mc_by_deployment :=
     \<lparr>dm_requests = fold AList.delete ids (dm_requests (mc_by_deployment m)),
      dm_successes = fold AList.delete ids (dm_successes (mc_by_deployment m)),
      dm_failures = fold AList.delete ids (dm_failures (mc_by_deployment m)),
      dm_latency = fold AList.delete ids (dm_latency (mc_by_deployment m)),
      dm_tokens = fold AList.delete ids (dm_tokens (mc_by_deployment m)),
      dm_provider = fold AList.delete ids (dm_provider (mc_by_deployment m))\<rparr>\<rparr>"

definition on_deployments_updated :: "routing_event \<Rightarrow> metrics \<Rightarrow> metrics" where
  "on_deployments_updated e m =
     (case map_of (ev_extra e) ''removed_ids'' of Some (XIds ids) \<Rightarrow> drop_deployment_keys ids m | _ \<Rightarrow> m)"

definition handle_event :: "routing_event \<Rightarrow> metrics \<Rightarrow> metrics" where
  "handle_event e m =
     (case ev_type e of
        RequestStarted \<Rightarrow> on_request_started e m
      | RequestSucceeded \<Rightarrow> on_request_succeeded e m
      | RequestRetried \<Rightarrow> on_request_retried e m
      | AllDeploymentsExhausted \<Rightarrow> on_all_exhausted e m
      | StreamStarted \<Rightarrow> on_stream_started e m
      | StreamSucceeded \<Rightarrow> on_stream_succeeded e m
      | StreamCancelled \<Rightarrow> on_cancelled ''stream_cancelled'' e m
      | RequestCancelled \<Rightarrow> on_cancelled ''request_cancelled'' e m
      | DeploymentsUpdated \<Rightarrow> on_deployments_updated e m
      | StreamRouteSelected \<Rightarrow> m)"

definition metrics_remove_deployment :: "string \<Rightarrow> metrics \<Rightarrow> metrics" where
  "metrics_remove_deployment i m = drop_deployment_keys [i] m"

definition metrics_ids :: "metrics \<Rightarrow> string list" where
  "metrics_ids m = (let d = mc_by_deployment m in remdups (map fst (dm_requests d) @ map fst (dm_successes d) @ map fst (dm_failures d)
     @ map fst (dm_latency d) @ map fst (dm_tokens d) @ map fst (dm_provider d)))"

definition prune_deployments :: "string list \<Rightarrow> metrics \<Rightarrow> metrics" where
  "prune_deployments keep m = drop_deployment_keys (filter (\<lambda>i. i \<notin> set keep) (metrics_ids m)) m"

text \<open>The window of \<open>get_stats\<close>: time stamps older than 60 seconds are removed from the front; the rate is per second.\<close>

definition get_qps :: "rat \<Rightarrow> metrics \<Rightarrow> rat \<times> metrics" where
  "get_qps now m =
     (let window = dropWhile (\<lambda>t. t < now - 60) (mc_timestamps m) in
      (of_nat (length window) / 60, m\<lparr>mc_timestamps := window\<rparr>))"

definition metrics_reset :: "metrics \<Rightarrow> metrics" where
  "metrics_reset m = new_metrics"

definition collect :: "routing_event list \<Rightarrow> metrics" where
  "collect es = fold handle_event es new_metrics"

section \<open>Counting\<close>

lemma log_entry_fields [simp]:
  "mc_requests (log_entry l e m) = mc_requests m" "mc_successes (log_entry l e m) = mc_successes m"
  "mc_failures (log_entry l e m) = mc_failures m" "mc_cancelled (log_entry l e m) = mc_cancelled m"
  "mc_retries (log_entry l e m) = mc_retries m" "mc_by_deployment (log_entry l e m) = mc_by_deployment m"
  by (simp_all add: log_entry_def)

lemmas handler_defs = on_request_started_def on_stream_started_def on_request_succeeded_def on_stream_succeeded_def
  on_request_retried_def on_all_exhausted_def on_cancelled_def on_deployments_updated_def drop_deployment_keys_def
  count_success_event_def

text \<open>One event changes the four counters of the requests by what it is.\<close>

lemma handle_event_counts:
  "mc_requests (handle_event e m) = mc_requests m + of_bool (is_start e)"
  "mc_successes (handle_event e m) = mc_successes m + of_bool (is_success e)"
  "mc_failures (handle_event e m) = mc_failures m + of_bool (is_exhausted e)"
  "mc_cancelled (handle_event e m) = mc_cancelled m + of_bool (is_cancelled e)"
  by (cases "ev_type e"; simp add: handle_event_def handler_defs event_kind_defs Let_def split: option.split extra_val.split)+

lemma collect_counts:
  "mc_requests (fold handle_event es m) = mc_requests m + int (length (filter is_start es))"
  "mc_successes (fold handle_event es m) = mc_successes m + int (length (filter is_success es))"
  "mc_failures (fold handle_event es m) = mc_failures m + int (length (filter is_exhausted es))"
  "mc_cancelled (fold handle_event es m) = mc_cancelled m + int (length (filter is_cancelled es))"
  by (induction es arbitrary: m) (simp_all add: handle_event_counts)

lemma terminal_kinds: "length (filter is_terminal es) =
    length (filter is_success es) + length (filter is_exhausted es) + length (filter is_cancelled es)"
  by (induction es) (auto simp: event_kind_defs)

text \<open>The deployment an event is counted for.\<close>

definition attributed :: "routing_event \<Rightarrow> string option" where
  "attributed e =
     (case ev_type e of
        RequestSucceeded \<Rightarrow> ev_deployment e
      | StreamSucceeded \<Rightarrow> ev_deployment e
      | RequestRetried \<Rightarrow> ev_deployment e
      | AllDeploymentsExhausted \<Rightarrow> route_id (map_of (ev_extra e) ''route_id'')
      | _ \<Rightarrow> None)"

lemma count_of_bump [simp]: "count_of (bump k n d) j = count_of d j + (if j = k then n else 0)"
  by (simp add: bump_def count_of_def split: option.split)

lemma count_of_delete: "count_of (fold AList.delete ids d) j = (if j \<in> set ids then 0 else count_of d j)"
proof -
  have "map_of (fold AList.delete ids d) j = (if j \<in> set ids then None else map_of d j)"
    by (induction ids arbitrary: d) auto
  then show ?thesis by (simp add: count_of_def)
qed

lemma deployment_success_counts:
  "count_of (dm_requests (deployment_success e dm)) i = count_of (dm_requests dm) i + of_bool (ev_deployment e = Some i \<and> i \<noteq> [])"
  "count_of (dm_successes (deployment_success e dm)) i = count_of (dm_successes dm) i + of_bool (ev_deployment e = Some i \<and> i \<noteq> [])"
  "dm_failures (deployment_success e dm) = dm_failures dm"
  by (auto simp: deployment_success_def split: option.split)

lemma deployment_failure_counts:
  "count_of (dm_requests (deployment_failure x dm)) i = count_of (dm_requests dm) i + of_bool (x = Some i \<and> i \<noteq> [])"
  "count_of (dm_failures (deployment_failure x dm)) i = count_of (dm_failures dm) i + of_bool (x = Some i \<and> i \<noteq> [])"
  "dm_successes (deployment_failure x dm) = dm_successes dm"
  by (auto simp: deployment_failure_def split: option.split)

lemma handle_event_attributed:
  assumes "i \<noteq> []" "ev_type e \<noteq> DeploymentsUpdated"
  shows "count_of (dm_requests (mc_by_deployment (handle_event e m))) i
    = count_of (dm_requests (mc_by_deployment m)) i + of_bool (attributed e = Some i)"
  using assms
  by (cases "ev_type e") (simp_all add: handle_event_def handler_defs attributed_def Let_def deployment_success_counts deployment_failure_counts)

lemma collect_attributed:
  "i \<noteq> [] \<Longrightarrow> \<forall>e \<in> set es. ev_type e \<noteq> DeploymentsUpdated \<Longrightarrow>
   count_of (dm_requests (mc_by_deployment (fold handle_event es m))) i
    = count_of (dm_requests (mc_by_deployment m)) i + int (length (filter (\<lambda>e. attributed e = Some i) es))"
  by (induction es arbitrary: m) (simp_all add: handle_event_attributed)

text \<open>For every deployment the requests are the successes and the failures together.\<close>

definition deployments_balanced :: "metrics \<Rightarrow> bool" where
  "deployments_balanced m \<longleftrightarrow> (\<forall>i. count_of (dm_requests (mc_by_deployment m)) i
     = count_of (dm_successes (mc_by_deployment m)) i + count_of (dm_failures (mc_by_deployment m)) i)"

lemma balanced_event: "deployments_balanced m \<Longrightarrow> deployments_balanced (handle_event e m)"
  by (cases "ev_type e") (auto simp: deployments_balanced_def handle_event_def handler_defs Let_def deployment_success_counts
      deployment_failure_counts count_of_delete split: option.split extra_val.split)

lemma balanced_collect: "deployments_balanced m \<Longrightarrow> deployments_balanced (fold handle_event es m)"
  by (induction es arbitrary: m) (simp_all add: balanced_event)

lemma balanced_new [simp]: "deployments_balanced new_metrics"
  by (simp add: deployments_balanced_def new_metrics_def count_of_def)

text \<open>A percentile is one of the samples, and the sample list stays bounded.\<close>

lemma percentile_member: "percentile p s = Some v \<Longrightarrow> v \<in> set (ls_samples s)"
proof -
  assume *: "percentile p s = Some v"
  define i where "i = min (length (ls_samples s) * p div 100) (length (ls_samples s) - 1)"
  have "ls_samples s \<noteq> []" "v = sort (ls_samples s) ! i"
    using * by (auto simp: percentile_def Let_def i_def split: if_splits)
  moreover from this have "i < length (sort (ls_samples s))" by (cases "ls_samples s") (simp_all add: i_def)
  ultimately show ?thesis using nth_mem [of i "sort (ls_samples s)"] by simp
qed

lemma observe_bounded: "length (ls_samples s) \<le> sample_limit \<Longrightarrow> length (ls_samples (observe v s)) \<le> sample_limit"
  by (simp add: observe_def Let_def take_last_def)


end
