(* ===== verification/ReliableRouter.thy ===== *)
theory ReliableRouter
  imports RouterProvider RouterStrategy RouterMetrics
begin

text \<open>
  \<open>router/base_router.py\<close> and \<open>router/reliable_router.py\<close>: the routing of one request over the deployments of a
  model, with retries, cooldowns and events. The inputs of a call are the readings of the clock (by the place that
  reads it), the draws of the strategy, the replies of the network, and what other tasks do to the shared memory
  while the call waits for a reply. The result of a call is its value or exception, the events it emits in order,
  the deployments it tried, and the router afterwards.
\<close>

section \<open>The router\<close>

text \<open>
  A strategy as the router sees it: the choice, the two class attributes that steer the fallback, and whether it
  has a \<open>state\<close> attribute of its own, which the router then adopts. A strategy nested in another keeps the state it
  was built with; that state is \<open>r_own\<close>.
\<close>

record strategy_object =
  so_select :: "select_env \<Rightarrow> deployment list \<Rightarrow> routing_context \<Rightarrow> strategy_state \<Rightarrow> selection"
  so_strict :: bool
  so_first :: bool
  so_shares :: bool

definition object_of :: "strategy \<Rightarrow> strategy_object" where
  "object_of s = \<lparr>so_select = select_deployment s, so_strict = strict_fallback_errors s,
     so_first = first_on_empty_selection s, so_shares = carries_state s\<rparr>"

type_synonym memory = "router_state \<times> strategy_state"

record router =
  r_platform :: platform
  r_deployments :: "deployment list"
  r_indices :: "(string \<times> nat list) list"
  r_num_retries :: int
  r_cooldown_time :: rat
  r_group :: "string option"
  r_strategy :: strategy_object
  r_state :: router_state
  r_own :: strategy_state
  r_checker :: "deployment list option"

definition memory_of :: "router \<Rightarrow> memory" where
  "memory_of r = (r_state r, r_own r)"

definition with_memory :: "memory \<Rightarrow> router \<Rightarrow> router" where
  "with_memory m r = r\<lparr>r_state := fst m, r_own := snd m\<rparr>"

section \<open>Model indices\<close>

fun index_models :: "nat \<Rightarrow> deployment list \<Rightarrow> (string \<times> nat list) list \<Rightarrow> (string \<times> nat list) list" where
  "index_models i [] ix = ix"
| "index_models i (d # ds) ix =
     index_models (Suc i) ds (AList.update (d_model_name d) (get_or ix (d_model_name d) [] @ [i]) ix)"

definition build_model_indices :: "router \<Rightarrow> router" where
  "build_model_indices r = r\<lparr>r_indices := index_models 0 (r_deployments r) []\<rparr>"

definition get_deployments_for_model :: "router \<Rightarrow> string \<Rightarrow> deployment list" where
  "get_deployments_for_model r model = map (\<lambda>i. r_deployments r ! i) (get_or (r_indices r) model [])"

definition get_model_list :: "router \<Rightarrow> string list" where
  "get_model_list r = map fst (r_indices r)"

text \<open>The public description of a deployment: the key is reduced to whether there is one.\<close>

record deployment_config =
  dc_id :: string
  dc_model_id :: "string option"
  dc_model_name :: string
  dc_api_base :: string
  dc_has_api_key :: bool
  dc_fallback_tag :: "string option"
  dc_model_description :: "string option"

definition config_of :: "deployment \<Rightarrow> deployment_config" where
  "config_of d = \<lparr>dc_id = d_id d, dc_model_id = d_model_id d, dc_model_name = d_model_name d, dc_api_base = d_api_base d,
     dc_has_api_key = (d_api_key d \<noteq> []), dc_fallback_tag = d_fallback_tag d, dc_model_description = d_model_description d\<rparr>"

definition get_deployment_configs :: "router \<Rightarrow> deployment_config list" where
  "get_deployment_configs r = map config_of (r_deployments r)"

definition get_deployment_config_by_model :: "router \<Rightarrow> string \<Rightarrow> deployment_config list" where
  "get_deployment_config_by_model r model = map config_of (filter (\<lambda>d. d_model_name d = model) (r_deployments r))"

section \<open>Set-up\<close>

text \<open>\<open>_sync_quota_state\<close>, for one deployment and for a list.\<close>

definition sync_token_usage :: "deployment \<Rightarrow> (string \<times> token_usage) list \<Rightarrow> (string \<times> token_usage) list" where
  "sync_token_usage d us =
     (case d_tpm d of
        Some n \<Rightarrow> (case map_of us (d_id d) of
                     None \<Rightarrow> AList.update (d_id d) \<lparr>tu_used = 0, tu_limit = n\<rparr> us
                   | Some u \<Rightarrow> if tu_limit u \<noteq> n then AList.update (d_id d) (u\<lparr>tu_limit := n\<rparr>) us else us)
      | None \<Rightarrow> AList.delete (d_id d) us)"

definition sync_rpm :: "deployment \<Rightarrow> (string \<times> rpm_tracker) list \<Rightarrow> (string \<times> rpm_tracker) list" where
  "sync_rpm d ts =
     (case d_rpm d of
        Some n \<Rightarrow> (case map_of ts (d_id d) of
                     None \<Rightarrow> AList.update (d_id d) \<lparr>rt_limit = n, rt_requests = []\<rparr> ts
                   | Some t \<Rightarrow> if rt_limit t \<noteq> n then AList.update (d_id d) (t\<lparr>rt_limit := n\<rparr>) ts else ts)
      | None \<Rightarrow> AList.delete (d_id d) ts)"

definition sync_quota_of :: "deployment \<Rightarrow> router_state \<Rightarrow> router_state" where
  "sync_quota_of d st = st\<lparr>rs_token_usage := sync_token_usage d (rs_token_usage st), rs_rpm := sync_rpm d (rs_rpm st)\<rparr>"

definition sync_quota_state :: "deployment list \<Rightarrow> router_state \<Rightarrow> router_state" where
  "sync_quota_state deps st = fold sync_quota_of deps st"

text \<open>The cooldowns that the configuration declares; \<open>now\<close> is the reading for a deployment without a time.\<close>

definition sync_cooldown_of :: "rat \<Rightarrow> (string \<Rightarrow> rat) \<Rightarrow> deployment \<Rightarrow> router_state \<Rightarrow> router_state" where
  "sync_cooldown_of cooldown_time now d st =
     (if d_status d = Cooldown
      then st\<lparr>rs_status := AList.update (d_id d) Cooldown (rs_status st),
              rs_cooldown := AList.update (d_id d)
                (Some (case d_cooldown_until d of Some t \<Rightarrow> t | None \<Rightarrow> now (d_id d) + cooldown_time)) (rs_cooldown st)\<rparr>
      else st)"

text \<open>A strategy is given by its name, or as an object together with the state it holds.\<close>

datatype strategy_arg = ByName string | Given strategy_object strategy_state

definition resolve_strategy :: "rat \<Rightarrow> strategy_arg \<Rightarrow> router_exc + strategy_object \<times> router_state \<times> strategy_state" where
  "resolve_strategy now arg =
     (case arg of
        ByName name \<Rightarrow> rbind (create_strategy name (Some new_state)) (\<lambda>s. Inr (object_of s, new_state, (new_state, now)))
      | Given so own \<Rightarrow> Inr (so, if so_shares so then fst own else new_state, own))"

definition router_init ::
  "platform \<Rightarrow> deployment list \<Rightarrow> strategy_arg \<Rightarrow> int \<Rightarrow> rat \<Rightarrow> string option \<Rightarrow> bool \<Rightarrow> (string \<Rightarrow> rat) \<Rightarrow> router_exc + router" where
  "router_init pf deps arg num_retries cooldown_time grp health_check now =
     rbind (resolve_strategy (now []) arg) (\<lambda>(so, st, own).
       let st1 = fold (sync_cooldown_of cooldown_time now) deps st in
       Inr (build_model_indices \<lparr>r_platform = pf, r_deployments = deps, r_indices = [], r_num_retries = num_retries,
         r_cooldown_time = cooldown_time, r_group = grp, r_strategy = so, r_state = sync_quota_state deps st1,
         r_own = own, r_checker = (if health_check then Some deps else None)\<rparr>))"

section \<open>Available deployments\<close>

fun available_scan :: "rat \<Rightarrow> deployment list \<Rightarrow> router_state \<Rightarrow> deployment list \<times> router_state" where
  "available_scan now [] st = ([], st)"
| "available_scan now (d # ds) st =
     (if get_or (rs_status st) (d_id d) Healthy = Cooldown
      then if now < cooldown_time_of st (d_id d) then available_scan now ds st
           else let (av, st') = available_scan now ds (reset_deployment (d_id d) st) in (d # av, st')
      else let (av, st') = available_scan now ds st in (d # av, st'))"

abbreviation model_wildcard :: string where
  "model_wildcard \<equiv> ''*''"

definition candidates :: "router \<Rightarrow> string \<Rightarrow> deployment list" where
  "candidates r model = (if model = model_wildcard then r_deployments r else get_deployments_for_model r model)"

definition reliable_available :: "rat \<Rightarrow> string \<Rightarrow> router \<Rightarrow> deployment list \<times> router" where
  "reliable_available now model r =
     (let (av, st) = available_scan now (candidates r model) (r_state r) in (av, r\<lparr>r_state := st\<rparr>))"

text \<open>The filter of \<open>BaseRouter\<close> only reads the state.\<close>

definition state_available_deployments :: "rat \<Rightarrow> router_state \<Rightarrow> deployment list \<Rightarrow> deployment list" where
  "state_available_deployments now st deps =
     filter (\<lambda>d. \<not> (get_or (rs_status st) (d_id d) Healthy = Cooldown \<and> now < cooldown_time_of st (d_id d))) deps"

definition base_completion ::
  "router \<Rightarrow> rat \<Rightarrow> string \<Rightarrow> pyval \<Rightarrow> deployment option \<Rightarrow> pdict \<Rightarrow> (wire_request \<Rightarrow> http_reply) \<Rightarrow> router_exc + pyval" where
  "base_completion r now model messages dep kwargs http =
     (case dep of
        Some d \<Rightarrow> completion_at (r_platform r) model messages d kwargs http
      | None \<Rightarrow> (case state_available_deployments now (r_state r) (get_deployments_for_model r model) of
                   [] \<Rightarrow> Inl (NoDeploymentAvailable model ''No deployment'')
                 | d # _ \<Rightarrow> completion_at (r_platform r) model messages d kwargs http))"

section \<open>Parts of a routed call\<close>

definition reserved_keys :: "string list" where
  "reserved_keys = [''model'', ''messages'', ''deployment'', ''stream'']"

definition routing_internal_keys :: "string list" where
  "routing_internal_keys = [''session_id'', ''tags'']"

definition request_kwargs_for_deployment :: "deployment \<Rightarrow> pdict \<Rightarrow> router_exc + pdict" where
  "request_kwargs_for_deployment d kwargs =
     (let merged = filter (\<lambda>(k, _). k \<notin> set routing_internal_keys) (d_request_defaults d) in
      if list_ex (\<lambda>(k, _). k \<in> set reserved_keys) merged
      then Inl (Other CValueError ''deployment.request_defaults cannot contain reserved keys'')
      else Inr (dict_merge merged (filter (\<lambda>(k, v). v \<noteq> PNone \<and> k \<notin> set routing_internal_keys) kwargs)))"

definition opt_entry :: "string \<Rightarrow> string option \<Rightarrow> extra" where
  "opt_entry k v = (case v of None \<Rightarrow> [] | Some s \<Rightarrow> [(k, XStr s)])"

definition route_metadata :: "router \<Rightarrow> deployment \<Rightarrow> extra \<Rightarrow> extra" where
  "route_metadata r d entries =
     opt_entry ''model_group_id'' (r_group r) @ [(''route_id'', XStr (d_id d))] @ opt_entry ''model_id'' (d_model_id d)
     @ [(''model_name'', XStr (d_model_name d)), (''provider'', XStr (d_provider d))] @ entries"

definition request_extra :: "router \<Rightarrow> extra" where
  "request_extra r = (case r_group r of Some g \<Rightarrow> if g = [] then [] else [(''model_group_id'', XStr g)] | None \<Rightarrow> [])"

definition reason_entry :: "router_exc option \<Rightarrow> extra" where
  "reason_entry e = (case e of None \<Rightarrow> [] | Some x \<Rightarrow> [(''fallback_reason'', XClass (class_of_exc x))])"

definition attempt_entry :: "nat \<Rightarrow> extra" where
  "attempt_entry k = [(''attempt'', XInt (int k + 1))]"

definition is_request_side_error :: "router_exc \<Rightarrow> bool" where
  "is_request_side_error e =
     (if isinst e CJSONDecodeError then False
      else if isinst e CValueError \<or> isinst e CTypeError then True
      else isinst e CDeploymentError \<and> \<not> isinst e CDeploymentAuthError \<and> \<not> isinst e CDeploymentRateLimitError
           \<and> (case details_status e of Some s \<Rightarrow> 400 \<le> s \<and> s < 500 | None \<Rightarrow> False))"

definition is_fallbackable_error :: "router_exc \<Rightarrow> bool \<Rightarrow> bool" where
  "is_fallbackable_error e visible_output_started =
     (\<not> visible_output_started \<and> \<not> isinst e CCancelledError \<and>
      (isinst e CDeploymentNetworkError \<or> isinst e CDeploymentRateLimitError
       \<or> isinst e CDeploymentServerError \<or> isinst e CDeploymentTimeoutError))"

definition run_select ::
  "strategy_object \<Rightarrow> select_env \<Rightarrow> deployment list \<Rightarrow> routing_context \<Rightarrow> memory \<Rightarrow> (router_exc + deployment option) \<times> memory" where
  "run_select so env deps ctx m =
     (if so_shares so
      then let (x, st, t) = so_select so env deps ctx (fst m, snd (snd m)) in (x, st, fst (snd m), t)
      else let (x, own) = so_select so env deps ctx (snd m) in (x, fst m, own))"

text \<open>\<open>_select_deployment\<close>.\<close>

definition choose_deployment ::
  "strategy_object \<Rightarrow> select_env \<Rightarrow> deployment list \<Rightarrow> routing_context \<Rightarrow> memory \<Rightarrow> (router_exc + deployment option) \<times> memory" where
  "choose_deployment so env available ctx m =
     (case run_select so env available ctx m of
        (Inr None, m') \<Rightarrow> (Inr (if so_first so \<and> available \<noteq> [] then Some (hd available) else None), m')
      | x \<Rightarrow> x)"

definition actual_model :: "string \<Rightarrow> deployment \<Rightarrow> string" where
  "actual_model model d = (if model = model_wildcard then d_model_name d else model)"

section \<open>Completion\<close>

text \<open>
  The inputs of one attempt and of one call. The reply may depend on the request on the wire. \<open>ae_others\<close> is
  what other tasks do to the memory while the attempt waits.
\<close>

record attempt_env =
  ae_select :: select_env
  ae_http :: "wire_request \<Rightarrow> http_reply"
  ae_stream :: "wire_request \<Rightarrow> stream_reply"
  ae_others :: "memory \<Rightarrow> memory"
  ae_clock :: "string \<Rightarrow> rat"
  ae_success :: "rat \<times> rat \<times> rat"

record call_env =
  ce_request_id :: string
  ce_clock :: "string \<Rightarrow> rat"
  ce_attempt :: "nat \<Rightarrow> attempt_env"

text \<open>The local variables of a call that do not change; \<open>q_terminal_model\<close> is what is passed to \<open>_emit_terminal_exhausted\<close>.\<close>

record request =
  q_id :: string
  q_model :: string
  q_terminal_model :: "string option"
  q_messages :: pyval
  q_kwargs :: pdict
  q_total :: int
  q_start :: rat
  q_clock :: "string \<Rightarrow> rat"
  q_extra :: extra

definition q_event :: "request \<Rightarrow> event_type \<Rightarrow> rat \<Rightarrow> routing_event" where
  "q_event q ty now = event ty (q_id q) (Some (q_model q)) now"

definition started_event :: "request \<Rightarrow> event_type \<Rightarrow> routing_event" where
  "started_event q ty = (q_event q ty (q_clock q ''started''))\<lparr>ev_total_attempts := q_total q, ev_extra := q_extra q\<rparr>"

definition unroutable_event :: "request \<Rightarrow> string \<Rightarrow> routing_event" where
  "unroutable_event q text = (q_event q AllDeploymentsExhausted (q_clock q ''unroutable''))
     \<lparr>ev_error_message := Some (Inr text), ev_extra := q_extra q\<rparr>"

definition usage_tokens :: "pdict \<Rightarrow> string \<Rightarrow> pyval" where
  "usage_tokens usage k = py_or (dget usage k) (PInt 0)"

definition success_event ::
  "request \<Rightarrow> event_type \<Rightarrow> deployment \<Rightarrow> rat \<Rightarrow> rat \<Rightarrow> int \<Rightarrow> int \<Rightarrow> nat \<Rightarrow> extra \<Rightarrow> routing_event" where
  "success_event q ty d now latency prompt tokens k meta = (q_event q ty now)
     \<lparr>ev_deployment := Some (d_id d), ev_provider := Some (d_provider d), ev_latency := Some latency,
      ev_prompt_tokens := Some prompt, ev_completion_tokens := Some tokens, ev_total_tokens := Some (prompt + tokens),
      ev_attempt := int k + 1, ev_total_attempts := q_total q, ev_extra := meta\<rparr>"

text \<open>
  The \<open>try\<close> block of one attempt. After the state has been updated, the sum of the token counts for the event may
  still raise when the prompt count is no number.
\<close>

definition completion_body ::
  "router \<Rightarrow> request \<Rightarrow> attempt_env \<Rightarrow> nat \<Rightarrow> deployment \<Rightarrow> routing_context \<Rightarrow> memory
   \<Rightarrow> (router_exc + pyval \<times> routing_event) \<times> routing_context \<times> memory" where
  "completion_body r q ae k d ctx m =
     (let m1 = ae_others ae m in
      case rbind (request_kwargs_for_deployment d (q_kwargs q)) (\<lambda>kw.
           completion_at (r_platform r) (actual_model (q_model q) d) (q_messages q) d kw (ae_http ae)) of
        Inl e \<Rightarrow> (Inl e, ctx, m1)
      | Inr response \<Rightarrow>
          let latency = ae_clock ae ''end'' - ae_clock ae ''start''; usage = usage_from_response response;
              tokens = usage_tokens usage ''completion_tokens''; prompt = usage_tokens usage ''prompt_tokens'' in
          case state_on_success (d_id d) latency tokens (ae_success ae) (fst m1) of
            (Some e, st) \<Rightarrow> (Inl e, ctx, st, snd m1)
          | (None, st) \<Rightarrow>
              let ctx' = set_success d (Some response) (ae_clock ae ''context'') ctx in
              case (token_int prompt, token_int tokens) of
                (Some p, Some n) \<Rightarrow>
                  (Inr (response, success_event q RequestSucceeded d (ae_clock ae ''succeeded'') latency p n k
                     (route_metadata r d (attempt_entry k @ reason_entry (rc_error ctx)))), ctx', st, snd m1)
              | _ \<Rightarrow> (Inl (Other CTypeError ''unsupported operand type(s) for +''), ctx', st, snd m1))"

definition cancelled_event :: "request \<Rightarrow> attempt_env \<Rightarrow> nat \<Rightarrow> routing_event" where
  "cancelled_event q ae k = (q_event q RequestCancelled (ae_clock ae ''cancelled event''))
     \<lparr>ev_latency := Some (ae_clock ae ''cancelled'' - q_start q), ev_attempt := int k + 1, ev_total_attempts := q_total q,
      ev_error_type := Some CCancelledError, ev_error_message := Some (Inr ''request cancelled''), ev_extra := q_extra q\<rparr>"

definition terminal_exhausted :: "request \<Rightarrow> attempt_env \<Rightarrow> nat \<Rightarrow> router_exc \<Rightarrow> extra \<Rightarrow> routing_event" where
  "terminal_exhausted q ae k e meta = (event AllDeploymentsExhausted (q_id q) (q_terminal_model q) (ae_clock ae ''terminal event''))
     \<lparr>ev_latency := Some (ae_clock ae ''terminal'' - q_start q), ev_attempt := int k + 1, ev_total_attempts := q_total q,
      ev_error_type := Some (class_of_exc e), ev_error_message := Some (Inl e), ev_extra := meta\<rparr>"

definition retried_event :: "router \<Rightarrow> request \<Rightarrow> attempt_env \<Rightarrow> nat \<Rightarrow> deployment \<Rightarrow> router_exc \<Rightarrow> routing_event" where
  "retried_event r q ae k d e = (q_event q RequestRetried (ae_clock ae ''retried''))
     \<lparr>ev_deployment := Some (d_id d), ev_provider := Some (d_provider d), ev_attempt := int k + 1, ev_total_attempts := q_total q,
      ev_error_type := Some (class_of_exc e), ev_error_message := Some (Inl e),
      ev_extra := route_metadata r d (reason_entry (Some e))\<rparr>"

type_synonym errors = "(string \<times> router_exc) list"

definition last_error :: "errors \<Rightarrow> router_exc option" where
  "last_error errs = (if errs = [] then None else Some (snd (last errs)))"

definition exhausted_event :: "request \<Rightarrow> errors \<Rightarrow> extra option \<Rightarrow> routing_event" where
  "exhausted_event q errs meta = (q_event q AllDeploymentsExhausted (q_clock q ''exhausted event''))
     \<lparr>ev_latency := Some (q_clock q ''exhausted'' - q_start q), ev_attempt := int (length errs), ev_total_attempts := q_total q,
      ev_error_type := map_option class_of_exc (last_error errs), ev_error_message := map_option Inl (last_error errs),
      ev_extra := (case meta of Some x \<Rightarrow> x | None \<Rightarrow> q_extra q)\<rparr>"

definition no_match :: string where
  "no_match = ''No deployment matched routing strategy''"

definition without :: "deployment \<Rightarrow> deployment list \<Rightarrow> deployment list" where
  "without d ds = filter (\<lambda>x. d_id x \<noteq> d_id d) ds"

text \<open>What an exception of an attempt does to the state: a request-side error leaves it alone.\<close>

definition blame :: "router \<Rightarrow> attempt_env \<Rightarrow> deployment \<Rightarrow> router_exc \<Rightarrow> memory \<Rightarrow> memory" where
  "blame r ae d e m =
     (if is_request_side_error e then m
      else (state_on_failure (d_id d) (r_cooldown_time r) (ae_clock ae ''failure'') (fst m), snd m))"

type_synonym 'a run = "(router_exc + 'a) \<times> routing_event list \<times> routing_context \<times> memory"

definition emit_first :: "routing_event list \<Rightarrow> 'a run \<Rightarrow> 'a run" where
  "emit_first es x = (case x of (res, evs, ctx, m) \<Rightarrow> (res, es @ evs, ctx, m))"

text \<open>The code after the loop: every attempt has failed.\<close>

definition all_failed :: "request \<Rightarrow> errors \<Rightarrow> extra option \<Rightarrow> routing_context \<Rightarrow> memory \<Rightarrow> 'a run" where
  "all_failed q errs meta ctx m =
     (Inl (AllDeploymentsFailed (q_model q) errs), [exhausted_event q errs meta], ctx, m)"

text \<open>
  The loop over the attempts: \<open>n\<close> attempts are left and \<open>k\<close> have been made. A choice that raises is not caught.
\<close>

fun completion_loop ::
  "router \<Rightarrow> request \<Rightarrow> (nat \<Rightarrow> attempt_env) \<Rightarrow> nat \<Rightarrow> nat \<Rightarrow> deployment list \<Rightarrow> routing_context \<Rightarrow> errors \<Rightarrow> extra option
   \<Rightarrow> memory \<Rightarrow> pyval run" where
  "completion_loop r q env 0 k available ctx errs meta m = all_failed q errs meta ctx m"
| "completion_loop r q env (Suc n) k available ctx errs meta m =
     (let ae = env k in
      case choose_deployment (r_strategy r) (ae_select ae) available ctx m of
        (Inl e, m1) \<Rightarrow> (Inl e, [], ctx, m1)
      | (Inr None, m1) \<Rightarrow>
          if errs \<noteq> [] then all_failed q errs meta ctx m1
          else (Inl (NoDeploymentAvailable (q_model q) no_match), [unroutable_event q no_match], ctx, m1)
      | (Inr (Some d), m1) \<Rightarrow>
          (case completion_body r q ae k d (mark_attempt d ctx) m1 of
             (Inr (response, ev), ctx2, m2) \<Rightarrow> (Inr response, [ev], ctx2, m2)
           | (Inl e, ctx2, m2) \<Rightarrow>
               if isinst e CCancelledError then (Inl e, [cancelled_event q ae k], ctx2, m2)
               else if \<not> isinst e CException then (Inl e, [], ctx2, m2)
               else
                 let m3 = blame r ae d e m2; ctx3 = set_failure e (ae_clock ae ''context'') ctx2;
                     meta' = route_metadata r d (attempt_entry k @ reason_entry (Some e)) in
                 if so_strict (r_strategy r) \<and> \<not> is_fallbackable_error e False
                 then (Inl e, [terminal_exhausted q ae k e meta'], ctx3, m3)
                 else
                   let rest = without d available; errs' = errs @ [(d_id d, e)] in
                   emit_first (if n > 0 \<and> rest \<noteq> [] then [retried_event r q ae k d e] else [])
                     (if rest = [] then all_failed q errs' (Some meta') ctx3 m3
                      else completion_loop r q env n (Suc k) rest ctx3 errs' (Some meta') m3)))"

definition request_for :: "router \<Rightarrow> call_env \<Rightarrow> string \<Rightarrow> pyval \<Rightarrow> pdict \<Rightarrow> nat \<Rightarrow> request" where
  "request_for r ce model messages kwargs available =
     \<lparr>q_id = ce_request_id ce, q_model = model, q_terminal_model = Some model, q_messages = messages, q_kwargs = kwargs,
      q_total = min (r_num_retries r + 1) (int available), q_start = ce_clock ce ''overall'', q_clock = ce_clock ce,
      q_extra = request_extra r\<rparr>"

record 'a call_result =
  cr_result :: "router_exc + 'a"
  cr_events :: "routing_event list"
  cr_attempted :: "string list"
  cr_router :: router

definition no_available :: string where
  "no_available = ''No available deployments''"

text \<open>The two events of a call that finds no deployment; the first does not count the attempts.\<close>

definition unavailable_call :: "request \<Rightarrow> router \<Rightarrow> 'a call_result" where
  "unavailable_call q r =
     \<lparr>cr_result = Inl (NoDeploymentAvailable (q_model q) no_available),
      cr_events = [(started_event q RequestStarted)\<lparr>ev_total_attempts := 0\<rparr>, unroutable_event q no_available],
      cr_attempted = [], cr_router = r\<rparr>"

definition completion :: "router \<Rightarrow> call_env \<Rightarrow> string \<Rightarrow> pyval \<Rightarrow> pdict \<Rightarrow> pyval call_result" where
  "completion r ce model messages kwargs =
     (let (available, r1) = reliable_available (ce_clock ce ''available'') model r;
          q = request_for r ce model messages kwargs (length available) in
      if available = [] then unavailable_call q r1
      else case completion_loop r1 q (ce_attempt ce) (nat (q_total q)) 0 available
                  (new_context model kwargs (ce_clock ce ''context'')) [] None (memory_of r1) of
             (res, evs, ctx, m) \<Rightarrow>
               \<lparr>cr_result = res, cr_events = started_event q RequestStarted # evs, cr_attempted = rc_attempted ctx,
                cr_router = with_memory m r1\<rparr>)"

section \<open>Completion on a given deployment\<close>

text \<open>
  Outside the \<open>try\<close> block the sum of the token counts may raise \<open>TypeError\<close>; then no terminal event is emitted.
\<close>

definition completion_on_deployment ::
  "router \<Rightarrow> call_env \<Rightarrow> string \<Rightarrow> pyval \<Rightarrow> deployment \<Rightarrow> pdict \<Rightarrow> (router_exc + pyval) \<times> routing_event list" where
  "completion_on_deployment r ce model messages d kwargs =
     (let ae = ce_attempt ce 0; q = (request_for r ce model messages kwargs 1)\<lparr>q_total := 1\<rparr>;
          start = started_event q RequestStarted in
      case rbind (request_kwargs_for_deployment d kwargs) (\<lambda>kw.
           completion_at (r_platform r) (actual_model model d) messages d kw (ae_http ae)) of
        Inl e \<Rightarrow>
          (Inl e, if isinst e CCancelledError then [start, cancelled_event q ae 0]
                  else if \<not> isinst e CException then [start]
                  else [start, terminal_exhausted q ae 0 e (route_metadata r d (attempt_entry 0 @ reason_entry (Some e)))])
      | Inr response \<Rightarrow>
          let usage = usage_from_response response in
          case (token_int (usage_tokens usage ''prompt_tokens''), token_int (usage_tokens usage ''completion_tokens'')) of
            (Some p, Some n) \<Rightarrow>
              (Inr response, [start, success_event q RequestSucceeded d (ae_clock ae ''succeeded'') (ae_clock ae ''end'' - q_start q) p n 0
                 (route_metadata r d (attempt_entry 0))])
          | _ \<Rightarrow> (Inl (Other CTypeError ''unsupported operand type(s) for +''), [start]))"

text \<open>
  \<open>completion_with_fallback\<close> on the reliable router: the usable deployments of the model, then those of its
  substitute, each named explicitly. Call \<open>i\<close> of the loop has the inputs \<open>env i\<close>. The result is the answer or the
  collected errors, with the events of all calls.
\<close>

fun fallback_deployments ::
  "router \<Rightarrow> (nat \<Rightarrow> call_env) \<Rightarrow> nat \<Rightarrow> string \<Rightarrow> pyval \<Rightarrow> pdict \<Rightarrow> deployment list
   \<Rightarrow> (router_exc + pyval) option \<times> errors \<times> routing_event list \<times> nat" where
  "fallback_deployments r env i model messages kwargs [] = (None, [], [], i)"
| "fallback_deployments r env i model messages kwargs (d # ds) =
     (case completion_on_deployment r (env i) model messages d kwargs of
        (Inr v, evs) \<Rightarrow> (Some (Inr v), [], evs, Suc i)
      | (Inl e, evs) \<Rightarrow>
          if \<not> isinst e CException then (Some (Inl e), [], evs, Suc i)
          else case fallback_deployments r env (Suc i) model messages kwargs ds of
                 (res, errs, evs', j) \<Rightarrow> (res, (d_id d, e) # errs, evs @ evs', j))"

fun fallback_models ::
  "router \<Rightarrow> (nat \<Rightarrow> call_env) \<Rightarrow> nat \<Rightarrow> string list \<Rightarrow> pyval \<Rightarrow> pdict \<Rightarrow> errors
   \<Rightarrow> (router_exc + pyval) \<times> routing_event list \<times> router" where
  "fallback_models r env i [] messages kwargs errs = (Inl (FallbackFailed errs), [], r)"
| "fallback_models r env i (model # models) messages kwargs errs =
     (let (deps, r1) = reliable_available (ce_clock (env i) ''available'') model r in
      case fallback_deployments r1 env i model messages kwargs deps of
        (Some res, _, evs, _) \<Rightarrow> (res, evs, r1)
      | (None, errs', evs, j) \<Rightarrow>
          (case fallback_models r1 env j models messages kwargs (errs @ errs') of
             (res, evs', r2) \<Rightarrow> (res, evs @ evs', r2)))"

definition completion_with_fallback ::
  "router \<Rightarrow> (nat \<Rightarrow> call_env) \<Rightarrow> string \<Rightarrow> pyval \<Rightarrow> (string \<times> string) list \<Rightarrow> pdict
   \<Rightarrow> (router_exc + pyval) \<times> routing_event list \<times> router" where
  "completion_with_fallback r env model messages fallback kwargs =
     fallback_models r env 0 (model # (case map_of fallback model of Some m \<Rightarrow> [m] | None \<Rightarrow> [])) messages kwargs []"

section \<open>Typed calls\<close>

definition build_params :: "pdict \<Rightarrow> pdict" where
  "build_params kwargs = filter (\<lambda>(k, v). v \<noteq> PNone) kwargs"

definition resolve_model_name :: "router \<Rightarrow> string option \<Rightarrow> router_exc + string" where
  "resolve_model_name r model =
     (case model of
        Some m \<Rightarrow> if m \<noteq> [] then Inr m else
          (case r_deployments r of [] \<Rightarrow> Inl (Other CValueError ''No model specified and no deployments configured.'')
           | d # _ \<Rightarrow> Inr (d_model_name d))
      | None \<Rightarrow> (case r_deployments r of [] \<Rightarrow> Inl (Other CValueError ''No model specified and no deployments configured.'')
           | d # _ \<Rightarrow> Inr (d_model_name d)))"

text \<open>
  \<open>invoke\<close>: the output parser of the caller is a parameter that returns the text of what it parsed. Its
  exceptions are logged and the content is left as it is.
\<close>

definition apply_parser :: "(parsed_message \<Rightarrow> router_exc + string option) option \<Rightarrow> parsed_message \<Rightarrow> router_exc + parsed_message" where
  "apply_parser parser msg =
     (case parser of
        Some p \<Rightarrow>
          if truthy (pm_content msg)
          then case p msg of
                 Inr (Some s) \<Rightarrow> Inr (msg\<lparr>pm_content := PStr s\<rparr>)
               | Inr None \<Rightarrow> Inr msg
               | Inl e \<Rightarrow> if isinst e CException then Inr msg else Inl e
          else Inr msg
      | None \<Rightarrow> Inr msg)"

definition invoke ::
  "router \<Rightarrow> call_env \<Rightarrow> string option \<Rightarrow> pyval \<Rightarrow> pdict \<Rightarrow> (parsed_message \<Rightarrow> router_exc + string option) option
   \<Rightarrow> (router_exc + parsed_message) \<times> routing_event list \<times> router" where
  "invoke r ce model messages kwargs parser =
     (case resolve_model_name r model of
        Inl e \<Rightarrow> (Inl e, [], r)
      | Inr name \<Rightarrow>
          let c = completion r ce name messages (build_params kwargs) in
          (rbind (cr_result c) (\<lambda>raw. rbind (response_to_message (pf_float (r_platform r)) raw) (apply_parser parser)),
           cr_events c, cr_router c))"

section \<open>Replacing the deployments\<close>

definition ids_of :: "deployment list \<Rightarrow> string list" where
  "ids_of ds = map d_id ds"

definition removed_ids :: "deployment list \<Rightarrow> deployment list \<Rightarrow> string list" where
  "removed_ids old new = remdups (filter (\<lambda>i. i \<notin> set (ids_of new)) (ids_of old))"

definition updated_event :: "string \<Rightarrow> rat \<Rightarrow> string list \<Rightarrow> routing_event" where
  "updated_event rid now ids = (event DeploymentsUpdated rid (Some []) now)\<lparr>ev_extra := [(''removed_ids'', XIds (ids))]\<rparr>"

text \<open>The event reaches the bus only when an event loop is running. The removed ids are sorted for the event.\<close>

definition update_deployments :: "string \<Rightarrow> rat \<Rightarrow> bool \<Rightarrow> deployment list \<Rightarrow> router \<Rightarrow> routing_event list \<times> router" where
  "update_deployments rid now running new r =
     (let gone = removed_ids (r_deployments r) new;
          r1 = build_model_indices (r\<lparr>r_deployments := new, r_checker := map_option (\<lambda>_. new) (r_checker r)\<rparr>);
          st = fold (\<lambda>i st. snd (state_remove_deployment i st)) gone (r_state r1) in
      (if gone \<noteq> [] \<and> running then [updated_event rid now (sort gone)] else [],
       r1\<lparr>r_state := sync_quota_state new st\<rparr>))"

section \<open>Health checks\<close>

text \<open>
  \<open>health/checker.py\<close>: the checks of all deployments run concurrently; the answers are then written to the
  state in the order of the deployments. An answer is the status code, or the failure of the check (a cancellation
  of a check is not modelled).
\<close>

record health_result =
  hr_id :: string
  hr_healthy :: bool
  hr_latency :: "rat option"
  hr_error :: "(http_fault + int) option"

definition check_deployment :: "rat \<Rightarrow> deployment \<Rightarrow> http_fault + int \<Rightarrow> health_result" where
  "check_deployment latency d answer =
     (case answer of
        Inr status \<Rightarrow> if status = 200 then \<lparr>hr_id = d_id d, hr_healthy = True, hr_latency = Some latency, hr_error = None\<rparr>
                      else \<lparr>hr_id = d_id d, hr_healthy = False, hr_latency = None, hr_error = Some (Inr status)\<rparr>
      | Inl e \<Rightarrow> \<lparr>hr_id = d_id d, hr_healthy = False, hr_latency = None, hr_error = Some (Inl e)\<rparr>)"

text \<open>The request of a check: the body of the adapter for a short message, posted with the headers it signs.\<close>

definition check_request :: "platform \<Rightarrow> rat \<Rightarrow> pyval \<Rightarrow> int \<Rightarrow> deployment \<Rightarrow> router_exc + wire_request" where
  "check_request pf timeout message max_tokens d =
     rbind (get_provider_adapter (pf_registry pf) (d_provider d)) (\<lambda>ad.
     rbind (ad_transform_request ad (d_model_name d) message d [(''max_tokens'', PInt max_tokens)]) (\<lambda>body.
     rbind (ad_url ad d False) (\<lambda>url.
     rbind (ad_headers ad d) (\<lambda>hs.
     rbind (ad_sign ad url hs body d) (\<lambda>signed.
       Inr \<lparr>w_url = url, w_headers = signed, w_body = body, w_timeout = timeout\<rparr>)))))"

definition check_answer :: "platform \<Rightarrow> rat \<Rightarrow> pyval \<Rightarrow> int \<Rightarrow> (wire_request \<Rightarrow> http_reply) \<Rightarrow> deployment \<Rightarrow> http_fault + int" where
  "check_answer pf timeout message max_tokens http d =
     (case check_request pf timeout message max_tokens d of
        Inl e \<Rightarrow> Inl (FOther e)
      | Inr w \<Rightarrow> (case http w of Response status _ _ _ \<Rightarrow> Inr status | Fault f \<Rightarrow> Inl f))"

definition check_all_deployments ::
  "(deployment \<Rightarrow> rat) \<Rightarrow> (deployment \<Rightarrow> http_fault + int) \<Rightarrow> deployment list \<Rightarrow> router_state \<Rightarrow> (string \<times> health_result) list \<times> router_state" where
  "check_all_deployments latency answer deps st =
     fold (\<lambda>d (results, st). let h = check_deployment (latency d) d (answer d) in
             (AList.update (d_id d) h results, update_health (d_id d) (hr_healthy h) st)) deps ([], st)"

definition is_state_available :: "router_state \<Rightarrow> string \<Rightarrow> rat \<Rightarrow> bool" where
  "is_state_available st i now \<longleftrightarrow> \<not> (get_or (rs_status st) i Healthy = Cooldown \<and> now < cooldown_time_of st i)"

definition get_healthy_deployments :: "rat \<Rightarrow> deployment list \<Rightarrow> router_state \<Rightarrow> deployment list" where
  "get_healthy_deployments now deps st =
     filter (\<lambda>d. get_or (rs_health st) (d_id d) True \<and> is_state_available st (d_id d) now) deps"

definition get_unhealthy_ids :: "router_state \<Rightarrow> string set" where
  "get_unhealthy_ids st = set (map fst (filter (\<lambda>(i, h). \<not> h) (rs_health st)))"

end
