(* ===== verification/RouterStream.thy ===== *)
theory RouterStream
  imports ReliableRouter
begin

text \<open>
  The two streaming calls of \<open>router/reliable_router.py\<close>: \<open>stream_completion\<close>, which hands out the chunks of the
  provider, and \<open>stream\<close>, which hands out parsed messages. They share their shape: chunks are held back until the
  first one with visible output, a deployment that fails before that point is replaced, and one that fails later
  ends the call. The consumer may stop at any chunk, which raises \<open>GeneratorExit\<close> at that \<open>yield\<close>.
\<close>

section \<open>What the two calls do differently\<close>

record ('m, 'u) stream_kind =
  sk_convert :: "pyval \<Rightarrow> router_exc + 'm option"
  sk_usage :: "'m \<Rightarrow> 'u option"
  sk_visible :: "'m \<Rightarrow> router_exc + bool"
  sk_tokens :: "'u option \<Rightarrow> pyval \<times> pyval"
  sk_fresh_context :: bool

definition chunk_usage :: "pyval \<Rightarrow> pdict option" where
  "chunk_usage chunk =
     (case chunk of PDict d \<Rightarrow> (case dget d ''usage'' of PDict u \<Rightarrow> if u = [] then None else Some u | _ \<Rightarrow> None) | _ \<Rightarrow> None)"

definition raw_kind :: "(pyval, pdict) stream_kind" where
  "raw_kind = \<lparr>sk_convert = (\<lambda>c. Inr (Some c)), sk_usage = chunk_usage, sk_visible = has_visible_stream_output,
     sk_tokens = (\<lambda>u. let usage = (case u of None \<Rightarrow> [] | Some d \<Rightarrow> d) in
       (usage_tokens usage ''prompt_tokens'', usage_tokens usage ''completion_tokens'')),
     sk_fresh_context = False\<rparr>"

definition message_kind :: "(string \<Rightarrow> rat option) \<Rightarrow> (parsed_message, usage_metadata) stream_kind" where
  "message_kind txt = \<lparr>sk_convert = chunk_to_message_chunk txt, sk_usage = pm_usage,
     sk_visible = (\<lambda>m. Inr (message_visible m)),
     sk_tokens = (\<lambda>u. case u of None \<Rightarrow> (PInt 0, PInt 0) | Some x \<Rightarrow> (PInt (um_input_tokens x), PInt (um_output_tokens x))),
     sk_fresh_context = True\<rparr>"

section \<open>Reading a stream\<close>

text \<open>
  The consumer stops at the item after \<open>n\<close> further ones when the budget is \<open>Some n\<close>. The result of delivering
  items is what the consumer has received, the budget that is left, and whether it has stopped.
\<close>

fun yield_chunks :: "nat option \<Rightarrow> 'm list \<Rightarrow> 'm list \<times> nat option \<times> bool" where
  "yield_chunks b [] = ([], b, False)"
| "yield_chunks None (x # xs) = (x # xs, None, False)"
| "yield_chunks (Some 0) (x # xs) = ([x], Some 0, True)"
| "yield_chunks (Some (Suc n)) (x # xs) = (case yield_chunks (Some n) xs of (out, b, stopped) \<Rightarrow> (x # out, b, stopped))"

record ('m, 'u) stream_acc =
  sa_count :: nat
  sa_usage :: "'u option"
  sa_visible :: bool
  sa_pending :: "'m list"

definition new_acc :: "('m, 'u) stream_acc" where
  "new_acc = \<lparr>sa_count = 0, sa_usage = None, sa_visible = False, sa_pending = []\<rparr>"

datatype stream_end = Finished | Failed router_exc | Stopped

record ('m, 'u) reading =
  rd_out :: "'m list"
  rd_events :: "routing_event list"
  rd_acc :: "('m, 'u) stream_acc"
  rd_budget :: "nat option"
  rd_end :: stream_end

definition count_chunk :: "('m, 'u) stream_kind \<Rightarrow> 'm \<Rightarrow> ('m, 'u) stream_acc \<Rightarrow> ('m, 'u) stream_acc" where
  "count_chunk K m acc = acc\<lparr>sa_count := Suc (sa_count acc),
     sa_usage := (case sk_usage K m of Some u \<Rightarrow> Some u | None \<Rightarrow> sa_usage acc)\<rparr>"

text \<open>The \<open>async for\<close> loop; \<open>ev\<close> is the event of the first visible chunk.\<close>

fun read_chunks ::
  "('m, 'u) stream_kind \<Rightarrow> routing_event \<Rightarrow> nat option \<Rightarrow> ('m, 'u) stream_acc \<Rightarrow> pyval list \<Rightarrow> router_exc option \<Rightarrow> ('m, 'u) reading" where
  "read_chunks K ev b acc [] fin =
     \<lparr>rd_out = [], rd_events = [], rd_acc = acc, rd_budget = b, rd_end = (case fin of None \<Rightarrow> Finished | Some e \<Rightarrow> Failed e)\<rparr>"
| "read_chunks K ev b acc (c # cs) fin =
     (case sk_convert K c of
        Inl e \<Rightarrow> \<lparr>rd_out = [], rd_events = [], rd_acc = acc, rd_budget = b, rd_end = Failed e\<rparr>
      | Inr None \<Rightarrow> read_chunks K ev b acc cs fin
      | Inr (Some m) \<Rightarrow>
          let acc1 = count_chunk K m acc in
          case (if sa_visible acc then Inr False else sk_visible K m) of
            Inl e \<Rightarrow> \<lparr>rd_out = [], rd_events = [], rd_acc = acc1, rd_budget = b, rd_end = Failed e\<rparr>
          | Inr first \<Rightarrow>
              if \<not> first \<and> \<not> sa_visible acc
              then read_chunks K ev b (acc1\<lparr>sa_pending := sa_pending acc @ [m]\<rparr>) cs fin
              else
                let evs = (if first then [ev] else []); acc2 = acc1\<lparr>sa_visible := True, sa_pending := []\<rparr> in
                case yield_chunks b (sa_pending acc @ [m]) of
                  (out, b1, stopped) \<Rightarrow>
                    if stopped then \<lparr>rd_out = out, rd_events = evs, rd_acc = acc2, rd_budget = b1, rd_end = Stopped\<rparr>
                    else let x = read_chunks K ev b1 acc2 cs fin in x\<lparr>rd_out := out @ rd_out x, rd_events := evs @ rd_events x\<rparr>)"

text \<open>What is still held back is handed out when the stream ends without an exception.\<close>

definition flush :: "('m, 'u) reading \<Rightarrow> ('m, 'u) reading" where
  "flush x =
     (if rd_end x = Finished
      then case yield_chunks (rd_budget x) (sa_pending (rd_acc x)) of
             (out, b, stopped) \<Rightarrow> x\<lparr>rd_out := rd_out x @ out, rd_budget := b, rd_end := (if stopped then Stopped else Finished),
                                    rd_acc := (rd_acc x)\<lparr>sa_pending := []\<rparr>\<rparr>
      else x)"

section \<open>One attempt\<close>

definition route_selected_event :: "router \<Rightarrow> request \<Rightarrow> attempt_env \<Rightarrow> nat \<Rightarrow> deployment \<Rightarrow> errors \<Rightarrow> routing_event" where
  "route_selected_event r q ae k d errs =
     (let ttft = ae_clock ae ''first'' - ae_clock ae ''start'' in
      (q_event q StreamRouteSelected (ae_clock ae ''first event''))
       \<lparr>ev_deployment := Some (d_id d), ev_provider := Some (d_provider d), ev_latency := Some ttft, ev_attempt := int k + 1,
        ev_total_attempts := q_total q,
        ev_extra := route_metadata r d (attempt_entry k @ reason_entry (last_error errs) @ [(''ttft'', XFloat ttft)])\<rparr>)"

definition stream_success_event :: "router \<Rightarrow> request \<Rightarrow> attempt_env \<Rightarrow> nat \<Rightarrow> deployment \<Rightarrow> errors \<Rightarrow> int \<Rightarrow> int \<Rightarrow> bool \<Rightarrow> nat \<Rightarrow> routing_event" where
  "stream_success_event r q ae k d errs prompt tokens visible chunks =
     (success_event q StreamSucceeded d (ae_clock ae ''succeeded event'') (ae_clock ae ''succeeded'' - q_start q) prompt tokens k
        (route_metadata r d (attempt_entry k @ reason_entry (last_error errs)
           @ (if visible then [(''ttft'', XFloat (ae_clock ae ''first'' - ae_clock ae ''start''))] else []))))\<lparr>ev_chunk_count := Some chunks\<rparr>"

text \<open>The bookkeeping after a stream that was read to its end: the memory, and the event or an exception.\<close>

definition settle ::
  "('m, 'u) stream_kind \<Rightarrow> router \<Rightarrow> request \<Rightarrow> attempt_env \<Rightarrow> nat \<Rightarrow> deployment \<Rightarrow> errors \<Rightarrow> ('m, 'u) stream_acc \<Rightarrow> memory
   \<Rightarrow> (router_exc + routing_event) \<times> memory" where
  "settle K r q ae k d errs acc m =
     (case sk_tokens K (sa_usage acc) of (prompt, tokens) \<Rightarrow>
      case state_on_success (d_id d) (ae_clock ae ''end'' - ae_clock ae ''start'') tokens (ae_success ae) (fst m) of
        (Some e, st) \<Rightarrow> (Inl e, st, snd m)
      | (None, st) \<Rightarrow>
          (case (token_int prompt, token_int tokens) of
             (Some p, Some n) \<Rightarrow> (Inr (stream_success_event r q ae k d errs p n (sa_visible acc) (sa_count acc)), st, snd m)
           | _ \<Rightarrow> (Inl (Other CTypeError ''unsupported operand type(s) for +''), st, snd m)))"

definition attempt_reading ::
  "('m, 'u) stream_kind \<Rightarrow> router \<Rightarrow> request \<Rightarrow> attempt_env \<Rightarrow> nat \<Rightarrow> deployment \<Rightarrow> errors \<Rightarrow> nat \<Rightarrow> nat option \<Rightarrow> ('m, 'u) reading" where
  "attempt_reading K r q ae k d errs count b =
     (case request_kwargs_for_deployment d (q_kwargs q) of
        Inl e \<Rightarrow> \<lparr>rd_out = [], rd_events = [], rd_acc = new_acc\<lparr>sa_count := count\<rparr>, rd_budget = b, rd_end = Failed e\<rparr>
      | Inr kw \<Rightarrow>
          (case stream_at (r_platform r) (actual_model (q_model q) d) (q_messages q) d kw (ae_stream ae) of
             (chunks, fin) \<Rightarrow> flush (read_chunks K (route_selected_event r q ae k d errs) b new_acc chunks fin)))"

text \<open>The whole \<open>try\<close> block: a reading whose end is \<open>Finished\<close> only when the bookkeeping went through as well.\<close>

definition stream_body ::
  "('m, 'u) stream_kind \<Rightarrow> router \<Rightarrow> request \<Rightarrow> attempt_env \<Rightarrow> nat \<Rightarrow> deployment \<Rightarrow> errors \<Rightarrow> nat \<Rightarrow> nat option \<Rightarrow> memory
   \<Rightarrow> ('m, 'u) reading \<times> memory" where
  "stream_body K r q ae k d errs count b m =
     (let x = attempt_reading K r q ae k d errs count b; m1 = ae_others ae m in
      if rd_end x \<noteq> Finished then (x, m1)
      else case settle K r q ae k d errs (rd_acc x) m1 of
             (Inl e, m2) \<Rightarrow> (x\<lparr>rd_end := Failed e\<rparr>, m2)
           | (Inr ev, m2) \<Rightarrow> (x\<lparr>rd_events := rd_events x @ [ev]\<rparr>, m2))"

section \<open>The loop\<close>

definition is_interrupt :: "router_exc \<Rightarrow> bool" where
  "is_interrupt e \<longleftrightarrow> isinst e CGeneratorExit \<or> isinst e CCancelledError"

definition stream_cancelled_event :: "request \<Rightarrow> attempt_env \<Rightarrow> deployment option \<Rightarrow> nat \<Rightarrow> router_exc \<Rightarrow> routing_event" where
  "stream_cancelled_event q ae d count e = (q_event q StreamCancelled (ae_clock ae ''cancelled event''))
     \<lparr>ev_deployment := map_option d_id d, ev_provider := map_option d_provider d,
      ev_latency := Some (ae_clock ae ''cancelled'' - q_start q), ev_chunk_count := Some count,
      ev_extra := [(''reason'', XStr (if isinst e CGeneratorExit then ''consumer_break'' else ''cancelled''))]\<rparr>"

definition generator_exit :: router_exc where
  "generator_exit = Other CGeneratorExit []"

text \<open>An exception that leaves the loop: the two interrupts are reported, every other one goes through.\<close>

definition leave :: "request \<Rightarrow> attempt_env \<Rightarrow> deployment option \<Rightarrow> nat \<Rightarrow> router_exc \<Rightarrow> routing_context \<Rightarrow> memory \<Rightarrow> unit run" where
  "leave q ae d count e ctx m =
     (Inl e, if is_interrupt e then [stream_cancelled_event q ae d count e] else [], ctx, m)"

type_synonym 'm stream_run = "'m list \<times> unit run"

definition after :: "'m list \<Rightarrow> routing_event list \<Rightarrow> 'm stream_run \<Rightarrow> 'm stream_run" where
  "after out evs x = (case x of (out', run) \<Rightarrow> (out @ out', emit_first evs run))"

fun stream_loop ::
  "('m, 'u) stream_kind \<Rightarrow> router \<Rightarrow> request \<Rightarrow> (nat \<Rightarrow> attempt_env) \<Rightarrow> nat \<Rightarrow> nat \<Rightarrow> deployment list \<Rightarrow> routing_context \<Rightarrow> errors
   \<Rightarrow> extra option \<Rightarrow> deployment option \<times> nat \<Rightarrow> nat option \<Rightarrow> memory \<Rightarrow> 'm stream_run" where
  "stream_loop K r q env 0 k available ctx errs meta prev b m = ([], all_failed q errs meta ctx m)"
| "stream_loop K r q env (Suc n) k available ctx errs meta prev b m =
     (let ae = env k;
          seen = (if sk_fresh_context K then new_context (q_model q) (q_kwargs q) (ae_clock ae ''context'') else ctx) in
      case choose_deployment (r_strategy r) (ae_select ae) available seen m of
        (Inl e, m1) \<Rightarrow> ([], leave q ae (fst prev) (snd prev) e ctx m1)
      | (Inr None, m1) \<Rightarrow>
          if errs \<noteq> [] then ([], all_failed q errs meta ctx m1)
          else ([], Inl (NoDeploymentAvailable (q_model q) no_match), [unroutable_event q no_match], ctx, m1)
      | (Inr (Some d), m1) \<Rightarrow>
          (case stream_body K r q ae k d errs (snd prev) b m1 of (x, m2) \<Rightarrow>
           let count = sa_count (rd_acc x); ctx1 = mark_attempt d ctx in
           after (rd_out x) (rd_events x)
             (case rd_end x of
                Finished \<Rightarrow> ([], Inr (), [], ctx1, m2)
              | Stopped \<Rightarrow> ([], leave q ae (Some d) count generator_exit ctx1 m2)
              | Failed e \<Rightarrow>
                  if \<not> isinst e CException then ([], leave q ae (Some d) count e ctx1 m2)
                  else let m3 = blame r ae d e m2 in
                    if sa_visible (rd_acc x) \<or> (so_strict (r_strategy r) \<and> \<not> is_fallbackable_error e False)
                    then ([], Inl e, [terminal_exhausted q ae k e (route_metadata r d (reason_entry (Some e)))], ctx1, m3)
                    else
                      let rest = without d available; errs' = errs @ [(d_id d, e)];
                          meta' = route_metadata r d (attempt_entry k @ reason_entry (Some e));
                          ctx2 = set_failure e (ae_clock ae ''context'') ctx1 in
                      after [] (if n > 0 \<and> rest \<noteq> [] then [retried_event r q ae k d e] else [])
                        (if rest = [] then ([], all_failed q errs' (Some meta') ctx2 m3)
                         else stream_loop K r q env n (Suc k) rest ctx2 errs' (Some meta') (Some d, count) (rd_budget x) m3))))"

section \<open>The two calls\<close>

definition stream_call ::
  "('m, 'u) stream_kind \<Rightarrow> router \<Rightarrow> call_env \<Rightarrow> string \<Rightarrow> string option \<Rightarrow> pyval \<Rightarrow> pdict \<Rightarrow> nat option \<Rightarrow> 'm list \<times> unit call_result" where
  "stream_call K r ce model terminal_model messages kwargs b =
     (let (available, r1) = reliable_available (ce_clock ce ''available'') model r;
          q = (request_for r ce model messages kwargs (length available))\<lparr>q_terminal_model := terminal_model\<rparr> in
      if available = [] then ([], unavailable_call q r1)
      else case stream_loop K r1 q (ce_attempt ce) (nat (q_total q)) 0 available
                  (new_context model kwargs (ce_clock ce ''context'')) [] None (None, 0) b (memory_of r1) of
             (out, res, evs, ctx, m) \<Rightarrow>
               (out, \<lparr>cr_result = res, cr_events = started_event q StreamStarted # evs, cr_attempted = rc_attempted ctx,
                      cr_router = with_memory m r1\<rparr>))"

definition stream_completion :: "router \<Rightarrow> call_env \<Rightarrow> string \<Rightarrow> pyval \<Rightarrow> pdict \<Rightarrow> nat option \<Rightarrow> pyval list \<times> unit call_result" where
  "stream_completion r ce model messages kwargs b = stream_call raw_kind r ce model (Some model) messages kwargs b"

definition stream ::
  "router \<Rightarrow> call_env \<Rightarrow> string option \<Rightarrow> pyval \<Rightarrow> pdict \<Rightarrow> nat option \<Rightarrow> parsed_message list \<times> unit call_result" where
  "stream r ce model messages kwargs b =
     (case resolve_model_name r model of
        Inl e \<Rightarrow> ([], \<lparr>cr_result = Inl e, cr_events = [], cr_attempted = [], cr_router = r\<rparr>)
      | Inr name \<Rightarrow> stream_call (message_kind (pf_float (r_platform r))) r ce name model messages (build_params kwargs) b)"

end
