(* ===== verification/RouterLaws.thy ===== *)
theory RouterLaws
  imports RouterStream
begin

text \<open>
  The laws of the routed calls, proved once for every strategy that keeps the contract of \<open>routing_strategy\<close>: how
  the loops treat the available deployments, the events and the shared state.
\<close>

section \<open>Availability\<close>

lemma usable_get_or: "usable st now i \<longleftrightarrow> \<not> (get_or (rs_status st) i Healthy = Cooldown \<and> now < cooldown_time_of st i)"
  by (auto simp: usable_def get_or_def not_less split: option.splits)

lemma state_available_usable: "state_available_deployments now st deps = filter (\<lambda>d. usable st now (d_id d)) deps"
  by (simp add: state_available_deployments_def usable_get_or)

lemma reset_usable: "usable st now j \<Longrightarrow> usable (reset_deployment i st) now j"
  by (cases "i = j") simp_all

text \<open>The scan finds what is usable at its start, and only makes more usable.\<close>

lemma available_scan_spec:
  "fst (available_scan now ds st) = filter (\<lambda>d. usable st now (d_id d)) ds"
  "usable st t i \<Longrightarrow> usable (snd (available_scan now ds st)) t i"
  "state_ok st \<Longrightarrow> state_ok (snd (available_scan now ds st))"
proof (induction now ds st rule: available_scan.induct)
  case (2 now d ds st)
  define cooling where "cooling \<longleftrightarrow> get_or (rs_status st) (d_id d) Healthy = Cooldown"
  have same: "usable (reset_deployment (d_id d) st) now j = usable st now j" if "usable st now (d_id d)" for j
    using that by (cases "j = d_id d") simp_all
  {
    case 1
    then show ?case using 2(1) 2(4) 2(7) same by (simp add: Let_def split_beta usable_get_or)
  next
    case 2
    then show ?case using "2.IH" reset_usable by (auto simp: Let_def split_beta)
  next
    case 3
    then show ?case using "2.IH" by (auto simp: Let_def split_beta)
  }
qed simp_all

section \<open>Choosing\<close>

locale reliable = routing_strategy "so_select so" for so :: strategy_object
begin

lemma choose_member: "choose_deployment so env av ctx m = (Inr (Some d), m') \<Longrightarrow> d \<in> set av"
  using select_member
  by (auto simp: choose_deployment_def run_select_def split: prod.splits sum.splits option.splits if_splits)

lemma choose_usable: "choose_deployment so env av ctx m = (x, m') \<Longrightarrow> usable (fst m') t i = usable (fst m) t i"
  using select_usable
  by (auto simp: choose_deployment_def run_select_def split: prod.splits sum.splits option.splits if_splits)

lemma choose_ok:
  assumes "choose_deployment so env av ctx m = (x, m')" "state_ok (fst m)" "state_ok (fst (snd m))"
  shows "state_ok (fst m')" "state_ok (fst (snd m'))"
  using assms select_ok
  by (cases "snd m"; auto simp: choose_deployment_def run_select_def split: prod.splits sum.splits option.splits if_splits)+

end

interpretation reliable_builtin: reliable "object_of s" for s
  by (simp add: reliable_def object_of_def builtin.routing_strategy_axioms)

text \<open>The strategies that never raise. The others depend on values that the caller passes or on their thresholds.\<close>

fun raise_free :: "strategy \<Rightarrow> bool" where
  "raise_free (TagBased _) = False"
| "raise_free (Adaptive _) = False"
| "raise_free (TagFiltered _ inner) = raise_free inner"
| "raise_free _ = True"

lemma raise_free_select: "raise_free s \<Longrightarrow> \<exists>x s'. select_deployment s env deps ctx st = (Inr x, s')"
  by (induction s arbitrary: deps) (auto simp: Let_def)

definition never_raises :: "strategy_object \<Rightarrow> bool" where
  "never_raises so \<longleftrightarrow> (\<forall>env deps ctx st. \<exists>x s'. so_select so env deps ctx st = (Inr x, s'))"

lemma never_raises_builtin: "raise_free s \<Longrightarrow> never_raises (object_of s)"
  using raise_free_select by (simp add: never_raises_def object_of_def)

lemma never_raises_choose:
  assumes "never_raises so"
  shows "choose_deployment so env av ctx m \<noteq> (Inl e, m')"
proof
  assume *: "choose_deployment so env av ctx m = (Inl e, m')"
  obtain x s' y s'' where "so_select so env av ctx (fst m, snd (snd m)) = (Inr x, s')" "so_select so env av ctx (snd m) = (Inr y, s'')"
    using assms unfolding never_raises_def by metis
  then show False using * by (auto simp: choose_deployment_def run_select_def split: prod.splits option.splits if_splits)
qed

section \<open>Runs in the abstract\<close>

text \<open>
  What a routed call may do, without the details of an attempt: \<open>S\<close> is the change of the memory by a choice and \<open>E\<close>
  that by an attempt on a deployment. A run that emits a terminal event is closed; the exceptions of a strategy
  and those that are neither errors nor interrupts leave it open.
\<close>

definition quiet :: "routing_event \<Rightarrow> bool" where
  "quiet e \<longleftrightarrow> ev_type e \<in> {RequestRetried, StreamRouteSelected}"

inductive routed ::
  "(memory \<Rightarrow> memory \<Rightarrow> bool) \<Rightarrow> (deployment \<Rightarrow> memory \<Rightarrow> memory \<Rightarrow> bool) \<Rightarrow> nat \<Rightarrow> deployment list \<Rightarrow> memory
   \<Rightarrow> string list \<Rightarrow> routing_event list \<Rightarrow> memory \<Rightarrow> bool \<Rightarrow> bool"
  for S :: "memory \<Rightarrow> memory \<Rightarrow> bool" and E :: "deployment \<Rightarrow> memory \<Rightarrow> memory \<Rightarrow> bool"
where
  exhausted: "S m m' \<Longrightarrow> is_exhausted t \<Longrightarrow> routed S E n av m [] [t] m' True"
| interrupted: "S m m' \<Longrightarrow> is_cancelled t \<Longrightarrow> routed S E n av m [] [t] m' True"
| raised: "S m m' \<Longrightarrow> routed S E n av m [] [] m' False"
| ended: "S m m1 \<Longrightarrow> d \<in> set av \<Longrightarrow> E d m1 m' \<Longrightarrow> list_all quiet evs \<Longrightarrow> is_terminal t
    \<Longrightarrow> routed S E (Suc n) av m [d_id d] (evs @ [t]) m' True"
| escaped: "S m m1 \<Longrightarrow> d \<in> set av \<Longrightarrow> E d m1 m' \<Longrightarrow> list_all quiet evs
    \<Longrightarrow> routed S E (Suc n) av m [d_id d] evs m' False"
| retried: "S m m1 \<Longrightarrow> d \<in> set av \<Longrightarrow> E d m1 m2 \<Longrightarrow> list_all quiet evs \<Longrightarrow> routed S E n (without d av) m2 ids evs' m' c
    \<Longrightarrow> routed S E (Suc n) av m (d_id d # ids) (evs @ evs') m' c"

lemma quiet_kinds [simp]: "quiet e \<Longrightarrow> \<not> is_start e \<and> \<not> is_terminal e"
  by (auto simp: quiet_def event_kind_defs)

lemma terminal_start [simp]: "is_terminal e \<Longrightarrow> \<not> is_start e" "is_exhausted e \<Longrightarrow> is_terminal e" "is_cancelled e \<Longrightarrow> is_terminal e"
  by (auto simp: event_kind_defs)

lemma quiet_filter [simp]: "list_all quiet evs \<Longrightarrow> filter is_start evs = []" "list_all quiet evs \<Longrightarrow> filter is_terminal evs = []"
  by (auto simp: filter_empty_conv list_all_iff)

lemma without_props [simp]:
  "d_id d \<notin> d_id ` set (without d av)" "d_id ` set (without d av) \<subseteq> d_id ` set av"
  by (auto simp: without_def)

lemma routed_attempts:
  "routed S E n av m ids evs m' c \<Longrightarrow> distinct ids \<and> set ids \<subseteq> d_id ` set av \<and> length ids \<le> n"
proof (induction rule: routed.induct)
  case (retried m m1 d av m2 evs n ids evs' m' c)
  then have "d_id d \<notin> set ids" "set ids \<subseteq> d_id ` set av" using without_props [of d av] by blast+
  with retried show ?case by simp
qed auto

lemma routed_events:
  "routed S E n av m ids evs m' c \<Longrightarrow> filter is_start evs = [] \<and> length (filter is_terminal evs) = of_bool c"
  by (induction rule: routed.induct) auto

lemma routed_invariant:
  assumes "routed S E n av m ids evs m' c" "P m"
    and "\<And>m m'. S m m' \<Longrightarrow> P m \<Longrightarrow> P m'" "\<And>d m m'. d \<in> set av \<Longrightarrow> E d m m' \<Longrightarrow> P m \<Longrightarrow> P m'"
  shows "P m'"
  using assms
proof (induction rule: routed.induct)
  case (retried m m1 d av m2 evs n ids evs' m' c)
  have "set (without d av) \<subseteq> set av" by (auto simp: without_def)
  then show ?case using retried by blast
qed blast+

section \<open>What choices and attempts do to the memory\<close>

definition chosen :: "strategy_object \<Rightarrow> memory \<Rightarrow> memory \<Rightarrow> bool" where
  "chosen so m m' \<longleftrightarrow> m' = m \<or> (\<exists>env av ctx x. choose_deployment so env av ctx m = (x, m'))"

lemma chosen_refl [simp]: "chosen so m m"
  by (simp add: chosen_def)

lemma chosenI: "choose_deployment so env av ctx m = (x, m') \<Longrightarrow> chosen so m m'"
  by (auto simp: chosen_def)

text \<open>
  An attempt waits, which lets other tasks run, and then may count a success and may put the blame on the
  deployment: only for an exception it raised that is not the fault of the request.
\<close>

definition waited :: "(nat \<Rightarrow> attempt_env) \<Rightarrow> memory \<Rightarrow> memory \<Rightarrow> bool" where
  "waited env m m' \<longleftrightarrow> (\<exists>k. m' = ae_others (env k) m)"

inductive attempt_effect ::
  "rat \<Rightarrow> (nat \<Rightarrow> attempt_env) \<Rightarrow> (deployment \<Rightarrow> router_exc \<Rightarrow> bool) \<Rightarrow> deployment \<Rightarrow> memory \<Rightarrow> memory \<Rightarrow> bool"
  for cooldown_time :: rat and env :: "nat \<Rightarrow> attempt_env" and raises :: "deployment \<Rightarrow> router_exc \<Rightarrow> bool" and d :: deployment
where
  wait: "waited env m m' \<Longrightarrow> attempt_effect cooldown_time env raises d m m'"
| count: "attempt_effect cooldown_time env raises d m (st, own) \<Longrightarrow>
    attempt_effect cooldown_time env raises d m (snd (state_on_success (d_id d) l tokens clock st), own)"
| blame: "attempt_effect cooldown_time env raises d m (st, own) \<Longrightarrow> raises d e \<Longrightarrow> \<not> is_request_side_error e \<Longrightarrow>
    attempt_effect cooldown_time env raises d m (state_on_failure (d_id d) cooldown_time t st, own)"

lemma effect_blame: "attempt_effect (r_cooldown_time r) env raises d m m' \<Longrightarrow> raises d e \<Longrightarrow>
    attempt_effect (r_cooldown_time r) env raises d m (blame r ae d e m')"
  by (cases m') (simp add: blame_def attempt_effect.blame)

lemma body_memory:
  assumes "completion_body r q ae k d ctx m = (x, ctx', m')"
  shows "m' = ae_others ae m \<or> (\<exists>l tokens clock. m' =
    (snd (state_on_success (d_id d) l tokens clock (fst (ae_others ae m))), snd (ae_others ae m)))"
proof (cases "rbind (request_kwargs_for_deployment d (q_kwargs q)) (\<lambda>kw.
      completion_at (r_platform r) (actual_model (q_model q) d) (q_messages q) d kw (ae_http ae))")
  case (Inl e)
  then show ?thesis using assms by (simp add: completion_body_def Let_def)
next
  case (Inr response)
  obtain o1 st where on: "state_on_success (d_id d) (ae_clock ae ''end'' - ae_clock ae ''start'')
      (usage_tokens (usage_from_response response) ''completion_tokens'') (ae_success ae) (fst (ae_others ae m)) = (o1, st)"
    by (cases "state_on_success (d_id d) (ae_clock ae ''end'' - ae_clock ae ''start'')
      (usage_tokens (usage_from_response response) ''completion_tokens'') (ae_success ae) (fst (ae_others ae m))")
  then have "m' = (st, snd (ae_others ae m))"
    using assms Inr by (auto simp: completion_body_def Let_def split: option.splits)
  then show ?thesis using on by (metis snd_conv)
qed

text \<open>The answer of one attempt, with the exceptions that the bookkeeping of a success may add.\<close>

definition attempt_outcome :: "platform \<Rightarrow> string \<Rightarrow> pyval \<Rightarrow> pdict \<Rightarrow> attempt_env \<Rightarrow> deployment \<Rightarrow> router_exc + pyval" where
  "attempt_outcome pf model messages kwargs ae d =
     rbind (request_kwargs_for_deployment d kwargs) (\<lambda>kw.
     rbind (completion_at pf (actual_model model d) messages d kw (ae_http ae)) (\<lambda>response.
       let usage = usage_from_response response in
       if token_int (usage_tokens usage ''completion_tokens'') = None then Inl (Other CTypeError ''not supported between instances'')
       else if token_int (usage_tokens usage ''prompt_tokens'') = None then Inl (Other CTypeError ''unsupported operand type(s) for +'')
       else Inr response))"

definition attempt_raises :: "platform \<Rightarrow> string \<Rightarrow> pyval \<Rightarrow> pdict \<Rightarrow> (nat \<Rightarrow> attempt_env) \<Rightarrow> deployment \<Rightarrow> router_exc \<Rightarrow> bool" where
  "attempt_raises pf model messages kwargs env d e \<longleftrightarrow> (\<exists>k. attempt_outcome pf model messages kwargs (env k) d = Inl e)"

lemma body_outcome:
  "map_sum id fst (fst (completion_body r q ae k d ctx m)) = attempt_outcome (r_platform r) (q_model q) (q_messages q) (q_kwargs q) ae d"
proof (cases "rbind (request_kwargs_for_deployment d (q_kwargs q)) (\<lambda>kw.
      completion_at (r_platform r) (actual_model (q_model q) d) (q_messages q) d kw (ae_http ae))")
  case (Inl e)
  then show ?thesis by (auto simp: completion_body_def attempt_outcome_def Let_def rbind_Inl_iff)
next
  case (Inr response)
  then show ?thesis by (auto simp: completion_body_def attempt_outcome_def Let_def rbind_Inr_iff state_on_success_def split: option.splits)
qed

lemma body_raises:
  "completion_body r q (env k) j d ctx m = (Inl e, ctx', m') \<Longrightarrow>
   attempt_raises (r_platform r) (q_model q) (q_messages q) (q_kwargs q) env d e"
  using body_outcome [of r q "env k" j d ctx m] by (auto simp: attempt_raises_def)

lemma effect_success: "attempt_effect c env raises d m (snd (state_on_success (d_id d) l tokens clock (fst (ae_others (env k) m))), snd (ae_others (env k) m))"
  by (rule attempt_effect.count) (auto intro!: attempt_effect.wait simp: waited_def)

lemma effect_wait: "attempt_effect c env raises d m (ae_others (env k) m)"
  by (auto intro!: attempt_effect.wait simp: waited_def)

lemma effect_body: "completion_body r q (env k) j d ctx m = (x, ctx', m') \<Longrightarrow> attempt_effect c env raises d m m'"
  using body_memory [of r q "env k" j d ctx m x ctx' m'] effect_wait effect_success by metis

lemma body_context: "completion_body r q ae k d ctx m = (x, ctx', m') \<Longrightarrow> rc_attempted ctx' = rc_attempted ctx"
  by (auto simp: completion_body_def Let_def set_success_def split: sum.splits prod.splits option.splits)

lemma body_event:
  "completion_body r q ae k d ctx m = (Inr (response, ev), ctx', m') \<Longrightarrow> is_terminal ev"
  by (auto simp: completion_body_def Let_def event_kind_defs success_event_def q_event_def event_def
    split: sum.splits prod.splits option.splits)

section \<open>The loops are such runs\<close>

text \<open>The ways a run may be left open.\<close>

definition settled_result :: "(router_exc \<Rightarrow> bool) \<Rightarrow> (router_exc + 'a) \<Rightarrow> bool" where
  "settled_result known res \<longleftrightarrow> (\<forall>e. res = Inl e \<longrightarrow> isinst e CException \<or> known e)"

definition is_cancel :: "router_exc \<Rightarrow> bool" where
  "is_cancel e \<longleftrightarrow> isinst e CCancelledError"

definition run_of ::
  "(router_exc \<Rightarrow> bool) \<Rightarrow> strategy_object \<Rightarrow> rat \<Rightarrow> (nat \<Rightarrow> attempt_env) \<Rightarrow> (deployment \<Rightarrow> router_exc \<Rightarrow> bool) \<Rightarrow> nat \<Rightarrow> deployment list \<Rightarrow> routing_context \<Rightarrow> memory \<Rightarrow> 'a run \<Rightarrow> bool" where
  "run_of known so cooldown env raises n av ctx m x \<longleftrightarrow>
     (case x of (res, evs, ctx', m') \<Rightarrow> \<exists>ids c. rc_attempted ctx' = rc_attempted ctx @ ids
        \<and> routed (chosen so) (attempt_effect cooldown env raises) n av m ids evs m' c \<and> (never_raises so \<longrightarrow> settled_result known res \<longrightarrow> c))"

lemma run_ofI:
  "rc_attempted ctx' = rc_attempted ctx @ ids \<Longrightarrow> routed (chosen so) (attempt_effect cooldown env raises) n av m ids evs m' c
   \<Longrightarrow> (never_raises so \<Longrightarrow> settled_result known res \<Longrightarrow> c) \<Longrightarrow> run_of known so cooldown env raises n av ctx m (res, evs, ctx', m')"
  by (auto simp: run_of_def)

lemma event_types [simp]:
  "ev_type (exhausted_event q errs meta) = AllDeploymentsExhausted" "ev_type (unroutable_event q t) = AllDeploymentsExhausted"
  "ev_type (terminal_exhausted q ae k e x) = AllDeploymentsExhausted" "ev_type (cancelled_event q ae k) = RequestCancelled"
  "ev_type (retried_event r q ae k d e) = RequestRetried" "ev_type (started_event q ty) = ty"
  "ev_type (stream_cancelled_event q ae d' count e) = StreamCancelled" "ev_type (route_selected_event r q ae k d errs) = StreamRouteSelected"
  "ev_type (success_event q ty d t2 l p n k x) = ty" "ev_type (stream_success_event r q ae k d errs p n b j) = StreamSucceeded"
  by (simp_all add: exhausted_event_def unroutable_event_def terminal_exhausted_def cancelled_event_def retried_event_def
    started_event_def stream_cancelled_event_def route_selected_event_def success_event_def stream_success_event_def
    q_event_def event_def Let_def)

lemma run_all_failed: "chosen so m m' \<Longrightarrow> run_of known so cooldown env raises n av ctx m (all_failed q errs meta ctx m')"
  unfolding all_failed_def by (rule run_ofI [where ids = "[]" and c = True]) (auto intro: routed.exhausted simp: is_exhausted_def)

lemma run_unroutable: "chosen so m m' \<Longrightarrow> run_of known so cooldown env raises n av ctx m (Inl e, [unroutable_event q t], ctx, m')"
  by (rule run_ofI [where ids = "[]" and c = True]) (auto intro: routed.exhausted simp: is_exhausted_def)

lemma run_raised:
  "choose_deployment so sel av' seen m = (Inl e, m') \<Longrightarrow> run_of known so cooldown env raises n av ctx m (Inl e, [], ctx, m')"
  by (rule run_ofI [where ids = "[]" and c = False, OF _ routed.raised [OF chosenI]]) (auto simp: never_raises_choose)

text \<open>An attempt that ends the run, with a terminal event or without, and one that is followed by another.\<close>

lemma run_ended:
  assumes "chosen so m m1" "d \<in> set av" "attempt_effect cooldown env raises d m1 m'" "list_all quiet evs" "is_terminal t"
    and "rc_attempted ctx' = rc_attempted ctx @ [d_id d]"
  shows "run_of known so cooldown env raises (Suc n) av ctx m (res, evs @ [t], ctx', m')"
  using assms by (intro run_ofI [where ids = "[d_id d]" and c = True] routed.ended) auto

lemma run_escaped:
  assumes "chosen so m m1" "d \<in> set av" "attempt_effect cooldown env raises d m1 m'" "list_all quiet evs"
    and "rc_attempted ctx' = rc_attempted ctx @ [d_id d]" "\<not> settled_result known res"
  shows "run_of known so cooldown env raises (Suc n) av ctx m (res, evs, ctx', m')"
  using assms by (intro run_ofI [where ids = "[d_id d]" and c = False] routed.escaped) auto

lemma run_retried:
  assumes "chosen so m m1" "d \<in> set av" "attempt_effect cooldown env raises d m1 m2" "list_all quiet evs"
    and "rc_attempted ctx' = rc_attempted ctx @ [d_id d]" "run_of known so cooldown env raises n (without d av) ctx' m2 x"
  shows "run_of known so cooldown env raises (Suc n) av ctx m (emit_first evs x)"
proof -
  obtain res evs' ctx2 m' where x: "x = (res, evs', ctx2, m')" by (cases x)
  then obtain ids c where ids: "rc_attempted ctx2 = rc_attempted ctx' @ ids"
      and rest: "routed (chosen so) (attempt_effect cooldown env raises) n (without d av) m2 ids evs' m' c"
      and c: "never_raises so \<longrightarrow> settled_result known res \<longrightarrow> c"
    using assms(6) by (auto simp: run_of_def)
  show ?thesis unfolding x emit_first_def prod.case
    by (rule run_ofI [where ids = "d_id d # ids" and c = c]) (use assms ids c in \<open>auto intro: routed.retried [OF _ _ _ _ rest]\<close>)
qed

text \<open>What follows an exception of an attempt of \<open>completion\<close>.\<close>

lemma run_failed_attempt:
  assumes "chosen so m m1" "d \<in> set av" "attempt_effect (r_cooldown_time r) env raises d m1 m2"
    and ids: "rc_attempted ctx2 = rc_attempted ctx @ [d_id d]"
    and raises: "raises d e"
    and rest: "without d av \<noteq> [] \<Longrightarrow>
      run_of is_cancel so (r_cooldown_time r) env raises n (without d av) (set_failure e t ctx2) (blame r ae d e m2) cont"
  shows "run_of is_cancel so (r_cooldown_time r) env raises (Suc n) av ctx m
    (if isinst e CCancelledError then (Inl e, [cancelled_event q ae k], ctx2, m2)
     else if \<not> isinst e CException then (Inl e, [], ctx2, m2)
     else if strict then (Inl e, [terminal_exhausted q ae k e x], set_failure e t ctx2, blame r ae d e m2)
     else emit_first (if P then [retried_event r q ae k d e] else [])
       (if without d av = [] then all_failed q errs y (set_failure e t ctx2) (blame r ae d e m2) else cont))"
proof -
  note ended = run_ended [OF assms(1,2)] and retried = run_retried [OF assms(1,2)]
  have ids3: "rc_attempted (set_failure e t ctx2) = rc_attempted ctx @ [d_id d]" using ids by (simp add: set_failure_def)
  have eff3: "attempt_effect (r_cooldown_time r) env raises d m1 (blame r ae d e m2)" by (rule effect_blame [OF assms(3) raises])
  have q: "list_all quiet (if P then [retried_event r q ae k d e] else [])" by (simp add: quiet_def)
  have cont: "run_of is_cancel so (r_cooldown_time r) env raises n (without d av) (set_failure e t ctx2) (blame r ae d e m2)
      (if without d av = [] then all_failed q errs y (set_failure e t ctx2) (blame r ae d e m2) else cont)"
    using rest by (simp add: run_all_failed)
  have escape: "\<not> isinst e CException \<Longrightarrow> \<not> isinst e CCancelledError \<Longrightarrow>
      run_of is_cancel so (r_cooldown_time r) env raises (Suc n) av ctx m (Inl e, [], ctx2, m2)"
    by (rule run_escaped [OF assms(1-3) _ ids]) (auto simp: settled_result_def is_cancel_def)
  show ?thesis
    using ended [OF assms(3), where evs = "[]" and t = "cancelled_event q ae k" and res = "Inl e"] ids
      ended [OF eff3, where evs = "[]" and t = "terminal_exhausted q ae k e x" and res = "Inl e"] ids3
      escape retried [OF eff3 q ids3 cont]
    by (auto simp: event_kind_defs settled_result_def is_cancel_def)
qed

context reliable
begin

lemma completion_loop_run:
  assumes "r_strategy r = so"
  shows "run_of is_cancel so (r_cooldown_time r) env (attempt_raises (r_platform r) (q_model q) (q_messages q) (q_kwargs q) env) n av ctx m (completion_loop r q env n k av ctx errs meta m)"
proof (induction n arbitrary: k av ctx errs meta m)
  case (Suc n)
  note so = assms
  obtain c m1 where ch: "choose_deployment so (ae_select (env k)) av ctx m = (c, m1)"
    by (cases "choose_deployment so (ae_select (env k)) av ctx m")
  note chosen = chosenI [OF ch]
  consider (raised) e where "c = Inl e" | (none) "c = Inr None" | (some) d where "c = Inr (Some d)"
    by (metis not_Some_eq sumE)
  then show ?case
  proof cases
    case raised
    then show ?thesis using ch so by (simp add: Let_def run_raised)
  next
    case none
    then show ?thesis using ch so by (simp add: Let_def run_all_failed [OF chosen] run_unroutable [OF chosen])
  next
    case (some d)
    have d: "d \<in> set av" using ch choose_member by (simp add: some)
    obtain b ctx2 m2 where body: "completion_body r q (env k) k d (mark_attempt d ctx) m1 = (b, ctx2, m2)"
      by (cases "completion_body r q (env k) k d (mark_attempt d ctx) m1")
    have eff: "attempt_effect (r_cooldown_time r) env (attempt_raises (r_platform r) (q_model q) (q_messages q) (q_kwargs q) env) d m1 m2" by (rule effect_body [where env = env, OF body])
    have ids: "rc_attempted ctx2 = rc_attempted ctx @ [d_id d]"
      using body_context [OF body] by (simp add: mark_attempt_def)
    note ended = run_ended [OF chosen d] and escaped = run_escaped [OF chosen d] and retried = run_retried [OF chosen d]
    show ?thesis
    proof (cases b)
      case (Inr y)
      obtain response ev where y: "y = (response, ev)" by (cases y)
      have "is_terminal ev" using body_event body Inr y by blast
      then show ?thesis using ch so some body Inr y ended [OF eff, of "[]"] ids by (simp add: Let_def)
    next
      case (Inl e)
      show ?thesis
        unfolding completion_loop.simps Let_def so ch some body Inl prod.case sum.case option.case
        by (rule run_failed_attempt [OF chosen d eff ids body_raises [where env = env, OF body [unfolded Inl]] Suc])
    qed
  qed
qed (simp add: run_all_failed)

end

section \<open>Streams\<close>

lemma read_chunks_quiet: "quiet ev \<Longrightarrow> list_all quiet (rd_events (read_chunks K ev b acc cs fin))"
  by (induction K ev b acc cs fin rule: read_chunks.induct)
    (auto simp: Let_def split: sum.splits option.splits prod.splits)

lemma flush_events [simp]: "rd_events (flush x) = rd_events x"
  by (simp add: flush_def split: prod.split)

lemma attempt_reading_quiet: "list_all quiet (rd_events (attempt_reading K r q ae k d errs count b))"
  by (auto simp: attempt_reading_def quiet_def intro!: read_chunks_quiet split: sum.split prod.split)

lemma settle_spec:
  assumes "settle K r q ae k d errs acc m = (x, m')"
  shows "\<exists>l tokens clock. m' = (snd (state_on_success (d_id d) l tokens clock (fst m)), snd m)"
    and "x = Inr ev \<Longrightarrow> is_terminal ev"
proof -
  obtain prompt tokens where t: "sk_tokens K (sa_usage acc) = (prompt, tokens)" by (cases "sk_tokens K (sa_usage acc)")
  obtain o1 st where on: "state_on_success (d_id d) (ae_clock ae ''end'' - ae_clock ae ''start'') tokens (ae_success ae) (fst m) = (o1, st)"
    by (cases "state_on_success (d_id d) (ae_clock ae ''end'' - ae_clock ae ''start'') tokens (ae_success ae) (fst m)")
  have "m' = (st, snd m)" using assms t on by (auto simp: settle_def split: option.splits)
  then show "\<exists>l tokens clock. m' = (snd (state_on_success (d_id d) l tokens clock (fst m)), snd m)" using on by (metis snd_conv)
  show "x = Inr ev \<Longrightarrow> is_terminal ev"
    using assms t on by (auto simp: settle_def event_kind_defs split: option.splits)
qed

lemma stream_body_spec:
  assumes "stream_body K r q (env i) k d errs count b m = (x, m')"
  shows "attempt_effect c env raises d m m'"
    and "rd_end x \<noteq> Finished \<Longrightarrow> list_all quiet (rd_events x)"
    and "rd_end x = Finished \<Longrightarrow> \<exists>evs ev. rd_events x = evs @ [ev] \<and> list_all quiet evs \<and> is_terminal ev"
proof -
  let ?y = "attempt_reading K r q (env i) k d errs count b" and ?m1 = "ae_others (env i) m"
  obtain z m2 where z: "settle K r q (env i) k d errs (rd_acc ?y) ?m1 = (z, m2)"
    by (cases "settle K r q (env i) k d errs (rd_acc ?y) ?m1")
  have m2: "attempt_effect c env raises d m m2" using settle_spec(1) [OF z] effect_success by metis
  show "attempt_effect c env raises d m m'"
    using assms z m2 effect_wait [of c env raises d m i] by (auto simp: stream_body_def Let_def split: if_splits sum.splits)
  show "rd_end x \<noteq> Finished \<Longrightarrow> list_all quiet (rd_events x)"
    using assms z attempt_reading_quiet [of K r q "env i" k d errs count b]
    by (auto simp: stream_body_def Let_def split: if_splits sum.splits)
  show "rd_end x = Finished \<Longrightarrow> \<exists>evs ev. rd_events x = evs @ [ev] \<and> list_all quiet evs \<and> is_terminal ev"
    using assms z attempt_reading_quiet [of K r q "env i" k d errs count b] settle_spec(2) [OF z]
    by (auto simp: stream_body_def Let_def split: if_splits sum.splits)
qed

text \<open>What follows the reading of a stream, without what the consumer received.\<close>

lemma snd_after [simp]: "snd (after out evs x) = emit_first evs (snd x)"
  by (simp add: after_def split: prod.split)

lemma emit_first_simps [simp]: "emit_first evs (res, evs', ctx, m) = (res, evs @ evs', ctx, m)"
    "emit_first evs (emit_first evs' x) = emit_first (evs @ evs') x" "emit_first [] x = x" "fst (emit_first evs x) = fst x"
  by (simp_all add: emit_first_def split: prod.split)

lemma run_left:
  assumes "chosen so m m1" "d \<in> set av" "attempt_effect c env raises d m1 m2" "list_all quiet evs"
    and ids: "rc_attempted ctx1 = rc_attempted ctx @ [d_id d]" and e: "\<not> isinst e CException"
  shows "run_of is_interrupt so c env raises (Suc n) av ctx m (emit_first evs (leave q ae d' count e ctx1 m2))"
proof (cases "is_interrupt e")
  case True
  then show ?thesis using run_ended [OF assms(1-4), of "stream_cancelled_event q ae d' count e" ctx1 ctx] ids
    by (simp add: leave_def event_kind_defs)
next
  case False
  have "run_of is_interrupt so c env raises (Suc n) av ctx m (Inl e, evs, ctx1, m2)"
    by (rule run_escaped [OF assms(1-4) ids]) (use e False in \<open>auto simp: settled_result_def\<close>)
  then show ?thesis using False by (simp add: leave_def)
qed

lemma exit_class [simp]: "\<not> isinst generator_exit CException" "is_interrupt generator_exit"
  by (simp_all add: generator_exit_def is_interrupt_def isinst_def derives_from_def)

definition stream_raises :: "('m, 'u) stream_kind \<Rightarrow> router \<Rightarrow> request \<Rightarrow> (nat \<Rightarrow> attempt_env) \<Rightarrow> deployment \<Rightarrow> router_exc \<Rightarrow> bool" where
  "stream_raises K r q env d e \<longleftrightarrow>
     (\<exists>i k errs count b m. rd_end (fst (stream_body K r q (env i) k d errs count b m)) = Failed e)"

lemma stream_body_raises:
  "stream_body K r q (env i) k d errs count b m = (x, m') \<Longrightarrow> rd_end x = Failed e \<Longrightarrow> stream_raises K r q env d e"
  unfolding stream_raises_def by (metis fst_conv)

text \<open>All that may follow a reading \<open>x\<close>; \<open>cont\<close> is the next iteration.\<close>

lemma run_read:
  assumes "chosen so m m1" "d \<in> set av" "attempt_effect (r_cooldown_time r) env raises d m1 m2"
    and quiet: "rd_end x \<noteq> Finished \<Longrightarrow> list_all quiet (rd_events x)"
    and finished: "rd_end x = Finished \<Longrightarrow> \<exists>evs ev. rd_events x = evs @ [ev] \<and> list_all quiet evs \<and> is_terminal ev"
    and raises: "\<And>e. rd_end x = Failed e \<Longrightarrow> raises d e"
    and rest: "\<And>e. run_of is_interrupt so (r_cooldown_time r) env raises n (without d av)
      (set_failure e (ae_clock ae ''context'') (mark_attempt d ctx)) (blame r ae d e m2) (snd (cont e))"
  shows "run_of is_interrupt so (r_cooldown_time r) env raises (Suc n) av ctx m
    (emit_first (rd_events x) (snd
      (case rd_end x of
         Finished \<Rightarrow> ([], Inr (), [], mark_attempt d ctx, m2)
       | Failed e \<Rightarrow>
           if \<not> isinst e CException then ([], leave q ae (Some d) (count x) e (mark_attempt d ctx) m2)
           else if vis \<or> strict e
             then ([], Inl e, [terminal_exhausted q ae k e (md e)], mark_attempt d ctx, blame r ae d e m2)
             else after [] (if P then [retried_event r q ae k d e] else [])
               (if without d av = [] then ([], all_failed q (errs e) (y e) (set_failure e (ae_clock ae ''context'') (mark_attempt d ctx)) (blame r ae d e m2))
                else cont e)
       | Stopped \<Rightarrow> ([], leave q ae (Some d) (count x) generator_exit (mark_attempt d ctx) m2))))"
proof -
  have ids: "rc_attempted (mark_attempt d ctx) = rc_attempted ctx @ [d_id d]" by (simp add: mark_attempt_def)
  show ?thesis
  proof (cases "rd_end x")
    case Finished
    then obtain evs ev where "rd_events x = evs @ [ev]" "list_all quiet evs" "is_terminal ev" using finished by blast
    then show ?thesis using Finished run_ended [OF assms(1-3) _ _ ids] by simp
  next
    case Stopped
    then show ?thesis using run_left [OF assms(1-3) _ ids] quiet by simp
  next
    case (Failed e)
    have q: "list_all quiet (rd_events x)" using quiet Failed by simp
    have eff: "attempt_effect (r_cooldown_time r) env raises d m1 (blame r ae d e m2)" by (rule effect_blame [OF assms(3) raises [OF Failed]])
    let ?ctx = "set_failure e (ae_clock ae ''context'') (mark_attempt d ctx)"
    have ids3: "rc_attempted ?ctx = rc_attempted ctx @ [d_id d]" using ids by (simp add: set_failure_def)
    have q2: "list_all quiet (rd_events x @ (if P then [retried_event r q ae k d e] else []))" using q by (simp add: quiet_def)
    have "run_of is_interrupt so (r_cooldown_time r) env raises (Suc n) av ctx m
        (emit_first (rd_events x @ (if P then [retried_event r q ae k d e] else []))
          (if without d av = [] then all_failed q (errs e) (y e) ?ctx (blame r ae d e m2) else snd (cont e)))"
      by (rule run_retried [OF assms(1,2) eff q2 ids3]) (use rest in \<open>simp add: run_all_failed\<close>)
    moreover have "run_of is_interrupt so (r_cooldown_time r) env raises (Suc n) av ctx m
        (Inl e, rd_events x @ [terminal_exhausted q ae k e (md e)], mark_attempt d ctx, blame r ae d e m2)"
      by (rule run_ended [OF assms(1,2) eff q _ ids]) (simp add: event_kind_defs)
    ultimately show ?thesis using Failed run_left [OF assms(1-3) q ids] by (auto simp: if_distrib [of snd])
  qed
qed

context reliable
begin

lemma stream_loop_run:
  assumes "r_strategy r = so"
  shows "run_of is_interrupt so (r_cooldown_time r) env (stream_raises K r q env) n av ctx m (snd (stream_loop K r q env n k av ctx errs meta prev b m))"
proof (induction n arbitrary: k av ctx errs meta prev b m)
  case (Suc n)
  note so = assms
  define seen where "seen = (if sk_fresh_context K then new_context (q_model q) (q_kwargs q) (ae_clock (env k) ''context'') else ctx)"
  obtain c m1 where ch: "choose_deployment so (ae_select (env k)) av seen m = (c, m1)"
    by (cases "choose_deployment so (ae_select (env k)) av seen m")
  note chosen = chosenI [OF ch]
  note unfold = stream_loop.simps Let_def so seen_def [symmetric] ch prod.case snd_conv snd_after
  consider (raised) e where "c = Inl e" | (none) "c = Inr None" | (some) d where "c = Inr (Some d)"
    by (metis not_Some_eq sumE)
  then show ?case
  proof cases
    case raised
    then have nr: "\<not> never_raises so" using ch never_raises_choose by blast
    have "routed (chosen so) (attempt_effect (r_cooldown_time r) env (stream_raises K r q env)) (Suc n) av m []
        (if is_interrupt e then [stream_cancelled_event q (env k) (fst prev) (snd prev) e] else []) m1 (is_interrupt e)"
      using routed.raised [where S = "chosen so", OF chosen] routed.interrupted [where S = "chosen so", OF chosen]
      by (simp add: event_kind_defs)
    then show ?thesis unfolding unfold raised sum.case leave_def by (intro run_ofI [where ids = "[]"]) (use nr in auto)
  next
    case none
    then show ?thesis unfolding unfold none sum.case option.case
      by (simp add: run_all_failed [OF chosen] run_unroutable [OF chosen])
  next
    case (some d)
    have d: "d \<in> set av" using ch choose_member by (simp add: some)
    obtain x m2 where body: "stream_body K r q (env k) k d errs (snd prev) b m1 = (x, m2)"
      by (cases "stream_body K r q (env k) k d errs (snd prev) b m1")
    note effect = stream_body_spec(1) [where env = env, OF body] and events = stream_body_spec(2,3) [where env = env, OF body]
    show ?thesis unfolding unfold some body sum.case option.case
      by (rule run_read [OF chosen d effect events])
        (auto intro: Suc stream_body_raises [where env = env, OF body])
  qed
qed (simp add: run_all_failed)

end

section \<open>Invariant of the memory\<close>

definition memory_ok :: "memory \<Rightarrow> bool" where
  "memory_ok m \<longleftrightarrow> state_ok (fst m) \<and> state_ok (fst (snd m))"

lemma memory_ok_effect:
  assumes "\<And>k m. memory_ok m \<Longrightarrow> memory_ok (ae_others (env k) m)"
  shows "attempt_effect c env raises d m m' \<Longrightarrow> memory_ok m \<Longrightarrow> memory_ok m'"
  by (induction rule: attempt_effect.induct) (use assms in \<open>auto simp: memory_ok_def waited_def state_ok_success\<close>)

context reliable
begin

lemma memory_ok_chosen: "chosen so m m' \<Longrightarrow> memory_ok m \<Longrightarrow> memory_ok m'"
  unfolding chosen_def memory_ok_def using choose_ok by blast

lemma memory_ok_run:
  assumes "run_of known so c env raises n av ctx m (res, evs, ctx', m')" "memory_ok m"
    and "\<And>k m. memory_ok m \<Longrightarrow> memory_ok (ae_others (env k) m)"
  shows "memory_ok m'"
proof -
  obtain ids b where "routed (chosen so) (attempt_effect c env raises) n av m ids evs m' b"
    using assms(1) by (auto simp: run_of_def)
  then show ?thesis by (rule routed_invariant) (use assms memory_ok_chosen memory_ok_effect in blast)+
qed

end

section \<open>Whole calls\<close>

text \<open>What a call tried and what it reported.\<close>

definition well_routed :: "(router_exc \<Rightarrow> bool) \<Rightarrow> router \<Rightarrow> string \<Rightarrow> rat \<Rightarrow> 'a call_result \<Rightarrow> bool" where
  "well_routed known r model now c \<longleftrightarrow>
     distinct (cr_attempted c) \<and> int (length (cr_attempted c)) \<le> max 0 (r_num_retries r + 1)
     \<and> (\<forall>i \<in> set (cr_attempted c). \<exists>d \<in> set (candidates r model). d_id d = i \<and> usable (r_state r) now i)
     \<and> length (filter is_start (cr_events c)) = 1
     \<and> length (filter is_terminal (cr_events c)) \<le> 1
     \<and> (never_raises (r_strategy r) \<longrightarrow> settled_result known (cr_result c) \<longrightarrow> length (filter is_terminal (cr_events c)) = 1)"

lemma reliable_available_spec:
  "reliable_available now model r =
     (filter (\<lambda>d. usable (r_state r) now (d_id d)) (candidates r model), r\<lparr>r_state := snd (available_scan now (candidates r model) (r_state r))\<rparr>)"
  by (simp add: reliable_available_def split_beta available_scan_spec(1))

lemma unavailable_well_routed: "well_routed known r model now (unavailable_call q r1)"
  by (simp add: well_routed_def unavailable_call_def event_kind_defs)

lemma run_well_routed:
  assumes "run_of known (r_strategy r) c env raises (nat (min (r_num_retries r + 1) (int (length av)))) av ctx m (res, evs, ctx', m')"
    and "rc_attempted ctx = []" "av = filter (\<lambda>d. usable (r_state r) now (d_id d)) (candidates r model)" "is_start s"
  shows "well_routed known r model now \<lparr>cr_result = res, cr_events = s # evs, cr_attempted = rc_attempted ctx', cr_router = r'\<rparr>"
proof -
  obtain ids b where ids: "rc_attempted ctx' = ids" and b: "never_raises (r_strategy r) \<longrightarrow> settled_result known res \<longrightarrow> b"
      and run: "routed (chosen (r_strategy r)) (attempt_effect c env raises) (nat (min (r_num_retries r + 1) (int (length av)))) av m ids evs m' b"
    using assms(1,2) by (auto simp: run_of_def)
  have "\<not> is_terminal s" using assms(4) by (auto simp: event_kind_defs)
  then show ?thesis
    using routed_attempts [OF run] routed_events [OF run] assms(3,4) ids b by (auto simp: well_routed_def)
qed

lemma with_memory_of [simp]: "memory_of (with_memory m r) = m"
  by (simp add: memory_of_def with_memory_def)

text \<open>A call is unavailable, or a start event and a run over the usable candidates.\<close>

definition routed_call ::
  "(router_exc \<Rightarrow> bool) \<Rightarrow> router \<Rightarrow> string \<Rightarrow> rat \<Rightarrow> (nat \<Rightarrow> attempt_env) \<Rightarrow> (deployment \<Rightarrow> router_exc \<Rightarrow> bool) \<Rightarrow> 'a call_result \<Rightarrow> bool" where
  "routed_call known r model now env raises c \<longleftrightarrow>
     (let av = filter (\<lambda>d. usable (r_state r) now (d_id d)) (candidates r model); r1 = snd (reliable_available now model r) in
      (\<exists>q. c = unavailable_call q r1) \<or>
      (\<exists>s res evs ctx0 ctx m. is_start s \<and> rc_attempted ctx0 = []
        \<and> run_of known (r_strategy r) (r_cooldown_time r) env raises (nat (min (r_num_retries r + 1) (int (length av)))) av ctx0
             (memory_of r1) (res, evs, ctx, m)
        \<and> c = \<lparr>cr_result = res, cr_events = s # evs, cr_attempted = rc_attempted ctx, cr_router = with_memory m r1\<rparr>))"

lemma routed_call_well: "routed_call known r model now env raises c \<Longrightarrow> well_routed known r model now c"
  unfolding routed_call_def Let_def
  by (elim disjE exE conjE) (simp_all add: unavailable_well_routed run_well_routed [OF _ _ refl])

lemma routed_callI:
  assumes "av = filter (\<lambda>d. usable (r_state r) now (d_id d)) (candidates r model)" "r1 = snd (reliable_available now model r)"
    and "run_of known (r_strategy r) (r_cooldown_time r) env raises (nat (min (r_num_retries r + 1) (int (length av)))) av ctx0
      (memory_of r1) (res, evs, ctx, m)"
    and "c = (if av = [] then unavailable_call q r1 else
      \<lparr>cr_result = res, cr_events = s # evs, cr_attempted = rc_attempted ctx, cr_router = with_memory m r1\<rparr>)"
    and "is_start s" "rc_attempted ctx0 = []"
  shows "routed_call known r model now env raises c"
proof (cases "av = []")
  case True
  then have "c = unavailable_call q r1" using assms(4) by simp
  then show ?thesis unfolding routed_call_def Let_def assms(2) [symmetric] by blast
next
  case False
  then have "c = \<lparr>cr_result = res, cr_events = s # evs, cr_attempted = rc_attempted ctx, cr_router = with_memory m r1\<rparr>"
    using assms(4) by simp
  then show ?thesis unfolding routed_call_def Let_def assms(1) [symmetric] assms(2) [symmetric] using assms(3,5,6) by blast
qed

lemma request_total [simp]: "q_total (request_for r ce model messages kwargs n) = min (r_num_retries r + 1) (int n)"
  by (simp add: request_for_def)

context reliable
begin

lemma routed_call_memory:
  assumes "routed_call known r model now env raises c" "r_strategy r = so" "memory_ok (memory_of r)"
    and "\<And>k m. memory_ok m \<Longrightarrow> memory_ok (ae_others (env k) m)"
  shows "memory_ok (memory_of (cr_router c))"
proof -
  let ?r1 = "snd (reliable_available now model r)"
  have m: "memory_ok (memory_of ?r1)"
    using assms(3) available_scan_spec(3) by (simp add: memory_ok_def memory_of_def reliable_available_spec)
  from assms(1) consider q where "c = unavailable_call q ?r1"
    | s res evs ctx0 ctx m' n av where "run_of known so (r_cooldown_time r) env raises n av ctx0 (memory_of ?r1) (res, evs, ctx, m')"
        "c = \<lparr>cr_result = res, cr_events = s # evs, cr_attempted = rc_attempted ctx, cr_router = with_memory m' ?r1\<rparr>"
    unfolding routed_call_def Let_def assms(2) by blast
  then show ?thesis
  proof cases
    case 1
    then show ?thesis using m by (simp add: unavailable_call_def)
  next
    case 2
    then show ?thesis using memory_ok_run [OF 2(1) m] assms(4) by simp
  qed
qed

lemma completion_routed:
  assumes "r_strategy r = so"
  shows "routed_call is_cancel r model (ce_clock ce ''available'') (ce_attempt ce)
    (attempt_raises (r_platform r) model messages kwargs (ce_attempt ce)) (completion r ce model messages kwargs)"
proof -
  define av where "av = filter (\<lambda>d. usable (r_state r) (ce_clock ce ''available'') (d_id d)) (candidates r model)"
  define r1 where "r1 = snd (reliable_available (ce_clock ce ''available'') model r)"
  define q where "q = request_for r ce model messages kwargs (length av)"
  define ctx0 where "ctx0 = new_context model kwargs (ce_clock ce ''context'')"
  obtain res evs ctx m where loop: "completion_loop r1 q (ce_attempt ce) (nat (q_total q)) 0 av ctx0 [] None (memory_of r1) = (res, evs, ctx, m)"
    by (metis prod_cases4)
  have r1: "r_strategy r1 = so" "r_cooldown_time r1 = r_cooldown_time r" "r_platform r1 = r_platform r" using assms by (simp_all add: r1_def reliable_available_spec)
  have total: "q_total q = min (r_num_retries r + 1) (int (length av))" "q_model q = model" "q_messages q = messages" "q_kwargs q = kwargs"
    by (simp_all add: q_def request_for_def)
  have run: "run_of is_cancel (r_strategy r) (r_cooldown_time r) (ce_attempt ce)
      (attempt_raises (r_platform r) model messages kwargs (ce_attempt ce)) (nat (min (r_num_retries r + 1) (int (length av)))) av ctx0
      (memory_of r1) (res, evs, ctx, m)"
    using completion_loop_run [OF r1(1), of "ce_attempt ce" q "nat (q_total q)" av ctx0 "memory_of r1" 0 "[]" None]
    unfolding loop by (simp add: r1 assms total)
  have eq: "completion r ce model messages kwargs = (if av = [] then unavailable_call q r1 else
      \<lparr>cr_result = res, cr_events = started_event q RequestStarted # evs, cr_attempted = rc_attempted ctx, cr_router = with_memory m r1\<rparr>)"
    using loop by (simp add: completion_def reliable_available_spec av_def r1_def q_def ctx0_def Let_def)
  show ?thesis by (rule routed_callI [OF av_def r1_def run eq]) (simp_all add: event_kind_defs ctx0_def new_context_def)
qed

lemma stream_call_routed:
  assumes "r_strategy r = so"
  shows "\<exists>raises. routed_call is_interrupt r model (ce_clock ce ''available'') (ce_attempt ce) raises
    (snd (stream_call K r ce model terminal messages kwargs b))"
proof -
  define av where "av = filter (\<lambda>d. usable (r_state r) (ce_clock ce ''available'') (d_id d)) (candidates r model)"
  define r1 where "r1 = snd (reliable_available (ce_clock ce ''available'') model r)"
  define q where "q = (request_for r ce model messages kwargs (length av))\<lparr>q_terminal_model := terminal\<rparr>"
  define ctx0 where "ctx0 = new_context model kwargs (ce_clock ce ''context'')"
  obtain out res evs ctx m where loop: "stream_loop K r1 q (ce_attempt ce) (nat (q_total q)) 0 av ctx0 [] None (None, 0) b (memory_of r1)
      = (out, res, evs, ctx, m)"
    by (metis prod_cases5)
  have r1: "r_strategy r1 = so" "r_cooldown_time r1 = r_cooldown_time r" using assms by (simp_all add: r1_def reliable_available_spec)
  have total: "q_total q = min (r_num_retries r + 1) (int (length av))" by (simp add: q_def)
  have run: "run_of is_interrupt (r_strategy r) (r_cooldown_time r) (ce_attempt ce) (stream_raises K r1 q (ce_attempt ce)) (nat (min (r_num_retries r + 1) (int (length av)))) av ctx0
      (memory_of r1) (res, evs, ctx, m)"
    using stream_loop_run [OF r1(1), of "ce_attempt ce" K q "nat (q_total q)" av ctx0 "memory_of r1" 0 "[]" None "(None, 0)" b]
    unfolding loop by (simp add: r1 assms total)
  have eq: "snd (stream_call K r ce model terminal messages kwargs b) = (if av = [] then unavailable_call q r1 else
      \<lparr>cr_result = res, cr_events = started_event q StreamStarted # evs, cr_attempted = rc_attempted ctx, cr_router = with_memory m r1\<rparr>)"
    using loop by (simp add: stream_call_def reliable_available_spec av_def r1_def q_def ctx0_def Let_def)
  show ?thesis by (rule exI, rule routed_callI [OF av_def r1_def run eq]) (simp_all add: event_kind_defs ctx0_def new_context_def)
qed

end

section \<open>Cooldowns\<close>

text \<open>A deployment whose attempts raise nothing but request-side errors stays usable.\<close>

lemma innocent_effect:
  assumes "\<And>k m. usable (fst m) t i \<Longrightarrow> usable (fst (ae_others (env k) m)) t i"
    and "\<And>e. d_id d = i \<Longrightarrow> raises d e \<Longrightarrow> is_request_side_error e"
  shows "attempt_effect c env raises d m m' \<Longrightarrow> usable (fst m) t i \<Longrightarrow> usable (fst m') t i"
proof (induction rule: attempt_effect.induct)
  case (blame m st own e t')
  then have "d_id d \<noteq> i" using assms(2) by blast
  then show ?case using blame by simp
qed (use assms(1) in \<open>auto simp: waited_def usable_success\<close>)

context reliable
begin

lemma innocent_run:
  assumes "run_of known so c env raises n av ctx m (res, evs, ctx', m')" "usable (fst m) t i"
    and "\<And>k m. usable (fst m) t i \<Longrightarrow> usable (fst (ae_others (env k) m)) t i"
    and "\<And>d e. d \<in> set av \<Longrightarrow> d_id d = i \<Longrightarrow> raises d e \<Longrightarrow> is_request_side_error e"
  shows "usable (fst m') t i"
proof -
  obtain ids b where "routed (chosen so) (attempt_effect c env raises) n av m ids evs m' b"
    using assms(1) by (auto simp: run_of_def)
  then show ?thesis
  proof (rule routed_invariant [where P = "\<lambda>m. usable (fst m) t i"])
    show "chosen so m m' \<Longrightarrow> usable (fst m) t i \<Longrightarrow> usable (fst m') t i" for m m'
      unfolding chosen_def using choose_usable by metis
  qed (use assms innocent_effect in blast)+
qed

lemma innocent_call:
  assumes "routed_call known r model now env raises c" "r_strategy r = so" "usable (r_state r) t i"
    and "\<And>k m. usable (fst m) t i \<Longrightarrow> usable (fst (ae_others (env k) m)) t i"
    and "\<And>d e. d \<in> set (candidates r model) \<Longrightarrow> d_id d = i \<Longrightarrow> raises d e \<Longrightarrow> is_request_side_error e"
  shows "usable (r_state (cr_router c)) t i"
proof -
  let ?r1 = "snd (reliable_available now model r)"
  have m: "usable (fst (memory_of ?r1)) t i"
    using assms(3) available_scan_spec(2) by (simp add: memory_of_def reliable_available_spec)
  from assms(1) consider q where "c = unavailable_call q ?r1"
    | s res evs ctx0 ctx m' n av where "run_of known so (r_cooldown_time r) env raises n av ctx0 (memory_of ?r1) (res, evs, ctx, m')"
        "set av \<subseteq> set (candidates r model)"
        "c = \<lparr>cr_result = res, cr_events = s # evs, cr_attempted = rc_attempted ctx, cr_router = with_memory m' ?r1\<rparr>"
    unfolding routed_call_def Let_def assms(2) using filter_is_subset by metis
  then show ?thesis
  proof cases
    case 1
    then show ?thesis using m by (simp add: unavailable_call_def memory_of_def)
  next
    case 2
    have "usable (fst m') t i" by (rule innocent_run [OF 2(1) m assms(4)]) (use assms(5) 2(2) in blast)+
    then show ?thesis using 2(3) by (simp add: with_memory_def)
  qed
qed

end

section \<open>Success\<close>

text \<open>An exception after which the loop goes on.\<close>

definition recoverable :: "strategy_object \<Rightarrow> router_exc \<Rightarrow> bool" where
  "recoverable so e \<longleftrightarrow> isinst e CException \<and> \<not> isinst e CCancelledError \<and> (so_strict so \<longrightarrow> is_fallbackable_error e False)"

lemma never_raises_first:
  assumes "never_raises so" "so_first so" "av \<noteq> []"
  shows "\<exists>d m'. choose_deployment so env av ctx m = (Inr (Some d), m')"
proof -
  obtain c m' where c: "choose_deployment so env av ctx m = (c, m')" by (cases "choose_deployment so env av ctx m")
  have "c \<noteq> Inl e" for e using never_raises_choose [OF assms(1)] c by blast
  moreover have "c \<noteq> Inr None"
    using c assms(2,3) by (auto simp: choose_deployment_def split: prod.splits sum.splits option.splits)
  ultimately show ?thesis using c by (metis not_Some_eq sumE)
qed

context reliable
begin

text \<open>The loop reaches a deployment that answers before it runs out of attempts.\<close>

lemma completion_loop_succeeds:
  assumes so: "r_strategy r = so" "never_raises so" "so_first so"
    and one: "\<And>d. d \<in> set av \<Longrightarrow> d_id d = d_id good \<Longrightarrow> d = good"
    and answers: "\<And>k. \<exists>v. attempt_outcome (r_platform r) (q_model q) (q_messages q) (q_kwargs q) (env k) good = Inr v"
    and others: "\<And>d e. d \<in> set av \<Longrightarrow> attempt_raises (r_platform r) (q_model q) (q_messages q) (q_kwargs q) env d e \<Longrightarrow> recoverable so e"
    and "good \<in> set av" "length av \<le> n"
  shows "\<exists>v. fst (completion_loop r q env n k av ctx errs meta m) = Inr v"
  using one others assms(7,8)
proof (induction n arbitrary: k av ctx errs meta m)
  case (Suc n)
  have "av \<noteq> []" using Suc.prems(3) by auto
  then obtain d m1 where ch: "choose_deployment so (ae_select (env k)) av ctx m = (Inr (Some d), m1)"
    using never_raises_first [OF so(2,3)] by blast
  then have d: "d \<in> set av" by (rule choose_member)
  obtain b ctx2 m2 where body: "completion_body r q (env k) k d (mark_attempt d ctx) m1 = (b, ctx2, m2)"
    by (cases "completion_body r q (env k) k d (mark_attempt d ctx) m1")
  note unfold = completion_loop.simps Let_def so(1) ch body prod.case sum.case option.case
  show ?case
  proof (cases b)
    case (Inr y)
    then show ?thesis unfolding unfold by (cases y) simp
  next
    case (Inl e)
    have raised: "attempt_raises (r_platform r) (q_model q) (q_messages q) (q_kwargs q) env d e"
      by (rule body_raises [where env = env, OF body [unfolded Inl]])
    have "d \<noteq> good" using body_outcome [of r q "env k" k d "mark_attempt d ctx" m1] answers [of k] body Inl by auto
    then have good: "good \<in> set (without d av)" using Suc.prems(1) [OF d] Suc.prems(3) by (auto simp: without_def)
    have "length (without d av) < length av" unfolding without_def by (rule length_filter_less [OF d]) simp
    then have len: "length (without d av) \<le> n" using Suc.prems(4) by simp
    have sub: "set (without d av) \<subseteq> set av" by (auto simp: without_def)
    have "\<exists>v. fst (completion_loop r q env n (Suc k) (without d av) ctx' errs' meta' m') = Inr v" for ctx' errs' meta' m'
      by (rule Suc.IH) (use Suc.prems sub good len in blast)+
    moreover have "without d av \<noteq> []" using good by auto
    ultimately show ?thesis using Suc.prems(2) [OF d raised] unfolding unfold Inl by (simp add: recoverable_def)
  qed
qed simp

end

end
