(* ===== verification/RouterDelivery.thy ===== *)
theory RouterDelivery
  imports RouterLaws "HOL-Library.Sublist"
begin

text \<open>
  What the consumer of a stream receives: a prefix of what one deployment sent, however many were tried. Also
  the laws of the parts around the loops: the index of the models, the replacement of deployments, and what
  reaches a provider.
\<close>

section \<open>One stream\<close>

fun converted :: "('m, 'u) stream_kind \<Rightarrow> pyval list \<Rightarrow> 'm list" where
  "converted K [] = []"
| "converted K (c # cs) =
     (case sk_convert K c of Inl e \<Rightarrow> [] | Inr None \<Rightarrow> converted K cs | Inr (Some m) \<Rightarrow> m # converted K cs)"

lemma deliver_prefix: "yield_chunks b xs = (out, b', stopped) \<Longrightarrow> prefix out xs \<and> (\<not> stopped \<longrightarrow> out = xs)"
proof (induction b xs arbitrary: out b' stopped rule: yield_chunks.induct)
  case (4 n x xs)
  obtain out1 b1 s1 where d: "yield_chunks (Some n) xs = (out1, b1, s1)" by (cases "yield_chunks (Some n) xs")
  then show ?case using 4(1) [OF d] 4(2) by auto
qed auto

definition delivers :: "('m, 'u) stream_kind \<Rightarrow> 'm list \<Rightarrow> pyval list \<Rightarrow> ('m, 'u) reading \<Rightarrow> bool" where
  "delivers K pending cs x \<longleftrightarrow> prefix (rd_out x) (pending @ converted K cs)
     \<and> (rd_end x = Finished \<longrightarrow> rd_out x @ sa_pending (rd_acc x) = pending @ converted K cs)
     \<and> (\<not> sa_visible (rd_acc x) \<longrightarrow> rd_out x = [] \<and> rd_end x \<noteq> Stopped)"

lemma read_chunks_visible: "sa_visible acc \<Longrightarrow> sa_visible (rd_acc (read_chunks K ev b acc cs fin))"
  by (induction cs arbitrary: acc b) (auto simp: Let_def count_chunk_def split: sum.splits option.splits prod.splits)

text \<open>The items of a visible chunk and what is read after them.\<close>

lemma delivers_item:
  assumes "yield_chunks b (pending @ [m]) = (out, b1, stopped)" "converted K (c # cs) = m # converted K cs"
    and "\<not> stopped \<Longrightarrow> delivers K [] cs y" "\<not> stopped \<Longrightarrow> sa_visible (rd_acc y)"
    and "x = (if stopped then \<lparr>rd_out = out, rd_events = evs, rd_acc = acc', rd_budget = b1, rd_end = Stopped\<rparr>
              else y\<lparr>rd_out := out @ rd_out y, rd_events := evs @ rd_events y\<rparr>)" "sa_visible acc'"
  shows "delivers K pending (c # cs) x"
proof -
  have pre: "prefix out (pending @ [m])" "\<not> stopped \<Longrightarrow> out = pending @ [m]" using deliver_prefix [OF assms(1)] by auto
  have "pending @ converted K (c # cs) = (pending @ [m]) @ converted K cs" using assms(2) by simp
  then show ?thesis using assms(3-6) pre prefix_order.trans [OF pre(1), of "(pending @ [m]) @ converted K cs"]
    by (auto simp: delivers_def)
qed

lemma read_chunks_delivers:
  "(sa_visible acc \<longrightarrow> sa_pending acc = []) \<Longrightarrow> delivers K (sa_pending acc) cs (read_chunks K ev b acc cs fin)"
proof (induction cs arbitrary: acc b)
  case Nil
  then show ?case by (auto simp: delivers_def split: option.split)
next
  case (Cons c cs)
  consider (bad) e where "sk_convert K c = Inl e" | (skip) "sk_convert K c = Inr None" | (item) m where "sk_convert K c = Inr (Some m)"
    by (metis not_Some_eq sumE)
  then show ?case
  proof cases
    case bad
    then show ?thesis by (simp add: delivers_def)
  next
    case skip
    then show ?thesis using Cons by (simp add: delivers_def)
  next
    case (item m)
    define acc1 where "acc1 = count_chunk K m acc"
    have acc1: "sa_pending acc1 = sa_pending acc" "sa_visible acc1 = sa_visible acc" by (simp_all add: acc1_def count_chunk_def)
    obtain out b1 stopped where d: "yield_chunks b (sa_pending acc @ [m]) = (out, b1, stopped)" by (cases "yield_chunks b (sa_pending acc @ [m])")
    define acc2 where "acc2 = acc1\<lparr>sa_visible := True, sa_pending := []\<rparr>"
    let ?v = "if sa_visible acc then Inr False else sk_visible K m"
    show ?thesis
    proof (cases ?v)
      case (Inl e)
      then show ?thesis using item by (auto simp: delivers_def Let_def acc1_def [symmetric] split: if_splits)
    next
      case (Inr first)
      show ?thesis
      proof (cases "\<not> first \<and> \<not> sa_visible acc")
        case True
        then show ?thesis using Inr item Cons.IH [of "acc1\<lparr>sa_pending := sa_pending acc @ [m]\<rparr>" b] acc1(2)
          by (simp add: delivers_def Let_def acc1_def [symmetric])
      next
        case False
        show ?thesis
          by (rule delivers_item [OF d, where y = "read_chunks K ev b1 acc2 cs fin" and acc' = acc2 and evs = "if first then [ev] else []"])
            (use False Inr item Cons.IH [of acc2 b1] d in \<open>auto simp: Let_def acc1_def acc2_def read_chunks_visible split: if_splits\<close>)
      qed
    qed
  qed
qed

section \<open>One attempt and the whole call\<close>

text \<open>What the stream of one attempt holds for the consumer.\<close>

definition attempt_items ::
  "('m, 'u) stream_kind \<Rightarrow> platform \<Rightarrow> string \<Rightarrow> pyval \<Rightarrow> pdict \<Rightarrow> attempt_env \<Rightarrow> deployment \<Rightarrow> 'm list" where
  "attempt_items K pf model messages kwargs ae d =
     (case request_kwargs_for_deployment d kwargs of
        Inl e \<Rightarrow> []
      | Inr kw \<Rightarrow> converted K (fst (stream_at pf (actual_model model d) messages d kw (ae_stream ae))))"

lemma flush_delivers:
  assumes "delivers K [] cs x"
  shows "prefix (rd_out (flush x)) (converted K cs)"
    and "rd_end (flush x) = Finished \<Longrightarrow> rd_out (flush x) = converted K cs"
    and "rd_end (flush x) = Failed e \<Longrightarrow> \<not> sa_visible (rd_acc (flush x)) \<Longrightarrow> rd_out (flush x) = []"
proof -
  obtain out b stopped where d: "yield_chunks (rd_budget x) (sa_pending (rd_acc x)) = (out, b, stopped)"
    by (cases "yield_chunks (rd_budget x) (sa_pending (rd_acc x))")
  note pre = deliver_prefix [OF d]
  show "prefix (rd_out (flush x)) (converted K cs)"
    using assms pre by (auto simp: flush_def d delivers_def) (metis same_prefix_prefix)
  show "rd_end (flush x) = Finished \<Longrightarrow> rd_out (flush x) = converted K cs"
    using assms pre by (auto simp: flush_def d delivers_def split: if_splits)
  show "rd_end (flush x) = Failed e \<Longrightarrow> \<not> sa_visible (rd_acc (flush x)) \<Longrightarrow> rd_out (flush x) = []"
    using assms by (cases "rd_end x = Finished") (auto simp: flush_def delivers_def split: prod.splits if_splits)
qed

lemma attempt_delivers:
  assumes "x = attempt_reading K r q ae k d errs count b"
  shows "prefix (rd_out x) (attempt_items K (r_platform r) (q_model q) (q_messages q) (q_kwargs q) ae d)"
    and "rd_end x = Finished \<Longrightarrow> rd_out x = attempt_items K (r_platform r) (q_model q) (q_messages q) (q_kwargs q) ae d"
    and "rd_end x = Failed e \<Longrightarrow> \<not> sa_visible (rd_acc x) \<Longrightarrow> rd_out x = []"
proof -
  have new: "sa_visible new_acc \<longrightarrow> sa_pending (new_acc :: ('a, 'b) stream_acc) = []" by (simp add: new_acc_def)
  have "sa_pending (new_acc :: ('a, 'b) stream_acc) = []" by (simp add: new_acc_def)
  then have "delivers K [] cs (read_chunks K ev b new_acc cs fin)" for cs ev fin using read_chunks_delivers [OF new] by metis
  note fl = flush_delivers [OF this]
  show "prefix (rd_out x) (attempt_items K (r_platform r) (q_model q) (q_messages q) (q_kwargs q) ae d)" "rd_end x = Finished \<Longrightarrow> rd_out x = attempt_items K (r_platform r) (q_model q) (q_messages q) (q_kwargs q) ae d"
      "rd_end x = Failed e \<Longrightarrow> \<not> sa_visible (rd_acc x) \<Longrightarrow> rd_out x = []"
    using assms fl by (auto simp: attempt_reading_def attempt_items_def split: sum.splits prod.splits)
qed

text \<open>The bookkeeping of \<open>stream\<close> cannot fail: its token counts are numbers.\<close>

definition counts_tokens :: "('m, 'u) stream_kind \<Rightarrow> bool" where
  "counts_tokens K \<longleftrightarrow> (\<forall>u. token_int (fst (sk_tokens K u)) \<noteq> None \<and> token_int (snd (sk_tokens K u)) \<noteq> None)"

lemma counts_tokens_message [simp]: "counts_tokens (message_kind txt)"
  by (simp add: counts_tokens_def message_kind_def split: option.split)

lemma settle_counts:
  assumes "counts_tokens K"
  shows "\<exists>ev m'. settle K r q ae k d errs acc m = (Inr ev, m')"
proof -
  obtain p n a b where "sk_tokens K (sa_usage acc) = (a, b)" "token_int a = Some p" "token_int b = Some n"
    using assms unfolding counts_tokens_def by (metis not_None_eq prod.collapse)
  then show ?thesis by (simp add: settle_def state_on_success_def)
qed

lemma body_delivers:
  assumes "counts_tokens K" "stream_body K r q ae k d errs count b m = (x, m')"
  shows "prefix (rd_out x) (attempt_items K (r_platform r) (q_model q) (q_messages q) (q_kwargs q) ae d)"
    and "rd_end x = Finished \<Longrightarrow> rd_out x = attempt_items K (r_platform r) (q_model q) (q_messages q) (q_kwargs q) ae d"
    and "rd_end x = Failed e \<Longrightarrow> \<not> sa_visible (rd_acc x) \<Longrightarrow> rd_out x = []"
proof -
  let ?y = "attempt_reading K r q ae k d errs count b"
  obtain ev m2 where "settle K r q ae k d errs (rd_acc ?y) (ae_others ae m) = (Inr ev, m2)"
    using settle_counts [OF assms(1)] by blast
  then have eq: "rd_out x = rd_out ?y" "rd_end x = rd_end ?y" "rd_acc x = rd_acc ?y"
    using assms(2) by (auto simp: stream_body_def Let_def split: if_splits)
  show "prefix (rd_out x) (attempt_items K (r_platform r) (q_model q) (q_messages q) (q_kwargs q) ae d)" "rd_end x = Finished \<Longrightarrow> rd_out x = attempt_items K (r_platform r) (q_model q) (q_messages q) (q_kwargs q) ae d"
      "rd_end x = Failed e \<Longrightarrow> \<not> sa_visible (rd_acc x) \<Longrightarrow> rd_out x = []"
    unfolding eq by (rule attempt_delivers [OF refl], assumption?)+
qed

definition single_source ::
  "('m, 'u) stream_kind \<Rightarrow> router \<Rightarrow> request \<Rightarrow> (nat \<Rightarrow> attempt_env) \<Rightarrow> 'm stream_run \<Rightarrow> bool" where
  "single_source K r q env x \<longleftrightarrow>
     (case x of (out, res, evs, ctx, m) \<Rightarrow>
        (out = [] \<and> res \<noteq> Inr ()) \<or>
        (\<exists>d j. rc_attempted ctx \<noteq> [] \<and> last (rc_attempted ctx) = d_id d \<and> prefix out (attempt_items K (r_platform r) (q_model q) (q_messages q) (q_kwargs q) (env j) d)
               \<and> (res = Inr () \<longrightarrow> out = attempt_items K (r_platform r) (q_model q) (q_messages q) (q_kwargs q) (env j) d)))"

lemma single_source_none: "res \<noteq> Inr () \<Longrightarrow> single_source K r q env ([], res, evs, ctx, m)"
  by (simp add: single_source_def)

lemma single_source_failed: "single_source K r q env ([], all_failed q' errs meta ctx m)"
    "single_source K r q env ([], leave q' ae d n e ctx m)"
  by (simp_all add: all_failed_def leave_def single_source_none)

lemma single_source_last:
  "prefix out (attempt_items K (r_platform r) (q_model q) (q_messages q) (q_kwargs q) (env j) d) \<Longrightarrow> res = Inr () \<longrightarrow> out = attempt_items K (r_platform r) (q_model q) (q_messages q) (q_kwargs q) (env j) d
   \<Longrightarrow> single_source K r q env (out, res, evs, mark_attempt d ctx, m)"
  unfolding single_source_def by (auto simp: mark_attempt_def)

lemma single_source_after: "single_source K r q env x \<Longrightarrow> single_source K r q env (after [] evs x)"
  by (cases x rule: prod_cases5) (simp add: after_def single_source_def)

lemma stream_loop_single:
  assumes "counts_tokens K"
  shows "single_source K r q env (stream_loop K r q env n k av ctx errs meta prev b m)"
proof (induction n arbitrary: k av ctx errs meta prev b m)
  case (Suc n)
  define seen where "seen = (if sk_fresh_context K then new_context (q_model q) (q_kwargs q) (ae_clock (env k) ''context'') else ctx)"
  obtain c m1 where ch: "choose_deployment (r_strategy r) (ae_select (env k)) av seen m = (c, m1)"
    by (cases "choose_deployment (r_strategy r) (ae_select (env k)) av seen m")
  note unfold = stream_loop.simps Let_def seen_def [symmetric] ch prod.case
  consider (raised) e where "c = Inl e" | (none) "c = Inr None" | (some) d where "c = Inr (Some d)"
    by (metis not_Some_eq sumE)
  then show ?case
  proof cases
    case (some d)
    obtain x m2 where body: "stream_body K r q (env k) k d errs (snd prev) b m1 = (x, m2)"
      by (cases "stream_body K r q (env k) k d errs (snd prev) b m1")
    note items = body_delivers [OF assms body]
    have last: "single_source K r q env (after (rd_out x) (rd_events x) ([], res, evs, mark_attempt d ctx, m'))" if "res \<noteq> Inr ()" for res evs m'
      using single_source_last [where j = k and env = env, OF items(1)] that by (simp add: after_def)
    show ?thesis
    proof (cases "rd_end x")
      case Finished
      then show ?thesis using items(2) single_source_last [where j = k and env = env, OF items(1)]
        unfolding unfold some body sum.case option.case by (simp add: after_def)
    next
      case Stopped
      then show ?thesis unfolding unfold some body sum.case option.case by (simp add: leave_def last)
    next
      case (Failed e)
      have rest: "single_source K r q env (after (rd_out x) (rd_events x) (after [] evs y))"
        if "\<not> sa_visible (rd_acc x)" "single_source K r q env y" for evs y
        unfolding items(3) [OF Failed that(1)] by (intro single_source_after that)
      show ?thesis using Failed unfolding unfold some body sum.case option.case
        by (auto simp: leave_def last intro!: rest single_source_failed Suc)
    qed
  qed (simp_all add: unfold single_source_failed single_source_none)
qed (simp add: single_source_failed)

section \<open>Model indices\<close>

lemma index_models_lookup:
  "get_or (index_models i ds ix) m [] = get_or ix m [] @ map (\<lambda>j. i + j) (filter (\<lambda>j. d_model_name (ds ! j) = m) [0..<length ds])"
proof (induction i ds ix rule: index_models.induct)
  case (2 i d ds ix)
  have up: "[0..<length (d # ds)] = 0 # map Suc [0..<length ds]" by (simp add: upt_conv_Cons map_Suc_upt del: upt_Suc)
  have "filter (\<lambda>j. d_model_name ((d # ds) ! j) = m) [0..<length (d # ds)]
      = (if d_model_name d = m then [0] else []) @ map Suc (filter (\<lambda>j. d_model_name (ds ! j) = m) [0..<length ds])"
    unfolding up by (simp add: filter_map comp_def)
  then show ?case using 2 by (auto simp: get_or_def comp_def)
qed (simp add: get_or_def)

text \<open>The index finds exactly the deployments of a model, in their order.\<close>

lemma get_deployments_for_model_exact:
  "get_deployments_for_model (build_model_indices r) model = filter (\<lambda>d. d_model_name d = model) (r_deployments r)"
proof -
  have "map (\<lambda>j. xs ! j) (filter (\<lambda>j. P (xs ! j)) [0..<length xs]) = filter P xs" for P and xs :: "deployment list"
    by (simp add: filter_map [of P "\<lambda>j. xs ! j", unfolded comp_def, symmetric] map_nth)
  moreover have "get_or [] model [] = ([] :: nat list)" by (simp add: get_or_def)
  ultimately show ?thesis by (simp add: get_deployments_for_model_def build_model_indices_def index_models_lookup)
qed

definition models_indexed :: "router \<Rightarrow> bool" where
  "models_indexed r \<longleftrightarrow> r_indices r = index_models 0 (r_deployments r) []"

lemma candidates_exact:
  "models_indexed r \<Longrightarrow> candidates r model = filter (\<lambda>d. model = model_wildcard \<or> d_model_name d = model) (r_deployments r)"
  using get_deployments_for_model_exact [of r model]
  by (simp add: candidates_def models_indexed_def build_model_indices_def get_deployments_for_model_def)

end
