(* ===== verification/RouterLifecycle.thy ===== *)
theory RouterLifecycle
  imports RouterDelivery
begin

text \<open>
  The life of a router: its construction, the calls, the replacement of its deployments and the health checks, as a
  relation on routers, and the invariant that all of them keep. What other tasks do to the shared memory during a
  call is only assumed to keep the invariant of the memory, which every operation of the router does.
\<close>

section \<open>Quotas and cooldowns\<close>

lemma sync_quota_fields [simp]:
  "rs_status (sync_quota_state deps st) = rs_status st" "rs_failures (sync_quota_state deps st) = rs_failures st"
  "rs_cooldown (sync_quota_state deps st) = rs_cooldown st" "rs_latencies (sync_quota_state deps st) = rs_latencies st"
  "rs_total_tokens (sync_quota_state deps st) = rs_total_tokens st" "rs_total_requests (sync_quota_state deps st) = rs_total_requests st"
  "rs_health (sync_quota_state deps st) = rs_health st" "rs_sessions (sync_quota_state deps st) = rs_sessions st"
  "rs_session_times (sync_quota_state deps st) = rs_session_times st"
  by (induction deps arbitrary: st) (simp_all add: sync_quota_state_def sync_quota_of_def)

lemma keys_distinct_sync:
  "keys_distinct us \<Longrightarrow> keys_distinct (sync_token_usage d us)" "keys_distinct ts \<Longrightarrow> keys_distinct (sync_rpm d ts)"
  by (simp_all add: sync_token_usage_def sync_rpm_def split: option.split)

lemma state_ok_quota: "state_ok st \<Longrightarrow> state_ok (sync_quota_state deps st)"
proof -
  assume ok: "state_ok st"
  have "keys_distinct (rs_token_usage (sync_quota_state deps st)) \<and> keys_distinct (rs_rpm (sync_quota_state deps st))"
    if "keys_distinct (rs_token_usage st)" "keys_distinct (rs_rpm st)" for st
    using that by (induction deps arbitrary: st) (simp_all add: sync_quota_state_def sync_quota_of_def keys_distinct_sync)
  then show ?thesis using ok by (simp add: state_ok_defs del: map_of_eq_Some_iff)
qed

text \<open>After the synchronisation the limit of a deployment is the one it declares, and what it used is kept.\<close>

lemma map_of_sync:
  "map_of (sync_token_usage d us) i = (if i \<noteq> d_id d then map_of us i else
     map_option (\<lambda>n. \<lparr>tu_used = (case map_of us i of None \<Rightarrow> 0 | Some u \<Rightarrow> tu_used u), tu_limit = n\<rparr>) (d_tpm d))"
  by (auto simp: sync_token_usage_def split: option.splits)

lemma state_ok_cooldown: "state_ok st \<Longrightarrow> state_ok (sync_cooldown_of c now d st)"
  by (auto simp: state_ok_defs sync_cooldown_of_def simp del: map_of_eq_Some_iff)

lemma state_ok_cooldowns: "state_ok st \<Longrightarrow> state_ok (fold (sync_cooldown_of c now) deps st)"
  by (induction deps arbitrary: st) (simp_all add: state_ok_cooldown)

section \<open>Replacing deployments\<close>

definition remove_all :: "string list \<Rightarrow> router_state \<Rightarrow> router_state" where
  "remove_all ids st = fold (\<lambda>i st. snd (state_remove_deployment i st)) ids st"

lemma remove_all_fields:
  "map_of (rs_status (remove_all ids st)) j = (if j \<in> set ids then None else map_of (rs_status st) j)"
  "map_of (rs_failures (remove_all ids st)) j = (if j \<in> set ids then None else map_of (rs_failures st) j)"
  "map_of (rs_cooldown (remove_all ids st)) j = (if j \<in> set ids then None else map_of (rs_cooldown st) j)"
  "map_of (rs_latencies (remove_all ids st)) j = (if j \<in> set ids then None else map_of (rs_latencies st) j)"
  "map_of (rs_token_usage (remove_all ids st)) j = (if j \<in> set ids then None else map_of (rs_token_usage st) j)"
  by (induction ids arbitrary: st)
    (auto simp: remove_all_def state_remove_deployment_def drop_sessions_def keep_deployments_def Let_def
      map_of_filter_key [of "\<lambda>j. j \<noteq> _"])

lemma remove_all_usable: "usable (remove_all ids st) now j \<longleftrightarrow> j \<in> set ids \<or> usable st now j"
  by (simp add: usable_def cooldown_time_of_def remove_all_fields)

lemma remove_all_ok: "state_ok st \<Longrightarrow> state_ok (remove_all ids st)"
  by (induction ids arbitrary: st) (simp_all add: remove_all_def state_ok_remove)

lemma update_router:
  "snd (update_deployments rid now running new r) = (build_model_indices (r\<lparr>r_deployments := new, r_checker := map_option (\<lambda>_. new) (r_checker r)\<rparr>))
     \<lparr>r_state := sync_quota_state new (remove_all (removed_ids (r_deployments r) new) (r_state r))\<rparr>"
  by (simp add: update_deployments_def Let_def remove_all_def build_model_indices_def)

section \<open>Health checks\<close>

lemma check_all_ok: "state_ok st \<Longrightarrow> state_ok (snd (check_all_deployments latency answer deps st))"
proof -
  have "state_ok (snd x) \<Longrightarrow> state_ok (snd (fold (\<lambda>d (results, st). let h = check_deployment (latency d) d (answer d) in
      (AList.update (d_id d) h results, update_health (d_id d) (hr_healthy h) st)) deps x))" for x
    by (induction deps arbitrary: x) (auto simp: Let_def split_beta)
  then show "state_ok st \<Longrightarrow> ?thesis" by (simp add: check_all_deployments_def)
qed

section \<open>All routers\<close>

definition rely :: "call_env \<Rightarrow> bool" where
  "rely ce \<longleftrightarrow> (\<forall>k m. memory_ok m \<longrightarrow> memory_ok (ae_others (ce_attempt ce k) m))"

definition arg_ok :: "strategy_arg \<Rightarrow> bool" where
  "arg_ok arg = (case arg of ByName _ \<Rightarrow> True | Given so own \<Rightarrow> routing_strategy (so_select so) \<and> state_ok (fst own))"

inductive reachable_router :: "router \<Rightarrow> bool" where
  init: "arg_ok arg \<Longrightarrow> router_init pf deps arg retries cooldown grp check now = Inr r \<Longrightarrow> reachable_router r"
| completion: "reachable_router r \<Longrightarrow> rely ce \<Longrightarrow> reachable_router (cr_router (completion r ce model messages kwargs))"
| stream_completion: "reachable_router r \<Longrightarrow> rely ce \<Longrightarrow>
    reachable_router (cr_router (snd (stream_completion r ce model messages kwargs b)))"
| stream: "reachable_router r \<Longrightarrow> rely ce \<Longrightarrow> reachable_router (cr_router (snd (stream r ce name messages kwargs b)))"
| available: "reachable_router r \<Longrightarrow> reachable_router (snd (reliable_available t model r))"
| update: "reachable_router r \<Longrightarrow> reachable_router (snd (update_deployments rid t running new r))"
| check: "reachable_router r \<Longrightarrow> r_checker r = Some deps \<Longrightarrow>
    reachable_router (r\<lparr>r_state := snd (check_all_deployments latency answer deps (r_state r))\<rparr>)"

definition router_ok :: "router \<Rightarrow> bool" where
  "router_ok r \<longleftrightarrow> models_indexed r \<and> memory_ok (memory_of r) \<and> routing_strategy (so_select (r_strategy r))
     \<and> (\<forall>deps. r_checker r = Some deps \<longrightarrow> deps = r_deployments r)"

text \<open>The parts of the router that a call does not touch.\<close>

definition same_config :: "router \<Rightarrow> router \<Rightarrow> bool" where
  "same_config r r' \<longleftrightarrow> r' = r\<lparr>r_state := r_state r', r_own := r_own r'\<rparr>"

lemma same_config_ok: "same_config r r' \<Longrightarrow> memory_ok (memory_of r') \<Longrightarrow> router_ok r \<Longrightarrow> router_ok r'"
proof -
  assume *: "same_config r r'" "memory_ok (memory_of r')" "router_ok r"
  then have "r_indices r' = r_indices r" "r_deployments r' = r_deployments r" "r_strategy r' = r_strategy r" "r_checker r' = r_checker r"
    by (metis router.ext_inject router.surjective router.update_convs same_config_def)+
  then show ?thesis using * by (simp add: router_ok_def models_indexed_def)
qed

lemma routed_call_config: "routed_call known r model now env raises c \<Longrightarrow> same_config r (cr_router c)"
  unfolding routed_call_def Let_def
  by (elim disjE exE conjE) (simp_all add: unavailable_call_def reliable_available_spec same_config_def with_memory_def)

lemma routed_call_ok:
  assumes "router_ok r" "rely ce" "routed_call known r model now (ce_attempt ce) raises c"
  shows "router_ok (cr_router c)"
proof -
  have contract: "reliable (r_strategy r)" using assms(1) by (simp add: router_ok_def reliable_def)
  have "memory_ok (memory_of (cr_router c))"
    by (rule reliable.routed_call_memory [OF contract assms(3) refl]) (use assms(1,2) in \<open>unfold router_ok_def rely_def, blast+\<close>)
  then show ?thesis by (rule same_config_ok [OF routed_call_config [OF assms(3)] _ assms(1)])
qed

lemma completion_ok: "router_ok r \<Longrightarrow> rely ce \<Longrightarrow> router_ok (cr_router (completion r ce model messages kwargs))"
  by (rule routed_call_ok [OF _ _ reliable.completion_routed]) (auto simp: router_ok_def reliable_def)

lemma stream_call_ok: "router_ok r \<Longrightarrow> rely ce \<Longrightarrow> router_ok (cr_router (snd (stream_call K r ce model terminal messages kwargs b)))"
proof -
  assume *: "router_ok r" "rely ce"
  then have "reliable (r_strategy r)" by (simp add: router_ok_def reliable_def)
  from reliable.stream_call_routed [OF this refl] obtain raises where
    "routed_call is_interrupt r model (ce_clock ce ''available'') (ce_attempt ce) raises (snd (stream_call K r ce model terminal messages kwargs b))"
    by blast
  then show ?thesis by (rule routed_call_ok [OF *])
qed

lemma init_ok:
  assumes "arg_ok arg" "router_init pf deps arg retries cooldown grp check now = Inr r"
  shows "router_ok r"
proof -
  obtain so st own where arg: "resolve_strategy (now []) arg = Inr (so, st, own)"
      and r: "r_indices r = index_models 0 deps []" "r_deployments r = deps" "r_strategy r = so" "r_own r = own"
        "r_state r = sync_quota_state deps (fold (sync_cooldown_of cooldown now) deps st)" "r_checker r = (if check then Some deps else None)"
    using assms(2) by (auto simp: router_init_def rbind_Inr_iff Let_def build_model_indices_def)
  have "routing_strategy (so_select so) \<and> state_ok st \<and> state_ok (fst own)"
    using arg assms(1) builtin.routing_strategy_axioms
    by (auto simp: resolve_strategy_def arg_ok_def rbind_Inr_iff object_of_def split: strategy_arg.splits if_splits)
  then show ?thesis using r by (simp add: router_ok_def models_indexed_def memory_ok_def memory_of_def state_ok_quota state_ok_cooldowns)
qed

lemma update_ok: "router_ok r \<Longrightarrow> router_ok (snd (update_deployments rid t running new r))"
  by (auto simp: update_router router_ok_def models_indexed_def build_model_indices_def memory_ok_def memory_of_def state_ok_quota remove_all_ok)

lemma check_ok: "router_ok r \<Longrightarrow> router_ok (r\<lparr>r_state := snd (check_all_deployments latency answer deps (r_state r))\<rparr>)"
  by (auto simp: router_ok_def models_indexed_def memory_ok_def memory_of_def check_all_ok)

lemma available_ok: "router_ok r \<Longrightarrow> router_ok (snd (reliable_available t model r))"
  by (auto simp: reliable_available_spec router_ok_def models_indexed_def memory_ok_def memory_of_def available_scan_spec(3))

lemma reachable_router_ok: "reachable_router r \<Longrightarrow> router_ok r"
proof (induction rule: reachable_router.induct)
  case (stream r ce name messages kwargs b)
  then show ?case by (cases "resolve_model_name r name") (simp_all add: stream_def stream_call_ok)
qed (simp_all add: init_ok completion_ok stream_completion_def stream_call_ok update_ok check_ok available_ok)

end
