(* ===== verification/RouterCache.thy ===== *)
theory RouterCache
  imports RouterErrors
begin

text \<open>
  \<open>intelli_router/cache/local_cache.py\<close>: the response cache. The \<open>OrderedDict\<close> is an association list, oldest
  entry first; every method runs under the lock of the cache and is one step. The cache is related to an
  abstract least-recently-used cache that stamps each entry with the number of its last use.
\<close>

section \<open>The cache\<close>

record 'v cache_entry =
  ce_value :: 'v
  ce_ttl :: rat
  ce_created_at :: rat

definition is_expired :: "rat \<Rightarrow> 'v cache_entry \<Rightarrow> bool" where
  "is_expired now e \<longleftrightarrow> now - ce_created_at e \<ge> ce_ttl e"

type_synonym 'v cache = "(string \<times> 'v cache_entry) list"

record cache_config =
  cc_max_size :: int
  cc_default_ttl :: rat

definition move_to_end :: "string \<Rightarrow> 'v cache \<Rightarrow> 'v cache" where
  "move_to_end k c = (case map_of c k of None \<Rightarrow> c | Some e \<Rightarrow> AList.delete k c @ [(k, e)])"

text \<open>\<open>popitem(last=False)\<close> raises \<open>KeyError\<close> on an empty dictionary, which a size bound below 1 leads to.\<close>

definition set_cache :: "cache_config \<Rightarrow> string \<Rightarrow> 'v \<Rightarrow> rat option \<Rightarrow> rat \<Rightarrow> 'v cache \<Rightarrow> (router_exc + unit) \<times> 'v cache" where
  "set_cache cfg k v ttl now c =
     (if int (length c) \<ge> cc_max_size cfg \<and> map_of c k = None \<and> c = []
      then (Inl (Other CKeyError ''dictionary is empty''), c)
      else let c1 = (if int (length c) \<ge> cc_max_size cfg \<and> map_of c k = None then tl c else c);
               e = \<lparr>ce_value = v, ce_ttl = (case ttl of None \<Rightarrow> cc_default_ttl cfg | Some t \<Rightarrow> t), ce_created_at = now\<rparr> in
           (Inr (), move_to_end k (AList.update k e c1)))"

definition get_cache :: "string \<Rightarrow> 'v option \<Rightarrow> rat \<Rightarrow> 'v cache \<Rightarrow> 'v option \<times> 'v cache" where
  "get_cache k dflt now c =
     (case map_of c k of
        None \<Rightarrow> (dflt, c)
      | Some e \<Rightarrow> if is_expired now e then (dflt, AList.delete k c) else (Some (ce_value e), move_to_end k c))"

definition delete_cache :: "string \<Rightarrow> 'v cache \<Rightarrow> bool \<times> 'v cache" where
  "delete_cache k c = (if map_of c k \<noteq> None then (True, AList.delete k c) else (False, c))"

definition clear_cache :: "'v cache \<Rightarrow> 'v cache" where
  "clear_cache c = []"

definition get_cache_with_ttl :: "string \<Rightarrow> rat \<Rightarrow> 'v cache \<Rightarrow> ('v \<times> rat) option \<times> 'v cache" where
  "get_cache_with_ttl k now c =
     (case map_of c k of
        None \<Rightarrow> (None, c)
      | Some e \<Rightarrow> if is_expired now e then (None, AList.delete k c)
                  else (Some (ce_value e, ce_ttl e - (now - ce_created_at e)), move_to_end k c))"

definition cache_keys :: "'v cache \<Rightarrow> string list" where
  "cache_keys c = map fst c"

definition cache_size :: "'v cache \<Rightarrow> nat" where
  "cache_size c = length c"

definition cleanup_expired :: "rat \<Rightarrow> 'v cache \<Rightarrow> nat \<times> 'v cache" where
  "cleanup_expired now c =
     (let expired = map fst (filter (\<lambda>(k, e). is_expired now e) c) in
      (length expired, fold AList.delete expired c))"

section \<open>Runs\<close>

datatype 'v cache_op =
    SetCache string 'v "rat option" | GetCache string | GetWithTtl string | DeleteCache string | ClearCache | Cleanup

datatype 'v cache_answer =
    Done | Raised router_exc | Value "'v option" | ValueTtl "('v \<times> rat) option" | Deleted bool | Removed nat

fun cache_step :: "cache_config \<Rightarrow> 'v cache_op \<Rightarrow> rat \<Rightarrow> 'v cache \<Rightarrow> 'v cache_answer \<times> 'v cache" where
  "cache_step cfg (SetCache k v ttl) now c =
     (case set_cache cfg k v ttl now c of (Inl e, c') \<Rightarrow> (Raised e, c') | (Inr _, c') \<Rightarrow> (Done, c'))"
| "cache_step cfg (GetCache k) now c = (case get_cache k None now c of (a, c') \<Rightarrow> (Value a, c'))"
| "cache_step cfg (GetWithTtl k) now c = (case get_cache_with_ttl k now c of (a, c') \<Rightarrow> (ValueTtl a, c'))"
| "cache_step cfg (DeleteCache k) now c = (case delete_cache k c of (b, c') \<Rightarrow> (Deleted b, c'))"
| "cache_step cfg ClearCache now c = (Done, clear_cache c)"
| "cache_step cfg Cleanup now c = (case cleanup_expired now c of (n, c') \<Rightarrow> (Removed n, c'))"

fun cache_run :: "cache_config \<Rightarrow> ('v cache_op \<times> rat) list \<Rightarrow> 'v cache \<Rightarrow> 'v cache_answer list \<times> 'v cache" where
  "cache_run cfg [] c = ([], c)"
| "cache_run cfg ((op, now) # ops) c =
     (let (a, c1) = cache_step cfg op now c; (as, c2) = cache_run cfg ops c1 in (a # as, c2))"

section \<open>The abstract cache\<close>

text \<open>
  An entry is stored with the number of its last use. Storing a new key in a full cache removes the entry that was
  used longest ago; an entry whose time is over is never returned.
\<close>

type_synonym 'v lru = "string \<Rightarrow> ('v cache_entry \<times> nat) option"

definition least_recent :: "'v lru \<Rightarrow> string \<Rightarrow> bool" where
  "least_recent m k \<longleftrightarrow> (\<exists>e s. m k = Some (e, s) \<and> (\<forall>k' e' s'. m k' = Some (e', s') \<longrightarrow> s \<le> s'))"

inductive lru_step :: "cache_config \<Rightarrow> 'v cache_op \<Rightarrow> rat \<Rightarrow> 'v lru \<Rightarrow> nat \<Rightarrow> 'v cache_answer \<Rightarrow> 'v lru \<Rightarrow> bool" for cfg where
  store: "m k \<noteq> None \<or> int (card (dom m)) < cc_max_size cfg \<Longrightarrow>
    lru_step cfg (SetCache k v ttl) now m n Done
      (m(k \<mapsto> (\<lparr>ce_value = v, ce_ttl = (case ttl of None \<Rightarrow> cc_default_ttl cfg | Some t \<Rightarrow> t), ce_created_at = now\<rparr>, n)))"
| evict: "m k = None \<Longrightarrow> cc_max_size cfg \<le> int (card (dom m)) \<Longrightarrow> least_recent m victim \<Longrightarrow>
    lru_step cfg (SetCache k v ttl) now m n Done
      ((m(victim := None))(k \<mapsto> (\<lparr>ce_value = v, ce_ttl = (case ttl of None \<Rightarrow> cc_default_ttl cfg | Some t \<Rightarrow> t), ce_created_at = now\<rparr>, n)))"
| miss: "m k = None \<Longrightarrow> lru_step cfg (GetCache k) now m n (Value None) m"
| expire: "m k = Some (e, s) \<Longrightarrow> is_expired now e \<Longrightarrow> lru_step cfg (GetCache k) now m n (Value None) (m(k := None))"
| hit: "m k = Some (e, s) \<Longrightarrow> \<not> is_expired now e \<Longrightarrow>
    lru_step cfg (GetCache k) now m n (Value (Some (ce_value e))) (m(k \<mapsto> (e, n)))"
| ttl_miss: "m k = None \<Longrightarrow> lru_step cfg (GetWithTtl k) now m n (ValueTtl None) m"
| ttl_expire: "m k = Some (e, s) \<Longrightarrow> is_expired now e \<Longrightarrow>
    lru_step cfg (GetWithTtl k) now m n (ValueTtl None) (m(k := None))"
| ttl_hit: "m k = Some (e, s) \<Longrightarrow> \<not> is_expired now e \<Longrightarrow>
    lru_step cfg (GetWithTtl k) now m n (ValueTtl (Some (ce_value e, ce_created_at e + ce_ttl e - now))) (m(k \<mapsto> (e, n)))"
| delete: "lru_step cfg (DeleteCache k) now m n (Deleted (m k \<noteq> None)) (m(k := None))"
| clear: "lru_step cfg ClearCache now m n Done (\<lambda>_. None)"
| cleanup: "lru_step cfg Cleanup now m n (Removed (card {k. \<exists>e s. m k = Some (e, s) \<and> is_expired now e}))
    (\<lambda>k. case m k of None \<Rightarrow> None | Some (e, s) \<Rightarrow> if is_expired now e then None else Some (e, s))"

inductive lru_run :: "cache_config \<Rightarrow> ('v cache_op \<times> rat) list \<Rightarrow> 'v lru \<Rightarrow> nat \<Rightarrow> 'v cache_answer list \<Rightarrow> 'v lru \<Rightarrow> bool" for cfg where
  stop: "lru_run cfg [] m n [] m"
| step: "lru_step cfg op now m n a m' \<Longrightarrow> lru_run cfg ops m' (Suc n) as m'' \<Longrightarrow>
    lru_run cfg ((op, now) # ops) m n (a # as) m''"

text \<open>The concrete list holds the entries in the order of their stamps.\<close>

definition cache_rel :: "'v cache \<Rightarrow> 'v lru \<Rightarrow> nat \<Rightarrow> bool" where
  "cache_rel c m n \<longleftrightarrow> keys_distinct c \<and> (\<forall>k. map_of c k = map_option fst (m k))
     \<and> sorted_wrt (\<lambda>x y. snd (the (m x)) < snd (the (m y))) (map fst c) \<and> (\<forall>k e s. m k = Some (e, s) \<longrightarrow> s < n)"

section \<open>Refinement\<close>

lemma cache_relD:
  assumes "cache_rel c m n"
  shows "keys_distinct c" "map_of c k = map_option fst (m k)" "m k = Some (e, s) \<Longrightarrow> s < n"
    and "sorted_wrt (\<lambda>x y. snd (the (m x)) < snd (the (m y))) (map fst c)" "fst ` set c = dom m" "finite (dom m)"
    and "card (dom m) = length c"
proof -
  show rel: "keys_distinct c" "\<And>k. map_of c k = map_option fst (m k)" "m k = Some (e, s) \<Longrightarrow> s < n"
    and "sorted_wrt (\<lambda>x y. snd (the (m x)) < snd (the (m y))) (map fst c)"
    using assms by (auto simp: cache_rel_def)
  have "dom (map_of c) = dom m" unfolding dom_def rel(2) by auto
  then show dom: "fst ` set c = dom m" by (simp add: dom_map_of_conv_image_fst)
  then show "finite (dom m)" by (metis finite_imageI finite_set)
  show "card (dom m) = length c" using dom rel(1) by (metis distinct_card length_map list.set_map)
qed

lemma cache_rel_restrict:
  assumes "cache_rel c m n"
  shows "cache_rel (filter (\<lambda>(k, _). k \<in> S) c) (m |` S) n"
proof -
  note D = cache_relD [OF assms]
  have keys: "map fst (filter (\<lambda>(k, _). k \<in> S) c) = filter (\<lambda>k. k \<in> S) (map fst c)"
    by (simp add: filter_map comp_def case_prod_beta')
  have "sorted_wrt (\<lambda>x y. snd (the ((m |` S) x)) < snd (the ((m |` S) y))) (filter (\<lambda>k. k \<in> S) (map fst c))"
    by (rule sorted_wrt_mono_rel [OF _ sorted_wrt_filter [OF D(4)]]) auto
  moreover have "map_of (filter (\<lambda>(k, _). k \<in> S) c) k = map_option fst ((m |` S) k)" for k
    using D(2) [of k] by (simp add: map_of_filter_key restrict_map_def)
  moreover have "(m |` S) k = Some (e, s) \<Longrightarrow> s < n" for k e s
    using D(3) by (auto simp: restrict_map_def split: if_splits)
  ultimately show ?thesis unfolding cache_rel_def keys using D(1) by (auto simp: case_prod_beta')
qed

lemma cache_rel_mono: "cache_rel c m n \<Longrightarrow> cache_rel c m (Suc n)"
  by (auto simp: cache_rel_def less_SucI)

lemma delete_filter: "AList.delete k c = filter (\<lambda>(x, _). x \<in> - {k}) c"
  by (induction c) auto

lemma cache_rel_delete: "cache_rel c m n \<Longrightarrow> cache_rel (AList.delete k c) (m(k := None)) n"
  using cache_rel_restrict [of c m n "- {k}"] unfolding delete_filter
  by (simp add: restrict_complement_singleton_eq)

lemma cache_rel_append:
  assumes "cache_rel c m n" "m k = None"
  shows "cache_rel (c @ [(k, e)]) (m(k \<mapsto> (e, n))) (Suc n)"
proof -
  note D = cache_relD [OF assms(1)]
  have new: "k \<notin> fst ` set c" using D(5) assms(2) by auto
  have st: "snd (the (m x)) < n" if "x \<in> fst ` set c" for x
    using that D(3,5) by (metis (no_types, lifting) domD option.sel prod.collapse)
  have "sorted_wrt (\<lambda>x y. snd (the ((m(k \<mapsto> (e, n))) x)) < snd (the ((m(k \<mapsto> (e, n))) y))) (map fst c)"
    by (rule sorted_wrt_mono_rel [OF _ D(4)]) (use new in auto)
  then have "sorted_wrt (\<lambda>x y. snd (the ((m(k \<mapsto> (e, n))) x)) < snd (the ((m(k \<mapsto> (e, n))) y))) (map fst (c @ [(k, e)]))"
    using new st by (auto simp: sorted_wrt_append)
  moreover have "map_of (c @ [(k, e)]) x = map_option fst ((m(k \<mapsto> (e, n))) x)" for x
    using D(2) [of x] assms(2) by (auto simp: map_add_def split: option.splits)
  moreover have "(m(k \<mapsto> (e, n))) x = Some (e', s) \<Longrightarrow> s < Suc n" for x e' s
    using D(3) by (auto split: if_splits intro: less_SucI)
  ultimately show ?thesis unfolding cache_rel_def using D(1) new by auto
qed

lemma cache_rel_use:
  assumes "cache_rel c m n"
  shows "cache_rel (AList.delete k c @ [(k, e)]) (m(k \<mapsto> (e, n))) (Suc n)"
  using cache_rel_append [OF cache_rel_delete [OF assms, of k], of k e] by simp

lemma move_update: "move_to_end k (AList.update k e c) = AList.delete k c @ [(k, e)]"
proof -
  have "AList.delete k (AList.update k e c) = AList.delete k c" by (induction c) auto
  then show ?thesis by (simp add: move_to_end_def)
qed

text \<open>The first entry of the list is the least recently used one.\<close>

lemma cache_rel_first:
  assumes "cache_rel ((k, e) # c) m n"
  shows "least_recent m k" "cache_rel c (m(k := None)) n"
proof -
  note D = cache_relD [OF assms]
  obtain s where k: "m k = Some (e, s)" using D(2) [of k] by (auto simp: map_option_case split: option.splits)
  have "s \<le> s'" if "m k' = Some (e', s')" for k' e' s'
  proof (cases "k' = k")
    case True
    then show ?thesis using that k by simp
  next
    case False
    then have "k' \<in> fst ` set c" using that D(5) by force
    then show ?thesis using D(4) that k by (auto simp: image_iff)
  qed
  then show "least_recent m k" unfolding least_recent_def using k by blast
  have "AList.delete k ((k, e) # c) = c"
    using D(1) by (simp add: delete_filter) (rule filter_True, force)
  then show "cache_rel c (m(k := None)) n" using cache_rel_delete [OF assms, of k] by simp
qed

lemma set_cache_refines:
  assumes rel: "cache_rel c m n" and "0 < cc_max_size cfg"
  shows "\<exists>m'. lru_step cfg (SetCache k v ttl) now m n (fst (cache_step cfg (SetCache k v ttl) now c)) m'
    \<and> cache_rel (snd (cache_step cfg (SetCache k v ttl) now c)) m' (Suc n)"
proof -
  note D = cache_relD [OF rel]
  have mk: "map_of c k = None \<longleftrightarrow> m k = None" using D(2) [of k] by simp
  let ?e = "\<lparr>ce_value = v, ce_ttl = (case ttl of None \<Rightarrow> cc_default_ttl cfg | Some t \<Rightarrow> t), ce_created_at = now\<rparr>"
  show ?thesis
  proof (cases "cc_max_size cfg \<le> int (length c) \<and> m k = None")
    case True
    then obtain x e0 c0 where c: "c = (x, e0) # c0" using assms(2) by (cases c) auto
    have "lru_step cfg (SetCache k v ttl) now m n Done ((m(x := None))(k \<mapsto> (?e, n)))"
      using True D(7) cache_rel_first(1) [OF rel [unfolded c]] by (intro evict) auto
    moreover have "cache_rel (AList.delete k c0 @ [(k, ?e)]) ((m(x := None))(k \<mapsto> (?e, n))) (Suc n)"
      by (rule cache_rel_use [OF cache_rel_first(2) [OF rel [unfolded c]]])
    moreover have "map_of c k = None" "c \<noteq> []" "tl c = c0" using True mk c by auto
    then have "set_cache cfg k v ttl now c = (Inr (), AList.delete k c0 @ [(k, ?e)])"
      using True by (simp add: set_cache_def Let_def move_update del: map_of_eq_None_iff)
    ultimately show ?thesis by auto
  next
    case False
    have "lru_step cfg (SetCache k v ttl) now m n Done (m(k \<mapsto> (?e, n)))"
      using False D(7) by (intro store) auto
    moreover have "cache_rel (AList.delete k c @ [(k, ?e)]) (m(k \<mapsto> (?e, n))) (Suc n)"
      by (rule cache_rel_use [OF rel])
    moreover have "\<not> (cc_max_size cfg \<le> int (length c) \<and> map_of c k = None)" using False mk by simp
    ultimately show ?thesis by (auto simp: set_cache_def Let_def move_update simp del: map_of_eq_None_iff)
  qed
qed

lemma get_cases:
  assumes "cache_rel c m n"
  obtains "m k = None" "map_of c k = None"
    | e s where "m k = Some (e, s)" "map_of c k = Some e"
  using cache_relD(2) [OF assms, of k] by (cases "m k") auto

lemma get_cache_refines:
  assumes rel: "cache_rel c m n"
  shows "\<exists>m'. lru_step cfg (GetCache k) now m n (fst (cache_step cfg (GetCache k) now c)) m'
    \<and> cache_rel (snd (cache_step cfg (GetCache k) now c)) m' (Suc n)"
  using rel
proof (cases rule: get_cases [where k = k])
  case 1
  then show ?thesis using miss [of m k cfg now n] cache_rel_mono [OF rel]
    by (auto simp: get_cache_def simp del: map_of_eq_None_iff)
next
  case (2 e s)
  then show ?thesis
    using expire [of m k e s now cfg n] hit [of m k e s now cfg n] cache_rel_mono [OF cache_rel_delete [OF rel, of k]]
      cache_rel_use [OF rel, of k e]
    by (cases "is_expired now e") (auto simp: get_cache_def move_to_end_def)
qed

lemma get_ttl_refines:
  assumes rel: "cache_rel c m n"
  shows "\<exists>m'. lru_step cfg (GetWithTtl k) now m n (fst (cache_step cfg (GetWithTtl k) now c)) m'
    \<and> cache_rel (snd (cache_step cfg (GetWithTtl k) now c)) m' (Suc n)"
  using rel
proof (cases rule: get_cases [where k = k])
  case 1
  then show ?thesis using ttl_miss [of m k cfg now n] cache_rel_mono [OF rel]
    by (auto simp: get_cache_with_ttl_def simp del: map_of_eq_None_iff)
next
  case (2 e s)
  have t: "ce_ttl e - (now - ce_created_at e) = ce_created_at e + ce_ttl e - now" by simp
  show ?thesis
    using 2 ttl_expire [of m k e s now cfg n] ttl_hit [of m k e s now cfg n] cache_rel_mono [OF cache_rel_delete [OF rel, of k]]
      cache_rel_use [OF rel, of k e]
    by (cases "is_expired now e") (auto simp: get_cache_with_ttl_def move_to_end_def t)
qed

lemma fold_delete_filter: "fold AList.delete ks c = filter (\<lambda>(k, _). k \<in> - set ks) c"
  by (induction ks arbitrary: c) (auto simp: delete_filter intro!: filter_cong)

lemma cleanup_refines:
  assumes rel: "cache_rel c m n"
  shows "\<exists>m'. lru_step cfg Cleanup now m n (fst (cache_step cfg Cleanup now c)) m'
    \<and> cache_rel (snd (cache_step cfg Cleanup now c)) m' (Suc n)"
proof -
  note D = cache_relD [OF rel]
  let ?xs = "map fst (filter (\<lambda>(k, e). is_expired now e) c)"
  let ?E = "{k. \<exists>e s. m k = Some (e, s) \<and> is_expired now e}"
  have mem: "(k, e) \<in> set c \<longleftrightarrow> (\<exists>s. m k = Some (e, s))" for k e
    unfolding map_of_eq_Some_iff [OF D(1), symmetric] D(2) by (cases "m k") auto
  have "set ?xs = {k. \<exists>e. (k, e) \<in> set c \<and> is_expired now e}" by force
  then have xs: "set ?xs = ?E" unfolding mem by blast
  have "distinct ?xs" using D(1) by (rule distinct_map_filter)
  then have "length ?xs = card ?E" using xs by (metis distinct_card)
  then have run: "cache_step cfg Cleanup now c = (Removed (card ?E), fold AList.delete ?xs c)"
    by (simp only: cache_step.simps cleanup_expired_def Let_def case_prod_conv)
  have m: "m |` (- ?E) = (\<lambda>k. case m k of None \<Rightarrow> None | Some (e, s) \<Rightarrow> if is_expired now e then None else Some (e, s))"
    by (auto simp: restrict_map_def fun_eq_iff split: option.splits)
  have "cache_rel (fold AList.delete ?xs c) (m |` (- ?E)) (Suc n)"
    unfolding fold_delete_filter xs by (rule cache_rel_mono [OF cache_rel_restrict [OF rel]])
  moreover have "lru_step cfg Cleanup now m n (Removed (card ?E)) (m |` (- ?E))"
    unfolding m by (rule cleanup)
  ultimately show ?thesis unfolding run fst_conv snd_conv by blast
qed

lemma cache_step_refines:
  assumes "cache_rel c m n" "0 < cc_max_size cfg"
  shows "\<exists>m'. lru_step cfg op now m n (fst (cache_step cfg op now c)) m' \<and> cache_rel (snd (cache_step cfg op now c)) m' (Suc n)"
proof (cases op)
  case (DeleteCache k)
  have "map_of c k = None \<longleftrightarrow> m k = None" using cache_relD(2) [OF assms(1), of k] by simp
  moreover have "m(k := None) = m" if "m k = None" using that by auto
  ultimately show ?thesis
    using DeleteCache delete [of cfg k now m n] cache_rel_mono [OF assms(1)] cache_rel_mono [OF cache_rel_delete [OF assms(1), of k]]
    by (cases "m k") (auto simp: delete_cache_def simp del: map_of_eq_None_iff)
next
  case ClearCache
  then show ?thesis using clear [of cfg now m n] by (auto simp: clear_cache_def cache_rel_def)
qed (simp_all only: set_cache_refines [OF assms] get_cache_refines [OF assms(1)] get_ttl_refines [OF assms(1)]
    cleanup_refines [OF assms(1)])

lemma cache_run_refines:
  "cache_rel c m n \<Longrightarrow> 0 < cc_max_size cfg \<Longrightarrow>
   \<exists>m'. lru_run cfg ops m n (fst (cache_run cfg ops c)) m' \<and> cache_rel (snd (cache_run cfg ops c)) m' (n + length ops)"
proof (induction cfg ops c arbitrary: m n rule: cache_run.induct)
  case (1 cfg c)
  then show ?case using stop by auto
next
  case (2 cfg op now ops c)
  obtain a c1 where s: "cache_step cfg op now c = (a, c1)" by force
  obtain m1 where "lru_step cfg op now m n a m1" "cache_rel c1 m1 (Suc n)"
    using cache_step_refines [OF 2(2,3), of op now] s by auto
  then show ?case using 2(1) [OF s [symmetric] refl _ 2(3)] s step by (fastforce split: prod.splits)
qed

text \<open>The abstract cache never holds more than the bound.\<close>

lemma lru_step_bound:
  assumes "lru_step cfg op now m n a m'" "int (card (dom m)) \<le> cc_max_size cfg" "finite (dom m)" "0 < cc_max_size cfg"
  shows "int (card (dom m')) \<le> cc_max_size cfg \<and> finite (dom m')"
  using assms
proof (induction rule: lru_step.induct)
  case (store m k v ttl now n)
  have d: "dom (m(k \<mapsto> x)) = insert k (dom m)" for x by simp
  show ?case unfolding d using store by (cases "k \<in> dom m") (simp_all add: insert_absorb domIff)
next
  case (evict m k victim v ttl now n)
  have "victim \<in> dom m" using evict(3) by (auto simp: least_recent_def)
  then have "card (dom m - {victim}) < card (dom m)" using evict(5) by (intro psubset_card_mono) auto
  moreover have d: "dom ((m(victim := None))(k \<mapsto> x)) = insert k (dom m - {victim})" for x by simp
  ultimately show ?case unfolding d using evict by (simp add: card_insert_if)
next
  case (cleanup now m n)
  let ?f = "\<lambda>k. case m k of None \<Rightarrow> None | Some (e, s) \<Rightarrow> if is_expired now e then None else Some (e, s)"
  have "dom ?f \<subseteq> dom m" by (auto simp: dom_def split: option.splits if_splits)
  then show ?case using cleanup card_mono [of "dom m" "dom ?f"] finite_subset by fastforce
qed (auto simp: card_insert_if card_Diff_singleton_if intro: order_trans [rotated])


end
