(* ===== verification/RouterChunks.thy ===== *)
theory RouterChunks
  imports RouterMessages
begin

text \<open>
  \<open>AssistantMessageChunk.__add__\<close> of \<open>intelli_router/types.py\<close>: the accumulation of a stream. Tool calls are merged
  by index on fresh copies; the copies are the positions of the result list, to which \<open>by_index\<close> points. The
  addition is associative, so that a stream may be accumulated in any grouping.
\<close>

section \<open>Tool calls\<close>

record tool_call =
  tc_id :: string
  tc_type :: string
  tc_name :: string
  tc_arguments :: string
  tc_index :: "int option"

definition merge_call :: "tool_call \<Rightarrow> tool_call \<Rightarrow> tool_call" where
  "merge_call target tc = target\<lparr>tc_id := (if tc_id tc \<noteq> [] then tc_id tc else tc_id target),
     tc_name := (if tc_name tc \<noteq> [] then tc_name tc else tc_name target),
     tc_arguments := tc_arguments target @ tc_arguments tc\<rparr>"

type_synonym call_index = "(int \<times> nat) list"

definition append_call :: "tool_call \<Rightarrow> tool_call list \<times> call_index \<Rightarrow> tool_call list \<times> call_index" where
  "append_call tc acc = (fst acc @ [tc],
     case tc_index tc of None \<Rightarrow> snd acc | Some i \<Rightarrow> AList.update i (length (fst acc)) (snd acc))"

definition incoming_call :: "tool_call \<Rightarrow> tool_call list \<times> call_index \<Rightarrow> tool_call list \<times> call_index" where
  "incoming_call tc acc =
     (case Option.bind (tc_index tc) (map_of (snd acc)) of
        Some p \<Rightarrow> ((fst acc)[p := merge_call (fst acc ! p) tc], snd acc)
      | None \<Rightarrow> append_call tc acc)"

definition merge_tool_calls :: "tool_call list option \<Rightarrow> tool_call list option \<Rightarrow> tool_call list option" where
  "merge_tool_calls existing incoming =
     (case (existing, incoming) of
        (None, None) \<Rightarrow> None
      | (Some xs, None) \<Rightarrow> Some xs
      | (None, Some ys) \<Rightarrow> Some ys
      | (Some xs, Some ys) \<Rightarrow> Some (fst (fold incoming_call ys (fold append_call xs ([], [])))))"

section \<open>Usage\<close>

definition newest_number :: "'a::zero \<Rightarrow> 'a \<Rightarrow> 'a" where
  "newest_number incoming existing = (if incoming = 0 then existing else incoming)"

definition newest_opt :: "int option \<Rightarrow> int option \<Rightarrow> int option" where
  "newest_opt incoming existing = (if incoming = None \<or> incoming = Some 0 then existing else incoming)"

definition newest_some :: "'a option \<Rightarrow> 'a option \<Rightarrow> 'a option" where
  "newest_some incoming existing = (if incoming = None then existing else incoming)"

definition newest_val :: "pyval \<Rightarrow> pyval \<Rightarrow> pyval" where
  "newest_val incoming existing = (if incoming = PNone then existing else incoming)"

definition merge_usage :: "usage_metadata \<Rightarrow> usage_metadata \<Rightarrow> usage_metadata" where
  "merge_usage a b =
     (let input = newest_number (um_input_tokens b) (um_input_tokens a); output = newest_number (um_output_tokens b) (um_output_tokens a) in
      usage_post_init \<lparr>um_model_name = newest_val (um_model_name b) (um_model_name a), um_input_tokens = input, um_output_tokens = output,
        um_total_tokens = (if input \<noteq> 0 \<or> output \<noteq> 0 then input + output else newest_number (um_total_tokens b) (um_total_tokens a)),
        um_cache_tokens = newest_number (um_cache_tokens b) (um_cache_tokens a),
        um_cache_read_tokens = newest_opt (um_cache_read_tokens b) (um_cache_read_tokens a),
        um_cache_miss_tokens = newest_opt (um_cache_miss_tokens b) (um_cache_miss_tokens a),
        um_cache_write_tokens = newest_opt (um_cache_write_tokens b) (um_cache_write_tokens a),
        um_cache_status = newest_some (um_cache_status b) (um_cache_status a),
        um_cache_source = newest_some (um_cache_source b) (um_cache_source a),
        um_cache_authoritative = (um_cache_authoritative a \<or> um_cache_authoritative b),
        um_cache_creation_input_tokens = newest_opt (um_cache_creation_input_tokens b) (um_cache_creation_input_tokens a),
        um_reasoning_tokens = newest_number (um_reasoning_tokens b) (um_reasoning_tokens a),
        um_input_cost = newest_number (um_input_cost b) (um_input_cost a), um_output_cost = newest_number (um_output_cost b) (um_output_cost a),
        um_total_cost = newest_number (um_total_cost b) (um_total_cost a)\<rparr>)"

definition merge_usage_metadata :: "usage_metadata option \<Rightarrow> usage_metadata option \<Rightarrow> usage_metadata option" where
  "merge_usage_metadata existing incoming =
     (case (existing, incoming) of
        (None, _) \<Rightarrow> incoming | (_, None) \<Rightarrow> existing | (Some a, Some b) \<Rightarrow> Some (merge_usage a b))"

section \<open>Chunks\<close>

record message_chunk =
  ch_content :: string
  ch_reasoning :: "string option"
  ch_tool_calls :: "tool_call list option"
  ch_usage :: "usage_metadata option"
  ch_finish :: "string option"
  ch_parser_content :: pyval
  ch_prompt_ids :: "int list option"
  ch_completion_ids :: "int list option"
  ch_logprobs :: pyval
  ch_response_id :: "string option"
  ch_response_model :: "string option"
  ch_provider_metadata :: pdict
  ch_provider_content :: pyval

definition list_or :: "'a list option \<Rightarrow> 'a list option \<Rightarrow> 'a list option" where
  "list_or a b = (case a of Some (x # xs) \<Rightarrow> a | _ \<Rightarrow> b)"

definition or_empty :: "'a list option \<Rightarrow> 'a list" where
  "or_empty a = (case a of None \<Rightarrow> [] | Some xs \<Rightarrow> xs)"

definition chunk_add :: "message_chunk \<Rightarrow> message_chunk \<Rightarrow> message_chunk" where
  "chunk_add a b =
     \<lparr>ch_content = ch_content a @ ch_content b,
      ch_reasoning = (if ch_reasoning a \<noteq> None \<or> ch_reasoning b \<noteq> None
                      then Some (or_empty (ch_reasoning a) @ or_empty (ch_reasoning b)) else None),
      ch_tool_calls = merge_tool_calls (ch_tool_calls a) (ch_tool_calls b),
      ch_usage = merge_usage_metadata (ch_usage a) (ch_usage b),
      ch_finish = newest_some (ch_finish b) (ch_finish a),
      ch_parser_content = newest_val (ch_parser_content b) (ch_parser_content a),
      ch_prompt_ids = list_or (ch_prompt_ids a) (ch_prompt_ids b),
      ch_completion_ids = (let ids = or_empty (ch_completion_ids a) @ or_empty (ch_completion_ids b) in
                           if ids = [] then None else Some ids),
      ch_logprobs = newest_val (ch_logprobs b) (ch_logprobs a),
      ch_response_id = list_or (ch_response_id b) (ch_response_id a),
      ch_response_model = list_or (ch_response_model b) (ch_response_model a),
      ch_provider_metadata = dict_merge (ch_provider_metadata a) (ch_provider_metadata b),
      ch_provider_content = newest_val (ch_provider_content b) (ch_provider_content a)\<rparr>"

section \<open>Associativity\<close>

text \<open>The index always points to the last call with that index, so that the list alone determines it.\<close>

fun add_call :: "tool_call list \<Rightarrow> tool_call \<Rightarrow> tool_call list" where
  "add_call [] tc = [tc]"
| "add_call (x # xs) tc =
     (if tc_index tc \<noteq> None \<and> tc_index x = tc_index tc \<and> tc_index tc \<notin> tc_index ` set xs
      then merge_call x tc # xs else x # add_call xs tc)"

definition last_at :: "'a list \<Rightarrow> 'a \<Rightarrow> nat option \<Rightarrow> bool" where
  "last_at xs x r \<longleftrightarrow> (case r of None \<Rightarrow> x \<notin> set xs
     | Some p \<Rightarrow> p < length xs \<and> xs ! p = x \<and> (\<forall>q < length xs. p < q \<longrightarrow> xs ! q \<noteq> x))"

definition indexed :: "tool_call list \<times> call_index \<Rightarrow> bool" where
  "indexed acc \<longleftrightarrow> (\<forall>i. last_at (map tc_index (fst acc)) (Some i) (map_of (snd acc) i))"

lemma last_at_snoc: "last_at xs x r \<Longrightarrow> last_at (xs @ [y]) x (if y = x then Some (length xs) else r)"
  by (auto simp: last_at_def nth_append split: option.splits)

lemma merge_call_index [simp]: "tc_index (merge_call x y) = tc_index x"
  by (simp add: merge_call_def)

lemma merge_call_assoc: "merge_call (merge_call x y) z = merge_call x (merge_call y z)"
  by (simp add: merge_call_def)

lemma add_call_append: "tc_index tc = None \<or> tc_index tc \<notin> tc_index ` set xs \<Longrightarrow> add_call xs tc = xs @ [tc]"
  by (induction xs) auto

lemma add_call_at: "p < length xs \<Longrightarrow> tc_index tc \<noteq> None \<Longrightarrow> tc_index (xs ! p) = tc_index tc \<Longrightarrow>
    (\<forall>q < length xs. p < q \<longrightarrow> tc_index (xs ! q) \<noteq> tc_index tc) \<Longrightarrow> add_call xs tc = xs[p := merge_call (xs ! p) tc]"
proof (induction xs arbitrary: p)
  case (Cons x xs)
  show ?case
  proof (cases p)
    case 0
    have "tc_index (xs ! q) \<noteq> tc_index tc" if "q < length xs" for q
      using Cons(5) 0 that by (auto dest!: spec [where x = "Suc q"])
    then have "tc_index tc \<notin> tc_index ` set xs" by (metis imageE in_set_conv_nth)
    then show ?thesis using Cons 0 by simp
  next
    case (Suc q)
    then have "tc_index tc \<in> tc_index ` set xs" using Cons by (metis Suc_less_eq imageI length_Cons nth_Cons_Suc nth_mem)
    moreover have "add_call xs tc = xs[q := merge_call (xs ! q) tc]"
    proof (intro Cons(1))
      show "\<forall>r < length xs. q < r \<longrightarrow> tc_index (xs ! r) \<noteq> tc_index tc"
        using Cons(5) Suc by (auto dest: spec [where x = "Suc r" for r])
    qed (use Cons Suc in auto)
    ultimately show ?thesis using Suc by auto
  qed
qed simp

lemma indexed_append: "indexed acc \<Longrightarrow> indexed (append_call tc acc)"
  unfolding indexed_def append_call_def using last_at_snoc [of "map tc_index (fst acc)" _ _ "tc_index tc"]
  by (fastforce split: option.splits if_splits)

lemma incoming_call_add:
  assumes "indexed acc"
  shows "fst (incoming_call tc acc) = add_call (fst acc) tc" "indexed (incoming_call tc acc)"
proof -
  obtain xs m where acc: "acc = (xs, m)" by (cases acc)
  have "fst (incoming_call tc acc) = add_call (fst acc) tc \<and> indexed (incoming_call tc acc)"
  proof (cases "Option.bind (tc_index tc) (map_of m)")
    case None
    then have "tc_index tc = None \<or> tc_index tc \<notin> tc_index ` set xs"
      using spec [OF assms [unfolded indexed_def], of "the (tc_index tc)"]
      by (cases "tc_index tc") (auto simp: acc last_at_def)
    then show ?thesis using None indexed_append [OF assms, of tc] add_call_append
      by (simp add: incoming_call_def acc append_call_def)
  next
    case (Some p)
    then obtain i where i: "tc_index tc = Some i" "map_of m i = Some p" by (cases "tc_index tc") auto
    then have at: "p < length xs" "tc_index (xs ! p) = Some i" "\<forall>q < length xs. p < q \<longrightarrow> tc_index (xs ! q) \<noteq> Some i"
      using spec [OF assms [unfolded indexed_def], of i] by (auto simp: acc last_at_def)
    have "map tc_index (xs[p := merge_call (xs ! p) tc]) = map tc_index xs"
      using at by (simp add: map_update list_update_same_conv)
    then show ?thesis using Some at i add_call_at [of p xs tc] assms
      by (simp add: incoming_call_def acc indexed_def)
  qed
  then show "fst (incoming_call tc acc) = add_call (fst acc) tc" "indexed (incoming_call tc acc)" by auto
qed

lemma fold_append_call: "indexed acc \<Longrightarrow> fst (fold append_call xs acc) = fst acc @ xs \<and> indexed (fold append_call xs acc)"
proof (induction xs arbitrary: acc)
  case (Cons x xs)
  then show ?case using Cons.IH [OF indexed_append [OF Cons.prems, of x]] by (simp add: append_call_def)
qed simp

lemma fold_incoming_call: "indexed acc \<Longrightarrow> fst (fold incoming_call ys acc) = foldl add_call (fst acc) ys"
  by (induction ys arbitrary: acc) (auto simp: incoming_call_add)

lemma merge_tool_calls_foldl: "merge_tool_calls (Some xs) (Some ys) = Some (foldl add_call xs ys)"
proof -
  have "indexed ([], [])" by (simp add: indexed_def last_at_def)
  from fold_append_call [OF this, of xs] show ?thesis by (simp add: merge_tool_calls_def fold_incoming_call)
qed

text \<open>A call with another index does not disturb the place of a call that is present.\<close>

lemma add_call_indices [simp]: "tc_index ` set (add_call xs tc) = insert (tc_index tc) (tc_index ` set xs)"
  by (induction xs) auto

lemma add_call_twice:
  "tc_index t = Some i \<Longrightarrow> tc_index tc = Some i \<Longrightarrow> add_call (add_call xs t) tc = add_call xs (merge_call t tc)"
  by (induction xs) (auto simp: merge_call_assoc)

lemma add_call_commute:
  "Some i \<in> tc_index ` set xs \<Longrightarrow> tc_index t = Some i \<Longrightarrow> tc_index y \<noteq> Some i \<Longrightarrow>
   add_call (add_call xs t) y = add_call (add_call xs y) t"
proof (induction xs)
  case (Cons x xs)
  show ?case
  proof (cases "Some i \<in> tc_index ` set xs")
    case True
    then show ?thesis using Cons by (cases "tc_index y") auto
  next
    case False
    then have "tc_index x = Some i" using Cons(2) by auto
    then show ?thesis using False Cons(3,4) by auto
  qed
qed simp

lemma foldl_add_commute:
  "Some i \<in> tc_index ` set xs \<Longrightarrow> tc_index t = Some i \<Longrightarrow> Some i \<notin> tc_index ` set ys \<Longrightarrow>
   foldl add_call (add_call xs t) ys = add_call (foldl add_call xs ys) t"
proof (induction ys arbitrary: xs)
  case (Cons y ys)
  have "foldl add_call (add_call xs t) (y # ys) = foldl add_call (add_call (add_call xs y) t) ys"
    using add_call_commute [of i xs t y] Cons(2-4) by auto
  also have "\<dots> = add_call (foldl add_call (add_call xs y) ys) t" using Cons by (intro Cons.IH) auto
  finally show ?case by simp
qed simp

lemma foldl_add_call: "foldl add_call xs (add_call ys tc) = add_call (foldl add_call xs ys) tc"
proof (induction ys arbitrary: xs)
  case (Cons y ys)
  show ?case
  proof (cases "tc_index tc \<noteq> None \<and> tc_index y = tc_index tc \<and> tc_index tc \<notin> tc_index ` set ys")
    case True
    then obtain i where i: "tc_index tc = Some i" "tc_index y = Some i" "Some i \<notin> tc_index ` set ys" by auto
    have "foldl add_call xs (add_call (y # ys) tc) = foldl add_call (add_call (add_call xs y) tc) ys"
      using True i by (simp add: add_call_twice)
    also have "\<dots> = add_call (foldl add_call (add_call xs y) ys) tc" using i by (intro foldl_add_commute) auto
    finally show ?thesis by simp
  next
    case False
    then have "add_call (y # ys) tc = y # add_call ys tc" by (simp only: add_call.simps if_False)
    then show ?thesis using Cons by simp
  qed
qed simp

lemma foldl_foldl_add: "foldl add_call xs (foldl add_call ys zs) = foldl add_call (foldl add_call xs ys) zs"
  by (induction zs arbitrary: ys) (simp_all add: foldl_add_call)

lemma merge_tool_calls_assoc:
  "merge_tool_calls (merge_tool_calls a b) c = merge_tool_calls a (merge_tool_calls b c)"
proof -
  have n: "merge_tool_calls None x = x" "merge_tool_calls x None = x" for x
    by (cases x; simp add: merge_tool_calls_def)+
  show ?thesis by (cases a; cases b; cases c) (simp_all add: n merge_tool_calls_foldl foldl_foldl_add)
qed

text \<open>The merge of dictionaries keeps the order of first insertion.\<close>

lemma update_commute:
  "k \<in> fst ` set a \<Longrightarrow> k \<noteq> l \<Longrightarrow> AList.update k v (AList.update l w a) = AList.update l w (AList.update k v a)"
proof (induction a)
  case (Cons x a)
  obtain k' v' where x: "x = (k', v')" by (cases x)
  show ?case using Cons x by auto
qed simp

lemma update_twice: "AList.update k v (AList.update k w a) = AList.update k v a"
  by (induction a) auto

lemma fold_update_commute:
  "k \<in> fst ` set a \<Longrightarrow> k \<notin> fst ` set b \<Longrightarrow> dict_merge (AList.update k v a) b = AList.update k v (dict_merge a b)"
proof (induction b arbitrary: a)
  case (Cons x b)
  obtain l w where x: "x = (l, w)" by (cases x)
  have "dict_merge (AList.update k v a) (x # b) = dict_merge (AList.update k v (AList.update l w a)) b"
    using Cons(2,3) x update_commute [of k a l v w] by (simp add: dict_merge_def)
  also have "\<dots> = AList.update k v (dict_merge (AList.update l w a) b)"
    using Cons x by (intro Cons.IH) (auto simp: dom_update)
  finally show ?case using x by (simp add: dict_merge_def)
qed (simp add: dict_merge_def)

lemma dict_merge_update: "keys_distinct b \<Longrightarrow> dict_merge a (AList.update k v b) = AList.update k v (dict_merge a b)"
proof (induction b arbitrary: a)
  case (Cons x b)
  obtain l w where x: "x = (l, w)" by (cases x)
  show ?case
  proof (cases "l = k")
    case True
    have "dict_merge (AList.update k v (AList.update k w a)) b = AList.update k v (dict_merge (AList.update k w a) b)"
      using Cons x True by (intro fold_update_commute) (auto simp: dom_update)
    then show ?thesis using True x by (simp add: dict_merge_def update_twice)
  next
    case False
    then show ?thesis using Cons x by (simp add: dict_merge_def)
  qed
qed (simp add: dict_merge_def)

lemma keys_distinct_merge: "keys_distinct a \<Longrightarrow> keys_distinct (dict_merge a b)"
  by (induction b arbitrary: a) (auto simp: dict_merge_def)

lemma dict_merge_assoc: "keys_distinct b \<Longrightarrow> dict_merge (dict_merge a b) c = dict_merge a (dict_merge b c)"
proof (induction c arbitrary: b)
  case (Cons x c)
  obtain k v where x: "x = (k, v)" by (cases x)
  have "dict_merge (dict_merge a b) (x # c) = dict_merge (dict_merge a (AList.update k v b)) c"
    using Cons x by (simp add: dict_merge_def dict_merge_update [unfolded dict_merge_def])
  also have "\<dots> = dict_merge a (dict_merge (AList.update k v b) c)" using Cons by simp
  finally show ?case using x by (simp add: dict_merge_def)
qed (simp add: dict_merge_def)

lemma newest_assoc:
  "newest_number c (newest_number b a) = newest_number (newest_number c b) a" "newest_opt c' (newest_opt b' a') = newest_opt (newest_opt c' b') a'"
  "newest_some c1 (newest_some b1 a1) = newest_some (newest_some c1 b1) a1"
  "newest_val c2 (newest_val b2 a2) = newest_val (newest_val c2 b2) a2"
  by (auto simp: newest_number_def newest_opt_def newest_some_def newest_val_def)

lemma usage_post_init_fields [simp]:
  "um_model_name (usage_post_init u) = um_model_name u" "um_input_tokens (usage_post_init u) = um_input_tokens u"
  "um_output_tokens (usage_post_init u) = um_output_tokens u" "um_cache_tokens (usage_post_init u) = um_cache_tokens u"
  "um_cache_read_tokens (usage_post_init u) = um_cache_read_tokens u" "um_cache_miss_tokens (usage_post_init u) = um_cache_miss_tokens u"
  "um_cache_write_tokens (usage_post_init u) = um_cache_write_tokens u" "um_cache_status (usage_post_init u) = um_cache_status u"
  "um_cache_source (usage_post_init u) = um_cache_source u" "um_cache_authoritative (usage_post_init u) = um_cache_authoritative u"
  "um_cache_creation_input_tokens (usage_post_init u) = um_cache_creation_input_tokens u"
  "um_reasoning_tokens (usage_post_init u) = um_reasoning_tokens u" "um_input_cost (usage_post_init u) = um_input_cost u"
  "um_output_cost (usage_post_init u) = um_output_cost u" "um_total_cost (usage_post_init u) = um_total_cost u"
  by (simp_all add: usage_post_init_def)

lemma usage_post_init_total: "um_total_tokens (usage_post_init u) =
    (if um_total_tokens u = 0 \<and> (um_input_tokens u \<noteq> 0 \<or> um_output_tokens u \<noteq> 0)
     then um_input_tokens u + um_output_tokens u else um_total_tokens u)"
  by (simp add: usage_post_init_def)

lemma merge_usage_total: "um_total_tokens (merge_usage a b) =
    (if um_input_tokens (merge_usage a b) \<noteq> 0 \<or> um_output_tokens (merge_usage a b) \<noteq> 0
     then um_input_tokens (merge_usage a b) + um_output_tokens (merge_usage a b)
     else newest_number (um_total_tokens b) (um_total_tokens a))"
  unfolding merge_usage_def Let_def by (simp add: usage_post_init_total)

lemma merge_usage_input: "um_input_tokens (merge_usage a b) = newest_number (um_input_tokens b) (um_input_tokens a)"
  "um_output_tokens (merge_usage a b) = newest_number (um_output_tokens b) (um_output_tokens a)"
  unfolding merge_usage_def Let_def by simp_all

lemma merge_usage_assoc: "merge_usage (merge_usage a b) c = merge_usage a (merge_usage b c)"
proof (rule usage_metadata.equality)
  have z: "newest_number x (y::int) = 0 \<longleftrightarrow> x = 0 \<and> y = 0" for x y by (auto simp: newest_number_def)
  show "um_total_tokens (merge_usage (merge_usage a b) c) = um_total_tokens (merge_usage a (merge_usage b c))"
    by (simp add: merge_usage_total merge_usage_input newest_assoc z)
qed (simp_all add: merge_usage_input newest_assoc, simp_all add: merge_usage_def Let_def newest_assoc disj_assoc)

lemma list_or_assoc: "list_or (list_or x y) z = list_or x (list_or y z)"
  by (auto simp: list_or_def split: option.splits list.splits)

lemma or_empty_simps [simp]: "or_empty None = []" "or_empty (Some xs) = xs"
  by (simp_all add: or_empty_def)

lemma merge_usage_metadata_assoc:
  "merge_usage_metadata (merge_usage_metadata x y) z = merge_usage_metadata x (merge_usage_metadata y z)"
  by (cases x; cases y; cases z) (simp_all add: merge_usage_metadata_def merge_usage_assoc)

lemma chunk_add_assoc:
  assumes "keys_distinct (ch_provider_metadata b)"
  shows "chunk_add (chunk_add a b) c = chunk_add a (chunk_add b c)"
proof (rule message_chunk.equality)
  show "ch_reasoning (chunk_add (chunk_add a b) c) = ch_reasoning (chunk_add a (chunk_add b c))"
    by (simp add: chunk_add_def or_empty_def split: option.split)
qed (simp_all add: chunk_add_def Let_def merge_tool_calls_assoc merge_usage_metadata_assoc newest_assoc list_or_assoc
    dict_merge_assoc [OF assms])

end
