(* ===== verification/RouterDemo.thy ===== *)
theory RouterDemo
  imports RouterLifecycle RouterCache RouterChunks
begin

text \<open>A router with two deployments, on which the properties of the router are applied: the first one fails, the second answers.\<close>

definition sample_deployment :: "string \<Rightarrow> deployment" where
  "sample_deployment i = \<lparr>d_model_name = ''gpt'', d_api_key = ''key'', d_api_base = ''http://'' @ i, d_id = i, d_model_id = None,
     d_status = Healthy, d_consecutive_failures = 0, d_cooldown_until = None, d_tags = [], d_tpm = Some 1000, d_rpm = None,
     d_timeout = None, d_provider = ''openai'', d_verify_ssl = True, d_request_defaults = [], d_endpoint_profile = None,
     d_custom_headers = None, d_fallback_tag = None, d_model_description = None\<rparr>"

text \<open>The lines of the sample streams are parsed by this table.\<close>

definition sample_chunk :: "string \<Rightarrow> pyval" where
  "sample_chunk text = PDict [(''choices'', PList [PDict [(''delta'', PDict [(''content'', PStr text)])]])]"

definition sample_loads :: "string \<Rightarrow> pyval option" where
  "sample_loads s = map_of [(''1'', sample_chunk ''Hel''), (''2'', sample_chunk ''lo'')] s"

definition sample_platform :: platform where
  "sample_platform = \<lparr>pf_registry = openai_family sample_loads, pf_float = (\<lambda>_. None), pf_timeout = 30\<rparr>"

definition sample_deployments :: "deployment list" where
  "sample_deployments = [sample_deployment ''a'', sample_deployment ''b'']"

definition sample_router :: router where
  "sample_router = projr (router_init sample_platform sample_deployments (ByName ''lowest-latency'') 3 60 None True (\<lambda>_. 0))"

lemma sample_router_init:
  "router_init sample_platform sample_deployments (ByName ''lowest-latency'') 3 60 None True (\<lambda>_. 0) = Inr sample_router"
  by (simp add: sample_router_def router_init_def resolve_strategy_def create_strategy_def)

lemma sample_reachable: "reachable_router sample_router"
  by (rule reachable_router.init [OF _ sample_router_init]) (simp add: arg_ok_def)

lemma sample_strategy: "r_strategy sample_router = object_of (LowestLatency (1 / 10))"
  by (simp add: sample_router_def router_init_def resolve_strategy_def create_strategy_def build_model_indices_def Let_def)

definition sample_http :: "wire_request \<Rightarrow> http_reply" where
  "sample_http w =
     (if w_url w = ''http://a/chat/completions'' then Response 503 None ''busy'' (Inr PNone)
      else Response 200 None [] (Inr (PDict [(''usage'', PDict [(''completion_tokens'', PInt 5)])])))"

definition sample_stream :: "wire_request \<Rightarrow> stream_reply" where
  "sample_stream w =
     (if w_url w = ''http://a/chat/completions'' then StreamFault FTimeout
      else StreamResponse 200 None [] [''data: 1'', ''data: 2'', ''data: [DONE]''] None)"

definition sample_attempt :: attempt_env where
  "sample_attempt = \<lparr>ae_select = \<lparr>se_random = 1, se_index = 0, se_now = 0, se_clock = (\<lambda>_. 0)\<rparr>, ae_http = sample_http,
     ae_stream = sample_stream, ae_others = id, ae_clock = (\<lambda>_. 10), ae_success = (10, 10, 10)\<rparr>"

definition sample_call :: call_env where
  "sample_call = \<lparr>ce_request_id = ''r1'', ce_clock = (\<lambda>_. 10), ce_attempt = (\<lambda>_. sample_attempt)\<rparr>"

definition sample_messages :: pyval where
  "sample_messages = PList [PDict [(''role'', PStr ''user''), (''content'', PStr ''hi'')]]"

definition sample_completion :: "pyval call_result" where
  "sample_completion = completion sample_router sample_call ''gpt'' sample_messages []"

lemma sample_rely: "rely sample_call"
  by (simp add: rely_def sample_call_def sample_attempt_def)

lemma sample_attempted: "cr_attempted sample_completion = [''a'', ''b'']"
  by code_simp

lemma sample_events: "map ev_type (cr_events sample_completion) = [RequestStarted, RequestRetried, RequestSucceeded]"
  by code_simp

end
