(* ===== verification/RouterProperties.thy ===== *)
theory RouterProperties
  imports RouterDemo "HOL-Library.Multiset"
begin

text \<open>
  The properties of the model router: how its calls use the deployments and report themselves, what the
  consumer of a stream receives, and the laws of its cache, strategies and messages.
\<close>

section \<open>Calls\<close>

lemma stream_call_well:
  assumes "reachable_router r"
  shows "well_routed is_interrupt r model (ce_clock ce ''available'') (snd (stream_call K r ce model terminal messages kwargs b))"
proof -
  have "reliable (r_strategy r)" using reachable_router_ok [OF assms] by (simp add: router_ok_def reliable_def)
  then show ?thesis using reliable.stream_call_routed [of "r_strategy r" r] routed_call_well by blast
qed

lemma completion_well:
  assumes "reachable_router r"
  shows "well_routed is_cancel r model (ce_clock ce ''available'') (completion r ce model messages kwargs)"
proof -
  have "reliable (r_strategy r)" using reachable_router_ok [OF assms] by (simp add: router_ok_def reliable_def)
  then show ?thesis by (rule routed_call_well [OF reliable.completion_routed]) (rule refl)
qed

text \<open>
  C25. A call of a router tries each deployment at most once and at most one more than the configured retries, and
  only deployments of the model that were usable when the call began. The same holds for streams.
\<close>

theorem attempts_bounded:
  assumes "reachable_router r"
    and "ids \<in> {cr_attempted (completion r ce model messages kwargs), cr_attempted (snd (stream_completion r ce model messages kwargs b))}"
  shows "distinct ids \<and> int (length ids) \<le> max 0 (r_num_retries r + 1)
    \<and> set ids \<subseteq> d_id ` {d \<in> set (r_deployments r). (model = model_wildcard \<or> d_model_name d = model)
                            \<and> usable (r_state r) (ce_clock ce ''available'') (d_id d)}"
proof -
  have ok: "models_indexed r" using reachable_router_ok [OF assms(1)] by (simp add: router_ok_def)
  show ?thesis
    using assms(2) completion_well [OF assms(1), of model ce messages kwargs]
      stream_call_well [OF assms(1), of model ce raw_kind "Some model" messages kwargs b]
    by (auto simp: well_routed_def candidates_exact [OF ok] stream_completion_def)
qed

theorem attempts_bounded_witness:
  "distinct (cr_attempted sample_completion) \<and> int (length (cr_attempted sample_completion)) \<le> 4
   \<and> cr_attempted sample_completion = [''a'', ''b'']"
  using attempts_bounded [OF sample_reachable, of "cr_attempted sample_completion" sample_call "''gpt''" sample_messages "[]" None]
  by (simp add: sample_completion_def [symmetric] sample_attempted)

text \<open>
  The events of one call that has ended, by an answer or an exception, and of one replacement of the deployments; the
  flag says that nothing has kept the call from reporting its end. Three things can: a strategy that raises, an
  exception that is neither an \<open>Exception\<close> nor a cancellation, and, for a call on an explicit deployment, an answer whose token
  counts are no numbers. The calls of \<open>completion_with_fallback\<close> are calls on explicit deployments.
\<close>

definition numbered_usage :: "pyval \<Rightarrow> bool" where
  "numbered_usage response \<longleftrightarrow> token_int (usage_tokens (usage_from_response response) ''prompt_tokens'') \<noteq> None
     \<and> token_int (usage_tokens (usage_from_response response) ''completion_tokens'') \<noteq> None"

definition explicit_told :: "router \<Rightarrow> call_env \<Rightarrow> string \<Rightarrow> pyval \<Rightarrow> deployment \<Rightarrow> pdict \<Rightarrow> bool" where
  "explicit_told r ce model messages d kwargs =
     (case rbind (request_kwargs_for_deployment d kwargs) (\<lambda>kw.
           completion_at (r_platform r) (actual_model model d) messages d kw (ae_http (ce_attempt ce 0))) of
        Inl e \<Rightarrow> isinst e CException \<or> isinst e CCancelledError
      | Inr response \<Rightarrow> numbered_usage response)"

inductive call_trace :: "bool \<Rightarrow> routing_event list \<Rightarrow> bool" where
  completion: "reachable_router r \<Longrightarrow> c = completion r ce model messages kwargs
    \<Longrightarrow> call_trace (never_raises (r_strategy r) \<and> settled_result is_cancel (cr_result c)) (cr_events c)"
| stream_completion: "reachable_router r \<Longrightarrow> c = snd (stream_completion r ce model messages kwargs b)
    \<Longrightarrow> call_trace (never_raises (r_strategy r) \<and> settled_result is_interrupt (cr_result c)) (cr_events c)"
| stream: "reachable_router r \<Longrightarrow> c = snd (stream r ce name messages kwargs b)
    \<Longrightarrow> call_trace (never_raises (r_strategy r) \<and> settled_result is_interrupt (cr_result c)) (cr_events c)"
| explicit: "call_trace (explicit_told r ce model messages d kwargs) (snd (completion_on_deployment r ce model messages d kwargs))"
| update: "call_trace True (fst (update_deployments rid t running new r))"

definition left_open :: "routing_event list \<Rightarrow> bool" where
  "left_open t \<longleftrightarrow> filter is_start t \<noteq> [] \<and> filter is_terminal t = []"

definition paired :: "bool \<Rightarrow> routing_event list \<Rightarrow> bool" where
  "paired told t \<longleftrightarrow> length (filter is_start t) = length (filter is_terminal t) + (if left_open t then 1 else 0) \<and> (told \<longrightarrow> \<not> left_open t)"

lemma well_routed_paired:
  assumes "well_routed known r model now c"
  shows "paired (never_raises (r_strategy r) \<and> settled_result known (cr_result c)) (cr_events c)"
proof (cases "filter is_terminal (cr_events c)")
  case Nil
  then show ?thesis using assms by (auto simp: well_routed_def paired_def left_open_def)
next
  case (Cons e es)
  then show ?thesis using assms by (auto simp: well_routed_def paired_def left_open_def)
qed

lemma explicit_paired: "paired (explicit_told r ce model messages d kwargs) (snd (completion_on_deployment r ce model messages d kwargs))"
  by (auto simp: completion_on_deployment_def explicit_told_def numbered_usage_def paired_def left_open_def Let_def event_kind_defs
      split: sum.splits option.splits)

lemma call_trace_paired: "call_trace told t \<Longrightarrow> paired told t"
proof (induction rule: call_trace.induct)
  case (completion r c ce model messages kwargs)
  then show ?case using well_routed_paired [OF completion_well] by blast
next
  case (stream_completion r c ce model messages kwargs b)
  then show ?case unfolding stream_completion_def using well_routed_paired [OF stream_call_well] by blast
next
  case (stream r c ce name messages kwargs b)
  then show ?case
  proof (cases "resolve_model_name r name")
    case (Inl e)
    then show ?thesis using stream by (simp add: stream_def paired_def left_open_def)
  next
    case (Inr model)
    then show ?thesis using stream well_routed_paired [OF stream_call_well] by (simp add: stream_def)
  qed
next
  case (explicit r ce model messages d kwargs)
  then show ?case by (rule explicit_paired)
qed (simp add: update_deployments_def Let_def updated_event_def event_def event_kind_defs paired_def left_open_def)

text \<open>The events of \<open>completion_with_fallback\<close> are those of its calls on explicit deployments.\<close>

lemma fallback_deployments_traces:
  "\<exists>calls. list_all (\<lambda>(told, t). call_trace told t) calls \<and> fst (snd (snd (fallback_deployments r env i model messages kwargs ds))) = concat (map snd calls)"
proof (induction ds arbitrary: i)
  case Nil
  then show ?case by (intro exI [of _ "[]"]) simp
next
  case (Cons d ds)
  obtain res evs where c: "completion_on_deployment r (env i) model messages d kwargs = (res, evs)" by fastforce
  define call where "call = (explicit_told r (env i) model messages d kwargs, evs)"
  have one: "call_trace (fst call) (snd call)" using call_trace.explicit [of r "env i" model messages d kwargs] c by (simp add: call_def)
  obtain calls where more: "list_all (\<lambda>(told, t). call_trace told t) calls"
      "fst (snd (snd (fallback_deployments r env (Suc i) model messages kwargs ds))) = concat (map snd calls)" using Cons by blast
  have "fst (snd (snd (fallback_deployments r env i model messages kwargs (d # ds)))) \<in> {evs, evs @ concat (map snd calls)}"
    using c more(2) by (auto split: sum.splits prod.splits)
  then consider "fst (snd (snd (fallback_deployments r env i model messages kwargs (d # ds)))) = concat (map snd [call])"
    | "fst (snd (snd (fallback_deployments r env i model messages kwargs (d # ds)))) = concat (map snd (call # calls))" by (auto simp: call_def)
  then show ?case
  proof cases
    case 1
    then show ?thesis using one by (intro exI [of _ "[call]"]) (simp add: split_def)
  next
    case 2
    then show ?thesis using one more(1) by (intro exI [of _ "call # calls"]) (simp add: split_def)
  qed
qed

lemma fallback_traces:
  "\<exists>calls. list_all (\<lambda>(told, t). call_trace told t) calls \<and> fst (snd (fallback_models r env i models messages kwargs errs)) = concat (map snd calls)"
proof (induction models arbitrary: r i errs)
  case Nil
  then show ?case by (intro exI [of _ "[]"]) simp
next
  case (Cons model models)
  obtain deps r1 where a: "reliable_available (ce_clock (env i) ''available'') model r = (deps, r1)" by fastforce
  obtain res errs' evs j where f: "fallback_deployments r1 env i model messages kwargs deps = (res, errs', evs, j)" by (metis prod_cases4)
  obtain calls where c: "list_all (\<lambda>(told, t). call_trace told t) calls" "evs = concat (map snd calls)"
    using fallback_deployments_traces [of r1 env i model messages kwargs deps] f by auto
  obtain calls' where c': "list_all (\<lambda>(told, t). call_trace told t) calls'"
      "fst (snd (fallback_models r1 env j models messages kwargs (errs @ errs'))) = concat (map snd calls')" using Cons by blast
  obtain res2 evs2 r2 where m: "fallback_models r1 env j models messages kwargs (errs @ errs') = (res2, evs2, r2)" by (metis prod_cases3)
  show ?case
  proof (cases res)
    case None
    then have "fst (snd (fallback_models r env i (model # models) messages kwargs errs)) = concat (map snd (calls @ calls'))"
      using a f c c' m by simp
    then show ?thesis using c(1) c'(1) by (intro exI [of _ "calls @ calls'"]) simp
  next
    case (Some x)
    then show ?thesis using a f c by (intro exI [of _ calls]) simp
  qed
qed

text \<open>
  C26. The counters of the collector add up: over the events of any number of calls that have ended (completions, raw
  and typed streams, calls on explicit deployments and so with fallback models, by whatever strategies), in any
  interleaving and with any replacements of deployments among them, the requests are the successes, the failures, the
  cancellations and the calls that emitted no terminal event. Only a call whose strategy can raise is of the last kind, or one
  that ends by an exception that is neither an \<open>Exception\<close> nor a cancellation, or that got from an explicit
  deployment an answer whose token counts are no numbers.
\<close>

theorem metrics_add_up:
  assumes "list_all (\<lambda>(told, t). call_trace told t) calls" "mset es = mset (concat (map snd calls))"
  shows "mc_requests (collect es) = mc_successes (collect es) + mc_failures (collect es) + mc_cancelled (collect es)
      + int (length (filter left_open (map snd calls)))
    \<and> list_all (\<lambda>(told, t). told \<longrightarrow> \<not> left_open t) calls"
proof -
  have "length (filter is_start (concat (map snd calls))) = length (filter is_terminal (concat (map snd calls))) + length (filter left_open (map snd calls))"
    using assms(1) by (induction calls) (auto dest!: call_trace_paired simp: paired_def)
  moreover have "length (filter P es) = length (filter P (concat (map snd calls)))" for P using assms(2) by (metis mset_filter size_mset)
  ultimately have "length (filter is_start es) = length (filter is_terminal es) + length (filter left_open (map snd calls))" by simp
  moreover have "list_all (\<lambda>(told, t). told \<longrightarrow> \<not> left_open t) calls"
    using assms(1) by (auto simp: list_all_iff dest!: call_trace_paired bspec simp: paired_def)
  ultimately show ?thesis by (simp add: collect_def collect_counts terminal_kinds new_metrics_def)
qed

lemma never_raises_sample: "never_raises (r_strategy sample_router)"
  unfolding sample_strategy by (rule never_raises_builtin) simp

lemma sample_answer: "\<exists>v. cr_result sample_completion = Inr v"
proof -
  have "isl (cr_result sample_completion) = False" by code_simp
  then show ?thesis by (cases "cr_result sample_completion") simp_all
qed

text \<open>A completion that succeeds, and a call on an explicit deployment that is left open.\<close>

definition odd_usage_call :: "(router_exc + pyval) \<times> routing_event list" where
  "odd_usage_call = completion_on_deployment sample_router (sample_call\<lparr>ce_attempt := (\<lambda>_. sample_attempt\<lparr>ae_http :=
     (\<lambda>w. Response 200 None [] (Inr (PDict [(''usage'', PDict [(''completion_tokens'', PStr ''many'')])])))\<rparr>)\<rparr>)
     ''gpt'' sample_messages (sample_deployment ''a'') []"

theorem metrics_add_up_witness:
  "(let m = collect (cr_events sample_completion @ snd odd_usage_call) in
    mc_requests m = mc_successes m + mc_failures m + mc_cancelled m + 1 \<and> mc_requests m = 2)"
proof -
  let ?es = "cr_events sample_completion @ snd odd_usage_call"
  have a: "call_trace True (cr_events sample_completion)"
  proof -
    have "never_raises (r_strategy sample_router) \<and> settled_result is_cancel (cr_result sample_completion)"
      using never_raises_sample sample_answer by (auto simp: settled_result_def)
    then show ?thesis using call_trace.completion [OF sample_reachable sample_completion_def] by simp
  qed
  obtain told where b: "call_trace told (snd odd_usage_call)" unfolding odd_usage_call_def using call_trace.explicit by blast
  have still: "filter left_open [cr_events sample_completion, snd odd_usage_call] = [snd odd_usage_call]" by code_simp
  have "mc_requests (collect ?es) = 2" by code_simp
  then show ?thesis
    using metrics_add_up [of "[(True, cr_events sample_completion), (told, snd odd_usage_call)]" ?es] a b still by (simp add: Let_def)
qed

text \<open>
  C27. A deployment that a call does not fail stays usable: if its attempts raise nothing but request-side errors
  (a refused parameter, a 4xx status other than those for authentication and rate limits), the call does not put it
  into cooldown, whatever happens on the other deployments.
\<close>

theorem innocent_deployment_usable:
  assumes "reachable_router r" "usable (r_state r) t i"
    and "\<forall>k m. usable (fst m) t i \<longrightarrow> usable (fst (ae_others (ce_attempt ce k) m)) t i"
    and "\<forall>d \<in> set (r_deployments r). \<forall>e. d_id d = i \<longrightarrow> attempt_raises (r_platform r) model messages kwargs (ce_attempt ce) d e
           \<longrightarrow> is_request_side_error e"
  shows "usable (r_state (cr_router (completion r ce model messages kwargs))) t i"
proof -
  have ok: "reliable (r_strategy r)" "models_indexed r"
    using reachable_router_ok [OF assms(1)] by (simp_all add: router_ok_def reliable_def)
  have "set (candidates r model) \<subseteq> set (r_deployments r)" using candidates_exact [OF ok(2)] by auto
  then show ?thesis
    using reliable.innocent_call [OF ok(1) reliable.completion_routed [OF ok(1) refl] refl assms(2)] assms(3,4) by blast
qed

text \<open>The deployment \<open>b\<close> answers and is usable right after the call, at time 10; \<open>a\<close> has failed and is not.\<close>

lemma sample_config: "r_platform sample_router = sample_platform" "r_deployments sample_router = sample_deployments" "r_num_retries sample_router = 3"
  by (simp_all add: sample_router_def router_init_def resolve_strategy_def create_strategy_def build_model_indices_def Let_def)

lemma sample_b_answers: "\<exists>v. attempt_outcome sample_platform ''gpt'' sample_messages [] (ce_attempt sample_call k) (sample_deployment ''b'') = Inr v"
proof -
  have "isl (attempt_outcome sample_platform ''gpt'' sample_messages [] sample_attempt (sample_deployment ''b'')) = False" by code_simp
  then show ?thesis
    by (cases "attempt_outcome sample_platform ''gpt'' sample_messages [] sample_attempt (sample_deployment ''b'')") (simp_all add: sample_call_def)
qed

theorem innocent_deployment_usable_witness:
  "usable (r_state (cr_router sample_completion)) 10 ''b'' \<and> \<not> usable (r_state (cr_router sample_completion)) 10 ''a''"
proof
  have "usable (r_state sample_router) 10 ''b''" by code_simp
  moreover have "\<not> attempt_raises sample_platform ''gpt'' sample_messages [] (ce_attempt sample_call) d e"
    if "d \<in> set sample_deployments" "d_id d = ''b''" for d e
    using sample_b_answers that unfolding attempt_raises_def sample_deployments_def
    by (auto simp: sample_deployment_def [of "''a''"]) (metis Inl_Inr_False)
  ultimately show "usable (r_state (cr_router sample_completion)) 10 ''b''" unfolding sample_completion_def
    by (intro innocent_deployment_usable [OF sample_reachable]) (auto simp: sample_config, simp add: sample_call_def sample_attempt_def)
qed code_simp

text \<open>
  C28. A call succeeds whenever one usable deployment of the model answers: with a strategy that always chooses, enough
  retries for all deployments, and failures of the others that allow to go on, the result is an answer.
\<close>

theorem completion_answers:
  assumes "reachable_router r" "r_strategy r = object_of s" "raise_free s" "first_on_empty_selection s"
    and "int (length (r_deployments r)) \<le> r_num_retries r + 1"
    and "good \<in> set (r_deployments r)" "model = model_wildcard \<or> d_model_name good = model"
    and "usable (r_state r) (ce_clock ce ''available'') (d_id good)" "\<forall>d \<in> set (r_deployments r). d_id d = d_id good \<longrightarrow> d = good"
    and "\<forall>k. \<exists>v. attempt_outcome (r_platform r) model messages kwargs (ce_attempt ce k) good = Inr v"
    and "\<forall>d \<in> set (r_deployments r). \<forall>e. attempt_raises (r_platform r) model messages kwargs (ce_attempt ce) d e \<longrightarrow> recoverable (r_strategy r) e"
  shows "\<exists>v. cr_result (completion r ce model messages kwargs) = Inr v"
proof -
  have idx: "models_indexed r" using reachable_router_ok [OF assms(1)] by (simp add: router_ok_def)
  define av where "av = filter (\<lambda>d. usable (r_state r) (ce_clock ce ''available'') (d_id d)) (candidates r model)"
  define r1 where "r1 = snd (reliable_available (ce_clock ce ''available'') model r)"
  define q where "q = request_for r ce model messages kwargs (length av)"
  have sub: "set av \<subseteq> set (r_deployments r)" "length av \<le> length (r_deployments r)"
    unfolding av_def candidates_exact [OF idx] by (auto intro: order.trans [OF length_filter_le])
  have good: "good \<in> set av" using assms(6-8) by (simp add: av_def candidates_exact [OF idx])
  have same: "r_strategy r1 = object_of s" "r_platform r1 = r_platform r" using assms(2) by (simp_all add: r1_def reliable_available_spec)
  have q: "q_model q = model" "q_messages q = messages" "q_kwargs q = kwargs" "nat (q_total q) = length av"
    using sub(2) assms(5) by (simp_all add: q_def request_for_def)
  have "\<exists>v. fst (completion_loop r1 q (ce_attempt ce) (nat (q_total q)) 0 av (new_context model kwargs (ce_clock ce ''context'')) [] None (memory_of r1)) = Inr v"
    by (rule reliable_builtin.completion_loop_succeeds [OF same(1) never_raises_builtin [OF assms(3)]])
      (use assms(2,4,9-11) sub good in \<open>auto simp: same q object_of_def\<close>)
  moreover have "av \<noteq> []" using good by auto
  ultimately show ?thesis
    by (auto simp: completion_def reliable_available_spec Let_def av_def r1_def q_def split: prod.splits)
qed

theorem completion_answers_witness: "\<exists>v. cr_result sample_completion = Inr v"
proof -
  have d: "sample_deployments = [sample_deployment ''a'', sample_deployment ''b'']" by (rule sample_deployments_def)
  have u: "usable (r_state sample_router) 10 ''b''" by code_simp
  have a: "attempt_outcome sample_platform ''gpt'' sample_messages [] sample_attempt (sample_deployment ''a'') = Inl (DeploymentServerError ''a'' 503 ''busy'')"
    by code_simp
  have "recoverable (object_of (LowestLatency (1 / 10))) (DeploymentServerError ''a'' 503 ''busy'')" by code_simp
  then have "recoverable (r_strategy sample_router) e"
    if "d \<in> set sample_deployments" "attempt_raises sample_platform ''gpt'' sample_messages [] (ce_attempt sample_call) d e" for d e
    using that sample_b_answers a unfolding attempt_raises_def d sample_strategy
    by (auto simp: sample_call_def)
  then show ?thesis unfolding sample_completion_def
    by (intro completion_answers [OF sample_reachable sample_strategy, where good = "sample_deployment ''b''"])
      (use sample_b_answers u in \<open>auto simp: sample_config d, auto simp: sample_deployment_def sample_call_def\<close>)
qed

section \<open>Streams\<close>

text \<open>
  C29. Whatever deployments a typed stream tries, its consumer receives messages of one of them only, the last one
  tried: a prefix of what that deployment sent, in order, and all of it when the stream ends without an exception.
\<close>

theorem stream_has_one_source:
  assumes "stream r ce name messages kwargs b = (out, c)" "resolve_model_name r name = Inr model"
  shows "(out = [] \<and> cr_result c \<noteq> Inr ()) \<or>
    (\<exists>d k. cr_attempted c \<noteq> [] \<and> last (cr_attempted c) = d_id d \<and>
      (let sent = attempt_items (message_kind (pf_float (r_platform r))) (r_platform r) model messages (build_params kwargs) (ce_attempt ce k) d in
       prefix out sent \<and> (cr_result c = Inr () \<longrightarrow> out = sent)))"
proof -
  let ?K = "message_kind (pf_float (r_platform r))"
  define av where "av = filter (\<lambda>d. usable (r_state r) (ce_clock ce ''available'') (d_id d)) (candidates r model)"
  define r1 where "r1 = snd (reliable_available (ce_clock ce ''available'') model r)"
  define q where "q = (request_for r ce model messages (build_params kwargs) (length av))\<lparr>q_terminal_model := name\<rparr>"
  define ctx0 where "ctx0 = new_context model (build_params kwargs) (ce_clock ce ''context'')"
  obtain out' res evs ctx m where loop: "stream_loop ?K r1 q (ce_attempt ce) (nat (q_total q)) 0 av ctx0 [] None (None, 0) b (memory_of r1)
      = (out', res, evs, ctx, m)" by (metis prod_cases5)
  have ra: "reliable_available (ce_clock ce ''available'') model r = (av, r1)" by (simp add: av_def r1_def reliable_available_spec)
  have one: "single_source ?K r1 q (ce_attempt ce) (out', res, evs, ctx, m)"
    using stream_loop_single [of ?K r1 q "ce_attempt ce" "nat (q_total q)" 0 av ctx0 "[]" None "(None, 0)" b "memory_of r1"] loop by simp
  have eq: "(out, c) = (if av = [] then ([], unavailable_call q r1) else (out',
      \<lparr>cr_result = res, cr_events = started_event q StreamStarted # evs, cr_attempted = rc_attempted ctx, cr_router = with_memory m r1\<rparr>))"
    using assms(1) unfolding stream_def assms(2) sum.case stream_call_def ra Let_def prod.case q_def [symmetric] ctx0_def [symmetric] loop
    by simp
  have same: "r_platform r1 = r_platform r" "q_model q = model" "q_messages q = messages" "q_kwargs q = build_params kwargs"
    by (simp_all add: r1_def reliable_available_spec q_def request_for_def)
  show ?thesis
  proof (cases "av = []")
    case True
    then show ?thesis using eq by (simp add: unavailable_call_def)
  next
    case False
    then show ?thesis using eq one unfolding single_source_def Let_def same by auto
  qed
qed

theorem stream_has_one_source_witness:
  "(let (out, c) = stream sample_router sample_call None sample_messages [] (Some 0) in
    cr_attempted c = [''a'', ''b''] \<and> map pm_content out = [PStr ''Hel''] \<and> cr_result c = Inl generator_exit \<and>
    (\<exists>d k. d_id d = ''b'' \<and> prefix out (attempt_items (message_kind (\<lambda>_. None)) sample_platform ''gpt'' sample_messages [] (ce_attempt sample_call k) d)))"
proof -
  obtain out c where s: "stream sample_router sample_call None sample_messages [] (Some 0) = (out, c)"
    by (cases "stream sample_router sample_call None sample_messages [] (Some 0)")
  have "cr_attempted (snd (stream sample_router sample_call None sample_messages [] (Some 0))) = [''a'', ''b'']"
    "map pm_content (fst (stream sample_router sample_call None sample_messages [] (Some 0))) = [PStr ''Hel'']"
    "cr_result (snd (stream sample_router sample_call None sample_messages [] (Some 0))) = Inl generator_exit"
    by code_simp+
  moreover have "resolve_model_name sample_router None = Inr ''gpt''" by code_simp
  moreover have "pf_float sample_platform = (\<lambda>_. None)" by (simp add: sample_platform_def)
  ultimately show ?thesis using stream_has_one_source [OF s] s by (auto simp: sample_config build_params_def Let_def)
qed

text \<open>
  C30. A stream of server-sent events is read to its end without an exception exactly when it was complete: when its
  \<open>[DONE]\<close> line was seen, or when the connection ended normally after a chunk with a finish signal. A stream that is
  cut off is never taken for a complete one.
\<close>

theorem truncated_stream_detected:
  "snd (iter_stream_events loads lines fin) = None \<longleftrightarrow>
     list_ex done_line lines \<or> (fin = None \<and> list_ex chunk_has_finish_signal (fst (iter_stream_events loads lines fin)))"
  by (simp add: iter_stream_events_def sse_loop_complete)

section \<open>Cache, strategies and messages\<close>

lemma lru_run_bound:
  assumes "lru_run cfg ops m n as m'" "0 < cc_max_size cfg" "int (card (dom m)) \<le> cc_max_size cfg" "finite (dom m)"
  shows "int (card (dom m')) \<le> cc_max_size cfg"
  using assms
proof (induction rule: lru_run.induct)
  case (step op now m n a m' ops as m'')
  then show ?case using lru_step_bound [OF step(1)] by simp
qed

text \<open>
  C31. The response cache is a least-recently-used cache: every run of operations on an empty cache gives the answers
  of an abstract cache that evicts the entry whose last use is longest ago, holds the same entries at the end, and
  never more than its bound.
\<close>

theorem cache_is_lru:
  assumes "0 < cc_max_size cfg"
  shows "\<exists>m. lru_run cfg ops (\<lambda>_. None) 0 (fst (cache_run cfg ops [])) m
    \<and> (\<forall>k. map_of (snd (cache_run cfg ops [])) k = map_option fst (m k))
    \<and> int (length (snd (cache_run cfg ops []))) \<le> cc_max_size cfg"
proof -
  have "cache_rel [] (\<lambda>_. None) 0" by (simp add: cache_rel_def)
  then obtain m where m: "lru_run cfg ops (\<lambda>_. None) 0 (fst (cache_run cfg ops [])) m" "cache_rel (snd (cache_run cfg ops [])) m (0 + length ops)"
    using cache_run_refines [OF _ assms] by blast
  then show ?thesis using cache_relD(2,7) [OF m(2)] lru_run_bound [OF m(1) assms] assms by (intro exI [of _ m]) simp
qed

theorem cache_is_lru_witness:
  "fst (cache_run \<lparr>cc_max_size = 1, cc_default_ttl = 60\<rparr> [(SetCache ''x'' (1::int) None, 0), (SetCache ''y'' 2 None, 1), (GetCache ''x'', 2)] [])
     = [Done, Done, Value None] \<and>
   (\<exists>m. lru_run \<lparr>cc_max_size = 1, cc_default_ttl = 60\<rparr> [(SetCache ''x'' (1::int) None, 0), (SetCache ''y'' 2 None, 1), (GetCache ''x'', 2)]
     (\<lambda>_. None) 0 [Done, Done, Value None] m)"
proof -
  have run: "fst (cache_run \<lparr>cc_max_size = 1, cc_default_ttl = 60\<rparr>
      [(SetCache ''x'' (1::int) None, 0), (SetCache ''y'' 2 None, 1), (GetCache ''x'', 2)] []) = [Done, Done, Value None]"
    by code_simp
  have "0 < cc_max_size \<lparr>cc_max_size = 1, cc_default_ttl = 60\<rparr>" by simp
  from cache_is_lru [OF this, of "[(SetCache ''x'' (1::int) None, 0), (SetCache ''y'' 2 None, 1), (GetCache ''x'', 2)]"]
  show ?thesis unfolding run by blast
qed

text \<open>
  C32. When it does not explore at random, the latency strategy chooses a deployment with the lowest average latency,
  the token strategy one with the most tokens left, and the rate strategy one with the most requests left, among
  all deployments it is given; the thresholds of the latter two play no part in it.
\<close>

theorem strategies_optimal:
  assumes "explore \<le> se_random env" "y \<in> set deps"
  shows "(select_lowest_latency explore env deps st = Some d \<longrightarrow> get_average_latency st (d_id d) \<le> get_average_latency st (d_id y))
    \<and> (select_token_aware n explore env deps st = Some d \<longrightarrow> get_token_remaining st (d_id y) \<le> get_token_remaining st (d_id d))
    \<and> (select_rate_aware n explore env deps st = Some d \<longrightarrow>
         get_rpm_remaining (se_clock env (d_id y)) st (d_id y) \<le> get_rpm_remaining (se_clock env (d_id d)) st (d_id d))"
proof (intro conjI impI)
  show "select_lowest_latency explore env deps st = Some d \<Longrightarrow> get_average_latency st (d_id d) \<le> get_average_latency st (d_id y)"
    by (rule lowest_latency_min [OF _ assms])
  show "select_token_aware n explore env deps st = Some d \<Longrightarrow> get_token_remaining st (d_id y) \<le> get_token_remaining st (d_id d)"
    using assms select_remaining_max [of deps n "\<lambda>d. get_token_remaining st (d_id d)" d y]
    by (auto simp: select_token_aware_def split: if_splits)
  show "select_rate_aware n explore env deps st = Some d \<Longrightarrow>
      get_rpm_remaining (se_clock env (d_id y)) st (d_id y) \<le> get_rpm_remaining (se_clock env (d_id d)) st (d_id d)"
    using assms select_remaining_max [of deps n "\<lambda>d. get_rpm_remaining (se_clock env (d_id d)) st (d_id d)" d y]
    by (auto simp: select_rate_aware_def split: if_splits)
qed

text \<open>After the sample call \<open>b\<close> has used 5 of its 1000 tokens, so that the token strategy now prefers \<open>a\<close>.\<close>

theorem strategies_optimal_witness:
  "select_token_aware 1000 0 (ae_select sample_attempt) sample_deployments (r_state (cr_router sample_completion)) = Some (sample_deployment ''a'')
   \<and> get_token_remaining (r_state (cr_router sample_completion)) ''b'' \<le> get_token_remaining (r_state (cr_router sample_completion)) ''a''"
proof -
  have "(0::rat) \<le> se_random (ae_select sample_attempt)" "sample_deployment ''b'' \<in> set sample_deployments"
    by (simp_all add: sample_attempt_def sample_deployments_def)
  moreover have "select_token_aware 1000 0 (ae_select sample_attempt) sample_deployments (r_state (cr_router sample_completion)) = Some (sample_deployment ''a'')"
    by code_simp
  moreover have "d_id (sample_deployment i) = i" for i by (simp add: sample_deployment_def)
  ultimately show ?thesis using strategies_optimal by metis
qed

text \<open>
  Merging the chunks of a stream does not depend on the grouping: adding a chunk to the sum of the chunks before it
  is the same as adding the sum of the later chunks, for contents, tool calls, usage and metadata alike.
\<close>

theorem chunk_merge_associative:
  assumes "keys_distinct (ch_provider_metadata b)"
  shows "chunk_add (chunk_add a b) c = chunk_add a (chunk_add b c)"
  by (rule chunk_add_assoc [OF assms])

definition sample_message_chunk :: "string \<Rightarrow> message_chunk" where
  "sample_message_chunk text = \<lparr>ch_content = text, ch_reasoning = None, ch_tool_calls = None, ch_usage = None, ch_finish = None,
     ch_parser_content = PNone, ch_prompt_ids = None, ch_completion_ids = None, ch_logprobs = PNone, ch_response_id = None,
     ch_response_model = None, ch_provider_metadata = [(''status'', PStr ''ok'')], ch_provider_content = PNone\<rparr>"

theorem chunk_merge_associative_witness:
  "chunk_add (chunk_add (sample_message_chunk ''a'') (sample_message_chunk ''b'')) (sample_message_chunk ''c'')
     = chunk_add (sample_message_chunk ''a'') (chunk_add (sample_message_chunk ''b'') (sample_message_chunk ''c''))
   \<and> ch_content (chunk_add (chunk_add (sample_message_chunk ''a'') (sample_message_chunk ''b'')) (sample_message_chunk ''c'')) = ''abc''"
proof
  have "keys_distinct (ch_provider_metadata (sample_message_chunk ''b''))" by (simp add: sample_message_chunk_def)
  then show "chunk_add (chunk_add (sample_message_chunk ''a'') (sample_message_chunk ''b'')) (sample_message_chunk ''c'')
     = chunk_add (sample_message_chunk ''a'') (chunk_add (sample_message_chunk ''b'') (sample_message_chunk ''c''))"
    by (rule chunk_merge_associative)
qed code_simp

section \<open>States\<close>

text \<open>
  C33. Every router that its operations lead to is well-formed: its model index is that of its deployments, which its
  health checker shares; the dictionaries of its state have one entry per deployment, a deployment in cooldown has a
  time, at most ten latencies are kept, and the two session tables have the same keys.
\<close>

theorem reachable_routers_well_formed:
  assumes "reachable_router r"
  shows "r_indices r = index_models 0 (r_deployments r) [] \<and> state_ok (r_state r) \<and> state_ok (fst (r_own r))
    \<and> (\<forall>deps. r_checker r = Some deps \<longrightarrow> deps = r_deployments r)"
  using reachable_router_ok [OF assms] by (simp add: router_ok_def models_indexed_def memory_ok_def memory_of_def)

theorem reachable_routers_well_formed_witness:
  "state_ok (r_state (cr_router sample_completion)) \<and> rs_status (r_state (cr_router sample_completion)) = [(''a'', Cooldown), (''b'', Healthy)]"
proof
  have "reachable_router (cr_router sample_completion)"
    unfolding sample_completion_def by (rule reachable_router.completion [OF sample_reachable sample_rely])
  from reachable_routers_well_formed [OF this] show "state_ok (r_state (cr_router sample_completion))" by simp
qed code_simp

section \<open>Behaviour against the documentation\<close>

lemma map_of_dict_merge: "map_of (dict_merge a b) k = (case map_of (rev b) k of Some v \<Rightarrow> Some v | None \<Rightarrow> map_of a k)"
  by (induction b arbitrary: a rule: rev_induct) (auto simp: dict_merge_def)

lemma map_of_rev_None: "map_of (rev b) k = None \<longleftrightarrow> map_of b k = None"
  by (simp add: map_of_eq_None_iff)

lemma request_kwargs_lookup:
  assumes "request_kwargs_for_deployment d kwargs = Inr kw"
  shows "k \<in> set routing_internal_keys \<Longrightarrow> map_of kw k = None"
    and "map_of (d_request_defaults d) k = None \<Longrightarrow> map_of kwargs k = None \<Longrightarrow> map_of kw k = None"
proof -
  let ?a = "filter (\<lambda>(k, _). k \<notin> set routing_internal_keys) (d_request_defaults d)"
  let ?b = "filter (\<lambda>(k, v). v \<noteq> PNone \<and> k \<notin> set routing_internal_keys) kwargs"
  have kw: "kw = dict_merge ?a ?b" using assms by (simp add: request_kwargs_for_deployment_def Let_def split: if_splits)
  show "k \<in> set routing_internal_keys \<Longrightarrow> map_of kw k = None"
    unfolding kw by (force simp: map_of_dict_merge map_of_eq_None_iff split: option.splits)
  show "map_of (d_request_defaults d) k = None \<Longrightarrow> map_of kwargs k = None \<Longrightarrow> map_of kw k = None"
    unfolding kw by (force simp: map_of_dict_merge map_of_eq_None_iff split: option.splits)
qed

lemma map_messages_keys:
  assumes "map_messages f body = Inr body'" "k \<noteq> ''messages''"
  shows "map_of body' k = map_of body k"
  using assms by (auto simp: map_messages_def rbind_Inr_iff)

text \<open>
  Through the reliable router the cache sharing of the affinity provider is never requested: the router removes
  the session from the parameters of a call before the adapter looks for it, so that no body carries a cache salt
  unless the caller wrote one himself.
\<close>

theorem cache_sharing_never_requested:
  assumes "request_kwargs_for_deployment d kwargs = Inr kw" "affinity_transform_request model messages kw = Inr (PDict body)"
    and "map_of kwargs ''cache_salt'' = None" "map_of (d_request_defaults d) ''cache_salt'' = None"
  shows "map_of body ''cache_salt'' = None"
proof -
  have no: "dget kw ''session_id'' = PNone"
    using request_kwargs_lookup(1) [OF assms(1), of "''session_id''"] by (simp add: routing_internal_keys_def dget_or_def)
  have salt: "map_of kw ''cache_salt'' = None" by (rule request_kwargs_lookup(2) [OF assms(1,4,3)])
  define rest where "rest = AList.delete ''return_token_ids'' (AList.delete ''enable_cache_sharing'' (AList.delete ''session_id'' kw))"
  obtain b1 where b1: "map_messages sanitize_message (base_transform_request model messages rest) = Inr b1"
      and body: "body = affinity_body PNone (dget_or kw ''enable_cache_sharing'' (PBool False)) (dget kw ''return_token_ids'') b1"
    using assms(2) no by (auto simp: affinity_transform_request_def rest_def Let_def rbind_Inr_iff)
  have "map_of b1 ''cache_salt'' = map_of (dict_merge [(''model'', PStr model), (''messages'', messages)] rest) ''cache_salt''"
    using map_messages_keys [OF b1, of "''cache_salt''"] by (simp add: base_transform_request_def)
  also have "\<dots> = None"
  proof -
    have "map_of rest ''cache_salt'' = None" using salt by (simp add: rest_def)
    then have "map_of (rev rest) ''cache_salt'' = None" by (simp only: map_of_rev_None)
    then show ?thesis by (simp add: map_of_dict_merge)
  qed
  finally show ?thesis by (simp add: body affinity_body_def Let_def)
qed

definition affinity_kwargs :: pdict where
  "affinity_kwargs = [(''session_id'', PStr ''s1''), (''enable_cache_sharing'', PBool True)]"

text \<open>A direct call of the adapter does set the salt; through the router it is lost.\<close>

theorem cache_sharing_never_requested_witness:
  "(\<exists>body. affinity_transform_request ''m'' sample_messages affinity_kwargs = Inr (PDict body) \<and> map_of body ''cache_salt'' = Some (PStr ''s1''))
   \<and> (\<exists>kw body. request_kwargs_for_deployment (sample_deployment ''a'') affinity_kwargs = Inr kw
        \<and> affinity_transform_request ''m'' sample_messages kw = Inr (PDict body) \<and> map_of body ''cache_salt'' = None)"
proof
  have d: "affinity_transform_request ''m'' sample_messages affinity_kwargs =
      Inr (PDict [(''model'', PStr ''m''), (''messages'', sample_messages), (''cache_sharing'', PBool True), (''cache_salt'', PStr ''s1'')])"
    by code_simp
  show "\<exists>body. affinity_transform_request ''m'' sample_messages affinity_kwargs = Inr (PDict body) \<and> map_of body ''cache_salt'' = Some (PStr ''s1'')"
    unfolding d by simp
  have kw: "request_kwargs_for_deployment (sample_deployment ''a'') affinity_kwargs = Inr [(''enable_cache_sharing'', PBool True)]" by code_simp
  have b: "affinity_transform_request ''m'' sample_messages [(''enable_cache_sharing'', PBool True)] =
      Inr (PDict [(''model'', PStr ''m''), (''messages'', sample_messages)])" by code_simp
  have "map_of [(''model'', PStr ''m''), (''messages'', sample_messages)] ''cache_salt'' = None"
    by (rule cache_sharing_never_requested [OF kw b]) (simp_all add: affinity_kwargs_def sample_deployment_def)
  then show "\<exists>kw body. request_kwargs_for_deployment (sample_deployment ''a'') affinity_kwargs = Inr kw
        \<and> affinity_transform_request ''m'' sample_messages kw = Inr (PDict body) \<and> map_of body ''cache_salt'' = None"
    using kw b by blast
qed

text \<open>
  An exception of the strategy is not reported: with the tag strategy a call whose tags are no collection emits
  its start event and then raises \<open>TypeError\<close> without a terminal event, so that the collector counts a request that never ends.
\<close>

theorem strategy_error_unreported:
  assumes "r_strategy r = object_of (TagBased inner)" "map_of kwargs ''tags'' = Some (PInt n)" "n \<noteq> 0" "0 \<le> r_num_retries r"
    and "filter (\<lambda>d. usable (r_state r) (ce_clock ce ''available'') (d_id d)) (candidates r model) \<noteq> []"
  shows "(\<exists>text. cr_result (completion r ce model messages kwargs) = Inl (Other CTypeError text))
    \<and> map ev_type (cr_events (completion r ce model messages kwargs)) = [RequestStarted]
    \<and> mc_requests (collect (cr_events (completion r ce model messages kwargs))) = 1
    \<and> filter is_terminal (cr_events (completion r ce model messages kwargs)) = []"
proof -
  define av where "av = filter (\<lambda>d. usable (r_state r) (ce_clock ce ''available'') (d_id d)) (candidates r model)"
  define q where "q = request_for r ce model messages kwargs (length av)"
  define r1 where "r1 = r\<lparr>r_state := snd (available_scan (ce_clock ce ''available'') (candidates r model) (r_state r))\<rparr>"
  define ctx0 where "ctx0 = new_context model kwargs (ce_clock ce ''context'')"
  have av: "av \<noteq> []" using assms(5) by (simp add: av_def)
  have "get_request_tags ctx0 = Inl (Other CTypeError ''object is not iterable'')"
    using assms(2,3) by (simp add: get_request_tags_def ctx0_def new_context_def dget_or_def)
  then have ch: "choose_deployment (object_of (TagBased inner)) env av ctx0 m = (Inl (Other CTypeError ''object is not iterable''), m)" for env m
    using av by (simp add: choose_deployment_def run_select_def object_of_def)
  have "q_total q > 0" using av assms(4) by (simp add: q_def)
  then obtain n' where n: "nat (q_total q) = Suc n'" by (metis Suc_pred zero_less_nat_eq)
  have "completion r ce model messages kwargs = \<lparr>cr_result = Inl (Other CTypeError ''object is not iterable''),
      cr_events = [started_event q RequestStarted], cr_attempted = rc_attempted ctx0, cr_router = with_memory (memory_of r1) r1\<rparr>"
  proof -
    have ra: "reliable_available (ce_clock ce ''available'') model r = (av, r1)" by (simp add: av_def r1_def reliable_available_spec)
    have s1: "r_strategy r1 = object_of (TagBased inner)" using assms(1) by (simp add: r1_def)
    show ?thesis unfolding completion_def ra Let_def prod.case q_def [symmetric] ctx0_def [symmetric] n completion_loop.simps s1 ch sum.case
      using av by simp
  qed
  then show ?thesis by (simp add: event_kind_defs collect_def handle_event_counts new_metrics_def)
qed

definition tagged_router :: "strategy \<Rightarrow> deployment list \<Rightarrow> router" where
  "tagged_router s deps = projr (router_init sample_platform deps (Given (object_of s) (new_state, 0)) 3 60 None False (\<lambda>_. 0))"

theorem strategy_error_unreported_witness:
  "\<exists>text. cr_result (completion (tagged_router (TagBased (SimpleShuffle [] 1)) sample_deployments) sample_call ''gpt'' sample_messages [(''tags'', PInt 5)])
     = Inl (Other CTypeError text)"
proof -
  let ?r = "tagged_router (TagBased (SimpleShuffle [] 1)) sample_deployments"
  have r: "r_strategy ?r = object_of (TagBased (SimpleShuffle [] 1))" "r_num_retries ?r = 3"
    by (simp_all add: tagged_router_def router_init_def resolve_strategy_def build_model_indices_def Let_def)
  have "filter (\<lambda>d. usable (r_state ?r) (ce_clock sample_call ''available'') (d_id d)) (candidates ?r ''gpt'') \<noteq> []" by code_simp
  from strategy_error_unreported [OF r(1) _ _ _ this, of "[(''tags'', PInt 5)]" 5 sample_messages] show ?thesis using r(2) by simp
qed

text \<open>
  One failed attempt may be counted twice: with the tag filter the attempt on \<open>a\<close>, the only deployment with the tag,
  is followed by a retry event, since another deployment is left, and then by a terminal event that names \<open>a\<close> again,
  since the filter finds no further deployment.
\<close>

definition tag_sample :: "deployment list" where
  "tag_sample = [sample_deployment ''a''\<lparr>d_fallback_tag := Some ''t''\<rparr>, sample_deployment ''b'']"

lemma failed_attempt_counted_twice:
  "cr_attempted (completion (tagged_router (TagFiltered (Some ''t'') OrderedFailover) tag_sample) sample_call ''gpt'' sample_messages []) = [''a'']"
  "count_of (dm_requests (mc_by_deployment (collect (cr_events
     (completion (tagged_router (TagFiltered (Some ''t'') OrderedFailover) tag_sample) sample_call ''gpt'' sample_messages []))))) ''a'' = 2"
  by code_simp+

text \<open>
  A typed stream without a model name that fails after its first visible message reports its end for no model,
  although its start was reported for the model it was resolved to.
\<close>

definition broken_stream :: "wire_request \<Rightarrow> stream_reply" where
  "broken_stream w = StreamResponse 200 None [] [''data: 1''] None"

definition broken_call :: call_env where
  "broken_call = sample_call\<lparr>ce_attempt := (\<lambda>_. sample_attempt\<lparr>ae_stream := broken_stream\<rparr>)\<rparr>"

lemma stream_failure_without_model:
  "map (\<lambda>e. (ev_type e, ev_model e)) (cr_events (snd (stream sample_router broken_call None sample_messages [] None)))
   = [(StreamStarted, Some ''gpt''), (StreamRouteSelected, Some ''gpt''), (AllDeploymentsExhausted, None)]"
  by code_simp

text \<open>
  A raw stream whose usage is no number fails after its held-back chunks were handed out; the next deployment then
  sends its chunks again.
\<close>

definition usage_loads :: "string \<Rightarrow> pyval option" where
  "usage_loads s = Some (PDict [(''choices'', PList [PDict [(''delta'', PDict [(''role'', PStr ''assistant'')])]]),
     (''usage'', PDict [(''completion_tokens'', PStr ''many'')])])"

definition usage_router :: router where
  "usage_router = sample_router\<lparr>r_platform := sample_platform\<lparr>pf_registry := openai_family usage_loads\<rparr>\<rparr>"

definition usage_call :: call_env where
  "usage_call = sample_call\<lparr>ce_attempt := (\<lambda>_. sample_attempt\<lparr>ae_stream := (\<lambda>w. StreamResponse 200 None [] [''data: x'', ''data: [DONE]''] None)\<rparr>)\<rparr>"

lemma raw_stream_repeats_header:
  "length (fst (stream_completion usage_router usage_call ''gpt'' sample_messages [] None)) = 2"
  "cr_attempted (snd (stream_completion usage_router usage_call ''gpt'' sample_messages [] None)) = [''a'', ''b'']"
  by code_simp+

text \<open>An explicit deployment that answers with such a usage leaves the request open.\<close>

definition usage_http :: "wire_request \<Rightarrow> http_reply" where
  "usage_http w = Response 200 None [] (Inr (PDict [(''usage'', PDict [(''completion_tokens'', PStr ''many'')])]))"

lemma explicit_call_left_open:
  "map ev_type (snd (completion_on_deployment sample_router (sample_call\<lparr>ce_attempt := (\<lambda>_. sample_attempt\<lparr>ae_http := usage_http\<rparr>)\<rparr>)
     ''gpt'' sample_messages (sample_deployment ''a'') [])) = [RequestStarted]"
  by code_simp

text \<open>A cache whose bound is not positive fails on its first entry.\<close>

lemma cache_without_room: "fst (set_cache \<lparr>cc_max_size = 0, cc_default_ttl = 60\<rparr> ''k'' v None 0 []) = Inl (Other CKeyError ''dictionary is empty'')"
  by (simp add: set_cache_def)

section \<open>Replacing deployments\<close>

text \<open>
  After a replacement the router has the new deployments, finds them by model, and keeps of its state exactly what
  belongs to no removed deployment; the collector forgets the removed ones as well.
\<close>

lemma update_deployments_exact:
  assumes "update_deployments rid t running new r = (evs, r')"
  defines "gone \<equiv> set (ids_of (r_deployments r)) - set (ids_of new)"
  shows "get_deployments_for_model r' model = filter (\<lambda>d. d_model_name d = model) new"
    and "map_of (rs_latencies (r_state r')) i = (if i \<in> gone then None else map_of (rs_latencies (r_state r)) i)"
    and "usable (r_state r') now i \<longleftrightarrow> i \<in> gone \<or> usable (r_state r) now i"
proof -
  have r': "r' = (build_model_indices (r\<lparr>r_deployments := new, r_checker := map_option (\<lambda>_. new) (r_checker r)\<rparr>))
     \<lparr>r_state := sync_quota_state new (remove_all (removed_ids (r_deployments r) new) (r_state r))\<rparr>"
    using update_router [of rid t running new r] assms(1) by simp
  have gone: "set (removed_ids (r_deployments r) new) = gone" by (auto simp: removed_ids_def gone_def)
  show "get_deployments_for_model r' model = filter (\<lambda>d. d_model_name d = model) new"
    using get_deployments_for_model_exact [of "r\<lparr>r_deployments := new, r_checker := map_option (\<lambda>_. new) (r_checker r)\<rparr>" model]
    by (simp add: r' get_deployments_for_model_def build_model_indices_def)
  show "map_of (rs_latencies (r_state r')) i = (if i \<in> gone then None else map_of (rs_latencies (r_state r)) i)"
    by (simp add: r' remove_all_fields gone)
  show "usable (r_state r') now i \<longleftrightarrow> i \<in> gone \<or> usable (r_state r) now i"
    using remove_all_usable [of "removed_ids (r_deployments r) new" "r_state r" now i] by (simp add: r' gone usable_def cooldown_time_of_def)
qed

end
