(* ===== verification/AuthStore.thy ===== *)
theory AuthStore
  imports PyValue
begin

text \<open>
  The credential store of the registry (\<open>auth/store.py\<close>, \<open>auth/models.py\<close>, \<open>auth/tokens.py\<close>): principals and their API
  keys in memory with the index by hash, the two files they are written to, the audit log, and the operations of
  the store. SHA-256 is the parameter \<open>sha\<close> (the hex digest of a text); what the random source and the clock
  deliver is the argument \<open>fresh\<close>. A file holds the dumps of its objects, so that a file is the list of them; writes to disk succeed.
\<close>

section \<open>Principals, keys and contexts\<close>

record principal =
  pr_id :: string
  pr_handle :: string
  pr_role :: string
  pr_namespaces :: "string list option"
  pr_created_at :: string
  pr_disabled_at :: "string option"
  pr_note :: string

record api_key =
  ak_id :: string
  ak_principal :: string
  ak_hash :: string
  ak_prefix :: string
  ak_name :: string
  ak_created_at :: string
  ak_expires_at :: "string option"
  ak_last_used_at :: "string option"
  ak_revoked_at :: "string option"

text \<open>\<open>AuthContext\<close>; the frozen set of namespaces is a list read by membership only.\<close>

record auth_context =
  ac_principal :: string
  ac_role :: string
  ac_namespaces :: "string list option"

definition is_admin :: "auth_context \<Rightarrow> bool" where
  "is_admin c \<longleftrightarrow> ac_role c = ''admin''"

definition valid_roles :: "string list" where
  "valid_roles = [''admin'', ''provider'', ''user'']"

definition to_context :: "principal \<Rightarrow> auth_context" where
  "to_context p = \<lparr>ac_principal = pr_id p, ac_role = pr_role p, ac_namespaces = pr_namespaces p\<rparr>"

definition is_disabled :: "principal \<Rightarrow> bool" where
  "is_disabled p \<longleftrightarrow> pr_disabled_at p \<noteq> None"

definition is_revoked :: "api_key \<Rightarrow> bool" where
  "is_revoked k \<longleftrightarrow> ak_revoked_at k \<noteq> None"

definition token_start :: string where
  "token_start = ''a2x_pat_''"

definition display_prefix_len :: nat where
  "display_prefix_len = length token_start + 4"

definition generate_token :: "string \<Rightarrow> string" where
  "generate_token body = token_start @ body"

definition token_prefix :: "string \<Rightarrow> string" where
  "token_prefix token = take display_prefix_len token"

definition new_id :: "string \<Rightarrow> string \<Rightarrow> string" where
  "new_id prefix hex = prefix @ ''_'' @ hex"

text \<open>The draws of the random source in one operation and the readings of the clock, by what they are used for.\<close>

record fresh =
  fr_principal :: string
  fr_key :: string
  fr_token :: string
  fr_clock :: "string \<Rightarrow> string"

section \<open>The store\<close>

record credentials =
  cs_principals :: "(string \<times> principal) list"
  cs_keys :: "(string \<times> api_key) list"
  cs_by_hash :: "(string \<times> string) list"

text \<open>An audit record: the event and its fields; a field may be null.\<close>

type_synonym audit_entry = "string \<times> (string \<times> string option) list"

text \<open>What the store keeps outside the process: its files and the audit log.\<close>

record auth_disk =
  af_principals :: "principal list option"
  af_keys :: "api_key list option"
  ad_audit :: "audit_entry list"

definition audit :: "string \<Rightarrow> (string \<times> string option) list \<Rightarrow> auth_disk \<Rightarrow> auth_disk" where
  "audit event fs dk = dk\<lparr>ad_audit := ad_audit dk @ [(event, fs)]\<rparr>"

definition persist_principals :: "credentials \<Rightarrow> auth_disk \<Rightarrow> auth_disk" where
  "persist_principals cs dk = dk\<lparr>af_principals := Some (map snd (cs_principals cs))\<rparr>"

definition persist_keys :: "credentials \<Rightarrow> auth_disk \<Rightarrow> auth_disk" where
  "persist_keys cs dk = dk\<lparr>af_keys := Some (map snd (cs_keys cs))\<rparr>"

definition no_credentials :: credentials where
  "no_credentials = \<lparr>cs_principals = [], cs_keys = [], cs_by_hash = []\<rparr>"

definition add_key :: "api_key \<Rightarrow> credentials \<Rightarrow> credentials" where
  "add_key k cs = cs\<lparr>cs_keys := AList.update (ak_id k) k (cs_keys cs),
                     cs_by_hash := AList.update (ak_hash k) (ak_id k) (cs_by_hash cs)\<rparr>"

definition put_principal :: "principal \<Rightarrow> credentials \<Rightarrow> credentials" where
  "put_principal p cs = cs\<lparr>cs_principals := AList.update (pr_id p) p (cs_principals cs)\<rparr>"

definition load_from_disk :: "auth_disk \<Rightarrow> credentials" where
  "load_from_disk dk = fold add_key (case af_keys dk of None \<Rightarrow> [] | Some ks \<Rightarrow> ks)
     (fold put_principal (case af_principals dk of None \<Rightarrow> [] | Some ps \<Rightarrow> ps) no_credentials)"

definition load_auth_store :: "auth_disk \<Rightarrow> credentials option" where
  "load_auth_store dk = (if af_principals dk = None then None else Some (load_from_disk dk))"

text \<open>A new key; both kinds of identifiers and the token come from \<open>fresh\<close>.\<close>

definition new_api_key :: "(string \<Rightarrow> string) \<Rightarrow> fresh \<Rightarrow> string \<Rightarrow> string \<Rightarrow> string \<Rightarrow> api_key" where
  "new_api_key sha fr token owner name =
     \<lparr>ak_id = new_id ''k'' (fr_key fr), ak_principal = owner, ak_hash = sha token, ak_prefix = token_prefix token,
      ak_name = name, ak_created_at = fr_clock fr ''key'', ak_expires_at = None, ak_last_used_at = None, ak_revoked_at = None\<rparr>"

definition created_entries :: "principal \<Rightarrow> api_key \<Rightarrow> string option \<Rightarrow> auth_disk \<Rightarrow> auth_disk" where
  "created_entries p k by dk =
     audit ''key.created'' [(''key_id'', Some (ak_id k)), (''principal_id'', Some (pr_id p)), (''key_prefix'', Some (ak_prefix k)), (''by'', by)]
       (audit ''principal.created'' [(''principal_id'', Some (pr_id p)), (''role'', Some (pr_role p)), (''by'', by)] dk)"

definition bootstrap ::
  "(string \<Rightarrow> string) \<Rightarrow> fresh \<Rightarrow> string option \<Rightarrow> string \<Rightarrow> auth_disk \<Rightarrow> (exc + credentials \<times> string) \<times> auth_disk" where
  "bootstrap sha fr admin_token handle dk =
     (if af_principals dk \<noteq> None then (Inl (FileExistsError ''Auth already initialized''), dk)
      else
        let token = (case admin_token of None \<Rightarrow> generate_token (fr_token fr)
                     | Some t \<Rightarrow> if t = [] then generate_token (fr_token fr) else t) in
        if \<not> starts_with token_start token then (Inl (ValueError ''admin_token must start with a2x_pat_''), dk)
        else
          let p = \<lparr>pr_id = new_id ''u'' (fr_principal fr), pr_handle = handle, pr_role = ''admin'', pr_namespaces = None,
                   pr_created_at = fr_clock fr ''principal'', pr_disabled_at = None, pr_note = ''Bootstrap admin (root)''\<rparr>;
              k = new_api_key sha fr token (pr_id p) ''bootstrap'';
              cs = add_key k (put_principal p no_credentials) in
          (Inr (cs, token), created_entries p k (Some ''bootstrap'') (persist_keys cs (persist_principals cs dk))))"

section \<open>Authentication\<close>

definition touch_key :: "string \<Rightarrow> string \<Rightarrow> api_key \<Rightarrow> credentials \<Rightarrow> credentials" where
  "touch_key now kid k cs = cs\<lparr>cs_keys := AList.update kid (k\<lparr>ak_last_used_at := Some now\<rparr>) (cs_keys cs)\<rparr>"

definition failed :: "string \<Rightarrow> (string \<times> string option) list \<Rightarrow> auth_disk \<Rightarrow> auth_disk" where
  "failed reason fs dk = audit ''auth.failed'' ((''reason'', Some reason) # fs) dk"

text \<open>\<open>authenticate\<close>: the text of an \<open>AuthenticationError\<close> or the context of the caller.\<close>

definition authenticate ::
  "(string \<Rightarrow> string) \<Rightarrow> string \<Rightarrow> string \<Rightarrow> credentials \<Rightarrow> auth_disk \<Rightarrow> (string + auth_context) \<times> credentials \<times> auth_disk" where
  "authenticate sha now token cs dk =
     (if token = [] then (Inl ''Empty or non-string token'', cs, failed ''empty_token'' [] dk)
      else if \<not> starts_with token_start token
      then (Inl ''Token has wrong prefix'', cs, failed ''wrong_prefix'' [(''key_prefix'', Some (take 12 token))] dk)
      else case map_of (cs_by_hash cs) (sha token) of
        None \<Rightarrow> (Inl ''Invalid API key'', cs, failed ''invalid_token'' [(''key_prefix'', Some (token_prefix token))] dk)
      | Some kid \<Rightarrow>
          (case Option.bind (map_of (cs_keys cs) kid) (\<lambda>k. map_option (Pair k) (map_of (cs_principals cs) (ak_principal k))) of
             None \<Rightarrow> (Inl ''Key references a missing principal'', cs,
                      failed ''dangling_key'' [(''key_id'', Some kid), (''key_prefix'', Some (token_prefix token))] dk)
           | Some (k, p) \<Rightarrow>
               if ak_hash k \<noteq> sha token
               then (Inl ''Hash mismatch'', cs, failed ''hash_mismatch'' [(''key_id'', Some (ak_id k))] dk)
               else if is_revoked k
               then (Inl ''API key has been revoked'', cs, failed ''revoked'' [(''key_id'', Some (ak_id k))] dk)
               else if is_disabled p
               then (Inl (''Principal '' @ pr_handle p @ '' is disabled''), cs,
                     failed ''principal_disabled'' [(''principal_id'', Some (pr_id p)), (''key_id'', Some (ak_id k))] dk)
               else (Inr (to_context p), touch_key now kid k cs, dk)))"

section \<open>Principals and keys\<close>

text \<open>The role and namespace rule of both creation and update.\<close>

definition role_error :: "string \<Rightarrow> string list option \<Rightarrow> exc option" where
  "role_error role namespaces =
     (if role \<notin> set valid_roles then Some (ValueError ''role must be one of admin, provider, user'')
      else if role = ''admin'' \<and> namespaces \<noteq> None then Some (ValueError ''admin principal must have namespaces=None (all)'')
      else if role \<noteq> ''admin'' \<and> namespaces = None then Some (ValueError (role @ '' principal requires namespaces=list''))
      else None)"

definition create_principal ::
  "(string \<Rightarrow> string) \<Rightarrow> fresh \<Rightarrow> string \<Rightarrow> string \<Rightarrow> string list option \<Rightarrow> string \<Rightarrow> string option \<Rightarrow> credentials \<Rightarrow> auth_disk
   \<Rightarrow> (exc + principal \<times> string) \<times> credentials \<times> auth_disk" where
  "create_principal sha fr handle role namespaces note by cs dk =
     (case role_error role namespaces of
        Some e \<Rightarrow> (Inl e, cs, dk)
      | None \<Rightarrow>
          if list_ex (\<lambda>(i, p). pr_handle p = handle) (cs_principals cs) then (Inl (ValueError (''handle '' @ handle @ '' already in use'')), cs, dk)
          else
            let p = \<lparr>pr_id = new_id ''u'' (fr_principal fr), pr_handle = handle, pr_role = role, pr_namespaces = namespaces,
                     pr_created_at = fr_clock fr ''principal'', pr_disabled_at = None, pr_note = note\<rparr>;
                token = generate_token (fr_token fr); k = new_api_key sha fr token (pr_id p) ''initial'';
                cs' = add_key k (put_principal p cs) in
            (Inr (p, token), cs', created_entries p k by (persist_keys cs' (persist_principals cs' dk))))"

definition list_principals :: "credentials \<Rightarrow> principal list" where
  "list_principals cs = map snd (cs_principals cs)"

definition get_principal :: "credentials \<Rightarrow> string \<Rightarrow> principal option" where
  "get_principal cs i = map_of (cs_principals cs) i"

text \<open>The arguments of \<open>update_principal\<close>; the outer option of the namespaces is the sentinel for an argument not given.\<close>

record principal_update =
  pu_namespaces :: "string list option option"
  pu_role :: "string option"
  pu_disabled :: "bool option"
  pu_note :: "string option"

definition updated_principal :: "string \<Rightarrow> principal_update \<Rightarrow> principal \<Rightarrow> exc + principal" where
  "updated_principal now u p =
     (let role = (case pu_role u of None \<Rightarrow> pr_role p | Some r \<Rightarrow> if r = [] then pr_role p else r);
          ns = (case pu_namespaces u of None \<Rightarrow> pr_namespaces p | Some ns \<Rightarrow> ns) in
      case role_error role ns of
        Some e \<Rightarrow> Inl e
      | None \<Rightarrow> Inr (p\<lparr>pr_role := role, pr_namespaces := ns,
          pr_disabled_at := (case pu_disabled u of
              Some True \<Rightarrow> (case pr_disabled_at p of None \<Rightarrow> Some now | Some t \<Rightarrow> if t = [] then Some now else Some t)
            | Some False \<Rightarrow> None
            | None \<Rightarrow> pr_disabled_at p),
          pr_note := (case pu_note u of None \<Rightarrow> pr_note p | Some n \<Rightarrow> n)\<rparr>))"

definition update_principal ::
  "fresh \<Rightarrow> string \<Rightarrow> principal_update \<Rightarrow> string option \<Rightarrow> credentials \<Rightarrow> auth_disk \<Rightarrow> (exc + principal) \<times> credentials \<times> auth_disk" where
  "update_principal fr i u by cs dk =
     (case map_of (cs_principals cs) i of
        None \<Rightarrow> (Inl (KeyError ''Principal not found''), cs, dk)
      | Some p \<Rightarrow>
          (case updated_principal (fr_clock fr ''disabled'') u p of
             Inl e \<Rightarrow> (Inl e, cs, dk)
           | Inr p' \<Rightarrow>
               let cs' = cs\<lparr>cs_principals := AList.update i p' (cs_principals cs)\<rparr> in
               (Inr p', cs', audit ''principal.updated'' [(''principal_id'', Some i), (''by'', by)] (persist_principals cs' dk))))"

definition create_key ::
  "(string \<Rightarrow> string) \<Rightarrow> fresh \<Rightarrow> string \<Rightarrow> string \<Rightarrow> string option \<Rightarrow> credentials \<Rightarrow> auth_disk \<Rightarrow> (exc + api_key \<times> string) \<times> credentials \<times> auth_disk" where
  "create_key sha fr owner name by cs dk =
     (if map_of (cs_principals cs) owner = None then (Inl (KeyError ''Principal not found''), cs, dk)
      else
        let token = generate_token (fr_token fr); k = new_api_key sha fr token owner name; cs' = add_key k cs in
        (Inr (k, token), cs', audit ''key.created''
           [(''key_id'', Some (ak_id k)), (''principal_id'', Some owner), (''key_prefix'', Some (ak_prefix k)), (''by'', by)] (persist_keys cs' dk)))"

definition list_keys :: "string option \<Rightarrow> credentials \<Rightarrow> api_key list" where
  "list_keys owner cs =
     (case owner of None \<Rightarrow> map snd (cs_keys cs) | Some i \<Rightarrow> filter (\<lambda>k. ak_principal k = i) (map snd (cs_keys cs)))"

definition revoke_key ::
  "fresh \<Rightarrow> string \<Rightarrow> string option \<Rightarrow> credentials \<Rightarrow> auth_disk \<Rightarrow> (exc + api_key) \<times> credentials \<times> auth_disk" where
  "revoke_key fr kid by cs dk =
     (case map_of (cs_keys cs) kid of
        None \<Rightarrow> (Inl (KeyError ''Key not found''), cs, dk)
      | Some k \<Rightarrow>
          let logged = audit ''key.revoked'' [(''key_id'', Some kid), (''principal_id'', Some (ak_principal k)), (''by'', by)] in
          if is_revoked k then (Inr k, cs, logged dk)
          else
            let k' = k\<lparr>ak_revoked_at := Some (fr_clock fr ''revoked'')\<rparr>;
                cs' = cs\<lparr>cs_keys := AList.update kid k' (cs_keys cs), cs_by_hash := AList.delete (ak_hash k) (cs_by_hash cs)\<rparr> in
            (Inr k', cs', logged (persist_keys cs' dk)))"

end
