(* ===== verification/AuthApi.thy ===== *)
theory AuthApi
  imports AuthStore
begin

text \<open>
  The HTTP side of the registry's authentication (\<open>auth/deps.py\<close>, \<open>auth/router.py\<close>, \<open>auth/cli.py\<close>): the dependencies that
  admit a request, the eight endpoints under \<open>/api/auth\<close>, and the two commands that initialize or reset the store.
  The registry service is the argument \<open>svc\<close>, absent while it cannot be had.
\<close>

section \<open>Admission of a request\<close>

datatype http_error = HttpError int string

text \<open>The process: the module-level store, and what is on disk.\<close>

record auth_server =
  sv_store :: "credentials option"
  sv_disk :: auth_disk

record auth_service =
  ss_auth_required :: "string \<Rightarrow> bool"
  ss_dataset_exists :: "string \<Rightarrow> bool"

text \<open>\<open>authorization.strip().split(None, 1)\<close> has two parts, the first of which is the scheme.\<close>

definition parse_bearer :: "string option \<Rightarrow> string option" where
  "parse_bearer header =
     (case header of
        None \<Rightarrow> None
      | Some h \<Rightarrow>
          let s = strip h; scheme = takeWhile (\<lambda>c. \<not> is_space c) s; rest = strip (dropWhile (\<lambda>c. \<not> is_space c) s) in
          if rest \<noteq> [] \<and> lower scheme = ''bearer'' then Some rest else None)"

definition log_at :: "string \<Rightarrow> (string \<times> string option) list \<Rightarrow> auth_server \<Rightarrow> auth_server" where
  "log_at event fs sv = sv\<lparr>sv_disk := audit event fs (sv_disk sv)\<rparr>"

definition check_token ::
  "(string \<Rightarrow> string) \<Rightarrow> string \<Rightarrow> string \<Rightarrow> credentials \<Rightarrow> auth_server \<Rightarrow> (http_error + auth_context) \<times> auth_server" where
  "check_token sha now token cs sv =
     (case authenticate sha now token cs (sv_disk sv) of
        (Inl text, cs', dk) \<Rightarrow> (Inl (HttpError 401 text), \<lparr>sv_store = Some cs', sv_disk = dk\<rparr>)
      | (Inr c, cs', dk) \<Rightarrow> (Inr c, \<lparr>sv_store = Some cs', sv_disk = dk\<rparr>))"

definition in_namespace :: "auth_context \<Rightarrow> string \<Rightarrow> bool" where
  "in_namespace c dataset \<longleftrightarrow> (case ac_namespaces c of None \<Rightarrow> False | Some nss \<Rightarrow> dataset \<in> set nss)"

definition authorize ::
  "(string \<Rightarrow> string) \<Rightarrow> string \<Rightarrow> auth_service option \<Rightarrow> string option \<Rightarrow> string option \<Rightarrow> auth_server
   \<Rightarrow> (http_error + auth_context option) \<times> auth_server" where
  "authorize sha now svc dataset header sv =
     (case sv_store sv of
        None \<Rightarrow> (Inr None, sv)
      | Some cs \<Rightarrow>
          if (case (dataset, svc) of (Some d, Some s) \<Rightarrow> \<not> ss_auth_required s d | _ \<Rightarrow> False) then (Inr None, sv)
          else case parse_bearer header of
            None \<Rightarrow> (Inl (HttpError 401 ''Authentication required for this namespace''),
                     log_at ''auth.failed'' [(''reason'', Some ''no_token''), (''dataset'', dataset)] sv)
          | Some token \<Rightarrow>
              (case check_token sha now token cs sv of
                 (Inl e, sv') \<Rightarrow> (Inl e, sv')
               | (Inr c, sv') \<Rightarrow>
                   (case dataset of
                      Some d \<Rightarrow>
                        if \<not> is_admin c \<and> \<not> in_namespace c d
                        then (Inl (HttpError 403 ''Principal lacks access to namespace''),
                              log_at ''permission.denied''
                                [(''reason'', Some ''namespace_out_of_scope''), (''principal_id'', Some (ac_principal c)), (''dataset'', dataset)] sv')
                        else (Inr (Some c), sv')
                    | None \<Rightarrow> (Inr (Some c), sv'))))"

definition require_principal ::
  "(http_error + auth_context option) \<times> auth_server \<Rightarrow> (http_error + auth_context) \<times> auth_server" where
  "require_principal r =
     (case r of
        (Inl e, sv) \<Rightarrow> (Inl e, sv)
      | (Inr None, sv) \<Rightarrow> (Inl (HttpError 401 ''Authentication required''), sv)
      | (Inr (Some c), sv) \<Rightarrow> (Inr c, sv))"

definition denied :: "string \<Rightarrow> auth_context \<Rightarrow> auth_server \<Rightarrow> auth_server" where
  "denied reason c sv = log_at ''permission.denied''
     [(''reason'', Some reason), (''principal_id'', Some (ac_principal c)), (''role'', Some (ac_role c))] sv"

definition require_admin :: "(http_error + auth_context) \<times> auth_server \<Rightarrow> (http_error + auth_context) \<times> auth_server" where
  "require_admin r =
     (case r of
        (Inl e, sv) \<Rightarrow> (Inl e, sv)
      | (Inr c, sv) \<Rightarrow>
          if is_admin c then (Inr c, sv)
          else (Inl (HttpError 403 ''Admin role required''), if sv_store sv = None then sv else denied ''admin_required'' c sv))"

definition require_admin_strict ::
  "(string \<Rightarrow> string) \<Rightarrow> string \<Rightarrow> string option \<Rightarrow> auth_server \<Rightarrow> (http_error + auth_context) \<times> auth_server" where
  "require_admin_strict sha now header sv =
     (case sv_store sv of
        None \<Rightarrow> (Inl (HttpError 404 ''Auth is not initialized on this registry''), sv)
      | Some cs \<Rightarrow>
          (case parse_bearer header of
             None \<Rightarrow> (Inl (HttpError 401 ''Admin token required''), sv)
           | Some token \<Rightarrow>
               (case check_token sha now token cs sv of
                  (Inl e, sv') \<Rightarrow> (Inl e, sv')
                | (Inr c, sv') \<Rightarrow>
                    if is_admin c then (Inr c, sv')
                    else (Inl (HttpError 403 ''Admin role required''), denied ''admin_required'' c sv'))))"

definition require_admin_or_anon ::
  "(http_error + auth_context option) \<times> auth_server \<Rightarrow> (http_error + auth_context option) \<times> auth_server" where
  "require_admin_or_anon r =
     (case r of
        (Inl e, sv) \<Rightarrow> (Inl e, sv)
      | (Inr None, sv) \<Rightarrow> (Inr None, sv)
      | (Inr (Some c), sv) \<Rightarrow>
          if is_admin c then (Inr (Some c), sv)
          else (Inl (HttpError 403 ''Admin role required for dataset-level operation''),
                if sv_store sv = None then sv else denied ''admin_required_for_dataset_ops'' c sv))"

section \<open>Endpoints\<close>

datatype auth_request =
    Whoami
  | CreatePrincipal string string "string list option" string
  | ListPrincipals
  | GetPrincipal string
  | UpdatePrincipal string principal_update
  | ListKeys "string option"
  | CreateKey string
  | RevokeKey string

datatype auth_response =
    Identity principal
  | CreatedPrincipal principal "api_key option" string
  | Principals "principal list"
  | OnePrincipal principal
  | Keys "api_key list"
  | CreatedKey api_key string
  | RevokedKey string "string option"

text \<open>\<open>max(keys, key=...)\<close>: the first of the latest keys.\<close>

fun latest_key :: "api_key list \<Rightarrow> api_key option" where
  "latest_key [] = None"
| "latest_key (k # ks) = (case latest_key ks of None \<Rightarrow> Some k | Some l \<Rightarrow> if ak_created_at k < ak_created_at l then Some l else Some k)"

definition http_of_exc :: "exc \<Rightarrow> http_error" where
  "http_of_exc e = HttpError (if is_value_error e then 400 else 404) (exc_msg e)"

definition unknown_namespaces :: "auth_service option \<Rightarrow> string \<Rightarrow> string list option \<Rightarrow> string list" where
  "unknown_namespaces svc role namespaces =
     (case (namespaces, svc) of
        (Some nss, Some s) \<Rightarrow> if role = ''admin'' then [] else filter (\<lambda>n. \<not> ss_dataset_exists s n) nss
      | _ \<Rightarrow> [])"

text \<open>The body of an endpoint, for a caller its dependency has admitted.\<close>

definition endpoint ::
  "(string \<Rightarrow> string) \<Rightarrow> fresh \<Rightarrow> auth_service option \<Rightarrow> auth_context \<Rightarrow> auth_request \<Rightarrow> credentials \<Rightarrow> auth_disk
   \<Rightarrow> (http_error + auth_response) \<times> credentials \<times> auth_disk" where
  "endpoint sha fr svc c req cs dk =
     (case req of
        Whoami \<Rightarrow>
          (case get_principal cs (ac_principal c) of
             None \<Rightarrow> (Inl (HttpError 401 ''Principal not found''), cs, dk)
           | Some p \<Rightarrow> (Inr (Identity p), cs, dk))
      | CreatePrincipal handle role namespaces note \<Rightarrow>
          if unknown_namespaces svc role namespaces \<noteq> [] then (Inl (HttpError 400 ''Unknown namespace(s)''), cs, dk)
          else (case create_principal sha fr handle role namespaces note (Some (ac_principal c)) cs dk of
                  (Inl e, cs', dk') \<Rightarrow> (Inl (http_of_exc e), cs', dk')
                | (Inr (p, token), cs', dk') \<Rightarrow> (Inr (CreatedPrincipal p (latest_key (list_keys (Some (pr_id p)) cs')) token), cs', dk'))
      | ListPrincipals \<Rightarrow> (Inr (Principals (list_principals cs)), cs, dk)
      | GetPrincipal i \<Rightarrow>
          (case get_principal cs i of
             None \<Rightarrow> (Inl (HttpError 404 ''Principal not found''), cs, dk)
           | Some p \<Rightarrow> (Inr (OnePrincipal p), cs, dk))
      | UpdatePrincipal i u \<Rightarrow>
          (case update_principal fr i u (Some (ac_principal c)) cs dk of
             (Inl e, cs', dk') \<Rightarrow> (Inl (http_of_exc e), cs', dk')
           | (Inr p, cs', dk') \<Rightarrow> (Inr (OnePrincipal p), cs', dk'))
      | ListKeys owner \<Rightarrow> (Inr (Keys (list_keys (if is_admin c then owner else Some (ac_principal c)) cs)), cs, dk)
      | CreateKey name \<Rightarrow>
          (case create_key sha fr (ac_principal c) name (Some (ac_principal c)) cs dk of
             (Inl e, cs', dk') \<Rightarrow> (Inl (HttpError 500 ''''), cs', dk')
           | (Inr (k, token), cs', dk') \<Rightarrow> (Inr (CreatedKey k token), cs', dk'))
      | RevokeKey kid \<Rightarrow>
          (case find (\<lambda>k. ak_id k = kid) (list_keys None cs) of
             None \<Rightarrow> (Inl (HttpError 404 ''Key not found''), cs, dk)
           | Some k \<Rightarrow>
               if \<not> is_admin c \<and> ak_principal k \<noteq> ac_principal c
               then (Inl (HttpError 403 ''You can only revoke your own keys''), cs,
                     audit ''permission.denied'' [(''reason'', Some ''not_key_owner''), (''principal_id'', Some (ac_principal c)), (''key_id'', Some kid)] dk)
               else (case revoke_key fr kid (Some (ac_principal c)) cs dk of
                       (Inl e, cs', dk') \<Rightarrow> (Inl (HttpError 404 ''''), cs', dk')
                     | (Inr k', cs', dk') \<Rightarrow> (Inr (RevokedKey (ak_id k') (ak_revoked_at k')), cs', dk'))))"

fun admin_only :: "auth_request \<Rightarrow> bool" where
  "admin_only (CreatePrincipal _ _ _ _) = True"
| "admin_only ListPrincipals = True"
| "admin_only (GetPrincipal _) = True"
| "admin_only (UpdatePrincipal _ _) = True"
| "admin_only _ = False"

text \<open>A request: the guard of the route group, the dependencies of the route, then its body.\<close>

definition serve ::
  "(string \<Rightarrow> string) \<Rightarrow> fresh \<Rightarrow> auth_service option \<Rightarrow> string option \<Rightarrow> auth_request \<Rightarrow> auth_server \<Rightarrow> (http_error + auth_response) \<times> auth_server" where
  "serve sha fr svc header req sv =
     (if sv_store sv = None then (Inl (HttpError 404 ''Auth is not initialized on this registry''), sv)
      else
        let admitted = require_principal (authorize sha (fr_clock fr ''used'') svc None header sv) in
        case (if admin_only req then require_admin admitted else admitted) of
          (Inl e, sv') \<Rightarrow> (Inl e, sv')
        | (Inr c, sv') \<Rightarrow>
            (case sv_store sv' of
               None \<Rightarrow> (Inl (HttpError 500 ''''), sv')
             | Some cs \<Rightarrow>
                 (case endpoint sha fr svc c req cs (sv_disk sv') of
                    (res, cs', dk) \<Rightarrow> (res, \<lparr>sv_store = Some cs', sv_disk = dk\<rparr>))))"

section \<open>Commands\<close>

text \<open>Both commands run without a server; the result is the exit status.\<close>

definition cmd_init :: "(string \<Rightarrow> string) \<Rightarrow> fresh \<Rightarrow> string option \<Rightarrow> string \<Rightarrow> auth_disk \<Rightarrow> int \<times> auth_disk" where
  "cmd_init sha fr admin_token handle dk =
     (case bootstrap sha fr admin_token handle dk of
        (Inr _, dk') \<Rightarrow> (0, dk')
      | (Inl e, dk') \<Rightarrow> (if is_value_error e then 2 else 1, dk'))"

definition cmd_reset_admin :: "(string \<Rightarrow> string) \<Rightarrow> bool \<Rightarrow> fresh \<Rightarrow> string option \<Rightarrow> string \<Rightarrow> auth_disk \<Rightarrow> int \<times> auth_disk" where
  "cmd_reset_admin sha confirm fr admin_token handle dk =
     (if \<not> confirm then (2, dk)
      else case bootstrap sha fr admin_token handle (dk\<lparr>af_principals := None, af_keys := None\<rparr>) of
             (Inr _, dk') \<Rightarrow> (0, dk')
           | (Inl e, dk') \<Rightarrow> (1, dk'))"

definition start_server :: "auth_disk \<Rightarrow> auth_server" where
  "start_server dk = \<lparr>sv_store = load_auth_store dk, sv_disk = dk\<rparr>"

end
