(* ===== verification/AuthSecurity.thy ===== *)
theory AuthSecurity
  imports AuthApi
begin

text \<open>
  The invariant of the credential store and of its files, its preservation by every request, restart and command, and
  what follows for authentication: who is admitted, what a revocation and a restart change, and what a caller
  without the admin role can change.
\<close>

section \<open>The invariant\<close>

text \<open>The laws are stated over the three dictionaries of the store read as maps.\<close>

definition principals_inv :: "(string \<rightharpoonup> principal) \<Rightarrow> bool" where
  "principals_inv P \<longleftrightarrow> (\<forall>i p. P i = Some p \<longrightarrow> pr_id p = i \<and> role_error (pr_role p) (pr_namespaces p) = None)
     \<and> (\<forall>i j p q. P i = Some p \<longrightarrow> P j = Some q \<longrightarrow> pr_handle p = pr_handle q \<longrightarrow> i = j)"

definition keys_inv :: "(string \<rightharpoonup> principal) \<Rightarrow> (string \<rightharpoonup> api_key) \<Rightarrow> bool" where
  "keys_inv P K \<longleftrightarrow> (\<forall>i k. K i = Some k \<longrightarrow> ak_id k = i \<and> P (ak_principal k) \<noteq> None)
     \<and> (\<forall>i j k l. K i = Some k \<longrightarrow> K j = Some l \<longrightarrow> ak_hash k = ak_hash l \<longrightarrow> i = j)"

definition index_inv :: "(string \<rightharpoonup> api_key) \<Rightarrow> (string \<rightharpoonup> string) \<Rightarrow> bool" where
  "index_inv K H \<longleftrightarrow> (\<forall>h i. H h = Some i \<longrightarrow> (\<exists>k. K i = Some k \<and> ak_hash k = h))
     \<and> (\<forall>i k. K i = Some k \<longrightarrow> \<not> is_revoked k \<longrightarrow> H (ak_hash k) = Some i)"

abbreviation prins :: "credentials \<Rightarrow> (string \<rightharpoonup> principal)" where "prins cs \<equiv> map_of (cs_principals cs)"
abbreviation keyed :: "credentials \<Rightarrow> (string \<rightharpoonup> api_key)" where "keyed cs \<equiv> map_of (cs_keys cs)"
abbreviation hashed :: "credentials \<Rightarrow> (string \<rightharpoonup> string)" where "hashed cs \<equiv> map_of (cs_by_hash cs)"

definition cred_ok :: "credentials \<Rightarrow> bool" where
  "cred_ok cs \<longleftrightarrow> keys_distinct (cs_principals cs) \<and> keys_distinct (cs_keys cs)
     \<and> principals_inv (prins cs) \<and> keys_inv (prins cs) (keyed cs) \<and> index_inv (keyed cs) (hashed cs)"

text \<open>The files hold what is in memory, but for the time of the last use of a key.\<close>

definition unused :: "api_key \<Rightarrow> api_key" where
  "unused k = k\<lparr>ak_last_used_at := None\<rparr>"

definition written :: "credentials \<Rightarrow> auth_disk \<Rightarrow> bool" where
  "written cs dk \<longleftrightarrow> af_principals dk = Some (map snd (cs_principals cs))
     \<and> (\<exists>ks. af_keys dk = Some ks \<and> map unused ks = map (unused \<circ> snd) (cs_keys cs))"

definition server_ok :: "auth_server \<Rightarrow> bool" where
  "server_ok sv \<longleftrightarrow> (\<exists>cs. sv_store sv = Some cs \<and> cred_ok cs \<and> written cs (sv_disk sv))"

lemma unused_simps [simp]:
  "ak_id (unused k) = ak_id k" "ak_principal (unused k) = ak_principal k" "ak_hash (unused k) = ak_hash k"
  "is_revoked (unused k) = is_revoked k" "unused (k\<lparr>ak_last_used_at := t\<rparr>) = unused k"
  by (simp_all add: unused_def is_revoked_def)

lemma unused_eqD:
  assumes "unused k = unused l"
  shows "ak_id k = ak_id l" "ak_principal k = ak_principal l" "ak_hash k = ak_hash l" "is_revoked k = is_revoked l"
  using assms by (metis unused_simps)+

section \<open>Updates of the dictionaries\<close>

lemma principals_inv_add:
  assumes "principals_inv P" "role_error (pr_role p) (pr_namespaces p) = None"
    and "\<And>i q. P i = Some q \<Longrightarrow> pr_handle q = pr_handle p \<Longrightarrow> i = pr_id p"
  shows "principals_inv (P(pr_id p \<mapsto> p))"
  using assms unfolding principals_inv_def by (simp split: if_splits)

lemma keys_inv_principals: "keys_inv P K \<Longrightarrow> (\<And>i. P i \<noteq> None \<Longrightarrow> P' i \<noteq> None) \<Longrightarrow> keys_inv P' K"
  unfolding keys_inv_def by meson

lemma keys_inv_add:
  assumes "keys_inv P K" "P (ak_principal k) \<noteq> None" "\<And>i l. K i = Some l \<Longrightarrow> ak_hash l = ak_hash k \<Longrightarrow> i = ak_id k"
  shows "keys_inv P (K(ak_id k \<mapsto> k))"
  using assms unfolding keys_inv_def by (simp split: if_splits)

lemma index_inv_add:
  assumes "index_inv K H" "K (ak_id k) = None" "\<And>i l. K i = Some l \<Longrightarrow> ak_hash l \<noteq> ak_hash k"
  shows "index_inv (K(ak_id k \<mapsto> k)) (H(ak_hash k \<mapsto> ak_id k))"
  using assms unfolding index_inv_def by (simp split: if_splits) (metis option.distinct(1))

lemma keys_inv_hash: "keys_inv P K \<Longrightarrow> K i = Some k \<Longrightarrow> K j = Some l \<Longrightarrow> ak_hash k = ak_hash l \<Longrightarrow> i = j"
  unfolding keys_inv_def by blast

lemma keys_inv_replace:
  assumes "keys_inv P K" "K i = Some k" "ak_id k' = ak_id k" "ak_principal k' = ak_principal k" "ak_hash k' = ak_hash k"
  shows "keys_inv P (K(i \<mapsto> k'))"
proof -
  have i: "ak_id k = i" "P (ak_principal k) \<noteq> None" using assms(1,2) unfolding keys_inv_def by blast+
  moreover have "j = ak_id k'" if "K j = Some l" "ak_hash l = ak_hash k'" for j l
    using keys_inv_hash [OF assms(1) that(1) assms(2)] that(2) i(1) assms(3,5) by simp
  ultimately have "keys_inv P (K(ak_id k' \<mapsto> k'))" using keys_inv_add [OF assms(1), of k'] assms(4) by simp
  then show ?thesis using i assms(3) by simp
qed

lemma index_inv_replace:
  assumes "index_inv K H" "K i = Some k" "ak_hash k' = ak_hash k" "is_revoked k' = is_revoked k"
  shows "index_inv (K(i \<mapsto> k')) H"
proof -
  have "\<exists>l. (K(i \<mapsto> k')) j = Some l \<and> ak_hash l = h" if hit: "H h = Some j" for h j
  proof -
    obtain l where "K j = Some l" "ak_hash l = h" using hit assms(1) unfolding index_inv_def by blast
    then show ?thesis using assms(2,3) by (cases "j = i") auto
  qed
  moreover have "H (ak_hash l) = Some j" if "(K(i \<mapsto> k')) j = Some l" "\<not> is_revoked l" for j l
    using that assms unfolding index_inv_def by (cases "j = i") auto
  ultimately show ?thesis unfolding index_inv_def by blast
qed

lemma index_inv_revoke:
  assumes "index_inv K H" "keys_inv P K" "K i = Some k" "ak_hash k' = ak_hash k" "is_revoked k'"
  shows "index_inv (K(i \<mapsto> k')) (H(ak_hash k := None))"
proof -
  have "\<exists>l. (K(i \<mapsto> k')) j = Some l \<and> ak_hash l = h" if hit: "(H(ak_hash k := None)) h = Some j" for h j
  proof -
    have h: "h \<noteq> ak_hash k" "H h = Some j" using hit by (auto split: if_splits)
    then obtain l where "K j = Some l" "ak_hash l = h" using assms(1) unfolding index_inv_def by blast
    then show ?thesis using h assms(3) by (cases "j = i") auto
  qed
  moreover have "(H(ak_hash k := None)) (ak_hash l) = Some j" if "(K(i \<mapsto> k')) j = Some l" "\<not> is_revoked l" for j l
    using that assms(1,5) keys_inv_hash [OF assms(2,3), of j l] unfolding index_inv_def by (cases "j = i") auto
  ultimately show ?thesis unfolding index_inv_def by blast
qed

lemmas cred_updates = add_key_def put_principal_def touch_key_def

section \<open>Operations keep the invariant\<close>

lemma cred_ok_put:
  assumes "cred_ok cs" "role_error (pr_role p) (pr_namespaces p) = None"
    and "\<And>i q. prins cs i = Some q \<Longrightarrow> pr_handle q = pr_handle p \<Longrightarrow> i = pr_id p"
  shows "cred_ok (put_principal p cs)"
proof -
  have "principals_inv ((prins cs)(pr_id p \<mapsto> p))" using assms by (intro principals_inv_add) (auto simp: cred_ok_def)
  moreover have "keys_inv ((prins cs)(pr_id p \<mapsto> p)) (keyed cs)"
    using assms(1) by (auto simp: cred_ok_def intro: keys_inv_principals)
  ultimately show ?thesis using assms(1) by (simp add: cred_ok_def put_principal_def)
qed

lemma cred_ok_add_key:
  assumes "cred_ok cs" "keyed cs (ak_id k) = None" "prins cs (ak_principal k) \<noteq> None"
    and "\<And>i l. keyed cs i = Some l \<Longrightarrow> ak_hash l \<noteq> ak_hash k"
  shows "cred_ok (add_key k cs)"
proof -
  have "keys_inv (prins cs) ((keyed cs)(ak_id k \<mapsto> k))" using assms by (intro keys_inv_add) (auto simp: cred_ok_def)
  moreover have "index_inv ((keyed cs)(ak_id k \<mapsto> k)) ((hashed cs)(ak_hash k \<mapsto> ak_id k))"
    using assms by (intro index_inv_add) (auto simp: cred_ok_def)
  ultimately show ?thesis using assms(1) by (simp add: cred_ok_def add_key_def)
qed

lemma cred_ok_touch:
  assumes "cred_ok cs" "keyed cs i = Some k"
  shows "cred_ok (touch_key now i k cs)"
proof -
  let ?k = "k\<lparr>ak_last_used_at := Some now\<rparr>"
  have "keys_inv (prins cs) ((keyed cs)(i \<mapsto> ?k))"
    using assms by (intro keys_inv_replace [of _ _ i k]) (auto simp: cred_ok_def)
  moreover have "index_inv ((keyed cs)(i \<mapsto> ?k)) (hashed cs)"
    using assms by (intro index_inv_replace [of _ _ i k]) (auto simp: cred_ok_def is_revoked_def)
  ultimately show ?thesis using assms(1) by (simp add: cred_ok_def touch_key_def)
qed

lemma map_unused_update:
  assumes "keys_distinct d" "map_of d i = Some k" "unused k' = unused k"
  shows "map (unused \<circ> snd) (AList.update i k' d) = map (unused \<circ> snd) d"
  using assms by (induction d) auto

lemma written_touch:
  assumes "cred_ok cs" "keyed cs i = Some k" "written cs dk"
  shows "written (touch_key now i k cs) dk"
  using assms map_unused_update [of "cs_keys cs" i k "k\<lparr>ak_last_used_at := Some now\<rparr>"]
  by (auto simp: written_def touch_key_def cred_ok_def)

lemma written_audit [simp]:
  "written cs (audit e fs dk) = written cs dk" "written cs (failed r fs dk) = written cs dk" "written cs (created_entries p k by dk) = written cs dk"
  by (simp_all add: written_def audit_def failed_def created_entries_def)

lemma written_persist_keys: "written cs dk \<Longrightarrow> cs_principals cs' = cs_principals cs \<Longrightarrow> written cs' (persist_keys cs' dk)"
  by (simp add: written_def persist_keys_def)

lemma written_persist_principals: "written cs dk \<Longrightarrow> cs_keys cs' = cs_keys cs \<Longrightarrow> written cs' (persist_principals cs' dk)"
  by (simp add: written_def persist_principals_def)

lemma written_persist_both [simp]: "written cs (persist_keys cs (persist_principals cs dk))"
  by (simp add: written_def persist_keys_def persist_principals_def)

text \<open>What the random source delivers is new to the store.\<close>

definition fresh_for :: "(string \<Rightarrow> string) \<Rightarrow> fresh \<Rightarrow> credentials \<Rightarrow> bool" where
  "fresh_for sha fr cs \<longleftrightarrow> prins cs (new_id ''u'' (fr_principal fr)) = None \<and> keyed cs (new_id ''k'' (fr_key fr)) = None
     \<and> list_all (\<lambda>(i, k). ak_hash k \<noteq> sha (generate_token (fr_token fr))) (cs_keys cs)"

lemma fresh_hash: "fresh_for sha fr cs \<Longrightarrow> keyed cs i = Some k \<Longrightarrow> ak_hash k \<noteq> sha (generate_token (fr_token fr))"
  by (auto simp: fresh_for_def list_all_iff dest: map_of_SomeD)

lemma create_key_ok:
  assumes "cred_ok cs" "written cs dk" "fresh_for sha fr cs" "create_key sha fr owner name by cs dk = (r, cs', dk')"
  shows "cred_ok cs' \<and> written cs' dk'"
proof (cases "prins cs owner")
  case None
  then show ?thesis using assms by (auto simp: create_key_def)
next
  case (Some p)
  let ?k = "new_api_key sha fr (generate_token (fr_token fr)) owner name"
  have "cred_ok (add_key ?k cs)"
    using assms(1,3) Some fresh_hash [OF assms(3)] by (intro cred_ok_add_key) (auto simp: new_api_key_def fresh_for_def)
  moreover have "written (add_key ?k cs) (persist_keys (add_key ?k cs) dk)"
    by (rule written_persist_keys [OF assms(2)]) (simp add: add_key_def)
  ultimately show ?thesis using assms(4) Some by (auto simp: create_key_def Let_def)
qed

lemma create_principal_ok:
  assumes "cred_ok cs" "written cs dk" "fresh_for sha fr cs" "create_principal sha fr handle role ns note by cs dk = (r, cs', dk')"
  shows "cred_ok cs' \<and> written cs' dk'"
proof (cases "role_error role ns = None \<and> \<not> list_ex (\<lambda>(i, p). pr_handle p = handle) (cs_principals cs)")
  case False
  then show ?thesis using assms by (auto simp: create_principal_def split: option.splits if_splits)
next
  case True
  define p where "p = \<lparr>pr_id = new_id ''u'' (fr_principal fr), pr_handle = handle, pr_role = role, pr_namespaces = ns,
                     pr_created_at = fr_clock fr ''principal'', pr_disabled_at = None, pr_note = note\<rparr>"
  let ?k = "new_api_key sha fr (generate_token (fr_token fr)) (pr_id p) ''initial''"
  have "pr_handle q \<noteq> handle" if "prins cs i = Some q" for i q
    using True map_of_SomeD [OF that] by (auto simp: list_ex_iff)
  then have "cred_ok (put_principal p cs)" using assms(1) True by (intro cred_ok_put) (auto simp: p_def)
  then have "cred_ok (add_key ?k (put_principal p cs))"
    using assms(3) fresh_hash [OF assms(3)] by (intro cred_ok_add_key) (auto simp: new_api_key_def fresh_for_def put_principal_def)
  then show ?thesis using assms(4) True by (auto simp: create_principal_def Let_def simp flip: p_def)
qed

lemma updated_principal_same:
  "updated_principal now u p = Inr p' \<Longrightarrow> pr_id p' = pr_id p \<and> pr_handle p' = pr_handle p \<and> role_error (pr_role p') (pr_namespaces p') = None"
  by (auto simp: updated_principal_def Let_def split: option.splits)

lemma update_principal_ok:
  assumes "cred_ok cs" "written cs dk" "update_principal fr i u by cs dk = (r, cs', dk')"
  shows "cred_ok cs' \<and> written cs' dk'"
proof (cases "\<exists>p p'. prins cs i = Some p \<and> updated_principal (fr_clock fr ''disabled'') u p = Inr p'")
  case False
  then show ?thesis using assms by (auto simp: update_principal_def split: option.splits sum.splits)
next
  case True
  then obtain p p' where p: "prins cs i = Some p" "updated_principal (fr_clock fr ''disabled'') u p = Inr p'" by blast
  have i: "pr_id p = i" using assms(1) p(1) by (auto simp: cred_ok_def principals_inv_def)
  have "cred_ok (put_principal p' cs)"
  proof (rule cred_ok_put [OF assms(1)])
    show "role_error (pr_role p') (pr_namespaces p') = None" using updated_principal_same [OF p(2)] by simp
    show "j = pr_id p'" if "prins cs j = Some q" "pr_handle q = pr_handle p'" for j q
      using that updated_principal_same [OF p(2)] p(1) i assms(1) unfolding cred_ok_def principals_inv_def by simp
  qed
  moreover have eq: "put_principal p' cs = cs\<lparr>cs_principals := AList.update i p' (cs_principals cs)\<rparr>"
    using updated_principal_same [OF p(2)] i by (simp add: put_principal_def)
  moreover have "written (put_principal p' cs) (persist_principals (put_principal p' cs) dk)"
    by (rule written_persist_principals [OF assms(2)]) (simp add: put_principal_def)
  ultimately show ?thesis using assms(3) p by (auto simp: update_principal_def Let_def)
qed

lemma revoke_key_ok:
  assumes "cred_ok cs" "written cs dk" "revoke_key fr kid by cs dk = (r, cs', dk')"
  shows "cred_ok cs' \<and> written cs' dk'"
proof (cases "\<exists>k. keyed cs kid = Some k \<and> \<not> is_revoked k")
  case False
  then show ?thesis using assms by (auto simp: revoke_key_def Let_def split: option.splits)
next
  case True
  then obtain k where k: "keyed cs kid = Some k" "\<not> is_revoked k" by blast
  let ?k = "k\<lparr>ak_revoked_at := Some (fr_clock fr ''revoked'')\<rparr>"
  let ?cs = "cs\<lparr>cs_keys := AList.update kid ?k (cs_keys cs), cs_by_hash := AList.delete (ak_hash k) (cs_by_hash cs)\<rparr>"
  have ok: "keys_inv (prins cs) (keyed cs)" "index_inv (keyed cs) (hashed cs)" using assms(1) by (auto simp: cred_ok_def)
  have "keys_inv (prins cs) ((keyed cs)(kid \<mapsto> ?k))" by (rule keys_inv_replace [OF ok(1) k(1)]) simp_all
  moreover have "index_inv ((keyed cs)(kid \<mapsto> ?k)) ((hashed cs)(ak_hash k := None))"
    by (rule index_inv_revoke [OF ok(2,1) k(1)]) (simp_all add: is_revoked_def)
  ultimately have "cred_ok ?cs" using assms(1) by (simp add: cred_ok_def)
  moreover have "written ?cs (persist_keys ?cs dk)" by (rule written_persist_keys [OF assms(2)]) simp
  ultimately show ?thesis using assms(3) k by (auto simp: revoke_key_def Let_def)
qed

section \<open>Authentication against the store\<close>

text \<open>The specification: the keys of the store that a token opens, and the context it yields.\<close>

definition holds_key :: "(string \<Rightarrow> string) \<Rightarrow> string \<Rightarrow> credentials \<Rightarrow> string \<Rightarrow> api_key \<Rightarrow> bool" where
  "holds_key sha token cs i k \<longleftrightarrow> keyed cs i = Some k \<and> ak_hash k = sha token \<and> \<not> is_revoked k"

definition grants :: "(string \<Rightarrow> string) \<Rightarrow> string \<Rightarrow> credentials \<Rightarrow> principal \<Rightarrow> bool" where
  "grants sha token cs p \<longleftrightarrow> starts_with token_start token
     \<and> (\<exists>i k. holds_key sha token cs i k \<and> prins cs (ak_principal k) = Some p \<and> \<not> is_disabled p)"

lemma holds_key_unique: "cred_ok cs \<Longrightarrow> holds_key sha token cs i k \<Longrightarrow> holds_key sha token cs j l \<Longrightarrow> i = j \<and> k = l"
  unfolding holds_key_def cred_ok_def by (metis keys_inv_hash option.inject)

lemma grants_unique: "cred_ok cs \<Longrightarrow> grants sha token cs p \<Longrightarrow> grants sha token cs q \<Longrightarrow> p = q"
  unfolding grants_def using holds_key_unique by (metis option.inject)

lemma token_start_nonempty [simp]: "\<not> starts_with token_start []"
  by (simp add: token_start_def)

text \<open>Authentication decides exactly that specification, and changes nothing but the time of the last use.\<close>

lemma authenticate_cases:
  assumes "cred_ok cs"
  shows "(\<exists>p i k. grants sha token cs p \<and> keyed cs i = Some k \<and> authenticate sha now token cs dk = (Inr (to_context p), touch_key now i k cs, dk))
    \<or> ((\<nexists>p. grants sha token cs p) \<and> (\<exists>e r fs. authenticate sha now token cs dk = (Inl e, cs, failed r fs dk)))"
proof (cases "starts_with token_start token \<and> hashed cs (sha token) \<noteq> None")
  case False
  have "\<nexists>p. grants sha token cs p"
  proof
    assume "\<exists>p. grants sha token cs p"
    then obtain i k where "starts_with token_start token" "holds_key sha token cs i k" by (auto simp: grants_def)
    then have "hashed cs (sha token) = Some i" using assms unfolding holds_key_def cred_ok_def index_inv_def by metis
    then show False using False \<open>starts_with token_start token\<close> by simp
  qed
  moreover have "\<exists>e r fs. authenticate sha now token cs dk = (Inl e, cs, failed r fs dk)"
    using False by (auto simp: authenticate_def)
  ultimately show ?thesis by blast
next
  case True
  then obtain i where i: "hashed cs (sha token) = Some i" by blast
  then obtain k where k: "keyed cs i = Some k" "ak_hash k = sha token" using assms unfolding cred_ok_def index_inv_def by blast
  then obtain p where p: "prins cs (ak_principal k) = Some p" using assms unfolding cred_ok_def keys_inv_def by blast
  have token: "token \<noteq> []" using True by auto
  show ?thesis
  proof (cases "is_revoked k \<or> is_disabled p")
    case False
    then have "grants sha token cs p" using True k p by (auto simp: grants_def holds_key_def)
    moreover have "authenticate sha now token cs dk = (Inr (to_context p), touch_key now i k cs, dk)"
      using True False token i k p by (simp add: authenticate_def)
    ultimately show ?thesis using k by blast
  next
    case bad: True
    have "\<not> grants sha token cs q" for q
    proof
      assume "grants sha token cs q"
      then obtain j l where l: "holds_key sha token cs j l" "prins cs (ak_principal l) = Some q" "\<not> is_disabled q" by (auto simp: grants_def)
      then have "j = i" using keys_inv_hash [of "prins cs" "keyed cs" j l i k] k assms by (simp add: holds_key_def cred_ok_def)
      then have "l = k" using l(1) k(1) by (simp add: holds_key_def del: map_of_eq_Some_iff)
      then show False using l p bad by (auto simp: holds_key_def)
    qed
    moreover have "\<exists>e r fs. authenticate sha now token cs dk = (Inl e, cs, failed r fs dk)"
      using True bad token i k p by (auto simp: authenticate_def)
    ultimately show ?thesis by blast
  qed
qed

lemma authenticate_exact:
  assumes "cred_ok cs"
  shows "fst (authenticate sha now token cs dk) = Inr c \<longleftrightarrow> (\<exists>p. grants sha token cs p \<and> c = to_context p)"
  using authenticate_cases [OF assms, of sha token now dk] grants_unique [OF assms] by (metis Inl_Inr_False Inr_inject fst_conv)

text \<open>What an operation that only reads may do: stamp the last use of keys and write to the audit log.\<close>

definition same_but_use :: "credentials \<Rightarrow> credentials \<Rightarrow> bool" where
  "same_but_use cs cs' \<longleftrightarrow> cs_principals cs' = cs_principals cs \<and> (\<forall>i. map_option unused (keyed cs' i) = map_option unused (keyed cs i))"

definition reads_only :: "auth_server \<Rightarrow> auth_server \<Rightarrow> bool" where
  "reads_only sv sv' \<longleftrightarrow> (\<forall>cs. sv_store sv = Some cs \<longrightarrow> cred_ok cs \<longrightarrow> written cs (sv_disk sv)
     \<longrightarrow> (\<exists>cs'. sv_store sv' = Some cs' \<and> cred_ok cs' \<and> written cs' (sv_disk sv') \<and> same_but_use cs cs'))"

lemma same_but_use_refl [simp]: "same_but_use cs cs"
  by (simp add: same_but_use_def)

lemma same_but_use_key: "same_but_use cs cs' \<Longrightarrow> keyed cs' i = Some k \<Longrightarrow> \<exists>l. keyed cs i = Some l \<and> unused l = unused k"
proof -
  assume same: "same_but_use cs cs'" and k: "keyed cs' i = Some k"
  have "map_option unused (keyed cs' i) = map_option unused (keyed cs i)" using same unfolding same_but_use_def by blast
  then show "\<exists>l. keyed cs i = Some l \<and> unused l = unused k" unfolding k by (cases "keyed cs i") simp_all
qed

lemma same_but_use_trans: "same_but_use a b \<Longrightarrow> same_but_use b c \<Longrightarrow> same_but_use a c"
  by (simp add: same_but_use_def)

lemma same_but_use_touch: "keyed cs i = Some k \<Longrightarrow> same_but_use cs (touch_key now i k cs)"
  by (simp add: same_but_use_def touch_key_def)

lemma reads_only_refl [simp]: "reads_only sv sv"
  by (simp add: reads_only_def)

lemma reads_only_log [simp]: "reads_only sv sv' \<Longrightarrow> reads_only sv (log_at e fs sv')" "reads_only sv sv' \<Longrightarrow> reads_only sv (denied r c sv')"
  by (simp_all add: reads_only_def log_at_def denied_def)

lemma holds_key_same:
  assumes "same_but_use cs cs'" "holds_key sha token cs i k"
  shows "\<exists>k'. holds_key sha token cs' i k' \<and> ak_principal k' = ak_principal k"
proof -
  have "map_option unused (keyed cs' i) = Some (unused k)" using assms by (simp add: same_but_use_def holds_key_def)
  then obtain k' where k': "keyed cs' i = Some k'" "unused k' = unused k" by blast
  then show ?thesis using unused_eqD [OF k'(2)] assms(2) by (auto simp: holds_key_def)
qed

lemma same_but_use_sym: "same_but_use a b \<Longrightarrow> same_but_use b a"
  by (simp add: same_but_use_def)

lemma grants_same: "same_but_use cs cs' \<Longrightarrow> grants sha token cs' p = grants sha token cs p"
proof -
  have "grants sha token b p" if "same_but_use a b" "grants sha token a p" for a b
    using that holds_key_same [OF that(1)] unfolding grants_def by (metis same_but_use_def)
  then show "same_but_use cs cs' \<Longrightarrow> grants sha token cs' p = grants sha token cs p" using same_but_use_sym by blast
qed

text \<open>The token of a request, as the dependencies read it, and the caller it stands for.\<close>

definition caller :: "(string \<Rightarrow> string) \<Rightarrow> string option \<Rightarrow> auth_server \<Rightarrow> principal \<Rightarrow> bool" where
  "caller sha header sv p \<longleftrightarrow> (\<exists>token cs. parse_bearer header = Some token \<and> sv_store sv = Some cs \<and> grants sha token cs p)"

lemma caller_unique: "server_ok sv \<Longrightarrow> caller sha header sv p \<Longrightarrow> caller sha header sv q \<Longrightarrow> p = q"
  unfolding caller_def server_ok_def using grants_unique by fastforce

lemma check_token_cases:
  assumes "server_ok sv" "sv_store sv = Some cs"
  shows "(\<exists>p sv'. grants sha token cs p \<and> check_token sha now token cs sv = (Inr (to_context p), sv') \<and> reads_only sv sv')
    \<or> ((\<nexists>p. grants sha token cs p) \<and> (\<exists>e sv'. check_token sha now token cs sv = (Inl e, sv') \<and> reads_only sv sv'))"
proof -
  have ok: "cred_ok cs" "written cs (sv_disk sv)" using assms by (auto simp: server_ok_def)
  show ?thesis using authenticate_cases [OF ok(1), of sha token now "sv_disk sv"]
  proof (elim disjE exE conjE)
    fix p i k assume g: "grants sha token cs p" "keyed cs i = Some k" "authenticate sha now token cs (sv_disk sv) = (Inr (to_context p), touch_key now i k cs, sv_disk sv)"
    then have "reads_only sv \<lparr>sv_store = Some (touch_key now i k cs), sv_disk = sv_disk sv\<rparr>"
      using assms(2) by (simp add: reads_only_def cred_ok_touch written_touch same_but_use_touch)
    then show ?thesis using g by (auto simp: check_token_def)
  next
    fix e r fs assume f: "\<nexists>p. grants sha token cs p" "authenticate sha now token cs (sv_disk sv) = (Inl e, cs, failed r fs (sv_disk sv))"
    then have "reads_only sv \<lparr>sv_store = Some cs, sv_disk = failed r fs (sv_disk sv)\<rparr>" using assms(2) by (simp add: reads_only_def)
    then show ?thesis using f by (auto simp: check_token_def)
  qed
qed

section \<open>Requests\<close>

lemma reads_only_ok: "server_ok sv \<Longrightarrow> reads_only sv sv' \<Longrightarrow> server_ok sv'"
  by (auto simp: server_ok_def reads_only_def)

text \<open>\<open>authorize\<close> admits exactly what the specification admits.\<close>

definition open_dataset :: "auth_service option \<Rightarrow> string option \<Rightarrow> bool" where
  "open_dataset svc dataset \<longleftrightarrow> (case (dataset, svc) of (Some d, Some s) \<Rightarrow> \<not> ss_auth_required s d | _ \<Rightarrow> False)"

definition may_enter :: "principal \<Rightarrow> string option \<Rightarrow> bool" where
  "may_enter p dataset \<longleftrightarrow> (case dataset of None \<Rightarrow> True
     | Some d \<Rightarrow> pr_role p = ''admin'' \<or> (case pr_namespaces p of None \<Rightarrow> False | Some nss \<Rightarrow> d \<in> set nss))"

lemma may_enter_context: "may_enter p (Some d) \<longleftrightarrow> is_admin (to_context p) \<or> in_namespace (to_context p) d"
  by (simp add: may_enter_def is_admin_def in_namespace_def to_context_def)

lemma authorize_cases:
  assumes "server_ok sv" "\<not> open_dataset svc dataset"
  shows "(\<exists>p sv'. caller sha header sv p \<and> may_enter p dataset \<and> authorize sha now svc dataset header sv = (Inr (Some (to_context p)), sv') \<and> reads_only sv sv')
    \<or> ((\<nexists>p. caller sha header sv p \<and> may_enter p dataset) \<and> (\<exists>e sv'. authorize sha now svc dataset header sv = (Inl e, sv') \<and> reads_only sv sv'))"
proof -
  obtain cs where cs: "sv_store sv = Some cs" using assms(1) by (auto simp: server_ok_def)
  have go: "\<not> (case (dataset, svc) of (Some d, Some s) \<Rightarrow> \<not> ss_auth_required s d | _ \<Rightarrow> False)" using assms(2) by (simp add: open_dataset_def)
  show ?thesis
  proof (cases "parse_bearer header")
    case None
    then show ?thesis using cs go by (auto simp: authorize_def caller_def)
  next
    case (Some token)
    show ?thesis using check_token_cases [OF assms(1) cs, of sha token now]
    proof (elim disjE exE conjE)
      fix p sv' assume g: "grants sha token cs p" "check_token sha now token cs sv = (Inr (to_context p), sv')" "reads_only sv sv'"
      then have p: "caller sha header sv p" using Some cs by (auto simp: caller_def)
      show ?thesis
      proof (cases "may_enter p dataset")
        case True
        then have "authorize sha now svc dataset header sv = (Inr (Some (to_context p)), sv')"
          using cs go Some g by (cases dataset) (auto simp: authorize_def may_enter_context split: option.splits)
        then show ?thesis using p True g(3) by blast
      next
        case False
        then obtain d where d: "dataset = Some d" "\<not> may_enter p (Some d)" by (cases dataset) (auto simp: may_enter_def)
        then have "\<exists>e fs. authorize sha now svc dataset header sv = (Inl e, log_at ''permission.denied'' fs sv')"
          using cs go Some g by (auto simp: authorize_def may_enter_context split: option.splits)
        moreover have "\<nexists>q. caller sha header sv q \<and> may_enter q dataset" using False caller_unique [OF assms(1) p] by blast
        ultimately show ?thesis using g(3) by auto
      qed
    next
      fix e sv' assume f: "\<nexists>p. grants sha token cs p" "check_token sha now token cs sv = (Inl e, sv')" "reads_only sv sv'"
      then have "authorize sha now svc dataset header sv = (Inl e, sv')"
        using cs go Some by (auto simp: authorize_def split: option.splits)
      then show ?thesis using f Some cs by (auto simp: caller_def)
    qed
  qed
qed

lemma authorize_exact:
  assumes "server_ok sv" "\<not> open_dataset svc dataset"
  shows "fst (authorize sha now svc dataset header sv) = Inr r \<longleftrightarrow> (\<exists>p. caller sha header sv p \<and> may_enter p dataset \<and> r = Some (to_context p))"
  using authorize_cases [OF assms, of sha header now] caller_unique [OF assms(1), of sha header] by (metis Inl_Inr_False Inr_inject fst_conv)

lemma authorize_reads_only:
  assumes "server_ok sv" "authorize sha now svc dataset header sv = (r, sv')"
  shows "reads_only sv sv'"
proof (cases "open_dataset svc dataset")
  case True
  then show ?thesis using assms by (auto simp: authorize_def open_dataset_def server_ok_def)
next
  case False
  then show ?thesis using authorize_cases [OF assms(1) False, of sha header now] assms(2) by auto
qed

lemma require_admin_strict_reads_only:
  assumes "server_ok sv" "require_admin_strict sha now header sv = (r, sv')"
  shows "reads_only sv sv'"
proof -
  obtain cs where cs: "sv_store sv = Some cs" using assms(1) by (auto simp: server_ok_def)
  show ?thesis
  proof (cases "parse_bearer header")
    case None
    then show ?thesis using assms cs by (auto simp: require_admin_strict_def)
  next
    case (Some token)
    show ?thesis using check_token_cases [OF assms(1) cs, of sha token now] assms(2) cs Some
      by (auto simp: require_admin_strict_def split: if_splits)
  qed
qed

lemma endpoint_ok:
  assumes "cred_ok cs" "written cs dk" "fresh_for sha fr cs" "endpoint sha fr svc c req cs dk = (r, cs', dk')"
  shows "cred_ok cs' \<and> written cs' dk'"
proof (cases req)
  case (CreatePrincipal handle role ns comment)
  then show ?thesis using assms create_principal_ok [OF assms(1-3), of handle role ns comment "Some (ac_principal c)"]
    by (auto simp: endpoint_def split: if_splits prod.splits sum.splits)
next
  case (UpdatePrincipal i u)
  then show ?thesis using assms update_principal_ok [OF assms(1,2), of fr i u "Some (ac_principal c)"]
    by (auto simp: endpoint_def split: if_splits prod.splits sum.splits)
next
  case (CreateKey name)
  then show ?thesis using assms create_key_ok [OF assms(1-3), of "ac_principal c" name "Some (ac_principal c)"]
    by (auto simp: endpoint_def split: if_splits prod.splits sum.splits)
next
  case (RevokeKey kid)
  then show ?thesis using assms revoke_key_ok [OF assms(1,2), of fr kid "Some (ac_principal c)"]
    by (auto simp: endpoint_def split: if_splits prod.splits sum.splits option.splits)
qed (use assms in \<open>auto simp: endpoint_def split: option.splits\<close>)

text \<open>A request is answered by the body of its endpoint exactly when its caller is known, and is an administrator where the route asks for one.\<close>

lemma serve_cases:
  assumes "server_ok sv"
  shows "(\<exists>p sv' cs' res cs'' dk. caller sha header sv p \<and> (admin_only req \<longrightarrow> pr_role p = ''admin'') \<and> reads_only sv sv' \<and> sv_store sv' = Some cs'
        \<and> endpoint sha fr svc (to_context p) req cs' (sv_disk sv') = (res, cs'', dk) \<and> serve sha fr svc header req sv = (res, \<lparr>sv_store = Some cs'', sv_disk = dk\<rparr>))
    \<or> (\<exists>e sv'. serve sha fr svc header req sv = (Inl e, sv') \<and> reads_only sv sv')"
proof -
  let ?now = "fr_clock fr ''used''"
  have some: "sv_store sv \<noteq> None" using assms by (auto simp: server_ok_def)
  have "\<not> open_dataset svc None" by (simp add: open_dataset_def)
  from authorize_cases [OF assms this, of sha header ?now] show ?thesis
  proof (elim disjE exE conjE)
    fix p sv' assume a: "caller sha header sv p" "authorize sha ?now svc None header sv = (Inr (Some (to_context p)), sv')" "reads_only sv sv'"
    obtain cs' where cs': "sv_store sv' = Some cs'" using reads_only_ok [OF assms a(3)] by (auto simp: server_ok_def)
    show ?thesis
    proof (cases "admin_only req \<and> pr_role p \<noteq> ''admin''")
      case True
      then have "\<exists>e r. serve sha fr svc header req sv = (Inl e, denied r (to_context p) sv')"
        using some a(2) cs' by (auto simp: serve_def require_principal_def require_admin_def is_admin_def to_context_def)
      then show ?thesis using a(3) by auto
    next
      case False
      obtain res cs'' dk where e: "endpoint sha fr svc (to_context p) req cs' (sv_disk sv') = (res, cs'', dk)" by (metis prod_cases3)
      then have "serve sha fr svc header req sv = (res, \<lparr>sv_store = Some cs'', sv_disk = dk\<rparr>)"
        using False some a(2) cs' by (cases "admin_only req") (auto simp: serve_def Let_def require_principal_def require_admin_def is_admin_def to_context_def)
      then show ?thesis using a(1,3) cs' e False by blast
    qed
  next
    fix e sv' assume "authorize sha ?now svc None header sv = (Inl e, sv')" "reads_only sv sv'"
    then have "serve sha fr svc header req sv = (Inl e, sv') \<and> reads_only sv sv'"
      using some by (auto simp: serve_def Let_def require_principal_def require_admin_def)
    then show ?thesis by blast
  qed
qed

lemma fresh_for_same:
  assumes "fresh_for sha fr cs" "same_but_use cs cs'" "cred_ok cs'"
  shows "fresh_for sha fr cs'"
proof -
  have "ak_hash k \<noteq> sha (generate_token (fr_token fr))" if k: "(i, k) \<in> set (cs_keys cs')" for i k
  proof -
    have "keyed cs' i = Some k" using k assms(3) by (simp add: cred_ok_def)
    then obtain l where "keyed cs i = Some l" "unused l = unused k" using same_but_use_key [OF assms(2)] by blast
    then show ?thesis using fresh_hash [OF assms(1)] unused_eqD(3) by metis
  qed
  moreover have "keyed cs' (new_id ''k'' (fr_key fr)) = None"
    using assms(1,2) unfolding fresh_for_def same_but_use_def by (metis map_option_is_None)
  ultimately show ?thesis using assms(1,2) by (auto simp: fresh_for_def same_but_use_def list_all_iff)
qed

lemma serve_ok:
  assumes "server_ok sv" "\<And>cs. sv_store sv = Some cs \<Longrightarrow> fresh_for sha fr cs" "serve sha fr svc header req sv = (r, sv')"
  shows "server_ok sv'"
proof -
  from serve_cases [OF assms(1), of sha header req fr svc] show ?thesis
  proof (elim disjE exE conjE)
    fix p sv1 cs' res cs'' dk
    assume h: "reads_only sv sv1" "sv_store sv1 = Some cs'" "endpoint sha fr svc (to_context p) req cs' (sv_disk sv1) = (res, cs'', dk)"
      "serve sha fr svc header req sv = (res, \<lparr>sv_store = Some cs'', sv_disk = dk\<rparr>)"
    obtain cs where cs: "sv_store sv = Some cs" "same_but_use cs cs'" "cred_ok cs'" "written cs' (sv_disk sv1)"
      using assms(1) h(1,2) by (auto simp: server_ok_def reads_only_def)
    then have "cred_ok cs'' \<and> written cs'' dk" using endpoint_ok [OF cs(3,4) fresh_for_same [OF assms(2) [OF cs(1)] cs(2,3)] h(3)] by blast
    then show ?thesis using assms(3) h(4) by (auto simp: server_ok_def)
  next
    fix e sv1 assume "serve sha fr svc header req sv = (Inl e, sv1)" "reads_only sv sv1"
    then show ?thesis using assms(1,3) reads_only_ok by simp
  qed
qed

section \<open>Restarts\<close>

lemma fold_update_new:
  assumes "distinct (map f xs)" "set (map f xs) \<inter> fst ` set d = {}"
  shows "fold (\<lambda>x. AList.update (f x) (g x)) xs d = d @ map (\<lambda>x. (f x, g x)) xs"
  using assms
proof (induction xs arbitrary: d)
  case Nil
  then show ?case by simp
next
  case (Cons x xs)
  have "AList.update (f x) (g x) d = d @ [(f x, g x)]" if "f x \<notin> fst ` set d"
    using that by (induction d) auto
  then show ?case using Cons by auto
qed

lemma fold_put_principals: "cs_principals (fold put_principal ps cs) = fold (\<lambda>p. AList.update (pr_id p) p) ps (cs_principals cs)
    \<and> cs_keys (fold put_principal ps cs) = cs_keys cs \<and> cs_by_hash (fold put_principal ps cs) = cs_by_hash cs"
  by (induction ps arbitrary: cs) (simp_all add: put_principal_def)

lemma fold_add_keys: "cs_principals (fold add_key ks cs) = cs_principals cs
    \<and> cs_keys (fold add_key ks cs) = fold (\<lambda>k. AList.update (ak_id k) k) ks (cs_keys cs)
    \<and> cs_by_hash (fold add_key ks cs) = fold (\<lambda>k. AList.update (ak_hash k) (ak_id k)) ks (cs_by_hash cs)"
  by (induction ks arbitrary: cs) (simp_all add: add_key_def)

lemma load_from_disk_parts:
  assumes "af_principals dk = Some ps" "af_keys dk = Some ks" "distinct (map pr_id ps)" "distinct (map ak_id ks)" "distinct (map ak_hash ks)"
  shows "cs_principals (load_from_disk dk) = map (\<lambda>p. (pr_id p, p)) ps" "cs_keys (load_from_disk dk) = map (\<lambda>k. (ak_id k, k)) ks"
    "cs_by_hash (load_from_disk dk) = map (\<lambda>k. (ak_hash k, ak_id k)) ks"
  using assms fold_update_new [of pr_id ps "[]" "\<lambda>p. p"] fold_update_new [of ak_id ks "[]" "\<lambda>k. k"] fold_update_new [of ak_hash ks "[]" ak_id]
  by (simp_all add: load_from_disk_def fold_add_keys fold_put_principals no_credentials_def)

lemma map_fst_ids:
  assumes "keys_distinct d" "\<And>i x. map_of d i = Some x \<Longrightarrow> f x = i"
  shows "map (f \<circ> snd) d = map fst d" "map (\<lambda>x. (f x, x)) (map snd d) = d"
proof -
  have "f x = i" if "(i, x) \<in> set d" for i x using that assms by simp
  then show "map (f \<circ> snd) d = map fst d" "map (\<lambda>x. (f x, x)) (map snd d) = d" by (auto intro: map_idI)
qed

lemma keys_inv_same:
  assumes "keys_inv P K" "\<And>i. map_option unused (K' i) = map_option unused (K i)"
  shows "keys_inv P K'"
proof -
  have same: "\<exists>l. K i = Some l \<and> unused l = unused k" if "K' i = Some k" for i k
    using assms(2) [of i] that by (metis map_option_eq_Some option.simps(9))
  have "ak_id k = i \<and> P (ak_principal k) \<noteq> None" if "K' i = Some k" for i k
    using same [OF that] assms(1) unused_eqD unfolding keys_inv_def by metis
  moreover have "i = j" if "K' i = Some k" "K' j = Some l" "ak_hash k = ak_hash l" for i j k l
    using same [OF that(1)] same [OF that(2)] that(3) keys_inv_hash [OF assms(1)] unused_eqD(3) by metis
  ultimately show ?thesis unfolding keys_inv_def by blast
qed

lemma index_inv_of_list:
  assumes "distinct (map ak_id ks)" "distinct (map ak_hash ks)"
  shows "index_inv (map_of (map (\<lambda>k. (ak_id k, k)) ks)) (map_of (map (\<lambda>k. (ak_hash k, ak_id k)) ks))"
proof -
  have "keys_distinct (map (\<lambda>k. (ak_id k, k)) ks)" "keys_distinct (map (\<lambda>k. (ak_hash k, ak_id k)) ks)" using assms by (simp_all add: comp_def)
  then show ?thesis unfolding index_inv_def by auto
qed

lemma load_written:
  assumes "cred_ok cs" "written cs dk"
  shows "\<exists>cs'. load_auth_store dk = Some cs' \<and> cred_ok cs' \<and> written cs' dk \<and> same_but_use cs cs'"
proof -
  obtain ks where ks: "af_principals dk = Some (map snd (cs_principals cs))" "af_keys dk = Some ks" "map unused ks = map (unused \<circ> snd) (cs_keys cs)"
    using assms(2) by (auto simp: written_def)
  have ok: "keys_distinct (cs_principals cs)" "keys_distinct (cs_keys cs)" "principals_inv (prins cs)" "keys_inv (prins cs) (keyed cs)"
    using assms(1) by (simp_all add: cred_ok_def)
  have pid: "map (pr_id \<circ> snd) (cs_principals cs) = map fst (cs_principals cs)" "map (\<lambda>p. (pr_id p, p)) (map snd (cs_principals cs)) = cs_principals cs"
    using ok(1,3) by (intro map_fst_ids; simp add: principals_inv_def)+
  have kid: "map (ak_id \<circ> snd) (cs_keys cs) = map fst (cs_keys cs)"
    using ok(2,4) by (intro map_fst_ids; simp add: keys_inv_def)
  have of_ks: "map f ks = map (f \<circ> snd) (cs_keys cs)" if "\<And>k. f (unused k) = f k" for f :: "api_key \<Rightarrow> string"
  proof -
    have "map f ks = map f (map unused ks)" using that by simp
    then show ?thesis using ks(3) that by simp
  qed
  have "inj_on (ak_hash \<circ> snd) (set (cs_keys cs))"
  proof (rule inj_onI)
    fix x y assume xy: "x \<in> set (cs_keys cs)" "y \<in> set (cs_keys cs)" "(ak_hash \<circ> snd) x = (ak_hash \<circ> snd) y"
    then have "keyed cs (fst x) = Some (snd x)" "keyed cs (fst y) = Some (snd y)" using ok(2) by simp_all
    then show "x = y" using keys_inv_hash [OF ok(4), of "fst x" "snd x" "fst y" "snd y"] xy(3) by (metis comp_apply option.inject prod_eqI)
  qed
  moreover have "distinct (cs_keys cs)" using ok(2) by (simp add: distinct_map)
  ultimately have dist: "distinct (map ak_id ks)" "distinct (map ak_hash ks)"
    using ok(2) unfolding of_ks [of ak_id, OF unused_simps(1)] of_ks [of ak_hash, OF unused_simps(3)] kid by (simp_all add: distinct_map)
  have parts: "cs_principals (load_from_disk dk) = cs_principals cs" "cs_keys (load_from_disk dk) = map (\<lambda>k. (ak_id k, k)) ks"
      "cs_by_hash (load_from_disk dk) = map (\<lambda>k. (ak_hash k, ak_id k)) ks"
    using load_from_disk_parts [OF ks(1,2) _ dist] pid ok(1) by simp_all
  have same: "map_option unused (keyed (load_from_disk dk) i) = map_option unused (keyed cs i)" for i
  proof -
    have "map_option unused (keyed (load_from_disk dk) i) = map_of (map (\<lambda>k. (ak_id k, k)) (map unused ks)) i"
      unfolding parts by (induction ks) auto
    also have "\<dots> = map_of (map (\<lambda>(i, k). (i, unused k)) (map (\<lambda>k. (ak_id k, k)) (map snd (cs_keys cs)))) i"
      unfolding ks(3) by (simp add: comp_def)
    also have "map (\<lambda>k. (ak_id k, k)) (map snd (cs_keys cs)) = cs_keys cs" using ok(2,4) by (intro map_fst_ids; simp add: keys_inv_def)
    finally show ?thesis by (simp add: map_of_map)
  qed
  have "cred_ok (load_from_disk dk)"
    using ok keys_inv_same [OF ok(4) same] index_inv_of_list [OF dist] dist(1) by (simp add: cred_ok_def parts comp_def)
  moreover have "written (load_from_disk dk) dk" using ks by (simp add: written_def parts comp_def)
  ultimately show ?thesis using ks(1) same by (auto simp: load_auth_store_def same_but_use_def parts)
qed

lemma restart_reads_only: "reads_only sv (start_server (sv_disk sv))"
  using load_written by (auto simp: reads_only_def start_server_def)

section \<open>Runs of the server\<close>

text \<open>What happens to a running server: requests of the API, the guards of the other routes, restarts.\<close>

inductive auth_step :: "(string \<Rightarrow> string) \<Rightarrow> auth_server \<Rightarrow> auth_server \<Rightarrow> bool" for sha where
  request: "(\<And>cs. sv_store sv = Some cs \<Longrightarrow> fresh_for sha fr cs) \<Longrightarrow> serve sha fr svc header req sv = (r, sv') \<Longrightarrow> auth_step sha sv sv'"
| guard: "authorize sha now svc dataset header sv = (g, sv') \<Longrightarrow> auth_step sha sv sv'"
| admin_guard: "require_admin_strict sha now header sv = (a, sv') \<Longrightarrow> auth_step sha sv sv'"
| restart: "auth_step sha sv (start_server (sv_disk sv))"

text \<open>The states a server can be in: after initialization, along a run, and after the administrator has been reset.\<close>

inductive auth_reach :: "(string \<Rightarrow> string) \<Rightarrow> auth_server \<Rightarrow> bool" for sha where
  init: "cmd_init sha fr tok handle dk = (0, dk') \<Longrightarrow> auth_reach sha (start_server dk')"
| step: "auth_reach sha sv \<Longrightarrow> auth_step sha sv sv' \<Longrightarrow> auth_reach sha sv'"
| reset: "auth_reach sha sv \<Longrightarrow> cmd_reset_admin sha confirm fr tok handle (sv_disk sv) = (0, dk') \<Longrightarrow> auth_reach sha (start_server dk')"

lemma cred_ok_none [simp]: "cred_ok no_credentials"
  by (simp add: cred_ok_def no_credentials_def principals_inv_def keys_inv_def index_inv_def)

lemma bootstrap_ok:
  assumes "bootstrap sha fr tok handle dk = (Inr (cs, t), dk')"
  shows "server_ok (start_server dk')"
proof -
  define p where "p = \<lparr>pr_id = new_id ''u'' (fr_principal fr), pr_handle = handle, pr_role = ''admin'', pr_namespaces = None,
                   pr_created_at = fr_clock fr ''principal'', pr_disabled_at = None, pr_note = ''Bootstrap admin (root)''\<rparr>"
  have eq: "cs = add_key (new_api_key sha fr t (pr_id p) ''bootstrap'') (put_principal p no_credentials)"
    "\<exists>k. dk' = created_entries p k (Some ''bootstrap'') (persist_keys cs (persist_principals cs dk))"
    using assms by (auto simp: bootstrap_def Let_def p_def split: if_splits option.splits)
  have "cred_ok (put_principal p no_credentials)"
    using cred_ok_none by (rule cred_ok_put) (simp_all add: p_def role_error_def valid_roles_def no_credentials_def)
  then have "cred_ok cs" unfolding eq(1)
    by (rule cred_ok_add_key) (simp_all add: put_principal_def no_credentials_def new_api_key_def)
  moreover have "written cs dk'" using eq(2) by auto
  ultimately show ?thesis using load_written by (force simp: server_ok_def start_server_def)
qed

lemma auth_step_ok: "auth_step sha sv sv' \<Longrightarrow> server_ok sv \<Longrightarrow> server_ok sv'"
proof (induction rule: auth_step.induct)
  case (request sv fr svc header req r sv')
  then show ?case using serve_ok by blast
next
  case (guard now svc dataset header sv g sv')
  then show ?case using authorize_reads_only reads_only_ok by blast
next
  case (admin_guard now header sv a sv')
  then show ?case using require_admin_strict_reads_only reads_only_ok by blast
next
  case (restart sv)
  then show ?case using restart_reads_only reads_only_ok by blast
qed

lemma auth_reach_ok: "auth_reach sha sv \<Longrightarrow> server_ok sv"
proof (induction rule: auth_reach.induct)
  case (init fr tok handle dk dk')
  then show ?case using bootstrap_ok by (auto simp: cmd_init_def split: prod.splits sum.splits if_splits)
next
  case (step sv sv')
  then show ?case using auth_step_ok by blast
next
  case (reset sv confirm fr tok handle dk')
  then show ?case using bootstrap_ok by (auto simp: cmd_reset_admin_def split: prod.splits sum.splits if_splits)
qed

section \<open>Revocation\<close>

definition revoked_in :: "(string \<Rightarrow> string) \<Rightarrow> string \<Rightarrow> auth_server \<Rightarrow> bool" where
  "revoked_in sha token sv \<longleftrightarrow> (\<exists>cs i k. sv_store sv = Some cs \<and> keyed cs i = Some k \<and> ak_hash k = sha token \<and> is_revoked k)"

lemma revoked_no_caller:
  assumes "server_ok sv" "revoked_in sha token sv" "parse_bearer header = Some token"
  shows "\<not> caller sha header sv p"
proof
  assume "caller sha header sv p"
  then obtain cs i k where c: "sv_store sv = Some cs" "keyed cs i = Some k" "ak_hash k = sha token" "\<not> is_revoked k"
    using assms(3) by (auto simp: caller_def grants_def holds_key_def)
  obtain j l where l: "keyed cs j = Some l" "ak_hash l = sha token" "is_revoked l" using assms(2) c(1) by (auto simp: revoked_in_def)
  have "keys_inv (prins cs) (keyed cs)" using assms(1) c(1) by (auto simp: server_ok_def cred_ok_def)
  then have "i = j" using keys_inv_hash c(2,3) l(1,2) by metis
  then show False using c l by simp
qed

lemma reads_only_revoked:
  assumes "server_ok sv" "reads_only sv sv'" "revoked_in sha token sv"
  shows "revoked_in sha token sv'"
proof -
  obtain cs i k where c: "sv_store sv = Some cs" "keyed cs i = Some k" "ak_hash k = sha token" "is_revoked k"
    using assms(3) unfolding revoked_in_def by blast
  obtain cs' where cs': "sv_store sv' = Some cs'" "same_but_use cs cs'" using assms(1,2) c(1) by (auto simp: reads_only_def server_ok_def)
  obtain k' where "keyed cs' i = Some k'" "unused k' = unused k" using same_but_use_key [OF same_but_use_sym [OF cs'(2)] c(2)] by blast
  then show ?thesis unfolding revoked_in_def using cs'(1) unused_eqD c(3,4) by metis
qed

text \<open>What the body of an endpoint does to one key: it keeps it, or it is the key the request revokes.\<close>

lemma endpoint_key:
  assumes "fresh_for sha fr cs" "endpoint sha fr svc c req cs dk = (r, cs', dk')" "keyed cs i = Some k"
  shows "keyed cs' i = Some k \<or> req = RevokeKey i \<and> (is_admin c \<or> (\<exists>l. find (\<lambda>k. ak_id k = i) (list_keys None cs) = Some l \<and> ak_principal l = ac_principal c))
           \<and> \<not> is_revoked k \<and> (\<exists>t. keyed cs' i = Some (k\<lparr>ak_revoked_at := Some t\<rparr>))"
proof (cases req)
  case (CreatePrincipal handle role ns comment)
  then show ?thesis using assms
    by (auto simp: endpoint_def create_principal_def Let_def add_key_def put_principal_def new_api_key_def fresh_for_def split: if_splits option.splits)
next
  case (UpdatePrincipal j u)
  then show ?thesis using assms by (auto simp: endpoint_def update_principal_def Let_def split: if_splits option.splits sum.splits)
next
  case (CreateKey name)
  then show ?thesis using assms
    by (auto simp: endpoint_def create_key_def Let_def add_key_def new_api_key_def fresh_for_def split: if_splits)
next
  case (RevokeKey kid)
  then show ?thesis using assms
    by (cases "kid = i") (auto simp: endpoint_def revoke_key_def Let_def split: if_splits option.splits sum.splits prod.splits)
qed (use assms in \<open>auto simp: endpoint_def split: option.splits\<close>)

text \<open>A key the answer of an endpoint adds belongs to the caller, unless the caller is an administrator.\<close>

lemma endpoint_new_key:
  assumes "endpoint sha fr svc c req cs dk = (r, cs', dk')" "\<not> admin_only req" "keyed cs i = None" "keyed cs' i = Some k"
  shows "ak_principal k = ac_principal c"
proof (cases req)
  case (CreateKey name)
  then show ?thesis using assms
    by (auto simp: endpoint_def create_key_def Let_def add_key_def new_api_key_def split: if_splits)
next
  case (RevokeKey kid)
  then show ?thesis using assms
    by (auto simp: endpoint_def revoke_key_def Let_def split: if_splits option.splits sum.splits prod.splits)
qed (use assms in \<open>auto simp: endpoint_def split: option.splits\<close>)

lemma endpoint_principals:
  assumes "endpoint sha fr svc c req cs dk = (r, cs', dk')" "\<not> admin_only req"
  shows "cs_principals cs' = cs_principals cs"
proof (cases req)
  case (CreateKey name)
  then show ?thesis using assms by (auto simp: endpoint_def create_key_def Let_def add_key_def split: if_splits)
next
  case (RevokeKey kid)
  then show ?thesis using assms
    by (auto simp: endpoint_def revoke_key_def Let_def split: if_splits option.splits sum.splits prod.splits)
qed (use assms in \<open>auto simp: endpoint_def split: option.splits\<close>)

lemma find_by_id: "list_all (\<lambda>(j, l). ak_id l = j) d \<Longrightarrow> find (\<lambda>k. ak_id k = i) (map snd d) = map_of d i"
  by (induction d) (auto split: prod.splits)

lemma find_key:
  assumes "cred_ok cs" "keyed cs i = Some k"
  shows "find (\<lambda>k. ak_id k = i) (list_keys None cs) = Some k"
proof -
  have "ak_id l = j" if "(j, l) \<in> set (cs_keys cs)" for j l using that assms(1) by (simp add: cred_ok_def keys_inv_def)
  then have "list_all (\<lambda>(j, l). ak_id l = j) (cs_keys cs)" by (auto simp: list_all_iff)
  then show ?thesis using assms(2) find_by_id [of "cs_keys cs" i] by (simp add: list_keys_def)
qed

lemma serve_revoked:
  assumes "server_ok sv" "\<And>cs. sv_store sv = Some cs \<Longrightarrow> fresh_for sha fr cs" "serve sha fr svc header req sv = (r, sv')" "revoked_in sha token sv"
  shows "revoked_in sha token sv'"
  using serve_cases [OF assms(1), of sha header req fr svc]
proof (elim disjE exE conjE)
  fix p sv1 cs1 res cs2 dk
  assume h: "reads_only sv sv1" "sv_store sv1 = Some cs1" "endpoint sha fr svc (to_context p) req cs1 (sv_disk sv1) = (res, cs2, dk)"
    "serve sha fr svc header req sv = (res, \<lparr>sv_store = Some cs2, sv_disk = dk\<rparr>)"
  obtain cs where cs: "sv_store sv = Some cs" "same_but_use cs cs1" "cred_ok cs1"
    using assms(1) h(1,2) by (auto simp: server_ok_def reads_only_def)
  obtain i k where k: "keyed cs1 i = Some k" "ak_hash k = sha token" "is_revoked k"
    using reads_only_revoked [OF assms(1) h(1) assms(4)] h(2) by (auto simp: revoked_in_def)
  then have "keyed cs2 i = Some k" using endpoint_key [OF fresh_for_same [OF assms(2) [OF cs(1)] cs(2,3)] h(3) k(1)] by blast
  moreover have "sv_store sv' = Some cs2" using assms(3) h(4) by auto
  ultimately show ?thesis unfolding revoked_in_def using k(2,3) by blast
next
  fix e sv1 assume "serve sha fr svc header req sv = (Inl e, sv1)" "reads_only sv sv1"
  then show ?thesis using reads_only_revoked [OF assms(1) _ assms(4)] assms(3) by simp
qed

lemma auth_step_revoked: "auth_step sha sv sv' \<Longrightarrow> server_ok sv \<Longrightarrow> revoked_in sha token sv \<Longrightarrow> revoked_in sha token sv'"
proof (induction rule: auth_step.induct)
  case (request sv fr svc header req r sv')
  then show ?case using serve_revoked by blast
next
  case (guard now svc dataset header sv g sv')
  then show ?case using authorize_reads_only reads_only_revoked by blast
next
  case (admin_guard now header sv a sv')
  then show ?case using require_admin_strict_reads_only reads_only_revoked by blast
next
  case (restart sv)
  then show ?case using restart_reads_only reads_only_revoked by blast
qed

lemma auth_run_revoked:
  assumes "(auth_step sha)\<^sup>*\<^sup>* sv sv'" "server_ok sv" "revoked_in sha token sv"
  shows "server_ok sv' \<and> revoked_in sha token sv'"
  using assms by (induction rule: rtranclp_induct) (use auth_step_ok auth_step_revoked in blast)+

text \<open>The answer to a revocation names a key that is revoked from then on.\<close>

lemma serve_revoke_answer:
  assumes "server_ok sv" "\<And>cs. sv_store sv = Some cs \<Longrightarrow> fresh_for sha fr cs" "serve sha fr svc header (RevokeKey kid) sv = (Inr a, sv')"
    and "sv_store sv = Some cs" "keyed cs kid = Some k" "ak_hash k = sha token"
  shows "revoked_in sha token sv'"
  using serve_cases [OF assms(1), of sha header "RevokeKey kid" fr svc]
proof (elim disjE exE conjE)
  fix p sv1 cs1 res cs2 dk
  assume h: "reads_only sv sv1" "sv_store sv1 = Some cs1" "endpoint sha fr svc (to_context p) (RevokeKey kid) cs1 (sv_disk sv1) = (res, cs2, dk)"
    "serve sha fr svc header (RevokeKey kid) sv = (res, \<lparr>sv_store = Some cs2, sv_disk = dk\<rparr>)"
  have cs: "same_but_use cs cs1" "cred_ok cs1" using assms(1,4) h(1,2) by (auto simp: server_ok_def reads_only_def)
  obtain l where l: "keyed cs1 kid = Some l" "unused l = unused k" using same_but_use_key [OF same_but_use_sym [OF cs(1)] assms(5)] by blast
  have res: "res = Inr a" "sv' = \<lparr>sv_store = Some cs2, sv_disk = dk\<rparr>" using assms(3) h(4) by auto
  have "\<exists>l'. keyed cs2 kid = Some l' \<and> ak_hash l' = ak_hash l \<and> is_revoked l'"
    using h(3) find_key [OF cs(2) l(1)] l(1) unfolding res
    by (auto simp: endpoint_def revoke_key_def Let_def is_revoked_def split: if_splits)
  then show ?thesis unfolding revoked_in_def res using unused_eqD(3) [OF l(2)] assms(6) by (metis auth_server.select_convs(1))
next
  fix e sv1 assume "serve sha fr svc header (RevokeKey kid) sv = (Inl e, sv1)"
  then show ?thesis using assms(3) by simp
qed

section \<open>What a caller without the admin role can change\<close>

lemma serve_confined:
  assumes "server_ok sv" "sv_store sv = Some cs" "fresh_for sha fr cs" "serve sha fr svc header req sv = (r, sv')"
    and "\<And>p. caller sha header sv p \<Longrightarrow> pr_role p \<noteq> ''admin''"
  shows "\<exists>cs'. sv_store sv' = Some cs' \<and> cs_principals cs' = cs_principals cs
    \<and> (\<forall>i k. keyed cs i = Some k \<longrightarrow> (\<forall>p. caller sha header sv p \<longrightarrow> ak_principal k \<noteq> pr_id p) \<longrightarrow> map_option unused (keyed cs' i) = Some (unused k))
    \<and> (\<forall>i k. keyed cs i = None \<longrightarrow> keyed cs' i = Some k \<longrightarrow> (\<exists>p. caller sha header sv p \<and> ak_principal k = pr_id p))"
  using serve_cases [OF assms(1), of sha header req fr svc]
proof (elim disjE exE conjE)
  fix p sv1 cs1 res cs2 dk
  assume h: "caller sha header sv p" "admin_only req \<longrightarrow> pr_role p = ''admin''" "reads_only sv sv1" "sv_store sv1 = Some cs1"
    "endpoint sha fr svc (to_context p) req cs1 (sv_disk sv1) = (res, cs2, dk)" "serve sha fr svc header req sv = (res, \<lparr>sv_store = Some cs2, sv_disk = dk\<rparr>)"
  have user: "\<not> admin_only req" "\<not> is_admin (to_context p)" using h(1,2) assms(5) by (auto simp: is_admin_def to_context_def)
  have cs: "same_but_use cs cs1" "cred_ok cs1" using assms(1,2) h(3,4) by (auto simp: server_ok_def reads_only_def)
  have "map_option unused (keyed cs2 i) = Some (unused k)" if k: "keyed cs i = Some k" "\<forall>q. caller sha header sv q \<longrightarrow> ak_principal k \<noteq> pr_id q" for i k
  proof -
    obtain l where l: "keyed cs1 i = Some l" "unused l = unused k" using same_but_use_key [OF same_but_use_sym [OF cs(1)] k(1)] by blast
    have "ak_principal l \<noteq> ac_principal (to_context p)" using unused_eqD(2) [OF l(2)] k(2) h(1) by (simp add: to_context_def)
    then have "keyed cs2 i = Some l"
      using endpoint_key [OF fresh_for_same [OF assms(3) cs] h(5) l(1)] find_key [OF cs(2) l(1)] user by auto
    then show ?thesis using l(2) by simp
  qed
  moreover have "ak_principal k = pr_id p" if k: "keyed cs i = None" "keyed cs2 i = Some k" for i k
  proof -
    have "keyed cs1 i = None" using cs(1) k(1) unfolding same_but_use_def by (metis map_option_is_None)
    then show ?thesis using endpoint_new_key [OF h(5) user(1) _ k(2)] by (simp add: to_context_def)
  qed
  moreover have "cs_principals cs2 = cs_principals cs" using endpoint_principals [OF h(5) user(1)] cs(1) by (simp add: same_but_use_def)
  moreover have "sv_store sv' = Some cs2" using assms(4) h(6) by auto
  ultimately show ?thesis using h(1) by blast
next
  fix e sv1 assume f: "serve sha fr svc header req sv = (Inl e, sv1)" "reads_only sv sv1"
  then obtain cs1 where "sv_store sv' = Some cs1" "same_but_use cs cs1" using assms(1,2,4) by (auto simp: server_ok_def reads_only_def)
  then show ?thesis unfolding same_but_use_def by (metis map_option_is_None not_Some_eq option.simps(9))
qed

end
