(* ===== verification/AuthProperties.thy ===== *)
theory AuthProperties
  imports AuthSecurity
begin

text \<open>
  What the registry's authentication guarantees, over every state a server can reach through its API, its restarts
  and its commands, with a small deployment on which the statements are evaluated.
\<close>

section \<open>A deployment\<close>

text \<open>An administrator created by \<open>init\<close>, a provider of the data set \<open>d1\<close> created by it, and the revocation of the provider's key.\<close>

definition demo_sha :: "string \<Rightarrow> string" where
  "demo_sha s = CHR ''#'' # s"

definition demo_fresh :: "string \<Rightarrow> fresh" where
  "demo_fresh n = \<lparr>fr_principal = n, fr_key = n, fr_token = n, fr_clock = (\<lambda>_. ''now'')\<rparr>"

definition demo_service :: auth_service where
  "demo_service = \<lparr>ss_auth_required = (\<lambda>_. True), ss_dataset_exists = (\<lambda>_. True)\<rparr>"

definition demo_disk :: auth_disk where
  "demo_disk = snd (cmd_init demo_sha (demo_fresh ''1'') None ''root'' \<lparr>af_principals = None, af_keys = None, ad_audit = []\<rparr>)"

definition demo_start :: auth_server where
  "demo_start = start_server demo_disk"

definition demo_provider :: auth_server where
  "demo_provider = snd (serve demo_sha (demo_fresh ''2'') (Some demo_service) (Some ''Bearer a2x_pat_1'')
     (CreatePrincipal ''bob'' ''provider'' (Some [''d1'']) '''') demo_start)"

definition demo_revoked :: auth_server where
  "demo_revoked = snd (serve demo_sha (demo_fresh ''3'') (Some demo_service) (Some ''Bearer a2x_pat_2'') (RevokeKey ''k_2'') demo_provider)"

definition demo_restarted :: auth_server where
  "demo_restarted = start_server (sv_disk demo_revoked)"

definition opt_fresh_for :: "(string \<Rightarrow> string) \<Rightarrow> fresh \<Rightarrow> auth_server \<Rightarrow> bool" where
  "opt_fresh_for sha fr sv = (case sv_store sv of None \<Rightarrow> False | Some cs \<Rightarrow> fresh_for sha fr cs)"

lemma auth_step_serve: "opt_fresh_for sha fr sv \<Longrightarrow> auth_step sha sv (snd (serve sha fr svc header req sv))"
  by (rule auth_step.request [of _ _ fr svc header req "fst (serve sha fr svc header req sv)"]) (auto simp: opt_fresh_for_def)

lemma demo_start_reach: "auth_reach demo_sha demo_start"
proof -
  have "fst (cmd_init demo_sha (demo_fresh ''1'') None ''root'' \<lparr>af_principals = None, af_keys = None, ad_audit = []\<rparr>) = 0" by code_simp
  then show ?thesis unfolding demo_start_def demo_disk_def by (metis auth_reach.init prod.collapse)
qed

lemma demo_provider_reach: "auth_reach demo_sha demo_provider"
proof -
  have "opt_fresh_for demo_sha (demo_fresh ''2'') demo_start" by code_simp
  then show ?thesis unfolding demo_provider_def using auth_reach.step [OF demo_start_reach] auth_step_serve by blast
qed

section \<open>Properties\<close>

text \<open>
  C14. On a data set that requires authentication a request is admitted exactly when its bearer token opens an unrevoked
  key of an enabled principal that is an administrator or has the data set among its namespaces; the context it gets
  is that principal's.
\<close>

theorem protected_access_exact:
  assumes "auth_reach sha sv" "ss_auth_required s d"
  shows "fst (authorize sha now (Some s) (Some d) header sv) = Inr r
    \<longleftrightarrow> (\<exists>p. caller sha header sv p \<and> (pr_role p = ''admin'' \<or> (\<exists>nss. pr_namespaces p = Some nss \<and> d \<in> set nss)) \<and> r = Some (to_context p))"
proof -
  have ok: "server_ok sv" by (rule auth_reach_ok [OF assms(1)])
  have "may_enter p (Some d) \<longleftrightarrow> pr_role p = ''admin'' \<or> (\<exists>nss. pr_namespaces p = Some nss \<and> d \<in> set nss)" for p
    by (auto simp: may_enter_def split: option.splits)
  moreover have "\<not> open_dataset (Some s) (Some d)" using assms(2) by (simp add: open_dataset_def)
  ultimately show ?thesis using authorize_exact [OF ok, of "Some s" "Some d" sha now header r] by simp
qed

theorem protected_access_exact_witness:
  "auth_reach demo_sha demo_provider \<and> ss_auth_required demo_service ''d1''
   \<and> (\<exists>p. caller demo_sha (Some ''Bearer a2x_pat_2'') demo_provider p \<and> pr_id p = ''u_2'')
   \<and> \<not> (\<exists>p. caller demo_sha (Some ''Bearer a2x_pat_2'') demo_provider p \<and> (pr_role p = ''admin'' \<or> (\<exists>nss. pr_namespaces p = Some nss \<and> ''d2'' \<in> set nss)))"
proof -
  have req: "ss_auth_required demo_service d" for d by (simp add: demo_service_def)
  let ?a = "\<lambda>d. fst (authorize demo_sha ''now'' (Some demo_service) (Some d) (Some ''Bearer a2x_pat_2'') demo_provider)"
  have in1: "?a ''d1'' = Inr (Some \<lparr>ac_principal = ''u_2'', ac_role = ''provider'', ac_namespaces = Some [''d1'']\<rparr>)" by code_simp
  have out: "?a ''d2'' = Inl (HttpError 403 ''Principal lacks access to namespace'')" by code_simp
  note exact = protected_access_exact [OF demo_provider_reach req, of "''now''" _ "Some ''Bearer a2x_pat_2''"]
  have "\<exists>p. caller demo_sha (Some ''Bearer a2x_pat_2'') demo_provider p \<and> pr_id p = ''u_2''"
    using in1 unfolding exact by (auto simp: to_context_def)
  moreover have "?a ''d2'' \<noteq> Inr (Some c)" for c unfolding out by simp
  ultimately show ?thesis using demo_provider_reach req unfolding exact by blast
qed

text \<open>
  C15. Revocation is final: once the API has answered the revocation of a key, the token of that key opens no protected
  data set again, through any requests, guards and restarts that follow.
\<close>

theorem revocation_is_final:
  assumes "auth_reach sha sv" "sv_store sv = Some cs" "fresh_for sha fr cs"
    and "map_of (cs_keys cs) kid = Some k" "ak_hash k = sha token"
    and "serve sha fr svc admin (RevokeKey kid) sv = (Inr a, sv')" "(auth_step sha)\<^sup>*\<^sup>* sv' sv''"
    and "parse_bearer header = Some token" "ss_auth_required s d"
  shows "\<exists>e. fst (authorize sha now (Some s) (Some d) header sv'') = Inl e"
proof -
  have ok: "server_ok sv" by (rule auth_reach_ok [OF assms(1)])
  have "\<And>c. sv_store sv = Some c \<Longrightarrow> fresh_for sha fr c" using assms(2,3) by simp
  then have "server_ok sv'" "revoked_in sha token sv'"
    using serve_ok [OF ok _ assms(6)] serve_revoke_answer [OF ok _ assms(6,2,4,5)] by blast+
  then have end_ok: "server_ok sv''" "revoked_in sha token sv''" using auth_run_revoked [OF assms(7)] by blast+
  have "\<not> open_dataset (Some s) (Some d)" using assms(9) by (simp add: open_dataset_def)
  then show ?thesis using authorize_cases [OF end_ok(1), of "Some s" "Some d" sha header now] revoked_no_caller [OF end_ok assms(8)] by auto
qed

theorem revocation_is_final_witness:
  "\<exists>e. fst (authorize demo_sha ''now'' (Some demo_service) (Some ''d1'') (Some ''Bearer a2x_pat_2'') demo_restarted) = Inl e"
proof -
  obtain cs where cs: "sv_store demo_provider = Some cs" using auth_reach_ok [OF demo_provider_reach] by (auto simp: server_ok_def)
  have "opt_fresh_for demo_sha (demo_fresh ''3'') demo_provider" by code_simp
  then have fresh: "fresh_for demo_sha (demo_fresh ''3'') cs" using cs by (simp add: opt_fresh_for_def)
  have "map_option ak_hash (Option.bind (sv_store demo_provider) (\<lambda>cs. map_of (cs_keys cs) ''k_2'')) = Some (demo_sha ''a2x_pat_2'')" by code_simp
  then obtain k where k: "map_of (cs_keys cs) ''k_2'' = Some k" "ak_hash k = demo_sha ''a2x_pat_2''" using cs by auto
  have ans: "fst (serve demo_sha (demo_fresh ''3'') (Some demo_service) (Some ''Bearer a2x_pat_2'') (RevokeKey ''k_2'') demo_provider) = Inr (RevokedKey ''k_2'' (Some ''now''))"
    by code_simp
  have run: "(auth_step demo_sha)\<^sup>*\<^sup>* demo_revoked demo_restarted"
    unfolding demo_restarted_def by (rule r_into_rtranclp) (rule auth_step.restart)
  have tok: "parse_bearer (Some ''Bearer a2x_pat_2'') = Some ''a2x_pat_2''" by code_simp
  show ?thesis
    using revocation_is_final [OF demo_provider_reach cs fresh k _ run tok] ans
    unfolding demo_revoked_def by (metis auth_service.select_convs(1) demo_service_def prod.collapse)
qed

text \<open>
  C16. A restart changes no admission: the server started from the files admits the same requests to the same data sets
  with the same contexts as the one that wrote them.
\<close>

theorem restart_keeps_access:
  assumes "auth_reach sha sv"
  shows "fst (authorize sha now svc dataset header (start_server (sv_disk sv))) = Inr r \<longleftrightarrow> fst (authorize sha now svc dataset header sv) = Inr r"
proof -
  let ?sv = "start_server (sv_disk sv)"
  have ok: "server_ok sv" "server_ok ?sv" using auth_reach_ok [OF assms] restart_reads_only reads_only_ok by blast+
  obtain cs cs' where cs: "sv_store sv = Some cs" "sv_store ?sv = Some cs'" "same_but_use cs cs'"
    using ok(1) restart_reads_only [of sv] by (auto simp: server_ok_def reads_only_def)
  then have same: "caller sha header ?sv p = caller sha header sv p" for p using grants_same by (simp add: caller_def)
  show ?thesis
  proof (cases "open_dataset svc dataset")
    case True
    then show ?thesis using cs(1,2) by (auto simp: authorize_def open_dataset_def)
  next
    case False
    show ?thesis unfolding authorize_exact [OF ok(1) False] authorize_exact [OF ok(2) False] same ..
  qed
qed

theorem restart_keeps_access_witness:
  "fst (authorize demo_sha ''now'' (Some demo_service) (Some ''d1'') (Some ''Bearer a2x_pat_2'') (start_server (sv_disk demo_provider)))
   = Inr (Some \<lparr>ac_principal = ''u_2'', ac_role = ''provider'', ac_namespaces = Some [''d1'']\<rparr>)"
  unfolding restart_keeps_access [OF demo_provider_reach] by code_simp

text \<open>
  C17. A caller that is not an administrator changes no principal, and no key but its own, through any endpoint; a key that
  appears belongs to the caller.
\<close>

theorem only_admins_manage:
  assumes "auth_reach sha sv" "sv_store sv = Some cs" "fresh_for sha fr cs" "serve sha fr svc header req sv = (r, sv')"
    and "\<And>p. caller sha header sv p \<Longrightarrow> pr_role p \<noteq> ''admin''"
  shows "\<exists>cs'. sv_store sv' = Some cs' \<and> cs_principals cs' = cs_principals cs
    \<and> (\<forall>i k. map_of (cs_keys cs) i = Some k \<longrightarrow> (\<forall>p. caller sha header sv p \<longrightarrow> ak_principal k \<noteq> pr_id p)
          \<longrightarrow> map_option unused (map_of (cs_keys cs') i) = Some (unused k))
    \<and> (\<forall>i k. map_of (cs_keys cs) i = None \<longrightarrow> map_of (cs_keys cs') i = Some k \<longrightarrow> (\<exists>p. caller sha header sv p \<and> ak_principal k = pr_id p))"
  by (rule serve_confined [OF auth_reach_ok [OF assms(1)] assms(2-5)])

theorem only_admins_manage_witness:
  "\<exists>cs cs'. sv_store demo_provider = Some cs \<and> sv_store demo_revoked = Some cs' \<and> cs_principals cs' = cs_principals cs"
proof -
  obtain cs where cs: "sv_store demo_provider = Some cs" using auth_reach_ok [OF demo_provider_reach] by (auto simp: server_ok_def)
  have "opt_fresh_for demo_sha (demo_fresh ''3'') demo_provider" by code_simp
  then have fresh: "fresh_for demo_sha (demo_fresh ''3'') cs" using cs by (simp add: opt_fresh_for_def)
  have "fst (authorize demo_sha ''now'' (Some demo_service) None (Some ''Bearer a2x_pat_2'') demo_provider)
      = Inr (Some \<lparr>ac_principal = ''u_2'', ac_role = ''provider'', ac_namespaces = Some [''d1'']\<rparr>)" by code_simp
  then have user: "pr_role p \<noteq> ''admin''" if "caller demo_sha (Some ''Bearer a2x_pat_2'') demo_provider p" for p
    using authorize_cases [OF auth_reach_ok [OF demo_provider_reach], of "Some demo_service" None demo_sha "Some ''Bearer a2x_pat_2''" "''now''"]
      caller_unique [OF auth_reach_ok [OF demo_provider_reach] that] by (auto simp: open_dataset_def to_context_def)
  show ?thesis
    using only_admins_manage [OF demo_provider_reach cs fresh, of "Some demo_service" "Some ''Bearer a2x_pat_2''" "RevokeKey ''k_2''"
        "fst (serve demo_sha (demo_fresh ''3'') (Some demo_service) (Some ''Bearer a2x_pat_2'') (RevokeKey ''k_2'') demo_provider)" demo_revoked]
      cs user unfolding demo_revoked_def by (metis prod.collapse)
qed

end
