(* ===== verification/RegistryFormat.thy ===== *)
theory RegistryFormat
  imports PyInt
begin

text \<open>
  The registration formats of the registry (\<open>register/validation.py\<close>): the versions each type of service supports, the checks of
  each version, the search for the oldest version that accepts a payload, and the normalization of a data set's
  format configuration. A payload is the dictionary \<open>_to_dict\<close> yields.
\<close>

section \<open>Versions\<close>

text \<open>\<open>s.split(c)\<close> for a separator of one character.\<close>

fun split_at :: "char \<Rightarrow> string \<Rightarrow> string list" where
  "split_at c [] = [[]]"
| "split_at c (x # s) = (if x = c then [] # split_at c s
     else case split_at c s of [] \<Rightarrow> [[x]] | p # ps \<Rightarrow> (x # p) # ps)"

definition version_key :: "string \<Rightarrow> string + int list" where
  "version_key v =
     (if v = [] then Inl (''Invalid version: '' @ repr_str v)
      else traverse (\<lambda>p. case int_text p of None \<Rightarrow> Inl (''Invalid version string: '' @ repr_str v) | Some i \<Rightarrow> Inr i)
             (split_at (CHR ''.'') (if starts_with ''v'' v then tl v else v)))"

definition supported_versions :: "(string \<times> string list) list" where
  "supported_versions = [(''generic'', [''v0.0'']), (''a2a'', [''v0.0'', ''v1.0'']), (''skill'', [''v0.0''])]"

definition supported_types :: "string list" where
  "supported_types = map fst supported_versions"

definition default_formats :: "(string \<times> string) list" where
  "default_formats = map (\<lambda>t. (t, ''v0.0'')) supported_types"

section \<open>Checks\<close>

definition has_text :: "pyval \<Rightarrow> bool" where
  "has_text v = (case v of PStr s \<Rightarrow> strip s \<noteq> [] | _ \<Rightarrow> False)"

definition unless :: "bool \<Rightarrow> string \<Rightarrow> string list" where
  "unless b text = (if b then [] else [text])"

definition name_description_errors :: "pdict \<Rightarrow> string list" where
  "name_description_errors d =
     unless (has_text (dget d ''name'')) ''name is required'' @ unless (has_text (dget d ''description'')) ''description is required''"

definition a2a_v0_0 :: "pdict \<Rightarrow> string list \<times> string list" where
  "a2a_v0_0 d = (name_description_errors d,
     unless (truthy (dget d ''version'')) ''version is recommended''
     @ unless (truthy (dget d ''skills'')) ''skills is recommended (agent has no declared capabilities)'')"

text \<open>The skills of a card are a list; an element that is no dictionary is read as an empty one.\<close>

definition skill_errors :: "nat \<Rightarrow> pyval \<Rightarrow> string list" where
  "skill_errors i sk =
     (let s = as_dict sk; p = ''skills['' @ nat_str i @ '']'' in
      unless (has_text (dget s ''id'')) (p @ ''.id is required'') @ unless (has_text (dget s ''name'')) (p @ ''.name is required'')
      @ unless (has_text (dget s ''description'')) (p @ ''.description is required'')
      @ unless (truthy (dget s ''tags'')) (p @ ''.tags is required (at least one tag)''))"

definition skills_errors :: "pyval \<Rightarrow> string list" where
  "skills_errors v =
     (if \<not> truthy v then [''skills is required (at least one skill)'']
      else case v of PList sks \<Rightarrow> concat (map (\<lambda>(i, sk). skill_errors i sk) (enumerate 0 sks)) | _ \<Rightarrow> [])"

definition a2a_v1_0 :: "pdict \<Rightarrow> string list \<times> string list" where
  "a2a_v1_0 d =
     (let prov = as_dict (dget d ''provider'') in
      (name_description_errors d
       @ unless (has_text (dget d ''version'')) ''version is required''
       @ unless (has_text (dget d ''url'')) ''url (or supported_interfaces) is required''
       @ unless (dget d ''capabilities'' \<noteq> PNone) ''capabilities is required (can be empty object)''
       @ unless (truthy (dget d ''defaultInputModes'')) ''defaultInputModes is required''
       @ unless (truthy (dget d ''defaultOutputModes'')) ''defaultOutputModes is required''
       @ skills_errors (dget d ''skills'')
       @ (if prov = [] then []
          else unless (has_text (dget prov ''organization'')) ''provider.organization is required when provider is present''
               @ unless (has_text (dget prov ''url'')) ''provider.url is required when provider is present''),
       unless (has_text (dget d ''protocolVersion'')) ''protocolVersion is recommended''
       @ unless (prov \<noteq> []) ''provider is recommended''
       @ unless (has_text (dget d ''documentationUrl'')) ''documentationUrl is recommended''))"

definition check_version :: "string \<Rightarrow> pdict \<Rightarrow> string \<Rightarrow> string list \<times> string list" where
  "check_version t d v =
     (if t = ''a2a'' \<and> v = ''v1.0'' then a2a_v1_0 d
      else if v = ''v0.0'' then (if t = ''a2a'' then a2a_v0_0 d else (name_description_errors d, []))
      else ([''Unknown '' @ t @ '' version '' @ v], []))"

section \<open>Validation\<close>

record validation =
  vr_valid :: bool
  vr_type :: string
  vr_matched :: "string option"
  vr_errors :: "string list"
  vr_warnings :: "string list"

definition invalid :: "string \<Rightarrow> string list \<Rightarrow> string list \<Rightarrow> validation" where
  "invalid t errs warns = \<lparr>vr_valid = False, vr_type = t, vr_matched = None, vr_errors = errs, vr_warnings = warns\<rparr>"

text \<open>The loop over the versions; the errors of the newest version are the ones reported.\<close>

fun try_versions :: "string \<Rightarrow> pdict \<Rightarrow> string list \<Rightarrow> string list \<Rightarrow> string list \<Rightarrow> validation" where
  "try_versions t d [] errs warns =
     invalid t [''No allowed '' @ t @ '' version matched. Latest errors: '' @ join ''; '' errs] warns"
| "try_versions t d (v # vs) errs warns =
     (case check_version t d v of (errs', warns') \<Rightarrow>
        if errs' = [] then \<lparr>vr_valid = True, vr_type = t, vr_matched = Some v, vr_errors = [], vr_warnings = warns'\<rparr>
        else try_versions t d vs errs' warns')"

definition at_least :: "int list \<Rightarrow> string \<Rightarrow> bool" where
  "at_least threshold v = (case version_key v of Inl _ \<Rightarrow> False | Inr k \<Rightarrow> threshold \<le> k)"

definition validate_service :: "string \<Rightarrow> pdict \<Rightarrow> string \<Rightarrow> validation" where
  "validate_service t d min_version =
     (case map_of supported_versions t of
        None \<Rightarrow> invalid t [''Unknown service type '' @ repr_str t] []
      | Some versions \<Rightarrow>
          (case version_key min_version of
             Inl e \<Rightarrow> invalid t [e] []
           | Inr threshold \<Rightarrow>
               let vs = filter (at_least threshold) versions in
               if vs = [] then invalid t [''No '' @ t @ '' version >= '' @ min_version] []
               else try_versions t d vs [] []))"

text \<open>\<open>min(known, key=_version_key)\<close> over the versions the override allows.\<close>

definition validate_agent_card :: "pdict \<Rightarrow> string list \<Rightarrow> validation" where
  "validate_agent_card d allowed =
     (let known = filter (\<lambda>v. v \<in> set (case map_of supported_versions ''a2a'' of None \<Rightarrow> [] | Some vs \<Rightarrow> vs)) allowed in
      if known = [] then invalid ''a2a'' [''No known A2A versions in allowed set''] []
      else validate_service ''a2a'' d (hd (sort_key (\<lambda>v. case version_key v of Inr k \<Rightarrow> k | Inl _ \<Rightarrow> []) known)))"

definition min_version_of :: "pyval \<Rightarrow> pyval" where
  "min_version_of v = (case v of PDict d \<Rightarrow> dget_or d ''min_version'' (PStr ''v0.0'') | _ \<Rightarrow> v)"

fun normalize_formats :: "pdict \<Rightarrow> (string \<times> string) list \<Rightarrow> (string \<times> string) list" where
  "normalize_formats [] out = out"
| "normalize_formats ((t, v) # raw) out = normalize_formats raw
     (case (map_of supported_versions t, min_version_of v) of
        (Some versions, PStr s) \<Rightarrow> if s \<in> set versions then AList.update t s out else out
      | _ \<Rightarrow> out)"

definition normalize_format_config :: "pyval \<Rightarrow> (string \<times> string) list" where
  "normalize_format_config raw = normalize_formats (as_dict raw) []"

section \<open>What the checks amount to\<close>

lemma unless_Nil [simp]: "unless b t = [] \<longleftrightarrow> b"
  by (simp add: unless_def)

lemma name_description_errors_Nil: "name_description_errors d = [] \<longleftrightarrow> has_text (dget d ''name'') \<and> has_text (dget d ''description'')"
  by (simp add: name_description_errors_def)

lemma try_versions_valid:
  "vr_valid (try_versions t d vs errs warns) \<longleftrightarrow> (\<exists>v \<in> set vs. fst (check_version t d v) = [])"
  by (induction vs arbitrary: errs warns) (auto simp: invalid_def split: prod.splits)

lemma version_keys: "version_key ''v0.0'' = Inr [0, 0]" "version_key ''v1.0'' = Inr [1, 0]"
  by code_simp+

lemma at_least_simps [simp]:
  "at_least [0, 0] ''v0.0''" "at_least [0, 0] ''v1.0''" "\<not> at_least [1, 0] ''v0.0''" "at_least [1, 0] ''v1.0''"
  by (simp_all add: at_least_def version_keys)

text \<open>From \<open>v0.0\<close> on a payload is accepted exactly when it has a name and a description; a card held to \<open>v1.0\<close> has to pass that version's checks.\<close>

lemma validate_service_valid:
  assumes "map_of supported_versions t = Some versions" "version_key min_version = Inr threshold"
  shows "vr_valid (validate_service t d min_version) \<longleftrightarrow> (\<exists>v \<in> set versions. at_least threshold v \<and> fst (check_version t d v) = [])"
  using assms by (auto simp: validate_service_def Let_def try_versions_valid invalid_def filter_empty_conv)

lemma a2a_v1_needs_v0: "fst (a2a_v1_0 d) = [] \<Longrightarrow> name_description_errors d = []"
  by (simp add: a2a_v1_0_def Let_def)

lemma accepted_from_v0:
  assumes "t \<in> set supported_types"
  shows "vr_valid (validate_service t d ''v0.0'') \<longleftrightarrow> has_text (dget d ''name'') \<and> has_text (dget d ''description'')"
proof -
  consider "t = ''generic''" | "t = ''a2a''" | "t = ''skill''" using assms by (auto simp: supported_types_def supported_versions_def)
  then have "vr_valid (validate_service t d ''v0.0'') \<longleftrightarrow> name_description_errors d = []"
  proof cases
    case 2
    have "map_of supported_versions ''a2a'' = Some [''v0.0'', ''v1.0'']" by (simp add: supported_versions_def)
    from validate_service_valid [OF this version_keys(1), of d] show ?thesis
      using a2a_v1_needs_v0 [of d] unfolding 2 by (auto simp: check_version_def a2a_v0_0_def)
  qed (auto simp: validate_service_valid [OF _ version_keys(1)] supported_versions_def check_version_def)
  then show ?thesis by (simp add: name_description_errors_Nil)
qed

lemma accepted_a2a_v1: "vr_valid (validate_service ''a2a'' d ''v1.0'') \<longleftrightarrow> fst (a2a_v1_0 d) = []"
proof -
  have "map_of supported_versions ''a2a'' = Some [''v0.0'', ''v1.0'']" by (simp add: supported_versions_def)
  from validate_service_valid [OF this version_keys(2)] show ?thesis by (simp add: check_version_def)
qed

lemma map_of_normalize_formats:
  "map_of (normalize_formats raw out) t = Some v \<Longrightarrow>
     map_of out t = Some v \<or> (\<exists>versions. map_of supported_versions t = Some versions \<and> v \<in> set versions)"
proof (induction raw out rule: normalize_formats.induct)
  case (2 t' v' raw out)
  then show ?case by (auto split: option.splits pyval.splits if_splits)
qed simp

lemma normalize_format_config_known:
  "map_of (normalize_format_config raw) t = Some v \<Longrightarrow> \<exists>versions. map_of supported_versions t = Some versions \<and> v \<in> set versions"
  using map_of_normalize_formats [of "as_dict raw" "[]" t v] by (simp add: normalize_format_config_def)

end
