(* ===== verification/RegistryEntry.thy ===== *)
theory RegistryEntry
  imports RegistryFormat AuthStore
begin

text \<open>
  The entries of the registry (\<open>register/models.py\<close>), their form in the configuration files and in the output file
  (\<open>register/store.py\<close>, \<open>register/service.py\<close>, \<open>register/agent_card.py\<close>). An agent card is the dictionary its model dumps;
  the model library is the argument \<open>px\<close>: its constructors check a dictionary, its dumps leave out defaults or nulls.
\<close>

section \<open>Entries\<close>

record generic_data =
  gd_name :: string
  gd_description :: string
  gd_schema :: pdict
  gd_url :: "string option"

record skill_data =
  sk_name :: string
  sk_description :: string
  sk_license :: string
  sk_path :: string
  sk_files :: "string list"

datatype service_kind = Generic | A2A | Skill

datatype service_source = UserConfig | ApiConfig | Ephemeral | SkillFolder

record entry =
  en_id :: string
  en_kind :: service_kind
  en_source :: service_source
  en_generic :: "generic_data option"
  en_card :: "pdict option"
  en_card_url :: "string option"
  en_skill :: "skill_data option"
  en_owner :: "string option"
  en_ttl :: "int option"

fun kind_str :: "service_kind \<Rightarrow> string" where
  "kind_str Generic = ''generic''"
| "kind_str A2A = ''a2a''"
| "kind_str Skill = ''skill''"

fun source_str :: "service_source \<Rightarrow> string" where
  "source_str UserConfig = ''user_config''"
| "source_str ApiConfig = ''api_config''"
| "source_str Ephemeral = ''ephemeral''"
| "source_str SkillFolder = ''skill_folder''"

text \<open>What is not the registry's own code: SHA-256 (hex digest), the digest of a dumped list of pairs, the models, and the fetching of a card.\<close>

record outside =
  ox_sha :: "string \<Rightarrow> string"
  ox_pairs_hash :: "(string \<times> string) list \<Rightarrow> string"
  ox_card :: "pdict \<Rightarrow> exc + pdict"
  ox_card_no_none :: "pdict \<Rightarrow> pdict"
  ox_card_no_defaults :: "pdict \<Rightarrow> pdict"
  ox_generic :: "pdict \<Rightarrow> exc + generic_data"
  ox_skill :: "pdict \<Rightarrow> exc + skill_data"
  ox_fetch :: "string \<Rightarrow> exc + pdict"

definition opt_str :: "string option \<Rightarrow> pyval" where
  "opt_str s = (case s of None \<Rightarrow> PNone | Some t \<Rightarrow> PStr t)"

definition generic_dump :: "generic_data \<Rightarrow> pdict" where
  "generic_dump g = [(''name'', PStr (gd_name g)), (''description'', PStr (gd_description g)), (''inputSchema'', PDict (gd_schema g)), (''url'', opt_str (gd_url g))]"

definition skill_dump :: "skill_data \<Rightarrow> pdict" where
  "skill_dump s = [(''name'', PStr (sk_name s)), (''description'', PStr (sk_description s)), (''license'', PStr (sk_license s)),
     (''skill_path'', PStr (sk_path s)), (''files'', PList (map PStr (sk_files s)))]"

definition generate_service_id :: "outside \<Rightarrow> string \<Rightarrow> string \<Rightarrow> string" where
  "generate_service_id px prefix name = prefix @ ''_'' @ take 16 (ox_sha px name)"

section \<open>Configuration files\<close>

text \<open>\<open>int(raw) if isinstance(raw, (int, float)) and int(raw) > 0 else None\<close>.\<close>

definition ttl_of :: "pyval \<Rightarrow> int option" where
  "ttl_of v = (case v of PInt i \<Rightarrow> if 0 < i then Some i else None | PBool True \<Rightarrow> Some 1 | _ \<Rightarrow> None)"

text \<open>\<open>svc.get("owner_id") or None\<close> as the model's optional text; another value is refused by the model.\<close>

definition opt_text :: "pyval \<Rightarrow> exc + string option" where
  "opt_text v = (case v of PStr s \<Rightarrow> Inr (if s = [] then None else Some s)
     | _ \<Rightarrow> if truthy v then Inl (ValueError ''Input should be a valid string'') else Inr None)"

text \<open>\<open>(svc.get(k) or "").strip()\<close>\<close>

definition stripped :: "pyval \<Rightarrow> exc + string" where
  "stripped v = (case v of PStr s \<Rightarrow> Inr (strip s) | _ \<Rightarrow> if truthy v then Inl (AttributeError ''strip'') else Inr [])"

definition id_or :: "pyval \<Rightarrow> string \<Rightarrow> exc + string" where
  "id_or v generated = (case v of PStr s \<Rightarrow> Inr (if s = [] then generated else s)
     | _ \<Rightarrow> if truthy v then Inl (ValueError ''Input should be a valid string'') else Inr generated)"

definition parse_generic :: "outside \<Rightarrow> pdict \<Rightarrow> service_source \<Rightarrow> exc + entry option" where
  "parse_generic px svc src =
     rbind (stripped (dget svc ''name'')) (\<lambda>name. rbind (stripped (dget svc ''description'')) (\<lambda>desc.
       if name = [] \<or> desc = [] then Inr None
       else rbind (opt_text (dget svc ''owner_id'')) (\<lambda>owner.
            rbind (id_or (dget_or svc ''service_id'' (PStr [])) (generate_service_id px ''generic'' name)) (\<lambda>sid.
            rbind (ox_generic px [(''name'', PStr name), (''description'', PStr desc), (''inputSchema'', dget_or svc ''inputSchema'' (PDict [])), (''url'', dget svc ''url'')]) (\<lambda>g.
            Inr (Some \<lparr>en_id = sid, en_kind = Generic, en_source = src, en_generic = Some g, en_card = None, en_card_url = None, en_skill = None,
                       en_owner = owner, en_ttl = ttl_of (dget svc ''lease_ttl'')\<rparr>))))))"

definition card_name :: "pdict \<Rightarrow> string" where
  "card_name c = (case dget c ''name'' of PStr s \<Rightarrow> s | _ \<Rightarrow> [])"

definition parse_a2a :: "outside \<Rightarrow> pdict \<Rightarrow> service_source \<Rightarrow> exc + entry option" where
  "parse_a2a px svc src =
     rbind (if truthy (dget svc ''agent_card'') then
              (case dget svc ''agent_card'' of PDict d \<Rightarrow> rbind (ox_card px d) (\<lambda>x. Inr (Some x)) | _ \<Rightarrow> Inl (TypeError ''argument after ** must be a mapping''))
            else Inr None) (\<lambda>c.
     rbind (case dget svc ''agent_card_url'' of PNone \<Rightarrow> Inr None | PStr u \<Rightarrow> Inr (Some u) | _ \<Rightarrow> Inl (ValueError ''Input should be a valid string'')) (\<lambda>url.
     rbind (opt_text (dget svc ''owner_id'')) (\<lambda>owner.
     rbind (id_or (dget_or svc ''service_id'' (PStr [])) (generate_service_id px ''agent''
              (case c of Some c' \<Rightarrow> card_name c' | None \<Rightarrow> (case url of Some u \<Rightarrow> if u = [] then ''unknown'' else u | None \<Rightarrow> ''unknown'')))) (\<lambda>sid.
     Inr (Some \<lparr>en_id = sid, en_kind = A2A, en_source = src, en_generic = None, en_card = c, en_card_url = url, en_skill = None,
                en_owner = owner, en_ttl = ttl_of (dget svc ''lease_ttl'')\<rparr>)))))"

definition parse_service_entry :: "outside \<Rightarrow> pdict \<Rightarrow> service_source \<Rightarrow> exc + entry option" where
  "parse_service_entry px svc src =
     (let t = dget_or svc ''type'' (PStr ''generic'') in
      if t = PStr ''generic'' then parse_generic px svc src
      else if t = PStr ''a2a'' then parse_a2a px svc src
      else Inr None)"

definition owner_fields :: "entry \<Rightarrow> pdict" where
  "owner_fields e = (case en_owner e of None \<Rightarrow> [] | Some u \<Rightarrow> if u = [] then [] else [(''owner_id'', PStr u)])"

definition ttl_fields :: "entry \<Rightarrow> pdict" where
  "ttl_fields e = (case en_ttl e of None \<Rightarrow> [] | Some t \<Rightarrow> if t = 0 then [] else [(''lease_ttl'', PInt t)])"

definition text_field :: "string \<Rightarrow> string option \<Rightarrow> pdict" where
  "text_field k v = (case v of None \<Rightarrow> [] | Some s \<Rightarrow> if s = [] then [] else [(k, PStr s)])"

definition entry_to_config_dict :: "outside \<Rightarrow> entry \<Rightarrow> pdict" where
  "entry_to_config_dict px e =
     [(''type'', PStr (kind_str (en_kind e))), (''service_id'', PStr (en_id e))]
     @ (case en_kind e of
          Generic \<Rightarrow>
            (case en_generic e of
               None \<Rightarrow> []
             | Some g \<Rightarrow> [(''name'', PStr (gd_name g)), (''description'', PStr (gd_description g))]
                 @ (if gd_schema g = [] then [] else [(''inputSchema'', PDict (gd_schema g))]) @ text_field ''url'' (gd_url g))
        | A2A \<Rightarrow> text_field ''agent_card_url'' (en_card_url e)
            @ (case en_card e of None \<Rightarrow> [] | Some c \<Rightarrow> [(''agent_card'', PDict (ox_card_no_defaults px c))])
        | Skill \<Rightarrow> [])
     @ owner_fields e @ ttl_fields e"

section \<open>Output\<close>

text \<open>\<open>description.rstrip(".") + "."\<close>\<close>

definition with_stop :: "string \<Rightarrow> string" where
  "with_stop s = rev (dropWhile (\<lambda>c. c = CHR ''.'') (rev s)) @ ''.''"

definition str_of :: "pyval \<Rightarrow> string" where
  "str_of v = (case v of PStr s \<Rightarrow> s | _ \<Rightarrow> [])"

definition skill_text :: "pyval \<Rightarrow> string" where
  "skill_text sk =
     (let s = as_dict sk; name = str_of (dget s ''name'') in
      strip ((if name = [] then [] else ''['' @ name @ '']'') @ '' '' @ str_of (dget s ''description'')))"

definition build_description :: "pdict \<Rightarrow> string" where
  "build_description c =
     (let desc = str_of (dget c ''description''); skills = (case dget c ''skills'' of PList sks \<Rightarrow> sks | _ \<Rightarrow> []) in
      join '' '' ((if desc = [] then [] else [with_stop desc])
        @ (if skills = [] then [] else [''Skills: '' @ join ''; '' (map skill_text skills)])))"

definition wrapped :: "string \<Rightarrow> string \<Rightarrow> string \<Rightarrow> string \<Rightarrow> pdict \<Rightarrow> pdict" where
  "wrapped sid kind name desc metadata =
     [(''id'', PStr sid), (''type'', PStr kind), (''name'', PStr name), (''description'', PStr desc), (''metadata'', PDict metadata)]"

definition unresolved :: "entry \<Rightarrow> pdict" where
  "unresolved e = wrapped (en_id e) ''a2a'' (en_id e)
     (''Unresolved agent card: '' @ (case en_card_url e of None \<Rightarrow> ''unknown'' | Some u \<Rightarrow> if u = [] then ''unknown'' else u)) []"

definition entry_to_output :: "outside \<Rightarrow> entry \<Rightarrow> pdict" where
  "entry_to_output px e =
     (case (en_kind e, en_skill e, en_generic e, en_card e) of
        (Skill, Some s, _, _) \<Rightarrow> wrapped (en_id e) ''skill'' (sk_name s) (sk_description s)
          [(''skill_path'', PStr (sk_path s)), (''license'', PStr (sk_license s)), (''files'', PList (map PStr (sk_files s)))]
      | (Generic, _, Some g, _) \<Rightarrow> wrapped (en_id e) ''generic'' (gd_name g) (gd_description g)
          ((if gd_schema g = [] then [] else [(''inputSchema'', PDict (gd_schema g))]) @ text_field ''url'' (gd_url g))
      | (A2A, _, _, Some c) \<Rightarrow> wrapped (en_id e) ''a2a'' (card_name c) (build_description c) (ox_card_no_none px c)
      | _ \<Rightarrow> unresolved e)
     @ owner_fields e"

definition build_pair :: "pdict \<Rightarrow> string \<times> string" where
  "build_pair s = (str_of (dget s ''name''), str_of (dget_or s ''description'' (PStr [])))"

text \<open>\<open>sorted\<close> on pairs of texts.\<close>

definition compute_build_hash :: "outside \<Rightarrow> pdict list \<Rightarrow> string" where
  "compute_build_hash px services = ox_pairs_hash px (sort_key fst (sort_key snd (map build_pair services)))"

text \<open>The raw dictionary filters are matched against, and the match with its rule for services without a status.\<close>

definition entry_filter_dict :: "outside \<Rightarrow> entry \<Rightarrow> pdict option" where
  "entry_filter_dict px e =
     (case (en_kind e, en_card e, en_generic e, en_skill e) of
        (A2A, Some c, _, _) \<Rightarrow> Some (ox_card_no_none px c)
      | (Generic, _, Some g, _) \<Rightarrow> Some (generic_dump g)
      | (Skill, _, _, Some s) \<Rightarrow> Some (skill_dump s)
      | _ \<Rightarrow> None)"

definition filter_matches :: "pdict \<Rightarrow> pdict \<Rightarrow> bool" where
  "filter_matches filters raw = list_all (\<lambda>(k, v).
     k = ''status'' \<and> v = PStr ''online'' \<and> map_of raw k = None
     \<or> (case map_of raw k of None \<Rightarrow> False | Some w \<Rightarrow> v = PStr (py_str w))) filters"

end
