(* ===== verification/RegistryFiles.thy ===== *)
theory RegistryFiles
  imports RegistryEntry
begin

text \<open>
  The files of the registry (\<open>register/store.py\<close>): the tree under the database directory, the configuration files of
  a data set and the folders of its skills. A path is the list of its components below the database directory; a
  path outside of it, an absolute one or one that climbs above it, starts with a slash and is not related to those
  below. A file that holds JSON is read as its value. Writes succeed.
\<close>

section \<open>The tree\<close>

datatype node = Dir | Text string | Json pyval

type_synonym path = "string list"
type_synonym tree = "(path \<times> node) list"

definition exists_at :: "path \<Rightarrow> tree \<Rightarrow> bool" where
  "exists_at p fs \<longleftrightarrow> map_of fs p \<noteq> None"

definition is_dir_at :: "path \<Rightarrow> tree \<Rightarrow> bool" where
  "is_dir_at p fs \<longleftrightarrow> map_of fs p = Some Dir"

fun under :: "path \<Rightarrow> path \<Rightarrow> bool" where
  "under [] q = (q = [] \<or> hd q \<noteq> ''/'')"
| "under (x # p) [] = False"
| "under (x # p) (y # q) = (x = y \<and> under p q)"

text \<open>\<open>mkdir(parents=True, exist_ok=True)\<close>\<close>

definition mkdir_one :: "path \<Rightarrow> tree \<Rightarrow> tree" where
  "mkdir_one p fs = (if exists_at p fs then fs else AList.update p Dir fs)"

definition mkdirs :: "path \<Rightarrow> tree \<Rightarrow> tree" where
  "mkdirs p fs = fold (\<lambda>n. mkdir_one (take n p)) [1 ..< Suc (length p)] fs"

definition write_at :: "path \<Rightarrow> node \<Rightarrow> tree \<Rightarrow> tree" where
  "write_at p x fs = AList.update p x fs"

definition rmtree :: "path \<Rightarrow> tree \<Rightarrow> tree" where
  "rmtree p fs = filter (\<lambda>(q, _). \<not> under p q) fs"

definition move :: "path \<Rightarrow> path \<Rightarrow> tree \<Rightarrow> tree" where
  "move p q fs = map (\<lambda>(r, x). (if under p r then q @ drop (length p) r else r, x)) fs"

text \<open>The names in a directory, sorted, and the files below it as relative paths.\<close>

definition children :: "path \<Rightarrow> tree \<Rightarrow> string list" where
  "children p fs = sort (remdups (map (\<lambda>(q, _). last q) (filter (\<lambda>(q, _). length q = Suc (length p) \<and> under p q) fs)))"

definition files_below :: "path \<Rightarrow> tree \<Rightarrow> string list" where
  "files_below p fs = sort (map (\<lambda>(q, _). join ''/'' (drop (length p) q))
     (filter (\<lambda>(q, x). under p q \<and> length p < length q \<and> x \<noteq> Dir) fs))"

text \<open>The path that \<open>base / name\<close> denotes, with its dots resolved: an absolute name replaces the base.\<close>

definition step_path :: "path \<Rightarrow> string \<Rightarrow> path" where
  "step_path p c =
     (if c = [] \<or> c = ''.'' then p
      else if c \<noteq> ''..'' then p @ [c]
      else if p = [] then [''/'', ''..''] else if p = [''/''] then p else if last p = ''..'' then p @ [''..''] else butlast p)"

definition resolve :: "path \<Rightarrow> string \<Rightarrow> path" where
  "resolve base name = foldl step_path (if starts_with ''/'' name then [''/''] else base) (split_at (CHR ''/'') name)"

section \<open>Configuration files\<close>

text \<open>\<open>json.load\<close> of a file: missing, malformed or its value.\<close>

definition read_json :: "path \<Rightarrow> tree \<Rightarrow> pyval option option" where
  "read_json p fs = (case map_of fs p of None \<Rightarrow> None | Some (Json v) \<Rightarrow> Some (Some v) | Some _ \<Rightarrow> Some None)"

definition parse_entries :: "outside \<Rightarrow> service_source \<Rightarrow> pyval list \<Rightarrow> entry list" where
  "parse_entries px src services =
     concat (map (\<lambda>v. case v of PDict svc \<Rightarrow> (case parse_service_entry px svc src of Inr (Some e) \<Rightarrow> [e] | _ \<Rightarrow> []) | _ \<Rightarrow> []) services)"

text \<open>A configuration file that can be read holds an object; its services are a list of objects.\<close>

definition load_config_file :: "outside \<Rightarrow> path \<Rightarrow> service_source \<Rightarrow> tree \<Rightarrow> entry list" where
  "load_config_file px p src fs =
     (case read_json p fs of
        Some (Some (PDict d)) \<Rightarrow> (case dget_or d ''services'' (PList []) of PList services \<Rightarrow> parse_entries px src services | _ \<Rightarrow> [])
      | _ \<Rightarrow> [])"

definition config_path :: "string \<Rightarrow> string \<Rightarrow> path" where
  "config_path dataset file = [dataset, file]"

definition index_entries :: "entry list \<Rightarrow> (string \<times> entry) list" where
  "index_entries es = fold (\<lambda>e. AList.update (en_id e) e) es []"

definition flush_api_config :: "outside \<Rightarrow> string \<Rightarrow> (string \<times> entry) list \<Rightarrow> tree \<Rightarrow> tree" where
  "flush_api_config px dataset es fs = write_at (config_path dataset ''api_config.json'')
     (Json (PDict [(''services'', PList (map (\<lambda>(_, e). PDict (entry_to_config_dict px e)) es))])) fs"

definition load_register_config :: "string \<Rightarrow> tree \<Rightarrow> (string \<times> string) list option" where
  "load_register_config dataset fs =
     (case read_json (config_path dataset ''register_config.json'') fs of
        None \<Rightarrow> None
      | Some None \<Rightarrow> Some []
      | Some (Some v) \<Rightarrow> Some (normalize_format_config (dget (as_dict v) ''formats'')))"

definition write_register_config :: "string \<Rightarrow> (string \<times> string) list \<Rightarrow> tree \<Rightarrow> tree" where
  "write_register_config dataset formats =
     write_at (config_path dataset ''register_config.json'') (Json (PDict [(''formats'', PDict (map (\<lambda>(t, v). (t, PStr v)) formats))]))"

definition load_vector_config :: "string \<Rightarrow> tree \<Rightarrow> pdict option" where
  "load_vector_config dataset fs =
     (case read_json (config_path dataset ''vector_config.json'') fs of Some (Some (PDict d)) \<Rightarrow> Some d | _ \<Rightarrow> None)"

definition write_vector_config :: "string \<Rightarrow> string \<Rightarrow> int \<Rightarrow> tree \<Rightarrow> tree" where
  "write_vector_config dataset model dim =
     write_at (config_path dataset ''vector_config.json'') (Json (PDict [(''embedding_model'', PStr model), (''embedding_dim'', PInt dim)]))"

definition load_auth_required :: "string \<Rightarrow> tree \<Rightarrow> bool" where
  "load_auth_required dataset fs =
     (case read_json (config_path dataset ''auth_config.json'') fs of
        Some (Some (PDict d)) \<Rightarrow>
          (case py_int (dget_or d ''schema_version'' (PInt 1)) of Inl _ \<Rightarrow> False | Inr _ \<Rightarrow> truthy (dget_or d ''required'' (PBool False)))
      | _ \<Rightarrow> False)"

definition write_auth_config :: "string \<Rightarrow> bool \<Rightarrow> tree \<Rightarrow> tree" where
  "write_auth_config dataset required =
     write_at (config_path dataset ''auth_config.json'') (Json (PDict [(''required'', PBool required), (''schema_version'', PInt 1)]))"

record lease_policy =
  lp_enabled :: bool
  lp_min :: int
  lp_max :: int
  lp_grace :: int

definition default_lease_policy :: lease_policy where
  "default_lease_policy = \<lparr>lp_enabled = False, lp_min = 10, lp_max = 3600, lp_grace = 300\<rparr>"

text \<open>The values of a file are coerced and clamped; what cannot be coerced falls back to the default.\<close>

definition coerced_lease_policy :: "pdict \<Rightarrow> lease_policy res" where
  "coerced_lease_policy d =
     rbind (py_int (dget_or d ''min_ttl'' (PInt 10))) (\<lambda>a. rbind (py_int (dget_or d ''max_ttl'' (PInt 3600))) (\<lambda>b.
     rbind (py_int (dget_or d ''grace_period'' (PInt 300))) (\<lambda>g. rbind (py_int (dget_or d ''schema_version'' (PInt 1))) (\<lambda>_.
     Inr \<lparr>lp_enabled = truthy (dget_or d ''enabled'' (PBool False)), lp_min = max 1 a, lp_max = max (max 1 a) b, lp_grace = max 0 g\<rparr>))))"

definition load_lease_policy :: "string \<Rightarrow> tree \<Rightarrow> lease_policy" where
  "load_lease_policy dataset fs =
     (case read_json (config_path dataset ''lease_config.json'') fs of
        Some (Some (PDict d)) \<Rightarrow> (case coerced_lease_policy d of Inl _ \<Rightarrow> default_lease_policy | Inr p \<Rightarrow> p)
      | _ \<Rightarrow> default_lease_policy)"

definition write_lease_policy :: "string \<Rightarrow> lease_policy \<Rightarrow> tree \<Rightarrow> string + tree" where
  "write_lease_policy dataset p fs =
     (if lp_min p < 1 then Inl ''min_ttl must be >= 1''
      else if lp_max p < lp_min p then Inl ''max_ttl must be >= min_ttl''
      else if lp_grace p < 0 then Inl ''grace_period must be >= 0''
      else Inr (write_at (config_path dataset ''lease_config.json'')
        (Json (PDict [(''enabled'', PBool (lp_enabled p)), (''min_ttl'', PInt (lp_min p)), (''max_ttl'', PInt (lp_max p)),
                      (''grace_period'', PInt (lp_grace p)), (''schema_version'', PInt 1)])) fs))"

section \<open>Skill descriptions\<close>

text \<open>\<open>content.split("---", 2)\<close>: at most two separators, so at most three parts.\<close>

fun find_mark :: "string \<Rightarrow> string \<Rightarrow> (string \<times> string) option" where
  "find_mark mark [] = None"
| "find_mark mark (c # s) =
     (if starts_with mark (c # s) then Some ([], drop (length mark) (c # s))
      else map_option (\<lambda>(a, b). (c # a, b)) (find_mark mark s))"

definition front_matter :: "string \<Rightarrow> (string \<times> string \<times> string) option" where
  "front_matter content = Option.bind (find_mark ''---'' content) (\<lambda>(a, r). map_option (\<lambda>(b, c). (a, b, c)) (find_mark ''---'' r))"

text \<open>
  \<open>str.splitlines\<close> with the line ends among the characters of the model, a carriage return with the newline after it
  being one; a text file that is opened for reading has its line ends replaced by newlines.
\<close>

definition line_ends :: "char set" where
  "line_ends = {CHR 0x0A, CHR 0x0B, CHR 0x0C, CHR 0x0D, CHR 0x1C, CHR 0x1D, CHR 0x1E, CHR 0x85}"

fun splitlines :: "string \<Rightarrow> string list" where
  "splitlines [] = []"
| "splitlines (c # s) =
     (if c = CHR 0x0D \<and> starts_with [CHR 0x0A] s then [] # splitlines (tl s)
      else if c \<in> line_ends then [] # splitlines s
      else case splitlines s of [] \<Rightarrow> [[c]] | l # ls \<Rightarrow> (c # l) # ls)"

fun universal_newlines :: "string \<Rightarrow> string" where
  "universal_newlines [] = []"
| "universal_newlines (c # s) =
     (if c = CHR 0x0D \<and> starts_with [CHR 0x0A] s then CHR 0x0A # universal_newlines (tl s)
      else if c = CHR 0x0D then CHR 0x0A # universal_newlines s
      else c # universal_newlines s)"

text \<open>\<open>s.split(newline)\<close>\<close>

definition lines_of :: "string \<Rightarrow> string list" where
  "lines_of s = split_at (CHR 10) s"

text \<open>The line pattern \<open>^(name|description|license):\s*(.+)$\<close> on a stripped line, with surrounding quotes taken off.\<close>

definition unquote :: "string \<Rightarrow> string" where
  "unquote v = (if 2 \<le> length v \<and> (hd v = CHR 34 \<or> hd v = CHR 39) \<and> last v = hd v then butlast (tl v) else v)"

definition meta_line :: "string \<Rightarrow> (string \<times> string) option" where
  "meta_line line =
     (let l = strip line; k = takeWhile (\<lambda>c. c \<noteq> CHR '':'') l; v = strip (drop (Suc (length k)) l) in
      if k \<in> {''name'', ''description'', ''license''} \<and> length k < length l \<and> v \<noteq> [] then Some (k, unquote v) else None)"

definition meta_of :: "string list \<Rightarrow> (string \<times> string) list" where
  "meta_of ls = fold (\<lambda>l d. case meta_line l of None \<Rightarrow> d | Some (k, v) \<Rightarrow> AList.update k v d) ls []"

definition parse_skill_md_content :: "string \<Rightarrow> string + (string \<times> string) list" where
  "parse_skill_md_content content =
     (case front_matter content of
        None \<Rightarrow> Inl ''SKILL.md must have YAML frontmatter delimited by ---''
      | Some (_, fm, _) \<Rightarrow>
          let d = meta_of (splitlines (strip fm)) in
          if map_of d ''name'' = None \<or> map_of d ''name'' = Some [] then Inl ''SKILL.md frontmatter must include name''
          else if map_of d ''description'' = None \<or> map_of d ''description'' = Some [] then Inl ''SKILL.md frontmatter must include description''
          else Inr d)"

definition meta_get :: "(string \<times> string) list \<Rightarrow> string \<Rightarrow> string" where
  "meta_get d k = (case map_of d k of None \<Rightarrow> [] | Some v \<Rightarrow> v)"

section \<open>Skill folders\<close>

definition skills_dir :: "string \<Rightarrow> path" where
  "skills_dir dataset = [dataset, ''skills'']"

definition skill_dir :: "string \<Rightarrow> string \<Rightarrow> path" where
  "skill_dir dataset name = resolve (skills_dir dataset) name"

definition read_text :: "path \<Rightarrow> tree \<Rightarrow> string option" where
  "read_text p fs = (case map_of fs p of Some (Text s) \<Rightarrow> Some (universal_newlines s) | _ \<Rightarrow> None)"

definition skill_of_meta :: "(string \<times> string) list \<Rightarrow> path \<Rightarrow> tree \<Rightarrow> skill_data" where
  "skill_of_meta d p fs = \<lparr>sk_name = meta_get d ''name'', sk_description = meta_get d ''description'', sk_license = meta_get d ''license'',
     sk_path = ''skills/'' @ meta_get d ''name'', sk_files = files_below p fs\<rparr>"

definition skill_entry :: "outside \<Rightarrow> skill_data \<Rightarrow> string option \<Rightarrow> entry" where
  "skill_entry px s owner = \<lparr>en_id = generate_service_id px ''skill'' (sk_name s), en_kind = Skill, en_source = SkillFolder, en_generic = None,
     en_card = None, en_card_url = None, en_skill = Some s, en_owner = owner, en_ttl = None\<rparr>"

definition load_skill :: "outside \<Rightarrow> string \<Rightarrow> tree \<Rightarrow> string \<Rightarrow> entry list" where
  "load_skill px dataset fs child =
     (let p = skills_dir dataset @ [child] in
      case (if is_dir_at p fs then read_text (p @ [''SKILL.md'']) fs else None) of
        None \<Rightarrow> []
      | Some content \<Rightarrow> (case parse_skill_md_content content of Inl _ \<Rightarrow> [] | Inr d \<Rightarrow> [skill_entry px (skill_of_meta d p fs) None]))"

definition load_skills :: "outside \<Rightarrow> string \<Rightarrow> tree \<Rightarrow> entry list" where
  "load_skills px dataset fs =
     (if is_dir_at (skills_dir dataset) fs then concat (map (load_skill px dataset fs) (children (skills_dir dataset) fs)) else [])"

text \<open>
  An archive is the list of its members, a directory's name ending in a slash. Where several top-level directories
  hold a description, the source takes one in the order of a set; here it is the first. Of several members with one
  name the last is the one that is read by name. The description is text in UTF-8.
\<close>

type_synonym archive = "(string \<times> string) list"

definition unsafe_member :: "string \<Rightarrow> bool" where
  "unsafe_member n \<longleftrightarrow> starts_with ''/'' n \<or> contains ''..'' n"

definition top_dirs :: "string list \<Rightarrow> string list" where
  "top_dirs names = remdups (map (\<lambda>n. hd (split_at (CHR ''/'') n)) (filter (contains ''/'') names))"

definition find_skill_md :: "string list \<Rightarrow> (string \<times> string) option" where
  "find_skill_md names =
     (if ''SKILL.md'' \<in> set names then Some (''SKILL.md'', [])
      else map_option (\<lambda>td. (td @ ''/SKILL.md'', td @ ''/'')) (find (\<lambda>td. td @ ''/SKILL.md'' \<in> set names) (top_dirs names)))"

definition is_dir_member :: "string \<Rightarrow> bool" where
  "is_dir_member n \<longleftrightarrow> n \<noteq> [] \<and> last n = CHR ''/''"

definition rel_member :: "string \<Rightarrow> string \<Rightarrow> string" where
  "rel_member prefix n = (if prefix \<noteq> [] \<and> starts_with prefix n then drop (length prefix) n else n)"

definition extract_member :: "path \<Rightarrow> string \<Rightarrow> string \<times> string \<Rightarrow> tree \<Rightarrow> tree" where
  "extract_member target prefix m fs =
     (let rel = rel_member prefix (fst m) in
      if is_dir_member (fst m) \<or> rel = [] then fs
      else let dest = resolve target rel in write_at dest (Text (snd m)) (mkdirs (butlast dest) fs))"

definition save_skill_zip :: "string \<Rightarrow> archive \<Rightarrow> tree \<Rightarrow> (string + skill_data) \<times> tree" where
  "save_skill_zip dataset arch fs =
     (case find unsafe_member (map fst arch) of
        Some n \<Rightarrow> (Inl (''Unsafe path in ZIP: '' @ n), fs)
      | None \<Rightarrow>
          (case find_skill_md (map fst arch) of
             None \<Rightarrow> (Inl ''ZIP must contain SKILL.md (at root or in a single top-level directory)'', fs)
           | Some (md, prefix) \<Rightarrow>
               (case parse_skill_md_content (meta_get (rev arch) md) of
                  Inl e \<Rightarrow> (Inl e, fs)
                | Inr d \<Rightarrow>
                    let target = skill_dir dataset (meta_get d ''name'');
                        fs' = fold (extract_member target prefix) arch (mkdirs target (rmtree target fs)) in
                    (Inr (skill_of_meta d target fs'), fs'))))"

definition remove_skill :: "string \<Rightarrow> string \<Rightarrow> tree \<Rightarrow> bool \<times> tree" where
  "remove_skill dataset name fs =
     (let p = skill_dir dataset name; removed = [dataset, ''removed_skills'']; dest = resolve removed name in
      if \<not> exists_at p fs then (False, fs) else (True, move p dest (rmtree dest (mkdirs removed fs))))"

datatype file_error = FileMissing string | FileClash string

definition rename_skill :: "string \<Rightarrow> string \<Rightarrow> string \<Rightarrow> tree \<Rightarrow> file_error + tree" where
  "rename_skill dataset old new fs =
     (if new = [] \<or> new = old then Inr fs
      else if \<not> exists_at (skill_dir dataset old) fs then Inl (FileMissing (''Skill folder not found: '' @ old))
      else if exists_at (skill_dir dataset new) fs then Inl (FileClash (''Skill folder already exists: '' @ new))
      else Inr (move (skill_dir dataset old) (skill_dir dataset new) fs))"

text \<open>The characters of \<open>\w\<close> in the range of the model, and the line pattern of \<open>update_skill_md\<close>.\<close>

definition is_word :: "char \<Rightarrow> bool" where
  "is_word c = (let n = (of_char c :: nat) in
     48 \<le> n \<and> n \<le> 57 \<or> 65 \<le> n \<and> n \<le> 90 \<or> 97 \<le> n \<and> n \<le> 122 \<or> n = 95
     \<or> n \<in> {170, 178, 179, 181, 185, 186, 188, 189, 190} \<or> 192 \<le> n \<and> n \<noteq> 215 \<and> n \<noteq> 247)"

definition is_key_start :: "char \<Rightarrow> bool" where
  "is_key_start c \<longleftrightarrow> CHR ''A'' \<le> c \<and> c \<le> CHR ''Z'' \<or> CHR ''a'' \<le> c \<and> c \<le> CHR ''z'' \<or> c = CHR ''_''"

text \<open>The indentation, the key, and the separator of a line.\<close>

definition key_line :: "string \<Rightarrow> (string \<times> string \<times> string) option" where
  "key_line line =
     (let lead = takeWhile is_space line; r = dropWhile is_space line;
          key = takeWhile (\<lambda>c. is_word c \<or> c = CHR ''-'') r; r' = drop (length key) r;
          gap = takeWhile is_space r'; r'' = dropWhile is_space r' in
      if key \<noteq> [] \<and> is_key_start (hd key) \<and> r'' \<noteq> [] \<and> hd r'' = CHR '':''
      then Some (lead, key, gap @ '':'' @ takeWhile is_space (tl r'')) else None)"

definition upsert_line :: "(string \<times> string) list \<Rightarrow> string \<Rightarrow> string" where
  "upsert_line updates line =
     (case key_line line of
        None \<Rightarrow> line
      | Some (lead, key, sep) \<Rightarrow> (case map_of updates key of None \<Rightarrow> line | Some v \<Rightarrow> lead @ key @ sep @ v))"

definition line_keys :: "string list \<Rightarrow> string list" where
  "line_keys ls = concat (map (\<lambda>l. case key_line l of None \<Rightarrow> [] | Some (_, k, _) \<Rightarrow> [k]) ls)"

definition strip_newlines :: "string \<Rightarrow> string" where
  "strip_newlines s = rev (dropWhile (\<lambda>c. c = CHR 10) (rev (dropWhile (\<lambda>c. c = CHR 10) s)))"

definition updated_skill_md :: "(string \<times> string) list \<Rightarrow> string \<Rightarrow> string \<Rightarrow> string" where
  "updated_skill_md updates fm body =
     (let ls = lines_of (strip_newlines fm);
          added = map (\<lambda>(k, v). k @ '': '' @ v) (filter (\<lambda>(k, _). k \<notin> set (line_keys ls)) updates) in
      ''---'' @ [CHR 10] @ join [CHR 10] (map (upsert_line updates) ls @ added) @ [CHR 10] @ ''---'' @ body)"

definition update_skill_md :: "string \<Rightarrow> string \<Rightarrow> (string \<times> string) list \<Rightarrow> tree \<Rightarrow> (file_error + string) + tree" where
  "update_skill_md dataset name updates fs =
     (let p = skill_dir dataset name @ [''SKILL.md''] in
      case read_text p fs of
        None \<Rightarrow> Inl (Inl (FileMissing (''SKILL.md not found for skill '' @ name)))
      | Some content \<Rightarrow>
          (case front_matter content of
             None \<Rightarrow> Inl (Inr ''SKILL.md must have YAML frontmatter delimited by ---'')
           | Some (_, fm, body) \<Rightarrow> Inr (write_at p (Text (updated_skill_md updates fm body)) fs)))"

definition get_skill_zip :: "string \<Rightarrow> string \<Rightarrow> tree \<Rightarrow> file_error + archive" where
  "get_skill_zip dataset name fs =
     (let p = skill_dir dataset name in
      if \<not> is_dir_at p fs then Inl (FileMissing (''Skill folder not found: '' @ name))
      else Inr (map (\<lambda>(q, x). (join ''/'' (drop (length p) q), case x of Text s \<Rightarrow> s | _ \<Rightarrow> []))
             (filter (\<lambda>(q, x). under p q \<and> length p < length q \<and> x \<noteq> Dir) fs)))"

end
