(* ===== verification/RegistryService.thy ===== *)
theory RegistryService
  imports Complex_Main RegistryFiles
begin

text \<open>
  The registry service (\<open>register/service.py\<close>, \<open>class RegistryService\<close>): the merged entries of every data set in memory,
  their output file, the state of the taxonomy, the configurations with their caches, and the reservations. Every
  operation maps the service to its answer and the next service; each runs under the service's lock, so that the
  operations are taken one after the other. A data set's name is one component of a path.
\<close>

section \<open>State\<close>

datatype registry_error =
    NotFound string
  | BadValue string
  | Forbidden string
  | NoFile string
  | Failure string

datatype taxonomy_state = NONEXISTENT | AVAILABLE | UNAVAILABLE | STALE

record reservation =
  rv_holder :: string
  rv_acquired :: rat
  rv_expires :: rat

text \<open>A call of the replication hook.\<close>

record mutation =
  mu_dataset :: string
  mu_service :: string
  mu_op :: string
  mu_entry :: "entry option"

record registry =
  rg_fs :: tree
  rg_stores :: "(string \<times> (string \<times> entry) list) list"
  rg_entries :: "(string \<times> (string \<times> entry) list) list"
  rg_output :: "(string \<times> pdict list) list"
  rg_taxonomy :: "(string \<times> taxonomy_state) list"
  rg_formats :: "(string \<times> (string \<times> string) list) list"
  rg_auth :: "(string \<times> bool) list"
  rg_lease :: "(string \<times> lease_policy) list"
  rg_reserved :: "((string \<times> string) \<times> reservation) list"
  rg_changed :: "string list"
  rg_mutations :: "mutation list"
  rg_a2a :: "string list option"

definition new_registry :: "tree \<Rightarrow> string list option \<Rightarrow> registry" where
  "new_registry fs a2a = \<lparr>rg_fs = fs, rg_stores = [], rg_entries = [], rg_output = [], rg_taxonomy = [], rg_formats = [], rg_auth = [], rg_lease = [],
     rg_reserved = [], rg_changed = [], rg_mutations = [], rg_a2a = a2a\<rparr>"

text \<open>\<open>self._entries.get(dataset, {})\<close>\<close>

definition entries_of :: "registry \<Rightarrow> string \<Rightarrow> (string \<times> entry) list" where
  "entries_of rg ds = (case map_of (rg_entries rg) ds of None \<Rightarrow> [] | Some es \<Rightarrow> es)"

definition set_entries :: "string \<Rightarrow> (string \<times> entry) list \<Rightarrow> registry \<Rightarrow> registry" where
  "set_entries ds es rg = rg\<lparr>rg_entries := AList.update ds es (rg_entries rg)\<rparr>"

definition get_entry :: "registry \<Rightarrow> string \<Rightarrow> string \<Rightarrow> entry option" where
  "get_entry rg ds sid = map_of (entries_of rg ds) sid"

text \<open>The store of a data set is made at its first use, and its directory with it.\<close>

definition get_store :: "string \<Rightarrow> registry \<Rightarrow> registry" where
  "get_store ds rg =
     (if map_of (rg_stores rg) ds \<noteq> None then rg
      else rg\<lparr>rg_fs := mkdirs [ds] (rg_fs rg), rg_stores := AList.update ds [] (rg_stores rg)\<rparr>)"

definition api_entries :: "string \<Rightarrow> registry \<Rightarrow> (string \<times> entry) list" where
  "api_entries ds rg = (case map_of (rg_stores rg) ds of None \<Rightarrow> [] | Some es \<Rightarrow> es)"

definition flush_entries :: "outside \<Rightarrow> string \<Rightarrow> (string \<times> entry) list \<Rightarrow> registry \<Rightarrow> registry" where
  "flush_entries px ds es rg = rg\<lparr>rg_stores := AList.update ds es (rg_stores rg), rg_fs := flush_api_config px ds es (rg_fs rg)\<rparr>"

definition save_api_entry :: "outside \<Rightarrow> string \<Rightarrow> entry \<Rightarrow> registry \<Rightarrow> registry" where
  "save_api_entry px ds e rg = (let rg' = get_store ds rg in flush_entries px ds (AList.update (en_id e) e (api_entries ds rg')) rg')"

definition remove_api_entry :: "outside \<Rightarrow> string \<Rightarrow> string \<Rightarrow> registry \<Rightarrow> registry" where
  "remove_api_entry px ds sid rg =
     (let rg' = get_store ds rg; es = api_entries ds rg' in
      if map_of es sid = None then rg' else flush_entries px ds (AList.delete sid es) rg')"

definition save_api_batch :: "outside \<Rightarrow> string \<Rightarrow> entry list \<Rightarrow> registry \<Rightarrow> registry" where
  "save_api_batch px ds es rg = flush_entries px ds (index_entries es) (get_store ds rg)"

section \<open>Output and taxonomy\<close>

definition regenerate_output :: "outside \<Rightarrow> string \<Rightarrow> registry \<Rightarrow> registry" where
  "regenerate_output px ds rg =
     (let out = map (\<lambda>(_, e). entry_to_output px e) (entries_of rg ds);
          changed = (case map_of (rg_output rg) ds of None \<Rightarrow> True | Some old \<Rightarrow> \<not> py_eqs (map PDict out) (map PDict old));
          rg' = rg\<lparr>rg_output := AList.update ds out (rg_output rg)\<rparr> in
      if \<not> changed then rg'
      else let rg'' = get_store ds rg' in
           rg''\<lparr>rg_fs := write_at (config_path ds ''service.json'') (Json (PList (map PDict out))) (rg_fs rg''), rg_changed := rg_changed rg'' @ [ds]\<rparr>)"

definition output_of :: "registry \<Rightarrow> string \<Rightarrow> pdict list" where
  "output_of rg ds = (case map_of (rg_output rg) ds of None \<Rightarrow> [] | Some out \<Rightarrow> out)"

text \<open>\<open>build_config.json\<close>, where it can be read, holds an object: the build writes it.\<close>

definition read_build_hash :: "path \<Rightarrow> tree \<Rightarrow> pyval" where
  "read_build_hash p fs = (case read_json p fs of Some (Some (PDict d)) \<Rightarrow> dget d ''service_hash'' | _ \<Rightarrow> PNone)"

definition compute_taxonomy_state :: "outside \<Rightarrow> string \<Rightarrow> registry \<Rightarrow> taxonomy_state" where
  "compute_taxonomy_state px ds rg =
     (let build = [ds, ''taxonomy'', ''build_config.json''] in
      if \<not> exists_at build (rg_fs rg) \<or> \<not> exists_at [ds, ''taxonomy'', ''taxonomy.json''] (rg_fs rg) then NONEXISTENT
      else let stored = read_build_hash build (rg_fs rg) in
           if stored = PNone then NONEXISTENT
           else if stored = PStr (compute_build_hash px (output_of rg ds)) then AVAILABLE else UNAVAILABLE)"

definition mark_taxonomy_stale :: "string \<Rightarrow> registry \<Rightarrow> registry" where
  "mark_taxonomy_stale ds rg =
     (if map_of (rg_taxonomy rg) ds = Some AVAILABLE then rg\<lparr>rg_taxonomy := AList.update ds STALE (rg_taxonomy rg)\<rparr> else rg)"

definition get_taxonomy_state :: "string \<Rightarrow> registry \<Rightarrow> taxonomy_state option" where
  "get_taxonomy_state ds rg = map_of (rg_taxonomy rg) ds"

definition check_taxonomy_state :: "outside \<Rightarrow> string \<Rightarrow> registry \<Rightarrow> taxonomy_state option \<times> registry" where
  "check_taxonomy_state px ds rg =
     (case map_of (rg_taxonomy rg) ds of
        None \<Rightarrow> (None, rg)
      | Some s \<Rightarrow>
          if s \<noteq> STALE then (Some s, rg)
          else let s' = compute_taxonomy_state px ds rg in (Some s', rg\<lparr>rg_taxonomy := AList.update ds s' (rg_taxonomy rg)\<rparr>))"

definition init_taxonomy_state :: "outside \<Rightarrow> string \<Rightarrow> registry \<Rightarrow> registry" where
  "init_taxonomy_state px ds rg = rg\<lparr>rg_taxonomy := AList.update ds (compute_taxonomy_state px ds rg) (rg_taxonomy rg)\<rparr>"

definition emit_mutation :: "string \<Rightarrow> string \<Rightarrow> string \<Rightarrow> entry option \<Rightarrow> registry \<Rightarrow> registry" where
  "emit_mutation ds sid op e rg = rg\<lparr>rg_mutations := rg_mutations rg @ [\<lparr>mu_dataset = ds, mu_service = sid, mu_op = op, mu_entry = e\<rparr>]\<rparr>"

text \<open>What every change of an entry ends with.\<close>

definition publish :: "outside \<Rightarrow> string \<Rightarrow> string \<Rightarrow> string \<Rightarrow> entry option \<Rightarrow> registry \<Rightarrow> registry" where
  "publish px ds sid op e rg = emit_mutation ds sid op e (mark_taxonomy_stale ds (regenerate_output px ds rg))"

section \<open>Data sets and their configurations\<close>

definition embedding_models :: "(string \<times> int) list" where
  "embedding_models = [(''all-MiniLM-L6-v2'', 384), (''shibing624/text2vec-base-chinese'', 768), (''paraphrase-multilingual-MiniLM-L12-v2'', 384)]"

definition default_embedding_model :: string where
  "default_embedding_model = ''all-MiniLM-L6-v2''"

definition set_vector_config :: "string \<Rightarrow> string option \<Rightarrow> int option \<Rightarrow> registry \<Rightarrow> (registry_error + string \<times> int) \<times> registry" where
  "set_vector_config ds model given rg =
     (let name = (case model of None \<Rightarrow> default_embedding_model | Some m \<Rightarrow> if m = [] then default_embedding_model else m) in
      case (case map_of embedding_models name of Some d \<Rightarrow> Some d | None \<Rightarrow> given) of
        None \<Rightarrow> (Inl (BadValue (''Unknown embedding model '' @ quoted name @ ''; provide embedding_dim explicitly'')), rg)
      | Some d \<Rightarrow> let rg' = get_store ds rg in (Inr (name, d), rg'\<lparr>rg_fs := write_vector_config ds name d (rg_fs rg')\<rparr>))"

definition get_vector_config :: "string \<Rightarrow> registry \<Rightarrow> pdict \<times> registry" where
  "get_vector_config ds rg =
     (let rg' = get_store ds rg in
      (case load_vector_config ds (rg_fs rg') of Some d \<Rightarrow> d
       | None \<Rightarrow> [(''embedding_model'', PStr default_embedding_model), (''embedding_dim'', PInt 384)], rg'))"

definition get_register_config :: "string \<Rightarrow> registry \<Rightarrow> (string \<times> string) list \<times> registry" where
  "get_register_config ds rg =
     (case map_of (rg_formats rg) ds of
        Some cfg \<Rightarrow> (cfg, rg)
      | None \<Rightarrow>
          let rg' = get_store ds rg;
              cfg = (case load_register_config ds (rg_fs rg') of None \<Rightarrow> default_formats | Some cfg \<Rightarrow> cfg) in
          (cfg, rg'\<lparr>rg_formats := AList.update ds cfg (rg_formats rg')\<rparr>))"

definition set_register_config :: "string \<Rightarrow> pyval \<Rightarrow> registry \<Rightarrow> (registry_error + (string \<times> string) list) \<times> registry" where
  "set_register_config ds formats rg =
     (let cfg = normalize_format_config formats in
      if cfg = [] then (Inl (BadValue ''formats must declare at least one valid type with a known version''), rg)
      else let rg' = get_store ds rg in
           (Inr cfg, rg'\<lparr>rg_fs := write_register_config ds cfg (rg_fs rg'), rg_formats := AList.update ds cfg (rg_formats rg')\<rparr>))"

definition formats_value :: "(string \<times> string) list \<Rightarrow> pyval" where
  "formats_value cfg = PDict (map (\<lambda>(t, v). (t, PStr v)) cfg)"

text \<open>The files are written in this order; an unknown embedding model stops it after the directories.\<close>

definition init_dataset_files :: "string \<Rightarrow> string \<Rightarrow> (string \<times> string) list \<Rightarrow> bool \<Rightarrow> registry \<Rightarrow> (registry_error + unit) \<times> registry" where
  "init_dataset_files ds model formats auth rg =
     (let rg1 = rg\<lparr>rg_fs := mkdirs [ds, ''query''] (rg_fs rg)\<rparr>;
          (r2, rg2) = (if exists_at (config_path ds ''vector_config.json'') (rg_fs rg1) then (Inr (model, 0), rg1) else set_vector_config ds (Some model) None rg1) in
      case r2 of
        Inl e \<Rightarrow> (Inl e, rg2)
      | Inr _ \<Rightarrow>
          let (r3, rg3) = (if exists_at (config_path ds ''register_config.json'') (rg_fs rg2) then (Inr formats, rg2)
                           else set_register_config ds (formats_value formats) rg2) in
          (case r3 of
             Inl e \<Rightarrow> (Inl e, rg3)
           | Inr _ \<Rightarrow>
               (Inr (),
                if auth \<and> \<not> exists_at (config_path ds ''auth_config.json'') (rg_fs rg3)
                then let rg4 = get_store ds rg3 in
                     rg4\<lparr>rg_fs := write_auth_config ds True (rg_fs rg4), rg_auth := AList.update ds True (rg_auth rg4)\<rparr>
                else rg3)))"

definition ensure_dataset :: "string \<Rightarrow> registry \<Rightarrow> registry" where
  "ensure_dataset ds rg =
     (if exists_at (config_path ds ''vector_config.json'') (rg_fs rg) then rg
      else snd (init_dataset_files ds default_embedding_model default_formats False rg))"

definition normalize_or_default_formats :: "pyval option \<Rightarrow> registry_error + (string \<times> string) list" where
  "normalize_or_default_formats formats =
     (case formats of
        None \<Rightarrow> Inr default_formats
      | Some v \<Rightarrow> let cfg = normalize_format_config v in
          if cfg = [] then Inl (BadValue ''formats must declare at least one valid type/version'') else Inr cfg)"

definition create_dataset :: "string \<Rightarrow> string option \<Rightarrow> pyval option \<Rightarrow> bool \<Rightarrow> registry \<Rightarrow> (registry_error + unit) \<times> registry" where
  "create_dataset ds model formats auth rg =
     (if exists_at [ds] (rg_fs rg) then (Inl (BadValue (''Dataset '' @ quoted ds @ '' already exists'')), rg)
      else case normalize_or_default_formats formats of
             Inl e \<Rightarrow> (Inl e, rg)
           | Inr cfg \<Rightarrow> init_dataset_files ds (case model of None \<Rightarrow> default_embedding_model | Some m \<Rightarrow> m) cfg auth rg)"

definition delete_dataset :: "string \<Rightarrow> registry \<Rightarrow> (registry_error + unit) \<times> registry" where
  "delete_dataset ds rg =
     (if \<not> exists_at [ds] (rg_fs rg) then (Inl (BadValue (''Dataset '' @ quoted ds @ '' does not exist'')), rg)
      else (Inr (), rg\<lparr>rg_entries := AList.delete ds (rg_entries rg), rg_output := AList.delete ds (rg_output rg),
              rg_taxonomy := AList.delete ds (rg_taxonomy rg), rg_stores := AList.delete ds (rg_stores rg), rg_formats := AList.delete ds (rg_formats rg),
              rg_auth := AList.delete ds (rg_auth rg), rg_lease := AList.delete ds (rg_lease rg), rg_fs := rmtree [ds] (rg_fs rg)\<rparr>))"

definition is_auth_required :: "string \<Rightarrow> registry \<Rightarrow> bool \<times> registry" where
  "is_auth_required ds rg =
     (case map_of (rg_auth rg) ds of
        Some b \<Rightarrow> (b, rg)
      | None \<Rightarrow>
          if \<not> exists_at [ds] (rg_fs rg) then (False, rg)
          else let rg' = get_store ds rg; b = load_auth_required ds (rg_fs rg') in (b, rg'\<lparr>rg_auth := AList.update ds b (rg_auth rg')\<rparr>))"

definition set_auth_config :: "string \<Rightarrow> bool \<Rightarrow> registry \<Rightarrow> (registry_error + bool) \<times> registry" where
  "set_auth_config ds required rg =
     (if \<not> exists_at [ds] (rg_fs rg) then (Inl (BadValue (''Dataset '' @ quoted ds @ '' does not exist'')), rg)
      else let rg' = get_store ds rg in
           (Inr required, rg'\<lparr>rg_fs := write_auth_config ds required (rg_fs rg'), rg_auth := AList.update ds required (rg_auth rg')\<rparr>))"

definition get_lease_policy :: "string \<Rightarrow> registry \<Rightarrow> lease_policy \<times> registry" where
  "get_lease_policy ds rg =
     (case map_of (rg_lease rg) ds of
        Some p \<Rightarrow> (p, rg)
      | None \<Rightarrow>
          if \<not> exists_at [ds] (rg_fs rg) then (default_lease_policy, rg)
          else let rg' = get_store ds rg; p = load_lease_policy ds (rg_fs rg') in (p, rg'\<lparr>rg_lease := AList.update ds p (rg_lease rg')\<rparr>))"

definition set_lease_policy :: "string \<Rightarrow> lease_policy \<Rightarrow> registry \<Rightarrow> (registry_error + lease_policy) \<times> registry" where
  "set_lease_policy ds p rg =
     (if \<not> exists_at [ds] (rg_fs rg) then (Inl (BadValue (''Dataset '' @ quoted ds @ '' does not exist'')), rg)
      else let rg' = get_store ds rg in
           (case write_lease_policy ds p (rg_fs rg') of
              Inl e \<Rightarrow> (Inl (BadValue e), rg')
            | Inr fs \<Rightarrow> (Inr p, rg'\<lparr>rg_fs := fs, rg_lease := AList.update ds p (rg_lease rg')\<rparr>)))"

section \<open>Validation of entries\<close>

definition require_type_allowed :: "string \<Rightarrow> string \<Rightarrow> registry \<Rightarrow> (registry_error + string) \<times> registry" where
  "require_type_allowed ds t rg =
     (case get_register_config ds rg of (cfg, rg') \<Rightarrow>
        case map_of cfg t of
          None \<Rightarrow> (Inl (BadValue (''Service type '' @ quoted t @ '' is not allowed for dataset '' @ quoted ds)), rg')
        | Some v \<Rightarrow> (Inr v, rg'))"

definition check_payload :: "registry \<Rightarrow> string \<Rightarrow> pdict \<Rightarrow> string \<Rightarrow> validation" where
  "check_payload rg t d min_version =
     (case rg_a2a rg of
        Some allowed \<Rightarrow> if t = ''a2a'' then validate_agent_card d allowed else validate_service t d min_version
      | None \<Rightarrow> validate_service t d min_version)"

definition require_valid :: "string \<Rightarrow> string \<Rightarrow> pdict \<Rightarrow> registry \<Rightarrow> (registry_error + unit) \<times> registry" where
  "require_valid ds t d rg =
     (case require_type_allowed ds t rg of
        (Inl e, rg') \<Rightarrow> (Inl e, rg')
      | (Inr v, rg') \<Rightarrow>
          let res = check_payload rg' t d v in
          if vr_valid res then (Inr (), rg')
          else (Inl (BadValue (t @ '' payload failed validation for dataset '' @ quoted ds @ '': '' @ join ''; '' (vr_errors res))), rg'))"

text \<open>\<open>_validate_entry\<close>: whether a loaded entry is kept; a card that still has to be fetched is checked later.\<close>

definition name_description :: "string \<Rightarrow> string \<Rightarrow> pdict" where
  "name_description name desc = [(''name'', PStr name), (''description'', PStr desc)]"

definition validate_entry :: "string \<Rightarrow> entry \<Rightarrow> bool \<Rightarrow> registry \<Rightarrow> bool \<times> registry" where
  "validate_entry ds e skip_url_only rg =
     (case get_register_config ds rg of (cfg, rg') \<Rightarrow>
        (case map_of cfg (kind_str (en_kind e)) of
           None \<Rightarrow> False
         | Some v \<Rightarrow>
             (case en_kind e of
                A2A \<Rightarrow> (case en_card e of None \<Rightarrow> skip_url_only | Some c \<Rightarrow> vr_valid (check_payload rg' ''a2a'' c v))
              | Generic \<Rightarrow> (case en_generic e of None \<Rightarrow> False
                  | Some g \<Rightarrow> vr_valid (validate_service ''generic'' (name_description (gd_name g) (gd_description g)) v))
              | Skill \<Rightarrow> (case en_skill e of None \<Rightarrow> False
                  | Some s \<Rightarrow> vr_valid (validate_service ''skill'' (name_description (sk_name s) (sk_description s)) v))), rg'))"

section \<open>Authorization\<close>

definition assert_can_register :: "auth_context option \<Rightarrow> registry_error option" where
  "assert_can_register caller =
     (case caller of
        None \<Rightarrow> None
      | Some c \<Rightarrow> if is_admin c then None
          else if ac_role c \<noteq> ''provider'' then Some (Forbidden (''Role '' @ repr_str (ac_role c) @ '' cannot register services; need admin or provider'')) else None)"

definition assert_owner :: "entry \<Rightarrow> auth_context \<Rightarrow> registry_error option" where
  "assert_owner e c =
     (if is_admin c then None
      else case en_owner e of
        None \<Rightarrow> Some (Forbidden ''System / unclaimed service: admin role required to mutate'')
      | Some u \<Rightarrow> if u \<noteq> ac_principal c then Some (Forbidden (''Service '' @ repr_str (en_id e) @ '' is owned by another principal'')) else None)"

definition owner_check :: "entry \<Rightarrow> auth_context option \<Rightarrow> registry_error option" where
  "owner_check e caller = (case caller of None \<Rightarrow> None | Some c \<Rightarrow> assert_owner e c)"

definition owner_of :: "auth_context option \<Rightarrow> string option" where
  "owner_of caller = map_option ac_principal caller"

section \<open>Registration\<close>

record generic_request =
  gr_id :: "string option"
  gr_name :: string
  gr_description :: string
  gr_schema :: pdict
  gr_url :: string
  gr_persistent :: bool
  gr_ttl :: "int option"

record a2a_request =
  ar_id :: "string option"
  ar_card :: "pdict option"
  ar_url :: "string option"
  ar_persistent :: bool
  ar_ttl :: "int option"

definition do_register :: "outside \<Rightarrow> string \<Rightarrow> entry \<Rightarrow> bool \<Rightarrow> registry \<Rightarrow> (string \<times> string) \<times> registry" where
  "do_register px ds e persistent rg =
     (let rg1 = ensure_dataset ds rg;
          status = (if map_of (entries_of rg1 ds) (en_id e) \<noteq> None then ''updated'' else ''registered'');
          rg2 = set_entries ds (AList.update (en_id e) e (entries_of rg1 ds)) rg1;
          rg3 = (if persistent then save_api_entry px ds e rg2 else rg2) in
      ((en_id e, status), publish px ds (en_id e) (if status = ''updated'' then ''update'' else ''register'') (Some e) rg3))"

definition chosen_id :: "string option \<Rightarrow> string \<Rightarrow> string" where
  "chosen_id given generated = (case given of None \<Rightarrow> generated | Some s \<Rightarrow> if s = [] then generated else s)"

definition source_of :: "bool \<Rightarrow> service_source" where
  "source_of persistent = (if persistent then ApiConfig else Ephemeral)"

definition generic_entry :: "outside \<Rightarrow> generic_request \<Rightarrow> auth_context option \<Rightarrow> entry" where
  "generic_entry px req caller =
     \<lparr>en_id = chosen_id (gr_id req) (generate_service_id px ''generic'' (gr_name req)), en_kind = Generic, en_source = source_of (gr_persistent req),
      en_generic = Some \<lparr>gd_name = gr_name req, gd_description = gr_description req, gd_schema = gr_schema req, gd_url = Some (gr_url req)\<rparr>,
      en_card = None, en_card_url = None, en_skill = None, en_owner = owner_of caller, en_ttl = gr_ttl req\<rparr>"

definition register_generic ::
  "outside \<Rightarrow> string \<Rightarrow> generic_request \<Rightarrow> auth_context option \<Rightarrow> registry \<Rightarrow> (registry_error + string \<times> string) \<times> registry" where
  "register_generic px ds req caller rg =
     (case assert_can_register caller of
        Some e \<Rightarrow> (Inl e, rg)
      | None \<Rightarrow>
          (case require_valid ds ''generic'' [(''name'', PStr (gr_name req)), (''description'', PStr (gr_description req)),
                  (''url'', PStr (gr_url req)), (''inputSchema'', PDict (gr_schema req))] rg of
             (Inl e, rg') \<Rightarrow> (Inl e, rg')
           | (Inr _, rg') \<Rightarrow> (case do_register px ds (generic_entry px req caller) (gr_persistent req) rg' of (a, rg'') \<Rightarrow> (Inr a, rg''))))"

definition registry_error_of :: "exc \<Rightarrow> registry_error" where
  "registry_error_of e = (if is_value_error e then BadValue (exc_msg e) else Failure (exc_msg e))"

text \<open>The card of a request and the URL it was fetched from.\<close>

definition request_card :: "outside \<Rightarrow> a2a_request \<Rightarrow> registry_error + pdict \<times> string option" where
  "request_card px req =
     (case ar_card req of
        Some c \<Rightarrow> Inr (c, None)
      | None \<Rightarrow>
          (case ar_url req of
             None \<Rightarrow> Inl (BadValue ''Either agent_card or agent_card_url must be provided'')
           | Some u \<Rightarrow>
               if u = [] then Inl (BadValue ''Either agent_card or agent_card_url must be provided'')
               else case ox_fetch px u of Inl e \<Rightarrow> Inl (registry_error_of e) | Inr c \<Rightarrow> Inr (c, Some u)))"

definition a2a_entry :: "outside \<Rightarrow> a2a_request \<Rightarrow> pdict \<Rightarrow> string option \<Rightarrow> auth_context option \<Rightarrow> entry" where
  "a2a_entry px req c url caller =
     \<lparr>en_id = chosen_id (ar_id req) (generate_service_id px ''agent'' (card_name c)), en_kind = A2A, en_source = source_of (ar_persistent req),
      en_generic = None, en_card = Some c, en_card_url = url, en_skill = None, en_owner = owner_of caller, en_ttl = ar_ttl req\<rparr>"

definition register_a2a ::
  "outside \<Rightarrow> string \<Rightarrow> a2a_request \<Rightarrow> auth_context option \<Rightarrow> registry \<Rightarrow> (registry_error + string \<times> string) \<times> registry" where
  "register_a2a px ds req caller rg =
     (case assert_can_register caller of
        Some e \<Rightarrow> (Inl e, rg)
      | None \<Rightarrow>
          (case request_card px req of
             Inl e \<Rightarrow> (Inl e, rg)
           | Inr (c, url) \<Rightarrow>
               (case require_valid ds ''a2a'' c rg of
                  (Inl e, rg') \<Rightarrow> (Inl e, rg')
                | (Inr _, rg') \<Rightarrow> (case do_register px ds (a2a_entry px req c url caller) (ar_persistent req) rg' of (a, rg'') \<Rightarrow> (Inr a, rg'')))))"

definition register_skill ::
  "outside \<Rightarrow> string \<Rightarrow> archive \<Rightarrow> auth_context option \<Rightarrow> registry \<Rightarrow> (registry_error + string \<times> string) \<times> registry" where
  "register_skill px ds arch caller rg =
     (case assert_can_register caller of
        Some e \<Rightarrow> (Inl e, rg)
      | None \<Rightarrow>
          (case require_type_allowed ds ''skill'' (ensure_dataset ds rg) of
             (Inl e, rg1) \<Rightarrow> (Inl e, rg1)
           | (Inr _, rg1) \<Rightarrow>
               let rg2 = get_store ds rg1 in
               (case save_skill_zip ds arch (rg_fs rg2) of
                  (Inl e, fs) \<Rightarrow> (Inl (BadValue e), rg2\<lparr>rg_fs := fs\<rparr>)
                | (Inr s, fs) \<Rightarrow>
                    (case require_valid ds ''skill'' (skill_dump s) (rg2\<lparr>rg_fs := fs\<rparr>) of
                       (Inl e, rg3) \<Rightarrow> (Inl e, rg3)
                     | (Inr _, rg3) \<Rightarrow>
                         let e = skill_entry px s (owner_of caller); old = map_of (entries_of rg3 ds) (en_id e) in
                         (case Option.bind old (\<lambda>x. owner_check x caller) of
                            Some err \<Rightarrow> (Inl err, set_entries ds (entries_of rg3 ds) rg3)
                          | None \<Rightarrow>
                              (Inr (en_id e, if old = None then ''registered'' else ''updated''),
                               publish px ds (en_id e) (if old = None then ''register'' else ''update'') (Some e)
                                 (set_entries ds (AList.update (en_id e) e (entries_of rg3 ds)) rg3)))))))"

section \<open>Deregistration\<close>

definition deregister ::
  "outside \<Rightarrow> string \<Rightarrow> string \<Rightarrow> auth_context option \<Rightarrow> registry \<Rightarrow> (registry_error + unit) \<times> registry" where
  "deregister px ds sid caller rg =
     (case get_entry rg ds sid of
        None \<Rightarrow> (Inl (NotFound (''Service '' @ quoted sid @ '' not found in dataset '' @ quoted ds)), rg)
      | Some e \<Rightarrow>
          if en_source e = UserConfig then (Inl (BadValue ''Cannot deregister user_config entries via API. Edit user_config.json instead.''), rg)
          else if en_source e = SkillFolder then (Inl (BadValue ''Cannot deregister skill entries via generic API. Use DELETE /skills/{name} instead.''), rg)
          else case owner_check e caller of
            Some err \<Rightarrow> (Inl err, rg)
          | None \<Rightarrow>
              let rg1 = set_entries ds (AList.delete sid (entries_of rg ds)) rg;
                  rg2 = (if en_source e = ApiConfig then remove_api_entry px ds sid rg1 else rg1) in
              (Inr (), publish px ds sid ''deregister'' None rg2))"

definition deregister_skill ::
  "outside \<Rightarrow> string \<Rightarrow> string \<Rightarrow> auth_context option \<Rightarrow> registry \<Rightarrow> (registry_error + string) \<times> registry" where
  "deregister_skill px ds name caller rg =
     (let sid = generate_service_id px ''skill'' name in
      case get_entry rg ds sid of
        None \<Rightarrow> (Inr ''not_found'', rg)
      | Some e \<Rightarrow>
          (case owner_check e caller of
             Some err \<Rightarrow> (Inl err, rg)
           | None \<Rightarrow>
               let rg1 = get_store ds (set_entries ds (AList.delete sid (entries_of rg ds)) rg);
                   rg2 = rg1\<lparr>rg_fs := snd (remove_skill ds name (rg_fs rg1))\<rparr> in
               (Inr ''deleted'', publish px ds sid ''deregister'' None rg2)))"

section \<open>Update\<close>

definition generic_update_fields :: "string list" where
  "generic_update_fields = [''name'', ''description'', ''inputSchema'', ''url'']"

definition skill_update_fields :: "string list" where
  "skill_update_fields = [''name'', ''description'', ''license'']"

definition changed_fields :: "pdict \<Rightarrow> pdict \<Rightarrow> string list" where
  "changed_fields current updates = map fst (filter (\<lambda>(k, v). \<not> py_eq (dget current k) v) updates)"

definition merged :: "pdict \<Rightarrow> pdict \<Rightarrow> pdict" where
  "merged current updates = fold (\<lambda>(k, v). AList.update k v) updates current"

definition unknown_fields :: "string list \<Rightarrow> pdict \<Rightarrow> string list" where
  "unknown_fields allowed updates = filter (\<lambda>k. k \<notin> set allowed) (map fst updates)"

definition apply_generic_updates :: "outside \<Rightarrow> entry \<Rightarrow> pdict \<Rightarrow> registry_error + entry \<times> string list" where
  "apply_generic_updates px e updates =
     (if unknown_fields generic_update_fields updates \<noteq> [] then Inl (BadValue ''Unknown generic fields'')
      else let current = (case en_generic e of None \<Rightarrow> [] | Some g \<Rightarrow> generic_dump g) in
           case ox_generic px (merged current updates) of
             Inl x \<Rightarrow> Inl (registry_error_of x)
           | Inr g \<Rightarrow> Inr (e\<lparr>en_generic := Some g\<rparr>, changed_fields current updates))"

definition apply_a2a_updates :: "outside \<Rightarrow> entry \<Rightarrow> pdict \<Rightarrow> registry_error + entry \<times> string list" where
  "apply_a2a_updates px e updates =
     (case en_card e of
        None \<Rightarrow> Inl (BadValue ''Cannot update a2a entry with no resolved agent_card'')
      | Some c \<Rightarrow>
          (case ox_card px (merged c updates) of
             Inl x \<Rightarrow> Inl (registry_error_of x)
           | Inr c' \<Rightarrow> Inr (e\<lparr>en_card := Some c'\<rparr>, changed_fields c updates)))"

definition file_error_of :: "file_error \<Rightarrow> registry_error" where
  "file_error_of x = (case x of FileMissing m \<Rightarrow> NoFile m | FileClash m \<Rightarrow> BadValue m)"

text \<open>The folder is renamed when the name changes to another text; a value that is no text cannot be a path.\<close>

definition rename_folder :: "string \<Rightarrow> string \<Rightarrow> pyval \<Rightarrow> tree \<Rightarrow> registry_error + tree" where
  "rename_folder ds old new fs =
     (case new of
        PStr n \<Rightarrow> (case rename_skill ds old n fs of Inl x \<Rightarrow> Inl (file_error_of x) | Inr fs' \<Rightarrow> Inr fs')
      | _ \<Rightarrow> if truthy new then Inl (Failure ''unsupported operand type(s) for /'') else Inr fs)"

definition md_updates :: "pdict \<Rightarrow> string list \<Rightarrow> (string \<times> string) list" where
  "md_updates m changed = map (\<lambda>k. (k, py_str (dget m k)))
     (filter (\<lambda>k. k \<in> set changed \<and> dget m k \<noteq> PNone) [''name'', ''description'', ''license''])"

definition rewrite_md :: "string \<Rightarrow> pyval \<Rightarrow> (string \<times> string) list \<Rightarrow> tree \<Rightarrow> registry_error + tree" where
  "rewrite_md ds name ups fs =
     (if ups = [] then Inr fs
      else case name of
        PStr n \<Rightarrow> (case update_skill_md ds n ups fs of
                     Inl (Inl x) \<Rightarrow> Inl (file_error_of x) | Inl (Inr m) \<Rightarrow> Inl (BadValue m) | Inr fs' \<Rightarrow> Inr fs')
      | _ \<Rightarrow> Inl (Failure ''unsupported operand type(s) for /''))"

definition apply_skill_updates :: "outside \<Rightarrow> string \<Rightarrow> entry \<Rightarrow> pdict \<Rightarrow> tree \<Rightarrow> (registry_error + entry \<times> string list) \<times> tree" where
  "apply_skill_updates px ds e updates fs =
     (if unknown_fields skill_update_fields updates \<noteq> [] then (Inl (BadValue ''Unknown skill fields''), fs)
      else case en_skill e of
        None \<Rightarrow> (Inl (BadValue ''skill entry has no skill_data''), fs)
      | Some s \<Rightarrow>
          let current = skill_dump s; changed = changed_fields current updates; m = merged current updates; new = dget m ''name'';
              renames = new \<noteq> PStr (sk_name s);
              m' = (if renames then AList.update ''skill_path'' (PStr (''skills/'' @ py_str new)) m else m) in
          (case (if renames then rename_folder ds (sk_name s) new fs else Inr fs) of
             Inl x \<Rightarrow> (Inl x, fs)
           | Inr fs1 \<Rightarrow>
               (case rewrite_md ds new (md_updates m' changed) fs1 of
                  Inl x \<Rightarrow> (Inl x, fs1)
                | Inr fs2 \<Rightarrow>
                    (case ox_skill px m' of
                       Inl x \<Rightarrow> (Inl (registry_error_of x), fs2)
                     | Inr s' \<Rightarrow> (Inr (e\<lparr>en_skill := Some s'\<rparr>, changed), fs2)))))"

text \<open>The merge by the type of the entry; only that of a skill touches the disk.\<close>

definition apply_updates :: "outside \<Rightarrow> string \<Rightarrow> entry \<Rightarrow> pdict \<Rightarrow> registry \<Rightarrow> (registry_error + entry \<times> string list) \<times> registry" where
  "apply_updates px ds e updates rg =
     (case en_kind e of
        Generic \<Rightarrow> (apply_generic_updates px e updates, rg)
      | A2A \<Rightarrow> (apply_a2a_updates px e updates, rg)
      | Skill \<Rightarrow> let rg' = get_store ds rg in
          (case apply_skill_updates px ds e updates (rg_fs rg') of (r, fs) \<Rightarrow> (r, rg'\<lparr>rg_fs := fs\<rparr>)))"

definition taxonomy_affected :: "string list \<Rightarrow> bool" where
  "taxonomy_affected changed \<longleftrightarrow> ''name'' \<in> set changed \<or> ''description'' \<in> set changed"

definition update_service ::
  "outside \<Rightarrow> string \<Rightarrow> string \<Rightarrow> pdict \<Rightarrow> auth_context option \<Rightarrow> registry \<Rightarrow> (registry_error + string list \<times> bool) \<times> registry" where
  "update_service px ds sid updates caller rg =
     (case get_entry rg ds sid of
        None \<Rightarrow> (Inl (NotFound (''Service '' @ quoted sid @ '' not found in dataset '' @ quoted ds)), rg)
      | Some e \<Rightarrow>
          if en_source e = UserConfig then (Inl (BadValue ''Cannot update user_config entries via API. Edit user_config.json directly and restart.''), rg)
          else case owner_check e caller of
            Some err \<Rightarrow> (Inl err, rg)
          | None \<Rightarrow>
              (case apply_updates px ds e updates rg of
                 (Inl err, rg1) \<Rightarrow> (Inl err, rg1)
               | (Inr (e', changed), rg1) \<Rightarrow>
                   let rg2 = set_entries ds (AList.update sid e' (entries_of rg1 ds)) rg1;
                       rg3 = regenerate_output px ds (if en_source e' = ApiConfig then save_api_entry px ds e' rg2 else rg2);
                       rg4 = (if taxonomy_affected changed then mark_taxonomy_stale ds rg3 else rg3) in
                   (Inr (sort changed, taxonomy_affected changed), emit_mutation ds sid ''update'' (Some e') rg4)))"

section \<open>Reservations\<close>

definition sweep_expired :: "rat \<Rightarrow> registry \<Rightarrow> registry" where
  "sweep_expired now rg = rg\<lparr>rg_reserved := filter (\<lambda>(_, l). \<not> rv_expires l \<le> now) (rg_reserved rg)\<rparr>"

definition is_leased :: "rat \<Rightarrow> string \<Rightarrow> string \<Rightarrow> registry \<Rightarrow> bool \<times> registry" where
  "is_leased now ds sid rg = (let rg' = sweep_expired now rg in (map_of (rg_reserved rg') (ds, sid) \<noteq> None, rg'))"

text \<open>The services a request may claim, in the order of their identifiers, with their output.\<close>

definition claimable :: "outside \<Rightarrow> (string \<Rightarrow> string \<Rightarrow> bool) \<Rightarrow> string \<Rightarrow> pdict \<Rightarrow> registry \<Rightarrow> (string \<times> pdict) list" where
  "claimable px unhealthy ds filters rg =
     List.map_filter (\<lambda>e.
         if map_of (rg_reserved rg) (ds, en_id e) \<noteq> None \<or> unhealthy ds (en_id e)
            \<or> (case entry_filter_dict px e of None \<Rightarrow> True | Some raw \<Rightarrow> \<not> filter_matches filters raw) then None
         else map_option (Pair (en_id e)) (find (\<lambda>s. dget s ''id'' = PStr (en_id e)) (rev (output_of rg ds))))
       (sort_key en_id (map snd (entries_of rg ds)))"

text \<open>The loop appends before it compares: it takes one service even when none is asked for.\<close>

definition claimed :: "int \<Rightarrow> (string \<times> pdict) list \<Rightarrow> (string \<times> pdict) list" where
  "claimed n cs = take (max 1 (nat n)) cs"

definition reserve_services ::
  "outside \<Rightarrow> (string \<Rightarrow> string \<Rightarrow> bool) \<Rightarrow> rat \<Rightarrow> rat \<Rightarrow> string \<Rightarrow> string \<Rightarrow> pdict \<Rightarrow> int \<Rightarrow> int \<Rightarrow> string option \<Rightarrow> auth_context option \<Rightarrow> registry
   \<Rightarrow> (registry_error + string \<times> rat \<times> pdict list) \<times> registry" where
  "reserve_services px unhealthy now wall uuid ds filters n ttl holder caller rg =
     (if n < 0 then (Inl (BadValue (''n must be >= 0, got '' @ int_str n)), rg)
      else if ttl < 1 then (Inl (BadValue (''ttl_seconds must be >= 1, got '' @ int_str ttl)), rg)
      else
        let h = (case caller of Some c \<Rightarrow> ac_principal c | None \<Rightarrow> (case holder of Some x \<Rightarrow> x | None \<Rightarrow> ''holder_'' @ uuid));
            rg' = sweep_expired now rg; cs = claimed n (claimable px unhealthy ds filters rg') in
        (Inr (h, wall + of_int ttl, map snd cs),
         rg'\<lparr>rg_reserved := fold (\<lambda>(sid, _). AList.update (ds, sid) \<lparr>rv_holder = h, rv_acquired = now, rv_expires = now + of_int ttl\<rparr>) cs (rg_reserved rg')\<rparr>))"

definition other_holder :: "string \<Rightarrow> auth_context option \<Rightarrow> bool" where
  "other_holder holder caller = (case caller of None \<Rightarrow> False | Some c \<Rightarrow> \<not> is_admin c \<and> holder \<noteq> ac_principal c)"

text \<open>The leases are released one after the other; those before a lease of another holder stay released.\<close>

fun release_each :: "string \<Rightarrow> string \<Rightarrow> string list \<Rightarrow> string list \<Rightarrow> registry \<Rightarrow> (registry_error + string list) \<times> registry" where
  "release_each ds holder [] done rg = (Inr (rev done), rg)"
| "release_each ds holder (sid # sids) done rg =
     (case map_of (rg_reserved rg) (ds, sid) of
        None \<Rightarrow> release_each ds holder sids done rg
      | Some l \<Rightarrow>
          if rv_holder l \<noteq> holder then (Inl (Forbidden (''Lease on '' @ quoted sid @ '' is held by a different holder'')), rg)
          else release_each ds holder sids (sid # done) (rg\<lparr>rg_reserved := AList.delete (ds, sid) (rg_reserved rg)\<rparr>))"

definition held_by :: "string \<Rightarrow> string \<Rightarrow> (string \<times> string) \<times> reservation \<Rightarrow> bool" where
  "held_by ds holder x \<longleftrightarrow> fst (fst x) = ds \<and> rv_holder (snd x) = holder"

definition release_reservation ::
  "rat \<Rightarrow> string \<Rightarrow> string \<Rightarrow> string list option \<Rightarrow> auth_context option \<Rightarrow> registry \<Rightarrow> (registry_error + string list) \<times> registry" where
  "release_reservation now ds holder sids caller rg =
     (if other_holder holder caller then (Inl (Forbidden (''Cannot release leases of another holder ('' @ repr_str holder @ '')'')), rg)
      else let rg' = sweep_expired now rg in
           case sids of
             None \<Rightarrow> (Inr (map (snd \<circ> fst) (filter (held_by ds holder) (rg_reserved rg'))),
                      rg'\<lparr>rg_reserved := filter (\<lambda>x. \<not> held_by ds holder x) (rg_reserved rg')\<rparr>)
           | Some ss \<Rightarrow> release_each ds holder ss [] rg')"

definition release_lease_by_sid ::
  "rat \<Rightarrow> string \<Rightarrow> string \<Rightarrow> auth_context option \<Rightarrow> registry \<Rightarrow> (registry_error + string option) \<times> registry" where
  "release_lease_by_sid now ds sid caller rg =
     (case Option.bind (get_entry rg ds sid) (\<lambda>e. owner_check e caller) of
        Some err \<Rightarrow> (Inl err, rg)
      | None \<Rightarrow>
          let rg' = sweep_expired now rg in
          (Inr (map_option rv_holder (map_of (rg_reserved rg') (ds, sid))), rg'\<lparr>rg_reserved := AList.delete (ds, sid) (rg_reserved rg')\<rparr>))"

definition extend_reservation ::
  "rat \<Rightarrow> rat \<Rightarrow> string \<Rightarrow> string \<Rightarrow> int \<Rightarrow> auth_context option \<Rightarrow> registry \<Rightarrow> (registry_error + rat) \<times> registry" where
  "extend_reservation now wall ds holder ttl caller rg =
     (if ttl < 1 then (Inl (BadValue (''ttl_seconds must be >= 1, got '' @ int_str ttl)), rg)
      else if other_holder holder caller then (Inl (Forbidden (''Cannot extend leases of another holder ('' @ repr_str holder @ '')'')), rg)
      else let rg' = sweep_expired now rg in
           if \<not> list_ex (held_by ds holder) (rg_reserved rg')
           then (Inl (NotFound (''No live leases for holder '' @ quoted holder @ '' in dataset '' @ quoted ds)), rg')
           else (Inr (wall + of_int ttl),
                 rg'\<lparr>rg_reserved := map (\<lambda>x. if held_by ds holder x then (fst x, (snd x)\<lparr>rv_expires := now + of_int ttl\<rparr>) else x) (rg_reserved rg')\<rparr>))"

section \<open>Startup\<close>

definition discover_datasets :: "tree \<Rightarrow> string list" where
  "discover_datasets fs = filter (\<lambda>ds. is_dir_at [ds] fs
     \<and> (exists_at (config_path ds ''user_config.json'') fs \<or> exists_at (config_path ds ''api_config.json'') fs
        \<or> exists_at (config_path ds ''register_config.json'') fs \<or> is_dir_at (skills_dir ds) fs)) (children [] fs)"

text \<open>
  The entries of the two configuration files in order, each with its number: the same object is in the merged
  dictionary and in the list of cards to fetch, unless a later entry with its identifier has replaced it.
\<close>

type_synonym loading = "(string \<times> nat \<times> entry) list"

fun merge_config :: "string \<Rightarrow> nat \<Rightarrow> entry list \<Rightarrow> loading \<Rightarrow> (string \<times> nat \<times> entry) list \<Rightarrow> registry \<Rightarrow> loading \<times> (string \<times> nat \<times> entry) list \<times> registry" where
  "merge_config ds n [] m urls rg = (m, urls, rg)"
| "merge_config ds n (e # es) m urls rg =
     (case validate_entry ds e True rg of (ok, rg') \<Rightarrow>
        if \<not> ok then merge_config ds (Suc n) es m urls rg'
        else merge_config ds (Suc n) es (AList.update (en_id e) (n, e) m)
               (if en_card_url e \<noteq> None \<and> en_card_url e \<noteq> Some [] then urls @ [(ds, n, e)] else urls) rg')"

fun merge_skills :: "string \<Rightarrow> nat \<Rightarrow> entry list \<Rightarrow> loading \<Rightarrow> registry \<Rightarrow> loading \<times> registry" where
  "merge_skills ds n [] m rg = (m, rg)"
| "merge_skills ds n (e # es) m rg =
     (if map_of m (en_id e) \<noteq> None then merge_skills ds (Suc n) es m rg
      else case validate_entry ds e False rg of (ok, rg') \<Rightarrow>
        merge_skills ds (Suc n) es (if ok then AList.update (en_id e) (n, e) m else m) rg')"

definition load_dataset :: "outside \<Rightarrow> string \<Rightarrow> registry \<Rightarrow> loading \<times> (string \<times> nat \<times> entry) list \<times> registry" where
  "load_dataset px ds rg =
     (let rg1 = get_store ds rg;
          user = load_config_file px (config_path ds ''user_config.json'') UserConfig (rg_fs rg1);
          api = load_config_file px (config_path ds ''api_config.json'') ApiConfig (rg_fs rg1);
          rg2 = rg1\<lparr>rg_stores := AList.update ds (index_entries api) (rg_stores rg1)\<rparr>;
          (m, urls, rg3) = merge_config ds 0 (user @ api) [] [] rg2;
          (m', rg4) = merge_skills ds (length user + length api) (load_skills px ds (rg_fs rg3)) m rg3 in
      (m', urls, set_entries ds (map (\<lambda>(i, _, e). (i, e)) m') rg4))"

fun load_datasets :: "outside \<Rightarrow> string list \<Rightarrow> registry \<Rightarrow> (string \<times> loading) list \<times> (string \<times> nat \<times> entry) list \<times> registry" where
  "load_datasets px [] rg = ([], [], rg)"
| "load_datasets px (ds # dss) rg =
     (case load_dataset px ds rg of (m, urls, rg1) \<Rightarrow>
        case load_datasets px dss rg1 of (ms, urls', rg2) \<Rightarrow> ((ds, m) # ms, urls @ urls', rg2))"

text \<open>Whether the numbered object is the one in the dictionary.\<close>

definition is_current :: "(string \<times> loading) list \<Rightarrow> string \<Rightarrow> nat \<Rightarrow> string \<Rightarrow> bool" where
  "is_current ms ds n sid = (case map_of ms ds of None \<Rightarrow> False
     | Some m \<Rightarrow> (case map_of m sid of None \<Rightarrow> False | Some (n', _) \<Rightarrow> n = n'))"

definition fetched :: "outside \<Rightarrow> entry \<Rightarrow> entry" where
  "fetched px e = (case en_card_url e of None \<Rightarrow> e | Some u \<Rightarrow> (case ox_fetch px u of Inl _ \<Rightarrow> e | Inr c \<Rightarrow> e\<lparr>en_card := Some c\<rparr>))"

definition fetch_agent_cards :: "outside \<Rightarrow> (string \<times> loading) list \<Rightarrow> (string \<times> nat \<times> entry) list \<Rightarrow> registry \<Rightarrow> registry" where
  "fetch_agent_cards px ms urls rg = fold (\<lambda>(ds, n, e) rg.
     if is_current ms ds n (en_id e) then set_entries ds (AList.update (en_id e) (fetched px e) (entries_of rg ds)) rg else rg) urls rg"

definition drop_invalid :: "outside \<Rightarrow> (string \<times> nat \<times> entry) list \<Rightarrow> registry \<Rightarrow> registry" where
  "drop_invalid px urls rg = fold (\<lambda>(ds, _, e) rg.
     let e' = fetched px e in
     if en_card e' = None then rg
     else case validate_entry ds e' False rg of (ok, rg') \<Rightarrow>
            if ok then rg' else set_entries ds (AList.delete (en_id e) (entries_of rg' ds)) rg') urls rg"

definition finish_dataset :: "outside \<Rightarrow> string \<Rightarrow> registry \<Rightarrow> registry" where
  "finish_dataset px ds rg =
     (let rg1 = get_store ds rg; api = filter (\<lambda>e. en_source e = ApiConfig) (map snd (entries_of rg1 ds));
          rg2 = (if api = [] then rg1 else save_api_batch px ds api rg1) in
      init_taxonomy_state px ds (regenerate_output px ds rg2))"

definition startup :: "outside \<Rightarrow> registry \<Rightarrow> registry" where
  "startup px rg =
     (let dss = discover_datasets (rg_fs rg); (ms, urls, rg1) = load_datasets px dss rg;
          rg2 = (if urls = [] then rg1 else drop_invalid px urls (fetch_agent_cards px ms urls rg1)) in
      fold (finish_dataset px) dss rg2)"

section \<open>Queries\<close>

definition list_services :: "registry \<Rightarrow> string \<Rightarrow> pdict list" where
  "list_services rg ds = output_of rg ds"

definition list_entries :: "registry \<Rightarrow> string \<Rightarrow> entry list" where
  "list_entries rg ds = map snd (entries_of rg ds)"

definition dataset_exists :: "registry \<Rightarrow> string \<Rightarrow> bool" where
  "dataset_exists rg ds = is_dir_at [ds] (rg_fs rg)"

definition list_datasets :: "registry \<Rightarrow> string list" where
  "list_datasets rg = filter (\<lambda>ds. is_dir_at [ds] (rg_fs rg)) (children [] (rg_fs rg))"

definition json_length :: "pyval option option \<Rightarrow> nat" where
  "json_length v = (case v of Some (Some (PList xs)) \<Rightarrow> length xs | Some (Some (PDict d)) \<Rightarrow> length d | _ \<Rightarrow> 0)"

definition list_datasets_with_counts :: "registry \<Rightarrow> (string \<times> nat \<times> nat) list" where
  "list_datasets_with_counts rg =
     map (\<lambda>ds. (ds, json_length (read_json (config_path ds ''service.json'') (rg_fs rg)), json_length (read_json [ds, ''query'', ''query.json''] (rg_fs rg))))
       (filter (\<lambda>ds. exists_at (config_path ds ''service.json'') (rg_fs rg)) (list_datasets rg))"

definition count_source :: "entry \<Rightarrow> (string \<times> int) list \<Rightarrow> (string \<times> int) list" where
  "count_source e d = (let s = source_str (en_source e) in AList.update s ((case map_of d s of None \<Rightarrow> 0 | Some n \<Rightarrow> n) + 1) d)"

definition get_status :: "registry \<Rightarrow> string option \<Rightarrow> nat \<times> (string \<times> int) list \<times> string list" where
  "get_status rg ds =
     (let all = map fst (rg_entries rg); chosen = (case ds of None \<Rightarrow> all | Some d \<Rightarrow> if d = [] then all else [d]);
          es = concat (map (list_entries rg) chosen) in
      (length es, fold count_source es [], all))"

end
