(* ===== verification/DatasetApi.thy ===== *)
theory DatasetApi
  imports RegistryService Heartbeat AuthApi
begin

text \<open>
  The HTTP side of the registry (\<open>backend/routers/dataset.py\<close>, \<open>heartbeat/router.py\<close>): the routes below \<open>/api/datasets/{dataset}\<close>, each a
  dependency that admits the caller followed by a call of the registry service, the heartbeat store or both. The
  records of other registries in a listing are the argument \<open>foreign\<close>; the search index is not part of the model.
\<close>

section \<open>The site\<close>

record site =
  st_auth :: auth_server
  st_registry :: registry
  st_leases :: "hb_table option"

text \<open>What a request reads of the clocks and the random source.\<close>

record moment =
  mo_now :: rat
  mo_wall :: rat
  mo_used :: string
  mo_uuid :: string

definition http_of_registry :: "registry_error \<Rightarrow> http_error" where
  "http_of_registry e = (case e of NotFound m \<Rightarrow> HttpError 404 m | BadValue m \<Rightarrow> HttpError 400 m | Forbidden m \<Rightarrow> HttpError 403 m
     | NoFile m \<Rightarrow> HttpError 404 m | Failure m \<Rightarrow> HttpError 500 m)"

definition registry_view :: "registry \<Rightarrow> auth_service" where
  "registry_view rg = \<lparr>ss_auth_required = (\<lambda>ds. fst (is_auth_required ds rg)), ss_dataset_exists = dataset_exists rg\<rparr>"

text \<open>The dependencies of the routes. Asking whether a data set is protected fills the registry's cache.\<close>

datatype guard = Public | Authorized | AdminStrict | AdminOrAnon

definition authorized :: "(string \<Rightarrow> string) \<Rightarrow> moment \<Rightarrow> string \<Rightarrow> string option \<Rightarrow> site \<Rightarrow> (http_error + auth_context option) \<times> auth_server" where
  "authorized sha mo ds header st = authorize sha (mo_used mo) (Some (registry_view (st_registry st))) (Some ds) header (st_auth st)"

definition asked :: "string \<Rightarrow> site \<Rightarrow> registry" where
  "asked ds st = (if sv_store (st_auth st) = None then st_registry st else snd (is_auth_required ds (st_registry st)))"

definition admit ::
  "(string \<Rightarrow> string) \<Rightarrow> moment \<Rightarrow> string \<Rightarrow> string option \<Rightarrow> guard \<Rightarrow> site \<Rightarrow> (http_error + auth_context option) \<times> site" where
  "admit sha mo ds header g st =
     (case g of
        Public \<Rightarrow> (Inr None, st)
      | AdminStrict \<Rightarrow>
          (case require_admin_strict sha (mo_used mo) header (st_auth st) of
             (Inl e, sv) \<Rightarrow> (Inl e, st\<lparr>st_auth := sv\<rparr>)
           | (Inr c, sv) \<Rightarrow> (Inr (Some c), st\<lparr>st_auth := sv\<rparr>))
      | Authorized \<Rightarrow>
          (case authorized sha mo ds header st of (r, sv) \<Rightarrow> (r, st\<lparr>st_auth := sv, st_registry := asked ds st\<rparr>))
      | AdminOrAnon \<Rightarrow>
          (case require_admin_or_anon (authorized sha mo ds header st) of (r, sv) \<Rightarrow> (r, st\<lparr>st_auth := sv, st_registry := asked ds st\<rparr>)))"

section \<open>Requests\<close>

record list_query =
  lq_fields :: string
  lq_size :: int
  lq_page :: int
  lq_leased :: bool
  lq_unhealthy :: bool
  lq_filters :: pdict

datatype dataset_request =
    PostGeneric generic_request
  | PostA2A a2a_request
  | PutService string pdict
  | DeleteService string
  | GetService string
  | ListServices list_query
  | PostReservation pdict int int "string option"
  | DeleteReservations string
  | DeleteReservation string string
  | ExtendReservations string pdict
  | DeleteLease string
  | PostSkill archive
  | DeleteSkill string
  | DownloadSkill string
  | Heartbeat string "string option"
  | RevokeHeartbeat string bool
  | GetAuthConfig
  | SetAuthConfig bool
  | GetLeaseConfig
  | SetLeaseConfig lease_policy
  | GetRegisterConfig
  | SetRegisterConfig pyval
  | GetVectorConfig
  | SetVectorConfig "string option" "int option"
  | DeleteDataset

datatype reply =
    Registered string string "(int \<times> rat) option"
  | Updated "string list" bool
  | Deregistered string
  | Service pdict
  | Archive archive
  | Services "pdict list" "(string \<times> int) list"
  | Reserved string int rat "pdict list"
  | Released "string list"
  | Extended rat
  | LeaseReleased "string option"
  | SkillDone string string
  | Alive lease
  | Revoked bool
  | AuthConfig bool
  | LeaseConfig lease_policy
  | Formats "(string \<times> string) list"
  | Vector pdict
  | Deleted
  | Null

fun guard_of :: "dataset_request \<Rightarrow> guard" where
  "guard_of GetAuthConfig = Public"
| "guard_of GetLeaseConfig = Public"
| "guard_of (SetAuthConfig _) = AdminStrict"
| "guard_of (SetLeaseConfig _) = AdminOrAnon"
| "guard_of (SetRegisterConfig _) = AdminOrAnon"
| "guard_of (SetVectorConfig _ _) = AdminOrAnon"
| "guard_of DeleteDataset = AdminOrAnon"
| "guard_of _ = Authorized"

section \<open>Leases of services\<close>

definition policy_dict :: "lease_policy \<Rightarrow> pdict" where
  "policy_dict p = [(''enabled'', PBool (lp_enabled p)), (''min_ttl'', PInt (lp_min p)), (''max_ttl'', PInt (lp_max p)),
     (''grace_period'', PInt (lp_grace p)), (''schema_version'', PInt 1)]"

definition lease_provider :: "registry \<Rightarrow> lease_config" where
  "lease_provider rg ds = policy_dict (fst (get_lease_policy ds rg))"

definition http_of_heartbeat :: "hb_error \<Rightarrow> http_error" where
  "http_of_heartbeat e = (case e of HeartbeatNotSupportedError m \<Rightarrow> HttpError 400 m | TTLRequiredError m _ _ \<Rightarrow> HttpError 400 m
     | TTLOutOfRangeError m _ _ \<Rightarrow> HttpError 400 m | ConfigError x \<Rightarrow> HttpError 500 (exc_msg x))"

definition validate_lease_request :: "string \<Rightarrow> int option \<Rightarrow> site \<Rightarrow> (http_error + int option) \<times> site" where
  "validate_lease_request ds ttl st =
     (case st_leases st of
        None \<Rightarrow> (case ttl of None \<Rightarrow> Inr None | Some _ \<Rightarrow> Inl (HttpError 400 ''Heartbeat module not initialized on this registry''), st)
      | Some _ \<Rightarrow>
          (case hb_validate (lease_provider (st_registry st)) ds (case ttl of None \<Rightarrow> PNone | Some t \<Rightarrow> PInt t) of
             Inl e \<Rightarrow> Inl (http_of_heartbeat e) | Inr t \<Rightarrow> Inr t,
           st\<lparr>st_registry := snd (get_lease_policy ds (st_registry st))\<rparr>))"

definition install_lease :: "moment \<Rightarrow> string \<Rightarrow> string \<times> string \<Rightarrow> int option \<Rightarrow> site \<Rightarrow> (http_error + reply) \<times> site" where
  "install_lease mo ds answer ttl st =
     (case (ttl, st_leases st) of
        (Some t, Some tab) \<Rightarrow>
          (case hb_install (lease_provider (st_registry st)) (mo_now mo) ds (fst answer) t tab of
             (Inl x, tab') \<Rightarrow> (Inl (HttpError 500 (exc_msg x)), st\<lparr>st_leases := Some tab'\<rparr>)
           | (Inr l, tab') \<Rightarrow> (Inr (Registered (fst answer) (snd answer) (Some (t, mo_wall mo + of_int t))), st\<lparr>st_leases := Some tab'\<rparr>))
      | _ \<Rightarrow> (Inr (Registered (fst answer) (snd answer) None), st))"

text \<open>A registration: the request's lease is checked first and installed last.\<close>

definition with_lease ::
  "moment \<Rightarrow> string \<Rightarrow> int option \<Rightarrow> (int option \<Rightarrow> registry \<Rightarrow> (registry_error + string \<times> string) \<times> registry) \<Rightarrow> site \<Rightarrow> (http_error + reply) \<times> site" where
  "with_lease mo ds ttl register st =
     (case validate_lease_request ds ttl st of
        (Inl e, st1) \<Rightarrow> (Inl e, st1)
      | (Inr t, st1) \<Rightarrow>
          (case register t (st_registry st1) of
             (Inl e, rg) \<Rightarrow> (Inl (http_of_registry e), st1\<lparr>st_registry := rg\<rparr>)
           | (Inr a, rg) \<Rightarrow> install_lease mo ds a t (st1\<lparr>st_registry := rg\<rparr>)))"

definition on_registry :: "('a \<Rightarrow> reply) \<Rightarrow> (registry_error + 'a) \<times> registry \<Rightarrow> site \<Rightarrow> (http_error + reply) \<times> site" where
  "on_registry f r st = (case r of (Inl e, rg) \<Rightarrow> (Inl (http_of_registry e), st\<lparr>st_registry := rg\<rparr>) | (Inr a, rg) \<Rightarrow> (Inr (f a), st\<lparr>st_registry := rg\<rparr>))"

definition unhealthy_at :: "site \<Rightarrow> string \<Rightarrow> string \<Rightarrow> bool" where
  "unhealthy_at st ds sid = (case st_leases st of None \<Rightarrow> False | Some tab \<Rightarrow> hb_is_unhealthy tab ds sid)"

section \<open>Listing\<close>

text \<open>A listed row: the output of the entry with its source.\<close>

definition local_row :: "outside \<Rightarrow> list_query \<Rightarrow> string \<Rightarrow> site \<Rightarrow> entry \<Rightarrow> pdict option" where
  "local_row px q ds st e =
     (let rg = st_registry st in
      if \<not> lq_leased q \<and> map_of (rg_reserved rg) (ds, en_id e) \<noteq> None then None
      else if \<not> lq_unhealthy q \<and> unhealthy_at st ds (en_id e) then None
      else case entry_filter_dict px e of
        None \<Rightarrow> None
      | Some raw \<Rightarrow>
          if \<not> filter_matches (lq_filters q) raw then None
          else map_option (\<lambda>s. AList.update ''source'' (PStr (source_str (en_source e))) s)
                 (find (\<lambda>s. dget s ''id'' = PStr (en_id e)) (rev (output_of rg ds))))"

definition foreign_row :: "outside \<Rightarrow> list_query \<Rightarrow> entry \<times> pdict \<Rightarrow> pdict option" where
  "foreign_row px q fr =
     (case entry_filter_dict px (fst fr) of
        None \<Rightarrow> None
      | Some raw \<Rightarrow> if filter_matches (lq_filters q) raw then Some (AList.update ''source'' (PStr ''cluster'') (snd fr)) else None)"

definition matched_rows :: "outside \<Rightarrow> (string \<Rightarrow> (entry \<times> pdict) list) \<Rightarrow> list_query \<Rightarrow> string \<Rightarrow> site \<Rightarrow> pdict list" where
  "matched_rows px foreign q ds st =
     List.map_filter (local_row px q ds st) (sort_key en_id (list_entries (st_registry st) ds)) @ List.map_filter (foreign_row px q) (foreign ds)"

definition brief :: "pdict \<Rightarrow> pdict" where
  "brief s = [(''id'', dget s ''id''), (''name'', dget s ''name''), (''description'', dget s ''description'')]"

text \<open>The slice of a page; a page size of zero divides by zero.\<close>

definition page_of :: "int \<Rightarrow> int \<Rightarrow> 'a list \<Rightarrow> 'a list" where
  "page_of n page rows = take (nat n) (drop (nat ((page - 1) * n)) rows)"

definition total_pages :: "int \<Rightarrow> int \<Rightarrow> int" where
  "total_pages n count = max 1 ((count + n - 1) div n)"

definition list_reply :: "list_query \<Rightarrow> pdict list \<Rightarrow> http_error + reply" where
  "list_reply q rows =
     (let project = (if lq_fields q = ''brief'' then map brief else (\<lambda>r. r)) in
      if lq_size q = -1 then Inr (Services (project rows) [])
      else if lq_size q = 0 then Inl (HttpError 500 ''integer division or modulo by zero'')
      else let count = int (length rows) in
           Inr (Services (project (page_of (lq_size q) (lq_page q) rows))
             [(''X-Total-Count'', count), (''X-Page'', lq_page q), (''X-Total-Pages'', total_pages (lq_size q) count), (''X-Page-Size'', lq_size q)]))"

section \<open>Routes\<close>

definition forbidden_update_fields :: "string list" where
  "forbidden_update_fields = [''owner_id'', ''service_id'', ''type'', ''source'']"

definition allowed_updates :: "pdict \<Rightarrow> pdict" where
  "allowed_updates updates = filter (\<lambda>(k, _). k \<notin> set forbidden_update_fields) updates"

text \<open>The heartbeat routes: the lease is renewed before the status is written, and dropped before the service is deregistered.\<close>

definition heartbeat_route :: "outside \<Rightarrow> moment \<Rightarrow> string \<Rightarrow> string \<Rightarrow> string option \<Rightarrow> auth_context option \<Rightarrow> site \<Rightarrow> (http_error + reply) \<times> site" where
  "heartbeat_route px mo ds sid status ctx st =
     (case st_leases st of
        None \<Rightarrow> (Inl (HttpError 404 ''Heartbeat module not initialized on this registry''), st)
      | Some tab \<Rightarrow>
          (case hb_heartbeat (mo_now mo) ds sid tab of
             (Inl x, tab') \<Rightarrow> (Inl (HttpError 404 (exc_msg x)), st\<lparr>st_leases := Some tab'\<rparr>)
           | (Inr l, tab') \<Rightarrow>
               (Inr (Alive l), st\<lparr>st_leases := Some tab', st_registry := (case status of None \<Rightarrow> st_registry st
                  | Some s \<Rightarrow> snd (update_service px ds sid [(''status'', PStr s)] ctx (st_registry st)))\<rparr>)))"

definition registry_error_text :: "registry_error \<Rightarrow> string" where
  "registry_error_text e = (case e of NotFound m \<Rightarrow> m | BadValue m \<Rightarrow> m | Forbidden m \<Rightarrow> m | NoFile m \<Rightarrow> m | Failure m \<Rightarrow> m)"

definition revoke_route :: "outside \<Rightarrow> moment \<Rightarrow> string \<Rightarrow> string \<Rightarrow> bool \<Rightarrow> auth_context option \<Rightarrow> site \<Rightarrow> (http_error + reply) \<times> site" where
  "revoke_route px mo ds sid permanent ctx st =
     (case st_leases st of
        None \<Rightarrow> (Inl (HttpError 404 ''Heartbeat module not initialized on this registry''), st)
      | Some tab \<Rightarrow>
          if permanent then
            (case deregister px ds sid ctx (st_registry st) of
               (Inl e, rg) \<Rightarrow> (Inl (HttpError 400 (registry_error_text e)), st\<lparr>st_leases := Some (hb_drop ds sid tab), st_registry := rg\<rparr>)
             | (Inr _, rg) \<Rightarrow> (Inr (Revoked True), st\<lparr>st_leases := Some (hb_drop ds sid tab), st_registry := rg\<rparr>))
          else (case hb_revoke (mo_now mo) ds sid False tab of
                  (found, tab') \<Rightarrow>
                    (if found then Inr (Revoked False) else Inl (HttpError 404 ''No heartbeat lease for service''), st\<lparr>st_leases := Some tab'\<rparr>)))"

definition get_service :: "(string \<Rightarrow> string \<Rightarrow> pdict option) \<Rightarrow> string \<Rightarrow> string \<Rightarrow> registry \<Rightarrow> http_error + reply" where
  "get_service foreign_entry ds sid rg =
     (case get_entry rg ds sid of
        None \<Rightarrow>
          (case (if contains '':'' sid then foreign_entry ds sid else None) of
             Some f \<Rightarrow> Inr (Service f)
           | None \<Rightarrow> Inl (HttpError 404 (''Service '' @ quoted sid @ '' not found in dataset '' @ quoted ds)))
      | Some e \<Rightarrow>
          (case (en_kind e, en_skill e) of
             (Skill, Some s) \<Rightarrow>
               (case get_skill_zip ds (sk_name s) (rg_fs rg) of
                  Inl _ \<Rightarrow> Inl (HttpError 404 (''Skill folder not found: '' @ sk_name s)) | Inr a \<Rightarrow> Inr (Archive a))
           | _ \<Rightarrow> (case find (\<lambda>s. dget s ''id'' = PStr sid) (output_of rg ds) of None \<Rightarrow> Inr Null | Some s \<Rightarrow> Inr (Service s))))"

text \<open>\<open>int(body.get("ttl_seconds", 30))\<close> is evaluated outside of the error mapping.\<close>

definition extend_route :: "moment \<Rightarrow> string \<Rightarrow> string \<Rightarrow> pdict \<Rightarrow> auth_context option \<Rightarrow> site \<Rightarrow> (http_error + reply) \<times> site" where
  "extend_route mo ds holder body ctx st =
     (case py_int (dget_or body ''ttl_seconds'' (PInt 30)) of
        Inl x \<Rightarrow> (Inl (HttpError 500 (exc_msg x)), st)
      | Inr ttl \<Rightarrow> on_registry Extended (extend_reservation (mo_now mo) (mo_wall mo) ds holder ttl ctx (st_registry st)) st)"

record peers =
  pe_rows :: "string \<Rightarrow> (entry \<times> pdict) list"
  pe_entry :: "string \<Rightarrow> string \<Rightarrow> pdict option"

definition route ::
  "outside \<Rightarrow> peers \<Rightarrow> moment \<Rightarrow> string \<Rightarrow> dataset_request \<Rightarrow> auth_context option \<Rightarrow> site \<Rightarrow> (http_error + reply) \<times> site" where
  "route px pe mo ds req ctx st =
     (let rg = st_registry st in
      case req of
        PostGeneric r \<Rightarrow> with_lease mo ds (gr_ttl r) (\<lambda>t. register_generic px ds (r\<lparr>gr_ttl := t\<rparr>) ctx) st
      | PostA2A r \<Rightarrow> with_lease mo ds (ar_ttl r) (\<lambda>t. register_a2a px ds (r\<lparr>ar_ttl := t\<rparr>) ctx) st
      | PutService sid ups \<Rightarrow> on_registry (\<lambda>(ch, t). Updated ch t) (update_service px ds sid (allowed_updates ups) ctx rg) st
      | DeleteService sid \<Rightarrow> on_registry (\<lambda>_. Deregistered sid) (deregister px ds sid ctx rg) st
      | GetService sid \<Rightarrow> (get_service (pe_entry pe) ds sid rg, st)
      | ListServices q \<Rightarrow>
          if lq_fields q \<notin> {''brief'', ''detail''} then (Inl (HttpError 400 ''fields must be one of brief, detail''), st)
          else let st' = (if lq_leased q then st else st\<lparr>st_registry := sweep_expired (mo_now mo) rg\<rparr>) in
               (list_reply q (matched_rows px (pe_rows pe) q ds st'), st')
      | PostReservation fs n ttl h \<Rightarrow>
          on_registry (\<lambda>(h, x, cs). Reserved h ttl x cs) (reserve_services px (unhealthy_at st) (mo_now mo) (mo_wall mo) (mo_uuid mo) ds fs n ttl h ctx rg) st
      | DeleteReservations h \<Rightarrow> on_registry Released (release_reservation (mo_now mo) ds h None ctx rg) st
      | DeleteReservation h sid \<Rightarrow> on_registry Released (release_reservation (mo_now mo) ds h (Some [sid]) ctx rg) st
      | ExtendReservations h body \<Rightarrow> extend_route mo ds h body ctx st
      | DeleteLease sid \<Rightarrow> on_registry LeaseReleased (release_lease_by_sid (mo_now mo) ds sid ctx rg) st
      | PostSkill a \<Rightarrow> on_registry (\<lambda>(i, s). SkillDone i s) (register_skill px ds a ctx rg) st
      | DeleteSkill name \<Rightarrow> on_registry (SkillDone name) (deregister_skill px ds name ctx rg) st
      | DownloadSkill name \<Rightarrow>
          let rg' = get_store ds rg in
          (case get_skill_zip ds name (rg_fs rg') of Inl _ \<Rightarrow> Inl (HttpError 404 (''Skill '' @ quoted name @ '' not found'')) | Inr a \<Rightarrow> Inr (Archive a),
           st\<lparr>st_registry := rg'\<rparr>)
      | Heartbeat sid status \<Rightarrow> heartbeat_route px mo ds sid status ctx st
      | RevokeHeartbeat sid permanent \<Rightarrow> revoke_route px mo ds sid permanent ctx st
      | GetAuthConfig \<Rightarrow>
          if \<not> exists_at [ds] (rg_fs rg) then (Inl (HttpError 404 (''Dataset '' @ quoted ds @ '' not found'')), st)
          else (case is_auth_required ds rg of (b, rg') \<Rightarrow> (Inr (AuthConfig b), st\<lparr>st_registry := rg'\<rparr>))
      | SetAuthConfig b \<Rightarrow> on_registry AuthConfig (set_auth_config ds b rg) st
      | GetLeaseConfig \<Rightarrow>
          if \<not> exists_at [ds] (rg_fs rg) then (Inl (HttpError 404 (''Dataset '' @ quoted ds @ '' not found'')), st)
          else (case get_lease_policy ds rg of (p, rg') \<Rightarrow> (Inr (LeaseConfig p), st\<lparr>st_registry := rg'\<rparr>))
      | SetLeaseConfig p \<Rightarrow> on_registry LeaseConfig (set_lease_policy ds p rg) st
      | GetRegisterConfig \<Rightarrow> (case get_register_config ds rg of (cfg, rg') \<Rightarrow> (Inr (Formats cfg), st\<lparr>st_registry := rg'\<rparr>))
      | SetRegisterConfig v \<Rightarrow> on_registry Formats (set_register_config ds v rg) st
      | GetVectorConfig \<Rightarrow> (case get_vector_config ds rg of (d, rg') \<Rightarrow> (Inr (Vector d), st\<lparr>st_registry := rg'\<rparr>))
      | SetVectorConfig m d \<Rightarrow>
          on_registry (\<lambda>(n, k). Vector [(''embedding_model'', PStr n), (''embedding_dim'', PInt k)]) (set_vector_config ds m d rg) st
      | DeleteDataset \<Rightarrow> on_registry (\<lambda>_. Deleted) (delete_dataset ds rg) st)"

definition handle ::
  "(string \<Rightarrow> string) \<Rightarrow> outside \<Rightarrow> peers \<Rightarrow> moment \<Rightarrow> string \<Rightarrow> string option \<Rightarrow> dataset_request \<Rightarrow> site \<Rightarrow> (http_error + reply) \<times> site" where
  "handle sha px pe mo ds header req st =
     (case admit sha mo ds header (guard_of req) st of
        (Inl e, st') \<Rightarrow> (Inl e, st')
      | (Inr ctx, st') \<Rightarrow> route px pe mo ds req ctx st')"

end
