(* ===== verification/RegistryLaws.thy ===== *)
theory RegistryLaws
  imports DatasetApi AuthSecurity
begin

text \<open>
  Laws of the registry: what each operation leaves alone, that the listing shows the entries, who may change an
  entry, that a reservation is exclusive, and that the configuration file gives back what was written.
\<close>

section \<open>What the helpers leave alone\<close>

text \<open>The parts of the service the laws are about: its entries, its output and its reservations.\<close>

definition same_core :: "registry \<Rightarrow> registry \<Rightarrow> bool" where
  "same_core rg rg' \<longleftrightarrow> rg_entries rg' = rg_entries rg \<and> rg_output rg' = rg_output rg \<and> rg_reserved rg' = rg_reserved rg"

named_theorems core_frames \<open>operations that leave entries, output and reservations alone\<close>

lemma same_core_refl [simp]: "same_core rg rg"
  by (simp add: same_core_def)

lemma same_core_trans: "same_core a b \<Longrightarrow> same_core b c \<Longrightarrow> same_core a c"
  by (simp add: same_core_def)

lemma same_coreD:
  assumes "same_core rg rg'"
  shows "entries_of rg' ds = entries_of rg ds" "output_of rg' ds = output_of rg ds" "get_entry rg' ds sid = get_entry rg ds sid" "rg_reserved rg' = rg_reserved rg"
  using assms by (simp_all add: same_core_def entries_of_def output_of_def get_entry_def)

lemma get_store_core [core_frames]: "same_core rg (get_store ds rg)"
  by (simp add: same_core_def get_store_def)

lemma save_api_entry_core [core_frames]: "same_core rg (save_api_entry px ds e rg)"
  using get_store_core [of rg ds] by (simp add: save_api_entry_def same_core_def flush_entries_def Let_def)

lemma remove_api_entry_core [core_frames]: "same_core rg (remove_api_entry px ds sid rg)"
  using get_store_core [of rg ds] by (simp add: remove_api_entry_def same_core_def flush_entries_def Let_def)

lemma mark_stale_core [core_frames]: "same_core rg (mark_taxonomy_stale ds rg)"
  by (simp add: same_core_def mark_taxonomy_stale_def)

lemma emit_core [core_frames]: "same_core rg (emit_mutation ds sid op e rg)"
  by (simp add: same_core_def emit_mutation_def)

lemma fs_core [core_frames]: "same_core rg (rg\<lparr>rg_fs := fs\<rparr>)"
  by (simp add: same_core_def)

lemma set_vector_core [core_frames]: "same_core rg (snd (set_vector_config ds m d rg))"
  using get_store_core [of rg ds] by (auto simp: set_vector_config_def same_core_def Let_def split: option.splits)

lemma set_register_core [core_frames]: "same_core rg (snd (set_register_config ds v rg))"
  using get_store_core [of rg ds] by (simp add: set_register_config_def same_core_def Let_def)

lemma get_vector_core [core_frames]: "same_core rg (snd (get_vector_config ds rg))"
  using get_store_core [of rg ds] by (simp add: get_vector_config_def same_core_def Let_def)

lemma get_register_core [core_frames]: "same_core rg (snd (get_register_config ds rg))"
  using get_store_core [of rg ds] by (simp add: get_register_config_def same_core_def Let_def split: option.splits)

lemma auth_required_core [core_frames]: "same_core rg (snd (is_auth_required ds rg))"
  using get_store_core [of rg ds] by (simp add: is_auth_required_def same_core_def Let_def split: option.splits)

lemma get_lease_core [core_frames]: "same_core rg (snd (get_lease_policy ds rg))"
  using get_store_core [of rg ds] by (simp add: get_lease_policy_def same_core_def Let_def split: option.splits)

lemma set_auth_core [core_frames]: "same_core rg (snd (set_auth_config ds b rg))"
  using get_store_core [of rg ds] by (simp add: set_auth_config_def same_core_def Let_def)

lemma set_lease_core [core_frames]: "same_core rg (snd (set_lease_policy ds p rg))"
  using get_store_core [of rg ds] by (auto simp: set_lease_policy_def same_core_def Let_def split: sum.splits)

lemma require_type_core [core_frames]: "same_core rg (snd (require_type_allowed ds t rg))"
  using get_register_core [of rg ds] by (auto simp: require_type_allowed_def split: prod.splits option.splits)

lemma require_valid_core [core_frames]: "same_core rg (snd (require_valid ds t d rg))"
  using require_type_core [of rg ds t] by (auto simp: require_valid_def Let_def split: prod.splits sum.splits)

lemma validate_entry_core [core_frames]: "same_core rg (snd (validate_entry ds e b rg))"
  using get_register_core [of rg ds] by (auto simp: validate_entry_def split: prod.splits)

lemma init_files_core [core_frames]: "same_core rg (snd (init_dataset_files ds m fmts a rg))"
proof -
  define rg1 where "rg1 = rg\<lparr>rg_fs := mkdirs [ds, ''query''] (rg_fs rg)\<rparr>"
  define x2 where "x2 = (if exists_at (config_path ds ''vector_config.json'') (rg_fs rg1) then (Inr (m, 0), rg1) else set_vector_config ds (Some m) None rg1)"
  define x3 where "x3 = (if exists_at (config_path ds ''register_config.json'') (rg_fs (snd x2)) then (Inr fmts, snd x2)
                           else set_register_config ds (formats_value fmts) (snd x2))"
  define rg4 where "rg4 = (let rg4 = get_store ds (snd x3) in rg4\<lparr>rg_fs := write_auth_config ds True (rg_fs rg4), rg_auth := AList.update ds True (rg_auth rg4)\<rparr>)"
  have "same_core rg rg1" by (simp add: rg1_def same_core_def)
  then have c2: "same_core rg (snd x2)" using set_vector_core [of rg1] same_core_trans by (auto simp: x2_def)
  then have c3: "same_core rg (snd x3)" using set_register_core [of "snd x2"] same_core_trans by (auto simp: x3_def)
  then have c4: "same_core rg rg4" using get_store_core [of "snd x3" ds] by (simp add: rg4_def same_core_def Let_def)
  have "snd (init_dataset_files ds m fmts a rg) \<in> {snd x2, snd x3, rg4}"
    unfolding init_dataset_files_def Let_def rg1_def [symmetric] x2_def [symmetric]
    by (auto simp: x3_def rg4_def Let_def split: sum.splits prod.splits)
  then show ?thesis using c2 c3 c4 by auto
qed

lemma ensure_core [core_frames]: "same_core rg (ensure_dataset ds rg)"
  using init_files_core by (simp add: ensure_dataset_def)

lemma create_dataset_core [core_frames]: "same_core rg (snd (create_dataset ds m f a rg))"
  using init_files_core by (auto simp: create_dataset_def split: sum.splits)

lemma apply_updates_core [core_frames]: "same_core rg (snd (apply_updates px ds e ups rg))"
  using get_store_core [of rg ds] by (auto simp: apply_updates_def same_core_def Let_def split: service_kind.splits prod.splits)

lemma entries_regenerate [simp]:
  "entries_of (regenerate_output px ds rg) ds' = entries_of rg ds'" "rg_reserved (regenerate_output px ds rg) = rg_reserved rg"
  using get_store_core [of "rg\<lparr>rg_output := x\<rparr>" ds for x] by (auto simp: regenerate_output_def entries_of_def same_core_def Let_def)

lemma output_regenerate:
  "output_of (regenerate_output px ds rg) ds' = (if ds' = ds then map (\<lambda>(_, e). entry_to_output px e) (entries_of rg ds) else output_of rg ds')"
  using get_store_core [of "rg\<lparr>rg_output := x\<rparr>" ds for x] by (auto simp: regenerate_output_def output_of_def same_core_def Let_def)

lemma publish_core [simp]:
  "entries_of (publish px ds sid op e rg) ds' = entries_of rg ds'" "rg_reserved (publish px ds sid op e rg) = rg_reserved rg"
  "output_of (publish px ds sid op e rg) ds' = (if ds' = ds then map (\<lambda>(_, e). entry_to_output px e) (entries_of rg ds) else output_of rg ds')"
  by (simp_all add: publish_def same_coreD [OF emit_core] same_coreD [OF mark_stale_core] output_regenerate)

lemma set_entries_simps [simp]:
  "entries_of (set_entries ds es rg) ds' = (if ds' = ds then es else entries_of rg ds')"
  "output_of (set_entries ds es rg) ds' = output_of rg ds'" "rg_reserved (set_entries ds es rg) = rg_reserved rg"
  by (simp_all add: set_entries_def entries_of_def output_of_def)

section \<open>The listing shows the entries\<close>

definition listing_ok :: "outside \<Rightarrow> registry \<Rightarrow> bool" where
  "listing_ok px rg \<longleftrightarrow> (\<forall>ds. output_of rg ds = map (\<lambda>(_, e). entry_to_output px e) (entries_of rg ds))"

lemma listing_ok_core: "same_core rg rg' \<Longrightarrow> listing_ok px rg' = listing_ok px rg"
  by (simp add: listing_ok_def same_coreD)

lemma listing_ok_publish:
  "(\<And>ds'. ds' \<noteq> ds \<Longrightarrow> output_of rg ds' = map (\<lambda>(_, e). entry_to_output px e) (entries_of rg ds')) \<Longrightarrow> listing_ok px (publish px ds sid op e rg)"
  by (simp add: listing_ok_def)

lemma listing_ok_new [simp]: "listing_ok px (new_registry fs a2a)"
  by (simp add: listing_ok_def new_registry_def output_of_def entries_of_def)

lemmas core_D = same_coreD [OF save_api_entry_core] same_coreD [OF remove_api_entry_core] same_coreD [OF get_store_core]
  same_coreD [OF ensure_core] same_coreD [OF fs_core] same_coreD [OF emit_core] same_coreD [OF mark_stale_core]

lemma do_register_listing: "listing_ok px rg \<Longrightarrow> listing_ok px (snd (do_register px ds e b rg))"
  unfolding do_register_def Let_def snd_conv by (rule listing_ok_publish) (auto simp: core_D listing_ok_def)

lemma do_register_entries:
  "entries_of (snd (do_register px ds e b rg)) ds' = (if ds' = ds then AList.update (en_id e) e (entries_of rg ds) else entries_of rg ds')"
  "rg_reserved (snd (do_register px ds e b rg)) = rg_reserved rg"
  by (simp_all add: do_register_def Let_def core_D)

text \<open>A registration either changes none of the core or registers the entry the request describes.\<close>

lemma register_generic_cases:
  assumes "register_generic px ds req ctx rg = (r, rg')"
  shows "(\<exists>e. r = Inl e \<and> same_core rg rg') \<or> (\<exists>rg1 a. r = Inr a \<and> same_core rg rg1 \<and> do_register px ds (generic_entry px req ctx) (gr_persistent req) rg1 = (a, rg'))"
proof (cases "assert_can_register ctx")
  case None
  obtain x rg1 where v: "require_valid ds ''generic'' [(''name'', PStr (gr_name req)), (''description'', PStr (gr_description req)),
      (''url'', PStr (gr_url req)), (''inputSchema'', PDict (gr_schema req))] rg = (x, rg1)" by fastforce
  then have "same_core rg rg1" using require_valid_core by (metis snd_conv)
  then show ?thesis using assms None v by (cases x) (auto simp: register_generic_def split: prod.splits)
qed (use assms in \<open>auto simp: register_generic_def\<close>)

lemma register_a2a_cases:
  assumes "register_a2a px ds req ctx rg = (r, rg')"
  shows "(\<exists>e. r = Inl e \<and> same_core rg rg') \<or> (\<exists>rg1 a c u. r = Inr a \<and> same_core rg rg1 \<and> do_register px ds (a2a_entry px req c u ctx) (ar_persistent req) rg1 = (a, rg'))"
proof (cases "assert_can_register ctx = None \<and> (\<exists>c u. request_card px req = Inr (c, u))")
  case True
  then obtain c u where c: "request_card px req = Inr (c, u)" by blast
  obtain x rg1 where v: "require_valid ds ''a2a'' c rg = (x, rg1)" by fastforce
  then have "same_core rg rg1" using require_valid_core by (metis snd_conv)
  then show ?thesis using assms True c v by (cases x) (auto simp: register_a2a_def split: prod.splits)
qed (use assms in \<open>auto simp: register_a2a_def split: option.splits sum.splits prod.splits\<close>)

text \<open>What a change of one entry comes to: the entry under one identifier is set or taken away, after a check of the one that was there.\<close>

definition changes_one :: "outside \<Rightarrow> string \<Rightarrow> string \<Rightarrow> entry option \<Rightarrow> registry \<Rightarrow> registry \<Rightarrow> bool" where
  "changes_one px ds sid e rg rg' \<longleftrightarrow>
     (\<forall>ds'. entries_of rg' ds' = (if ds' = ds then (case e of None \<Rightarrow> AList.delete sid (entries_of rg ds) | Some x \<Rightarrow> AList.update sid x (entries_of rg ds)) else entries_of rg ds'))
     \<and> (\<forall>ds'. output_of rg' ds' = (if ds' = ds then map (\<lambda>(_, e). entry_to_output px e) (entries_of rg' ds) else output_of rg ds'))
     \<and> rg_reserved rg' = rg_reserved rg"

lemma changes_one_listing: "changes_one px ds sid e rg rg' \<Longrightarrow> listing_ok px rg \<Longrightarrow> listing_ok px rg'"
  by (simp add: changes_one_def listing_ok_def)

lemma changes_one_core: "same_core rg rg1 \<Longrightarrow> changes_one px ds sid e rg1 rg' \<Longrightarrow> changes_one px ds sid e rg rg'"
proof -
  assume "same_core rg rg1"
  then have "entries_of rg1 = entries_of rg" "output_of rg1 = output_of rg" "rg_reserved rg1 = rg_reserved rg" by (auto simp: same_coreD)
  then show "changes_one px ds sid e rg1 rg' \<Longrightarrow> changes_one px ds sid e rg rg'" by (simp add: changes_one_def split: option.splits)
qed

lemma do_register_changes: "changes_one px ds (en_id e) (Some e) rg (snd (do_register px ds e b rg))"
  unfolding changes_one_def by (simp add: do_register_entries) (simp add: do_register_def Let_def core_D)

lemma register_skill_cases:
  assumes "register_skill px ds arch ctx rg = (r, rg')"
  shows "(\<exists>e. r = Inl e \<and> (\<forall>d. entries_of rg' d = entries_of rg d) \<and> (\<forall>d. output_of rg' d = output_of rg d) \<and> rg_reserved rg' = rg_reserved rg)
    \<or> (\<exists>a e. r = Inr a \<and> changes_one px ds (en_id e) (Some e) rg rg' \<and> (\<forall>x. get_entry rg ds (en_id e) = Some x \<longrightarrow> owner_check x ctx = None))"
proof (cases "assert_can_register ctx")
  case None
  obtain x rg1 where t: "require_type_allowed ds ''skill'' (ensure_dataset ds rg) = (x, rg1)" by fastforce
  then have c1: "same_core rg rg1" using require_type_core ensure_core same_core_trans by (metis snd_conv)
  obtain y fs where z: "save_skill_zip ds arch (rg_fs (get_store ds rg1)) = (y, fs)" by fastforce
  have c2: "same_core rg ((get_store ds rg1)\<lparr>rg_fs := fs\<rparr>)" using c1 get_store_core fs_core same_core_trans by blast
  show ?thesis
  proof (cases "\<exists>v s. x = Inr v \<and> y = Inr s")
    case False
    then show ?thesis using assms None t z c1 c2 by (auto simp: register_skill_def Let_def same_coreD split: sum.splits)
  next
    case True
    then obtain v s where xy: "x = Inr v" "y = Inr s" by blast
    obtain w rg3 where w: "require_valid ds ''skill'' (skill_dump s) ((get_store ds rg1)\<lparr>rg_fs := fs\<rparr>) = (w, rg3)" by fastforce
    then have c3: "same_core rg rg3" using require_valid_core c2 same_core_trans by (metis snd_conv)
    show ?thesis
      using assms None t z xy w c3
      by (cases w) (auto simp: register_skill_def Let_def same_coreD get_entry_def changes_one_def bind_eq_None_conv split: option.splits)
  qed
qed (use assms in \<open>auto simp: register_skill_def\<close>)

lemma deregister_cases:
  assumes "deregister px ds sid ctx rg = (r, rg')"
  shows "(\<exists>e. r = Inl e \<and> rg' = rg)
    \<or> (r = Inr () \<and> changes_one px ds sid None rg rg' \<and> (\<forall>x. get_entry rg ds sid = Some x \<longrightarrow> owner_check x ctx = None))"
  using assms by (auto simp: deregister_def Let_def changes_one_def core_D split: option.splits if_splits)

lemma deregister_skill_cases:
  assumes "deregister_skill px ds name ctx rg = (r, rg')"
  shows "rg' = rg \<or> (\<exists>sid. changes_one px ds sid None rg rg' \<and> (\<forall>x. get_entry rg ds sid = Some x \<longrightarrow> owner_check x ctx = None))"
proof (cases "\<exists>e. get_entry rg ds (generate_service_id px ''skill'' name) = Some e \<and> owner_check e ctx = None")
  case True
  then have "changes_one px ds (generate_service_id px ''skill'' name) None rg rg'"
    using assms by (auto simp: deregister_skill_def Let_def changes_one_def core_D)
  then show ?thesis using True by auto
qed (use assms in \<open>auto simp: deregister_skill_def Let_def split: option.splits\<close>)

lemma apply_updates_owner: "apply_updates px ds e ups rg = (Inr (e', ch), rg') \<Longrightarrow> en_owner e' = en_owner e \<and> en_source e' = en_source e \<and> en_id e' = en_id e"
  by (auto simp: apply_updates_def apply_generic_updates_def apply_a2a_updates_def apply_skill_updates_def Let_def
      split: service_kind.splits option.splits sum.splits if_splits prod.splits)

lemma update_service_cases:
  assumes "update_service px ds sid ups ctx rg = (r, rg')"
  shows "(\<exists>e. r = Inl e \<and> same_core rg rg')
    \<or> (\<exists>x e a. r = Inr a \<and> get_entry rg ds sid = Some x \<and> owner_check x ctx = None \<and> changes_one px ds sid (Some e) rg rg'
         \<and> en_owner e = en_owner x \<and> en_id e = en_id x)"
proof (cases "\<exists>x. get_entry rg ds sid = Some x \<and> en_source x \<noteq> UserConfig \<and> owner_check x ctx = None")
  case True
  then obtain x where x: "get_entry rg ds sid = Some x" "en_source x \<noteq> UserConfig" "owner_check x ctx = None" by blast
  obtain u rg1 where u: "apply_updates px ds x ups rg = (u, rg1)" by fastforce
  then have c1: "same_core rg rg1" using apply_updates_core by (metis snd_conv)
  show ?thesis
  proof (cases u)
    case (Inl e)
    then show ?thesis using assms x u c1 by (auto simp: update_service_def)
  next
    case (Inr ec)
    obtain e ch where ec: "ec = (e, ch)" by fastforce
    have "changes_one px ds sid (Some e) rg1 rg'"
      using assms x u Inr ec by (auto simp: update_service_def Let_def changes_one_def core_D output_regenerate)
    then have "changes_one px ds sid (Some e) rg rg'" by (rule changes_one_core [OF c1])
    moreover have "\<exists>a. r = Inr a" using assms x u Inr ec by (auto simp: update_service_def Let_def)
    ultimately show ?thesis using x apply_updates_owner [OF u [unfolded Inr ec]] by blast
  qed
next
  case False
  then show ?thesis using assms by (auto simp: update_service_def split: option.splits if_splits)
qed

lemma delete_dataset_listing: "listing_ok px rg \<Longrightarrow> listing_ok px (snd (delete_dataset ds rg))"
  by (auto simp: listing_ok_def delete_dataset_def output_of_def entries_of_def)

text \<open>The operations on reservations touch nothing else.\<close>

definition only_reserved :: "registry \<Rightarrow> registry \<Rightarrow> bool" where
  "only_reserved rg rg' \<longleftrightarrow> rg_entries rg' = rg_entries rg \<and> rg_output rg' = rg_output rg"

lemma only_reservedD:
  assumes "only_reserved rg rg'"
  shows "entries_of rg' ds = entries_of rg ds" "output_of rg' ds = output_of rg ds" "get_entry rg' ds sid = get_entry rg ds sid"
  using assms by (simp_all add: only_reserved_def entries_of_def output_of_def get_entry_def)

lemma release_each_only: "only_reserved rg (snd (release_each ds h sids acc rg))"
  by (induction ds h sids acc rg rule: release_each.induct) (auto simp: only_reserved_def split: option.splits)

lemma reservations_only:
  "only_reserved rg (sweep_expired now rg)" "only_reserved rg (snd (reserve_services px uh now wall uuid ds fs n ttl ho ctx rg))"
  "only_reserved rg (snd (release_reservation now ds h sids ctx rg))" "only_reserved rg (snd (release_lease_by_sid now ds sid ctx rg))"
  "only_reserved rg (snd (extend_reservation now wall ds h ttl ctx rg))"
  using release_each_only [of "sweep_expired now rg"]
  by (auto simp: only_reserved_def sweep_expired_def reserve_services_def release_reservation_def release_lease_by_sid_def extend_reservation_def Let_def
      split: option.splits)

lemma only_reserved_core: "same_core rg rg' \<Longrightarrow> only_reserved rg rg'"
  by (simp add: same_core_def only_reserved_def)

section \<open>Requests\<close>

text \<open>
  What a request can do to the registry: leave its entries alone, change one entry the caller may change,
  register an entry for the caller, or take the whole data set away.
\<close>

inductive effect :: "outside \<Rightarrow> string \<Rightarrow> auth_context option \<Rightarrow> registry \<Rightarrow> registry \<Rightarrow> bool" for px ds ctx rg where
  kept: "(\<And>d. entries_of rg' d = entries_of rg d) \<Longrightarrow> (\<And>d. output_of rg' d = output_of rg d) \<Longrightarrow> effect px ds ctx rg rg'"
| changed: "changes_one px ds sid e rg rg' \<Longrightarrow> (\<And>x. get_entry rg ds sid = Some x \<Longrightarrow> owner_check x ctx = None) \<Longrightarrow> effect px ds ctx rg rg'"

inductive_cases effect_cases: "effect px ds ctx rg rg'"

lemma effect_only: "only_reserved rg rg' \<Longrightarrow> effect px ds ctx rg rg'"
  by (rule effect.kept) (simp_all add: only_reservedD)

lemma effect_core: "same_core rg rg' \<Longrightarrow> effect px ds ctx rg rg'"
  by (rule effect_only) (rule only_reserved_core)

lemma effect_listing: "effect px ds ctx rg rg' \<Longrightarrow> listing_ok px rg \<Longrightarrow> listing_ok px rg'"
  by (erule effect_cases) (auto simp: listing_ok_def changes_one_def)

lemma effect_owner:
  assumes "effect px ds (Some c) rg rg'" "\<not> is_admin c" "get_entry rg d sid = Some e" "en_owner e \<noteq> Some (ac_principal c)"
  shows "get_entry rg' d sid = Some e"
  using assms(1)
proof cases
  case kept
  then show ?thesis using assms(3) by (simp add: get_entry_def)
next
  case (changed sid' e')
  have "d \<noteq> ds \<or> sid \<noteq> sid'"
    using changed(2) assms(2-4) by (auto simp: owner_check_def assert_owner_def split: option.splits if_splits)
  then show ?thesis using changed(1) assms(3) by (auto simp: changes_one_def get_entry_def split: option.splits)
qed

lemma register_skill_effect: "effect px ds ctx rg (snd (register_skill px ds a ctx rg))"
  using register_skill_cases [of px ds a ctx rg] by (metis effect.kept effect.changed surjective_pairing)

lemma deregister_effect: "effect px ds ctx rg (snd (deregister px ds sid ctx rg))"
  using deregister_cases [of px ds sid ctx rg] by (metis effect.kept effect.changed surjective_pairing)

lemma deregister_skill_effect: "effect px ds ctx rg (snd (deregister_skill px ds n ctx rg))"
  using deregister_skill_cases [of px ds n ctx rg] by (metis effect.kept effect.changed surjective_pairing)

lemma update_service_effect: "effect px ds ctx rg (snd (update_service px ds sid ups ctx rg))"
  using update_service_cases [of px ds sid ups ctx rg] by (metis effect_core effect.changed option.inject surjective_pairing)

lemma on_registry_simps: "st_registry (snd (on_registry f r st)) = snd r"
  by (auto simp: on_registry_def split: prod.splits sum.splits)

text \<open>The requests that may do more: registrations and the deletion of the data set.\<close>

fun sweeping :: "dataset_request \<Rightarrow> bool" where
  "sweeping (PostGeneric _) = True"
| "sweeping (PostA2A _) = True"
| "sweeping DeleteDataset = True"
| "sweeping _ = False"

lemma route_effect:
  assumes "\<not> sweeping req"
  shows "effect px ds ctx (st_registry st) (st_registry (snd (route px pe mo ds req ctx st)))"
proof (cases req)
  case (Heartbeat sid status)
  have "effect px ds ctx (st_registry st) (st_registry st)" by (rule effect_core) simp
  then show ?thesis
    unfolding Heartbeat by (auto simp: route_def heartbeat_route_def update_service_effect Let_def split: option.splits prod.splits sum.splits)
next
  case (RevokeHeartbeat sid permanent)
  have "effect px ds ctx (st_registry st) (st_registry st)" by (rule effect_core) simp
  moreover have "effect px ds ctx (st_registry st) rg'" if "deregister px ds sid ctx (st_registry st) = (r, rg')" for r rg'
    using deregister_effect [of px ds ctx "st_registry st" sid] that by simp
  ultimately show ?thesis
    unfolding RevokeHeartbeat by (auto simp: route_def revoke_route_def Let_def split: option.splits prod.splits sum.splits)
next
  case (ExtendReservations h body)
  have "effect px ds ctx (st_registry st) (st_registry st)" by (rule effect_core) simp
  then show ?thesis
    unfolding ExtendReservations by (auto simp: route_def extend_route_def on_registry_simps Let_def reservations_only intro: effect_only split: sum.splits)
next
  case (ListServices q)
  then show ?thesis by (auto simp: route_def Let_def reservations_only intro: effect_only effect_core)
next
  case GetAuthConfig
  then show ?thesis using auth_required_core [of "st_registry st" ds] by (auto simp: route_def Let_def intro: effect_core split: prod.splits)
next
  case GetLeaseConfig
  then show ?thesis using get_lease_core [of "st_registry st" ds] by (auto simp: route_def Let_def intro: effect_core split: prod.splits)
next
  case GetRegisterConfig
  then show ?thesis using get_register_core [of "st_registry st" ds] by (auto simp: route_def Let_def intro: effect_core split: prod.splits)
next
  case GetVectorConfig
  then show ?thesis using get_vector_core [of "st_registry st" ds] by (auto simp: route_def Let_def intro: effect_core split: prod.splits)
qed (use assms in \<open>auto simp: route_def Let_def on_registry_simps update_service_effect deregister_effect deregister_skill_effect register_skill_effect
    reservations_only core_frames intro: effect_only effect_core\<close>)

lemma install_lease_registry [simp]: "st_registry (snd (install_lease mo ds a t st)) = st_registry st"
  by (auto simp: install_lease_def split: option.splits prod.splits sum.splits)

lemma with_lease_registry:
  "\<exists>t rg1. same_core (st_registry st) rg1
     \<and> (st_registry (snd (with_lease mo ds ttl f st)) = rg1 \<or> st_registry (snd (with_lease mo ds ttl f st)) = snd (f t rg1))"
proof -
  obtain x st1 where v: "validate_lease_request ds ttl st = (x, st1)" by fastforce
  then have c: "same_core (st_registry st) (st_registry st1)"
    using get_lease_core [of "st_registry st" ds] by (auto simp: validate_lease_request_def split: option.splits)
  show ?thesis
  proof (cases x)
    case (Inl e)
    then show ?thesis using v c by (auto simp: with_lease_def)
  next
    case (Inr t)
    have "st_registry (snd (with_lease mo ds ttl f st)) = snd (f t (st_registry st1))"
      using v Inr by (auto simp: with_lease_def split: prod.splits sum.splits)
    then show ?thesis using c by blast
  qed
qed

lemma do_register_after:
  assumes "same_core rg rg1" "do_register px ds e b rg1 = (a, rg')"
  shows "changes_one px ds (en_id e) (Some e) rg rg'"
  using changes_one_core [OF assms(1)] do_register_changes [of px ds e rg1 b] assms(2) by simp

lemma register_generic_change:
  "same_core rg (snd (register_generic px ds req ctx rg))
   \<or> changes_one px ds (en_id (generic_entry px req ctx)) (Some (generic_entry px req ctx)) rg (snd (register_generic px ds req ctx rg))"
proof -
  obtain r rg' where r: "register_generic px ds req ctx rg = (r, rg')" by fastforce
  from register_generic_cases [OF r] show ?thesis unfolding r snd_conv using do_register_after by blast
qed

lemma register_a2a_change:
  "\<exists>e. same_core rg (snd (register_a2a px ds req ctx rg)) \<or> changes_one px ds (en_id e) (Some e) rg (snd (register_a2a px ds req ctx rg))"
proof -
  obtain r rg' where r: "register_a2a px ds req ctx rg = (r, rg')" by fastforce
  from register_a2a_cases [OF r] show ?thesis unfolding r snd_conv using do_register_after by blast
qed

lemma register_listing:
  assumes "listing_ok px rg"
  shows "listing_ok px (snd (register_generic px ds req ctx rg))" "listing_ok px (snd (register_a2a px ds areq ctx rg))"
  using register_generic_change [of rg px ds req ctx] register_a2a_change [of rg px ds areq ctx] assms
  by (auto simp: listing_ok_core intro: changes_one_listing)

lemma route_listing:
  assumes "listing_ok px (st_registry st)"
  shows "listing_ok px (st_registry (snd (route px pe mo ds req ctx st)))"
proof (cases "sweeping req")
  case False
  then show ?thesis using effect_listing [OF route_effect assms] by blast
next
  case True
  then consider r where "req = PostGeneric r" | r where "req = PostA2A r" | "req = DeleteDataset" by (cases req) auto
  then show ?thesis
  proof cases
    case 1
    then show ?thesis using with_lease_registry [of st mo ds "gr_ttl r" "\<lambda>t. register_generic px ds (r\<lparr>gr_ttl := t\<rparr>) ctx"]
        register_listing(1) listing_ok_core assms by (auto simp: route_def Let_def)
  next
    case 2
    then show ?thesis using with_lease_registry [of st mo ds "ar_ttl r" "\<lambda>t. register_a2a px ds (r\<lparr>ar_ttl := t\<rparr>) ctx"]
        register_listing(2) listing_ok_core assms by (auto simp: route_def Let_def)
  next
    case 3
    then show ?thesis using delete_dataset_listing [OF assms] by (simp add: route_def Let_def on_registry_simps)
  qed
qed

lemma admit_core: "same_core (st_registry st) (st_registry (snd (admit sha mo ds header g st)))"
proof -
  have "same_core (st_registry st) (asked ds st)" using auth_required_core [of "st_registry st" ds] by (simp add: asked_def)
  then show ?thesis by (cases g) (auto simp: admit_def split: prod.splits sum.splits)
qed

lemma handle_listing:
  assumes "listing_ok px (st_registry st)"
  shows "listing_ok px (st_registry (snd (handle sha px pe mo ds header req st)))"
proof -
  obtain x st1 where a: "admit sha mo ds header (guard_of req) st = (x, st1)" by fastforce
  then have "listing_ok px (st_registry st1)" using admit_core [of st sha mo ds header "guard_of req"] assms by (simp add: listing_ok_core)
  then show ?thesis using a route_listing by (cases x) (auto simp: handle_def)
qed

section \<open>Startup\<close>

lemma merge_config_core: "same_core rg (snd (snd (merge_config ds n es m urls rg)))"
proof (induction ds n es m urls rg rule: merge_config.induct)
  case (2 ds n e es m urls rg)
  obtain ok rg' where v: "validate_entry ds e True rg = (ok, rg')" by fastforce
  then have "same_core rg rg'" using validate_entry_core by (metis snd_conv)
  then show ?case using 2 v by (cases ok) (auto intro: same_core_trans split: prod.splits)
qed simp

lemma merge_skills_core: "same_core rg (snd (merge_skills ds n es m rg))"
proof (induction ds n es m rg rule: merge_skills.induct)
  case (2 ds n e es m rg)
  obtain ok rg' where v: "validate_entry ds e False rg = (ok, rg')" by fastforce
  then have "same_core rg rg'" using validate_entry_core by (metis snd_conv)
  then show ?case using 2 v by (cases "map_of m (en_id e)") (auto intro: same_core_trans split: prod.splits)
qed simp

text \<open>Before the outputs are made only the discovered data sets have entries.\<close>

definition confined :: "string set \<Rightarrow> registry \<Rightarrow> bool" where
  "confined D rg \<longleftrightarrow> (\<forall>ds. ds \<notin> D \<longrightarrow> entries_of rg ds = []) \<and> (\<forall>ds. output_of rg ds = [])"

lemma confined_core: "same_core rg rg' \<Longrightarrow> confined D rg \<Longrightarrow> confined D rg'"
  by (simp add: confined_def same_coreD)

lemma confined_set: "ds \<in> D \<Longrightarrow> confined D rg \<Longrightarrow> confined D (set_entries ds es rg)"
  by (auto simp: confined_def)

lemma merge_config_urls: "merge_config ds n es m urls rg = (m', urls', rg') \<Longrightarrow> fst ` set urls \<subseteq> {ds} \<Longrightarrow> fst ` set urls' \<subseteq> {ds}"
proof (induction es arbitrary: n m urls rg)
  case (Cons e es)
  obtain ok rg1 where v: "validate_entry ds e True rg = (ok, rg1)" by fastforce
  define M where "M = (if ok then AList.update (en_id e) (n, e) m else m)"
  define U where "U = (if ok \<and> en_card_url e \<noteq> None \<and> en_card_url e \<noteq> Some [] then urls @ [(ds, n, e)] else urls)"
  have "merge_config ds (Suc n) es M U rg1 = (m', urls', rg')" using Cons.prems(1) v by (cases ok) (simp_all add: M_def U_def split: if_splits)
  moreover have "fst ` set U \<subseteq> {ds}" using Cons.prems(2) by (auto simp: U_def)
  ultimately show ?case by (rule Cons.IH)
qed simp

lemma load_dataset_confined:
  assumes "ds \<in> D" "confined D rg" "load_dataset px ds rg = (m, urls, rg')"
  shows "confined D rg' \<and> fst ` set urls \<subseteq> {ds}"
proof -
  define rg1 where "rg1 = get_store ds rg"
  define es where "es = load_config_file px (config_path ds ''user_config.json'') UserConfig (rg_fs rg1) @ load_config_file px (config_path ds ''api_config.json'') ApiConfig (rg_fs rg1)"
  define rg2 where "rg2 = rg1\<lparr>rg_stores := AList.update ds (index_entries (load_config_file px (config_path ds ''api_config.json'') ApiConfig (rg_fs rg1))) (rg_stores rg1)\<rparr>"
  obtain m1 u1 rg3 where m1: "merge_config ds 0 es [] [] rg2 = (m1, u1, rg3)" by (metis prod_cases3)
  obtain m2 rg4 where m2: "merge_skills ds (length es) (load_skills px ds (rg_fs rg3)) m1 rg3 = (m2, rg4)" by fastforce
  have "same_core rg rg2" using get_store_core [of rg ds] by (simp add: rg1_def rg2_def same_core_def)
  moreover have "same_core rg2 rg3" using merge_config_core [of rg2 ds 0 es "[]" "[]"] m1 by simp
  moreover have "same_core rg3 rg4" using merge_skills_core [of rg3 ds "length es" "load_skills px ds (rg_fs rg3)" m1] m2 by simp
  ultimately have "confined D rg4" using assms(2) by (meson confined_core)
  moreover have eq: "rg' = set_entries ds (map (\<lambda>(i, _, e). (i, e)) m2) rg4" "urls = u1"
    using assms(3) m1 m2 by (auto simp: load_dataset_def Let_def rg1_def [symmetric] rg2_def [symmetric] es_def [symmetric] simp flip: length_append)
  moreover have "fst ` set u1 \<subseteq> {ds}" using merge_config_urls [OF m1] by simp
  ultimately show ?thesis using confined_set [OF assms(1)] by auto
qed

lemma load_datasets_confined:
  assumes "set dss \<subseteq> D" "confined D rg" "load_datasets px dss rg = (ms, urls, rg')"
  shows "confined D rg' \<and> fst ` set urls \<subseteq> D"
  using assms
proof (induction dss arbitrary: rg ms urls rg')
  case (Cons ds dss)
  obtain m u rg1 where l: "load_dataset px ds rg = (m, u, rg1)" by (metis prod_cases3)
  obtain ms' us rg2 where ls: "load_datasets px dss rg1 = (ms', us, rg2)" by (metis prod_cases3)
  have "confined D rg1 \<and> fst ` set u \<subseteq> {ds}" using load_dataset_confined [OF _ Cons.prems(2) l] Cons.prems(1) by simp
  moreover from this have "confined D rg2 \<and> fst ` set us \<subseteq> D" using Cons.IH [OF _ _ ls] Cons.prems(1) by simp
  moreover have "rg' = rg2" "urls = u @ us" using Cons.prems(3) l ls by auto
  ultimately show ?case using Cons.prems(1) by (simp add: image_Un) blast
qed simp

lemma fetch_confined:
  assumes "fst ` set urls \<subseteq> D" "confined D rg"
  shows "confined D (fetch_agent_cards px ms urls rg)" "confined D (drop_invalid px urls rg)"
proof -
  show "confined D (fetch_agent_cards px ms urls rg)"
    using assms by (induction urls arbitrary: rg) (auto simp: fetch_agent_cards_def confined_set)
  have step: "confined D (snd (validate_entry d e False rg))" if "confined D rg" for d e rg
    using confined_core [OF validate_entry_core that] .
  show "confined D (drop_invalid px urls rg)"
    using assms
  proof (induction urls arbitrary: rg)
    case (Cons u urls)
    obtain d n e where u: "u = (d, n, e)" by (metis prod_cases3)
    have "confined D (let e' = fetched px e in if en_card e' = None then rg
        else case validate_entry d e' False rg of (ok, rg') \<Rightarrow> if ok then rg' else set_entries d (AList.delete (en_id e) (entries_of rg' d)) rg')"
      using step [OF Cons.prems(2), of d "fetched px e"] Cons.prems u by (auto simp: Let_def confined_set split: prod.splits)
    then show ?case using Cons u by (simp add: drop_invalid_def)
  qed (simp add: drop_invalid_def)
qed

lemma save_api_batch_core [core_frames]: "same_core rg (save_api_batch px ds es rg)"
  using get_store_core [of rg ds] by (simp add: save_api_batch_def flush_entries_def same_core_def)

lemma init_taxonomy_core [core_frames]: "same_core rg (init_taxonomy_state px ds rg)"
  by (simp add: init_taxonomy_state_def same_core_def)

lemma finish_outputs:
  "entries_of (finish_dataset px ds rg) d = entries_of rg d"
  "output_of (finish_dataset px ds rg) d = (if d = ds then map (\<lambda>(_, e). entry_to_output px e) (entries_of rg ds) else output_of rg d)"
proof -
  define rg1 where "rg1 = get_store ds rg"
  define api where "api = filter (\<lambda>e. en_source e = ApiConfig) (map snd (entries_of rg1 ds))"
  define rg2 where "rg2 = (if api = [] then rg1 else save_api_batch px ds api rg1)"
  have "same_core rg rg1" by (simp add: rg1_def get_store_core)
  moreover have "same_core rg1 rg2" by (simp add: rg2_def save_api_batch_core)
  ultimately have c: "same_core rg rg2" by (rule same_core_trans)
  have eq: "finish_dataset px ds rg = init_taxonomy_state px ds (regenerate_output px ds rg2)"
    by (simp add: finish_dataset_def Let_def rg1_def api_def rg2_def)
  show "entries_of (finish_dataset px ds rg) d = entries_of rg d"
    by (simp add: eq same_coreD(1) [OF init_taxonomy_core] same_coreD(1) [OF c])
  show "output_of (finish_dataset px ds rg) d = (if d = ds then map (\<lambda>(_, e). entry_to_output px e) (entries_of rg ds) else output_of rg d)"
    by (simp add: eq same_coreD(2) [OF init_taxonomy_core] output_regenerate same_coreD(1,2) [OF c])
qed

lemma fold_finish:
  "entries_of (fold (finish_dataset px) dss rg) d = entries_of rg d"
  "output_of (fold (finish_dataset px) dss rg) d = (if d \<in> set dss then map (\<lambda>(_, e). entry_to_output px e) (entries_of rg d) else output_of rg d)"
  by (induction dss arbitrary: rg) (auto simp: finish_outputs)

lemma startup_listing: "listing_ok px (startup px (new_registry fs a2a))"
proof -
  define dss where "dss = discover_datasets fs"
  obtain ms urls rg1 where l: "load_datasets px dss (new_registry fs a2a) = (ms, urls, rg1)" by (metis prod_cases3)
  have "confined (set dss) (new_registry fs a2a)" by (simp add: confined_def new_registry_def entries_of_def output_of_def)
  then have c: "confined (set dss) rg1" "fst ` set urls \<subseteq> set dss" using load_datasets_confined [OF _ _ l] by blast+
  define rg2 where "rg2 = (if urls = [] then rg1 else drop_invalid px urls (fetch_agent_cards px ms urls rg1))"
  have "confined (set dss) rg2" using c fetch_confined [OF c(2)] by (simp add: rg2_def)
  moreover have "startup px (new_registry fs a2a) = fold (finish_dataset px) dss rg2"
    using l by (simp add: startup_def rg2_def dss_def new_registry_def)
  ultimately show ?thesis by (auto simp: listing_ok_def fold_finish confined_def)
qed

end
