(* ===== verification/RegistryRights.thy ===== *)
theory RegistryRights
  imports RegistryLaws
begin

text \<open>
  Who may change what: the owner of an entry against other callers of the API, the holder of a reservation against
  other holders; and that the configuration file gives back the services that were written to it.
\<close>

section \<open>Callers of a protected data set\<close>

lemma protected_admission:
  assumes "server_ok (st_auth st)" "fst (is_auth_required ds (st_registry st))" "\<And>p. caller sha header (st_auth st) p \<Longrightarrow> pr_role p \<noteq> ''admin''"
    and "admit sha mo ds header g st = (Inr ctx, st')" "g \<noteq> Public"
  shows "g = Authorized \<and> (\<exists>p. caller sha header (st_auth st) p \<and> ctx = Some (to_context p))"
proof -
  let ?svc = "Some (registry_view (st_registry st))"
  have closed: "\<not> open_dataset ?svc (Some ds)" using assms(2) by (simp add: open_dataset_def registry_view_def)
  obtain a sv where a: "authorize sha (mo_used mo) ?svc (Some ds) header (st_auth st) = (a, sv)" by fastforce
  have ctx: "\<exists>p. caller sha header (st_auth st) p \<and> c = Some (to_context p)" if "a = Inr c" for c
    using authorize_exact [OF assms(1) closed, of sha "mo_used mo" header c] a that by auto
  have user: "\<not> is_admin (to_context p)" if "caller sha header (st_auth st) p" for p
    using assms(3) [OF that] by (simp add: is_admin_def to_context_def)
  show ?thesis
  proof (cases g)
    case Public
    then show ?thesis using assms(5) by simp
  next
    case Authorized
    then show ?thesis using assms(4) a ctx by (auto simp: admit_def authorized_def split: prod.splits)
  next
    case AdminStrict
    obtain cs where cs: "sv_store (st_auth st) = Some cs" using assms(1) by (auto simp: server_ok_def)
    obtain token where t: "parse_bearer header = Some token" using assms(4) AdminStrict cs by (auto simp: admit_def require_admin_strict_def split: option.splits)
    have "\<not> is_admin (to_context p)" if "grants sha token cs p" for p using user that t cs by (auto simp: caller_def)
    then show ?thesis using check_token_cases [OF assms(1) cs, of sha token "mo_used mo"] assms(4) AdminStrict cs t
      by (auto simp: admit_def require_admin_strict_def)
  next
    case AdminOrAnon
    then show ?thesis using assms(4) a ctx user
      by (cases a) (auto simp: admit_def authorized_def require_admin_or_anon_def split: option.splits if_splits prod.splits)
  qed
qed

text \<open>The public routes change no entry.\<close>

lemma public_route:
  assumes "guard_of req = Public"
  shows "same_core (st_registry st) (st_registry (snd (route px pe mo ds req ctx st)))"
  using assms auth_required_core [of "st_registry st" ds] get_lease_core [of "st_registry st" ds]
  by (cases req) (auto simp: route_def Let_def split: prod.splits)

lemma handle_owner:
  assumes "server_ok (st_auth st)" "fst (is_auth_required ds (st_registry st))" "\<And>p. caller sha header (st_auth st) p \<Longrightarrow> pr_role p \<noteq> ''admin''"
    and "\<And>r. req \<noteq> PostGeneric r" "\<And>r. req \<noteq> PostA2A r"
    and "get_entry (st_registry st) d sid = Some e" "\<And>p. caller sha header (st_auth st) p \<Longrightarrow> en_owner e \<noteq> Some (pr_id p)"
  shows "get_entry (st_registry (snd (handle sha px pe mo ds header req st))) d sid = Some e"
proof -
  obtain x st1 where a: "admit sha mo ds header (guard_of req) st = (x, st1)" by fastforce
  then have c: "same_core (st_registry st) (st_registry st1)" using admit_core [of st sha mo ds header "guard_of req"] by simp
  then have e1: "get_entry (st_registry st1) d sid = Some e" using assms(6) by (simp add: same_coreD)
  show ?thesis
  proof (cases x)
    case (Inl err)
    then show ?thesis using a e1 by (simp add: handle_def)
  next
    case (Inr ctx)
    have eq: "handle sha px pe mo ds header req st = route px pe mo ds req ctx st1" using a Inr by (simp add: handle_def)
    show ?thesis
    proof (cases "guard_of req = Public")
      case True
      then show ?thesis using same_coreD(3) [OF public_route [OF True]] e1 eq by simp
    next
      case False
      then obtain p where p: "guard_of req = Authorized" "caller sha header (st_auth st) p" "ctx = Some (to_context p)"
        using protected_admission [OF assms(1-3)] a Inr by blast
      have "\<not> sweeping req" using assms(4,5) p(1) by (cases req) auto
      then have "effect px ds (Some (to_context p)) (st_registry st1) (st_registry (snd (route px pe mo ds req ctx st1)))"
        unfolding p(3) by (rule route_effect)
      moreover have "\<not> is_admin (to_context p)" "en_owner e \<noteq> Some (ac_principal (to_context p))"
        using assms(3) [OF p(2)] assms(7) [OF p(2)] by (simp_all add: is_admin_def to_context_def)
      ultimately show ?thesis unfolding eq using effect_owner e1 by blast
    qed
  qed
qed

section \<open>Reservations\<close>

definition reserved_ok :: "registry \<Rightarrow> bool" where
  "reserved_ok rg \<longleftrightarrow> keys_distinct (rg_reserved rg)"

datatype lease_call =
    Reserve pdict int int "string option" "auth_context option" string
  | Release string "string list option" "auth_context option"
  | ReleaseSid string "auth_context option"
  | Extend string int "auth_context option"
  | IsLeased string

text \<open>A call on the reservations of a data set at a moment.\<close>

fun lease_call_result :: "outside \<Rightarrow> (string \<Rightarrow> string \<Rightarrow> bool) \<Rightarrow> rat \<Rightarrow> rat \<Rightarrow> string \<Rightarrow> lease_call \<Rightarrow> registry \<Rightarrow> registry" where
  "lease_call_result px uh now wall ds (Reserve fs n ttl h ctx uuid) rg = snd (reserve_services px uh now wall uuid ds fs n ttl h ctx rg)"
| "lease_call_result px uh now wall ds (Release h sids ctx) rg = snd (release_reservation now ds h sids ctx rg)"
| "lease_call_result px uh now wall ds (ReleaseSid sid ctx) rg = snd (release_lease_by_sid now ds sid ctx rg)"
| "lease_call_result px uh now wall ds (Extend h ttl ctx) rg = snd (extend_reservation now wall ds h ttl ctx rg)"
| "lease_call_result px uh now wall ds (IsLeased sid) rg = snd (is_leased now ds sid rg)"

text \<open>The calls that ask to end or change a reservation, by naming its holder or the service.\<close>

fun gives_up :: "string \<Rightarrow> string \<Rightarrow> lease_call \<Rightarrow> bool" where
  "gives_up sid h (Release h' _ _) = (h' = h)"
| "gives_up sid h (ReleaseSid sid' _) = (sid' = sid)"
| "gives_up sid h (Extend h' _ _) = (h' = h)"
| "gives_up sid h _ = False"

lemma map_of_filter_keep: "keys_distinct d \<Longrightarrow> map_of d k = Some v \<Longrightarrow> P (k, v) \<Longrightarrow> map_of (filter P d) k = Some v"
  by (simp add: map_of_filter_distinct)

lemma sweep_keeps:
  assumes "reserved_ok rg" "map_of (rg_reserved rg) k = Some l" "now < rv_expires l"
  shows "map_of (rg_reserved (sweep_expired now rg)) k = Some l" "reserved_ok (sweep_expired now rg)"
  using assms map_of_filter_keep [of "rg_reserved rg" k l] by (auto simp: sweep_expired_def reserved_ok_def)

lemma reserved_ok_sweep: "reserved_ok rg \<Longrightarrow> reserved_ok (sweep_expired now rg)"
  by (simp add: reserved_ok_def sweep_expired_def)

lemma set_map_filter_iff: "y \<in> set (List.map_filter f xs) \<longleftrightarrow> (\<exists>x \<in> set xs. f x = Some y)"
  by (force simp: List.map_filter_def)

lemma claimable_free: "(sid, w) \<in> set (claimable px uh ds fs rg) \<Longrightarrow> map_of (rg_reserved rg) (ds, sid) = None"
  by (auto simp: claimable_def set_map_filter_iff split: if_splits)

lemma claimable_id: "(sid, w) \<in> set (claimable px uh ds fs rg) \<Longrightarrow> dget w ''id'' = PStr sid"
  by (auto simp: claimable_def set_map_filter_iff find_Some_iff split: if_splits)

lemma claimed_subset: "set (claimed n cs) \<subseteq> set cs"
  by (simp add: claimed_def set_take_subset)

lemma not_claimed:
  assumes "map_of (rg_reserved rg) (ds, sid) \<noteq> None"
  shows "(ds, sid) \<notin> (\<lambda>(sid, _). (d, sid)) ` set (claimed n (claimable px uh d fs rg))"
proof
  assume "(ds, sid) \<in> (\<lambda>(sid, _). (d, sid)) ` set (claimed n (claimable px uh d fs rg))"
  then obtain w where "(sid, w) \<in> set (claimable px uh ds fs rg)" using claimed_subset by fastforce
  from claimable_free [OF this] show False using assms by simp
qed

lemma fold_reserve_other:
  "k \<notin> (\<lambda>(sid, _). (ds, sid)) ` set cs \<Longrightarrow> map_of (fold (\<lambda>(sid, _). AList.update (ds, sid) l) cs d) k = map_of d k"
  by (induction cs arbitrary: d) (auto split: prod.splits)

lemma fold_reserve_in:
  "k \<in> (\<lambda>(sid, _). (ds, sid)) ` set cs \<Longrightarrow> map_of (fold (\<lambda>(sid, _). AList.update (ds, sid) l) cs d) k = Some l"
proof (induction cs arbitrary: d)
  case (Cons c cs)
  then show ?case by (cases "k \<in> (\<lambda>(sid, _). (ds, sid)) ` set cs") (auto simp: fold_reserve_other split: prod.splits)
qed simp

lemma fold_reserve_distinct: "keys_distinct d \<Longrightarrow> keys_distinct (fold (\<lambda>(sid, _). AList.update (ds, sid) l) cs d)"
  by (induction cs arbitrary: d) (auto split: prod.splits)

lemma release_each_keeps:
  assumes "keys_distinct (rg_reserved rg)" "map_of (rg_reserved rg) k = Some l" "fst k = ds \<Longrightarrow> rv_holder l \<noteq> h"
  shows "map_of (rg_reserved (snd (release_each ds h sids acc rg))) k = Some l \<and> keys_distinct (rg_reserved (snd (release_each ds h sids acc rg)))"
  using assms
proof (induction sids arbitrary: acc rg)
  case (Cons sid sids)
  show ?case
  proof (cases "map_of (rg_reserved rg) (ds, sid)")
    case None
    then show ?thesis using Cons.IH [OF Cons.prems] by simp
  next
    case (Some l')
    show ?thesis
    proof (cases "rv_holder l' = h")
      case False
      then show ?thesis using Some Cons.prems by simp
    next
      case True
      then have "k \<noteq> (ds, sid)" using Some Cons.prems(2,3) by auto
      then show ?thesis using True Some Cons.prems Cons.IH [of "rg\<lparr>rg_reserved := AList.delete (ds, sid) (rg_reserved rg)\<rparr>" "sid # acc"] by simp
    qed
  qed
qed simp

lemma map_of_extend:
  "map_of (map (\<lambda>x. if P x then (fst x, f (snd x)) else x) d) k = (case map_of d k of None \<Rightarrow> None | Some v \<Rightarrow> if P (k, v) then Some (f v) else Some v)"
  by (induction d) auto

lemma keys_extend: "map fst (map (\<lambda>x. if P x then (fst x, f (snd x)) else x) d) = map fst d"
  by (induction d) auto

text \<open>A reservation in force survives every call that does not give it up.\<close>

lemma lease_call_keeps:
  assumes "reserved_ok rg" "map_of (rg_reserved rg) (ds, sid) = Some l" "now < rv_expires l" "\<not> (d = ds \<and> gives_up sid (rv_holder l) c)"
  shows "reserved_ok (lease_call_result px uh now wall d c rg) \<and> map_of (rg_reserved (lease_call_result px uh now wall d c rg)) (ds, sid) = Some l"
proof -
  note sw = sweep_keeps [OF assms(1-3)]
  show ?thesis
  proof (cases c)
    case (Reserve fs n ttl h ctx uuid)
    let ?rg = "sweep_expired now rg"
    have "(ds, sid) \<notin> (\<lambda>(sid, _). (d, sid)) ` set (claimed n (claimable px uh d fs ?rg))" using not_claimed sw(1) by simp
    then have kept: "map_of (fold (\<lambda>(sid, _). AList.update (d, sid) r) (claimed n (claimable px uh d fs ?rg)) (rg_reserved ?rg)) (ds, sid) = Some l" for r
      by (simp add: fold_reserve_other sw(1) del: map_of_eq_Some_iff)
    have "keys_distinct (fold (\<lambda>(sid, _). AList.update (d, sid) r) (claimed n (claimable px uh d fs ?rg)) (rg_reserved ?rg))" for r
      using fold_reserve_distinct sw(2) by (simp add: reserved_ok_def)
    then show ?thesis unfolding Reserve using assms(1,2) sw kept
      by (simp add: reserve_services_def Let_def reserved_ok_def del: map_of_eq_Some_iff)
  next
    case (Release h sids ctx)
    have ne: "d = ds \<Longrightarrow> rv_holder l \<noteq> h" using assms(4) Release by auto
    show ?thesis
    proof (cases sids)
      case None
      have "map_of (filter (\<lambda>x. \<not> held_by d h x) (rg_reserved (sweep_expired now rg))) (ds, sid) = Some l"
        by (rule map_of_filter_keep) (use sw ne in \<open>auto simp: reserved_ok_def held_by_def\<close>)
      then show ?thesis unfolding Release None using assms(1,2) sw by (simp add: release_reservation_def Let_def reserved_ok_def)
    next
      case (Some ss)
      then show ?thesis unfolding Release Some using assms(1,2) sw release_each_keeps [of "sweep_expired now rg" "(ds, sid)" l d h ss "[]"] ne
        by (auto simp: release_reservation_def Let_def reserved_ok_def)
    qed
  next
    case (ReleaseSid s ctx)
    have "map_of (AList.delete (d, s) (rg_reserved (sweep_expired now rg))) (ds, sid) = Some l" if "(d, s) \<noteq> (ds, sid)"
      using sw(1) that by (auto simp: delete_conv' simp del: map_of_eq_Some_iff)
    then show ?thesis using assms sw ReleaseSid by (auto simp: release_lease_by_sid_def Let_def reserved_ok_def split: option.splits simp del: map_of_eq_Some_iff)
  next
    case (Extend h ttl ctx)
    define res where "res = map (\<lambda>x. if held_by d h x then (fst x, (snd x)\<lparr>rv_expires := now + of_int ttl\<rparr>) else x) (rg_reserved (sweep_expired now rg))"
    have "\<not> held_by d h ((ds, sid), l)" using assms(4) Extend by (auto simp: held_by_def)
    then have "map_of res (ds, sid) = Some l" using map_of_extend [of "held_by d h"] sw(1) by (simp add: res_def del: map_of_eq_Some_iff)
    moreover have "keys_distinct res" using sw(2) keys_extend [of "held_by d h"] by (simp add: res_def reserved_ok_def del: map_map)
    ultimately show ?thesis using assms(1,2) sw Extend
      by (simp add: extend_reservation_def Let_def reserved_ok_def res_def del: map_of_eq_Some_iff)
  next
    case (IsLeased s)
    then show ?thesis using sw by (simp add: is_leased_def Let_def)
  qed
qed

text \<open>A claim sets the reservation it answers, and finds nothing that is reserved.\<close>

lemma reserve_answer:
  assumes "reserve_services px uh t wall uuid ds fs n ttl ho ctx rg = (Inr (h, x, rows), rg1)" "reserved_ok rg" "row \<in> set rows" "dget row ''id'' = PStr sid"
  shows "reserved_ok rg1 \<and> map_of (rg_reserved rg1) (ds, sid) = Some \<lparr>rv_holder = h, rv_acquired = t, rv_expires = t + of_int ttl\<rparr>"
    "map_of (rg_reserved (sweep_expired t rg)) (ds, sid) = None"
proof -
  define cs where "cs = claimed n (claimable px uh ds fs (sweep_expired t rg))"
  define l where "l = \<lparr>rv_holder = h, rv_acquired = t, rv_expires = t + of_int ttl\<rparr>"
  have eq: "rows = map snd cs" "rg_reserved rg1 = fold (\<lambda>(sid, _). AList.update (ds, sid) l) cs (rg_reserved (sweep_expired t rg))"
    using assms(1) by (auto simp: reserve_services_def Let_def cs_def l_def split: if_splits)
  have "(sid, row) \<in> set cs" using assms(3,4) eq(1) claimable_id [of _ row px uh ds fs] claimed_subset [of n] unfolding cs_def by fastforce
  then show "map_of (rg_reserved (sweep_expired t rg)) (ds, sid) = None" using claimable_free claimed_subset unfolding cs_def by blast
  have "keys_distinct (rg_reserved rg1)" using eq(2) assms(2) fold_reserve_distinct reserved_ok_sweep [of rg t] by (simp add: reserved_ok_def)
  moreover have "map_of (rg_reserved rg1) (ds, sid) = Some l"
    unfolding eq(2) by (rule fold_reserve_in) (use \<open>(sid, row) \<in> set cs\<close> in force)
  ultimately show "reserved_ok rg1 \<and> map_of (rg_reserved rg1) (ds, sid) = Some \<lparr>rv_holder = h, rv_acquired = t, rv_expires = t + of_int ttl\<rparr>"
    by (simp add: reserved_ok_def l_def)
qed

section \<open>Every request is such a step\<close>

lemma changes_reserved: "changes_one px ds sid e rg rg' \<Longrightarrow> rg_reserved rg' = rg_reserved rg"
  by (simp add: changes_one_def)

lemma service_reserved [simp]:
  "rg_reserved (snd (update_service px ds sid ups ctx rg)) = rg_reserved rg" "rg_reserved (snd (deregister px ds sid ctx rg)) = rg_reserved rg"
  "rg_reserved (snd (deregister_skill px ds n ctx rg)) = rg_reserved rg" "rg_reserved (snd (register_skill px ds a ctx rg)) = rg_reserved rg"
  "rg_reserved (snd (register_generic px ds req ctx rg)) = rg_reserved rg" "rg_reserved (snd (register_a2a px ds areq ctx rg)) = rg_reserved rg"
  "rg_reserved (snd (delete_dataset ds rg)) = rg_reserved rg"
proof -
  show "rg_reserved (snd (update_service px ds sid ups ctx rg)) = rg_reserved rg"
    using update_service_cases [of px ds sid ups ctx rg] same_coreD(4) changes_reserved by (metis surjective_pairing)
  show "rg_reserved (snd (deregister px ds sid ctx rg)) = rg_reserved rg"
    using deregister_cases [of px ds sid ctx rg] changes_reserved by (metis surjective_pairing)
  show "rg_reserved (snd (deregister_skill px ds n ctx rg)) = rg_reserved rg"
    using deregister_skill_cases [of px ds n ctx rg] changes_reserved by (metis surjective_pairing)
  show "rg_reserved (snd (register_skill px ds a ctx rg)) = rg_reserved rg"
    using register_skill_cases [of px ds a ctx rg] changes_reserved by (metis surjective_pairing)
  show "rg_reserved (snd (register_generic px ds req ctx rg)) = rg_reserved rg"
    using register_generic_change [of rg px ds req ctx] same_coreD(4) changes_reserved by blast
  show "rg_reserved (snd (register_a2a px ds areq ctx rg)) = rg_reserved rg"
    using register_a2a_change [of rg px ds areq ctx] same_coreD(4) changes_reserved by blast
  show "rg_reserved (snd (delete_dataset ds rg)) = rg_reserved rg" by (simp add: delete_dataset_def)
qed

end
