(* ===== verification/RegistrySite.thy ===== *)
theory RegistrySite
  imports RegistryRights
begin

text \<open>
  The running registry (\<open>backend/startup.py\<close>, \<open>heartbeat/sweeper.py\<close>): the service, the credentials and the heartbeat store together,
  started from the files, changed by requests and by the sweeper. What holds in every state it reaches, and what a
  reservation is worth along a run.
\<close>

section \<open>Start and sweeper\<close>

definition system_ctx :: auth_context where
  "system_ctx = \<lparr>ac_principal = ''_system'', ac_role = ''admin'', ac_namespaces = None\<rparr>"

text \<open>The sweeper deletes with the context of an administrator; an error of the deletion is logged and dropped.\<close>

definition system_deregister :: "outside \<Rightarrow> string \<Rightarrow> string \<Rightarrow> registry \<Rightarrow> unit res \<times> registry" where
  "system_deregister px ds sid rg =
     (case deregister px ds sid (Some system_ctx) rg of (Inl e, rg') \<Rightarrow> (Inl (RuntimeError (registry_error_text e)), rg') | (Inr _, rg') \<Rightarrow> (Inr (), rg'))"

definition sweep_site :: "outside \<Rightarrow> rat \<Rightarrow> site \<Rightarrow> site" where
  "sweep_site px now st =
     (case st_leases st of
        None \<Rightarrow> st
      | Some tab \<Rightarrow> (case sweep_once (system_deregister px) now (tab, st_registry st) of
          (tab', rg') \<Rightarrow> st\<lparr>st_leases := Some tab', st_registry := rg'\<rparr>))"

text \<open>The services that were stored with a lease get one grace period to report again.\<close>

definition recovered_leases :: "registry \<Rightarrow> (string \<times> string \<times> int) list" where
  "recovered_leases rg = concat (map (\<lambda>ds. List.map_filter (\<lambda>e. map_option (\<lambda>t. (ds, en_id e, t)) (en_ttl e)) (list_entries rg ds)) (list_datasets rg))"

definition boot :: "outside \<Rightarrow> rat \<Rightarrow> auth_disk \<Rightarrow> tree \<Rightarrow> string list option \<Rightarrow> site" where
  "boot px now dk fs allowed =
     (let rg = startup px (new_registry fs allowed) in
      \<lparr>st_auth = start_server dk, st_registry = rg,
       st_leases = (case hb_recover (lease_provider rg) now (recovered_leases rg) [] of (Inl _, _) \<Rightarrow> None | (Inr _, tab) \<Rightarrow> Some tab)\<rparr>)"

section \<open>Creating a data set\<close>

record create_request =
  cq_name :: string
  cq_model :: "string option"
  cq_formats :: "pyval option"
  cq_auth :: bool
  cq_lease :: "lease_policy option"

record created =
  cd_model :: pyval
  cd_formats :: "(string \<times> string) list"
  cd_auth :: bool
  cd_lease :: "lease_policy option"

text \<open>A data set that requires authentication is created by an administrator of an initialized registry; any other by anybody.\<close>

definition create_guard :: "(string \<Rightarrow> string) \<Rightarrow> moment \<Rightarrow> string option \<Rightarrow> create_request \<Rightarrow> auth_server \<Rightarrow> (http_error + unit) \<times> auth_server" where
  "create_guard sha mo header req sv =
     (if \<not> cq_auth req then (Inr (), sv)
      else case sv_store sv of
        None \<Rightarrow> (Inl (HttpError 409 ''auth_not_initialized''), sv)
      | Some cs \<Rightarrow>
          (case parse_bearer header of
             None \<Rightarrow> (Inl (HttpError 401 ''Admin token required to create auth-required namespace''), sv)
           | Some token \<Rightarrow>
               (case check_token sha (mo_used mo) token cs sv of
                  (Inl e, sv') \<Rightarrow> (Inl e, sv')
                | (Inr c, sv') \<Rightarrow>
                    if is_admin c then (Inr (), sv')
                    else (Inl (HttpError 403 ''Admin role required to create auth-required namespace''), denied ''admin_required'' c sv'))))"

definition created_reply :: "create_request \<Rightarrow> registry \<Rightarrow> created \<times> registry" where
  "created_reply req rg =
     (let ds = cq_name req; (v, rg1) = get_vector_config ds rg; (f, rg2) = get_register_config ds rg1; (b, rg3) = is_auth_required ds rg2 in
      case cq_lease req of
        None \<Rightarrow> (\<lparr>cd_model = dget v ''embedding_model'', cd_formats = f, cd_auth = b, cd_lease = None\<rparr>, rg3)
      | Some _ \<Rightarrow> (case get_lease_policy ds rg3 of
          (p, rg4) \<Rightarrow> (\<lparr>cd_model = dget v ''embedding_model'', cd_formats = f, cd_auth = b, cd_lease = Some p\<rparr>, rg4)))"

definition create_in :: "create_request \<Rightarrow> registry \<Rightarrow> (registry_error + created) \<times> registry" where
  "create_in req rg =
     (case create_dataset (cq_name req) (cq_model req) (cq_formats req) (cq_auth req) rg of
        (Inl e, rg1) \<Rightarrow> (Inl e, rg1)
      | (Inr _, rg1) \<Rightarrow>
          (case (case cq_lease req of None \<Rightarrow> (Inr (), rg1)
                 | Some p \<Rightarrow> (case set_lease_policy (cq_name req) p rg1 of (Inl e, rg2) \<Rightarrow> (Inl e, rg2) | (Inr _, rg2) \<Rightarrow> (Inr (), rg2))) of
             (Inl e, rg2) \<Rightarrow> (Inl e, rg2)
           | (Inr _, rg2) \<Rightarrow> (case created_reply req rg2 of (a, rg3) \<Rightarrow> (Inr a, rg3))))"

definition create_route :: "(string \<Rightarrow> string) \<Rightarrow> moment \<Rightarrow> string option \<Rightarrow> create_request \<Rightarrow> site \<Rightarrow> (http_error + created) \<times> site" where
  "create_route sha mo header req st =
     (case create_guard sha mo header req (st_auth st) of
        (Inl e, sv) \<Rightarrow> (Inl e, st\<lparr>st_auth := sv\<rparr>)
      | (Inr _, sv) \<Rightarrow>
          (case create_in req (st_registry st) of
             (Inl e, rg) \<Rightarrow> (Inl (http_of_registry e), st\<lparr>st_auth := sv, st_registry := rg\<rparr>)
           | (Inr a, rg) \<Rightarrow> (Inr a, st\<lparr>st_auth := sv, st_registry := rg\<rparr>)))"

section \<open>Runs\<close>

text \<open>The states of a site: started from files, changed by requests at any moment and by the sweeper.\<close>

inductive site_reach :: "(string \<Rightarrow> string) \<Rightarrow> outside \<Rightarrow> site \<Rightarrow> bool" for sha px where
  start: "site_reach sha px (boot px now dk fs allowed)"
| request: "site_reach sha px st \<Longrightarrow> site_reach sha px (snd (handle sha px pe mo ds header req st))"
| create: "site_reach sha px st \<Longrightarrow> site_reach sha px (snd (create_route sha mo header cq st))"
| sweep: "site_reach sha px st \<Longrightarrow> site_reach sha px (sweep_site px now st)"

section \<open>Invariants of the site\<close>

lemma system_deregister_snd: "snd (system_deregister px ds sid rg) = snd (deregister px ds sid (Some system_ctx) rg)"
  by (auto simp: system_deregister_def split: prod.splits sum.splits)

lemma hard_deletes:
  assumes "\<And>ds sid rg. P rg \<Longrightarrow> P (snd (deregister px ds sid (Some system_ctx) rg))"
  shows "P rg \<Longrightarrow> P (fold (hard_delete (system_deregister px)) dels rg)"
  by (induction dels arbitrary: rg) (auto simp: hard_delete_def system_deregister_snd assms)

lemma sweep_site_registry:
  assumes "\<And>ds sid rg. P rg \<Longrightarrow> P (snd (deregister px ds sid (Some system_ctx) rg))" "P (st_registry st)"
  shows "P (st_registry (sweep_site px now st))"
  using hard_deletes [of P, OF assms(1)] assms(2)
  by (auto simp: sweep_site_def sweep_once_def Let_def split: option.splits prod.splits)

lemma sweep_site_listing: "listing_ok px (st_registry st) \<Longrightarrow> listing_ok px (st_registry (sweep_site px now st))"
  by (rule sweep_site_registry) (use effect_listing deregister_effect in blast)+

lemma sweep_site_reserved: "rg_reserved (st_registry (sweep_site px now st)) = rg_reserved (st_registry st)"
  by (rule sweep_site_registry) simp_all

lemma merge_reserved:
  "rg_reserved (snd (snd (merge_config ds n es m urls rg))) = rg_reserved rg" "rg_reserved (snd (merge_skills ds n es m rg)) = rg_reserved rg"
  using merge_config_core merge_skills_core same_coreD(4) by metis+

lemma load_dataset_reserved: "rg_reserved (snd (snd (load_dataset px ds rg))) = rg_reserved rg"
proof -
  define rg1 where "rg1 = get_store ds rg"
  define es where "es = load_config_file px (config_path ds ''user_config.json'') UserConfig (rg_fs rg1) @ load_config_file px (config_path ds ''api_config.json'') ApiConfig (rg_fs rg1)"
  define rg2 where "rg2 = rg1\<lparr>rg_stores := AList.update ds (index_entries (load_config_file px (config_path ds ''api_config.json'') ApiConfig (rg_fs rg1))) (rg_stores rg1)\<rparr>"
  obtain m1 u1 rg3 where m1: "merge_config ds 0 es [] [] rg2 = (m1, u1, rg3)" by (metis prod_cases3)
  obtain m2 rg4 where m2: "merge_skills ds (length es) (load_skills px ds (rg_fs rg3)) m1 rg3 = (m2, rg4)" by fastforce
  have "rg_reserved rg4 = rg_reserved rg"
    using merge_reserved(1) [of ds 0 es "[]" "[]" rg2] merge_reserved(2) [of ds "length es" "load_skills px ds (rg_fs rg3)" m1 rg3] m1 m2
    by (simp add: rg2_def rg1_def same_coreD(4) [OF get_store_core])
  then show ?thesis
    using m1 m2 by (simp add: load_dataset_def Let_def rg1_def [symmetric] rg2_def [symmetric] es_def [symmetric] flip: length_append)
qed

lemma load_datasets_reserved: "rg_reserved (snd (snd (load_datasets px dss rg))) = rg_reserved rg"
proof (induction dss arbitrary: rg)
  case (Cons ds dss)
  then show ?case using load_dataset_reserved [of px ds rg] by (auto split: prod.splits) (metis snd_conv)
qed simp

lemma fold_reserved:
  assumes "\<And>x rg. rg_reserved (f x rg) = rg_reserved rg"
  shows "rg_reserved (fold f xs rg) = rg_reserved rg"
  by (induction xs arbitrary: rg) (simp_all add: assms)

lemma finish_reserved: "rg_reserved (finish_dataset px ds rg) = rg_reserved rg"
  by (simp add: finish_dataset_def Let_def same_coreD(4) [OF get_store_core] same_coreD(4) [OF save_api_batch_core] same_coreD(4) [OF init_taxonomy_core])

lemma fetch_reserved: "rg_reserved (fetch_agent_cards px ms urls rg) = rg_reserved rg" "rg_reserved (drop_invalid px urls rg) = rg_reserved rg"
proof -
  show "rg_reserved (fetch_agent_cards px ms urls rg) = rg_reserved rg"
    unfolding fetch_agent_cards_def by (rule fold_reserved) (auto split: prod.splits option.splits)
  have "rg_reserved (snd (validate_entry d e False rg)) = rg_reserved rg" for d e rg
    using same_coreD(4) [OF validate_entry_core] .
  then show "rg_reserved (drop_invalid px urls rg) = rg_reserved rg"
    unfolding drop_invalid_def by (intro fold_reserved) (auto simp: Let_def split: prod.splits, (metis snd_conv)+)
qed

lemma startup_reserved: "rg_reserved (startup px rg) = rg_reserved rg"
proof -
  obtain ms urls rg1 where l: "load_datasets px (discover_datasets (rg_fs rg)) rg = (ms, urls, rg1)" by (metis prod_cases3)
  then have "rg_reserved rg1 = rg_reserved rg" using load_datasets_reserved [of px "discover_datasets (rg_fs rg)" rg] by simp
  then show ?thesis using l by (simp add: startup_def fold_reserved finish_reserved fetch_reserved)
qed

lemma boot_registry: "st_registry (boot px now dk fs allowed) = startup px (new_registry fs allowed)"
  by (simp add: boot_def Let_def)

lemma created_reply_core: "same_core rg (snd (created_reply req rg))"
proof -
  define rg1 where "rg1 = snd (get_vector_config (cq_name req) rg)"
  define rg2 where "rg2 = snd (get_register_config (cq_name req) rg1)"
  define rg3 where "rg3 = snd (is_auth_required (cq_name req) rg2)"
  have "same_core rg rg1" "same_core rg1 rg2" "same_core rg2 rg3" "same_core rg3 (snd (get_lease_policy (cq_name req) rg3))"
    by (simp_all add: rg1_def rg2_def rg3_def core_frames)
  moreover have "snd (created_reply req rg) = (if cq_lease req = None then rg3 else snd (get_lease_policy (cq_name req) rg3))"
    by (simp add: created_reply_def rg1_def rg2_def rg3_def Let_def split_def split: option.splits)
  ultimately show ?thesis by (metis same_core_trans)
qed

lemma create_in_core: "same_core rg (snd (create_in req rg))"
proof -
  obtain x rg1 where c: "create_dataset (cq_name req) (cq_model req) (cq_formats req) (cq_auth req) rg = (x, rg1)" by fastforce
  then have c1: "same_core rg rg1" using create_dataset_core by (metis snd_conv)
  obtain y rg2 where l: "(case cq_lease req of None \<Rightarrow> (Inr (), rg1)
      | Some p \<Rightarrow> (case set_lease_policy (cq_name req) p rg1 of (Inl e, rg2) \<Rightarrow> (Inl e, rg2) | (Inr _, rg2) \<Rightarrow> (Inr (), rg2))) = (y, rg2)" by fastforce
  then have c2: "same_core rg rg2"
    using c1 same_core_trans [OF c1 set_lease_core] by (auto split: option.splits prod.splits sum.splits) (metis snd_conv)+
  show ?thesis using c l c1 c2 same_core_trans [OF c2 created_reply_core]
    by (cases x; cases y) (auto simp: create_in_def split: prod.splits, metis snd_conv)
qed

lemma create_route_core: "same_core (st_registry st) (st_registry (snd (create_route sha mo header req st)))"
  using create_in_core [of "st_registry st" req] by (auto simp: create_route_def split: prod.splits sum.splits)

text \<open>In every reachable state the listing shows the entries.\<close>

lemma site_listing: "site_reach sha px st \<Longrightarrow> listing_ok px (st_registry st)"
proof (induction rule: site_reach.induct)
  case (start now dk fs allowed)
  then show ?case using startup_listing by (simp add: boot_registry)
next
  case (create st mo header cq)
  then show ?case using listing_ok_core [OF create_route_core] by blast
qed (auto intro: handle_listing sweep_site_listing)

section \<open>Reservations along a run\<close>

text \<open>The call on the reservations that a request makes.\<close>

fun lease_call_of :: "moment \<Rightarrow> dataset_request \<Rightarrow> auth_context option \<Rightarrow> lease_call option" where
  "lease_call_of mo (PostReservation fs n ttl h) ctx = Some (Reserve fs n ttl h ctx (mo_uuid mo))"
| "lease_call_of mo (DeleteReservations h) ctx = Some (Release h None ctx)"
| "lease_call_of mo (DeleteReservation h sid) ctx = Some (Release h (Some [sid]) ctx)"
| "lease_call_of mo (ExtendReservations h body) ctx =
     (case py_int (dget_or body ''ttl_seconds'' (PInt 30)) of Inl _ \<Rightarrow> None | Inr ttl \<Rightarrow> Some (Extend h ttl ctx))"
| "lease_call_of mo (DeleteLease sid) ctx = Some (ReleaseSid sid ctx)"
| "lease_call_of mo (ListServices q) ctx = (if lq_fields q \<notin> {''brief'', ''detail''} \<or> lq_leased q then None else Some (IsLeased []))"
| "lease_call_of mo _ ctx = None"

lemma with_lease_reserved:
  assumes "\<And>t rg. rg_reserved (snd (f t rg)) = rg_reserved rg"
  shows "rg_reserved (st_registry (snd (with_lease mo ds ttl f st))) = rg_reserved (st_registry st)"
  using with_lease_registry [of st mo ds ttl f] assms same_coreD(4) by metis

lemmas reserved_frames = service_reserved on_registry_simps same_coreD(4) [OF get_store_core] same_coreD(4) [OF set_auth_core]
  same_coreD(4) [OF set_lease_core] same_coreD(4) [OF set_register_core] same_coreD(4) [OF set_vector_core]

lemma route_reserved:
  "rg_reserved (st_registry (snd (route px pe mo ds req ctx st)))
   = (case lease_call_of mo req ctx of
        None \<Rightarrow> rg_reserved (st_registry st)
      | Some c \<Rightarrow> rg_reserved (lease_call_result px (unhealthy_at st) (mo_now mo) (mo_wall mo) ds c (st_registry st)))"
proof (cases req)
  case (PostGeneric r)
  then show ?thesis by (simp add: route_def Let_def with_lease_reserved)
next
  case (PostA2A r)
  then show ?thesis by (simp add: route_def Let_def with_lease_reserved)
next
  case (Heartbeat sid status)
  then show ?thesis by (auto simp: route_def heartbeat_route_def Let_def split: option.splits prod.splits sum.splits)
next
  case (RevokeHeartbeat sid permanent)
  have "rg_reserved rg' = rg_reserved rg" if "deregister px ds sid ctx rg = (r, rg')" for r rg rg' using service_reserved(2) that by (metis snd_conv)
  then show ?thesis unfolding RevokeHeartbeat by (auto simp: route_def revoke_route_def Let_def split: option.splits prod.splits sum.splits)
next
  case (ExtendReservations h body)
  then show ?thesis by (auto simp: route_def extend_route_def on_registry_simps Let_def split: sum.splits)
next
  case (ListServices q)
  then show ?thesis by (auto simp: route_def Let_def is_leased_def)
next
  case GetAuthConfig
  then show ?thesis using same_coreD(4) [OF auth_required_core [of "st_registry st" ds]] by (auto simp: route_def Let_def split: prod.splits)
next
  case GetLeaseConfig
  then show ?thesis using same_coreD(4) [OF get_lease_core [of "st_registry st" ds]] by (auto simp: route_def Let_def split: prod.splits)
next
  case GetRegisterConfig
  then show ?thesis using same_coreD(4) [OF get_register_core [of "st_registry st" ds]] by (auto simp: route_def Let_def split: prod.splits)
next
  case GetVectorConfig
  then show ?thesis using same_coreD(4) [OF get_vector_core [of "st_registry st" ds]] by (auto simp: route_def Let_def split: prod.splits)
qed (auto simp: route_def Let_def reserved_frames)

text \<open>The requests that ask to give up or change a reservation before its time, by naming its holder or the service, whoever makes them.\<close>

fun gives_up_request :: "string \<Rightarrow> string \<Rightarrow> dataset_request \<Rightarrow> bool" where
  "gives_up_request sid h (DeleteReservations h') = (h' = h)"
| "gives_up_request sid h (DeleteReservation h' _) = (h' = h)"
| "gives_up_request sid h (ExtendReservations h' _) = (h' = h)"
| "gives_up_request sid h (DeleteLease sid') = (sid' = sid)"
| "gives_up_request sid h _ = False"

lemma gives_up_call: "lease_call_of mo req ctx = Some c \<Longrightarrow> gives_up sid h c = gives_up_request sid h req"
  by (cases req) (auto split: sum.splits if_splits)

definition held :: "string \<Rightarrow> string \<Rightarrow> reservation \<Rightarrow> site \<Rightarrow> bool" where
  "held ds sid l st \<longleftrightarrow> reserved_ok (st_registry st) \<and> map_of (rg_reserved (st_registry st)) (ds, sid) = Some l"

lemma handle_keeps:
  assumes "held ds sid l st" "mo_now mo < rv_expires l" "\<not> (d = ds \<and> gives_up_request sid (rv_holder l) req)"
  shows "held ds sid l (snd (handle sha px pe mo d header req st))"
proof -
  obtain x st1 where a: "admit sha mo d header (guard_of req) st = (x, st1)" by fastforce
  then have "rg_reserved (st_registry st1) = rg_reserved (st_registry st)" using same_coreD(4) [OF admit_core] by (metis snd_conv)
  then have h: "held ds sid l st1" using assms(1) by (simp add: held_def reserved_ok_def)
  have "held ds sid l (snd (route px pe mo d req ctx st1))" for ctx
  proof (cases "lease_call_of mo req ctx")
    case None
    then show ?thesis using h route_reserved [of px pe mo d req ctx st1] by (simp add: held_def reserved_ok_def)
  next
    case (Some c)
    have ng: "\<not> (d = ds \<and> gives_up sid (rv_holder l) c)" using assms(3) gives_up_call [OF Some] by simp
    have h': "reserved_ok (st_registry st1)" "map_of (rg_reserved (st_registry st1)) (ds, sid) = Some l" using h by (simp_all add: held_def)
    show ?thesis
      using Some route_reserved [of px pe mo d req ctx st1] lease_call_keeps [OF h' assms(2) ng, of px "unhealthy_at st1" "mo_wall mo"]
      by (simp add: held_def reserved_ok_def del: map_of_eq_Some_iff)
  qed
  then show ?thesis using a h by (cases x) (simp_all add: handle_def)
qed

lemma create_keeps_held: "held ds sid l st \<Longrightarrow> held ds sid l (snd (create_route sha mo header cq st))"
  by (simp add: held_def reserved_ok_def same_coreD(4) [OF create_route_core])

lemma sweep_keeps_held: "held ds sid l st \<Longrightarrow> held ds sid l (sweep_site px now st)"
  by (simp add: held_def reserved_ok_def sweep_site_reserved)

text \<open>A run of the site during which nobody gives up a reservation and its time does not run out.\<close>

inductive site_run :: "(string \<Rightarrow> string) \<Rightarrow> outside \<Rightarrow> string \<Rightarrow> string \<Rightarrow> string \<Rightarrow> rat \<Rightarrow> site \<Rightarrow> site \<Rightarrow> bool" for sha px ds sid h deadline st0 where
  start: "site_run sha px ds sid h deadline st0 st0"
| request: "site_run sha px ds sid h deadline st0 st \<Longrightarrow> mo_now mo < deadline \<Longrightarrow> \<not> (d = ds \<and> gives_up_request sid h req)
     \<Longrightarrow> site_run sha px ds sid h deadline st0 (snd (handle sha px pe mo d header req st))"
| create: "site_run sha px ds sid h deadline st0 st \<Longrightarrow> site_run sha px ds sid h deadline st0 (snd (create_route sha mo header cq st))"
| sweep: "site_run sha px ds sid h deadline st0 st \<Longrightarrow> site_run sha px ds sid h deadline st0 (sweep_site px now st)"

lemma site_run_held:
  "site_run sha px ds sid (rv_holder l) (rv_expires l) st0 st \<Longrightarrow> held ds sid l st0 \<Longrightarrow> held ds sid l st"
  by (induction rule: site_run.induct) (auto intro: handle_keeps create_keeps_held sweep_keeps_held)

lemma lease_call_distinct:
  assumes "reserved_ok rg"
  shows "reserved_ok (lease_call_result px uh now wall d c rg)"
proof -
  have sw: "keys_distinct (rg_reserved (sweep_expired now rg))" using reserved_ok_sweep [OF assms, of now] by (simp add: reserved_ok_def)
  have each: "keys_distinct (rg_reserved (snd (release_each ds h ss acc r)))" if "keys_distinct (rg_reserved r)" for ds h ss acc r
    using that by (induction ds h ss acc r rule: release_each.induct) (auto split: option.splits)
  show ?thesis
  proof (cases c)
    case (Extend h ttl ctx)
    then show ?thesis using assms sw keys_extend [of "held_by d h"] by (simp add: extend_reservation_def Let_def reserved_ok_def del: map_map)
  qed (use assms sw each in \<open>auto simp: reserve_services_def release_reservation_def release_lease_by_sid_def is_leased_def Let_def reserved_ok_def
         fold_reserve_distinct split: option.splits\<close>)
qed

lemma site_reserved: "site_reach sha px st \<Longrightarrow> reserved_ok (st_registry st)"
proof (induction rule: site_reach.induct)
  case (start now dk fs allowed)
  then show ?case by (simp add: boot_registry reserved_ok_def startup_reserved) (simp add: new_registry_def)
next
  case (request st pe mo ds header req)
  obtain x st1 where a: "admit sha mo ds header (guard_of req) st = (x, st1)" by fastforce
  then have "rg_reserved (st_registry st1) = rg_reserved (st_registry st)" using same_coreD(4) [OF admit_core] by (metis snd_conv)
  then have ok: "reserved_ok (st_registry st1)" using request by (simp add: reserved_ok_def)
  then have "reserved_ok (st_registry (snd (route px pe mo ds req ctx st1)))" for ctx
    using lease_call_distinct [OF ok] route_reserved [of px pe mo ds req ctx st1] by (auto simp: reserved_ok_def split: option.splits)
  then show ?case using a ok by (cases x) (simp_all add: handle_def)
qed (simp_all add: reserved_ok_def sweep_site_reserved same_coreD(4) [OF create_route_core])

text \<open>The answer of a claim: each service of it is reserved until its time, and none of them was held before.\<close>

lemma claim_answer:
  assumes "handle sha px pe mo ds header (PostReservation fs n ttl ho) st = (Inr (Reserved h t x rows), st1)"
    and "reserved_ok (st_registry st)" "row \<in> set rows" "dget row ''id'' = PStr sid"
  shows "held ds sid \<lparr>rv_holder = h, rv_acquired = mo_now mo, rv_expires = mo_now mo + of_int t\<rparr> st1"
    "map_of (rg_reserved (sweep_expired (mo_now mo) (st_registry st))) (ds, sid) = None"
proof -
  obtain a st2 where a: "admit sha mo ds header Authorized st = (a, st2)" by fastforce
  then have core: "rg_reserved (st_registry st2) = rg_reserved (st_registry st)" using same_coreD(4) [OF admit_core] by (metis snd_conv)
  then have ok: "reserved_ok (st_registry st2)" using assms(2) by (simp add: reserved_ok_def)
  obtain ctx where ctx: "a = Inr ctx" using assms(1) a by (cases a) (auto simp: handle_def)
  obtain rg1 where r: "reserve_services px (unhealthy_at st2) (mo_now mo) (mo_wall mo) (mo_uuid mo) ds fs n ttl ho ctx (st_registry st2) = (Inr (h, x, rows), rg1)"
    and st1: "st_registry st1 = rg1" "t = ttl"
    using assms(1) a ctx by (auto simp: handle_def route_def on_registry_def split: prod.splits sum.splits)
  show "held ds sid \<lparr>rv_holder = h, rv_acquired = mo_now mo, rv_expires = mo_now mo + of_int t\<rparr> st1"
    unfolding held_def st1 by (rule reserve_answer(1) [OF r ok assms(3,4)])
  have "rg_reserved (sweep_expired (mo_now mo) (st_registry st2)) = rg_reserved (sweep_expired (mo_now mo) (st_registry st))"
    using core by (simp add: sweep_expired_def)
  then show "map_of (rg_reserved (sweep_expired (mo_now mo) (st_registry st))) (ds, sid) = None"
    using reserve_answer(2) [OF r ok assms(3,4)] by simp
qed

lemma claim_excludes:
  assumes "held ds sid l st" "mo_now mo < rv_expires l"
    and "handle sha px pe mo ds header (PostReservation fs n ttl ho) st = (Inr (Reserved h t x rows), st1)" "row \<in> set rows"
  shows "dget row ''id'' \<noteq> PStr sid"
proof
  assume "dget row ''id'' = PStr sid"
  then have "map_of (rg_reserved (sweep_expired (mo_now mo) (st_registry st))) (ds, sid) = None"
    using claim_answer(2) [OF assms(3) _ assms(4)] assms(1) by (simp add: held_def)
  moreover have "map_of (rg_reserved (sweep_expired (mo_now mo) (st_registry st))) (ds, sid) = Some l"
    using sweep_keeps(1) assms(1,2) by (simp add: held_def del: map_of_eq_Some_iff)
  ultimately show False by (simp del: map_of_eq_Some_iff)
qed

end
