(* ===== verification/RegistryDisk.thy ===== *)
theory RegistryDisk
  imports RegistryService
begin

text \<open>
  Laws of the registry's files: the configuration file gives back the services that were written to it, and the
  upload of a skill touches nothing but the folder its description names.
\<close>

section \<open>The configuration file\<close>

text \<open>What the models are relied on for: a dumped service and a dumped card are read as what they were.\<close>

definition models_ok :: "outside \<Rightarrow> bool" where
  "models_ok px \<longleftrightarrow>
     (\<forall>g. ox_generic px (generic_dump g) = Inr g)
     \<and> (\<forall>d c. ox_card px d = Inr c \<longrightarrow> ox_card_no_defaults px c \<noteq> [] \<and> ox_card px (ox_card_no_defaults px c) = Inr c)"

text \<open>
  What becomes of an entry of the store when it is written and read again: a service whose name or description is blank is
  dropped, those of any other are stripped; empty texts and lease times that are not positive are lost, an
  empty identifier is made anew; a skill has no form in the file.
\<close>

definition nonempty :: "string option \<Rightarrow> string option" where
  "nonempty v = (if v = Some [] then None else v)"

definition positive :: "int option \<Rightarrow> int option" where
  "positive t = Option.bind t (\<lambda>x. if 0 < x then Some x else None)"

definition reloaded :: "outside \<Rightarrow> entry \<Rightarrow> entry option" where
  "reloaded px e =
     (case en_kind e of
        Generic \<Rightarrow>
          (case en_generic e of
             None \<Rightarrow> None
           | Some g \<Rightarrow>
               let name = strip (gd_name g); desc = strip (gd_description g) in
               if name = [] \<or> desc = [] then None
               else Some \<lparr>en_id = (if en_id e = [] then generate_service_id px ''generic'' name else en_id e), en_kind = Generic, en_source = ApiConfig,
                          en_generic = Some (g\<lparr>gd_name := name, gd_description := desc, gd_url := nonempty (gd_url g)\<rparr>), en_card = None,
                          en_card_url = None, en_skill = None, en_owner = nonempty (en_owner e), en_ttl = positive (en_ttl e)\<rparr>)
      | A2A \<Rightarrow>
          Some \<lparr>en_id = (if en_id e = [] then generate_service_id px ''agent''
                             (case en_card e of Some c \<Rightarrow> card_name c | None \<Rightarrow> (case nonempty (en_card_url e) of Some u \<Rightarrow> u | None \<Rightarrow> ''unknown'')) else en_id e),
                en_kind = A2A, en_source = ApiConfig, en_generic = None, en_card = en_card e, en_card_url = nonempty (en_card_url e),
                en_skill = None, en_owner = nonempty (en_owner e), en_ttl = positive (en_ttl e)\<rparr>
      | Skill \<Rightarrow> None)"

text \<open>The cards of the entries are objects of the model.\<close>

definition cards_ok :: "outside \<Rightarrow> entry \<Rightarrow> bool" where
  "cards_ok px e \<longleftrightarrow> (\<forall>c. en_card e = Some c \<longrightarrow> (\<exists>d. ox_card px d = Inr c))"

lemma owner_back: "opt_text (dget (pre @ owner_fields e @ ttl_fields e) ''owner_id'') = Inr (nonempty (en_owner e))"
  if "map_of pre ''owner_id'' = None"
  using that by (auto simp: owner_fields_def ttl_fields_def opt_text_def nonempty_def dget_or_def map_add_def split: option.splits)

lemma ttl_back: "ttl_of (dget (pre @ owner_fields e @ ttl_fields e) ''lease_ttl'') = positive (en_ttl e)"
  if "map_of pre ''lease_ttl'' = None"
  using that by (auto simp: owner_fields_def ttl_fields_def ttl_of_def positive_def dget_or_def map_add_def split: option.splits)

lemma parse_back_generic:
  assumes "models_ok px" "en_kind e = Generic"
  shows "parse_service_entry px (entry_to_config_dict px e) ApiConfig = Inr (reloaded px e)"
proof (cases "en_generic e")
  case None
  have "entry_to_config_dict px e = [(''type'', PStr ''generic''), (''service_id'', PStr (en_id e))] @ owner_fields e @ ttl_fields e"
    using assms(2) None by (simp add: entry_to_config_dict_def)
  then show ?thesis using assms(2) None
    by (auto simp: parse_service_entry_def parse_generic_def reloaded_def stripped_def dget_or_def owner_fields_def ttl_fields_def split: option.splits)
next
  case (Some g)
  define pre where "pre = [(''type'', PStr ''generic''), (''service_id'', PStr (en_id e)), (''name'', PStr (gd_name g)), (''description'', PStr (gd_description g))]
    @ (if gd_schema g = [] then [] else [(''inputSchema'', PDict (gd_schema g))]) @ text_field ''url'' (gd_url g)"
  have d: "entry_to_config_dict px e = pre @ owner_fields e @ ttl_fields e"
    using assms(2) Some by (simp add: entry_to_config_dict_def pre_def)
  have pre: "map_of pre ''owner_id'' = None" "map_of pre ''lease_ttl'' = None" by (auto simp: pre_def text_field_def split: option.splits)
  define g' where "g' = g\<lparr>gd_name := strip (gd_name g), gd_description := strip (gd_description g), gd_url := nonempty (gd_url g)\<rparr>"
  have dump: "[(''name'', PStr (strip (gd_name g))), (''description'', PStr (strip (gd_description g))), (''inputSchema'', dget_or (pre @ owner_fields e @ ttl_fields e) ''inputSchema'' (PDict [])),
      (''url'', dget (pre @ owner_fields e @ ttl_fields e) ''url'')] = generic_dump g'"
    by (auto simp: pre_def text_field_def generic_dump_def g'_def nonempty_def opt_str_def dget_or_def owner_fields_def ttl_fields_def map_add_def split: option.splits)
  have "ox_generic px (generic_dump g') = Inr g'" using assms(1) by (simp add: models_ok_def)
  moreover have keys: "dget (pre @ owner_fields e @ ttl_fields e) ''name'' = PStr (gd_name g)" "dget (pre @ owner_fields e @ ttl_fields e) ''description'' = PStr (gd_description g)"
    "dget_or (pre @ owner_fields e @ ttl_fields e) ''service_id'' (PStr []) = PStr (en_id e)" "dget_or (pre @ owner_fields e @ ttl_fields e) ''type'' (PStr ''generic'') = PStr ''generic''"
    by (simp_all add: pre_def dget_or_def)
  ultimately show ?thesis
    using assms(2) Some owner_back [OF pre(1), of e] ttl_back [OF pre(2), of e] unfolding d
    by (simp add: parse_service_entry_def parse_generic_def dump stripped_def id_or_def reloaded_def Let_def g'_def)
qed

lemma parse_back_a2a:
  assumes "models_ok px" "cards_ok px e" "en_kind e = A2A"
  shows "parse_service_entry px (entry_to_config_dict px e) ApiConfig = Inr (reloaded px e)"
proof -
  define pre where "pre = [(''type'', PStr ''a2a''), (''service_id'', PStr (en_id e))] @ text_field ''agent_card_url'' (en_card_url e)
    @ (case en_card e of None \<Rightarrow> [] | Some c \<Rightarrow> [(''agent_card'', PDict (ox_card_no_defaults px c))])"
  have d: "entry_to_config_dict px e = pre @ owner_fields e @ ttl_fields e" using assms(3) by (simp add: entry_to_config_dict_def pre_def)
  have pre: "map_of pre ''owner_id'' = None" "map_of pre ''lease_ttl'' = None" by (auto simp: pre_def text_field_def split: option.splits)
  have card: "ox_card_no_defaults px c \<noteq> [] \<and> ox_card px (ox_card_no_defaults px c) = Inr c" if "en_card e = Some c" for c
    using assms that by (auto simp: cards_ok_def models_ok_def)
  have url: "dget (pre @ owner_fields e @ ttl_fields e) ''agent_card_url'' = opt_str (nonempty (en_card_url e))"
    by (auto simp: nonempty_def pre_def text_field_def opt_str_def owner_fields_def ttl_fields_def dget_or_def map_add_def split: option.splits)
  have c: "dget (pre @ owner_fields e @ ttl_fields e) ''agent_card'' = (case en_card e of None \<Rightarrow> PNone | Some c \<Rightarrow> PDict (ox_card_no_defaults px c))"
    by (auto simp: pre_def text_field_def owner_fields_def ttl_fields_def dget_or_def map_add_def split: option.splits)
  have keys: "dget_or (pre @ owner_fields e @ ttl_fields e) ''service_id'' (PStr []) = PStr (en_id e)" "dget_or (pre @ owner_fields e @ ttl_fields e) ''type'' (PStr ''generic'') = PStr ''a2a''"
    by (simp_all add: pre_def dget_or_def)
  have ne: "nonempty (en_card_url e) \<noteq> Some []" by (simp add: nonempty_def)
  show ?thesis
    using assms(3) card ne owner_back [OF pre(1), of e] ttl_back [OF pre(2), of e] keys unfolding d
    by (auto simp: parse_service_entry_def parse_a2a_def url c opt_str_def id_or_def reloaded_def split: option.splits)
qed

lemma parse_back:
  assumes "models_ok px" "cards_ok px e"
  shows "parse_service_entry px (entry_to_config_dict px e) ApiConfig = Inr (reloaded px e)"
proof (cases "en_kind e")
  case Skill
  then show ?thesis by (simp add: parse_service_entry_def entry_to_config_dict_def reloaded_def dget_or_def)
qed (use assms parse_back_generic parse_back_a2a in auto)

lemma load_flushed:
  assumes "models_ok px" "list_all (\<lambda>(_, e). cards_ok px e) es"
  shows "load_config_file px (config_path ds ''api_config.json'') ApiConfig (flush_api_config px ds es fs) = List.map_filter (reloaded px) (map snd es)"
proof -
  have "parse_entries px ApiConfig (map (\<lambda>(_, e). PDict (entry_to_config_dict px e)) es) = List.map_filter (reloaded px) (map snd es)"
    using assms(2)
    by (induction es) (auto simp: parse_entries_def List.map_filter_simps parse_back [OF assms(1)] split: option.splits)
  then show ?thesis by (simp add: load_config_file_def flush_api_config_def write_at_def read_json_def dget_or_def)
qed

text \<open>The entries that come back as they were, but for an empty URL.\<close>

definition trimmed :: "string \<Rightarrow> bool" where
  "trimmed s \<longleftrightarrow> s \<noteq> [] \<and> strip s = s"

definition keeps_form :: "entry \<Rightarrow> bool" where
  "keeps_form e \<longleftrightarrow> en_id e \<noteq> [] \<and> (\<forall>t. en_ttl e = Some t \<longrightarrow> 0 < t) \<and> en_owner e \<noteq> Some []
     \<and> (case en_kind e of Generic \<Rightarrow> (\<exists>g. en_generic e = Some g \<and> trimmed (gd_name g) \<and> trimmed (gd_description g)) | A2A \<Rightarrow> True | Skill \<Rightarrow> False)"

lemma reloaded_same:
  assumes "keeps_form e"
  shows "\<exists>e'. reloaded px e = Some e' \<and> entry_to_output px e' = entry_to_output px e
    \<and> (en_id e', en_owner e', en_ttl e') = (en_id e, en_owner e, en_ttl e)"
proof -
  have t: "positive (en_ttl e) = en_ttl e" using assms by (cases "en_ttl e") (auto simp: keeps_form_def positive_def)
  have o: "nonempty (en_owner e) = en_owner e" using assms by (simp add: keeps_form_def nonempty_def)
  show ?thesis
  proof (cases "en_kind e")
    case Generic
    then obtain g where g: "en_generic e = Some g" "trimmed (gd_name g)" "trimmed (gd_description g)" using assms by (auto simp: keeps_form_def)
    then show ?thesis using assms Generic t o
      by (auto simp: reloaded_def Let_def trimmed_def keeps_form_def entry_to_output_def text_field_def nonempty_def owner_fields_def split: option.splits)
  next
    case A2A
    then show ?thesis using assms t o
      by (auto simp: reloaded_def keeps_form_def entry_to_output_def unresolved_def nonempty_def owner_fields_def split: option.splits)
  next
    case Skill
    then show ?thesis using assms by (simp add: keeps_form_def)
  qed
qed

text \<open>What came back once comes back unchanged.\<close>

lemma reloaded_fixed:
  assumes "reloaded px e = Some e'"
  shows "reloaded px e' = Some e'"
proof -
  have id: "generate_service_id px k n \<noteq> []" for k n by (simp add: generate_service_id_def)
  have idem: "nonempty (nonempty v) = nonempty v" "positive (positive t) = positive t" for v t
    by (simp_all add: nonempty_def positive_def bind_eq_Some_conv split: option.splits bind_splits)
  show ?thesis
  proof (cases "en_kind e")
    case Generic
    then obtain g where g: "en_generic e = Some g" using assms by (auto simp: reloaded_def split: option.splits)
    then show ?thesis using assms Generic id idem by (auto simp: reloaded_def Let_def strip_strip split: if_splits)
  next
    case A2A
    then show ?thesis using assms id idem by (auto simp: reloaded_def split: if_splits)
  next
    case Skill
    then show ?thesis using assms by (simp add: reloaded_def)
  qed
qed

lemma map_filter_fixed: "list_all (\<lambda>e. reloaded px e = Some e) (List.map_filter (reloaded px) es)"
  by (induction es) (auto simp: List.map_filter_simps intro: reloaded_fixed split: option.splits)

lemma map_filter_reloaded:
  assumes "list_all keeps_form es"
  shows "map (entry_to_output px) (List.map_filter (reloaded px) es) = map (entry_to_output px) es
    \<and> map (\<lambda>e. (en_id e, en_owner e, en_ttl e)) (List.map_filter (reloaded px) es) = map (\<lambda>e. (en_id e, en_owner e, en_ttl e)) es"
  using assms
proof (induction es)
  case (Cons e es)
  obtain e' where "reloaded px e = Some e'" "entry_to_output px e' = entry_to_output px e" "(en_id e', en_owner e', en_ttl e') = (en_id e, en_owner e, en_ttl e)"
    using reloaded_same [of e px] Cons.prems by auto
  then show ?case using Cons by (simp add: List.map_filter_simps)
qed (simp add: List.map_filter_simps)

section \<open>Paths\<close>

lemma split_at_parts: "p \<in> set (split_at c s) \<Longrightarrow> c \<notin> set p \<and> contains p s"
proof (induction s arbitrary: p)
  case (Cons x s)
  obtain q qs where q: "split_at c s = q # qs" by (cases "split_at c s") (auto elim: split_at.elims split: list.splits if_splits)
  have first: "\<exists>b. s = q @ b" using q
  proof (induction s arbitrary: q qs)
    case (Cons y s)
    then show ?case by (auto split: if_splits list.splits)
  qed simp
  have sub: "contains r (x # s)" if "contains r s" for r using that by simp
  show ?case
  proof (cases "x = c")
    case True
    then show ?thesis using Cons sub by (auto simp: contains_iff) blast
  next
    case False
    then have "p = x # q \<or> p \<in> set qs" using Cons.prems q by auto
    then show ?thesis
    proof
      assume p: "p = x # q"
      have "contains p (x # s)" using first p by (auto simp: contains_iff intro: exI [of _ "[]"])
      then show ?thesis using p Cons.IH [of q] q False by simp
    next
      assume "p \<in> set qs"
      then show ?thesis using Cons.IH [of p] q sub by simp
    qed
  qed
qed simp

lemma foldl_step_path: "''..'' \<notin> set cs \<Longrightarrow> foldl step_path p cs = p @ filter (\<lambda>c. c \<noteq> [] \<and> c \<noteq> ''.'') cs"
  by (induction cs arbitrary: p) (auto simp: step_path_def)

text \<open>A relative name without dots stays below its base.\<close>

lemma resolve_below:
  assumes "\<not> starts_with ''/'' name" "\<not> contains ''..'' name"
  shows "\<exists>r. resolve base name = base @ r \<and> ''/'' \<notin> set r"
proof -
  have "''..'' \<notin> set (split_at (CHR ''/'') name)" using split_at_parts assms(2) by blast
  moreover have "''/'' \<notin> set (split_at (CHR ''/'') name)" using split_at_parts by fastforce
  ultimately show ?thesis using assms(1) by (simp add: resolve_def foldl_step_path)
qed

lemma under_append [simp]: "''/'' \<notin> set r \<Longrightarrow> under p (p @ r)"
  by (induction p) (auto simp: neq_Nil_conv)

lemma map_of_filter_keys: "map_of (filter (\<lambda>(q, _). P q) fs) q = (if P q then map_of fs q else None)"
  by (induction fs) auto

lemma map_of_rmtree: "map_of (rmtree p fs) q = (if under p q then None else map_of fs q)"
  by (simp add: rmtree_def map_of_filter_keys [of "\<lambda>q. \<not> under p q"])

lemma map_of_mkdirs_on:
  "map_of (fold (\<lambda>n. mkdir_one (take n p)) ns fs) q = (if map_of fs q = None \<and> q \<in> (\<lambda>n. take n p) ` set ns then Some Dir else map_of fs q)"
  by (induction ns arbitrary: fs) (auto simp: mkdir_one_def exists_at_def split: if_splits)

lemma map_of_mkdirs:
  "map_of (mkdirs p fs) q = (if map_of fs q = None \<and> (\<exists>n \<in> {1..length p}. q = take n p) then Some Dir else map_of fs q)"
  by (auto simp: mkdirs_def map_of_mkdirs_on image_iff)

section \<open>Uploads\<close>

text \<open>Everything that is not below the folder is as it was, but that the folders leading to it exist.\<close>

definition folder_only :: "path \<Rightarrow> tree \<Rightarrow> tree \<Rightarrow> bool" where
  "folder_only target fs fs' \<longleftrightarrow>
     (\<forall>q. \<not> under target q \<longrightarrow> map_of fs' q = (if map_of fs q = None \<and> (\<exists>n \<in> {1..length target}. q = take n target) then Some Dir else map_of fs q))"

definition made :: "path \<Rightarrow> tree \<Rightarrow> bool" where
  "made target fs \<longleftrightarrow> (\<forall>n \<in> {1..length target}. map_of fs (take n target) \<noteq> None)"

lemma folder_start: "folder_only target fs (mkdirs target (rmtree target fs)) \<and> made target (mkdirs target (rmtree target fs))"
  by (auto simp: folder_only_def made_def map_of_mkdirs map_of_rmtree)

lemma extract_below:
  assumes "resolve target (rel_member prefix (fst m)) = target @ r" "''/'' \<notin> set r" "made target fs" "\<not> under target q"
  shows "map_of (extract_member target prefix m fs) q = map_of fs q" "made target (extract_member target prefix m fs)"
proof -
  have take: "n \<le> length target \<and> take n (butlast (target @ r)) = take n target \<or> under target (take n (butlast (target @ r)))"
    if "n \<le> length (butlast (target @ r))" "1 \<le> n" for n
  proof (cases "r = [] \<or> n \<le> length target")
    case True
    then show ?thesis
    proof
      assume "r = []"
      then show ?thesis using that by (simp add: take_butlast) linarith
    qed (cases "r = []", use that in \<open>auto simp: butlast_append take_butlast\<close>)
  next
    case False
    then have "take n (butlast (target @ r)) = target @ take (n - length target) (butlast r)" by (simp add: butlast_append)
    moreover have "''/'' \<notin> set (take (n - length target) (butlast r))" using assms(2) by (meson in_set_butlastD in_set_takeD)
    ultimately show ?thesis by simp
  qed
  have same: "map_of (mkdirs (butlast (target @ r)) fs) q = map_of fs q"
  proof (cases "\<exists>n \<in> {1..length (butlast (target @ r))}. q = take n (butlast (target @ r))")
    case True
    then obtain n where n: "1 \<le> n" "n \<le> length (butlast (target @ r))" "q = take n (butlast (target @ r))" by auto
    then have "n \<le> length target" "q = take n target" using take [of n] assms(4) by auto
    then have "map_of fs q \<noteq> None" using assms(3) n(1) by (simp add: made_def)
    then show ?thesis by (simp add: map_of_mkdirs)
  next
    case False
    then show ?thesis unfolding map_of_mkdirs by simp
  qed
  have "q \<noteq> target @ r" using assms(2,4) by auto
  then show "map_of (extract_member target prefix m fs) q = map_of fs q"
    using assms(1) same by (simp add: extract_member_def Let_def write_at_def)
  show "made target (extract_member target prefix m fs)"
    using assms(3) by (auto simp: extract_member_def Let_def write_at_def map_of_mkdirs made_def)
qed


lemma extract_all:
  assumes "\<And>m. m \<in> set arch \<Longrightarrow> \<exists>r. resolve target (rel_member prefix (fst m)) = target @ r \<and> ''/'' \<notin> set r"
    and "folder_only target fs0 fs" "made target fs"
  shows "folder_only target fs0 (fold (extract_member target prefix) arch fs)"
  using assms
proof (induction arch arbitrary: fs)
  case (Cons m arch)
  obtain r where r: "resolve target (rel_member prefix (fst m)) = target @ r" "''/'' \<notin> set r" using Cons.prems(1) [of m] by auto
  have "made target (extract_member target prefix m fs)" by (cases "\<exists>q. \<not> under target q")
      (use extract_below(2) [OF r Cons.prems(3)] Cons.prems(3) in \<open>auto simp: extract_member_def Let_def write_at_def map_of_mkdirs made_def\<close>)
  moreover have "folder_only target fs0 (extract_member target prefix m fs)"
    using Cons.prems(2) extract_below(1) [OF r Cons.prems(3)] by (simp add: folder_only_def)
  moreover have "\<And>m. m \<in> set arch \<Longrightarrow> \<exists>r. resolve target (rel_member prefix (fst m)) = target @ r \<and> ''/'' \<notin> set r"
    using Cons.prems(1) by (meson list.set_intros(2))
  ultimately show ?case using Cons.IH by simp
qed simp

text \<open>A member that is not unsafe and has no double slash is extracted below the folder.\<close>

lemma safe_member_below:
  assumes "\<not> unsafe_member n" "\<not> contains ''//'' n" "prefix = [] \<or> (\<exists>td. prefix = td @ ''/'')"
  shows "\<exists>r. resolve target (rel_member prefix n) = target @ r \<and> ''/'' \<notin> set r"
proof (rule resolve_below)
  have n: "\<not> starts_with ''/'' n" "\<not> contains ''..'' n" using assms(1) by (auto simp: unsafe_member_def)
  have cut: "\<exists>td rest. n = td @ ''/'' @ rest \<and> rel_member prefix n = rest" if "rel_member prefix n \<noteq> n"
    using that assms(3) by (auto simp: rel_member_def starts_with_iff split: if_splits)
  show "\<not> starts_with ''/'' (rel_member prefix n)"
  proof (cases "rel_member prefix n = n")
    case False
    then obtain td rest where t: "n = td @ ''/'' @ rest" "rel_member prefix n = rest" using cut by blast
    have "\<not> starts_with ''/'' rest"
    proof
      assume "starts_with ''/'' rest"
      then obtain u where "rest = ''/'' @ u" by (auto simp: starts_with_iff)
      then have "n = td @ ''//'' @ u" using t(1) by simp
      then show False using assms(2) by (auto simp: contains_iff)
    qed
    then show ?thesis using t(2) by simp
  qed (use n in simp)
  show "\<not> contains ''..'' (rel_member prefix n)"
  proof (cases "rel_member prefix n = n")
    case False
    then obtain td rest where t: "n = td @ ''/'' @ rest" "rel_member prefix n = rest" using cut by blast
    then show ?thesis using n(2) by (auto simp: contains_iff) (metis append.assoc append_Cons)
  qed (use n in simp)
qed

lemma find_skill_md_prefix: "find_skill_md names = Some (md, prefix) \<Longrightarrow> prefix = [] \<or> (\<exists>td. prefix = td @ ''/'')"
  by (auto simp: find_skill_md_def split: if_splits)

lemma save_skill_zip_confined:
  assumes "save_skill_zip ds arch fs = (Inr s, fs')" "list_all (\<lambda>m. \<not> contains ''//'' (fst m)) arch"
  shows "folder_only (skill_dir ds (sk_name s)) fs fs'"
proof -
  obtain md prefix d where p: "find unsafe_member (map fst arch) = None" "find_skill_md (map fst arch) = Some (md, prefix)"
      and d: "parse_skill_md_content (meta_get (rev arch) md) = Inr d"
    using assms(1) by (auto simp: save_skill_zip_def split: option.splits sum.splits)
  define target where "target = skill_dir ds (meta_get d ''name'')"
  have fs': "fs' = fold (extract_member target prefix) arch (mkdirs target (rmtree target fs))" and s: "sk_name s = meta_get d ''name''"
    using assms(1) p d by (auto simp: save_skill_zip_def Let_def target_def skill_of_meta_def)
  have "\<exists>r. resolve target (rel_member prefix (fst m)) = target @ r \<and> ''/'' \<notin> set r" if "m \<in> set arch" for m
    using safe_member_below [OF _ _ find_skill_md_prefix [OF p(2)]] p(1) assms(2) that by (auto simp: find_None_iff list_all_iff)
  then show ?thesis unfolding fs' s target_def [symmetric] using extract_all folder_start by blast
qed

text \<open>A plain name is a folder of the data set's skills.\<close>

definition plain_name :: "string \<Rightarrow> bool" where
  "plain_name n \<longleftrightarrow> n \<notin> {[], ''.'', ''..''} \<and> CHR ''/'' \<notin> set n"

lemma split_at_plain: "c \<notin> set s \<Longrightarrow> split_at c s = [s]"
  by (induction s) auto

lemma skill_dir_plain: "plain_name n \<Longrightarrow> skill_dir ds n = [ds, ''skills'', n]"
  by (cases n) (auto simp: plain_name_def skill_dir_def resolve_def skills_dir_def split_at_plain step_path_def)


text \<open>
  With the description in a top-level directory, a member whose name goes on with a second slash is neither absolute nor
  has it dots; once the directory's name is taken off it is absolute, and replaces the folder.
\<close>

definition sample_md :: string where
  "sample_md = ''---'' @ [CHR 10] @ ''name: s'' @ [CHR 10] @ ''description: d'' @ [CHR 10] @ ''---'' @ [CHR 10]"

definition slip :: "string list \<Rightarrow> string \<Rightarrow> archive" where
  "slip ps body = [(''t/SKILL.md'', sample_md), (''t//'' @ join ''/'' ps, body)]"

lemma split_join:
  assumes "ps \<noteq> []" "\<And>p. p \<in> set ps \<Longrightarrow> c \<notin> set p"
  shows "split_at c (join [c] ps) = ps"
proof -
  have one: "split_at c (p @ c # s) = p # split_at c s" if "c \<notin> set p" for p s using that by (induction p) auto
  show ?thesis using assms
  proof (induction "[c]" ps rule: join.induct)
    case (2 x)
    then show ?case by (simp add: split_at_plain)
  next
    case (3 x y ys)
    then show ?case using one [of x "join [c] (y # ys)"] by simp
  qed simp
qed

lemma sample_md_parsed: "parse_skill_md_content sample_md = Inr [(''name'', ''s''), (''description'', ''d'')]"
  by code_simp

lemma slip_escapes:
  assumes "ps \<noteq> []" "\<And>p. p \<in> set ps \<Longrightarrow> plain_name p" "\<not> contains ''..'' (join ''/'' ps)"
  shows "\<exists>s fs'. save_skill_zip ds (slip ps body) fs = (Inr s, fs') \<and> map_of fs' (''/'' # ps) = Some (Text body)"
proof -
  define n where "n = join ''/'' ps"
  have split: "split_at (CHR ''/'') n = ps" unfolding n_def by (rule split_join) (use assms(1,2) in \<open>auto simp: plain_name_def\<close>)
  have "\<not> starts_with ''..'' (''t//'' @ n)" by simp
  then have safe: "find unsafe_member (map fst (slip ps body)) = None"
    using assms(3) by (auto simp: slip_def n_def [symmetric] unsafe_member_def)
  have md: "find_skill_md (map fst (slip ps body)) = Some (''t/SKILL.md'', ''t/'')"
    by (simp add: find_skill_md_def slip_def top_dirs_def)
  have get: "meta_get (rev (slip ps body)) ''t/SKILL.md'' = sample_md" by (simp add: meta_get_def slip_def)
  define target where "target = skill_dir ds ''s''"
  have ne: "n \<noteq> [] \<and> last n \<noteq> CHR ''/''"
  proof -
    have lp: "last ps \<noteq> [] \<and> CHR ''/'' \<notin> set (last ps)" using assms(1,2) by (auto simp: plain_name_def)
    have "\<exists>a. n = a @ last ps" unfolding n_def using assms(1)
    proof (induction ps rule: induct_list012)
      case (3 x y zs)
      then obtain a where "join ''/'' (y # zs) = a @ last (y # zs)" by auto
      then show ?case by (auto intro: exI [of _ "x @ ''/'' @ a"])
    qed auto
    moreover have "last (last ps) \<noteq> CHR ''/''" using lp by (metis last_in_set)
    ultimately show ?thesis using lp by auto
  qed
  have dest: "resolve target (''/'' @ n) = ''/'' # ps"
  proof -
    have "''..'' \<notin> set ps" "filter (\<lambda>c. c \<noteq> [] \<and> c \<noteq> ''.'') ps = ps" using assms(2) by (auto simp: plain_name_def filter_id_conv)
    then show ?thesis using split by (simp add: resolve_def foldl_step_path step_path_def)
  qed
  have "\<not> is_dir_member (''t//'' @ n)" using ne by (simp add: is_dir_member_def)
  then have "map_of (extract_member target ''t/'' (''t//'' @ n, body) fs1) (''/'' # ps) = Some (Text body)" for fs1
    using dest by (simp add: extract_member_def rel_member_def Let_def write_at_def)
  then show ?thesis using safe md get sample_md_parsed
    by (simp add: save_skill_zip_def Let_def meta_get_def [of "[(''name'', ''s''), (''description'', ''d'')]"] target_def [symmetric])
      (simp add: slip_def n_def [symmetric])
qed

end
