(* ===== verification/RegistryApiProperties.thy ===== *)
theory RegistryApiProperties
  imports RegistrySite RegistryDisk AuthProperties
begin

text \<open>
  What the registry guarantees through its API: reservations are exclusive, entries are changed by those who own
  them, the listing shows the entries, the files give them back, and what the upload of a skill can touch; with the
  two places where a request reaches further than it should. A small site is set up to evaluate the statements on.
\<close>

section \<open>A site\<close>

text \<open>A model library that accepts a service with its fields and every card that is not empty.\<close>

definition demo_models :: outside where
  "demo_models = \<lparr>ox_sha = (\<lambda>s. s), ox_pairs_hash = (\<lambda>_. ''h''), ox_card = (\<lambda>d. if d = [] then Inl (ValueError ''empty'') else Inr d),
     ox_card_no_none = (\<lambda>c. c), ox_card_no_defaults = (\<lambda>c. c),
     ox_generic = (\<lambda>d. Inr \<lparr>gd_name = str_of (dget d ''name''), gd_description = str_of (dget d ''description''), gd_schema = as_dict (dget d ''inputSchema''),
                             gd_url = (case dget d ''url'' of PStr u \<Rightarrow> Some u | _ \<Rightarrow> None)\<rparr>),
     ox_skill = (\<lambda>_. Inl (ValueError ''none'')), ox_fetch = (\<lambda>_. Inl (ValueError ''none''))\<rparr>"

definition demo_peers :: peers where
  "demo_peers = \<lparr>pe_rows = (\<lambda>_. []), pe_entry = (\<lambda>_ _. None)\<rparr>"

definition demo_moment :: "rat \<Rightarrow> moment" where
  "demo_moment t = \<lparr>mo_now = t, mo_wall = t, mo_used = ''now'', mo_uuid = ''uuid''\<rparr>"

text \<open>A protected data set with two services of another provider.\<close>

definition demo_service_entry :: "string \<Rightarrow> entry" where
  "demo_service_entry sid = \<lparr>en_id = sid, en_kind = Generic, en_source = ApiConfig,
     en_generic = Some \<lparr>gd_name = sid, gd_description = ''text'', gd_schema = [], gd_url = Some ''u''\<rparr>, en_card = None, en_card_url = None, en_skill = None,
     en_owner = Some ''u_9'', en_ttl = None\<rparr>"

definition demo_files :: tree where
  "demo_files = flush_api_config demo_models ''d1'' [(''s1'', demo_service_entry ''s1''), (''s2'', demo_service_entry ''s2'')]
     (write_auth_config ''d1'' True (mkdirs [''d1''] []))"

definition demo_site :: site where
  "demo_site = boot demo_models 0 (sv_disk demo_provider) demo_files None"

lemma demo_site_reach: "site_reach demo_sha demo_models demo_site"
  unfolding demo_site_def by (rule site_reach.start)

lemma demo_site_auth: "auth_reach demo_sha (st_auth demo_site)"
proof -
  have "st_auth demo_site = start_server (sv_disk demo_provider)" by (simp add: demo_site_def boot_def Let_def)
  then show ?thesis using auth_reach.step [OF demo_provider_reach auth_step.restart] by simp
qed

definition demo_bob :: "string option" where
  "demo_bob = Some ''Bearer a2x_pat_2''"

definition demo_claim :: "rat \<Rightarrow> site \<Rightarrow> (http_error + reply) \<times> site" where
  "demo_claim t = handle demo_sha demo_models demo_peers (demo_moment t) ''d1'' demo_bob (PostReservation [] 1 60 None)"

fun claimed_rows :: "http_error + reply \<Rightarrow> (string \<times> int \<times> rat \<times> pdict list) option" where
  "claimed_rows (Inr (Reserved h t x rows)) = Some (h, t, x, rows)"
| "claimed_rows _ = None"

lemma claimed_rows_Some: "claimed_rows r = Some (h, t, x, rows) \<longleftrightarrow> r = Inr (Reserved h t x rows)"
  by (cases r rule: claimed_rows.cases) auto

section \<open>Properties\<close>

text \<open>
  C34. Reservations are exclusive: a service that a claim has answered is in no claim that is answered before the
  reservation ends, whatever requests and sweeps happen in between, as long as none of them asks to release or extend
  the reservations of its holder, or to release the service.
\<close>

theorem reservation_exclusive:
  assumes "site_reach sha px st" "handle sha px pe mo ds header (PostReservation fs n ttl ho) st = (Inr (Reserved h t x rows), st1)"
    and "row \<in> set rows" "dget row ''id'' = PStr sid" "site_run sha px ds sid h (mo_now mo + of_int t) st1 st2" "mo_now mo' < mo_now mo + of_int t"
    and "handle sha px pe' mo' ds header' (PostReservation fs' n' ttl' ho') st2 = (Inr (Reserved h' t' x' rows'), st3)" "row' \<in> set rows'"
  shows "dget row' ''id'' \<noteq> PStr sid"
proof -
  define l where "l = \<lparr>rv_holder = h, rv_acquired = mo_now mo, rv_expires = mo_now mo + of_int t\<rparr>"
  have "held ds sid l st1" unfolding l_def by (rule claim_answer(1) [OF assms(2) site_reserved [OF assms(1)] assms(3,4)])
  then have "held ds sid l st2" using site_run_held [of sha px ds sid l] assms(5) by (simp add: l_def)
  then show ?thesis by (rule claim_excludes) (use assms(6-8) in \<open>simp_all add: l_def\<close>)
qed

theorem reservation_exclusive_witness:
  "\<exists>row row'. (\<exists>h t x. claimed_rows (fst (demo_claim 0 demo_site)) = Some (h, t, x, [row]))
     \<and> (\<exists>h t x. claimed_rows (fst (demo_claim 30 (snd (demo_claim 0 demo_site)))) = Some (h, t, x, [row'])) \<and> dget row ''id'' = PStr ''s1'' \<and> dget row' ''id'' \<noteq> PStr ''s1''"
proof -
  let ?st1 = "snd (demo_claim 0 demo_site)"
  have "map_option (\<lambda>(h, t, x, rows). (t, map (\<lambda>r. dget r ''id'') rows)) (claimed_rows (fst (demo_claim 0 demo_site))) = Some (60, [PStr ''s1''])" by code_simp
  then obtain h x row where a: "claimed_rows (fst (demo_claim 0 demo_site)) = Some (h, 60, x, [row])" "dget row ''id'' = PStr ''s1''" by auto
  have "map_option (\<lambda>(h, t, x, rows). (t, length rows)) (claimed_rows (fst (demo_claim 30 ?st1))) = Some (60, 1)" by code_simp
  then obtain h' x' row' where b: "claimed_rows (fst (demo_claim 30 ?st1)) = Some (h', 60, x', [row'])" by (auto simp: length_Suc_conv)
  have "dget row' ''id'' \<noteq> PStr ''s1''"
  proof (rule reservation_exclusive [OF demo_site_reach _ _ a(2) site_run.start])
    show "handle demo_sha demo_models demo_peers (demo_moment 0) ''d1'' demo_bob (PostReservation [] 1 60 None) demo_site = (Inr (Reserved h 60 x [row]), ?st1)"
      using a(1) by (simp add: claimed_rows_Some demo_claim_def prod_eq_iff)
    show "handle demo_sha demo_models demo_peers (demo_moment 30) ''d1'' demo_bob (PostReservation [] 1 60 None) ?st1 = (Inr (Reserved h' 60 x' [row']), snd (demo_claim 30 ?st1))"
      using b by (simp add: claimed_rows_Some demo_claim_def prod_eq_iff)
  qed (simp_all add: demo_moment_def)
  then show ?thesis using a b by blast
qed

text \<open>
  C35. On a protected data set only its owner and the administrators change an entry: a request of any other caller,
  whatever it asks of whatever data set entry, leaves the entry as it is, registrations of a generic service or an
  agent apart.
\<close>

theorem ownership_respected:
  assumes "auth_reach sha (st_auth st)" "fst (is_auth_required ds (st_registry st))"
    and "\<And>p. caller sha header (st_auth st) p \<Longrightarrow> pr_role p \<noteq> ''admin'' \<and> en_owner e \<noteq> Some (pr_id p)"
    and "\<And>r. req \<noteq> PostGeneric r" "\<And>r. req \<noteq> PostA2A r" "get_entry (st_registry st) d sid = Some e"
  shows "get_entry (st_registry (snd (handle sha px pe mo ds header req st))) d sid = Some e"
  by (rule handle_owner [OF auth_reach_ok [OF assms(1)] assms(2) _ assms(4,5,6)]) (use assms(3) in auto)

theorem ownership_respected_witness:
  "get_entry (st_registry (snd (handle demo_sha demo_models demo_peers (demo_moment 0) ''d1'' demo_bob (DeleteService ''s1'') demo_site))) ''d1'' ''s1''
   = get_entry (st_registry demo_site) ''d1'' ''s1'' \<and> get_entry (st_registry demo_site) ''d1'' ''s1'' \<noteq> None"
proof -
  have req: "fst (is_auth_required ''d1'' (st_registry demo_site))" by code_simp
  have "map_option en_owner (get_entry (st_registry demo_site) ''d1'' ''s1'') = Some (Some ''u_9'')" by code_simp
  then obtain e where e: "get_entry (st_registry demo_site) ''d1'' ''s1'' = Some e" "en_owner e = Some ''u_9''" by auto
  have "fst (authorize demo_sha ''now'' (Some demo_service) (Some ''d1'') demo_bob (st_auth demo_site))
      = Inr (Some \<lparr>ac_principal = ''u_2'', ac_role = ''provider'', ac_namespaces = Some [''d1'']\<rparr>)" by code_simp
  moreover have "\<not> open_dataset (Some demo_service) (Some ''d1'')" by (simp add: open_dataset_def demo_service_def)
  ultimately obtain p0 where "caller demo_sha demo_bob (st_auth demo_site) p0" "to_context p0 = \<lparr>ac_principal = ''u_2'', ac_role = ''provider'', ac_namespaces = Some [''d1'']\<rparr>"
    using authorize_exact [OF auth_reach_ok [OF demo_site_auth]] by fastforce
  then have "pr_role p = ''provider'' \<and> pr_id p = ''u_2''" if "caller demo_sha demo_bob (st_auth demo_site) p" for p
    using caller_unique [OF auth_reach_ok [OF demo_site_auth] that] by (auto simp: to_context_def)
  then show ?thesis using ownership_respected [OF demo_site_auth req _ _ _ e(1), of demo_bob "DeleteService ''s1''"] e by simp
qed

text \<open>
  C36. In every state the running registry reaches, the services it lists for a data set are the outputs of the
  entries of the data set, in their order.
\<close>

theorem listing_shows_entries:
  assumes "site_reach sha px st"
  shows "list_services (st_registry st) ds = map (entry_to_output px) (list_entries (st_registry st) ds)"
  using site_listing [OF assms] by (simp add: listing_ok_def list_services_def list_entries_def comp_def split_def)

theorem listing_shows_entries_witness:
  "list_services (st_registry (snd (demo_claim 0 demo_site))) ''d1'' = map (entry_to_output demo_models) (list_entries (st_registry (snd (demo_claim 0 demo_site))) ''d1'')"
  by (rule listing_shows_entries [of demo_sha]) (simp add: demo_claim_def demo_site_reach site_reach.request)


text \<open>
  C37. Reading the configuration file of a data set after the store has flushed yields, in order, what \<open>reloaded\<close> says of the
  stored services: one with a blank name or description is dropped, of any other both are stripped, empty texts are lost. A
  service with trimmed name and description, an identifier and no empty owner or lease time below one comes back with
  its output, identifier, owner and lease time, and so does an agent; what came back once is not changed by further restarts. The models are relied on to read what they dump, and the cards of the
  store are objects of the model.
\<close>

theorem stored_services_reload:
  assumes "models_ok px" "list_all (\<lambda>(_, e). cards_ok px e) es"
    and "es' = load_config_file px (config_path ds ''api_config.json'') ApiConfig (flush_api_config px ds es fs)"
  shows "es' = List.map_filter (reloaded px) (map snd es) \<and> list_all (\<lambda>e. reloaded px e = Some e) es'
    \<and> (list_all keeps_form (map snd es) \<longrightarrow>
         map (entry_to_output px) es' = map (entry_to_output px) (map snd es)
         \<and> map (\<lambda>e. (en_id e, en_owner e, en_ttl e)) es' = map (\<lambda>e. (en_id e, en_owner e, en_ttl e)) (map snd es))"
proof -
  have "es' = List.map_filter (reloaded px) (map snd es)" using load_flushed [OF assms(1,2), of ds fs] assms(3) by simp
  then show ?thesis using map_filter_fixed [of px "map snd es"] map_filter_reloaded [of "map snd es" px] by blast
qed

lemma demo_models_ok: "models_ok demo_models"
  by (auto simp: models_ok_def demo_models_def generic_dump_def opt_str_def str_of_def dget_or_def split: option.splits if_splits)

text \<open>The first service of the site, and one that was registered with blanks around its name.\<close>

definition demo_blanks :: entry where
  "demo_blanks = demo_service_entry ''s2''\<lparr>en_generic := Some \<lparr>gd_name = '' x '', gd_description = ''text'', gd_schema = [], gd_url = Some []\<rparr>\<rparr>"

theorem stored_services_reload_witness:
  "\<exists>e e'. load_config_file demo_models (config_path ''d1'' ''api_config.json'') ApiConfig
        (flush_api_config demo_models ''d1'' [(''s1'', demo_service_entry ''s1''), (''s2'', demo_blanks)] []) = [e, e']
     \<and> e = demo_service_entry ''s1'' \<and> map_option gd_name (en_generic e') = Some ''x'' \<and> reloaded demo_models e' = Some e'"
proof -
  let ?stored = "[(''s1'', demo_service_entry ''s1''), (''s2'', demo_blanks)]"
  let ?es = "load_config_file demo_models (config_path ''d1'' ''api_config.json'') ApiConfig (flush_api_config demo_models ''d1'' ?stored [])"
  have cards: "list_all (\<lambda>(_, e). cards_ok demo_models e) ?stored" by (simp add: cards_ok_def demo_blanks_def demo_service_entry_def)
  have reload: "reloaded demo_models (demo_service_entry ''s1'') = Some (demo_service_entry ''s1'')"
    "map_option (\<lambda>e. map_option gd_name (en_generic e)) (reloaded demo_models demo_blanks) = Some (Some ''x'')" by code_simp+
  then obtain e' where e': "reloaded demo_models demo_blanks = Some e'" "map_option gd_name (en_generic e') = Some ''x''" by auto
  note law = stored_services_reload [OF demo_models_ok cards refl, of "''d1''" "[]"]
  have es: "?es = [demo_service_entry ''s1'', e']" unfolding conjunct1 [OF law] using reload(1) e'(1) by (simp add: List.map_filter_simps)
  moreover have "reloaded demo_models e' = Some e'" using conjunct1 [OF conjunct2 [OF law]] unfolding es by simp
  ultimately show ?thesis using e'(2) by blast
qed

text \<open>
  C38. The upload of a skill whose name is a plain file name, from an archive without double slashes in its members,
  touches nothing outside of the skill's folder: every other file and directory of the tree is as it was, but that
  the directories leading to the folder exist afterwards.
\<close>

theorem skill_upload_confined:
  assumes "save_skill_zip ds arch fs = (Inr s, fs')" "plain_name (sk_name s)" "list_all (\<lambda>m. \<not> contains ''//'' (fst m)) arch"
    and "\<not> under [ds, ''skills'', sk_name s] q"
  shows "map_of fs' q = (if map_of fs q = None \<and> q \<in> {[ds], [ds, ''skills'']} then Some Dir else map_of fs q)"
proof -
  let ?t = "[ds, ''skills'', sk_name s]"
  have "(\<exists>n \<in> {1..length ?t}. q = take n ?t) \<longleftrightarrow> q \<in> {[ds], [ds, ''skills''], ?t}"
    by (auto simp: numeral_eq_Suc atLeastAtMostSuc_conv)
  moreover have "q \<noteq> ?t" using assms(4) by auto
  moreover have "folder_only ?t fs fs'" using save_skill_zip_confined [OF assms(1,3)] unfolding skill_dir_plain [OF assms(2)] .
  note this [unfolded folder_only_def, rule_format, OF assms(4)]
  ultimately show ?thesis by (simp only: insert_iff empty_iff simp_thms)
qed

definition demo_archive :: archive where
  "demo_archive = [(''t/SKILL.md'', sample_md), (''t/lib/run.py'', ''code'')]"

theorem skill_upload_confined_witness:
  "\<exists>s fs'. save_skill_zip ''d1'' demo_archive demo_files = (Inr s, fs') \<and> map_of fs' [''d1'', ''skills'', ''s'', ''lib'', ''run.py''] = Some (Text ''code'')
     \<and> map_of fs' [''d1'', ''auth_config.json''] = map_of demo_files [''d1'', ''auth_config.json''] \<and> map_of demo_files [''d1'', ''auth_config.json''] \<noteq> None"
proof -
  have "map_option sk_name (case fst (save_skill_zip ''d1'' demo_archive demo_files) of Inl _ \<Rightarrow> None | Inr s \<Rightarrow> Some s) = Some ''s''" by code_simp
  then obtain s fs' where s: "save_skill_zip ''d1'' demo_archive demo_files = (Inr s, fs')" "sk_name s = ''s''"
    by (cases "save_skill_zip ''d1'' demo_archive demo_files") (auto split: sum.splits)
  have plain: "plain_name (sk_name s)" unfolding s(2) by code_simp
  have slashes: "list_all (\<lambda>m. \<not> contains ''//'' (fst m)) demo_archive" by code_simp
  have out: "map_of demo_files [''d1'', ''auth_config.json''] = Some (Json (PDict [(''required'', PBool True), (''schema_version'', PInt 1)]))" by code_simp
  have "map_of fs' [''d1'', ''auth_config.json''] = map_of demo_files [''d1'', ''auth_config.json'']"
    using skill_upload_confined [OF s(1) plain slashes, of "[''d1'', ''auth_config.json'']"] by simp
  moreover have "map_of (snd (save_skill_zip ''d1'' demo_archive demo_files)) [''d1'', ''skills'', ''s'', ''lib'', ''run.py''] = Some (Text ''code'')" by code_simp
  ultimately show ?thesis using s(1) out by auto
qed

text \<open>
  C39. The check of the archive's members is not enough to confine an upload: for every absolute path without dots and
  every content there is an archive that passes it and whose upload writes the content to that path, outside of the
  database directory.
\<close>

theorem skill_upload_escapes:
  assumes "ps \<noteq> []" "list_all plain_name ps" "\<not> contains ''..'' (join ''/'' ps)"
  shows "\<exists>arch s fs'. list_all (\<lambda>m. \<not> unsafe_member (fst m)) arch \<and> save_skill_zip ds arch fs = (Inr s, fs') \<and> map_of fs' (''/'' # ps) = Some (Text body)"
proof -
  obtain s fs' where s: "save_skill_zip ds (slip ps body) fs = (Inr s, fs')" "map_of fs' (''/'' # ps) = Some (Text body)"
    using slip_escapes [OF assms(1) _ assms(3)] assms(2) by (metis list_all_iff)
  then have "find unsafe_member (map fst (slip ps body)) = None" by (auto simp: save_skill_zip_def split: option.splits)
  then show ?thesis using s by (auto simp: find_None_iff list_all_iff)
qed

theorem skill_upload_escapes_witness:
  "\<exists>arch s fs'. list_all (\<lambda>m. \<not> unsafe_member (fst m)) arch \<and> save_skill_zip ''d1'' arch demo_files = (Inr s, fs')
     \<and> map_of fs' [''/'', ''etc'', ''cron.d'', ''job''] = Some (Text ''line'')"
proof -
  have "list_all plain_name [''etc'', ''cron.d'', ''job'']" "\<not> contains ''..'' (join ''/'' [''etc'', ''cron.d'', ''job''])" by code_simp+
  then show ?thesis using skill_upload_escapes [of "[''etc'', ''cron.d'', ''job'']" "''d1''" demo_files "''line''"] by simp
qed

text \<open>
  C40. A registration takes an entry over: a generic service that is registered under the identifier of an entry
  replaces it and belongs to the caller, whoever owned it before, though an update or a removal of it is refused.
\<close>

theorem registration_takes_over:
  assumes "get_entry rg ds sid = Some e" "\<not> is_admin c" "en_owner e \<noteq> Some (ac_principal c)"
    and "register_generic px ds req (Some c) rg = (Inr (sid, status), rg')"
  shows "(\<exists>e'. get_entry rg' ds sid = Some e' \<and> en_owner e' = Some (ac_principal c) \<and> status = ''updated'')
    \<and> (\<exists>m. fst (update_service px ds sid ups (Some c) rg) = Inl m) \<and> (\<exists>m. fst (deregister px ds sid (Some c) rg) = Inl m)"
proof -
  obtain rg1 where r: "same_core rg rg1" "do_register px ds (generic_entry px req (Some c)) (gr_persistent req) rg1 = ((sid, status), rg')"
    using register_generic_cases [OF assms(4)] by auto
  have sid: "en_id (generic_entry px req (Some c)) = sid" using r(2) by (auto simp: do_register_def Let_def)
  then have "changes_one px ds sid (Some (generic_entry px req (Some c))) rg rg'" using do_register_after [OF r] by simp
  then have new: "get_entry rg' ds sid = Some (generic_entry px req (Some c))" by (simp add: changes_one_def get_entry_def)
  have "map_of (entries_of (ensure_dataset ds rg1) ds) sid = Some e"
    using assms(1) same_coreD(1) [OF ensure_core [of rg1 ds]] same_coreD(1) [OF r(1)] by (simp add: get_entry_def)
  then have "status = ''updated''" using r(2) sid by (auto simp: do_register_def Let_def)
  moreover have denied: "\<exists>m. owner_check e (Some c) = Some m" using assms(2,3) by (auto simp: owner_check_def assert_owner_def split: option.splits)
  then have "\<exists>m. fst (update_service px ds sid ups (Some c) rg) = Inl m" "\<exists>m. fst (deregister px ds sid (Some c) rg) = Inl m"
    using assms(1) by (auto simp: update_service_def deregister_def)
  moreover have "en_owner (generic_entry px req (Some c)) = Some (ac_principal c)" by (simp add: generic_entry_def owner_of_def)
  ultimately show ?thesis using new by blast
qed

definition demo_request :: generic_request where
  "demo_request = \<lparr>gr_id = Some ''s1'', gr_name = ''mine'', gr_description = ''text'', gr_schema = [], gr_url = ''u'', gr_persistent = True, gr_ttl = None\<rparr>"

definition demo_registry :: registry where
  "demo_registry = set_entries ''d1'' [(''s1'', demo_service_entry ''s1'')] (new_registry (mkdirs [''d1''] []) None)"

definition demo_context :: auth_context where
  "demo_context = \<lparr>ac_principal = ''u_2'', ac_role = ''provider'', ac_namespaces = Some [''d1'']\<rparr>"

lemma demo_registration: "fst (register_generic demo_models ''d1'' demo_request (Some demo_context) demo_registry) = Inr (''s1'', ''updated'')"
  by code_simp

theorem registration_takes_over_witness:
  "\<exists>rg' e e'. fst (register_generic demo_models ''d1'' demo_request (Some demo_context) demo_registry) = Inr (''s1'', ''updated'')
     \<and> get_entry demo_registry ''d1'' ''s1'' = Some e \<and> en_owner e = Some ''u_9''
     \<and> register_generic demo_models ''d1'' demo_request (Some demo_context) demo_registry = (Inr (''s1'', ''updated''), rg')
     \<and> get_entry rg' ''d1'' ''s1'' = Some e' \<and> en_owner e' = Some ''u_2''"
proof -
  define e where "e = demo_service_entry ''s1''"
  have e: "get_entry demo_registry ''d1'' ''s1'' = Some e" "en_owner e = Some ''u_9''"
    by (simp_all add: e_def demo_registry_def get_entry_def demo_service_entry_def)
  have "fst (register_generic demo_models ''d1'' demo_request (Some demo_context) demo_registry) = Inr (''s1'', ''updated'')" by (rule demo_registration)
  then obtain rg' where r: "register_generic demo_models ''d1'' demo_request (Some demo_context) demo_registry = (Inr (''s1'', ''updated''), rg')" by (metis prod.collapse)
  have "\<not> is_admin demo_context" "en_owner e \<noteq> Some (ac_principal demo_context)" by (simp_all add: e(2) demo_context_def is_admin_def)
  from registration_takes_over [OF e(1) this r, THEN conjunct1]
  obtain e' where "get_entry rg' ''d1'' ''s1'' = Some e'" "en_owner e' = Some ''u_2''" by (auto simp: demo_context_def)
  then show ?thesis using e r by (simp only: fst_conv) blast
qed

end
