(* ===== verification/Spec2Isabelle.thy ===== *)
theory Spec2Isabelle
  imports Demo RegistryProperties RouterProperties AuthProperties RegistryApiProperties
begin

text \<open>
  A verification of the three programs of the agent protocol repository: the Agent-for-Payment SDK
  (\<open>A4P-python-sdk/src/a4p\<close>), the agent registry (\<open>AgentRegistry/a2x_registry\<close>) and the model router
  (\<open>intelli_router/intelli_router\<close>).

  \<^bold>\<open>The programs.\<close> In the SDK, a server creates and signs mandates for an agent's request, the user's device checks
  and signs them, and the server completes the authorization: an intent mandate yields a token that is
  verified for every call of the agent, an operation mandate approves one operation. In the registry, services are
  registered in data sets that may require authentication, listed, reserved and updated over an HTTP API and kept in
  files; they hold leases that heartbeats renew and a sweeper ends; the instances of a cluster replicate each
  other's records over sessions and agree on the roster of the cluster. The router sends a request for a model to one
  of its deployments by a strategy, retries on others, puts failing ones into cooldown, caches answers and
  reports what it does as events.

  \<^bold>\<open>Theories and sources.\<close>
  \<^item> \<open>Prelude\<close>: exceptions and results (\<open>errors.py\<close>), the monad of fallible code. \<open>PyValue\<close>, \<open>PyInt\<close>, \<open>CanonicalJson\<close>,
    \<open>PyTime\<close>, \<open>Glob\<close>: Python values, \<open>int\<close>, \<open>json.dumps\<close> with sorted keys, \<open>time.strftime\<close>/\<open>strptime\<close> for the protocol's
    format, \<open>fnmatch.fnmatchcase\<close>.
  \<^item> SDK: \<open>IntentScope\<close> (\<open>intent/scope.py\<close>), \<open>UsageStore\<close> (\<open>intent/usage_store.py\<close>), \<open>Security\<close> (\<open>security.py\<close>),
    \<open>CredentialStore\<close> (\<open>credential_store.py\<close>); \<open>Mandate\<close>, \<open>MandateSecurity\<close> (\<open>mandate_security.py\<close>, normalization of
    \<open>intent/mandate.py\<close> and \<open>operation/mandate.py\<close>), \<open>IntentMandate\<close>, \<open>OperationMandate\<close>; \<open>UserSignature\<close>, \<open>Ed25519Method\<close>
    (\<open>user_signature/\<close>); \<open>AuthCommon\<close>, \<open>IntentToken\<close>, \<open>IntentService\<close>, \<open>OperationService\<close> (\<open>authorization_common.py\<close>,
    \<open>intent/\<close>, \<open>operation/\<close>); \<open>UserAuthorizer\<close> (\<open>user_authorizer.py\<close>), \<open>AuthorizationFlow\<close> (device and server together),
    \<open>Server\<close> (\<open>server.py\<close> as a state machine), \<open>Demo\<close> (a concrete configuration).
  \<^item> Registry, leases and cluster: \<open>Lease\<close> (\<open>common/lease.py\<close>), \<open>Heartbeat\<close> (\<open>heartbeat/store.py\<close>, \<open>sweeper.py\<close>); \<open>Replication\<close>
    (\<open>cluster/envelope.py\<close> and the contract of a last-writer-wins replica), \<open>Merkle\<close> (\<open>cluster/merkle.py\<close>), \<open>ClusterState\<close>
    (\<open>cluster/state.py\<close>, \<open>peer.py\<close>, \<open>config.py\<close>, \<open>auth_handshake.py\<close>), \<open>ClusterStore\<close>, \<open>ClusterNode\<close>, \<open>Reconcile\<close>
    (\<open>cluster/store.py\<close>: local operations and handlers, the life of a node, the calls to peers), \<open>Membership\<close>
    (\<open>cluster/membership.py\<close>, \<open>sweepers.py\<close>), \<open>ClusterDemo\<close>, \<open>RegistryProperties\<close>.
  \<^item> Registry, authentication: \<open>AuthStore\<close> (\<open>auth/store.py\<close>, \<open>models.py\<close>, \<open>tokens.py\<close>), \<open>AuthApi\<close> (\<open>auth/deps.py\<close>, \<open>router.py\<close>,
    \<open>cli.py\<close>), \<open>AuthSecurity\<close> (invariants and who is admitted), \<open>AuthProperties\<close>.
  \<^item> Registry, services: \<open>RegistryFormat\<close> (\<open>register/validation.py\<close>), \<open>RegistryEntry\<close> (\<open>register/models.py\<close>, \<open>agent_card.py\<close>, the
    forms of an entry), \<open>RegistryFiles\<close> (\<open>register/store.py\<close>), \<open>RegistryService\<close> (\<open>register/service.py\<close>), \<open>DatasetApi\<close>
    (\<open>backend/routers/dataset.py\<close>, \<open>heartbeat/router.py\<close>); \<open>RegistryLaws\<close> (what each operation changes), \<open>RegistryRights\<close>
    (owners and holders of reservations), \<open>RegistrySite\<close> (\<open>backend/startup.py\<close>, \<open>heartbeat/sweeper.py\<close>: the running registry),
    \<open>RegistryDisk\<close> (files and archives), \<open>RegistryApiProperties\<close>.
  \<^item> Router: \<open>RouterErrors\<close> (\<open>utils/exceptions.py\<close>, \<open>core/deployment.py\<close>, \<open>core/context.py\<close>), \<open>RouterState\<close> (\<open>core/state.py\<close>,
    \<open>health/checker.py\<close>), \<open>RouterCache\<close> (\<open>cache/local_cache.py\<close>), \<open>RouterStrategy\<close> (\<open>strategy/\<close>), \<open>RouterMessages\<close>, \<open>RouterChunks\<close>
    (\<open>types.py\<close>), \<open>RouterStream\<close> (event streams), \<open>RouterMetrics\<close> (\<open>observability/\<close>), \<open>RouterProvider\<close> (\<open>provider/\<close>,
    \<open>router/base_router.py\<close>), \<open>ReliableRouter\<close>, \<open>RouterDelivery\<close>, \<open>RouterLifecycle\<close> (\<open>router/reliable_router.py\<close>),
    \<open>RouterLaws\<close>, \<open>RouterDemo\<close>, \<open>RouterProperties\<close>.

  \<^bold>\<open>State and operations.\<close> A handler is a function from the state and the request to an answer or an error and the next
  state. The SDK server's state is \<open>a4p_state\<close> (pending entries, signature method, usage store), and \<open>server_run\<close> is any
  sequence of calls: the handlers are coroutines that never await, so that each is one step. The state of a cluster
  node is \<open>cluster_store\<close>; \<open>node_step\<close> is any operation of a node, or its restart; a method that calls peers also
  threads the rest of the world through a record of RPC functions. The credentials of the registry are
  \<open>auth_server\<close> (store and files), stepped by \<open>auth_step\<close>. The registry's own state is \<open>registry\<close>, the fields of
  \<open>RegistryService\<close> with the tree of its files; with the credentials and the heartbeat table it is a \<open>site\<close>, stepped by requests, the
  creation of data sets and the sweeper (\<open>site_reach\<close>); a method is one step, so that the interleaving of two methods
  between their locked parts is not covered. The router's state holds its deployments, their statistics, the health
  checker and the events emitted. Clock readings and random tokens are arguments of the step that takes them.

  \<^bold>\<open>Interfaces.\<close> \<open>credential_store\<close> (interpreted by the in-memory and the file store), \<open>token_usage\<close>
  (the SQLite store), \<open>signature_method\<close> and \<open>ed25519_registration\<close> (the registered Ed25519 method over
  either credential store); the services' soundness is proved once inside \<open>signature_method\<close>. \<open>lww_replica\<close> is
  interpreted by the overlay of service records (\<open>replica\<close>) and by the roster (\<open>roster\<close>).

  \<^bold>\<open>What is shown.\<close> SDK, in this theory: approvals and executions are bounded over whole runs, approvals and token checks are
  sound, honest flows complete, scopes and canonical text behave as specified, the device accepts what the
  server signed, reachable states are consistent. \<open>AuthProperties\<close>: who is admitted to a protected data set, that
  revocation is final, that a restart changes no admission, that only administrators manage principals.
  \<open>RegistryApiProperties\<close>: reservations are exclusive, entries are changed by their owners, the listing shows the entries, the
  files give them back, uploads stay in their folder; and two requests that reach too far. \<open>RegistryProperties\<close>: leases last as long
  as heartbeats say and no longer; replication converges in any order and over reconciliation, node states stay
  consistent and versions fresh over restarts, pulls stay within the authorization of the handshake.
  \<open>RouterProperties\<close>: calls end within their retries and answer when a deployment can, request errors put no deployment into
  cooldown, a stream has one source, truncation is detected, the cache is a bounded LRU cache, metrics add up, strategies
  choose the best, reachable routers are well formed.

  \<^bold>\<open>Parameters.\<close> The Ed25519 and SHA-256 primitives are the record \<open>crypto\<close>, with the laws \<open>ed25519_laws\<close>
  where a proof needs them; the built-in display texts and the Beijing time text are functions of the
  configuration. In the cluster, SHA-256 and pydantic's codec of envelopes are fields of \<open>node_env\<close>, with the
  hypotheses \<open>no_collision\<close> and \<open>codec_ok\<close>. In the registry, pydantic's models, SHA-256 and the fetching of an agent card are
  the record \<open>outside\<close>, with the law \<open>models_ok\<close> where files are read back. In the router, the answers of the providers
  and the random source are arguments. Every recursion is total: no fuel is used.

  \<^bold>\<open>Not modelled.\<close> Floats in JSON values, strings outside Latin-1, logging, file permissions and failing writes, connection
  set-up of SQLite; the HTTP layers of the SDK, the WebAuthn method (calls of its library); of the registry the SQL and
  etcd tables with the services for images and instances on top of them, whose state is in external stores, the
  taxonomy build and the search (calls of language models and of a vector database), the command lines and the
  client; of the router the Anthropic, Gemini and Bedrock adapters, batches, the pooling of clients and the
  dashboard. Paths are compared without symbolic links. The fan-out pools are taken sequentially, clock readings are exact
  rationals, and request bodies have the declared types.
\<close>

section \<open>Approvals and tokens over whole runs of the server\<close>

text \<open>
  C1. Over any sequence of calls to a fresh server, in any order and with any clocks, an authorization
  is approved at most as often as it was prepared: a completed authorization cannot be completed again.
\<close>

theorem approvals_bounded:
  "length (filter (approves i) (fst (server_run cfg store
     \<lparr>st_intents = [], st_operations = [], st_method = ms, st_usage = us\<rparr> cs)))
   \<le> length (filter (prepares i) (fst (server_run cfg store
     \<lparr>st_intents = [], st_operations = [], st_method = ms, st_usage = us\<rparr> cs)))"
  using server_run_count [of cfg store "\<lparr>st_intents = [], st_operations = [], st_method = ms, st_usage = us\<rparr>" cs i]
  by (simp add: pending_count_def)

text \<open>
  C2. With the SQLite usage store, the valid answers to \<open>verify_token\<close> for a token with limit \<open>n\<close> and
  expiry \<open>x\<close> over any run of the server whose store clock stays before \<open>x\<close> are at most the executions
  that were left at its start.
\<close>

theorem token_executions_bounded:
  assumes "cfg_consume cfg = sqlite_consume" "usage_inv (st_usage st)" "list_all (store_before x) cs"
  shows "int (length (filter (spends tid n x) (zip cs (fst (server_run cfg store st cs)))))
    \<le> max 0 (n - executions_of (st_usage st) tid x)"
  by (rule sqlite.server_run_spends [OF assms])

theorem token_executions_bounded_witness:
  "int (length (filter (spends ''tok_1'' 2 4600) (zip (replicate 3 (VerifyToken 1000 True 1000 demo_token_request))
     (fst (server_run (demo_config memory_store) None (demo_state demo_store)
        (replicate 3 (VerifyToken 1000 True 1000 demo_token_request))))))) \<le> 2"
  using token_executions_bounded [OF demo_facts(4) demo_facts(6), of 4600 "replicate 3 (VerifyToken 1000 True 1000 demo_token_request)"
      "''tok_1''" 2 memory_store None demo_store]
  by (simp add: demo_state_def executions_of_def numeral_3_eq_3)

text \<open>
  C3. An intent is approved only for a pending authorization, with a mandate that equals the prepared one,
  signed by the server, endorsed by a registered key of the requesting user, and within its validity;
  the pending entry is used up.
\<close>

theorem intent_approval_sound:
  assumes "cfg_method cfg = Some (ed25519_method C memory_store)" "cfg_require cfg" "mem_inv (st_method st)"
    and "intent_complete cfg now1 now2 tid nonce st request = (Inr resp, st')" "ir_approved resp"
  shows "\<exists>sm mid pend n core k s ctx a b.
    dget request ''signedMandate'' = PDict sm \<and> mandate_identifier sm = Inr mid
    \<and> map_of (st_intents st) mid = Some pend \<and> st_intents st' = AList.delete mid (st_intents st)
    \<and> mandate_matches_pending normalize_intent_mandate sm (pi_mandate pend) = Inr True
    \<and> normalize_intent_mandate sm = Inr n \<and> intent_mandate_core_payload n = Inr core
    \<and> intent_server_signing_key (cfg_crypto cfg) (cfg_env cfg) = Inr k
    \<and> dget (signature_of n ''server'') ''signature'' = PStr s
    \<and> ed25519_verify_text (cfg_crypto cfg) (server_payload core) (strip s) (cr_public (cfg_crypto cfg) k)
    \<and> intent_user_signature_context n (Some (str_or (dget (pi_request pend) ''userId'') [])) = Inr ctx
    \<and> ed25519_endorsed C (mem_contents (st_method st)) (str_or (dget (pi_request pend) ''userId'') [])
        (sc_mandate ctx) (signature_of n ''user'')
    \<and> parse_utc (py_str (dget (as_dict (dget n ''validTime'')) ''start'')) = Some a \<and> of_int a \<le> now1
    \<and> parse_utc (py_str (dget (as_dict (dget n ''validTime'')) ''end'')) = Some b \<and> now1 \<le> of_int b"
  by (rule mem_ed25519.intent_sound [OF assms]) (fastforce simp: py_str_def)

theorem intent_approval_sound_witness:
  "\<exists>st request resp st' sm mid. intent_complete (demo_config memory_store) 1000 1000 ''tid'' ''n'' st request = (Inr resp, st')
     \<and> ir_approved resp \<and> dget request ''signedMandate'' = PDict sm \<and> mandate_identifier sm = Inr mid
     \<and> st_intents st' = AList.delete mid (st_intents st)"
proof (rule demo_intent_approved)
  fix st request resp st'
  assume *: "mem_inv (st_method st)"
    "intent_complete (demo_config memory_store) 1000 1000 ''tid'' ''n'' st request = (Inr resp, st')" "ir_approved resp"
  from intent_approval_sound [OF demo_facts(2,3) *] * show ?thesis by blast
qed

text \<open>
  C4. An operation is approved only while it is pending and not past its expiry, for the very operation that
  was prepared, with a mandate that equals the prepared one, signed by the server and endorsed by a registered
  key of the requesting user; the pending entry is used up.
\<close>

theorem operation_approval_sound:
  assumes "cfg_method cfg = Some (ed25519_method C memory_store)" "cfg_require cfg" "mem_inv (st_method st)"
    and "keys_distinct (st_operations st)"
    and "operation_complete cfg now0 now1 st request = (Inr res, st')" "or_approved res"
  shows "\<exists>sm oid p current n core k s ctx b.
    dget (payload request) ''signedMandate'' = PDict sm \<and> mandate_identifier sm = Inr oid
    \<and> map_of (st_operations st) oid = Some p \<and> \<lfloor>now0\<rfloor> < po_expire p
    \<and> or_operation res = Some oid \<and> map_of (st_operations st') oid = None
    \<and> service_normalize_operation (dget (payload request) ''operation'') = Inr current
    \<and> py_eq (PDict current) (PDict (po_operation p))
    \<and> mandate_matches_pending normalize_operation_mandate sm (po_mandate p) = Inr True
    \<and> normalize_operation_mandate sm = Inr n \<and> operation_mandate_core_payload n = Inr core
    \<and> operation_server_signing_key (cfg_crypto cfg) (cfg_env cfg) = Inr k
    \<and> dget (signature_of n ''server'') ''signature'' = PStr s
    \<and> ed25519_verify_text (cfg_crypto cfg) (server_payload core) (strip s) (cr_public (cfg_crypto cfg) k)
    \<and> operation_user_signature_context n (Some (str_or (dget (po_request p) ''userId'') [])) = Inr ctx
    \<and> ed25519_endorsed C (mem_contents (st_method st)) (str_or (dget (po_request p) ''userId'') [])
        (sc_mandate ctx) (signature_of n ''user'')
    \<and> parse_utc (py_str (dget (as_dict (dget n ''validTime'')) ''until'')) = Some b \<and> now1 \<le> of_int b"
  by (rule mem_ed25519.operation_sound [OF assms]) (fastforce simp: py_str_def)

theorem operation_approval_sound_witness:
  "\<exists>st request res st' oid. operation_complete (demo_config memory_store) 1000 1000 st request = (Inr res, st')
     \<and> or_approved res \<and> or_operation res = Some oid \<and> map_of (st_operations st') oid = None"
proof (rule demo_operation_approved)
  fix st request res st'
  assume *: "operation_pending_inv (demo_config memory_store) st" "mem_inv (st_method st)"
    "operation_complete (demo_config memory_store) 1000 1000 st request = (Inr res, st')" "or_approved res"
  then have "keys_distinct (st_operations st)" by (simp add: operation_pending_inv_def)
  from operation_approval_sound [OF demo_facts(2,3) *(2) this *(3,4)] * show ?thesis by blast
qed

section \<open>Complete flows\<close>

text \<open>
  C5. A prepared intent whose mandate the user's device signs with the key of a registered Ed25519 credential
  is approved, and until the mandate ends the issued token is answered exactly as its scope says.
\<close>

theorem intent_flow_completes:
  assumes "ed25519_laws C"
    and "cfg_crypto cfg = C" "cfg_method cfg = Some (ed25519_method C memory_store)" "cfg_require cfg"
    and "mem_inv (st_method st)" "wf_val request"
    and "intent_prepare cfg now0 tok st request = (Inr resp, st1)" "ir_mandate resp = Some m"
    and "mem_contents (st_method st) cid = Some r" "uc_method r = ed25519_name"
      "uc_user r = str_or (dget (payload request) ''userId'') []"
      "sort_dict (uc_public_key r) = sort_dict (ed25519_public_jwk C k)" "strip cid = cid" "cid \<noteq> []"
    and "validity_seconds 3600 (dget (payload request) ''validitySeconds'') = Inr validity" "0 \<le> now0"
      "now0 + of_int validity < of_nat utc_limit" "of_int \<lfloor>now0\<rfloor> \<le> now1" "now1 \<le> of_int \<lfloor>now0 + of_int validity\<rfloor>"
      "utc_text now2 = Inr issued"
  shows "\<exists>s sm resp' st2 token. ed25519_user_signer C cid k = Inr s \<and> sign_user_mandate_with_signer m s None = Inr sm
    \<and> intent_complete cfg now1 now2 tid nonce st1 [(''signedMandate'', PDict sm)] = (Inr resp', st2)
    \<and> ir_approved resp' \<and> ir_token resp' = Some token
    \<and> (\<forall>now action params. now \<le> of_int \<lfloor>now0 + of_int validity\<rfloor> \<longrightarrow>
        verify_intent_token C (cfg_env cfg) now token action params None None None
        = Inr (params_match_intent_scope (as_dict (dget m ''intent'')) action params))"
  by (rule mem_ed25519.intent_flow [OF assms]) blast

theorem intent_flow_completes_witness:
  "\<exists>resp st1 m s sm resp' st2.
     intent_prepare (demo_config memory_store) 1000 ''t'' (demo_state demo_store) demo_intent_request = (Inr resp, st1)
     \<and> ir_mandate resp = Some m \<and> ed25519_user_signer demo_crypto ''cred_1'' () = Inr s
     \<and> sign_user_mandate_with_signer m s None = Inr sm
     \<and> intent_complete (demo_config memory_store) 1000 1000 ''tid'' ''n'' st1 [(''signedMandate'', PDict sm)] = (Inr resp', st2)
     \<and> ir_approved resp'"
proof (rule demo_intent_prepared)
  fix resp st1 m
  assume *: "intent_prepare (demo_config memory_store) 1000 ''t'' (demo_state demo_store) demo_intent_request = (Inr resp, st1)"
    "ir_mandate resp = Some m"
  from intent_flow_completes [OF demo_crypto_laws demo_facts(1,2,3,5,9) * demo_facts(7) demo_store_facts(3)
      demo_users(1) demo_store_facts(5) demo_strip(4) _ demo_times(1,4,5,7,8,3), of "''tid''" "''n''"] *
  show ?thesis by fastforce
qed

text \<open>
  C6. A prepared operation signed with the key of a registered Ed25519 credential before it expires is
  approved, under the identifier of its mandate, and is no longer pending afterwards.
\<close>

theorem operation_flow_completes:
  assumes "ed25519_laws C"
    and "cfg_crypto cfg = C" "cfg_method cfg = Some (ed25519_method C memory_store)" "cfg_require cfg"
    and "mem_inv (st_method st)" "wf_val request"
    and "operation_prepare cfg t0 now0 tok st request = (Inr ch, st1)" "oc_mandate ch = Some m"
    and "keys_distinct (st_operations st)"
    and "mem_contents (st_method st) cid = Some r" "uc_method r = ed25519_name"
      "uc_user r = str_or (dget (payload request) ''userId'') []"
      "sort_dict (uc_public_key r) = sort_dict (ed25519_public_jwk C k)" "strip cid = cid" "cid \<noteq> []"
    and "validity_seconds 300 (dget (payload request) ''validitySeconds'') = Inr validity" "0 \<le> now0"
      "now0 + of_int validity < of_nat utc_limit" "now1 < of_int \<lfloor>now0 + of_int validity\<rfloor>"
      "now2 \<le> of_int \<lfloor>now0 + of_int validity\<rfloor>"
  shows "\<exists>s sm res st2 oid. ed25519_user_signer C cid k = Inr s \<and> sign_user_mandate_with_signer m s None = Inr sm
    \<and> operation_complete cfg now1 now2 st1
        (PDict [(''signedMandate'', PDict sm), (''operation'', dget (payload request) ''operation'')]) = (Inr res, st2)
    \<and> or_approved res \<and> or_operation res = Some oid \<and> mandate_identifier m = Inr oid
    \<and> map_of (st_operations st2) oid = None"
  by (rule mem_ed25519.operation_flow [OF assms]) blast

theorem operation_flow_completes_witness:
  "\<exists>ch st1 m s sm res st2.
     operation_prepare (demo_config memory_store) 1000 1000 ''t'' (demo_state demo_store) demo_operation_request = (Inr ch, st1)
     \<and> oc_mandate ch = Some m \<and> ed25519_user_signer demo_crypto ''cred_1'' () = Inr s
     \<and> sign_user_mandate_with_signer m s None = Inr sm
     \<and> operation_complete (demo_config memory_store) 1000 1000 st1 (PDict [(''signedMandate'', PDict sm),
         (''operation'', dget (payload demo_operation_request) ''operation'')]) = (Inr res, st2) \<and> or_approved res"
proof (rule demo_operation_prepared)
  fix ch st1 m
  assume *: "operation_prepare (demo_config memory_store) 1000 1000 ''t'' (demo_state demo_store) demo_operation_request
      = (Inr ch, st1)" "oc_mandate ch = Some m"
  from operation_flow_completes [OF demo_crypto_laws demo_facts(1,2,3,5,10) * demo_facts(8,7) demo_store_facts(3)
      demo_users(2) demo_store_facts(5) demo_strip(4) _ demo_times(2,4,6,9,10)] *
  show ?thesis by fastforce
qed

text \<open>
  C7. The token of an approved intent carries the identifier, the user, the expiry and the scope of the mandate
  the server created for the pending request: completing cannot widen what was prepared.
\<close>

theorem token_grants_prepared:
  assumes "intent_pending_inv cfg st" "wf_val (PDict request)"
    and "intent_complete cfg now1 now2 tid nonce st request = (Inr resp, st')" "ir_approved resp"
  shows "\<exists>pend now0 tok user mid m token sc. map_of (st_intents st) mid = Some pend
    \<and> intent_new_mandate cfg now0 tok (pi_request pend) = Inr (user, mid, m) \<and> pi_mandate pend = m
    \<and> ir_token resp = Some token \<and> dget token ''mandateId'' = PStr mid
    \<and> dget token ''user'' = PDict [(''id'', PStr user)]
    \<and> dget token ''expireAt'' = PStr (text_of (dget (as_dict (dget m ''validTime'')) ''end''))
    \<and> dget token ''intent'' = PDict sc \<and> py_eq (PDict sc) (dget m ''intent'')
    \<and> map_of (st_intents st') mid = None"
  by (rule intent_complete_grants [OF assms]) blast

theorem token_grants_prepared_witness:
  "\<exists>st request resp st' token user. intent_complete (demo_config memory_store) 1000 1000 ''tid'' ''n'' st request = (Inr resp, st')
     \<and> ir_token resp = Some token \<and> dget token ''user'' = PDict [(''id'', PStr user)]"
proof (rule demo_intent_approved)
  fix st request resp st'
  assume *: "intent_pending_inv (demo_config memory_store) st" "wf_val (PDict request)"
    "intent_complete (demo_config memory_store) 1000 1000 ''tid'' ''n'' st request = (Inr resp, st')" "ir_approved resp"
  from token_grants_prepared [OF *] * show ?thesis by blast
qed

text \<open>
  C8. A valid answer of \<open>verify_token\<close>: the token is an intent token signed by the server, not expired, bound to
  the expected agent and user where these are given, its scope allows the action with these parameters,
  and the usage store counted the execution.
\<close>

theorem token_verification_sound:
  assumes "intent_verify_token cfg now av snow st request = (Inr resp, st')" "tr_valid resp"
  shows "\<exists>token expected core k x usage us. as_dict (dget (payload request) ''token'') = token
    \<and> as_dict (dget (payload request) ''expected'') = expected
    \<and> dget token ''type'' = PStr token_type \<and> intent_token_core_payload token = Inr core
    \<and> intent_server_signing_key (cfg_crypto cfg) (cfg_env cfg) = Inr k
    \<and> ed25519_verify_text (cfg_crypto cfg) (token_payload core) (text_of (dget token ''signature'')) (cr_public (cfg_crypto cfg) k)
    \<and> parse_utc (text_of (dget token ''expireAt'')) = Some x \<and> now \<le> of_int x
    \<and> \<not> expectation_fails (str_option (dget expected ''agentId'')) (text_of (dget (as_dict (dget token ''subject'')) ''id''))
    \<and> \<not> expectation_fails (str_option (dget expected ''userId'')) (text_of (dget (as_dict (dget token ''user'')) ''id''))
    \<and> fst (params_match_intent_scope (as_dict (dget token ''intent'')) (str_or (dget expected ''action'') [])
        (as_dict (dget expected ''params'')))
    \<and> consume_token_usage cfg av snow (st_usage st) token = (Inr (Inr usage), us) \<and> st' = st\<lparr>st_usage := us\<rparr>"
proof (cases rule: intent_verify_token_cases [of cfg now av snow st request])
  case (rejected r)
  with assms show ?thesis by simp
next
  case (checked why u us r)
  with assms obtain usage where u: "u = Inr (Inr usage)" "st' = st\<lparr>st_usage := us\<rparr>" by auto
  show ?thesis
    by (rule verify_intent_token_True [OF checked(1)], intro exI conjI, rule refl, rule refl, assumption+,
        erule check_token_binding_True, erule check_token_binding_True, erule check_token_binding_True)
      (use checked(2) u in simp_all)
qed

theorem token_verification_sound_witness:
  "\<exists>resp st' usage us. intent_verify_token (demo_config memory_store) 1000 True 1000 (demo_state demo_store) demo_token_request
       = (Inr resp, st') \<and> tr_valid resp
     \<and> consume_token_usage (demo_config memory_store) True 1000 [] demo_token = (Inr (Inr usage), us)"
proof -
  obtain resp st' where *: "intent_verify_token (demo_config memory_store) 1000 True 1000 (demo_state demo_store)
      demo_token_request = (Inr resp, st')" "tr_valid resp"
    using demo_token_accepted [of memory_store demo_store] by blast
  have "as_dict (dget (payload demo_token_request) ''token'') = demo_token" "st_usage (demo_state demo_store) = []"
    by (simp_all add: demo_token_request_def payload_def demo_state_def)
  with token_verification_sound [OF *] * show ?thesis by auto
qed

text \<open>
  C9. The scope check of an action is exactly: the action has a name and some action of the scope allows it,
  by name, with every constrained parameter present and matching and no other parameter unless allowed.
\<close>

theorem scope_check_exact:
  "fst (params_match_intent_scope intent action params) \<longleftrightarrow>
   strip action \<noteq> [] \<and> (\<exists>as. normalize_action_specs (dget intent ''actions'') = Inr as
     \<and> scope_allows as (strip action) params)"
  by (rule params_match_iff)

section \<open>Data: canonical forms, keys and times\<close>

text \<open>
  Normalization is idempotent: a normalized scope, intent mandate or operation mandate is its own normal form,
  so the payload that is signed is the payload that is checked.
\<close>

theorem normalization_idempotent:
  "(normalize_intent_scope v = Inr sc \<longrightarrow> normalize_intent_scope (PDict sc) = Inr sc)
   \<and> (normalize_intent_mandate m = Inr n \<longrightarrow> normalize_intent_mandate n = Inr n)
   \<and> (normalize_operation_mandate m' = Inr n' \<longrightarrow> normalize_operation_mandate n' = Inr n')"
  using normalize_intent_scope_idem normalize_intent_mandate_idem normalize_operation_mandate_idem by blast

theorem normalization_idempotent_witness:
  "normalize_intent_scope (PDict demo_token_scope) = Inr demo_token_scope \<and>
   normalize_operation_mandate [(''type'', PStr operation_type)] = normalize_operation_mandate [(''type'', PStr operation_type)]"
  using normalization_idempotent [of "PDict demo_token_scope" demo_token_scope "[]" "[]" "[]" "[]"] by simp

text \<open>
  C10. The canonical JSON text determines the signed value up to the order of dictionary keys: two values have the
  same canonical text exactly when they are equal after sorting the keys.
\<close>

theorem canonical_json_injective: "canonical_json v = canonical_json w \<longleftrightarrow> sort_keys v = sort_keys w"
  by (rule canonical_json_iff)

text \<open>Time stamps round trip: every second the platform can print is read back by the validity checks.\<close>

theorem timestamp_roundtrip:
  assumes "0 \<le> t" "t < of_nat utc_limit"
  shows "\<exists>s. utc_text t = Inr s \<and> parse_utc s = Some \<lfloor>t\<rfloor>"
proof -
  have "\<lfloor>t\<rfloor> \<le> gmtime_max" using assms(2) by (simp add: gmtime_max_def utc_limit_def floor_le_iff)
  then have "utc_text t = Inr (iso_text (nat \<lfloor>t\<rfloor>))" using assms(1) by (simp add: utc_text_def)
  with utc_text_parse(1) [OF this assms] show ?thesis by blast
qed

theorem timestamp_roundtrip_witness: "\<exists>s. utc_text (1700000000 + 1 / 2) = Inr s \<and> parse_utc s = Some 1700000000"
proof -
  have "\<lfloor>1700000000 + 1 / 2 :: rat\<rfloor> = 1700000000" by (simp add: floor_eq_iff)
  with timestamp_roundtrip [of "1700000000 + 1 / 2"] show ?thesis by (simp add: utc_limit_def)
qed

text \<open>
  The public key texts that are accepted are exactly the unpadded base64url texts of 32 bytes, so a key has one
  accepted text.
\<close>

theorem public_key_text_exact:
  "ed25519_public_key_from_base64url C v = Inr k \<longleftrightarrow>
   (\<exists>raw. length raw = 32 \<and> v = b64url_encode raw \<and> k = cr_public_of C raw)"
  by (rule public_key_accepted_iff)

text \<open>In production a server key comes from its environment variable and is never the built-in development key.\<close>

theorem production_key_configured:
  assumes "is_production_environment env" "ed25519_private_key_from_env C env name label purpose = Inr k"
  shows "\<exists>raw. env name = Some raw \<and> strip raw \<noteq> [] \<and> strip raw \<noteq> label
    \<and> load_ed25519_private_key C name (strip raw) = Inr k"
  by (rule private_key_in_production [OF assms])

theorem production_key_configured_witness:
  "\<exists>raw. demo_production_env ''A4P_KEY'' = Some raw \<and> strip raw \<noteq> ''label''
    \<and> load_ed25519_private_key demo_crypto ''A4P_KEY'' (strip raw) = Inr ()"
  using production_key_configured [OF demo_production demo_production_key] by blast

section \<open>Credentials\<close>

text \<open>
  Whatever registrations run against an empty credential file, every Ed25519 credential of the file has a valid
  key and no two credentials share one.
\<close>

theorem registered_keys_unique:
  "ed25519_keys_inv (file_contents (ed25519_register_all C json_file_store \<lparr>fs_records = [], fs_file = None\<rparr> reqs))"
  by (rule json_ed25519.register_all_inv [THEN conjunct2])
    (simp_all add: file_inv_def file_contents_def mem_inv_def mem_contents_def ed25519_keys_inv_def)

text \<open>Registering a key that another user already registered is refused, on the credential file as in memory.\<close>

theorem key_conflict_refused:
  assumes "file_inv st" "ed25519_keys_inv (file_contents st)"
    and "register_fields C req = Inr (user, okp_jwk (b64url_encode raw), md)"
    and "file_contents st c = Some r" "ed25519_key r raw" "uc_user r \<noteq> user"
  shows "fst (ed25519_register C json_file_store token now st req) = Inl CredentialKeyConflict"
  by (rule json_ed25519.register_conflict [OF assms])

theorem key_conflict_refused_witness:
  "fst (ed25519_register demo_crypto json_file_store ''x'' 1000 demo_file
     [(''userId'', PStr ''bob''), (''publicKey'', PDict (okp_jwk (b64url_encode (replicate 32 0))))]) = Inl CredentialKeyConflict"
  by (rule key_conflict_refused [OF demo_file_facts(1,2) demo_bob_fields demo_file_facts(3,4)]) (simp add: demo_credential_def)

text \<open>
  A credential that was saved is found again under its identifier, from the file after a reload, with the same
  fields; the dictionaries may come back with their keys sorted.
\<close>

theorem credential_file_roundtrip:
  assumes "file_inv st"
  shows "\<exists>r' st'. cs_get json_file_store (cs_save json_file_store r st) (uc_credential r) = Inr (Some r', st')
    \<and> norm_cred r' = norm_cred r"
  by (rule json.get_after_save [OF assms])

theorem credential_file_roundtrip_witness:
  "\<exists>r' st'. cs_get json_file_store (cs_save json_file_store (demo_credential\<lparr>uc_credential := ''cred_2''\<rparr>) demo_file) ''cred_2''
     = Inr (Some r', st') \<and> norm_cred r' = norm_cred (demo_credential\<lparr>uc_credential := ''cred_2''\<rparr>)"
  using credential_file_roundtrip [OF demo_file_facts(1), of "demo_credential\<lparr>uc_credential := ''cred_2''\<rparr>"] by simp

section \<open>The user's side\<close>

text \<open>
  C11. A user's device configured with the server's published trust configuration accepts every mandate the server
  creates under its own identity, and reads the same signed core from it.
\<close>

theorem server_mandates_accepted:
  assumes "ed25519_laws (cfg_crypto cfg)" "strip (cfg_server_id cfg) = cfg_server_id cfg" "cfg_server_id cfg \<noteq> []"
    and "server_trust_config cfg = Inr d" "trust_store_init (cfg_crypto cfg) d = Inr ts" "\<not> truthy (dget req ''server'')"
  shows "(intent_new_mandate cfg now tok req = Inr (user, mid, m) \<longrightarrow>
      (\<exists>core. verify_trusted_server_mandate (cfg_crypto cfg) ts m = Inr core \<and> intent_mandate_core_payload m = Inr core))
    \<and> (operation_new_mandate cfg now tok req = Inr (user, op, oid, m) \<longrightarrow>
      (\<exists>core. verify_trusted_server_mandate (cfg_crypto cfg) ts m = Inr core \<and> operation_mandate_core_payload m = Inr core))"
  using server_mandates_trusted [OF assms(1-5)] assms(6) by blast

theorem server_mandates_accepted_witness:
  "\<exists>ts m core. intent_new_mandate (demo_config memory_store) 1000 ''t'' (payload demo_intent_request) = Inr (''alice'', ''mdt_t'', m)
     \<and> verify_trusted_server_mandate demo_crypto ts m = Inr core"
proof -
  let ?cfg = "demo_config memory_store"
  have c: "ed25519_laws (cfg_crypto ?cfg)" "strip (cfg_server_id ?cfg) = cfg_server_id ?cfg" "cfg_server_id ?cfg \<noteq> []"
    "intent_server_signing_key (cfg_crypto ?cfg) (cfg_env ?cfg) = Inr ()"
    "operation_server_signing_key (cfg_crypto ?cfg) (cfg_env ?cfg) = Inr ()"
    using demo_crypto_laws by (simp_all add: demo_config_def)
  obtain d ts where d: "server_trust_config ?cfg = Inr d" "trust_store_init (cfg_crypto ?cfg) d = Inr ts"
    by (rule server_trust_config_keys [OF c])
  obtain m where m: "intent_new_mandate ?cfg 1000 ''t'' (payload demo_intent_request) = Inr (''alice'', ''mdt_t'', m)"
    using demo_intent_new [of memory_store] by blast
  have "\<not> truthy (dget (payload demo_intent_request) ''server'')" by (simp add: demo_intent_request_def payload_def)
  from server_mandates_accepted [OF c(1-3) d this, THEN conjunct1, THEN mp, OF m] m
  show ?thesis by (auto simp: demo_facts(1))
qed

text \<open>
  Before a user signs, the device has checked a mandate against its trusted server keys and its validity; for
  WebAuthn the challenge it signs is derived from this very mandate and user verification is required.
\<close>

theorem local_check_sound:
  assumes "verify_local_user_authorization_request C ts (Some ''webauthn'') now req = Inr opts"
  shows "\<exists>core sv pk ua required. mandate_core_payload (ua_mandate req) = Inr core
    \<and> dget (as_dict (dget (ua_mandate req) ''signatures'')) ''server'' = PDict sv
    \<and> map_of ts (text_of (dget core ''server''), text_of (dget sv ''keyId'')) = Some (text_of (dget sv ''alg''), pk)
    \<and> ed25519_verify_text C (server_payload core) (text_of (dget sv ''signature'')) pk
    \<and> verify_mandate_valid_time now core = Inr ()
    \<and> dget core ''userAuthorization'' = PDict ua \<and> dget ua ''required'' = PBool required
    \<and> (if required then \<exists>mo challenge. text_of (dget ua ''signatureMethod'') = ''webauthn''
         \<and> dget opts ''methodOptions'' = PDict mo
         \<and> user_authorization_challenge_base64url C (ua_mandate req) = Inr challenge
         \<and> dget mo ''challenge'' = PStr challenge \<and> dget mo ''userVerification'' = PStr ''required''
       else opts = [])"
proof (rule verify_local_sound [OF assms], goal_cases)
  case (1 core ua required)
  have "\<exists>mo challenge. dget opts ''methodOptions'' = PDict mo
         \<and> user_authorization_challenge_base64url C (ua_mandate req) = Inr challenge
         \<and> dget mo ''challenge'' = PStr challenge \<and> dget mo ''userVerification'' = PStr ''required''" if required
    by (rule harden_options_webauthn [of C "ua_mandate req" "ua_options req" opts]) (use 1(5,6) that in auto)
  then show ?case
    using verify_trusted_server_mandate_sound [OF 1(1)] 1 by auto
qed

theorem local_check_sound_witness:
  "\<exists>opts mo challenge. verify_local_user_authorization_request demo_crypto demo_trust (Some ''webauthn'') 1000 demo_device_request
      = Inr opts \<and> dget opts ''methodOptions'' = PDict mo
     \<and> user_authorization_challenge_base64url demo_crypto demo_device_mandate = Inr challenge
     \<and> dget mo ''challenge'' = PStr challenge"
proof -
  obtain opts where o: "verify_local_user_authorization_request demo_crypto demo_trust (Some ''webauthn'') 1000
      demo_device_request = Inr opts"
    using demo_local_check by blast
  have m: "ua_mandate demo_device_request = demo_device_mandate"
    "dget (as_dict (dget demo_device_core ''userAuthorization'')) ''required'' = PBool True"
    "mandate_core_payload demo_device_mandate = Inr demo_device_core"
    using demo_device_facts by (simp_all add: demo_device_request_def)
  from local_check_sound [OF o] show ?thesis
    using o m by (auto split: if_splits)
qed

text \<open>
  The validity checks are exact: an intent mandate passes from its start to its end, an operation mandate up to
  its deadline, both inclusive, and not with times that cannot be read.
\<close>

theorem valid_time_exact:
  assumes "dget core ''validTime'' = PDict vt"
  shows "(dget core ''type'' = PStr intent_type \<longrightarrow> (verify_mandate_valid_time now core = Inr () \<longleftrightarrow>
      (\<exists>s e. truthy (dget vt ''start'') \<and> truthy (dget vt ''end'')
        \<and> parse_utc (py_str (dget vt ''start'')) = Some s \<and> parse_utc (py_str (dget vt ''end'')) = Some e
        \<and> of_int s \<le> now \<and> now \<le> of_int e)))
    \<and> (dget core ''type'' = PStr operation_type \<longrightarrow> (verify_mandate_valid_time now core = Inr () \<longleftrightarrow>
      (\<exists>u. truthy (dget vt ''until'') \<and> parse_utc (py_str (dget vt ''until'')) = Some u \<and> now \<le> of_int u)))"
  using valid_time_intent_iff [OF _ assms] valid_time_operation_iff [OF _ assms] by blast

theorem valid_time_exact_witness:
  "verify_mandate_valid_time 4600 [(''type'', PStr operation_type), (''validTime'', PDict [(''until'', PStr (iso_text 4600))])] = Inr ()"
  using valid_time_exact [of "[(''type'', PStr operation_type), (''validTime'', PDict [(''until'', PStr (iso_text 4600))])]"
      "[(''until'', PStr (iso_text 4600))]" 4600] by (simp add: py_str_def)

section \<open>State and boundary cases\<close>

text \<open>
  C12. Every state a server reaches from its construction keeps its invariant: each pending entry holds the mandate
  the server created for the recorded request, under the mandate's identifier and with its deadline.
\<close>

theorem reachable_states_consistent:
  assumes "server_init cfg ms us = Inr st"
  shows "server_inv cfg (snd (server_run cfg store st cs))"
  by (rule server_run_inv [OF server_inv_init [OF assms]])

theorem reachable_states_consistent_witness:
  "server_inv (demo_config memory_store) (snd (server_run (demo_config memory_store) (Some memory_store) (demo_state demo_store)
     [PrepareIntent 1000 ''t'' demo_intent_request, PrepareOperation 1000 1000 ''u'' demo_operation_request]))"
  by (rule reachable_states_consistent [of _ demo_store "[]"])
    (simp add: server_init_def demo_config_def demo_state_def ed25519_method_def strip_no_space is_space_def lower_def lower_char_def)

text \<open>
  One call of the SQLite usage store before the expiry grants the execution and counts it exactly when executions
  are left, and otherwise reports the recorded count.
\<close>

theorem usage_store_exact:
  assumes "usage_inv tab" "now < x" "strip t \<noteq> []" "0 < n" "0 < x" "same_policy tab t n x"
  shows "fst (sqlite_consume True now tab t (PInt n) (PInt x)) =
    Inr (if executions_of tab t x < n then (True, executions_of tab t x + 1) else (False, executions_of tab t x))"
  by (rule sqlite_consume_result [OF assms])

theorem usage_store_exact_witness: "fst (sqlite_consume True 1000 [] ''tok_1'' (PInt 2) (PInt 4600)) = Inr (True, 1)"
  using usage_store_exact [of "[]" 1000 4600 "''tok_1''" 2]
  by (simp add: usage_inv_def same_policy_def executions_of_def strip_no_space is_space_def)

text \<open>
  Sending a completion again after it was approved is refused, for intents and for operations, at any later time.
\<close>

theorem replay_refused:
  "(intent_complete cfg now1 now2 tid nonce st request = (Inr resp, st1) \<and> ir_approved resp \<longrightarrow>
      (\<exists>mid. intent_complete cfg now3 now4 tid' nonce' st1 request =
        (Inr (intent_rejected None (''No pending intent authorization: '' @ mid)
           (vr_fail ''No pending intent authorization'' ''AUTHORIZATION_NOT_PENDING'')), st1)))
   \<and> (operation_complete cfg now1 now2 st orequest = (Inr res, st2) \<and> or_approved res \<and> keys_distinct (st_operations st) \<longrightarrow>
      (\<exists>oid. or_operation res = Some oid \<and>
        fst (operation_complete cfg now3 now4 st2 orequest) = Inr \<lparr>or_operation = None, or_approved = False,
          or_result = Some (vr_fail ''No pending operation authorization'' ''AUTHORIZATION_NOT_PENDING''),
          or_reason = Some (''No pending operation authorization: '' @ oid)\<rparr>))"
  by (intro conjI impI; elim conjE; rule intent_replay operation_replay; assumption)

theorem replay_refused_witness:
  "\<exists>st request resp st1 mid. intent_complete (demo_config memory_store) 1000 1000 ''tid'' ''n'' st request = (Inr resp, st1)
     \<and> ir_approved resp \<and> intent_complete (demo_config memory_store) 1001 1001 ''tid2'' ''n2'' st1 request =
        (Inr (intent_rejected None (''No pending intent authorization: '' @ mid)
           (vr_fail ''No pending intent authorization'' ''AUTHORIZATION_NOT_PENDING'')), st1)"
proof (rule demo_intent_approved)
  fix st request resp st'
  assume *: "intent_complete (demo_config memory_store) 1000 1000 ''tid'' ''n'' st request = (Inr resp, st')" "ir_approved resp"
  then show ?thesis
    using replay_refused [where cfg = "demo_config memory_store" and ?now1.0 = 1000 and ?now2.0 = 1000 and tid = "''tid''"
      and nonce = "''n''" and st = st and request = request and resp = resp and ?st1.0 = st' and ?now3.0 = 1001 and ?now4.0 = 1001
      and tid' = "''tid2''" and nonce' = "''n2''"] by blast
qed

text \<open>
  A completion whose mandate has a list or an object as its type is not answered with a refusal: the handlers
  raise \<open>TypeError\<close>; no approval is given and no pending entry is used up.
\<close>

theorem unhashable_type_raises:
  assumes "\<not> hashable (dget sm ''type'')"
  shows "intent_complete cfg now1 now2 tid nonce st [(''signedMandate'', PDict sm)] = (Inl (TypeError ''unhashable type''), st)
    \<and> operation_complete cfg now1 now2 st (PDict [(''signedMandate'', PDict sm), (''operation'', op)])
      = (Inl (TypeError ''unhashable type''), prune_expired now1 st)"
  using assms by (intro conjI intent_complete_unhashable operation_complete_unhashable) (simp_all add: payload_def)

theorem unhashable_type_raises_witness:
  "fst (intent_complete (demo_config memory_store) 1000 1000 ''tid'' ''n'' (demo_state demo_store)
     [(''signedMandate'', PDict [(''type'', PList [])])]) = Inl (TypeError ''unhashable type'')"
  using unhashable_type_raises [of "[(''type'', PList [])]" "demo_config memory_store" 1000 1000 "''tid''" "''n''"
      "demo_state demo_store"] by simp

text \<open>
  C13. From the second of the expiry on, the usage store has purged the row of a token, and a call that reaches it
  grants a first execution again, whatever was spent before.
\<close>

theorem expired_usage_granted_again:
  assumes "usage_inv tab" "strip t \<noteq> []" "0 < n" "0 < x" "x \<le> now" "same_policy tab t n x"
  shows "fst (sqlite_consume True now tab t (PInt n) (PInt x)) = Inr (True, 1)"
  by (rule sqlite_regrant_at_expiry [OF assms])

theorem expired_usage_granted_again_witness:
  "fst (sqlite_consume True 4600 [(''tok_1'', \<lparr>executions_used = 2, executions_limit = 2, expire_at_epoch = 4600\<rparr>)]
     ''tok_1'' (PInt 2) (PInt 4600)) = Inr (True, 1)"
  by (rule expired_usage_granted_again) (simp_all add: usage_inv_def same_policy_def strip_no_space is_space_def)

text \<open>
  The payload encoding of the HTTP layer drops null values, also inside a signed mandate: an operation with a
  null parameter comes back as a mandate that differs from the pending one, whatever the user signs.
\<close>

theorem null_parameter_lost:
  assumes "operation_new_mandate cfg now tok req = Inr (user, op, oid, m)"
    and "dget op ''params'' = PDict ps" "(k, PNone) \<in> set ps"
  shows "mandate_matches_pending normalize_operation_mandate
    (attach_user_signature (as_dict (to_payload (PDict m))) sig) m = Inr False"
  by (rule null_param_mismatch [OF assms])

theorem null_parameter_lost_witness:
  "\<exists>op m. operation_new_mandate (demo_config memory_store) 1000 ''t'' (payload demo_null_request) = Inr (''alice'', op, ''op_t'', m)
     \<and> mandate_matches_pending normalize_operation_mandate (attach_user_signature (as_dict (to_payload (PDict m))) []) m = Inr False"
proof -
  obtain m where m: "operation_new_mandate (demo_config memory_store) 1000 ''t'' (payload demo_null_request)
     = Inr (''alice'', [(''action'', PStr ''pay''), (''params'', PDict [(''memo'', PNone)])], ''op_t'', m)"
    using demo_null_new [of memory_store] by blast
  from null_parameter_lost [OF m, of "[(''memo'', PNone)]" "''memo''" "[]"] m show ?thesis by simp
qed

end
